(* ===== verification/Mettle_Prelude.thy ===== *)
theory Mettle_Prelude
  imports Main "HOL-Library.Word"
begin

text \<open>
  Shared ground of the development: names for the C types of the sources, the few pieces of the C
  standard library the modelled functions call (character classes, \<open>strlen\<close>, the \<open>%lu\<close> conversion),
  the collections of rewrite rules the component theories fill, and lemmas on lists that more than
  one component uses.

  Conventions. A \<open>size_t\<close> that counts bytes or records held in memory is a \<open>nat\<close>: such a count is
  bounded by the address space. A fixed-width integer whose bits or wrap-around matter (\<open>uint16_t\<close>,
  \<open>uint32_t\<close>, \<open>uint64_t\<close>, the hash values) is a word of that width. A C string is the list of its
  characters without the terminating NUL. A pointer that may be \<open>NULL\<close> is an \<open>option\<close>.
\<close>

unbundle bit_operations_syntax

section \<open>Names for the C types\<close>

type_synonym u8 = "8 word"
type_synonym u16 = "16 word"
type_synonym u32 = "32 word"
type_synonym u64 = "64 word"
type_synonym bytes = "u8 list"
type_synonym address = nat

named_theorems lexer_frame \<open>what the scanning steps of the lexer leave alone\<close>
named_theorems scope_simps \<open>unfolding rules of the symbol-table operations\<close>
named_theorems coff_simps \<open>unfolding rules of the object reader\<close>
named_theorems link_simps \<open>unfolding rules of the linker\<close>

section \<open>The C library functions the sources call\<close>

text \<open>The character classes of \<open>ctype.h\<close> in the C locale.\<close>

definition c_isspace :: "char \<Rightarrow> bool" where
  "c_isspace c = (c \<in> {CHR '' '', CHR 0x09, CHR 0x0A, CHR 0x0B, CHR 0x0C, CHR 0x0D})"

definition c_isdigit :: "char \<Rightarrow> bool" where
  "c_isdigit c = (48 \<le> (of_char c :: nat) \<and> (of_char c :: nat) \<le> 57)"

definition c_isupper :: "char \<Rightarrow> bool" where
  "c_isupper c = (65 \<le> (of_char c :: nat) \<and> (of_char c :: nat) \<le> 90)"

definition c_islower :: "char \<Rightarrow> bool" where
  "c_islower c = (97 \<le> (of_char c :: nat) \<and> (of_char c :: nat) \<le> 122)"

definition c_isalpha :: "char \<Rightarrow> bool" where
  "c_isalpha c = (c_isupper c \<or> c_islower c)"

definition c_isalnum :: "char \<Rightarrow> bool" where
  "c_isalnum c = (c_isalpha c \<or> c_isdigit c)"

definition c_isxdigit :: "char \<Rightarrow> bool" where
  "c_isxdigit c = (c_isdigit c \<or>
     (65 \<le> (of_char c :: nat) \<and> (of_char c :: nat) \<le> 70) \<or>
     (97 \<le> (of_char c :: nat) \<and> (of_char c :: nat) \<le> 102))"

definition c_tolower :: "char \<Rightarrow> char" where
  "c_tolower c = (if c_isupper c then char_of ((of_char c :: nat) + 32) else c)"

text \<open>\<open>strlen\<close> reads up to the first NUL: the C string that a character array denotes.\<close>

definition c_string :: "string \<Rightarrow> string" where
  "c_string s = takeWhile (\<lambda>c. c \<noteq> CHR 0x00) s"

text \<open>\<open>strcasecmp (a, b) == 0\<close>.\<close>

definition c_strcaseeq :: "string \<Rightarrow> string \<Rightarrow> bool" where
  "c_strcaseeq a b = (map c_tolower a = map c_tolower b)"

text \<open>The \<open>%lu\<close> and \<open>%d\<close> conversions of a number that is not negative.\<close>

fun show_nat :: "nat \<Rightarrow> string" where
  "show_nat n = (if n < 10 then [char_of (n + 48)] else show_nat (n div 10) @ [char_of (n mod 10 + 48)])"

declare show_nat.simps [simp del]

lemma c_string_no_nul [simp]: "CHR 0x00 \<notin> set (c_string s)"
  by (auto simp: c_string_def dest: set_takeWhileD)

lemma c_string_id [simp]: "CHR 0x00 \<notin> set s \<Longrightarrow> c_string s = s"
  by (auto simp: c_string_def takeWhile_eq_all_conv)

lemma show_nat_digits: "c \<in> set (show_nat n) \<Longrightarrow> c_isdigit c"
proof (induction n arbitrary: c rule: show_nat.induct)
  case (1 n)
  have lo: "m < 10 \<Longrightarrow> c_isdigit (char_of (m + 48 :: nat))" for m
    by (simp add: c_isdigit_def)
  show ?case
  proof (cases "n < 10")
    case True
    with "1.prems" lo show ?thesis by (subst (asm) show_nat.simps) simp
  next
    case False
    with "1.prems" have "c \<in> set (show_nat (n div 10)) \<or> c = char_of (n mod 10 + 48)"
      by (subst (asm) show_nat.simps) auto
    with "1.IH" False lo [of "n mod 10"] show ?thesis by auto
  qed
qed

section \<open>Lists and options\<close>

lemma length_takeWhile_drop_le:
  "length (takeWhile P (drop k xs)) \<le> length xs - k"
  using length_takeWhile_le [of P "drop k xs"] by simp

lemma takeWhile_drop_step:
  "k < length xs \<Longrightarrow> P (xs ! k) \<Longrightarrow>
   length (takeWhile P (drop k xs)) = Suc (length (takeWhile P (drop (Suc k) xs)))"
  by (simp add: Cons_nth_drop_Suc [symmetric])

lemma takeWhile_drop_stop:
  "k \<ge> length xs \<or> \<not> P (xs ! k) \<Longrightarrow> takeWhile P (drop k xs) = []"
  by (cases "k < length xs") (auto simp: Cons_nth_drop_Suc [symmetric])

lemma find_Some_mem: "List.find P xs = Some x \<Longrightarrow> x \<in> set xs \<and> P x"
  by (auto simp: find_Some_iff)

lemma find_append:
  "List.find P (xs @ ys) = (case List.find P xs of None \<Rightarrow> List.find P ys | Some x \<Rightarrow> Some x)"
  by (induction xs) auto

lemma find_unique:
  assumes "x \<in> set xs" and "P x" and "\<And>y. y \<in> set xs \<Longrightarrow> P y \<Longrightarrow> y = x"
  shows "List.find P xs = Some x"
proof -
  have "List.find P xs \<noteq> None" using assms(1,2) by (auto simp: find_None_iff)
  then obtain y where "List.find P xs = Some y" by auto
  with assms(3) find_Some_mem show ?thesis by fastforce
qed

text \<open>Halving a number with a single bit set.\<close>

lemma single_bit_half:
  assumes "1 < (n :: nat)" "n AND (n - 1) = 0"
  shows "even n" "n div 2 AND (n div 2 - 1) = 0"
proof -
  have rec: "n AND (n - 1) = of_bool (odd n \<and> odd (n - 1)) + 2 * (n div 2 AND (n - 1) div 2)"
    by (rule and_rec)
  show even: "even n"
  proof (rule ccontr)
    assume "odd n"
    then have "(n - 1) div 2 = n div 2" using assms(1) by (auto elim!: oddE)
    with rec assms \<open>odd n\<close> show False by simp
  qed
  then have "(n - 1) div 2 = n div 2 - 1" using assms(1) by (auto elim!: evenE)
  with rec assms(2) even show "n div 2 AND (n div 2 - 1) = 0" by simp
qed

end
