(* ===== verification/Token.thy ===== *)
theory Token
  imports Mettle_Prelude
begin

text \<open>
  Tokens of \<^verbatim>\<open>src/src/lexer/lexer.h\<close>. The enumeration \<open>TokenType\<close> keeps the source's constructors, in the
  groups the header's comments name (keywords, type keywords, operators and punctuation, x86
  mnemonics, x86 registers), each group a datatype of its own.
\<close>

datatype (plugins only: code size) KeywordToken =
    TOKEN_IMPORT | TOKEN_IMPORT_STR | TOKEN_EXTERN | TOKEN_EXPORT | TOKEN_VAR | TOKEN_FUNCTION
  | TOKEN_STRUCT | TOKEN_ENUM | TOKEN_METHOD | TOKEN_RETURN | TOKEN_IF | TOKEN_ELSE | TOKEN_WHILE
  | TOKEN_FOR | TOKEN_SWITCH | TOKEN_CASE | TOKEN_DEFAULT | TOKEN_BREAK | TOKEN_CONTINUE
  | TOKEN_DEFER | TOKEN_ERRDEFER | TOKEN_ASM | TOKEN_THIS | TOKEN_NEW | TOKEN_TRAIT | TOKEN_IMPL
  | TOKEN_WHERE | TOKEN_FN | TOKEN_MATCH

datatype (plugins only: code size) TypeToken =
    TOKEN_INT8 | TOKEN_INT16 | TOKEN_INT32 | TOKEN_INT64 | TOKEN_UINT8 | TOKEN_UINT16
  | TOKEN_UINT32 | TOKEN_UINT64 | TOKEN_FLOAT32 | TOKEN_FLOAT64 | TOKEN_STRING_TYPE

datatype (plugins only: code size) PunctToken =
    TOKEN_COLON | TOKEN_SEMICOLON | TOKEN_COMMA | TOKEN_EQUALS | TOKEN_PLUS_EQUALS
  | TOKEN_MINUS_EQUALS | TOKEN_STAR_EQUALS | TOKEN_SLASH_EQUALS | TOKEN_PERCENT_EQUALS
  | TOKEN_AMP_EQUALS | TOKEN_PIPE_EQUALS | TOKEN_CARET_EQUALS | TOKEN_LSHIFT_EQUALS
  | TOKEN_RSHIFT_EQUALS | TOKEN_EQUALS_EQUALS | TOKEN_NOT_EQUALS | TOKEN_LESS_THAN
  | TOKEN_GREATER_THAN | TOKEN_LESS_EQUALS | TOKEN_GREATER_EQUALS | TOKEN_ARROW | TOKEN_LPAREN
  | TOKEN_RPAREN | TOKEN_LBRACE | TOKEN_RBRACE | TOKEN_LBRACKET | TOKEN_RBRACKET | TOKEN_PLUS
  | TOKEN_MINUS | TOKEN_MULTIPLY | TOKEN_AMPERSAND | TOKEN_PIPE | TOKEN_CARET | TOKEN_LSHIFT
  | TOKEN_RSHIFT | TOKEN_TILDE | TOKEN_AND_AND | TOKEN_OR_OR | TOKEN_DIVIDE | TOKEN_PERCENT
  | TOKEN_NOT | TOKEN_DOT | TOKEN_NEWLINE

datatype (plugins only: code size) MnemonicToken =
    TOKEN_MOV | TOKEN_ADD | TOKEN_SUB | TOKEN_MUL | TOKEN_DIV | TOKEN_IMUL | TOKEN_IDIV | TOKEN_INC
  | TOKEN_DEC | TOKEN_CMP | TOKEN_JMP | TOKEN_JE | TOKEN_JNE | TOKEN_JL | TOKEN_JLE | TOKEN_JG
  | TOKEN_JGE | TOKEN_CALL | TOKEN_RET | TOKEN_PUSH | TOKEN_POP | TOKEN_LEA | TOKEN_NOP | TOKEN_INT
  | TOKEN_SYSCALL

datatype (plugins only: code size) RegisterToken =
    TOKEN_EAX | TOKEN_EBX | TOKEN_ECX | TOKEN_EDX | TOKEN_ESI | TOKEN_EDI | TOKEN_ESP | TOKEN_EBP
  | TOKEN_RAX | TOKEN_RBX | TOKEN_RCX | TOKEN_RDX | TOKEN_RSI | TOKEN_RDI | TOKEN_RSP | TOKEN_RBP
  | TOKEN_R8 | TOKEN_R9 | TOKEN_R10 | TOKEN_R11 | TOKEN_R12 | TOKEN_R13 | TOKEN_R14 | TOKEN_R15

datatype (plugins only: code size) TokenType =
    TOKEN_EOF | TOKEN_IDENTIFIER | TOKEN_NUMBER | TOKEN_STRING
  | Keyword KeywordToken | TypeKeyword TypeToken | Punct PunctToken
  | Mnemonic MnemonicToken | Register RegisterToken | TOKEN_ERROR

text \<open>The string view of a token points into the source text or at the token's own value.\<close>

datatype StringView = NoView | SourceView nat nat | ValueView nat

record Token =
  tok_type :: TokenType
  tok_value :: "string option"
  tok_lexeme :: StringView
  tok_line :: nat
  tok_column :: nat
  tok_is_interned :: bool

section \<open>The spelling tables\<close>

text \<open>The chain of \<open>strcmp\<close> tests in the order of the source: the first match decides.\<close>

definition keyword_table :: "(string \<times> TokenType) list" where
  "keyword_table = [
    (''import'', Keyword TOKEN_IMPORT),
    (''import_str'', Keyword TOKEN_IMPORT_STR),
    (''extern'', Keyword TOKEN_EXTERN),
    (''export'', Keyword TOKEN_EXPORT),
    (''var'', Keyword TOKEN_VAR),
    (''function'', Keyword TOKEN_FUNCTION),
    (''struct'', Keyword TOKEN_STRUCT),
    (''enum'', Keyword TOKEN_ENUM),
    (''trait'', Keyword TOKEN_TRAIT),
    (''impl'', Keyword TOKEN_IMPL),
    (''where'', Keyword TOKEN_WHERE),
    (''method'', Keyword TOKEN_METHOD),
    (''return'', Keyword TOKEN_RETURN),
    (''if'', Keyword TOKEN_IF),
    (''else'', Keyword TOKEN_ELSE),
    (''while'', Keyword TOKEN_WHILE),
    (''for'', Keyword TOKEN_FOR),
    (''switch'', Keyword TOKEN_SWITCH),
    (''case'', Keyword TOKEN_CASE),
    (''default'', Keyword TOKEN_DEFAULT),
    (''break'', Keyword TOKEN_BREAK),
    (''continue'', Keyword TOKEN_CONTINUE),
    (''defer'', Keyword TOKEN_DEFER),
    (''errdefer'', Keyword TOKEN_ERRDEFER),
    (''asm'', Keyword TOKEN_ASM),
    (''this'', Keyword TOKEN_THIS),
    (''new'', Keyword TOKEN_NEW),
    (''fn'', Keyword TOKEN_FN),
    (''match'', Keyword TOKEN_MATCH),
    (''int8'', TypeKeyword TOKEN_INT8),
    (''int16'', TypeKeyword TOKEN_INT16),
    (''int32'', TypeKeyword TOKEN_INT32),
    (''int64'', TypeKeyword TOKEN_INT64),
    (''uint8'', TypeKeyword TOKEN_UINT8),
    (''uint16'', TypeKeyword TOKEN_UINT16),
    (''uint32'', TypeKeyword TOKEN_UINT32),
    (''uint64'', TypeKeyword TOKEN_UINT64),
    (''float32'', TypeKeyword TOKEN_FLOAT32),
    (''float64'', TypeKeyword TOKEN_FLOAT64),
    (''string'', TypeKeyword TOKEN_STRING_TYPE)]"

text \<open>The chain of \<open>strcasecmp\<close> tests that follows it: mnemonics and registers, in any case.\<close>

definition asm_word_table :: "(string \<times> TokenType) list" where
  "asm_word_table = [
    (''mov'', Mnemonic TOKEN_MOV),
    (''add'', Mnemonic TOKEN_ADD),
    (''sub'', Mnemonic TOKEN_SUB),
    (''mul'', Mnemonic TOKEN_MUL),
    (''div'', Mnemonic TOKEN_DIV),
    (''imul'', Mnemonic TOKEN_IMUL),
    (''idiv'', Mnemonic TOKEN_IDIV),
    (''inc'', Mnemonic TOKEN_INC),
    (''dec'', Mnemonic TOKEN_DEC),
    (''cmp'', Mnemonic TOKEN_CMP),
    (''jmp'', Mnemonic TOKEN_JMP),
    (''je'', Mnemonic TOKEN_JE),
    (''jne'', Mnemonic TOKEN_JNE),
    (''jl'', Mnemonic TOKEN_JL),
    (''jle'', Mnemonic TOKEN_JLE),
    (''jg'', Mnemonic TOKEN_JG),
    (''jge'', Mnemonic TOKEN_JGE),
    (''call'', Mnemonic TOKEN_CALL),
    (''ret'', Mnemonic TOKEN_RET),
    (''push'', Mnemonic TOKEN_PUSH),
    (''pop'', Mnemonic TOKEN_POP),
    (''lea'', Mnemonic TOKEN_LEA),
    (''nop'', Mnemonic TOKEN_NOP),
    (''int'', Mnemonic TOKEN_INT),
    (''syscall'', Mnemonic TOKEN_SYSCALL),
    (''eax'', Register TOKEN_EAX),
    (''ebx'', Register TOKEN_EBX),
    (''ecx'', Register TOKEN_ECX),
    (''edx'', Register TOKEN_EDX),
    (''esi'', Register TOKEN_ESI),
    (''edi'', Register TOKEN_EDI),
    (''esp'', Register TOKEN_ESP),
    (''ebp'', Register TOKEN_EBP),
    (''rax'', Register TOKEN_RAX),
    (''rbx'', Register TOKEN_RBX),
    (''rcx'', Register TOKEN_RCX),
    (''rdx'', Register TOKEN_RDX),
    (''rsi'', Register TOKEN_RSI),
    (''rdi'', Register TOKEN_RDI),
    (''rsp'', Register TOKEN_RSP),
    (''rbp'', Register TOKEN_RBP),
    (''r8'', Register TOKEN_R8),
    (''r9'', Register TOKEN_R9),
    (''r10'', Register TOKEN_R10),
    (''r11'', Register TOKEN_R11),
    (''r12'', Register TOKEN_R12),
    (''r13'', Register TOKEN_R13),
    (''r14'', Register TOKEN_R14),
    (''r15'', Register TOKEN_R15)]"

definition classify_word :: "string \<Rightarrow> TokenType" where
  "classify_word value =
     (case map_of keyword_table value of
        Some ty \<Rightarrow> ty
      | None \<Rightarrow>
          (case List.find (\<lambda>(word, _). c_strcaseeq value word) asm_word_table of
             Some (_, ty) \<Rightarrow> ty
           | None \<Rightarrow> TOKEN_IDENTIFIER))"

section \<open>Ownership of token values\<close>

text \<open>
  \<open>token_destroy\<close> and \<open>token_clone\<close> as they act on the token. The first component of the result of
  \<open>token_destroy\<close> says whether the value was passed to \<open>free\<close>.
\<close>

definition token_destroy :: "Token \<Rightarrow> bool \<times> Token" where
  "token_destroy token =
     (case tok_value token of
        Some v \<Rightarrow> (\<not> tok_is_interned token,
           token\<lparr>tok_value := None, tok_is_interned := False, tok_lexeme := NoView\<rparr>)
      | None \<Rightarrow> (False, token\<lparr>tok_lexeme := NoView\<rparr>))"

definition token_clone :: "Token option \<Rightarrow> Token" where
  "token_clone token =
     (case token of
        None \<Rightarrow> \<lparr>tok_type = TOKEN_EOF, tok_value = None, tok_lexeme = NoView, tok_line = 0,
                 tok_column = 0, tok_is_interned = False\<rparr>
      | Some t \<Rightarrow>
          (if tok_value t \<noteq> None \<and> \<not> tok_is_interned t
           then t\<lparr>tok_value := map_option c_string (tok_value t)\<rparr> else t))"

end
