(* ===== verification/String_Intern.thy ===== *)
theory String_Intern
  imports Mettle_Prelude
begin

text \<open>
  The string interner of \<^verbatim>\<open>src/src/lexer/lexer.c\<close> (declared in \<^verbatim>\<open>src/src/string_intern.h\<close>) and the
  FNV-1a hash of \<^verbatim>\<open>src/src/common.c\<close>. Two bucket arrays index the same entries, one by the hash of
  the text and one by the hash of the address; they grow together.

  The two static bucket pointers are \<open>None\<close> before \<open>string_intern_init\<close>. A bucket array is a function
  from bucket number to chain, the chain being the list of its entries from the head. An entry keeps
  the address of its copy and the bytes stored there. \<open>malloc\<close> hands out the addresses: it never
  fails here and never returns an address that is in use (\<open>next_addr\<close> is above all of them).
\<close>

section \<open>State and operations\<close>

record StringInternEntry =
  ie_value :: address
  ie_text :: string

type_synonym bucket_array = "nat \<Rightarrow> StringInternEntry list"

record string_table =
  intern_buckets :: "bucket_array option"
  intern_ptr_buckets :: "bucket_array option"
  bucket_count :: nat
  entry_count :: nat
  next_addr :: address

definition string_table_start :: string_table where
  "string_table_start = \<lparr>intern_buckets = None, intern_ptr_buckets = None,
     bucket_count = 0, entry_count = 0, next_addr = 1\<rparr>"

definition STRING_INTERN_INITIAL_BUCKETS :: nat where
  "STRING_INTERN_INITIAL_BUCKETS = 4096"

definition string_intern_init :: "string_table \<Rightarrow> string_table" where
  "string_intern_init st =
     (if intern_buckets st \<noteq> None \<and> intern_ptr_buckets st \<noteq> None then st
      else st\<lparr>intern_buckets := Some (\<lambda>_. []), intern_ptr_buckets := Some (\<lambda>_. []),
              bucket_count := STRING_INTERN_INITIAL_BUCKETS, entry_count := 0\<rparr>)"

definition string_intern_hash_bytes :: "string \<Rightarrow> u64" where
  "string_intern_hash_bytes value =
     foldl (\<lambda>hash c. (hash XOR of_char c) * 1099511628211) 1469598103934665603 value"

definition mettle_fnv1a_hash :: "string \<Rightarrow> u64" where
  "mettle_fnv1a_hash str =
     foldl (\<lambda>hash c. (hash XOR of_char c) * 1099511628211) 1469598103934665603 (c_string str)"

definition string_intern_hash_ptr :: "address \<Rightarrow> u64" where
  "string_intern_hash_ptr ptr =
     (let value = of_nat ptr :: u64;
          value = value XOR drop_bit 33 value;
          value = value * 0xff51afd7ed558ccd;
          value = value XOR drop_bit 33 value
      in value)"

definition content_bucket :: "nat \<Rightarrow> string \<Rightarrow> nat" where
  "content_bucket n text = unat (string_intern_hash_bytes text) mod n"

definition pointer_bucket :: "nat \<Rightarrow> address \<Rightarrow> nat" where
  "pointer_bucket n ptr = unat (string_intern_hash_ptr ptr) mod n"

text \<open>Linking an entry at the head of a chain: the assignment to \<open>next\<close> (or \<open>ptr_next\<close>), then to the
  bucket.\<close>

definition push_entry :: "bucket_array \<Rightarrow> nat \<Rightarrow> StringInternEntry \<Rightarrow> bucket_array" where
  "push_entry table b e = table(b := e # table b)"

text \<open>The rehash loop: the outer loop over the buckets and the inner one along each chain.\<close>

fun rehash_chain ::
  "nat \<Rightarrow> StringInternEntry list \<Rightarrow> bucket_array \<times> bucket_array \<Rightarrow> bucket_array \<times> bucket_array" where
  "rehash_chain new_count [] tables = tables"
| "rehash_chain new_count (e # chain) (new_content, new_ptr) =
     rehash_chain new_count chain
       (push_entry new_content (content_bucket new_count (ie_text e)) e,
        push_entry new_ptr (pointer_bucket new_count (ie_value e)) e)"

definition rehash_all :: "nat \<Rightarrow> nat \<Rightarrow> bucket_array \<Rightarrow> bucket_array \<times> bucket_array" where
  "rehash_all new_count old_count buckets =
     fold (\<lambda>i. rehash_chain new_count (buckets i)) [0..<old_count] (\<lambda>_. [], \<lambda>_. [])"

definition string_intern_maybe_grow :: "string_table \<Rightarrow> string_table" where
  "string_intern_maybe_grow st =
     (if entry_count st \<le> bucket_count st * 3 div 4 then st
      else (case intern_buckets st of None \<Rightarrow> st
      | Some buckets \<Rightarrow>
         let new_count = bucket_count st * 2;
             (new_content, new_ptr) = rehash_all new_count (bucket_count st) buckets
         in st\<lparr>intern_buckets := Some new_content, intern_ptr_buckets := Some new_ptr,
                bucket_count := new_count\<rparr>))"

definition string_intern_find :: "string_table \<Rightarrow> string \<Rightarrow> StringInternEntry option" where
  "string_intern_find st value =
     (case intern_buckets st of None \<Rightarrow> None
      | Some buckets \<Rightarrow>
          List.find (\<lambda>e. length (ie_text e) = length value \<and> ie_text e = value)
            (buckets (content_bucket (bucket_count st) value)))"

definition string_intern_add :: "string_table \<Rightarrow> string \<Rightarrow> string_table \<times> address" where
  "string_intern_add st value =
     (let copy = next_addr st;
          entry = \<lparr>ie_value = copy, ie_text = value\<rparr>;
          st = st\<lparr>next_addr := copy + length value + 1,
            intern_buckets := map_option (\<lambda>t. push_entry t (content_bucket (bucket_count st) value) entry)
              (intern_buckets st),
            intern_ptr_buckets := map_option (\<lambda>t. push_entry t (pointer_bucket (bucket_count st) copy) entry)
              (intern_ptr_buckets st),
            entry_count := entry_count st + 1\<rparr>
      in (string_intern_maybe_grow st, copy))"

definition string_intern_n :: "string_table \<Rightarrow> string option \<Rightarrow> string_table \<times> address option" where
  "string_intern_n st value =
     (case value of None \<Rightarrow> (st, None)
      | Some text \<Rightarrow>
          let st = string_intern_init st
          in case string_intern_find st text of
               Some entry \<Rightarrow> (st, Some (ie_value entry))
             | None \<Rightarrow> (let (st, copy) = string_intern_add st text in (st, Some copy)))"

definition string_intern :: "string_table \<Rightarrow> string option \<Rightarrow> string_table \<times> address option" where
  "string_intern st value =
     (case value of None \<Rightarrow> (st, None) | Some text \<Rightarrow> string_intern_n st (Some (c_string text)))"

definition string_is_interned :: "string_table \<Rightarrow> address option \<Rightarrow> bool" where
  "string_is_interned st value =
     (case value of None \<Rightarrow> False
      | Some ptr \<Rightarrow>
          (case intern_ptr_buckets st of None \<Rightarrow> False
           | Some buckets \<Rightarrow>
               List.find (\<lambda>e. ie_value e = ptr) (buckets (pointer_bucket (bucket_count st) ptr)) \<noteq> None))"

definition string_intern_clear :: "string_table \<Rightarrow> string_table" where
  "string_intern_clear st =
     (case intern_buckets st of None \<Rightarrow> st
      | Some _ \<Rightarrow> st\<lparr>intern_buckets := None, intern_ptr_buckets := None,
                   bucket_count := 0, entry_count := 0\<rparr>)"

section \<open>The interface of an interner\<close>

text \<open>
  What the rest of the compiler relies on: interning a text gives it an address and never moves
  another text's address, and no two texts share one. \<open>ptr_of\<close> is the abstract view of the table, a
  partial map from texts to addresses. The client lemmas are proved once here.
\<close>

primrec intern_all ::
  "('s \<Rightarrow> string option \<Rightarrow> 's \<times> address option) \<Rightarrow> 's \<Rightarrow> string list \<Rightarrow> 's \<times> address option list" where
  "intern_all intern s [] = (s, [])"
| "intern_all intern s (t # ts) =
     (let (s1, r) = intern s (Some t); (s2, rs) = intern_all intern s1 ts in (s2, r # rs))"

locale string_interner =
  fixes invar :: "'s \<Rightarrow> bool"
    and ptr_of :: "'s \<Rightarrow> string \<Rightarrow> address option"
    and intern :: "'s \<Rightarrow> string option \<Rightarrow> 's \<times> address option"
    and is_interned :: "'s \<Rightarrow> address option \<Rightarrow> bool"
  assumes intern_invar: "invar s \<Longrightarrow> invar (fst (intern s x))"
    and intern_ptr: "invar s \<Longrightarrow> \<exists>p. snd (intern s (Some t)) = Some p \<and> ptr_of (fst (intern s (Some t))) t = Some p"
    and intern_keeps: "invar s \<Longrightarrow> ptr_of s u = Some p \<Longrightarrow> ptr_of (fst (intern s x)) u = Some p"
    and intern_only: "invar s \<Longrightarrow> ptr_of (fst (intern s (Some t))) u = Some p \<Longrightarrow> u \<noteq> t \<Longrightarrow> ptr_of s u = Some p"
    and ptr_inj: "invar s \<Longrightarrow> ptr_of s u = Some p \<Longrightarrow> ptr_of s v = Some p \<Longrightarrow> u = v"
    and is_interned_iff: "invar s \<Longrightarrow> is_interned s (Some p) \<longleftrightarrow> (\<exists>t. ptr_of s t = Some p)"
begin

lemma intern_all_invar: "invar s \<Longrightarrow> invar (fst (intern_all intern s ts))"
  by (induction ts arbitrary: s) (simp_all add: case_prod_beta Let_def intern_invar)

lemma intern_all_keeps:
  "invar s \<Longrightarrow> ptr_of s u = Some p \<Longrightarrow> ptr_of (fst (intern_all intern s ts)) u = Some p"
proof (induction ts arbitrary: s)
  case (Cons t ts)
  let ?s = "fst (intern s (Some t))"
  have "ptr_of (fst (intern_all intern ?s ts)) u = Some p"
    using Cons intern_invar intern_keeps by blast
  then show ?case by (simp add: case_prod_beta Let_def)
qed simp

lemma intern_all_ptrs:
  assumes "invar s"
  shows "map (ptr_of (fst (intern_all intern s ts))) ts = snd (intern_all intern s ts)
     \<and> None \<notin> set (snd (intern_all intern s ts))"
  using assms
proof (induction ts arbitrary: s)
  case (Cons t ts)
  let ?s = "fst (intern s (Some t))"
  obtain p where p: "snd (intern s (Some t)) = Some p" "ptr_of ?s t = Some p"
    using intern_ptr [OF Cons.prems] by blast
  have inv: "invar ?s" using Cons.prems by (rule intern_invar)
  have "ptr_of (fst (intern_all intern ?s ts)) t = Some p"
    using inv p(2) by (rule intern_all_keeps)
  with Cons.IH [OF inv] p show ?case by (simp add: case_prod_beta Let_def)
qed simp

lemma intern_all_canonical:
  assumes "invar s" and "i < length ts" and "j < length ts"
  shows "snd (intern_all intern s ts) ! i = snd (intern_all intern s ts) ! j \<longleftrightarrow> ts ! i = ts ! j"
proof -
  let ?s = "fst (intern_all intern s ts)" and ?rs = "snd (intern_all intern s ts)"
  have eq: "map (ptr_of ?s) ts = ?rs" and some: "None \<notin> set ?rs"
    using intern_all_ptrs [OF assms(1)] by auto
  have nth: "k < length ts \<Longrightarrow> ?rs ! k = ptr_of ?s (ts ! k)" for k
    by (simp add: eq [symmetric])
  from eq have len: "length ?rs = length ts" by (metis length_map)
  obtain p where "?rs ! i = Some p"
    using some assms(2) len by (metis not_None_eq nth_mem)
  with nth assms intern_all_invar [OF assms(1), of ts] ptr_inj show ?thesis by metis
qed

lemma intern_all_only:
  "invar s \<Longrightarrow> ptr_of (fst (intern_all intern s ts)) u = Some p \<Longrightarrow> u \<notin> set ts \<Longrightarrow> ptr_of s u = Some p"
proof (induction ts arbitrary: s)
  case (Cons t ts)
  have "ptr_of (fst (intern s (Some t))) u = Some p"
    using Cons.IH [OF intern_invar [OF Cons.prems(1)]] Cons.prems by (simp add: case_prod_beta Let_def)
  with Cons.prems show ?case by (auto dest: intern_only)
qed simp

lemma intern_all_interned_iff:
  assumes "invar s" and "\<And>t. ptr_of s t = None"
  shows "is_interned (fst (intern_all intern s ts)) (Some p) \<longleftrightarrow> Some p \<in> set (snd (intern_all intern s ts))"
proof -
  let ?s = "fst (intern_all intern s ts)"
  have "is_interned ?s (Some p) \<longleftrightarrow> (\<exists>t. ptr_of ?s t = Some p)"
    using assms(1) by (intro is_interned_iff intern_all_invar)
  also have "\<dots> \<longleftrightarrow> (\<exists>t\<in>set ts. ptr_of ?s t = Some p)"
    using intern_all_only [OF assms(1), of ts] assms(2) by fastforce
  also have "\<dots> \<longleftrightarrow> Some p \<in> ptr_of ?s ` set ts" by (auto intro: rev_image_eqI)
  also have "ptr_of ?s ` set ts = set (snd (intern_all intern s ts))"
    using intern_all_ptrs [OF assms(1), of ts] by (metis list.set_map)
  finally show ?thesis .
qed

end

section \<open>The invariant of the two tables\<close>

definition entries :: "nat \<Rightarrow> bucket_array \<Rightarrow> StringInternEntry set" where
  "entries n table = (\<Union>b<n. set (table b))"

definition tables_wf :: "nat \<Rightarrow> bucket_array \<Rightarrow> bucket_array \<Rightarrow> address \<Rightarrow> bool" where
  "tables_wf n B P a \<longleftrightarrow>
     0 < n \<and>
     (\<forall>b<n. \<forall>e\<in>set (B b). content_bucket n (ie_text e) = b) \<and>
     (\<forall>b<n. \<forall>e\<in>set (P b). pointer_bucket n (ie_value e) = b) \<and>
     entries n P = entries n B \<and>
     inj_on ie_text (entries n B) \<and> inj_on ie_value (entries n B) \<and>
     (\<forall>e\<in>entries n B. 0 < ie_value e \<and> ie_value e < a)"

definition intern_wf :: "string_table \<Rightarrow> bool" where
  "intern_wf st \<longleftrightarrow> 0 < next_addr st \<and>
     (case (intern_buckets st, intern_ptr_buckets st) of
        (Some B, Some P) \<Rightarrow> tables_wf (bucket_count st) B P (next_addr st) \<and>
           entry_count st = card (entries (bucket_count st) B)
      | (None, None) \<Rightarrow> True
      | _ \<Rightarrow> False)"

definition intern_ptr_of :: "string_table \<Rightarrow> string \<Rightarrow> address option" where
  "intern_ptr_of st text = map_option ie_value (string_intern_find st text)"

lemma bucket_less [simp]: "0 < n \<Longrightarrow> content_bucket n t < n" "0 < n \<Longrightarrow> pointer_bucket n p < n"
  by (simp_all add: content_bucket_def pointer_bucket_def)

lemma finite_entries [simp]: "finite (entries n B)"
  by (simp add: entries_def)

lemma entries_empty [simp]: "entries n (\<lambda>_. []) = {}"
  by (simp add: entries_def)

lemma entries_push [simp]: "b < n \<Longrightarrow> entries n (push_entry B b e) = insert e (entries n B)"
  by (fastforce simp: entries_def push_entry_def split: if_splits)

lemma tables_wfD:
  assumes "tables_wf n B P a"
  shows "0 < n" and "\<And>b e. b < n \<Longrightarrow> e \<in> set (B b) \<Longrightarrow> content_bucket n (ie_text e) = b"
    and "\<And>b e. b < n \<Longrightarrow> e \<in> set (P b) \<Longrightarrow> pointer_bucket n (ie_value e) = b"
    and "entries n P = entries n B"
    and "inj_on ie_text (entries n B)" and "inj_on ie_value (entries n B)"
    and "\<And>e. e \<in> entries n B \<Longrightarrow> 0 < ie_value e \<and> ie_value e < a"
  using assms by (simp_all add: tables_wf_def)

lemma mem_content_bucket:
  assumes "tables_wf n B P a"
  shows "e \<in> set (B (content_bucket n (ie_text e))) \<longleftrightarrow> e \<in> entries n B"
  using tables_wfD(1,2) [OF assms] bucket_less(1) [of n "ie_text e"] by (auto simp: entries_def)

lemma mem_pointer_bucket:
  assumes "tables_wf n B P a"
  shows "e \<in> set (P (pointer_bucket n (ie_value e))) \<longleftrightarrow> e \<in> entries n B"
  unfolding tables_wfD(4) [OF assms, symmetric]
  using tables_wfD(1,3) [OF assms] bucket_less(2) [of n "ie_value e"] by (auto simp: entries_def)

lemma string_intern_find_iff:
  assumes wf: "tables_wf (bucket_count st) B P a" and B: "intern_buckets st = Some B"
  shows "string_intern_find st t = Some e \<longleftrightarrow> e \<in> entries (bucket_count st) B \<and> ie_text e = t"
    (is "?find = _ \<longleftrightarrow> ?R")
proof
  assume "?find = Some e"
  then have "e \<in> set (B (content_bucket (bucket_count st) t)) \<and> ie_text e = t"
    using B by (auto simp: string_intern_find_def dest!: find_Some_mem)
  with mem_content_bucket [OF wf, of e] show ?R by auto
next
  assume R: ?R
  then have mem: "e \<in> set (B (content_bucket (bucket_count st) t))"
    using mem_content_bucket [OF wf, of e] by simp
  have uniq: "y = e" if "y \<in> set (B (content_bucket (bucket_count st) t))" and "ie_text y = t" for y
  proof -
    from that mem_content_bucket [OF wf, of y] have "y \<in> entries (bucket_count st) B" by simp
    with R that(2) show ?thesis using tables_wfD(5) [OF wf] by (auto dest: inj_onD)
  qed
  have "List.find (\<lambda>e. length (ie_text e) = length t \<and> ie_text e = t)
     (B (content_bucket (bucket_count st) t)) = Some e"
    by (rule find_unique [OF mem]) (use R uniq in blast)+
  then show "?find = Some e" using B by (simp add: string_intern_find_def)
qed

lemma string_is_interned_entries:
  assumes wf: "tables_wf (bucket_count st) B P a" and P: "intern_ptr_buckets st = Some P"
  shows "string_is_interned st (Some p) \<longleftrightarrow> (\<exists>e\<in>entries (bucket_count st) B. ie_value e = p)"
proof -
  let ?chain = "set (P (pointer_bucket (bucket_count st) p))"
  have "string_is_interned st (Some p) \<longleftrightarrow> (\<exists>e\<in>?chain. ie_value e = p)"
    using P by (auto simp: string_is_interned_def find_None_iff)
  also have "\<dots> \<longleftrightarrow> (\<exists>e\<in>entries (bucket_count st) B. ie_value e = p)"
    using mem_pointer_bucket [OF wf] by metis
  finally show ?thesis .
qed

section \<open>Growing keeps every entry\<close>

definition rehash_of :: "nat \<Rightarrow> StringInternEntry set \<Rightarrow> bucket_array \<times> bucket_array \<Rightarrow> bool" where
  "rehash_of n E tables \<longleftrightarrow>
     (\<forall>b. set (fst tables b) = {e \<in> E. content_bucket n (ie_text e) = b}) \<and>
     (\<forall>b. set (snd tables b) = {e \<in> E. pointer_bucket n (ie_value e) = b})"

lemma rehash_chain_of:
  "rehash_of n E tables \<Longrightarrow> rehash_of n (set chain \<union> E) (rehash_chain n chain tables)"
proof (induction n chain tables arbitrary: E rule: rehash_chain.induct)
  case (2 n e chain C P)
  then have "rehash_of n (insert e E)
     (push_entry C (content_bucket n (ie_text e)) e, push_entry P (pointer_bucket n (ie_value e)) e)"
    by (auto simp: rehash_of_def push_entry_def)
  from "2.IH" [OF this] show ?case by simp
qed simp

lemma rehash_all_of: "rehash_of n (entries old B) (rehash_all n old B)"
proof -
  have step: "rehash_of n ((\<Union>b\<in>set bs. set (B b)) \<union> E) (fold (\<lambda>i. rehash_chain n (B i)) bs tables)"
    if "rehash_of n E tables" for bs E tables
    using that
  proof (induction bs arbitrary: E tables)
    case (Cons b bs)
    have "rehash_of n ((\<Union>b\<in>set bs. set (B b)) \<union> (set (B b) \<union> E))
       (fold (\<lambda>i. rehash_chain n (B i)) bs (rehash_chain n (B b) tables))"
      by (rule Cons.IH [OF rehash_chain_of [OF Cons.prems]])
    then show ?case by (simp add: Un_assoc Un_left_commute)
  qed simp
  have "rehash_of n {} (\<lambda>_. [], \<lambda>_. [])" by (simp add: rehash_of_def)
  from step [OF this, of "[0..<old]"] show ?thesis
    by (simp add: rehash_all_def entries_def atLeast0LessThan)
qed

lemma rehash_of_entries:
  assumes "0 < n" and "rehash_of n E (C, P)"
  shows "entries n C = E" and "entries n P = E"
  using assms bucket_less by (auto simp: entries_def rehash_of_def)

lemma rehash_of_wf:
  assumes wf: "tables_wf n B P a" and n': "0 < n'" and re: "rehash_of n' (entries n B) (C, Q)"
  shows "tables_wf n' C Q a" and "entries n' C = entries n B"
proof -
  note ents = rehash_of_entries [OF n' re]
  from re have "\<forall>b e. e \<in> set (C b) \<longrightarrow> content_bucket n' (ie_text e) = b"
    and "\<forall>b e. e \<in> set (Q b) \<longrightarrow> pointer_bucket n' (ie_value e) = b"
    by (auto simp: rehash_of_def)
  with wf n' ents show "tables_wf n' C Q a" by (simp add: tables_wf_def)
  show "entries n' C = entries n B" by (fact ents(1))
qed

section \<open>Interning keeps the invariant and gives one address per text\<close>

lemma string_intern_maybe_grow_wf:
  assumes wf: "intern_wf st" and B: "intern_buckets st = Some B"
  shows "intern_wf (string_intern_maybe_grow st)"
    and "\<exists>B'. intern_buckets (string_intern_maybe_grow st) = Some B' \<and>
      entries (bucket_count (string_intern_maybe_grow st)) B' = entries (bucket_count st) B"
proof -
  let ?n = "bucket_count st * 2"
  obtain P where P: "intern_ptr_buckets st = Some P"
    and t: "tables_wf (bucket_count st) B P (next_addr st)"
    using wf B by (auto simp: intern_wf_def split: option.splits)
  obtain C Q where CQ: "rehash_all ?n (bucket_count st) B = (C, Q)" by fastforce
  have n: "0 < ?n" using tables_wfD(1) [OF t] by simp
  have re: "rehash_of ?n (entries (bucket_count st) B) (C, Q)"
    using rehash_all_of [of ?n "bucket_count st" B] CQ by simp
  note new = rehash_of_wf [OF t n re]
  from new wf B CQ show "intern_wf (string_intern_maybe_grow st)"
    by (simp add: string_intern_maybe_grow_def intern_wf_def P)
  from new B CQ show "\<exists>B'. intern_buckets (string_intern_maybe_grow st) = Some B' \<and>
      entries (bucket_count (string_intern_maybe_grow st)) B' = entries (bucket_count st) B"
    by (simp add: string_intern_maybe_grow_def)
qed

lemma string_intern_init_wf:
  assumes "intern_wf st"
  shows "intern_wf (string_intern_init st)" and "\<exists>B. intern_buckets (string_intern_init st) = Some B"
    and "intern_ptr_of st t = Some p \<Longrightarrow> intern_ptr_of (string_intern_init st) t = Some p"
  using assms
  by (auto simp: string_intern_init_def intern_wf_def tables_wf_def intern_ptr_of_def
      string_intern_find_def STRING_INTERN_INITIAL_BUCKETS_def split: option.splits)

lemma tables_wf_push:
  assumes wf: "tables_wf n B P a"
    and fresh: "\<And>e. e \<in> entries n B \<Longrightarrow> ie_text e \<noteq> t"
    and b: "b = content_bucket n t" and c: "c = pointer_bucket n a" and a: "0 < a" "a < a'"
  defines "e \<equiv> \<lparr>ie_value = a, ie_text = t\<rparr>"
  shows "tables_wf n (push_entry B b e) (push_entry P c e) a'"
proof -
  have n: "0 < n" using tables_wfD(1) [OF wf] .
  have ents: "entries n (push_entry B b e) = insert e (entries n B)"
    "entries n (push_entry P c e) = insert e (entries n B)"
    using n b c tables_wfD(4) [OF wf] by simp_all
  have addr: "0 < ie_value x \<and> ie_value x < a" if "x \<in> entries n B" for x
    using that tables_wfD(7) [OF wf] by blast
  have "inj_on ie_text (insert e (entries n B))"
    using tables_wfD(5) [OF wf] fresh by (auto simp: inj_on_insert e_def)
  moreover have "inj_on ie_value (insert e (entries n B))"
    using tables_wfD(6) [OF wf] addr by (auto simp: inj_on_insert e_def)
  moreover have "\<forall>x\<in>insert e (entries n B). 0 < ie_value x \<and> ie_value x < a'"
    using addr a by (auto simp: e_def dest: less_trans)
  moreover have "\<forall>d<n. \<forall>x\<in>set (push_entry B b e d). content_bucket n (ie_text x) = d"
    using tables_wfD(2) [OF wf] b by (auto simp: push_entry_def e_def)
  moreover have "\<forall>d<n. \<forall>x\<in>set (push_entry P c e d). pointer_bucket n (ie_value x) = d"
    using tables_wfD(3) [OF wf] c by (auto simp: push_entry_def e_def)
  ultimately show ?thesis using n ents by (simp add: tables_wf_def)
qed

lemma string_intern_add_wf:
  assumes wf: "intern_wf st" and B: "intern_buckets st = Some B"
    and new: "string_intern_find st t = None"
  shows "intern_wf (fst (string_intern_add st t))"
    and "\<exists>B'. intern_buckets (fst (string_intern_add st t)) = Some B' \<and>
      entries (bucket_count (fst (string_intern_add st t))) B' =
      insert \<lparr>ie_value = snd (string_intern_add st t), ie_text = t\<rparr> (entries (bucket_count st) B)"
proof -
  let ?n = "bucket_count st" and ?e = "\<lparr>ie_value = next_addr st, ie_text = t\<rparr>"
  obtain P where P: "intern_ptr_buckets st = Some P"
    and t: "tables_wf ?n B P (next_addr st)" and cnt: "entry_count st = card (entries ?n B)"
    and pos: "0 < next_addr st"
    using wf B by (auto simp: intern_wf_def split: option.splits)
  have fresh: "ie_text e \<noteq> t" if "e \<in> entries ?n B" for e
    using that new string_intern_find_iff [OF t B, of t e] by auto
  define B' where "B' = push_entry B (content_bucket ?n t) ?e"
  define P' where "P' = push_entry P (pointer_bucket ?n (next_addr st)) ?e"
  define st' where "st' = st\<lparr>next_addr := next_addr st + length t + 1, intern_buckets := Some B',
     intern_ptr_buckets := Some P', entry_count := entry_count st + 1\<rparr>"
  have "tables_wf ?n B' P' (next_addr st + length t + 1)"
    unfolding B'_def P'_def by (rule tables_wf_push [OF t fresh refl refl pos]) simp_all
  moreover have ents: "entries ?n B' = insert ?e (entries ?n B)"
    using tables_wfD(1) [OF t] by (simp add: B'_def)
  moreover have "?e \<notin> entries ?n B" using fresh by fastforce
  ultimately have wf': "intern_wf st'" using cnt by (simp add: intern_wf_def st'_def)
  have add: "string_intern_add st t = (string_intern_maybe_grow st', next_addr st)"
    using B P by (simp add: string_intern_add_def st'_def B'_def P'_def Let_def)
  have B': "intern_buckets st' = Some B'" by (simp add: st'_def)
  show "intern_wf (fst (string_intern_add st t))"
    using string_intern_maybe_grow_wf(1) [OF wf' B'] add by simp
  show "\<exists>B'. intern_buckets (fst (string_intern_add st t)) = Some B' \<and>
      entries (bucket_count (fst (string_intern_add st t))) B' =
      insert \<lparr>ie_value = snd (string_intern_add st t), ie_text = t\<rparr> (entries ?n B)"
    using string_intern_maybe_grow_wf(2) [OF wf' B'] add ents by (simp add: st'_def)
qed

lemma intern_ptr_of_iff:
  assumes "intern_wf st" and B: "intern_buckets st = Some B"
  shows "intern_ptr_of st t = Some p \<longleftrightarrow> \<lparr>ie_value = p, ie_text = t\<rparr> \<in> entries (bucket_count st) B"
proof -
  obtain P where "tables_wf (bucket_count st) B P (next_addr st)"
    using assms by (auto simp: intern_wf_def split: option.splits)
  note find = string_intern_find_iff [OF this B, of t]
  have "intern_ptr_of st t = Some p \<longleftrightarrow> (\<exists>e. string_intern_find st t = Some e \<and> ie_value e = p)"
    by (auto simp: intern_ptr_of_def)
  also have "\<dots> \<longleftrightarrow> (\<exists>e\<in>entries (bucket_count st) B. ie_text e = t \<and> ie_value e = p)"
    using find by auto
  also have "\<dots> \<longleftrightarrow> \<lparr>ie_value = p, ie_text = t\<rparr> \<in> entries (bucket_count st) B"
    by (metis (full_types) StringInternEntry.equality StringInternEntry.select_convs(1,2) old.unit.exhaust)
  finally show ?thesis .
qed

lemma string_intern_n_cases:
  assumes wf: "intern_wf st"
  obtains (hit) p where "string_intern_n st (Some t) = (string_intern_init st, Some p)"
      and "intern_ptr_of (string_intern_init st) t = Some p"
  | (miss) B st' p where "string_intern_n st (Some t) = (st', Some p)"
      and "intern_buckets (string_intern_init st) = Some B" and "intern_wf st'"
      and "\<And>u q. intern_ptr_of st' u = Some q \<longleftrightarrow>
         (u = t \<and> q = p) \<or> intern_ptr_of (string_intern_init st) u = Some q"
proof -
  let ?st = "string_intern_init st"
  note init = string_intern_init_wf [OF wf]
  then obtain B where B: "intern_buckets ?st = Some B" by blast
  show thesis
  proof (cases "string_intern_find ?st t")
    case (Some e)
    with hit [of "ie_value e"] show thesis by (simp add: string_intern_n_def intern_ptr_of_def)
  next
    case None
    note add = string_intern_add_wf [OF init(1) B None]
    then obtain B' where B': "intern_buckets (fst (string_intern_add ?st t)) = Some B'"
      "entries (bucket_count (fst (string_intern_add ?st t))) B' =
      insert \<lparr>ie_value = snd (string_intern_add ?st t), ie_text = t\<rparr> (entries (bucket_count ?st) B)"
      by blast
    show thesis
      by (rule miss [OF _ B add(1)])
        (use None B' intern_ptr_of_iff [OF add(1) B'(1)] intern_ptr_of_iff [OF init(1) B] in
          \<open>auto simp: string_intern_n_def Let_def case_prod_beta\<close>)
  qed
qed

lemma intern_ptr_of_init:
  "intern_wf st \<Longrightarrow> intern_ptr_of (string_intern_init st) t = intern_ptr_of st t"
  by (auto simp: string_intern_init_def intern_ptr_of_def string_intern_find_def intern_wf_def
      split: option.splits)

lemma intern_ptr_of_inj:
  assumes wf: "intern_wf st" and "intern_ptr_of st u = Some p" and "intern_ptr_of st v = Some p"
  shows "u = v"
proof -
  obtain B where B: "intern_buckets st = Some B"
    using assms(2) by (auto simp: intern_ptr_of_def string_intern_find_def split: option.splits)
  obtain P where t: "tables_wf (bucket_count st) B P (next_addr st)"
    using wf B by (auto simp: intern_wf_def split: option.splits)
  from assms(2,3) show ?thesis
    using inj_onD [OF tables_wfD(6) [OF t], of "\<lparr>ie_value = p, ie_text = u\<rparr>" "\<lparr>ie_value = p, ie_text = v\<rparr>"]
    by (simp add: intern_ptr_of_iff [OF wf B])
qed

lemma string_is_interned_iff:
  assumes wf: "intern_wf st"
  shows "string_is_interned st (Some p) \<longleftrightarrow> (\<exists>t. intern_ptr_of st t = Some p)"
proof (cases "intern_buckets st")
  case None
  with wf show ?thesis
    by (auto simp: intern_wf_def string_is_interned_def intern_ptr_of_def string_intern_find_def
        split: option.splits)
next
  case (Some B)
  obtain P where P: "intern_ptr_buckets st = Some P"
    and t: "tables_wf (bucket_count st) B P (next_addr st)"
    using wf Some by (auto simp: intern_wf_def split: option.splits)
  have "(\<exists>e\<in>entries (bucket_count st) B. ie_value e = p) \<longleftrightarrow>
     (\<exists>t. \<lparr>ie_value = p, ie_text = t\<rparr> \<in> entries (bucket_count st) B)"
    by (metis (full_types) StringInternEntry.equality StringInternEntry.select_convs(1,2) old.unit.exhaust)
  then show ?thesis
    by (simp add: string_is_interned_entries [OF t P] intern_ptr_of_iff [OF wf Some])
qed

interpretation table_interner: string_interner intern_wf intern_ptr_of string_intern_n string_is_interned
proof unfold_locales
  fix st t u p x
  assume wf: "intern_wf st"
  note init = string_intern_init_wf [OF wf] intern_ptr_of_init [OF wf]
  show inv: "intern_wf (fst (string_intern_n st x))"
  proof (cases x)
    case None
    then show ?thesis using wf by (simp add: string_intern_n_def)
  next
    case (Some t)
    from wf show ?thesis
      by (rule string_intern_n_cases [where t = t]) (use init(1) Some in simp_all)
  qed
  show "\<exists>p. snd (string_intern_n st (Some t)) = Some p \<and>
     intern_ptr_of (fst (string_intern_n st (Some t))) t = Some p"
    using wf by (rule string_intern_n_cases [where t = t]) simp_all
  show "intern_ptr_of st u = Some p \<Longrightarrow> intern_ptr_of (fst (string_intern_n st x)) u = Some p"
  proof (cases x)
    case None
    then show "intern_ptr_of st u = Some p \<Longrightarrow> ?thesis" by (simp add: string_intern_n_def)
  next
    case (Some t)
    from wf show "intern_ptr_of st u = Some p \<Longrightarrow> ?thesis"
      by (rule string_intern_n_cases [where t = t]) (use init(4) Some in simp_all)
  qed
  show "intern_ptr_of (fst (string_intern_n st (Some t))) u = Some p \<Longrightarrow> u \<noteq> t \<Longrightarrow>
     intern_ptr_of st u = Some p"
    using wf by (rule string_intern_n_cases [where t = t]) (use init(4) in simp_all)
qed (simp_all add: intern_ptr_of_inj string_is_interned_iff)

section \<open>Properties\<close>

lemma intern_wf_start: "intern_wf string_table_start"
  by (simp add: intern_wf_def string_table_start_def)

lemma intern_ptr_of_start: "intern_ptr_of string_table_start t = None"
  by (simp add: intern_ptr_of_def string_intern_find_def string_table_start_def)

text \<open>(C7) Interning is canonical. Whatever strings are interned, in whatever order and across any number of
  table growths, two results are the same address exactly when the two strings are equal; this is
  what makes the compiler's pointer-first name comparison sound.\<close>

theorem string_intern_canonical:
  assumes "intern_wf st" and "i < length ts" and "j < length ts"
  shows "snd (intern_all string_intern_n st ts) ! i = snd (intern_all string_intern_n st ts) ! j
     \<longleftrightarrow> ts ! i = ts ! j"
  using assms by (rule table_interner.intern_all_canonical)

theorem string_intern_canonical_witness:
  "snd (intern_all string_intern_n string_table_start [''x'', ''y'', ''x'']) ! 0 =
   snd (intern_all string_intern_n string_table_start [''x'', ''y'', ''x'']) ! 2 \<and>
   snd (intern_all string_intern_n string_table_start [''x'', ''y'', ''x'']) ! 0 \<noteq>
   snd (intern_all string_intern_n string_table_start [''x'', ''y'', ''x'']) ! 1"
proof -
  note c = string_intern_canonical [OF intern_wf_start, of _ "[''x'', ''y'', ''x'']"]
  show ?thesis using c [of 0 2] c [of 0 1] by simp
qed

text \<open>\<open>string_is_interned\<close>, the test that decides whether a string may be freed, answers yes for
  exactly the addresses the interner has handed out since it was created.\<close>

theorem string_is_interned_exact:
  "string_is_interned (fst (intern_all string_intern_n string_table_start ts)) (Some p)
     \<longleftrightarrow> Some p \<in> set (snd (intern_all string_intern_n string_table_start ts))"
  by (rule table_interner.intern_all_interned_iff [OF intern_wf_start intern_ptr_of_start])

lemma string_intern_clear_wf:
  "intern_wf st \<Longrightarrow> intern_wf (string_intern_clear st)"
  "intern_wf st \<Longrightarrow> \<not> string_is_interned (string_intern_clear st) p"
  by (auto simp: intern_wf_def string_intern_clear_def string_is_interned_def split: option.splits)

end
