(* ===== verification/Lexer.thy ===== *)
theory Lexer
  imports Token String_Intern
begin

text \<open>
  The lexer of \<^verbatim>\<open>src/src/lexer/lexer.c\<close>: its state, one definition per lexing function, and
  \<open>lexer_next_token\<close>, which composes them. The C functions update \<open>*lexer\<close> in place and return a token;
  here they take the state and return the token with the new state. The process-wide intern table
  that \<open>lexer_lex_identifier_or_keyword\<close> updates is carried in the state as \<open>lx_interner\<close>. Allocation
  succeeds. The source text is the C string the lexer was created on, so it holds no NUL.
\<close>

section \<open>State\<close>

record Lexer =
  lx_source :: string
  lx_position :: nat
  lx_line :: nat
  lx_column :: nat
  lx_length :: nat
  lx_error_message :: "string option"
  lx_has_error :: bool
  lx_continuation_depth :: nat
  lx_interner :: string_table

definition lexer_create :: "string \<Rightarrow> string_table \<Rightarrow> Lexer" where
  "lexer_create source interner =
     \<lparr>lx_source = c_string source, lx_position = 0, lx_line = 1, lx_column = 1,
      lx_length = length (c_string source), lx_error_message = None, lx_has_error = False,
      lx_continuation_depth = 0, lx_interner = interner\<rparr>"

text \<open>\<open>{TOKEN_EOF, NULL, {NULL, 0}, lexer->line, lexer->column, 0}\<close>\<close>

definition fresh_token :: "Lexer \<Rightarrow> Token" where
  "fresh_token lexer =
     \<lparr>tok_type = TOKEN_EOF, tok_value = None, tok_lexeme = NoView, tok_line = lx_line lexer,
      tok_column = lx_column lexer, tok_is_interned = False\<rparr>"

definition lexer_set_error :: "Lexer \<Rightarrow> string option \<Rightarrow> Lexer" where
  "lexer_set_error lexer message =
     (case message of
        Some m \<Rightarrow> lexer\<lparr>lx_error_message := Some (''Lexer error at line '' @ show_nat (lx_line lexer) @
            '', column '' @ show_nat (lx_column lexer) @ '': '' @ m), lx_has_error := True\<rparr>
      | None \<Rightarrow> lexer\<lparr>lx_error_message := None, lx_has_error := False\<rparr>)"

text \<open>The error return shared by the lexing functions.\<close>

definition lex_error :: "Token \<Rightarrow> Lexer \<Rightarrow> string \<Rightarrow> Token \<times> Lexer" where
  "lex_error token lexer message =
     (token\<lparr>tok_type := TOKEN_ERROR, tok_value := Some message\<rparr>, lexer_set_error lexer (Some message))"

text \<open>\<open>position += n; column += n\<close>, the character under the cursor, and the bounded look-ahead test
  \<open>position + k < length \<and> source[position + k] == c\<close>.\<close>

definition advance :: "nat \<Rightarrow> Lexer \<Rightarrow> Lexer" where
  "advance n lexer = lexer\<lparr>lx_position := lx_position lexer + n, lx_column := lx_column lexer + n\<rparr>"

definition current_char :: "Lexer \<Rightarrow> char" where
  "current_char lexer = lx_source lexer ! lx_position lexer"

definition next_is :: "Lexer \<Rightarrow> nat \<Rightarrow> char \<Rightarrow> bool" where
  "next_is lexer k c =
     (lx_position lexer + k < lx_length lexer \<and> lx_source lexer ! (lx_position lexer + k) = c)"

definition advance_newline :: "Lexer \<Rightarrow> Lexer" where
  "advance_newline lexer =
     lexer\<lparr>lx_position := lx_position lexer + 1, lx_line := lx_line lexer + 1, lx_column := 1\<rparr>"

lemma advance_simps [simp]:
  "lx_source (advance n l) = lx_source l" "lx_length (advance n l) = lx_length l"
  "lx_position (advance n l) = lx_position l + n" "lx_line (advance n l) = lx_line l"
  "lx_column (advance n l) = lx_column l + n" "lx_interner (advance n l) = lx_interner l"
  "lx_continuation_depth (advance n l) = lx_continuation_depth l"
  "lx_has_error (advance n l) = lx_has_error l" "lx_error_message (advance n l) = lx_error_message l"
  by (simp_all add: advance_def)

lemma advance_newline_simps [simp]:
  "lx_source (advance_newline l) = lx_source l" "lx_length (advance_newline l) = lx_length l"
  "lx_position (advance_newline l) = lx_position l + 1" "lx_line (advance_newline l) = lx_line l + 1"
  "lx_interner (advance_newline l) = lx_interner l"
  "lx_continuation_depth (advance_newline l) = lx_continuation_depth l"
  "lx_has_error (advance_newline l) = lx_has_error l"
  by (simp_all add: advance_newline_def)

text \<open>The loop \<open>while (position < length && P (source[position])) { position++; column++; }\<close>.\<close>

function scan_while :: "(char \<Rightarrow> bool) \<Rightarrow> Lexer \<Rightarrow> Lexer" where
  "scan_while P lexer =
     (if lx_position lexer < lx_length lexer \<and> P (current_char lexer)
      then scan_while P (advance 1 lexer) else lexer)"
  by pat_completeness auto
termination
  by (relation "measure (\<lambda>(P, l). lx_length l - lx_position l)") auto

declare scan_while.simps [simp del]

section \<open>Comments\<close>

text \<open>The two skip functions without their final \<open>return lexer_next_token (lexer)\<close>, which
  \<open>lexer_next_token\<close> performs below.\<close>

definition lexer_skip_line_comment :: "Lexer \<Rightarrow> Lexer" where
  "lexer_skip_line_comment lexer = scan_while (\<lambda>c. c \<noteq> CHR 0x0A) (advance 2 lexer)"

function block_comment_loop :: "Lexer \<Rightarrow> nat \<Rightarrow> Lexer \<times> nat" where
  "block_comment_loop lexer depth =
     (if lx_position lexer < lx_length lexer \<and> 0 < depth then
        (if current_char lexer = CHR ''/'' \<and> next_is lexer 1 CHR ''*''
         then block_comment_loop (advance 2 lexer) (depth + 1)
         else if current_char lexer = CHR ''*'' \<and> next_is lexer 1 CHR ''/''
         then block_comment_loop (advance 2 lexer) (depth - 1)
         else if current_char lexer = CHR 0x0A
         then block_comment_loop (advance_newline lexer) depth
         else block_comment_loop (advance 1 lexer) depth)
      else (lexer, depth))"
  by pat_completeness auto
termination
  by (relation "measure (\<lambda>(l, d). lx_length l - lx_position l)") auto

declare block_comment_loop.simps [simp del]

definition lexer_skip_block_comment :: "Lexer \<Rightarrow> (Token \<times> Lexer) + Lexer" where
  "lexer_skip_block_comment lexer =
     (let (lexer', depth) = block_comment_loop (advance 2 lexer) 1
      in if depth \<noteq> 0 then Inl (lex_error (fresh_token lexer) lexer' ''Unterminated block comment'')
         else Inr lexer')"

section \<open>Literals and words\<close>

definition char_escape :: "char \<Rightarrow> nat option" where
  "char_escape esc =
     (if esc = CHR ''n'' then Some 10
      else if esc = CHR ''t'' then Some 9
      else if esc = CHR ''r'' then Some 13
      else if esc = CHR 0x5C then Some 92
      else if esc = CHR 0x27 then Some 39
      else if esc = CHR ''0'' then Some 0
      else None)"

text \<open>The part of \<open>lexer_lex_char_literal\<close> after the value is known.\<close>

definition char_literal_close :: "Token \<Rightarrow> nat \<Rightarrow> Lexer \<Rightarrow> nat \<Rightarrow> Token \<times> Lexer" where
  "char_literal_close token literal_start lexer value =
     (let lexer = advance 1 lexer
      in if lx_position lexer \<ge> lx_length lexer \<or> current_char lexer \<noteq> CHR 0x27
         then lex_error token lexer ''Character literal must contain exactly one character''
         else let lexer = advance 1 lexer
              in (token\<lparr>tok_type := TOKEN_NUMBER, tok_value := Some (show_nat value),
                    tok_lexeme := SourceView literal_start (lx_position lexer - literal_start)\<rparr>, lexer))"

definition lexer_lex_char_literal :: "Lexer \<Rightarrow> Token \<times> Lexer" where
  "lexer_lex_char_literal lexer =
     (let token = fresh_token lexer;
          literal_start = lx_position lexer;
          lexer = advance 1 lexer
      in if lx_position lexer \<ge> lx_length lexer
         then lex_error token lexer ''Unterminated character literal''
         else if current_char lexer = CHR 0x5C then
           (let lexer = advance 1 lexer
            in if lx_position lexer \<ge> lx_length lexer
               then lex_error token lexer ''Unterminated character literal''
               else case char_escape (current_char lexer) of
                      None \<Rightarrow> lex_error token lexer ''Invalid character escape sequence''
                    | Some value \<Rightarrow> char_literal_close token literal_start lexer value)
         else if current_char lexer = CHR 0x0A \<or> current_char lexer = CHR 0x0D
         then lex_error token lexer ''Unterminated character literal''
         else char_literal_close token literal_start lexer (of_char (current_char lexer)))"

definition number_token :: "Token \<Rightarrow> nat \<Rightarrow> Lexer \<Rightarrow> Token \<times> Lexer" where
  "number_token token start lexer =
     (let length = lx_position lexer - start
      in (token\<lparr>tok_type := TOKEN_NUMBER, tok_value := Some (take length (drop start (lx_source lexer))),
            tok_lexeme := SourceView start length\<rparr>, lexer))"

definition lexer_lex_number :: "Lexer \<Rightarrow> Token \<times> Lexer" where
  "lexer_lex_number lexer =
     (let token = fresh_token lexer; start = lx_position lexer
      in if current_char lexer = CHR ''0'' \<and> (next_is lexer 1 CHR ''x'' \<or> next_is lexer 1 CHR ''X'') then
           (let lexer = advance 2 lexer; digits_start = lx_position lexer;
                lexer = scan_while c_isxdigit lexer
            in if lx_position lexer = digits_start
               then lex_error token lexer ''Invalid hexadecimal literal''
               else number_token token start lexer)
         else if current_char lexer = CHR ''0'' \<and> (next_is lexer 1 CHR ''b'' \<or> next_is lexer 1 CHR ''B'') then
           (let lexer = advance 2 lexer; digits_start = lx_position lexer;
                lexer = scan_while (\<lambda>c. c = CHR ''0'' \<or> c = CHR ''1'') lexer
            in if lx_position lexer = digits_start
               then lex_error token lexer ''Invalid binary literal''
               else number_token token start lexer)
         else number_token token start (scan_while (\<lambda>c. c_isdigit c \<or> c = CHR ''.'') lexer))"

definition lexer_lex_identifier_or_keyword :: "Lexer \<Rightarrow> Token \<times> Lexer" where
  "lexer_lex_identifier_or_keyword lexer =
     (let token = fresh_token lexer; start = lx_position lexer;
          lexer = scan_while (\<lambda>c. c_isalnum c \<or> c = CHR ''_'') lexer;
          length = lx_position lexer - start;
          value = take length (drop start (lx_source lexer));
          (interner, ptr) = string_intern_n (lx_interner lexer) (Some value);
          lexer = lexer\<lparr>lx_interner := interner\<rparr>
      in case ptr of
           None \<Rightarrow> lex_error token lexer ''Memory allocation failed''
         | Some _ \<Rightarrow>
             (token\<lparr>tok_type := classify_word value, tok_value := Some value, tok_is_interned := True,
                tok_lexeme := SourceView start length\<rparr>, lexer))"

definition string_escape :: "char \<Rightarrow> string" where
  "string_escape escape_char =
     (if escape_char = CHR ''n'' then [CHR 0x0A]
      else if escape_char = CHR ''t'' then [CHR 0x09]
      else if escape_char = CHR ''r'' then [CHR 0x0D]
      else if escape_char = CHR 0x5C then [CHR 0x5C]
      else if escape_char = CHR 0x22 then [CHR 0x22]
      else if escape_char = CHR ''0'' then [CHR 0x00]
      else [CHR 0x5C, escape_char])"

function string_literal_loop :: "Lexer \<Rightarrow> string \<Rightarrow> Lexer \<times> string" where
  "string_literal_loop lexer buffer =
     (if lx_position lexer < lx_length lexer \<and> current_char lexer \<noteq> CHR 0x22 then
        (if current_char lexer = CHR 0x5C \<and> lx_position lexer + 1 < lx_length lexer
         then let lexer = advance 1 lexer
              in string_literal_loop (advance 1 lexer) (buffer @ string_escape (current_char lexer))
         else string_literal_loop (advance 1 lexer) (buffer @ [current_char lexer]))
      else (lexer, buffer))"
  by pat_completeness auto
termination
  by (relation "measure (\<lambda>(l, b). lx_length l - lx_position l)") auto

declare string_literal_loop.simps [simp del]

definition lexer_lex_string_literal :: "Lexer \<Rightarrow> Token \<times> Lexer" where
  "lexer_lex_string_literal lexer =
     (let token = fresh_token lexer;
          (lexer, buffer) = string_literal_loop (advance 1 lexer) []
      in if lx_position lexer \<ge> lx_length lexer
         then lex_error token lexer ''Unterminated string literal''
         else (token\<lparr>tok_type := TOKEN_STRING, tok_value := Some buffer,
                 tok_lexeme := ValueView (length buffer)\<rparr>, advance 1 lexer))"

section \<open>Operators and punctuation\<close>

text \<open>\<open>token_set_static_value\<close>, \<open>token_set_lexeme\<close> and the two advances of an operator of several
  characters; then the single-character case at the end of the switch.\<close>

definition operator_token :: "Token \<Rightarrow> Lexer \<Rightarrow> PunctToken \<Rightarrow> string \<Rightarrow> Token \<times> Lexer" where
  "operator_token token lexer ty spelling =
     (token\<lparr>tok_type := Punct ty, tok_value := Some spelling, tok_is_interned := True,
        tok_lexeme := SourceView (lx_position lexer) (length spelling)\<rparr>,
      advance (length spelling) lexer)"

definition single_char_token :: "Token \<Rightarrow> Lexer \<Rightarrow> PunctToken \<Rightarrow> Token \<times> Lexer" where
  "single_char_token token lexer ty = operator_token token lexer ty [current_char lexer]"

definition enter_continuation :: "Lexer \<Rightarrow> Lexer" where
  "enter_continuation lexer = lexer\<lparr>lx_continuation_depth := lx_continuation_depth lexer + 1\<rparr>"

definition leave_continuation :: "Lexer \<Rightarrow> Lexer" where
  "leave_continuation lexer =
     (if 0 < lx_continuation_depth lexer
      then lexer\<lparr>lx_continuation_depth := lx_continuation_depth lexer - 1\<rparr> else lexer)"

text \<open>The switch over the current character; \<open>None\<close> is its default case.\<close>

definition lexer_switch :: "Token \<Rightarrow> Lexer \<Rightarrow> (Token \<times> Lexer) option" where
  "lexer_switch token lexer =
     (let c = current_char lexer;
          multi = (\<lambda>ty s. Some (operator_token token lexer ty s));
          single = (\<lambda>ty. Some (single_char_token token lexer ty))
      in if c = CHR '':'' then single TOKEN_COLON
         else if c = CHR '';'' then single TOKEN_SEMICOLON
         else if c = CHR '','' then single TOKEN_COMMA
         else if c = CHR ''='' then
           (if next_is lexer 1 CHR ''='' then multi TOKEN_EQUALS_EQUALS ''=='' else single TOKEN_EQUALS)
         else if c = CHR ''!'' then
           (if next_is lexer 1 CHR ''='' then multi TOKEN_NOT_EQUALS ''!='' else single TOKEN_NOT)
         else if c = CHR ''<'' then
           (if next_is lexer 1 CHR ''='' then multi TOKEN_LESS_EQUALS ''<=''
            else if next_is lexer 1 CHR ''<'' then
              (if next_is lexer 2 CHR ''='' then multi TOKEN_LSHIFT_EQUALS ''<<=''
               else multi TOKEN_LSHIFT ''<<'')
            else single TOKEN_LESS_THAN)
         else if c = CHR ''>'' then
           (if next_is lexer 1 CHR ''='' then multi TOKEN_GREATER_EQUALS ''>=''
            else if next_is lexer 1 CHR ''>'' then
              (if next_is lexer 2 CHR ''='' then multi TOKEN_RSHIFT_EQUALS ''>>=''
               else multi TOKEN_RSHIFT ''>>'')
            else single TOKEN_GREATER_THAN)
         else if c = CHR ''('' then
           Some (single_char_token token (enter_continuation lexer) TOKEN_LPAREN)
         else if c = CHR '')'' then
           Some (single_char_token token (leave_continuation lexer) TOKEN_RPAREN)
         else if c = CHR ''{'' then single TOKEN_LBRACE
         else if c = CHR ''}'' then single TOKEN_RBRACE
         else if c = CHR ''['' then
           Some (single_char_token token (enter_continuation lexer) TOKEN_LBRACKET)
         else if c = CHR '']'' then
           Some (single_char_token token (leave_continuation lexer) TOKEN_RBRACKET)
         else if c = CHR ''+'' then
           (if next_is lexer 1 CHR ''='' then multi TOKEN_PLUS_EQUALS ''+='' else single TOKEN_PLUS)
         else if c = CHR ''*'' then
           (if next_is lexer 1 CHR ''='' then multi TOKEN_STAR_EQUALS ''*='' else single TOKEN_MULTIPLY)
         else if c = CHR ''&'' then
           (if next_is lexer 1 CHR ''&'' then multi TOKEN_AND_AND ''&&''
            else if next_is lexer 1 CHR ''='' then multi TOKEN_AMP_EQUALS ''&=''
            else single TOKEN_AMPERSAND)
         else if c = CHR ''|'' then
           (if next_is lexer 1 CHR ''|'' then multi TOKEN_OR_OR ''||''
            else if next_is lexer 1 CHR ''='' then multi TOKEN_PIPE_EQUALS ''|=''
            else single TOKEN_PIPE)
         else if c = CHR ''^'' then
           (if next_is lexer 1 CHR ''='' then multi TOKEN_CARET_EQUALS ''^='' else single TOKEN_CARET)
         else if c = CHR ''~'' then single TOKEN_TILDE
         else if c = CHR ''/'' then
           (if next_is lexer 1 CHR ''='' then multi TOKEN_SLASH_EQUALS ''/='' else single TOKEN_DIVIDE)
         else if c = CHR ''%'' then
           (if next_is lexer 1 CHR ''='' then multi TOKEN_PERCENT_EQUALS ''%='' else single TOKEN_PERCENT)
         else if c = CHR ''.'' then single TOKEN_DOT
         else None)"

text \<open>What follows the switch: the minus operators, the literals, words, and unknown characters.\<close>

definition lexer_unknown_character :: "Token \<Rightarrow> Lexer \<Rightarrow> Token \<times> Lexer" where
  "lexer_unknown_character token lexer =
     (let message = ''Unknown character: '' @ [current_char lexer];
          (token, lexer') = lex_error token lexer message
      in (token\<lparr>tok_lexeme := SourceView (lx_position lexer) 1\<rparr>, advance 1 lexer'))"

definition lexer_after_switch :: "Token \<Rightarrow> Lexer \<Rightarrow> Token \<times> Lexer" where
  "lexer_after_switch token lexer =
     (let c = current_char lexer
      in if c = CHR ''-'' \<and> next_is lexer 1 CHR ''>'' then operator_token token lexer TOKEN_ARROW ''->''
         else if c = CHR ''-'' \<and> next_is lexer 1 CHR ''='' then operator_token token lexer TOKEN_MINUS_EQUALS ''-=''
         else if c = CHR ''-'' then single_char_token token lexer TOKEN_MINUS
         else if c = CHR 0x27 then lexer_lex_char_literal lexer
         else if c_isdigit c \<or> (c = CHR ''0'' \<and> (next_is lexer 1 CHR ''x'' \<or> next_is lexer 1 CHR ''X'' \<or>
                 next_is lexer 1 CHR ''b'' \<or> next_is lexer 1 CHR ''B''))
         then lexer_lex_number lexer
         else if c_isalpha c \<or> c = CHR ''_'' then lexer_lex_identifier_or_keyword lexer
         else if c = CHR 0x22 then lexer_lex_string_literal lexer
         else lexer_unknown_character token lexer)"

section \<open>The next token\<close>

text \<open>The white-space loop. The flag is set when it stopped at a newline outside brackets, which is a
  token of its own.\<close>

function lexer_skip_space :: "Lexer \<Rightarrow> Lexer \<times> bool" where
  "lexer_skip_space lexer =
     (if lx_position lexer < lx_length lexer \<and> c_isspace (current_char lexer) then
        (if current_char lexer = CHR 0x0A then
           (if 0 < lx_continuation_depth lexer then lexer_skip_space (advance_newline lexer)
            else (lexer, True))
         else lexer_skip_space (advance 1 lexer))
      else (lexer, False))"
  by pat_completeness auto
termination
  by (relation "measure (\<lambda>l. lx_length l - lx_position l)") auto

declare lexer_skip_space.simps [simp del]

text \<open>\<open>scanned l l'\<close>: a scanning step has moved the cursor from \<open>l\<close> to \<open>l'\<close>, without passing the end of
  the source, and has left everything but the cursor alone.\<close>

definition scanned :: "Lexer \<Rightarrow> Lexer \<Rightarrow> bool" where
  "scanned l l' \<longleftrightarrow>
     lx_source l' = lx_source l \<and> lx_length l' = lx_length l \<and> lx_interner l' = lx_interner l \<and>
     lx_continuation_depth l' = lx_continuation_depth l \<and> lx_has_error l' = lx_has_error l \<and>
     lx_error_message l' = lx_error_message l \<and> lx_position l \<le> lx_position l' \<and>
     (lx_position l \<le> lx_length l \<longrightarrow> lx_position l' \<le> lx_length l')"

lemma scanned_refl [simp, intro]: "scanned l l"
  by (simp add: scanned_def)

lemma scanned_trans [trans]: "scanned a b \<Longrightarrow> scanned b c \<Longrightarrow> scanned a c"
  by (auto simp: scanned_def)

lemma scanned_advance: "lx_position l + n \<le> lx_length l \<Longrightarrow> scanned l (advance n l)"
  by (simp add: scanned_def)

lemma scanned_newline: "lx_position l < lx_length l \<Longrightarrow> scanned l (advance_newline l)"
  by (simp add: scanned_def advance_newline_def)

lemma scanned_step:
  "scanned (advance n l) l' \<Longrightarrow> lx_position l + n \<le> lx_length l \<Longrightarrow> scanned l l'"
  "scanned (advance_newline l) l' \<Longrightarrow> lx_position l < lx_length l \<Longrightarrow> scanned l l'"
  by (auto intro: scanned_trans scanned_advance scanned_newline)

lemma scanned_scan_while: "scanned l (scan_while P l)"
proof (induction P l rule: scan_while.induct)
  case (1 P l)
  then show ?case
    by (cases "lx_position l < lx_length l \<and> P (current_char l)")
      (auto simp: scan_while.simps [of P l] intro: scanned_step)
qed

lemma scanned_skip_space: "scanned l (fst (lexer_skip_space l))"
proof (induction l rule: lexer_skip_space.induct)
  case (1 l)
  then show ?case
    by (cases "lx_position l < lx_length l \<and> c_isspace (current_char l)")
      (auto simp: lexer_skip_space.simps [of l] intro: scanned_step)
qed

lemma scanned_block_comment: "scanned l (fst (block_comment_loop l d))"
proof (induction l d rule: block_comment_loop.induct)
  case (1 l d)
  then show ?case
    by (cases "lx_position l < lx_length l \<and> 0 < d")
      (auto simp: block_comment_loop.simps [of l d] next_is_def intro: scanned_step)
qed

lemma scanned_string_literal: "scanned l (fst (string_literal_loop l b))"
proof (induction l b rule: string_literal_loop.induct)
  case (1 l b)
  show ?case
  proof (cases "lx_position l < lx_length l \<and> current_char l \<noteq> CHR 0x22")
    case True
    show ?thesis
    proof (cases "current_char l = CHR 0x5C \<and> lx_position l + 1 < lx_length l")
      case esc: True
      have "scanned (advance 1 (advance 1 l)) (fst (string_literal_loop (advance 1 (advance 1 l))
         (b @ string_escape (current_char (advance 1 l)))))"
        by (rule "1.IH"(1) [OF True esc refl])
      moreover have "scanned l (advance 1 (advance 1 l))"
        using esc by (simp add: scanned_def)
      ultimately show ?thesis
        using True esc by (simp add: string_literal_loop.simps [of l b] Let_def) (rule scanned_trans)
    next
      case False
      with "1.IH"(2) [OF True False] True show ?thesis
        by (auto simp: string_literal_loop.simps [of l b] intro: scanned_step)
    qed
  next
    case False
    then show ?thesis by (auto simp: string_literal_loop.simps [of l b])
  qed
qed

lemma scanned_line_comment:
  assumes "lx_position l + 2 \<le> lx_length l"
  shows "scanned (advance 2 l) (lexer_skip_line_comment l)" and "scanned l (lexer_skip_line_comment l)"
  using scanned_scan_while [of "advance 2 l"] scanned_advance [OF assms]
  by (auto simp: lexer_skip_line_comment_def intro: scanned_trans)

lemma scanned_skip_block_comment:
  assumes "lexer_skip_block_comment l = Inr l'"
  shows "scanned (advance 2 l) l'"
  using assms scanned_block_comment [of "advance 2 l" 1]
  by (auto simp: lexer_skip_block_comment_def Let_def split: prod.splits if_splits)

function lexer_next_token :: "Lexer \<Rightarrow> Token \<times> Lexer" where
  "lexer_next_token lexer =
     (let token = fresh_token lexer;
          (lexer', at_newline) = lexer_skip_space lexer
      in if at_newline
         then (token\<lparr>tok_type := Punct TOKEN_NEWLINE, tok_value := None,
                 tok_lexeme := SourceView (lx_position lexer') 1\<rparr>, advance_newline lexer')
         else if lx_position lexer' \<ge> lx_length lexer' then (token, lexer')
         else let token = token\<lparr>tok_line := lx_line lexer', tok_column := lx_column lexer'\<rparr>
              in if current_char lexer' = CHR ''/'' \<and> next_is lexer' 1 CHR ''/''
                 then lexer_next_token (lexer_skip_line_comment lexer')
                 else if current_char lexer' = CHR ''/'' \<and> next_is lexer' 1 CHR ''*''
                 then (case lexer_skip_block_comment lexer' of
                         Inl result \<Rightarrow> result
                       | Inr lexer'' \<Rightarrow> lexer_next_token lexer'')
                 else case lexer_switch token lexer' of
                        Some result \<Rightarrow> result
                      | None \<Rightarrow> lexer_after_switch token lexer')"
  by pat_completeness auto
termination
proof (relation "measure (\<lambda>l. lx_length l - lx_position l)", goal_cases)
  case (2 lexer token p lexer' nl token')
  have "scanned lexer lexer'" using scanned_skip_space [of lexer] 2(2,3) by (metis fst_conv)
  with 2 scanned_line_comment(1) [of lexer'] show ?case by (auto simp: next_is_def scanned_def)
next
  case (3 lexer token p lexer' nl token' lexer'')
  have "scanned lexer lexer'" using scanned_skip_space [of lexer] 3(2,3) by (metis fst_conv)
  with 3 scanned_skip_block_comment [of lexer' lexer''] show ?case by (auto simp: next_is_def scanned_def)
qed simp

declare lexer_next_token.simps [simp del]

definition lexer_peek_token :: "Lexer \<Rightarrow> Token \<times> Lexer" where
  "lexer_peek_token lexer =
     (let (token, lexer') = lexer_next_token lexer
      in (token, lexer'\<lparr>lx_position := lx_position lexer, lx_line := lx_line lexer,
            lx_column := lx_column lexer, lx_continuation_depth := lx_continuation_depth lexer\<rparr>))"

text \<open>The token stream that the parser pulls: tokens up to and including the end of input, or \<open>None\<close>
  when the fuel runs out first.\<close>

fun lexer_tokens :: "nat \<Rightarrow> Lexer \<Rightarrow> (Token list \<times> Lexer) option" where
  "lexer_tokens 0 lexer = None"
| "lexer_tokens (Suc fuel) lexer =
     (let (token, lexer') = lexer_next_token lexer
      in if tok_type token = TOKEN_EOF then Some ([token], lexer')
         else map_option (\<lambda>(ts, l). (token # ts, l)) (lexer_tokens fuel lexer'))"

end
