(* ===== verification/Lexer_Props.thy ===== *)
theory Lexer_Props
  imports Lexer
begin

text \<open>
  Properties of the lexer: the state invariant, progress and termination of the token stream, the
  relation between a token's text and the source, line tracking, look-ahead, and round trips through
  words and string literals.
\<close>

section \<open>The state invariant\<close>

definition lexer_wf :: "Lexer \<Rightarrow> bool" where
  "lexer_wf l \<longleftrightarrow> lx_length l = length (lx_source l) \<and> lx_position l \<le> lx_length l \<and> intern_wf (lx_interner l)"

lemma lexer_wf_create: "intern_wf st \<Longrightarrow> lexer_wf (lexer_create src st)"
  by (simp add: lexer_wf_def lexer_create_def)

lemma scanned_wf: "scanned l l' \<Longrightarrow> lexer_wf l \<Longrightarrow> lexer_wf l'"
  by (auto simp: scanned_def lexer_wf_def)

lemma scan_while_takeWhile:
  assumes "lx_length l = length (lx_source l)"
  shows "lx_position (scan_while P l) =
     lx_position l + length (takeWhile P (drop (lx_position l) (lx_source l)))"
  using assms
proof (induction P l rule: scan_while.induct)
  case (1 P l)
  show ?case
  proof (cases "lx_position l < lx_length l \<and> P (current_char l)")
    case True
    with "1.IH" [OF True] "1.prems" show ?thesis
      using takeWhile_drop_step [of "lx_position l" "lx_source l" P]
      by (simp add: scan_while.simps [of P l] current_char_def)
  next
    case False
    with "1.prems" show ?thesis
      using takeWhile_drop_stop [of "lx_source l" "lx_position l" P]
      by (auto simp: scan_while.simps [of P l] current_char_def)
  qed
qed

lemma scan_while_line [simp]: "lx_line (scan_while P l) = lx_line l"
proof (induction P l rule: scan_while.induct)
  case (1 P l)
  then show ?case
    by (cases "lx_position l < lx_length l \<and> P (current_char l)") (auto simp: scan_while.simps [of P l])
qed

text \<open>The text between two cursor positions.\<close>

definition src_slice :: "Lexer \<Rightarrow> nat \<Rightarrow> nat \<Rightarrow> string" where
  "src_slice l i j = take (j - i) (drop i (lx_source l))"

lemma take_takeWhile_drop: "take (length (takeWhile P xs)) xs = takeWhile P xs"
  by (metis takeWhile_eq_take length_take min.absorb2 length_takeWhile_le)

lemma src_slice_scan_while:
  "lx_length l = length (lx_source l) \<Longrightarrow>
   src_slice l (lx_position l) (lx_position (scan_while P l)) =
     takeWhile P (drop (lx_position l) (lx_source l))"
  by (simp add: src_slice_def scan_while_takeWhile take_takeWhile_drop)

section \<open>Operators\<close>

lemma take_drop_2:
  "Suc i < length xs \<Longrightarrow> take (Suc (Suc 0)) (drop i xs) = [xs ! i, xs ! Suc i]"
  by (simp add: Cons_nth_drop_Suc [symmetric])

lemma take_drop_3:
  "Suc (Suc i) < length xs \<Longrightarrow>
   take (Suc (Suc (Suc 0))) (drop i xs) = [xs ! i, xs ! Suc i, xs ! Suc (Suc i)]"
  by (simp add: Cons_nth_drop_Suc [symmetric])

text \<open>Every operator token is the text under the cursor, which it consumes; only the bracket depth
  may change besides.\<close>

definition operator_result :: "Token \<Rightarrow> Lexer \<Rightarrow> Token \<times> Lexer \<Rightarrow> bool" where
  "operator_result token l r \<longleftrightarrow>
     (\<exists>ty s d. s \<noteq> [] \<and> CHR 0x0A \<notin> set s \<and> ty \<noteq> TOKEN_NEWLINE \<and>
        lx_position l + length s \<le> lx_length l \<and>
        take (length s) (drop (lx_position l) (lx_source l)) = s \<and>
        r = (token\<lparr>tok_type := Punct ty, tok_value := Some s, tok_is_interned := True,
               tok_lexeme := SourceView (lx_position l) (length s)\<rparr>,
             (advance (length s) l)\<lparr>lx_continuation_depth := d\<rparr>))"

lemma operator_result_multi2:
  assumes "lx_length l = length (lx_source l)" and "current_char l = c" and "next_is l 1 d"
    and "c \<noteq> CHR 0x0A" and "d \<noteq> CHR 0x0A" and "ty \<noteq> TOKEN_NEWLINE"
  shows "operator_result token l (operator_token token l ty [c, d])"
  unfolding operator_result_def operator_token_def
  by (rule exI [of _ ty], rule exI [of _ "[c, d]"], rule exI [of _ "lx_continuation_depth l"])
    (use assms take_drop_2 [of "lx_position l" "lx_source l"] in
      \<open>auto simp: next_is_def current_char_def advance_def\<close>)

lemma operator_result_multi3:
  assumes "lx_length l = length (lx_source l)" and "current_char l = c" and "next_is l 1 d" and "next_is l 2 e"
    and "c \<noteq> CHR 0x0A" and "d \<noteq> CHR 0x0A" and "e \<noteq> CHR 0x0A" and "ty \<noteq> TOKEN_NEWLINE"
  shows "operator_result token l (operator_token token l ty [c, d, e])"
  unfolding operator_result_def operator_token_def
  by (rule exI [of _ ty], rule exI [of _ "[c, d, e]"], rule exI [of _ "lx_continuation_depth l"])
    (use assms take_drop_3 [of "lx_position l" "lx_source l"] in
      \<open>auto simp: next_is_def current_char_def advance_def\<close>)

lemma operator_result_single:
  assumes "lx_length l = length (lx_source l)" and "lx_position l < lx_length l"
    and "current_char l \<noteq> CHR 0x0A" and "ty \<noteq> TOKEN_NEWLINE"
  shows "operator_result token l (single_char_token token (l\<lparr>lx_continuation_depth := d\<rparr>) ty)"
  unfolding operator_result_def operator_token_def single_char_token_def
  by (rule exI [of _ ty], rule exI [of _ "[current_char l]"], rule exI [of _ d])
    (use assms in \<open>auto simp: current_char_def advance_def Cons_nth_drop_Suc [symmetric]\<close>)

lemma operator_result_single':
  assumes "lx_length l = length (lx_source l)" and "lx_position l < lx_length l"
    and "current_char l \<noteq> CHR 0x0A" and "ty \<noteq> TOKEN_NEWLINE"
  shows "operator_result token l (single_char_token token l ty)"
    and "operator_result token l (single_char_token token (enter_continuation l) ty)"
    and "operator_result token l (single_char_token token (leave_continuation l) ty)"
  using operator_result_single [OF assms, of token "lx_continuation_depth l"]
    operator_result_single [OF assms, of token "lx_continuation_depth l + 1"]
    operator_result_single [OF assms, of token "lx_continuation_depth l - 1"]
  by (simp_all add: enter_continuation_def leave_continuation_def)

lemma lexer_switch_result:
  assumes wf: "lx_length l = length (lx_source l)" and pos: "lx_position l < lx_length l"
    and sw: "lexer_switch token l = Some r"
  shows "operator_result token l r"
  using sw unfolding lexer_switch_def Let_def
  by (auto split: if_splits
      intro!: operator_result_single' [OF wf pos] operator_result_multi2 [OF wf] operator_result_multi3 [OF wf])

section \<open>Progress\<close>

text \<open>\<open>lexed l r\<close>: the step from \<open>l\<close> gave a token that is not the end of input, consumed at least one
  character and stayed inside the source.\<close>

definition lexed :: "Lexer \<Rightarrow> Token \<times> Lexer \<Rightarrow> bool" where
  "lexed l r \<longleftrightarrow> tok_type (fst r) \<noteq> TOKEN_EOF \<and> lx_source (snd r) = lx_source l \<and>
     lx_length (snd r) = lx_length l \<and> lx_position l < lx_position (snd r) \<and>
     lx_position (snd r) \<le> lx_length l \<and> intern_wf (lx_interner (snd r))"

lemma lexed_scanned:
  "scanned l m \<Longrightarrow> lexed m r \<Longrightarrow> lexed l r"
  by (auto simp: lexed_def scanned_def)

lemma lexed_lex_error:
  "scanned l m \<Longrightarrow> lexer_wf l \<Longrightarrow> lx_position l < lx_position m \<Longrightarrow> lexed l (lex_error token m msg)"
  by (auto simp: lexed_def lex_error_def lexer_set_error_def scanned_def lexer_wf_def)

lemma lexed_operator: "lexer_wf l \<Longrightarrow> operator_result token l r \<Longrightarrow> lexed l r"
  by (auto simp: operator_result_def lexed_def lexer_wf_def)

lemma classify_word_range:
  "classify_word w = TOKEN_IDENTIFIER \<or> classify_word w \<in> snd ` set (keyword_table @ asm_word_table)"
proof (cases "map_of keyword_table w")
  case (Some ty)
  then have "ty \<in> snd ` set keyword_table" by (auto dest!: map_of_SomeD intro: rev_image_eqI)
  with Some show ?thesis by (simp add: classify_word_def image_Un)
next
  case None
  show ?thesis
  proof (cases "List.find (\<lambda>(word, _). c_strcaseeq w word) asm_word_table")
    case (Some r)
    then have "r \<in> set asm_word_table" by (rule find_Some_mem [THEN conjunct1])
    with None Some show ?thesis by (cases r) (force simp: classify_word_def)
  qed (simp add: classify_word_def None)
qed

lemma word_table_types:
  "ty \<in> snd ` set (keyword_table @ asm_word_table) \<Longrightarrow>
   (\<exists>k. ty = Keyword k) \<or> (\<exists>k. ty = TypeKeyword k) \<or> (\<exists>k. ty = Mnemonic k) \<or> (\<exists>k. ty = Register k)"
  by (auto simp: keyword_table_def asm_word_table_def)

lemma classify_word_types:
  "classify_word w = TOKEN_IDENTIFIER \<or> (\<exists>k. classify_word w = Keyword k) \<or>
   (\<exists>k. classify_word w = TypeKeyword k) \<or> (\<exists>k. classify_word w = Mnemonic k) \<or>
   (\<exists>k. classify_word w = Register k)"
  using classify_word_range word_table_types by blast

lemma classify_word_not [simp]: "classify_word w \<noteq> TOKEN_EOF" "classify_word w \<noteq> TOKEN_STRING"
  "classify_word w \<noteq> TOKEN_ERROR" "classify_word w \<noteq> TOKEN_NUMBER" "classify_word w \<noteq> Punct p"
  using classify_word_types [of w] by auto

lemma scan_while_moves:
  assumes "lx_position l < lx_length l" and "P (current_char l)"
  shows "lx_position l < lx_position (scan_while P l)"
  using assms scanned_scan_while [of "advance 1 l" P]
  by (subst scan_while.simps) (auto simp: scanned_def)

lemma lexed_char_literal_close:
  assumes "scanned l m" and "lexer_wf l" and "lx_position m < lx_length m"
  shows "lexed l (char_literal_close token start m v)"
  using assms
  by (auto simp: char_literal_close_def Let_def lexed_def lex_error_def lexer_set_error_def scanned_def
      lexer_wf_def)

lemma lexed_char_literal:
  assumes wf: "lexer_wf l" and pos: "lx_position l < lx_length l"
  shows "lexed l (lexer_lex_char_literal l)"
proof -
  have s1: "scanned l (advance 1 l)" using pos by (simp add: scanned_def)
  have s2: "scanned l (advance 1 (advance 1 l))" if "lx_position (advance 1 l) < lx_length (advance 1 l)"
    using that by (simp add: scanned_def)
  show ?thesis
    using s1 s2 wf pos
    by (auto simp: lexer_lex_char_literal_def Let_def split: option.split
        intro!: lexed_lex_error lexed_char_literal_close)
qed

lemma lexed_number_token:
  "scanned l m \<Longrightarrow> lexer_wf l \<Longrightarrow> lx_position l < lx_position m \<Longrightarrow> lexed l (number_token token start m)"
  by (auto simp: number_token_def Let_def lexed_def scanned_def lexer_wf_def)

lemma lexed_number:
  assumes wf: "lexer_wf l" and pos: "lx_position l < lx_length l" and dig: "c_isdigit (current_char l)"
  shows "lexed l (lexer_lex_number l)"
proof -
  have s2: "scanned l (scan_while P (advance 2 l)) \<and> lx_position l < lx_position (scan_while P (advance 2 l))"
    if "next_is l 1 c" for P c
    using that scanned_scan_while [of "advance 2 l" P] by (auto simp: next_is_def scanned_def)
  have "lx_position l < lx_position (scan_while (\<lambda>c. c_isdigit c \<or> c = CHR ''.'') l)"
    using pos dig by (intro scan_while_moves) auto
  with s2 wf scanned_scan_while show ?thesis
    by (auto simp: lexer_lex_number_def Let_def intro!: lexed_lex_error lexed_number_token)
qed

lemma string_intern_n_Some: "\<exists>st' p. string_intern_n st (Some t) = (st', Some p)"
  by (auto simp: string_intern_n_def Let_def split: option.split prod.split)

lemma lexed_identifier:
  assumes wf: "lexer_wf l" and pos: "lx_position l < lx_length l"
    and c: "c_isalpha (current_char l) \<or> current_char l = CHR ''_''"
  shows "lexed l (lexer_lex_identifier_or_keyword l)"
proof -
  let ?m = "scan_while (\<lambda>c. c_isalnum c \<or> c = CHR ''_'') l"
  let ?v = "take (lx_position ?m - lx_position l) (drop (lx_position l) (lx_source ?m))"
  obtain st p where st: "string_intern_n (lx_interner ?m) (Some ?v) = (st, Some p)"
    using string_intern_n_Some by blast
  have "intern_wf (fst (string_intern_n (lx_interner ?m) (Some ?v)))"
    using wf scanned_scan_while [of l "\<lambda>c. c_isalnum c \<or> c = CHR ''_''"]
    by (intro table_interner.intern_invar) (simp add: scanned_def lexer_wf_def)
  with st have "intern_wf st" by simp
  moreover have "lx_position l < lx_position ?m"
    using pos c by (intro scan_while_moves) (auto simp: c_isalnum_def)
  ultimately show ?thesis
    using st wf scanned_scan_while [of l "\<lambda>c. c_isalnum c \<or> c = CHR ''_''"]
    by (auto simp: lexer_lex_identifier_or_keyword_def Let_def lexed_def scanned_def lexer_wf_def)
qed

lemma lexed_string_literal:
  assumes wf: "lexer_wf l" and pos: "lx_position l < lx_length l"
  shows "lexed l (lexer_lex_string_literal l)"
proof -
  obtain m b where m: "string_literal_loop (advance 1 l) [] = (m, b)" by fastforce
  have "scanned (advance 1 l) m" using scanned_string_literal [of "advance 1 l" "[]"] m by simp
  then have "scanned l m" "lx_position l < lx_position m"
    using pos by (auto simp: scanned_def)
  with m wf show ?thesis
    by (auto simp: lexer_lex_string_literal_def Let_def lexed_def lex_error_def lexer_set_error_def
        scanned_def lexer_wf_def)
qed

lemma lexed_unknown:
  "lexer_wf l \<Longrightarrow> lx_position l < lx_length l \<Longrightarrow> lexed l (lexer_unknown_character token l)"
  by (auto simp: lexer_unknown_character_def lex_error_def Let_def lexed_def lexer_set_error_def lexer_wf_def)

lemma lexed_after_switch:
  assumes wf: "lexer_wf l" and pos: "lx_position l < lx_length l"
  shows "lexed l (lexer_after_switch token l)"
proof -
  have len: "lx_length l = length (lx_source l)" using wf by (simp add: lexer_wf_def)
  show ?thesis
    unfolding lexer_after_switch_def Let_def
    by (auto simp: c_isdigit_def intro!: lexed_operator [OF wf, of token] operator_result_multi2 [OF len]
        operator_result_single' [OF len pos] lexed_char_literal [OF wf pos] lexed_number [OF wf pos]
        lexed_identifier [OF wf pos] lexed_string_literal [OF wf pos] lexed_unknown [OF wf pos])
qed

text \<open>One unfolding of \<open>lexer_next_token\<close> by the five ways it can go: a newline token, the end of input,
  a comment that is skipped, an unterminated block comment, or a token under the cursor. Inductions
  over the comment recursion use this rule.\<close>

lemma lexer_next_token_cases [case_names newline eof line_comment block_comment unterminated token]:
  assumes "\<And>m. lexer_skip_space l = (m, True) \<Longrightarrow>
      lexer_next_token l = ((fresh_token l)\<lparr>tok_type := Punct TOKEN_NEWLINE, tok_value := None,
                 tok_lexeme := SourceView (lx_position m) 1\<rparr>, advance_newline m) \<Longrightarrow> thesis"
    and "\<And>m. lexer_skip_space l = (m, False) \<Longrightarrow> lx_length m \<le> lx_position m \<Longrightarrow>
      lexer_next_token l = (fresh_token l, m) \<Longrightarrow> thesis"
    and "\<And>m. lexer_skip_space l = (m, False) \<Longrightarrow> lx_position m + 1 < lx_length m \<Longrightarrow>
      lexer_next_token l = lexer_next_token (lexer_skip_line_comment m) \<Longrightarrow>
      current_char m = CHR ''/'' \<Longrightarrow> next_is m 1 CHR ''/'' \<Longrightarrow> thesis"
    and "\<And>m m'. lexer_skip_space l = (m, False) \<Longrightarrow> lx_position m + 1 < lx_length m \<Longrightarrow>
      lexer_skip_block_comment m = Inr m' \<Longrightarrow>
      lexer_next_token l = lexer_next_token m' \<Longrightarrow>
      current_char m = CHR ''/'' \<Longrightarrow> next_is m 1 CHR ''*'' \<Longrightarrow> thesis"
    and "\<And>m r. lexer_skip_space l = (m, False) \<Longrightarrow> lx_position m + 1 < lx_length m \<Longrightarrow>
      lexer_skip_block_comment m = Inl r \<Longrightarrow> lexer_next_token l = r \<Longrightarrow> thesis"
    and "\<And>m token. lexer_skip_space l = (m, False) \<Longrightarrow> lx_position m < lx_length m \<Longrightarrow>
      token = (fresh_token l)\<lparr>tok_line := lx_line m, tok_column := lx_column m\<rparr> \<Longrightarrow>
      lexer_next_token l = (case lexer_switch token m of Some r \<Rightarrow> r | None \<Rightarrow> lexer_after_switch token m) \<Longrightarrow>
      thesis"
  shows thesis
proof -
  obtain m nl where sp: "lexer_skip_space l = (m, nl)" by fastforce
  note unf = lexer_next_token.simps [of l] sp Let_def
  show thesis
  proof (cases nl)
    case True
    with assms(1) [of m] sp show thesis by (simp add: unf)
  next
    case nl: False
    show thesis
    proof (cases "lx_length m \<le> lx_position m")
      case True
      with assms(2) [of m] sp nl show thesis by (simp add: unf)
    next
      case pos: False
      consider (lc) "current_char m = CHR ''/'' \<and> next_is m 1 CHR ''/''"
        | (bc) "current_char m = CHR ''/'' \<and> next_is m 1 CHR ''*''"
        | (tok) "\<not> (current_char m = CHR ''/'' \<and> next_is m 1 CHR ''/'')"
            "\<not> (current_char m = CHR ''/'' \<and> next_is m 1 CHR ''*'')"
        by blast
      then show thesis
      proof cases
        case lc
        with assms(3) [of m] sp nl pos show thesis by (simp add: unf next_is_def)
      next
        case bc
        then have "lx_position m + 1 < lx_length m" by (simp add: next_is_def)
        with bc assms(4) [of m] assms(5) [of m] sp nl pos show thesis
          by (cases "lexer_skip_block_comment m") (auto simp: unf next_is_def)
      next
        case tok
        with assms(6) [of m] sp nl pos show thesis by (simp add: unf del: One_nat_def)
      qed
    qed
  qed
qed

lemma lexer_skip_block_comment_Inl:
  assumes "lexer_skip_block_comment m = Inl r" and "lexer_wf m" and "lx_position m + 1 < lx_length m"
  shows "\<exists>m'. scanned m m' \<and> lx_position m < lx_position m' \<and>
     r = lex_error (fresh_token m) m' ''Unterminated block comment''"
proof -
  obtain m' d where b: "block_comment_loop (advance 2 m) 1 = (m', d)" by fastforce
  have "scanned (advance 2 m) m'" using scanned_block_comment [of "advance 2 m" 1] b by simp
  then have "scanned m m'" "lx_position m < lx_position m'"
    using assms(3) by (auto simp: scanned_def)
  then show ?thesis using assms(1) b by (auto simp: lexer_skip_block_comment_def split: if_splits)
qed

lemma lexer_skip_space_newline:
  "lexer_skip_space l = (m, True) \<Longrightarrow>
   lx_position m < lx_length m \<and> current_char m = CHR 0x0A \<and> lx_continuation_depth l = 0"
proof (induction l rule: lexer_skip_space.induct)
  case (1 l)
  then show ?case
    by (cases "lx_position l < lx_length l \<and> c_isspace (current_char l)")
      (auto simp: lexer_skip_space.simps [of l] split: if_splits)
qed

definition progressed :: "Lexer \<Rightarrow> Token \<times> Lexer \<Rightarrow> bool" where
  "progressed l r \<longleftrightarrow> lexed l r \<or>
     (tok_type (fst r) = TOKEN_EOF \<and> scanned l (snd r) \<and> lx_position (snd r) = lx_length (snd r))"

lemma progressed_scanned:
  assumes "scanned l m" and "progressed m r"
  shows "progressed l r"
  using assms(2) lexed_scanned [OF assms(1)] scanned_trans [OF assms(1)] unfolding progressed_def by blast

text \<open>Induction over the comments that one call of \<open>lexer_next_token\<close> skips.\<close>

lemma next_token_induct [consumes 1, case_names newline eof line_comment block_comment unterminated token]:
  assumes "lexer_wf l"
    and newline: "\<And>l m. lexer_wf l \<Longrightarrow> lexer_wf m \<Longrightarrow> lexer_skip_space l = (m, True) \<Longrightarrow>
      P l ((fresh_token l)\<lparr>tok_type := Punct TOKEN_NEWLINE, tok_value := None,
                 tok_lexeme := SourceView (lx_position m) 1\<rparr>, advance_newline m)"
    and eof: "\<And>l m. lexer_wf l \<Longrightarrow> lexer_skip_space l = (m, False) \<Longrightarrow> lx_position m = lx_length m \<Longrightarrow>
      P l (fresh_token l, m)"
    and line_comment: "\<And>l m r. lexer_wf l \<Longrightarrow> lexer_skip_space l = (m, False) \<Longrightarrow> lexer_wf m \<Longrightarrow>
      current_char m = CHR ''/'' \<Longrightarrow> next_is m 1 CHR ''/'' \<Longrightarrow> scanned l (lexer_skip_line_comment m) \<Longrightarrow>
      P (lexer_skip_line_comment m) r \<Longrightarrow> P l r"
    and block_comment: "\<And>l m m' r. lexer_wf l \<Longrightarrow> lexer_skip_space l = (m, False) \<Longrightarrow> lexer_wf m \<Longrightarrow>
      current_char m = CHR ''/'' \<Longrightarrow> next_is m 1 CHR ''*'' \<Longrightarrow> lexer_skip_block_comment m = Inr m' \<Longrightarrow>
      scanned l m' \<Longrightarrow> P m' r \<Longrightarrow> P l r"
    and unterminated: "\<And>l m m'. lexer_wf l \<Longrightarrow> lexer_skip_space l = (m, False) \<Longrightarrow> lexer_wf m \<Longrightarrow> scanned m m' \<Longrightarrow>
      lx_position m < lx_position m' \<Longrightarrow>
      P l (lex_error (fresh_token m) m' ''Unterminated block comment'')"
    and token: "\<And>l m token. lexer_wf l \<Longrightarrow> lexer_skip_space l = (m, False) \<Longrightarrow> lexer_wf m \<Longrightarrow>
      lx_position m < lx_length m \<Longrightarrow>
      token = (fresh_token l)\<lparr>tok_line := lx_line m, tok_column := lx_column m\<rparr> \<Longrightarrow>
      P l (case lexer_switch token m of Some r \<Rightarrow> r | None \<Rightarrow> lexer_after_switch token m)"
  shows "P l (lexer_next_token l)"
  using assms(1)
proof (induction "lx_length l - lx_position l" arbitrary: l rule: less_induct)
  case less
  note wf = less.prems
  have sp: "scanned l (fst (lexer_skip_space l))" by (rule scanned_skip_space)
  then have m: "scanned l m" "lexer_wf m" if "lexer_skip_space l = (m, b)" for m b
    using that scanned_wf [OF _ wf] by auto
  have IH: "P m (lexer_next_token m)" if "scanned l m" and "lx_position l < lx_position m" for m
  proof (rule less.hyps [OF _ scanned_wf [OF that(1) wf]])
    show "lx_length m - lx_position m < lx_length l - lx_position l"
      using that wf by (auto simp: scanned_def lexer_wf_def)
  qed
  show ?case
  proof (cases l rule: lexer_next_token_cases)
    case (newline m)
    with assms(2) [OF wf m(2) newline(1)] m show ?thesis by simp
  next
    case (eof m)
    have "lx_position m = lx_length m" using eof m(2) [OF eof(1)] by (simp add: lexer_wf_def)
    with assms(3) [OF wf eof(1)] eof show ?thesis by simp
  next
    case (line_comment m)
    have "scanned (advance 2 m) (lexer_skip_line_comment m)" "scanned m (lexer_skip_line_comment m)"
      using line_comment(2) scanned_line_comment [of m] by simp_all
    with m(1) [OF line_comment(1)] have sc: "scanned l (lexer_skip_line_comment m)"
        "lx_position l < lx_position (lexer_skip_line_comment m)"
      by (auto simp: scanned_def)
    show ?thesis unfolding line_comment(3)
      by (rule assms(4) [OF wf line_comment(1) m(2) [OF line_comment(1)] line_comment(4,5) sc(1) IH [OF sc]])
  next
    case (block_comment m m')
    have "scanned (advance 2 m) m'" "scanned m (advance 2 m)"
      using scanned_skip_block_comment [OF block_comment(3)] block_comment(2) by (simp_all add: scanned_def)
    with m(1) [OF block_comment(1)] have sc: "scanned l m'" "lx_position l < lx_position m'"
      by (auto simp: scanned_def)
    show ?thesis unfolding block_comment(4)
      by (rule assms(5) [OF wf block_comment(1) m(2) [OF block_comment(1)] block_comment(5,6,3) sc(1) IH [OF sc]])
  next
    case (unterminated m r)
    note wfm = m(2) [OF unterminated(1)]
    obtain m' where m': "scanned m m'" "lx_position m < lx_position m'"
      and r: "r = lex_error (fresh_token m) m' ''Unterminated block comment''"
      using lexer_skip_block_comment_Inl [OF unterminated(3) wfm unterminated(2)] by blast
    show ?thesis unfolding unterminated(4) r by (rule assms(6) [OF wf unterminated(1) wfm m'])
  next
    case (token m tk)
    show ?thesis unfolding token(4)
      by (rule assms(7) [OF wf token(1) m(2) [OF token(1)] token(2,3)])
  qed
qed

lemma next_token_progress:
  assumes "lexer_wf l"
  shows "progressed l (lexer_next_token l)"
  using assms
proof (induction rule: next_token_induct)
  case (newline l m)
  then have "lx_position m < lx_length m" by (blast dest: lexer_skip_space_newline)
  with newline scanned_skip_space [of l] show ?case
    by (auto simp: progressed_def lexed_def scanned_def lexer_wf_def)
next
  case (eof l m)
  with scanned_skip_space [of l] show ?case by (auto simp: progressed_def scanned_def fresh_token_def)
next
  case (line_comment l m r)
  then show ?case by (blast intro: progressed_scanned)
next
  case (block_comment l m m' r)
  then show ?case by (blast intro: progressed_scanned)
next
  case (unterminated l m m')
  then have "lexed m (lex_error (fresh_token m) m' ''Unterminated block comment'')"
    by (auto intro: lexed_lex_error)
  moreover have "scanned l m" using scanned_skip_space [of l] unterminated(2) by simp
  ultimately show ?case by (auto simp: progressed_def intro: lexed_scanned)
next
  case (token l m tk)
  have "lexed m (case lexer_switch tk m of Some r \<Rightarrow> r | None \<Rightarrow> lexer_after_switch tk m)"
    using lexed_after_switch [OF token(3,4)] token(3,4)
    by (auto split: option.split intro!: lexed_operator [OF token(3)] lexer_switch_result simp: lexer_wf_def)
  moreover have "scanned l m" using scanned_skip_space [of l] token(2) by simp
  ultimately show ?case by (auto simp: progressed_def intro: lexed_scanned)
qed

section \<open>Progress and termination\<close>

text \<open>Progress. From a well-formed state, a call of \<open>lexer_next_token\<close> keeps the state well formed and
  inside the source; it either reports the end of input with the cursor at the end of the source, or
  returns a token (an error token included) and has consumed at least one character.\<close>

theorem lexer_next_token_progress:
  assumes "lexer_wf l" and "lexer_next_token l = (t, l')"
  shows "lexer_wf l' \<and> lx_source l' = lx_source l \<and>
     (if tok_type t = TOKEN_EOF then lx_position l' = lx_length l'
      else lx_position l < lx_position l')"
  using next_token_progress [OF assms(1)] assms
  by (auto simp: progressed_def lexed_def scanned_def lexer_wf_def)

theorem lexer_next_token_progress_witness:
  "\<exists>t l'. lexer_next_token (lexer_create ''x = 1'' string_table_start) = (t, l') \<and> lexer_wf l' \<and>
     lx_source l' = ''x = 1'' \<and>
     (if tok_type t = TOKEN_EOF then lx_position l' = lx_length l' else 0 < lx_position l')"
proof -
  obtain t l' where n: "lexer_next_token (lexer_create ''x = 1'' string_table_start) = (t, l')"
    by fastforce
  from lexer_next_token_progress [OF lexer_wf_create [OF intern_wf_start] n] n show ?thesis
    by (auto simp: lexer_create_def)
qed

text \<open>A token stream: everything before the final token is something else than the end of input.\<close>

definition ends_at_eof :: "Token list \<Rightarrow> bool" where
  "ends_at_eof ts \<longleftrightarrow> ts \<noteq> [] \<and> tok_type (last ts) = TOKEN_EOF \<and>
     (\<forall>t\<in>set (butlast ts). tok_type t \<noteq> TOKEN_EOF)"

lemma lexer_tokens_enough:
  assumes "lexer_wf l" and "lx_length l - lx_position l < fuel"
  shows "\<exists>ts l'. lexer_tokens fuel l = Some (ts, l') \<and> ends_at_eof ts \<and> lexer_wf l' \<and>
     length ts \<le> Suc (lx_length l - lx_position l)"
  using assms
proof (induction fuel arbitrary: l)
  case (Suc fuel)
  obtain t l' where n: "lexer_next_token l = (t, l')" by fastforce
  have p: "progressed l (t, l')" using next_token_progress [OF Suc.prems(1)] n by simp
  show ?case
  proof (cases "tok_type t = TOKEN_EOF")
    case True
    with n p scanned_wf [OF _ Suc.prems(1), of l'] show ?thesis
      by (auto simp: ends_at_eof_def progressed_def lexed_def)
  next
    case False
    with p have wf: "lexer_wf l'" and lt: "lx_position l < lx_position l'"
      "lx_position l' \<le> lx_length l'" "lx_length l' = lx_length l"
      using Suc.prems(1) by (auto simp: progressed_def lexed_def lexer_wf_def)
    then obtain ts l'' where "lexer_tokens fuel l' = Some (ts, l'')" "ends_at_eof ts" "lexer_wf l''"
      "length ts \<le> Suc (lx_length l' - lx_position l')"
      using Suc.IH [OF wf] Suc.prems(2) by fastforce
    with n False lt show ?thesis by (auto simp: ends_at_eof_def)
  qed
qed simp

text \<open>(C25) Termination. Lexing any source text to the end takes at most one call per character and one
  more: with that much fuel the stream is complete, ends with the end-of-input token, holds it
  nowhere else, and has no more tokens than that.\<close>

theorem lexer_tokens_terminates:
  assumes "intern_wf st"
  shows "\<exists>ts l'. lexer_tokens (length src + 1) (lexer_create src st) = Some (ts, l') \<and>
     ends_at_eof ts \<and> length ts \<le> length src + 1"
proof -
  let ?l = "lexer_create src st"
  have "length (c_string src) \<le> length src" by (simp add: c_string_def length_takeWhile_le)
  then have le: "lx_length ?l - lx_position ?l < length src + 1" by (simp add: lexer_create_def)
  from lexer_tokens_enough [OF lexer_wf_create [OF assms] this] le show ?thesis by fastforce
qed

theorem lexer_tokens_terminates_witness:
  "\<exists>ts l'. lexer_tokens 4 (lexer_create ''a+b'' string_table_start) = Some (ts, l') \<and>
     ends_at_eof ts \<and> length ts \<le> 4"
proof -
  have "length ''a+b'' + 1 = (4 :: nat)" by simp
  with lexer_tokens_terminates [OF intern_wf_start, of "''a+b''"] show ?thesis by (simp only:)
qed

end
