(* ===== verification/Lexer_Lines.thy ===== *)
theory Lexer_Lines
  imports Lexer_Props
begin

text \<open>
  Where a token lies in the source: its view, its text and its line number. The one construct that
  loses track of lines is a string literal that spans several of them.
\<close>

section \<open>Tokens that are a slice of one source line\<close>

definition newlines :: "string \<Rightarrow> nat" where
  "newlines s = count_list s (CHR 0x0A)"

definition line_ok :: "Lexer \<Rightarrow> bool" where
  "line_ok l \<longleftrightarrow> lx_line l = 1 + newlines (take (lx_position l) (lx_source l))"

lemma newlines_none: "CHR 0x0A \<notin> set s \<Longrightarrow> newlines s = 0"
  by (simp add: newlines_def count_list_0_iff)

lemma newlines_append [simp]: "newlines (a @ b) = newlines a + newlines b"
  by (simp add: newlines_def)

lemma newlines_take_add: "newlines (take (p + n) s) = newlines (take p s) + newlines (take n (drop p s))"
  by (simp add: take_add)

lemma line_ok_create: "line_ok (lexer_create src st)"
  by (simp add: line_ok_def lexer_create_def newlines_def)

text \<open>\<open>plain_result m r\<close>: the token is the non-empty text under the cursor of \<open>m\<close>, lies on one line and
  carries that line's number.\<close>

definition plain_result :: "Lexer \<Rightarrow> Token \<times> Lexer \<Rightarrow> bool" where
  "plain_result m r \<longleftrightarrow>
     (\<exists>n. 0 < n \<and> lx_position m + n \<le> lx_length m \<and>
        CHR 0x0A \<notin> set (take n (drop (lx_position m) (lx_source m))) \<and>
        tok_lexeme (fst r) = SourceView (lx_position m) n \<and> tok_line (fst r) = lx_line m \<and>
        lx_position (snd r) = lx_position m + n \<and> lx_line (snd r) = lx_line m \<and>
        lx_source (snd r) = lx_source m)"

lemma plain_operator:
  assumes "operator_result token m r" and "tok_line token = lx_line m"
  shows "plain_result m r"
proof -
  obtain ty s d where s: "s \<noteq> []" "CHR 0x0A \<notin> set s" "lx_position m + length s \<le> lx_length m"
      "take (length s) (drop (lx_position m) (lx_source m)) = s"
    and r: "r = (token\<lparr>tok_type := Punct ty, tok_value := Some s, tok_is_interned := True,
               tok_lexeme := SourceView (lx_position m) (length s)\<rparr>,
             (advance (length s) m)\<lparr>lx_continuation_depth := d\<rparr>)"
    using assms(1) unfolding operator_result_def by blast
  show ?thesis
    unfolding plain_result_def by (rule exI [of _ "length s"]) (use s r assms(2) in simp)
qed

lemma take_drop_range:
  assumes "lx_length l = length (lx_source l)" and "lx_position l + n \<le> lx_length l"
  shows "set (take n (drop (lx_position l) (lx_source l))) = {lx_source l ! (lx_position l + i) | i. i < n}"
proof -
  have "take n (drop (lx_position l) (lx_source l)) = map (\<lambda>i. lx_source l ! (lx_position l + i)) [0..<n]"
    using assms by (intro nth_equalityI) auto
  then show ?thesis by auto
qed

lemma plain_number_token:
  assumes wf: "lexer_wf l" and m: "scanned l m" "lx_position l < lx_position m" "lx_line m = lx_line l"
    and nl: "CHR 0x0A \<notin> set (src_slice l (lx_position l) (lx_position m))"
  shows "plain_result l (number_token (fresh_token l) (lx_position l) m)"
  unfolding plain_result_def
  by (rule exI [of _ "lx_position m - lx_position l"])
    (use assms in \<open>auto simp: number_token_def Let_def scanned_def src_slice_def lexer_wf_def fresh_token_def\<close>)

lemma slice_advance_scan:
  assumes "lexer_wf l" and "lx_position l + k \<le> lx_length l"
  shows "src_slice l (lx_position l) (lx_position (scan_while P (advance k l))) =
     take k (drop (lx_position l) (lx_source l)) @ takeWhile P (drop (lx_position l + k) (lx_source l))"
proof -
  have "src_slice l (lx_position l) (lx_position (scan_while P (advance k l))) =
     take (k + length (takeWhile P (drop (lx_position l + k) (lx_source l)))) (drop (lx_position l) (lx_source l))"
    using assms by (simp add: src_slice_def scan_while_takeWhile lexer_wf_def)
  then show ?thesis by (simp add: take_add take_takeWhile_drop add.commute)
qed

lemma scan_no_newline:
  "(\<And>c. P c \<Longrightarrow> c \<noteq> CHR 0x0A) \<Longrightarrow> CHR 0x0A \<notin> set (takeWhile P xs)"
  by (auto dest: set_takeWhileD)

lemma c_isdigit_newline [simp]: "\<not> c_isdigit (CHR 0x0A)" "\<not> c_isalpha (CHR 0x0A)"
  "\<not> c_isalnum (CHR 0x0A)" "\<not> c_isxdigit (CHR 0x0A)"
  by (simp_all add: c_isdigit_def c_isalpha_def c_isalnum_def c_isxdigit_def c_isupper_def c_islower_def)

lemma plain_prefixed_number:
  assumes wf: "lexer_wf l" and c: "current_char l = CHR ''0''" and x: "next_is l 1 x" "x \<noteq> CHR 0x0A"
    and P: "\<And>c. P c \<Longrightarrow> c \<noteq> CHR 0x0A"
  shows "plain_result l (number_token (fresh_token l) (lx_position l) (scan_while P (advance 2 l)))"
proof (rule plain_number_token [OF wf])
  have pos: "lx_position l + 2 \<le> lx_length l" using x by (simp add: next_is_def)
  have len: "lx_length l = length (lx_source l)" using wf by (simp add: lexer_wf_def)
  have "scanned (advance 2 l) (scan_while P (advance 2 l))" by (rule scanned_scan_while)
  with pos show "scanned l (scan_while P (advance 2 l))"
    and "lx_position l < lx_position (scan_while P (advance 2 l))" by (auto simp: scanned_def)
  show "lx_line (scan_while P (advance 2 l)) = lx_line l" by simp
  have "take 2 (drop (lx_position l) (lx_source l)) = [CHR ''0'', x]"
    using take_drop_2 [of "lx_position l" "lx_source l"] c x len
    by (simp add: next_is_def current_char_def numeral_2_eq_2)
  then show "CHR 0x0A \<notin> set (src_slice l (lx_position l) (lx_position (scan_while P (advance 2 l))))"
    using x P by (auto simp: slice_advance_scan [OF wf pos] dest: set_takeWhileD)
qed

lemma lex_error_simps [simp]:
  "tok_type (fst (lex_error token m msg)) = TOKEN_ERROR"
  "tok_lexeme (fst (lex_error token m msg)) = tok_lexeme token"
  "tok_line (fst (lex_error token m msg)) = tok_line token"
  "lx_continuation_depth (snd (lex_error token m msg)) = lx_continuation_depth m"
  by (simp_all add: lex_error_def lexer_set_error_def)

lemma fresh_token_simps [simp]:
  "tok_type (fresh_token l) = TOKEN_EOF" "tok_lexeme (fresh_token l) = NoView"
  "tok_line (fresh_token l) = lx_line l" "tok_value (fresh_token l) = None"
  by (simp_all add: fresh_token_def)

lemma plain_number:
  assumes wf: "lexer_wf l" and pos: "lx_position l < lx_length l" and dig: "c_isdigit (current_char l)"
  shows "plain_result l (lexer_lex_number l) \<or>
     (tok_type (fst (lexer_lex_number l)) = TOKEN_ERROR \<and> tok_lexeme (fst (lexer_lex_number l)) = NoView)"
proof -
  let ?P = "\<lambda>c. c_isdigit c \<or> c = CHR ''.''"
  have "plain_result l (number_token (fresh_token l) (lx_position l) (scan_while ?P l))"
  proof (rule plain_number_token [OF wf scanned_scan_while])
    show "lx_position l < lx_position (scan_while ?P l)" using pos dig by (intro scan_while_moves) auto
    show "CHR 0x0A \<notin> set (src_slice l (lx_position l) (lx_position (scan_while ?P l)))"
      using wf by (subst src_slice_scan_while) (auto simp: lexer_wf_def dest: set_takeWhileD)
  qed simp
  moreover have "plain_result l (number_token (fresh_token l) (lx_position l) (scan_while c_isxdigit (advance 2 l)))"
    if "current_char l = CHR ''0'' \<and> (next_is l 1 CHR ''x'' \<or> next_is l 1 CHR ''X'')"
    using that
    by (elim conjE disjE)
      ((rule plain_prefixed_number [OF wf, where x = "CHR ''x''"]; auto),
       (rule plain_prefixed_number [OF wf, where x = "CHR ''X''"]; auto))
  moreover have "plain_result l (number_token (fresh_token l) (lx_position l)
      (scan_while (\<lambda>c. c = CHR ''0'' \<or> c = CHR ''1'') (advance 2 l)))"
    if "current_char l = CHR ''0'' \<and> (next_is l 1 CHR ''b'' \<or> next_is l 1 CHR ''B'')"
    using that
    by (elim conjE disjE)
      ((rule plain_prefixed_number [OF wf, where x = "CHR ''b''"]; auto),
       (rule plain_prefixed_number [OF wf, where x = "CHR ''B''"]; auto))
  ultimately show ?thesis
    unfolding lexer_lex_number_def Let_def by (simp del: One_nat_def split: if_split)
qed

lemma plain_identifier:
  assumes wf: "lexer_wf l" and pos: "lx_position l < lx_length l"
    and c: "c_isalpha (current_char l) \<or> current_char l = CHR ''_''"
  shows "plain_result l (lexer_lex_identifier_or_keyword l)"
proof -
  let ?P = "\<lambda>c. c_isalnum c \<or> c = CHR ''_''"
  let ?m = "scan_while ?P l"
  have sc: "scanned l ?m" by (rule scanned_scan_while)
  have mv: "lx_position l < lx_position ?m"
    using pos c by (intro scan_while_moves) (auto simp: c_isalnum_def)
  have nl: "CHR 0x0A \<notin> set (src_slice l (lx_position l) (lx_position ?m))"
    using wf by (subst src_slice_scan_while) (auto simp: lexer_wf_def dest: set_takeWhileD)
  obtain st p where "string_intern_n (lx_interner ?m)
     (Some (take (lx_position ?m - lx_position l) (drop (lx_position l) (lx_source ?m)))) = (st, Some p)"
    using string_intern_n_Some by blast
  then show ?thesis
    unfolding plain_result_def
    by (intro exI [of _ "lx_position ?m - lx_position l"])
      (use sc mv nl wf in \<open>auto simp: lexer_lex_identifier_or_keyword_def Let_def scanned_def lexer_wf_def
        fresh_token_def src_slice_def\<close>)
qed

lemma plain_char_literal_close:
  assumes wf: "lexer_wf l" and m: "lx_source m = lx_source l" "lx_length m = lx_length l"
      "lx_line m = lx_line l" "lx_position m = lx_position l + k" "lx_position m < lx_length m"
    and q: "\<And>i. i \<le> k \<Longrightarrow> lx_source l ! (lx_position l + i) \<noteq> CHR 0x0A"
  shows "plain_result l (char_literal_close (fresh_token l) (lx_position l) m v) \<or>
    (tok_type (fst (char_literal_close (fresh_token l) (lx_position l) m v)) = TOKEN_ERROR \<and>
     tok_lexeme (fst (char_literal_close (fresh_token l) (lx_position l) m v)) = NoView)"
proof (cases "lx_position (advance 1 m) < lx_length m \<and> current_char (advance 1 m) = CHR 0x27")
  case True
  then have pos: "lx_position l + (k + 2) \<le> lx_length l" using m by simp
  have nl: "lx_source l ! (lx_position l + i) \<noteq> CHR 0x0A" if "i < k + 2" for i
    using that q [of i] True m by (cases "i = Suc k") (auto simp: current_char_def)
  then have "CHR 0x0A \<notin> {lx_source l ! (lx_position l + i) | i. i < k + 2}" by fastforce
  then have "CHR 0x0A \<notin> set (take (k + 2) (drop (lx_position l) (lx_source l)))"
    using wf pos by (simp add: take_drop_range lexer_wf_def)
  then have "plain_result l (char_literal_close (fresh_token l) (lx_position l) m v)"
    unfolding plain_result_def
    by (intro exI [of _ "k + 2"]) (use True pos m in \<open>simp add: char_literal_close_def\<close>)
  then show ?thesis ..
qed (auto simp: char_literal_close_def Let_def not_less)

lemma char_escape_newline: "char_escape (CHR 0x0A) = None"
  by (simp add: char_escape_def)

lemma plain_char_literal:
  assumes wf: "lexer_wf l" and q: "current_char l = CHR 0x27"
  shows "plain_result l (lexer_lex_char_literal l) \<or>
     (tok_type (fst (lexer_lex_char_literal l)) = TOKEN_ERROR \<and>
      tok_lexeme (fst (lexer_lex_char_literal l)) = NoView)" (is "?R (lexer_lex_char_literal l)")
proof -
  let ?m = "advance 1 l" and ?m2 = "advance 1 (advance 1 l)"
  have plain: "?R (char_literal_close (fresh_token l) (lx_position l) ?m v)"
    if "lx_position ?m < lx_length ?m" and "current_char ?m \<noteq> CHR 0x0A" for v
    by (rule plain_char_literal_close [OF wf, where k = 1])
      (use that q in \<open>auto simp: current_char_def le_Suc_eq\<close>)
  have esc: "?R (char_literal_close (fresh_token l) (lx_position l) ?m2 v)"
    if "lx_position ?m2 < lx_length ?m2" and "current_char ?m = CHR 0x5C"
      and "char_escape (current_char ?m2) \<noteq> None" for v
  proof -
    from that(3) have "current_char ?m2 \<noteq> CHR 0x0A" using char_escape_newline by metis
    with that(1,2) q show ?thesis
      by (intro plain_char_literal_close [OF wf, where k = 2])
        (auto simp: current_char_def le_Suc_eq numeral_2_eq_2)
  qed
  show ?thesis
    unfolding lexer_lex_char_literal_def Let_def
    using plain esc by (auto simp del: One_nat_def split: option.split)
qed

lemma plain_after_switch:
  assumes wf: "lexer_wf l" and pos: "lx_position l < lx_length l" and sp: "current_char l \<noteq> CHR 0x0A"
    and tk: "tok_line token = lx_line l"
  shows "plain_result l (lexer_after_switch token l) \<or>
     (tok_type (fst (lexer_after_switch token l)) \<in> {TOKEN_STRING, TOKEN_ERROR} \<and>
      (\<forall>s n. tok_lexeme (fst (lexer_after_switch token l)) \<noteq> SourceView s n))"
proof -
  have len: "lx_length l = length (lx_source l)" using wf by (simp add: lexer_wf_def)
  have str: "tok_type (fst (lexer_lex_string_literal l)) \<in> {TOKEN_STRING, TOKEN_ERROR} \<and>
      (\<forall>s n. tok_lexeme (fst (lexer_lex_string_literal l)) \<noteq> SourceView s n)"
    by (auto simp: lexer_lex_string_literal_def Let_def split: prod.split)
  have unk: "plain_result l (lexer_unknown_character token l)"
    unfolding plain_result_def
    by (rule exI [of _ 1]) (use pos sp tk len in \<open>auto simp: lexer_unknown_character_def lex_error_def
        lexer_set_error_def Let_def current_char_def Cons_nth_drop_Suc [symmetric]\<close>)
  have op: "plain_result l (operator_token token l ty [c, d])"
    if "current_char l = c" "next_is l 1 d" "c \<noteq> CHR 0x0A" "d \<noteq> CHR 0x0A" "ty \<noteq> TOKEN_NEWLINE" for ty c d
    using that tk by (intro plain_operator [OF operator_result_multi2 [OF len]]) auto
  have op1: "plain_result l (single_char_token token l TOKEN_MINUS)"
    using sp tk by (intro plain_operator [OF operator_result_single'(1) [OF len pos]]) auto
  have dig: "c = CHR ''0'' \<Longrightarrow> c_isdigit c" for c by (simp add: c_isdigit_def)
  show ?thesis
    unfolding lexer_after_switch_def Let_def
    using str unk op op1 dig plain_char_literal [OF wf] plain_number [OF wf pos] plain_identifier [OF wf pos]
    by (auto simp del: One_nat_def)
qed

section \<open>Line tracking\<close>

lemma line_ok_advance:
  assumes "line_ok l" and "CHR 0x0A \<notin> set (take n (drop (lx_position l) (lx_source l)))"
  shows "line_ok (advance n l)"
  using assms by (simp add: line_ok_def newlines_take_add newlines_none)

lemma line_ok_advance1:
  assumes "line_ok l" and "lexer_wf l" and "lx_position l < lx_length l" and "current_char l \<noteq> CHR 0x0A"
  shows "line_ok (advance 1 l)"
  using assms
  by (intro line_ok_advance) (auto simp: current_char_def lexer_wf_def Cons_nth_drop_Suc [symmetric])

lemma line_ok_advance2:
  assumes "line_ok l" and "lexer_wf l" and "current_char l \<noteq> CHR 0x0A" and "next_is l 1 c" and "c \<noteq> CHR 0x0A"
  shows "line_ok (advance 2 l)"
  using assms take_drop_2 [of "lx_position l" "lx_source l"]
  by (intro line_ok_advance) (auto simp: current_char_def next_is_def lexer_wf_def numeral_2_eq_2)

lemma line_ok_newline:
  assumes "line_ok l" and "lexer_wf l" and "lx_position l < lx_length l" and "current_char l = CHR 0x0A"
  shows "line_ok (advance_newline l)"
proof -
  have "take 1 (drop (lx_position l) (lx_source l)) = [CHR 0x0A]"
    using assms by (simp add: current_char_def lexer_wf_def Cons_nth_drop_Suc [symmetric])
  with assms(1) show ?thesis
    using newlines_take_add [of "lx_position l" 1 "lx_source l"] by (simp add: line_ok_def newlines_def)
qed

lemma line_ok_plain: "line_ok m \<Longrightarrow> plain_result m r \<Longrightarrow> line_ok (snd r)"
  by (auto simp: plain_result_def line_ok_def newlines_take_add newlines_none)

lemma advance_wf:
  "lexer_wf l \<Longrightarrow> lx_position l + n \<le> lx_length l \<Longrightarrow> lexer_wf (advance n l)"
  "lexer_wf l \<Longrightarrow> lx_position l < lx_length l \<Longrightarrow> lexer_wf (advance_newline l)"
  by (simp_all add: lexer_wf_def)

lemma line_ok_skip_space:
  "line_ok l \<Longrightarrow> lexer_wf l \<Longrightarrow> line_ok (fst (lexer_skip_space l))"
proof (induction l rule: lexer_skip_space.induct)
  case (1 l)
  show ?case
  proof (cases "lx_position l < lx_length l \<and> c_isspace (current_char l)")
    case True
    with "1" line_ok_newline [of l] line_ok_advance1 [of l] advance_wf(2) [of l] advance_wf(1) [of l 1]
    show ?thesis by (auto simp: lexer_skip_space.simps [of l])
  next
    case False
    with "1.prems" show ?thesis by (auto simp: lexer_skip_space.simps [of l])
  qed
qed

lemma lexer_skip_space_line:
  "lexer_skip_space l = (m, True) \<Longrightarrow> lx_line m = lx_line l"
proof (induction l rule: lexer_skip_space.induct)
  case (1 l)
  then show ?case
    using lexer_skip_space_newline [OF "1.prems"]
    by (cases "lx_position l < lx_length l \<and> c_isspace (current_char l)")
      (auto simp: lexer_skip_space.simps [of l] split: if_splits)
qed

lemma lexer_skip_space_stops:
  "lexer_skip_space l = (m, False) \<Longrightarrow> lx_position m < lx_length m \<Longrightarrow> \<not> c_isspace (current_char m)"
proof (induction l rule: lexer_skip_space.induct)
  case (1 l)
  then show ?case
    by (cases "lx_position l < lx_length l \<and> c_isspace (current_char l)")
      (auto simp: lexer_skip_space.simps [of l] split: if_splits)
qed

lemma line_ok_block_comment:
  "line_ok l \<Longrightarrow> lexer_wf l \<Longrightarrow> line_ok (fst (block_comment_loop l d))"
proof (induction l d rule: block_comment_loop.induct)
  case (1 l d)
  have two: "line_ok (advance 2 l) \<and> lexer_wf (advance 2 l)"
    if "current_char l \<noteq> CHR 0x0A" "next_is l 1 c" "c \<noteq> CHR 0x0A" for c
    using that "1.prems" line_ok_advance2 [of l c] advance_wf(1) [of l 2] by (auto simp: next_is_def)
  have one: "line_ok (advance 1 l) \<and> lexer_wf (advance 1 l)"
    if "lx_position l < lx_length l" "current_char l \<noteq> CHR 0x0A"
    using that "1.prems" line_ok_advance1 [of l] advance_wf(1) [of l 1] by auto
  have nl: "line_ok (advance_newline l) \<and> lexer_wf (advance_newline l)"
    if "lx_position l < lx_length l" "current_char l = CHR 0x0A"
    using that "1.prems" line_ok_newline [of l] advance_wf(2) [of l] by auto
  show ?case
  proof (cases "lx_position l < lx_length l \<and> 0 < d")
    case True
    with "1.IH" two [of "CHR ''*''"] two [of "CHR ''/''"] one nl show ?thesis
      by (subst block_comment_loop.simps) (simp split: if_split)
  next
    case False
    with "1.prems" show ?thesis by (subst block_comment_loop.simps) auto
  qed
qed

lemma line_ok_line_comment:
  assumes "line_ok l" and "lexer_wf l" and "current_char l = CHR ''/''" and "next_is l 1 CHR ''/''"
  shows "line_ok (lexer_skip_line_comment l)"
proof -
  have a: "line_ok (advance 2 l)" using assms by (intro line_ok_advance2 [where c = "CHR ''/''"]) auto
  have "lexer_wf (advance 2 l)" using assms by (intro advance_wf) (auto simp: next_is_def)
  then have len: "lx_length (advance 2 l) = length (lx_source (advance 2 l))" by (simp add: lexer_wf_def)
  let ?m = "advance 2 l" and ?P = "\<lambda>c. c \<noteq> CHR 0x0A"
  have "newlines (take (lx_position (scan_while ?P ?m)) (lx_source ?m)) =
     newlines (take (lx_position ?m) (lx_source ?m))"
    unfolding scan_while_takeWhile [OF len] newlines_take_add take_takeWhile_drop
    by (simp add: newlines_none scan_no_newline)
  with a show ?thesis
    using scanned_scan_while [of ?m ?P] by (simp add: lexer_skip_line_comment_def line_ok_def scanned_def)
qed

lemma line_ok_skip_block_comment:
  assumes "line_ok l" and "lexer_wf l" and "current_char l = CHR ''/''" and "next_is l 1 CHR ''*''"
    and "lexer_skip_block_comment l = Inr l'"
  shows "line_ok l'"
proof -
  have "line_ok (advance 2 l)" using assms by (intro line_ok_advance2 [where c = "CHR ''*''"]) auto
  moreover have "lexer_wf (advance 2 l)" using assms by (intro advance_wf) (auto simp: next_is_def)
  ultimately have "line_ok (fst (block_comment_loop (advance 2 l) 1))" by (rule line_ok_block_comment)
  with assms(5) show ?thesis
    by (auto simp: lexer_skip_block_comment_def Let_def split: prod.splits if_splits)
qed

definition lines_right :: "Lexer \<Rightarrow> Token \<times> Lexer \<Rightarrow> bool" where
  "lines_right l r \<longleftrightarrow>
     (\<forall>s n. tok_lexeme (fst r) = SourceView s n \<longrightarrow> tok_line (fst r) = 1 + newlines (take s (lx_source l))) \<and>
     (tok_type (fst r) \<notin> {TOKEN_STRING, TOKEN_ERROR} \<longrightarrow> line_ok (snd r))"

lemma lines_right_source: "lx_source m = lx_source l \<Longrightarrow> lines_right m r \<Longrightarrow> lines_right l r"
  by (simp add: lines_right_def)

lemma lines_right_plain:
  assumes "line_ok m" and "plain_result m r" and "lx_source m = lx_source l"
  shows "lines_right l r"
  using line_ok_plain [OF assms(1,2)] assms by (auto simp: lines_right_def plain_result_def line_ok_def)

lemma plain_token:
  assumes "lexer_wf m" and "lx_position m < lx_length m" and "\<not> c_isspace (current_char m)"
    and "tok_line tk = lx_line m"
  shows "plain_result m (case lexer_switch tk m of Some r \<Rightarrow> r | None \<Rightarrow> lexer_after_switch tk m) \<or>
    (tok_type (fst (case lexer_switch tk m of Some r \<Rightarrow> r | None \<Rightarrow> lexer_after_switch tk m)) \<in> {TOKEN_STRING, TOKEN_ERROR} \<and>
      (\<forall>s n. tok_lexeme (fst (case lexer_switch tk m of Some r \<Rightarrow> r | None \<Rightarrow> lexer_after_switch tk m)) \<noteq> SourceView s n))"
proof (cases "lexer_switch tk m")
  case None
  have "current_char m \<noteq> CHR 0x0A" using assms(3) by (auto simp: c_isspace_def)
  with plain_after_switch [OF assms(1,2) _ assms(4)] None show ?thesis by simp
next
  case (Some r)
  have "operator_result tk m r"
    using assms(1) by (intro lexer_switch_result [OF _ assms(2) Some]) (simp add: lexer_wf_def)
  with plain_operator [OF _ assms(4)] Some show ?thesis by simp
qed

lemma next_token_lines_right:
  assumes "lexer_wf l" and "line_ok l"
  shows "lines_right l (lexer_next_token l)"
proof -
  have "line_ok l \<longrightarrow> lines_right l (lexer_next_token l)"
    using assms(1)
  proof (induction rule: next_token_induct)
    case (newline l m)
    have "lx_source m = lx_source l" using scanned_skip_space [of l] newline(3) by (simp add: scanned_def)
    moreover have "line_ok m" if "line_ok l" using line_ok_skip_space [OF that newline(1)] newline(3) by simp
    ultimately show ?case
      using lexer_skip_space_newline [OF newline(3)] lexer_skip_space_line [OF newline(3)]
        line_ok_newline [OF _ newline(2)]
      by (auto simp: lines_right_def line_ok_def)
  next
    case (eof l m)
    with line_ok_skip_space [of l] show ?case by (auto simp: lines_right_def)
  next
    case (line_comment l m r)
    have "line_ok (lexer_skip_line_comment m)" if "line_ok l"
      using line_ok_skip_space [OF that line_comment(1)] line_comment(2)
      by (intro line_ok_line_comment [OF _ line_comment(3-5)]) simp
    moreover have "lx_source (lexer_skip_line_comment m) = lx_source l" using line_comment(6) by (simp add: scanned_def)
    ultimately show ?case using line_comment(7) lines_right_source by blast
  next
    case (block_comment l m m' r)
    have "line_ok m'" if "line_ok l"
      using line_ok_skip_space [OF that block_comment(1)] block_comment(2)
      by (intro line_ok_skip_block_comment [OF _ block_comment(3-6)]) simp
    moreover have "lx_source m' = lx_source l" using block_comment(7) by (simp add: scanned_def)
    ultimately show ?case using block_comment(8) lines_right_source by blast
  next
    case (unterminated l m m')
    then show ?case by (simp add: lines_right_def)
  next
    case (token l m tk)
    have src: "lx_source m = lx_source l" using scanned_skip_space [of l] token(2) by (simp add: scanned_def)
    have ok: "line_ok m" if "line_ok l" using line_ok_skip_space [OF that token(1)] token(2) by simp
    define r where "r = (case lexer_switch tk m of Some r \<Rightarrow> r | None \<Rightarrow> lexer_after_switch tk m)"
    have "plain_result m r \<or> (tok_type (fst r) \<in> {TOKEN_STRING, TOKEN_ERROR} \<and>
      (\<forall>s n. tok_lexeme (fst r) \<noteq> SourceView s n))"
      unfolding r_def
      by (rule plain_token [OF token(3,4) lexer_skip_space_stops [OF token(2,4)]]) (simp add: token(5))
    then have "line_ok l \<longrightarrow> lines_right l r"
      using lines_right_plain [OF ok _ src, of r] by (auto simp only: lines_right_def)
    then show ?case by (simp only: r_def)
  qed
  with assms(2) show ?thesis by simp
qed



end
