(* ===== verification/Lexer_Text.thy ===== *)
theory Lexer_Text
  imports Lexer_Lines
begin

text \<open>
  The text of tokens: a token's value against the source, printing words, numbers and strings and
  lexing them back, look-ahead, and line continuation inside brackets.
\<close>

section \<open>The value of a token is the source text it covers\<close>

definition text_result :: "Lexer \<Rightarrow> Token \<times> Lexer \<Rightarrow> bool" where
  "text_result m r \<longleftrightarrow>
     (\<exists>n. tok_lexeme (fst r) = SourceView (lx_position m) n \<and> 0 < n \<and>
        lx_position m + n \<le> lx_length m \<and> lx_position (snd r) = lx_position m + n \<and>
        (current_char m \<noteq> CHR 0x27 \<longrightarrow>
           tok_value (fst r) = Some (take n (drop (lx_position m) (lx_source m)))))"

lemma text_of_plain:
  assumes "plain_result m r"
    and "\<And>n. tok_lexeme (fst r) = SourceView (lx_position m) n \<Longrightarrow> current_char m \<noteq> CHR 0x27 \<Longrightarrow>
      tok_value (fst r) = Some (take n (drop (lx_position m) (lx_source m)))"
  shows "text_result m r"
  using assms by (auto simp: plain_result_def text_result_def)

lemma text_operator:
  assumes "operator_result token m r"
  shows "text_result m r"
proof -
  obtain ty s d where s: "s \<noteq> []" "lx_position m + length s \<le> lx_length m"
      "take (length s) (drop (lx_position m) (lx_source m)) = s"
    and r: "r = (token\<lparr>tok_type := Punct ty, tok_value := Some s, tok_is_interned := True,
               tok_lexeme := SourceView (lx_position m) (length s)\<rparr>,
             (advance (length s) m)\<lparr>lx_continuation_depth := d\<rparr>)"
    using assms unfolding operator_result_def by blast
  show ?thesis unfolding text_result_def by (rule exI [of _ "length s"]) (use s r in simp)
qed

lemma number_value:
  assumes "tok_lexeme (fst (lexer_lex_number m)) = SourceView s n"
  shows "tok_value (fst (lexer_lex_number m)) = Some (take n (drop s (lx_source m)))"
proof -
  have nt: "tok_lexeme (fst (number_token tk st k)) = SourceView s n \<Longrightarrow> lx_source k = lx_source m \<Longrightarrow>
     tok_value (fst (number_token tk st k)) = Some (take n (drop s (lx_source m)))" for tk st k
    by (auto simp: number_token_def Let_def)
  have src: "lx_source (scan_while P (advance 2 m)) = lx_source m" "lx_source (scan_while P m) = lx_source m" for P
    using scanned_scan_while [of "advance 2 m" P] scanned_scan_while [of m P] by (simp_all add: scanned_def)
  show ?thesis
    using assms nt src unfolding lexer_lex_number_def Let_def by (auto split: if_splits)
qed

lemma identifier_value:
  assumes "tok_lexeme (fst (lexer_lex_identifier_or_keyword m)) = SourceView s n"
  shows "tok_value (fst (lexer_lex_identifier_or_keyword m)) = Some (take n (drop s (lx_source m)))"
proof -
  let ?P = "\<lambda>c. c_isalnum c \<or> c = CHR ''_''"
  have "lx_source (scan_while ?P m) = lx_source m"
    using scanned_scan_while [of m ?P] by (simp add: scanned_def)
  with assms show ?thesis
    by (auto simp: lexer_lex_identifier_or_keyword_def Let_def lex_error_def
        split: prod.splits option.splits)
qed

lemma text_after_switch:
  assumes wf: "lexer_wf m" and pos: "lx_position m < lx_length m" and sp: "\<not> c_isspace (current_char m)"
    and tk: "tok_line token = lx_line m"
    and ty: "tok_type (fst (lexer_after_switch token m)) \<notin> {TOKEN_STRING, TOKEN_ERROR}"
  shows "text_result m (lexer_after_switch token m)"
proof (rule text_of_plain)
  have nl: "current_char m \<noteq> CHR 0x0A" using sp by (auto simp: c_isspace_def)
  from plain_after_switch [OF wf pos nl tk] ty
  show "plain_result m (lexer_after_switch token m)" by blast
  have len: "lx_length m = length (lx_source m)" using wf by (simp add: lexer_wf_def)
  fix n
  assume lex: "tok_lexeme (fst (lexer_after_switch token m)) = SourceView (lx_position m) n"
    and q: "current_char m \<noteq> CHR 0x27"
  have op: "tok_value (fst r) = Some (take n (drop (lx_position m) (lx_source m)))"
    if "operator_result token m r" and "tok_lexeme (fst r) = SourceView (lx_position m) n" for r
    using that by (auto simp: operator_result_def)
  have two: "operator_result token m (operator_token token m ty [c, d])"
    if "current_char m = c" "next_is m 1 d" "c \<noteq> CHR 0x0A" "d \<noteq> CHR 0x0A" "ty \<noteq> TOKEN_NEWLINE" for ty c d
    using that by (intro operator_result_multi2 [OF len])
  have one: "operator_result token m (single_char_token token m TOKEN_MINUS)"
    using nl by (intro operator_result_single' [OF len pos]) simp_all
  have "lexer_after_switch token m \<noteq> lexer_unknown_character token m"
    using ty by (auto simp: lexer_unknown_character_def lex_error_def Let_def)
  moreover have "lexer_after_switch token m \<noteq> lexer_lex_string_literal m"
    using ty by (auto simp: lexer_lex_string_literal_def lex_error_def Let_def split: prod.splits if_splits)
  ultimately consider "operator_result token m (lexer_after_switch token m)"
    | "lexer_after_switch token m = lexer_lex_number m"
    | "lexer_after_switch token m = lexer_lex_identifier_or_keyword m"
    using q two one unfolding lexer_after_switch_def Let_def by (simp del: One_nat_def split: if_splits)
  then show "tok_value (fst (lexer_after_switch token m)) = Some (take n (drop (lx_position m) (lx_source m)))"
    using lex op number_value [of m] identifier_value [of m] by cases auto
qed

definition token_covers :: "Lexer \<Rightarrow> Token \<times> Lexer \<Rightarrow> bool" where
  "token_covers l r \<longleftrightarrow>
     (\<exists>s n. tok_lexeme (fst r) = SourceView s n \<and> 0 < n \<and> lx_position l \<le> s \<and> s + n \<le> lx_length l \<and>
        lx_position (snd r) = s + n \<and>
        (lx_source l ! s \<noteq> CHR 0x27 \<longrightarrow> tok_value (fst r) = Some (take n (drop s (lx_source l)))))"

lemma token_covers_scanned: "scanned l m \<Longrightarrow> token_covers m r \<Longrightarrow> token_covers l r"
  by (fastforce simp: token_covers_def scanned_def)

lemma token_covers_text: "scanned l m \<Longrightarrow> text_result m r \<Longrightarrow> token_covers l r"
  by (auto simp: token_covers_def text_result_def scanned_def current_char_def)

abbreviation textual :: "TokenType \<Rightarrow> bool" where
  "textual ty \<equiv> ty \<notin> {TOKEN_EOF, TOKEN_STRING, TOKEN_ERROR, Punct TOKEN_NEWLINE}"

lemma next_token_covers:
  assumes "lexer_wf l"
  shows "textual (tok_type (fst (lexer_next_token l))) \<longrightarrow> token_covers l (lexer_next_token l)"
  using assms
proof (induction rule: next_token_induct)
  case (line_comment l m r)
  then show ?case by (blast intro: token_covers_scanned)
next
  case (block_comment l m m' r)
  then show ?case by (blast intro: token_covers_scanned)
next
  case (token l m tk)
  have sc: "scanned l m" using scanned_skip_space [of l] token(2) by simp
  have sp: "\<not> c_isspace (current_char m)" by (rule lexer_skip_space_stops [OF token(2,4)])
  show ?case
  proof (cases "lexer_switch tk m")
    case None
    have "tok_line tk = lx_line m" by (simp add: token(5))
    from text_after_switch [OF token(3,4) sp this] None show ?thesis
      by (auto intro: token_covers_text [OF sc])
  next
    case (Some r)
    have "operator_result tk m r"
      using token(3) by (intro lexer_switch_result [OF _ token(4) Some]) (simp add: lexer_wf_def)
    then show ?thesis using Some by (auto intro: token_covers_text [OF sc] text_operator)
  qed
qed simp_all

text \<open>(C23) Token text. Every word, number, operator or bracket token is a non-empty stretch of the source
  that starts at or after the old cursor and ends exactly at the new one; unless it is a character
  literal (whose value is the character's code), its value is that stretch of text.\<close>

theorem lexer_next_token_text:
  assumes "lexer_wf l" and "lexer_next_token l = (t, l')"
    and "tok_type t \<notin> {TOKEN_EOF, TOKEN_STRING, TOKEN_ERROR, Punct TOKEN_NEWLINE}"
  shows "\<exists>s n. tok_lexeme t = SourceView s n \<and> 0 < n \<and> lx_position l \<le> s \<and> s + n \<le> lx_length l \<and>
     lx_position l' = s + n \<and>
     (lx_source l ! s \<noteq> CHR 0x27 \<longrightarrow> tok_value t = Some (take n (drop s (lx_source l))))"
  using next_token_covers [OF assms(1)] assms(2,3) by (simp add: token_covers_def)

section \<open>Lexing at a known prefix\<close>

text \<open>A state whose cursor stands at the given text.\<close>

definition at_text :: "Lexer \<Rightarrow> string \<Rightarrow> bool" where
  "at_text l s \<longleftrightarrow> lx_length l = length (lx_source l) \<and> lx_position l \<le> lx_length l \<and>
     drop (lx_position l) (lx_source l) = s"

lemma at_text_create: "CHR 0x00 \<notin> set s \<Longrightarrow> at_text (lexer_create s st) s"
  by (simp add: at_text_def lexer_create_def)

lemma at_text_Cons:
  assumes "at_text l (c # s)"
  shows "lx_position l < lx_length l" "current_char l = c" "at_text (advance 1 l) s"
proof -
  have lt: "lx_position l < length (lx_source l)" using assms by (auto simp: at_text_def not_le [symmetric])
  have "drop (lx_position l) (lx_source l) = current_char l # drop (Suc (lx_position l)) (lx_source l)"
    using lt by (simp add: Cons_nth_drop_Suc current_char_def)
  with assms lt show "lx_position l < lx_length l" "current_char l = c" "at_text (advance 1 l) s"
    by (auto simp: at_text_def)
qed

lemma advance_advance: "advance m (advance n l) = advance (n + m) l"
  by (simp add: advance_def)

lemma at_text_append: "at_text l (u @ r) \<Longrightarrow> at_text (advance (length u) l) r"
proof (induction u arbitrary: l)
  case Nil
  then show ?case by (simp add: advance_def)
next
  case (Cons c u)
  from Cons.IH [OF at_text_Cons(3)] Cons.prems show ?case by (simp add: advance_advance)
qed

lemma at_text_next:
  assumes "at_text l (c # d # s)"
  shows "next_is l 1 e \<longleftrightarrow> d = e"
  using at_text_Cons [OF at_text_Cons(3) [OF assms]] by (auto simp: next_is_def current_char_def)

lemma at_text_next_end: "at_text l [c] \<Longrightarrow> \<not> next_is l 1 e"
  using at_text_Cons(3) [of l c "[]"] by (auto simp: at_text_def next_is_def)

lemma lexer_next_token_start:
  assumes "at_text l (c # s)" and "\<not> c_isspace c" and "c \<noteq> CHR ''/''"
  shows "lexer_next_token l = (case lexer_switch (fresh_token l) l of
     Some r \<Rightarrow> r | None \<Rightarrow> lexer_after_switch (fresh_token l) l)"
proof -
  have "lexer_skip_space l = (l, False)"
    using assms at_text_Cons [OF assms(1)] by (simp add: lexer_skip_space.simps [of l])
  then show ?thesis
    using assms at_text_Cons [OF assms(1)]
    by (simp add: lexer_next_token.simps [of l] Let_def fresh_token_def split: option.split)
qed

definition word_char :: "char \<Rightarrow> bool" where
  "word_char c \<longleftrightarrow> c_isalnum c \<or> c = CHR ''_''"

lemma lexer_switch_None:
  assumes "word_char (current_char l) \<or> current_char l = CHR 0x22 \<or> current_char l = CHR 0x27"
  shows "lexer_switch token l = None"
proof -
  have "current_char l \<notin> set '':;,=!<>(){}[]+*&|^~/%.''"
    using assms by (auto simp: word_char_def c_isalnum_def c_isalpha_def c_isdigit_def c_isupper_def c_islower_def)
  then show ?thesis by (simp add: lexer_switch_def)
qed

lemma word_char_class: "word_char c \<Longrightarrow> \<not> c_isspace c \<and> c \<noteq> CHR ''/'' \<and> c \<noteq> CHR ''-'' \<and> c \<noteq> CHR 0x27 \<and> c \<noteq> CHR 0x22"
  by (auto simp: word_char_def c_isspace_def c_isalnum_def c_isalpha_def c_isdigit_def c_isupper_def c_islower_def)

lemma takeWhile_word: "list_all P w \<Longrightarrow> (rest = [] \<or> \<not> P (hd rest)) \<Longrightarrow> takeWhile P (w @ rest) = w"
  by (cases rest) (auto simp: list_all_iff takeWhile_append)

section \<open>Words\<close>

text \<open>Words round-trip. A word (a letter or underscore, then letters, digits and underscores) that is
  followed by no further word character is lexed back whole, whatever follows: as the keyword,
  mnemonic or register of that spelling or as an identifier, with the word as its value, and the
  cursor right behind it.\<close>

theorem lexer_word_roundtrip:
  assumes "CHR 0x00 \<notin> set (w @ rest)" and "w \<noteq> []" and "\<not> c_isdigit (hd w)" and "list_all word_char w"
    and "rest = [] \<or> \<not> word_char (hd rest)"
  shows "\<exists>t l'. lexer_next_token (lexer_create (w @ rest) st) = (t, l') \<and>
     tok_type t = classify_word w \<and> tok_value t = Some w \<and> tok_is_interned t \<and> lx_position l' = length w"
proof -
  let ?l = "lexer_create (w @ rest) st"
  obtain c cs where w: "w = c # cs" using assms(2) by (cases w) auto
  have at: "at_text ?l (c # (cs @ rest))" using at_text_create [OF assms(1)] w by simp
  have c: "word_char c" "\<not> c_isdigit c" using assms(3,4) w by simp_all
  have cc: "current_char ?l = c" by (rule at_text_Cons(2) [OF at])
  have "lexer_next_token ?l = lexer_after_switch (fresh_token ?l) ?l"
    using lexer_next_token_start [OF at] word_char_class [OF c(1)] lexer_switch_None [of ?l] cc c by simp
  also have "\<dots> = lexer_lex_identifier_or_keyword ?l"
    using cc c word_char_class [OF c(1)]
    by (auto simp: lexer_after_switch_def Let_def word_char_def c_isalnum_def c_isdigit_def)
  finally have nt: "lexer_next_token ?l = lexer_lex_identifier_or_keyword ?l" .
  have P: "(\<lambda>c. c_isalnum c \<or> c = CHR ''_'') = word_char" by (simp add: word_char_def fun_eq_iff)
  have len: "lx_length ?l = length (lx_source ?l)" by (simp add: lexer_create_def)
  have tw: "takeWhile word_char (w @ rest) = w" by (rule takeWhile_word [OF assms(4,5)])
  have pos: "lx_position (scan_while word_char ?l) = length w"
    using scan_while_takeWhile [OF len, of word_char] assms(1) tw by (simp add: lexer_create_def)
  have src: "lx_source (scan_while word_char ?l) = w @ rest"
    using scanned_scan_while [of ?l word_char] assms(1) by (simp add: scanned_def lexer_create_def)
  obtain st' p where st: "string_intern_n (lx_interner (scan_while word_char ?l)) (Some w) = (st', Some p)"
    using string_intern_n_Some by blast
  have "lx_position ?l = 0" by (simp add: lexer_create_def)
  with nt pos src st show ?thesis
    by (simp add: lexer_lex_identifier_or_keyword_def P Let_def)
qed

theorem lexer_word_roundtrip_witness:
  "\<exists>t l'. lexer_next_token (lexer_create (''while'' @ ''(x)'') string_table_start) = (t, l') \<and>
     tok_type t = classify_word ''while'' \<and> tok_value t = Some ''while'' \<and> tok_is_interned t \<and> lx_position l' = 5"
proof -
  have "CHR 0x00 \<notin> set (''while'' @ ''(x)'')" "''while'' \<noteq> []" "\<not> c_isdigit (hd ''while'')"
    "list_all word_char ''while''" "''(x)'' = [] \<or> \<not> word_char (hd ''(x)'')"
    by (simp_all add: word_char_def c_isalnum_def c_isalpha_def c_isdigit_def c_isupper_def c_islower_def)
  moreover have "length ''while'' = 5" by simp
  ultimately show ?thesis using lexer_word_roundtrip [of "''while''" "''(x)''" string_table_start] by metis
qed

theorem lexer_next_token_text_witness:
  "\<exists>t l' s n. lexer_next_token (lexer_create ''+x'' string_table_start) = (t, l') \<and> tok_type t = Punct TOKEN_PLUS \<and>
     tok_lexeme t = SourceView s n \<and> tok_value t = Some (take n (drop s ''+x'')) \<and> lx_position l' = s + n"
proof -
  let ?l = "lexer_create ''+x'' string_table_start"
  have at: "at_text ?l (CHR ''+'' # ''x'')" by (rule at_text_create) simp
  obtain t l' where n: "lexer_next_token ?l = (t, l')" by fastforce
  have cc: "current_char ?l = CHR ''+''" by (rule at_text_Cons(2) [OF at])
  have "lexer_switch (fresh_token ?l) ?l = Some (single_char_token (fresh_token ?l) ?l TOKEN_PLUS)"
    unfolding lexer_switch_def Let_def cc at_text_next [OF at] by simp
  then have "lexer_next_token ?l = single_char_token (fresh_token ?l) ?l TOKEN_PLUS"
    using lexer_next_token_start [OF at] by (simp add: c_isspace_def)
  then have "t = fst (single_char_token (fresh_token ?l) ?l TOKEN_PLUS)" using n by (metis fst_conv)
  then have plus: "tok_type t = Punct TOKEN_PLUS"
    by (simp add: single_char_token_def operator_token_def)
  then obtain s n where "tok_lexeme t = SourceView s n" "0 < n" "s + n \<le> lx_length ?l" "lx_position l' = s + n"
      "lx_source ?l ! s \<noteq> CHR 0x27 \<longrightarrow> tok_value t = Some (take n (drop s (lx_source ?l)))"
    using lexer_next_token_text [OF lexer_wf_create [OF intern_wf_start] n] by auto
  moreover from this have "lx_source ?l ! s \<noteq> CHR 0x27"
    by (auto simp: lexer_create_def nth_Cons' less_Suc_eq)
  ultimately show ?thesis using n plus by (auto simp: lexer_create_def)
qed

section \<open>String literals\<close>

definition escape_char :: "char \<Rightarrow> string" where
  "escape_char c =
     (if c = CHR 0x0A then [CHR 0x5C, CHR ''n'']
      else if c = CHR 0x09 then [CHR 0x5C, CHR ''t'']
      else if c = CHR 0x0D then [CHR 0x5C, CHR ''r'']
      else if c = CHR 0x5C then [CHR 0x5C, CHR 0x5C]
      else if c = CHR 0x22 then [CHR 0x5C, CHR 0x22]
      else if c = CHR 0x00 then [CHR 0x5C, CHR ''0'']
      else [c])"

definition string_literal :: "string \<Rightarrow> string" where
  "string_literal s = CHR 0x22 # concat (map escape_char s) @ [CHR 0x22]"

lemma escape_char_no_nul: "CHR 0x00 \<notin> set (escape_char c)"
  by (simp add: escape_char_def)

lemma string_literal_loop_end:
  "at_text l (CHR 0x22 # r) \<Longrightarrow> string_literal_loop l b = (l, b)"
  using at_text_Cons by (subst string_literal_loop.simps) auto

lemma string_literal_loop_raw:
  assumes "at_text l (c # r)" and "c \<noteq> CHR 0x22" and "c \<noteq> CHR 0x5C"
  shows "string_literal_loop l b = string_literal_loop (advance 1 l) (b @ [c])"
  using at_text_Cons [OF assms(1)] assms(2,3) by (subst string_literal_loop.simps) auto

lemma string_literal_loop_escaped:
  assumes "at_text l (CHR 0x5C # e # r)"
  shows "string_literal_loop l b = string_literal_loop (advance 1 (advance 1 l)) (b @ string_escape e)"
proof -
  note l = at_text_Cons [OF assms] and l1 = at_text_Cons [OF at_text_Cons(3) [OF assms]]
  show ?thesis using l l1 by (subst string_literal_loop.simps) (auto simp: Let_def)
qed

lemma string_literal_loop_escape_char:
  assumes "at_text l (escape_char c @ r)"
  shows "string_literal_loop l b = string_literal_loop (advance (length (escape_char c)) l) (b @ [c])"
    and "at_text (advance (length (escape_char c)) l) r"
proof -
  consider e where "escape_char c = [CHR 0x5C, e]" "string_escape e = [c]"
    | "escape_char c = [c]" "c \<noteq> CHR 0x22" "c \<noteq> CHR 0x5C"
  proof (cases "escape_char c = [c]")
    case False
    then have "\<exists>e. escape_char c = [CHR 0x5C, e] \<and> string_escape e = [c]"
      by (simp add: escape_char_def string_escape_def split: if_splits)
    then show thesis using that(1) by blast
  next
    case True
    then have "c \<noteq> CHR 0x22" "c \<noteq> CHR 0x5C" by (auto simp: escape_char_def split: if_splits)
    with True show thesis by (rule that(2))
  qed
  then show "string_literal_loop l b = string_literal_loop (advance (length (escape_char c)) l) (b @ [c])"
    using assms string_literal_loop_escaped [of l] string_literal_loop_raw [of l c]
    by cases (auto simp: advance_advance)
  show "at_text (advance (length (escape_char c)) l) r"
    by (rule at_text_append [OF assms])
qed

lemma string_literal_loop_escapes:
  "at_text l (concat (map escape_char s) @ CHR 0x22 # r) \<Longrightarrow>
   string_literal_loop l b = (advance (length (concat (map escape_char s))) l, b @ s) \<and>
   at_text (advance (length (concat (map escape_char s))) l) (CHR 0x22 # r)"
proof (induction s arbitrary: l b)
  case Nil
  then show ?case by (simp add: string_literal_loop_end advance_def)
next
  case (Cons c s)
  then have "at_text l (escape_char c @ concat (map escape_char s) @ CHR 0x22 # r)" by simp
  from string_literal_loop_escape_char(1) [OF this] Cons.IH [OF string_literal_loop_escape_char(2) [OF this]]
  show ?case by (simp add: advance_advance)
qed

lemma lexer_next_token_quote:
  assumes "at_text l (CHR 0x22 # r)"
  shows "lexer_next_token l = lexer_lex_string_literal l"
  using lexer_next_token_start [OF assms] lexer_switch_None [of l] at_text_Cons [OF assms]
  by (simp add: c_isspace_def lexer_after_switch_def Let_def c_isdigit_def c_isalpha_def c_isupper_def c_islower_def)

text \<open>(C29) String literals round-trip. Quoting any string, with its quotes, backslashes, newlines, tabs,
  carriage returns and NULs written as escapes, gives text that the lexer reads back as one string
  token with exactly that value, whatever follows the closing quote.\<close>

theorem lexer_string_roundtrip:
  assumes "CHR 0x00 \<notin> set rest"
  shows "\<exists>t l'. lexer_next_token (lexer_create (string_literal s @ rest) st) = (t, l') \<and>
     tok_type t = TOKEN_STRING \<and> tok_value t = Some s \<and> tok_lexeme t = ValueView (length s) \<and>
     lx_position l' = length (string_literal s)"
proof -
  let ?l = "lexer_create (string_literal s @ rest) st"
  have at: "at_text ?l (CHR 0x22 # concat (map escape_char s) @ CHR 0x22 # rest)"
    using at_text_create [of "string_literal s @ rest" st] assms escape_char_no_nul
    by (auto simp: string_literal_def)
  note lp = string_literal_loop_escapes [OF at_text_Cons(3) [OF at]]
  have "lx_position ?l = 0" by (simp add: lexer_create_def)
  with lp [of "[]"] at_text_Cons(1) lexer_next_token_quote [OF at] show ?thesis
    by (fastforce simp: lexer_lex_string_literal_def Let_def string_literal_def)
qed

theorem lexer_string_roundtrip_witness:
  "\<exists>t l'. lexer_next_token (lexer_create (string_literal ''a'' @ '';'') string_table_start) = (t, l') \<and>
     tok_type t = TOKEN_STRING \<and> tok_value t = Some ''a'' \<and> tok_lexeme t = ValueView (length ''a'') \<and>
     lx_position l' = length (string_literal ''a'')"
proof -
  have "CHR 0x00 \<notin> set '';''" by simp
  from lexer_string_roundtrip [OF this] show ?thesis .
qed

text \<open>String literals and line numbers. A string literal written with raw text (no quote, backslash or
  NUL) becomes a token with that text as its value, and the line counter agrees with the source
  afterwards exactly when the text holds no newline: the literal's newlines are never counted.\<close>

theorem lexer_string_literal_lines:
  assumes "CHR 0x22 \<notin> set s" and "CHR 0x5C \<notin> set s" and "CHR 0x00 \<notin> set s"
  shows "\<exists>t l'. lexer_next_token (lexer_create ([CHR 0x22] @ s @ [CHR 0x22]) st) = (t, l') \<and>
     tok_type t = TOKEN_STRING \<and> tok_value t = Some s \<and> (line_ok l' \<longleftrightarrow> CHR 0x0A \<notin> set s)"
proof -
  let ?l = "lexer_create ([CHR 0x22] @ s @ [CHR 0x22]) st"
  have at: "at_text ?l (CHR 0x22 # s @ [CHR 0x22])"
    using at_text_create [of "[CHR 0x22] @ s @ [CHR 0x22]" st] assms by simp
  have loop: "string_literal_loop l b = (advance (length u) l, b @ u)"
    if "at_text l (u @ [CHR 0x22])" "set u \<subseteq> set s" for l b u
    using that
  proof (induction u arbitrary: l b)
    case Nil
    then show ?case by (simp add: string_literal_loop_end advance_def)
  next
    case (Cons c u)
    then have "c \<noteq> CHR 0x22" "c \<noteq> CHR 0x5C" using assms by auto
    with Cons string_literal_loop_raw [of l c "u @ [CHR 0x22]"] at_text_Cons(3) [of l c]
    show ?case by (simp add: advance_advance)
  qed
  note at' = at_text_append [OF at_text_Cons(3) [OF at]]
  have "lx_position ?l = 0" "lx_line ?l = 1" "lx_source ?l = CHR 0x22 # s @ [CHR 0x22]"
    using assms by (simp_all add: lexer_create_def)
  with loop [OF at_text_Cons(3) [OF at] subset_refl, of "[]"] at_text_Cons(1) [OF at'] lexer_next_token_quote [OF at]
  show ?thesis
    by (auto simp: lexer_lex_string_literal_def Let_def line_ok_def newlines_def count_list_0_iff)
qed

theorem lexer_string_literal_lines_witness:
  "\<exists>t l'. lexer_next_token (lexer_create ([CHR 0x22] @ [CHR 0x0A] @ [CHR 0x22]) string_table_start) = (t, l') \<and>
     tok_type t = TOKEN_STRING \<and> tok_value t = Some [CHR 0x0A] \<and> \<not> line_ok l'"
  using lexer_string_literal_lines [of "[CHR 0x0A]" string_table_start] by auto

text \<open>Cloning. The clone of a string token keeps the token's view, but its copied value is as long as the
  view says exactly when the value holds no NUL: \<open>strdup\<close> stops at the first one, and an escape
  \<^verbatim>\<open>\0\<close> in the literal puts one there.\<close>

theorem token_clone_view:
  assumes "tok_value t = Some v" and "\<not> tok_is_interned t" and "tok_lexeme t = ValueView (length v)"
  shows "\<exists>v'. tok_value (token_clone (Some t)) = Some v' \<and> tok_lexeme (token_clone (Some t)) = ValueView (length v) \<and>
     length v' \<le> length v \<and> (length v' = length v \<longleftrightarrow> CHR 0x00 \<notin> set v)"
proof -
  have "length (c_string v) = length v \<longleftrightarrow> CHR 0x00 \<notin> set v"
  proof
    assume "length (c_string v) = length v"
    then have "c_string v = v" unfolding c_string_def by (metis takeWhile_eq_take take_all_iff order_refl)
    then show "CHR 0x00 \<notin> set v" by (metis c_string_no_nul)
  qed simp
  then show ?thesis
    using assms by (auto simp: token_clone_def c_string_def length_takeWhile_le)
qed

theorem token_clone_view_witness:
  "\<exists>v'. tok_value (token_clone (Some \<lparr>tok_type = TOKEN_STRING, tok_value = Some [CHR ''a'', CHR 0x00, CHR ''b''],
      tok_lexeme = ValueView 3, tok_line = 1, tok_column = 1, tok_is_interned = False\<rparr>)) = Some v' \<and> length v' < 3"
proof -
  let ?t = "\<lparr>tok_type = TOKEN_STRING, tok_value = Some [CHR ''a'', CHR 0x00, CHR ''b''],
      tok_lexeme = ValueView 3, tok_line = 1, tok_column = 1, tok_is_interned = False\<rparr>"
  have "tok_value ?t = Some [CHR ''a'', CHR 0x00, CHR ''b'']" "\<not> tok_is_interned ?t"
    "tok_lexeme ?t = ValueView (length [CHR ''a'', CHR 0x00, CHR ''b''])" by simp_all
  from token_clone_view [OF this] show ?thesis by auto
qed

section \<open>Decimal numbers\<close>

text \<open>Decimal numbers round-trip. The decimal digits of a number, followed by nothing that continues a
  numeric literal, are lexed as one number token whose value is those digits. An exponent does not
  continue a literal: after the digits, \<^verbatim>\<open>e-3\<close> is left for the following tokens.\<close>

theorem lexer_decimal_roundtrip:
  assumes "CHR 0x00 \<notin> set rest"
    and "rest = [] \<or> \<not> c_isdigit (hd rest) \<and> hd rest \<notin> set ''.xXbB''"
  shows "\<exists>t l'. lexer_next_token (lexer_create (show_nat n @ rest) st) = (t, l') \<and>
     tok_type t = TOKEN_NUMBER \<and> tok_value t = Some (show_nat n) \<and> lx_position l' = length (show_nat n)"
proof -
  let ?l = "lexer_create (show_nat n @ rest) st" and ?P = "\<lambda>c. c_isdigit c \<or> c = CHR ''.''"
  have dig: "list_all ?P (show_nat n)" using show_nat_digits by (auto simp: list_all_iff)
  have nonul: "CHR 0x00 \<notin> set (show_nat n @ rest)"
    using assms(1) show_nat_digits [of "CHR 0x00" n] by (auto simp: c_isdigit_def)
  obtain c cs where w: "show_nat n = c # cs" by (cases "show_nat n") (auto simp: show_nat.simps [of n] split: if_splits)
  have at: "at_text ?l (c # (cs @ rest))" using at_text_create [OF nonul] w by simp
  have c: "c_isdigit c" using show_nat_digits [of c n] w by simp
  have cc: "current_char ?l = c" by (rule at_text_Cons(2) [OF at])
  have "word_char c" using c by (simp add: word_char_def c_isalnum_def)
  then have "lexer_next_token ?l = lexer_after_switch (fresh_token ?l) ?l"
    using lexer_next_token_start [OF at] word_char_class lexer_switch_None [of ?l] cc by simp
  also have "\<dots> = lexer_lex_number ?l"
    using cc c word_char_class [OF \<open>word_char c\<close>] by (simp add: lexer_after_switch_def Let_def)
  also have "\<dots> = number_token (fresh_token ?l) (lx_position ?l) (scan_while ?P ?l)"
  proof -
    have "\<not> next_is ?l 1 e" if "e \<in> set ''xXbB''" for e
    proof (cases "cs @ rest")
      case Nil
      then show ?thesis using at at_text_next_end by simp
    next
      case (Cons d r)
      have "d \<noteq> e"
        using Cons assms(2) that show_nat_digits [of d n] w by (cases cs) (auto simp: c_isdigit_def)
      then show ?thesis using at_text_next [of ?l c d r e] at Cons by simp
    qed
    then show ?thesis by (simp add: lexer_lex_number_def Let_def)
  qed
  finally have nt: "lexer_next_token ?l = number_token (fresh_token ?l) (lx_position ?l) (scan_while ?P ?l)" .
  have "takeWhile ?P (show_nat n @ rest) = show_nat n"
    using assms(2) by (intro takeWhile_word [OF dig]) auto
  then have pos: "lx_position (scan_while ?P ?l) = length (show_nat n)"
    using scan_while_takeWhile [of ?l ?P] nonul by (simp add: lexer_create_def)
  have src: "lx_source (scan_while ?P ?l) = show_nat n @ rest"
    using scanned_scan_while [of ?l ?P] nonul by (simp add: scanned_def lexer_create_def)
  have "lx_position ?l = 0" by (simp add: lexer_create_def)
  with nt pos src show ?thesis by (simp add: number_token_def Let_def)
qed

theorem lexer_decimal_roundtrip_witness:
  "\<exists>t l'. lexer_next_token (lexer_create (show_nat 1 @ ''e-3'') string_table_start) = (t, l') \<and>
     tok_type t = TOKEN_NUMBER \<and> tok_value t = Some ''1'' \<and> lx_position l' = 1"
proof -
  have "CHR 0x00 \<notin> set ''e-3''" "''e-3'' = [] \<or> \<not> c_isdigit (hd ''e-3'') \<and> hd ''e-3'' \<notin> set ''.xXbB''"
    by (simp_all add: c_isdigit_def)
  moreover have one: "show_nat 1 = ''1''" by code_simp
  ultimately show ?thesis using lexer_decimal_roundtrip [of "''e-3''" 1 string_table_start]
    by (simp add: one)
qed

section \<open>Line continuation\<close>

lemma lexer_after_switch_type: "tok_type (fst (lexer_after_switch token m)) \<noteq> Punct TOKEN_NEWLINE"
proof -
  have "tok_type (fst (lexer_lex_char_literal m)) \<noteq> Punct TOKEN_NEWLINE"
    "tok_type (fst (lexer_lex_number m)) \<noteq> Punct TOKEN_NEWLINE"
    "tok_type (fst (lexer_lex_identifier_or_keyword m)) \<noteq> Punct TOKEN_NEWLINE"
    "tok_type (fst (lexer_lex_string_literal m)) \<noteq> Punct TOKEN_NEWLINE"
    "tok_type (fst (lexer_unknown_character token m)) \<noteq> Punct TOKEN_NEWLINE"
    by (auto simp: lexer_lex_char_literal_def char_literal_close_def lexer_lex_number_def number_token_def
        lexer_lex_identifier_or_keyword_def lexer_lex_string_literal_def lexer_unknown_character_def
        lex_error_def Let_def split: option.splits prod.splits)
  then show ?thesis
    by (simp add: lexer_after_switch_def Let_def operator_token_def single_char_token_def)
qed

lemma next_token_continuation:
  assumes "lexer_wf l"
  shows "0 < lx_continuation_depth l \<longrightarrow> tok_type (fst (lexer_next_token l)) \<noteq> Punct TOKEN_NEWLINE"
  using assms
proof (induction rule: next_token_induct)
  case (newline l m)
  then show ?case by (auto dest: lexer_skip_space_newline)
next
  case (token l m tk)
  show ?case
  proof (cases "lexer_switch tk m")
    case (Some r)
    have "operator_result tk m r"
      using token(3) by (intro lexer_switch_result [OF _ token(4) Some]) (simp add: lexer_wf_def)
    then show ?thesis using Some by (auto simp: operator_result_def)
  qed (simp add: lexer_after_switch_type)
qed (auto simp: scanned_def)

text \<open>Line continuation. Inside parentheses or square brackets the lexer never produces a newline token:
  newlines there are white space.\<close>

theorem lexer_next_token_continuation:
  assumes "lexer_wf l" and "0 < lx_continuation_depth l"
  shows "tok_type (fst (lexer_next_token l)) \<noteq> Punct TOKEN_NEWLINE"
  using next_token_continuation assms by blast

theorem lexer_next_token_continuation_witness:
  "tok_type (fst (lexer_next_token ((lexer_create [CHR 0x0A] string_table_start)\<lparr>lx_continuation_depth := 1\<rparr>)))
     \<noteq> Punct TOKEN_NEWLINE"
  using lexer_wf_create [OF intern_wf_start, of "[CHR 0x0A]"]
  by (intro lexer_next_token_continuation) (simp_all add: lexer_wf_def)

section \<open>Look-ahead\<close>

text \<open>A lexer with another intern table and error report.\<close>

definition reframe :: "string_table \<Rightarrow> bool \<Rightarrow> string option \<Rightarrow> Lexer \<Rightarrow> Lexer" where
  "reframe i e msg l = l\<lparr>lx_interner := i, lx_has_error := e, lx_error_message := msg\<rparr>"

lemma reframe_simps [simp]:
  "lx_source (reframe i e msg l) = lx_source l" "lx_length (reframe i e msg l) = lx_length l"
  "lx_position (reframe i e msg l) = lx_position l" "lx_line (reframe i e msg l) = lx_line l"
  "lx_column (reframe i e msg l) = lx_column l"
  "lx_continuation_depth (reframe i e msg l) = lx_continuation_depth l"
  "current_char (reframe i e msg l) = current_char l" "next_is (reframe i e msg l) k c = next_is l k c"
  "advance n (reframe i e msg l) = reframe i e msg (advance n l)"
  "advance_newline (reframe i e msg l) = reframe i e msg (advance_newline l)"
  "enter_continuation (reframe i e msg l) = reframe i e msg (enter_continuation l)"
  "leave_continuation (reframe i e msg l) = reframe i e msg (leave_continuation l)"
  "fresh_token (reframe i e msg l) = fresh_token l"
  by (simp_all add: reframe_def current_char_def next_is_def advance_def advance_newline_def
      enter_continuation_def leave_continuation_def fresh_token_def)

lemma scan_while_reframe [simp]: "scan_while P (reframe i e msg l) = reframe i e msg (scan_while P l)"
proof (induction P l rule: scan_while.induct)
  case (1 P l)
  then show ?case by (simp add: scan_while.simps [of P l] scan_while.simps [of P "reframe i e msg l"])
qed

lemma skip_space_reframe [simp]:
  "lexer_skip_space (reframe i e msg l) = apfst (reframe i e msg) (lexer_skip_space l)"
proof (induction l rule: lexer_skip_space.induct)
  case (1 l)
  then show ?case by (simp add: lexer_skip_space.simps [of l] lexer_skip_space.simps [of "reframe i e msg l"])
qed

lemma block_comment_reframe [simp]:
  "block_comment_loop (reframe i e msg l) d = apfst (reframe i e msg) (block_comment_loop l d)"
proof (induction l d rule: block_comment_loop.induct)
  case (1 l d)
  then show ?case
    by (auto simp: block_comment_loop.simps [of l d] block_comment_loop.simps [of "reframe i e msg l" d])
qed

lemma string_literal_reframe [simp]:
  "string_literal_loop (reframe i e msg l) b = apfst (reframe i e msg) (string_literal_loop l b)"
proof (induction l b rule: string_literal_loop.induct)
  case (1 l b)
  then show ?case
    by (simp add: string_literal_loop.simps [of l b] string_literal_loop.simps [of "reframe i e msg l" b] Let_def)
qed

definition reframed :: "Token \<times> Lexer \<Rightarrow> Token \<times> Lexer \<Rightarrow> bool" where
  "reframed r r' \<longleftrightarrow> fst r' = fst r \<and> (\<exists>i e msg. snd r' = reframe i e msg (snd r))"

lemma reframedI: "r' = apsnd (reframe i e msg) r \<Longrightarrow> reframed r r'"
  by (auto simp: reframed_def)

lemma reframed_pair [simp]: "reframed (t, l) (t, reframe i e msg l)"
  by (auto simp: reframed_def)

lemma reframed_lex_error: "reframed (lex_error t l m) (lex_error t (reframe i e msg l) m)"
proof (rule reframedI)
  let ?r = "lex_error t l m"
  show "lex_error t (reframe i e msg l) m =
    apsnd (reframe i (lx_has_error (snd ?r)) (lx_error_message (snd ?r))) ?r"
    by (simp add: lex_error_def lexer_set_error_def reframe_def)
qed

lemma reframed_operator:
  "reframed (operator_token t l ty s) (operator_token t (reframe i e msg l) ty s)"
  "reframed (single_char_token t l ty) (single_char_token t (reframe i e msg l) ty)"
  by (simp_all add: operator_token_def single_char_token_def)

lemma reframed_char_literal_close:
  "reframed (char_literal_close t k l v) (char_literal_close t k (reframe i e msg l) v)"
  by (simp add: char_literal_close_def Let_def reframed_lex_error)

lemma reframed_char_literal: "reframed (lexer_lex_char_literal l) (lexer_lex_char_literal (reframe i e msg l))"
  by (simp add: lexer_lex_char_literal_def Let_def reframed_lex_error reframed_char_literal_close split: option.split)

lemma reframed_number: "reframed (lexer_lex_number l) (lexer_lex_number (reframe i e msg l))"
  by (auto simp: lexer_lex_number_def Let_def reframed_lex_error number_token_def)

lemma reframed_identifier:
  "reframed (lexer_lex_identifier_or_keyword l) (lexer_lex_identifier_or_keyword (reframe i e msg l))"
proof -
  let ?P = "\<lambda>c. c_isalnum c \<or> c = CHR ''_''"
  define m where "m = scan_while ?P l"
  define v where "v = take (lx_position m - lx_position l) (drop (lx_position l) (lx_source m))"
  obtain st1 p1 where 1: "string_intern_n (lx_interner m) (Some v) = (st1, Some p1)"
    using string_intern_n_Some by blast
  obtain st2 p2 where 2: "string_intern_n (lx_interner (reframe i e msg m)) (Some v) = (st2, Some p2)"
    using string_intern_n_Some by blast
  have "(reframe i e msg m)\<lparr>lx_interner := st2\<rparr> = reframe st2 e msg (m\<lparr>lx_interner := st1\<rparr>)"
    by (simp add: reframe_def)
  with 1 2 show ?thesis
    by (simp add: lexer_lex_identifier_or_keyword_def Let_def m_def [symmetric] v_def [symmetric])
qed

lemma reframed_string: "reframed (lexer_lex_string_literal l) (lexer_lex_string_literal (reframe i e msg l))"
  by (auto simp: lexer_lex_string_literal_def Let_def reframed_lex_error split: prod.split)

lemma reframed_unknown: "reframed (lexer_unknown_character t l) (lexer_unknown_character t (reframe i e msg l))"
  using reframed_lex_error [of t l "''Unknown character: '' @ [current_char l]" i e msg]
  by (auto simp: lexer_unknown_character_def reframed_def Let_def split: prod.splits) blast

lemma reframed_after_switch:
  "reframed (lexer_after_switch t l) (lexer_after_switch t (reframe i e msg l))"
  by (auto simp: lexer_after_switch_def Let_def reframed_operator reframed_char_literal reframed_number
      reframed_identifier reframed_string reframed_unknown)

lemma reframed_switch:
  "rel_option reframed (lexer_switch t l) (lexer_switch t (reframe i e msg l))"
  by (simp add: lexer_switch_def Let_def reframed_operator)

lemma reframed_next_token:
  "reframed (lexer_next_token l) (lexer_next_token (reframe i e msg l))"
proof (induction l rule: lexer_next_token.induct)
  case (1 l)
  obtain m b where sp: "lexer_skip_space l = (m, b)" by fastforce
  note eqs = lexer_next_token.simps [of l] lexer_next_token.simps [of "reframe i e msg l"]
  let ?c1 = "current_char m = CHR ''/'' \<and> next_is m 1 CHR ''/''"
    and ?c2 = "current_char m = CHR ''/'' \<and> next_is m 1 CHR ''*''"
    and ?tk = "(fresh_token l)\<lparr>tok_line := lx_line m, tok_column := lx_column m\<rparr>"
  consider "b \<or> lx_length m \<le> lx_position m" | "\<not> b" "\<not> lx_length m \<le> lx_position m" "?c1"
    | "\<not> b" "\<not> lx_length m \<le> lx_position m" "\<not> ?c1" "?c2" | "\<not> b" "\<not> lx_length m \<le> lx_position m" "\<not> ?c1" "\<not> ?c2"
    by blast
  then show ?case
  proof cases
    case 1
    then show ?thesis by (auto simp: eqs sp Let_def)
  next
    case 2
    from "1.IH"(1) [OF refl sp [symmetric] refl 2(1,2) refl 2(3)] 2 show ?thesis
      by (simp add: eqs sp Let_def lexer_skip_line_comment_def)
  next
    case 3
    show ?thesis
    proof (cases "lexer_skip_block_comment m")
      case (Inl r)
      then show ?thesis using 3
        by (auto simp: eqs sp Let_def lexer_skip_block_comment_def reframed_lex_error split: prod.splits if_splits)
    next
      case (Inr k)
      then have "lexer_skip_block_comment (reframe i e msg m) = Inr (reframe i e msg k)"
        by (auto simp: lexer_skip_block_comment_def Let_def split: prod.splits if_splits)
      with "1.IH"(2) [OF refl sp [symmetric] refl 3(1,2) refl 3(3,4) Inr] 3 Inr show ?thesis
        by (simp add: eqs sp Let_def)
    qed
  next
    case 4
    have "reframed (case lexer_switch ?tk m of Some r \<Rightarrow> r | None \<Rightarrow> lexer_after_switch ?tk m)
      (case lexer_switch ?tk (reframe i e msg m) of Some r \<Rightarrow> r | None \<Rightarrow> lexer_after_switch ?tk (reframe i e msg m))"
      using reframed_switch [of ?tk m i e msg] reframed_after_switch [of ?tk m i e msg]
      by (auto split: option.split)
    with 4 show ?thesis by (auto simp: eqs sp Let_def)
  qed
qed

text \<open>Look-ahead. Peeking returns the very token that the next call of \<open>lexer_next_token\<close> returns, then
  the call after a peek returns it again and leaves the cursor, line, column and bracket depth where
  a call without the peek would have left them.\<close>

theorem lexer_peek_then_next:
  assumes "lexer_wf l" and "lexer_next_token l = (t, l')" and "lexer_peek_token l = (u, m)"
    and "lexer_next_token m = (v, m')"
  shows "u = t \<and> v = t \<and> lx_position m = lx_position l \<and> lx_source m' = lx_source l' \<and>
     lx_position m' = lx_position l' \<and> lx_line m' = lx_line l' \<and> lx_column m' = lx_column l' \<and>
     lx_continuation_depth m' = lx_continuation_depth l'"
proof -
  have keep: "lx_source l' = lx_source l" "lx_length l' = lx_length l"
    using next_token_progress [OF assms(1)] assms(2) by (auto simp: progressed_def lexed_def scanned_def)
  have "u = t" and "m = reframe (lx_interner l') (lx_has_error l') (lx_error_message l') l"
    using assms(2,3) keep by (auto simp: lexer_peek_token_def Let_def reframe_def)
  with reframed_next_token [of l "lx_interner l'" "lx_has_error l'" "lx_error_message l'"] assms(2,4)
  show ?thesis by (auto simp: reframed_def)
qed

theorem lexer_peek_then_next_witness:
  "\<exists>t l' m m'. lexer_next_token (lexer_create ''a+b'' string_table_start) = (t, l') \<and>
     lexer_peek_token (lexer_create ''a+b'' string_table_start) = (t, m) \<and>
     lexer_next_token m = (t, m') \<and> lx_position m' = lx_position l'"
proof -
  let ?l = "lexer_create ''a+b'' string_table_start"
  obtain t l' u m v m' where n: "lexer_next_token ?l = (t, l')" "lexer_peek_token ?l = (u, m)"
    "lexer_next_token m = (v, m')" by fastforce
  from lexer_peek_then_next [OF lexer_wf_create [OF intern_wf_start] n] n show ?thesis by auto
qed

end
