(* ===== verification/Types.thy ===== *)
theory Types
  imports Mettle_Prelude
begin

text \<open>
  The type objects of \<^verbatim>\<open>src/src/semantic/symbol_table.c\<close>: their creation with the default sizes,
  function pointers, the memory layout of structs, field access, and the compatibility test used to
  match a function definition with its forward declaration.

  Types refer to one another by pointer, so they live in a store: the list of all types created so
  far, a pointer being a position in it. Allocation appends to the store and succeeds. Sizes and
  offsets are \<open>size_t\<close> values chosen by the program being compiled, not by memory, so their sums wrap
  at \<open>2 ^ 64\<close>. An outer \<open>option\<close> marks calls that do not return normally: \<open>None\<close> is a division by zero,
  a pointer outside the store or an endless recursion.
\<close>

section \<open>Types and their store\<close>

datatype TypeKind = TYPE_INT8 | TYPE_INT16 | TYPE_INT32 | TYPE_INT64 | TYPE_UINT8 | TYPE_UINT16
  | TYPE_UINT32 | TYPE_UINT64 | TYPE_BOOL | TYPE_FLOAT32 | TYPE_FLOAT64 | TYPE_STRING
  | TYPE_FUNCTION_POINTER | TYPE_POINTER | TYPE_ARRAY | TYPE_STRUCT | TYPE_ENUM | TYPE_TAGGED_ENUM
  | TYPE_VOID

type_synonym type_ref = nat

record Type =
  ty_kind :: TypeKind
  ty_name :: "string option"
  ty_size :: nat
  ty_alignment :: nat
  ty_base_type :: "type_ref option"
  ty_array_size :: nat
  ty_fn_param_types :: "type_ref option list"
  ty_fn_param_count :: nat
  ty_fn_return_type :: "type_ref option"
  ty_field_names :: "string list"
  ty_field_types :: "type_ref list"
  ty_field_offsets :: "nat list"
  ty_field_count :: nat
  ty_tagged_variant_names :: "string list"
  ty_tagged_variant_tags :: "int list"
  ty_tagged_variant_payloads :: "type_ref option list"
  ty_tagged_variant_count :: nat
  ty_tagged_data_offset :: nat
  ty_tagged_data_size :: nat
  ty_generic_template_name :: "string option"

type_synonym type_store = "Type list"

text \<open>The default size, which is also the default alignment: the switch at the end of \<open>type_create\<close>.\<close>

definition default_size :: "TypeKind \<Rightarrow> nat" where
  "default_size kind =
     (if kind \<in> {TYPE_INT8, TYPE_UINT8} then 1
      else if kind \<in> {TYPE_INT16, TYPE_UINT16} then 2
      else if kind \<in> {TYPE_INT32, TYPE_UINT32, TYPE_FLOAT32} then 4
      else if kind \<in> {TYPE_INT64, TYPE_UINT64, TYPE_FLOAT64, TYPE_POINTER, TYPE_ENUM} then 8
      else 0)"

definition fresh_type :: "TypeKind \<Rightarrow> string option \<Rightarrow> Type" where
  "fresh_type kind name =
     \<lparr>ty_kind = kind, ty_name = name, ty_size = default_size kind, ty_alignment = default_size kind,
      ty_base_type = None, ty_array_size = 0, ty_fn_param_types = [], ty_fn_param_count = 0,
      ty_fn_return_type = None, ty_field_names = [], ty_field_types = [], ty_field_offsets = [],
      ty_field_count = 0, ty_tagged_variant_names = [], ty_tagged_variant_tags = [],
      ty_tagged_variant_payloads = [], ty_tagged_variant_count = 0, ty_tagged_data_offset = 0,
      ty_tagged_data_size = 0, ty_generic_template_name = None\<rparr>"

definition type_create :: "type_store \<Rightarrow> TypeKind \<Rightarrow> string option \<Rightarrow> type_store \<times> type_ref" where
  "type_create types kind name = (types @ [fresh_type kind name], length types)"

definition type_create_function_pointer ::
  "type_store \<Rightarrow> type_ref option list option \<Rightarrow> nat \<Rightarrow> type_ref option \<Rightarrow> type_store \<times> type_ref" where
  "type_create_function_pointer types param_types param_count return_type =
     (let (types, type) = type_create types TYPE_FUNCTION_POINTER (Some ''function'');
          params = map (\<lambda>i. case param_types of Some ps \<Rightarrow> ps ! i | None \<Rightarrow> None) [0 ..< param_count]
      in (types[type := (types ! type)\<lparr>ty_size := 8, ty_alignment := 8, ty_fn_param_count := param_count,
            ty_fn_return_type := return_type, ty_fn_param_types := params\<rparr>], type))"

section \<open>Struct layout\<close>

definition size_add :: "nat \<Rightarrow> nat \<Rightarrow> nat" where
  "size_add a b = (a + b) mod 2 ^ 64"

text \<open>\<open>(alignment - offset % alignment) % alignment\<close>\<close>

definition padding_to :: "nat \<Rightarrow> nat \<Rightarrow> nat" where
  "padding_to alignment offset = (alignment - offset mod alignment) mod alignment"

text \<open>The field loop: the offsets given out, then the offset and the greatest alignment it ends with.\<close>

fun struct_layout :: "type_store \<Rightarrow> type_ref list \<Rightarrow> nat \<Rightarrow> nat \<Rightarrow> (nat list \<times> nat \<times> nat) option" where
  "struct_layout types [] current_offset max_alignment = Some ([], current_offset, max_alignment)"
| "struct_layout types (field_type # rest) current_offset max_alignment =
     (if field_type \<ge> length types then None
      else let field_alignment = ty_alignment (types ! field_type);
               max_alignment = (if field_alignment > max_alignment then field_alignment else max_alignment)
           in if field_alignment = 0 then None
              else let current_offset = size_add current_offset (padding_to field_alignment current_offset)
                   in map_option (apfst (\<lambda>offsets. current_offset # offsets))
                        (struct_layout types rest (size_add current_offset (ty_size (types ! field_type)))
                           max_alignment))"

definition type_create_struct ::
  "type_store \<Rightarrow> string option \<Rightarrow> string list option \<Rightarrow> type_ref list option \<Rightarrow> nat \<Rightarrow>
   (type_store \<times> type_ref option) option" where
  "type_create_struct types name field_names field_types field_count =
     (case (name, field_names, field_types) of
        (Some nm, Some names, Some ftypes) \<Rightarrow>
          (if field_count = 0 then Some (types, None)
           else let (types', struct_type) = type_create types TYPE_STRUCT (Some nm)
                in case struct_layout types' (take field_count ftypes) 0 1 of
                     None \<Rightarrow> None
                   | Some (offsets, current_offset, max_alignment) \<Rightarrow>
                       Some (types'[struct_type := (types' ! struct_type)\<lparr>ty_field_count := field_count,
                          ty_field_names := take field_count names, ty_field_types := take field_count ftypes,
                          ty_field_offsets := offsets,
                          ty_size := size_add current_offset (padding_to max_alignment current_offset),
                          ty_alignment := max_alignment\<rparr>], Some struct_type))
      | _ \<Rightarrow> Some (types, None))"

section \<open>Fields\<close>

text \<open>The position of the first field of that name, in a struct or in a string descriptor.\<close>

definition field_index :: "Type option \<Rightarrow> string option \<Rightarrow> nat option" where
  "field_index struct_type field_name =
     (case (struct_type, field_name) of
        (Some t, Some name) \<Rightarrow>
          (if ty_kind t \<noteq> TYPE_STRUCT \<and> ty_kind t \<noteq> TYPE_STRING then None
           else List.find (\<lambda>i. ty_field_names t ! i = name) [0 ..< ty_field_count t])
      | _ \<Rightarrow> None)"

definition type_get_field_type :: "Type option \<Rightarrow> string option \<Rightarrow> type_ref option" where
  "type_get_field_type struct_type field_name =
     map_option (\<lambda>i. ty_field_types (the struct_type) ! i) (field_index struct_type field_name)"

definition type_get_field_offset :: "Type option \<Rightarrow> string option \<Rightarrow> nat" where
  "type_get_field_offset struct_type field_name =
     (case field_index struct_type field_name of
        Some i \<Rightarrow> ty_field_offsets (the struct_type) ! i
      | None \<Rightarrow> 0)"

section \<open>Compatibility\<close>

text \<open>The recursion of \<open>symbol_table_types_compatible\<close> follows base types, parameters and results, never
  fields. \<open>fuel\<close> bounds its depth; \<open>None\<close> is running out of it or leaving the store.\<close>

fun compatible_within :: "nat \<Rightarrow> type_store \<Rightarrow> type_ref option \<Rightarrow> type_ref option \<Rightarrow> bool option"
  and compatible_lists :: "nat \<Rightarrow> type_store \<Rightarrow> type_ref option list \<Rightarrow> type_ref option list \<Rightarrow> bool option"
where
  "compatible_within fuel types lhs rhs =
     (if lhs = rhs then Some True
      else case (lhs, rhs) of
        (Some l, Some r) \<Rightarrow>
          (if l \<ge> length types \<or> r \<ge> length types then None
           else let lt = types ! l; rt = types ! r
                in if ty_kind lt \<noteq> ty_kind rt then Some False
                   else case fuel of 0 \<Rightarrow> None | Suc fuel \<Rightarrow>
                     (case ty_kind lt of
                        TYPE_FUNCTION_POINTER \<Rightarrow>
                          (if ty_fn_param_count lt \<noteq> ty_fn_param_count rt then Some False
                           else case compatible_within fuel types (ty_fn_return_type lt) (ty_fn_return_type rt) of
                                  None \<Rightarrow> None
                                | Some False \<Rightarrow> Some False
                                | Some True \<Rightarrow> compatible_lists fuel types
                                    (take (ty_fn_param_count lt) (ty_fn_param_types lt))
                                    (take (ty_fn_param_count lt) (ty_fn_param_types rt)))
                      | TYPE_ARRAY \<Rightarrow>
                          (if ty_array_size lt = ty_array_size rt
                           then compatible_within fuel types (ty_base_type lt) (ty_base_type rt) else Some False)
                      | TYPE_POINTER \<Rightarrow> compatible_within fuel types (ty_base_type lt) (ty_base_type rt)
                      | TYPE_STRUCT \<Rightarrow> Some (ty_name lt = ty_name rt)
                      | _ \<Rightarrow> Some True))
      | _ \<Rightarrow> Some False)"
| "compatible_lists fuel types [] _ = Some True"
| "compatible_lists fuel types (l # ls) [] = None"
| "compatible_lists fuel types (l # ls) (r # rs) =
     (case compatible_within fuel types l r of
        None \<Rightarrow> None
      | Some False \<Rightarrow> Some False
      | Some True \<Rightarrow> compatible_lists fuel types ls rs)"

definition symbol_table_types_compatible :: "type_store \<Rightarrow> type_ref option \<Rightarrow> type_ref option \<Rightarrow> bool option" where
  "symbol_table_types_compatible types lhs rhs = compatible_within (length types) types lhs rhs"

section \<open>What the layout guarantees\<close>

lemma padding_to_aligns: "0 < a \<Longrightarrow> a dvd off + padding_to a off"
proof -
  assume a: "0 < a"
  have "(off + padding_to a off) mod a = (off mod a + (a - off mod a)) mod a"
    by (simp add: padding_to_def mod_simps)
  also have "off mod a + (a - off mod a) = a" using a by (simp add: mod_less_divisor less_imp_le)
  finally show ?thesis by (simp add: mod_eq_0_iff_dvd)
qed

lemma padding_to_less: "0 < a \<Longrightarrow> padding_to a off < a"
  by (simp add: padding_to_def)

lemma size_add_exact: "a + b < 2 ^ 64 \<Longrightarrow> size_add a b = a + b"
  by (simp add: size_add_def)

text \<open>The bytes a list of fields can need at most: sizes and one alignment each.\<close>

definition layout_bound :: "type_store \<Rightarrow> type_ref list \<Rightarrow> nat" where
  "layout_bound types fs = (\<Sum>r \<leftarrow> fs. ty_size (types ! r) + ty_alignment (types ! r))"

definition fields_ok :: "type_store \<Rightarrow> type_ref list \<Rightarrow> bool" where
  "fields_ok types fs \<longleftrightarrow> (\<forall>r \<in> set fs. r < length types \<and> 0 < ty_alignment (types ! r))"

text \<open>\<open>placed types fields offsets lo hi\<close>: the fields lie one after another between \<open>lo\<close> and \<open>hi\<close>, each at a
  multiple of its alignment.\<close>

fun fields_placed :: "type_store \<Rightarrow> type_ref list \<Rightarrow> nat list \<Rightarrow> nat \<Rightarrow> nat \<Rightarrow> bool" where
  "fields_placed types [] offs lo hi = (offs = [] \<and> lo \<le> hi)"
| "fields_placed types (r # rs) offs lo hi =
     (\<exists>off offs'. offs = off # offs' \<and> lo \<le> off \<and> ty_alignment (types ! r) dvd off \<and>
        fields_placed types rs offs' (off + ty_size (types ! r)) hi)"

lemma fields_placed_length: "fields_placed types fs offs lo hi \<Longrightarrow> length offs = length fs \<and> lo \<le> hi"
  by (induction fs arbitrary: offs lo) fastforce+

lemma fields_placed_nth:
  assumes "fields_placed types fs offs lo hi" and "i < length fs"
  shows "lo \<le> offs ! i \<and> ty_alignment (types ! (fs ! i)) dvd offs ! i \<and>
     offs ! i + ty_size (types ! (fs ! i)) \<le> hi \<and>
     (\<forall>j. i < j \<longrightarrow> j < length fs \<longrightarrow> offs ! i + ty_size (types ! (fs ! i)) \<le> offs ! j)"
  using assms
proof (induction fs arbitrary: offs lo i)
  case (Cons r rs)
  then obtain off offs' where o: "offs = off # offs'" "lo \<le> off" "ty_alignment (types ! r) dvd off"
    and p: "fields_placed types rs offs' (off + ty_size (types ! r)) hi" by auto
  note IH = Cons.IH [OF p]
  show ?case
  proof (cases i)
    case 0
    have "off + ty_size (types ! r) \<le> offs' ! j" if "j < length rs" for j using IH [OF that] by simp
    then show ?thesis using o 0 fields_placed_length [OF p] by (auto simp: nth_Cons split: nat.split)
  next
    case (Suc k)
    with IH [of k] Cons.prems(2) o show ?thesis by (auto simp: nth_Cons split: nat.split)
  qed
qed simp

lemma struct_layout_placed:
  assumes "fields_ok types fs" and "cur + layout_bound types fs < 2 ^ 64"
  shows "\<exists>offs hi. struct_layout types fs cur m = Some (offs, hi, Max (insert m ((\<lambda>r. ty_alignment (types ! r)) ` set fs))) \<and>
     fields_placed types fs offs cur hi \<and> hi \<le> cur + layout_bound types fs"
  using assms
proof (induction fs arbitrary: cur m)
  case Nil
  then show ?case by (simp add: layout_bound_def)
next
  case (Cons r rs)
  let ?a = "ty_alignment (types ! r)" and ?s = "ty_size (types ! r)" and ?A = "\<lambda>r. ty_alignment (types ! r)"
  define off where "off = cur + padding_to ?a cur"
  define m' where "m' = (if ?a > m then ?a else m)"
  have a: "0 < ?a" "r < length types" "fields_ok types rs" using Cons.prems(1) by (auto simp: fields_ok_def)
  have b: "layout_bound types (r # rs) = ?s + ?a + layout_bound types rs" by (simp add: layout_bound_def)
  have p: "padding_to ?a cur < ?a" by (rule padding_to_less [OF a(1)])
  have off: "size_add cur (padding_to ?a cur) = off" "size_add off ?s = off + ?s"
    using p Cons.prems(2) b by (auto simp: off_def intro!: size_add_exact)
  obtain offs hi where IH: "struct_layout types rs (off + ?s) m' = Some (offs, hi, Max (insert m' (?A ` set rs)))"
      "fields_placed types rs offs (off + ?s) hi" "hi \<le> off + ?s + layout_bound types rs"
    using Cons.IH [OF a(3), of "off + ?s" m'] Cons.prems(2) b p by (auto simp: off_def)
  have mx: "Max (insert m' (?A ` set rs)) = Max (insert m (?A ` set (r # rs)))"
    by (cases "rs = []") (auto simp: m'_def max_def Max_insert)
  have "struct_layout types (r # rs) cur m = Some (off # offs, hi, Max (insert m' (?A ` set rs)))"
    using a off IH(1) by (simp add: Let_def m'_def [symmetric])
  then have "struct_layout types (r # rs) cur m = Some (off # offs, hi, Max (insert m (?A ` set (r # rs))))"
    by (simp only: mx)
  moreover have "?a dvd off" "cur \<le> off" using padding_to_aligns [OF a(1)] by (simp_all add: off_def)
  ultimately show ?case using IH(2,3) p b by (force simp: off_def)
qed

lemma struct_layout_store:
  "fields_ok types fs \<Longrightarrow> struct_layout (types @ ts) fs cur m = struct_layout types fs cur m"
  by (induction fs arbitrary: cur m) (auto simp: fields_ok_def nth_append Let_def)

text \<open>(C28) Struct layout. Creating a struct from at least one field, every field type having a positive
  alignment, returns a struct type (provided the sizes and alignments add up to less than \<open>2 ^ 64\<close>), in
  which every field lies at a multiple of its type's alignment, fields do not overlap and keep their
  order, all of them lie inside the struct, the struct's alignment is at least every field's, and its
  size is a multiple of its alignment.\<close>

theorem type_create_struct_layout:
  assumes "fields_ok types fs" and "fs \<noteq> []"
    and "layout_bound types fs + Max (insert 1 ((\<lambda>r. ty_alignment (types ! r)) ` set fs)) < 2 ^ 64"
  shows "\<exists>types' s. type_create_struct types (Some nm) (Some names) (Some fs) (length fs) = Some (types', Some s) \<and>
     ty_alignment (types' ! s) dvd ty_size (types' ! s) \<and>
     (\<forall>i < length fs. ty_alignment (types ! (fs ! i)) dvd ty_field_offsets (types' ! s) ! i \<and>
        ty_alignment (types ! (fs ! i)) \<le> ty_alignment (types' ! s) \<and>
        ty_field_offsets (types' ! s) ! i + ty_size (types ! (fs ! i)) \<le> ty_size (types' ! s) \<and>
        (\<forall>j < length fs. i < j \<longrightarrow>
           ty_field_offsets (types' ! s) ! i + ty_size (types ! (fs ! i)) \<le> ty_field_offsets (types' ! s) ! j))"
proof -
  let ?A = "(\<lambda>r. ty_alignment (types ! r)) ` set fs"
  define al where "al = Max (insert 1 ?A)"
  have "1 \<le> al" unfolding al_def by (rule Max_ge) simp_all
  then have al: "0 < al" by simp
  have al_ge: "\<And>r. r \<in> set fs \<Longrightarrow> ty_alignment (types ! r) \<le> al" by (simp add: al_def)
  obtain offs hi where lay: "struct_layout types fs 0 1 = Some (offs, hi, al)"
      and pl: "fields_placed types fs offs 0 hi" and hi: "hi \<le> layout_bound types fs"
    using struct_layout_placed [OF assms(1), of 0 1] assms(3) by (auto simp: al_def)
  define sz where "sz = hi + padding_to al hi"
  have sz: "size_add hi (padding_to al hi) = sz"
    using hi padding_to_less [OF al(1), of hi] assms(3) by (auto simp: sz_def al_def intro!: size_add_exact)
  have "type_create_struct types (Some nm) (Some names) (Some fs) (length fs) =
      Some ((types @ [fresh_type TYPE_STRUCT (Some nm)])[length types :=
        (fresh_type TYPE_STRUCT (Some nm))\<lparr>ty_field_count := length fs, ty_field_names := take (length fs) names,
           ty_field_types := fs, ty_field_offsets := offs, ty_size := sz, ty_alignment := al\<rparr>], Some (length types))"
    using lay assms(2) by (simp add: type_create_struct_def type_create_def struct_layout_store [OF assms(1)] sz)
  moreover have "al dvd sz" using padding_to_aligns [OF al] by (simp add: sz_def)
  moreover have "ty_alignment (types ! (fs ! i)) dvd offs ! i \<and> ty_alignment (types ! (fs ! i)) \<le> al \<and>
      offs ! i + ty_size (types ! (fs ! i)) \<le> sz \<and>
      (\<forall>j < length fs. i < j \<longrightarrow> offs ! i + ty_size (types ! (fs ! i)) \<le> offs ! j)" if "i < length fs" for i
    using fields_placed_nth [OF pl that] al_ge [of "fs ! i"] that by (auto simp: sz_def)
  ultimately show ?thesis by (auto simp: nth_list_update)
qed

theorem type_create_struct_layout_witness:
  "\<exists>types' s. type_create_struct [fresh_type TYPE_INT8 None, fresh_type TYPE_INT64 None] (Some ''S'')
       (Some [''a'', ''b'']) (Some [0, 1]) 2 = Some (types', Some s) \<and>
     8 dvd ty_field_offsets (types' ! s) ! 1 \<and> ty_field_offsets (types' ! s) ! 1 + 8 \<le> ty_size (types' ! s)"
proof -
  let ?t = "[fresh_type TYPE_INT8 None, fresh_type TYPE_INT64 None]" and ?fs = "[0, 1] :: nat list"
  have "fields_ok ?t ?fs" "?fs \<noteq> []"
    "layout_bound ?t ?fs + Max (insert 1 ((\<lambda>r. ty_alignment (?t ! r)) ` set ?fs)) < 2 ^ 64"
    by (simp_all add: fields_ok_def fresh_type_def default_size_def layout_bound_def)
  from type_create_struct_layout [OF this, of "''S''" "[''a'', ''b'']"]
  obtain types' s where "type_create_struct ?t (Some ''S'') (Some [''a'', ''b'']) (Some ?fs) (length ?fs) = Some (types', Some s)"
    and *: "\<forall>i < length ?fs. ty_alignment (?t ! (?fs ! i)) dvd ty_field_offsets (types' ! s) ! i \<and>
        ty_alignment (?t ! (?fs ! i)) \<le> ty_alignment (types' ! s) \<and>
        ty_field_offsets (types' ! s) ! i + ty_size (?t ! (?fs ! i)) \<le> ty_size (types' ! s) \<and>
        (\<forall>j < length ?fs. i < j \<longrightarrow>
           ty_field_offsets (types' ! s) ! i + ty_size (?t ! (?fs ! i)) \<le> ty_field_offsets (types' ! s) ! j)"
    by blast
  moreover from * [rule_format, of 1] have "8 dvd ty_field_offsets (types' ! s) ! 1"
      "ty_field_offsets (types' ! s) ! 1 + 8 \<le> ty_size (types' ! s)"
    by (simp_all add: fresh_type_def default_size_def)
  ultimately show ?thesis by (auto simp: numeral_2_eq_2)
qed

section \<open>Compatibility is equality of shapes\<close>

text \<open>What compatibility looks at: the tree of pointers, arrays and function types over leaves, structs
  counting by name and every other kind by its kind alone.\<close>

datatype shape = NullShape | KindShape TypeKind | StructShape "string option" | PointerShape shape
  | ArrayShape nat shape | FunctionShape shape "shape list"

fun shape_within :: "nat \<Rightarrow> type_store \<Rightarrow> type_ref option \<Rightarrow> shape" where
  "shape_within fuel types None = NullShape"
| "shape_within 0 types (Some r) = NullShape"
| "shape_within (Suc fuel) types (Some r) =
     (let t = types ! r
      in case ty_kind t of
           TYPE_FUNCTION_POINTER \<Rightarrow> FunctionShape (shape_within fuel types (ty_fn_return_type t))
             (map (shape_within fuel types) (ty_fn_param_types t))
         | TYPE_ARRAY \<Rightarrow> ArrayShape (ty_array_size t) (shape_within fuel types (ty_base_type t))
         | TYPE_POINTER \<Rightarrow> PointerShape (shape_within fuel types (ty_base_type t))
         | TYPE_STRUCT \<Rightarrow> StructShape (ty_name t)
         | k \<Rightarrow> KindShape k)"

definition type_shape :: "type_store \<Rightarrow> type_ref option \<Rightarrow> shape" where
  "type_shape types r = shape_within (length types) types r"

text \<open>A store in which a type is built from types created before it.\<close>

definition refers_below :: "nat \<Rightarrow> Type \<Rightarrow> bool" where
  "refers_below n t \<longleftrightarrow> length (ty_fn_param_types t) = ty_fn_param_count t \<and>
     (\<forall>r. Some r \<in> insert (ty_base_type t) (insert (ty_fn_return_type t) (set (ty_fn_param_types t))) \<longrightarrow> r < n)"

definition store_ok :: "type_store \<Rightarrow> bool" where
  "store_ok types \<longleftrightarrow> (\<forall>i < length types. refers_below i (types ! i))"

definition ref_below :: "nat \<Rightarrow> type_ref option \<Rightarrow> bool" where
  "ref_below n r \<longleftrightarrow> (\<forall>x. r = Some x \<longrightarrow> x < n)"

lemma compatible_lists_shape:
  assumes "\<And>x y. x \<in> set ls \<Longrightarrow> y \<in> set rs \<Longrightarrow> compatible_within fuel types x y = Some (f x = f y)"
    and "length ls = length rs"
  shows "compatible_lists fuel types ls rs = Some (map f ls = map f rs)"
  using assms(2,1)
proof (induction ls rs rule: list_induct2)
  case (Cons l ls r rs)
  then show ?case using Cons.prems [of l r] by (cases "f l = f r") auto
qed simp

lemma compatible_shape:
  assumes "store_ok types"
  shows "ref_below fuel l \<Longrightarrow> ref_below fuel r \<Longrightarrow> ref_below (length types) l \<Longrightarrow> ref_below (length types) r \<Longrightarrow>
      compatible_within fuel types l r = Some (shape_within fuel types l = shape_within fuel types r)"
proof (induction fuel arbitrary: l r)
  case 0
  then show ?case by (cases l; cases r) (simp_all add: ref_below_def)
next
  case (Suc fuel)
  show ?case
  proof (cases "l = r \<or> l = None \<or> r = None")
    case True
    then show ?thesis
      by (cases l; cases r) (auto simp: Let_def split: TypeKind.split)
  next
    case False
    then obtain a b where ab: "l = Some a" "r = Some b" "a \<noteq> b" by auto
    let ?a = "types ! a" and ?b = "types ! b"
    have lt: "a < length types" "b < length types" "a \<le> fuel" "b \<le> fuel"
      using Suc.prems ab by (auto simp: ref_below_def)
    note nle = lt(1,2) [folded not_le]
    from lt have rb: "refers_below a ?a" "refers_below b ?b" using assms by (auto simp: store_ok_def)
    have below: "ref_below fuel x" "ref_below (length types) x"
      if "x \<in> insert (ty_base_type t) (insert (ty_fn_return_type t) (set (ty_fn_param_types t)))"
        and "t = ?a \<or> t = ?b" for x t
      using that rb lt unfolding refers_below_def ref_below_def by (fastforce intro: less_trans)+
    note IH = Suc.IH [OF below(1) below(1) below(2) below(2)]
    have base: "compatible_within fuel types (ty_base_type ?a) (ty_base_type ?b) =
        Some (shape_within fuel types (ty_base_type ?a) = shape_within fuel types (ty_base_type ?b))"
      by (intro Suc.IH below(1) below(2)) auto
    have ret: "compatible_within fuel types (ty_fn_return_type ?a) (ty_fn_return_type ?b) =
        Some (shape_within fuel types (ty_fn_return_type ?a) = shape_within fuel types (ty_fn_return_type ?b))"
      by (intro Suc.IH below(1) below(2)) auto
    have params: "compatible_lists fuel types (ty_fn_param_types ?a) (ty_fn_param_types ?b) =
        Some (map (shape_within fuel types) (ty_fn_param_types ?a) = map (shape_within fuel types) (ty_fn_param_types ?b))"
      if "length (ty_fn_param_types ?a) = length (ty_fn_param_types ?b)"
      by (intro compatible_lists_shape [OF _ that] Suc.IH below(1) below(2)) auto
    have cnt: "ty_fn_param_count ?a = length (ty_fn_param_types ?a)" "ty_fn_param_count ?b = length (ty_fn_param_types ?b)"
      using rb by (auto simp: refers_below_def)
    show ?thesis
    proof (cases "ty_kind ?a = ty_kind ?b")
      case True
      note step = compatible_within.simps [of "Suc fuel" types "Some a" "Some b"]
      show ?thesis
      proof (cases "ty_kind ?b = TYPE_FUNCTION_POINTER")
        case fn: True
        show ?thesis
        proof (cases "length (ty_fn_param_types ?a) = length (ty_fn_param_types ?b)")
          case len: True
          show ?thesis
            by (simp add: step ab nle True fn cnt len ret params [OF len] Let_def del: compatible_within.simps
                split: bool.split)
        next
          case False
          then have "map f (ty_fn_param_types ?a) \<noteq> map f (ty_fn_param_types ?b)" for f :: "type_ref option \<Rightarrow> shape"
            by (metis length_map)
          with False show ?thesis
            by (simp add: step ab nle True fn cnt Let_def del: compatible_within.simps)
        qed
      next
        case False
        then show ?thesis
          by (cases "ty_kind ?b") (simp_all add: step ab nle True base Let_def del: compatible_within.simps)
      qed
    next
      case False
      then show ?thesis using ab lt by (cases "ty_kind ?a"; cases "ty_kind ?b") (simp_all add: Let_def)
    qed
  qed
qed

text \<open>(C31) Type compatibility. In a store where types are built from earlier types, the recursive test
  returns, and it accepts two types exactly when they have the same shape: so it is an equivalence,
  it ignores the fields of structs (only their names count) and the names of enums and tagged enums.\<close>

theorem types_compatible_iff_shape:
  assumes "store_ok types" and "\<forall>x. l = Some x \<longrightarrow> x < length types" and "\<forall>x. r = Some x \<longrightarrow> x < length types"
  shows "symbol_table_types_compatible types l r = Some (type_shape types l = type_shape types r)"
  unfolding symbol_table_types_compatible_def type_shape_def
  using assms by (intro compatible_shape) (auto simp: ref_below_def)

theorem types_compatible_iff_shape_witness:
  "symbol_table_types_compatible
     [fresh_type TYPE_INT8 None, (fresh_type TYPE_POINTER None)\<lparr>ty_base_type := Some 0\<rparr>] (Some 0) (Some 1) =
   Some (type_shape [fresh_type TYPE_INT8 None, (fresh_type TYPE_POINTER None)\<lparr>ty_base_type := Some 0\<rparr>] (Some 0) =
     type_shape [fresh_type TYPE_INT8 None, (fresh_type TYPE_POINTER None)\<lparr>ty_base_type := Some 0\<rparr>] (Some 1))"
  by (rule types_compatible_iff_shape) (auto simp: store_ok_def refers_below_def fresh_type_def less_Suc_eq)

end
