(* ===== verification/Open_Index.thy ===== *)
theory Open_Index
  imports Mettle_Prelude
begin

text \<open>
  Open-addressing hash indexes with linear probing over an array of named entries, as
  \<^verbatim>\<open>src/src/semantic/symbol_table.c\<close> keeps over the symbols of a scope and \<^verbatim>\<open>src/src/codegen/binary_emitter.c\<close> over
  the symbols of an object file. A bucket holds 0 or the position of an entry plus one; the number of
  buckets is a power of two. The functions take the home bucket of a name as a parameter; the locale
  \<open>bucket_hash\<close> states what they need of it, and that inserting and probing act as a scan of the array.
\<close>

section \<open>Operations\<close>

text \<open>The probe loop that all functions share: from \<open>pos\<close> on, the first bucket that is empty or
  satisfies \<open>stop\<close>. After as many steps as there are buckets the loop has seen all of them and would
  go round for ever.\<close>

fun probe :: "(nat \<Rightarrow> bool) \<Rightarrow> nat list \<Rightarrow> nat \<Rightarrow> nat \<Rightarrow> nat option" where
  "probe stop index 0 pos = None"
| "probe stop index (Suc steps) pos =
     (if index ! pos = 0 \<or> stop (index ! pos) then Some pos
      else probe stop index steps ((pos + 1) AND (length index - 1)))"

definition index_insert :: "(nat \<Rightarrow> string \<Rightarrow> nat) \<Rightarrow> nat list \<Rightarrow> nat \<Rightarrow> string \<Rightarrow> nat list option" where
  "index_insert home buckets i name =
     map_option (\<lambda>pos. buckets[pos := i + 1])
       (probe (\<lambda>_. False) buckets (length buckets) (home (length buckets) name))"

text \<open>The rebuild loop over the symbols from position \<open>i\<close> on.\<close>

fun rebuild_buckets :: "(nat \<Rightarrow> string \<Rightarrow> nat) \<Rightarrow> nat list \<Rightarrow> nat \<Rightarrow> string list \<Rightarrow> nat list option" where
  "rebuild_buckets home buckets i [] = Some buckets"
| "rebuild_buckets home buckets i (name # names) =
     (case index_insert home buckets i name of
        None \<Rightarrow> None
      | Some buckets' \<Rightarrow> rebuild_buckets home buckets' (i + 1) names)"

section \<open>Probing\<close>

lemma and_mask_nat: "(n :: nat) AND (2 ^ k - 1) = n mod 2 ^ k"
  by (simp only: take_bit_eq_mod [symmetric] take_bit_eq_mask mask_eq_exp_minus_1)

lemmas and_mask_simps [simp] = and_mask_nat and_mask_nat [unfolded One_nat_def]

lemma probe_first:
  assumes len: "length index = 2 ^ k" and pos: "pos < length index"
    and hit: "index ! ((pos + d) mod length index) = 0 \<or> stop (index ! ((pos + d) mod length index))"
    and before: "\<And>d'. d' < d \<Longrightarrow> index ! ((pos + d') mod length index) \<noteq> 0 \<and>
      \<not> stop (index ! ((pos + d') mod length index))"
    and steps: "d < steps"
  shows "probe stop index steps pos = Some ((pos + d) mod length index)"
  using pos hit before steps
proof (induction d arbitrary: pos steps)
  case 0
  then show ?case by (cases steps) auto
next
  case (Suc d)
  obtain n where n: "steps = Suc n" "d < n" using Suc.prems(4) by (cases steps) auto
  let ?next = "(pos + 1) mod length index"
  have shift: "(?next + e) mod length index = (pos + Suc e) mod length index" for e
    by (simp add: mod_simps)
  have "probe stop index n ?next = Some ((?next + d) mod length index)"
  proof (rule Suc.IH)
    show "?next < length index" using len by simp
    show "index ! ((?next + d) mod length index) = 0 \<or> stop (index ! ((?next + d) mod length index))"
      using Suc.prems(2) by (simp only: shift)
    show "index ! ((?next + d') mod length index) \<noteq> 0 \<and> \<not> stop (index ! ((?next + d') mod length index))"
      if "d' < d" for d'
    proof -
      have "Suc d' < Suc d" using that by simp
      from Suc.prems(3) [OF this] show ?thesis unfolding shift .
    qed
  qed (rule n(2))
  moreover have "\<not> (index ! pos = 0 \<or> stop (index ! pos))"
    using Suc.prems(1,3) by (metis add_0_right mod_less zero_less_Suc)
  ultimately show ?case using n(1) len shift [of d] by simp
qed

section \<open>The index invariant\<close>

text \<open>\<open>index_placed home names index D\<close>: symbol \<open>i\<close> sits \<open>D i\<close> buckets after its home bucket, with no empty bucket in
  between; nothing else is in the index; of two symbols with the same name the older is met first.\<close>

definition slot :: "(nat \<Rightarrow> string \<Rightarrow> nat) \<Rightarrow> nat list \<Rightarrow> string \<Rightarrow> nat \<Rightarrow> nat" where
  "slot home index name d = (home (length index) name + d) mod length index"

definition index_placed :: "(nat \<Rightarrow> string \<Rightarrow> nat) \<Rightarrow> string list \<Rightarrow> nat list \<Rightarrow> (nat \<Rightarrow> nat) \<Rightarrow> bool" where
  "index_placed home names index D \<longleftrightarrow>
     (\<forall>i < length names. D i < length index \<and> index ! slot home index (names ! i) (D i) = i + 1 \<and>
        (\<forall>d < D i. index ! slot home index (names ! i) d \<noteq> 0)) \<and>
     (\<forall>p < length index. index ! p \<noteq> 0 \<longrightarrow> index ! p \<le> length names \<and>
        p = slot home index (names ! (index ! p - 1)) (D (index ! p - 1))) \<and>
     (\<forall>i j. i < j \<longrightarrow> j < length names \<longrightarrow> names ! i = names ! j \<longrightarrow> D i < D j)"

definition index_ok :: "(nat \<Rightarrow> string \<Rightarrow> nat) \<Rightarrow> string list \<Rightarrow> nat list \<Rightarrow> bool" where
  "index_ok home names index \<longleftrightarrow> (\<exists>k. length index = 2 ^ k) \<and> (\<exists>D. index_placed home names index D)"

text \<open>What the index needs of the hash: a home bucket inside any power-of-two table.\<close>

locale bucket_hash =
  fixes home :: "nat \<Rightarrow> string \<Rightarrow> nat"
  assumes home_less: "home (2 ^ k) name < 2 ^ k"
begin

lemma home_bucket_less: "length index = 2 ^ k \<Longrightarrow> home (length index) name < length index"
  by (simp add: home_less)

lemma slot_less: "length index = 2 ^ k \<Longrightarrow> slot home index name d < length index"
  by (simp add: slot_def)

lemma slot_update [simp]: "slot home (index[p := e]) name d = slot home index name d"
  by (simp add: slot_def)

lemma slot_inj:
  assumes "length index = 2 ^ k" and "slot home index name d = slot home index name d'" and "d < length index" and "d' < length index"
  shows "d = d'"
proof -
  define h where "h = home (length index) name"
  define n where "n = length index"
  have eq: "(h + d) mod n = (h + d') mod n" using assms(2) by (simp add: slot_def h_def n_def)
  have "int n dvd int d - int d'"
    using eq by (metis add_diff_cancel_left mod_eq_dvd_iff of_nat_add zmod_int)
  moreover have "\<bar>int d - int d'\<bar> < int n" using assms(3,4) by (simp add: n_def)
  ultimately show ?thesis using zdvd_imp_le [of "int n" "\<bar>int d - int d'\<bar>"] by fastforce
qed

lemma index_placed_entry:
  assumes "index_placed home names index D" and "p < length index" and "index ! p \<noteq> 0"
  shows "index ! p \<le> length names" "p = slot home index (names ! (index ! p - 1)) (D (index ! p - 1))"
  using assms unfolding index_placed_def by blast+

lemma index_placed_order:
  "index_placed home names index D \<Longrightarrow> i < j \<Longrightarrow> j < length names \<Longrightarrow> names ! i = names ! j \<Longrightarrow> D i < D j"
  by (simp add: index_placed_def)

lemma index_placed_zero_slot:
  assumes "index_placed home names index D" and len: "length index = 2 ^ k" and "length names < length index"
  shows "\<exists>d < length index. index ! slot home index name d = 0"
proof (rule ccontr)
  assume none: "\<not> ?thesis"
  have nz: "index ! slot home index name d \<noteq> 0" if "d < length index" for d
    using none that by simp
  let ?f = "\<lambda>d. index ! slot home index name d"
  have inj: "inj_on ?f {..<length index}"
  proof (rule inj_onI)
    fix d e assume de: "d \<in> {..<length index}" "e \<in> {..<length index}" "?f d = ?f e"
    have own: "slot home index name x = slot home index (names ! (?f x - 1)) (D (?f x - 1))" if "x < length index" for x
      by (rule index_placed_entry(2) [OF assms(1) slot_less [OF len] nz [OF that]])
    have "slot home index name d = slot home index (names ! (?f d - 1)) (D (?f d - 1))" using de(1) by (intro own) simp
    also have "\<dots> = slot home index (names ! (?f e - 1)) (D (?f e - 1))" by (simp only: de(3))
    also have "\<dots> = slot home index name e" using de(2) by (intro own [symmetric]) simp
    finally show "d = e" using slot_inj [OF len] de by simp
  qed
  have "?f ` {..<length index} \<subseteq> {1..length names}"
    using index_placed_entry(1) [OF assms(1) slot_less [OF len]] nz by (auto simp: Suc_le_eq)
  then have "length index \<le> length names"
    using card_inj_on_le [OF inj, of "{1..length names}"] by simp
  with assms(3) show False by simp
qed

lemma index_insert_probe:
  assumes "index_ok home names index" and "length names < length index"
    and stop: "\<And>e. e \<noteq> 0 \<Longrightarrow> e \<le> length names \<Longrightarrow> \<not> stop e"
  shows "\<exists>p. probe stop index (length index) (home (length index) name) = Some p \<and> index ! p = 0 \<and>
     index_ok home (names @ [name]) (index[p := length names + 1])"
proof -
  obtain k D where k: "length index = 2 ^ k" and D: "index_placed home names index D"
    using assms(1) by (auto simp: index_ok_def)
  define d where "d = (LEAST d. index ! slot home index name d = 0)"
  obtain e where e: "e < length index" "index ! slot home index name e = 0"
    using index_placed_zero_slot [OF D k assms(2)] by blast
  have z: "index ! slot home index name d = 0" unfolding d_def by (rule LeastI [of _ e]) (rule e(2))
  have lt: "d < length index" using Least_le [of "\<lambda>d. index ! slot home index name d = 0" e] e by (simp add: d_def)
  have nz: "index ! slot home index name d' \<noteq> 0" if "d' < d" for d' using not_less_Least that unfolding d_def by blast
  define p where "p = slot home index name d"
  have p: "p < length index" unfolding p_def by (rule slot_less [OF k])
  have nstop: "\<not> stop (index ! slot home index name d')" if "d' < d" for d'
    using stop index_placed_entry(1) [OF D slot_less [OF k] nz [OF that]] nz [OF that] by blast
  have pr: "probe stop index (length index) (home (length index) name) = Some p"
    unfolding p_def slot_def using z nz nstop lt
    by (intro probe_first [OF k home_bucket_less [OF k]]) (auto simp: slot_def)
  let ?i = "index[p := length names + 1]" and ?D = "D(length names := d)" and ?n = "names @ [name]"
  have keep: "?i ! q = index ! q" if "index ! q \<noteq> 0" for q using that z by (cases "q = p") (auto simp: p_def)
  have up: "?i ! q \<noteq> 0" if "index ! q \<noteq> 0" for q using keep [OF that] that by simp
  have "index_placed home ?n ?i ?D"
    unfolding index_placed_def
  proof (intro conjI allI impI)
    fix i assume i: "i < length ?n"
    show "?D i < length ?i" using D i lt by (auto simp: index_placed_def)
    show "?i ! slot home ?i (?n ! i) (?D i) = i + 1"
    proof (cases "i = length names")
      case False
      then have "index ! slot home index (names ! i) (D i) = i + 1" using D i by (simp add: index_placed_def)
      with keep [of "slot home index (names ! i) (D i)"] False i show ?thesis by (simp add: nth_append)
    qed (use p in \<open>simp add: p_def\<close>)
    show "?i ! slot home ?i (?n ! i) d' \<noteq> 0" if "d' < ?D i" for d'
      using D i that nz up by (auto simp: index_placed_def nth_append less_Suc_eq split: if_splits)
  next
    fix q assume q: "q < length ?i" "?i ! q \<noteq> 0"
    have "q = p \<or> index ! q \<noteq> 0 \<and> ?i ! q = index ! q" using q by (auto simp: nth_list_update split: if_splits)
    then show "?i ! q \<le> length ?n" "q = slot home ?i (?n ! (?i ! q - 1)) (?D (?i ! q - 1))"
      using D p q by (auto simp: index_placed_def nth_append p_def)
  next
    fix i j assume ij: "i < j" "j < length ?n" "?n ! i = ?n ! j"
    show "?D i < ?D j"
    proof (cases "j = length names")
      case True
      have "names ! i = name" "i < length names" using ij True by (auto simp: nth_append)
      then have "index ! slot home index name (D i) = i + 1" "\<forall>d' < D i. index ! slot home index name d' \<noteq> 0"
        using D by (auto simp: index_placed_def)
      then have "D i \<noteq> d" "\<not> d < D i" using z by auto
      then show ?thesis using True ij(1) by simp
    next
      case False
      then show ?thesis using D ij by (auto simp: index_placed_def nth_append)
    qed
  qed
  then have "index_ok home ?n ?i" using k by (auto simp: index_ok_def)
  then show ?thesis using pr z by (auto simp: p_def)
qed

lemma index_insert_ok:
  assumes "index_ok home names index" and "length names < length index"
  shows "\<exists>index'. index_insert home index (length names) name = Some index' \<and> index_ok home (names @ [name]) index' \<and>
     length index' = length index"
  using index_insert_probe [OF assms, of "\<lambda>_. False" name] by (auto simp: index_insert_def)

lemma index_ok_empty: "index_ok home [] (replicate (2 ^ k) 0)"
  by (auto simp: index_ok_def index_placed_def)

lemma rebuild_buckets_ok:
  assumes "index_ok home done buckets" and "length done + length names \<le> length buckets"
  shows "\<exists>buckets'. rebuild_buckets home buckets (length done) names = Some buckets' \<and>
     index_ok home (done @ names) buckets' \<and> length buckets' = length buckets"
  using assms
proof (induction names arbitrary: "done" buckets)
  case (Cons name names)
  from index_insert_ok [OF Cons.prems(1), of name] Cons.prems(2)
  obtain b where b: "index_insert home buckets (length done) name = Some b" "index_ok home (done @ [name]) b"
      "length b = length buckets" by auto
  from Cons.IH [OF b(2)] b Cons.prems(2) show ?case by simp
qed simp

text \<open>The entry that a probe for a name meets: the oldest symbol of that name.\<close>

lemma probe_lookup:
  assumes "index_ok home names index" and "length names < length index" and nm: "\<And>i. i < length names \<Longrightarrow> nm i = names ! i"
  shows "\<exists>pos. probe (\<lambda>e. nm (e - 1) = name) index (length index) (home (length index) name) = Some pos \<and>
     (if index ! pos = 0 then None else Some (index ! pos - 1)) = List.find (\<lambda>i. nm i = name) [0 ..< length names]"
proof -
  obtain k D where k: "length index = 2 ^ k" and D: "index_placed home names index D"
    using assms(1) by (auto simp: index_ok_def)
  let ?stop = "\<lambda>e. nm (e - 1) = name"
  let ?hit = "\<lambda>d. index ! slot home index name d = 0 \<or> ?stop (index ! slot home index name d)"
  define d where "d = (LEAST d. ?hit d)"
  obtain z where z: "z < length index" "index ! slot home index name z = 0"
    using index_placed_zero_slot [OF D k assms(2)] by blast
  have hit: "?hit d" unfolding d_def by (rule LeastI [of _ z]) (simp add: z)
  have lt: "d < length index" using Least_le [of ?hit z] z by (simp add: d_def)
  have nohit: "\<not> ?hit d'" if "d' < d" for d' using not_less_Least that unfolding d_def by blast
  have pr: "probe ?stop index (length index) (home (length index) name) = Some (slot home index name d)"
    unfolding slot_def using hit nohit lt
    by (intro probe_first [OF k home_bucket_less [OF k]]) (auto simp: slot_def)
  have at: "index ! slot home index name (D i) = i + 1" if "i < length names" "names ! i = name" for i
    using D that by (auto simp: index_placed_def)
  have le: "d \<le> D i" if "i < length names" "names ! i = name" for i
  proof (rule ccontr)
    assume "\<not> d \<le> D i"
    with nohit [of "D i"] at [OF that] that nm show False by simp
  qed
  show ?thesis
  proof (cases "index ! slot home index name d = 0")
    case True
    have "i \<ge> length names \<or> names ! i \<noteq> name" for i
    proof (rule ccontr)
      assume "\<not> ?thesis"
      then have i: "i < length names" "names ! i = name" by auto
      have "d \<noteq> D i" using at [OF i] True by auto
      with le [OF i] have "d < D i" by simp
      then have "index ! slot home index name d \<noteq> 0" using D i by (auto simp: index_placed_def)
      then show False using True by simp
    qed
    then have "\<forall>i < length names. nm i \<noteq> name" using nm by (metis not_le)
    then have "List.find (\<lambda>i. nm i = name) [0 ..< length names] = None" by (simp add: find_None_iff)
    with pr True show ?thesis by simp
  next
    case False
    define e where "e = index ! slot home index name d"
    have e: "e \<noteq> 0" "e \<le> length names" "slot home index name d = slot home index (names ! (e - 1)) (D (e - 1))"
      using False index_placed_entry [OF D slot_less [OF k] False] by (simp_all add: e_def)
    have e1: "e - 1 < length names" using e by simp
    then have nme: "names ! (e - 1) = name" using hit False nm by (simp add: e_def)
    have "D (e - 1) < length index" using D e1 by (simp add: index_placed_def)
    then have de: "d = D (e - 1)" using slot_inj [OF k _ lt] e(3) nme by simp
    have "\<not> (j < e - 1 \<and> names ! j = name)" for j
    proof
      assume j: "j < e - 1 \<and> names ! j = name"
      then have "D j < D (e - 1)" using e1 nme by (intro index_placed_order [OF D]) simp_all
      moreover have "d \<le> D j" using j e1 by (intro le) simp_all
      ultimately show False using de by simp
    qed
    then have "List.find (\<lambda>i. nm i = name) [0 ..< length names] = Some (e - 1)"
      using e1 nme nm by (auto simp: find_Some_iff intro!: exI [of _ "e - 1"])
    with pr False show ?thesis by (simp add: e_def)
  qed
qed

lemma probe_own_entry:
  assumes "index_ok home names index" and "i < length names"
  shows "\<exists>p. probe (\<lambda>e. e = i + 1) index (length index) (home (length index) (names ! i)) = Some p \<and> index ! p \<noteq> 0"
proof -
  obtain k D where k: "length index = 2 ^ k" and D: "index_placed home names index D"
    using assms(1) by (auto simp: index_ok_def)
  let ?hit = "\<lambda>d. index ! slot home index (names ! i) d = i + 1"
  define d where "d = (LEAST d. ?hit d)"
  have own: "?hit (D i)" "D i < length index" "\<And>d. d < D i \<Longrightarrow> index ! slot home index (names ! i) d \<noteq> 0"
    using D assms(2) by (auto simp: index_placed_def)
  have hit: "?hit d" unfolding d_def by (rule LeastI [of _ "D i"]) (rule own(1))
  have le: "d \<le> D i" unfolding d_def by (rule Least_le) (rule own(1))
  have "\<not> ?hit d'" if "d' < d" for d' using not_less_Least that unfolding d_def by blast
  then have "probe (\<lambda>e. e = i + 1) index (length index) (home (length index) (names ! i)) =
      Some (slot home index (names ! i) d)"
    unfolding slot_def using hit own le
    by (intro probe_first [OF k home_bucket_less [OF k]]) (auto simp: slot_def)
  with hit show ?thesis by auto
qed

end

end
