(* ===== verification/Name_Index.thy ===== *)
theory Name_Index
  imports Types String_Intern Open_Index
begin

text \<open>
  Symbols, scopes and the hash index over a scope's symbol names
  (\<^verbatim>\<open>src/src/semantic/symbol_table.c\<close>, first part). A scope keeps its symbols in an array; from 24 symbols
  on it also keeps an open-addressing index with linear probing, rebuilt with twice the buckets when
  it fills up. The main result is that looking a name up through the index is the same as scanning
  the array for it.

  A symbol is referred to by its position in its scope's array. Symbol names are never \<open>NULL\<close>
  (\<open>symbol_create\<close> refuses that). The members of the \<open>data\<close> union are fields of their own: the code
  reads a member only after testing the kind. Whether an allocation succeeds is a parameter \<open>alloc\<close> of
  each call, a predicate on the number of bytes asked for. An outer \<open>option\<close> marks calls that may not
  return: probing a full index never ends.
\<close>

section \<open>Symbols and scopes\<close>

datatype SymbolKind = SYMBOL_VARIABLE | SYMBOL_FUNCTION | SYMBOL_STRUCT | SYMBOL_ENUM | SYMBOL_CONSTANT
  | SYMBOL_PARAMETER | SYMBOL_TAGGED_ENUM_CONSTRUCTOR

datatype ScopeType = SCOPE_GLOBAL | SCOPE_FUNCTION | SCOPE_BLOCK

record Symbol =
  sym_name :: string
  sym_kind :: SymbolKind
  sym_type :: "type_ref option"
  sym_scope :: "nat option"
  sym_is_initialized :: bool
  sym_is_forward_declaration :: bool
  sym_is_extern :: bool
  sym_link_name :: "string option"
  sym_register_id :: int
  sym_memory_offset :: int
  sym_is_in_register :: bool
  sym_is_indirect_param :: bool
  sym_parameter_names :: "string option list option"
  sym_parameter_types :: "type_ref option list option"
  sym_parameter_count :: nat
  sym_return_type :: "type_ref option"
  sym_constant_value :: int
  sym_enum_type :: "type_ref option"
  sym_tag_value :: int
  sym_payload_type :: "type_ref option"

record Scope =
  sc_type :: ScopeType
  sc_symbols :: "Symbol list"
  sc_symbol_capacity :: nat
  sc_name_index :: "nat list"

text \<open>\<open>symbol_count\<close> is the length of \<open>sc_symbols\<close>; \<open>name_index_bucket_count\<close> the length of
  \<open>sc_name_index\<close>, \<open>NULL\<close> being the empty list. A bucket holds 0 or a symbol's position plus one.\<close>

abbreviation names_of :: "Scope \<Rightarrow> string list" where
  "names_of scope \<equiv> map sym_name (sc_symbols scope)"

section \<open>The index\<close>

definition SYMBOL_NAME_INDEX_MIN_SYMBOLS :: nat where
  "SYMBOL_NAME_INDEX_MIN_SYMBOLS = 24"

definition name_bucket :: "nat \<Rightarrow> string \<Rightarrow> nat" where
  "name_bucket n_buckets name = unat (mettle_fnv1a_hash name) AND (n_buckets - 1)"

definition scope_name_index_rebuild :: "(nat \<Rightarrow> bool) \<Rightarrow> Scope \<Rightarrow> nat \<Rightarrow> (bool \<times> Scope) option" where
  "scope_name_index_rebuild alloc scope n_buckets =
     (if \<not> alloc (n_buckets * 8) then Some (False, scope)
      else map_option (\<lambda>buckets. (True, scope\<lparr>sc_name_index := buckets\<rparr>))
             (rebuild_buckets name_bucket (replicate n_buckets 0) 0 (names_of scope)))"

definition index_must_grow :: "nat \<Rightarrow> nat \<Rightarrow> bool" where
  "index_must_grow symbol_count n_buckets \<longleftrightarrow>
     n_buckets = 0 \<or> (symbol_count + 1) * 10 \<ge> n_buckets * 7"

definition scope_name_index_ensure :: "(nat \<Rightarrow> bool) \<Rightarrow> Scope \<Rightarrow> (bool \<times> Scope) option" where
  "scope_name_index_ensure alloc scope =
     (let n_buckets = length (sc_name_index scope); symbol_count = length (sc_symbols scope)
      in if symbol_count < SYMBOL_NAME_INDEX_MIN_SYMBOLS then Some (False, scope)
         else if index_must_grow symbol_count n_buckets
         then scope_name_index_rebuild alloc scope (if n_buckets = 0 then 64 else n_buckets * 2)
         else Some (True, scope))"

definition scope_register_appended_symbol :: "(nat \<Rightarrow> bool) \<Rightarrow> Scope \<Rightarrow> nat \<Rightarrow> Scope option" where
  "scope_register_appended_symbol alloc scope new_index =
     (case scope_name_index_ensure alloc scope of
        None \<Rightarrow> None
      | Some (ok, scope) \<Rightarrow>
          let index = sc_name_index scope; n_buckets = length index
          in if \<not> ok \<or> n_buckets = 0 then Some scope
             else case probe (\<lambda>e. e = new_index + 1) index n_buckets
                         (name_bucket n_buckets (sym_name (sc_symbols scope ! new_index))) of
                    None \<Rightarrow> None
                  | Some pos \<Rightarrow>
                      Some (if index ! pos \<noteq> 0 then scope
                            else scope\<lparr>sc_name_index := index[pos := new_index + 1]\<rparr>))"

definition scope_lookup_symbol :: "Scope \<Rightarrow> string \<Rightarrow> nat option option" where
  "scope_lookup_symbol scope name =
     (let index = sc_name_index scope; n_buckets = length index
      in if n_buckets > 0
         then map_option (\<lambda>pos. if index ! pos = 0 then None else Some (index ! pos - 1))
                (probe (\<lambda>e. sym_name (sc_symbols scope ! (e - 1)) = name) index n_buckets
                   (name_bucket n_buckets name))
         else Some (List.find (\<lambda>i. sym_name (sc_symbols scope ! i) = name) [0 ..< length (sc_symbols scope)]))"

interpretation scope_index: bucket_hash name_bucket
  by unfold_locales (simp add: name_bucket_def and_mask_nat)

section \<open>Scopes\<close>

text \<open>A scope is indexed properly when it has no index, or an index with room for its symbols, which
  stays below the load at which it would have grown.\<close>

definition scope_ok :: "Scope \<Rightarrow> bool" where
  "scope_ok scope \<longleftrightarrow>
     (if sc_name_index scope = [] then length (sc_symbols scope) < SYMBOL_NAME_INDEX_MIN_SYMBOLS
      else index_ok name_bucket (names_of scope) (sc_name_index scope) \<and>
           SYMBOL_NAME_INDEX_MIN_SYMBOLS \<le> length (sc_symbols scope) \<and>
           (length (sc_symbols scope) + 1) * 10 < length (sc_name_index scope) * 7)"

lemma scope_ok_lookup:
  assumes "scope_ok scope"
  shows "scope_lookup_symbol scope name =
     Some (List.find (\<lambda>i. sym_name (sc_symbols scope ! i) = name) [0 ..< length (sc_symbols scope)])"
proof (cases "sc_name_index scope = []")
  case False
  let ?f = "\<lambda>i. sym_name (sc_symbols scope ! i)" and ?n = "length (sc_symbols scope)"
  have ok: "index_ok name_bucket (names_of scope) (sc_name_index scope)" "?n < length (sc_name_index scope)"
    using assms False by (auto simp: scope_ok_def)
  have "\<And>i. i < length (names_of scope) \<Longrightarrow> ?f i = names_of scope ! i" by simp
  from scope_index.probe_lookup [OF ok(1) _ this, of name] ok(2) False show ?thesis
    by (auto simp: scope_lookup_symbol_def Let_def)
qed (simp add: scope_lookup_symbol_def)

lemma scope_name_index_rebuild_ok:
  assumes "alloc (2 ^ k * 8)" and "length (sc_symbols scope) \<le> 2 ^ k"
  shows "\<exists>index. scope_name_index_rebuild alloc scope (2 ^ k) = Some (True, scope\<lparr>sc_name_index := index\<rparr>) \<and>
     index_ok name_bucket (names_of scope) index \<and> length index = 2 ^ k"
  using scope_index.rebuild_buckets_ok [OF scope_index.index_ok_empty, of "names_of scope" k] assms
  by (auto simp: scope_name_index_rebuild_def)

definition scope_append :: "Scope \<Rightarrow> Symbol \<Rightarrow> Scope" where
  "scope_append scope symbol = scope\<lparr>sc_symbols := sc_symbols scope @ [symbol]\<rparr>"

lemma register_after_rebuild:
  assumes "scope_name_index_ensure alloc scope = Some (True, scope\<lparr>sc_name_index := index\<rparr>)"
    and "index_ok name_bucket (names_of scope) index" and "i < length (sc_symbols scope)" and "index \<noteq> []"
  shows "scope_register_appended_symbol alloc scope i = Some (scope\<lparr>sc_name_index := index\<rparr>)"
  using scope_index.probe_own_entry [OF assms(2), of i] assms by (auto simp: scope_register_appended_symbol_def Let_def)

lemma scope_register_ok:
  assumes ok: "scope_ok scope" and alloc: "\<And>n. alloc n"
  shows "\<exists>index. scope_register_appended_symbol alloc (scope_append scope symbol) (length (sc_symbols scope)) =
       Some ((scope_append scope symbol)\<lparr>sc_name_index := index\<rparr>) \<and>
     scope_ok ((scope_append scope symbol)\<lparr>sc_name_index := index\<rparr>)"
proof -
  let ?s = "scope_append scope symbol" and ?n = "length (sc_symbols scope)" and ?N = "length (sc_name_index scope)"
  have len: "length (sc_symbols ?s) = ?n + 1" "sc_name_index ?s = sc_name_index scope"
      "names_of ?s = names_of scope @ [sym_name symbol]" "sc_symbols ?s ! ?n = symbol"
    by (simp_all add: scope_append_def)
  consider (small) "?n + 1 < 24" "sc_name_index scope = []"
    | (grow) "?n + 1 \<ge> 24" "index_must_grow (?n + 1) ?N"
    | (insert) "?n + 1 \<ge> 24" "\<not> index_must_grow (?n + 1) ?N" "sc_name_index scope \<noteq> []"
    using ok by (fastforce simp: scope_ok_def SYMBOL_NAME_INDEX_MIN_SYMBOLS_def index_must_grow_def split: if_splits)
  then show ?thesis
  proof cases
    case small
    have "scope_register_appended_symbol alloc ?s ?n = Some ?s"
      using small by (simp add: scope_register_appended_symbol_def scope_name_index_ensure_def len
          SYMBOL_NAME_INDEX_MIN_SYMBOLS_def)
    moreover have "?s = ?s\<lparr>sc_name_index := []\<rparr>" using small by (simp add: scope_append_def)
    ultimately show ?thesis using small len(1,2)
      by (intro exI [of _ "[]"]) (simp add: scope_ok_def SYMBOL_NAME_INDEX_MIN_SYMBOLS_def)
  next
    case grow
    define M where "M = (if ?N = 0 then 64 else ?N * 2)"
    have "?N = 0 \<Longrightarrow> ?n + 1 = 24" "?N \<noteq> 0 \<Longrightarrow> (?n + 1) * 10 < ?N * 7" "?N \<noteq> 0 \<Longrightarrow> 24 \<le> ?n"
      using ok grow by (auto simp: scope_ok_def SYMBOL_NAME_INDEX_MIN_SYMBOLS_def)
    then have M: "?n + 1 \<le> M" "(?n + 2) * 10 < M * 7" unfolding M_def by (simp_all split: if_splits) linarith+
    obtain k where k: "M = 2 ^ k"
    proof (cases "?N = 0")
      case True
      then have "M = 2 ^ 6" by (simp add: M_def)
      then show thesis by (rule that)
    next
      case False
      then obtain j where "?N = 2 ^ j" using ok by (auto simp: scope_ok_def index_ok_def split: if_splits)
      then have "M = 2 ^ Suc j" using False by (simp add: M_def)
      then show thesis by (rule that)
    qed
    obtain index where r: "scope_name_index_rebuild alloc ?s M = Some (True, ?s\<lparr>sc_name_index := index\<rparr>)"
        "index_ok name_bucket (names_of ?s) index" "length index = M"
      using scope_name_index_rebuild_ok [of alloc k ?s, OF alloc] M(1) k len(1) by auto
    have "scope_name_index_ensure alloc ?s = Some (True, ?s\<lparr>sc_name_index := index\<rparr>)"
      using grow r(1) by (simp add: scope_name_index_ensure_def len SYMBOL_NAME_INDEX_MIN_SYMBOLS_def Let_def M_def)
    then have "scope_register_appended_symbol alloc ?s ?n = Some (?s\<lparr>sc_name_index := index\<rparr>)"
      using r(2,3) k len(1) by (intro register_after_rebuild) auto
    moreover have "scope_ok (?s\<lparr>sc_name_index := index\<rparr>)"
      using r(2,3) M(2) grow(1) len(1) k by (auto simp: scope_ok_def SYMBOL_NAME_INDEX_MIN_SYMBOLS_def)
    ultimately show ?thesis by blast
  next
    case insert
    have iok: "index_ok name_bucket (names_of scope) (sc_name_index scope)" "length (names_of scope) < ?N"
      using ok insert by (auto simp: scope_ok_def)
    obtain p where p: "probe (\<lambda>e. e = ?n + 1) (sc_name_index scope) ?N (name_bucket ?N (sym_name symbol)) = Some p"
        "sc_name_index scope ! p = 0" "index_ok name_bucket (names_of scope @ [sym_name symbol]) ((sc_name_index scope)[p := ?n + 1])"
      using scope_index.index_insert_probe [OF iok, of "\<lambda>e. e = ?n + 1" "sym_name symbol"] by auto
    have "scope_register_appended_symbol alloc ?s ?n = Some (?s\<lparr>sc_name_index := (sc_name_index scope)[p := ?n + 1]\<rparr>)"
      using insert p(1,2)
      by (simp add: scope_register_appended_symbol_def scope_name_index_ensure_def len
          SYMBOL_NAME_INDEX_MIN_SYMBOLS_def Let_def)
    moreover have "scope_ok (?s\<lparr>sc_name_index := (sc_name_index scope)[p := ?n + 1]\<rparr>)"
      using insert p(3) len by (auto simp: scope_ok_def SYMBOL_NAME_INDEX_MIN_SYMBOLS_def index_must_grow_def)
    ultimately show ?thesis by blast
  qed
qed

text \<open>Symbols appended one after another, each followed by its registration.\<close>

fun append_all :: "(nat \<Rightarrow> bool) \<Rightarrow> Scope \<Rightarrow> Symbol list \<Rightarrow> Scope option" where
  "append_all alloc scope [] = Some scope"
| "append_all alloc scope (symbol # rest) =
     (case scope_register_appended_symbol alloc (scope_append scope symbol) (length (sc_symbols scope)) of
        None \<Rightarrow> None
      | Some scope' \<Rightarrow> append_all alloc scope' rest)"

lemma append_all_ok:
  assumes "scope_ok scope" and "\<And>n. alloc n"
  shows "\<exists>scope'. append_all alloc scope symbols = Some scope' \<and> scope_ok scope' \<and>
     sc_symbols scope' = sc_symbols scope @ symbols"
  using assms(1)
proof (induction symbols arbitrary: scope)
  case (Cons symbol rest)
  from scope_register_ok [OF Cons.prems, of alloc symbol, OF assms(2)]
  obtain index where "scope_register_appended_symbol alloc (scope_append scope symbol) (length (sc_symbols scope)) =
       Some ((scope_append scope symbol)\<lparr>sc_name_index := index\<rparr>)"
     "scope_ok ((scope_append scope symbol)\<lparr>sc_name_index := index\<rparr>)" by blast
  with Cons.IH [OF this(2)] show ?case by (simp add: scope_append_def)
qed simp

definition empty_scope :: "ScopeType \<Rightarrow> Scope" where
  "empty_scope ty = \<lparr>sc_type = ty, sc_symbols = [], sc_symbol_capacity = 0, sc_name_index = []\<rparr>"

lemma scope_ok_empty: "scope_ok (empty_scope ty)"
  by (simp add: scope_ok_def empty_scope_def SYMBOL_NAME_INDEX_MIN_SYMBOLS_def)

text \<open>(C21) The name index is transparent. When allocation succeeds, appending any symbols to an empty scope,
  however many, always returns, and so does every lookup afterwards: it gives the first symbol with
  that name, exactly as a linear scan of the scope would, across all rebuilds of the index and also
  when names are repeated.\<close>

theorem scope_lookup_is_scan:
  assumes "\<forall>n. alloc n"
  shows "\<exists>scope. append_all alloc (empty_scope ty) symbols = Some scope \<and> sc_symbols scope = symbols \<and>
     (\<forall>name. scope_lookup_symbol scope name =
        Some (List.find (\<lambda>i. sym_name (symbols ! i) = name) [0 ..< length symbols]))"
proof -
  from append_all_ok [OF scope_ok_empty, of alloc ty symbols] assms
  obtain scope where s: "append_all alloc (empty_scope ty) symbols = Some scope" "scope_ok scope" "sc_symbols scope = symbols"
    by (auto simp: empty_scope_def)
  with scope_ok_lookup [OF s(2)] show ?thesis by auto
qed

theorem scope_lookup_is_scan_witness:
  "\<exists>scope. append_all (\<lambda>_. True) (empty_scope SCOPE_BLOCK) [] = Some scope \<and> sc_symbols scope = [] \<and>
     (\<forall>name. scope_lookup_symbol scope name = Some None)"
  using scope_lookup_is_scan [of "\<lambda>_. True" SCOPE_BLOCK "[]"] by simp

text \<open>(C33) Failed growth hides a symbol. When the index of a scope has to grow for a new symbol and the
  allocation of the larger index fails, the old index stays in use: the symbol is in the scope, but a
  lookup of its name finds nothing.\<close>

theorem failed_growth_hides_symbol:
  assumes "scope_ok scope" and "sc_name_index scope \<noteq> []"
    and "index_must_grow (length (sc_symbols scope) + 1) (length (sc_name_index scope))"
    and "\<not> alloc (length (sc_name_index scope) * 2 * 8)"
    and "sym_name symbol \<notin> set (names_of scope)"
  shows "\<exists>scope'. scope_register_appended_symbol alloc (scope_append scope symbol) (length (sc_symbols scope)) = Some scope' \<and>
     last (sc_symbols scope') = symbol \<and> scope_lookup_symbol scope' (sym_name symbol) = Some None"
proof -
  let ?s = "scope_append scope symbol" and ?f = "\<lambda>i. sym_name (sc_symbols (scope_append scope symbol) ! i)"
  have ok: "index_ok name_bucket (names_of scope) (sc_name_index scope)" "length (names_of scope) < length (sc_name_index scope)"
      "24 \<le> length (sc_symbols scope)"
    using assms(1,2) by (auto simp: scope_ok_def SYMBOL_NAME_INDEX_MIN_SYMBOLS_def)
  have "scope_register_appended_symbol alloc ?s (length (sc_symbols scope)) = Some ?s"
    using assms(2-4) ok(3)
    by (simp add: scope_register_appended_symbol_def scope_name_index_ensure_def scope_name_index_rebuild_def
        scope_append_def SYMBOL_NAME_INDEX_MIN_SYMBOLS_def Let_def)
  moreover have nm: "\<And>i. i < length (names_of scope) \<Longrightarrow> ?f i = names_of scope ! i"
    by (simp add: scope_append_def nth_append)
  moreover have "names_of scope ! i \<noteq> sym_name symbol" if "i < length (names_of scope)" for i
    using assms(5) that by (metis nth_mem)
  then have "List.find (\<lambda>i. ?f i = sym_name symbol) [0 ..< length (names_of scope)] = None"
    using assms(5) nm by (auto simp: find_None_iff)
  then have "scope_lookup_symbol ?s (sym_name symbol) = Some None"
    using scope_index.probe_lookup [OF ok(1,2) nm, of "sym_name symbol"] assms(2)
    by (auto simp: scope_lookup_symbol_def scope_append_def Let_def)
  ultimately show ?thesis by (auto simp: scope_append_def)
qed

definition plain_symbol :: "string \<Rightarrow> Symbol" where
  "plain_symbol name =
     \<lparr>sym_name = name, sym_kind = SYMBOL_VARIABLE, sym_type = None, sym_scope = None, sym_is_initialized = False,
      sym_is_forward_declaration = False, sym_is_extern = False, sym_link_name = None, sym_register_id = -1,
      sym_memory_offset = 0, sym_is_in_register = False, sym_is_indirect_param = False,
      sym_parameter_names = None, sym_parameter_types = None, sym_parameter_count = 0, sym_return_type = None,
      sym_constant_value = 0, sym_enum_type = None, sym_tag_value = 0, sym_payload_type = None\<rparr>"

theorem failed_growth_hides_symbol_witness:
  "\<exists>scope scope'. scope_register_appended_symbol (\<lambda>_. False) (scope_append scope (plain_symbol ''b''))
       (length (sc_symbols scope)) = Some scope' \<and>
     last (sc_symbols scope') = plain_symbol ''b'' \<and> scope_lookup_symbol scope' ''b'' = Some None"
proof -
  let ?e = "(empty_scope SCOPE_GLOBAL)\<lparr>sc_symbols := replicate 43 (plain_symbol ''a'')\<rparr>"
  obtain index where i: "index_ok name_bucket (names_of ?e) index" "length index = 64"
    using scope_name_index_rebuild_ok [of "\<lambda>_. True" 6 ?e] by auto
  let ?s = "?e\<lparr>sc_name_index := index\<rparr>"
  have nonempty: "index \<noteq> []" using i(2) by auto
  have "scope_ok ?s" using i nonempty by (simp add: scope_ok_def SYMBOL_NAME_INDEX_MIN_SYMBOLS_def)
  moreover have "sc_name_index ?s \<noteq> []" "index_must_grow (length (sc_symbols ?s) + 1) (length (sc_name_index ?s))"
      "sym_name (plain_symbol ''b'') \<notin> set (names_of ?s)"
    using nonempty i(2) by (auto simp: index_must_grow_def plain_symbol_def)
  moreover have "sym_name (plain_symbol ''b'') = ''b''" by (simp add: plain_symbol_def)
  ultimately show ?thesis
    using failed_growth_hides_symbol [of ?s "\<lambda>_. False" "plain_symbol ''b''"] by metis
qed

end
