(* ===== verification/Symbol_Table.thy ===== *)
theory Symbol_Table
  imports Name_Index
begin

text \<open>
  The symbol table of \<^verbatim>\<open>src/src/semantic/symbol_table.c\<close>: declaration, forward declaration and its
  resolution, insertion, lookup, and nested scopes. The chain of \<open>parent\<close> pointers from
  \<open>current_scope\<close> to \<open>global_scope\<close> is a list, innermost scope first, global scope last. Operations return
  the new table; a result \<open>None\<close> is a call that does not return.

  The interface that the rest of the compiler relies on is the locale \<open>scope_chain\<close>: a stack of maps
  from names to symbols in which operations touch the innermost map only.
\<close>

section \<open>State\<close>

record SymbolTable =
  st_scopes :: "Scope list"

abbreviation current_scope :: "SymbolTable \<Rightarrow> Scope" where
  "current_scope table \<equiv> hd (st_scopes table)"

definition set_current :: "SymbolTable \<Rightarrow> Scope \<Rightarrow> SymbolTable" where
  "set_current table scope = table\<lparr>st_scopes := scope # tl (st_scopes table)\<rparr>"

definition symbol_table_create :: SymbolTable where
  "symbol_table_create = \<lparr>st_scopes = [empty_scope SCOPE_GLOBAL]\<rparr>"

definition symbol_table_enter_scope :: "SymbolTable \<Rightarrow> ScopeType \<Rightarrow> SymbolTable" where
  "symbol_table_enter_scope table ty = table\<lparr>st_scopes := empty_scope ty # st_scopes table\<rparr>"

definition symbol_table_exit_scope :: "SymbolTable \<Rightarrow> SymbolTable" where
  "symbol_table_exit_scope table =
     (if tl (st_scopes table) = [] then table else table\<lparr>st_scopes := tl (st_scopes table)\<rparr>)"

definition symbol_create :: "string option \<Rightarrow> SymbolKind \<Rightarrow> type_ref option \<Rightarrow> Symbol option" where
  "symbol_create name kind type =
     map_option (\<lambda>nm.
       \<lparr>sym_name = nm, sym_kind = kind, sym_type = type, sym_scope = None, sym_is_initialized = False,
        sym_is_forward_declaration = False, sym_is_extern = False, sym_link_name = None,
        sym_register_id = -1, sym_memory_offset = 0, sym_is_in_register = False,
        sym_is_indirect_param = False, sym_parameter_names = None, sym_parameter_types = None,
        sym_parameter_count = 0, sym_return_type = None, sym_constant_value = 0, sym_enum_type = None,
        sym_tag_value = 0, sym_payload_type = None\<rparr>) name"

section \<open>Matching a definition with its forward declaration\<close>

definition symbol_table_effective_link_name :: "Symbol \<Rightarrow> string" where
  "symbol_table_effective_link_name symbol =
     (case sym_link_name symbol of
        Some l \<Rightarrow> if sym_is_extern symbol \<and> l \<noteq> [] then l else sym_name symbol
      | None \<Rightarrow> sym_name symbol)"

definition symbol_table_link_names_match :: "Symbol \<Rightarrow> Symbol \<Rightarrow> bool" where
  "symbol_table_link_names_match lhs rhs \<longleftrightarrow>
     symbol_table_effective_link_name lhs = symbol_table_effective_link_name rhs"

definition parameter_type_list :: "Symbol \<Rightarrow> type_ref option list" where
  "parameter_type_list symbol =
     map (\<lambda>i. case sym_parameter_types symbol of Some ts \<Rightarrow> ts ! i | None \<Rightarrow> None)
       [0 ..< sym_parameter_count symbol]"

definition symbol_return_type :: "Symbol \<Rightarrow> type_ref option" where
  "symbol_return_type symbol =
     (if sym_return_type symbol \<noteq> None then sym_return_type symbol else sym_type symbol)"

definition symbol_table_function_signatures_match :: "type_store \<Rightarrow> Symbol \<Rightarrow> Symbol \<Rightarrow> bool option" where
  "symbol_table_function_signatures_match types decl defn =
     (if sym_kind decl \<noteq> SYMBOL_FUNCTION \<or> sym_kind defn \<noteq> SYMBOL_FUNCTION then Some False
      else if sym_parameter_count decl \<noteq> sym_parameter_count defn then Some False
      else if sym_is_extern decl \<noteq> sym_is_extern defn then Some False
      else if (sym_is_extern decl \<or> sym_is_extern defn) \<and> \<not> symbol_table_link_names_match decl defn
      then Some False
      else case symbol_table_types_compatible types (symbol_return_type decl) (symbol_return_type defn) of
             None \<Rightarrow> None
           | Some False \<Rightarrow> Some False
           | Some True \<Rightarrow>
               compatible_lists (length types) types (parameter_type_list decl) (parameter_type_list defn))"

section \<open>Lookup\<close>

definition symbol_table_lookup_current_scope :: "SymbolTable \<Rightarrow> string \<Rightarrow> nat option option" where
  "symbol_table_lookup_current_scope table name = scope_lookup_symbol (current_scope table) name"

fun lookup_chain :: "Scope list \<Rightarrow> string \<Rightarrow> Symbol option option" where
  "lookup_chain [] name = Some None"
| "lookup_chain (scope # rest) name =
     (case scope_lookup_symbol scope name of
        None \<Rightarrow> None
      | Some (Some i) \<Rightarrow> Some (Some (sc_symbols scope ! i))
      | Some None \<Rightarrow> lookup_chain rest name)"

definition symbol_table_lookup :: "SymbolTable \<Rightarrow> string \<Rightarrow> Symbol option option" where
  "symbol_table_lookup table name = lookup_chain (st_scopes table) name"

section \<open>Declaration\<close>

text \<open>The part of \<open>symbol_table_validate_declaration\<close> that does not look at the table.\<close>

definition declaration_well_formed :: "Symbol \<Rightarrow> bool" where
  "declaration_well_formed symbol \<longleftrightarrow>
     sym_name symbol \<noteq> [] \<and> sym_type symbol \<noteq> None \<and>
     (sym_kind symbol = SYMBOL_FUNCTION \<and> sym_parameter_count symbol > 0 \<longrightarrow>
        (case (sym_parameter_names symbol, sym_parameter_types symbol) of
           (Some names, Some ptypes) \<Rightarrow>
             (\<forall>i \<in> {0 ..< sym_parameter_count symbol}. names ! i \<noteq> None \<and> ptypes ! i \<noteq> None)
         | _ \<Rightarrow> False))"

definition symbol_table_validate_declaration :: "type_store \<Rightarrow> SymbolTable \<Rightarrow> Symbol \<Rightarrow> bool option" where
  "symbol_table_validate_declaration types table symbol =
     (if \<not> declaration_well_formed symbol then Some False
      else case symbol_table_lookup_current_scope table (sym_name symbol) of
             None \<Rightarrow> None
           | Some None \<Rightarrow> Some True
           | Some (Some i) \<Rightarrow>
               let existing = sc_symbols (current_scope table) ! i
               in if sym_kind symbol = SYMBOL_FUNCTION \<and> sym_kind existing = SYMBOL_FUNCTION \<and>
                     sym_is_forward_declaration existing
                  then symbol_table_function_signatures_match types existing symbol
                  else Some False)"

text \<open>The end of \<open>symbol_table_declare\<close>, which \<open>symbol_table_insert\<close> repeats: room in the array, then the
  symbol and its registration in the name index.\<close>

definition add_symbol :: "(nat \<Rightarrow> bool) \<Rightarrow> SymbolTable \<Rightarrow> Symbol \<Rightarrow> (bool \<times> SymbolTable) option" where
  "add_symbol alloc table symbol =
     (let scope = current_scope table;
          count = length (sc_symbols scope);
          new_capacity = (if sc_symbol_capacity scope = 0 then 8 else sc_symbol_capacity scope * 2)
      in if count \<ge> sc_symbol_capacity scope \<and> \<not> alloc (new_capacity * 8) then Some (False, table)
         else let scope = (if count \<ge> sc_symbol_capacity scope
                           then scope\<lparr>sc_symbol_capacity := new_capacity\<rparr> else scope);
                  symbol = symbol\<lparr>sym_scope := Some (length (st_scopes table) - 1)\<rparr>
              in map_option (\<lambda>scope. (True, set_current table scope))
                   (scope_register_appended_symbol alloc (scope_append scope symbol) count))"

definition mark_defined :: "SymbolTable \<Rightarrow> nat \<Rightarrow> SymbolTable" where
  "mark_defined table i =
     (let scope = current_scope table
      in set_current table (scope\<lparr>sc_symbols := (sc_symbols scope)[i := (sc_symbols scope ! i)
           \<lparr>sym_is_forward_declaration := False, sym_is_initialized := True\<rparr>]\<rparr>))"

definition symbol_table_declare ::
  "type_store \<Rightarrow> (nat \<Rightarrow> bool) \<Rightarrow> SymbolTable \<Rightarrow> Symbol \<Rightarrow> (bool \<times> SymbolTable) option" where
  "symbol_table_declare types alloc table symbol =
     (case symbol_table_validate_declaration types table symbol of
        None \<Rightarrow> None
      | Some False \<Rightarrow> Some (False, table)
      | Some True \<Rightarrow>
          (case scope_lookup_symbol (current_scope table) (sym_name symbol) of
             None \<Rightarrow> None
           | Some (Some i) \<Rightarrow>
               let existing = sc_symbols (current_scope table) ! i
               in if sym_kind symbol = SYMBOL_FUNCTION \<and> sym_kind existing = SYMBOL_FUNCTION \<and>
                     sym_is_forward_declaration existing
                  then (case symbol_table_function_signatures_match types existing symbol of
                          None \<Rightarrow> None
                        | Some False \<Rightarrow> Some (False, table)
                        | Some True \<Rightarrow> Some (True, mark_defined table i))
                  else Some (False, table)
           | Some None \<Rightarrow> add_symbol alloc table symbol))"

definition symbol_table_insert :: "(nat \<Rightarrow> bool) \<Rightarrow> SymbolTable \<Rightarrow> Symbol \<Rightarrow> SymbolTable option" where
  "symbol_table_insert alloc table symbol = map_option snd (add_symbol alloc table symbol)"

definition symbol_table_declare_forward ::
  "type_store \<Rightarrow> (nat \<Rightarrow> bool) \<Rightarrow> SymbolTable \<Rightarrow> Symbol \<Rightarrow> (bool \<times> SymbolTable) option" where
  "symbol_table_declare_forward types alloc table symbol =
     (if sym_kind symbol \<noteq> SYMBOL_FUNCTION then Some (False, table)
      else case symbol_table_lookup_current_scope table (sym_name symbol) of
             None \<Rightarrow> None
           | Some (Some i) \<Rightarrow>
               let existing = sc_symbols (current_scope table) ! i
               in if sym_kind existing = SYMBOL_FUNCTION \<and> sym_is_forward_declaration existing
                  then map_option (\<lambda>ok. (ok, table)) (symbol_table_function_signatures_match types existing symbol)
                  else Some (False, table)
           | Some None \<Rightarrow>
               symbol_table_declare types alloc table (symbol\<lparr>sym_is_forward_declaration := True\<rparr>))"

definition symbol_table_resolve_forward_declaration ::
  "type_store \<Rightarrow> (nat \<Rightarrow> bool) \<Rightarrow> SymbolTable \<Rightarrow> Symbol \<Rightarrow> (bool \<times> SymbolTable) option" where
  "symbol_table_resolve_forward_declaration types alloc table symbol =
     (if sym_kind symbol \<noteq> SYMBOL_FUNCTION then Some (False, table)
      else case symbol_table_lookup_current_scope table (sym_name symbol) of
             None \<Rightarrow> None
           | Some (Some i) \<Rightarrow>
               let existing = sc_symbols (current_scope table) ! i
               in if sym_kind existing = SYMBOL_FUNCTION \<and> sym_is_forward_declaration existing
                  then (case symbol_table_function_signatures_match types existing symbol of
                          None \<Rightarrow> None
                        | Some False \<Rightarrow> Some (False, table)
                        | Some True \<Rightarrow> Some (True, mark_defined table i))
                  else Some (False, table)
           | Some None \<Rightarrow>
               symbol_table_declare types alloc table
                 (symbol\<lparr>sym_is_forward_declaration := False, sym_is_initialized := True\<rparr>))"

text \<open>The operations as steps on a table.\<close>

datatype table_op = EnterScope ScopeType | ExitScope | Declare Symbol | Insert Symbol
  | DeclareForward Symbol | ResolveForward Symbol

fun table_step :: "type_store \<Rightarrow> (nat \<Rightarrow> bool) \<Rightarrow> table_op \<Rightarrow> SymbolTable \<Rightarrow> SymbolTable option" where
  "table_step types alloc (EnterScope ty) table = Some (symbol_table_enter_scope table ty)"
| "table_step types alloc ExitScope table = Some (symbol_table_exit_scope table)"
| "table_step types alloc (Declare s) table = map_option snd (symbol_table_declare types alloc table s)"
| "table_step types alloc (Insert s) table = symbol_table_insert alloc table s"
| "table_step types alloc (DeclareForward s) table = map_option snd (symbol_table_declare_forward types alloc table s)"
| "table_step types alloc (ResolveForward s) table =
     map_option snd (symbol_table_resolve_forward_declaration types alloc table s)"

section \<open>The contract: a stack of maps\<close>

definition first_binding :: "('n \<Rightarrow> 'v option) list \<Rightarrow> 'n \<Rightarrow> 'v option" where
  "first_binding ms n = (case List.find (\<lambda>m. m n \<noteq> None) ms of Some m \<Rightarrow> m n | None \<Rightarrow> None)"

lemma first_binding_Cons [simp]:
  "first_binding (m # ms) n = (case m n of Some v \<Rightarrow> Some v | None \<Rightarrow> first_binding ms n)"
  "first_binding [] n = None"
  by (auto simp: first_binding_def split: option.split)

text \<open>A state made of nested scopes. \<open>opens\<close> and \<open>closes\<close> say which operations enter and leave a scope; any
  other operation may change the innermost map only.\<close>

locale scope_chain =
  fixes envs :: "'s \<Rightarrow> ('n \<Rightarrow> 'v option) list"
    and invar :: "'s \<Rightarrow> bool"
    and find_name :: "'s \<Rightarrow> 'n \<Rightarrow> 'v option option"
    and step :: "'op \<Rightarrow> 's \<Rightarrow> 's option"
    and opens :: "'op \<Rightarrow> bool" and closes :: "'op \<Rightarrow> bool" and legal :: "'op \<Rightarrow> bool"
  assumes nonempty: "invar s \<Longrightarrow> envs s \<noteq> []"
    and lookup_first: "invar s \<Longrightarrow> find_name s n = Some (first_binding (envs s) n)"
    and step_total: "invar s \<Longrightarrow> legal op \<Longrightarrow> \<exists>s'. step op s = Some s' \<and> invar s'"
    and step_open: "invar s \<Longrightarrow> legal op \<Longrightarrow> opens op \<Longrightarrow> step op s = Some s' \<Longrightarrow> envs s' = Map.empty # envs s"
    and step_close: "invar s \<Longrightarrow> legal op \<Longrightarrow> closes op \<Longrightarrow> step op s = Some s' \<Longrightarrow>
       envs s' = (if tl (envs s) = [] then envs s else tl (envs s))"
    and step_inner: "invar s \<Longrightarrow> legal op \<Longrightarrow> \<not> opens op \<Longrightarrow> \<not> closes op \<Longrightarrow> step op s = Some s' \<Longrightarrow>
       \<exists>m. envs s' = m # tl (envs s)"
    and open_close: "\<not> (opens op \<and> closes op)"
begin

fun run :: "'op list \<Rightarrow> 's \<Rightarrow> 's option" where
  "run [] s = Some s"
| "run (op # ops) s = (case step op s of None \<Rightarrow> None | Some s' \<Rightarrow> run ops s')"

text \<open>\<open>nested d ops\<close>: started \<open>d\<close> scopes deep, the operations close every scope they open and none of the
  scopes outside.\<close>

fun nested :: "nat \<Rightarrow> 'op list \<Rightarrow> bool" where
  "nested d [] = (d = 0)"
| "nested d (op # ops) =
     (legal op \<and> (if opens op then nested (d + 1) ops
                  else if closes op then (case d of 0 \<Rightarrow> False | Suc d' \<Rightarrow> nested d' ops)
                  else nested d ops))"

lemma run_append: "run (xs @ ys) s = (case run xs s of None \<Rightarrow> None | Some s' \<Rightarrow> run ys s')"
  by (induction xs arbitrary: s) (auto split: option.split)

lemma run_nested:
  assumes "invar s" and "nested d ops" and "envs s = ms @ base" and "length ms = d + 1"
  shows "\<exists>s' m. run ops s = Some s' \<and> invar s' \<and> envs s' = m # base"
  using assms
proof (induction ops arbitrary: s d ms)
  case Nil
  then show ?case by (auto simp: length_Suc_conv)
next
  case (Cons op ops)
  have lg: "legal op" using Cons.prems(2) by simp
  obtain s' where s': "step op s = Some s'" "invar s'" using step_total [OF Cons.prems(1) lg] by blast
  obtain m ms' where ms: "ms = m # ms'" "length ms' = d" using Cons.prems(4) by (cases ms) auto
  consider (enters) "opens op" | (leaves) "closes op" "\<not> opens op" | (inner) "\<not> opens op" "\<not> closes op" by blast
  then have "\<exists>d' ms''. nested d' ops \<and> envs s' = ms'' @ base \<and> length ms'' = d' + 1"
  proof cases
    case enters
    have "nested (d + 1) ops" "envs s' = (Map.empty # ms) @ base" "length (Map.empty # ms) = (d + 1) + 1"
      using Cons.prems step_open [OF Cons.prems(1) lg enters s'(1)] enters by simp_all
    then show ?thesis by blast
  next
    case leaves
    then obtain d' where d: "d = Suc d'" "nested d' ops" using Cons.prems(2) by (cases d) auto
    then have "envs s' = ms' @ base"
      using step_close [OF Cons.prems(1) lg leaves(1) s'(1)] Cons.prems(3) ms by (cases ms') auto
    then show ?thesis using d ms by (intro exI [of _ d'] exI [of _ ms']) simp
  next
    case inner
    then obtain m' where "envs s' = m' # tl (envs s)" using step_inner [OF Cons.prems(1) lg _ _ s'(1)] by blast
    then have "envs s' = (m' # ms') @ base" using Cons.prems(3) ms by simp
    moreover have "nested d ops" using inner Cons.prems(2) by simp
    ultimately show ?thesis using ms by (intro exI [of _ d] exI [of _ "m' # ms'"]) simp
  qed
  then show ?case using Cons.IH [OF s'(2)] s'(1) by fastforce
qed

lemma block_restores:
  assumes "invar s" and "nested 0 body" and op: "legal op" "opens op" and cl: "legal cl" "closes cl"
  shows "\<exists>s'. run (op # body @ [cl]) s = Some s' \<and> invar s' \<and> envs s' = envs s"
proof -
  obtain s1 where s1: "step op s = Some s1" "invar s1" using step_total [OF assms(1) op(1)] by blast
  have e1: "envs s1 = [Map.empty] @ envs s" using step_open [OF assms(1) op s1(1)] by simp
  obtain s2 m where s2: "run body s1 = Some s2" "invar s2" "envs s2 = m # envs s"
    using run_nested [OF s1(2) assms(2) e1] by auto
  obtain s3 where s3: "step cl s2 = Some s3" "invar s3" using step_total [OF s2(2) cl(1)] by blast
  have "envs s3 = envs s"
    using step_close [OF s2(2) cl s3(1)] s2(3) nonempty [OF assms(1)] by simp
  then show ?thesis using s1 s2 s3 by (simp add: run_append)
qed

lemma block_restores_lookup:
  assumes "invar s" and "nested 0 body" and "legal op" "opens op" and "legal cl" "closes cl"
  shows "\<exists>s'. run (op # body @ [cl]) s = Some s' \<and> invar s' \<and> (\<forall>n. find_name s' n = find_name s n)"
  using block_restores [OF assms] lookup_first assms(1) by fastforce

end

section \<open>The symbol table keeps the contract\<close>

text \<open>The type references of a symbol lie inside the store, and the parameter arrays are long enough.\<close>

definition symbol_ok :: "type_store \<Rightarrow> Symbol \<Rightarrow> bool" where
  "symbol_ok types symbol \<longleftrightarrow>
     ref_below (length types) (symbol_return_type symbol) \<and>
     (\<forall>t \<in> set (parameter_type_list symbol). ref_below (length types) t)"

definition table_ok :: "type_store \<Rightarrow> SymbolTable \<Rightarrow> bool" where
  "table_ok types table \<longleftrightarrow> st_scopes table \<noteq> [] \<and>
     (\<forall>scope \<in> set (st_scopes table). scope_ok scope \<and> (\<forall>s \<in> set (sc_symbols scope). symbol_ok types s))"

definition scope_map :: "Scope \<Rightarrow> string \<Rightarrow> Symbol option" where
  "scope_map scope name = List.find (\<lambda>s. sym_name s = name) (sc_symbols scope)"

definition table_envs :: "SymbolTable \<Rightarrow> (string \<Rightarrow> Symbol option) list" where
  "table_envs table = map scope_map (st_scopes table)"

lemma find_nth:
  "map_option ((!) xs) (List.find (\<lambda>i. P (xs ! i)) [0 ..< length xs]) = List.find P xs"
proof (induction xs rule: rev_induct)
  case (snoc x xs)
  have eq: "List.find (\<lambda>i. P ((xs @ [x]) ! i)) [0 ..< length xs] = List.find (\<lambda>i. P (xs ! i)) [0 ..< length xs]"
    by (rule find_cong) (auto simp: nth_append)
  show ?case
  proof (cases "List.find (\<lambda>i. P (xs ! i)) [0 ..< length xs]")
    case None
    with snoc show ?thesis by (simp add: find_append eq split: option.split)
  next
    case (Some i)
    then have "i < length xs" using find_Some_mem by fastforce
    then have "(xs @ [x]) ! i = xs ! i" by (simp add: nth_append)
    moreover have "List.find P xs = Some (xs ! i)" using Some snoc by simp
    ultimately show ?thesis using Some by (simp add: find_append eq split: option.split)
  qed
qed simp

lemma scope_lookup_map:
  assumes "scope_ok scope"
  shows "\<exists>r. scope_lookup_symbol scope name = Some r \<and> map_option ((!) (sc_symbols scope)) r = scope_map scope name \<and>
     (\<forall>i. r = Some i \<longrightarrow> i < length (sc_symbols scope) \<and> sym_name (sc_symbols scope ! i) = name \<and>
        (\<forall>j < i. sym_name (sc_symbols scope ! j) \<noteq> name))"
proof -
  let ?r = "List.find (\<lambda>i. sym_name (sc_symbols scope ! i) = name) [0 ..< length (sc_symbols scope)]"
  have "?r = Some i \<longrightarrow> i < length (sc_symbols scope) \<and> sym_name (sc_symbols scope ! i) = name \<and>
        (\<forall>j < i. sym_name (sc_symbols scope ! j) \<noteq> name)" for i
    by (auto simp: find_Some_iff)
  moreover have "map_option ((!) (sc_symbols scope)) ?r = scope_map scope name"
    using find_nth [of "sc_symbols scope" "\<lambda>s. sym_name s = name"] by (simp add: scope_map_def)
  ultimately show ?thesis using scope_ok_lookup [OF assms, of name] by blast
qed

lemma lookup_chain_first:
  "\<forall>scope \<in> set scopes. scope_ok scope \<Longrightarrow> lookup_chain scopes name = Some (first_binding (map scope_map scopes) name)"
proof (induction scopes)
  case (Cons scope rest)
  then show ?case using scope_lookup_map [of scope name] by (auto split: option.split)
qed simp

lemma signatures_match_total:
  assumes "store_ok types" and "symbol_ok types a" and "symbol_ok types b"
  shows "\<exists>r. symbol_table_function_signatures_match types a b = Some r"
proof -
  let ?f = "shape_within (length types) types"
  have "symbol_table_types_compatible types (symbol_return_type a) (symbol_return_type b) =
     Some (?f (symbol_return_type a) = ?f (symbol_return_type b))"
    unfolding symbol_table_types_compatible_def using assms
    by (intro compatible_shape) (auto simp: symbol_ok_def)
  moreover have "compatible_lists (length types) types (parameter_type_list a) (parameter_type_list b) =
      Some (map ?f (parameter_type_list a) = map ?f (parameter_type_list b))"
    if "sym_parameter_count a = sym_parameter_count b"
    using that assms by (intro compatible_lists_shape compatible_shape) (auto simp: symbol_ok_def parameter_type_list_def)
  ultimately show ?thesis
    by (auto simp: symbol_table_function_signatures_match_def split: bool.split)
qed

lemma symbol_ok_updates [simp]:
  "symbol_ok types (s\<lparr>sym_scope := x\<rparr>) = symbol_ok types s"
  "symbol_ok types (s\<lparr>sym_is_forward_declaration := f\<rparr>) = symbol_ok types s"
  "symbol_ok types (s\<lparr>sym_is_forward_declaration := f, sym_is_initialized := g\<rparr>) = symbol_ok types s"
  by (simp_all add: symbol_ok_def symbol_return_type_def parameter_type_list_def)

lemma scope_ok_cong:
  assumes "names_of s' = names_of s" and "sc_name_index s' = sc_name_index s"
  shows "scope_ok s' = scope_ok s"
  using assms map_eq_imp_length_eq [OF assms(1)] unfolding scope_ok_def by simp

lemma table_okD:
  assumes "table_ok types table"
  shows "scope_ok (current_scope table)" "s \<in> set (sc_symbols (current_scope table)) \<Longrightarrow> symbol_ok types s"
    "st_scopes table = current_scope table # tl (st_scopes table)"
  using assms by (auto simp: table_ok_def)

lemma table_ok_set_current:
  assumes "table_ok types table" and "scope_ok scope" and "\<forall>s \<in> set (sc_symbols scope). symbol_ok types s"
  shows "table_ok types (set_current table scope)"
  using assms by (auto simp: table_ok_def set_current_def dest: list.set_sel(2))

lemma table_envs_set_current: "table_envs (set_current table scope) = scope_map scope # tl (table_envs table)"
  by (simp add: table_envs_def set_current_def map_tl)

text \<open>The symbol as it is stored: with its scope filled in.\<close>

definition in_scope :: "SymbolTable \<Rightarrow> Symbol \<Rightarrow> Symbol" where
  "in_scope table symbol = symbol\<lparr>sym_scope := Some (length (st_scopes table) - 1)\<rparr>"

lemma scope_map_append:
  "scope_map (scope\<lparr>sc_symbols := sc_symbols scope @ [symbol]\<rparr>) =
     (case scope_map scope (sym_name symbol) of None \<Rightarrow> (scope_map scope)(sym_name symbol \<mapsto> symbol) | Some _ \<Rightarrow> scope_map scope)"
proof
  fix name
  show "scope_map (scope\<lparr>sc_symbols := sc_symbols scope @ [symbol]\<rparr>) name =
     (case scope_map scope (sym_name symbol) of None \<Rightarrow> (scope_map scope)(sym_name symbol \<mapsto> symbol) | Some _ \<Rightarrow> scope_map scope) name"
    by (auto simp: scope_map_def find_append split: option.split)
qed

lemma add_symbol_ok:
  assumes t: "table_ok types table" and s: "symbol_ok types symbol" and alloc: "\<And>n. alloc n"
  shows "\<exists>table'. add_symbol alloc table symbol = Some (True, table') \<and> table_ok types table' \<and>
     table_envs table' = (case scope_map (current_scope table) (sym_name symbol) of
        None \<Rightarrow> (scope_map (current_scope table))(sym_name symbol \<mapsto> in_scope table symbol)
      | Some _ \<Rightarrow> scope_map (current_scope table)) # tl (table_envs table)"
proof -
  let ?c = "current_scope table" and ?sym = "in_scope table symbol"
  define scope where "scope = (if length (sc_symbols ?c) \<ge> sc_symbol_capacity ?c
     then ?c\<lparr>sc_symbol_capacity := (if sc_symbol_capacity ?c = 0 then 8 else sc_symbol_capacity ?c * 2)\<rparr> else ?c)"
  have nm: "sym_name ?sym = sym_name symbol" by (simp add: in_scope_def)
  have sc: "sc_symbols scope = sc_symbols ?c" "sc_name_index scope = sc_name_index ?c" by (simp_all add: scope_def)
  then have ok: "scope_ok scope" and map: "scope_map scope = scope_map ?c"
    using table_okD(1) [OF t] scope_ok_cong [of scope ?c] by (simp_all add: scope_map_def fun_eq_iff)
  from scope_register_ok [OF ok, of alloc ?sym, OF alloc]
  obtain index where r: "scope_register_appended_symbol alloc (scope_append scope ?sym) (length (sc_symbols scope)) =
       Some ((scope_append scope ?sym)\<lparr>sc_name_index := index\<rparr>)"
     "scope_ok ((scope_append scope ?sym)\<lparr>sc_name_index := index\<rparr>)" by blast
  let ?s' = "(scope_append scope ?sym)\<lparr>sc_name_index := index\<rparr>"
  have "add_symbol alloc table symbol = Some (True, set_current table ?s')"
    using r(1) alloc sc by (simp add: add_symbol_def Let_def scope_def [symmetric] in_scope_def)
  moreover have "table_ok types (set_current table ?s')"
    using table_okD(2) [OF t] s sc
    by (intro table_ok_set_current [OF t r(2)]) (auto simp: scope_append_def in_scope_def)
  moreover have "scope_map ?s' = scope_map (scope\<lparr>sc_symbols := sc_symbols scope @ [?sym]\<rparr>)"
    by (simp add: scope_map_def scope_append_def fun_eq_iff)
  then have "scope_map ?s' = (case scope_map ?c (sym_name symbol) of
        None \<Rightarrow> (scope_map ?c)(sym_name symbol \<mapsto> ?sym) | Some _ \<Rightarrow> scope_map ?c)"
    unfolding scope_map_append map nm .
  ultimately show ?thesis by (simp add: table_envs_set_current)
qed

lemma find_update:
  assumes "i < length xs" and "\<forall>j < i. key (xs ! j) \<noteq> key (xs ! i)" and "key y = key (xs ! i)"
  shows "List.find (\<lambda>s. key s = n) (xs[i := y]) = (if n = key (xs ! i) then Some y else List.find (\<lambda>s. key s = n) xs)"
  using assms
proof (induction xs arbitrary: i)
  case (Cons x xs)
  show ?case
  proof (cases i)
    case 0
    then show ?thesis using Cons.prems by simp
  next
    case (Suc k)
    have "\<forall>j < k. key (xs ! j) \<noteq> key (xs ! k)" using Cons.prems(2) Suc by auto
    moreover have "key x \<noteq> key (xs ! k)" using Cons.prems(2) Suc by auto
    ultimately show ?thesis using Cons.IH [of k] Cons.prems Suc by auto
  qed
qed simp

lemma mark_defined_ok:
  assumes t: "table_ok types table" and i: "i < length (sc_symbols (current_scope table))"
    and first: "\<forall>j < i. sym_name (sc_symbols (current_scope table) ! j) \<noteq> sym_name (sc_symbols (current_scope table) ! i)"
  shows "table_ok types (mark_defined table i)"
    "table_envs (mark_defined table i) =
       (scope_map (current_scope table))(sym_name (sc_symbols (current_scope table) ! i) \<mapsto>
          (sc_symbols (current_scope table) ! i)\<lparr>sym_is_forward_declaration := False, sym_is_initialized := True\<rparr>) #
       tl (table_envs table)"
proof -
  let ?c = "current_scope table" and ?e = "sc_symbols (current_scope table) ! i"
  let ?e' = "?e\<lparr>sym_is_forward_declaration := False, sym_is_initialized := True\<rparr>"
  let ?s = "?c\<lparr>sc_symbols := (sc_symbols ?c)[i := ?e']\<rparr>"
  have names: "names_of ?s = names_of ?c" using i by (auto simp: list_eq_iff_nth_eq nth_list_update)
  have "scope_ok ?s" using table_okD(1) [OF t] scope_ok_cong [OF names] by simp
  moreover have "symbol_ok types ?e" using i by (intro table_okD(2) [OF t]) simp
  then have "\<forall>s \<in> set (sc_symbols ?s). symbol_ok types s"
    using table_okD(2) [OF t] set_update_subset_insert [of "sc_symbols ?c" i ?e'] by auto
  ultimately show "table_ok types (mark_defined table i)"
    using table_ok_set_current [OF t] by (simp add: mark_defined_def Let_def)
  have "scope_map ?s name = ((scope_map ?c)(sym_name ?e \<mapsto> ?e')) name" for name
    using find_update [OF i first, of ?e' name] by (simp add: scope_map_def)
  then show "table_envs (mark_defined table i) = (scope_map ?c)(sym_name ?e \<mapsto> ?e') # tl (table_envs table)"
    by (simp add: mark_defined_def Let_def table_envs_set_current fun_eq_iff)
qed

text \<open>What declaring a symbol does, in terms of the innermost map: the reference for the four operations
  that add or complete a symbol.\<close>

definition completes :: "type_store \<Rightarrow> Symbol \<Rightarrow> Symbol \<Rightarrow> bool" where
  "completes types existing symbol \<longleftrightarrow>
     sym_kind symbol = SYMBOL_FUNCTION \<and> sym_kind existing = SYMBOL_FUNCTION \<and>
     sym_is_forward_declaration existing \<and>
     symbol_table_function_signatures_match types existing symbol = Some True"

definition declared_env ::
  "type_store \<Rightarrow> SymbolTable \<Rightarrow> Symbol \<Rightarrow> bool \<times> (string \<Rightarrow> Symbol option)" where
  "declared_env types table symbol =
     (let env = scope_map (current_scope table); name = sym_name symbol
      in if \<not> declaration_well_formed symbol then (False, env)
         else case env name of
                None \<Rightarrow> (True, env(name \<mapsto> in_scope table symbol))
              | Some existing \<Rightarrow>
                  (if completes types existing symbol
                   then (True, env(name \<mapsto> existing\<lparr>sym_is_forward_declaration := False, sym_is_initialized := True\<rparr>))
                   else (False, env)))"

lemma table_envs_hd: "table_ok types table \<Longrightarrow> table_envs table = scope_map (current_scope table) # tl (table_envs table)"
  by (cases "st_scopes table") (auto simp: table_envs_def table_ok_def)

lemma lookup_current:
  assumes "table_ok types table"
  obtains (absent) "scope_lookup_symbol (current_scope table) name = Some None" "scope_map (current_scope table) name = None"
  | (present) i existing where "scope_lookup_symbol (current_scope table) name = Some (Some i)"
      "existing = sc_symbols (current_scope table) ! i" "scope_map (current_scope table) name = Some existing"
      "symbol_ok types existing" "sym_name existing = name" "i < length (sc_symbols (current_scope table))"
      "\<forall>j < i. sym_name (sc_symbols (current_scope table) ! j) \<noteq> name"
proof -
  obtain r where r: "scope_lookup_symbol (current_scope table) name = Some r"
      "map_option ((!) (sc_symbols (current_scope table))) r = scope_map (current_scope table) name"
      "\<forall>i. r = Some i \<longrightarrow> i < length (sc_symbols (current_scope table)) \<and> sym_name (sc_symbols (current_scope table) ! i) = name \<and>
        (\<forall>j < i. sym_name (sc_symbols (current_scope table) ! j) \<noteq> name)"
    using scope_lookup_map [OF table_okD(1) [OF assms], of name] by blast
  show thesis
  proof (cases r)
    case None
    with r absent show thesis by simp
  next
    case (Some i)
    have "symbol_ok types (sc_symbols (current_scope table) ! i)"
      using r(3) Some by (intro table_okD(2) [OF assms]) simp
    with r Some present [of i] show thesis by auto
  qed
qed

lemma declare_refines:
  assumes t: "table_ok types table" and s: "symbol_ok types symbol" and st: "store_ok types" and alloc: "\<And>n. alloc n"
  shows "\<exists>ok table'. symbol_table_declare types alloc table symbol = Some (ok, table') \<and> table_ok types table' \<and>
     (ok, table_envs table') = (fst (declared_env types table symbol), snd (declared_env types table symbol) # tl (table_envs table)) \<and>
     (\<not> ok \<longrightarrow> table' = table)"
proof (cases "declaration_well_formed symbol")
  case False
  then show ?thesis using t table_envs_hd [OF t]
    by (intro exI [of _ False] exI [of _ table]) (simp add: symbol_table_declare_def symbol_table_validate_declaration_def declared_env_def Let_def)
next
  case wf: True
  from t show ?thesis
  proof (cases rule: lookup_current [where name = "sym_name symbol"])
    case absent
    from add_symbol_ok [OF t s, of alloc] alloc absent wf show ?thesis
      by (auto simp: symbol_table_declare_def symbol_table_validate_declaration_def declared_env_def Let_def
          symbol_table_lookup_current_scope_def)
  next
    case (present i existing)
    obtain b where b: "symbol_table_function_signatures_match types existing symbol = Some b"
      using signatures_match_total [OF st present(4) s] by blast
    note defs = symbol_table_declare_def symbol_table_validate_declaration_def declared_env_def Let_def
          symbol_table_lookup_current_scope_def completes_def present(1,3) present(2) [symmetric] wf b
    show ?thesis
    proof (cases "completes types existing symbol")
      case True
      then have "symbol_table_declare types alloc table symbol = Some (True, mark_defined table i)"
        using b by (simp add: defs)
      with True mark_defined_ok [OF t present(6)] present show ?thesis
        by (intro exI [of _ True] exI [of _ "mark_defined table i"]) (simp add: declared_env_def Let_def wf)
    next
      case False
      then have "symbol_table_declare types alloc table symbol = Some (False, table)"
        using b by (cases b) (auto simp: defs)
      with False present t table_envs_hd [OF t] show ?thesis
        by (intro exI [of _ False] exI [of _ table]) (simp add: declared_env_def Let_def wf)
    qed
  qed
qed

text \<open>An operation that returns, keeps the table well formed and changes the innermost map only.\<close>

definition inner_step :: "type_store \<Rightarrow> SymbolTable \<Rightarrow> (bool \<times> SymbolTable) option \<Rightarrow> bool" where
  "inner_step types table r \<longleftrightarrow>
     (\<exists>ok table' m. r = Some (ok, table') \<and> table_ok types table' \<and> table_envs table' = m # tl (table_envs table))"

lemma inner_stepI: "r = Some (ok, table') \<Longrightarrow> table_ok types table' \<Longrightarrow> table_envs table' = m # tl (table_envs table) \<Longrightarrow> inner_step types table r"
  by (auto simp: inner_step_def)

lemma inner_step_same: "table_ok types table \<Longrightarrow> inner_step types table (Some (ok, table))"
  using table_envs_hd by (blast intro: inner_stepI)

lemma inner_step_declare:
  assumes "table_ok types table" and "symbol_ok types symbol" and "store_ok types" and "\<And>n. alloc n"
  shows "inner_step types table (symbol_table_declare types alloc table symbol)"
  using declare_refines [OF assms(1-3), of alloc, OF assms(4)] by (auto intro: inner_stepI)

lemma inner_step_mark:
  assumes "table_ok types table" and "i < length (sc_symbols (current_scope table))"
    and "sym_name (sc_symbols (current_scope table) ! i) = name"
    and "\<forall>j < i. sym_name (sc_symbols (current_scope table) ! j) \<noteq> name"
  shows "inner_step types table (Some (True, mark_defined table i))"
  using mark_defined_ok [OF assms(1,2)] assms(3,4) by (auto intro: inner_stepI)

lemma inner_step_forward:
  assumes t: "table_ok types table" and s: "symbol_ok types symbol" and st: "store_ok types" and alloc: "\<And>n. alloc n"
  shows "inner_step types table (symbol_table_declare_forward types alloc table symbol)"
    and "inner_step types table (symbol_table_resolve_forward_declaration types alloc table symbol)"
proof -
  note defs = symbol_table_declare_forward_def symbol_table_resolve_forward_declaration_def
    symbol_table_lookup_current_scope_def Let_def
  note decl = inner_step_declare [OF t _ st alloc]
  have "inner_step types table (symbol_table_declare_forward types alloc table symbol) \<and>
    inner_step types table (symbol_table_resolve_forward_declaration types alloc table symbol)"
    using t
  proof (cases rule: lookup_current [where name = "sym_name symbol"])
    case absent
    with s decl inner_step_same [OF t] show ?thesis by (simp add: defs)
  next
    case (present i existing)
    obtain b where "symbol_table_function_signatures_match types existing symbol = Some b"
      using signatures_match_total [OF st present(4) s] by blast
    with present inner_step_same [OF t] inner_step_mark [OF t present(6) _ present(7)] show ?thesis
      by (cases b) (simp_all add: defs)
  qed
  then show "inner_step types table (symbol_table_declare_forward types alloc table symbol)"
    and "inner_step types table (symbol_table_resolve_forward_declaration types alloc table symbol)" by blast+
qed

fun op_legal :: "type_store \<Rightarrow> table_op \<Rightarrow> bool" where
  "op_legal types (EnterScope ty) = True"
| "op_legal types ExitScope = True"
| "op_legal types (Declare s) = symbol_ok types s"
| "op_legal types (Insert s) = symbol_ok types s"
| "op_legal types (DeclareForward s) = symbol_ok types s"
| "op_legal types (ResolveForward s) = symbol_ok types s"

fun op_opens :: "table_op \<Rightarrow> bool" where
  "op_opens (EnterScope ty) = True"
| "op_opens _ = False"

fun op_closes :: "table_op \<Rightarrow> bool" where
  "op_closes ExitScope = True"
| "op_closes _ = False"

definition table_invar :: "type_store \<Rightarrow> (nat \<Rightarrow> bool) \<Rightarrow> SymbolTable \<Rightarrow> bool" where
  "table_invar types alloc table \<longleftrightarrow> store_ok types \<and> (\<forall>n. alloc n) \<and> table_ok types table"

lemma table_step_inner:
  assumes "table_invar types alloc table" and "op_legal types op" and "\<not> op_opens op" and "\<not> op_closes op"
  shows "\<exists>table' m. table_step types alloc op table = Some table' \<and> table_ok types table' \<and>
     table_envs table' = m # tl (table_envs table)"
proof -
  have t: "table_ok types table" and st: "store_ok types" and alloc: "\<And>n. alloc n"
    using assms(1) by (auto simp: table_invar_def)
  have insert: "inner_step types table (add_symbol alloc table s)" if "symbol_ok types s" for s
    using add_symbol_ok [OF t that, of alloc] alloc by (auto intro: inner_stepI)
  show ?thesis
    using assms(2-4) insert inner_step_declare [OF t _ st, of _ alloc] inner_step_forward [OF t _ st, of _ alloc] alloc
    by (cases op) (fastforce simp: inner_step_def symbol_table_insert_def)+
qed

lemma table_step_outer:
  assumes "table_ok types table"
  shows "table_ok types (symbol_table_enter_scope table ty)" "table_ok types (symbol_table_exit_scope table)"
    "table_envs (symbol_table_enter_scope table ty) = Map.empty # table_envs table"
    "table_envs (symbol_table_exit_scope table) = (if tl (table_envs table) = [] then table_envs table else tl (table_envs table))"
  using assms scope_ok_empty [of ty]
  by (auto simp: table_ok_def symbol_table_enter_scope_def symbol_table_exit_scope_def
      table_envs_def scope_map_def empty_scope_def simp flip: map_tl dest: list.set_sel(2))

interpretation table: scope_chain table_envs "table_invar types alloc" symbol_table_lookup
  "table_step types alloc" op_opens op_closes "op_legal types" for types alloc
proof unfold_locales
  fix s n
  assume "table_invar types alloc s"
  then show "table_envs s \<noteq> []" "symbol_table_lookup s n = Some (first_binding (table_envs s) n)"
    using lookup_chain_first [of "st_scopes s" n]
    by (auto simp: table_invar_def table_ok_def table_envs_def symbol_table_lookup_def)
next
  fix s op
  assume inv: "table_invar types alloc s" and op: "op_legal types op"
  consider "op_opens op" | "op_closes op" | "\<not> op_opens op" "\<not> op_closes op" by blast
  then show "\<exists>s'. table_step types alloc op s = Some s' \<and> table_invar types alloc s'"
  proof cases
    case 3
    with table_step_inner [OF inv op] inv show ?thesis by (auto simp: table_invar_def)
  qed (use inv table_step_outer(1,2) [of types s] in \<open>(cases op; auto simp: table_invar_def)+\<close>)
next
  fix s op s'
  assume inv: "table_invar types alloc s" and op: "op_legal types op" and step: "table_step types alloc op s = Some s'"
  have t: "table_ok types s" using inv by (simp add: table_invar_def)
  show "op_opens op \<Longrightarrow> table_envs s' = Map.empty # table_envs s"
    using step table_step_outer(3) [OF t] by (cases op) auto
  show "op_closes op \<Longrightarrow> table_envs s' = (if tl (table_envs s) = [] then table_envs s else tl (table_envs s))"
    using step table_step_outer(4) [OF t] by (cases op) auto
  show "\<not> op_opens op \<Longrightarrow> \<not> op_closes op \<Longrightarrow> \<exists>m. table_envs s' = m # tl (table_envs s)"
    using step table_step_inner [OF inv op] by auto
next
  fix op show "\<not> (op_opens op \<and> op_closes op)" by (cases op) auto
qed

section \<open>What the compiler relies on\<close>

fun run_ops :: "type_store \<Rightarrow> (nat \<Rightarrow> bool) \<Rightarrow> table_op list \<Rightarrow> SymbolTable \<Rightarrow> SymbolTable option" where
  "run_ops types alloc [] table = Some table"
| "run_ops types alloc (op # ops) table =
     (case table_step types alloc op table of None \<Rightarrow> None | Some table' \<Rightarrow> run_ops types alloc ops table')"

text \<open>Operations that close every scope they open and none of the scopes outside.\<close>

fun ops_nested :: "nat \<Rightarrow> table_op list \<Rightarrow> bool" where
  "ops_nested d [] = (d = 0)"
| "ops_nested d (EnterScope ty # ops) = ops_nested (d + 1) ops"
| "ops_nested d (ExitScope # ops) = (case d of 0 \<Rightarrow> False | Suc d' \<Rightarrow> ops_nested d' ops)"
| "ops_nested d (_ # ops) = ops_nested d ops"

lemma run_ops_run: "run_ops types alloc ops table = table.run types alloc ops table"
  by (induction ops arbitrary: table) (auto split: option.split)

lemma ops_nested_nested: "ops_nested d ops \<Longrightarrow> \<forall>op \<in> set ops. op_legal types op \<Longrightarrow> table.nested types d ops"
  by (induction d ops rule: ops_nested.induct) (auto split: nat.splits)

text \<open>(C20) Scopes nest. Entering a scope, running any properly nested operations (declarations, forward
  declarations, definitions, insertions, inner scopes) and leaving the scope always returns, and
  every name then resolves to what it resolved to before.\<close>

theorem symbol_table_block_restores:
  assumes "store_ok types" and "\<forall>n. alloc n" and "table_ok types table"
    and "ops_nested 0 body" and "\<forall>op \<in> set body. op_legal types op"
  shows "\<exists>table'. run_ops types alloc (EnterScope ty # body @ [ExitScope]) table = Some table' \<and> table_ok types table' \<and>
     (\<forall>name. symbol_table_lookup table' name = symbol_table_lookup table name)"
proof -
  have "table_invar types alloc table" using assms(1-3) by (simp add: table_invar_def)
  from table.block_restores_lookup [OF this ops_nested_nested [OF assms(4,5)], of "EnterScope ty" ExitScope]
  show ?thesis unfolding run_ops_run by (auto simp: table_invar_def)
qed

lemma table_ok_create: "table_ok types symbol_table_create"
  using scope_ok_empty [of SCOPE_GLOBAL] by (simp add: table_ok_def symbol_table_create_def empty_scope_def)

lemma symbol_ok_plain: "symbol_ok types (plain_symbol name)"
  by (simp add: symbol_ok_def plain_symbol_def symbol_return_type_def parameter_type_list_def ref_below_def)

theorem symbol_table_block_restores_witness:
  "\<exists>table'. run_ops [] (\<lambda>_. True) [EnterScope SCOPE_BLOCK, Insert (plain_symbol ''x''), ExitScope] symbol_table_create = Some table' \<and>
     symbol_table_lookup table' ''x'' = symbol_table_lookup symbol_table_create ''x''"
proof -
  have "store_ok []" "\<forall>n. (\<lambda>_. True) (n :: nat)" "ops_nested 0 [Insert (plain_symbol ''x'')]"
    "\<forall>op \<in> set [Insert (plain_symbol ''x'')]. op_legal [] op"
    by (simp_all add: store_ok_def symbol_ok_plain)
  from symbol_table_block_restores [OF this(1,2) table_ok_create this(3,4), of SCOPE_BLOCK] show ?thesis by auto
qed

text \<open>(C30) Declaring. In a well-formed table, with allocation succeeding, \<open>symbol_table_declare\<close> returns, keeps the
  table well formed and reports success exactly when the symbol is well formed and its name is new in the
  innermost scope or completes a forward declaration of the same signature. On success the name is
  found as the new symbol, or as the forward declaration now marked defined; every other name resolves
  as before. On failure the table is unchanged.\<close>

theorem symbol_table_declare_correct:
  assumes "store_ok types" and "\<forall>n. alloc n" and "table_ok types table" and "symbol_ok types symbol"
  shows "\<exists>ok table'. symbol_table_declare types alloc table symbol = Some (ok, table') \<and> table_ok types table' \<and>
     (ok \<longleftrightarrow> declaration_well_formed symbol \<and>
        (case scope_map (current_scope table) (sym_name symbol) of
           None \<Rightarrow> True | Some existing \<Rightarrow> completes types existing symbol)) \<and>
     (\<not> ok \<longrightarrow> table' = table) \<and>
     (ok \<longrightarrow> symbol_table_lookup table' (sym_name symbol) =
        Some (Some (case scope_map (current_scope table) (sym_name symbol) of
           None \<Rightarrow> in_scope table symbol
         | Some existing \<Rightarrow> existing\<lparr>sym_is_forward_declaration := False, sym_is_initialized := True\<rparr>))) \<and>
     (\<forall>name. name \<noteq> sym_name symbol \<longrightarrow> symbol_table_lookup table' name = symbol_table_lookup table name)"
proof -
  obtain ok table' where d: "symbol_table_declare types alloc table symbol = Some (ok, table')" "table_ok types table'"
     "ok = fst (declared_env types table symbol)"
     "table_envs table' = snd (declared_env types table symbol) # tl (table_envs table)" "\<not> ok \<longrightarrow> table' = table"
    using declare_refines [OF assms(3,4,1), of alloc] assms(2) by auto
  have look: "symbol_table_lookup t n = Some (first_binding (table_envs t) n)" if "table_ok types t" for t n
    using that assms by (intro table.lookup_first [of types alloc]) (simp add: table_invar_def)
  have hd: "table_envs table = scope_map (current_scope table) # tl (table_envs table)" by (rule table_envs_hd [OF assms(3)])
  have rest: "symbol_table_lookup table' n = symbol_table_lookup table n" if "n \<noteq> sym_name symbol" for n
    unfolding look [OF d(2)] look [OF assms(3)] d(4) using that
    by (subst hd) (auto simp: declared_env_def Let_def split: option.split)
  have at: "symbol_table_lookup table' (sym_name symbol) =
        Some (Some (case scope_map (current_scope table) (sym_name symbol) of
           None \<Rightarrow> in_scope table symbol
         | Some existing \<Rightarrow> existing\<lparr>sym_is_forward_declaration := False, sym_is_initialized := True\<rparr>))" if ok
    unfolding look [OF d(2)] d(4) using that d(3)
    by (auto simp: declared_env_def Let_def split: option.splits if_splits)
  have "ok \<longleftrightarrow> declaration_well_formed symbol \<and> (case scope_map (current_scope table) (sym_name symbol) of
           None \<Rightarrow> True | Some existing \<Rightarrow> completes types existing symbol)"
    unfolding d(3) by (auto simp: declared_env_def Let_def split: option.split)
  with d rest at show ?thesis by blast
qed

theorem symbol_table_declare_correct_witness:
  "\<exists>ok table'. symbol_table_declare [fresh_type TYPE_INT8 None] (\<lambda>_. True) symbol_table_create
       ((plain_symbol ''x'')\<lparr>sym_type := Some 0\<rparr>) = Some (ok, table') \<and> ok \<and>
     (\<exists>s. symbol_table_lookup table' ''x'' = Some (Some s) \<and> sym_type s = Some 0)"
proof -
  let ?x = "(plain_symbol ''x'')\<lparr>sym_type := Some 0\<rparr>" and ?ts = "[fresh_type TYPE_INT8 None]"
  have ok: "store_ok ?ts" "\<forall>n. (\<lambda>_. True) (n :: nat)" "symbol_ok ?ts ?x"
    by (simp_all add: store_ok_def refers_below_def fresh_type_def symbol_ok_def plain_symbol_def
        symbol_return_type_def parameter_type_list_def ref_below_def)
  have wf: "declaration_well_formed ?x" "scope_map (current_scope symbol_table_create) (sym_name ?x) = None" "sym_name ?x = ''x''"
    by (simp_all add: declaration_well_formed_def plain_symbol_def scope_map_def symbol_table_create_def empty_scope_def)
  from symbol_table_declare_correct [OF ok(1,2) table_ok_create ok(3)] wf
  show ?thesis by (force simp: in_scope_def)
qed

section \<open>Forward declarations\<close>

lemma signature_parts_ignore [simp]:
  "symbol_table_effective_link_name (a\<lparr>sym_scope := x\<rparr>) = symbol_table_effective_link_name a"
  "symbol_table_effective_link_name (a\<lparr>sym_is_forward_declaration := f\<rparr>) = symbol_table_effective_link_name a"
  "symbol_return_type (a\<lparr>sym_scope := x\<rparr>) = symbol_return_type a"
  "symbol_return_type (a\<lparr>sym_is_forward_declaration := f\<rparr>) = symbol_return_type a"
  "parameter_type_list (a\<lparr>sym_scope := x\<rparr>) = parameter_type_list a"
  "parameter_type_list (a\<lparr>sym_is_forward_declaration := f\<rparr>) = parameter_type_list a"
  by (simp_all add: symbol_table_effective_link_name_def symbol_return_type_def parameter_type_list_def
      cong: option.case_cong if_cong)

lemma signatures_ignore [simp]:
  "symbol_table_function_signatures_match types (a\<lparr>sym_scope := x\<rparr>) b = symbol_table_function_signatures_match types a b"
  "symbol_table_function_signatures_match types (a\<lparr>sym_is_forward_declaration := f\<rparr>) b =
     symbol_table_function_signatures_match types a b"
  by (simp_all add: symbol_table_function_signatures_match_def symbol_table_link_names_match_def
      cong: option.case_cong bool.case_cong if_cong)

lemma declare_forward_new:
  assumes t: "table_ok types table" and s: "symbol_ok types symbol" and st: "store_ok types" and alloc: "\<And>n. alloc n"
    and fn: "sym_kind symbol = SYMBOL_FUNCTION" and wf: "declaration_well_formed symbol"
    and new: "scope_map (current_scope table) (sym_name symbol) = None"
  shows "\<exists>table'. symbol_table_declare_forward types alloc table symbol = Some (True, table') \<and> table_ok types table' \<and>
     scope_map (current_scope table') (sym_name symbol) =
       Some (in_scope table (symbol\<lparr>sym_is_forward_declaration := True\<rparr>))"
proof -
  let ?s = "symbol\<lparr>sym_is_forward_declaration := True\<rparr>"
  have wf': "declaration_well_formed ?s" using wf by (simp add: declaration_well_formed_def cong: option.case_cong)
  have "symbol_table_declare_forward types alloc table symbol = symbol_table_declare types alloc table ?s"
    using t fn new
    by (cases rule: lookup_current [where name = "sym_name symbol"])
      (simp_all add: symbol_table_declare_forward_def symbol_table_lookup_current_scope_def)
  moreover obtain ok table' where d: "symbol_table_declare types alloc table ?s = Some (ok, table')" "table_ok types table'"
     "ok = fst (declared_env types table ?s)" "table_envs table' = snd (declared_env types table ?s) # tl (table_envs table)"
    using declare_refines [OF t _ st, of ?s alloc] s alloc by auto
  moreover have "declared_env types table ?s =
      (True, (scope_map (current_scope table))(sym_name symbol \<mapsto> in_scope table ?s))"
    using wf' new by (simp add: declared_env_def)
  moreover have "scope_map (current_scope table') = hd (table_envs table')"
    using table_envs_hd [OF d(2)] by (metis list.sel(1))
  ultimately show ?thesis by simp
qed

lemma resolve_forward_existing:
  assumes t: "table_ok types table" and fn: "sym_kind symbol = SYMBOL_FUNCTION"
    and ex: "scope_map (current_scope table) (sym_name symbol) = Some existing"
    and fwd: "sym_kind existing = SYMBOL_FUNCTION" "sym_is_forward_declaration existing"
    and sig: "symbol_table_function_signatures_match types existing symbol = Some True"
  shows "\<exists>table'. symbol_table_resolve_forward_declaration types alloc table symbol = Some (True, table') \<and>
     table_ok types table' \<and> scope_map (current_scope table') (sym_name symbol) =
       Some (existing\<lparr>sym_is_forward_declaration := False, sym_is_initialized := True\<rparr>)"
  using t
proof (cases rule: lookup_current [where name = "sym_name symbol"])
  case absent
  with ex show ?thesis by simp
next
  case (present i e)
  then have e: "e = existing" using ex by simp
  have "symbol_table_resolve_forward_declaration types alloc table symbol = Some (True, mark_defined table i)"
    using present e fn fwd sig
    by (simp add: symbol_table_resolve_forward_declaration_def symbol_table_lookup_current_scope_def Let_def)
  moreover have m: "table_ok types (mark_defined table i)"
    "table_envs (mark_defined table i) = (scope_map (current_scope table))(sym_name symbol \<mapsto>
        existing\<lparr>sym_is_forward_declaration := False, sym_is_initialized := True\<rparr>) # tl (table_envs table)"
    using mark_defined_ok [OF t present(6)] present e by simp_all
  moreover have "scope_map (current_scope (mark_defined table i)) = hd (table_envs (mark_defined table i))"
    using table_envs_hd [OF m(1)] by (metis list.sel(1))
  ultimately show ?thesis by simp
qed

text \<open>The life of a forward declaration. A well-formed function whose name is new in the innermost scope
  can be declared forward; a definition with a matching signature then resolves it, after which the
  name stands for an initialised function that is no longer a forward declaration; and after that every
  further declaration of the name in this scope is refused and leaves the table as it is.\<close>

theorem forward_declaration_life:
  assumes "store_ok types" and "\<forall>n. alloc n" and "table_ok types table"
    and "symbol_ok types decl" and "symbol_ok types again" and "sym_kind decl = SYMBOL_FUNCTION" and "sym_kind defn = SYMBOL_FUNCTION"
    and "sym_name defn = sym_name decl" and "sym_name again = sym_name decl"
    and "declaration_well_formed decl" and "scope_map (current_scope table) (sym_name decl) = None"
    and "symbol_table_function_signatures_match types decl defn = Some True"
  shows "\<exists>table1 table2 s. symbol_table_declare_forward types alloc table decl = Some (True, table1) \<and>
     symbol_table_resolve_forward_declaration types alloc table1 defn = Some (True, table2) \<and>
     symbol_table_lookup table2 (sym_name decl) = Some (Some s) \<and> sym_kind s = SYMBOL_FUNCTION \<and>
     \<not> sym_is_forward_declaration s \<and> sym_is_initialized s \<and>
     symbol_table_declare types alloc table2 again = Some (False, table2)"
proof -
  let ?d = "in_scope table (decl\<lparr>sym_is_forward_declaration := True\<rparr>)"
  let ?s = "?d\<lparr>sym_is_forward_declaration := False, sym_is_initialized := True\<rparr>"
  obtain t1 where t1: "symbol_table_declare_forward types alloc table decl = Some (True, t1)" "table_ok types t1"
      "scope_map (current_scope t1) (sym_name decl) = Some ?d"
    using declare_forward_new [of types table decl alloc] assms by blast
  have "scope_map (current_scope t1) (sym_name defn) = Some ?d" using t1(3) assms(8) by simp
  moreover have "sym_kind ?d = SYMBOL_FUNCTION" "sym_is_forward_declaration ?d"
    "symbol_table_function_signatures_match types ?d defn = Some True"
    using assms(6,12) by (simp_all add: in_scope_def)
  ultimately obtain t2 where t2: "symbol_table_resolve_forward_declaration types alloc t1 defn = Some (True, t2)"
      "table_ok types t2" "scope_map (current_scope t2) (sym_name decl) = Some ?s"
    using resolve_forward_existing [OF t1(2) assms(7)] assms(8) by metis
  have look: "symbol_table_lookup t2 (sym_name decl) = Some (Some ?s)"
  proof -
    have "symbol_table_lookup t2 (sym_name decl) = Some (first_binding (table_envs t2) (sym_name decl))"
      using t2(2) assms(1,2) by (intro table.lookup_first [of types alloc]) (simp add: table_invar_def)
    then show ?thesis using t2(3) by (subst (asm) table_envs_hd [OF t2(2)]) simp
  qed
  have "\<not> fst (declared_env types t2 again)"
    using t2(3) assms(9) by (simp add: declared_env_def completes_def Let_def)
  with declare_refines [OF t2(2) assms(5,1), of alloc] assms(2)
  have "symbol_table_declare types alloc t2 again = Some (False, t2)" by auto
  with t1(1) t2(1) look assms(6) show ?thesis by (auto simp: in_scope_def)
qed

theorem forward_declaration_life_witness:
  "\<exists>f table1 table2 s. sym_name f = ''f'' \<and>
     symbol_table_declare_forward [fresh_type TYPE_VOID None] (\<lambda>_. True) symbol_table_create f = Some (True, table1) \<and>
     symbol_table_resolve_forward_declaration [fresh_type TYPE_VOID None] (\<lambda>_. True) table1 f = Some (True, table2) \<and>
     symbol_table_lookup table2 ''f'' = Some (Some s) \<and> sym_is_initialized s \<and>
     symbol_table_declare [fresh_type TYPE_VOID None] (\<lambda>_. True) table2 f = Some (False, table2)"
proof -
  let ?f = "(plain_symbol ''f'')\<lparr>sym_kind := SYMBOL_FUNCTION, sym_type := Some 0\<rparr>" and ?ts = "[fresh_type TYPE_VOID None]"
  have ok: "store_ok ?ts" "\<forall>n. (\<lambda>_. True) (n :: nat)" "symbol_ok ?ts ?f"
    by (simp_all add: store_ok_def refers_below_def fresh_type_def symbol_ok_def plain_symbol_def
        symbol_return_type_def parameter_type_list_def ref_below_def)
  have f: "sym_kind ?f = SYMBOL_FUNCTION" "declaration_well_formed ?f"
    "scope_map (current_scope symbol_table_create) (sym_name ?f) = None" "sym_name ?f = ''f''"
    "symbol_table_function_signatures_match ?ts ?f ?f = Some True"
    by (simp_all add: declaration_well_formed_def plain_symbol_def scope_map_def symbol_table_create_def empty_scope_def
        symbol_table_function_signatures_match_def symbol_table_types_compatible_def parameter_type_list_def)
  from forward_declaration_life [OF ok(1,2) table_ok_create ok(3) ok(3) f(1) f(1) refl refl f(2,3,5)] f(4)
  show ?thesis by metis
qed

end
