(* ===== verification/Suggestions.thy ===== *)
theory Suggestions
  imports Symbol_Table
begin

text \<open>
  Spelling suggestions: the edit distance and the closest candidate of
  \<^verbatim>\<open>src/src/error/error_reporter.c\<close>, and the collection of candidate names from the visible scopes in
  \<^verbatim>\<open>src/src/semantic/symbol_table.c\<close>. The distance is computed in one rolling row; it is shown to be the
  least cost of turning one word into the other. Allocation succeeds.
\<close>

section \<open>Edit distance\<close>

definition er_lower :: "char \<Rightarrow> char" where
  "er_lower c = (if 65 \<le> (of_char c :: nat) \<and> (of_char c :: nat) \<le> 90 then char_of ((of_char c :: nat) - 65 + 97) else c)"

text \<open>One iteration of the inner loop, on \<open>(prev_diag, row)\<close>, and the inner loop for row \<open>i\<close>.\<close>

definition edit_cell :: "string \<Rightarrow> string \<Rightarrow> nat \<Rightarrow> nat \<times> nat list \<Rightarrow> nat \<Rightarrow> nat \<times> nat list" where
  "edit_cell a b i st j =
     (case st of (prev_diag, row) \<Rightarrow>
        let prev = row ! j;
            cost = (if er_lower (a ! (i - 1)) = er_lower (b ! (j - 1)) then 0 else 1);
            del = row ! j + 1;
            ins = row ! (j - 1) + 1;
            sub = prev_diag + cost;
            best = (if del < ins then del else ins);
            best = (if sub < best then sub else best)
        in (prev, row[j := best]))"

definition edit_row :: "string \<Rightarrow> string \<Rightarrow> nat list \<Rightarrow> nat \<Rightarrow> nat list" where
  "edit_row a b row i = snd (foldl (edit_cell a b i) (row ! 0, row[0 := i]) [1 ..< length b + 1])"

definition error_reporter_edit_distance :: "string \<Rightarrow> string \<Rightarrow> nat" where
  "error_reporter_edit_distance a b =
     (if length a = 0 then length b
      else if length b = 0 then length a
      else foldl (edit_row a b) [0 ..< length b + 1] [1 ..< length a + 1] ! length b)"

section \<open>The closest candidate\<close>

definition suggestion_threshold :: "nat \<Rightarrow> nat" where
  "suggestion_threshold name_len =
     (let threshold = name_len div 3;
          threshold = (if threshold < 1 then 1 else threshold)
      in if threshold > 3 then 3 else threshold)"

text \<open>One iteration of the candidate loop, on \<open>(best, best_distance)\<close>.\<close>

definition consider_candidate :: "string \<Rightarrow> string option \<times> nat \<Rightarrow> string \<Rightarrow> string option \<times> nat" where
  "consider_candidate name st cand =
     (case st of (best, best_distance) \<Rightarrow>
        if cand = [] \<or> cand = name then st
        else let d = error_reporter_edit_distance name cand
             in if d \<le> suggestion_threshold (length name) \<and> d < best_distance then (Some cand, d) else st)"

definition error_reporter_closest_candidate :: "string \<Rightarrow> string list \<Rightarrow> string option" where
  "error_reporter_closest_candidate name candidates =
     (if candidates = [] \<or> name = [] then None
      else fst (foldl (consider_candidate name) (None, 2 ^ 64 - 1) candidates))"

definition symbol_kind_allowed :: "SymbolKind \<Rightarrow> SymbolKind list \<Rightarrow> bool" where
  "symbol_kind_allowed kind kinds \<longleftrightarrow> kinds = [] \<or> kind \<in> set kinds"

definition candidate_names :: "SymbolTable \<Rightarrow> SymbolKind list \<Rightarrow> string list" where
  "candidate_names table kinds =
     concat (map (\<lambda>scope. map sym_name (filter (\<lambda>s. symbol_kind_allowed (sym_kind s) kinds) (sc_symbols scope)))
       (st_scopes table))"

definition symbol_table_suggest_similar :: "SymbolTable \<Rightarrow> string \<Rightarrow> SymbolKind list \<Rightarrow> string option" where
  "symbol_table_suggest_similar table name kinds =
     (if name = [] then None else error_reporter_closest_candidate name (candidate_names table kinds))"

section \<open>Edit scripts\<close>

text \<open>\<open>edits xs ys n\<close>: \<open>xs\<close> can be turned into \<open>ys\<close> from left to right with \<open>n\<close> insertions, deletions and
  substitutions.\<close>

inductive edits :: "'a list \<Rightarrow> 'a list \<Rightarrow> nat \<Rightarrow> bool" where
  edits_nil: "edits [] [] 0"
| edits_keep: "edits xs ys n \<Longrightarrow> edits (x # xs) (x # ys) n"
| edits_subst: "edits xs ys n \<Longrightarrow> edits (x # xs) (y # ys) (n + 1)"
| edits_delete: "edits xs ys n \<Longrightarrow> edits (x # xs) ys (n + 1)"
| edits_insert: "edits xs ys n \<Longrightarrow> edits xs (y # ys) (n + 1)"

inductive_cases edits_ConsE: "edits (x # xs) (y # ys) n"

lemma edits_append: "edits xs ys n \<Longrightarrow> edits us vs m \<Longrightarrow> edits (xs @ us) (ys @ vs) (n + m)"
proof (induction rule: edits.induct)
  case (edits_keep xs ys n x)
  then show ?case by (auto intro: edits.edits_keep)
next
  case (edits_subst xs ys n x y)
  then show ?case using edits.edits_subst [of "xs @ us" "ys @ vs" "n + m" x y] by simp
next
  case (edits_delete xs ys n x)
  then show ?case using edits.edits_delete [of "xs @ us" "ys @ vs" "n + m" x] by simp
next
  case (edits_insert xs ys n y)
  then show ?case using edits.edits_insert [of "xs @ us" "ys @ vs" "n + m" y] by simp
qed simp

lemma edits_single:
  "edits [x] [x] 0" "edits [x] [y] 1" "edits [x] [] 1" "edits [] [y] 1"
  using edits_keep [OF edits_nil] edits_subst [OF edits_nil] edits_delete [OF edits_nil] edits_insert [OF edits_nil]
  by auto

lemma edits_rev: "edits xs ys n \<Longrightarrow> edits (rev xs) (rev ys) n"
proof (induction rule: edits.induct)
  case edits_nil
  then show ?case by (simp add: edits.edits_nil)
next
  case (edits_keep xs ys n x)
  then show ?case using edits_append [OF _ edits_single(1)] by fastforce
next
  case (edits_subst xs ys n x y)
  then show ?case using edits_append [OF _ edits_single(2)] by fastforce
next
  case (edits_delete xs ys n x)
  then show ?case using edits_append [OF _ edits_single(3), of "rev xs" "rev ys" n x] by simp
next
  case (edits_insert xs ys n y)
  then show ?case using edits_append [OF _ edits_single(4), of "rev xs" "rev ys" n y] by simp
qed

lemma edits_Nil: "edits xs [] (length xs)" "edits [] ys (length ys)"
proof -
  show "edits xs [] (length xs)" by (induction xs) (use edits_nil edits_delete in fastforce)+
  show "edits [] ys (length ys)" by (induction ys) (use edits_nil edits_insert in fastforce)+
qed

lemma edits_lengths: "edits xs ys n \<Longrightarrow> length xs \<le> length ys + n \<and> length ys \<le> length xs + n"
  by (induction rule: edits.induct) auto

fun lev :: "'a list \<Rightarrow> 'a list \<Rightarrow> nat" where
  "lev [] ys = length ys"
| "lev xs [] = length xs"
| "lev (x # xs) (y # ys) =
     min (min (lev xs (y # ys) + 1) (lev (x # xs) ys + 1)) (lev xs ys + (if x = y then 0 else 1))"

lemma lev_Nil2 [simp]: "lev xs [] = length xs"
  by (cases xs) auto

lemma edits_lev: "edits xs ys (lev xs ys)"
proof (induction xs ys rule: lev.induct)
  case (1 ys)
  then show ?case using edits_Nil(2) [of ys] by simp
next
  case (2 x xs)
  then show ?case using edits_Nil(1) [of "x # xs"] by simp
next
  case (3 x xs y ys)
  have "edits (x # xs) (y # ys) (lev xs ys + (if x = y then 0 else 1))"
    using 3(3) by (auto intro: edits_keep edits_subst [simplified])
  with edits_delete [OF 3(1)] edits_insert [OF 3(2)] show ?case by (auto simp: min_def)
qed

lemma lev_least: "edits xs ys n \<Longrightarrow> lev xs ys \<le> n"
proof (induction xs ys arbitrary: n rule: lev.induct)
  case (3 x xs y ys)
  from 3(4) show ?case by (cases rule: edits_ConsE) (use 3(1-3) in fastforce)+
qed (use edits_lengths in fastforce)+

section \<open>The rolling row\<close>

text \<open>The distance between the first \<open>i\<close> characters of one word and the first \<open>j\<close> of the other.\<close>

definition lev_at :: "string \<Rightarrow> string \<Rightarrow> nat \<Rightarrow> nat \<Rightarrow> nat" where
  "lev_at a b i j = lev (rev (take i (map er_lower a))) (rev (take j (map er_lower b)))"

lemma lev_at_0: "j \<le> length b \<Longrightarrow> lev_at a b 0 j = j" "i \<le> length a \<Longrightarrow> lev_at a b i 0 = i"
  by (simp_all add: lev_at_def)

lemma lev_at_Suc:
  assumes "i < length a" and "j < length b"
  shows "lev_at a b (Suc i) (Suc j) = min (min (lev_at a b i (Suc j) + 1) (lev_at a b (Suc i) j + 1))
     (lev_at a b i j + (if er_lower (a ! i) = er_lower (b ! j) then 0 else 1))"
  using assms by (simp add: lev_at_def take_Suc_conv_app_nth)

lemma edit_cells:
  assumes "i < length a" and "k \<le> length b" and "length row = length b + 1"
    and "\<forall>j \<le> length b. row ! j = lev_at a b i j"
  shows "\<exists>row'. foldl (edit_cell a b (Suc i)) (row ! 0, row[0 := Suc i]) [1 ..< k + 1] = (lev_at a b i k, row') \<and>
     length row' = length b + 1 \<and>
     (\<forall>j \<le> length b. row' ! j = (if j \<le> k then lev_at a b (Suc i) j else lev_at a b i j))"
  using assms(2)
proof (induction k)
  case 0
  then show ?case using assms by (auto simp: lev_at_0 nth_list_update)
next
  case (Suc k)
  then obtain row' where r: "foldl (edit_cell a b (Suc i)) (row ! 0, row[0 := Suc i]) [1 ..< k + 1] = (lev_at a b i k, row')"
      "length row' = length b + 1" "\<forall>j \<le> length b. row' ! j = (if j \<le> k then lev_at a b (Suc i) j else lev_at a b i j)"
    by auto
  have "foldl (edit_cell a b (Suc i)) (row ! 0, row[0 := Suc i]) [1 ..< Suc k + 1] =
      edit_cell a b (Suc i) (lev_at a b i k, row') (Suc k)" using r(1) by simp
  also have "\<dots> = (lev_at a b i (Suc k), row'[Suc k := lev_at a b (Suc i) (Suc k)])"
    using r(3) Suc.prems assms(1) lev_at_Suc [of i a k b]
    by (simp add: edit_cell_def Let_def min_def)
  finally show ?case using r(2,3) Suc.prems by (auto simp: nth_list_update)
qed

lemma edit_rows:
  assumes "k \<le> length a"
  shows "length (foldl (edit_row a b) [0 ..< length b + 1] [1 ..< k + 1]) = length b + 1 \<and>
     (\<forall>j \<le> length b. foldl (edit_row a b) [0 ..< length b + 1] [1 ..< k + 1] ! j = lev_at a b k j)"
  using assms
proof (induction k)
  case 0
  then show ?case by (auto simp: lev_at_0 simp del: upt_Suc)
next
  case (Suc k)
  let ?row = "foldl (edit_row a b) [0 ..< length b + 1] [1 ..< k + 1]"
  from edit_cells [of k a "length b" b ?row] Suc
  obtain row' where "foldl (edit_cell a b (Suc k)) (?row ! 0, ?row[0 := Suc k]) [1 ..< length b + 1] = (lev_at a b k (length b), row')"
     "length row' = length b + 1" "\<forall>j \<le> length b. row' ! j = lev_at a b (Suc k) j" by auto
  moreover have "foldl (edit_row a b) [0 ..< length b + 1] [1 ..< Suc k + 1] = edit_row a b ?row (Suc k)" by simp
  moreover have "edit_row a b ?row (Suc k) = row'"
    using calculation(1) by (simp add: edit_row_def del: upt_Suc)
  ultimately show ?case by (simp del: upt_Suc)
qed

lemma edit_distance_lev:
  "error_reporter_edit_distance a b = lev (rev (map er_lower a)) (rev (map er_lower b))"
  using edit_rows [of "length a" a b] by (auto simp: error_reporter_edit_distance_def lev_at_def)

text \<open>Edit distance. The rolling-row computation gives the least number of insertions, deletions and
  substitutions of single characters, upper and lower case counting as equal, that turn one word into the
  other.\<close>

theorem edit_distance_least:
  "edits (map er_lower a) (map er_lower b) (error_reporter_edit_distance a b) \<and>
   error_reporter_edit_distance a b = (LEAST n. edits (map er_lower a) (map er_lower b) n)"
proof -
  have e: "edits (map er_lower a) (map er_lower b) (error_reporter_edit_distance a b)"
    using edits_rev [OF edits_lev [of "rev (map er_lower a)" "rev (map er_lower b)"]] by (simp add: edit_distance_lev)
  moreover have "error_reporter_edit_distance a b \<le> n" if "edits (map er_lower a) (map er_lower b) n" for n
    using lev_least [OF edits_rev [OF that]] by (simp add: edit_distance_lev)
  ultimately show ?thesis by (auto intro!: Least_equality [symmetric])
qed

section \<open>Choosing a suggestion\<close>

definition eligible :: "string \<Rightarrow> string \<Rightarrow> bool" where
  "eligible name cand \<longleftrightarrow> cand \<noteq> [] \<and> cand \<noteq> name \<and>
     error_reporter_edit_distance name cand \<le> suggestion_threshold (length name)"

lemma threshold_range: "1 \<le> suggestion_threshold n \<and> suggestion_threshold n \<le> 3"
  by (auto simp: suggestion_threshold_def Let_def)

text \<open>The state of the candidate loop: nothing found among \<open>cs\<close>, or the nearest eligible name among them.\<close>

definition nearest :: "string \<Rightarrow> string list \<Rightarrow> string option \<times> nat \<Rightarrow> bool" where
  "nearest name cs st \<longleftrightarrow>
     (case fst st of
        None \<Rightarrow> snd st = 2 ^ 64 - 1 \<and> (\<forall>c \<in> set cs. \<not> eligible name c)
      | Some best \<Rightarrow> best \<in> set cs \<and> eligible name best \<and> snd st = error_reporter_edit_distance name best \<and>
          (\<forall>c \<in> set cs. eligible name c \<longrightarrow> error_reporter_edit_distance name best \<le> error_reporter_edit_distance name c))"

lemma nearest_step:
  assumes "nearest name cs st"
  shows "nearest name (cs @ [c]) (consider_candidate name st c)"
proof (cases "eligible name c")
  case True
  then have "error_reporter_edit_distance name c < 2 ^ 64 - 1"
    using threshold_range [of "length name"] by (auto simp: eligible_def)
  with True assms show ?thesis
    by (cases st; cases "fst st") (auto simp: nearest_def consider_candidate_def eligible_def Let_def)
next
  case False
  then have "consider_candidate name st c = st"
    by (cases st) (auto simp: consider_candidate_def eligible_def Let_def)
  with False assms show ?thesis by (cases "fst st") (auto simp: nearest_def)
qed

lemma nearest_foldl: "nearest name cs (foldl (consider_candidate name) (None, 2 ^ 64 - 1) cs)"
proof (induction cs rule: rev_induct)
  case Nil
  then show ?case by (simp add: nearest_def)
next
  case (snoc c cs)
  then show ?case using nearest_step by simp
qed

text \<open>(C32) Suggestions. The name suggested for a misspelled one is a visible symbol of an allowed kind, other
  than the name itself, within the distance threshold, and no other such symbol is nearer; nothing is
  suggested exactly when no visible symbol qualifies.\<close>

theorem suggest_similar_nearest:
  assumes "name \<noteq> []"
  shows "case symbol_table_suggest_similar table name kinds of
     None \<Rightarrow> \<forall>scope \<in> set (st_scopes table). \<forall>s \<in> set (sc_symbols scope).
        symbol_kind_allowed (sym_kind s) kinds \<longrightarrow> \<not> eligible name (sym_name s)
   | Some best \<Rightarrow>
        (\<exists>scope \<in> set (st_scopes table). \<exists>s \<in> set (sc_symbols scope).
           sym_name s = best \<and> symbol_kind_allowed (sym_kind s) kinds) \<and> eligible name best \<and>
        (\<forall>scope \<in> set (st_scopes table). \<forall>s \<in> set (sc_symbols scope).
           symbol_kind_allowed (sym_kind s) kinds \<and> eligible name (sym_name s) \<longrightarrow>
           error_reporter_edit_distance name best \<le> error_reporter_edit_distance name (sym_name s))"
proof -
  let ?cs = "candidate_names table kinds"
  have cs: "c \<in> set ?cs \<longleftrightarrow> (\<exists>scope \<in> set (st_scopes table). \<exists>s \<in> set (sc_symbols scope).
      sym_name s = c \<and> symbol_kind_allowed (sym_kind s) kinds)" for c
    by (auto simp: candidate_names_def)
  have "symbol_table_suggest_similar table name kinds = fst (foldl (consider_candidate name) (None, 2 ^ 64 - 1) ?cs)"
    using assms by (simp add: symbol_table_suggest_similar_def error_reporter_closest_candidate_def)
  moreover have mem: "sym_name s \<in> set ?cs"
    if "scope \<in> set (st_scopes table)" "s \<in> set (sc_symbols scope)" "symbol_kind_allowed (sym_kind s) kinds" for scope s
    using that cs by blast
  ultimately show ?thesis
    using nearest_foldl [of name ?cs] unfolding nearest_def by (auto split: option.split simp: cs dest: mem)
qed

theorem suggest_similar_nearest_witness:
  "symbol_table_suggest_similar \<lparr>st_scopes = [(empty_scope SCOPE_GLOBAL)\<lparr>sc_symbols := [plain_symbol ''print'']\<rparr>]\<rparr> ''prnt'' [] =
     Some ''print'' \<and> eligible ''prnt'' ''print''"
proof -
  let ?t = "\<lparr>st_scopes = [(empty_scope SCOPE_GLOBAL)\<lparr>sc_symbols := [plain_symbol ''print'']\<rparr>]\<rparr>"
  have "eligible ''prnt'' ''print''" by code_simp
  moreover have "''prnt'' \<noteq> []" by simp
  from suggest_similar_nearest [OF this, of ?t "[]"] calculation
  have "symbol_table_suggest_similar ?t ''prnt'' [] = Some ''print''"
    by (auto simp: plain_symbol_def symbol_kind_allowed_def split: option.splits)
  ultimately show ?thesis by simp
qed

end
