(* ===== verification/Linker_Bytes.thy ===== *)
theory Linker_Bytes
  imports Mettle_Prelude
begin

text \<open>
  The byte-level helpers of \<^verbatim>\<open>src/src/linker/linker_common.h\<close> (little-endian reads and writes, alignment) and
  the result type of the linker: a function either returns a value, or rejects its input with a
  message, or accesses memory outside an object, which is a \<open>Fault\<close> of the model and never a regular
  outcome.
\<close>

datatype link_error = Rejected string | Fault

type_synonym 'a linked = "link_error + 'a"

definition and_then :: "'a linked \<Rightarrow> ('a \<Rightarrow> 'b linked) \<Rightarrow> 'b linked" where
  "and_then r f = (case r of Inl e \<Rightarrow> Inl e | Inr x \<Rightarrow> f x)"

definition reject :: "string \<Rightarrow> 'a linked" where
  "reject message = Inl (Rejected message)"

lemma and_then_simps [simp]: "and_then (Inl e) f = Inl e" "and_then (Inr x) f = f x"
  by (simp_all add: and_then_def)

lemma and_then_Inr: "and_then r f = Inr y \<longleftrightarrow> (\<exists>x. r = Inr x \<and> f x = Inr y)"
  by (cases r) auto

lemma and_then_Fault: "and_then r f = Inl Fault \<longleftrightarrow> r = Inl Fault \<or> (\<exists>x. r = Inr x \<and> f x = Inl Fault)"
  by (cases r) auto

lemma reject_simps [simp]: "reject m \<noteq> Inr x" "reject m \<noteq> Inl Fault"
  by (simp_all add: reject_def)

text \<open>The bytes \<open>data[offset .. offset + count)\<close>, all of which the caller reads.\<close>

definition read_bytes :: "bytes \<Rightarrow> nat \<Rightarrow> nat \<Rightarrow> bytes linked" where
  "read_bytes data offset count =
     (if offset + count \<le> length data then Inr (take count (drop offset data)) else Inl Fault)"

lemma read_bytes_ok: "offset + count \<le> length data \<Longrightarrow> read_bytes data offset count = Inr (take count (drop offset data))"
  by (simp add: read_bytes_def)

section \<open>Integers in byte arrays\<close>

definition linker_read_u16 :: "bytes \<Rightarrow> u16" where
  "linker_read_u16 data = ucast (data ! 0) OR push_bit 8 (ucast (data ! 1))"

definition linker_read_u32 :: "bytes \<Rightarrow> u32" where
  "linker_read_u32 data =
     ucast (data ! 0) OR push_bit 8 (ucast (data ! 1)) OR push_bit 16 (ucast (data ! 2)) OR
     push_bit 24 (ucast (data ! 3))"

definition linker_read_u64 :: "bytes \<Rightarrow> u64" where
  "linker_read_u64 data =
     ucast (linker_read_u32 data) OR push_bit 32 (ucast (linker_read_u32 (drop 4 data)))"

text \<open>The bytes written at the start of \<open>data\<close>.\<close>

definition bytes_u32 :: "u32 \<Rightarrow> bytes" where
  "bytes_u32 value =
     [ucast (value AND 0xFF), ucast (drop_bit 8 value AND 0xFF), ucast (drop_bit 16 value AND 0xFF),
      ucast (drop_bit 24 value AND 0xFF)]"

definition bytes_u16 :: "u16 \<Rightarrow> bytes" where
  "bytes_u16 value = [ucast (value AND 0xFF), ucast (drop_bit 8 value AND 0xFF)]"

definition bytes_u64 :: "u64 \<Rightarrow> bytes" where
  "bytes_u64 value =
     [ucast (value AND 0xFF), ucast (drop_bit 8 value AND 0xFF), ucast (drop_bit 16 value AND 0xFF),
      ucast (drop_bit 24 value AND 0xFF), ucast (drop_bit 32 value AND 0xFF), ucast (drop_bit 40 value AND 0xFF),
      ucast (drop_bit 48 value AND 0xFF), ucast (drop_bit 56 value AND 0xFF)]"

definition write_bytes :: "bytes \<Rightarrow> nat \<Rightarrow> bytes \<Rightarrow> bytes" where
  "write_bytes data offset bs = take offset data @ bs @ drop (offset + length bs) data"

definition linker_write_u32 :: "bytes \<Rightarrow> nat \<Rightarrow> u32 \<Rightarrow> bytes" where
  "linker_write_u32 data offset value = write_bytes data offset (bytes_u32 value)"

definition linker_write_u64 :: "bytes \<Rightarrow> nat \<Rightarrow> u64 \<Rightarrow> bytes" where
  "linker_write_u64 data offset value = write_bytes data offset (bytes_u64 value)"

text \<open>\<open>size_t\<close> arithmetic: 64-bit words.\<close>

definition linker_align_up :: "nat \<Rightarrow> nat \<Rightarrow> nat" where
  "linker_align_up value alignment =
     (if alignment = 0 then value
      else unat ((of_nat value + of_nat alignment - 1 :: u64) AND NOT (of_nat alignment - 1)))"

section \<open>Reading what was written\<close>

lemma byte_mask: "(0xFF :: 'a :: len word) = mask 8"
  by (simp add: mask_eq_exp_minus_1)

lemma bit_byte: "bit (ucast (drop_bit k v AND 0xFF) :: u8) j \<longleftrightarrow> j < 8 \<and> bit (v :: 'a :: len word) (k + j)"
  unfolding byte_mask
  by (auto simp: bit_ucast_iff bit_and_iff bit_mask_iff bit_drop_bit_eq dest: bit_imp_le_length)

lemmas bit_byte0 = bit_byte [of 0, simplified]

lemma bit_place: "bit (push_bit k (ucast (b :: u8)) :: 'a :: len word) n \<longleftrightarrow> k \<le> n \<and> n < LENGTH('a) \<and> bit b (n - k)"
  by (auto simp: bit_push_bit_iff bit_ucast_iff)

lemma bit_read_u32:
  "bit (linker_read_u32 data) n \<longleftrightarrow> n < 32 \<and> bit (data ! (n div 8)) (n mod 8)"
proof -
  have hi: "bit (b :: u8) k \<Longrightarrow> k < 8" for b k using bit_imp_le_length [of b k] by simp
  consider "n < 8" | "8 \<le> n" "n < 16" | "16 \<le> n" "n < 24" | "24 \<le> n" "n < 32" | "32 \<le> n" by linarith
  then show ?thesis
  proof cases
    case 1
    then show ?thesis by (auto simp: linker_read_u32_def bit_or_iff bit_place bit_ucast_iff)
  next
    case 2
    then have "n div 8 = 1" "n mod 8 = n - 8" by (simp_all add: div_nat_eqI le_mod_geq)
    with 2 show ?thesis by (auto simp: linker_read_u32_def bit_or_iff bit_place bit_ucast_iff dest: hi)
  next
    case 3
    then have "n div 8 = 2" "n mod 8 = n - 16" by (simp_all add: div_nat_eqI le_mod_geq)
    with 3 show ?thesis by (auto simp: linker_read_u32_def bit_or_iff bit_place bit_ucast_iff dest: hi)
  next
    case 4
    then have "n div 8 = 3" "n mod 8 = n - 24" by (simp_all add: div_nat_eqI le_mod_geq)
    with 4 show ?thesis by (auto simp: linker_read_u32_def bit_or_iff bit_place bit_ucast_iff dest: hi)
  next
    case 5
    then show ?thesis by (auto dest: bit_imp_le_length)
  qed
qed

lemma bit_bytes_u32: "n < 32 \<Longrightarrow> bit (bytes_u32 v ! (n div 8)) (n mod 8) = bit v n"
proof -
  assume "n < 32"
  define q r where "q = n div 8" and "r = n mod 8"
  have n: "n = 8 * q + r" "r < 8" by (simp_all add: q_def r_def)
  have "q = 0 \<or> q = 1 \<or> q = 2 \<or> q = 3" using \<open>n < 32\<close> n by linarith
  moreover have "bytes_u32 v ! 0 = ucast (drop_bit 0 v AND 0xFF)" "bytes_u32 v ! 1 = ucast (drop_bit 8 v AND 0xFF)"
    "bytes_u32 v ! 2 = ucast (drop_bit 16 v AND 0xFF)" "bytes_u32 v ! 3 = ucast (drop_bit 24 v AND 0xFF)"
    by (simp_all add: bytes_u32_def)
  ultimately have "bit (bytes_u32 v ! q) r = bit v n" using n by (elim disjE) (simp_all only: bit_byte, simp_all)
  then show ?thesis by (simp only: q_def r_def)
qed

lemma read_bytes_u32: "linker_read_u32 (bytes_u32 v @ rest) = v"
proof (rule bit_word_eqI)
  fix n assume "n < LENGTH(32)"
  moreover from this have "(bytes_u32 v @ rest) ! (n div 8) = bytes_u32 v ! (n div 8)"
    by (subst nth_append) (auto simp: bytes_u32_def)
  ultimately show "bit (linker_read_u32 (bytes_u32 v @ rest)) n = bit v n"
    by (simp add: bit_read_u32 bit_bytes_u32)
qed

lemma read_bytes_u16: "linker_read_u16 (bytes_u16 v @ rest) = v"
  by (rule bit_word_eqI)
    (auto simp: linker_read_u16_def bytes_u16_def byte_mask bit_or_iff bit_push_bit_iff bit_unsigned_iff bit_and_iff
      bit_mask_iff bit_drop_bit_eq)

lemma bytes_u64_halves: "bytes_u64 v = bytes_u32 (ucast v) @ bytes_u32 (ucast (drop_bit 32 v))"
proof -
  have "(ucast (drop_bit k (ucast v :: u32) AND 0xFF) :: u8) = ucast (drop_bit k v AND 0xFF)"
    if "k + 8 \<le> 32" for k
    by (rule bit_word_eqI, simp only: bit_byte) (use that in \<open>auto simp: bit_ucast_iff\<close>)
  from this [of 0] this [of 8] this [of 16] this [of 24]
  have lo: "bytes_u32 (ucast v) = [ucast (v AND 0xFF), ucast (drop_bit 8 v AND 0xFF), ucast (drop_bit 16 v AND 0xFF),
      ucast (drop_bit 24 v AND 0xFF)]" by (simp add: bytes_u32_def)
  have "(ucast (drop_bit k (ucast (drop_bit 32 v) :: u32) AND 0xFF) :: u8) = ucast (drop_bit (k + 32) v AND 0xFF)"
    if "k + 8 \<le> 32" for k
    by (rule bit_word_eqI, simp only: bit_byte) (use that in \<open>auto simp: bit_ucast_iff bit_drop_bit_eq ac_simps\<close>)
  from this [of 0] this [of 8] this [of 16] this [of 24]
  have "bytes_u32 (ucast (drop_bit 32 v)) = [ucast (drop_bit 32 v AND 0xFF), ucast (drop_bit 40 v AND 0xFF),
      ucast (drop_bit 48 v AND 0xFF), ucast (drop_bit 56 v AND 0xFF)]" by (simp add: bytes_u32_def)
  with lo show ?thesis by (simp add: bytes_u64_def)
qed

lemma read_bytes_u64: "linker_read_u64 (bytes_u64 v @ rest) = v"
proof -
  have "linker_read_u32 (bytes_u64 v @ rest) = ucast v"
    by (simp add: bytes_u64_halves read_bytes_u32)
  moreover have "drop 4 (bytes_u64 v @ rest) = bytes_u32 (ucast (drop_bit 32 v)) @ rest"
    unfolding bytes_u64_halves by (simp add: bytes_u32_def)
  ultimately have "linker_read_u64 (bytes_u64 v @ rest) =
      ucast (ucast v :: u32) OR push_bit 32 (ucast (ucast (drop_bit 32 v) :: u32))"
    by (simp add: linker_read_u64_def read_bytes_u32)
  also have "\<dots> = v"
    by (rule bit_word_eqI) (auto simp: bit_or_iff bit_push_bit_iff bit_ucast_iff bit_drop_bit_eq not_less)
  finally show ?thesis .
qed

lemma write_bytes_simps:
  assumes "offset + length bs \<le> length data"
  shows "length (write_bytes data offset bs) = length data"
    "drop offset (write_bytes data offset bs) = bs @ drop (offset + length bs) data"
    "i < offset \<or> offset + length bs \<le> i \<Longrightarrow> i < length data \<Longrightarrow> write_bytes data offset bs ! i = data ! i"
  using assms by (auto simp: write_bytes_def nth_append)

lemma length_bytes [simp]: "length (bytes_u16 u) = 2" "length (bytes_u32 v) = 4" "length (bytes_u64 w) = 8"
  by (simp_all add: bytes_u16_def bytes_u32_def bytes_u64_def)

section \<open>Alignment\<close>

lemma and_not_mask: "(x :: u64) AND NOT (mask k) = x - take_bit k x"
proof -
  have "x = (x AND NOT (mask k)) + (x AND mask k)"
    by (subst disjunctive_add) (auto simp: bit_simps bit_eq_iff)
  then show ?thesis by (simp add: take_bit_eq_mask algebra_simps)
qed

lemma align_up_pow2:
  assumes "k < 64" and "value + (2 ^ k - 1) < 2 ^ 64"
  shows "linker_align_up value (2 ^ k) = (value + (2 ^ k - 1)) div 2 ^ k * 2 ^ k"
proof -
  define n where "n = value + (2 ^ k - 1)"
  have n: "n < 2 ^ 64" using assms(2) by (simp add: n_def)
  have pos: "(1 :: nat) \<le> 2 ^ k" by simp
  have "value + 2 ^ k = n + 1" using pos by (simp add: n_def)
  then have "(of_nat value + of_nat (2 ^ k) :: u64) = of_nat (n + 1)" by (simp only: of_nat_add [symmetric])
  then have "(of_nat value + of_nat (2 ^ k) - 1 :: u64) = of_nat n" by (simp only: of_nat_add of_nat_1 add_diff_cancel_right')
  moreover have "(of_nat (2 ^ k) - 1 :: u64) = mask k" by (simp add: mask_eq_exp_minus_1)
  ultimately have "linker_align_up value (2 ^ k) = unat ((of_nat n :: u64) AND NOT (mask k))"
    by (simp add: linker_align_up_def)
  also have "\<dots> = unat ((of_nat n :: u64) - take_bit k (of_nat n))" by (simp only: and_not_mask)
  also have "(of_nat n :: u64) - take_bit k (of_nat n) = of_nat (n - take_bit k n)"
    by (simp add: take_bit_of_nat of_nat_diff)
  also have "unat (of_nat (n - take_bit k n) :: u64) = n - take_bit k n"
    by (subst unat_of_nat) (use n in simp)
  also have "\<dots> = n - n mod 2 ^ k" by (simp add: take_bit_eq_mod)
  also have "\<dots> = n div 2 ^ k * 2 ^ k" by (simp add: minus_mod_eq_div_mult)
  finally show ?thesis by (simp only: n_def)
qed

text \<open>What the callers use: the next multiple.\<close>

lemma align_up_bounds:
  assumes "k < 64" and "value + (2 ^ k - 1) < 2 ^ 64"
  shows "2 ^ k dvd linker_align_up value (2 ^ k)" "value \<le> linker_align_up value (2 ^ k)"
    "linker_align_up value (2 ^ k) < value + 2 ^ k"
proof -
  define n where "n = value + (2 ^ k - 1)"
  have e: "linker_align_up value (2 ^ k) = n div 2 ^ k * 2 ^ k"
    unfolding n_def by (rule align_up_pow2 [OF assms])
  define a b :: nat where "a = n div 2 ^ k * 2 ^ k" and "b = 2 ^ k"
  have "a + n mod b = n" unfolding a_def b_def by (rule div_mult_mod_eq)
  moreover have "n mod b < b" by (simp add: b_def)
  moreover have "n = value + (b - 1)" "0 < b" by (simp_all add: n_def b_def)
  ultimately have "value \<le> a" "a < value + b" by linarith+
  then show "value \<le> linker_align_up value (2 ^ k)" "linker_align_up value (2 ^ k) < value + 2 ^ k"
    by (simp_all add: e a_def b_def)
  show "2 ^ k dvd linker_align_up value (2 ^ k)" by (simp add: e)
qed

section \<open>Words that survive the cut to 32 bits\<close>

lemma scast_ucast_small:
  assumes "- (2 ^ 31) \<le> sint (v :: u64)" and "sint v \<le> 2 ^ 31 - 1"
  shows "scast (ucast v :: u32) = v"
proof -
  have "sint (ucast v :: u32) = signed_take_bit 31 (sint v)"
    by (simp add: sint_uint unsigned_ucast_eq signed_take_bit_take_bit signed_take_bit_signed_take_bit)
  also have "\<dots> = sint v" using assms by (intro signed_take_bit_int_eq_self) auto
  finally show ?thesis by (simp add: scast_eq)
qed

lemma ucast_ucast_small: "(v :: u64) \<le> 0xFFFFFFFF \<Longrightarrow> ucast (ucast v :: u32) = v"
proof -
  assume "v \<le> 0xFFFFFFFF"
  then have "uint v < 2 ^ 32" by (simp add: word_le_def)
  then have "uint (ucast (ucast v :: u32) :: u64) = uint v"
    by (simp add: unsigned_ucast_eq unsigned_take_bit_eq take_bit_int_eq_self)
  then show ?thesis by (rule word_uint_eqI)
qed

end
