(* ===== verification/Coff_Reader.thy ===== *)
theory Coff_Reader
  imports Linker_Bytes
begin

text \<open>
  The COFF object reader of \<^verbatim>\<open>src/src/linker/coff_reader.c\<close>. It works on the bytes of a file; the file
  system is the parameter \<open>read_file\<close>. Every record the C code reads through a pointer into the file is read
  here with \<open>read_bytes\<close>, which faults when the record is not inside the file. Error messages are the
  format strings of the source. Allocation succeeds.
\<close>

section \<open>Data\<close>

datatype CoffSectionKind = COFF_SECTION_KIND_UNKNOWN | COFF_SECTION_KIND_TEXT | COFF_SECTION_KIND_RDATA
  | COFF_SECTION_KIND_DATA | COFF_SECTION_KIND_BSS | COFF_SECTION_KIND_PDATA | COFF_SECTION_KIND_XDATA

record CoffRelocation =
  rel_virtual_address :: u32
  rel_symbol_table_index :: u32
  rel_type :: u16

record CoffSection =
  sec_name :: string
  sec_kind :: CoffSectionKind
  sec_virtual_size :: u32
  sec_virtual_address :: u32
  sec_size_of_raw_data :: u32
  sec_pointer_to_raw_data :: u32
  sec_pointer_to_relocations :: u32
  sec_pointer_to_line_numbers :: u32
  sec_number_of_relocations :: u16
  sec_number_of_line_numbers :: u16
  sec_characteristics :: u32
  sec_raw_data :: bytes
  sec_relocations :: "CoffRelocation list"

record CoffSymbol =
  cs_raw_index :: u32
  cs_name :: "string option"
  cs_value :: u32
  cs_section_number :: u16
  cs_type :: u16
  cs_storage_class :: u8
  cs_auxiliary_count :: u8
  cs_is_auxiliary :: bool
  cs_primary_symbol_index :: u32
  cs_has_auxiliary_record :: bool
  cs_aux_section_length :: u32
  cs_aux_section_relocation_count :: u16
  cs_aux_section_line_number_count :: u16

text \<open>\<open>cs_section_number\<close> holds the bits of an \<open>int16_t\<close>; its value is read with \<open>sint\<close>.\<close>

record CoffObject =
  obj_machine :: u16
  obj_section_count :: u16
  obj_time_date_stamp :: u32
  obj_pointer_to_symbol_table :: u32
  obj_symbol_count :: u32
  obj_size_of_optional_header :: u16
  obj_characteristics :: u16
  obj_sections :: "CoffSection list"
  obj_symbols :: "CoffSymbol list"
  obj_string_table :: bytes

definition COFF_FILE_HEADER_SIZE :: nat where "COFF_FILE_HEADER_SIZE = 20"
definition COFF_SECTION_HEADER_SIZE :: nat where "COFF_SECTION_HEADER_SIZE = 40"
definition COFF_SYMBOL_SIZE :: nat where "COFF_SYMBOL_SIZE = 18"
definition COFF_RELOCATION_SIZE :: nat where "COFF_RELOCATION_SIZE = 10"

lemmas coff_sizes [simp] = COFF_FILE_HEADER_SIZE_def COFF_SECTION_HEADER_SIZE_def COFF_SYMBOL_SIZE_def
  COFF_RELOCATION_SIZE_def

section \<open>Names\<close>

definition byte_char :: "u8 \<Rightarrow> char" where
  "byte_char b = char_of (unat b)"

text \<open>Both copying functions make a C string; \<open>coff_reader_dup_bytes_trimmed\<close> copies all bytes up to the
  trailing NULs, and the string ends at the first NUL.\<close>

definition coff_reader_dup_bytes_trimmed :: "bytes \<Rightarrow> string" where
  "coff_reader_dup_bytes_trimmed bs =
     c_string (map byte_char (rev (dropWhile (\<lambda>b. b = 0) (rev bs))))"

definition coff_reader_dup_cstring_range :: "bytes \<Rightarrow> string option" where
  "coff_reader_dup_cstring_range bs =
     (let str = takeWhile (\<lambda>b. b \<noteq> 0) bs
      in if length str = length bs then None else Some (map byte_char str))"

definition coff_reader_string_from_table :: "CoffObject \<Rightarrow> u32 \<Rightarrow> string option" where
  "coff_reader_string_from_table object offset =
     (let size = length (obj_string_table object)
      in if size < 4 then None
         else if unat offset < 4 \<or> unat offset \<ge> size then None
         else coff_reader_dup_cstring_range (drop (unat offset) (obj_string_table object)))"

text \<open>The digit loop of a \<open>/offset\<close> section name; \<open>None\<close> when something else than a digit is met.\<close>

fun section_name_offset :: "bytes \<Rightarrow> u32 \<Rightarrow> u32 option" where
  "section_name_offset [] offset = Some offset"
| "section_name_offset (b # bs) offset =
     (if b = 0 then Some offset
      else if \<not> c_isdigit (byte_char b) then None
      else section_name_offset bs (offset * 10 + (ucast b - 48)))"

definition coff_reader_parse_section_name :: "bytes \<Rightarrow> CoffObject \<Rightarrow> string option" where
  "coff_reader_parse_section_name field object =
     (if byte_char (field ! 0) = CHR ''/''
      then (case section_name_offset (drop 1 (take 8 field)) 0 of
              None \<Rightarrow> Some (coff_reader_dup_bytes_trimmed (take 8 field))
            | Some offset \<Rightarrow> coff_reader_string_from_table object offset)
      else Some (coff_reader_dup_bytes_trimmed (take 8 field)))"

definition coff_reader_parse_symbol_name :: "bytes \<Rightarrow> CoffObject \<Rightarrow> string option" where
  "coff_reader_parse_symbol_name field object =
     (let zero_prefix = linker_read_u32 field; offset = linker_read_u32 (drop 4 field)
      in if zero_prefix = 0 \<and> offset \<noteq> 0 then coff_reader_string_from_table object offset
         else Some (coff_reader_dup_bytes_trimmed (take 8 field)))"

definition coff_section_name_matches_prefix :: "string \<Rightarrow> string \<Rightarrow> bool" where
  "coff_section_name_matches_prefix name pre \<longleftrightarrow>
     take (length pre) name = pre \<and>
     (case drop (length pre) name of [] \<Rightarrow> True | c # _ \<Rightarrow> c = CHR ''$'' \<or> c = CHR ''.'')"

definition coff_section_kind_from_name :: "string \<Rightarrow> CoffSectionKind" where
  "coff_section_kind_from_name name =
     (if name = [] \<or> hd name \<noteq> CHR ''.'' then COFF_SECTION_KIND_UNKNOWN
      else if coff_section_name_matches_prefix name ''.text'' then COFF_SECTION_KIND_TEXT
      else if coff_section_name_matches_prefix name ''.rdata'' then COFF_SECTION_KIND_RDATA
      else if coff_section_name_matches_prefix name ''.data'' then COFF_SECTION_KIND_DATA
      else if coff_section_name_matches_prefix name ''.bss'' then COFF_SECTION_KIND_BSS
      else if coff_section_name_matches_prefix name ''.pdata'' then COFF_SECTION_KIND_PDATA
      else if coff_section_name_matches_prefix name ''.xdata'' then COFF_SECTION_KIND_XDATA
      else COFF_SECTION_KIND_UNKNOWN)"

fun coff_section_kind_name :: "CoffSectionKind \<Rightarrow> string" where
  "coff_section_kind_name COFF_SECTION_KIND_TEXT = ''.text''"
| "coff_section_kind_name COFF_SECTION_KIND_RDATA = ''.rdata''"
| "coff_section_kind_name COFF_SECTION_KIND_DATA = ''.data''"
| "coff_section_kind_name COFF_SECTION_KIND_BSS = ''.bss''"
| "coff_section_kind_name COFF_SECTION_KIND_PDATA = ''.pdata''"
| "coff_section_kind_name COFF_SECTION_KIND_XDATA = ''.xdata''"
| "coff_section_kind_name COFF_SECTION_KIND_UNKNOWN = ''<unknown>''"

definition coff_relocation_type_name :: "u16 \<Rightarrow> string" where
  "coff_relocation_type_name type =
     (if type = 1 then ''ADDR64'' else if type = 3 then ''ADDR32NB'' else if type = 4 then ''REL32''
      else if type = 11 then ''SECREL'' else ''UNKNOWN'')"

section \<open>Parsing\<close>

definition coff_reader_range_ok :: "nat \<Rightarrow> u32 \<Rightarrow> nat \<Rightarrow> bool" where
  "coff_reader_range_ok file_size offset len \<longleftrightarrow>
     unat offset \<le> file_size \<and> len \<le> file_size - unat offset"

fun map_linked :: "('a \<Rightarrow> 'b linked) \<Rightarrow> 'a list \<Rightarrow> 'b list linked" where
  "map_linked f [] = Inr []"
| "map_linked f (x # xs) = and_then (f x) (\<lambda>y. and_then (map_linked f xs) (\<lambda>ys. Inr (y # ys)))"

definition coff_reader_parse_string_table :: "CoffObject \<Rightarrow> bytes \<Rightarrow> CoffObject linked" where
  "coff_reader_parse_string_table object data =
     (let file_size = length data;
          string_table_offset = unat (obj_pointer_to_symbol_table object) +
            unat (obj_symbol_count object) * COFF_SYMBOL_SIZE
      in if string_table_offset > file_size then reject ''COFF string table offset is out of range''
         else if string_table_offset = file_size then Inr object
         else if \<not> coff_reader_range_ok file_size (of_nat string_table_offset) 4
         then reject ''COFF string table header is truncated''
         else and_then (read_bytes data string_table_offset 4) (\<lambda>header.
           let string_table_size = linker_read_u32 header
           in if string_table_size = 0 then Inr object
              else if string_table_size < 4 then reject ''COFF string table size is invalid''
              else if \<not> coff_reader_range_ok file_size (of_nat string_table_offset) (unat string_table_size)
              then reject ''COFF string table extends past end of file''
              else and_then (read_bytes data string_table_offset (unat string_table_size)) (\<lambda>table.
                Inr (object\<lparr>obj_string_table := table\<rparr>))))"

definition parse_relocation :: "bytes \<Rightarrow> u32 \<Rightarrow> nat \<Rightarrow> CoffRelocation linked" where
  "parse_relocation data pointer r =
     and_then (read_bytes data (unat pointer + r * COFF_RELOCATION_SIZE) COFF_RELOCATION_SIZE) (\<lambda>relocation.
       Inr \<lparr>rel_virtual_address = linker_read_u32 relocation,
            rel_symbol_table_index = linker_read_u32 (drop 4 relocation),
            rel_type = linker_read_u16 (drop 8 relocation)\<rparr>)"

definition section_header :: "string \<Rightarrow> bytes \<Rightarrow> CoffSection" where
  "section_header name header =
     \<lparr>sec_name = name, sec_kind = coff_section_kind_from_name name,
      sec_virtual_size = linker_read_u32 (drop 8 header),
      sec_virtual_address = linker_read_u32 (drop 12 header),
      sec_size_of_raw_data = linker_read_u32 (drop 16 header),
      sec_pointer_to_raw_data = linker_read_u32 (drop 20 header),
      sec_pointer_to_relocations = linker_read_u32 (drop 24 header),
      sec_pointer_to_line_numbers = linker_read_u32 (drop 28 header),
      sec_number_of_relocations = linker_read_u16 (drop 32 header),
      sec_number_of_line_numbers = linker_read_u16 (drop 34 header),
      sec_characteristics = linker_read_u32 (drop 36 header),
      sec_raw_data = [], sec_relocations = []\<rparr>"

definition section_raw_data :: "bytes \<Rightarrow> CoffSection \<Rightarrow> bytes linked" where
  "section_raw_data data section =
     (if sec_size_of_raw_data section > 0
      then (if \<not> coff_reader_range_ok (length data) (sec_pointer_to_raw_data section)
                 (unat (sec_size_of_raw_data section))
            then reject ''Section raw data is out of range''
            else read_bytes data (unat (sec_pointer_to_raw_data section)) (unat (sec_size_of_raw_data section)))
      else Inr [])"

definition section_relocations :: "bytes \<Rightarrow> CoffSection \<Rightarrow> CoffRelocation list linked" where
  "section_relocations data section =
     (let count = unat (sec_number_of_relocations section)
      in if count > 0
         then (if \<not> coff_reader_range_ok (length data) (sec_pointer_to_relocations section)
                    (count * COFF_RELOCATION_SIZE)
               then reject ''Section relocation table is out of range''
               else map_linked (parse_relocation data (sec_pointer_to_relocations section)) [0 ..< count])
         else Inr [])"

definition parse_section :: "CoffObject \<Rightarrow> bytes \<Rightarrow> nat \<Rightarrow> CoffSection linked" where
  "parse_section object data i =
     and_then (read_bytes data (COFF_FILE_HEADER_SIZE + i * COFF_SECTION_HEADER_SIZE) COFF_SECTION_HEADER_SIZE) (\<lambda>header.
       case coff_reader_parse_section_name header object of
         None \<Rightarrow> reject ''Failed to resolve COFF section name''
       | Some name \<Rightarrow>
           let section = section_header name header
           in and_then (section_raw_data data section) (\<lambda>raw.
              and_then (section_relocations data section) (\<lambda>relocs.
              Inr (section\<lparr>sec_raw_data := raw, sec_relocations := relocs\<rparr>))))"

definition coff_reader_parse_sections :: "CoffObject \<Rightarrow> bytes \<Rightarrow> CoffObject linked" where
  "coff_reader_parse_sections object data =
     (let count = unat (obj_section_count object)
      in if count = 0 then Inr object
         else if \<not> coff_reader_range_ok (length data) (of_nat COFF_FILE_HEADER_SIZE) (count * COFF_SECTION_HEADER_SIZE)
         then reject ''COFF section table is truncated''
         else and_then (map_linked (parse_section object data) [0 ..< count]) (\<lambda>sections.
           Inr (object\<lparr>obj_sections := sections\<rparr>)))"

definition fresh_coff_symbol :: "nat \<Rightarrow> CoffSymbol" where
  "fresh_coff_symbol i =
     \<lparr>cs_raw_index = of_nat i, cs_name = None, cs_value = 0, cs_section_number = 0, cs_type = 0,
      cs_storage_class = 0, cs_auxiliary_count = 0, cs_is_auxiliary = False,
      cs_primary_symbol_index = of_nat i, cs_has_auxiliary_record = False, cs_aux_section_length = 0,
      cs_aux_section_relocation_count = 0, cs_aux_section_line_number_count = 0\<rparr>"

text \<open>A primary entry of the symbol table.\<close>

definition parse_symbol :: "CoffObject \<Rightarrow> bytes \<Rightarrow> nat \<Rightarrow> CoffSymbol linked" where
  "parse_symbol object data i =
     (let at = unat (obj_pointer_to_symbol_table object) + i * COFF_SYMBOL_SIZE
      in and_then (read_bytes data at COFF_SYMBOL_SIZE) (\<lambda>entry.
           let name = coff_reader_parse_symbol_name entry object
           in if name = None \<and> (\<exists>b \<in> set (take 8 entry). b \<noteq> 0)
              then reject ''Failed to resolve COFF symbol name''
              else let symbol = (fresh_coff_symbol i)\<lparr>cs_name := name, cs_value := linker_read_u32 (drop 8 entry),
                         cs_section_number := linker_read_u16 (drop 12 entry),
                         cs_type := linker_read_u16 (drop 14 entry), cs_storage_class := entry ! 16,
                         cs_auxiliary_count := entry ! 17\<rparr>
                   in if unat (cs_auxiliary_count symbol) > unat (obj_symbol_count object) - i - 1
                      then reject ''Symbol has truncated auxiliary records''
                      else if unat (cs_auxiliary_count symbol) > 0
                      then and_then (read_bytes data (at + COFF_SYMBOL_SIZE) 8) (\<lambda>aux_entry.
                        Inr (symbol\<lparr>cs_has_auxiliary_record := True,
                           cs_aux_section_length := linker_read_u32 aux_entry,
                           cs_aux_section_relocation_count := linker_read_u16 (drop 4 aux_entry),
                           cs_aux_section_line_number_count := linker_read_u16 (drop 6 aux_entry)\<rparr>))
                      else Inr symbol))"

text \<open>The symbol loop, from index \<open>i\<close> on, with \<open>n\<close> entries to go.\<close>

fun parse_symbol_list :: "CoffObject \<Rightarrow> bytes \<Rightarrow> nat \<Rightarrow> nat \<Rightarrow> nat \<Rightarrow> nat \<Rightarrow> CoffSymbol list linked" where
  "parse_symbol_list object data i 0 aux_remaining primary_symbol_index = Inr []"
| "parse_symbol_list object data i (Suc n) aux_remaining primary_symbol_index =
     (if aux_remaining > 0
      then and_then (parse_symbol_list object data (i + 1) n (aux_remaining - 1) primary_symbol_index) (\<lambda>rest.
        Inr ((fresh_coff_symbol i)\<lparr>cs_is_auxiliary := True,
               cs_primary_symbol_index := of_nat primary_symbol_index\<rparr> # rest))
      else and_then (parse_symbol object data i) (\<lambda>symbol.
        let aux = unat (cs_auxiliary_count symbol)
        in and_then (parse_symbol_list object data (i + 1) n aux (if aux > 0 then i else primary_symbol_index)) (\<lambda>rest.
             Inr (symbol # rest))))"

definition coff_reader_parse_symbols :: "CoffObject \<Rightarrow> bytes \<Rightarrow> CoffObject linked" where
  "coff_reader_parse_symbols object data =
     (let count = unat (obj_symbol_count object)
      in if count = 0 then Inr object
         else if \<not> coff_reader_range_ok (length data) (obj_pointer_to_symbol_table object) (count * COFF_SYMBOL_SIZE)
         then reject ''COFF symbol table is out of range''
         else and_then (parse_symbol_list object data 0 count 0 0) (\<lambda>symbols.
           Inr (object\<lparr>obj_symbols := symbols\<rparr>)))"

definition COFF_MACHINE_AMD64 :: u16 where "COFF_MACHINE_AMD64 = 0x8664"

definition coff_object_parse :: "bytes \<Rightarrow> CoffObject linked" where
  "coff_object_parse data =
     (if length data < COFF_FILE_HEADER_SIZE then reject ''COFF file is smaller than the file header''
      else and_then (read_bytes data 0 COFF_FILE_HEADER_SIZE) (\<lambda>header.
        let object = \<lparr>obj_machine = linker_read_u16 header, obj_section_count = linker_read_u16 (drop 2 header),
              obj_time_date_stamp = linker_read_u32 (drop 4 header),
              obj_pointer_to_symbol_table = linker_read_u32 (drop 8 header),
              obj_symbol_count = linker_read_u32 (drop 12 header),
              obj_size_of_optional_header = linker_read_u16 (drop 16 header),
              obj_characteristics = linker_read_u16 (drop 18 header),
              obj_sections = [], obj_symbols = [], obj_string_table = []\<rparr>
        in if obj_machine object \<noteq> COFF_MACHINE_AMD64 then reject ''Unsupported COFF machine''
           else and_then (coff_reader_parse_string_table object data) (\<lambda>object.
             and_then (coff_reader_parse_sections object data) (\<lambda>object.
               coff_reader_parse_symbols object data))))"

definition coff_object_read :: "(string \<Rightarrow> bytes option) \<Rightarrow> string \<Rightarrow> CoffObject linked" where
  "coff_object_read read_file filename =
     (case read_file filename of
        None \<Rightarrow> reject ''Failed to open''
      | Some data \<Rightarrow> coff_object_parse data)"

section \<open>Queries\<close>

definition coff_object_find_section_by_kind :: "CoffObject \<Rightarrow> CoffSectionKind \<Rightarrow> CoffSection option" where
  "coff_object_find_section_by_kind object kind = List.find (\<lambda>s. sec_kind s = kind) (obj_sections object)"

definition coff_object_find_symbol :: "CoffObject \<Rightarrow> string \<Rightarrow> CoffSymbol option" where
  "coff_object_find_symbol object name =
     List.find (\<lambda>s. \<not> cs_is_auxiliary s \<and> cs_name s = Some name) (obj_symbols object)"

section \<open>The reader stays inside the file\<close>

lemma range_ok_iff: "coff_reader_range_ok fsize offset len \<longleftrightarrow> unat offset + len \<le> fsize"
  by (auto simp: coff_reader_range_ok_def)

lemma read_bytes_iff [simp]:
  "read_bytes data offset count = Inl Fault \<longleftrightarrow> \<not> offset + count \<le> length data"
  "read_bytes data offset count = Inr bs \<longleftrightarrow> offset + count \<le> length data \<and> bs = take count (drop offset data)"
  by (auto simp: read_bytes_def)

lemma map_linked_Fault: "map_linked f xs = Inl Fault \<Longrightarrow> \<exists>x \<in> set xs. f x = Inl Fault"
  by (induction xs) (auto simp: and_then_Fault)

lemma map_linked_Inr: "map_linked f xs = Inr ys \<longleftrightarrow> length ys = length xs \<and> (\<forall>i < length xs. f (xs ! i) = Inr (ys ! i))"
proof (induction xs arbitrary: ys)
  case (Cons x xs)
  then show ?case by (cases ys) (auto simp: and_then_Inr All_less_Suc2)
qed auto

lemma string_table_no_fault:
  assumes "length data < 2 ^ 32"
  shows "coff_reader_parse_string_table object data \<noteq> Inl Fault"
proof -
  let ?o = "unat (obj_pointer_to_symbol_table object) + unat (obj_symbol_count object) * 18"
  have "unat (of_nat ?o :: u32) = ?o" if "?o \<le> length data"
    using that assms by (subst unat_of_nat) simp
  then show ?thesis
    by (auto simp: coff_reader_parse_string_table_def Let_def and_then_Fault range_ok_iff)
qed

lemma section_parts_no_fault: "section_raw_data data s \<noteq> Inl Fault" "section_relocations data s \<noteq> Inl Fault"
proof -
  have "map_linked (parse_relocation data p) [0 ..< n] \<noteq> Inl Fault" if "unat p + n * 10 \<le> length data" for p n
    using that by (auto simp: parse_relocation_def and_then_Fault dest!: map_linked_Fault)
  then show "section_raw_data data s \<noteq> Inl Fault" "section_relocations data s \<noteq> Inl Fault"
    by (auto simp: section_raw_data_def section_relocations_def Let_def range_ok_iff)
qed

lemma parse_section_no_fault:
  assumes "20 + i * 40 + 40 \<le> length data"
  shows "parse_section object data i \<noteq> Inl Fault"
  using assms section_parts_no_fault by (auto simp: parse_section_def Let_def and_then_Fault split: option.splits)

lemma sections_no_fault: "coff_reader_parse_sections object data \<noteq> Inl Fault"
proof -
  have "parse_section object data i \<noteq> Inl Fault"
    if "20 + unat (obj_section_count object) * 40 \<le> length data" "i < unat (obj_section_count object)" for i
    using that by (intro parse_section_no_fault) linarith
  moreover have "unat (20 :: u32) = 20" by simp
  ultimately show ?thesis
    by (auto simp: coff_reader_parse_sections_def Let_def and_then_Fault range_ok_iff dest!: map_linked_Fault)
qed

lemma parse_symbol_no_fault:
  assumes "unat (obj_pointer_to_symbol_table object) + unat (obj_symbol_count object) * 18 \<le> length data"
    and "i < unat (obj_symbol_count object)"
  shows "parse_symbol object data i \<noteq> Inl Fault"
  using assms by (auto simp: parse_symbol_def Let_def and_then_Fault)

lemma parse_symbol_list_no_fault:
  assumes "unat (obj_pointer_to_symbol_table object) + unat (obj_symbol_count object) * 18 \<le> length data"
    and "i + n \<le> unat (obj_symbol_count object)"
  shows "parse_symbol_list object data i n a p \<noteq> Inl Fault"
  using assms(2)
proof (induction n arbitrary: i a p)
  case (Suc n)
  then show ?case using parse_symbol_no_fault [OF assms(1), of i] by (auto simp: and_then_Fault Let_def)
qed simp

lemma symbols_no_fault: "coff_reader_parse_symbols object data \<noteq> Inl Fault"
  using parse_symbol_list_no_fault [of object data 0 "unat (obj_symbol_count object)" 0 0]
  by (auto simp: coff_reader_parse_symbols_def Let_def and_then_Fault range_ok_iff)

lemma coff_object_parse_no_fault: "length data < 2 ^ 32 \<Longrightarrow> coff_object_parse data \<noteq> Inl Fault"
  using string_table_no_fault [of data] sections_no_fault symbols_no_fault
  by (auto simp: coff_object_parse_def Let_def and_then_Fault)

text \<open>Memory safety of the reader. On any file shorter than \<open>2 ^ 32\<close> bytes, whatever its contents, the
  reader accesses no byte outside the file: it returns an object or rejects the file.\<close>

theorem coff_object_parse_safe:
  assumes "length data < 2 ^ 32"
  shows "(\<exists>object. coff_object_parse data = Inr object) \<or> (\<exists>message. coff_object_parse data = Inl (Rejected message))"
  using coff_object_parse_no_fault [OF assms] by (metis link_error.exhaust sumE)

theorem coff_object_parse_safe_witness:
  "(\<exists>object. coff_object_parse [] = Inr object) \<or> (\<exists>message. coff_object_parse [] = Inl (Rejected message))"
  using coff_object_parse_safe [of "[]"] by simp

section \<open>What a successful read guarantees\<close>

lemma parse_symbol_Inr:
  assumes "parse_symbol object data i = Inr s"
  shows "cs_raw_index s = of_nat i \<and> \<not> cs_is_auxiliary s \<and> cs_primary_symbol_index s = of_nat i \<and>
     unat (cs_auxiliary_count s) \<le> unat (obj_symbol_count object) - i - 1"
  using assms
  by (auto simp: parse_symbol_def Let_def and_then_Inr fresh_coff_symbol_def split: if_splits)

lemma read_u32_zero: "(\<forall>b \<in> set (take 4 bs). b = 0) \<Longrightarrow> 4 \<le> length bs \<Longrightarrow> linker_read_u32 bs = 0"
proof -
  assume z: "\<forall>b \<in> set (take 4 bs). b = 0" and len: "4 \<le> length bs"
  have "bs ! i = 0" if "i < 4" for i
    using z that len by (metis length_take min.absorb2 nth_mem nth_take)
  then show ?thesis by (simp add: linker_read_u32_def)
qed

lemma parse_symbol_named:
  assumes "parse_symbol object data i = Inr s"
  shows "cs_name s \<noteq> None"
proof -
  define at where "at = unat (obj_pointer_to_symbol_table object) + i * 18"
  define entry where "entry = take 18 (drop at data)"
  define nm where "nm = coff_reader_parse_symbol_name entry object"
  have len: "at + 18 \<le> length data" and nz: "\<not> (nm = None \<and> (\<exists>b \<in> set (take 8 entry). b \<noteq> 0))" and nm: "cs_name s = nm"
    using assms by (auto simp: parse_symbol_def Let_def and_then_Inr at_def entry_def nm_def split: if_splits)
  show ?thesis
  proof
    assume "cs_name s = None"
    then have none: "nm = None" and zero: "\<forall>b \<in> set (take 8 entry). b = 0" using nm nz by auto
    have "\<forall>b \<in> set (take 4 (drop 4 entry)). b = 0"
      using zero set_drop_subset [of 4 "take 8 entry"] by (auto simp: drop_take)
    then have "linker_read_u32 (drop 4 entry) = 0" using len by (intro read_u32_zero) (auto simp: entry_def)
    with none show False by (simp add: nm_def coff_reader_parse_symbol_name_def Let_def)
  qed
qed

text \<open>Entry \<open>k\<close> of a symbol table of \<open>n\<close> entries: an auxiliary entry lies behind the entry it belongs to, within
  that entry's auxiliary count, and names it; any other entry has a name and its auxiliary entries fit
  into the table.\<close>

definition symbol_entry_ok :: "nat \<Rightarrow> CoffSymbol list \<Rightarrow> nat \<Rightarrow> bool" where
  "symbol_entry_ok n ss k \<longleftrightarrow>
     cs_raw_index (ss ! k) = of_nat k \<and>
     (if cs_is_auxiliary (ss ! k)
      then \<exists>p < k. \<not> cs_is_auxiliary (ss ! p) \<and> k \<le> p + unat (cs_auxiliary_count (ss ! p)) \<and>
             cs_primary_symbol_index (ss ! k) = of_nat p
      else cs_name (ss ! k) \<noteq> None \<and> k + unat (cs_auxiliary_count (ss ! k)) < n)"

lemma symbol_entry_ok_append: "k < length ss \<Longrightarrow> symbol_entry_ok n (ss @ ts) k = symbol_entry_ok n ss k"
proof -
  assume k: "k < length ss"
  then have "(ss @ ts) ! q = ss ! q" if "q \<le> k" for q using that by (simp add: nth_append)
  then show ?thesis unfolding symbol_entry_ok_def by (simp cong: conj_cong)
qed

lemma parse_symbol_list_ok:
  assumes "parse_symbol_list object data (length pre) n a p = Inr rest"
    and "length pre + n = unat (obj_symbol_count object)"
    and "\<forall>k < length pre. symbol_entry_ok (unat (obj_symbol_count object)) pre k"
    and "a > 0 \<Longrightarrow> p < length pre \<and> \<not> cs_is_auxiliary (pre ! p) \<and> length pre + a \<le> p + unat (cs_auxiliary_count (pre ! p)) + 1"
  shows "length rest = n \<and> (\<forall>k < length pre + n. symbol_entry_ok (unat (obj_symbol_count object)) (pre @ rest) k)"
  using assms
proof (induction n arbitrary: pre a p rest)
  case 0
  then show ?case by simp
next
  case (Suc n)
  let ?N = "unat (obj_symbol_count object)"
  have step: ?case
    if s: "rest = s # rest'" "symbol_entry_ok ?N (pre @ [s]) (length pre)"
      and r: "parse_symbol_list object data (length (pre @ [s])) n a' p' = Inr rest'"
      and a': "a' > 0 \<Longrightarrow> p' < length (pre @ [s]) \<and> \<not> cs_is_auxiliary ((pre @ [s]) ! p') \<and>
        length (pre @ [s]) + a' \<le> p' + unat (cs_auxiliary_count ((pre @ [s]) ! p')) + 1" for s rest' a' p'
  proof -
    have "\<forall>k < length (pre @ [s]). symbol_entry_ok ?N (pre @ [s]) k"
      using Suc.prems(3) s(2) symbol_entry_ok_append by (auto simp: less_Suc_eq)
    from Suc.IH [OF r _ this a'] Suc.prems(2) s(1) show ?thesis by simp
  qed
  show ?case
  proof (cases "a > 0")
    case True
    let ?s = "(fresh_coff_symbol (length pre))\<lparr>cs_is_auxiliary := True, cs_primary_symbol_index := of_nat p\<rparr>"
    obtain rest' where r: "parse_symbol_list object data (length pre + 1) n (a - 1) p = Inr rest'" "rest = ?s # rest'"
      using Suc.prems(1) True by (auto simp: and_then_Inr)
    note p = Suc.prems(4) [OF True]
    have "symbol_entry_ok ?N (pre @ [?s]) (length pre)"
      using p True by (auto simp: symbol_entry_ok_def fresh_coff_symbol_def nth_append intro!: exI [of _ p])
    then show ?thesis using r p True by (intro step [of ?s rest' "a - 1" p]) (auto simp: nth_append)
  next
    case False
    obtain s rest' where s: "parse_symbol object data (length pre) = Inr s" "rest = s # rest'"
      and r: "parse_symbol_list object data (length pre + 1) n (unat (cs_auxiliary_count s))
        (if unat (cs_auxiliary_count s) > 0 then length pre else p) = Inr rest'"
      using Suc.prems(1) False by (auto simp: and_then_Inr Let_def)
    note ps = parse_symbol_Inr [OF s(1)] parse_symbol_named [OF s(1)]
    have "symbol_entry_ok ?N (pre @ [s]) (length pre)"
      using ps Suc.prems(2) by (auto simp: symbol_entry_ok_def nth_append)
    then show ?thesis using s(2) r ps by (intro step [OF s(2)]) (auto simp: nth_append)
  qed
qed

definition section_ok :: "bytes \<Rightarrow> CoffSection \<Rightarrow> bool" where
  "section_ok data s \<longleftrightarrow> sec_kind s = coff_section_kind_from_name (sec_name s) \<and>
     sec_raw_data s = take (unat (sec_size_of_raw_data s)) (drop (unat (sec_pointer_to_raw_data s)) data) \<and>
     length (sec_raw_data s) = unat (sec_size_of_raw_data s) \<and>
     length (sec_relocations s) = unat (sec_number_of_relocations s)"

lemma section_parts_ok:
  "section_raw_data data s = Inr raw \<Longrightarrow>
     raw = take (unat (sec_size_of_raw_data s)) (drop (unat (sec_pointer_to_raw_data s)) data) \<and>
     length raw = unat (sec_size_of_raw_data s)"
  "section_relocations data s = Inr relocs \<Longrightarrow> length relocs = unat (sec_number_of_relocations s)"
  by (auto simp: section_raw_data_def section_relocations_def Let_def range_ok_iff map_linked_Inr word_greater_zero_iff
      split: if_splits)

lemma section_header_kind: "sec_kind (section_header name h) = coff_section_kind_from_name (sec_name (section_header name h))"
  by (simp add: section_header_def)

lemma parse_section_ok:
  assumes "parse_section object data i = Inr s"
  shows "section_ok data s"
proof -
  obtain h name raw relocs where p: "section_raw_data data (section_header name h) = Inr raw"
      "section_relocations data (section_header name h) = Inr relocs"
    and s: "s = (section_header name h)\<lparr>sec_raw_data := raw, sec_relocations := relocs\<rparr>"
    using assms by (auto simp: parse_section_def and_then_Inr Let_def split: option.splits)
  note r = section_parts_ok(1) [OF p(1), THEN conjunct1, symmetric] section_parts_ok(1) [OF p(1), THEN conjunct2]
  show ?thesis unfolding s section_ok_def
    using r section_parts_ok(2) [OF p(2)] section_header_kind by simp
qed

definition coff_object_wf :: "bytes \<Rightarrow> CoffObject \<Rightarrow> bool" where
  "coff_object_wf data object \<longleftrightarrow>
     length (obj_sections object) = unat (obj_section_count object) \<and>
     (\<forall>s \<in> set (obj_sections object). section_ok data s) \<and>
     length (obj_symbols object) = unat (obj_symbol_count object) \<and>
     (\<forall>k < unat (obj_symbol_count object). symbol_entry_ok (unat (obj_symbol_count object)) (obj_symbols object) k)"

lemma parse_sections_ok:
  assumes "coff_reader_parse_sections object data = Inr object'" and "obj_sections object = []"
  shows "length (obj_sections object') = unat (obj_section_count object) \<and>
     (\<forall>s \<in> set (obj_sections object'). section_ok data s) \<and> obj_section_count object' = obj_section_count object \<and>
     obj_symbol_count object' = obj_symbol_count object \<and> obj_symbols object' = obj_symbols object"
  using assms
  by (auto simp: coff_reader_parse_sections_def Let_def and_then_Inr map_linked_Inr in_set_conv_nth split: if_splits)
    (blast intro: parse_section_ok)

lemma parse_symbols_ok:
  assumes "coff_reader_parse_symbols object data = Inr object'" and "obj_symbols object = []"
  shows "length (obj_symbols object') = unat (obj_symbol_count object) \<and>
     (\<forall>k < unat (obj_symbol_count object). symbol_entry_ok (unat (obj_symbol_count object)) (obj_symbols object') k) \<and>
     obj_sections object' = obj_sections object \<and> obj_section_count object' = obj_section_count object \<and>
     obj_symbol_count object' = obj_symbol_count object"
  using assms parse_symbol_list_ok [of object data "[]" "unat (obj_symbol_count object)" 0 0]
  by (auto simp: coff_reader_parse_symbols_def Let_def and_then_Inr split: if_splits)

lemma parse_string_table_keeps:
  assumes "coff_reader_parse_string_table object data = Inr object'"
  shows "\<exists>table. object' = object\<lparr>obj_string_table := table\<rparr>"
  using assms
  by (cases "\<exists>table. object' = object\<lparr>obj_string_table := table\<rparr>")
    (auto simp: coff_reader_parse_string_table_def Let_def and_then_Inr split: if_splits
      dest: spec [of _ "obj_string_table object"])

lemma coff_object_parse_ok:
  assumes "coff_object_parse data = Inr object"
  shows "coff_object_wf data object"
proof -
  obtain o1 o2 o3 where o: "coff_reader_parse_string_table o1 data = Inr o2" "coff_reader_parse_sections o2 data = Inr o3"
      "coff_reader_parse_symbols o3 data = Inr object" and e: "obj_sections o1 = []" "obj_symbols o1 = []"
    using assms by (auto simp: coff_object_parse_def Let_def and_then_Inr split: if_splits)
  have e2: "obj_sections o2 = []" "obj_symbols o2 = []" using parse_string_table_keeps [OF o(1)] e by auto
  note s = parse_sections_ok [OF o(2) e2(1)]
  have "obj_symbols o3 = []" using s e2 by simp
  from parse_symbols_ok [OF o(3) this] s show ?thesis by (auto simp: coff_object_wf_def)
qed

text \<open>(C35) What reading gives. An object that was read has as many sections and symbols as its header says; the
  raw data of every section is the range of the file that its header names, and it has as many relocations
  as announced; every symbol entry knows its index, a primary entry has a name and its auxiliary entries
  fit into the table, and an auxiliary entry refers to the primary entry in front of it.\<close>

theorem coff_object_parse_wf:
  assumes "coff_object_parse data = Inr object"
  shows "coff_object_wf data object"
  using assms by (rule coff_object_parse_ok)

definition small_coff :: bytes where
  "small_coff = [0x64, 0x86, 0, 0, 0, 0, 0, 0, 20, 0, 0, 0, 0, 0, 0, 0, 0, 0, 0, 0]"

lemma small_coff_parses:
  obtains object where "coff_object_parse small_coff = Inr object" "obj_sections object = []" "obj_symbols object = []"
  by (simp add: coff_object_parse_def small_coff_def read_bytes_def linker_read_u16_def linker_read_u32_def
      coff_reader_parse_string_table_def coff_reader_parse_sections_def coff_reader_parse_symbols_def
      COFF_MACHINE_AMD64_def Let_def)

theorem coff_object_parse_wf_witness:
  "\<exists>object. coff_object_parse small_coff = Inr object \<and> coff_object_wf small_coff object"
proof -
  obtain object where o: "coff_object_parse small_coff = Inr object" by (rule small_coff_parses)
  from coff_object_parse_wf [OF o] o show ?thesis by blast
qed

text \<open>Section names. The kind of a section is recovered from its canonical name, with and without a
  \<^verbatim>\<open>$\<close> or \<^verbatim>\<open>.\<close> suffix.\<close>

theorem coff_section_kind_roundtrip:
  assumes "kind \<noteq> COFF_SECTION_KIND_UNKNOWN" and "suffix = [] \<or> hd suffix \<in> {CHR ''$'', CHR ''.''}"
  shows "coff_section_kind_from_name (coff_section_kind_name kind @ suffix) = kind"
  using assms
  by (cases kind; cases suffix) (auto simp: coff_section_kind_from_name_def coff_section_name_matches_prefix_def)

theorem coff_section_kind_roundtrip_witness:
  "coff_section_kind_from_name (''.text'' @ ''$mn'') = COFF_SECTION_KIND_TEXT"
  using coff_section_kind_roundtrip [of COFF_SECTION_KIND_TEXT "''$mn''"] by simp

section \<open>Files of 4 GiB and more\<close>

text \<open>A file header that places the symbol table at offset 20 with \<open>0x0E38E38E\<close> entries: the string table then
  starts at offset \<open>2 ^ 32 + 16\<close>.\<close>

definition huge_header :: bytes where
  "huge_header = [0x64, 0x86, 0, 0, 0, 0, 0, 0, 20, 0, 0, 0, 0x8E, 0xE3, 0x38, 0x0E, 0, 0, 0, 0]"

text \<open>(C36) Large files. The range check of the string table is made on its offset cut down to 32 bits. In a
  file of \<open>2 ^ 32 + 17\<close> bytes with the header above it accepts a string table whose length field does not lie
  inside the file, and the reader accesses memory behind the file's buffer.\<close>

theorem coff_large_file_faults:
  assumes "length padding = 2 ^ 32 - 3"
  shows "coff_object_parse (huge_header @ padding) = Inl Fault"
proof -
  define data where "data = huge_header @ padding"
  have len: "length data = 4294967313" using assms by (simp add: data_def huge_header_def)
  have hdr: "read_bytes data 0 20 = Inr huge_header"
    using len by (simp add: read_bytes_def data_def huge_header_def)
  have ptr: "linker_read_u32 (drop 8 huge_header) = 20" "linker_read_u32 (drop 12 huge_header) = 0x0E38E38E"
    "linker_read_u16 huge_header = 0x8664"
    by (simp_all add: huge_header_def linker_read_u32_def linker_read_u16_def)
  have st: "coff_reader_parse_string_table object data = Inl Fault"
    if "obj_pointer_to_symbol_table object = 20" "obj_symbol_count object = 0x0E38E38E" for object
    using that len by (simp add: coff_reader_parse_string_table_def Let_def coff_reader_range_ok_def read_bytes_def)
  show ?thesis
    unfolding data_def [symmetric]
    by (simp add: coff_object_parse_def Let_def COFF_MACHINE_AMD64_def len hdr ptr st)
qed

theorem coff_large_file_faults_witness:
  "coff_object_parse (huge_header @ replicate (2 ^ 32 - 3) 0) = Inl Fault"
  by (rule coff_large_file_faults) (rule length_replicate)

end
