(* ===== verification/Symbol_Resolve.thy ===== *)
theory Symbol_Resolve
  imports Coff_Reader
begin

text \<open>
  Section merging and symbol resolution, \<^verbatim>\<open>src/src/linker/symbol_resolve.c\<close>: the sections of all input objects
  are laid out in six merged sections, every object symbol is mapped to a merged section and offset, the
  external ones are collected in a global table, addresses are assigned, and undefined externals and a
  missing entry point are refused.

  Array positions are \<open>nat\<close>, \<open>LINKED_SECTION_INDEX_NONE\<close> is \<open>None\<close>. The bytes of a merged section are a list whose
  length is the \<open>size\<close> field; capacities are not modelled, allocation succeeds. Addresses are 64-bit words.
\<close>

section \<open>State\<close>

record LinkedSectionContribution =
  con_object_index :: nat
  con_section_index :: nat
  con_merged_offset :: nat
  con_size :: nat
  con_alignment :: nat

record LinkedSection =
  ls_kind :: CoffSectionKind
  ls_name :: string
  ls_data :: bytes
  ls_virtual_size :: nat
  ls_alignment :: nat
  ls_virtual_address :: u64
  ls_contributions :: "LinkedSectionContribution list"

record LinkedObjectSymbol =
  los_name :: "string option"
  los_object_index :: nat
  los_symbol_index :: nat
  los_is_defined :: bool
  los_is_external :: bool
  los_is_local :: bool
  los_is_auxiliary :: bool
  los_section_number :: u16
  los_merged_section_index :: "nat option"
  los_merged_offset :: nat
  los_virtual_address :: u64

text \<open>Where a section of an input object went: the entries of \<open>section_merged_indices\<close>,
  \<open>section_merged_offsets\<close>, \<open>section_merged_sizes\<close> and \<open>section_alignments\<close> at its position.\<close>

record SectionPlacement =
  pl_merged_index :: "nat option"
  pl_merged_offset :: nat
  pl_merged_size :: nat
  pl_alignment :: nat

record LinkedInputObject =
  li_path :: string
  li_object :: CoffObject
  li_placements :: "SectionPlacement list"
  li_symbols :: "LinkedObjectSymbol list"

record LinkedSymbol =
  lsym_name :: string
  lsym_is_defined :: bool
  lsym_is_external :: bool
  lsym_defining_object_index :: "nat option"
  lsym_defining_symbol_index :: "nat option"
  lsym_merged_section_index :: "nat option"
  lsym_merged_offset :: nat
  lsym_virtual_address :: u64

record LinkResolutionOptions =
  opt_entry_symbol_name :: "string option"
  opt_section_alignment :: nat
  opt_allow_unresolved_externals :: bool

record LinkResolution =
  lr_objects :: "LinkedInputObject list"
  lr_sections :: "LinkedSection list"
  lr_symbols :: "LinkedSymbol list"
  lr_entry_symbol :: "LinkedSymbol option"

section \<open>Sections\<close>

fun link_section_index_from_kind :: "CoffSectionKind \<Rightarrow> nat option" where
  "link_section_index_from_kind COFF_SECTION_KIND_TEXT = Some 0"
| "link_section_index_from_kind COFF_SECTION_KIND_RDATA = Some 1"
| "link_section_index_from_kind COFF_SECTION_KIND_DATA = Some 2"
| "link_section_index_from_kind COFF_SECTION_KIND_BSS = Some 3"
| "link_section_index_from_kind COFF_SECTION_KIND_PDATA = Some 4"
| "link_section_index_from_kind COFF_SECTION_KIND_XDATA = Some 5"
| "link_section_index_from_kind COFF_SECTION_KIND_UNKNOWN = None"

fun link_section_name_from_kind :: "CoffSectionKind \<Rightarrow> string" where
  "link_section_name_from_kind COFF_SECTION_KIND_TEXT = ''.text''"
| "link_section_name_from_kind COFF_SECTION_KIND_RDATA = ''.rdata''"
| "link_section_name_from_kind COFF_SECTION_KIND_DATA = ''.data''"
| "link_section_name_from_kind COFF_SECTION_KIND_BSS = ''.bss''"
| "link_section_name_from_kind COFF_SECTION_KIND_PDATA = ''.pdata''"
| "link_section_name_from_kind COFF_SECTION_KIND_XDATA = ''.xdata''"
| "link_section_name_from_kind COFF_SECTION_KIND_UNKNOWN = ''<unknown>''"

definition alignment_table :: "(u32 \<times> nat) list" where
  "alignment_table =
     [(0x00100000, 1), (0x00200000, 2), (0x00300000, 4), (0x00400000, 8), (0x00500000, 16), (0x00600000, 32),
      (0x00700000, 64), (0x00800000, 128), (0x00900000, 256), (0x00A00000, 512), (0x00B00000, 1024),
      (0x00C00000, 2048), (0x00D00000, 4096), (0x00E00000, 8192)]"

definition link_alignment_from_characteristics :: "u32 \<Rightarrow> nat" where
  "link_alignment_from_characteristics characteristics =
     (case map_of alignment_table (characteristics AND 0x00F00000) of Some a \<Rightarrow> a | None \<Rightarrow> 0)"

definition link_default_section_alignment :: "CoffSectionKind \<Rightarrow> nat \<Rightarrow> nat" where
  "link_default_section_alignment kind fallback_alignment =
     (if fallback_alignment > 1 then fallback_alignment
      else if kind = COFF_SECTION_KIND_UNKNOWN then 1 else 16)"

definition link_section_alignment :: "CoffSection \<Rightarrow> nat \<Rightarrow> nat" where
  "link_section_alignment section fallback_alignment =
     (let alignment = link_alignment_from_characteristics (sec_characteristics section)
      in if alignment \<noteq> 0 then alignment
         else link_default_section_alignment (sec_kind section) fallback_alignment)"

definition COFF_STORAGE_CLASS_EXTERNAL :: u8 where "COFF_STORAGE_CLASS_EXTERNAL = 2"
definition COFF_STORAGE_CLASS_STATIC :: u8 where "COFF_STORAGE_CLASS_STATIC = 3"

text \<open>The two symbol loops of \<open>link_estimate_section_size\<close>: a length in an auxiliary record of the section's own
  symbol, and the end of the last symbol of a \<^verbatim>\<open>.bss\<close> section. (A symbol makes the size positive, so the
  final correction of an empty section with symbols never applies.)\<close>

definition aux_length_symbol :: "CoffSection \<Rightarrow> nat \<Rightarrow> CoffSymbol \<Rightarrow> bool" where
  "aux_length_symbol section section_index s \<longleftrightarrow>
     \<not> cs_is_auxiliary s \<and> cs_has_auxiliary_record s \<and> cs_name s = Some (sec_name section) \<and>
     cs_storage_class s = COFF_STORAGE_CLASS_STATIC \<and> cs_section_number s = of_nat (section_index + 1) \<and>
     cs_aux_section_length s \<noteq> 0"

definition bss_extent :: "nat \<Rightarrow> nat \<Rightarrow> CoffSymbol \<Rightarrow> nat" where
  "bss_extent section_index sz s =
     (if cs_is_auxiliary s \<or> cs_section_number s \<noteq> of_nat (section_index + 1) then sz
      else if unat (cs_value s) + 1 > sz then unat (cs_value s) + 1 else sz)"

definition link_estimate_section_size :: "CoffObject \<Rightarrow> nat \<Rightarrow> nat" where
  "link_estimate_section_size object section_index =
     (if section_index \<ge> length (obj_sections object) then 0
      else let section = obj_sections object ! section_index
           in case List.find (aux_length_symbol section section_index) (obj_symbols object) of
                Some s \<Rightarrow> unat (cs_aux_section_length s)
              | None \<Rightarrow>
                  let sz = unat (sec_size_of_raw_data section);
                      sz = (if unat (sec_virtual_size section) > sz then unat (sec_virtual_size section) else sz)
                  in if sec_kind section \<noteq> COFF_SECTION_KIND_BSS then sz
                     else foldl (bss_extent section_index) sz (obj_symbols object))"

definition link_resolution_init_sections :: "LinkedSection list" where
  "link_resolution_init_sections =
     map (\<lambda>kind. \<lparr>ls_kind = kind, ls_name = link_section_name_from_kind kind, ls_data = [], ls_virtual_size = 0,
                  ls_alignment = 1, ls_virtual_address = 0, ls_contributions = []\<rparr>)
       [COFF_SECTION_KIND_TEXT, COFF_SECTION_KIND_RDATA, COFF_SECTION_KIND_DATA, COFF_SECTION_KIND_BSS,
        COFF_SECTION_KIND_PDATA, COFF_SECTION_KIND_XDATA]"

section \<open>Merging\<close>

text \<open>One section of an input object: the body of the inner loop of \<open>link_resolution_merge_sections\<close>. A
  \<open>memset\<close> of the gap, a \<open>memcpy\<close> of the raw data behind it.\<close>

definition extend_merged :: "LinkedSection \<Rightarrow> CoffSection \<Rightarrow> nat \<Rightarrow> nat \<Rightarrow> LinkedSection" where
  "extend_merged merged section start contribution_size =
     (if sec_kind section \<noteq> COFF_SECTION_KIND_BSS
      then let data = take start (ls_data merged @ replicate (start - length (ls_data merged)) 0) @ sec_raw_data section
           in merged\<lparr>ls_data := data,
                ls_virtual_size := (if ls_virtual_size merged < length data then length data else ls_virtual_size merged)\<rparr>
      else merged\<lparr>ls_virtual_size := (if ls_virtual_size merged < start + contribution_size
                                     then start + contribution_size else ls_virtual_size merged)\<rparr>)"

definition merge_section :: "nat \<Rightarrow> nat \<Rightarrow> CoffObject \<Rightarrow> nat \<Rightarrow> LinkedSection list \<Rightarrow> LinkedSection list \<times> SectionPlacement" where
  "merge_section fallback_alignment object_index object section_index sections =
     (let section = obj_sections object ! section_index;
          alignment = link_section_alignment section fallback_alignment
      in case link_section_index_from_kind (sec_kind section) of
           None \<Rightarrow> (sections, \<lparr>pl_merged_index = None, pl_merged_offset = 0, pl_merged_size = 0, pl_alignment = 0\<rparr>)
         | Some k \<Rightarrow>
             let merged = (sections ! k)\<lparr>ls_alignment := max (ls_alignment (sections ! k)) alignment\<rparr>;
                 contribution_size = link_estimate_section_size object section_index;
                 start = linker_align_up (ls_virtual_size merged) alignment;
                 merged = extend_merged merged section start contribution_size;
                 merged = merged\<lparr>ls_contributions := ls_contributions merged @
                   [\<lparr>con_object_index = object_index, con_section_index = section_index, con_merged_offset = start,
                     con_size = contribution_size, con_alignment = alignment\<rparr>]\<rparr>
             in (sections[k := merged],
                 \<lparr>pl_merged_index = Some k, pl_merged_offset = start, pl_merged_size = contribution_size,
                  pl_alignment = alignment\<rparr>))"

fun merge_object :: "nat \<Rightarrow> nat \<Rightarrow> CoffObject \<Rightarrow> nat list \<Rightarrow> LinkedSection list \<Rightarrow> LinkedSection list \<times> SectionPlacement list" where
  "merge_object fallback_alignment object_index object [] sections = (sections, [])"
| "merge_object fallback_alignment object_index object (i # is) sections =
     (let (sections, placement) = merge_section fallback_alignment object_index object i sections;
          (sections, placements) = merge_object fallback_alignment object_index object is sections
      in (sections, placement # placements))"

fun merge_objects :: "nat \<Rightarrow> nat \<Rightarrow> LinkedInputObject list \<Rightarrow> LinkedSection list \<Rightarrow> LinkedInputObject list \<times> LinkedSection list" where
  "merge_objects fallback_alignment object_index [] sections = ([], sections)"
| "merge_objects fallback_alignment object_index (input # inputs) sections =
     (let object = li_object input;
          (sections, placements) = merge_object fallback_alignment object_index object
            [0 ..< length (obj_sections object)] sections;
          (inputs, sections) = merge_objects fallback_alignment (object_index + 1) inputs sections
      in (input\<lparr>li_placements := placements\<rparr> # inputs, sections))"

definition link_resolution_merge_sections :: "LinkResolution \<Rightarrow> nat \<Rightarrow> LinkResolution" where
  "link_resolution_merge_sections resolution fallback_alignment =
     (let (objects, sections) = merge_objects fallback_alignment 0 (lr_objects resolution) (lr_sections resolution)
      in resolution\<lparr>lr_objects := objects, lr_sections := sections\<rparr>)"

section \<open>Symbols\<close>

definition link_resolution_find_symbol :: "LinkedSymbol list \<Rightarrow> string \<Rightarrow> LinkedSymbol option" where
  "link_resolution_find_symbol symbols name = List.find (\<lambda>s. lsym_name s = name) symbols"

definition fresh_linked_symbol :: "string \<Rightarrow> LinkedSymbol" where
  "fresh_linked_symbol name =
     \<lparr>lsym_name = name, lsym_is_defined = False, lsym_is_external = False, lsym_defining_object_index = None,
      lsym_defining_symbol_index = None, lsym_merged_section_index = Some 0, lsym_merged_offset = 0,
      lsym_virtual_address = 0\<rparr>"

text \<open>\<open>link_resolution_find_symbol_mutable\<close>: the position of the entry, so that it can be updated in place.\<close>

definition link_resolution_find_symbol_mutable :: "LinkedSymbol list \<Rightarrow> string \<Rightarrow> nat option" where
  "link_resolution_find_symbol_mutable symbols name =
     List.find (\<lambda>i. lsym_name (symbols ! i) = name) [0 ..< length symbols]"

text \<open>The update of an entry of the global table by an object symbol, \<open>None\<close> for a second definition.\<close>

definition define_global :: "LinkedObjectSymbol \<Rightarrow> LinkedSymbol \<Rightarrow> LinkedSymbol option" where
  "define_global object_symbol g =
     (let g = g\<lparr>lsym_is_external := True\<rparr>
      in if \<not> los_is_defined object_symbol then Some g
         else if lsym_is_defined g then None
         else Some (g\<lparr>lsym_is_defined := True, lsym_defining_object_index := Some (los_object_index object_symbol),
                lsym_defining_symbol_index := Some (los_symbol_index object_symbol),
                lsym_merged_section_index := los_merged_section_index object_symbol,
                lsym_merged_offset := los_merged_offset object_symbol\<rparr>))"

definition link_resolution_record_global_symbol ::
  "LinkedSymbol list \<Rightarrow> LinkedObjectSymbol \<Rightarrow> string \<Rightarrow> LinkedSymbol list linked" where
  "link_resolution_record_global_symbol symbols object_symbol name =
     (let (symbols, i) = (case link_resolution_find_symbol_mutable symbols name of
            Some i \<Rightarrow> (symbols, i)
          | None \<Rightarrow> (symbols @ [fresh_linked_symbol name], length symbols))
      in case define_global object_symbol (symbols ! i) of
           None \<Rightarrow> reject ''Duplicate external symbol''
         | Some g \<Rightarrow> Inr (symbols[i := g]))"

text \<open>The mapping of one object symbol.\<close>

definition resolve_symbol :: "LinkedInputObject \<Rightarrow> nat \<Rightarrow> nat \<Rightarrow> LinkedObjectSymbol linked" where
  "resolve_symbol input object_index symbol_index =
     (let symbol = obj_symbols (li_object input) ! symbol_index;
          resolved = \<lparr>los_name = cs_name symbol, los_object_index = object_index, los_symbol_index = symbol_index,
            los_is_defined = False, los_is_external = False, los_is_local = False,
            los_is_auxiliary = cs_is_auxiliary symbol, los_section_number = cs_section_number symbol,
            los_merged_section_index = None, los_merged_offset = 0, los_virtual_address = 0\<rparr>
      in if cs_is_auxiliary symbol then Inr (resolved\<lparr>los_is_local := True\<rparr>)
         else let is_external = (cs_storage_class symbol = COFF_STORAGE_CLASS_EXTERNAL);
                  resolved = resolved\<lparr>los_is_external := is_external, los_is_local := \<not> is_external\<rparr>
              in if sint (cs_section_number symbol) > 0
                 then let section_index = nat (sint (cs_section_number symbol) - 1)
                      in if section_index \<ge> length (obj_sections (li_object input))
                         then reject ''Symbol refers to section outside the section table''
                         else let placement = li_placements input ! section_index
                              in (case pl_merged_index placement of
                                    None \<Rightarrow> Inr resolved
                                  | Some k \<Rightarrow> Inr (resolved\<lparr>los_is_defined := True, los_merged_section_index := Some k,
                                      los_merged_offset := pl_merged_offset placement + unat (cs_value symbol)\<rparr>))
                 else Inr resolved)"

text \<open>The symbol loop of one object, from the given indices; the global table is threaded through.\<close>

fun build_object_symbols ::
  "LinkedInputObject \<Rightarrow> nat \<Rightarrow> nat list \<Rightarrow> LinkedSymbol list \<Rightarrow> (LinkedObjectSymbol list \<times> LinkedSymbol list) linked" where
  "build_object_symbols input object_index [] symbols = Inr ([], symbols)"
| "build_object_symbols input object_index (i # is) symbols =
     and_then (resolve_symbol input object_index i) (\<lambda>resolved.
       and_then (case los_name resolved of
                   Some name \<Rightarrow> if los_is_external resolved
                     then link_resolution_record_global_symbol symbols resolved name else Inr symbols
                 | None \<Rightarrow> Inr symbols) (\<lambda>symbols.
       and_then (build_object_symbols input object_index is symbols) (\<lambda>(rest, symbols).
       Inr (resolved # rest, symbols))))"

fun build_objects :: "nat \<Rightarrow> LinkedInputObject list \<Rightarrow> LinkedSymbol list \<Rightarrow> (LinkedInputObject list \<times> LinkedSymbol list) linked" where
  "build_objects object_index [] symbols = Inr ([], symbols)"
| "build_objects object_index (input # inputs) symbols =
     and_then (build_object_symbols input object_index [0 ..< length (obj_symbols (li_object input))] symbols) (\<lambda>(resolved, symbols).
       and_then (build_objects (object_index + 1) inputs symbols) (\<lambda>(inputs, symbols).
       Inr (input\<lparr>li_symbols := resolved\<rparr> # inputs, symbols)))"

definition link_resolution_build_symbols :: "LinkResolution \<Rightarrow> LinkResolution linked" where
  "link_resolution_build_symbols resolution =
     and_then (build_objects 0 (lr_objects resolution) (lr_symbols resolution)) (\<lambda>(objects, symbols).
       Inr (resolution\<lparr>lr_objects := objects, lr_symbols := symbols\<rparr>))"

section \<open>Addresses\<close>

fun place_sections :: "nat \<Rightarrow> u64 \<Rightarrow> LinkedSection list \<Rightarrow> LinkedSection list" where
  "place_sections section_alignment current_address [] = []"
| "place_sections section_alignment current_address (section # sections) =
     (if ls_virtual_size section = 0
      then section # place_sections section_alignment current_address sections
      else let current_address = of_nat (linker_align_up (unat current_address) section_alignment)
           in section\<lparr>ls_virtual_address := current_address\<rparr> #
              place_sections section_alignment (current_address + of_nat (ls_virtual_size section)) sections)"

definition symbol_address :: "LinkedSection list \<Rightarrow> nat \<Rightarrow> nat \<Rightarrow> u64" where
  "symbol_address sections k offset = ls_virtual_address (sections ! k) + of_nat offset"

definition place_object_symbol :: "LinkedSection list \<Rightarrow> LinkedObjectSymbol \<Rightarrow> LinkedObjectSymbol" where
  "place_object_symbol sections symbol =
     (case los_merged_section_index symbol of
        Some k \<Rightarrow> if los_is_defined symbol
          then symbol\<lparr>los_virtual_address := symbol_address sections k (los_merged_offset symbol)\<rparr> else symbol
      | None \<Rightarrow> symbol)"

definition place_global_symbol :: "LinkedSection list \<Rightarrow> LinkedSymbol \<Rightarrow> LinkedSymbol" where
  "place_global_symbol sections symbol =
     (case lsym_merged_section_index symbol of
        Some k \<Rightarrow> if lsym_is_defined symbol
          then symbol\<lparr>lsym_virtual_address := symbol_address sections k (lsym_merged_offset symbol)\<rparr> else symbol
      | None \<Rightarrow> symbol)"

definition link_resolution_assign_virtual_addresses :: "LinkResolution \<Rightarrow> nat \<Rightarrow> LinkResolution" where
  "link_resolution_assign_virtual_addresses resolution section_alignment =
     (let sections = place_sections section_alignment 0 (lr_sections resolution)
      in resolution\<lparr>lr_sections := sections,
           lr_objects := map (\<lambda>input. input\<lparr>li_symbols := map (place_object_symbol sections) (li_symbols input)\<rparr>)
             (lr_objects resolution),
           lr_symbols := map (place_global_symbol sections) (lr_symbols resolution)\<rparr>)"

section \<open>Checks and composition\<close>

definition link_resolution_validate_externals :: "LinkResolution \<Rightarrow> LinkResolutionOptions option \<Rightarrow> LinkResolution linked" where
  "link_resolution_validate_externals resolution options =
     (if (case options of None \<Rightarrow> True | Some opts \<Rightarrow> \<not> opt_allow_unresolved_externals opts) \<and>
         (\<exists>s \<in> set (lr_symbols resolution). lsym_is_external s \<and> \<not> lsym_is_defined s)
      then reject ''Unresolved external symbol''
      else case Option.bind options opt_entry_symbol_name of
             None \<Rightarrow> Inr resolution
           | Some entry_name \<Rightarrow>
               (if entry_name = [] then Inr resolution
                else case link_resolution_find_symbol (lr_symbols resolution) entry_name of
                       None \<Rightarrow> reject ''Entry point symbol was not resolved''
                     | Some s \<Rightarrow> if lsym_is_defined s then Inr (resolution\<lparr>lr_entry_symbol := Some s\<rparr>)
                                else reject ''Entry point symbol was not resolved''))"

definition link_resolution_load_objects :: "(string \<Rightarrow> bytes option) \<Rightarrow> string list \<Rightarrow> LinkedInputObject list linked" where
  "link_resolution_load_objects read_file object_paths =
     map_linked (\<lambda>path. and_then (coff_object_read read_file path) (\<lambda>object.
       Inr \<lparr>li_path = path, li_object = object, li_placements = [], li_symbols = []\<rparr>)) object_paths"

definition link_resolution_build ::
  "(string \<Rightarrow> bytes option) \<Rightarrow> string list \<Rightarrow> LinkResolutionOptions option \<Rightarrow> LinkResolution linked" where
  "link_resolution_build read_file object_paths options =
     (if object_paths = [] then reject ''At least one object file is required''
      else let section_alignment = (case options of
                 Some opts \<Rightarrow> if opt_section_alignment opts > 1 then opt_section_alignment opts else 16
               | None \<Rightarrow> 16)
           in and_then (link_resolution_load_objects read_file object_paths) (\<lambda>objects.
              let resolution = link_resolution_merge_sections
                    \<lparr>lr_objects = objects, lr_sections = link_resolution_init_sections, lr_symbols = [], lr_entry_symbol = None\<rparr>
                    section_alignment
              in and_then (link_resolution_build_symbols resolution) (\<lambda>resolution.
                 link_resolution_validate_externals
                   (link_resolution_assign_virtual_addresses resolution section_alignment) options)))"

definition link_resolution_find_section :: "LinkResolution \<Rightarrow> CoffSectionKind \<Rightarrow> LinkedSection option" where
  "link_resolution_find_section resolution kind =
     map_option (\<lambda>k. lr_sections resolution ! k) (link_section_index_from_kind kind)"

end
