(* ===== verification/Link_Layout.thy ===== *)
theory Link_Layout
  imports Symbol_Resolve "HOL-Library.Sublist"
begin

text \<open>
  What merging guarantees: every section of every input object ends up in the merged section of its kind,
  at a multiple of its alignment, with its bytes unchanged, apart from all others; and the merged
  sections get disjoint address ranges.
\<close>

section \<open>Alignments are powers of two\<close>

definition power_of_two :: "nat \<Rightarrow> bool" where
  "power_of_two n \<longleftrightarrow> (\<exists>k < 64. n = 2 ^ k)"

lemma power_of_twoI: "k < 64 \<Longrightarrow> power_of_two (2 ^ k)"
  by (auto simp: power_of_two_def)

lemma alignment_table_powers: "map_of alignment_table w = Some a \<Longrightarrow> power_of_two a"
proof -
  assume "map_of alignment_table w = Some a"
  then have "a \<in> snd ` set alignment_table" by (force dest: map_of_SomeD)
  then obtain k where "k < 14" "a = 2 ^ k"
  proof -
    have "snd ` set alignment_table = (\<lambda>k. 2 ^ k) ` {..<14}"
      by (auto simp: alignment_table_def lessThan_nat_numeral lessThan_Suc)
    with \<open>a \<in> snd ` set alignment_table\<close> that show thesis by auto
  qed
  then show ?thesis by (auto intro: power_of_twoI)
qed

lemma link_section_alignment_power:
  assumes "power_of_two fallback"
  shows "power_of_two (link_section_alignment section fallback)"
proof -
  have "power_of_two 1" "power_of_two 16" using power_of_twoI [of 0] power_of_twoI [of 4] by simp_all
  then show ?thesis
    using assms alignment_table_powers
    by (auto simp: link_section_alignment_def link_default_section_alignment_def link_alignment_from_characteristics_def
        Let_def split: option.split)
qed

lemma align_up_power:
  assumes "power_of_two a" and "v + a \<le> 2 ^ 64"
  shows "a dvd linker_align_up v a" "v \<le> linker_align_up v a" "linker_align_up v a < v + a"
proof -
  obtain k where k: "k < 64" "a = 2 ^ k" using assms(1) by (auto simp: power_of_two_def)
  have "v + (2 ^ k - 1) < 2 ^ 64"
    using assms(2) k(2) by (cases "(2 :: nat) ^ k") auto
  from align_up_bounds [OF k(1) this] k(2)
  show "a dvd linker_align_up v a" "v \<le> linker_align_up v a" "linker_align_up v a < v + a" by simp_all
qed

section \<open>One section\<close>

abbreviation vsize :: "LinkedSection list \<Rightarrow> nat \<Rightarrow> nat" where
  "vsize sections k \<equiv> ls_virtual_size (sections ! k)"

definition sections_ok :: "LinkedSection list \<Rightarrow> bool" where
  "sections_ok sections \<longleftrightarrow> length sections = 6 \<and> ls_data (sections ! 3) = [] \<and>
     (\<forall>k < 6. k \<noteq> 3 \<longrightarrow> vsize sections k = length (ls_data (sections ! k)))"

definition grown :: "LinkedSection list \<Rightarrow> LinkedSection list \<Rightarrow> bool" where
  "grown sections sections' \<longleftrightarrow> length sections' = length sections \<and>
     (\<forall>k < length sections. prefix (ls_data (sections ! k)) (ls_data (sections' ! k)) \<and>
        vsize sections k \<le> vsize sections' k)"

lemma grown_refl: "grown s s"
  by (simp add: grown_def)

lemma grown_trans: "grown a b \<Longrightarrow> grown b c \<Longrightarrow> grown a c"
  unfolding grown_def
proof (intro conjI allI impI)
  assume ab: "length b = length a \<and> (\<forall>k < length a. prefix (ls_data (a ! k)) (ls_data (b ! k)) \<and> vsize a k \<le> vsize b k)"
    and bc: "length c = length b \<and> (\<forall>k < length b. prefix (ls_data (b ! k)) (ls_data (c ! k)) \<and> vsize b k \<le> vsize c k)"
  show "length c = length a" using ab bc by simp
  fix k assume "k < length a"
  then have "prefix (ls_data (a ! k)) (ls_data (b ! k))" "prefix (ls_data (b ! k)) (ls_data (c ! k))"
    "vsize a k \<le> vsize b k" "vsize b k \<le> vsize c k" using ab bc by auto
  then show "prefix (ls_data (a ! k)) (ls_data (c ! k))" "vsize a k \<le> vsize c k"
    by (blast intro: prefix_order.trans, simp)
qed

text \<open>The bytes of a section that are taken up in the merged section.\<close>

definition extent :: "CoffSection \<Rightarrow> SectionPlacement \<Rightarrow> nat" where
  "extent section placement =
     (if sec_kind section = COFF_SECTION_KIND_BSS then pl_merged_size placement else length (sec_raw_data section))"

definition settled :: "LinkedSection list \<Rightarrow> CoffSection \<Rightarrow> SectionPlacement \<Rightarrow> bool" where
  "settled sections section placement \<longleftrightarrow>
     pl_merged_index placement = link_section_index_from_kind (sec_kind section) \<and>
     (\<forall>k. pl_merged_index placement = Some k \<longrightarrow>
        pl_alignment placement dvd pl_merged_offset placement \<and>
        pl_merged_offset placement + extent section placement \<le> vsize sections k \<and>
        (sec_kind section \<noteq> COFF_SECTION_KIND_BSS \<longrightarrow>
           take (length (sec_raw_data section)) (drop (pl_merged_offset placement) (ls_data (sections ! k))) =
             sec_raw_data section))"

definition apart :: "CoffSection \<times> SectionPlacement \<Rightarrow> CoffSection \<times> SectionPlacement \<Rightarrow> bool" where
  "apart x y \<longleftrightarrow> (\<forall>k. pl_merged_index (snd x) = Some k \<longrightarrow> pl_merged_index (snd y) = Some k \<longrightarrow>
     pl_merged_offset (snd x) + extent (fst x) (snd x) \<le> pl_merged_offset (snd y))"

definition laid :: "LinkedSection list \<Rightarrow> LinkedSection list \<Rightarrow> (CoffSection \<times> SectionPlacement) list \<Rightarrow> bool" where
  "laid sections sections' xs \<longleftrightarrow> sections_ok sections' \<and> grown sections sections' \<and> sorted_wrt apart xs \<and>
     (\<forall>(section, placement) \<in> set xs. settled sections' section placement \<and>
        (\<forall>k. pl_merged_index placement = Some k \<longrightarrow> vsize sections k \<le> pl_merged_offset placement))"

lemma index_from_kind_less: "link_section_index_from_kind kind = Some k \<Longrightarrow> k < 6"
  by (cases kind) auto

lemma index_from_kind_bss: "link_section_index_from_kind kind = Some k \<Longrightarrow> k = 3 \<longleftrightarrow> kind = COFF_SECTION_KIND_BSS"
  by (cases kind) auto

lemma settled_grown:
  assumes "settled a section placement" and "grown a b" and "sections_ok a"
  shows "settled b section placement"
  unfolding settled_def
proof (intro conjI allI impI)
  show "pl_merged_index placement = link_section_index_from_kind (sec_kind section)"
    using assms(1) by (simp add: settled_def)
  fix k assume k: "pl_merged_index placement = Some k"
  have k6: "k < 6" and i: "link_section_index_from_kind (sec_kind section) = Some k"
    using assms(1) k index_from_kind_less by (auto simp: settled_def)
  have g: "prefix (ls_data (a ! k)) (ls_data (b ! k))" "vsize a k \<le> vsize b k"
    using assms(2,3) k6 by (auto simp: grown_def sections_ok_def)
  show "pl_alignment placement dvd pl_merged_offset placement"
    "pl_merged_offset placement + extent section placement \<le> vsize b k"
    using assms(1) k g(2) by (auto simp: settled_def)
  assume bss: "sec_kind section \<noteq> COFF_SECTION_KIND_BSS"
  then have "pl_merged_offset placement + length (sec_raw_data section) \<le> length (ls_data (a ! k))"
    using assms(1,3) k k6 index_from_kind_bss [OF i] by (auto simp: settled_def sections_ok_def extent_def)
  moreover obtain ext where "ls_data (b ! k) = ls_data (a ! k) @ ext" using g(1) by (auto simp: prefix_def)
  ultimately show "take (length (sec_raw_data section)) (drop (pl_merged_offset placement) (ls_data (b ! k))) =
      sec_raw_data section"
    using assms(1) k bss by (auto simp: settled_def)
qed

lemma laid_nil: "sections_ok s \<Longrightarrow> laid s s []"
  by (simp add: laid_def grown_refl)

lemma laid_append:
  assumes "laid a b xs" and "laid b c ys"
  shows "laid a c (xs @ ys)"
proof -
  have ab: "sections_ok b" "grown a b" "grown b c" using assms by (auto simp: laid_def)
  have "apart x y" if xy: "x \<in> set xs" "y \<in> set ys" for x y
    unfolding apart_def
  proof (intro allI impI)
    fix k assume k: "pl_merged_index (snd x) = Some k" "pl_merged_index (snd y) = Some k"
    have "settled b (fst x) (snd x)" using assms(1) xy(1) by (auto simp: laid_def)
    then have "pl_merged_offset (snd x) + extent (fst x) (snd x) \<le> vsize b k" using k(1) by (simp add: settled_def)
    also have "vsize b k \<le> pl_merged_offset (snd y)" using assms(2) xy(2) k(2) by (auto simp: laid_def)
    finally show "pl_merged_offset (snd x) + extent (fst x) (snd x) \<le> pl_merged_offset (snd y)" .
  qed
  moreover have "settled c s p \<and> (\<forall>k. pl_merged_index p = Some k \<longrightarrow> vsize a k \<le> pl_merged_offset p)"
    if "(s, p) \<in> set xs" for s p
    using that assms(1) settled_grown [OF _ ab(3,1)] by (auto simp: laid_def)
  moreover have "settled c s p \<and> (\<forall>k. pl_merged_index p = Some k \<longrightarrow> vsize a k \<le> pl_merged_offset p)"
    if "(s, p) \<in> set ys" for s p
  proof -
    have p: "settled c s p" "\<forall>k. pl_merged_index p = Some k \<longrightarrow> vsize b k \<le> pl_merged_offset p"
      using that assms(2) by (auto simp: laid_def)
    have "vsize a k \<le> vsize b k" if "pl_merged_index p = Some k" for k
      using that p(1) index_from_kind_less ab by (auto simp: settled_def grown_def sections_ok_def)
    with p show ?thesis by (meson order_trans)
  qed
  ultimately show ?thesis
    using assms grown_trans [OF ab(2,3)] by (auto simp: laid_def sorted_wrt_append)
qed

text \<open>The room a section may need: its bytes and one alignment.\<close>

definition section_need :: "nat \<Rightarrow> CoffObject \<Rightarrow> nat \<Rightarrow> nat" where
  "section_need fallback object i =
     link_section_alignment (obj_sections object ! i) fallback +
     max (length (sec_raw_data (obj_sections object ! i))) (link_estimate_section_size object i)"

lemma merge_section_laid:
  assumes ok: "sections_ok sections" and fb: "power_of_two fallback"
    and room: "\<forall>k < 6. vsize sections k \<le> B" "B + section_need fallback object i \<le> 2 ^ 64"
    and m: "merge_section fallback oi object i sections = (sections', placement)"
  shows "laid sections sections' [(obj_sections object ! i, placement)] \<and>
     (\<forall>k < 6. vsize sections' k \<le> B + section_need fallback object i)"
proof (cases "link_section_index_from_kind (sec_kind (obj_sections object ! i))")
  case None
  then have "sections' = sections" "pl_merged_index placement = None" using m by (auto simp: merge_section_def Let_def)
  then show ?thesis using ok room None by (auto simp: laid_def grown_refl settled_def intro: order_trans)
next
  case (Some k)
  let ?sec = "obj_sections object ! i" and ?csize = "link_estimate_section_size object i"
  define al where "al = link_section_alignment ?sec fallback"
  define start where "start = linker_align_up (vsize sections k) al"
  define merged where "merged = extend_merged ((sections ! k)\<lparr>ls_alignment := max (ls_alignment (sections ! k)) al\<rparr>) ?sec start ?csize"
  have k: "k < 6" "k < length sections" using index_from_kind_less [OF Some] ok by (auto simp: sections_ok_def)
  have need: "section_need fallback object i = al + max (length (sec_raw_data ?sec)) ?csize"
    by (simp add: section_need_def al_def)
  have "vsize sections k + al \<le> 2 ^ 64" using room k need by fastforce
  note st = align_up_power [OF link_section_alignment_power [OF fb, of ?sec, folded al_def] this, folded start_def]
  have data: "ls_data (sections' ! j) = (if j = k then ls_data merged else ls_data (sections ! j))"
    and vs: "vsize sections' j = (if j = k then ls_virtual_size merged else vsize sections j)"
    and len: "length sections' = length sections" for j
    using m Some k by (auto simp: merge_section_def Let_def al_def start_def merged_def nth_list_update)
  have pl: "pl_merged_index placement = Some k" "pl_merged_offset placement = start" "pl_merged_size placement = ?csize"
      "pl_alignment placement = al"
    using m Some by (auto simp: merge_section_def Let_def al_def start_def)
  show ?thesis
  proof (cases "sec_kind ?sec = COFF_SECTION_KIND_BSS")
    case True
    then have "k = 3" using index_from_kind_bss [OF Some] by simp
    have md: "ls_data merged = ls_data (sections ! k)" "ls_virtual_size merged = max (vsize sections k) (start + ?csize)"
      using True by (auto simp: merged_def extend_merged_def)
    have "ls_virtual_size merged \<le> B + section_need fallback object i"
      using room(1) k st(3) need md(2) by fastforce
    then show ?thesis
      using ok room(1) True \<open>k = 3\<close> md st pl Some k
      by (auto simp: laid_def grown_def sections_ok_def settled_def extent_def data vs len intro: trans_le_add1)
  next
    case False
    then have "k \<noteq> 3" using index_from_kind_bss [OF Some] by simp
    then have vk: "vsize sections k = length (ls_data (sections ! k))" using ok k by (auto simp: sections_ok_def)
    have md: "ls_data merged = ls_data (sections ! k) @ replicate (start - length (ls_data (sections ! k))) 0 @ sec_raw_data ?sec"
      "ls_virtual_size merged = start + length (sec_raw_data ?sec)"
      using False st(2) vk by (auto simp: merged_def extend_merged_def Let_def)
    have "ls_virtual_size merged \<le> B + section_need fallback object i"
      using room(1) k st(3) need md(2) by fastforce
    moreover have "take (length (sec_raw_data ?sec)) (drop start (ls_data merged)) = sec_raw_data ?sec"
      using md(1) st(2) vk by simp
    moreover have "length (ls_data merged) = start + length (sec_raw_data ?sec)" using md(1) st(2) vk by simp
    ultimately show ?thesis
      using ok room(1) False \<open>k \<noteq> 3\<close> md st pl Some k vk
      by (auto simp: laid_def grown_def sections_ok_def settled_def extent_def data vs len intro: trans_le_add1)
  qed
qed

section \<open>All sections of all objects\<close>

lemma merge_object_laid:
  assumes "sections_ok sections" and "power_of_two fallback" and "\<forall>k < 6. vsize sections k \<le> B"
    and "B + (\<Sum>i \<leftarrow> is. section_need fallback object i) \<le> 2 ^ 64"
    and "merge_object fallback oi object is sections = (sections', placements)"
  shows "laid sections sections' (zip (map (\<lambda>i. obj_sections object ! i) is) placements) \<and> length placements = length is \<and>
     (\<forall>k < 6. vsize sections' k \<le> B + (\<Sum>i \<leftarrow> is. section_need fallback object i))"
  using assms(1,3-5)
proof (induction "is" arbitrary: sections B placements)
  case Nil
  then show ?case by (simp add: laid_nil)
next
  case (Cons i "is")
  obtain sections1 p ps where m: "merge_section fallback oi object i sections = (sections1, p)"
      "merge_object fallback oi object is sections1 = (sections', ps)" "placements = p # ps"
    using Cons.prems(4) by (auto split: prod.splits)
  from merge_section_laid [OF Cons.prems(1) assms(2) Cons.prems(2) _ m(1)] Cons.prems(3)
  have 1: "laid sections sections1 [(obj_sections object ! i, p)]"
    and b: "\<forall>k < 6. vsize sections1 k \<le> B + section_need fallback object i" by auto
  have "sections_ok sections1" using 1 by (simp add: laid_def)
  from Cons.IH [OF this b _ m(2)] Cons.prems(3)
  have 2: "laid sections1 sections' (zip (map (\<lambda>i. obj_sections object ! i) is) ps)" "length ps = length is"
    "\<forall>k < 6. vsize sections' k \<le> B + section_need fallback object i + (\<Sum>i \<leftarrow> is. section_need fallback object i)"
    by (auto simp: add.assoc)
  from laid_append [OF 1 2(1)] 2(2,3) m(3) show ?case by (simp add: add.assoc)
qed

text \<open>The sections of the inputs, in the order in which they are merged, with their placements.\<close>

definition placed_sections :: "LinkedInputObject list \<Rightarrow> (CoffSection \<times> SectionPlacement) list" where
  "placed_sections inputs = concat (map (\<lambda>input. zip (obj_sections (li_object input)) (li_placements input)) inputs)"

definition objects_need :: "nat \<Rightarrow> LinkedInputObject list \<Rightarrow> nat" where
  "objects_need fallback inputs =
     (\<Sum>input \<leftarrow> inputs. \<Sum>i \<leftarrow> [0 ..< length (obj_sections (li_object input))]. section_need fallback (li_object input) i)"

lemma merge_objects_laid:
  assumes "sections_ok sections" and "power_of_two fallback" and "\<forall>k < 6. vsize sections k \<le> B"
    and "B + objects_need fallback inputs \<le> 2 ^ 64"
    and "merge_objects fallback oi inputs sections = (inputs', sections')"
  shows "laid sections sections' (placed_sections inputs') \<and> map li_object inputs' = map li_object inputs \<and>
     (\<forall>input \<in> set inputs'. length (li_placements input) = length (obj_sections (li_object input))) \<and>
     (\<forall>k < 6. vsize sections' k \<le> B + objects_need fallback inputs)"
  using assms(1,3-5)
proof (induction inputs arbitrary: sections B inputs' oi)
  case Nil
  then show ?case by (simp add: laid_nil placed_sections_def objects_need_def)
next
  case (Cons input inputs)
  let ?o = "li_object input"
  let ?n = "\<Sum>i \<leftarrow> [0 ..< length (obj_sections ?o)]. section_need fallback ?o i"
  have need: "objects_need fallback (input # inputs) = ?n + objects_need fallback inputs" by (simp add: objects_need_def)
  obtain sections1 ps is' where m: "merge_object fallback oi ?o [0 ..< length (obj_sections ?o)] sections = (sections1, ps)"
      "merge_objects fallback (oi + 1) inputs sections1 = (is', sections')" "inputs' = input\<lparr>li_placements := ps\<rparr> # is'"
    using Cons.prems(4) by (auto simp: Let_def split: prod.splits)
  have "B + ?n \<le> 2 ^ 64" using Cons.prems(3) need by linarith
  from merge_object_laid [OF Cons.prems(1) assms(2) Cons.prems(2) this m(1)]
  have 1: "laid sections sections1 (zip (obj_sections ?o) ps)" "length ps = length (obj_sections ?o)"
    and b: "\<forall>k < 6. vsize sections1 k \<le> B + ?n" by (auto simp: map_nth)
  have "sections_ok sections1" using 1 by (simp add: laid_def)
  from Cons.IH [OF this b _ m(2)] Cons.prems(3) need
  have 2: "laid sections1 sections' (placed_sections is')" "map li_object is' = map li_object inputs"
    "\<forall>input \<in> set is'. length (li_placements input) = length (obj_sections (li_object input))"
    "\<forall>k < 6. vsize sections' k \<le> B + ?n + objects_need fallback inputs"
    by (auto simp: add.assoc)
  from laid_append [OF 1(1) 2(1)] 1(2) 2(2-4) m(3) need show ?case
    by (auto simp: placed_sections_def add.assoc)
qed

lemma sections_ok_init: "sections_ok link_resolution_init_sections" "k < 6 \<Longrightarrow> vsize link_resolution_init_sections k = 0"
proof -
  show "k < 6 \<Longrightarrow> vsize link_resolution_init_sections k = 0" for k
    by (simp add: link_resolution_init_sections_def nth_Cons' split: if_splits)
  show "sections_ok link_resolution_init_sections"
    by (auto simp: sections_ok_def link_resolution_init_sections_def nth_Cons')
qed

text \<open>(C10) Section layout. Provided the sizes fit into the address space and the alignment option is a power of
  two, merging puts every section of every object into the merged section of its kind, at an offset that
  is a multiple of its alignment and inside the merged section; the bytes found there afterwards are the
  section's own; and no two sections share a byte: those merged later lie behind those merged before.\<close>

theorem merge_sections_layout:
  assumes "power_of_two alignment" and "objects_need alignment objects \<le> 2 ^ 64"
    and "link_resolution_merge_sections
       \<lparr>lr_objects = objects, lr_sections = link_resolution_init_sections, lr_symbols = [], lr_entry_symbol = None\<rparr> alignment = r"
  shows "(\<forall>(section, placement) \<in> set (placed_sections (lr_objects r)). settled (lr_sections r) section placement) \<and>
     sorted_wrt apart (placed_sections (lr_objects r)) \<and> map li_object (lr_objects r) = map li_object objects \<and>
     (\<forall>input \<in> set (lr_objects r). length (li_placements input) = length (obj_sections (li_object input)))"
proof -
  obtain objects' sections' where m: "merge_objects alignment 0 objects link_resolution_init_sections = (objects', sections')"
    by fastforce
  have "\<forall>k < 6. vsize link_resolution_init_sections k \<le> 0" using sections_ok_init(2) by simp
  from merge_objects_laid [OF sections_ok_init(1) assms(1) this _ m] assms(2)
  have "laid link_resolution_init_sections sections' (placed_sections objects')" "map li_object objects' = map li_object objects"
    "\<forall>input \<in> set objects'. length (li_placements input) = length (obj_sections (li_object input))" by auto
  moreover have "lr_objects r = objects'" "lr_sections r = sections'"
    using assms(3) m by (auto simp: link_resolution_merge_sections_def)
  ultimately show ?thesis by (auto simp: laid_def)
qed

definition one_text_section :: CoffSection where
  "one_text_section = (section_header ''.text'' (replicate 40 0))\<lparr>sec_raw_data := [0x90, 0xC3], sec_size_of_raw_data := 2\<rparr>"

definition one_section_object :: CoffObject where
  "one_section_object = \<lparr>obj_machine = 0x8664, obj_section_count = 1, obj_time_date_stamp = 0,
     obj_pointer_to_symbol_table = 0, obj_symbol_count = 0, obj_size_of_optional_header = 0,
     obj_characteristics = 0, obj_sections = [one_text_section], obj_symbols = [], obj_string_table = []\<rparr>"

definition one_input :: LinkedInputObject where
  "one_input = \<lparr>li_path = ''a.o'', li_object = one_section_object, li_placements = [], li_symbols = []\<rparr>"

theorem merge_sections_layout_witness:
  "\<exists>r. link_resolution_merge_sections \<lparr>lr_objects = [one_input, one_input], lr_sections = link_resolution_init_sections,
       lr_symbols = [], lr_entry_symbol = None\<rparr> 16 = r \<and>
     (\<forall>(section, placement) \<in> set (placed_sections (lr_objects r)). settled (lr_sections r) section placement) \<and>
     map li_object (lr_objects r) = [one_section_object, one_section_object]"
proof -
  have p: "power_of_two 16" using power_of_twoI [of 4] by simp
  have chars: "link_alignment_from_characteristics (sec_characteristics one_text_section) = 0"
    by (simp add: one_text_section_def section_header_def linker_read_u32_def link_alignment_from_characteristics_def
        alignment_table_def)
  have need: "section_need 16 one_section_object 0 = 18"
    by (simp add: section_need_def one_section_object_def link_section_alignment_def chars link_default_section_alignment_def
        link_estimate_section_size_def Let_def)
      (simp add: one_text_section_def section_header_def linker_read_u32_def)
  then have n: "objects_need 16 [one_input, one_input] \<le> 2 ^ 64"
    by (simp add: objects_need_def one_input_def one_section_object_def [THEN arg_cong [of _ _ obj_sections]])
  from merge_sections_layout [OF p n refl] show ?thesis by (simp add: one_input_def)
qed

section \<open>Address ranges\<close>

definition before :: "LinkedSection \<Rightarrow> LinkedSection \<Rightarrow> bool" where
  "before a b \<longleftrightarrow> (0 < ls_virtual_size a \<longrightarrow> 0 < ls_virtual_size b \<longrightarrow>
     unat (ls_virtual_address a) + ls_virtual_size a \<le> unat (ls_virtual_address b))"

definition address_need :: "nat \<Rightarrow> LinkedSection list \<Rightarrow> nat" where
  "address_need alignment sections = (\<Sum>s \<leftarrow> sections. ls_virtual_size s + alignment)"

lemma place_sections_ranges:
  assumes "power_of_two alignment" and "unat c + address_need alignment sections < 2 ^ 64"
  shows "sorted_wrt before (place_sections alignment c sections) \<and>
     (\<forall>s \<in> set (place_sections alignment c sections). 0 < ls_virtual_size s \<longrightarrow>
        unat c \<le> unat (ls_virtual_address s) \<and> alignment dvd unat (ls_virtual_address s) \<and>
        unat (ls_virtual_address s) + ls_virtual_size s < 2 ^ 64) \<and>
     map ls_data (place_sections alignment c sections) = map ls_data sections \<and>
     map ls_virtual_size (place_sections alignment c sections) = map ls_virtual_size sections"
  using assms(2)
proof (induction sections arbitrary: c)
  case (Cons s sections)
  have need: "address_need alignment (s # sections) = ls_virtual_size s + alignment + address_need alignment sections"
    by (simp add: address_need_def)
  show ?case
  proof (cases "ls_virtual_size s = 0")
    case True
    have "unat c + address_need alignment sections < 2 ^ 64" using Cons.prems need by simp
    from Cons.IH [OF this] True show ?thesis by (simp add: before_def)
  next
    case False
    define a where "a = linker_align_up (unat c) alignment"
    have "unat c + alignment \<le> 2 ^ 64" using Cons.prems need by linarith
    note al = align_up_power [OF assms(1) this, folded a_def]
    define v where "v = (of_nat a :: u64)"
    have v: "unat v = a" using al(3) Cons.prems need by (simp add: v_def unat_of_nat)
    have c': "unat (v + of_nat (ls_virtual_size s)) = a + ls_virtual_size s"
      using al(3) Cons.prems need by (simp add: v_def unat_of_nat flip: of_nat_add)
    have room: "unat (v + of_nat (ls_virtual_size s)) + address_need alignment sections < 2 ^ 64"
      using c' al(3) Cons.prems need by linarith
    note IH = Cons.IH [OF room, unfolded c']
    have eq: "place_sections alignment c (s # sections) = s\<lparr>ls_virtual_address := v\<rparr> #
        place_sections alignment (v + of_nat (ls_virtual_size s)) sections"
      using False by (simp add: Let_def v_def a_def)
    have "before (s\<lparr>ls_virtual_address := v\<rparr>) t" if "t \<in> set (place_sections alignment (v + of_nat (ls_virtual_size s)) sections)" for t
      using IH that v by (auto simp: before_def)
    moreover have "a + ls_virtual_size s < 2 ^ 64" using al(3) Cons.prems need by linarith
    ultimately show ?thesis unfolding eq using IH al v by (auto intro: order_trans)
  qed
qed simp

text \<open>(C34) Address ranges. When the merged sections and their alignment fit into 64-bit addresses, every
  non-empty merged section gets an aligned address, none wraps around, and the address ranges of two
  sections never overlap; contents and sizes are left alone.\<close>

theorem assign_addresses_disjoint:
  assumes "power_of_two alignment" and "address_need alignment (lr_sections r) < 2 ^ 64"
    and "link_resolution_assign_virtual_addresses r alignment = r'"
  shows "sorted_wrt before (lr_sections r') \<and>
     (\<forall>s \<in> set (lr_sections r'). 0 < ls_virtual_size s \<longrightarrow>
        alignment dvd unat (ls_virtual_address s) \<and> unat (ls_virtual_address s) + ls_virtual_size s < 2 ^ 64) \<and>
     map ls_data (lr_sections r') = map ls_data (lr_sections r) \<and>
     map ls_virtual_size (lr_sections r') = map ls_virtual_size (lr_sections r)"
proof -
  have "lr_sections r' = place_sections alignment 0 (lr_sections r)"
    using assms(3) by (auto simp: link_resolution_assign_virtual_addresses_def Let_def)
  with place_sections_ranges [OF assms(1), of 0 "lr_sections r"] assms(2) show ?thesis by auto
qed

theorem assign_addresses_disjoint_witness:
  "\<exists>r'. link_resolution_assign_virtual_addresses \<lparr>lr_objects = [], lr_sections =
       map (\<lambda>s. s\<lparr>ls_virtual_size := 100\<rparr>) link_resolution_init_sections, lr_symbols = [], lr_entry_symbol = None\<rparr> 4096 = r' \<and>
     sorted_wrt before (lr_sections r')"
proof -
  let ?s = "map (\<lambda>s. s\<lparr>ls_virtual_size := 100\<rparr>) link_resolution_init_sections"
  have p: "power_of_two 4096" using power_of_twoI [of 12] by simp
  have "address_need 4096 ?s < 2 ^ 64" by (simp add: address_need_def link_resolution_init_sections_def)
  then have n: "address_need 4096 (lr_sections \<lparr>lr_objects = [], lr_sections = ?s, lr_symbols = [], lr_entry_symbol = None\<rparr>) < 2 ^ 64"
    by (simp only: LinkResolution.select_convs)
  from assign_addresses_disjoint [OF p n refl] show ?thesis by blast
qed

end
