(* ===== verification/Link_Symbols.thy ===== *)
theory Link_Symbols
  imports Link_Layout
begin

text \<open>
  What symbol resolution guarantees. The global symbol table is a registry in the sense of the locale
  below: names are registered with or without a definition, and a second definition is refused. From
  that alone follows which links succeed and what each name stands for.
\<close>

section \<open>A registry of definitions\<close>

locale symbol_registry =
  fixes view :: "'t \<Rightarrow> 'n \<Rightarrow> 'd option option"
    and invar :: "'t \<Rightarrow> bool"
    and register :: "'t \<Rightarrow> 'x \<Rightarrow> 't linked"
    and key :: "'x \<Rightarrow> 'n"
    and defn :: "'x \<Rightarrow> 'd option"
  assumes register_duplicate: "invar t \<Longrightarrow> view t (key x) = Some (Some d) \<Longrightarrow> defn x \<noteq> None \<Longrightarrow>
      \<exists>m. register t x = Inl (Rejected m)"
    and register_ok: "invar t \<Longrightarrow> defn x = None \<or> (\<forall>d. view t (key x) \<noteq> Some (Some d)) \<Longrightarrow>
      \<exists>t'. register t x = Inr t' \<and> invar t' \<and>
        view t' = (view t)(key x \<mapsto> (case defn x of Some d \<Rightarrow> Some d
           | None \<Rightarrow> (case view t (key x) of Some v \<Rightarrow> v | None \<Rightarrow> None)))"
begin

fun register_all :: "'t \<Rightarrow> 'x list \<Rightarrow> 't linked" where
  "register_all t [] = Inr t"
| "register_all t (x # xs) = and_then (register t x) (\<lambda>t. register_all t xs)"

text \<open>The names defined by a list, in a table or by a list.\<close>

definition defined_keys :: "'x list \<Rightarrow> 'n list" where
  "defined_keys xs = map key (filter (\<lambda>x. defn x \<noteq> None) xs)"

definition free_of :: "'t \<Rightarrow> 'x list \<Rightarrow> bool" where
  "free_of t xs \<longleftrightarrow> (\<forall>n \<in> set (defined_keys xs). \<forall>d. view t n \<noteq> Some (Some d))"

lemma defined_keys_Cons:
  "defined_keys (x # xs) = (if defn x \<noteq> None then key x # defined_keys xs else defined_keys xs)"
  by (simp add: defined_keys_def)

lemma register_all_Inr:
  assumes "invar t"
  shows "(\<exists>t'. register_all t xs = Inr t') \<longleftrightarrow> distinct (defined_keys xs) \<and> free_of t xs"
  using assms
proof (induction xs arbitrary: t)
  case Nil
  then show ?case by (simp add: defined_keys_def free_of_def)
next
  case (Cons x xs)
  show ?case
  proof (cases "defn x \<noteq> None \<and> (\<exists>d. view t (key x) = Some (Some d))")
    case True
    then show ?thesis using register_duplicate [OF Cons.prems] by (fastforce simp: free_of_def defined_keys_def)
  next
    case False
    then have can: "defn x = None \<or> (\<forall>d. view t (key x) \<noteq> Some (Some d))" by blast
    obtain t' where t': "register t x = Inr t'" "invar t'"
        "view t' = (view t)(key x \<mapsto> (case defn x of Some d \<Rightarrow> Some d
           | None \<Rightarrow> (case view t (key x) of Some v \<Rightarrow> v | None \<Rightarrow> None)))"
      using register_ok [OF Cons.prems can] by auto
    have v: "view t' n = Some (Some d) \<longleftrightarrow> (if n = key x \<and> defn x \<noteq> None then defn x = Some d else view t n = Some (Some d))" for n d
      by (auto simp: t'(3) split: option.split)
    have "free_of t' xs \<and> distinct (defined_keys xs) \<longleftrightarrow> distinct (defined_keys (x # xs)) \<and> free_of t (x # xs)"
      using False can by (auto simp: free_of_def v defined_keys_Cons split: if_splits)
    with Cons.IH [OF t'(2)] t'(1) show ?thesis by auto
  qed
qed

lemma register_all_view:
  assumes "invar t" and "register_all t xs = Inr t'"
  shows "invar t' \<and> view t' n =
    (if n \<in> key ` set xs
     then Some (case List.find (\<lambda>x. key x = n \<and> defn x \<noteq> None) xs of
                  Some x \<Rightarrow> defn x | None \<Rightarrow> (case view t n of Some v \<Rightarrow> v | None \<Rightarrow> None))
     else view t n)"
  using assms
proof (induction xs arbitrary: t)
  case Nil
  then show ?case by simp
next
  case (Cons x xs)
  have nodup: "\<not> (defn x \<noteq> None \<and> (\<exists>d. view t (key x) = Some (Some d)))"
    using register_duplicate [OF Cons.prems(1)] Cons.prems(2) by fastforce
  then have can: "defn x = None \<or> (\<forall>d. view t (key x) \<noteq> Some (Some d))" by blast
  obtain t1 where t1: "register t x = Inr t1" "invar t1"
      "view t1 = (view t)(key x \<mapsto> (case defn x of Some d \<Rightarrow> Some d
         | None \<Rightarrow> (case view t (key x) of Some v \<Rightarrow> v | None \<Rightarrow> None)))"
    using register_ok [OF Cons.prems(1) can] by auto
  have r: "register_all t1 xs = Inr t'" using Cons.prems(2) t1(1) by simp
  have free: "free_of t1 xs" using register_all_Inr [OF t1(2)] r by blast
  note IH = Cons.IH [OF t1(2) r]
  show ?case
  proof (cases "key x = n")
    case False
    then have "view t1 n = view t n" using t1(3) by simp
    then show ?thesis using IH False by (auto split: option.split)
  next
    case True
    show ?thesis
    proof (cases "defn x")
      case None
      have "List.find (\<lambda>y. key y = n \<and> defn y \<noteq> None) xs = None" if "n \<notin> key ` set xs"
        using that by (auto simp: find_None_iff)
      then show ?thesis using IH t1(3) True None by (auto split: option.split)
    next
      case (Some d)
      have "List.find (\<lambda>y. key y = n \<and> defn y \<noteq> None) xs = None"
        using free True Some by (auto simp: free_of_def defined_keys_def find_None_iff t1(3))
      then show ?thesis using IH t1(3) True Some by auto
    qed
  qed
qed

end

section \<open>The global symbol table is one\<close>

definition global_definition :: "LinkedSymbol \<Rightarrow> (nat option \<times> nat option \<times> nat option \<times> nat) option" where
  "global_definition g =
     (if lsym_is_defined g then Some (lsym_defining_object_index g, lsym_defining_symbol_index g,
        lsym_merged_section_index g, lsym_merged_offset g) else None)"

definition symbol_definition :: "LinkedObjectSymbol \<Rightarrow> (nat option \<times> nat option \<times> nat option \<times> nat) option" where
  "symbol_definition s =
     (if los_is_defined s then Some (Some (los_object_index s), Some (los_symbol_index s),
        los_merged_section_index s, los_merged_offset s) else None)"

definition global_view :: "LinkedSymbol list \<Rightarrow> string \<Rightarrow> (nat option \<times> nat option \<times> nat option \<times> nat) option option" where
  "global_view symbols name = map_option global_definition (link_resolution_find_symbol symbols name)"

definition globals_ok :: "LinkedSymbol list \<Rightarrow> bool" where
  "globals_ok symbols \<longleftrightarrow> distinct (map lsym_name symbols) \<and> (\<forall>s \<in> set symbols. lsym_is_external s)"

definition symbol_name :: "LinkedObjectSymbol \<Rightarrow> string" where
  "symbol_name s = (case los_name s of Some name \<Rightarrow> name | None \<Rightarrow> [])"

definition record_symbol :: "LinkedSymbol list \<Rightarrow> LinkedObjectSymbol \<Rightarrow> LinkedSymbol list linked" where
  "record_symbol symbols s = link_resolution_record_global_symbol symbols s (symbol_name s)"

lemma find_symbol_nth:
  assumes "distinct (map lsym_name symbols)" and "i < length symbols"
  shows "link_resolution_find_symbol symbols (lsym_name (symbols ! i)) = Some (symbols ! i)"
  unfolding link_resolution_find_symbol_def
proof (rule find_unique)
  fix y assume "y \<in> set symbols" "lsym_name y = lsym_name (symbols ! i)"
  then show "y = symbols ! i" using assms by (auto simp: in_set_conv_nth distinct_conv_nth)
qed (use assms in auto)

lemma find_mutable:
  "link_resolution_find_symbol_mutable symbols name = None \<longleftrightarrow> name \<notin> lsym_name ` set symbols"
  "link_resolution_find_symbol_mutable symbols name = Some i \<Longrightarrow> i < length symbols \<and> lsym_name (symbols ! i) = name"
  by (auto simp: link_resolution_find_symbol_mutable_def find_None_iff find_Some_iff set_conv_nth)

lemma global_view_nth:
  assumes "globals_ok symbols"
  shows "global_view symbols name = Some v \<longleftrightarrow> (\<exists>g \<in> set symbols. lsym_name g = name \<and> global_definition g = v)"
    and "global_view symbols name = None \<longleftrightarrow> name \<notin> lsym_name ` set symbols"
proof -
  have u: "link_resolution_find_symbol symbols (lsym_name g) = Some g" if "g \<in> set symbols" for g
    using that assms find_symbol_nth by (auto simp: globals_ok_def in_set_conv_nth)
  show "global_view symbols name = Some v \<longleftrightarrow> (\<exists>g \<in> set symbols. lsym_name g = name \<and> global_definition g = v)"
    using u by (auto simp: global_view_def link_resolution_find_symbol_def dest!: find_Some_mem)
  show "global_view symbols name = None \<longleftrightarrow> name \<notin> lsym_name ` set symbols"
    by (auto simp: global_view_def link_resolution_find_symbol_def find_None_iff)
qed

lemma define_global_cases:
  "define_global s g = None \<longleftrightarrow> los_is_defined s \<and> lsym_is_defined g"
  "define_global s g = Some g' \<Longrightarrow> lsym_name g' = lsym_name g \<and> lsym_is_external g' \<and>
     global_definition g' = (case symbol_definition s of Some d \<Rightarrow> Some d | None \<Rightarrow> global_definition g)"
  by (auto simp: define_global_def Let_def global_definition_def symbol_definition_def split: if_splits)

lemma globals_ok_update:
  assumes "globals_ok symbols" and "i < length symbols" and "lsym_name g = lsym_name (symbols ! i)" and "lsym_is_external g"
  shows "globals_ok (symbols[i := g])" "global_view (symbols[i := g]) = (global_view symbols)(lsym_name g \<mapsto> global_definition g)"
proof -
  have names: "map lsym_name (symbols[i := g]) = map lsym_name symbols"
    using assms(2,3) by (auto simp: list_eq_iff_nth_eq nth_list_update)
  then show ok: "globals_ok (symbols[i := g])"
    using assms by (auto simp: globals_ok_def dest: set_update_subset_insert [THEN subsetD])
  show "global_view (symbols[i := g]) = (global_view symbols)(lsym_name g \<mapsto> global_definition g)"
  proof
    fix name
    show "global_view (symbols[i := g]) name = ((global_view symbols)(lsym_name g \<mapsto> global_definition g)) name"
    proof (cases "name = lsym_name g")
      case True
      then show ?thesis
        using find_symbol_nth [of "symbols[i := g]" i] ok assms(2) by (simp add: globals_ok_def global_view_def)
    next
      case False
      have "List.find (\<lambda>s. lsym_name s = name) (symbols[i := g]) = List.find (\<lambda>s. lsym_name s = name) symbols"
        using assms False
      proof (induction symbols arbitrary: i)
        case (Cons a symbols)
        then show ?case by (cases i) (auto simp: globals_ok_def)
      qed simp
      with False show ?thesis by (simp add: global_view_def link_resolution_find_symbol_def)
    qed
  qed
qed

lemma globals_ok_append:
  assumes "distinct (map lsym_name symbols)" and "name \<notin> lsym_name ` set symbols"
  shows "distinct (map lsym_name (symbols @ [fresh_linked_symbol name]))"
  using assms by (simp add: fresh_linked_symbol_def)

text \<open>Recording in a table that already has an entry of the name, or gets one first.\<close>

lemma record_symbol_spec:
  assumes ok: "globals_ok symbols"
  shows "(\<exists>d. global_view symbols (symbol_name s) = Some (Some d)) \<Longrightarrow> symbol_definition s \<noteq> None \<Longrightarrow>
      \<exists>m. record_symbol symbols s = Inl (Rejected m)"
    and "symbol_definition s = None \<or> (\<forall>d. global_view symbols (symbol_name s) \<noteq> Some (Some d)) \<Longrightarrow>
      \<exists>symbols'. record_symbol symbols s = Inr symbols' \<and> globals_ok symbols' \<and>
        global_view symbols' = (global_view symbols)(symbol_name s \<mapsto> (case symbol_definition s of Some d \<Rightarrow> Some d
           | None \<Rightarrow> (case global_view symbols (symbol_name s) of Some v \<Rightarrow> v | None \<Rightarrow> None)))"
proof -
  let ?n = "symbol_name s"
  have sd: "symbol_definition s = None \<longleftrightarrow> \<not> los_is_defined s" by (simp add: symbol_definition_def)
  have gd: "global_definition g = None \<longleftrightarrow> \<not> lsym_is_defined g" for g by (simp add: global_definition_def)
  have "((\<exists>d. global_view symbols ?n = Some (Some d)) \<longrightarrow> symbol_definition s \<noteq> None \<longrightarrow>
      (\<exists>m. record_symbol symbols s = Inl (Rejected m))) \<and>
    (symbol_definition s = None \<or> (\<forall>d. global_view symbols ?n \<noteq> Some (Some d)) \<longrightarrow>
      (\<exists>symbols'. record_symbol symbols s = Inr symbols' \<and> globals_ok symbols' \<and>
        global_view symbols' = (global_view symbols)(?n \<mapsto> (case symbol_definition s of Some d \<Rightarrow> Some d
           | None \<Rightarrow> (case global_view symbols ?n of Some v \<Rightarrow> v | None \<Rightarrow> None)))))"
  proof (cases "link_resolution_find_symbol_mutable symbols ?n")
    case None
    let ?s1 = "symbols @ [fresh_linked_symbol ?n]"
    have new: "?n \<notin> lsym_name ` set symbols" using None find_mutable(1) by blast
    then have gv: "global_view symbols ?n = None" using global_view_nth(2) [OF ok] by blast
    obtain g where g: "define_global s (fresh_linked_symbol ?n) = Some g"
      using define_global_cases(1) [of s "fresh_linked_symbol ?n"] by (auto simp: fresh_linked_symbol_def)
    have rec: "record_symbol symbols s = Inr (symbols @ [g])"
      using None g by (simp add: record_symbol_def link_resolution_record_global_symbol_def)
    have gn: "lsym_name g = ?n" "lsym_is_external g" "global_definition g = symbol_definition s"
      using define_global_cases(2) [OF g] by (auto simp: fresh_linked_symbol_def global_definition_def split: option.splits)
    have gok: "globals_ok (symbols @ [g])" using ok new gn by (auto simp: globals_ok_def)
    have "global_view (symbols @ [g]) = (global_view symbols)(?n \<mapsto> symbol_definition s)"
      using gv gn
      by (auto simp: fun_eq_iff global_view_def link_resolution_find_symbol_def find_append split: option.split)
    with rec gok gv show ?thesis by (auto split: option.split)
  next
    case (Some i)
    have i: "i < length symbols" "lsym_name (symbols ! i) = ?n" using find_mutable(2) [OF Some] by auto
    have gv: "global_view symbols ?n = Some (global_definition (symbols ! i))"
      using global_view_nth(1) [OF ok] i nth_mem by blast
    show ?thesis
    proof (cases "define_global s (symbols ! i)")
      case None
      then have "los_is_defined s" "lsym_is_defined (symbols ! i)" using define_global_cases(1) by blast+
      then have "symbol_definition s \<noteq> None" "\<exists>d. global_view symbols ?n = Some (Some d)"
        using gv by (auto simp: symbol_definition_def global_definition_def)
      moreover have "\<exists>m. record_symbol symbols s = Inl (Rejected m)"
        using Some None by (simp add: record_symbol_def link_resolution_record_global_symbol_def reject_def)
      ultimately show ?thesis by blast
    next
      case g: (Some g)
      note gc = define_global_cases(2) [OF g]
      have "\<not> (los_is_defined s \<and> lsym_is_defined (symbols ! i))" using define_global_cases(1) [of s "symbols ! i"] g by auto
      moreover have "record_symbol symbols s = Inr (symbols[i := g])"
        using Some g by (simp add: record_symbol_def link_resolution_record_global_symbol_def)
      moreover have "lsym_name g = lsym_name (symbols ! i)" "lsym_is_external g" using gc by auto
      note up = globals_ok_update [OF ok i(1) this]
      ultimately show ?thesis using up gc gv sd gd [of "symbols ! i"] i by auto
    qed
  qed
  then show "(\<exists>d. global_view symbols ?n = Some (Some d)) \<Longrightarrow> symbol_definition s \<noteq> None \<Longrightarrow>
      \<exists>m. record_symbol symbols s = Inl (Rejected m)"
    and "symbol_definition s = None \<or> (\<forall>d. global_view symbols ?n \<noteq> Some (Some d)) \<Longrightarrow>
      \<exists>symbols'. record_symbol symbols s = Inr symbols' \<and> globals_ok symbols' \<and>
        global_view symbols' = (global_view symbols)(?n \<mapsto> (case symbol_definition s of Some d \<Rightarrow> Some d
           | None \<Rightarrow> (case global_view symbols ?n of Some v \<Rightarrow> v | None \<Rightarrow> None)))"
    by blast+
qed

interpretation globals: symbol_registry global_view globals_ok record_symbol symbol_name symbol_definition
  using record_symbol_spec by unfold_locales blast+

section \<open>From the objects to the table\<close>

definition exported :: "LinkedObjectSymbol \<Rightarrow> bool" where
  "exported s \<longleftrightarrow> los_is_external s \<and> los_name s \<noteq> None"

definition externals :: "LinkedInputObject list \<Rightarrow> LinkedObjectSymbol list" where
  "externals inputs = concat (map (\<lambda>input. filter exported (li_symbols input)) inputs)"

lemma build_object_symbols_Inr:
  "build_object_symbols input oi is symbols = Inr (rs, symbols') \<longleftrightarrow>
     map_linked (resolve_symbol input oi) is = Inr rs \<and> globals.register_all symbols (filter exported rs) = Inr symbols'"
proof (induction "is" arbitrary: symbols rs)
  case (Cons i "is")
  have step: "(case los_name r of Some name \<Rightarrow> if los_is_external r
        then link_resolution_record_global_symbol symbols r name else Inr symbols | None \<Rightarrow> Inr symbols) =
      (if exported r then record_symbol symbols r else Inr symbols)" for r symbols
    by (auto simp: exported_def record_symbol_def symbol_name_def split: option.split)
  show ?case
    by (auto simp: and_then_Inr step Cons.IH split: if_splits)
qed auto

lemma register_all_append:
  "globals.register_all t (xs @ ys) = and_then (globals.register_all t xs) (\<lambda>t. globals.register_all t ys)"
proof (induction xs arbitrary: t)
  case (Cons x xs)
  then show ?case by (cases "record_symbol t x") auto
qed simp

lemma build_objects_Inr:
  assumes "build_objects oi inputs symbols = Inr (inputs', symbols')"
  shows "globals.register_all symbols (externals inputs') = Inr symbols' \<and> map li_object inputs' = map li_object inputs \<and>
     map li_placements inputs' = map li_placements inputs"
  using assms
proof (induction inputs arbitrary: oi symbols inputs')
  case Nil
  then show ?case by (simp add: externals_def)
next
  case (Cons input inputs)
  obtain rs symbols1 is' where b: "build_object_symbols input oi [0 ..< length (obj_symbols (li_object input))] symbols = Inr (rs, symbols1)"
      "build_objects (oi + 1) inputs symbols1 = Inr (is', symbols')" "inputs' = input\<lparr>li_symbols := rs\<rparr> # is'"
    using Cons.prems by (auto simp: and_then_Inr)
  from Cons.IH [OF b(2)] b(1,3) show ?case
    by (simp add: externals_def build_object_symbols_Inr register_all_append)
qed

lemma globals_ok_Nil: "globals_ok []" "global_view [] n = None"
  by (simp_all add: globals_ok_def global_view_def link_resolution_find_symbol_def)

lemma register_all_from_empty:
  assumes "globals.register_all [] xs = Inr symbols"
  shows "globals_ok symbols" "distinct (map symbol_name (filter los_is_defined xs))"
    "g \<in> set symbols \<Longrightarrow> \<exists>x \<in> set xs. symbol_name x = lsym_name g \<and> (lsym_is_defined g \<longrightarrow> symbol_definition x = global_definition g)"
    "x \<in> set xs \<Longrightarrow> \<exists>g \<in> set symbols. lsym_name g = symbol_name x \<and> (los_is_defined x \<longrightarrow> global_definition g = symbol_definition x)"
proof -
  note v = globals.register_all_view [OF globals_ok_Nil(1) assms]
  show ok: "globals_ok symbols" using v by blast
  have dk: "globals.defined_keys xs = map symbol_name (filter los_is_defined xs)"
    by (simp add: globals.defined_keys_def symbol_definition_def)
  then show dist: "distinct (map symbol_name (filter los_is_defined xs))"
    using globals.register_all_Inr [OF globals_ok_Nil(1), of xs] assms by auto
  show "\<exists>x \<in> set xs. symbol_name x = lsym_name g \<and> (lsym_is_defined g \<longrightarrow> symbol_definition x = global_definition g)"
    if g: "g \<in> set symbols"
  proof -
    have gv: "global_view symbols (lsym_name g) = Some (global_definition g)" using global_view_nth(1) [OF ok] g by blast
    then have mem: "lsym_name g \<in> symbol_name ` set xs" using v [of "lsym_name g"] globals_ok_Nil(2) by (auto split: if_splits)
    show ?thesis
    proof (cases "List.find (\<lambda>x. symbol_name x = lsym_name g \<and> symbol_definition x \<noteq> None) xs")
      case None
      then have "global_definition g = None" using v [of "lsym_name g"] gv mem globals_ok_Nil(2) by simp
      then show ?thesis using mem by (auto simp: global_definition_def split: if_splits)
    next
      case (Some x)
      then have "global_definition g = symbol_definition x" using v [of "lsym_name g"] gv mem by simp
      then show ?thesis using find_Some_mem [OF Some] by auto
    qed
  qed
  show "\<exists>g \<in> set symbols. lsym_name g = symbol_name x \<and> (los_is_defined x \<longrightarrow> global_definition g = symbol_definition x)"
    if x: "x \<in> set xs"
  proof -
    let ?n = "symbol_name x"
    have "global_view symbols ?n \<noteq> None" using v [of ?n] x by auto
    then obtain g where g: "g \<in> set symbols" "lsym_name g = ?n" "global_view symbols ?n = Some (global_definition g)"
      using global_view_nth(1) [OF ok] by fastforce
    moreover have "global_definition g = symbol_definition x" if d: "los_is_defined x"
    proof -
      have "List.find (\<lambda>y. symbol_name y = ?n \<and> symbol_definition y \<noteq> None) xs \<noteq> None"
        using x d by (auto simp: find_None_iff symbol_definition_def)
      then obtain y where y: "List.find (\<lambda>y. symbol_name y = ?n \<and> symbol_definition y \<noteq> None) xs = Some y" by blast
      then have "y \<in> set xs" "symbol_name y = ?n" "los_is_defined y"
        using find_Some_mem [OF y] by (auto simp: symbol_definition_def split: if_splits)
      then have "y = x" using dist x d by (auto simp: distinct_map inj_on_def)
      then show ?thesis using v [of ?n] g(3) x y by simp
    qed
    ultimately show ?thesis by blast
  qed
qed

section \<open>The whole resolution\<close>

lemma place_object_symbol_simps [simp]:
  "los_name (place_object_symbol secs s) = los_name s" "los_is_external (place_object_symbol secs s) = los_is_external s"
  "los_is_defined (place_object_symbol secs s) = los_is_defined s"
  "symbol_definition (place_object_symbol secs s) = symbol_definition s"
  by (simp_all add: place_object_symbol_def symbol_definition_def split: option.split)

lemma place_global_symbol_simps [simp]:
  "lsym_name (place_global_symbol secs g) = lsym_name g" "lsym_is_defined (place_global_symbol secs g) = lsym_is_defined g"
  "lsym_is_external (place_global_symbol secs g) = lsym_is_external g"
  by (simp_all add: place_global_symbol_def split: option.split)

lemma exported_place [simp]: "exported (place_object_symbol secs s) = exported s" "symbol_name (place_object_symbol secs s) = symbol_name s"
  by (simp_all add: exported_def symbol_name_def)

lemma externals_place:
  "externals (map (\<lambda>input. input\<lparr>li_symbols := map (place_object_symbol secs) (li_symbols input)\<rparr>) inputs) =
     map (place_object_symbol secs) (externals inputs)"
  by (induction inputs) (simp_all add: externals_def filter_map comp_def)

lemma same_definition_address:
  assumes "symbol_definition s = global_definition g" and "los_is_defined s"
  shows "los_merged_section_index s = Some k \<Longrightarrow>
     lsym_virtual_address (place_global_symbol secs g) = los_virtual_address (place_object_symbol secs s)"
  using assms by (auto simp: symbol_definition_def global_definition_def place_global_symbol_def place_object_symbol_def
      split: if_splits option.splits)

lemma resolve_symbol_defined:
  assumes "resolve_symbol input oi i = Inr s" and "los_is_defined s"
  shows "los_merged_section_index s \<noteq> None"
  using assms by (auto simp: resolve_symbol_def Let_def split: if_splits option.splits)

lemma build_objects_defined:
  assumes "build_objects oi inputs symbols = Inr (inputs', symbols')" and "s \<in> set (externals inputs')" and "los_is_defined s"
  shows "los_merged_section_index s \<noteq> None"
  using assms
proof (induction inputs arbitrary: oi symbols inputs')
  case Nil
  then show ?case by (simp add: externals_def)
next
  case (Cons input inputs)
  obtain rs symbols1 is' where b: "build_object_symbols input oi [0 ..< length (obj_symbols (li_object input))] symbols = Inr (rs, symbols1)"
      "build_objects (oi + 1) inputs symbols1 = Inr (is', symbols')" "inputs' = input\<lparr>li_symbols := rs\<rparr> # is'"
    using Cons.prems(1) by (auto simp: and_then_Inr)
  consider "s \<in> set rs" | "s \<in> set (externals is')" using Cons.prems(2) b(3) by (auto simp: externals_def)
  then show ?case
  proof cases
    case 1
    then show ?thesis
      using b(1) resolve_symbol_defined Cons.prems(3)
      by (auto simp: build_object_symbols_Inr map_linked_Inr in_set_conv_nth)
  next
    case 2
    with Cons.IH [OF b(2) _ Cons.prems(3)] show ?thesis by blast
  qed
qed


lemma small_coff_builds:
  obtains r where "link_resolution_build (\<lambda>_. Some small_coff) [''a.o''] None = Inr r"
proof -
  obtain object where "coff_object_parse small_coff = Inr object" "obj_sections object = []" "obj_symbols object = []"
    by (rule small_coff_parses)
  then show thesis
    using that by (simp add: link_resolution_build_def link_resolution_load_objects_def coff_object_read_def
        link_resolution_merge_sections_def link_resolution_build_symbols_def link_resolution_validate_externals_def
        link_resolution_assign_virtual_addresses_def Let_def)
qed


end
