(* ===== verification/Relocation.thy ===== *)
theory Relocation
  imports Link_Symbols
begin

text \<open>
  Applying relocations, \<^verbatim>\<open>src/src/linker/relocation.c\<close>: every relocation of every merged section patches the 4 or
  8 bytes it refers to with the address of its target. Values are \<open>uint64_t\<close> words; an \<open>int64_t\<close> is the same word
  read with \<open>sint\<close>, and the range checks of the source are on that reading. A patch outside the bytes of the
  merged section is a \<open>Fault\<close>.
\<close>

section \<open>Operations\<close>

definition COFF_RELOC_AMD64_ADDR64 :: u16 where "COFF_RELOC_AMD64_ADDR64 = 1"
definition COFF_RELOC_AMD64_ADDR32NB :: u16 where "COFF_RELOC_AMD64_ADDR32NB = 3"
definition COFF_RELOC_AMD64_REL32 :: u16 where "COFF_RELOC_AMD64_REL32 = 4"
definition COFF_RELOC_AMD64_SECREL :: u16 where "COFF_RELOC_AMD64_SECREL = 11"

lemmas reloc_types [simp] = COFF_RELOC_AMD64_ADDR64_def COFF_RELOC_AMD64_ADDR32NB_def COFF_RELOC_AMD64_REL32_def
  COFF_RELOC_AMD64_SECREL_def

record RelocationTarget =
  rt_name :: string
  rt_merged_section_index :: nat
  rt_merged_offset :: nat
  rt_virtual_address :: u64

definition relocation_section_is_debug_only :: "CoffSection \<Rightarrow> bool" where
  "relocation_section_is_debug_only section \<longleftrightarrow>
     take 6 (sec_name section) = ''.debug'' \<or> take 7 (sec_name section) = ''.zdebug''"

definition relocation_resolve_target :: "LinkResolution \<Rightarrow> LinkedInputObject \<Rightarrow> u32 \<Rightarrow> RelocationTarget linked" where
  "relocation_resolve_target resolution input symbol_index =
     (if unat symbol_index \<ge> length (li_symbols input)
      then reject ''Relocation refers to symbol index outside the object symbol table''
      else let object_symbol = li_symbols input ! unat symbol_index;
               name = (case los_name object_symbol of Some n \<Rightarrow> n | None \<Rightarrow> ''<unnamed>'')
           in if los_is_auxiliary object_symbol then reject ''Relocation refers to auxiliary symbol''
              else case (if los_is_defined object_symbol then los_merged_section_index object_symbol else None) of
                Some k \<Rightarrow> Inr \<lparr>rt_name = name, rt_merged_section_index = k,
                  rt_merged_offset = los_merged_offset object_symbol,
                  rt_virtual_address = los_virtual_address object_symbol\<rparr>
              | None \<Rightarrow>
                  (case Option.bind (los_name object_symbol) (link_resolution_find_symbol (lr_symbols resolution)) of
                     None \<Rightarrow> reject ''Relocation target is unresolved''
                   | Some global_symbol \<Rightarrow>
                       (case (if lsym_is_defined global_symbol then lsym_merged_section_index global_symbol else None) of
                          None \<Rightarrow> reject ''Relocation target is unresolved''
                        | Some k \<Rightarrow> Inr \<lparr>rt_name = name, rt_merged_section_index = k,
                            rt_merged_offset = lsym_merged_offset global_symbol,
                            rt_virtual_address = lsym_virtual_address global_symbol\<rparr>)))"

text \<open>The first switch of \<open>link_apply_relocations\<close>: the width of the field.\<close>

definition relocation_width :: "u16 \<Rightarrow> nat option" where
  "relocation_width type =
     (if type = COFF_RELOC_AMD64_ADDR64 then Some 8
      else if type = COFF_RELOC_AMD64_ADDR32NB \<or> type = COFF_RELOC_AMD64_REL32 \<or> type = COFF_RELOC_AMD64_SECREL
      then Some 4 else None)"

text \<open>The addend found in the field, \<open>(int64_t)(int32_t)\<close> for the narrow ones.\<close>

definition relocation_addend :: "nat \<Rightarrow> bytes \<Rightarrow> u64" where
  "relocation_addend width field = (if width = 8 then linker_read_u64 field else scast (linker_read_u32 field))"

text \<open>The second switch: range check and write.\<close>

definition relocation_patch ::
  "u64 \<Rightarrow> u16 \<Rightarrow> RelocationTarget \<Rightarrow> u64 \<Rightarrow> u64 \<Rightarrow> bytes \<Rightarrow> nat \<Rightarrow> bytes linked" where
  "relocation_patch image_base type target patch_address addend data patch_offset =
     (if type = COFF_RELOC_AMD64_REL32
      then let value = rt_virtual_address target + addend - (patch_address + 4)
           in if sint value < - (2 ^ 31) \<or> sint value > 2 ^ 31 - 1
              then reject ''REL32 relocation for symbol is out of range''
              else Inr (linker_write_u32 data patch_offset (ucast value))
      else if type = COFF_RELOC_AMD64_ADDR64
      then let value = rt_virtual_address target + addend
           in if sint value < 0 then reject ''ADDR64 relocation for symbol is negative''
              else Inr (linker_write_u64 data patch_offset value)
      else if type = COFF_RELOC_AMD64_ADDR32NB
      then let value = (if image_base \<noteq> 0 \<and> rt_virtual_address target \<ge> image_base
                        then rt_virtual_address target - image_base + addend
                        else rt_virtual_address target + addend)
           in if sint value < 0 \<or> value > 0xFFFFFFFF
              then reject ''ADDR32NB relocation for symbol is out of range''
              else Inr (linker_write_u32 data patch_offset (ucast value))
      else if type = COFF_RELOC_AMD64_SECREL
      then let value = of_nat (rt_merged_offset target) + addend
           in if sint value < 0 \<or> value > 0xFFFFFFFF
              then reject ''SECREL relocation for symbol is out of range''
              else Inr (linker_write_u32 data patch_offset (ucast value))
      else Inr data)"

definition relocation_offset :: "SectionPlacement \<Rightarrow> CoffRelocation \<Rightarrow> u64" where
  "relocation_offset placement relocation =
     of_nat (pl_merged_offset placement) + ucast (rel_virtual_address relocation)"

text \<open>The body of the innermost loop. The writes go to \<open>sections\<close>; the symbols are those of \<open>resolution\<close>.\<close>

definition apply_relocation ::
  "LinkResolution \<Rightarrow> u64 \<Rightarrow> LinkedInputObject \<Rightarrow> SectionPlacement \<Rightarrow> nat \<Rightarrow> CoffRelocation \<Rightarrow> LinkedSection list \<Rightarrow>
   LinkedSection list linked" where
  "apply_relocation resolution image_base input placement k relocation sections =
     (if k \<ge> length sections then Inl Fault
      else let merged = sections ! k;
               patch_offset = relocation_offset placement relocation;
               patch_address = ls_virtual_address merged + patch_offset
           in and_then (relocation_resolve_target resolution input (rel_symbol_table_index relocation)) (\<lambda>target.
                case relocation_width (rel_type relocation) of
                  None \<Rightarrow> reject ''Unsupported relocation type for symbol''
                | Some width \<Rightarrow>
                    (if unat (patch_offset + of_nat width) > length (ls_data merged)
                     then reject ''Relocation for symbol writes past merged section''
                     else and_then (read_bytes (ls_data merged) (unat patch_offset) width) (\<lambda>field.
                          and_then (relocation_patch image_base (rel_type relocation) target patch_address
                                      (relocation_addend width field) (ls_data merged) (unat patch_offset)) (\<lambda>data.
                          Inr (sections[k := merged\<lparr>ls_data := data\<rparr>]))))))"

fun apply_section_relocations ::
  "LinkResolution \<Rightarrow> u64 \<Rightarrow> LinkedInputObject \<Rightarrow> SectionPlacement \<Rightarrow> nat \<Rightarrow> CoffRelocation list \<Rightarrow> LinkedSection list \<Rightarrow>
   LinkedSection list linked" where
  "apply_section_relocations resolution image_base input placement k [] sections = Inr sections"
| "apply_section_relocations resolution image_base input placement k (relocation # rest) sections =
     and_then (apply_relocation resolution image_base input placement k relocation sections)
       (apply_section_relocations resolution image_base input placement k rest)"

fun apply_input_relocations ::
  "LinkResolution \<Rightarrow> u64 \<Rightarrow> LinkedInputObject \<Rightarrow> (CoffSection \<times> SectionPlacement) list \<Rightarrow> LinkedSection list \<Rightarrow>
   LinkedSection list linked" where
  "apply_input_relocations resolution image_base input [] sections = Inr sections"
| "apply_input_relocations resolution image_base input ((source_section, placement) # rest) sections =
     (if sec_relocations source_section = []
      then apply_input_relocations resolution image_base input rest sections
      else case pl_merged_index placement of
             None \<Rightarrow> (if relocation_section_is_debug_only source_section
                      then apply_input_relocations resolution image_base input rest sections
                      else reject ''Section has relocations but was not merged'')
           | Some k \<Rightarrow> and_then (apply_section_relocations resolution image_base input placement k
                                   (sec_relocations source_section) sections)
                        (apply_input_relocations resolution image_base input rest))"

text \<open>The outer loop. The placement arrays of an input have an entry for every section of its object.\<close>

fun apply_inputs_relocations ::
  "LinkResolution \<Rightarrow> u64 \<Rightarrow> LinkedInputObject list \<Rightarrow> LinkedSection list \<Rightarrow> LinkedSection list linked" where
  "apply_inputs_relocations resolution image_base [] sections = Inr sections"
| "apply_inputs_relocations resolution image_base (input # inputs) sections =
     (if length (li_placements input) < length (obj_sections (li_object input)) then Inl Fault
      else and_then (apply_input_relocations resolution image_base input
                       (zip (obj_sections (li_object input)) (li_placements input)) sections)
             (apply_inputs_relocations resolution image_base inputs))"

definition link_apply_relocations :: "LinkResolution \<Rightarrow> u64 option \<Rightarrow> LinkResolution linked" where
  "link_apply_relocations resolution options =
     (let image_base = (case options of Some b \<Rightarrow> b | None \<Rightarrow> 0)
      in and_then (apply_inputs_relocations resolution image_base (lr_objects resolution) (lr_sections resolution))
           (\<lambda>sections. Inr (resolution\<lparr>lr_sections := sections\<rparr>)))"

section \<open>What a patched field must hold\<close>

text \<open>The four relocation kinds as equations between addresses: the processor adds a \<open>REL32\<close> field to the address
  behind it, an \<open>ADDR64\<close> field is the address itself, an \<open>ADDR32NB\<close> field the address relative to the image base,
  a \<open>SECREL\<close> field the offset in the target's section.\<close>

definition fixed_up :: "u64 \<Rightarrow> u16 \<Rightarrow> RelocationTarget \<Rightarrow> u64 \<Rightarrow> u64 \<Rightarrow> bytes \<Rightarrow> bool" where
  "fixed_up image_base type target patch_address addend field \<longleftrightarrow>
     (if type = COFF_RELOC_AMD64_REL32
      then patch_address + 4 + scast (linker_read_u32 field) = rt_virtual_address target + addend
      else if type = COFF_RELOC_AMD64_ADDR64 then linker_read_u64 field = rt_virtual_address target + addend
      else if type = COFF_RELOC_AMD64_ADDR32NB
      then ucast (linker_read_u32 field) + (if image_base \<le> rt_virtual_address target then image_base else 0) =
             rt_virtual_address target + addend
      else ucast (linker_read_u32 field) = of_nat (rt_merged_offset target) + addend)"

lemma reloc_types_distinct [simp]: "(4 :: u16) \<noteq> 1" "(3 :: u16) \<noteq> 1" "(11 :: u16) \<noteq> 1" "(11 :: u16) \<noteq> 3" "(11 :: u16) \<noteq> 4"
  by code_simp+

lemma relocation_width_cases:
  assumes "relocation_width type = Some width"
  obtains (REL32) "type = COFF_RELOC_AMD64_REL32" "width = 4" | (ADDR64) "type = COFF_RELOC_AMD64_ADDR64" "width = 8"
    | (ADDR32NB) "type = COFF_RELOC_AMD64_ADDR32NB" "width = 4" | (SECREL) "type = COFF_RELOC_AMD64_SECREL" "width = 4"
  using assms unfolding relocation_width_def by (metis option.distinct(1) option.inject)

lemma relocation_patch_Inr:
  assumes "relocation_patch image_base type target pa addend data off = Inr data'"
    and "relocation_width type = Some width"
  shows "\<exists>bs. data' = write_bytes data off bs \<and> length bs = width \<and>
    (\<forall>rest. fixed_up image_base type target pa addend (bs @ rest))"
  using assms(2)
proof (cases rule: relocation_width_cases)
  case REL32
  with assms(1) show ?thesis
    by (auto simp: relocation_patch_def Let_def linker_write_u32_def fixed_up_def read_bytes_u32 scast_ucast_small
        split: if_splits intro!: exI)
next
  case ADDR64
  with assms(1) show ?thesis
    by (auto simp: relocation_patch_def Let_def linker_write_u64_def fixed_up_def read_bytes_u64 split: if_splits intro!: exI)
next
  case ADDR32NB
  with assms(1) show ?thesis
    by (auto simp: relocation_patch_def Let_def linker_write_u32_def fixed_up_def read_bytes_u32 ucast_ucast_small
        split: if_splits intro!: exI)
next
  case SECREL
  with assms(1) show ?thesis
    by (auto simp: relocation_patch_def Let_def linker_write_u32_def fixed_up_def read_bytes_u32 ucast_ucast_small
        split: if_splits intro!: exI)
qed

section \<open>The loops as one list of sites\<close>

type_synonym site = "LinkedInputObject \<times> SectionPlacement \<times> nat \<times> CoffRelocation"

definition section_sites :: "LinkedInputObject \<Rightarrow> CoffSection \<times> SectionPlacement \<Rightarrow> site list" where
  "section_sites input x = (case pl_merged_index (snd x) of
     None \<Rightarrow> [] | Some k \<Rightarrow> map (\<lambda>relocation. (input, snd x, k, relocation)) (sec_relocations (fst x)))"

definition input_sites :: "LinkedInputObject \<Rightarrow> site list" where
  "input_sites input = concat (map (section_sites input) (zip (obj_sections (li_object input)) (li_placements input)))"

definition relocation_sites :: "LinkedInputObject list \<Rightarrow> site list" where
  "relocation_sites inputs = concat (map input_sites inputs)"

fun apply_sites :: "LinkResolution \<Rightarrow> u64 \<Rightarrow> site list \<Rightarrow> LinkedSection list \<Rightarrow> LinkedSection list linked" where
  "apply_sites resolution image_base [] sections = Inr sections"
| "apply_sites resolution image_base ((input, placement, k, relocation) # rest) sections =
     and_then (apply_relocation resolution image_base input placement k relocation sections)
       (apply_sites resolution image_base rest)"

lemma apply_sites_append:
  "apply_sites r b (xs @ ys) sections = and_then (apply_sites r b xs sections) (apply_sites r b ys)"
proof (induction xs arbitrary: sections)
  case (Cons x xs)
  then show ?case by (cases x) (auto simp: and_then_def split: sum.split)
qed simp

lemma apply_section_sites:
  "apply_section_relocations r b input placement k rels sections =
     apply_sites r b (map (\<lambda>relocation. (input, placement, k, relocation)) rels) sections"
  by (induction rels arbitrary: sections) (auto simp: and_then_def split: sum.split)

lemma apply_input_sites:
  assumes "apply_input_relocations r b input xs sections = res" and "res = Inl Fault \<or> (\<exists>sections'. res = Inr sections')"
  shows "apply_sites r b (concat (map (section_sites input) xs)) sections = res"
  using assms
proof (induction xs arbitrary: sections)
  case (Cons x xs)
  obtain sec placement where x: "x = (sec, placement)" by fastforce
  show ?case
  proof (cases "pl_merged_index placement")
    case None
    then show ?thesis
      using Cons x by (auto simp: section_sites_def split: if_splits)
  next
    case (Some k)
    have "apply_input_relocations r b input (x # xs) sections =
        and_then (apply_sites r b (section_sites input x) sections) (apply_input_relocations r b input xs)"
      using Some x by (simp add: section_sites_def apply_section_sites)
    then show ?thesis
      using Cons by (cases "apply_sites r b (section_sites input x) sections") (auto simp: apply_sites_append)
  qed
qed simp

lemma apply_inputs_placements:
  assumes "apply_inputs_relocations r b inputs sections = Inr sections'"
  shows "\<forall>input \<in> set inputs. length (obj_sections (li_object input)) \<le> length (li_placements input)"
  using assms by (induction inputs arbitrary: sections) (auto simp: and_then_Inr split: if_splits)

lemma apply_inputs_sites:
  assumes "apply_inputs_relocations r b inputs sections = res" and "res = Inl Fault \<or> (\<exists>sections'. res = Inr sections')"
    and "\<forall>input \<in> set inputs. length (obj_sections (li_object input)) \<le> length (li_placements input)"
  shows "apply_sites r b (relocation_sites inputs) sections = res"
  using assms
proof (induction inputs arbitrary: sections)
  case (Cons input inputs)
  let ?x = "zip (obj_sections (li_object input)) (li_placements input)"
  have eq: "apply_inputs_relocations r b (input # inputs) sections =
      and_then (apply_input_relocations r b input ?x sections) (apply_inputs_relocations r b inputs)"
    using Cons.prems(3) by auto
  show ?case
  proof (cases "apply_input_relocations r b input ?x sections")
    case (Inl e)
    then have "res = Inl e" using Cons.prems(1) eq by simp
    with Cons.prems(2) Inl apply_input_sites [OF Inl] show ?thesis
      by (auto simp: relocation_sites_def input_sites_def apply_sites_append)
  next
    case (Inr sections1)
    with Cons.prems eq have "apply_sites r b (relocation_sites inputs) sections1 = res"
      by (intro Cons.IH) auto
    with apply_input_sites [OF Inr] show ?thesis
      by (auto simp: relocation_sites_def input_sites_def apply_sites_append)
  qed
qed (simp add: relocation_sites_def)

section \<open>Correctness of the patches\<close>

definition site_offset :: "site \<Rightarrow> nat" where
  "site_offset s = (case s of (input, placement, k, relocation) \<Rightarrow> unat (relocation_offset placement relocation))"

definition site_width :: "site \<Rightarrow> nat" where
  "site_width s = (case s of (input, placement, k, relocation) \<Rightarrow>
     (case relocation_width (rel_type relocation) of Some width \<Rightarrow> width | None \<Rightarrow> 0))"

definition site_section :: "site \<Rightarrow> nat" where
  "site_section s = fst (snd (snd s))"

definition covers :: "site \<Rightarrow> nat \<Rightarrow> nat \<Rightarrow> bool" where
  "covers s k i \<longleftrightarrow> k = site_section s \<and> site_offset s \<le> i \<and> i < site_offset s + site_width s"

definition clear_of :: "site \<Rightarrow> site \<Rightarrow> bool" where
  "clear_of s t \<longleftrightarrow> site_section s \<noteq> site_section t \<or> site_offset s + site_width s \<le> site_offset t \<or>
     site_offset t + site_width t \<le> site_offset s"

definition site_field :: "LinkedSection list \<Rightarrow> site \<Rightarrow> bytes" where
  "site_field sections s = take (site_width s) (drop (site_offset s) (ls_data (sections ! site_section s)))"

text \<open>The field of a site in \<open>sections'\<close> refers to its target, counted from the addend found in \<open>sections\<close>.\<close>

definition relocated :: "LinkResolution \<Rightarrow> u64 \<Rightarrow> LinkedSection list \<Rightarrow> LinkedSection list \<Rightarrow> site \<Rightarrow> bool" where
  "relocated resolution image_base sections sections' s = (case s of (input, placement, k, relocation) \<Rightarrow>
     (\<exists>target. relocation_resolve_target resolution input (rel_symbol_table_index relocation) = Inr target \<and>
        relocation_width (rel_type relocation) \<noteq> None \<and>
        site_offset s + site_width s \<le> length (ls_data (sections ! k)) \<and>
        fixed_up image_base (rel_type relocation) target
          (ls_virtual_address (sections ! k) + relocation_offset placement relocation)
          (relocation_addend (site_width s) (site_field sections s)) (site_field sections' s)))"

text \<open>Patching keeps everything but the bytes.\<close>

definition same_shape :: "LinkedSection list \<Rightarrow> LinkedSection list \<Rightarrow> bool" where
  "same_shape sections sections' \<longleftrightarrow> length sections' = length sections \<and>
     (\<forall>k < length sections. sections' ! k = (sections ! k)\<lparr>ls_data := ls_data (sections' ! k)\<rparr> \<and>
        length (ls_data (sections' ! k)) = length (ls_data (sections ! k)))"

lemma same_shape_refl: "same_shape a a"
  by (simp add: same_shape_def)

lemma same_shape_trans: "same_shape a b \<Longrightarrow> same_shape b c \<Longrightarrow> same_shape a c"
  unfolding same_shape_def by (metis LinkedSection.update_convs(3) LinkedSection.surjective)

lemma apply_relocation_Inr:
  assumes "apply_relocation r b input placement k relocation sections = Inr sections'"
    and "s = (input, placement, k, relocation)"
  shows "\<exists>bs. k < length sections \<and> length bs = site_width s \<and>
     site_offset s + site_width s \<le> length (ls_data (sections ! k)) \<and>
     sections' = sections[k := (sections ! k)\<lparr>ls_data := write_bytes (ls_data (sections ! k)) (site_offset s) bs\<rparr>]" (is ?A)
    "relocated r b sections sections' s" (is ?B)
proof -
  let ?off = "relocation_offset placement relocation" and ?data = "ls_data (sections ! k)"
  obtain target width data where k: "k < length sections"
      and t: "relocation_resolve_target r input (rel_symbol_table_index relocation) = Inr target"
      and w: "relocation_width (rel_type relocation) = Some width"
      and rd: "unat ?off + width \<le> length ?data"
      and p: "relocation_patch b (rel_type relocation) target (ls_virtual_address (sections ! k) + ?off)
        (relocation_addend width (take width (drop (unat ?off) ?data))) ?data (unat ?off) = Inr data"
      and e: "sections' = sections[k := (sections ! k)\<lparr>ls_data := data\<rparr>]"
    using assms(1) by (auto simp: apply_relocation_def Let_def and_then_Inr read_bytes_def split: if_splits option.splits)
  obtain bs where bs: "data = write_bytes ?data (unat ?off) bs" "length bs = width"
      "fixed_up b (rel_type relocation) target (ls_virtual_address (sections ! k) + ?off)
        (relocation_addend width (take width (drop (unat ?off) ?data))) bs"
    using relocation_patch_Inr [OF p w] by (metis append_Nil2)
  have site: "site_width s = width" "site_offset s = unat ?off" "site_section s = k"
    using assms(2) w by (simp_all add: site_width_def site_offset_def site_section_def)
  show ?A using k bs(1,2) rd e site by auto
  have "site_field sections' s = bs"
    using k e bs(1,2) rd site by (simp add: site_field_def write_bytes_simps(2))
  moreover have "site_field sections s = take width (drop (unat ?off) ?data)" by (simp add: site_field_def site)
  ultimately show ?B using assms(2) t w rd bs(3) site by (simp add: relocated_def)
qed

text \<open>The effect of a list of sites on the bytes: nothing outside the sites changes.\<close>

definition only_sites :: "site list \<Rightarrow> LinkedSection list \<Rightarrow> LinkedSection list \<Rightarrow> bool" where
  "only_sites ss sections sections' \<longleftrightarrow> (\<forall>k < length sections. \<forall>i < length (ls_data (sections ! k)).
     (\<forall>s \<in> set ss. \<not> covers s k i) \<longrightarrow> ls_data (sections' ! k) ! i = ls_data (sections ! k) ! i)"

lemma step_frame:
  assumes "apply_relocation r b input placement k relocation sections = Inr sections'"
    and "s = (input, placement, k, relocation)"
  shows "same_shape sections sections'" "only_sites [s] sections sections'" "k < length sections"
proof -
  obtain bs where bs: "k < length sections" "length bs = site_width s"
      "site_offset s + length bs \<le> length (ls_data (sections ! k))"
      "sections' = sections[k := (sections ! k)\<lparr>ls_data := write_bytes (ls_data (sections ! k)) (site_offset s) bs\<rparr>]"
    using apply_relocation_Inr(1) [OF assms] by auto
  have k: "site_section s = k" using assms(2) by (simp add: site_section_def)
  show "same_shape sections sections'"
    using bs(1,4) write_bytes_simps(1) [OF bs(3)] by (auto simp: same_shape_def nth_list_update)
  show "only_sites [s] sections sections'"
    using bs(1,2,4) k write_bytes_simps(3) [OF bs(3)]
    by (auto simp: only_sites_def covers_def nth_list_update not_le not_less)
  show "k < length sections" by (fact bs(1))
qed

lemma only_sites_field:
  assumes "only_sites ss sections sections'" and "same_shape sections sections'"
    and "\<forall>s \<in> set ss. clear_of t s" and "site_section t < length sections"
    and "site_offset t + site_width t \<le> length (ls_data (sections ! site_section t))"
  shows "site_field sections' t = site_field sections t"
proof (rule nth_equalityI)
  let ?k = "site_section t"
  have len: "length (ls_data (sections' ! ?k)) = length (ls_data (sections ! ?k))"
    using assms(2,4) by (simp add: same_shape_def)
  then show "length (site_field sections' t) = length (site_field sections t)" by (simp add: site_field_def)
  fix i assume "i < length (site_field sections' t)"
  then have i: "i < site_width t" by (simp add: site_field_def)
  then have "\<forall>s \<in> set ss. \<not> covers s ?k (site_offset t + i)"
    using assms(3) by (fastforce simp: clear_of_def covers_def)
  then have "ls_data (sections' ! ?k) ! (site_offset t + i) = ls_data (sections ! ?k) ! (site_offset t + i)"
    using assms(1,4,5) i by (simp add: only_sites_def)
  then show "site_field sections' t ! i = site_field sections t ! i"
    using i len assms(5) by (simp add: site_field_def)
qed

lemma clear_of_sym: "clear_of s t \<Longrightarrow> clear_of t s"
  by (auto simp: clear_of_def)

lemma apply_sites_Inr:
  assumes "apply_sites r b ss sections = Inr sections'" and "sorted_wrt clear_of ss"
  shows "same_shape sections sections' \<and> only_sites ss sections sections' \<and>
     (\<forall>s \<in> set ss. site_section s < length sections \<and> relocated r b sections sections' s)"
  using assms
proof (induction ss arbitrary: sections)
  case Nil
  then show ?case by (simp add: same_shape_refl only_sites_def)
next
  case (Cons s ss)
  obtain input placement k relocation where s: "s = (input, placement, k, relocation)" by (cases s) auto
  obtain sections1 where a: "apply_relocation r b input placement k relocation sections = Inr sections1"
      "apply_sites r b ss sections1 = Inr sections'"
    using Cons.prems(1) s by (auto simp: and_then_Inr)
  note step = step_frame [OF a(1) s] and done_s = apply_relocation_Inr(2) [OF a(1) s]
  have IH: "same_shape sections1 sections'" "only_sites ss sections1 sections'"
    "\<forall>t \<in> set ss. site_section t < length sections1 \<and> relocated r b sections1 sections' t"
    using Cons.IH [OF a(2)] Cons.prems(2) by auto
  have len: "length sections1 = length sections" using step(1) by (simp add: same_shape_def)
  have kept: "ls_virtual_address (sections1 ! j) = ls_virtual_address (sections ! j)"
    "length (ls_data (sections1 ! j)) = length (ls_data (sections ! j))" if "j < length sections" for j
    using step(1) that unfolding same_shape_def by (metis LinkedSection.select_convs(6) LinkedSection.surjective LinkedSection.update_convs(3), simp)
  have k: "site_section s = k" using s by (simp add: site_section_def)
  have fits: "site_offset s + site_width s \<le> length (ls_data (sections ! k))" using done_s s by (auto simp: relocated_def)
  have "site_field sections' s = site_field sections1 s"
    using IH(1,2) Cons.prems(2) step(3) k len fits kept(2) by (intro only_sites_field) auto
  with done_s have first: "relocated r b sections sections' s" using s by (simp add: relocated_def)
  have others: "relocated r b sections sections' t" if t: "t \<in> set ss" for t
  proof -
    obtain i p j rel where tt: "t = (i, p, j, rel)" by (cases t) auto
    have j: "site_section t = j" "j < length sections" using IH(3) t len tt by (auto simp: site_section_def)
    have rt: "relocated r b sections1 sections' t" using IH(3) t by blast
    have "site_field sections1 t = site_field sections t"
      using step(1,2) Cons.prems(2) t j rt kept(2) [OF j(2)] tt
      by (intro only_sites_field) (auto simp: relocated_def intro: clear_of_sym)
    with rt kept [OF j(2)] tt show ?thesis by (simp add: relocated_def)
  qed
  have "only_sites (s # ss) sections sections'"
    using step(2) IH(2) len kept(2) by (auto simp: only_sites_def)
  then show ?case
    using same_shape_trans [OF step(1) IH(1)] first others step(3) k IH(3) len by auto
qed

text \<open>(C4) Relocation. When relocation succeeds and the relocated fields do not overlap, every relocation of every
  merged section has been carried out: its symbol has an address, its field lies inside the section's
  bytes and holds the value the relocation kind asks for, with the addend that was there before. Bytes
  outside the fields, section sizes and addresses, and the rest of the link state are unchanged.\<close>

theorem link_apply_relocations_correct:
  assumes "link_apply_relocations r options = Inr r'"
    and "sorted_wrt clear_of (relocation_sites (lr_objects r))"
  shows "r' = r\<lparr>lr_sections := lr_sections r'\<rparr> \<and> same_shape (lr_sections r) (lr_sections r') \<and>
     only_sites (relocation_sites (lr_objects r)) (lr_sections r) (lr_sections r') \<and>
     (\<forall>s \<in> set (relocation_sites (lr_objects r)).
        relocated r (case options of Some b \<Rightarrow> b | None \<Rightarrow> 0) (lr_sections r) (lr_sections r') s)"
proof -
  let ?b = "case options of Some b \<Rightarrow> b | None \<Rightarrow> 0"
  obtain sections' where s: "apply_inputs_relocations r ?b (lr_objects r) (lr_sections r) = Inr sections'"
      "r' = r\<lparr>lr_sections := sections'\<rparr>"
    using assms(1) by (auto simp: link_apply_relocations_def Let_def and_then_Inr)
  have "apply_sites r ?b (relocation_sites (lr_objects r)) (lr_sections r) = Inr sections'"
    using apply_inputs_sites [OF s(1)] apply_inputs_placements [OF s(1)] by blast
  from apply_sites_Inr [OF this assms(2)] s(2) show ?thesis by simp
qed

text \<open>A call at offset 0 of a \<^verbatim>\<open>.text\<close> section to the symbol at its start.\<close>

definition call_section :: CoffSection where
  "call_section = one_text_section\<lparr>sec_raw_data := [0xE8, 0, 0, 0, 0, 0xC3], sec_size_of_raw_data := 6,
     sec_relocations := [\<lparr>rel_virtual_address = 1, rel_symbol_table_index = 0, rel_type = 4\<rparr>]\<rparr>"

definition call_input :: LinkedInputObject where
  "call_input = \<lparr>li_path = ''a.o'', li_object = one_section_object\<lparr>obj_sections := [call_section]\<rparr>,
     li_placements = [\<lparr>pl_merged_index = Some 0, pl_merged_offset = 0, pl_merged_size = 6, pl_alignment = 16\<rparr>],
     li_symbols = [\<lparr>los_name = Some ''main'', los_object_index = 0, los_symbol_index = 0, los_is_defined = True,
       los_is_external = True, los_is_local = False, los_is_auxiliary = False, los_section_number = 1,
       los_merged_section_index = Some 0, los_merged_offset = 0, los_virtual_address = 0\<rparr>]\<rparr>"

definition call_resolution :: LinkResolution where
  "call_resolution = \<lparr>lr_objects = [call_input],
     lr_sections = [\<lparr>ls_kind = COFF_SECTION_KIND_TEXT, ls_name = ''.text'', ls_data = [0xE8, 0, 0, 0, 0, 0xC3],
       ls_virtual_size = 6, ls_alignment = 16, ls_virtual_address = 0, ls_contributions = []\<rparr>],
     lr_symbols = [], lr_entry_symbol = None\<rparr>"

theorem link_apply_relocations_correct_witness:
  "\<exists>r'. link_apply_relocations call_resolution None = Inr r' \<and>
     (\<forall>s \<in> set (relocation_sites (lr_objects call_resolution)).
        relocated call_resolution 0 (lr_sections call_resolution) (lr_sections r') s) \<and>
     relocation_sites (lr_objects call_resolution) \<noteq> []"
proof -
  have sites: "\<exists>s. relocation_sites (lr_objects call_resolution) = [s]"
    by (simp add: relocation_sites_def input_sites_def section_sites_def call_resolution_def call_input_def call_section_def)
  obtain r' where r: "link_apply_relocations call_resolution None = Inr r'"
    by (simp add: link_apply_relocations_def call_resolution_def call_input_def call_section_def apply_relocation_def
        relocation_resolve_target_def relocation_width_def relocation_offset_def relocation_patch_def relocation_addend_def
        read_bytes_def linker_read_u32_def one_section_object_def Let_def)
  have "sorted_wrt clear_of (relocation_sites (lr_objects call_resolution))" using sites by auto
  from link_apply_relocations_correct [OF r this] r sites show ?thesis by auto
qed

section \<open>No access outside the sections\<close>

text \<open>What the loops rely on: complete placement arrays, with indices of merged sections and offsets far from the
  end of \<open>size_t\<close>.\<close>

definition placements_ok :: "LinkedInputObject list \<Rightarrow> nat \<Rightarrow> bool" where
  "placements_ok inputs n \<longleftrightarrow> (\<forall>input \<in> set inputs. length (li_placements input) = length (obj_sections (li_object input)) \<and>
     (\<forall>p \<in> set (li_placements input). \<forall>k. pl_merged_index p = Some k \<longrightarrow> k < n \<and> pl_merged_offset p + 2 ^ 33 \<le> 2 ^ 64))"

lemma relocation_offset_room:
  assumes "pl_merged_offset p + 2 ^ 33 \<le> 2 ^ 64" and "relocation_width type = Some width"
  shows "unat (relocation_offset p rel + of_nat width) = unat (relocation_offset p rel) + width"
proof -
  let ?v = "unat (rel_virtual_address rel)"
  have v: "?v < 2 ^ 32" using unsigned_less [of "rel_virtual_address rel"] by simp
  have w: "width \<le> 8" using assms(2) by (cases rule: relocation_width_cases) auto
  have off: "relocation_offset p rel = of_nat (pl_merged_offset p + ?v)"
    by (simp add: relocation_offset_def)
  have b: "pl_merged_offset p + ?v + width < 2 ^ 64" using assms(1) v w by simp
  have "relocation_offset p rel + of_nat width = of_nat (pl_merged_offset p + ?v + width)" by (simp add: off)
  then have "unat (relocation_offset p rel + of_nat width) = pl_merged_offset p + ?v + width"
    using b by (simp only: unat_of_nat) simp
  moreover have "unat (relocation_offset p rel) = pl_merged_offset p + ?v"
    unfolding off using b by (simp only: unat_of_nat) simp
  ultimately show ?thesis by simp
qed

lemma resolve_target_no_fault: "relocation_resolve_target r input i \<noteq> Inl Fault"
  by (auto simp: relocation_resolve_target_def Let_def split: option.splits)

lemma patch_no_fault: "relocation_patch b type target pa addend data off \<noteq> Inl Fault"
  by (auto simp: relocation_patch_def Let_def)

lemma apply_relocation_no_fault:
  assumes "k < length sections" and "pl_merged_offset p + 2 ^ 33 \<le> 2 ^ 64"
  shows "apply_relocation r b input p k rel sections \<noteq> Inl Fault"
  using assms relocation_offset_room [OF assms(2)] resolve_target_no_fault patch_no_fault
  by (auto simp: apply_relocation_def Let_def and_then_Fault read_bytes_def split: option.splits if_splits)

lemma apply_sites_no_fault:
  assumes "\<forall>(input, p, k, rel) \<in> set ss. k < length sections \<and> pl_merged_offset p + 2 ^ 33 \<le> 2 ^ 64"
  shows "apply_sites r b ss sections \<noteq> Inl Fault"
  using assms
proof (induction ss arbitrary: sections)
  case (Cons s ss)
  obtain input p k rel where s: "s = (input, p, k, rel)" by (cases s) auto
  have nf: "apply_relocation r b input p k rel sections \<noteq> Inl Fault"
    using Cons.prems s by (intro apply_relocation_no_fault) auto
  have "apply_sites r b ss sections1 \<noteq> Inl Fault" if "apply_relocation r b input p k rel sections = Inr sections1" for sections1
    using step_frame(1) [OF that refl] Cons.prems by (intro Cons.IH) (auto simp: same_shape_def)
  with nf s show ?case by (auto simp: and_then_Fault)
qed simp

lemma sites_placed:
  "(input, p, k, rel) \<in> set (relocation_sites inputs) \<Longrightarrow> input \<in> set inputs \<and> p \<in> set (li_placements input) \<and> pl_merged_index p = Some k"
  by (auto simp: relocation_sites_def input_sites_def section_sites_def split: option.splits dest: set_zip_rightD)

lemma link_apply_relocations_no_fault:
  assumes "placements_ok (lr_objects r) (length (lr_sections r))"
  shows "link_apply_relocations r options \<noteq> Inl Fault"
proof
  let ?b = "case options of Some b \<Rightarrow> b | None \<Rightarrow> 0"
  assume "link_apply_relocations r options = Inl Fault"
  then have "apply_inputs_relocations r ?b (lr_objects r) (lr_sections r) = Inl Fault"
    by (auto simp: link_apply_relocations_def Let_def and_then_Fault)
  from apply_inputs_sites [OF this] assms
  have "apply_sites r ?b (relocation_sites (lr_objects r)) (lr_sections r) = Inl Fault"
    by (auto simp: placements_ok_def)
  moreover have "\<forall>(input, p, k, rel) \<in> set (relocation_sites (lr_objects r)).
      k < length (lr_sections r) \<and> pl_merged_offset p + 2 ^ 33 \<le> 2 ^ 64"
    using assms sites_placed unfolding placements_ok_def by fast
  ultimately show False using apply_sites_no_fault by blast
qed

end
