(* ===== verification/Link_Safety.thy ===== *)
theory Link_Safety
  imports Relocation
begin

text \<open>
  The linker stages one after the other, from files to relocated sections, on arbitrary file contents: bounds on
  the sizes that parsed objects can ask for, and what the stages hand on to each other.
\<close>

section \<open>Sizes of parsed objects\<close>

definition effective_alignment :: "LinkResolutionOptions option \<Rightarrow> nat" where
  "effective_alignment options = (case options of
     Some opts \<Rightarrow> if opt_section_alignment opts > 1 then opt_section_alignment opts else 16 | None \<Rightarrow> 16)"

lemma u32_bound: "unat (x :: u32) < 2 ^ 32"
  using unsigned_less [of x] by simp

lemma u16_bound: "unat (x :: u16) < 2 ^ 16"
  using unsigned_less [of x] by simp

lemma bss_extent_bound: "sz \<le> 2 ^ 32 \<Longrightarrow> foldl (bss_extent i) sz ss \<le> 2 ^ 32"
proof (induction ss arbitrary: sz)
  case (Cons s ss)
  have "bss_extent i sz s \<le> 2 ^ 32" using Cons.prems u32_bound [of "cs_value s"] by (auto simp: bss_extent_def)
  from Cons.IH [OF this] show ?case by simp
qed simp

lemma estimate_bound: "link_estimate_section_size object i \<le> 2 ^ 32"
proof -
  have u: "unat (x :: u32) \<le> 2 ^ 32" for x using u32_bound [of x] by simp
  then show ?thesis
    using bss_extent_bound
    by (auto simp: link_estimate_section_size_def Let_def simp del: power_numeral split: option.split)
qed

lemma alignment_bound: "fallback \<le> 2 ^ 32 \<Longrightarrow> link_section_alignment section fallback \<le> 2 ^ 32"
proof -
  assume f: "fallback \<le> 2 ^ 32"
  have "map_of alignment_table w = Some a \<Longrightarrow> a \<le> 2 ^ 32" for w a
  proof -
    assume "map_of alignment_table w = Some a"
    from map_of_SomeD [OF this] show "a \<le> 2 ^ 32" by (auto simp: alignment_table_def)
  qed
  with f show ?thesis
    by (auto simp: link_section_alignment_def link_default_section_alignment_def link_alignment_from_characteristics_def
        Let_def split: option.split)
qed

lemma objects_need_bound:
  assumes "\<forall>input \<in> set inputs. \<exists>data. coff_object_wf data (li_object input)" and "fallback \<le> 2 ^ 32"
  shows "objects_need fallback inputs \<le> length inputs * 2 ^ 49"
  using assms(1)
proof (induction inputs)
  case (Cons input inputs)
  let ?o = "li_object input"
  obtain data where wf: "coff_object_wf data ?o" using Cons.prems by auto
  have one: "section_need fallback ?o i \<le> 2 ^ 33" if "i < length (obj_sections ?o)" for i
  proof -
    have "section_ok data (obj_sections ?o ! i)" using wf that by (auto simp: coff_object_wf_def)
    then have "length (sec_raw_data (obj_sections ?o ! i)) \<le> 2 ^ 32"
      using u32_bound [of "sec_size_of_raw_data (obj_sections ?o ! i)"] by (simp add: section_ok_def)
    then show ?thesis
      using estimate_bound [of ?o i] alignment_bound [OF assms(2), of "obj_sections ?o ! i"] by (simp add: section_need_def)
  qed
  have "length (obj_sections ?o) \<le> 2 ^ 16"
    using wf u16_bound [of "obj_section_count ?o"] by (simp add: coff_object_wf_def)
  moreover have "(\<Sum>i \<leftarrow> [0 ..< length (obj_sections ?o)]. section_need fallback ?o i) \<le>
      (\<Sum>i \<leftarrow> [0 ..< length (obj_sections ?o)]. 2 ^ 33)"
    by (rule sum_list_mono) (use one in auto)
  ultimately have "(\<Sum>i \<leftarrow> [0 ..< length (obj_sections ?o)]. section_need fallback ?o i) \<le> 2 ^ 49"
    by (simp add: sum_list_triv)
  with Cons show ?case by (simp add: objects_need_def)
qed (simp add: objects_need_def)

section \<open>What the stages hand on\<close>

lemma load_objects_Inr:
  assumes "link_resolution_load_objects read_file paths = Inr inputs"
  shows "length inputs = length paths" "\<forall>input \<in> set inputs. \<exists>data. coff_object_wf data (li_object input)"
  using assms coff_object_parse_ok
  by (auto simp: link_resolution_load_objects_def map_linked_Inr coff_object_read_def and_then_Inr in_set_conv_nth
      split: option.splits) (metis (no_types, lifting) LinkedInputObject.select_convs(2))

lemma load_objects_no_fault:
  assumes "\<forall>path \<in> set paths. \<forall>data. read_file path = Some data \<longrightarrow> length data < 2 ^ 32"
  shows "link_resolution_load_objects read_file paths \<noteq> Inl Fault"
  using assms coff_object_parse_no_fault
  by (auto simp: link_resolution_load_objects_def coff_object_read_def and_then_Fault dest!: map_linked_Fault split: option.splits)

lemma build_object_symbols_no_fault: "build_object_symbols input oi is symbols \<noteq> Inl Fault"
proof (induction "is" arbitrary: symbols)
  case (Cons i "is")
  have "resolve_symbol input oi i \<noteq> Inl Fault" by (auto simp: resolve_symbol_def Let_def split: option.splits)
  moreover have "link_resolution_record_global_symbol symbols s n \<noteq> Inl Fault" for s n
    by (auto simp: link_resolution_record_global_symbol_def Let_def split: option.splits)
  ultimately show ?case using Cons by (auto simp: and_then_Fault split: option.splits)
qed simp

lemma build_objects_no_fault: "build_objects oi inputs symbols \<noteq> Inl Fault"
  by (induction inputs arbitrary: oi symbols) (auto simp: and_then_Fault build_object_symbols_no_fault)

abbreviation layout :: "LinkedInputObject list \<Rightarrow> (CoffObject \<times> SectionPlacement list) list" where
  "layout inputs \<equiv> map (\<lambda>input. (li_object input, li_placements input)) inputs"

lemma build_objects_layout: "build_objects oi inputs symbols = Inr (inputs', symbols') \<Longrightarrow> layout inputs' = layout inputs"
  by (induction inputs arbitrary: oi symbols inputs') (auto simp: and_then_Inr)

lemma placements_ok_layout: "layout a = layout b \<Longrightarrow> placements_ok a n = placements_ok b n"
proof -
  assume "layout a = layout b"
  then have "set (layout a) = set (layout b)" by simp
  moreover have "placements_ok inputs n \<longleftrightarrow> (\<forall>(object, ps) \<in> set (layout inputs). length ps = length (obj_sections object) \<and>
     (\<forall>p \<in> set ps. \<forall>k. pl_merged_index p = Some k \<longrightarrow> k < n \<and> pl_merged_offset p + 2 ^ 33 \<le> 2 ^ 64))" for inputs
    by (auto simp: placements_ok_def)
  ultimately show ?thesis by (simp only:)
qed

lemma length_place_sections: "length (place_sections alignment c sections) = length sections"
  by (induction sections arbitrary: c) (auto simp: Let_def)

lemma merge_placements_ok:
  assumes "power_of_two fallback" and "objects_need fallback inputs + 2 ^ 33 \<le> 2 ^ 64"
    and "merge_objects fallback 0 inputs link_resolution_init_sections = (inputs', sections')"
  shows "placements_ok inputs' 6" "length sections' = 6"
proof -
  have "\<forall>k < 6. vsize link_resolution_init_sections k \<le> 0" using sections_ok_init(2) by simp
  from merge_objects_laid [OF sections_ok_init(1) assms(1) this _ assms(3)] assms(2)
  have l: "laid link_resolution_init_sections sections' (placed_sections inputs')"
    "\<forall>input \<in> set inputs'. length (li_placements input) = length (obj_sections (li_object input))"
    "\<forall>k < 6. vsize sections' k \<le> objects_need fallback inputs" by auto
  show "length sections' = 6" using l(1) by (simp add: laid_def sections_ok_def)
  have "k < 6 \<and> pl_merged_offset p + 2 ^ 33 \<le> 2 ^ 64"
    if "input \<in> set inputs'" "p \<in> set (li_placements input)" "pl_merged_index p = Some k" for input p k
  proof -
    obtain j where j: "j < length (li_placements input)" "p = li_placements input ! j"
      using \<open>p \<in> set (li_placements input)\<close> by (auto simp: in_set_conv_nth)
    have "(obj_sections (li_object input) ! j, p) \<in> set (placed_sections inputs')"
      using that(1) j l(2) by (force simp: placed_sections_def set_zip)
    then have s: "settled sections' (obj_sections (li_object input) ! j) p" using l(1) by (auto simp: laid_def)
    then have "k < 6" using that(3) index_from_kind_less by (auto simp: settled_def)
    moreover have "pl_merged_offset p \<le> vsize sections' k" using s that(3) by (auto simp: settled_def)
    ultimately show ?thesis using l(3) assms(2) by fastforce
  qed
  then show "placements_ok inputs' 6" using l(2) by (auto simp: placements_ok_def)
qed

lemma link_resolution_build_no_fault:
  assumes "\<forall>path \<in> set paths. \<forall>data. read_file path = Some data \<longrightarrow> length data < 2 ^ 32"
  shows "link_resolution_build read_file paths options \<noteq> Inl Fault"
  using load_objects_no_fault [OF assms] build_objects_no_fault
  by (auto simp: link_resolution_build_def Let_def and_then_Fault link_resolution_build_symbols_def
      link_resolution_validate_externals_def split: option.splits)

lemma link_resolution_build_placements:
  assumes "link_resolution_build read_file paths options = Inr r"
    and "power_of_two (effective_alignment options)" and "effective_alignment options \<le> 2 ^ 32" and "length paths \<le> 2 ^ 14"
  shows "placements_ok (lr_objects r) 6 \<and> length (lr_sections r) = 6"
proof -
  define alignment where "alignment = effective_alignment options"
  obtain inputs inputs1 sections1 inputs2 symbols2 where
      load: "link_resolution_load_objects read_file paths = Inr inputs"
      and merge: "merge_objects alignment 0 inputs link_resolution_init_sections = (inputs1, sections1)"
      and build: "build_objects 0 inputs1 [] = Inr (inputs2, symbols2)"
      and res: "layout (lr_objects r) = layout inputs2" "length (lr_sections r) = length sections1"
  proof -
    from assms(1) obtain inputs where l: "link_resolution_load_objects read_file paths = Inr inputs"
      and rest: "and_then (link_resolution_build_symbols (link_resolution_merge_sections
         \<lparr>lr_objects = inputs, lr_sections = link_resolution_init_sections, lr_symbols = [], lr_entry_symbol = None\<rparr> alignment))
        (\<lambda>r. link_resolution_validate_externals (link_resolution_assign_virtual_addresses r alignment) options) = Inr r"
      by (auto simp: link_resolution_build_def Let_def and_then_Inr alignment_def effective_alignment_def split: if_splits)
    obtain inputs1 sections1 where m: "merge_objects alignment 0 inputs link_resolution_init_sections = (inputs1, sections1)"
      by fastforce
    from rest m obtain inputs2 symbols2 where b: "build_objects 0 inputs1 [] = Inr (inputs2, symbols2)"
      and v: "link_resolution_validate_externals (link_resolution_assign_virtual_addresses
         \<lparr>lr_objects = inputs2, lr_sections = sections1, lr_symbols = symbols2, lr_entry_symbol = None\<rparr> alignment) options = Inr r"
      by (auto simp: link_resolution_merge_sections_def link_resolution_build_symbols_def and_then_Inr)
    from v have "layout (lr_objects r) = layout inputs2" "length (lr_sections r) = length sections1"
      by (auto simp: link_resolution_validate_externals_def link_resolution_assign_virtual_addresses_def Let_def
          length_place_sections split: if_splits option.splits)
    with l m b that show thesis by blast
  qed
  have "objects_need alignment inputs \<le> length inputs * 2 ^ 49"
    using objects_need_bound load_objects_Inr(2) [OF load] assms(3) by (simp add: alignment_def)
  also have "\<dots> \<le> 2 ^ 63" using load_objects_Inr(1) [OF load] assms(4) by simp
  finally have "objects_need alignment inputs + 2 ^ 33 \<le> 2 ^ 64" by simp
  note ok = merge_placements_ok [OF assms(2) [folded alignment_def] this merge]
  have "layout (lr_objects r) = layout inputs1" using res(1) build_objects_layout [OF build] by simp
  from placements_ok_layout [OF this] ok res(2) show ?thesis by simp
qed

end
