(* ===== verification/Binary_Emitter.thy ===== *)
theory Binary_Emitter
  imports Open_Index Linker_Bytes
begin

text \<open>
  The object-file builder, \<^verbatim>\<open>src/src/codegen/binary_emitter.c\<close> without the file writer: sections that grow at
  their end, symbols with a hash index over their names, relocations. The size of a section is the length
  of its data; capacities are not modelled, allocation succeeds. \<open>BINARY_SECTION_INDEX_NONE\<close> is \<open>None\<close>. An outer
  \<open>option\<close> marks calls that may not return: probing a full index never ends.
\<close>

section \<open>State\<close>

datatype BinaryTargetFormat = BINARY_TARGET_FORMAT_COFF_WIN64 | BINARY_TARGET_FORMAT_ELF_X64

datatype BinarySectionKind = BINARY_SECTION_TEXT | BINARY_SECTION_RDATA | BINARY_SECTION_DATA | BINARY_SECTION_BSS

datatype BinarySymbolBinding = BINARY_SYMBOL_LOCAL | BINARY_SYMBOL_GLOBAL | BINARY_SYMBOL_EXTERNAL

datatype BinaryRelocationKind = BINARY_RELOCATION_REL32 | BINARY_RELOCATION_ADDR64 | BINARY_RELOCATION_ADDR32NB
  | BINARY_RELOCATION_SECTION_REL32

record BinarySection =
  bse_name :: string
  bse_kind :: BinarySectionKind
  bse_characteristics :: u32
  bse_alignment :: nat
  bse_data :: bytes
  bse_virtual_size :: nat

record BinarySymbol =
  bsy_name :: string
  bsy_binding :: BinarySymbolBinding
  bsy_section_index :: "nat option"
  bsy_value :: nat
  bsy_size :: nat

record BinaryRelocation =
  bre_section_index :: nat
  bre_offset :: nat
  bre_kind :: BinaryRelocationKind
  bre_symbol_name :: string
  bre_addend :: u32

record BinaryEmitter =
  be_target_format :: BinaryTargetFormat
  be_sections :: "BinarySection list"
  be_symbols :: "BinarySymbol list"
  be_symbol_index :: "nat list"
  be_relocations :: "BinaryRelocation list"

definition binary_emitter_create :: "BinaryTargetFormat \<Rightarrow> BinaryEmitter" where
  "binary_emitter_create target_format =
     \<lparr>be_target_format = target_format, be_sections = [], be_symbols = [], be_symbol_index = [], be_relocations = []\<rparr>"

definition binary_emitter_reset :: "BinaryEmitter \<Rightarrow> BinaryEmitter" where
  "binary_emitter_reset emitter = emitter\<lparr>be_sections := [], be_symbols := [], be_relocations := [], be_symbol_index := []\<rparr>"

section \<open>Sections\<close>

definition binary_emitter_get_or_create_section ::
  "BinaryEmitter \<Rightarrow> string \<Rightarrow> BinarySectionKind \<Rightarrow> u32 \<Rightarrow> nat \<Rightarrow> nat option \<times> BinaryEmitter" where
  "binary_emitter_get_or_create_section emitter name kind characteristics alignment =
     (if name = [] then (None, emitter)
      else case List.find (\<lambda>i. bse_name (be_sections emitter ! i) = name) [0 ..< length (be_sections emitter)] of
             Some i \<Rightarrow>
               let section = be_sections emitter ! i;
                   section = (if alignment > bse_alignment section then section\<lparr>bse_alignment := alignment\<rparr> else section);
                   section = (if characteristics \<noteq> 0 then section\<lparr>bse_characteristics := characteristics\<rparr> else section)
               in (Some i, emitter\<lparr>be_sections := (be_sections emitter)[i := section]\<rparr>)
           | None \<Rightarrow>
               (Some (length (be_sections emitter)),
                emitter\<lparr>be_sections := be_sections emitter @
                  [\<lparr>bse_name = name, bse_kind = kind, bse_characteristics = characteristics,
                    bse_alignment = (if alignment \<noteq> 0 then alignment else 1), bse_data = [], bse_virtual_size = 0\<rparr>]\<rparr>))"

definition binary_emitter_get_section :: "BinaryEmitter \<Rightarrow> nat \<Rightarrow> BinarySection option" where
  "binary_emitter_get_section emitter section_index =
     (if section_index \<ge> length (be_sections emitter) then None else Some (be_sections emitter ! section_index))"

text \<open>Appending to a section's data, with the adjustment of \<open>virtual_size\<close> that follows in all three functions.\<close>

definition extend_section :: "BinarySection \<Rightarrow> bytes \<Rightarrow> BinarySection" where
  "extend_section section bs =
     section\<lparr>bse_data := bse_data section @ bs,
       bse_virtual_size := (if bse_virtual_size section < length (bse_data section @ bs)
                            then length (bse_data section @ bs) else bse_virtual_size section)\<rparr>"

definition binary_emitter_align_section :: "BinaryEmitter \<Rightarrow> nat \<Rightarrow> nat \<Rightarrow> u8 \<Rightarrow> bool \<times> BinaryEmitter" where
  "binary_emitter_align_section emitter section_index alignment fill_byte =
     (case binary_emitter_get_section emitter section_index of
        None \<Rightarrow> (False, emitter)
      | Some section \<Rightarrow>
          if alignment = 0 then (False, emitter)
          else let section = (if alignment > bse_alignment section then section\<lparr>bse_alignment := alignment\<rparr> else section);
                   remainder = length (bse_data section) mod alignment;
                   section = (if remainder = 0 then section
                              else extend_section section (replicate (alignment - remainder) fill_byte))
               in (True, emitter\<lparr>be_sections := (be_sections emitter)[section_index := section]\<rparr>))"

text \<open>The second component of the result is \<open>offset_out\<close>.\<close>

definition binary_emitter_append_bytes :: "BinaryEmitter \<Rightarrow> nat \<Rightarrow> bytes \<Rightarrow> nat option \<times> BinaryEmitter" where
  "binary_emitter_append_bytes emitter section_index data =
     (case binary_emitter_get_section emitter section_index of
        None \<Rightarrow> (None, emitter)
      | Some section \<Rightarrow>
          (Some (length (bse_data section)),
           emitter\<lparr>be_sections := (be_sections emitter)[section_index := extend_section section data]\<rparr>))"

definition binary_emitter_append_zeros :: "BinaryEmitter \<Rightarrow> nat \<Rightarrow> nat \<Rightarrow> nat option \<times> BinaryEmitter" where
  "binary_emitter_append_zeros emitter section_index n =
     (case binary_emitter_get_section emitter section_index of
        None \<Rightarrow> (None, emitter)
      | Some section \<Rightarrow>
          (Some (length (bse_data section)),
           emitter\<lparr>be_sections := (be_sections emitter)[section_index := extend_section section (replicate n 0)]\<rparr>))"

definition binary_emitter_set_section_virtual_size :: "BinaryEmitter \<Rightarrow> nat \<Rightarrow> nat \<Rightarrow> bool \<times> BinaryEmitter" where
  "binary_emitter_set_section_virtual_size emitter section_index virtual_size =
     (case binary_emitter_get_section emitter section_index of
        None \<Rightarrow> (False, emitter)
      | Some section \<Rightarrow>
          if virtual_size < length (bse_data section) then (False, emitter)
          else (True, emitter\<lparr>be_sections := (be_sections emitter)[section_index := section\<lparr>bse_virtual_size := virtual_size\<rparr>]\<rparr>))"

section \<open>Symbols\<close>

definition binary_emitter_hash_name :: "string \<Rightarrow> u64" where
  "binary_emitter_hash_name name =
     foldl (\<lambda>hash c. (hash XOR of_char c) * 1099511628211) 1469598103934665603 name"

definition symbol_bucket :: "nat \<Rightarrow> string \<Rightarrow> nat" where
  "symbol_bucket n_buckets name = unat (binary_emitter_hash_name name AND of_nat (n_buckets - 1))"

abbreviation symbol_names :: "BinaryEmitter \<Rightarrow> string list" where
  "symbol_names emitter \<equiv> map bsy_name (be_symbols emitter)"

definition binary_emitter_symbol_index_rehash :: "BinaryEmitter \<Rightarrow> nat \<Rightarrow> BinaryEmitter option" where
  "binary_emitter_symbol_index_rehash emitter new_bucket_count =
     map_option (\<lambda>buckets. emitter\<lparr>be_symbol_index := buckets\<rparr>)
       (rebuild_buckets symbol_bucket (replicate new_bucket_count 0) 0 (symbol_names emitter))"

definition binary_emitter_symbol_index_insert :: "BinaryEmitter \<Rightarrow> nat \<Rightarrow> BinaryEmitter option" where
  "binary_emitter_symbol_index_insert emitter symbol_index =
     (let live = symbol_index + 1; n_buckets = length (be_symbol_index emitter)
      in case (if n_buckets = 0 \<or> live * 10 \<ge> n_buckets * 7
               then binary_emitter_symbol_index_rehash emitter (if n_buckets = 0 then 256 else n_buckets * 2)
               else Some emitter) of
           None \<Rightarrow> None
         | Some emitter \<Rightarrow>
             let index = be_symbol_index emitter; name = bsy_name (be_symbols emitter ! symbol_index)
             in map_option (\<lambda>pos. if index ! pos \<noteq> 0 then emitter
                                  else emitter\<lparr>be_symbol_index := index[pos := symbol_index + 1]\<rparr>)
                  (probe (\<lambda>e. e = symbol_index + 1) index (length index) (symbol_bucket (length index) name)))"

definition binary_emitter_find_symbol_index :: "BinaryEmitter \<Rightarrow> string \<Rightarrow> nat option option" where
  "binary_emitter_find_symbol_index emitter name =
     (let index = be_symbol_index emitter
      in if length index > 0
         then map_option (\<lambda>pos. if index ! pos = 0 then None else Some (index ! pos - 1))
                (probe (\<lambda>e. bsy_name (be_symbols emitter ! (e - 1)) = name) index (length index)
                   (symbol_bucket (length index) name))
         else Some (List.find (\<lambda>i. bsy_name (be_symbols emitter ! i) = name) [0 ..< length (be_symbols emitter)]))"

definition binary_emitter_define_symbol ::
  "BinaryEmitter \<Rightarrow> string \<Rightarrow> BinarySymbolBinding \<Rightarrow> nat option \<Rightarrow> nat \<Rightarrow> nat \<Rightarrow> (bool \<times> BinaryEmitter) option" where
  "binary_emitter_define_symbol emitter name binding section_index value sz =
     (if name = [] then Some (False, emitter)
      else case binary_emitter_find_symbol_index emitter name of
             None \<Rightarrow> None
           | Some (Some i) \<Rightarrow>
               Some (True, emitter\<lparr>be_symbols := (be_symbols emitter)[i := (be_symbols emitter ! i)
                 \<lparr>bsy_binding := binding, bsy_section_index := section_index, bsy_value := value, bsy_size := sz\<rparr>]\<rparr>)
           | Some None \<Rightarrow>
               let symbol = \<lparr>bsy_name = name, bsy_binding = binding, bsy_section_index = section_index,
                             bsy_value = value, bsy_size = sz\<rparr>;
                   new_index = length (be_symbols emitter)
               in map_option (\<lambda>emitter. (True, emitter))
                    (binary_emitter_symbol_index_insert (emitter\<lparr>be_symbols := be_symbols emitter @ [symbol]\<rparr>) new_index))"

definition binary_emitter_declare_external :: "BinaryEmitter \<Rightarrow> string \<Rightarrow> (bool \<times> BinaryEmitter) option" where
  "binary_emitter_declare_external emitter name =
     binary_emitter_define_symbol emitter name BINARY_SYMBOL_EXTERNAL None 0 0"

definition binary_emitter_find_symbol :: "BinaryEmitter \<Rightarrow> string \<Rightarrow> BinarySymbol option option" where
  "binary_emitter_find_symbol emitter name =
     map_option (map_option (\<lambda>i. be_symbols emitter ! i)) (binary_emitter_find_symbol_index emitter name)"

section \<open>Relocations\<close>

definition binary_emitter_add_relocation ::
  "BinaryEmitter \<Rightarrow> nat \<Rightarrow> nat \<Rightarrow> BinaryRelocationKind \<Rightarrow> string \<Rightarrow> u32 \<Rightarrow> bool \<times> BinaryEmitter" where
  "binary_emitter_add_relocation emitter section_index offset kind symbol_name addend =
     (if symbol_name = [] \<or> section_index \<ge> length (be_sections emitter) then (False, emitter)
      else (True, emitter\<lparr>be_relocations := be_relocations emitter @
             [\<lparr>bre_section_index = section_index, bre_offset = offset, bre_kind = kind,
               bre_symbol_name = symbol_name, bre_addend = addend\<rparr>]\<rparr>))"

section \<open>Symbols as a map\<close>

text \<open>The contract of a store that keeps the last definition of each key.\<close>

locale definition_store =
  fixes define_in :: "'s \<Rightarrow> 'k \<Rightarrow> 'v \<Rightarrow> 's option" and find_in :: "'s \<Rightarrow> 'k \<Rightarrow> 'v option option"
    and invar :: "'s \<Rightarrow> bool" and valid :: "'k \<Rightarrow> bool"
  assumes define_law: "invar s \<Longrightarrow> valid k \<Longrightarrow> \<exists>s'. define_in s k v = Some s' \<and> invar s' \<and>
      (\<forall>k'. find_in s' k' = (if k' = k then Some (Some v) else find_in s k'))"
begin

fun define_all :: "'s \<Rightarrow> ('k \<times> 'v) list \<Rightarrow> 's option" where
  "define_all s [] = Some s"
| "define_all s ((k, v) # rest) = (case define_in s k v of None \<Rightarrow> None | Some s' \<Rightarrow> define_all s' rest)"

lemma define_all_find:
  assumes "invar s" and "\<forall>(k, v) \<in> set defs. valid k"
  shows "\<exists>s'. define_all s defs = Some s' \<and> invar s' \<and>
    (\<forall>k. find_in s' k = (case map_of (rev defs) k of Some v \<Rightarrow> Some (Some v) | None \<Rightarrow> find_in s k))"
  using assms
proof (induction defs arbitrary: s)
  case (Cons kv defs)
  obtain k v where kv: "kv = (k, v)" by fastforce
  obtain s1 where s1: "define_in s k v = Some s1" "invar s1"
      "\<forall>k'. find_in s1 k' = (if k' = k then Some (Some v) else find_in s k')"
    using define_law [OF Cons.prems(1), of k v] Cons.prems(2) kv by auto
  from Cons.IH [OF s1(2)] Cons.prems(2) s1 kv show ?case
    by (fastforce simp: map_add_def map_of_append split: option.split)
qed simp

end

lemma symbol_bucket_less: "symbol_bucket (2 ^ k) name < 2 ^ k"
proof (cases "k < 64")
  case True
  have "(of_nat (2 ^ k - 1) :: u64) = mask k" by (simp add: mask_eq_exp_minus_1 of_nat_diff)
  then have "symbol_bucket (2 ^ k) name = unat (take_bit k (binary_emitter_hash_name name))"
    by (simp add: symbol_bucket_def take_bit_eq_mask)
  also have "\<dots> < 2 ^ k" by (simp add: unsigned_take_bit_eq)
  finally show ?thesis .
next
  case False
  have "symbol_bucket (2 ^ k) name < 2 ^ 64"
    using unsigned_less [of "binary_emitter_hash_name name AND of_nat (2 ^ k - 1)"] by (simp add: symbol_bucket_def)
  also have "(2 :: nat) ^ 64 \<le> 2 ^ k" using False by (intro power_increasing) auto
  finally show ?thesis .
qed

interpretation emitter_index: bucket_hash symbol_bucket
  by unfold_locales (rule symbol_bucket_less)

definition emitter_ok :: "BinaryEmitter \<Rightarrow> bool" where
  "emitter_ok emitter \<longleftrightarrow> distinct (symbol_names emitter) \<and> [] \<notin> set (symbol_names emitter) \<and>
     (if be_symbol_index emitter = [] then be_symbols emitter = []
      else index_ok symbol_bucket (symbol_names emitter) (be_symbol_index emitter) \<and>
           length (be_symbols emitter) * 10 < length (be_symbol_index emitter) * 7)"

lemma find_symbol_index_scan:
  assumes "emitter_ok emitter"
  shows "binary_emitter_find_symbol_index emitter name =
     Some (List.find (\<lambda>i. bsy_name (be_symbols emitter ! i) = name) [0 ..< length (be_symbols emitter)])"
proof (cases "be_symbol_index emitter = []")
  case False
  have ok: "index_ok symbol_bucket (symbol_names emitter) (be_symbol_index emitter)"
      "length (symbol_names emitter) < length (be_symbol_index emitter)"
    using assms False by (auto simp: emitter_ok_def)
  have "\<And>i. i < length (symbol_names emitter) \<Longrightarrow> bsy_name (be_symbols emitter ! i) = symbol_names emitter ! i" by simp
  from emitter_index.probe_lookup [OF ok this, of name] False show ?thesis
    by (auto simp: binary_emitter_find_symbol_index_def Let_def)
qed (simp add: binary_emitter_find_symbol_index_def)

lemma find_index_distinct:
  assumes "distinct (map f xs)"
  shows "List.find (\<lambda>i. f (xs ! i) = y) [0 ..< length xs] = Some j \<longleftrightarrow> j < length xs \<and> f (xs ! j) = y"
proof
  assume r: "j < length xs \<and> f (xs ! j) = y"
  have "i = j" if "i < length xs" "f (xs ! i) = y" for i
    using nth_eq_iff_index_eq [OF assms, of i j] that r by simp
  then show "List.find (\<lambda>i. f (xs ! i) = y) [0 ..< length xs] = Some j" using r by (intro find_unique) auto
qed (auto dest: find_Some_mem)

lemma find_symbol_Some:
  assumes "emitter_ok emitter"
  shows "binary_emitter_find_symbol emitter name = Some (Some symbol) \<longleftrightarrow> symbol \<in> set (be_symbols emitter) \<and> bsy_name symbol = name"
proof -
  have d: "distinct (map bsy_name (be_symbols emitter))" using assms by (simp add: emitter_ok_def)
  show ?thesis
    using find_index_distinct [OF d, of name]
    by (auto simp: binary_emitter_find_symbol_def find_symbol_index_scan [OF assms] in_set_conv_nth)
qed

lemma find_symbol_returns: "emitter_ok emitter \<Longrightarrow> binary_emitter_find_symbol emitter name \<noteq> None"
  by (simp add: binary_emitter_find_symbol_def find_symbol_index_scan)

lemma find_symbol_None:
  "emitter_ok emitter \<Longrightarrow> binary_emitter_find_symbol emitter name = Some None \<longleftrightarrow> name \<notin> set (symbol_names emitter)"
  by (auto simp: binary_emitter_find_symbol_def find_symbol_index_scan find_None_iff in_set_conv_nth simp del: set_map)

lemma load_doubles: "n * 10 < N * 7 \<Longrightarrow> N \<noteq> 0 \<Longrightarrow> (n + 1) * 10 < N * 2 * (7 :: nat)"
  by (cases "n = 0") simp_all

lemma symbol_index_insert_ok:
  assumes ok: "emitter_ok emitter" and new: "bsy_name symbol \<notin> set (symbol_names emitter)" "bsy_name symbol \<noteq> []"
  shows "\<exists>index. binary_emitter_symbol_index_insert (emitter\<lparr>be_symbols := be_symbols emitter @ [symbol]\<rparr>)
       (length (be_symbols emitter)) = Some (emitter\<lparr>be_symbols := be_symbols emitter @ [symbol], be_symbol_index := index\<rparr>) \<and>
     emitter_ok (emitter\<lparr>be_symbols := be_symbols emitter @ [symbol], be_symbol_index := index\<rparr>)"
proof -
  let ?n = "length (be_symbols emitter)" and ?N = "length (be_symbol_index emitter)"
  let ?names = "symbol_names emitter @ [bsy_name symbol]"
  have ok': "emitter_ok (emitter\<lparr>be_symbols := be_symbols emitter @ [symbol], be_symbol_index := index\<rparr>)"
    if "index_ok symbol_bucket ?names index" "(?n + 1) * 10 < length index * 7" for index
    using ok new that by (auto simp: emitter_ok_def)
  show ?thesis
  proof (cases "?N = 0 \<or> (?n + 1) * 10 \<ge> ?N * 7")
    case True
    define M where "M = (if ?N = 0 then 256 else ?N * 2)"
    obtain k where k: "M = 2 ^ k"
    proof (cases "?N = 0")
      case True
      then have "M = 2 ^ 8" by (simp add: M_def)
      then show thesis by (rule that)
    next
      case False
      then obtain j where "?N = 2 ^ j" using ok by (auto simp: emitter_ok_def index_ok_def split: if_splits)
      then have "M = 2 ^ Suc j" using False by (simp add: M_def)
      then show thesis by (rule that)
    qed
    have M: "(?n + 1) * 10 < M * 7"
    proof (cases "?N = 0")
      case True
      then show ?thesis using ok by (auto simp: emitter_ok_def M_def split: if_splits)
    next
      case False
      then have "?n * 10 < ?N * 7" using ok by (auto simp: emitter_ok_def split: if_splits)
      with load_doubles [of ?n ?N] False show ?thesis by (simp add: M_def)
    qed
    obtain index where r: "rebuild_buckets symbol_bucket (replicate M 0) 0 ?names = Some index"
        "index_ok symbol_bucket ?names index" "length index = M"
      using emitter_index.rebuild_buckets_ok [OF emitter_index.index_ok_empty, of ?names k] M k by auto
    have "M > 0" using k by simp
    obtain p where p: "probe (\<lambda>e. e = ?n + 1) index (length index) (symbol_bucket (length index) (?names ! ?n)) = Some p"
        "index ! p \<noteq> 0"
      using emitter_index.probe_own_entry [OF r(2), of ?n] by auto
    have "?names ! ?n = bsy_name symbol" by (simp add: nth_append)
    then have "binary_emitter_symbol_index_insert (emitter\<lparr>be_symbols := be_symbols emitter @ [symbol]\<rparr>) ?n =
        Some (emitter\<lparr>be_symbols := be_symbols emitter @ [symbol], be_symbol_index := index\<rparr>)"
      using True r(1) p by (auto simp: binary_emitter_symbol_index_insert_def binary_emitter_symbol_index_rehash_def
          Let_def M_def)
    with ok' [OF r(2)] M r(3) show ?thesis by blast
  next
    case False
    then have i: "index_ok symbol_bucket (symbol_names emitter) (be_symbol_index emitter)" "length (symbol_names emitter) < ?N"
      using ok by (auto simp: emitter_ok_def split: if_splits)
    obtain p where p: "probe (\<lambda>e. e = ?n + 1) (be_symbol_index emitter) ?N (symbol_bucket ?N (bsy_name symbol)) = Some p"
        "be_symbol_index emitter ! p = 0" "index_ok symbol_bucket ?names ((be_symbol_index emitter)[p := ?n + 1])"
      using emitter_index.index_insert_probe [OF i, of "\<lambda>e. e = ?n + 1" "bsy_name symbol"] by auto
    have "binary_emitter_symbol_index_insert (emitter\<lparr>be_symbols := be_symbols emitter @ [symbol]\<rparr>) ?n =
        Some (emitter\<lparr>be_symbols := be_symbols emitter @ [symbol], be_symbol_index := (be_symbol_index emitter)[p := ?n + 1]\<rparr>)"
      using False p(1,2) by (simp add: binary_emitter_symbol_index_insert_def Let_def)
    with ok' [OF p(3)] False show ?thesis by auto
  qed
qed

section \<open>The builder keeps the last definition of a name\<close>

type_synonym symbol_entry = "BinarySymbolBinding \<times> nat option \<times> nat \<times> nat"

definition entry_of :: "BinarySymbol \<Rightarrow> symbol_entry" where
  "entry_of symbol = (bsy_binding symbol, bsy_section_index symbol, bsy_value symbol, bsy_size symbol)"

definition define_entry :: "BinaryEmitter \<Rightarrow> string \<Rightarrow> symbol_entry \<Rightarrow> BinaryEmitter option" where
  "define_entry emitter name entry = (case entry of (binding, section_index, value, sz) \<Rightarrow>
     map_option snd (binary_emitter_define_symbol emitter name binding section_index value sz))"

definition find_entry :: "BinaryEmitter \<Rightarrow> string \<Rightarrow> symbol_entry option option" where
  "find_entry emitter name = map_option (map_option entry_of) (binary_emitter_find_symbol emitter name)"

lemma find_entry_iff:
  assumes "emitter_ok emitter"
  shows "find_entry emitter name = Some e \<longleftrightarrow>
    (case e of Some v \<Rightarrow> \<exists>s \<in> set (be_symbols emitter). bsy_name s = name \<and> entry_of s = v
     | None \<Rightarrow> name \<notin> set (symbol_names emitter))"
  using find_symbol_Some [OF assms] find_symbol_None [OF assms]
  by (auto simp: find_entry_def split: option.split)

lemma find_entry_eqI:
  assumes "emitter_ok a" and "emitter_ok b"
    and "\<And>v. (\<exists>s \<in> set (be_symbols a). bsy_name s = name \<and> entry_of s = v) \<longleftrightarrow>
      (\<exists>s \<in> set (be_symbols b). bsy_name s = name \<and> entry_of s = v)"
  shows "find_entry a name = find_entry b name"
proof -
  obtain x where x: "find_entry b name = Some x" using find_symbol_returns [OF assms(2), of name] by (auto simp: find_entry_def)
  have "(\<exists>s \<in> set (be_symbols a). bsy_name s = name) \<longleftrightarrow> (\<exists>s \<in> set (be_symbols b). bsy_name s = name)" using assms(3) by metis
  then have "name \<in> set (symbol_names a) \<longleftrightarrow> name \<in> set (symbol_names b)"
    unfolding set_map image_iff by metis
  then have "find_entry a name = Some x"
    using x assms(3) unfolding find_entry_iff [OF assms(1)] find_entry_iff [OF assms(2)]
    by (auto split: option.splits)
  with x show ?thesis by simp
qed

lemma define_entry_law:
  assumes ok: "emitter_ok emitter" and "name \<noteq> []"
  shows "\<exists>emitter'. define_entry emitter name entry = Some emitter' \<and> emitter_ok emitter' \<and>
     (\<forall>name'. find_entry emitter' name' = (if name' = name then Some (Some entry) else find_entry emitter name'))"
proof -
  obtain b si v sz where e: "entry = (b, si, v, sz)" by (metis prod_cases4)
  consider i where "i < length (be_symbols emitter)" "bsy_name (be_symbols emitter ! i) = name"
      "binary_emitter_find_symbol_index emitter name = Some (Some i)"
    | "name \<notin> set (symbol_names emitter)" "binary_emitter_find_symbol_index emitter name = Some None"
    unfolding find_symbol_index_scan [OF ok]
    by (cases "List.find (\<lambda>i. bsy_name (be_symbols emitter ! i) = name) [0 ..< length (be_symbols emitter)]")
      (auto simp: find_None_iff in_set_conv_nth simp del: set_map dest: find_Some_mem)
  then show ?thesis
  proof cases
    case (1 i)
    let ?s = "(be_symbols emitter ! i)\<lparr>bsy_binding := b, bsy_section_index := si, bsy_value := v, bsy_size := sz\<rparr>"
    let ?e = "emitter\<lparr>be_symbols := (be_symbols emitter)[i := ?s]\<rparr>"
    have names: "symbol_names ?e = symbol_names emitter"
    proof -
      have "symbol_names ?e = (symbol_names emitter)[i := symbol_names emitter ! i]" using 1(1) by (simp add: map_update)
      then show ?thesis by (simp only: list_update_id)
    qed
    then have ok': "emitter_ok ?e" using ok by (auto simp: emitter_ok_def)
    have d: "distinct (symbol_names emitter)" using ok by (simp add: emitter_ok_def)
    have set: "s \<in> set ((be_symbols emitter)[i := ?s]) \<longleftrightarrow> s = ?s \<or> s \<in> set (be_symbols emitter) \<and> bsy_name s \<noteq> name" for s
    proof -
      have "s \<in> set (be_symbols emitter) \<Longrightarrow> s = be_symbols emitter ! i \<longleftrightarrow> bsy_name s = name"
        using d 1(1,2) by (metis distinct_map inj_on_eq_iff nth_mem)
      moreover have "set ((be_symbols emitter)[i := ?s]) = insert ?s (set (be_symbols emitter) - {be_symbols emitter ! i})"
        using d 1(1) by (simp only: distinct_map set_update_distinct)
      ultimately show ?thesis by blast
    qed
    have "define_entry emitter name entry = Some ?e"
      using assms(2) 1(3) e by (simp add: define_entry_def binary_emitter_define_symbol_def)
    moreover have "find_entry ?e name = Some (Some entry)"
      unfolding find_entry_iff [OF ok'] using set [of ?s] 1(2) e by (auto simp: entry_of_def intro!: bexI [of _ ?s])
    moreover have "find_entry ?e name' = find_entry emitter name'" if "name' \<noteq> name" for name'
      using that 1(2) by (intro find_entry_eqI [OF ok' ok]) (auto simp: set)
    ultimately show ?thesis using ok' by auto
  next
    case 2
    let ?s = "\<lparr>bsy_name = name, bsy_binding = b, bsy_section_index = si, bsy_value = v, bsy_size = sz\<rparr>"
    obtain index where i: "binary_emitter_symbol_index_insert (emitter\<lparr>be_symbols := be_symbols emitter @ [?s]\<rparr>)
         (length (be_symbols emitter)) = Some (emitter\<lparr>be_symbols := be_symbols emitter @ [?s], be_symbol_index := index\<rparr>)"
       "emitter_ok (emitter\<lparr>be_symbols := be_symbols emitter @ [?s], be_symbol_index := index\<rparr>)" (is "emitter_ok ?e")
      using symbol_index_insert_ok [OF ok, of ?s] 2(1) assms(2) by auto
    have "define_entry emitter name entry = Some ?e"
      using assms(2) 2(2) i(1) e by (simp add: define_entry_def binary_emitter_define_symbol_def Let_def)
    moreover have "find_entry ?e name = Some (Some entry)"
      unfolding find_entry_iff [OF i(2)] using e by (auto simp: entry_of_def)
    moreover have "find_entry ?e name' = find_entry emitter name'" if "name' \<noteq> name" for name'
      using that by (intro find_entry_eqI [OF i(2) ok]) auto
    ultimately show ?thesis using i(2) by auto
  qed
qed

interpretation emitter_symbols: definition_store define_entry find_entry emitter_ok "\<lambda>name. name \<noteq> []"
  by unfold_locales (rule define_entry_law)

lemma emitter_ok_create: "emitter_ok (binary_emitter_create format)" "find_entry (binary_emitter_create format) name = Some None"
  by (simp_all add: emitter_ok_def binary_emitter_create_def find_entry_def binary_emitter_find_symbol_def
      binary_emitter_find_symbol_index_def)

text \<open>The definitions of a run, one after another.\<close>

fun define_symbols :: "BinaryEmitter \<Rightarrow> (string \<times> symbol_entry) list \<Rightarrow> BinaryEmitter option" where
  "define_symbols emitter [] = Some emitter"
| "define_symbols emitter ((name, entry) # rest) =
     (case define_entry emitter name entry of None \<Rightarrow> None | Some emitter' \<Rightarrow> define_symbols emitter' rest)"

lemma define_symbols_eq: "define_symbols emitter defs = emitter_symbols.define_all emitter defs"
  by (induction emitter defs rule: define_symbols.induct) (simp_all split: option.split)

text \<open>(C26) Symbols of the object builder. Starting from a new builder, any sequence of symbol definitions with
  non-empty names returns, however often the hash index is rebuilt on the way, and a later lookup of a name
  gives its last definition, or nothing if there is none: the builder refines a finite map.\<close>

theorem emitter_symbols_refine_map:
  assumes "\<forall>(name, entry) \<in> set defs. name \<noteq> []"
  shows "\<exists>emitter. define_symbols (binary_emitter_create format) defs = Some emitter \<and>
    (\<forall>name. find_entry emitter name = Some (map_of (rev defs) name))"
proof -
  obtain e where e: "define_symbols (binary_emitter_create format) defs = Some e"
    "\<forall>name. find_entry e name = (case map_of (rev defs) name of Some v \<Rightarrow> Some (Some v)
       | None \<Rightarrow> find_entry (binary_emitter_create format) name)"
    using emitter_symbols.define_all_find [OF emitter_ok_create(1) assms, of format] by (auto simp: define_symbols_eq)
  then show ?thesis by (intro exI [of _ e]) (auto simp: emitter_ok_create(2) split: option.split)
qed

theorem emitter_symbols_refine_map_witness:
  "\<exists>emitter. define_symbols (binary_emitter_create BINARY_TARGET_FORMAT_COFF_WIN64)
       [(''f'', BINARY_SYMBOL_EXTERNAL, None, 0, 0), (''f'', BINARY_SYMBOL_GLOBAL, Some 0, 16, 5)] = Some emitter \<and>
     find_entry emitter ''f'' = Some (Some (BINARY_SYMBOL_GLOBAL, Some 0, 16, 5))"
  using emitter_symbols_refine_map [of "[(''f'', BINARY_SYMBOL_EXTERNAL, None, 0, 0), (''f'', BINARY_SYMBOL_GLOBAL, Some 0, 16, 5)]"
      BINARY_TARGET_FORMAT_COFF_WIN64] by auto

end
