(* ===== verification/Coff_Writer.thy ===== *)
theory Coff_Writer
  imports Binary_Emitter Coff_Reader
begin

text \<open>
  \<open>binary_emitter_write_coff_object_file\<close> of \<^verbatim>\<open>src/src/codegen/binary_emitter.c\<close>, as a function from the builder to the
  bytes of the file; writing a file succeeds. File offsets are \<open>uint32_t\<close> and wrap, as in the source. A
  symbol lookup that never ends, in a builder with a full index, is a \<open>Fault\<close>.
\<close>

section \<open>Fields\<close>

definition char_byte :: "char \<Rightarrow> u8" where
  "char_byte c = of_char c"

text \<open>\<open>memcpy\<close> of a name into a field of eight zero bytes.\<close>

definition name_field :: "string \<Rightarrow> bytes" where
  "name_field str = map char_byte str @ replicate (8 - length str) 0"

definition binary_emitter_write_section_name :: "string \<Rightarrow> u32 \<Rightarrow> bytes option" where
  "binary_emitter_write_section_name name string_table_offset =
     (if length name \<le> 8 then Some (name_field name)
      else let text = CHR ''/'' # show_nat (unat string_table_offset)
           in if length text \<ge> 8 then None else Some (name_field text))"

definition binary_emitter_write_symbol_name :: "string \<Rightarrow> u32 \<Rightarrow> bytes" where
  "binary_emitter_write_symbol_name name string_table_offset =
     (if length name \<le> 8 then name_field name else bytes_u32 0 @ bytes_u32 string_table_offset)"

fun binary_emitter_default_section_characteristics :: "BinarySectionKind \<Rightarrow> u32" where
  "binary_emitter_default_section_characteristics BINARY_SECTION_TEXT = 0x60000020"
| "binary_emitter_default_section_characteristics BINARY_SECTION_RDATA = 0x40000040"
| "binary_emitter_default_section_characteristics BINARY_SECTION_DATA = 0xC0000040"
| "binary_emitter_default_section_characteristics BINARY_SECTION_BSS = 0xC0000080"

fun binary_emitter_map_relocation_kind :: "BinaryRelocationKind \<Rightarrow> u16" where
  "binary_emitter_map_relocation_kind BINARY_RELOCATION_ADDR64 = 0x0001"
| "binary_emitter_map_relocation_kind BINARY_RELOCATION_ADDR32NB = 0x0003"
| "binary_emitter_map_relocation_kind BINARY_RELOCATION_SECTION_REL32 = 0x000B"
| "binary_emitter_map_relocation_kind BINARY_RELOCATION_REL32 = 0x0004"

section \<open>Tables\<close>

text \<open>The loops that give every long name its place in the string table.\<close>

fun name_offsets :: "string list \<Rightarrow> u32 \<Rightarrow> u32 list \<times> u32" where
  "name_offsets [] string_table_size = ([], string_table_size)"
| "name_offsets (name # names) string_table_size =
     (if length name > 8
      then let (offsets, total) = name_offsets names (string_table_size + (of_nat (length name) + 1))
           in (string_table_size # offsets, total)
      else let (offsets, total) = name_offsets names string_table_size in (0 # offsets, total))"

definition section_reloc_counts :: "BinaryRelocation list \<Rightarrow> nat \<Rightarrow> u32 list" where
  "section_reloc_counts relocations section_count =
     foldl (\<lambda>counts r. counts[bre_section_index r := counts ! bre_section_index r + 1]) (replicate section_count 0) relocations"

fun raw_offsets :: "BinarySection list \<Rightarrow> u32 \<Rightarrow> u32 list \<times> u32" where
  "raw_offsets [] offset = ([], offset)"
| "raw_offsets (section # sections) offset =
     (if bse_kind section \<noteq> BINARY_SECTION_BSS \<and> length (bse_data section) > 0
      then let (offsets, end_offset) = raw_offsets sections (offset + of_nat (length (bse_data section)))
           in (offset # offsets, end_offset)
      else let (offsets, end_offset) = raw_offsets sections offset in (0 # offsets, end_offset))"

fun reloc_offsets :: "u32 list \<Rightarrow> u32 \<Rightarrow> u32 list \<times> u32" where
  "reloc_offsets [] offset = ([], offset)"
| "reloc_offsets (c # counts) offset =
     (if c > 0 then let (offsets, end_offset) = reloc_offsets counts (offset + c * 10) in (offset # offsets, end_offset)
      else let (offsets, end_offset) = reloc_offsets counts offset in (0 # offsets, end_offset))"

section \<open>The order of the relocations\<close>

text \<open>A counting sort: the slots of a section start after those of the sections before it, and a cursor per
  section hands them out.\<close>

fun section_reloc_start :: "nat \<Rightarrow> u32 list \<Rightarrow> nat list" where
  "section_reloc_start start [] = [start]"
| "section_reloc_start start (c # counts) = start # section_reloc_start (start + unat c) counts"

definition place_relocation :: "nat list \<Rightarrow> BinaryRelocation list \<Rightarrow> nat list \<times> nat list \<Rightarrow> nat \<Rightarrow> nat list \<times> nat list" where
  "place_relocation starts relocations state r =
     (case state of (cursor, ordered) \<Rightarrow>
        let sec = bre_section_index (relocations ! r); dst = starts ! sec + cursor ! sec
        in (cursor[sec := cursor ! sec + 1], ordered[dst := r]))"

definition ordered_relocations :: "BinaryRelocation list \<Rightarrow> u32 list \<Rightarrow> nat list" where
  "ordered_relocations relocations counts =
     snd (foldl (place_relocation (section_reloc_start 0 counts) relocations)
       (replicate (length counts) 0, replicate (length relocations) 0) [0 ..< length relocations])"

section \<open>Records\<close>

definition section_record :: "BinarySection \<Rightarrow> u32 \<Rightarrow> u32 \<Rightarrow> u32 \<Rightarrow> u32 \<Rightarrow> bytes linked" where
  "section_record section name_offset raw_offset reloc_offset reloc_count =
     (let characteristics = (if bse_characteristics section = 0
            then binary_emitter_default_section_characteristics (bse_kind section) else bse_characteristics section)
      in case binary_emitter_write_section_name (bse_name section) name_offset of
           None \<Rightarrow> reject ''Failed while writing COFF section headers''
         | Some field \<Rightarrow>
             Inr (field @ bytes_u32 0 @ bytes_u32 0 @
               bytes_u32 (if bse_kind section = BINARY_SECTION_BSS then 0 else of_nat (length (bse_data section))) @
               bytes_u32 raw_offset @ bytes_u32 reloc_offset @ bytes_u32 0 @ bytes_u16 (ucast reloc_count) @
               bytes_u16 0 @ bytes_u32 characteristics))"

definition section_payload :: "BinarySection \<Rightarrow> bytes" where
  "section_payload section =
     (if bse_kind section = BINARY_SECTION_BSS \<or> length (bse_data section) = 0 then [] else bse_data section)"

definition relocation_record :: "BinaryEmitter \<Rightarrow> BinaryRelocation \<Rightarrow> bytes linked" where
  "relocation_record emitter relocation =
     (case binary_emitter_find_symbol_index emitter (bre_symbol_name relocation) of
        None \<Rightarrow> Inl Fault
      | Some None \<Rightarrow> reject ''Relocation refers to an undefined symbol''
      | Some (Some symbol_index) \<Rightarrow>
          Inr (bytes_u32 (of_nat (bre_offset relocation)) @ bytes_u32 (of_nat symbol_index) @
            bytes_u16 (binary_emitter_map_relocation_kind (bre_kind relocation))))"

definition symbol_record :: "BinarySection list \<Rightarrow> BinarySymbol \<Rightarrow> u32 \<Rightarrow> bytes linked" where
  "symbol_record sections symbol name_offset =
     (let storage_class = (if bsy_binding symbol = BINARY_SYMBOL_LOCAL then 3 else 2 :: u8);
          record = (\<lambda>section_number type. Inr (binary_emitter_write_symbol_name (bsy_name symbol) name_offset @
            bytes_u32 (of_nat (bsy_value symbol)) @ bytes_u16 section_number @ bytes_u16 type @ [storage_class, 0]))
      in case bsy_section_index symbol of
           None \<Rightarrow> record 0 0
         | Some i \<Rightarrow>
             if i \<ge> length sections then reject ''Symbol refers to an invalid section''
             else record (of_nat (i + 1)) (if bse_kind (sections ! i) = BINARY_SECTION_TEXT then 0x0020 else 0))"

definition section_symbol_record :: "BinarySection \<Rightarrow> nat \<Rightarrow> u32 \<Rightarrow> u32 \<Rightarrow> bytes" where
  "section_symbol_record section i name_offset reloc_count =
     (let section_length = of_nat (if bse_virtual_size section > length (bse_data section)
            then bse_virtual_size section else length (bse_data section)) :: u32
      in binary_emitter_write_symbol_name (bse_name section) name_offset @ bytes_u32 0 @ bytes_u16 (of_nat (i + 1)) @
         bytes_u16 0 @ [3, 1] @ bytes_u32 section_length @ bytes_u16 (ucast reloc_count) @ bytes_u16 0 @ bytes_u32 0 @
         bytes_u16 0 @ replicate 4 0)"

text \<open>The strings of the names that have an offset.\<close>

definition name_strings :: "string list \<Rightarrow> u32 list \<Rightarrow> bytes" where
  "name_strings names offsets =
     concat (map (\<lambda>(name, offset). if offset \<noteq> 0 then map char_byte name @ [0] else []) (zip names offsets))"

section \<open>The file\<close>

definition binary_emitter_write_coff_object_file :: "BinaryEmitter \<Rightarrow> bytes linked" where
  "binary_emitter_write_coff_object_file emitter =
     (let sections = be_sections emitter; symbols = be_symbols emitter; relocations = be_relocations emitter;
          n = length sections; m = length symbols
      in if n > 0xFFFF then reject ''Too many sections for COFF object file''
         else if length relocations > 0xFFFFFFFF \<or> m > 0xFFFFFFFF then reject ''Emitter tables exceed COFF limits''
         else if n > (0xFFFFFFFF - m) div 2 then reject ''Section symbol records exceed COFF limits''
         else
           let (section_name_offsets, string_table_size) = name_offsets (map bse_name sections) 4;
               (symbol_name_offsets, string_table_size) = name_offsets (map bsy_name symbols) string_table_size;
               total_symbol_records = of_nat m + of_nat (n * 2) :: u32
           in if \<exists>r \<in> set relocations. bre_section_index r \<ge> n then reject ''Relocation refers to an invalid section''
              else let counts = section_reloc_counts relocations n
              in if \<exists>c \<in> set counts. c > 0xFFFF then reject ''Section relocation count exceeds COFF limit''
              else
                let (section_raw_offsets, offset) = raw_offsets sections (20 + of_nat (n * 40));
                    (section_reloc_offsets, pointer_to_symbol_table) = reloc_offsets counts offset;
                    header = bytes_u16 0x8664 @ bytes_u16 (of_nat n) @ bytes_u32 0 @ bytes_u32 pointer_to_symbol_table @
                      bytes_u32 total_symbol_records @ bytes_u16 0 @ bytes_u16 0
                in and_then (map_linked (\<lambda>i. section_record (sections ! i) (section_name_offsets ! i) (section_raw_offsets ! i)
                       (section_reloc_offsets ! i) (counts ! i)) [0 ..< n]) (\<lambda>headers.
                   and_then (map_linked (\<lambda>r. relocation_record emitter (relocations ! r))
                       (ordered_relocations relocations counts)) (\<lambda>records.
                   and_then (map_linked (\<lambda>i. symbol_record sections (symbols ! i) (symbol_name_offsets ! i)) [0 ..< m]) (\<lambda>entries.
                   Inr (header @ concat headers @ concat (map section_payload sections) @ concat records @ concat entries @
                     concat (map (\<lambda>i. section_symbol_record (sections ! i) i (section_name_offsets ! i) (counts ! i)) [0 ..< n]) @
                     bytes_u32 string_table_size @ name_strings (map bse_name sections) section_name_offsets @
                     name_strings (map bsy_name symbols) symbol_name_offsets)))))"

section \<open>The counting sort is a stable grouping\<close>

definition block_start :: "'a list list \<Rightarrow> nat \<Rightarrow> nat" where
  "block_start xss i = sum_list (map length (take i xss))"

lemma block_start_Suc: "i < length xss \<Longrightarrow> block_start xss (Suc i) = block_start xss i + length (xss ! i)"
  by (simp add: block_start_def take_Suc_conv_app_nth)

lemma block_start_mono: "i \<le> i' \<Longrightarrow> block_start xss i \<le> block_start xss i'"
proof (induction i' rule: dec_induct)
  case (step n)
  then show ?case by (cases "n < length xss") (auto simp: block_start_Suc, simp add: block_start_def)
qed simp

lemma block_start_length: "block_start xss (length xss) = length (concat xss)"
  by (simp add: block_start_def length_concat)

lemma block_end_le:
  assumes "i < i'" and "i < length xss"
  shows "block_start xss i + length (xss ! i) \<le> block_start xss i'"
  using block_start_mono [of "Suc i" i' xss] assms by (simp add: block_start_Suc)

lemma block_position_less:
  assumes "i < length xss" and "j < length (xss ! i)"
  shows "block_start xss i + j < length (concat xss)"
  using block_start_mono [of "Suc i" "length xss" xss] assms by (simp add: block_start_Suc block_start_length)

lemma block_position_inj:
  assumes "block_start xss i + j = block_start xss i' + j'" and "i < length xss" and "i' < length xss"
    and "j < length (xss ! i)" and "j' < length (xss ! i')"
  shows "i = i' \<and> j = j'"
proof (rule ccontr)
  assume n: "\<not> ?thesis"
  consider "i < i'" | "i' < i" using n assms(1) by force
  then show False
    using block_end_le [of i i' xss] block_end_le [of i' i xss] assms by cases auto
qed

lemma concat_block:
  assumes "i < length xss" and "j < length (xss ! i)"
  shows "concat xss ! (block_start xss i + j) = xss ! i ! j"
proof -
  have "concat xss = concat (take i xss) @ xss ! i @ concat (drop (Suc i) xss)"
    using assms(1) by (metis concat.simps(2) concat_append id_take_nth_drop)
  moreover have "length (concat (take i xss)) = block_start xss i" by (simp add: block_start_def length_concat)
  ultimately show ?thesis using assms(2) by (simp add: nth_append)
qed

lemma block_position_ex:
  assumes "d < length (concat xss)"
  shows "\<exists>i j. i < length xss \<and> j < length (xss ! i) \<and> d = block_start xss i + j"
  using assms
proof (induction xss rule: rev_induct)
  case (snoc xs xss)
  show ?case
  proof (cases "d < length (concat xss)")
    case True
    then obtain i j where "i < length xss" "j < length (xss ! i)" "d = block_start xss i + j" using snoc.IH by blast
    then show ?thesis by (intro exI [of _ i] exI [of _ j]) (simp add: nth_append block_start_def)
  next
    case False
    then show ?thesis
      using snoc.prems
      by (intro exI [of _ "length xss"] exI [of _ "d - length (concat xss)"]) (simp add: block_start_def length_concat)
  qed
qed simp

text \<open>The reference: for each section in turn, its relocations in the order they were added.\<close>

definition section_group :: "BinaryRelocation list \<Rightarrow> nat \<Rightarrow> nat \<Rightarrow> nat list" where
  "section_group relocations i p = filter (\<lambda>r. bre_section_index (relocations ! r) = i) [0 ..< p]"

definition grouped_relocations :: "BinaryRelocation list \<Rightarrow> nat \<Rightarrow> nat list list" where
  "grouped_relocations relocations n = map (\<lambda>i. section_group relocations i (length relocations)) [0 ..< n]"

lemma section_group_Suc:
  "section_group relocations i (Suc p) = section_group relocations i p @ (if bre_section_index (relocations ! p) = i then [p] else [])"
  by (simp add: section_group_def)

lemma section_group_prefix:
  assumes "p \<le> q"
  shows "\<exists>rest. section_group relocations i q = section_group relocations i p @ rest"
  using assms
proof (induction q rule: dec_induct)
  case (step q)
  then show ?case by (auto simp: section_group_Suc)
qed simp

lemma group_map:
  "map ((!) relocations) (section_group relocations i (length relocations)) = filter (\<lambda>r. bre_section_index r = i) relocations"
proof -
  have "filter (\<lambda>r. bre_section_index (relocations ! r) = i) [0 ..< length relocations] =
      filter ((\<lambda>r. bre_section_index r = i) \<circ> (!) relocations) [0 ..< length relocations]" by (simp add: comp_def)
  then show ?thesis unfolding section_group_def by (simp add: filter_map [symmetric] map_nth)
qed

lemma group_length:
  "length (section_group relocations i (length relocations)) = length (filter (\<lambda>r. bre_section_index r = i) relocations)"
  using group_map by (metis length_map)

lemma groups_cover:
  assumes "\<forall>x \<in> set xs. f x < n"
  shows "(\<Sum>i \<leftarrow> [0 ..< n]. length (filter (\<lambda>x. f x = i) xs)) = length xs"
  using assms
proof (induction xs)
  case (Cons x xs)
  have "(\<Sum>i \<leftarrow> [0 ..< n]. length (filter (\<lambda>y. f y = i) (x # xs))) =
      (\<Sum>i \<leftarrow> [0 ..< n]. (if f x = i then 1 else 0) + length (filter (\<lambda>y. f y = i) xs))"
    by (intro arg_cong [of _ _ sum_list] map_cong) auto
  also have "\<dots> = (\<Sum>i \<leftarrow> [0 ..< n]. if f x = i then 1 else 0) + length xs"
    using Cons by (simp add: sum_list_addf)
  also have "(\<Sum>i \<leftarrow> [0 ..< n]. if f x = i then 1 else 0) = (1 :: nat)"
    using Cons.prems by (simp add: interv_sum_list_conv_sum_set_nat)
  finally show ?case by simp
qed simp

lemma grouped_total:
  assumes "\<forall>r \<in> set relocations. bre_section_index r < n"
  shows "length (concat (grouped_relocations relocations n)) = length relocations"
proof -
  have "length (concat (grouped_relocations relocations n)) =
      (\<Sum>i \<leftarrow> [0 ..< n]. length (filter (\<lambda>r. bre_section_index r = i) relocations))"
    unfolding length_concat grouped_relocations_def map_map
    by (intro arg_cong [of _ _ sum_list] map_cong) (auto simp: group_length)
  then show ?thesis using groups_cover [OF assms] by simp
qed

lemma section_reloc_counts_nth:
  assumes "\<forall>r \<in> set relocations. bre_section_index r < n" and "i < n"
  shows "length (section_reloc_counts relocations n) = n"
    "section_reloc_counts relocations n ! i = of_nat (length (filter (\<lambda>r. bre_section_index r = i) relocations))"
proof -
  have "length c = n \<Longrightarrow> i < n \<Longrightarrow> \<forall>r \<in> set rs. bre_section_index r < n \<Longrightarrow>
      length (foldl (\<lambda>c r. c[bre_section_index r := c ! bre_section_index r + 1]) c rs) = n \<and>
      foldl (\<lambda>c r. c[bre_section_index r := c ! bre_section_index r + 1]) c rs ! i =
        c ! i + of_nat (length (filter (\<lambda>r. bre_section_index r = i) rs))" for c :: "u32 list" and rs
    by (induction rs arbitrary: c) (auto simp: nth_list_update)
  from this [of "replicate n 0" relocations] assms
  show "length (section_reloc_counts relocations n) = n"
    "section_reloc_counts relocations n ! i = of_nat (length (filter (\<lambda>r. bre_section_index r = i) relocations))"
    by (auto simp: section_reloc_counts_def)
qed

lemma section_reloc_start_nth: "i \<le> length counts \<Longrightarrow> section_reloc_start start counts ! i = start + sum_list (map unat (take i counts))"
proof (induction counts arbitrary: start i)
  case (Cons c counts)
  then show ?case by (cases i) auto
qed simp

lemma start_is_block:
  assumes "\<forall>r \<in> set relocations. bre_section_index r < n" and "length relocations < 2 ^ 32" and "i < n"
  shows "section_reloc_start 0 (section_reloc_counts relocations n) ! i = block_start (grouped_relocations relocations n) i"
proof -
  let ?c = "section_reloc_counts relocations n"
  have len: "length ?c = n" using section_reloc_counts_nth(1) [OF assms(1,3)] .
  have "map unat (take i ?c) = map length (take i (grouped_relocations relocations n))"
  proof (rule nth_equalityI)
    fix j assume "j < length (map unat (take i ?c))"
    then have j: "j < i" "j < n" using assms(3) len by auto
    have "length (filter (\<lambda>r. bre_section_index r = j) relocations) < 2 ^ 32"
      using assms(2) length_filter_le le_less_trans by blast
    then have "unat (?c ! j) = length (filter (\<lambda>r. bre_section_index r = j) relocations)"
      unfolding section_reloc_counts_nth(2) [OF assms(1) j(2)] by (simp add: unat_of_nat)
    then show "map unat (take i ?c) ! j = map length (take i (grouped_relocations relocations n)) ! j"
      using j len assms(3) by (simp add: grouped_relocations_def group_length)
  qed (use len in \<open>simp add: grouped_relocations_def\<close>)
  then show ?thesis using section_reloc_start_nth [of i ?c 0] assms(3) len by (simp add: block_start_def)
qed

text \<open>The state of the placement loop after the first \<open>p\<close> relocations.\<close>

definition placed_upto :: "BinaryRelocation list \<Rightarrow> nat \<Rightarrow> nat \<Rightarrow> nat list \<times> nat list \<Rightarrow> bool" where
  "placed_upto relocations n p state \<longleftrightarrow> (case state of (cursor, ordered) \<Rightarrow>
     length cursor = n \<and> length ordered = length relocations \<and>
     (\<forall>i < n. cursor ! i = length (section_group relocations i p) \<and>
        (\<forall>j < cursor ! i. ordered ! (block_start (grouped_relocations relocations n) i + j) = section_group relocations i p ! j)))"

lemma place_relocation_upto:
  assumes sec: "\<forall>r \<in> set relocations. bre_section_index r < n" and short: "length relocations < 2 ^ 32"
    and p: "p < length relocations" and inv: "placed_upto relocations n p state"
  shows "placed_upto relocations n (Suc p)
    (place_relocation (section_reloc_start 0 (section_reloc_counts relocations n)) relocations state p)"
proof -
  obtain cursor ordered where st: "state = (cursor, ordered)" by fastforce
  let ?G = "grouped_relocations relocations n"
  define s where "s = bre_section_index (relocations ! p)"
  have s: "s < n" using sec p by (simp add: s_def)
  define dst where "dst = block_start ?G s + cursor ! s"
  have inv': "length cursor = n" "length ordered = length relocations"
    "\<And>i. i < n \<Longrightarrow> cursor ! i = length (section_group relocations i p)"
    "\<And>i j. i < n \<Longrightarrow> j < length (section_group relocations i p) \<Longrightarrow>
       ordered ! (block_start ?G i + j) = section_group relocations i p ! j"
    using inv by (auto simp: placed_upto_def st)
  have G: "?G ! i = section_group relocations i (length relocations)" if "i < n" for i
    using that by (simp add: grouped_relocations_def)
  have lenG: "length ?G = n" by (simp add: grouped_relocations_def)
  have below: "length (section_group relocations i p) \<le> length (?G ! i)" if "i < n" for i
    using section_group_prefix [of p "length relocations" relocations i] p G [OF that] by auto
  have room: "length (section_group relocations s p) < length (?G ! s)"
    using section_group_prefix [of "Suc p" "length relocations" relocations s] p G [OF s] by (auto simp: section_group_Suc s_def)
  have dst: "dst < length ordered"
    unfolding dst_def inv'(2) grouped_total [OF sec, symmetric] inv'(3) [OF s]
    using room s lenG by (intro block_position_less) auto
  have other: "block_start ?G i + j \<noteq> dst" if "i < n" "j < length (section_group relocations i p)" for i j
  proof
    assume "block_start ?G i + j = dst"
    then have "block_start ?G i + j = block_start ?G s + length (section_group relocations s p)"
      by (simp add: dst_def inv'(3) [OF s])
    moreover have "j < length (?G ! i)" using that below [OF that(1)] by simp
    ultimately have "i = s \<and> j = length (section_group relocations s p)"
      using block_position_inj [of ?G i j s] that(1) s room lenG by simp
    then show False using that(2) by simp
  qed
  have step: "place_relocation (section_reloc_start 0 (section_reloc_counts relocations n)) relocations state p =
      (cursor[s := cursor ! s + 1], ordered[dst := p])"
    by (simp add: place_relocation_def st Let_def s_def [symmetric] start_is_block [OF sec short s] dst_def)
  have cur: "cursor[s := cursor ! s + 1] ! i = length (section_group relocations i (Suc p))" if "i < n" for i
    using that inv'(1) inv'(3) [OF that] by (auto simp: section_group_Suc nth_list_update s_def)
  have ord: "ordered[dst := p] ! (block_start ?G i + j) = section_group relocations i (Suc p) ! j"
    if i: "i < n" and j: "j < length (section_group relocations i (Suc p))" for i j
  proof (cases "j < length (section_group relocations i p)")
    case True
    then show ?thesis using other [OF i True] inv'(4) [OF i True] by (simp add: section_group_Suc nth_append)
  next
    case False
    then have "i = s" "j = length (section_group relocations s p)"
      using j by (auto simp: section_group_Suc s_def split: if_splits)
    then show ?thesis using dst inv'(3) [OF s] by (simp add: section_group_Suc s_def dst_def)
  qed
  show ?thesis unfolding step placed_upto_def using inv'(1,2) cur ord by simp
qed

lemma foldl_upt_invariant:
  assumes "P 0 s" and "\<And>p s. p < n \<Longrightarrow> P p s \<Longrightarrow> P (Suc p) (f s p)"
  shows "P n (foldl f s [0 ..< n])"
  using assms by (induction n) auto

lemma counting_sort_grouped:
  assumes "\<forall>r \<in> set relocations. bre_section_index r < n" and "length relocations < 2 ^ 32"
  shows "ordered_relocations relocations (section_reloc_counts relocations n) = concat (grouped_relocations relocations n)"
proof (cases "n = 0")
  case True
  then have "relocations = []" using assms(1) by (cases relocations) auto
  then show ?thesis using True by (simp add: ordered_relocations_def grouped_relocations_def)
next
  case False
  let ?c = "section_reloc_counts relocations n" and ?G = "grouped_relocations relocations n"
  have len: "length ?c = n" using section_reloc_counts_nth(1) [OF assms(1), of 0] False by simp
  have "placed_upto relocations n 0 (replicate n 0, replicate (length relocations) 0)"
    by (simp add: placed_upto_def section_group_def)
  then have inv: "placed_upto relocations n (length relocations)
      (foldl (place_relocation (section_reloc_start 0 ?c) relocations)
         (replicate n 0, replicate (length relocations) 0) [0 ..< length relocations])" (is "placed_upto _ _ _ ?s")
    by (rule foldl_upt_invariant) (rule place_relocation_upto [OF assms])
  have res: "ordered_relocations relocations ?c = snd ?s" by (simp add: ordered_relocations_def len)
  show ?thesis
  proof (rule nth_equalityI)
    show l: "length (ordered_relocations relocations ?c) = length (concat ?G)"
      using inv by (simp add: res placed_upto_def grouped_total [OF assms(1)] split: prod.splits)
    fix d assume "d < length (ordered_relocations relocations ?c)"
    then obtain i j where ij: "i < length ?G" "j < length (?G ! i)" "d = block_start ?G i + j"
      using block_position_ex l by metis
    then have "i < n" "?G ! i = section_group relocations i (length relocations)" by (auto simp: grouped_relocations_def)
    then have "snd ?s ! d = ?G ! i ! j"
      using inv ij by (cases ?s) (auto simp: placed_upto_def)
    also have "\<dots> = concat ?G ! d" using concat_block [OF ij(1,2)] ij(3) by simp
    finally show "ordered_relocations relocations ?c ! d = concat ?G ! d" by (simp add: res)
  qed
qed

text \<open>Relocation order. The linear-time counting sort by which the writer groups the relocations gives exactly
  the stable grouping: section by section, and within a section in the order in which they were added.\<close>

theorem ordered_relocations_grouped:
  assumes "\<forall>r \<in> set relocations. bre_section_index r < n" and "length relocations < 2 ^ 32"
  shows "ordered_relocations relocations (section_reloc_counts relocations n) = concat (grouped_relocations relocations n)"
  using assms by (rule counting_sort_grouped)

definition reloc_in :: "nat \<Rightarrow> BinaryRelocation" where
  "reloc_in i = \<lparr>bre_section_index = i, bre_offset = 0, bre_kind = BINARY_RELOCATION_REL32, bre_symbol_name = ''f'', bre_addend = 0\<rparr>"

theorem ordered_relocations_grouped_witness:
  "ordered_relocations [reloc_in 1, reloc_in 0, reloc_in 1] (section_reloc_counts [reloc_in 1, reloc_in 0, reloc_in 1] 2) = [1, 0, 2]"
  using ordered_relocations_grouped [of "[reloc_in 1, reloc_in 0, reloc_in 1]" 2]
  by (simp add: grouped_relocations_def section_group_def reloc_in_def upt_rec)

end
