(* ===== verification/Coff_Roundtrip.thy ===== *)
theory Coff_Roundtrip
  imports Coff_Writer
begin

text \<open>
  What the writer of object files writes, the reader of the linker reads back: sections with their names, bytes,
  characteristics and relocations, and symbols with their names, values, sections and storage classes.
\<close>

section \<open>Reading a record out of a file\<close>

lemma take_drop_block:
  assumes "i < length xss"
  shows "take (length (xss ! i)) (drop (length pre + block_start xss i) (pre @ concat xss @ post)) = xss ! i"
proof -
  have "concat xss = concat (take i xss) @ xss ! i @ concat (drop (Suc i) xss)"
    using assms by (metis concat.simps(2) concat_append id_take_nth_drop)
  moreover have "length (concat (take i xss)) = block_start xss i" by (simp add: block_start_def length_concat)
  ultimately show ?thesis by simp
qed

lemma block_start_uniform:
  assumes "\<forall>xs \<in> set xss. length xs = w" and "i \<le> length xss"
  shows "block_start xss i = i * w"
  using assms(2)
proof (induction i)
  case (Suc i)
  then show ?case using assms(1) by (simp add: block_start_Suc)
qed (simp add: block_start_def)

lemma block_read:
  assumes "data = pre @ concat xss @ post" and "i < length xss"
  shows "read_bytes data (length pre + block_start xss i) (length (xss ! i)) = Inr (xss ! i)"
proof -
  have "block_start xss i + length (xss ! i) \<le> length (concat xss)"
    using block_start_mono [of "Suc i" "length xss" xss] assms(2) by (simp add: block_start_Suc block_start_length)
  with take_drop_block [OF assms(2), of pre post] assms(1) show ?thesis by (simp add: read_bytes_def)
qed

lemmas record_read = read_bytes_u16 read_bytes_u32 append_assoc

section \<open>Names\<close>

lemma unat_char_byte: "unat (char_byte c) = of_char c"
proof -
  have "char_byte c = of_nat (of_char c)" by (simp add: char_byte_def of_nat_of_char)
  then show ?thesis by (simp add: unat_of_nat)
qed

lemma byte_char_byte [simp]: "byte_char (char_byte c) = c"
  by (simp add: byte_char_def unat_char_byte)

lemma char_byte_inj [simp]: "char_byte c = char_byte d \<longleftrightarrow> c = d"
  by (metis byte_char_byte)

lemma char_byte_zero [simp]: "char_byte c = 0 \<longleftrightarrow> c = CHR 0x00"
proof -
  have "char_byte (CHR 0x00) = 0" by (simp add: char_byte_def)
  then show ?thesis by (metis char_byte_inj)
qed

text \<open>A name as a C string that fits.\<close>

definition c_name :: "string \<Rightarrow> bool" where
  "c_name str \<longleftrightarrow> str \<noteq> [] \<and> CHR 0x00 \<notin> set str"

lemma length_name_field: "length str \<le> 8 \<Longrightarrow> length (name_field str) = 8"
  by (simp add: name_field_def)

lemma dup_name_field:
  assumes "CHR 0x00 \<notin> set str" and "length str \<le> 8"
  shows "coff_reader_dup_bytes_trimmed (name_field str) = str"
proof -
  have "dropWhile (\<lambda>b. b = 0) (rev (map char_byte str)) = rev (map char_byte str)"
  proof (cases str rule: rev_cases)
    case (snoc cs c)
    then show ?thesis using assms(1) by auto
  qed simp
  moreover have "dropWhile (\<lambda>b. b = (0 :: u8)) (replicate k 0 @ xs) = dropWhile (\<lambda>b. b = 0) xs" for k xs
    by (induction k) auto
  ultimately have "rev (dropWhile (\<lambda>b. b = 0) (rev (name_field str))) = map char_byte str"
    by (simp add: name_field_def)
  then show ?thesis using assms(1) by (simp add: coff_reader_dup_bytes_trimmed_def comp_def)
qed

lemma dup_cstring_range:
  assumes "CHR 0x00 \<notin> set str"
  shows "coff_reader_dup_cstring_range (map char_byte str @ 0 # rest) = Some str"
proof -
  have "takeWhile (\<lambda>b. b \<noteq> 0) (map char_byte str @ 0 # rest) = map char_byte str"
    using assms by (subst takeWhile_append2) auto
  then show ?thesis by (simp add: coff_reader_dup_cstring_range_def comp_def)
qed

lemma string_from_table:
  assumes "obj_string_table object = table" and "table = pre @ map char_byte str @ 0 # rest" and "CHR 0x00 \<notin> set str"
    and "4 \<le> length pre" and "unat off = length pre"
  shows "coff_reader_string_from_table object off = Some str"
  using assms dup_cstring_range [OF assms(3)]
  by (simp add: coff_reader_string_from_table_def Let_def)

lemma section_name_offset_digits:
  "section_name_offset (map char_byte (show_nat n) @ replicate z 0) acc = Some (acc * 10 ^ length (show_nat n) + of_nat n)"
proof (induction n arbitrary: z acc rule: show_nat.induct)
  case (1 n)
  have digit: "section_name_offset (map char_byte [char_of (d + 48)] @ bs) acc = section_name_offset bs (acc * 10 + of_nat d)"
    if "d < 10" for d acc bs
  proof -
    have ch: "of_char (char_of (d + 48) :: char) = d + 48" using that by simp
    then have u: "unat (char_byte (char_of (d + 48))) = d + 48" by (simp only: unat_char_byte)
    have "(ucast (char_byte (char_of (d + 48))) :: u32) = of_nat (d + 48)"
      using u by (metis of_nat_unat)
    moreover have "c_isdigit (char_of (d + 48))" using that ch by (simp add: c_isdigit_def)
    moreover have "char_byte (char_of (d + 48)) \<noteq> 0" using u by (metis unsigned_0 add_is_0 zero_neq_numeral)
    ultimately show ?thesis by simp
  qed
  have stop: "section_name_offset (replicate z 0) acc = Some acc" for z acc by (cases z) simp_all
  have split: "section_name_offset (bs @ bs') acc = section_name_offset bs' acc'"
    if "\<forall>b \<in> set bs. b \<noteq> 0" "section_name_offset bs acc = Some acc'" for bs bs' acc acc'
    using that by (induction bs arbitrary: acc) (auto split: if_splits)
  show ?case
  proof (cases "n < 10")
    case True
    then have "show_nat n = [char_of (n + 48)]" by (simp add: show_nat.simps)
    then show ?thesis using digit [OF True] stop by simp
  next
    case False
    then have sh: "show_nat n = show_nat (n div 10) @ [char_of (n mod 10 + 48)]" by (subst show_nat.simps) simp
    have m: "n mod 10 < 10" by simp
    have "\<forall>b \<in> set (map char_byte (show_nat (n div 10))). b \<noteq> 0"
      using show_nat_digits by (fastforce simp: c_isdigit_def)
    moreover have "section_name_offset (map char_byte (show_nat (n div 10))) acc = Some (acc * 10 ^ length (show_nat (n div 10)) + of_nat (n div 10))"
      using "1.IH" [OF False, of 0] by simp
    ultimately have "section_name_offset (map char_byte (show_nat n) @ replicate z 0) acc =
        section_name_offset (map char_byte [char_of (n mod 10 + 48)] @ replicate z 0)
          (acc * 10 ^ length (show_nat (n div 10)) + of_nat (n div 10))"
      unfolding sh map_append append_assoc by (rule split)
    also have "\<dots> = Some ((acc * 10 ^ length (show_nat (n div 10)) + of_nat (n div 10)) * 10 + of_nat (n mod 10))"
      by (simp only: digit [OF m] stop)
    also have "(of_nat (n div 10) * 10 + of_nat (n mod 10) :: u32) = of_nat n"
      by (metis div_mult_mod_eq of_nat_add of_nat_mult of_nat_numeral)
    then have "(acc * 10 ^ length (show_nat (n div 10)) + of_nat (n div 10)) * 10 + of_nat (n mod 10) =
        acc * 10 ^ length (show_nat n) + of_nat n" by (simp add: sh algebra_simps)
    finally show ?thesis .
  qed
qed

section \<open>Offsets\<close>

definition long_name_bytes :: "string \<Rightarrow> bytes" where
  "long_name_bytes str = (if length str > 8 then map char_byte str @ [0] else [])"

lemma block_start_Cons: "block_start (xs # xss) (Suc i) = length xs + block_start xss i" "block_start xss 0 = 0"
  by (simp_all add: block_start_def)

lemma unat_add_of_nat:
  assumes "unat (x :: u32) + n < 2 ^ 32"
  shows "unat (x + of_nat n) = unat x + n"
proof -
  have "x + of_nat n = of_nat (unat x + n)" by simp
  then show ?thesis using assms by (simp only: unat_of_nat) simp
qed

lemma name_offsets_append:
  "name_offsets (as @ bs) start = (case name_offsets as start of (oa, t) \<Rightarrow> case name_offsets bs t of (ob, t') \<Rightarrow> (oa @ ob, t'))"
  by (induction as arbitrary: start) (auto split: prod.splits)

lemma name_offsets_ok:
  assumes "name_offsets names start = (offs, tot)" and "unat start + length (concat (map long_name_bytes names)) < 2 ^ 32"
  shows "length offs = length names" "unat tot = unat start + length (concat (map long_name_bytes names))"
    "\<forall>i < length names. if length (names ! i) > 8 then unat (offs ! i) = unat start + block_start (map long_name_bytes names) i
       else offs ! i = 0"
proof -
  have "length offs = length names \<and> unat tot = unat start + length (concat (map long_name_bytes names)) \<and>
    (\<forall>i < length names. if length (names ! i) > 8 then unat (offs ! i) = unat start + block_start (map long_name_bytes names) i
       else offs ! i = 0)"
    using assms
  proof (induction names arbitrary: start offs)
    case (Cons name names)
    let ?k = "length (long_name_bytes name)"
    have room: "unat start + ?k + length (concat (map long_name_bytes names)) < 2 ^ 32" using Cons.prems(2) by simp
    define start' where "start' = start + of_nat ?k"
    have st: "unat start' = unat start + ?k" unfolding start'_def using room by (intro unat_add_of_nat) simp
    obtain offs' where o: "name_offsets names start' = (offs', tot)"
        "offs = (if length name > 8 then start else 0) # offs'"
      using Cons.prems(1) by (auto simp: start'_def long_name_bytes_def ac_simps split: if_splits prod.splits)
    have IH: "length offs' = length names \<and> unat tot = unat start' + length (concat (map long_name_bytes names)) \<and>
      (\<forall>i < length names. if length (names ! i) > 8 then unat (offs' ! i) = unat start' + block_start (map long_name_bytes names) i
         else offs' ! i = 0)"
      using Cons.IH [OF o(1)] room st by simp
    show ?case using IH st o(2) by (auto simp: nth_Cons block_start_Cons split: nat.split)
  qed simp
  then show "length offs = length names" "unat tot = unat start + length (concat (map long_name_bytes names))"
    "\<forall>i < length names. if length (names ! i) > 8 then unat (offs ! i) = unat start + block_start (map long_name_bytes names) i
       else offs ! i = 0" by auto
qed

lemma name_strings_long:
  assumes "name_offsets names start = (offs, tot)" and "unat start + length (concat (map long_name_bytes names)) < 2 ^ 32"
    and "0 < unat start"
  shows "name_strings names offs = concat (map long_name_bytes names)"
proof -
  note n = name_offsets_ok [OF assms(1,2)]
  have "map (\<lambda>(name, offset). if offset \<noteq> 0 then map char_byte name @ [0] else []) (zip names offs) = map long_name_bytes names"
  proof (rule nth_equalityI)
    fix i assume "i < length (map (\<lambda>(name, offset). if offset \<noteq> 0 then map char_byte name @ [0] else []) (zip names offs))"
    then have i: "i < length names" by simp
    have "offs ! i \<noteq> 0 \<longleftrightarrow> length (names ! i) > 8"
    proof (cases "length (names ! i) > 8")
      case True
      then have "0 < unat (offs ! i)" using n(3) i assms(3) by auto
      with True show ?thesis by auto
    next
      case False
      then show ?thesis using n(3) i by auto
    qed
    then show "map (\<lambda>(name, offset). if offset \<noteq> 0 then map char_byte name @ [0] else []) (zip names offs) ! i =
        map long_name_bytes names ! i"
      using i n(1) by (simp add: long_name_bytes_def)
  qed (simp add: n(1))
  then show ?thesis by (simp add: name_strings_def)
qed

lemma raw_offsets_ok:
  assumes "raw_offsets sections start = (offs, end_off)" and "unat start + length (concat (map section_payload sections)) < 2 ^ 32"
  shows "length offs = length sections \<and> unat end_off = unat start + length (concat (map section_payload sections)) \<and>
    (\<forall>i < length sections. section_payload (sections ! i) \<noteq> [] \<longrightarrow>
       unat (offs ! i) = unat start + block_start (map section_payload sections) i)"
  using assms
proof (induction sections arbitrary: start offs)
  case (Cons s sections)
  let ?k = "length (section_payload s)"
  have room: "unat start + ?k + length (concat (map section_payload sections)) < 2 ^ 32" using Cons.prems(2) by simp
  define start' where "start' = start + of_nat ?k"
  have st: "unat start' = unat start + ?k" unfolding start'_def using room by (intro unat_add_of_nat) simp
  obtain offs' where o: "raw_offsets sections start' = (offs', end_off)"
      "offs = (if section_payload s \<noteq> [] then start else 0) # offs'"
    using Cons.prems(1) by (auto simp: start'_def section_payload_def split: if_splits prod.splits)
  have IH: "length offs' = length sections \<and> unat end_off = unat start' + length (concat (map section_payload sections)) \<and>
    (\<forall>i < length sections. section_payload (sections ! i) \<noteq> [] \<longrightarrow>
       unat (offs' ! i) = unat start' + block_start (map section_payload sections) i)"
    using Cons.IH [OF o(1)] room st by simp
  show ?case using IH st o(2) by (auto simp: nth_Cons block_start_Cons split: nat.split)
qed simp

lemma reloc_offsets_ok:
  assumes "reloc_offsets counts start = (offs, end_off)" and "unat start + 10 * sum_list (map unat counts) < 2 ^ 32"
  shows "length offs = length counts \<and> unat end_off = unat start + 10 * sum_list (map unat counts) \<and>
    (\<forall>i < length counts. counts ! i \<noteq> 0 \<longrightarrow> unat (offs ! i) = unat start + 10 * sum_list (map unat (take i counts)))"
  using assms
proof (induction counts arbitrary: start offs)
  case (Cons c counts)
  have room: "unat start + unat c * 10 + 10 * sum_list (map unat counts) < 2 ^ 32" using Cons.prems(2) by simp
  define start' where "start' = start + c * 10"
  have "start' = start + of_nat (unat c * 10)" by (simp add: start'_def)
  then have st: "unat start' = unat start + unat c * 10" using room unat_add_of_nat [of start "unat c * 10"] by simp
  obtain offs' where o: "reloc_offsets counts start' = (offs', end_off)" "offs = (if c \<noteq> 0 then start else 0) # offs'"
    using Cons.prems(1) by (auto simp: start'_def word_greater_zero_iff split: if_splits prod.splits)
  have IH: "length offs' = length counts \<and> unat end_off = unat start' + 10 * sum_list (map unat counts) \<and>
    (\<forall>i < length counts. counts ! i \<noteq> 0 \<longrightarrow> unat (offs' ! i) = unat start' + 10 * sum_list (map unat (take i counts)))"
    using Cons.IH [OF o(1)] room st by simp
  show ?case using IH st o(2) by (auto simp: nth_Cons split: nat.split)
qed simp

section \<open>The parts of a written file\<close>

abbreviation payloads :: "BinaryEmitter \<Rightarrow> bytes list" where
  "payloads emitter \<equiv> map section_payload (be_sections emitter)"

abbreviation reloc_counts :: "BinaryEmitter \<Rightarrow> u32 list" where
  "reloc_counts emitter \<equiv> section_reloc_counts (be_relocations emitter) (length (be_sections emitter))"

abbreviation coff_names :: "BinaryEmitter \<Rightarrow> string list" where
  "coff_names emitter \<equiv> map bse_name (be_sections emitter) @ map bsy_name (be_symbols emitter)"

text \<open>The offsets and tables the writer computes.\<close>

record coff_tables =
  ct_section_names :: "u32 list"
  ct_symbol_names :: "u32 list"
  ct_string_size :: u32
  ct_raw_offsets :: "u32 list"
  ct_raw_end :: u32
  ct_reloc_offsets :: "u32 list"
  ct_symbol_table :: u32
  ct_headers :: "bytes list"
  ct_records :: "bytes list"
  ct_entries :: "bytes list"

definition coff_header :: "BinaryEmitter \<Rightarrow> u32 \<Rightarrow> bytes" where
  "coff_header emitter ptr = bytes_u16 0x8664 @ bytes_u16 (of_nat (length (be_sections emitter))) @ bytes_u32 0 @ bytes_u32 ptr @
     bytes_u32 (of_nat (length (be_symbols emitter)) + of_nat (length (be_sections emitter) * 2)) @ bytes_u16 0 @ bytes_u16 0"

definition section_symbols :: "BinaryEmitter \<Rightarrow> u32 list \<Rightarrow> bytes list" where
  "section_symbols emitter so = map (\<lambda>i. section_symbol_record (be_sections emitter ! i) i (so ! i) (reloc_counts emitter ! i))
     [0 ..< length (be_sections emitter)]"

definition coff_layout :: "BinaryEmitter \<Rightarrow> bytes \<Rightarrow> coff_tables \<Rightarrow> bool" where
  "coff_layout emitter data t \<longleftrightarrow>
     length (be_sections emitter) \<le> 0xFFFF \<and>
     length (be_symbols emitter) + length (be_sections emitter) * 2 \<le> 0xFFFFFFFF \<and> length (be_relocations emitter) \<le> 0xFFFFFFFF \<and>
     (\<forall>r \<in> set (be_relocations emitter). bre_section_index r < length (be_sections emitter)) \<and>
     (\<forall>c \<in> set (reloc_counts emitter). c \<le> 0xFFFF) \<and>
     name_offsets (coff_names emitter) 4 = (ct_section_names t @ ct_symbol_names t, ct_string_size t) \<and>
     length (ct_section_names t) = length (be_sections emitter) \<and>
     raw_offsets (be_sections emitter) (20 + of_nat (length (be_sections emitter) * 40)) = (ct_raw_offsets t, ct_raw_end t) \<and>
     reloc_offsets (reloc_counts emitter) (ct_raw_end t) = (ct_reloc_offsets t, ct_symbol_table t) \<and>
     length (ct_headers t) = length (be_sections emitter) \<and>
     (\<forall>i < length (be_sections emitter). section_record (be_sections emitter ! i) (ct_section_names t ! i) (ct_raw_offsets t ! i)
        (ct_reloc_offsets t ! i) (reloc_counts emitter ! i) = Inr (ct_headers t ! i)) \<and>
     length (ct_records t) = length (concat (grouped_relocations (be_relocations emitter) (length (be_sections emitter)))) \<and>
     (\<forall>k < length (ct_records t). relocation_record emitter (be_relocations emitter !
        (concat (grouped_relocations (be_relocations emitter) (length (be_sections emitter))) ! k)) = Inr (ct_records t ! k)) \<and>
     length (ct_entries t) = length (be_symbols emitter) \<and>
     (\<forall>i < length (be_symbols emitter). symbol_record (be_sections emitter) (be_symbols emitter ! i) (ct_symbol_names t ! i) =
        Inr (ct_entries t ! i)) \<and>
     data = coff_header emitter (ct_symbol_table t) @ concat (ct_headers t) @ concat (payloads emitter) @ concat (ct_records t) @
       concat (ct_entries t) @ concat (section_symbols emitter (ct_section_names t)) @ bytes_u32 (ct_string_size t) @
       concat (map long_name_bytes (coff_names emitter))"

text \<open>The size of the file, as a number that cannot wrap.\<close>

definition coff_file_size :: "BinaryEmitter \<Rightarrow> nat" where
  "coff_file_size emitter = 20 + 40 * length (be_sections emitter) + length (concat (payloads emitter)) +
     10 * length (be_relocations emitter) + 18 * length (be_symbols emitter) + 36 * length (be_sections emitter) + 4 +
     length (concat (map long_name_bytes (coff_names emitter)))"

lemma split_name_offsets:
  assumes "name_offsets as 4 = (oa, ta)" and "name_offsets bs ta = (ob, tb)"
    and "4 + length (concat (map long_name_bytes (as @ bs))) < 2 ^ 32"
  shows "name_offsets (as @ bs) 4 = (oa @ ob, tb)" "length oa = length as"
    "name_strings as oa @ name_strings bs ob = concat (map long_name_bytes (as @ bs))"
proof -
  show "name_offsets (as @ bs) 4 = (oa @ ob, tb)" using assms(1,2) by (simp add: name_offsets_append)
  have ra: "unat (4 :: u32) + length (concat (map long_name_bytes as)) < 2 ^ 32" using assms(3) by simp
  note a = name_offsets_ok [OF assms(1) ra]
  show "length oa = length as" by (fact a(1))
  have rb: "unat ta + length (concat (map long_name_bytes bs)) < 2 ^ 32" using a(2) assms(3) by simp
  have "name_strings as oa = concat (map long_name_bytes as)" using name_strings_long [OF assms(1) ra] by simp
  moreover have "name_strings bs ob = concat (map long_name_bytes bs)" using name_strings_long [OF assms(2) rb] a(2) by simp
  ultimately show "name_strings as oa @ name_strings bs ob = concat (map long_name_bytes (as @ bs))" by simp
qed

lemma coff_layout_obtain:
  assumes "binary_emitter_write_coff_object_file emitter = Inr data" and "coff_file_size emitter < 2 ^ 32"
  obtains t where "coff_layout emitter data t"
proof -
  let ?S = "be_sections emitter" and ?Y = "be_symbols emitter" and ?R = "be_relocations emitter"
  obtain so t1 yo sz ro off lo ptr where
      names: "name_offsets (map bse_name ?S) 4 = (so, t1)" "name_offsets (map bsy_name ?Y) t1 = (yo, sz)"
      and offs: "raw_offsets ?S (20 + of_nat (length ?S * 40)) = (ro, off)" "reloc_offsets (reloc_counts emitter) off = (lo, ptr)"
    by (metis surj_pair)
  have bounds: "length ?S \<le> 0xFFFF" "length ?R \<le> 0xFFFFFFFF" "length ?S \<le> (0xFFFFFFFF - length ?Y) div 2" "length ?Y \<le> 0xFFFFFFFF"
      "\<forall>r \<in> set ?R. bre_section_index r < length ?S" "\<forall>c \<in> set (reloc_counts emitter). c \<le> 0xFFFF"
    and body: "\<exists>headers records entries.
      map_linked (\<lambda>i. section_record (?S ! i) (so ! i) (ro ! i) (lo ! i) (reloc_counts emitter ! i)) [0 ..< length ?S] = Inr headers \<and>
      map_linked (\<lambda>r. relocation_record emitter (?R ! r)) (ordered_relocations ?R (reloc_counts emitter)) = Inr records \<and>
      map_linked (\<lambda>i. symbol_record ?S (?Y ! i) (yo ! i)) [0 ..< length ?Y] = Inr entries \<and>
      data = coff_header emitter ptr @ concat headers @ concat (payloads emitter) @ concat records @ concat entries @
        concat (section_symbols emitter so) @ bytes_u32 sz @ name_strings (map bse_name ?S) so @ name_strings (map bsy_name ?Y) yo"
    using assms(1) names offs
    by (auto simp: binary_emitter_write_coff_object_file_def Let_def and_then_Inr coff_header_def section_symbols_def not_less
        split: if_splits)
  obtain headers records entries where
      h: "map_linked (\<lambda>i. section_record (?S ! i) (so ! i) (ro ! i) (lo ! i) (reloc_counts emitter ! i)) [0 ..< length ?S] = Inr headers"
      and r: "map_linked (\<lambda>r. relocation_record emitter (?R ! r)) (ordered_relocations ?R (reloc_counts emitter)) = Inr records"
      and e: "map_linked (\<lambda>i. symbol_record ?S (?Y ! i) (yo ! i)) [0 ..< length ?Y] = Inr entries"
      and data: "data = coff_header emitter ptr @ concat headers @ concat (payloads emitter) @ concat records @ concat entries @
        concat (section_symbols emitter so) @ bytes_u32 sz @ name_strings (map bse_name ?S) so @ name_strings (map bsy_name ?Y) yo"
    using body by blast
  have room: "4 + length (concat (map long_name_bytes (coff_names emitter))) < 2 ^ 32" using assms(2) by (simp add: coff_file_size_def)
  note s = split_name_offsets [OF names room]
  have g: "ordered_relocations ?R (reloc_counts emitter) = concat (grouped_relocations ?R (length ?S))"
    using counting_sort_grouped [OF bounds(5)] bounds(2) by simp
  have "coff_layout emitter data \<lparr>ct_section_names = so, ct_symbol_names = yo, ct_string_size = sz, ct_raw_offsets = ro,
      ct_raw_end = off, ct_reloc_offsets = lo, ct_symbol_table = ptr, ct_headers = headers, ct_records = records, ct_entries = entries\<rparr>"
    unfolding coff_layout_def
    using bounds s(1,2) offs h r e data s(3) by (auto simp: map_linked_Inr g)
  then show thesis by (rule that)
qed

section \<open>Sizes\<close>

definition writable :: "BinaryEmitter \<Rightarrow> bool" where
  "writable emitter \<longleftrightarrow> emitter_ok emitter \<and> coff_file_size emitter < 2 ^ 32 \<and>
     (\<forall>s \<in> set (be_sections emitter). c_name (bse_name s) \<and> hd (bse_name s) \<noteq> CHR ''/'') \<and>
     (\<forall>y \<in> set (be_symbols emitter). CHR 0x00 \<notin> set (bsy_name y))"

lemma writable_names:
  assumes "writable emitter" and "str \<in> set (coff_names emitter)"
  shows "c_name str"
proof -
  have "[] \<notin> set (symbol_names emitter)" using assms(1) by (simp add: writable_def emitter_ok_def)
  then have "c_name (bsy_name y)" if "y \<in> set (be_symbols emitter)" for y
    using that assms(1) by (metis c_name_def writable_def image_eqI set_map)
  then show ?thesis using assms by (auto simp: writable_def)
qed

lemma length_symbol_name: "length (binary_emitter_write_symbol_name str off) = 8"
  by (simp add: binary_emitter_write_symbol_name_def length_name_field)

lemma length_section_name: "binary_emitter_write_section_name str off = Some field \<Longrightarrow> length field = 8"
  by (auto simp: binary_emitter_write_section_name_def Let_def length_name_field split: if_splits)

lemma length_records:
  "section_record s a b c d = Inr h \<Longrightarrow> length h = 40"
  "relocation_record emitter r = Inr bs \<Longrightarrow> length bs = 10"
  "symbol_record sections y a = Inr bs \<Longrightarrow> length bs = 18"
  "length (section_symbol_record s i a c) = 36"
  by (auto simp: section_record_def relocation_record_def symbol_record_def section_symbol_record_def Let_def
      length_section_name length_symbol_name split: option.splits if_splits)

lemma length_coff_header: "length (coff_header emitter ptr) = 20"
  by (simp add: coff_header_def)

lemma length_concat_uniform: "\<forall>xs \<in> set xss. length xs = w \<Longrightarrow> length (concat xss) = length xss * w"
  by (induction xss) auto

lemma layout_records:
  assumes "coff_layout emitter data t"
  shows "\<forall>h \<in> set (ct_headers t). length h = 40" "\<forall>h \<in> set (ct_records t). length h = 10" "\<forall>h \<in> set (ct_entries t). length h = 18"
    "\<forall>h \<in> set (section_symbols emitter so). length h = 36"
proof -
  have l: "length (ct_headers t) = length (be_sections emitter)" "length (ct_entries t) = length (be_symbols emitter)"
    "\<And>i. i < length (be_sections emitter) \<Longrightarrow> \<exists>a b c d. section_record (be_sections emitter ! i) a b c d = Inr (ct_headers t ! i)"
    "\<And>k. k < length (ct_records t) \<Longrightarrow> \<exists>r. relocation_record emitter r = Inr (ct_records t ! k)"
    "\<And>i. i < length (be_symbols emitter) \<Longrightarrow> \<exists>a. symbol_record (be_sections emitter) (be_symbols emitter ! i) a = Inr (ct_entries t ! i)"
    using assms unfolding coff_layout_def by blast+
  show "\<forall>h \<in> set (ct_headers t). length h = 40" using l(1,3) length_records(1) by (metis in_set_conv_nth)
  show "\<forall>h \<in> set (ct_records t). length h = 10" using l(4) length_records(2) by (metis in_set_conv_nth)
  show "\<forall>h \<in> set (ct_entries t). length h = 18" using l(2,5) length_records(3) by (metis in_set_conv_nth)
  show "\<forall>h \<in> set (section_symbols emitter so). length h = 36" by (simp add: section_symbols_def length_records)
qed

lemma layout_lengths:
  assumes "coff_layout emitter data t"
  shows "length (concat (ct_headers t)) = 40 * length (be_sections emitter)"
    "length (concat (ct_records t)) = 10 * length (be_relocations emitter)"
    "length (concat (ct_entries t)) = 18 * length (be_symbols emitter)"
    "length (concat (section_symbols emitter so)) = 36 * length (be_sections emitter)"
    "length (ct_headers t) = length (be_sections emitter)" "length (ct_records t) = length (be_relocations emitter)"
    "length (ct_entries t) = length (be_symbols emitter)" "length (section_symbols emitter so) = length (be_sections emitter)"
proof -
  have l: "length (ct_headers t) = length (be_sections emitter)" "length (ct_entries t) = length (be_symbols emitter)"
    "length (ct_records t) = length (be_relocations emitter)"
    using assms grouped_total [of "be_relocations emitter" "length (be_sections emitter)"] by (simp_all add: coff_layout_def)
  then show "length (ct_headers t) = length (be_sections emitter)" "length (ct_records t) = length (be_relocations emitter)"
    "length (ct_entries t) = length (be_symbols emitter)" "length (section_symbols emitter so) = length (be_sections emitter)"
    by (simp_all add: section_symbols_def)
  with layout_records [OF assms, THEN length_concat_uniform]
  show "length (concat (ct_headers t)) = 40 * length (be_sections emitter)"
    "length (concat (ct_records t)) = 10 * length (be_relocations emitter)"
    "length (concat (ct_entries t)) = 18 * length (be_symbols emitter)"
    "length (concat (section_symbols emitter so)) = 36 * length (be_sections emitter)" by simp_all
qed

lemma layout_file_size:
  assumes "coff_layout emitter data t"
  shows "length data = coff_file_size emitter"
proof -
  have "data = coff_header emitter (ct_symbol_table t) @ concat (ct_headers t) @ concat (payloads emitter) @ concat (ct_records t) @
       concat (ct_entries t) @ concat (section_symbols emitter (ct_section_names t)) @ bytes_u32 (ct_string_size t) @
       concat (map long_name_bytes (coff_names emitter))"
    using assms by (simp add: coff_layout_def)
  then have "length data = 20 + length (concat (ct_headers t)) + length (concat (payloads emitter)) + length (concat (ct_records t)) +
      length (concat (ct_entries t)) + length (concat (section_symbols emitter (ct_section_names t))) + 4 +
      length (concat (map long_name_bytes (coff_names emitter)))"
    by (simp only: length_append length_coff_header length_bytes)
  then show ?thesis by (simp only: layout_lengths [OF assms] coff_file_size_def)
qed

lemma layout_counts:
  assumes "coff_layout emitter data t" and "i < length (be_sections emitter)"
  shows "unat (reloc_counts emitter ! i) = length (filter (\<lambda>r. bre_section_index r = i) (be_relocations emitter))"
    "length (reloc_counts emitter) = length (be_sections emitter)"
    "unat (ucast (reloc_counts emitter ! i) :: u16) = unat (reloc_counts emitter ! i)"
proof -
  have sec: "\<forall>r \<in> set (be_relocations emitter). bre_section_index r < length (be_sections emitter)"
    using assms(1) by (simp add: coff_layout_def)
  note c = section_reloc_counts_nth [OF sec assms(2)]
  have "length (filter (\<lambda>r. bre_section_index r = i) (be_relocations emitter)) \<le> 0xFFFFFFFF"
    using assms(1) length_filter_le order_trans unfolding coff_layout_def by blast
  then show "unat (reloc_counts emitter ! i) = length (filter (\<lambda>r. bre_section_index r = i) (be_relocations emitter))"
    by (simp add: c(2) unat_of_nat)
  show l: "length (reloc_counts emitter) = length (be_sections emitter)" by (fact c(1))
  have "reloc_counts emitter ! i \<le> 0xFFFF" using assms l by (auto simp: coff_layout_def)
  then have "unat (reloc_counts emitter ! i) \<le> 0xFFFF" by (simp add: word_le_nat_alt)
  then show "unat (ucast (reloc_counts emitter ! i) :: u16) = unat (reloc_counts emitter ! i)"
    by (simp add: unsigned_ucast_eq take_bit_nat_eq_self)
qed

lemma layout_counts_sum:
  assumes "coff_layout emitter data t" and "i \<le> length (be_sections emitter)"
  shows "sum_list (map unat (take i (reloc_counts emitter))) =
     block_start (grouped_relocations (be_relocations emitter) (length (be_sections emitter))) i"
proof -
  let ?n = "length (be_sections emitter)"
  have "map unat (take i (reloc_counts emitter)) = map length (take i (grouped_relocations (be_relocations emitter) ?n))"
  proof (cases "?n = 0")
    case False
    then have len: "length (reloc_counts emitter) = ?n" using layout_counts(2) [OF assms(1), of 0] by simp
    show ?thesis
      by (rule nth_equalityI) (use len assms(2) in \<open>auto simp: grouped_relocations_def layout_counts(1) [OF assms(1)] group_length\<close>)
  qed (use assms(2) in simp)
  then show ?thesis by (simp add: block_start_def)
qed

lemma layout_raw:
  assumes "coff_layout emitter data t" and "coff_file_size emitter < 2 ^ 32"
  shows "unat (ct_raw_end t) = 20 + 40 * length (be_sections emitter) + length (concat (payloads emitter))"
    "\<forall>i < length (be_sections emitter). payloads emitter ! i \<noteq> [] \<longrightarrow>
       unat (ct_raw_offsets t ! i) = 20 + 40 * length (be_sections emitter) + block_start (payloads emitter) i"
proof -
  let ?n = "length (be_sections emitter)"
  have "(20 + of_nat (?n * 40) :: u32) = of_nat (20 + 40 * ?n)" by simp
  then have st: "unat (20 + of_nat (?n * 40) :: u32) = 20 + 40 * ?n"
    using assms(2) by (simp only: unat_of_nat) (simp add: coff_file_size_def)
  have r: "raw_offsets (be_sections emitter) (20 + of_nat (?n * 40)) = (ct_raw_offsets t, ct_raw_end t)"
    using assms(1) by (simp add: coff_layout_def)
  have "unat (20 + of_nat (?n * 40) :: u32) + length (concat (payloads emitter)) < 2 ^ 32"
    unfolding st using assms(2) by (simp add: coff_file_size_def)
  from raw_offsets_ok [OF r this] st
  show "unat (ct_raw_end t) = 20 + 40 * length (be_sections emitter) + length (concat (payloads emitter))"
    "\<forall>i < length (be_sections emitter). payloads emitter ! i \<noteq> [] \<longrightarrow>
       unat (ct_raw_offsets t ! i) = 20 + 40 * length (be_sections emitter) + block_start (payloads emitter) i" by auto
qed

lemma layout_reloc:
  assumes "coff_layout emitter data t" and "coff_file_size emitter < 2 ^ 32"
  shows "unat (ct_symbol_table t) = 20 + 40 * length (be_sections emitter) + length (concat (payloads emitter)) +
      10 * length (be_relocations emitter)"
    "\<forall>i < length (be_sections emitter). reloc_counts emitter ! i \<noteq> 0 \<longrightarrow>
       unat (ct_reloc_offsets t ! i) = 20 + 40 * length (be_sections emitter) + length (concat (payloads emitter)) +
         10 * block_start (grouped_relocations (be_relocations emitter) (length (be_sections emitter))) i"
proof -
  let ?n = "length (be_sections emitter)" and ?G = "grouped_relocations (be_relocations emitter) (length (be_sections emitter))"
  have sec: "\<forall>r \<in> set (be_relocations emitter). bre_section_index r < ?n" using assms(1) by (simp add: coff_layout_def)
  have len: "length (reloc_counts emitter) = ?n"
    using layout_counts(2) [OF assms(1), of 0] by (cases "?n = 0") (use sec in \<open>auto simp: section_reloc_counts_def\<close>)
  have "sum_list (map unat (reloc_counts emitter)) = block_start ?G ?n" using layout_counts_sum [OF assms(1), of ?n] len by simp
  also have "\<dots> = length (be_relocations emitter)"
    using block_start_length [of ?G] grouped_total [OF sec] by (simp add: grouped_relocations_def)
  finally have tot: "sum_list (map unat (reloc_counts emitter)) = length (be_relocations emitter)" .
  have r: "reloc_offsets (reloc_counts emitter) (ct_raw_end t) = (ct_reloc_offsets t, ct_symbol_table t)"
    using assms(1) by (simp add: coff_layout_def)
  have "unat (ct_raw_end t) + 10 * sum_list (map unat (reloc_counts emitter)) < 2 ^ 32"
    unfolding layout_raw(1) [OF assms] tot using assms(2) by (simp add: coff_file_size_def)
  from reloc_offsets_ok [OF r this] layout_raw(1) [OF assms] tot len layout_counts_sum [OF assms(1)]
  show "unat (ct_symbol_table t) = 20 + 40 * length (be_sections emitter) + length (concat (payloads emitter)) +
      10 * length (be_relocations emitter)"
    "\<forall>i < length (be_sections emitter). reloc_counts emitter ! i \<noteq> 0 \<longrightarrow>
       unat (ct_reloc_offsets t ! i) = 20 + 40 * length (be_sections emitter) + length (concat (payloads emitter)) +
         10 * block_start ?G i" by auto
qed

section \<open>Reading back: header and strings\<close>

lemma read_u16_end [simp]: "linker_read_u16 (bytes_u16 v) = v" and read_u32_end [simp]: "linker_read_u32 (bytes_u32 w) = w"
  using read_bytes_u16 [of v "[]"] read_bytes_u32 [of w "[]"] by simp_all

lemmas read_back [simp] = read_bytes_u16 read_bytes_u32

definition string_table :: "BinaryEmitter \<Rightarrow> coff_tables \<Rightarrow> bytes" where
  "string_table emitter t = bytes_u32 (ct_string_size t) @ concat (map long_name_bytes (coff_names emitter))"

text \<open>The object after the file header and the string table have been read.\<close>

definition header_object :: "BinaryEmitter \<Rightarrow> coff_tables \<Rightarrow> CoffObject" where
  "header_object emitter t = \<lparr>obj_machine = 0x8664, obj_section_count = of_nat (length (be_sections emitter)), obj_time_date_stamp = 0,
     obj_pointer_to_symbol_table = ct_symbol_table t,
     obj_symbol_count = of_nat (length (be_symbols emitter)) + of_nat (length (be_sections emitter) * 2),
     obj_size_of_optional_header = 0, obj_characteristics = 0, obj_sections = [], obj_symbols = [], obj_string_table = []\<rparr>"

definition table_object :: "BinaryEmitter \<Rightarrow> coff_tables \<Rightarrow> CoffObject" where
  "table_object emitter t = (header_object emitter t)\<lparr>obj_string_table := string_table emitter t\<rparr>"

lemma layout_total:
  assumes "coff_layout emitter data t"
  shows "unat (of_nat (length (be_symbols emitter)) + of_nat (length (be_sections emitter) * 2) :: u32) =
      length (be_symbols emitter) + 2 * length (be_sections emitter)"
    "unat (of_nat (length (be_sections emitter)) :: u16) = length (be_sections emitter)"
proof -
  have b: "length (be_symbols emitter) + length (be_sections emitter) * 2 < 2 ^ 32" "length (be_sections emitter) < 2 ^ 16"
    using assms by (auto simp: coff_layout_def)
  have "(of_nat (length (be_symbols emitter)) + of_nat (length (be_sections emitter) * 2) :: u32) =
      of_nat (length (be_symbols emitter) + length (be_sections emitter) * 2)" by simp
  then show "unat (of_nat (length (be_symbols emitter)) + of_nat (length (be_sections emitter) * 2) :: u32) =
      length (be_symbols emitter) + 2 * length (be_sections emitter)"
    using b(1) by (simp only: unat_of_nat) simp
  show "unat (of_nat (length (be_sections emitter)) :: u16) = length (be_sections emitter)"
    using b(2) by (simp add: unat_of_nat)
qed

lemma layout_string_size:
  assumes "coff_layout emitter data t" and "coff_file_size emitter < 2 ^ 32"
  shows "unat (ct_string_size t) = length (string_table emitter t)"
    "\<forall>i < length (coff_names emitter). length (coff_names emitter ! i) > 8 \<longrightarrow>
       unat ((ct_section_names t @ ct_symbol_names t) ! i) = 4 + block_start (map long_name_bytes (coff_names emitter)) i"
proof -
  have n: "name_offsets (coff_names emitter) 4 = (ct_section_names t @ ct_symbol_names t, ct_string_size t)"
    using assms(1) by (simp add: coff_layout_def)
  have "unat (4 :: u32) + length (concat (map long_name_bytes (coff_names emitter))) < 2 ^ 32"
    using assms(2) by (simp add: coff_file_size_def)
  from name_offsets_ok(2,3) [OF n this]
  show "unat (ct_string_size t) = length (string_table emitter t)"
    "\<forall>i < length (coff_names emitter). length (coff_names emitter ! i) > 8 \<longrightarrow>
       unat ((ct_section_names t @ ct_symbol_names t) ! i) = 4 + block_start (map long_name_bytes (coff_names emitter)) i"
    by (auto simp: string_table_def)
qed

lemma layout_split_table:
  assumes "coff_layout emitter data t" and "coff_file_size emitter < 2 ^ 32"
  shows "\<exists>pre. data = pre @ string_table emitter t \<and>
    length pre = unat (ct_symbol_table t) + (length (be_symbols emitter) + 2 * length (be_sections emitter)) * 18"
proof -
  have "data = (coff_header emitter (ct_symbol_table t) @ concat (ct_headers t) @ concat (payloads emitter) @ concat (ct_records t) @
       concat (ct_entries t) @ concat (section_symbols emitter (ct_section_names t))) @ string_table emitter t"
    using assms(1) by (simp add: coff_layout_def string_table_def)
  moreover have "length (coff_header emitter (ct_symbol_table t) @ concat (ct_headers t) @ concat (payloads emitter) @ concat (ct_records t) @
       concat (ct_entries t) @ concat (section_symbols emitter (ct_section_names t))) =
     unat (ct_symbol_table t) + (length (be_symbols emitter) + 2 * length (be_sections emitter)) * 18"
    by (simp only: length_append length_coff_header layout_lengths [OF assms(1)] layout_reloc(1) [OF assms]) simp
  ultimately show ?thesis by blast
qed

lemma parse_written_table:
  assumes "coff_layout emitter data t" and "coff_file_size emitter < 2 ^ 32"
  shows "coff_reader_parse_string_table (header_object emitter t) data = Inr (table_object emitter t)"
proof -
  obtain pre where pre: "data = pre @ string_table emitter t"
      "length pre = unat (ct_symbol_table t) + (length (be_symbols emitter) + 2 * length (be_sections emitter)) * 18"
    using layout_split_table [OF assms] by blast
  have small: "length data < 2 ^ 32" using layout_file_size [OF assms(1)] assms(2) by simp
  have off: "unat (of_nat (length pre) :: u32) = length pre" using small pre(1) by (simp add: unat_of_nat)
  note sz = layout_string_size(1) [OF assms]
  have four: "4 \<le> unat (ct_string_size t)" using sz by (simp add: string_table_def)
  then have "ct_string_size t \<noteq> 0" "\<not> ct_string_size t < 4" by (auto simp: word_less_nat_alt)
  moreover have "linker_read_u32 (take 4 (string_table emitter t)) = ct_string_size t"
    by (simp add: string_table_def)
  moreover have "unat (obj_pointer_to_symbol_table (header_object emitter t)) +
      unat (obj_symbol_count (header_object emitter t)) * COFF_SYMBOL_SIZE = length pre"
    by (simp only: header_object_def CoffObject.select_convs layout_total [OF assms(1)] pre(2) COFF_SYMBOL_SIZE_def)
  ultimately show ?thesis
    unfolding coff_reader_parse_string_table_def Let_def
    using off sz four by (auto simp: pre(1) table_object_def range_ok_iff read_bytes_ok simp del: coff_sizes)
qed

lemma table_lookup:
  assumes "coff_layout emitter data t" and "writable emitter"
    and "i < length (coff_names emitter)" and "length (coff_names emitter ! i) > 8"
  shows "coff_reader_string_from_table (table_object emitter t) ((ct_section_names t @ ct_symbol_names t) ! i) = Some (coff_names emitter ! i)"
proof -
  define N B where "N = coff_names emitter" and "B = map long_name_bytes N"
  have sz: "coff_file_size emitter < 2 ^ 32" using assms(2) by (simp add: writable_def)
  have "c_name (N ! i)" unfolding N_def using writable_names [OF assms(2)] assms(3) by (metis nth_mem)
  then have nul: "CHR 0x00 \<notin> set (N ! i)" by (simp add: c_name_def)
  have i: "i < length N" "length (N ! i) > 8" using assms(3,4) by (simp_all only: N_def)
  have "concat B = concat (take i B) @ B ! i @ concat (drop (Suc i) B)"
    using i(1) by (metis B_def concat.simps(2) concat_append id_take_nth_drop length_map)
  moreover have "B ! i = map char_byte (N ! i) @ [0]" using i by (simp add: B_def long_name_bytes_def)
  ultimately have tab: "string_table emitter t =
      (bytes_u32 (ct_string_size t) @ concat (take i B)) @ map char_byte (N ! i) @ 0 # concat (drop (Suc i) B)"
    unfolding string_table_def N_def [symmetric] B_def [symmetric] by simp
  have "length (bytes_u32 (ct_string_size t) @ concat (take i B)) = 4 + block_start B i"
    by (simp add: block_start_def length_concat)
  moreover have "unat ((ct_section_names t @ ct_symbol_names t) ! i) = 4 + block_start B i"
    using layout_string_size(2) [OF assms(1) sz] assms(3,4) unfolding B_def N_def by blast
  ultimately show ?thesis
    unfolding N_def [symmetric] by (intro string_from_table [OF _ tab nul]) (auto simp: table_object_def)
qed

section \<open>Reading back: names\<close>

lemma read_section_name:
  assumes "binary_emitter_write_section_name str off = Some field" and "c_name str" and "hd str \<noteq> CHR ''/''"
    and "length str > 8 \<Longrightarrow> coff_reader_string_from_table object off = Some str"
  shows "coff_reader_parse_section_name (field @ rest) object = Some str"
proof (cases "length str \<le> 8")
  case True
  have f: "field = name_field str" using assms(1) True by (simp add: binary_emitter_write_section_name_def)
  obtain c cs where str: "str = c # cs" using assms(2) by (cases str) (auto simp: c_name_def)
  then have "byte_char ((field @ rest) ! 0) \<noteq> CHR ''/''" using assms(3) by (simp add: f name_field_def)
  moreover have "take 8 (field @ rest) = field" using length_name_field [OF True] f by simp
  ultimately show ?thesis
    using dup_name_field [of str] True assms(2) by (simp add: coff_reader_parse_section_name_def f c_name_def)
next
  case False
  let ?d = "show_nat (unat off)"
  have f: "field = char_byte (CHR ''/'') # map char_byte ?d @ replicate (7 - length ?d) 0" "length ?d < 7"
    using assms(1) False by (auto simp: binary_emitter_write_section_name_def Let_def name_field_def split: if_splits)
  have "take 8 (field @ rest) = field" using length_section_name [OF assms(1)] by simp
  then have "section_name_offset (drop 1 (take 8 (field @ rest))) 0 = Some off"
    using section_name_offset_digits [of "unat off" "7 - length ?d" 0] f(1) by simp
  moreover have "byte_char ((field @ rest) ! 0) = CHR ''/''" by (simp add: f(1))
  ultimately show ?thesis
    using assms(4) False by (simp add: coff_reader_parse_section_name_def del: One_nat_def)
qed

lemma read_u32_head_zero: "linker_read_u32 bs = 0 \<Longrightarrow> bs ! 0 = 0"
proof -
  assume z: "linker_read_u32 bs = 0"
  have "bit (linker_read_u32 bs) n \<longleftrightarrow> bit (bs ! 0) n" if "n < 8" for n using that by (simp add: bit_read_u32)
  with z show "bs ! 0 = 0" by (intro bit_word_eqI) simp
qed

lemma read_symbol_name:
  assumes "c_name str" and "length str > 8 \<Longrightarrow> coff_reader_string_from_table object off = Some str \<and> off \<noteq> 0"
  shows "coff_reader_parse_symbol_name (binary_emitter_write_symbol_name str off @ rest) object = Some str"
proof (cases "length str \<le> 8")
  case True
  obtain c cs where str: "str = c # cs" "c \<noteq> CHR 0x00" using assms(1) by (cases str) (auto simp: c_name_def)
  have "(name_field str @ rest) ! 0 = char_byte c" by (simp add: name_field_def str)
  then have "linker_read_u32 (name_field str @ rest) \<noteq> 0" using read_u32_head_zero str(2) by (metis char_byte_zero)
  then show ?thesis
    using dup_name_field [of str] True assms(1) length_name_field [OF True]
    by (simp add: coff_reader_parse_symbol_name_def binary_emitter_write_symbol_name_def Let_def c_name_def)
next
  case False
  then show ?thesis
    using assms(2) by (simp add: coff_reader_parse_symbol_name_def binary_emitter_write_symbol_name_def Let_def)
qed

section \<open>Reading back: sections\<close>

definition relocation_matches :: "BinaryEmitter \<Rightarrow> BinaryRelocation \<Rightarrow> CoffRelocation \<Rightarrow> bool" where
  "relocation_matches emitter r rel \<longleftrightarrow> rel_virtual_address rel = of_nat (bre_offset r) \<and>
     rel_type rel = binary_emitter_map_relocation_kind (bre_kind r) \<and>
     (\<exists>j < length (be_symbols emitter). bsy_name (be_symbols emitter ! j) = bre_symbol_name r \<and> rel_symbol_table_index rel = of_nat j)"

definition section_matches :: "BinaryEmitter \<Rightarrow> nat \<Rightarrow> CoffSection \<Rightarrow> bool" where
  "section_matches emitter i sec \<longleftrightarrow> (let s = be_sections emitter ! i in
     sec_name sec = bse_name s \<and> sec_kind sec = coff_section_kind_from_name (bse_name s) \<and> sec_raw_data sec = section_payload s \<and>
     sec_characteristics sec = (if bse_characteristics s = 0 then binary_emitter_default_section_characteristics (bse_kind s)
       else bse_characteristics s) \<and>
     list_all2 (relocation_matches emitter) (filter (\<lambda>r. bre_section_index r = i) (be_relocations emitter)) (sec_relocations sec))"

lemma read_relocation:
  assumes "emitter_ok emitter" and "relocation_record emitter r = Inr bs"
  shows "relocation_matches emitter r \<lparr>rel_virtual_address = linker_read_u32 bs, rel_symbol_table_index = linker_read_u32 (drop 4 bs),
    rel_type = linker_read_u16 (drop 8 bs)\<rparr>"
  using assms(2) unfolding relocation_record_def find_symbol_index_scan [OF assms(1)]
  by (auto simp: relocation_matches_def split: option.splits dest!: find_Some_mem)

lemma written_relocations:
  assumes "coff_layout emitter data t" and "writable emitter" and "i < length (be_sections emitter)"
    and sec: "sec_number_of_relocations sec = ucast (reloc_counts emitter ! i)" "sec_pointer_to_relocations sec = ct_reloc_offsets t ! i"
  shows "\<exists>rels. section_relocations data sec = Inr rels \<and>
    list_all2 (relocation_matches emitter) (filter (\<lambda>r. bre_section_index r = i) (be_relocations emitter)) rels"
proof -
  let ?n = "length (be_sections emitter)" and ?R = "be_relocations emitter"
  let ?G = "grouped_relocations ?R ?n" and ?f = "filter (\<lambda>r. bre_section_index r = i) (be_relocations emitter)"
  have sz: "coff_file_size emitter < 2 ^ 32" and ok: "emitter_ok emitter" using assms(2) by (auto simp: writable_def)
  note c = layout_counts [OF assms(1,3)]
  define base where "base = coff_header emitter (ct_symbol_table t) @ concat (ct_headers t) @ concat (payloads emitter)"
  obtain post where data: "data = base @ concat (ct_records t) @ post"
    using assms(1) by (auto simp: coff_layout_def base_def)
  have bl: "length base = 20 + 40 * ?n + length (concat (payloads emitter))"
    by (simp only: base_def length_append length_coff_header layout_lengths [OF assms(1)])
  have G: "?G ! i = section_group ?R i (length ?R)" "i < length ?G" using assms(3) by (simp_all add: grouped_relocations_def)
  have sR: "\<forall>r \<in> set ?R. bre_section_index r < ?n" using assms(1) by (simp add: coff_layout_def)
  show ?thesis
  proof (cases "?f = []")
    case True
    then have "unat (sec_number_of_relocations sec) = 0" using sec(1) c(1,3) by simp
    then show ?thesis using True by (simp add: section_relocations_def)
  next
    case False
    then have nz: "reloc_counts emitter ! i \<noteq> 0" using c(1) by auto
    have ptr: "unat (sec_pointer_to_relocations sec) = length base + 10 * block_start ?G i"
      using layout_reloc(2) [OF assms(1) sz] assms(3) nz bl by (simp add: sec(2))
    have cnt: "unat (sec_number_of_relocations sec) = length ?f" using sec(1) c(1,3) by simp
    have rec: "parse_relocation data (sec_pointer_to_relocations sec) k = Inr rel \<and> relocation_matches emitter (?f ! k) rel"
      if k: "k < length ?f" and rel: "rel = (let bs = ct_records t ! (block_start ?G i + k) in
        \<lparr>rel_virtual_address = linker_read_u32 bs, rel_symbol_table_index = linker_read_u32 (drop 4 bs), rel_type = linker_read_u16 (drop 8 bs)\<rparr>)"
      for k rel
    proof -
      have kG: "k < length (?G ! i)" using k by (simp add: G(1) group_length)
      let ?p = "block_start ?G i + k"
      have p: "?p < length (ct_records t)"
        using block_position_less [OF G(2) kG] grouped_total [OF sR] layout_lengths(6) [OF assms(1)] by simp
      have "block_start (ct_records t) ?p = ?p * 10" using layout_records(2) [OF assms(1)] p by (intro block_start_uniform) auto
      moreover have l10: "length (ct_records t ! ?p) = 10" using layout_records(2) [OF assms(1)] p by simp
      ultimately have "read_bytes data (length base + ?p * 10) 10 = Inr (ct_records t ! ?p)" using block_read [OF data p] by simp
      moreover have "length base + ?p * 10 = unat (sec_pointer_to_relocations sec) + k * 10" by (simp add: ptr algebra_simps)
      ultimately have rb: "read_bytes data (unat (sec_pointer_to_relocations sec) + k * 10) 10 = Inr (ct_records t ! ?p)" by (simp only:)
      have 1: "parse_relocation data (sec_pointer_to_relocations sec) k = Inr rel" by (simp add: parse_relocation_def rel Let_def rb)
      have "relocation_record emitter (?R ! (concat ?G ! ?p)) = Inr (ct_records t ! ?p)"
        using assms(1) p by (simp add: coff_layout_def)
      moreover have "?R ! (concat ?G ! ?p) = ?f ! k"
      proof -
        have "concat ?G ! ?p = ?G ! i ! k" by (rule concat_block [OF G(2) kG])
        then show ?thesis using group_map [of ?R i] kG by (metis G(1) nth_map)
      qed
      ultimately have "relocation_record emitter (?f ! k) = Inr (ct_records t ! ?p)" by simp
      from 1 read_relocation [OF ok this] rel show ?thesis by (simp add: Let_def)
    qed
    define rels where "rels = map (\<lambda>k. let bs = ct_records t ! (block_start ?G i + k) in
        \<lparr>rel_virtual_address = linker_read_u32 bs, rel_symbol_table_index = linker_read_u32 (drop 4 bs), rel_type = linker_read_u16 (drop 8 bs)\<rparr>)
        [0 ..< length ?f]"
    have "map_linked (parse_relocation data (sec_pointer_to_relocations sec)) [0 ..< length ?f] = Inr rels"
      using rec by (simp add: map_linked_Inr rels_def)
    moreover have "block_start ?G i + length ?f \<le> length ?R"
      using block_start_mono [of "Suc i" "length ?G" ?G] G grouped_total [OF sR] by (simp add: block_start_Suc block_start_length group_length)
    then have "unat (sec_pointer_to_relocations sec) + length ?f * 10 \<le> length data"
      using ptr layout_lengths(2) [OF assms(1)] by (simp add: data)
    ultimately have "section_relocations data sec = Inr rels"
      using False by (simp add: section_relocations_def Let_def cnt range_ok_iff)
    moreover have "list_all2 (relocation_matches emitter) ?f rels" using rec by (simp add: list_all2_conv_all_nth rels_def)
    ultimately show ?thesis by blast
  qed
qed

lemma written_raw_data:
  assumes "coff_layout emitter data t" and "writable emitter" and "i < length (be_sections emitter)"
    and sec: "sec_size_of_raw_data sec = of_nat (length (section_payload (be_sections emitter ! i)))"
      "sec_pointer_to_raw_data sec = ct_raw_offsets t ! i"
  shows "section_raw_data data sec = Inr (section_payload (be_sections emitter ! i))"
proof -
  let ?p = "section_payload (be_sections emitter ! i)"
  have sz: "coff_file_size emitter < 2 ^ 32" using assms(2) by (auto simp: writable_def)
  define base where "base = coff_header emitter (ct_symbol_table t) @ concat (ct_headers t)"
  obtain post where data: "data = base @ concat (payloads emitter) @ post"
    using assms(1) by (auto simp: coff_layout_def base_def)
  have bl: "length base = 20 + 40 * length (be_sections emitter)"
    by (simp only: base_def length_append length_coff_header layout_lengths [OF assms(1)])
  have i: "i < length (payloads emitter)" "payloads emitter ! i = ?p" using assms(3) by simp_all
  note rd = block_read [OF data i(1), unfolded i(2)]
  then have fits: "length base + block_start (payloads emitter) i + length ?p \<le> length data" by simp
  have "length ?p < 2 ^ 32" using fits layout_file_size [OF assms(1)] sz by simp
  then have u: "unat (sec_size_of_raw_data sec) = length ?p" by (simp add: sec(1) unat_of_nat)
  show ?thesis
  proof (cases "?p = []")
    case True
    then show ?thesis using sec(1) by (simp add: section_raw_data_def)
  next
    case False
    have ptr: "unat (sec_pointer_to_raw_data sec) = length base + block_start (payloads emitter) i"
      using layout_raw(2) [OF assms(1) sz] assms(3) i(2) False bl sec(2) by simp
    have "sec_size_of_raw_data sec > 0" using u False by (metis length_greater_0_conv unat_gt_0 word_neq_0_conv)
    then show ?thesis using rd fits by (simp add: section_raw_data_def range_ok_iff ptr u)
  qed
qed

lemma payload_size_field:
  "(if bse_kind s = BINARY_SECTION_BSS then 0 else of_nat (length (bse_data s)) :: u32) = of_nat (length (section_payload s))"
  by (auto simp: section_payload_def)

lemma parse_written_section:
  assumes "coff_layout emitter data t" and "writable emitter" and "i < length (be_sections emitter)"
  shows "\<exists>sec. parse_section (table_object emitter t) data i = Inr sec \<and> section_matches emitter i sec"
proof -
  let ?s = "be_sections emitter ! i" and ?o = "table_object emitter t" and ?h = "ct_headers t ! i"
  define eff where "eff = (if bse_characteristics ?s = 0 then binary_emitter_default_section_characteristics (bse_kind ?s)
    else bse_characteristics ?s)"
  have rec: "section_record ?s (ct_section_names t ! i) (ct_raw_offsets t ! i) (ct_reloc_offsets t ! i) (reloc_counts emitter ! i) = Inr ?h"
    and sn: "length (ct_section_names t) = length (be_sections emitter)"
    using assms(1,3) by (simp_all add: coff_layout_def)
  obtain field where f: "binary_emitter_write_section_name (bse_name ?s) (ct_section_names t ! i) = Some field"
    and h: "?h = field @ bytes_u32 0 @ bytes_u32 0 @ bytes_u32 (of_nat (length (section_payload ?s))) @
      bytes_u32 (ct_raw_offsets t ! i) @ bytes_u32 (ct_reloc_offsets t ! i) @ bytes_u32 0 @
      bytes_u16 (ucast (reloc_counts emitter ! i)) @ bytes_u16 0 @ bytes_u32 eff"
    using rec unfolding section_record_def payload_size_field eff_def Let_def by (auto split: option.splits)
  have hi: "i < length (ct_headers t)" using assms(3) layout_lengths(5) [OF assms(1)] by simp
  have "block_start (ct_headers t) i = i * 40" using layout_records(1) [OF assms(1)] hi by (intro block_start_uniform) auto
  moreover have "length ?h = 40" using layout_records(1) [OF assms(1)] hi by simp
  moreover obtain post where data: "data = coff_header emitter (ct_symbol_table t) @ concat (ct_headers t) @ post"
    using assms(1) by (auto simp: coff_layout_def)
  ultimately have rd: "read_bytes data (20 + i * 40) 40 = Inr ?h"
    using block_read [OF data hi] by (simp only: length_coff_header)
  have name: "coff_reader_parse_section_name ?h ?o = Some (bse_name ?s)"
    unfolding h
  proof (rule read_section_name [OF f])
    show "c_name (bse_name ?s)" "hd (bse_name ?s) \<noteq> CHR ''/''" using assms(2,3) by (auto simp: writable_def)
    have nm: "coff_names emitter ! i = bse_name ?s" "i < length (coff_names emitter)" using assms(3) by (simp_all add: nth_append)
    have off: "(ct_section_names t @ ct_symbol_names t) ! i = ct_section_names t ! i" using assms(3) sn by (simp add: nth_append)
    show "coff_reader_string_from_table ?o (ct_section_names t ! i) = Some (bse_name ?s)" if "length (bse_name ?s) > 8"
      using table_lookup [OF assms(1,2) nm(2)] that unfolding nm(1) off by blast
  qed
  define sec where "sec = section_header (bse_name ?s) ?h"
  have lf: "length field = 8" by (rule length_section_name [OF f])
  have fields: "sec_size_of_raw_data sec = of_nat (length (section_payload ?s))" "sec_pointer_to_raw_data sec = ct_raw_offsets t ! i"
      "sec_pointer_to_relocations sec = ct_reloc_offsets t ! i" "sec_number_of_relocations sec = ucast (reloc_counts emitter ! i)"
      "sec_characteristics sec = eff"
    by (simp_all add: sec_def section_header_def h lf)
  obtain rels where r: "section_relocations data sec = Inr rels"
      "list_all2 (relocation_matches emitter) (filter (\<lambda>r. bre_section_index r = i) (be_relocations emitter)) rels"
    using written_relocations [OF assms(1-3) fields(4,3)] by blast
  have "parse_section ?o data i = Inr (sec\<lparr>sec_raw_data := section_payload ?s, sec_relocations := rels\<rparr>)"
    by (simp add: parse_section_def rd name Let_def sec_def [symmetric] written_raw_data [OF assms(1-3) fields(1,2)] r(1))
  moreover have "section_matches emitter i (sec\<lparr>sec_raw_data := section_payload ?s, sec_relocations := rels\<rparr>)"
    using r(2) fields(5) by (simp add: section_matches_def Let_def eff_def sec_def section_header_def)
  ultimately show ?thesis by blast
qed

section \<open>Reading back: symbols\<close>

definition symbol_matches :: "BinarySymbol \<Rightarrow> CoffSymbol \<Rightarrow> bool" where
  "symbol_matches y csym \<longleftrightarrow> cs_name csym = Some (bsy_name y) \<and> cs_value csym = of_nat (bsy_value y) \<and>
     cs_section_number csym = (case bsy_section_index y of None \<Rightarrow> 0 | Some i \<Rightarrow> of_nat (i + 1)) \<and>
     cs_storage_class csym = (if bsy_binding y = BINARY_SYMBOL_LOCAL then 3 else 2) \<and>
     \<not> cs_is_auxiliary csym \<and> \<not> cs_has_auxiliary_record csym"

definition section_symbol_matches :: "BinarySection \<Rightarrow> nat \<Rightarrow> CoffSymbol \<Rightarrow> bool" where
  "section_symbol_matches s i csym \<longleftrightarrow> cs_name csym = Some (bse_name s) \<and> cs_value csym = 0 \<and>
     cs_section_number csym = of_nat (i + 1) \<and> cs_storage_class csym = 3 \<and> \<not> cs_is_auxiliary csym \<and> cs_has_auxiliary_record csym \<and>
     cs_aux_section_length csym = of_nat (max (bse_virtual_size s) (length (bse_data s)))"

lemma table_object_counts:
  assumes "coff_layout emitter data t"
  shows "unat (obj_symbol_count (table_object emitter t)) = length (be_symbols emitter) + 2 * length (be_sections emitter)"
    "obj_pointer_to_symbol_table (table_object emitter t) = ct_symbol_table t"
    "unat (obj_section_count (table_object emitter t)) = length (be_sections emitter)"
  by (simp_all only: table_object_def header_object_def CoffObject.select_convs CoffObject.update_convs layout_total [OF assms])

lemma name_offset_nonzero:
  assumes "coff_layout emitter data t" and "writable emitter"
    and "i < length (coff_names emitter)" and "length (coff_names emitter ! i) > 8"
  shows "(ct_section_names t @ ct_symbol_names t) ! i \<noteq> 0"
proof -
  have "unat ((ct_section_names t @ ct_symbol_names t) ! i) \<noteq> 0"
    using layout_string_size(2) [OF assms(1)] assms(2-4) by (simp add: writable_def)
  then show ?thesis by auto
qed

lemma parse_written_symbol:
  assumes "coff_layout emitter data t" and "writable emitter" and "i < length (be_symbols emitter)"
  shows "\<exists>csym. parse_symbol (table_object emitter t) data i = Inr csym \<and> symbol_matches (be_symbols emitter ! i) csym \<and>
    cs_auxiliary_count csym = 0"
proof -
  let ?y = "be_symbols emitter ! i" and ?o = "table_object emitter t" and ?e = "ct_entries t ! i" and ?n = "length (be_sections emitter)"
  have sz: "coff_file_size emitter < 2 ^ 32" using assms(2) by (auto simp: writable_def)
  have rec: "symbol_record (be_sections emitter) ?y (ct_symbol_names t ! i) = Inr ?e" and sn: "length (ct_section_names t) = ?n"
    using assms(1,3) by (simp_all add: coff_layout_def)
  obtain ty where e: "?e = binary_emitter_write_symbol_name (bsy_name ?y) (ct_symbol_names t ! i) @ bytes_u32 (of_nat (bsy_value ?y)) @
      bytes_u16 (case bsy_section_index ?y of None \<Rightarrow> 0 | Some k \<Rightarrow> of_nat (k + 1)) @ bytes_u16 ty @
      [if bsy_binding ?y = BINARY_SYMBOL_LOCAL then 3 else 2, 0]"
    using rec [symmetric] by (cases "bsy_section_index ?y") (auto simp: symbol_record_def Let_def reject_def split: if_splits)
  define base where "base = coff_header emitter (ct_symbol_table t) @ concat (ct_headers t) @ concat (payloads emitter) @ concat (ct_records t)"
  obtain post where data: "data = base @ concat (ct_entries t) @ post" using assms(1) by (auto simp: coff_layout_def base_def)
  have bl: "length base = unat (ct_symbol_table t)"
    by (simp only: base_def length_append length_coff_header layout_lengths [OF assms(1)] layout_reloc(1) [OF assms(1) sz]) 
  have hi: "i < length (ct_entries t)" using assms(3) layout_lengths(7) [OF assms(1)] by simp
  have "block_start (ct_entries t) i = i * 18" using layout_records(3) [OF assms(1)] hi by (intro block_start_uniform) auto
  moreover have "length ?e = 18" using layout_records(3) [OF assms(1)] hi by simp
  ultimately have rd: "read_bytes data (unat (ct_symbol_table t) + i * 18) 18 = Inr ?e" using block_read [OF data hi] by (simp only: bl)
  have ni: "coff_names emitter ! (?n + i) = bsy_name ?y" "?n + i < length (coff_names emitter)"
    "(ct_section_names t @ ct_symbol_names t) ! (?n + i) = ct_symbol_names t ! i"
    using assms(3) sn by (simp_all add: nth_append)
  have "c_name (bsy_name ?y)" using writable_names [OF assms(2), of "bsy_name ?y"] assms(3) by simp
  moreover have "coff_reader_string_from_table ?o (ct_symbol_names t ! i) = Some (bsy_name ?y) \<and> ct_symbol_names t ! i \<noteq> 0"
    if "length (bsy_name ?y) > 8"
    using table_lookup [OF assms(1,2) ni(2)] name_offset_nonzero [OF assms(1,2) ni(2)] that unfolding ni(1,3) by blast
  ultimately have name: "coff_reader_parse_symbol_name ?e ?o = Some (bsy_name ?y)" unfolding e by (rule read_symbol_name)
  have l8: "length (binary_emitter_write_symbol_name (bsy_name ?y) (ct_symbol_names t ! i)) = 8" by (rule length_symbol_name)
  have fields: "linker_read_u32 (drop 8 ?e) = of_nat (bsy_value ?y)"
    "linker_read_u16 (drop 12 ?e) = (case bsy_section_index ?y of None \<Rightarrow> 0 | Some k \<Rightarrow> of_nat (k + 1))"
    "?e ! 16 = (if bsy_binding ?y = BINARY_SYMBOL_LOCAL then 3 else 2)" "?e ! 17 = 0"
    by (simp_all add: e l8 nth_append)
  define csym where "csym = (fresh_coff_symbol i)\<lparr>cs_name := Some (bsy_name ?y), cs_value := linker_read_u32 (drop 8 ?e),
    cs_section_number := linker_read_u16 (drop 12 ?e), cs_type := linker_read_u16 (drop 14 ?e), cs_storage_class := ?e ! 16,
    cs_auxiliary_count := ?e ! 17\<rparr>"
  have "cs_auxiliary_count csym = 0" by (simp add: csym_def fields)
  moreover have "parse_symbol ?o data i = Inr csym"
    using fields(4) by (simp add: parse_symbol_def table_object_counts(2) [OF assms(1)] rd name Let_def csym_def)
  moreover have "symbol_matches ?y csym" using fields by (simp add: symbol_matches_def csym_def fresh_coff_symbol_def)
  ultimately show ?thesis by blast
qed

lemma parse_symbol_with_aux:
  assumes "read_bytes data (unat (obj_pointer_to_symbol_table object) + k * 18) 18 = Inr e"
    and "read_bytes data (unat (obj_pointer_to_symbol_table object) + k * 18 + 18) 8 = Inr aux"
    and "coff_reader_parse_symbol_name e object = Some str" and "e ! 17 = 1" and "k + 1 < unat (obj_symbol_count object)"
  shows "\<exists>csym. parse_symbol object data k = Inr csym \<and> cs_name csym = Some str \<and> cs_value csym = linker_read_u32 (drop 8 e) \<and>
      cs_section_number csym = linker_read_u16 (drop 12 e) \<and> cs_storage_class csym = e ! 16 \<and> cs_auxiliary_count csym = 1 \<and>
      \<not> cs_is_auxiliary csym \<and> cs_has_auxiliary_record csym \<and> cs_aux_section_length csym = linker_read_u32 aux"
proof -
  have "\<not> unat (obj_symbol_count object) - k - 1 < unat (1 :: u8)" using assms(5) by simp
  then show ?thesis
    unfolding parse_symbol_def Let_def coff_sizes assms(1,2) and_then_simps assms(3)
    using assms(4) by (simp add: fresh_coff_symbol_def)
qed

lemma parse_written_section_symbol:
  assumes "coff_layout emitter data t" and "writable emitter" and "i < length (be_sections emitter)"
  shows "\<exists>csym. parse_symbol (table_object emitter t) data (length (be_symbols emitter) + 2 * i) = Inr csym \<and>
    section_symbol_matches (be_sections emitter ! i) i csym \<and> cs_auxiliary_count csym = 1"
proof -
  let ?s = "be_sections emitter ! i" and ?o = "table_object emitter t" and ?n = "length (be_sections emitter)"
  let ?Q = "section_symbols emitter (ct_section_names t)" and ?k = "length (be_symbols emitter) + 2 * i"
  let ?len = "of_nat (if bse_virtual_size ?s > length (bse_data ?s) then bse_virtual_size ?s else length (bse_data ?s)) :: u32"
  have sz: "coff_file_size emitter < 2 ^ 32" using assms(2) by (auto simp: writable_def)
  have sn: "length (ct_section_names t) = ?n" using assms(1) by (simp add: coff_layout_def)
  define e aux where "e = binary_emitter_write_symbol_name (bse_name ?s) (ct_section_names t ! i) @ bytes_u32 0 @
      bytes_u16 (of_nat (i + 1)) @ bytes_u16 0 @ [3, 1]"
    and "aux = bytes_u32 ?len @ bytes_u16 (ucast (reloc_counts emitter ! i)) @ bytes_u16 0 @ bytes_u32 0 @ bytes_u16 0 @ replicate 4 0"
  have l8: "length (binary_emitter_write_symbol_name (bse_name ?s) (ct_section_names t ! i)) = 8" by (rule length_symbol_name)
  have q: "?Q ! i = e @ aux" using assms(3) by (simp add: section_symbols_def section_symbol_record_def e_def aux_def)
  define base where "base = coff_header emitter (ct_symbol_table t) @ concat (ct_headers t) @ concat (payloads emitter) @
    concat (ct_records t) @ concat (ct_entries t)"
  obtain post where data: "data = base @ concat ?Q @ post" using assms(1) by (auto simp: coff_layout_def base_def)
  have bl: "length base = unat (ct_symbol_table t) + length (be_symbols emitter) * 18"
    by (simp only: base_def length_append length_coff_header layout_lengths [OF assms(1)] layout_reloc(1) [OF assms(1) sz])
  have hi: "i < length ?Q" using assms(3) by (simp add: section_symbols_def)
  have "block_start ?Q i = i * 36" using layout_records(4) [OF assms(1)] hi by (intro block_start_uniform) auto
  then have at: "length base + block_start ?Q i = unat (ct_symbol_table t) + ?k * 18" by (simp add: bl)
  have le: "length e = 18" "length aux = 18" by (simp_all add: e_def aux_def l8)
  have "read_bytes data (length base + block_start ?Q i) 36 = Inr (e @ aux)"
    using block_read [OF data hi] by (simp add: q le)
  then have room: "unat (ct_symbol_table t) + ?k * 18 + 36 \<le> length data"
    and bytes: "take 36 (drop (unat (ct_symbol_table t) + ?k * 18) data) = e @ aux" by (simp_all add: at)
  have "take 18 (drop (unat (ct_symbol_table t) + ?k * 18) data) = take 18 (e @ aux)"
    unfolding bytes [symmetric] by (simp add: min_def)
  moreover have "take 8 (drop (unat (ct_symbol_table t) + ?k * 18 + 18) data) = take 8 (drop 18 (e @ aux))"
    unfolding bytes [symmetric] by (simp add: drop_take min_def add.commute)
  ultimately have rd: "read_bytes data (unat (ct_symbol_table t) + ?k * 18) 18 = Inr e"
      "read_bytes data (unat (ct_symbol_table t) + ?k * 18 + 18) 8 = Inr (take 8 aux)"
    using room by (simp_all add: read_bytes_def le)
  have ni: "coff_names emitter ! i = bse_name ?s" "i < length (coff_names emitter)"
    "(ct_section_names t @ ct_symbol_names t) ! i = ct_section_names t ! i"
    using assms(3) sn by (simp_all add: nth_append)
  have "c_name (bse_name ?s)" using writable_names [OF assms(2), of "bse_name ?s"] assms(3) by simp
  moreover have "coff_reader_string_from_table ?o (ct_section_names t ! i) = Some (bse_name ?s) \<and> ct_section_names t ! i \<noteq> 0"
    if "length (bse_name ?s) > 8"
    using table_lookup [OF assms(1,2) ni(2)] name_offset_nonzero [OF assms(1,2) ni(2)] that unfolding ni(1,3) by blast
  ultimately have name: "coff_reader_parse_symbol_name e ?o = Some (bse_name ?s)" unfolding e_def by (rule read_symbol_name)
  have fields: "linker_read_u32 (drop 8 e) = 0" "linker_read_u16 (drop 12 e) = of_nat (i + 1)" "e ! 16 = 3" "e ! 17 = 1"
    "linker_read_u32 (take 8 aux) = ?len"
    by (simp_all add: e_def aux_def l8 nth_append)
  have cnt: "?k + 1 < unat (obj_symbol_count ?o)" using assms(3) by (simp add: table_object_counts(1) [OF assms(1)])
  note p = parse_symbol_with_aux [of data ?o ?k e "take 8 aux", unfolded table_object_counts(2) [OF assms(1)], OF rd name fields(4) cnt]
  then show ?thesis unfolding fields by (auto simp: section_symbol_matches_def max_def)
qed

lemma parse_symbol_list_sections:
  "parse_symbol_list (object\<lparr>obj_sections := secs\<rparr>) data i n a p = parse_symbol_list object data i n a p"
proof -
  have "coff_reader_string_from_table (object\<lparr>obj_sections := secs\<rparr>) off = coff_reader_string_from_table object off" for off
    by (simp add: coff_reader_string_from_table_def Let_def)
  then have "coff_reader_parse_symbol_name e (object\<lparr>obj_sections := secs\<rparr>) = coff_reader_parse_symbol_name e object" for e
    by (simp add: coff_reader_parse_symbol_name_def Let_def)
  then have "parse_symbol (object\<lparr>obj_sections := secs\<rparr>) data i = parse_symbol object data i" for i
    by (simp add: parse_symbol_def Let_def cong: if_cong)
  then show ?thesis by (induction n arbitrary: i a p) simp_all
qed

lemma parse_plain_symbols:
  assumes "\<forall>k < m. parse_symbol object data (i + k) = Inr (y k) \<and> cs_auxiliary_count (y k) = 0"
  shows "parse_symbol_list object data i (m + n) 0 p =
    and_then (parse_symbol_list object data (i + m) n 0 p) (\<lambda>rest. Inr (map y [0 ..< m] @ rest))"
  using assms
proof (induction m arbitrary: i y)
  case (Suc m)
  have hd: "parse_symbol object data i = Inr (y 0)" "cs_auxiliary_count (y 0) = 0" using Suc.prems by force+
  have tl: "\<forall>k < m. parse_symbol object data (i + 1 + k) = Inr (y (Suc k)) \<and> cs_auxiliary_count (y (Suc k)) = 0"
    using Suc.prems by (auto simp: All_less_Suc2)
  have u: "map y [0 ..< Suc m] = y 0 # map (\<lambda>k. y (Suc k)) [0 ..< m]" by (simp add: upt_conv_Cons map_Suc_upt [symmetric] del: upt_Suc)
  show ?case
    using Suc.IH [OF tl] hd
    by (cases "parse_symbol_list object data (i + Suc m) n 0 p") (simp_all add: Let_def u del: upt_Suc)
qed (simp add: and_then_def split: sum.split)

lemma parse_paired_symbols:
  assumes "\<forall>k < n. parse_symbol object data (i + 2 * k) = Inr (q k) \<and> cs_auxiliary_count (q k) = 1"
  shows "\<exists>ss. parse_symbol_list object data i (2 * n) 0 p = Inr ss \<and> length ss = 2 * n \<and>
    (\<forall>k < n. ss ! (2 * k) = q k \<and> cs_is_auxiliary (ss ! (2 * k + 1)))"
  using assms
proof (induction n arbitrary: i q p)
  case (Suc n)
  have hd: "parse_symbol object data i = Inr (q 0)" "cs_auxiliary_count (q 0) = 1" using Suc.prems by force+
  have tl: "\<forall>k < n. parse_symbol object data (i + 2 + 2 * k) = Inr (q (Suc k)) \<and> cs_auxiliary_count (q (Suc k)) = 1"
    using Suc.prems by (auto simp: All_less_Suc2)
  obtain ss where ss: "parse_symbol_list object data (i + 2) (2 * n) 0 i = Inr ss" "length ss = 2 * n"
      "\<forall>k < n. ss ! (2 * k) = q (Suc k) \<and> cs_is_auxiliary (ss ! (2 * k + 1))"
    using Suc.IH [OF tl, of i] by blast
  have "2 * Suc n = Suc (Suc (2 * n))" by simp
  then show ?case
    using hd ss by (auto simp: Let_def less_Suc_eq_0_disj numeral_2_eq_2)
qed simp

lemma parse_written_symbols:
  assumes "coff_layout emitter data t" and "writable emitter"
  shows "\<exists>ss. parse_symbol_list (table_object emitter t) data 0 (length (be_symbols emitter) + 2 * length (be_sections emitter)) 0 0 = Inr ss \<and>
    length ss = length (be_symbols emitter) + 2 * length (be_sections emitter) \<and>
    (\<forall>i < length (be_symbols emitter). symbol_matches (be_symbols emitter ! i) (ss ! i)) \<and>
    (\<forall>i < length (be_sections emitter). section_symbol_matches (be_sections emitter ! i) i (ss ! (length (be_symbols emitter) + 2 * i)) \<and>
       cs_is_auxiliary (ss ! (length (be_symbols emitter) + 2 * i + 1)))"
proof -
  let ?m = "length (be_symbols emitter)" and ?n = "length (be_sections emitter)" and ?o = "table_object emitter t"
  obtain y where y: "\<forall>i < ?m. parse_symbol ?o data i = Inr (y i) \<and> symbol_matches (be_symbols emitter ! i) (y i) \<and> cs_auxiliary_count (y i) = 0"
    using parse_written_symbol [OF assms] by metis
  obtain q where q: "\<forall>i < ?n. parse_symbol ?o data (?m + 2 * i) = Inr (q i) \<and> section_symbol_matches (be_sections emitter ! i) i (q i) \<and>
      cs_auxiliary_count (q i) = 1"
    using parse_written_section_symbol [OF assms] by metis
  obtain ss where ss: "parse_symbol_list ?o data ?m (2 * ?n) 0 0 = Inr ss" "length ss = 2 * ?n"
      "\<forall>k < ?n. ss ! (2 * k) = q k \<and> cs_is_auxiliary (ss ! (2 * k + 1))"
    using parse_paired_symbols [of ?n ?o data ?m q 0] q by auto
  have "parse_symbol_list ?o data 0 (?m + 2 * ?n) 0 0 = Inr (map y [0 ..< ?m] @ ss)"
    using parse_plain_symbols [of ?m ?o data 0 y "2 * ?n" 0] y ss(1) by simp
  then show ?thesis
    using y q ss(2,3) by (intro exI [of _ "map y [0 ..< ?m] @ ss"]) (simp add: nth_append)
qed

text \<open>(C2) Object files survive the trip to the linker. When the object builder holds well-formed names and its file is
  smaller than 4 GiB, whatever the writer writes is accepted by the reader, and the object read back has
  the same sections in the same order, each with its name, characteristics, bytes and relocations (the latter
  referring to the symbols they were made for), the same symbols at the same positions, and after them
  the section symbols with the section sizes.\<close>

theorem coff_write_read_roundtrip:
  assumes "binary_emitter_write_coff_object_file emitter = Inr data" and "writable emitter"
  shows "\<exists>object. coff_object_parse data = Inr object \<and>
    length (obj_sections object) = length (be_sections emitter) \<and>
    (\<forall>i < length (be_sections emitter). section_matches emitter i (obj_sections object ! i)) \<and>
    length (obj_symbols object) = length (be_symbols emitter) + 2 * length (be_sections emitter) \<and>
    (\<forall>i < length (be_symbols emitter). symbol_matches (be_symbols emitter ! i) (obj_symbols object ! i)) \<and>
    (\<forall>i < length (be_sections emitter).
       section_symbol_matches (be_sections emitter ! i) i (obj_symbols object ! (length (be_symbols emitter) + 2 * i)) \<and>
       cs_is_auxiliary (obj_symbols object ! (length (be_symbols emitter) + 2 * i + 1)))"
proof -
  let ?m = "length (be_symbols emitter)" and ?n = "length (be_sections emitter)"
  have sz: "coff_file_size emitter < 2 ^ 32" using assms(2) by (simp add: writable_def)
  obtain t where t: "coff_layout emitter data t" using coff_layout_obtain [OF assms(1) sz] by blast
  let ?o = "table_object emitter t"
  have len: "length data = coff_file_size emitter" by (rule layout_file_size [OF t])
  obtain secs where secs: "length secs = ?n" "\<forall>i < ?n. parse_section ?o data i = Inr (secs ! i) \<and> section_matches emitter i (secs ! i)"
  proof -
    obtain f where "\<forall>i < ?n. parse_section ?o data i = Inr (f i) \<and> section_matches emitter i (f i)"
      using parse_written_section [OF t assms(2)] by metis
    then show thesis using that [of "map f [0 ..< ?n]"] by simp
  qed
  have ps: "coff_reader_parse_sections ?o data = Inr (?o\<lparr>obj_sections := secs\<rparr>)"
  proof (cases "?n = 0")
    case True
    then have "secs = []" using secs(1) by simp
    then show ?thesis using True table_object_counts(3) [OF t]
      by (simp add: coff_reader_parse_sections_def table_object_def header_object_def)
  next
    case False
    have "map_linked (parse_section ?o data) [0 ..< ?n] = Inr secs" using secs by (simp add: map_linked_Inr)
    moreover have "20 + ?n * 40 \<le> length data" unfolding len by (simp add: coff_file_size_def)
    ultimately show ?thesis using False
      by (simp add: coff_reader_parse_sections_def table_object_counts(3) [OF t] range_ok_iff)
  qed
  obtain ss where ss: "parse_symbol_list ?o data 0 (?m + 2 * ?n) 0 0 = Inr ss" "length ss = ?m + 2 * ?n"
      "\<forall>i < ?m. symbol_matches (be_symbols emitter ! i) (ss ! i)"
      "\<forall>i < ?n. section_symbol_matches (be_sections emitter ! i) i (ss ! (?m + 2 * i)) \<and> cs_is_auxiliary (ss ! (?m + 2 * i + 1))"
    using parse_written_symbols [OF t assms(2)] by blast
  have "coff_reader_parse_symbols (?o\<lparr>obj_sections := secs\<rparr>) data = Inr (?o\<lparr>obj_sections := secs, obj_symbols := ss\<rparr>)"
  proof (cases "?m + 2 * ?n = 0")
    case True
    then have "ss = []" using ss(2) by simp
    then show ?thesis using True table_object_counts(1) [OF t]
      by (simp add: coff_reader_parse_symbols_def table_object_def header_object_def)
  next
    case False
    have "unat (ct_symbol_table t) + (?m + 2 * ?n) * 18 \<le> length data"
      unfolding len layout_reloc(1) [OF t sz] by (simp add: coff_file_size_def)
    with False ss(1) show ?thesis
      by (auto simp: coff_reader_parse_symbols_def parse_symbol_list_sections table_object_counts [OF t] range_ok_iff Let_def)
  qed
  moreover have "coff_object_parse data = and_then (coff_reader_parse_string_table (header_object emitter t) data) (\<lambda>object.
      and_then (coff_reader_parse_sections object data) (\<lambda>object. coff_reader_parse_symbols object data))"
  proof -
    obtain post where data: "data = coff_header emitter (ct_symbol_table t) @ post" using t by (auto simp: coff_layout_def)
    have h: "take 20 data = coff_header emitter (ct_symbol_table t)" by (simp add: data length_coff_header)
    have "20 \<le> length data" by (simp add: data length_coff_header)
    then show ?thesis
      by (simp add: coff_object_parse_def read_bytes_ok h Let_def COFF_MACHINE_AMD64_def header_object_def)
        (simp add: coff_header_def)
  qed
  ultimately have "coff_object_parse data = Inr (?o\<lparr>obj_sections := secs, obj_symbols := ss\<rparr>)"
    by (simp add: parse_written_table [OF t sz] ps)
  then show ?thesis using secs ss by auto
qed

text \<open>A builder with a call to a function of its own, as a concrete instance.\<close>

definition demo_section :: BinarySection where
  "demo_section = \<lparr>bse_name = ''.text'', bse_kind = BINARY_SECTION_TEXT, bse_characteristics = 0, bse_alignment = 16,
     bse_data = [0xE8, 0, 0, 0, 0, 0xC3], bse_virtual_size = 6\<rparr>"

definition demo_symbol :: BinarySymbol where
  "demo_symbol = \<lparr>bsy_name = ''main'', bsy_binding = BINARY_SYMBOL_GLOBAL, bsy_section_index = Some 0, bsy_value = 0, bsy_size = 6\<rparr>"

definition demo_emitter :: "nat list \<Rightarrow> BinaryEmitter" where
  "demo_emitter index = \<lparr>be_target_format = BINARY_TARGET_FORMAT_COFF_WIN64, be_sections = [demo_section], be_symbols = [demo_symbol],
     be_symbol_index = index, be_relocations = [\<lparr>bre_section_index = 0, bre_offset = 1, bre_kind = BINARY_RELOCATION_REL32,
       bre_symbol_name = ''main'', bre_addend = 0\<rparr>]\<rparr>"

lemma demo_writable: obtains index where "writable (demo_emitter index)"
proof -
  let ?e = "binary_emitter_create BINARY_TARGET_FORMAT_COFF_WIN64"
  have "bsy_name demo_symbol \<notin> set (symbol_names ?e)" "bsy_name demo_symbol \<noteq> []"
    by (simp_all add: binary_emitter_create_def demo_symbol_def)
  from symbol_index_insert_ok [OF emitter_ok_create(1) this]
  obtain index where "emitter_ok (?e\<lparr>be_symbols := be_symbols ?e @ [demo_symbol], be_symbol_index := index\<rparr>)" by blast
  then have "emitter_ok (demo_emitter index)" by (auto simp: emitter_ok_def demo_emitter_def binary_emitter_create_def cong: if_cong split: if_splits)
  then have "writable (demo_emitter index)"
    by (simp add: writable_def demo_emitter_def demo_section_def demo_symbol_def coff_file_size_def c_name_def long_name_bytes_def
        section_payload_def)
  then show thesis by (rule that)
qed

theorem coff_write_read_roundtrip_witness:
  "\<exists>emitter data object. binary_emitter_write_coff_object_file emitter = Inr data \<and> coff_object_parse data = Inr object \<and>
     length (obj_sections object) = 1 \<and> section_matches emitter 0 (obj_sections object ! 0) \<and> be_relocations emitter \<noteq> []"
proof -
  obtain index where w: "writable (demo_emitter index)" by (rule demo_writable)
  then have ok: "emitter_ok (demo_emitter index)" by (simp add: writable_def)
  have find: "binary_emitter_find_symbol_index (demo_emitter index) ''main'' = Some (Some 0)"
    unfolding find_symbol_index_scan [OF ok] by (simp add: demo_emitter_def demo_symbol_def)
  obtain data where d: "binary_emitter_write_coff_object_file (demo_emitter index) = Inr data"
    using find
    by (simp add: binary_emitter_write_coff_object_file_def demo_emitter_def demo_section_def demo_symbol_def section_reloc_counts_def
        ordered_relocations_def place_relocation_def section_record_def symbol_record_def relocation_record_def
        binary_emitter_write_section_name_def Let_def)
  from coff_write_read_roundtrip [OF d w] d show ?thesis
    by (intro exI [of _ "demo_emitter index"] exI [of _ data]) (auto simp: demo_emitter_def)
qed

end
