(* ===== verification/IR_Code.thy ===== *)
theory IR_Code
  imports Mettle_Prelude
begin

text \<open>
  The intermediate representation (\<open>src/ir/ir.h\<close>, \<open>src/ir/ir.c\<close>) and what the optimiser's proofs
  need of its meaning.

  An instruction is the C struct: an opcode, three operands, the operator or label text, the
  argument array, the float flag and its width. The instruction array of a function is a list.
  The execution of a list is an inductive relation over a machine that is a parameter: how an
  operand is read, how a destination is written, what the operators compute and what every
  instruction does that is neither a move, an integer operator nor a jump. Two lists are equivalent
  when from every position and state they end the same way or both never end.
\<close>

section \<open>Operands and instructions\<close>

datatype IROperandKind = IR_OPERAND_NONE | IR_OPERAND_TEMP | IR_OPERAND_SYMBOL | IR_OPERAND_INT
  | IR_OPERAND_FLOAT | IR_OPERAND_STRING | IR_OPERAND_LABEL

text \<open>\<open>int_value\<close> is the bit pattern of the \<open>long long\<close>, \<open>float_value\<close> that of the \<open>double\<close>.\<close>

record IROperand =
  operand_kind :: IROperandKind
  operand_name :: "string option"
  int_value :: u64
  float_value :: u64
  operand_float_bits :: nat

datatype (plugins only: code size) IROpcode = IR_OP_NOP | IR_OP_LABEL | IR_OP_JUMP
  | IR_OP_BRANCH_ZERO | IR_OP_BRANCH_EQ | IR_OP_DECLARE_LOCAL | IR_OP_ASSIGN | IR_OP_ADDRESS_OF
  | IR_OP_LOAD | IR_OP_STORE | IR_OP_BINARY | IR_OP_UNARY | IR_OP_ROTATE_ADD | IR_OP_CALL
  | IR_OP_CALL_INDIRECT | IR_OP_NEW | IR_OP_RETURN | IR_OP_INLINE_ASM | IR_OP_CAST
  | IR_OP_COUNT_WORD_STARTS | IR_OP_MEMCPY_INLINE | IR_OP_SIMD_SUM_I32 | IR_OP_SIMD_MATMUL_N32
  | IR_OP_SIMD_INSERTION_SORT_I32 | IR_OP_SIMD_DOT_I32 | IR_OP_SIMD_SCALE_I32
  | IR_OP_SIMD_CLAMP_I32 | IR_OP_SIMD_REVERSE_COPY_I32 | IR_OP_LOWER_BOUND_I32
  | IR_OP_PREFIX_SUM_I32 | IR_OP_SIMD_MINMAX_I32

record IRInstruction =
  instr_op :: IROpcode
  location :: "nat \<times> nat"
  dest :: IROperand
  lhs :: IROperand
  rhs :: IROperand
  instr_text :: "string option"
  arguments :: "IROperand list"
  is_float :: bool
  instr_float_bits :: nat
  ast_ref :: "address option"

type_synonym ir_code = "IRInstruction list"

definition ir_operand_none :: IROperand where
  "ir_operand_none = \<lparr>operand_kind = IR_OPERAND_NONE, operand_name = None, int_value = 0,
     float_value = 0, operand_float_bits = 0\<rparr>"

definition ir_operand_temp :: "string option \<Rightarrow> IROperand" where
  "ir_operand_temp name = ir_operand_none \<lparr>operand_kind := IR_OPERAND_TEMP, operand_name := name\<rparr>"

definition ir_operand_symbol :: "string option \<Rightarrow> IROperand" where
  "ir_operand_symbol name =
     ir_operand_none \<lparr>operand_kind := IR_OPERAND_SYMBOL, operand_name := name\<rparr>"

definition ir_operand_int :: "u64 \<Rightarrow> IROperand" where
  "ir_operand_int value = ir_operand_none \<lparr>operand_kind := IR_OPERAND_INT, int_value := value\<rparr>"

definition ir_operand_float :: "u64 \<Rightarrow> IROperand" where
  "ir_operand_float value = ir_operand_none
     \<lparr>operand_kind := IR_OPERAND_FLOAT, float_value := value, operand_float_bits := 64\<rparr>"

definition ir_operand_float_sized :: "u64 \<Rightarrow> nat \<Rightarrow> IROperand" where
  "ir_operand_float_sized value bits =
     (ir_operand_float value) \<lparr>operand_float_bits := if bits = 32 then 32 else 64\<rparr>"

definition ir_operand_string :: "string option \<Rightarrow> IROperand" where
  "ir_operand_string name =
     ir_operand_none \<lparr>operand_kind := IR_OPERAND_STRING, operand_name := name\<rparr>"

definition ir_operand_label :: "string option \<Rightarrow> IROperand" where
  "ir_operand_label name =
     ir_operand_none \<lparr>operand_kind := IR_OPERAND_LABEL, operand_name := name\<rparr>"

definition ir_operand_copy :: "IROperand \<Rightarrow> IROperand" where
  "ir_operand_copy operand = (case operand_kind operand of
     IR_OPERAND_TEMP \<Rightarrow> (ir_operand_temp (operand_name operand))
       \<lparr>operand_float_bits := operand_float_bits operand\<rparr>
   | IR_OPERAND_SYMBOL \<Rightarrow> (ir_operand_symbol (operand_name operand))
       \<lparr>operand_float_bits := operand_float_bits operand\<rparr>
   | IR_OPERAND_INT \<Rightarrow> ir_operand_int (int_value operand)
   | IR_OPERAND_FLOAT \<Rightarrow>
       ir_operand_float_sized (float_value operand) (operand_float_bits operand)
   | IR_OPERAND_STRING \<Rightarrow> ir_operand_string (operand_name operand)
   | IR_OPERAND_LABEL \<Rightarrow> ir_operand_label (operand_name operand)
   | IR_OPERAND_NONE \<Rightarrow> ir_operand_none)"

text \<open>The C comparison of two \<open>double\<close>s, on their bit patterns: a NaN equals nothing, the two zeros
  are equal.\<close>

definition double_is_nan :: "u64 \<Rightarrow> bool" where
  "double_is_nan b = (0x7FF0000000000000 < b AND 0x7FFFFFFFFFFFFFFF)"

definition double_eq :: "u64 \<Rightarrow> u64 \<Rightarrow> bool" where
  "double_eq a b = (\<not> double_is_nan a \<and> \<not> double_is_nan b \<and>
     (a = b \<or> (a AND 0x7FFFFFFFFFFFFFFF = 0 \<and> b AND 0x7FFFFFFFFFFFFFFF = 0)))"

text \<open>The optimiser's own clone keeps the float width and refuses a named operand without a name.\<close>

definition ir_operand_clone :: "IROperand \<Rightarrow> IROperand option" where
  "ir_operand_clone source =
     (if operand_kind source \<in>
           {IR_OPERAND_TEMP, IR_OPERAND_SYMBOL, IR_OPERAND_STRING, IR_OPERAND_LABEL}
      then (case operand_name source of None \<Rightarrow> None
            | Some name \<Rightarrow> Some (ir_operand_none
                \<lparr>operand_kind := operand_kind source, operand_name := Some name,
                 int_value := int_value source, float_value := float_value source,
                 operand_float_bits := operand_float_bits source\<rparr>))
      else Some (ir_operand_none
                \<lparr>operand_kind := operand_kind source, int_value := int_value source,
                 float_value := float_value source,
                 operand_float_bits := operand_float_bits source\<rparr>))"

definition ir_operand_equals :: "IROperand \<Rightarrow> IROperand \<Rightarrow> bool" where
  "ir_operand_equals a b = (operand_kind a = operand_kind b \<and>
     (case operand_kind a of
        IR_OPERAND_NONE \<Rightarrow> True
      | IR_OPERAND_INT \<Rightarrow> int_value a = int_value b
      | IR_OPERAND_FLOAT \<Rightarrow> double_eq (float_value a) (float_value b) \<and>
          (operand_float_bits a = 32) = (operand_float_bits b = 32)
      | _ \<Rightarrow> operand_name a \<noteq> None \<and> operand_name b \<noteq> None \<and> operand_name a = operand_name b))"

definition ir_instruction_make_nop :: "IRInstruction \<Rightarrow> IRInstruction" where
  "ir_instruction_make_nop i = i \<lparr>dest := ir_operand_none, lhs := ir_operand_none,
     rhs := ir_operand_none, arguments := [], instr_text := None, is_float := False,
     ast_ref := None, instr_op := IR_OP_NOP\<rparr>"

definition ir_instruction_make_jump :: "IRInstruction \<Rightarrow> IRInstruction" where
  "ir_instruction_make_jump i = i \<lparr>dest := ir_operand_none, lhs := ir_operand_none,
     rhs := ir_operand_none, arguments := [], is_float := False, ast_ref := None,
     instr_op := IR_OP_JUMP\<rparr>"

lemma make_nop_simps [simp]:
  "instr_op (ir_instruction_make_nop i) = IR_OP_NOP"
  "instr_text (ir_instruction_make_nop i) = None"
  by (simp_all add: ir_instruction_make_nop_def)

lemma make_jump_simps [simp]:
  "instr_op (ir_instruction_make_jump i) = IR_OP_JUMP"
  "instr_text (ir_instruction_make_jump i) = instr_text i"
  by (simp_all add: ir_instruction_make_jump_def)

section \<open>Positions in a list of instructions\<close>

text \<open>The search loops of the optimiser. The position of a label is that of its first \<open>LABEL\<close>
  instruction, which is what \<open>ir_find_label_index\<close> returns.\<close>

function skip_nops :: "ir_code \<Rightarrow> nat \<Rightarrow> nat" where
  "skip_nops code i =
     (if i < length code \<and> instr_op (code ! i) = IR_OP_NOP then skip_nops code (Suc i) else i)"
  by pat_completeness auto
termination by (relation "measure (\<lambda>(code, i). length code - i)") auto

function ir_find_next_non_nop :: "ir_code \<Rightarrow> nat \<Rightarrow> nat option" where
  "ir_find_next_non_nop code i =
     (if length code \<le> i then None
      else if instr_op (code ! i) \<noteq> IR_OP_NOP then Some i
      else ir_find_next_non_nop code (Suc i))"
  by pat_completeness auto
termination by (relation "measure (\<lambda>(code, i). length code - i)") auto

function ir_find_next_non_nop_in_block :: "ir_code \<Rightarrow> nat \<Rightarrow> nat option" where
  "ir_find_next_non_nop_in_block code i =
     (if length code \<le> i then None
      else if instr_op (code ! i) = IR_OP_LABEL then None
      else if instr_op (code ! i) \<noteq> IR_OP_NOP then Some i
      else ir_find_next_non_nop_in_block code (Suc i))"
  by pat_completeness auto
termination by (relation "measure (\<lambda>(code, i). length code - i)") auto

definition is_label :: "IRInstruction \<Rightarrow> string \<Rightarrow> bool" where
  "is_label i label = (instr_op i = IR_OP_LABEL \<and> instr_text i = Some label)"

function find_label_from :: "ir_code \<Rightarrow> string \<Rightarrow> nat \<Rightarrow> nat option" where
  "find_label_from code label i =
     (if length code \<le> i then None
      else if is_label (code ! i) label then Some i
      else find_label_from code label (Suc i))"
  by pat_completeness auto
termination by (relation "measure (\<lambda>(code, label, i). length code - i)") auto

definition ir_find_label_index :: "ir_code \<Rightarrow> string \<Rightarrow> nat option" where
  "ir_find_label_index code label = find_label_from code label 0"

declare skip_nops.simps [simp del] ir_find_next_non_nop.simps [simp del]
  ir_find_next_non_nop_in_block.simps [simp del] find_label_from.simps [simp del]

lemma skip_nops_spec:
  "i \<le> skip_nops code i \<and> (\<forall>k. i \<le> k \<and> k < skip_nops code i \<longrightarrow> instr_op (code ! k) = IR_OP_NOP)"
proof (induction code i rule: skip_nops.induct)
  case (1 code i)
  show ?case
  proof (cases "i < length code \<and> instr_op (code ! i) = IR_OP_NOP")
    case True
    then have eq: "skip_nops code i = skip_nops code (Suc i)" by (simp add: skip_nops.simps [of code i])
    have "instr_op (code ! k) = IR_OP_NOP" if "i \<le> k" "k < skip_nops code (Suc i)" for k
      using that True "1.IH" [OF True] by (cases "k = i") auto
    with "1.IH" [OF True] show ?thesis unfolding eq by auto
  qed (auto simp: skip_nops.simps [of code i])
qed

lemma find_next_non_nop_spec:
  "ir_find_next_non_nop code i = Some n \<Longrightarrow>
   i \<le> n \<and> n < length code \<and> (\<forall>k. i \<le> k \<and> k < n \<longrightarrow> instr_op (code ! k) = IR_OP_NOP)"
proof (induction code i rule: ir_find_next_non_nop.induct)
  case (1 code i)
  show ?case
  proof (cases "i < length code \<and> instr_op (code ! i) = IR_OP_NOP")
    case True
    then have "ir_find_next_non_nop code (Suc i) = Some n"
      using "1.prems" by (simp add: ir_find_next_non_nop.simps [of code i])
    with True "1.IH" have IH: "Suc i \<le> n \<and> n < length code \<and>
        (\<forall>k. Suc i \<le> k \<and> k < n \<longrightarrow> instr_op (code ! k) = IR_OP_NOP)" by simp
    then have "instr_op (code ! k) = IR_OP_NOP" if "i \<le> k" "k < n" for k
      using that True by (cases "k = i") auto
    with IH show ?thesis by auto
  next
    case False
    with "1.prems" show ?thesis
      by (auto simp: ir_find_next_non_nop.simps [of code i] split: if_splits)
  qed
qed

lemma find_next_non_nop_in_block_spec:
  "ir_find_next_non_nop_in_block code i = Some n \<Longrightarrow>
   i \<le> n \<and> n < length code \<and> (\<forall>k. i \<le> k \<and> k < n \<longrightarrow> instr_op (code ! k) = IR_OP_NOP)"
proof (induction code i rule: ir_find_next_non_nop_in_block.induct)
  case (1 code i)
  show ?case
  proof (cases "i < length code \<and> instr_op (code ! i) = IR_OP_NOP")
    case True
    then have "ir_find_next_non_nop_in_block code (Suc i) = Some n"
      using "1.prems" by (simp add: ir_find_next_non_nop_in_block.simps [of code i])
    with True "1.IH" have IH: "Suc i \<le> n \<and> n < length code \<and>
        (\<forall>k. Suc i \<le> k \<and> k < n \<longrightarrow> instr_op (code ! k) = IR_OP_NOP)" by simp
    then have "instr_op (code ! k) = IR_OP_NOP" if "i \<le> k" "k < n" for k
      using that True by (cases "k = i") auto
    with IH show ?thesis by auto
  next
    case False
    with "1.prems" show ?thesis
      by (auto simp: ir_find_next_non_nop_in_block.simps [of code i] split: if_splits)
  qed
qed

lemma find_label_from_spec:
  "find_label_from code label i = Some j \<longleftrightarrow>
   i \<le> j \<and> j < length code \<and> is_label (code ! j) label \<and>
   (\<forall>k. i \<le> k \<and> k < j \<longrightarrow> \<not> is_label (code ! k) label)"
proof (induction code label i rule: find_label_from.induct)
  case (1 code label i)
  show ?case
  proof (cases "i < length code \<and> \<not> is_label (code ! i) label")
    case True
    then have eq: "find_label_from code label i = find_label_from code label (Suc i)"
      by (simp add: find_label_from.simps [of code label i])
    have "Suc i \<le> j \<longleftrightarrow> i \<le> j" if "is_label (code ! j) label" for j
      using that True by (metis Suc_leI le_eq_less_or_eq Suc_leD)
    moreover have "(\<forall>k. Suc i \<le> k \<and> k < j \<longrightarrow> \<not> is_label (code ! k) label) \<longleftrightarrow>
        (\<forall>k. i \<le> k \<and> k < j \<longrightarrow> \<not> is_label (code ! k) label)" for j
      using True by (metis Suc_leI le_eq_less_or_eq Suc_leD)
    ultimately show ?thesis using "1.IH" True unfolding eq by auto
  next
    case False
    then show ?thesis
      by (auto simp: find_label_from.simps [of code label i] not_less)
  qed
qed

lemma find_label_index_spec:
  "ir_find_label_index code label = Some j \<longleftrightarrow>
   j < length code \<and> is_label (code ! j) label \<and> (\<forall>k < j. \<not> is_label (code ! k) label)"
  by (simp add: ir_find_label_index_def find_label_from_spec)

lemma find_label_index_cong:
  assumes "length code' = length code"
    and "\<And>k. k < length code \<Longrightarrow> is_label (code' ! k) label = is_label (code ! k) label"
  shows "ir_find_label_index code' label = ir_find_label_index code label"
proof -
  have "ir_find_label_index code' label = Some j \<longleftrightarrow> ir_find_label_index code label = Some j" for j
    using assms unfolding find_label_index_spec by (metis order_less_trans)
  then show ?thesis by (metis option.exhaust)
qed

text \<open>The labels of a list are distinct; the code generator rejects a function in which they are not.\<close>

definition distinct_labels :: "ir_code \<Rightarrow> bool" where
  "distinct_labels code =
     distinct (map instr_text (filter (\<lambda>i. instr_op i = IR_OP_LABEL \<and> instr_text i \<noteq> None) code))"

lemma distinct_map_filter_nth:
  "distinct (map f (filter P xs)) \<Longrightarrow> i < j \<Longrightarrow> j < length xs \<Longrightarrow> P (xs ! i) \<Longrightarrow> P (xs ! j) \<Longrightarrow>
   f (xs ! i) \<noteq> f (xs ! j)"
proof (induction xs arbitrary: i j)
  case (Cons x xs)
  obtain j' where j': "j = Suc j'" "j' < length xs" using Cons.prems by (cases j) auto
  show ?case
  proof (cases i)
    case 0
    then have "f x \<notin> f ` set (filter P xs)" using Cons.prems by auto
    moreover have "f (xs ! j') \<in> f ` set (filter P xs)" using j' Cons.prems by auto
    ultimately show ?thesis using 0 j' by auto
  next
    case (Suc i')
    with Cons.prems j' Cons.IH [of i' j'] show ?thesis by (auto split: if_splits)
  qed
qed simp

lemma distinct_labels_index:
  assumes "distinct_labels code" and "j < length code" and "is_label (code ! j) label"
  shows "ir_find_label_index code label = Some j"
proof -
  have "\<not> is_label (code ! k) label" if "k < j" for k
    using distinct_map_filter_nth [OF assms(1) [unfolded distinct_labels_def] that assms(2)] assms(3)
    by (auto simp: is_label_def)
  with assms show ?thesis by (simp add: find_label_index_spec)
qed

text \<open>What a list says about labels: which positions hold which label. Two lists that say the same
  agree on every label search and on the distinctness of their labels.\<close>

definition same_labels :: "ir_code \<Rightarrow> ir_code \<Rightarrow> bool" where
  "same_labels code code' = list_all2 (\<lambda>a b. \<forall>l. is_label a l = is_label b l) code code'"

lemma same_labels_refl [simp]: "same_labels code code"
  by (simp add: same_labels_def list_all2_refl)

lemma same_labels_trans: "same_labels a b \<Longrightarrow> same_labels b c \<Longrightarrow> same_labels a c"
  unfolding same_labels_def by (rule list_all2_trans) auto

lemma same_labels_update:
  "(\<And>l. is_label x l = is_label (code ! i) l) \<Longrightarrow> same_labels code (code[i := x])"
  by (cases "i < length code")
    (auto simp: same_labels_def list_all2_conv_all_nth nth_list_update list_update_beyond)

lemma same_labels_length: "same_labels code code' \<Longrightarrow> length code' = length code"
  by (simp add: same_labels_def list_all2_lengthD)

lemma same_labels_find:
  "same_labels code code' \<Longrightarrow> ir_find_label_index code' l = ir_find_label_index code l"
  by (rule find_label_index_cong) (auto simp: same_labels_def list_all2_conv_all_nth)

lemma same_labels_distinct:
  assumes "same_labels code code'"
  shows "distinct_labels code' = distinct_labels code"
proof -
  let ?f = "\<lambda>c. map instr_text (filter (\<lambda>i. instr_op i = IR_OP_LABEL \<and> instr_text i \<noteq> None) c)"
  have "?f code' = ?f code" using assms unfolding same_labels_def
    by (induction rule: list_all2_induct) (auto simp: is_label_def)
  then show ?thesis by (simp add: distinct_labels_def)
qed

section \<open>Execution\<close>

text \<open>The machine. \<open>mc_binary\<close> and \<open>mc_unary\<close> give \<open>None\<close> where the operation faults, \<open>mc_other\<close> where
  the instruction does; a program that runs on keeps what it did in the state.\<close>

record 's ir_machine =
  mc_value :: "'s \<Rightarrow> IROperandKind \<Rightarrow> string option \<Rightarrow> u64"
  mc_write :: "IROperand \<Rightarrow> u64 \<Rightarrow> 's \<Rightarrow> 's"
  mc_binary :: "string \<Rightarrow> u64 \<Rightarrow> u64 \<Rightarrow> u64 option"
  mc_unary :: "string \<Rightarrow> u64 \<Rightarrow> u64 option"
  mc_return :: "IRInstruction \<Rightarrow> 's \<Rightarrow> 's"
  mc_other :: "IRInstruction \<Rightarrow> 's \<Rightarrow> 's option"

datatype 's move = Fall 's | Goto string 's | Leave 's | Trap

datatype 's outcome = Ended 's | Returned 's | Trapped

definition operand_value :: "'s ir_machine \<Rightarrow> 's \<Rightarrow> IROperand \<Rightarrow> u64" where
  "operand_value M s operand =
     (if operand_kind operand = IR_OPERAND_INT then int_value operand
      else if operand_kind operand \<in> {IR_OPERAND_NONE, IR_OPERAND_FLOAT}
      then mc_value M s (operand_kind operand) None
      else mc_value M s (operand_kind operand) (operand_name operand))"

definition jump_to :: "string option \<Rightarrow> 's \<Rightarrow> 's move" where
  "jump_to target s = (case target of None \<Rightarrow> Trap | Some l \<Rightarrow> Goto l s)"

definition store_result :: "'s ir_machine \<Rightarrow> IRInstruction \<Rightarrow> 's \<Rightarrow> u64 option \<Rightarrow> 's move" where
  "store_result M i s r = (case r of None \<Rightarrow> Trap | Some v \<Rightarrow> Fall (mc_write M (dest i) v s))"

definition other_move :: "'s ir_machine \<Rightarrow> IRInstruction \<Rightarrow> 's \<Rightarrow> 's move" where
  "other_move M i s = (case mc_other M i s of None \<Rightarrow> Trap | Some s' \<Rightarrow> Fall s')"

definition ir_move :: "'s ir_machine \<Rightarrow> IRInstruction \<Rightarrow> 's \<Rightarrow> 's move" where
  "ir_move M i s = (case instr_op i of
     IR_OP_NOP \<Rightarrow> Fall s
   | IR_OP_LABEL \<Rightarrow> Fall s
   | IR_OP_JUMP \<Rightarrow> jump_to (instr_text i) s
   | IR_OP_BRANCH_ZERO \<Rightarrow>
       if operand_value M s (lhs i) = 0 then jump_to (instr_text i) s else Fall s
   | IR_OP_BRANCH_EQ \<Rightarrow>
       if operand_value M s (lhs i) = operand_value M s (rhs i) then jump_to (instr_text i) s
       else Fall s
   | IR_OP_RETURN \<Rightarrow> Leave (mc_return M i s)
   | IR_OP_ASSIGN \<Rightarrow>
       if is_float i then other_move M i s
       else store_result M i s (Some (operand_value M s (lhs i)))
   | IR_OP_BINARY \<Rightarrow>
       (if is_float i then other_move M i s
        else case instr_text i of
          None \<Rightarrow> Trap
        | Some operator \<Rightarrow> store_result M i s
            (mc_binary M operator (operand_value M s (lhs i)) (operand_value M s (rhs i))))
   | IR_OP_UNARY \<Rightarrow>
       (if is_float i then other_move M i s
        else case instr_text i of
          None \<Rightarrow> Trap
        | Some operator \<Rightarrow> store_result M i s (mc_unary M operator (operand_value M s (lhs i))))
   | _ \<Rightarrow> other_move M i s)"

lemma ir_move_simps:
  "instr_op i = IR_OP_NOP \<Longrightarrow> ir_move M i s = Fall s"
  "instr_op i = IR_OP_LABEL \<Longrightarrow> ir_move M i s = Fall s"
  "instr_op i = IR_OP_JUMP \<Longrightarrow> ir_move M i s = jump_to (instr_text i) s"
  "instr_op i = IR_OP_BRANCH_ZERO \<Longrightarrow> ir_move M i s =
     (if operand_value M s (lhs i) = 0 then jump_to (instr_text i) s else Fall s)"
  "instr_op i = IR_OP_BRANCH_EQ \<Longrightarrow> ir_move M i s =
     (if operand_value M s (lhs i) = operand_value M s (rhs i) then jump_to (instr_text i) s else Fall s)"
  "instr_op i = IR_OP_ASSIGN \<Longrightarrow> \<not> is_float i \<Longrightarrow>
     ir_move M i s = store_result M i s (Some (operand_value M s (lhs i)))"
  "instr_op i = IR_OP_BINARY \<Longrightarrow> \<not> is_float i \<Longrightarrow> instr_text i = Some operator \<Longrightarrow> ir_move M i s =
     store_result M i s (mc_binary M operator (operand_value M s (lhs i)) (operand_value M s (rhs i)))"
  "instr_op i = IR_OP_UNARY \<Longrightarrow> \<not> is_float i \<Longrightarrow> instr_text i = Some operator \<Longrightarrow> ir_move M i s =
     store_result M i s (mc_unary M operator (operand_value M s (lhs i)))"
  by (simp_all add: ir_move_def)

text \<open>\<open>halts M code pc s out\<close>: started at position \<open>pc\<close> in state \<open>s\<close>, the list ends with outcome \<open>out\<close>.\<close>

inductive halts :: "'s ir_machine \<Rightarrow> ir_code \<Rightarrow> nat \<Rightarrow> 's \<Rightarrow> 's outcome \<Rightarrow> bool"
  for M :: "'s ir_machine" and code :: ir_code where
  halts_end: "length code \<le> pc \<Longrightarrow> halts M code pc s (Ended s)"
| halts_fall: "pc < length code \<Longrightarrow> ir_move M (code ! pc) s = Fall s' \<Longrightarrow>
    halts M code (Suc pc) s' out \<Longrightarrow> halts M code pc s out"
| halts_goto: "pc < length code \<Longrightarrow> ir_move M (code ! pc) s = Goto l s' \<Longrightarrow>
    ir_find_label_index code l = Some j \<Longrightarrow> halts M code j s' out \<Longrightarrow> halts M code pc s out"
| halts_leave: "pc < length code \<Longrightarrow> ir_move M (code ! pc) s = Leave s' \<Longrightarrow>
    halts M code pc s (Returned s')"
| halts_fault: "pc < length code \<Longrightarrow> ir_move M (code ! pc) s = Trap \<Longrightarrow>
    halts M code pc s Trapped"

inductive_cases halts_cases: "halts M code pc s out"

text \<open>What follows a move at position \<open>pc\<close>, when \<open>P\<close> says how the rest ends.\<close>

definition follow ::
  "ir_code \<Rightarrow> (nat \<Rightarrow> 's \<Rightarrow> 's outcome \<Rightarrow> bool) \<Rightarrow> nat \<Rightarrow> 's move \<Rightarrow> 's outcome \<Rightarrow> bool" where
  "follow code P pc m out = (case m of
     Fall s' \<Rightarrow> P (Suc pc) s' out
   | Goto l s' \<Rightarrow> (\<exists>j. ir_find_label_index code l = Some j \<and> P j s' out)
   | Leave s' \<Rightarrow> out = Returned s'
   | Trap \<Rightarrow> out = Trapped)"

lemma follow_simps [simp]:
  "follow code P pc (Fall s) out = P (Suc pc) s out"
  "follow code P pc (Goto l s) out = (\<exists>j. ir_find_label_index code l = Some j \<and> P j s out)"
  "follow code P pc (Leave s) out = (out = Returned s)"
  "follow code P pc Trap out = (out = Trapped)"
  by (simp_all add: follow_def)

lemma halts_past_end [simp]: "length code \<le> pc \<Longrightarrow> halts M code pc s out \<longleftrightarrow> out = Ended s"
  by (auto intro: halts_end elim: halts_cases)

lemma halts_at:
  "pc < length code \<Longrightarrow>
   halts M code pc s out \<longleftrightarrow> follow code (halts M code) pc (ir_move M (code ! pc) s) out"
  by (cases "ir_move M (code ! pc) s") (auto intro: halts.intros elim: halts_cases)

text \<open>Induction: \<open>halts\<close> is included in every relation that is closed under the moves of the list.\<close>

lemma halts_closed:
  assumes "halts M code pc s out"
    and "\<And>pc s. length code \<le> pc \<Longrightarrow> P pc s (Ended s)"
    and "\<And>pc s out. pc < length code \<Longrightarrow> follow code P pc (ir_move M (code ! pc) s) out \<Longrightarrow> P pc s out"
  shows "P pc s out"
  using assms(1) by (induction rule: halts.induct) (auto intro: assms(2,3))

lemma halts_deterministic:
  "halts M code pc s out \<Longrightarrow> halts M code pc s out' \<Longrightarrow> out' = out"
  by (induction arbitrary: out' rule: halts.induct) (auto simp: halts_at)

definition ir_equiv :: "'s ir_machine \<Rightarrow> ir_code \<Rightarrow> ir_code \<Rightarrow> bool" where
  "ir_equiv M code code' = (\<forall>pc s out. halts M code pc s out \<longleftrightarrow> halts M code' pc s out)"

lemma ir_equiv_refl [simp]: "ir_equiv M code code"
  by (simp add: ir_equiv_def)

lemma ir_equiv_trans: "ir_equiv M a b \<Longrightarrow> ir_equiv M b c \<Longrightarrow> ir_equiv M a c"
  by (simp add: ir_equiv_def)

section \<open>Replacing one instruction\<close>

definition skippable :: "IRInstruction \<Rightarrow> bool" where
  "skippable i = (instr_op i = IR_OP_NOP \<or> instr_op i = IR_OP_LABEL)"

lemma skippable_move: "skippable i \<Longrightarrow> ir_move M i s = Fall s"
  by (auto simp: skippable_def ir_move_def)

lemma halts_skip:
  "i \<le> j \<Longrightarrow> j \<le> length code \<Longrightarrow> (\<And>k. i \<le> k \<Longrightarrow> k < j \<Longrightarrow> skippable (code ! k)) \<Longrightarrow>
   halts M code i s out \<longleftrightarrow> halts M code j s out"
proof (induction rule: inc_induct)
  case (step n)
  then show ?case by (simp add: halts_at [of n] skippable_move)
qed simp

definition branch_target :: "IRInstruction \<Rightarrow> string \<Rightarrow> bool" where
  "branch_target i l =
     (instr_op i \<in> {IR_OP_JUMP, IR_OP_BRANCH_ZERO, IR_OP_BRANCH_EQ} \<and> instr_text i = Some l)"

lemma move_goto_target: "ir_move M i s = Goto l s' \<Longrightarrow> branch_target i l \<and> s' = s"
  by (auto simp: ir_move_def branch_target_def jump_to_def store_result_def other_move_def
      split: IROpcode.splits option.splits if_splits)

lemma halts_replace:
  assumes len: "length code' = length code"
    and same: "\<And>k. k < length code \<Longrightarrow> k \<noteq> i \<Longrightarrow> code' ! k = code ! k"
    and lab: "\<And>k l. k < length code \<Longrightarrow> k \<noteq> i \<Longrightarrow> branch_target (code ! k) l \<Longrightarrow>
        ir_find_label_index code' l = ir_find_label_index code l"
    and at_i: "\<And>s out. i < length code \<Longrightarrow>
        follow code (halts M code') i (ir_move M (code ! i) s) out \<Longrightarrow> halts M code' i s out"
    and run: "halts M code pc s out"
  shows "halts M code' pc s out"
proof (rule halts_closed [OF run])
  fix pc s assume "length code \<le> pc"
  then show "halts M code' pc s (Ended s)" by (simp add: len)
next
  fix pc s out
  assume pc: "pc < length code" and *: "follow code (halts M code') pc (ir_move M (code ! pc) s) out"
  show "halts M code' pc s out"
  proof (cases "pc = i")
    case True
    with pc * at_i show ?thesis by simp
  next
    case False
    with pc have eq: "code' ! pc = code ! pc" by (simp add: same)
    show ?thesis
    proof (cases "ir_move M (code ! pc) s")
      case (Goto l s')
      with lab [OF pc False] have "ir_find_label_index code' l = ir_find_label_index code l"
        using move_goto_target [OF Goto] by blast
      with * Goto eq pc len show ?thesis by (simp add: halts_at)
    qed (use * eq pc len in \<open>auto simp: halts_at\<close>)
  qed
qed

lemma replace_equiv:
  assumes lab: "\<And>k l. k < length code \<Longrightarrow> k \<noteq> i \<Longrightarrow> branch_target (code ! k) l \<Longrightarrow>
        ir_find_label_index (code[i := x]) l = ir_find_label_index code l"
    and there: "\<And>s out. i < length code \<Longrightarrow>
        follow code (halts M (code[i := x])) i (ir_move M (code ! i) s) out \<Longrightarrow>
        halts M (code[i := x]) i s out"
    and reverse: "\<And>s out. i < length code \<Longrightarrow>
        follow (code[i := x]) (halts M code) i (ir_move M x s) out \<Longrightarrow> halts M code i s out"
  shows "ir_equiv M code (code[i := x])"
  unfolding ir_equiv_def
proof (intro allI iffI)
  fix pc s out
  show "halts M (code[i := x]) pc s out" if "halts M code pc s out"
    by (rule halts_replace [where code = code and i = i, OF _ _ _ _ that])
      (use lab there in auto)
  show "halts M code pc s out" if "halts M (code[i := x]) pc s out"
    by (rule halts_replace [where code = "code[i := x]" and i = i, OF _ _ _ _ that])
      (use lab reverse in auto)
qed

text \<open>An instruction may be replaced by one that moves alike.\<close>

lemma replace_same_move:
  assumes "\<And>l. is_label x l = is_label (code ! i) l"
    and "\<And>s. ir_move M x s = ir_move M (code ! i) s"
  shows "ir_equiv M code (code[i := x])"
proof -
  have find: "ir_find_label_index (code[i := x]) l = ir_find_label_index code l" for l
    using same_labels_find [OF same_labels_update [of x code i]] assms(1) by blast
  have follow: "follow (code[i := x]) P pc m out = follow code P pc m out" for P pc m out
    by (cases m) (simp_all add: find)
  show ?thesis
    by (rule replace_equiv) (auto simp: find follow halts_at assms(2))
qed

text \<open>A jump or branch whose target is reached by falling through may be dropped.\<close>

lemma drop_branch_equiv:
  assumes target: "branch_target (code ! i) l"
    and found: "ir_find_label_index code l = Some j"
    and i: "i < j"
    and skip: "\<And>k. i < k \<Longrightarrow> k < j \<Longrightarrow> skippable (code ! k)"
  shows "ir_equiv M code (code[i := ir_instruction_make_nop (code ! i)])"
    (is "ir_equiv M code (code[i := ?x])")
proof -
  have j: "j < length code" using found by (simp add: find_label_index_spec)
  have "is_label ?x l = is_label (code ! i) l" for l using target
    by (auto simp: is_label_def branch_target_def)
  then have find: "ir_find_label_index (code[i := ?x]) l = ir_find_label_index code l" for l
    using same_labels_find [OF same_labels_update [of ?x code i]] by blast
  have skip': "halts M (code[i := ?x]) i s out = halts M (code[i := ?x]) j s out" for s out
    by (rule halts_skip) (use skip i j in \<open>auto simp: skippable_def nth_list_update\<close>)
  have skip'': "halts M (code[i := ?x]) (Suc i) s out = halts M (code[i := ?x]) j s out" for s out
    by (rule halts_skip) (use skip i j in \<open>auto simp: skippable_def nth_list_update\<close>)
  have skip3: "halts M code (Suc i) s out = halts M code j s out" for s out
    by (rule halts_skip) (use skip i j in auto)
  have move: "ir_move M (code ! i) s = Goto l s \<or> ir_move M (code ! i) s = Fall s" for s
    using target by (auto simp: branch_target_def ir_move_def jump_to_def)
  show ?thesis
  proof (rule replace_equiv)
    fix s out assume "follow code (halts M (code[i := ?x])) i (ir_move M (code ! i) s) out"
    with move [of s] found show "halts M (code[i := ?x]) i s out" by (auto simp: skip' skip'')
  next
    fix s out assume "i < length code" "follow (code[i := ?x]) (halts M code) i (ir_move M ?x s) out"
    then have "halts M code j s out" by (simp add: skippable_move skippable_def skip3)
    with move [of s] found \<open>i < length code\<close> show "halts M code i s out"
      by (auto simp: halts_at skip3)
  qed (simp add: find)
qed

end
