(* ===== verification/IR_Flow.thy ===== *)
theory IR_Flow
  imports IR_Code
begin

text \<open>
  The control-flow clean-up passes of the optimiser (\<open>src/ir/ir_optimize.c\<close>): redundant jumps and
  branches, jump threading, empty conditional diamonds, unused labels and dead straight-line code.
  A pass walks the instruction array once and edits it in place, so a pass is a fold of its loop
  body over the positions, with the \<open>changed\<close> flag threaded along. Every loop body is shown to
  keep the behaviour of the list, most of them from every position.
\<close>

section \<open>The passes\<close>

type_synonym pass_state = "ir_code \<times> bool"

text \<open>The position after the \<open>NOP\<close>s holds the given label: the test three passes share.\<close>

definition next_label_is :: "ir_code \<Rightarrow> nat \<Rightarrow> string \<Rightarrow> bool" where
  "next_label_is code i l =
     (let next = skip_nops code i in next < length code \<and> is_label (code ! next) l)"

definition nop_at :: "nat \<Rightarrow> ir_code \<Rightarrow> ir_code" where
  "nop_at i code = code[i := ir_instruction_make_nop (code ! i)]"

definition ir_instruction_is_branch :: "IRInstruction \<Rightarrow> bool" where
  "ir_instruction_is_branch i = (instr_op i = IR_OP_BRANCH_ZERO \<or> instr_op i = IR_OP_BRANCH_EQ)"

definition redundant_jump_step :: "nat \<Rightarrow> pass_state \<Rightarrow> pass_state" where
  "redundant_jump_step i = (\<lambda>(code, changed).
     case instr_text (code ! i) of None \<Rightarrow> (code, changed)
     | Some l \<Rightarrow>
         if instr_op (code ! i) = IR_OP_JUMP \<and> next_label_is code (Suc i) l
         then (nop_at i code, True) else (code, changed))"

definition ir_remove_redundant_jumps_pass :: "pass_state \<Rightarrow> pass_state" where
  "ir_remove_redundant_jumps_pass st = fold redundant_jump_step [0..<length (fst st)] st"

definition redundant_branch_step :: "nat \<Rightarrow> pass_state \<Rightarrow> pass_state" where
  "redundant_branch_step i = (\<lambda>(code, changed).
     case instr_text (code ! i) of None \<Rightarrow> (code, changed)
     | Some l \<Rightarrow>
         if ir_instruction_is_branch (code ! i) \<and> next_label_is code (Suc i) l
         then (nop_at i code, True) else (code, changed))"

definition ir_remove_redundant_fallthrough_branches_pass :: "pass_state \<Rightarrow> pass_state" where
  "ir_remove_redundant_fallthrough_branches_pass st =
     fold redundant_branch_step [0..<length (fst st)] st"

text \<open>Jump threading: the loop of at most 32 hops, then the rewrite of one instruction.\<close>

fun thread_target :: "nat \<Rightarrow> ir_code \<Rightarrow> string \<Rightarrow> string" where
  "thread_target 0 code current_target = current_target"
| "thread_target (Suc depth) code current_target =
     (case ir_find_label_index code current_target of
        None \<Rightarrow> current_target
      | Some label_index \<Rightarrow>
         (case ir_find_next_non_nop code (Suc label_index) of
            None \<Rightarrow> current_target
          | Some next_index \<Rightarrow>
              (case instr_text (code ! next_index) of
                 None \<Rightarrow> current_target
               | Some l \<Rightarrow>
                   if instr_op (code ! next_index) \<noteq> IR_OP_JUMP \<or> l = current_target
                   then current_target else thread_target depth code l)))"

definition thread_step :: "nat \<Rightarrow> pass_state \<Rightarrow> pass_state" where
  "thread_step i = (\<lambda>(code, changed).
     case instr_text (code ! i) of None \<Rightarrow> (code, changed)
     | Some l \<Rightarrow>
         if instr_op (code ! i) = IR_OP_JUMP \<or> ir_instruction_is_branch (code ! i) then
           let target = thread_target 32 code l in
           if target \<noteq> l then (code[i := (code ! i) \<lparr>instr_text := Some target\<rparr>], True)
           else (code, changed)
         else (code, changed))"

definition ir_thread_jump_targets_pass :: "pass_state \<Rightarrow> pass_state" where
  "ir_thread_jump_targets_pass st = fold thread_step [0..<length (fst st)] st"

text \<open>Empty diamonds: \<open>branch L; jump J; L: J:\<close> with only \<open>NOP\<close>s and labels between.\<close>

function reaches_label :: "ir_code \<Rightarrow> string \<Rightarrow> nat \<Rightarrow> bool" where
  "reaches_label code l cursor =
     (if length code \<le> cursor then False
      else if instr_op (code ! cursor) = IR_OP_NOP then reaches_label code l (Suc cursor)
      else if instr_op (code ! cursor) \<noteq> IR_OP_LABEL \<or> instr_text (code ! cursor) = None then False
      else if instr_text (code ! cursor) = Some l then True
      else reaches_label code l (Suc cursor))"
  by pat_completeness auto
termination by (relation "measure (\<lambda>(code, l, cursor). length code - cursor)") auto

declare reaches_label.simps [simp del]

definition diamond_step :: "nat \<Rightarrow> pass_state \<Rightarrow> pass_state" where
  "diamond_step i = (\<lambda>(code, changed).
     if \<not> ir_instruction_is_branch (code ! i) then (code, changed) else
     case instr_text (code ! i) of None \<Rightarrow> (code, changed)
     | Some branch_text \<Rightarrow>
       case ir_find_next_non_nop_in_block code (Suc i) of None \<Rightarrow> (code, changed)
       | Some jump_index \<Rightarrow>
         if instr_op (code ! jump_index) \<noteq> IR_OP_JUMP then (code, changed) else
         case instr_text (code ! jump_index) of None \<Rightarrow> (code, changed)
         | Some jump_text \<Rightarrow>
             if branch_text = jump_text then
               (if next_label_is code (Suc jump_index) jump_text
                then (nop_at jump_index (nop_at i code), True) else (code, changed))
             else if next_label_is code (Suc jump_index) branch_text \<and>
                  reaches_label code jump_text (Suc (skip_nops code (Suc jump_index)))
               then (nop_at jump_index (nop_at i code), True) else (code, changed))"

definition ir_remove_empty_conditional_diamonds_pass :: "pass_state \<Rightarrow> pass_state" where
  "ir_remove_empty_conditional_diamonds_pass st = fold diamond_step [0..<length (fst st)] st"

definition ir_instruction_references_label :: "IRInstruction \<Rightarrow> string \<Rightarrow> bool" where
  "ir_instruction_references_label i l =
     (instr_op i \<in> {IR_OP_JUMP, IR_OP_BRANCH_ZERO, IR_OP_BRANCH_EQ} \<and> instr_text i = Some l)"

definition ir_label_is_referenced :: "ir_code \<Rightarrow> string \<Rightarrow> bool" where
  "ir_label_is_referenced code l = list_ex (\<lambda>i. ir_instruction_references_label i l) code"

definition unused_label_step :: "nat \<Rightarrow> pass_state \<Rightarrow> pass_state" where
  "unused_label_step i = (\<lambda>(code, changed).
     case instr_text (code ! i) of None \<Rightarrow> (code, changed)
     | Some l \<Rightarrow>
         if instr_op (code ! i) = IR_OP_LABEL \<and> \<not> ir_label_is_referenced code l
         then (nop_at i code, True) else (code, changed))"

definition ir_remove_unused_labels_pass :: "pass_state \<Rightarrow> pass_state" where
  "ir_remove_unused_labels_pass st = fold unused_label_step [0..<length (fst st)] st"

text \<open>Dead straight-line code: what follows a jump or return up to the next label.\<close>

definition straightline_step :: "nat \<Rightarrow> bool \<times> pass_state \<Rightarrow> bool \<times> pass_state" where
  "straightline_step i = (\<lambda>(reachable, code, changed).
     if instr_op (code ! i) = IR_OP_LABEL then (True, code, changed)
     else if \<not> reachable then
       (if instr_op (code ! i) \<noteq> IR_OP_NOP then (reachable, nop_at i code, True)
        else (reachable, code, changed))
     else (\<not> (instr_op (code ! i) = IR_OP_JUMP \<or> instr_op (code ! i) = IR_OP_RETURN), code, changed))"

definition ir_eliminate_unreachable_straightline_pass :: "pass_state \<Rightarrow> pass_state" where
  "ir_eliminate_unreachable_straightline_pass st =
     snd (fold straightline_step [0..<length (fst st)] (True, st))"

section \<open>Folding a loop body over the positions\<close>

lemma fold_pass_equiv:
  assumes "\<And>i st. i < length (fst st) \<Longrightarrow> Inv (fst st) \<Longrightarrow>
      Inv (fst (step i st)) \<and> length (fst (step i st)) = length (fst st) \<and>
      ir_equiv M (fst st) (fst (step i st))"
    and "Inv (fst st)" and "\<forall>i \<in> set positions. i < length (fst st)"
  shows "Inv (fst (fold step positions st)) \<and>
    length (fst (fold step positions st)) = length (fst st) \<and>
    ir_equiv M (fst st) (fst (fold step positions st))"
  using assms(2,3)
proof (induction positions arbitrary: st)
  case (Cons i positions)
  then have one: "Inv (fst (step i st))" "length (fst (step i st)) = length (fst st)"
    "ir_equiv M (fst st) (fst (step i st))" using assms(1) [of i st] by auto
  with Cons.IH [of "step i st"] Cons.prems show ?case by (auto intro: ir_equiv_trans)
qed simp

lemma length_nop_at [simp]: "length (nop_at i code) = length code"
  by (simp add: nop_at_def)

lemma nth_nop_at: "k < length code \<Longrightarrow>
    nop_at i code ! k = (if k = i then ir_instruction_make_nop (code ! i) else code ! k)"
  by (simp add: nop_at_def nth_list_update)

lemma nop_at_same_labels:
  "instr_op (code ! i) \<noteq> IR_OP_LABEL \<Longrightarrow> same_labels code (nop_at i code)"
  unfolding nop_at_def by (rule same_labels_update) (auto simp: is_label_def)

lemma distinct_labels_nop_at:
  assumes "distinct_labels code" and "instr_op (code ! i) \<noteq> IR_OP_LABEL"
  shows "distinct_labels (nop_at i code)"
  using same_labels_distinct [OF nop_at_same_labels [OF assms(2)]] assms(1) by simp

lemma is_branch_target:
  "instr_text i = Some l \<Longrightarrow> ir_instruction_is_branch i \<or> instr_op i = IR_OP_JUMP \<Longrightarrow> branch_target i l"
  by (auto simp: ir_instruction_is_branch_def branch_target_def)

lemma branch_not_label: "branch_target i l \<Longrightarrow> instr_op i \<noteq> IR_OP_LABEL"
  by (auto simp: branch_target_def)

section \<open>Redundant jumps and branches\<close>

lemma next_label_drop:
  assumes "distinct_labels code" and "instr_text (code ! i) = Some l"
    and "ir_instruction_is_branch (code ! i) \<or> instr_op (code ! i) = IR_OP_JUMP"
    and "next_label_is code (Suc i) l"
  shows "distinct_labels (nop_at i code)" and "ir_equiv M code (nop_at i code)"
proof -
  note target = is_branch_target [OF assms(2,3)]
  let ?j = "skip_nops code (Suc i)"
  have "ir_find_label_index code l = Some ?j"
    using assms by (auto simp: next_label_is_def Let_def intro: distinct_labels_index)
  moreover have "i < ?j" "\<forall>k. i < k \<and> k < ?j \<longrightarrow> skippable (code ! k)"
    using skip_nops_spec [of "Suc i" code] by (auto simp: skippable_def)
  ultimately show "ir_equiv M code (nop_at i code)"
    unfolding nop_at_def using target by (intro drop_branch_equiv) auto
  show "distinct_labels (nop_at i code)"
    using assms(1) branch_not_label [OF target] by (rule distinct_labels_nop_at)
qed

lemma redundant_jumps_pass_equiv:
  assumes "distinct_labels code"
  shows "distinct_labels (fst (ir_remove_redundant_jumps_pass (code, changed))) \<and>
    length (fst (ir_remove_redundant_jumps_pass (code, changed))) = length code \<and>
    ir_equiv M code (fst (ir_remove_redundant_jumps_pass (code, changed)))"
proof -
  have "distinct_labels (fst (redundant_jump_step i st)) \<and>
      length (fst (redundant_jump_step i st)) = length (fst st) \<and>
      ir_equiv M (fst st) (fst (redundant_jump_step i st))"
    if "i < length (fst st)" "distinct_labels (fst st)" for i st
    using that
    by (auto simp: redundant_jump_step_def intro: next_label_drop split: option.splits prod.splits)
  with fold_pass_equiv [of distinct_labels redundant_jump_step M "(code, changed)" "[0..<length code]"]
  show ?thesis using assms unfolding ir_remove_redundant_jumps_pass_def by simp
qed

lemma redundant_branches_pass_equiv:
  assumes "distinct_labels code"
  shows "distinct_labels (fst (ir_remove_redundant_fallthrough_branches_pass (code, changed))) \<and>
    length (fst (ir_remove_redundant_fallthrough_branches_pass (code, changed))) = length code \<and>
    ir_equiv M code (fst (ir_remove_redundant_fallthrough_branches_pass (code, changed)))"
proof -
  have "distinct_labels (fst (redundant_branch_step i st)) \<and>
      length (fst (redundant_branch_step i st)) = length (fst st) \<and>
      ir_equiv M (fst st) (fst (redundant_branch_step i st))"
    if "i < length (fst st)" "distinct_labels (fst st)" for i st
    using that
    by (auto simp: redundant_branch_step_def intro: next_label_drop split: option.splits prod.splits)
  with fold_pass_equiv [of distinct_labels redundant_branch_step M "(code, changed)" "[0..<length code]"]
  show ?thesis using assms unfolding ir_remove_redundant_fallthrough_branches_pass_def by simp
qed

section \<open>Jump threading\<close>

text \<open>One hop: the code at label \<open>l\<close> is, after \<open>NOP\<close>s, a jump to \<open>l'\<close>.\<close>

definition hop :: "ir_code \<Rightarrow> string \<Rightarrow> string \<Rightarrow> bool" where
  "hop code l l' = (\<exists>i n. ir_find_label_index code l = Some i \<and>
     ir_find_next_non_nop code (Suc i) = Some n \<and>
     instr_op (code ! n) = IR_OP_JUMP \<and> instr_text (code ! n) = Some l')"

lemma thread_target_hops: "(hop code)\<^sup>*\<^sup>* l (thread_target depth code l)"
proof (induction depth code l rule: thread_target.induct)
  case (2 depth code l)
  show ?case
  proof (cases "thread_target (Suc depth) code l = l")
    case False
    then obtain i n l' where *: "ir_find_label_index code l = Some i"
      "ir_find_next_non_nop code (Suc i) = Some n" "instr_text (code ! n) = Some l'"
      "instr_op (code ! n) = IR_OP_JUMP" "l' \<noteq> l"
      "thread_target (Suc depth) code l = thread_target depth code l'"
      by (auto split: option.splits if_splits)
    then have "hop code l l'" by (auto simp: hop_def)
    with * "2.IH" [of i n l'] show ?thesis by (simp add: converse_rtranclp_into_rtranclp)
  qed simp
qed simp

definition halts_label :: "'s ir_machine \<Rightarrow> ir_code \<Rightarrow> string \<Rightarrow> 's \<Rightarrow> 's outcome \<Rightarrow> bool" where
  "halts_label M code l s out = (\<exists>j. ir_find_label_index code l = Some j \<and> halts M code j s out)"

lemma hop_position:
  assumes "hop code l l'"
  obtains i n where "ir_find_label_index code l = Some i" "n < length code" "i < n"
    "\<forall>k. i \<le> k \<and> k < n \<longrightarrow> skippable (code ! k)"
    "instr_op (code ! n) = IR_OP_JUMP" "instr_text (code ! n) = Some l'"
proof -
  from assms obtain i n where *: "ir_find_label_index code l = Some i"
    "ir_find_next_non_nop code (Suc i) = Some n"
    "instr_op (code ! n) = IR_OP_JUMP" "instr_text (code ! n) = Some l'"
    by (auto simp: hop_def)
  then have "is_label (code ! i) l" by (simp add: find_label_index_spec)
  then have "skippable (code ! k)" if "i \<le> k" "k < n" for k
    using that find_next_non_nop_spec [OF *(2)]
    by (cases "k = i") (auto simp: skippable_def is_label_def)
  with * find_next_non_nop_spec [OF *(2)] that show thesis by auto
qed

lemma hop_halts:
  assumes "hop code l l'"
  shows "halts_label M code l s out = halts_label M code l' s out"
proof -
  from assms obtain i n where *: "ir_find_label_index code l = Some i" "n < length code" "i < n"
    "\<forall>k. i \<le> k \<and> k < n \<longrightarrow> skippable (code ! k)"
    "instr_op (code ! n) = IR_OP_JUMP" "instr_text (code ! n) = Some l'"
    by (rule hop_position)
  then have "halts M code i s out = halts M code n s out" by (intro halts_skip) auto
  also have "\<dots> = halts_label M code l' s out"
    using * by (simp add: halts_at ir_move_def jump_to_def halts_label_def)
  finally show ?thesis using * by (simp add: halts_label_def)
qed

lemma hops_halts: "(hop code)\<^sup>*\<^sup>* l l' \<Longrightarrow> halts_label M code l s out = halts_label M code l' s out"
  by (induction rule: rtranclp_induct) (auto simp: hop_halts)

text \<open>After the rewrite of position \<open>i\<close> to the target \<open>l'\<close> the chain still leads to \<open>l'\<close>, even when it
  runs through \<open>i\<close> itself.\<close>

lemma hops_halts_retarget:
  assumes x: "x = (code ! i) \<lparr>instr_text := Some l'\<rparr>"
    and labels: "same_labels code (code[i := x])"
    and hops: "(hop code)\<^sup>*\<^sup>* l l'"
    and run: "halts_label M (code[i := x]) l s out"
  shows "halts_label M (code[i := x]) l' s out"
  using hops run
proof (induction rule: converse_rtranclp_induct)
  case (step l l1)
  let ?c = "code[i := x]"
  from step(1) obtain p n where *: "ir_find_label_index code l = Some p" "n < length code" "p < n"
    "\<forall>k. p \<le> k \<and> k < n \<longrightarrow> skippable (code ! k)"
    "instr_op (code ! n) = IR_OP_JUMP" "instr_text (code ! n) = Some l1"
    by (rule hop_position)
  have "skippable (?c ! k)" if "p \<le> k" "k < n" for k
    using *(4) *(2) that by (cases "k = i") (auto simp: x skippable_def)
  then have "halts M ?c p s out = halts M ?c n s out" using * by (intro halts_skip) auto
  then have n: "halts M ?c n s out"
    using step(4) *(1) same_labels_find [OF labels] by (simp add: halts_label_def)
  show ?case
  proof (cases "n = i")
    case True
    with n * show ?thesis by (simp add: halts_at ir_move_def jump_to_def halts_label_def x)
  next
    case False
    with n * have "halts_label M ?c l1 s out"
      by (simp add: halts_at ir_move_def jump_to_def halts_label_def)
    then show ?thesis by (rule step(3))
  qed
qed simp

lemma retarget_equiv:
  assumes target: "branch_target (code ! i) l"
    and hops: "(hop code)\<^sup>*\<^sup>* l l'"
    and x: "x = (code ! i) \<lparr>instr_text := Some l'\<rparr>"
  shows "same_labels code (code[i := x]) \<and> ir_equiv M code (code[i := x])"
proof -
  have labels: "same_labels code (code[i := x])"
    using target by (intro same_labels_update) (auto simp: x is_label_def branch_target_def)
  note find = same_labels_find [OF labels]
  have moves: "ir_move M (code ! i) s = Goto l s \<and> ir_move M x s = Goto l' s \<or>
      ir_move M (code ! i) s = Fall s \<and> ir_move M x s = Fall s" for s
    using target by (auto simp: x ir_move_def branch_target_def jump_to_def)
  have "ir_equiv M code (code[i := x])"
  proof (rule replace_equiv)
    fix s out
    assume i: "i < length code"
      and run: "follow code (halts M (code[i := x])) i (ir_move M (code ! i) s) out"
    show "halts M (code[i := x]) i s out"
      using moves [of s] hops_halts_retarget [OF x labels hops, of M s out] run i
      by (auto simp: halts_at halts_label_def find)
  next
    fix s out
    assume i: "i < length code"
      and run: "follow (code[i := x]) (halts M code) i (ir_move M x s) out"
    show "halts M code i s out"
      using moves [of s] hops_halts [OF hops, of M s out] run i
      by (auto simp: halts_at halts_label_def find)
  qed (simp add: find)
  with labels show ?thesis by simp
qed

lemma thread_rewrite:
  assumes "instr_text (code ! i) = Some l"
    and "ir_instruction_is_branch (code ! i) \<or> instr_op (code ! i) = IR_OP_JUMP"
  shows "distinct_labels code \<Longrightarrow>
      distinct_labels (code[i := (code ! i) \<lparr>instr_text := Some (thread_target depth code l)\<rparr>])"
    and "ir_equiv M code (code[i := (code ! i) \<lparr>instr_text := Some (thread_target depth code l)\<rparr>])"
proof -
  note * = retarget_equiv [OF is_branch_target [OF assms] thread_target_hops [of code l depth] refl]
  then show "ir_equiv M code (code[i := (code ! i) \<lparr>instr_text := Some (thread_target depth code l)\<rparr>])"
    by blast
  show "distinct_labels (code[i := (code ! i) \<lparr>instr_text := Some (thread_target depth code l)\<rparr>])"
    if "distinct_labels code" using same_labels_distinct [OF conjunct1 [OF *]] that by blast
qed

lemma thread_pass_equiv:
  assumes "distinct_labels code"
  shows "distinct_labels (fst (ir_thread_jump_targets_pass (code, changed))) \<and>
    length (fst (ir_thread_jump_targets_pass (code, changed))) = length code \<and>
    ir_equiv M code (fst (ir_thread_jump_targets_pass (code, changed)))"
proof -
  have "distinct_labels (fst (thread_step i st)) \<and>
      length (fst (thread_step i st)) = length (fst st) \<and> ir_equiv M (fst st) (fst (thread_step i st))"
    if "i < length (fst st)" "distinct_labels (fst st)" for i st
    using that by (auto simp: thread_step_def Let_def intro: thread_rewrite split: option.splits prod.splits)
  with fold_pass_equiv [of distinct_labels thread_step M "(code, changed)" "[0..<length code]"]
  show ?thesis using assms unfolding ir_thread_jump_targets_pass_def by simp
qed

section \<open>Empty diamonds\<close>

lemma reaches_label_spec:
  "reaches_label code l cursor \<Longrightarrow> \<exists>j. cursor \<le> j \<and> j < length code \<and> is_label (code ! j) l \<and>
     (\<forall>k. cursor \<le> k \<and> k < j \<longrightarrow> skippable (code ! k))"
proof (induction code l cursor rule: reaches_label.induct)
  case (1 code l cursor)
  show ?case
  proof (cases "is_label (code ! cursor) l")
    case True
    with "1.prems" show ?thesis
      by (intro exI [of _ cursor]) (auto simp: reaches_label.simps [of code l cursor] split: if_splits)
  next
    case False
    then have next_: "reaches_label code l (Suc cursor)" "skippable (code ! cursor)" "cursor < length code"
      using "1.prems"
      by (auto simp: reaches_label.simps [of code l cursor] is_label_def skippable_def split: if_splits)
    have "\<exists>j. Suc cursor \<le> j \<and> j < length code \<and> is_label (code ! j) l \<and>
        (\<forall>k. Suc cursor \<le> k \<and> k < j \<longrightarrow> skippable (code ! k))"
    proof (cases "instr_op (code ! cursor) = IR_OP_NOP")
      case True
      then show ?thesis using "1.IH"(1) next_ by simp
    next
      case False
      moreover from this next_ "1.prems" have "instr_op (code ! cursor) = IR_OP_LABEL"
        "instr_text (code ! cursor) \<noteq> None"
        by (auto simp: reaches_label.simps [of code l cursor] skippable_def split: if_splits)
      moreover have "instr_text (code ! cursor) \<noteq> Some l"
        using \<open>\<not> is_label (code ! cursor) l\<close> calculation by (simp add: is_label_def)
      ultimately show ?thesis using "1.IH"(2) next_ by simp
    qed
    then obtain j where j: "Suc cursor \<le> j" "j < length code" "is_label (code ! j) l"
      "\<forall>k. Suc cursor \<le> k \<and> k < j \<longrightarrow> skippable (code ! k)" by blast
    have "skippable (code ! k)" if "cursor \<le> k" "k < j" for k
      using that j(4) next_(2) by (cases "k = cursor") auto
    with j show ?thesis by (intro exI [of _ j]) auto
  qed
qed

text \<open>Two nested drops: the inner jump first, then the branch over it.\<close>

lemma drop_pair_equiv:
  assumes labels: "distinct_labels code"
    and branch: "branch_target (code ! i) l" and jump: "branch_target (code ! p) l'"
    and order: "i < p" "p < j" "p < j'"
    and inner: "j' < length code" "is_label (code ! j') l'" "\<forall>k. p < k \<and> k < j' \<longrightarrow> skippable (code ! k)"
    and outer: "j < length code" "is_label (code ! j) l" "\<forall>k. i < k \<and> k < p \<longrightarrow> skippable (code ! k)"
      "\<forall>k. p < k \<and> k < j \<longrightarrow> skippable (code ! k)"
  shows "distinct_labels (nop_at p (nop_at i code))" and "ir_equiv M code (nop_at p (nop_at i code))"
proof -
  have p: "p < length code" using order inner by simp
  have swap: "nop_at p (nop_at i code) = nop_at i (nop_at p code)"
    using order p by (simp add: nop_at_def list_update_swap)
  have not_label: "instr_op (code ! p) \<noteq> IR_OP_LABEL" "instr_op (nop_at p code ! i) \<noteq> IR_OP_LABEL"
    using branch_not_label [OF branch] branch_not_label [OF jump] order p by (simp_all add: nth_nop_at)
  have d: "distinct_labels (nop_at p code)" using labels not_label by (simp add: distinct_labels_nop_at)
  then show "distinct_labels (nop_at p (nop_at i code))"
    unfolding swap using not_label by (simp add: distinct_labels_nop_at)
  have "ir_equiv M code (nop_at p code)" unfolding nop_at_def
    using jump order inner labels by (intro drop_branch_equiv [of _ _ l' j'] distinct_labels_index) auto
  moreover have "ir_equiv M (nop_at p code) (nop_at i (nop_at p code))"
    unfolding nop_at_def [of i]
  proof (rule drop_branch_equiv [of _ _ l j])
    show "branch_target (nop_at p code ! i) l" using branch order p by (simp add: nth_nop_at)
    show "ir_find_label_index (nop_at p code) l = Some j"
      using outer order p d by (intro distinct_labels_index) (simp_all add: nth_nop_at)
    show "skippable (nop_at p code ! k)" if "i < k" "k < j" for k
    proof (cases "k = p")
      case False
      with that outer show ?thesis by (cases "k < p") (simp_all add: nth_nop_at)
    qed (use p in \<open>simp add: nth_nop_at skippable_def\<close>)
  qed (use order in simp)
  ultimately show "ir_equiv M code (nop_at p (nop_at i code))"
    unfolding swap by (rule ir_equiv_trans)
qed

lemma diamond_step_equiv:
  assumes "distinct_labels code"
  shows "distinct_labels (fst (diamond_step i (code, changed))) \<and>
    length (fst (diamond_step i (code, changed))) = length code \<and>
    ir_equiv M code (fst (diamond_step i (code, changed)))"
proof (cases "fst (diamond_step i (code, changed)) = code")
  case False
  then obtain l p l' where *: "ir_instruction_is_branch (code ! i)" "instr_text (code ! i) = Some l"
    "ir_find_next_non_nop_in_block code (Suc i) = Some p"
    "instr_op (code ! p) = IR_OP_JUMP" "instr_text (code ! p) = Some l'"
    and closes: "l = l' \<and> next_label_is code (Suc p) l' \<or>
      next_label_is code (Suc p) l \<and> reaches_label code l' (Suc (skip_nops code (Suc p)))"
    and result: "fst (diamond_step i (code, changed)) = nop_at p (nop_at i code)"
    by (auto simp: diamond_step_def split: if_splits option.splits)
  let ?j = "skip_nops code (Suc p)"
  have branch: "branch_target (code ! i) l" and jump: "branch_target (code ! p) l'"
    using * by (auto intro: is_branch_target)
  have p: "i < p" "\<forall>k. i < k \<and> k < p \<longrightarrow> skippable (code ! k)"
    using find_next_non_nop_in_block_spec [OF *(3)] by (auto simp: skippable_def)
  have j: "p < ?j" "\<forall>k. p < k \<and> k < ?j \<longrightarrow> skippable (code ! k)" "?j < length code"
      "is_label (code ! ?j) l"
    using skip_nops_spec [of "Suc p" code] closes by (auto simp: skippable_def next_label_is_def Let_def)
  obtain j' where j': "p < j'" "j' < length code" "is_label (code ! j') l'"
    "\<forall>k. p < k \<and> k < j' \<longrightarrow> skippable (code ! k)"
  proof (cases "l = l'")
    case True
    with j that [of ?j] show thesis by simp
  next
    case False
    with closes reaches_label_spec obtain j' where "?j < j'" "j' < length code" "is_label (code ! j') l'"
      "\<forall>k. ?j < k \<and> k < j' \<longrightarrow> skippable (code ! k)" by (metis Suc_le_eq)
    moreover have "skippable (code ! ?j)" using j(4) by (simp add: skippable_def is_label_def)
    ultimately have "\<forall>k. p < k \<and> k < j' \<longrightarrow> skippable (code ! k)"
      using j(2) by (metis linorder_cases)
    with \<open>?j < j'\<close> \<open>j' < length code\<close> \<open>is_label (code ! j') l'\<close> j(1) show thesis
      by (intro that [of j']) simp_all
  qed
  note pair = drop_pair_equiv [OF assms branch jump p(1) j(1) j'(1) j'(2-4) j(3,4) p(2) j(2)]
  show ?thesis using pair by (simp add: result)
qed (use assms in simp)

lemma diamonds_pass_equiv:
  assumes "distinct_labels code"
  shows "distinct_labels (fst (ir_remove_empty_conditional_diamonds_pass (code, changed))) \<and>
    length (fst (ir_remove_empty_conditional_diamonds_pass (code, changed))) = length code \<and>
    ir_equiv M code (fst (ir_remove_empty_conditional_diamonds_pass (code, changed)))"
proof -
  have "distinct_labels (fst (diamond_step i st)) \<and> length (fst (diamond_step i st)) = length (fst st) \<and>
      ir_equiv M (fst st) (fst (diamond_step i st))" if "distinct_labels (fst st)" for i st
    using diamond_step_equiv [of "fst st" i "snd st"] that by simp
  with fold_pass_equiv [of distinct_labels diamond_step M "(code, changed)" "[0..<length code]"]
  show ?thesis using assms unfolding ir_remove_empty_conditional_diamonds_pass_def by simp
qed

section \<open>Unused labels\<close>

lemma distinct_labels_mono:
  assumes "distinct_labels code" and "list_all2 (\<lambda>a b. b = a \<or> instr_op b = IR_OP_NOP) code code'"
  shows "distinct_labels code'"
proof -
  let ?f = "\<lambda>c. map instr_text (filter (\<lambda>i. instr_op i = IR_OP_LABEL \<and> instr_text i \<noteq> None) c)"
  have "set (?f code') \<subseteq> set (?f code) \<and> (distinct (?f code) \<longrightarrow> distinct (?f code'))"
    using assms(2) by (induction rule: list_all2_induct) auto
  with assms(1) show ?thesis by (simp add: distinct_labels_def)
qed

lemma distinct_labels_drop: "distinct_labels code \<Longrightarrow> distinct_labels (nop_at i code)"
  by (erule distinct_labels_mono)
    (auto simp: list_all2_conv_all_nth nth_nop_at)

lemma unused_label_equiv:
  assumes "instr_op (code ! i) = IR_OP_LABEL" "instr_text (code ! i) = Some l"
    and unused: "\<not> ir_label_is_referenced code l"
  shows "ir_equiv M code (nop_at i code)"
  unfolding nop_at_def
proof (rule replace_equiv)
  fix k l' assume k: "k < length code" "k \<noteq> i" "branch_target (code ! k) l'"
  then have "l' \<noteq> l" using unused
    by (auto simp: ir_label_is_referenced_def ir_instruction_references_label_def branch_target_def
        list_ex_iff)
  then show "ir_find_label_index (code[i := ir_instruction_make_nop (code ! i)]) l' = ir_find_label_index code l'"
    using assms
    by (cases "i < length code"; intro find_label_index_cong)
      (auto simp: nth_list_update is_label_def)
qed (use assms(1) in \<open>auto simp: halts_at ir_move_def\<close>)

lemma unused_labels_pass_equiv:
  assumes "distinct_labels code"
  shows "distinct_labels (fst (ir_remove_unused_labels_pass (code, changed))) \<and>
    length (fst (ir_remove_unused_labels_pass (code, changed))) = length code \<and>
    ir_equiv M code (fst (ir_remove_unused_labels_pass (code, changed)))"
proof -
  have "distinct_labels (fst (unused_label_step i st)) \<and>
      length (fst (unused_label_step i st)) = length (fst st) \<and>
      ir_equiv M (fst st) (fst (unused_label_step i st))" if "distinct_labels (fst st)" for i st
    using that by (auto simp: unused_label_step_def intro: distinct_labels_drop unused_label_equiv
        split: option.splits prod.splits)
  with fold_pass_equiv [of distinct_labels unused_label_step M "(code, changed)" "[0..<length code]"]
  show ?thesis using assms unfolding ir_remove_unused_labels_pass_def by simp
qed

section \<open>Dead code\<close>

definition same_behaviour :: "'s ir_machine \<Rightarrow> ir_code \<Rightarrow> ir_code \<Rightarrow> bool" where
  "same_behaviour M code code' = (\<forall>s out. halts M code 0 s out \<longleftrightarrow> halts M code' 0 s out)"

lemma same_behaviour_refl [simp]: "same_behaviour M code code"
  by (simp add: same_behaviour_def)

lemma same_behaviour_trans: "same_behaviour M a b \<Longrightarrow> same_behaviour M b c \<Longrightarrow> same_behaviour M a c"
  by (simp add: same_behaviour_def)

lemma ir_equiv_same_behaviour: "ir_equiv M code code' \<Longrightarrow> same_behaviour M code code'"
  by (simp add: ir_equiv_def same_behaviour_def)

text \<open>A set of positions that execution from the start cannot leave.\<close>

definition live_closed :: "ir_code \<Rightarrow> (nat \<Rightarrow> bool) \<Rightarrow> bool" where
  "live_closed code live = (\<forall>k < length code. live k \<longrightarrow>
     (instr_op (code ! k) \<notin> {IR_OP_JUMP, IR_OP_RETURN} \<longrightarrow> Suc k < length code \<longrightarrow> live (Suc k)) \<and>
     (\<forall>l j. branch_target (code ! k) l \<longrightarrow> ir_find_label_index code l = Some j \<longrightarrow> live j))"

lemma move_fall_op: "ir_move M i s = Fall s' \<Longrightarrow> instr_op i \<notin> {IR_OP_JUMP, IR_OP_RETURN}"
  by (auto simp: ir_move_def jump_to_def split: option.splits)

lemma live_closed_fall:
  "live_closed code live \<Longrightarrow> live k \<Longrightarrow> Suc k < length code \<Longrightarrow> ir_move M (code ! k) s = Fall s' \<Longrightarrow>
   live (Suc k)"
  using move_fall_op [of M "code ! k" s s'] unfolding live_closed_def by (meson Suc_lessD)

lemma live_closed_goto:
  "live_closed code live \<Longrightarrow> live k \<Longrightarrow> k < length code \<Longrightarrow> ir_move M (code ! k) s = Goto l s' \<Longrightarrow>
   ir_find_label_index code l = Some j \<Longrightarrow> live j"
  using move_goto_target [of M "code ! k" s l s'] unfolding live_closed_def by blast

lemma halts_live:
  assumes closed: "live_closed code live" and len: "length code' = length code"
    and same: "\<And>k. k < length code \<Longrightarrow> live k \<Longrightarrow> code' ! k = code ! k"
    and find: "\<And>k l. k < length code \<Longrightarrow> live k \<Longrightarrow> branch_target (code ! k) l \<Longrightarrow>
        ir_find_label_index code' l = ir_find_label_index code l"
    and run: "halts M code pc s out" and pc: "pc < length code \<longrightarrow> live pc"
  shows "halts M code' pc s out"
  using run pc
proof (induction rule: halts.induct)
  case (halts_end pc s)
  then show ?case by (simp add: len)
next
  case (halts_fall pc s s' out)
  then have "Suc pc < length code \<longrightarrow> live (Suc pc)"
    using live_closed_fall [OF closed, of pc M s s'] by simp
  with halts_fall same len show ?case by (simp add: halts_at [of pc])
next
  case (halts_goto pc s l s' j out)
  then have "live pc" and target: "branch_target (code ! pc) l"
    using move_goto_target [OF halts_goto(2)] by auto
  with halts_goto have "live j" using live_closed_goto [OF closed, of pc M s l s' j] by simp
  moreover have "ir_find_label_index code' l = Some j"
    using find [OF _ \<open>live pc\<close> target] halts_goto by simp
  ultimately show ?case using halts_goto same len by (simp add: halts_at [of pc])
next
  case (halts_leave pc s s')
  with same len show ?case by (simp add: halts_at [of pc])
next
  case (halts_fault pc s)
  with same len show ?case by (simp add: halts_at [of pc])
qed

lemma dead_code_same_behaviour:
  assumes closed: "live_closed code live" and len: "length code' = length code" and start: "live 0"
    and same: "\<And>k. k < length code \<Longrightarrow> live k \<Longrightarrow> code' ! k = code ! k"
    and dead: "\<And>k. k < length code \<Longrightarrow> \<not> live k \<Longrightarrow> instr_op (code' ! k) = IR_OP_NOP \<or> code' ! k = code ! k"
  shows "same_behaviour M code code'"
proof -
  have find: "ir_find_label_index code' l = ir_find_label_index code l"
    if k: "k < length code" "live k" "branch_target (code ! k) l" for k l
  proof -
    have sub: "is_label (code ! n) l" if "n < length code" "is_label (code' ! n) l" for n
      using same [of n] dead [of n] that by (cases "live n") (auto simp: is_label_def)
    show ?thesis
    proof (cases "ir_find_label_index code l")
      case None
      have "ir_find_label_index code' l \<noteq> Some j" for j
      proof
        assume "ir_find_label_index code' l = Some j"
        then have "\<exists>j < length code. is_label (code ! j) l"
          using sub len by (auto simp: find_label_index_spec)
        then have "\<exists>j. ir_find_label_index code l = Some j"
          using exists_least_iff [of "\<lambda>j. j < length code \<and> is_label (code ! j) l"]
          by (auto simp: find_label_index_spec)
        with None show False by simp
      qed
      with None show ?thesis by (metis option.exhaust)
    next
      case (Some j)
      then have "live j" using closed k by (auto simp: live_closed_def)
      then have "ir_find_label_index code' l = Some j"
        using Some same sub len by (auto simp: find_label_index_spec)
      with Some show ?thesis by simp
    qed
  qed
  have closed': "live_closed code' live"
    using closed same find len unfolding live_closed_def by metis
  show ?thesis unfolding same_behaviour_def
  proof (intro allI iffI)
    fix s out
    show "halts M code' 0 s out" if "halts M code 0 s out"
      by (rule halts_live [OF closed len same find that]) (use start in auto)
    show "halts M code 0 s out" if "halts M code' 0 s out"
      by (rule halts_live [OF closed' _ _ _ that]) (use start same find len in auto)
  qed
qed

text \<open>The flag of the straight-line pass when it reaches a position.\<close>

primrec straight_flag :: "ir_code \<Rightarrow> nat \<Rightarrow> bool" where
  "straight_flag code 0 = True"
| "straight_flag code (Suc k) = (instr_op (code ! k) = IR_OP_LABEL \<or>
     straight_flag code k \<and> instr_op (code ! k) \<notin> {IR_OP_JUMP, IR_OP_RETURN})"

definition straight_live :: "ir_code \<Rightarrow> nat \<Rightarrow> bool" where
  "straight_live code k = (straight_flag code k \<or> instr_op (code ! k) = IR_OP_LABEL)"

lemma straightline_fold:
  "n \<le> length code \<Longrightarrow> \<exists>code' changed'. fold straightline_step [0..<n] (True, code, changed) =
     (straight_flag code n, code', changed') \<and> length code' = length code \<and>
   (\<forall>k < length code. code' ! k = code ! k \<or>
      k < n \<and> \<not> straight_live code k \<and> instr_op (code' ! k) = IR_OP_NOP)"
proof (induction n)
  case (Suc n)
  then obtain code' changed' where IH:
    "fold straightline_step [0..<n] (True, code, changed) = (straight_flag code n, code', changed')"
    "length code' = length code"
    "\<forall>k < length code. code' ! k = code ! k \<or> k < n \<and> \<not> straight_live code k \<and> instr_op (code' ! k) = IR_OP_NOP"
    by auto
  have n: "n < length code'" "code' ! n = code ! n" using IH(2) spec [OF IH(3), of n] Suc.prems by auto
  have last: "fold straightline_step [0..<Suc n] (True, code, changed) =
      straightline_step n (straight_flag code n, code', changed')" using IH(1) by simp
  show ?case unfolding last using n IH(2,3)
    by (auto simp: straightline_step_def straight_live_def nth_nop_at less_Suc_eq)
qed simp

lemma straight_live_closed: "live_closed code (straight_live code)"
proof -
  have "straight_live code j" if "ir_find_label_index code l = Some j" for l j
    using that by (auto simp: find_label_index_spec is_label_def straight_live_def)
  then show ?thesis by (auto simp: live_closed_def straight_live_def)
qed

lemma straightline_pass_behaviour:
  "length (fst (ir_eliminate_unreachable_straightline_pass (code, changed))) = length code \<and>
   same_labels code (fst (ir_eliminate_unreachable_straightline_pass (code, changed))) \<and>
   same_behaviour M code (fst (ir_eliminate_unreachable_straightline_pass (code, changed)))"
proof -
  let ?out = "fst (ir_eliminate_unreachable_straightline_pass (code, changed))"
  obtain code' changed' where *:
    "fold straightline_step [0..<length code] (True, code, changed) =
       (straight_flag code (length code), code', changed')"
    "length code' = length code"
    "\<forall>k < length code. code' ! k = code ! k \<or> \<not> straight_live code k \<and> instr_op (code' ! k) = IR_OP_NOP"
    using straightline_fold [of "length code" code changed] by auto
  then have out: "?out = code'" by (simp add: ir_eliminate_unreachable_straightline_pass_def)
  have "same_behaviour M code code'"
    by (rule dead_code_same_behaviour [OF straight_live_closed *(2)])
      (use *(3) in \<open>auto simp: straight_live_def\<close>)
  moreover have "same_labels code code'"
    using *(2,3) by (auto simp: same_labels_def list_all2_conv_all_nth is_label_def straight_live_def)
  ultimately show ?thesis using out *(2) by simp
qed

end
