(* ===== verification/IR_Cfg.thy ===== *)
theory IR_Cfg
  imports IR_Flow
begin

text \<open>
  The control-flow graph of a function (\<open>ir_function_rebuild_cfg\<close> in \<open>src/ir/ir.c\<close>) and the pass that
  removes the blocks the entry does not reach (\<open>ir_eliminate_unreachable_blocks_pass\<close> in
  \<open>src/ir/ir_optimize.c\<close>). The builder marks the positions where a block starts, cuts the array
  there, and adds the edges of each block from its last instruction that is not a \<open>NOP\<close>. The blocks
  are shown to tile the array, the edges to be exactly the transfers of control, and the worklist of
  the pass to mark a set of positions that execution cannot leave.
\<close>

section \<open>Building the graph\<close>

record IRBasicBlock =
  block_label :: "string option"
  first_instruction :: nat
  block_instruction_count :: nat
  successors :: "nat list"
  predecessors :: "nat list"

definition ir_instruction_is_terminator :: "IRInstruction \<Rightarrow> bool" where
  "ir_instruction_is_terminator i = (instr_op i = IR_OP_JUMP \<or> instr_op i = IR_OP_RETURN)"

definition mark_start_step :: "ir_code \<Rightarrow> nat \<Rightarrow> bool list \<Rightarrow> bool list" where
  "mark_start_step code i starts =
     (let starts = (if instr_op (code ! i) = IR_OP_LABEL then starts[i := True] else starts) in
      if (ir_instruction_is_terminator (code ! i) \<or> ir_instruction_is_branch (code ! i)) \<and>
         Suc i < length code
      then starts[Suc i := True] else starts)"

definition block_starts :: "ir_code \<Rightarrow> bool list" where
  "block_starts code = fold (mark_start_step code) [0..<length code]
     ((replicate (length code) False)[0 := True])"

function block_end :: "bool list \<Rightarrow> nat \<Rightarrow> nat" where
  "block_end starts e = (if e < length starts \<and> \<not> starts ! e then block_end starts (Suc e) else e)"
  by pat_completeness auto
termination by (relation "measure (\<lambda>(starts, e). length starts - e)") auto

declare block_end.simps [simp del]

lemma block_end_spec:
  "e \<le> block_end starts e \<and> (\<forall>k. e \<le> k \<and> k < block_end starts e \<longrightarrow> \<not> starts ! k) \<and>
   (e \<le> length starts \<longrightarrow> block_end starts e \<le> length starts) \<and>
   (block_end starts e < length starts \<longrightarrow> starts ! block_end starts e)"
proof (induction starts e rule: block_end.induct)
  case (1 starts e)
  show ?case
  proof (cases "e < length starts \<and> \<not> starts ! e")
    case True
    then have eq: "block_end starts e = block_end starts (Suc e)" by (simp add: block_end.simps [of _ e])
    have "\<not> starts ! k" if "e \<le> k" "k < block_end starts (Suc e)" for k
      using that True "1.IH" [OF True] by (cases "k = e") auto
    with "1.IH" [OF True] True show ?thesis unfolding eq by auto
  next
    case False
    then have "block_end starts e = e" by (auto simp: block_end.simps [of starts e])
    with False show ?thesis by auto
  qed
qed

definition make_block :: "ir_code \<Rightarrow> nat \<Rightarrow> nat \<Rightarrow> IRBasicBlock" where
  "make_block code start e =
     \<lparr>block_label = (if instr_op (code ! start) = IR_OP_LABEL then instr_text (code ! start) else None),
      first_instruction = start, block_instruction_count = e - start,
      successors = [], predecessors = []\<rparr>"

function build_blocks :: "ir_code \<Rightarrow> bool list \<Rightarrow> nat \<Rightarrow> IRBasicBlock list" where
  "build_blocks code starts start =
     (if start < length starts then
        if \<not> starts ! start then build_blocks code starts (Suc start)
        else make_block code start (block_end starts (Suc start)) #
          build_blocks code starts (block_end starts (Suc start))
      else [])"
  by pat_completeness auto
termination
proof (relation "measure (\<lambda>(code, starts, start). length starts - start)")
  fix code :: ir_code and starts :: "bool list" and start
  assume "start < length starts"
  moreover have "start < block_end starts (Suc start)"
    using block_end_spec [of "Suc start" starts] by auto
  ultimately show "((code, starts, block_end starts (Suc start)), code, starts, start)
      \<in> measure (\<lambda>(code, starts, start). length starts - start)" by auto
qed auto

declare build_blocks.simps [simp del]

text \<open>The table from labels to blocks, in the order of the blocks.\<close>

definition label_blocks :: "IRBasicBlock list \<Rightarrow> (string \<times> nat) list" where
  "label_blocks blocks = concat (map (\<lambda>b. case block_label (blocks ! b) of None \<Rightarrow> [] | Some l \<Rightarrow> [(l, b)])
     [0..<length blocks])"

definition ir_cfg_find_label_block :: "(string \<times> nat) list \<Rightarrow> string option \<Rightarrow> nat option" where
  "ir_cfg_find_label_block labels text = (case text of None \<Rightarrow> None
     | Some l \<Rightarrow> map_option snd (List.find (\<lambda>(name, b). name = l) labels))"

definition ir_cfg_block_last_non_nop :: "ir_code \<Rightarrow> IRBasicBlock \<Rightarrow> nat option" where
  "ir_cfg_block_last_non_nop code block =
     List.find (\<lambda>offset. instr_op (code ! (first_instruction block + offset)) \<noteq> IR_OP_NOP)
       (rev [0..<block_instruction_count block])"

definition ir_block_append_index_unique :: "nat list \<Rightarrow> nat \<Rightarrow> nat list" where
  "ir_block_append_index_unique items v = (if v \<in> set items then items else items @ [v])"

definition ir_cfg_append_edge :: "nat \<Rightarrow> nat \<Rightarrow> IRBasicBlock list \<Rightarrow> IRBasicBlock list option" where
  "ir_cfg_append_edge source target blocks =
     (if length blocks \<le> source \<or> length blocks \<le> target then None
      else let blocks = blocks[source := (blocks ! source)
             \<lparr>successors := ir_block_append_index_unique (successors (blocks ! source)) target\<rparr>] in
        Some (blocks[target := (blocks ! target)
             \<lparr>predecessors := ir_block_append_index_unique (predecessors (blocks ! target)) source\<rparr>]))"

text \<open>The blocks control passes to at the end of block \<open>i\<close>, in the order the builder adds the edges.\<close>

definition block_targets :: "ir_code \<Rightarrow> (string \<times> nat) list \<Rightarrow> nat \<Rightarrow> IRBasicBlock \<Rightarrow> nat \<Rightarrow> nat list" where
  "block_targets code labels block_count block i =
     (let fallthrough = (if Suc i < block_count then [Suc i] else []) in
      case ir_cfg_block_last_non_nop code block of
        None \<Rightarrow> fallthrough
      | Some offset \<Rightarrow>
         (let last = code ! (first_instruction block + offset);
              jump = (case ir_cfg_find_label_block labels (instr_text last) of None \<Rightarrow> [] | Some t \<Rightarrow> [t]) in
          if instr_op last = IR_OP_JUMP then jump
          else if ir_instruction_is_branch last then jump @ fallthrough
          else if instr_op last \<noteq> IR_OP_RETURN then fallthrough
          else []))"

fun append_edges :: "nat \<Rightarrow> nat list \<Rightarrow> IRBasicBlock list \<Rightarrow> IRBasicBlock list option" where
  "append_edges i [] blocks = Some blocks"
| "append_edges i (t # targets) blocks = (case ir_cfg_append_edge i t blocks of
     None \<Rightarrow> None | Some blocks \<Rightarrow> append_edges i targets blocks)"

fun connect_blocks ::
  "ir_code \<Rightarrow> (string \<times> nat) list \<Rightarrow> nat list \<Rightarrow> IRBasicBlock list \<Rightarrow> IRBasicBlock list option" where
  "connect_blocks code labels [] blocks = Some blocks"
| "connect_blocks code labels (i # rest) blocks =
     (case append_edges i (block_targets code labels (length blocks) (blocks ! i) i) blocks of
        None \<Rightarrow> None
      | Some blocks \<Rightarrow> connect_blocks code labels rest blocks)"

definition ir_function_rebuild_cfg :: "ir_code \<Rightarrow> IRBasicBlock list option" where
  "ir_function_rebuild_cfg code =
     (if code = [] then Some []
      else let blocks = build_blocks code (block_starts code) 0 in
        connect_blocks code (label_blocks blocks) [0..<length blocks] blocks)"

section \<open>The pass\<close>

definition mark_range :: "nat \<Rightarrow> nat \<Rightarrow> bool list \<Rightarrow> bool list" where
  "mark_range start count flags =
     fold (\<lambda>i flags. if start + i < length flags then flags[start + i := True] else flags) [0..<count] flags"

function mark_reachable ::
  "IRBasicBlock list \<Rightarrow> nat list \<Rightarrow> bool list \<Rightarrow> bool list \<Rightarrow> bool list \<times> bool list" where
  "mark_reachable blocks [] reachable_blocks reachable_instructions =
     (reachable_blocks, reachable_instructions)"
| "mark_reachable blocks (b # worklist) reachable_blocks reachable_instructions =
     (if length reachable_blocks \<le> b \<or> reachable_blocks ! b
      then mark_reachable blocks worklist reachable_blocks reachable_instructions
      else mark_reachable blocks (worklist @ successors (blocks ! b)) (reachable_blocks[b := True])
        (mark_range (first_instruction (blocks ! b)) (block_instruction_count (blocks ! b))
           reachable_instructions))"
  by pat_completeness auto
termination
proof (relation "measures [\<lambda>(blocks, w, r, ri). length (filter Not r), \<lambda>(blocks, w, r, ri). length w]")
  fix blocks b w and r ri :: "bool list"
  assume "\<not> (length r \<le> b \<or> r ! b)"
  then have "length (filter Not (r[b := True])) < length (filter Not r)"
    by (induction r arbitrary: b) (auto simp: nth_Cons' list_update_code split: nat.splits if_splits)
  then show "((blocks, w @ successors (blocks ! b), r[b := True],
      mark_range (first_instruction (blocks ! b)) (block_instruction_count (blocks ! b)) ri),
      blocks, b # w, r, ri)
      \<in> measures [\<lambda>(blocks, w, r, ri). length (filter Not r), \<lambda>(blocks, w, r, ri). length w]" by simp
qed auto

definition unreachable_step :: "bool list \<Rightarrow> nat \<Rightarrow> pass_state \<Rightarrow> pass_state" where
  "unreachable_step reachable_instructions i = (\<lambda>(code, changed).
     if \<not> reachable_instructions ! i \<and> instr_op (code ! i) \<noteq> IR_OP_NOP
     then (nop_at i code, True) else (code, changed))"

definition ir_eliminate_unreachable_blocks_pass :: "pass_state \<Rightarrow> pass_state option" where
  "ir_eliminate_unreachable_blocks_pass st =
     (if fst st = [] then Some st
      else case ir_function_rebuild_cfg (fst st) of
        None \<Rightarrow> None
      | Some blocks \<Rightarrow>
          if blocks = [] then Some st
          else let (_, reachable_instructions) = mark_reachable blocks [0]
                 (replicate (length blocks) False) (replicate (length (fst st)) False) in
            Some (fold (unreachable_step reachable_instructions) [0..<length (fst st)] st))"

section \<open>The blocks tile the array\<close>

lemma length_mark_start_step [simp]: "length (mark_start_step code i starts) = length starts"
  by (simp add: mark_start_step_def Let_def)

definition starts_block :: "ir_code \<Rightarrow> nat \<Rightarrow> bool" where
  "starts_block code k = (k = 0 \<or> instr_op (code ! k) = IR_OP_LABEL \<or>
     (\<exists>p. k = Suc p \<and> (ir_instruction_is_terminator (code ! p) \<or> ir_instruction_is_branch (code ! p))))"

lemma block_starts_fold:
  "n \<le> length code \<Longrightarrow>
   length (fold (mark_start_step code) [0..<n] ((replicate (length code) False)[0 := True])) = length code \<and>
   (\<forall>k < length code. fold (mark_start_step code) [0..<n] ((replicate (length code) False)[0 := True]) ! k \<longleftrightarrow>
      k = 0 \<or> (k < n \<and> instr_op (code ! k) = IR_OP_LABEL) \<or>
      (\<exists>p < n. k = Suc p \<and> (ir_instruction_is_terminator (code ! p) \<or> ir_instruction_is_branch (code ! p))))"
proof (induction n)
  case 0
  then show ?case by (cases code) (auto simp: nth_Cons' nth_replicate)
next
  case (Suc n)
  then show ?case
    by (auto simp: mark_start_step_def Let_def nth_list_update less_Suc_eq)
qed

lemma block_starts_nth [simp]:
  "length (block_starts code) = length code"
  "k < length code \<Longrightarrow> block_starts code ! k = starts_block code k"
  using block_starts_fold [of "length code" code]
  by (auto simp: block_starts_def starts_block_def)

text \<open>A list of blocks that covers the array from \<open>s\<close> on.\<close>

definition block_at :: "ir_code \<Rightarrow> nat \<Rightarrow> IRBasicBlock \<Rightarrow> bool" where
  "block_at code s b = (first_instruction b = s \<and> 0 < block_instruction_count b \<and>
     s + block_instruction_count b \<le> length code \<and> starts_block code s \<and>
     (\<forall>k. s < k \<and> k < s + block_instruction_count b \<longrightarrow> \<not> starts_block code k) \<and>
     block_label b = (if instr_op (code ! s) = IR_OP_LABEL then instr_text (code ! s) else None))"

fun tiles :: "ir_code \<Rightarrow> nat \<Rightarrow> IRBasicBlock list \<Rightarrow> bool" where
  "tiles code s [] = (s = length code)"
| "tiles code s (b # bs) = (block_at code s b \<and> tiles code (s + block_instruction_count b) bs)"

lemma build_blocks_tiles:
  "s \<le> length code \<Longrightarrow> (s < length code \<longrightarrow> starts_block code s) \<Longrightarrow>
   tiles code s (build_blocks code (block_starts code) s)"
proof (induction "length code - s" arbitrary: s rule: less_induct)
  case less
  show ?case
  proof (cases "s < length code")
    case True
    let ?e = "block_end (block_starts code) (Suc s)"
    have e: "Suc s \<le> ?e" "?e \<le> length code" "?e < length code \<longrightarrow> starts_block code ?e"
      "\<forall>k. Suc s \<le> k \<and> k < ?e \<longrightarrow> \<not> starts_block code k"
      using block_end_spec [of "Suc s" "block_starts code"] True by auto
    have "build_blocks code (block_starts code) s =
        make_block code s ?e # build_blocks code (block_starts code) ?e"
      using True less.prems by (simp add: build_blocks.simps [of code _ s])
    moreover have "block_at code s (make_block code s ?e)"
      using e True less.prems by (auto simp: block_at_def make_block_def Suc_le_eq)
    moreover have "s + block_instruction_count (make_block code s ?e) = ?e"
      using e by (simp add: make_block_def)
    moreover have "tiles code ?e (build_blocks code (block_starts code) ?e)"
      using less.hyps [of ?e] e True by simp
    ultimately show ?thesis by simp
  next
    case False
    then have "build_blocks code (block_starts code) s = []"
      by (simp add: build_blocks.simps [of code "block_starts code" s])
    with less.prems False show ?thesis by simp
  qed
qed

lemma build_blocks_no_edges:
  "b \<in> set (build_blocks code starts s) \<Longrightarrow> successors b = [] \<and> predecessors b = []"
proof (induction code starts s rule: build_blocks.induct)
  case (1 code starts s)
  then show ?case
    by (subst (asm) (3) build_blocks.simps) (auto simp: make_block_def split: if_splits)
qed

lemma tiles_nth:
  "tiles code s bs \<Longrightarrow> b < length bs \<Longrightarrow>
   block_at code (first_instruction (bs ! b)) (bs ! b) \<and> s \<le> first_instruction (bs ! b) \<and>
   (if Suc b < length bs
    then first_instruction (bs ! Suc b) = first_instruction (bs ! b) + block_instruction_count (bs ! b)
    else length code = first_instruction (bs ! b) + block_instruction_count (bs ! b))"
proof (induction code s bs arbitrary: b rule: tiles.induct)
  case (2 code s a bs)
  show ?case
  proof (cases b)
    case 0
    with "2.prems" show ?thesis by (cases bs) (auto simp: block_at_def)
  next
    case (Suc c)
    from "2.prems" Suc have "tiles code (s + block_instruction_count a) bs" "c < length bs" by simp_all
    from "2.IH" [OF this] Suc show ?thesis by simp
  qed
qed simp

lemma tiles_cover:
  "tiles code s bs \<Longrightarrow> s \<le> k \<Longrightarrow> k < length code \<Longrightarrow>
   \<exists>b < length bs. first_instruction (bs ! b) \<le> k \<and>
     k < first_instruction (bs ! b) + block_instruction_count (bs ! b)"
proof (induction code s bs rule: tiles.induct)
  case (2 code s a bs)
  show ?case
  proof (cases "k < s + block_instruction_count a")
    case True
    with 2 show ?thesis by (intro exI [of _ 0]) (auto simp: block_at_def)
  next
    case False
    with 2 obtain b where "b < length bs" "first_instruction (bs ! b) \<le> k"
      "k < first_instruction (bs ! b) + block_instruction_count (bs ! b)" by auto
    then show ?thesis by (intro exI [of _ "Suc b"]) auto
  qed
qed simp

lemma tiles_order:
  assumes "tiles code s bs" "b < c" "c < length bs"
  shows "first_instruction (bs ! b) + block_instruction_count (bs ! b) \<le> first_instruction (bs ! c)"
  using assms(2,3)
proof (induction c)
  case (Suc c)
  have "first_instruction (bs ! Suc c) = first_instruction (bs ! c) + block_instruction_count (bs ! c)"
    using tiles_nth [OF assms(1), of c] Suc.prems by simp
  with Suc show ?case by (cases "b = c") auto
qed simp

lemma tiles_start_first:
  assumes "tiles code s bs" "c < length bs" "first_instruction (bs ! c) \<le> k"
    "k < first_instruction (bs ! c) + block_instruction_count (bs ! c)" "starts_block code k"
  shows "k = first_instruction (bs ! c)"
  using tiles_nth [OF assms(1,2)] assms(3-5) unfolding block_at_def by (metis le_neq_implies_less)

text \<open>Labels of the table: the first block labelled \<open>l\<close> starts where the label search finds \<open>l\<close>.\<close>

lemma label_blocks_mem: "(l, b) \<in> set (label_blocks bs) \<longleftrightarrow> b < length bs \<and> block_label (bs ! b) = Some l"
  by (auto simp: label_blocks_def split: option.splits)

lemma find_first_upt:
  "List.find P (concat (map f [0..<n])) = Some x \<Longrightarrow>
   \<exists>b < n. x \<in> set (f b) \<and> P x \<and> (\<forall>c < b. \<forall>y \<in> set (f c). \<not> P y)"
proof (induction n)
  case (Suc n)
  show ?case
  proof (cases "List.find P (concat (map f [0..<n]))")
    case None
    then have "List.find P (f n) = Some x" using Suc.prems by (simp add: find_append)
    with None show ?thesis by (intro exI [of _ n]) (fastforce simp: find_None_iff dest: find_Some_mem)
  next
    case (Some y)
    with Suc show ?thesis by (auto simp: find_append less_Suc_eq)
  qed
qed simp

lemma block_label_position:
  assumes "tiles code 0 bs" "b < length bs"
  shows "block_label (bs ! b) = Some l \<longleftrightarrow> is_label (code ! first_instruction (bs ! b)) l"
  using tiles_nth [OF assms] by (auto simp: block_at_def is_label_def)

lemma find_label_block:
  assumes t: "tiles code 0 bs"
  shows "ir_cfg_find_label_block (label_blocks bs) (Some l) = Some b \<longleftrightarrow>
    b < length bs \<and> ir_find_label_index code l = Some (first_instruction (bs ! b))"
proof
  assume "ir_cfg_find_label_block (label_blocks bs) (Some l) = Some b"
  then obtain x where x: "List.find (\<lambda>(name, b). name = l) (label_blocks bs) = Some x" "snd x = b"
    by (auto simp: ir_cfg_find_label_block_def)
  from find_first_upt [OF x(1) [unfolded label_blocks_def]] x(2)
  have b: "b < length bs" "block_label (bs ! b) = Some l" "\<forall>c < b. block_label (bs ! c) \<noteq> Some l"
    by (fastforce split: option.splits prod.splits)+
  have "\<not> is_label (code ! k) l" if "k < first_instruction (bs ! b)" for k
  proof
    assume lab: "is_label (code ! k) l"
    have k: "k < length code" using that tiles_nth [OF t b(1)] by (simp add: block_at_def)
    obtain c where c: "c < length bs" "first_instruction (bs ! c) \<le> k"
      "k < first_instruction (bs ! c) + block_instruction_count (bs ! c)"
      using tiles_cover [OF t _ k] by auto
    have "starts_block code k" using lab by (simp add: starts_block_def is_label_def)
    then have "k = first_instruction (bs ! c)" using tiles_start_first [OF t c] by simp
    moreover have "c < b"
      using tiles_order [OF t, of b c] c that tiles_nth [OF t b(1)] by (cases b c rule: linorder_cases) auto
    ultimately show False using b(3) lab block_label_position [OF t c(1)] by auto
  qed
  moreover have "first_instruction (bs ! b) < length code" using tiles_nth [OF t b(1)] by (simp add: block_at_def)
  ultimately show "b < length bs \<and> ir_find_label_index code l = Some (first_instruction (bs ! b))"
    using b block_label_position [OF t b(1)] by (simp add: find_label_index_spec)
next
  assume *: "b < length bs \<and> ir_find_label_index code l = Some (first_instruction (bs ! b))"
  then have lab: "block_label (bs ! b) = Some l"
    using block_label_position [OF t, of b] by (simp add: find_label_index_spec)
  then have "List.find (\<lambda>(name, b). name = l) (label_blocks bs) \<noteq> None"
    using * by (auto simp: find_None_iff label_blocks_mem)
  then obtain x where x: "List.find (\<lambda>(name, b). name = l) (label_blocks bs) = Some x" by auto
  from find_first_upt [OF x [unfolded label_blocks_def]]
  have c: "snd x < length bs" "block_label (bs ! snd x) = Some l" "\<forall>c < snd x. block_label (bs ! c) \<noteq> Some l"
    by (fastforce split: option.splits prod.splits)+
  have "snd x = b"
  proof (cases "snd x" b rule: linorder_cases)
    case less
    then have "first_instruction (bs ! snd x) < first_instruction (bs ! b)"
      using tiles_order [OF t less] * tiles_nth [OF t c(1)] by (auto simp: block_at_def)
    moreover have "is_label (code ! first_instruction (bs ! snd x)) l"
      using c block_label_position [OF t c(1)] by simp
    ultimately show ?thesis using * by (auto simp: find_label_index_spec)
  qed (use c lab in auto)
  with x show "ir_cfg_find_label_block (label_blocks bs) (Some l) = Some b"
    by (simp add: ir_cfg_find_label_block_def)
qed

section \<open>The edges\<close>

text \<open>Two lists of blocks that differ in their edges only.\<close>

definition same_ranges :: "IRBasicBlock list \<Rightarrow> IRBasicBlock list \<Rightarrow> bool" where
  "same_ranges bs bs' = (length bs' = length bs \<and> (\<forall>b < length bs.
     block_label (bs' ! b) = block_label (bs ! b) \<and>
     first_instruction (bs' ! b) = first_instruction (bs ! b) \<and>
     block_instruction_count (bs' ! b) = block_instruction_count (bs ! b)))"

lemma same_ranges_trans: "same_ranges a b \<Longrightarrow> same_ranges b c \<Longrightarrow> same_ranges a c"
  by (simp add: same_ranges_def)

lemma set_append_unique [simp]: "set (ir_block_append_index_unique items v) = insert v (set items)"
  by (auto simp: ir_block_append_index_unique_def)

lemma append_edge_spec:
  assumes "i < length bs" "t < length bs"
  shows "\<exists>bs'. ir_cfg_append_edge i t bs = Some bs' \<and> same_ranges bs bs' \<and>
    (\<forall>b < length bs. set (successors (bs' ! b)) = set (successors (bs ! b)) \<union> (if b = i then {t} else {}) \<and>
       set (predecessors (bs' ! b)) = set (predecessors (bs ! b)) \<union> (if b = t then {i} else {}))"
  using assms by (auto simp: ir_cfg_append_edge_def Let_def same_ranges_def nth_list_update)

lemma append_edges_spec:
  assumes "i < length bs" "\<forall>t \<in> set ts. t < length bs"
  shows "\<exists>bs'. append_edges i ts bs = Some bs' \<and> same_ranges bs bs' \<and>
    (\<forall>b < length bs. set (successors (bs' ! b)) = set (successors (bs ! b)) \<union> (if b = i then set ts else {}) \<and>
       set (predecessors (bs' ! b)) = set (predecessors (bs ! b)) \<union> (if b \<in> set ts then {i} else {}))"
  using assms
proof (induction ts arbitrary: bs)
  case Nil
  then show ?case by (simp add: same_ranges_def)
next
  case (Cons t ts)
  then obtain bs1 where one: "ir_cfg_append_edge i t bs = Some bs1" "same_ranges bs bs1"
    "\<forall>b < length bs. set (successors (bs1 ! b)) = set (successors (bs ! b)) \<union> (if b = i then {t} else {}) \<and>
       set (predecessors (bs1 ! b)) = set (predecessors (bs ! b)) \<union> (if b = t then {i} else {})"
    using append_edge_spec [of i bs t] by auto
  have len: "length bs1 = length bs" using one(2) by (simp add: same_ranges_def)
  obtain bs2 where two: "append_edges i ts bs1 = Some bs2" "same_ranges bs1 bs2"
    "\<forall>b < length bs1. set (successors (bs2 ! b)) = set (successors (bs1 ! b)) \<union> (if b = i then set ts else {}) \<and>
       set (predecessors (bs2 ! b)) = set (predecessors (bs1 ! b)) \<union> (if b \<in> set ts then {i} else {})"
    using Cons.IH [of bs1] Cons.prems len by auto
  show ?case using one two len same_ranges_trans [OF one(2) two(2)]
    by (intro exI [of _ bs2]) auto
qed

lemma block_last_non_nop_cong:
  "first_instruction a = first_instruction b \<Longrightarrow> block_instruction_count a = block_instruction_count b \<Longrightarrow>
   ir_cfg_block_last_non_nop code a = ir_cfg_block_last_non_nop code b"
  by (simp add: ir_cfg_block_last_non_nop_def)

lemma block_targets_cong:
  assumes "first_instruction a = first_instruction b" "block_instruction_count a = block_instruction_count b"
  shows "block_targets code labels n a i = block_targets code labels n b i"
  unfolding block_targets_def block_last_non_nop_cong [OF assms] assms(1) ..

lemma block_targets_bound:
  assumes "\<forall>(l, b) \<in> set labels. b < n" "i < n"
  shows "\<forall>t \<in> set (block_targets code labels n block i). t < n"
proof -
  have "b < n" if "ir_cfg_find_label_block labels l = Some b" for l b
    using that assms(1) find_Some_mem
    by (fastforce simp: ir_cfg_find_label_block_def split: option.splits)
  then show ?thesis by (auto simp: block_targets_def Let_def split: option.splits)
qed

lemma connect_blocks_spec:
  assumes "\<forall>(l, b) \<in> set labels. b < length bs" "\<forall>i \<in> set is. i < length bs"
  shows "\<exists>bs'. connect_blocks code labels is bs = Some bs' \<and> same_ranges bs bs' \<and>
    (\<forall>b < length bs.
       set (successors (bs' ! b)) = set (successors (bs ! b)) \<union>
         (if b \<in> set is then set (block_targets code labels (length bs) (bs ! b) b) else {}) \<and>
       set (predecessors (bs' ! b)) = set (predecessors (bs ! b)) \<union>
         {i \<in> set is. b \<in> set (block_targets code labels (length bs) (bs ! i) i)})"
  using assms
proof (induction "is" arbitrary: bs)
  case Nil
  then show ?case by (simp add: same_ranges_def)
next
  case (Cons i rest)
  let ?t = "\<lambda>bs b. block_targets code labels (length bs) (bs ! b) b"
  have bound: "i < length bs" "\<forall>t \<in> set (?t bs i). t < length bs"
    using block_targets_bound [OF Cons.prems(1), of i code "bs ! i"] Cons.prems(2) by auto
  obtain bs1 where one: "append_edges i (?t bs i) bs = Some bs1" "same_ranges bs bs1"
    "\<forall>b < length bs. set (successors (bs1 ! b)) = set (successors (bs ! b)) \<union> (if b = i then set (?t bs i) else {}) \<and>
       set (predecessors (bs1 ! b)) = set (predecessors (bs ! b)) \<union> (if b \<in> set (?t bs i) then {i} else {})"
    using append_edges_spec [OF bound] by blast
  have len: "length bs1 = length bs" using one(2) by (simp add: same_ranges_def)
  have bounds1: "\<forall>(l, b) \<in> set labels. b < length bs1" "\<forall>i \<in> set rest. i < length bs1"
    using Cons.prems len by simp_all
  have same: "?t bs1 b = ?t bs b" if "b < length bs" for b
    using one(2) that by (simp add: same_ranges_def block_targets_cong [of "bs1 ! b" "bs ! b"])
  obtain bs2 where two: "connect_blocks code labels rest bs1 = Some bs2" "same_ranges bs1 bs2"
    "\<forall>b < length bs1. set (successors (bs2 ! b)) = set (successors (bs1 ! b)) \<union>
         (if b \<in> set rest then set (?t bs1 b) else {}) \<and>
       set (predecessors (bs2 ! b)) = set (predecessors (bs1 ! b)) \<union> {i \<in> set rest. b \<in> set (?t bs1 i)}"
    using Cons.IH [OF bounds1] by blast
  have preds: "{i \<in> set rest. b \<in> set (?t bs1 i)} = {i \<in> set rest. b \<in> set (?t bs i)}" for b
    using same Cons.prems(2) by auto
  show ?case
  proof (intro exI [of _ bs2] conjI allI impI)
    show "connect_blocks code labels (i # rest) bs = Some bs2" using one(1) two(1) by simp
    show "same_ranges bs bs2" using one(2) two(2) by (rule same_ranges_trans)
  next
    fix b assume b: "b < length bs"
    show "set (successors (bs2 ! b)) = set (successors (bs ! b)) \<union>
        (if b \<in> set (i # rest) then set (?t bs b) else {})"
      using one(3) two(3) b len same [OF b] by auto
    show "set (predecessors (bs2 ! b)) = set (predecessors (bs ! b)) \<union>
        {j \<in> set (i # rest). b \<in> set (?t bs j)}"
      using spec [OF one(3), of b] spec [OF two(3), of b] preds [of b] b len by auto
  qed
qed

text \<open>What the builder delivers.\<close>

definition cfg_of :: "ir_code \<Rightarrow> IRBasicBlock list \<Rightarrow> bool" where
  "cfg_of code bs = (tiles code 0 bs \<and> (\<forall>b < length bs.
     set (successors (bs ! b)) = set (block_targets code (label_blocks bs) (length bs) (bs ! b) b) \<and>
     set (predecessors (bs ! b)) = {i. i < length bs \<and> b \<in> set (successors (bs ! i))}))"

lemma same_ranges_tiles:
  "tiles code s bs \<Longrightarrow> same_ranges bs bs' \<Longrightarrow> tiles code s bs'"
proof (induction code s bs arbitrary: bs' rule: tiles.induct)
  case (2 code s b bs)
  then obtain b' bs1 where bs': "bs' = b' # bs1" by (cases bs') (auto simp: same_ranges_def)
  with "2.prems" have "same_ranges bs bs1" and b: "block_label b' = block_label b"
    "first_instruction b' = first_instruction b" "block_instruction_count b' = block_instruction_count b"
    by (auto simp: same_ranges_def All_less_Suc2)
  with 2 bs' show ?case by (simp add: block_at_def)
qed (simp add: same_ranges_def)

lemma same_ranges_labels: "same_ranges bs bs' \<Longrightarrow> label_blocks bs' = label_blocks bs"
  by (auto simp: label_blocks_def same_ranges_def intro!: arg_cong [where f = concat] map_cong)

lemma rebuild_cfg_ok:
  obtains bs where "ir_function_rebuild_cfg code = Some bs" "cfg_of code bs"
proof (cases "code = []")
  case True
  then show thesis by (intro that [of "[]"]) (simp_all add: ir_function_rebuild_cfg_def cfg_of_def)
next
  case False
  let ?bs = "build_blocks code (block_starts code) 0"
  let ?labels = "label_blocks ?bs"
  have t: "tiles code 0 ?bs" by (rule build_blocks_tiles) (auto simp: starts_block_def)
  have empty: "successors (?bs ! b) = [] \<and> predecessors (?bs ! b) = []" if "b < length ?bs" for b
    using build_blocks_no_edges nth_mem [OF that] by blast
  have bounds: "\<forall>(l, b) \<in> set ?labels. b < length ?bs" by (auto simp: label_blocks_mem)
  obtain bs where bs: "connect_blocks code ?labels [0..<length ?bs] ?bs = Some bs" "same_ranges ?bs bs"
    "\<forall>b < length ?bs.
       set (successors (bs ! b)) = set (block_targets code ?labels (length ?bs) (?bs ! b) b) \<and>
       set (predecessors (bs ! b)) =
         {i. i < length ?bs \<and> b \<in> set (block_targets code ?labels (length ?bs) (?bs ! i) i)}"
    using connect_blocks_spec [OF bounds, of "[0..<length ?bs]" code] empty by auto
  have len: "length bs = length ?bs" using bs(2) by (simp add: same_ranges_def)
  have same: "block_targets code (label_blocks bs) (length bs) (bs ! b) b =
      block_targets code ?labels (length ?bs) (?bs ! b) b" if "b < length ?bs" for b
    using bs(2) that same_ranges_labels [OF bs(2)] len
    by (simp add: same_ranges_def block_targets_cong [of "bs ! b" "?bs ! b"])
  have "cfg_of code bs" unfolding cfg_of_def
    using same_ranges_tiles [OF t bs(2)] bs(3) same len by auto
  with bs(1) False show thesis by (intro that) (simp_all add: ir_function_rebuild_cfg_def Let_def)
qed

section \<open>Blocks and execution\<close>

text \<open>Within a block only its last position can transfer control, and the last position that is not a
  \<open>NOP\<close> decides the edges.\<close>

lemma block_inner:
  assumes "block_at code s b" "s \<le> k" "Suc k < s + block_instruction_count b"
  shows "\<not> ir_instruction_is_terminator (code ! k)" "\<not> ir_instruction_is_branch (code ! k)"
proof -
  have "\<not> starts_block code (Suc k)" using assms by (auto simp: block_at_def)
  then show "\<not> ir_instruction_is_terminator (code ! k)" "\<not> ir_instruction_is_branch (code ! k)"
    by (auto simp: starts_block_def)
qed

lemma last_non_nop_end:
  assumes "0 < block_instruction_count b"
    and "instr_op (code ! (first_instruction b + block_instruction_count b - 1)) \<noteq> IR_OP_NOP"
  shows "ir_cfg_block_last_non_nop code b = Some (block_instruction_count b - 1)"
  using assms by (cases "block_instruction_count b") (auto simp: ir_cfg_block_last_non_nop_def)

lemma last_non_nop_bound:
  "ir_cfg_block_last_non_nop code b = Some offset \<Longrightarrow> offset < block_instruction_count b \<and>
   instr_op (code ! (first_instruction b + offset)) \<noteq> IR_OP_NOP"
  by (auto simp: ir_cfg_block_last_non_nop_def dest: find_Some_mem)

lemma fallthrough_edge:
  assumes b: "block_at code (first_instruction b) b" and "Suc i < n"
    and last: "instr_op (code ! (first_instruction b + block_instruction_count b - 1)) \<notin> {IR_OP_JUMP, IR_OP_RETURN}"
  shows "Suc i \<in> set (block_targets code labels n b i)"
proof (cases "ir_cfg_block_last_non_nop code b")
  case (Some offset)
  let ?k = "first_instruction b + offset"
  have "instr_op (code ! ?k) \<notin> {IR_OP_JUMP, IR_OP_RETURN}"
  proof (cases "offset = block_instruction_count b - 1")
    case True
    with last last_non_nop_bound [OF Some] show ?thesis by simp
  next
    case False
    with last_non_nop_bound [OF Some] have "Suc ?k < first_instruction b + block_instruction_count b"
      by linarith
    from block_inner [OF b _ this] show ?thesis by (simp add: ir_instruction_is_terminator_def)
  qed
  with Some assms(2) show ?thesis by (simp add: block_targets_def Let_def)
qed (use assms(2) in \<open>simp add: block_targets_def\<close>)

lemma jump_edge:
  assumes b: "block_at code (first_instruction b) b"
    and "branch_target (code ! (first_instruction b + block_instruction_count b - 1)) l"
    and "ir_cfg_find_label_block labels (Some l) = Some t"
  shows "t \<in> set (block_targets code labels n b i)"
proof -
  obtain d where d: "block_instruction_count b = Suc d"
    using b by (cases "block_instruction_count b") (auto simp: block_at_def)
  have "ir_cfg_block_last_non_nop code b = Some d"
    using assms(2) d last_non_nop_end [of b code] by (auto simp: branch_target_def)
  with assms(2,3) d show ?thesis unfolding block_targets_def
    by (auto simp: Let_def branch_target_def ir_instruction_is_branch_def)
qed

section \<open>The worklist\<close>

lemma mark_range_spec:
  "length (mark_range start count flags) = length flags \<and> (\<forall>k < length flags.
     mark_range start count flags ! k \<longleftrightarrow> flags ! k \<or> start \<le> k \<and> k < start + count)"
proof (induction count)
  case 0
  then show ?case by (auto simp: mark_range_def)
next
  case (Suc n)
  have "mark_range start (Suc n) flags = (let flags' = mark_range start n flags in
      if start + n < length flags' then flags'[start + n := True] else flags')"
    by (simp add: mark_range_def Let_def)
  with Suc show ?case by (auto simp: Let_def nth_list_update)
qed

lemma length_mark_range [simp]: "length (mark_range start count flags) = length flags"
  using mark_range_spec by blast

lemma mark_range_nth [simp]: "k < length flags \<Longrightarrow>
    mark_range start count flags ! k = (flags ! k \<or> start \<le> k \<and> k < start + count)"
  using mark_range_spec by blast

text \<open>The invariant of the loop: a marked block has each successor marked or waiting, and the marked
  positions are those of the marked blocks.\<close>

definition worklist_ok :: "IRBasicBlock list \<Rightarrow> nat list \<Rightarrow> bool list \<Rightarrow> bool list \<Rightarrow> bool" where
  "worklist_ok bs w r ri = (length r = length bs \<and>
     (\<forall>b < length bs. r ! b \<longrightarrow> (\<forall>c \<in> set (successors (bs ! b)). c < length bs \<longrightarrow> r ! c \<or> c \<in> set w)) \<and>
     (\<forall>k < length ri. ri ! k \<longleftrightarrow> (\<exists>b < length bs. r ! b \<and> first_instruction (bs ! b) \<le> k \<and>
        k < first_instruction (bs ! b) + block_instruction_count (bs ! b))))"

lemma worklist_ok_visit:
  assumes ok: "worklist_ok bs (b # w) r ri" and b: "b < length r" "\<not> r ! b"
  shows "worklist_ok bs (w @ successors (bs ! b)) (r[b := True])
    (mark_range (first_instruction (bs ! b)) (block_instruction_count (bs ! b)) ri)"
  unfolding worklist_ok_def
proof (intro conjI allI impI ballI)
  show "length (r[b := True]) = length bs" using ok by (simp add: worklist_ok_def)
next
  fix a c assume "a < length bs" "r[b := True] ! a" "c \<in> set (successors (bs ! a))" "c < length bs"
  then show "r[b := True] ! c \<or> c \<in> set (w @ successors (bs ! b))"
    using ok b by (cases "a = b"; cases "c = b") (auto simp: worklist_ok_def nth_list_update)
next
  fix k assume "k < length (mark_range (first_instruction (bs ! b)) (block_instruction_count (bs ! b)) ri)"
  then show "mark_range (first_instruction (bs ! b)) (block_instruction_count (bs ! b)) ri ! k \<longleftrightarrow>
      (\<exists>a < length bs. r[b := True] ! a \<and> first_instruction (bs ! a) \<le> k \<and>
        k < first_instruction (bs ! a) + block_instruction_count (bs ! a))"
    using ok b by (auto simp: worklist_ok_def nth_list_update)
qed

lemma mark_reachable_spec:
  assumes "worklist_ok bs w r ri"
  shows "\<exists>r' ri'. mark_reachable bs w r ri = (r', ri') \<and> worklist_ok bs [] r' ri' \<and>
    length ri' = length ri \<and> (\<forall>b < length r. r ! b \<or> b \<in> set w \<longrightarrow> r' ! b)"
  using assms
proof (induction bs w r ri rule: mark_reachable.induct)
  case (2 bs b w r ri)
  show ?case
  proof (cases "length r \<le> b \<or> r ! b")
    case True
    then have "worklist_ok bs w r ri" using "2.prems" by (auto simp: worklist_ok_def) blast
    from "2.IH"(1) [OF True this] True show ?thesis by auto
  next
    case False
    then have "worklist_ok bs (w @ successors (bs ! b)) (r[b := True])
        (mark_range (first_instruction (bs ! b)) (block_instruction_count (bs ! b)) ri)"
      using worklist_ok_visit [OF "2.prems"] by simp
    from "2.IH"(2) [OF False this] False show ?thesis by (auto simp: nth_list_update)
  qed
qed auto

section \<open>The pass keeps the behaviour\<close>

lemma reached_live_closed:
  assumes cfg: "cfg_of code bs" and ok: "worklist_ok bs [] r ri" and len: "length ri = length code"
  shows "live_closed code (\<lambda>k. ri ! k)"
  unfolding live_closed_def
proof (intro allI impI conjI)
  have t: "tiles code 0 bs" using cfg by (simp add: cfg_of_def)
  have lenr: "length r = length bs" using ok by (simp add: worklist_ok_def)
  have succ: "\<forall>b < length bs. r ! b \<longrightarrow> (\<forall>c \<in> set (successors (bs ! b)). c < length bs \<longrightarrow> r ! c)"
    using ok by (simp add: worklist_ok_def)
  have targets: "\<forall>b < length bs. set (successors (bs ! b)) =
      set (block_targets code (label_blocks bs) (length bs) (bs ! b) b)" using cfg by (simp add: cfg_of_def)
  have edge: "r ! c" if "r ! b" "b < length bs" "c < length bs"
      "c \<in> set (block_targets code (label_blocks bs) (length bs) (bs ! b) b)" for b c
    using that succ targets by blast
  have mark: "ri ! k \<longleftrightarrow> (\<exists>b < length bs. r ! b \<and> first_instruction (bs ! b) \<le> k \<and>
        k < first_instruction (bs ! b) + block_instruction_count (bs ! b))" if "k < length code" for k
    using ok that len by (simp add: worklist_ok_def)
  fix k assume k: "k < length code" "ri ! k"
  then obtain b where b: "b < length bs" "r ! b" "first_instruction (bs ! b) \<le> k"
    "k < first_instruction (bs ! b) + block_instruction_count (bs ! b)" using mark by blast
  note at = tiles_nth [OF t b(1)]
  have next_start: "first_instruction (bs ! Suc b) = Suc k \<and> 0 < block_instruction_count (bs ! Suc b)"
    if "Suc b < length bs" "Suc k = first_instruction (bs ! b) + block_instruction_count (bs ! b)"
    using at that tiles_nth [OF t that(1)] by (simp add: block_at_def)
  {
    assume fall: "instr_op (code ! k) \<notin> {IR_OP_JUMP, IR_OP_RETURN}" and "Suc k < length code"
    show "ri ! Suc k"
    proof (cases "Suc k < first_instruction (bs ! b) + block_instruction_count (bs ! b)")
      case True
      with b mark [OF \<open>Suc k < length code\<close>] show ?thesis by auto
    next
      case False
      with b have end_: "Suc k = first_instruction (bs ! b) + block_instruction_count (bs ! b)" by simp
      then have k_end: "k = first_instruction (bs ! b) + block_instruction_count (bs ! b) - 1" by simp
      have n: "Suc b < length bs" using conjunct2 [OF at] end_ \<open>Suc k < length code\<close> by (simp split: if_splits)
      have "Suc b \<in> set (block_targets code (label_blocks bs) (length bs) (bs ! b) b)"
        by (rule fallthrough_edge [OF conjunct1 [OF at] n]) (use fall k_end in simp)
      then have "r ! Suc b" by (rule edge [OF b(2,1) n])
      with n next_start [OF n end_] mark [OF \<open>Suc k < length code\<close>] show ?thesis by auto
    qed
  next
    fix l j assume target: "branch_target (code ! k) l" and j: "ir_find_label_index code l = Some j"
    have "\<not> Suc k < first_instruction (bs ! b) + block_instruction_count (bs ! b)"
      using block_inner [OF conjunct1 [OF at] b(3)] target
      by (auto simp: branch_target_def ir_instruction_is_branch_def ir_instruction_is_terminator_def)
    with b have k_end: "k = first_instruction (bs ! b) + block_instruction_count (bs ! b) - 1" by simp
    have jl: "j < length code" "is_label (code ! j) l" using j by (auto simp: find_label_index_spec)
    obtain c where c: "c < length bs" "first_instruction (bs ! c) \<le> j"
      "j < first_instruction (bs ! c) + block_instruction_count (bs ! c)"
      using tiles_cover [OF t _ jl(1)] by auto
    have "starts_block code j" using jl(2) by (simp add: starts_block_def is_label_def)
    then have jc: "j = first_instruction (bs ! c)" using tiles_start_first [OF t c] by simp
    then have "ir_cfg_find_label_block (label_blocks bs) (Some l) = Some c"
      using find_label_block [OF t] c(1) j by simp
    then have "c \<in> set (block_targets code (label_blocks bs) (length bs) (bs ! b) b)"
      using target unfolding k_end by (intro jump_edge [OF conjunct1 [OF at]])
    then have "r ! c" by (rule edge [OF b(2,1) c(1)])
    with c mark [OF jl(1)] show "ri ! j" by auto
  }
qed

lemma unreachable_fold:
  "n \<le> length code \<Longrightarrow> length (fst (fold (unreachable_step ri) [0..<n] (code, changed))) = length code \<and>
   (\<forall>k < length code. fst (fold (unreachable_step ri) [0..<n] (code, changed)) ! k = code ! k \<or>
      k < n \<and> \<not> ri ! k \<and> instr_op (fst (fold (unreachable_step ri) [0..<n] (code, changed)) ! k) = IR_OP_NOP)"
proof (induction n)
  case (Suc n)
  obtain code' changed' where IH: "fold (unreachable_step ri) [0..<n] (code, changed) = (code', changed')"
    by (metis surj_pair)
  have last: "fold (unreachable_step ri) [0..<Suc n] (code, changed) = unreachable_step ri n (code', changed')"
    using IH by simp
  from Suc show ?case unfolding last IH
    by (auto simp: unreachable_step_def nth_nop_at less_Suc_eq)
qed simp

lemma unreachable_blocks_pass_behaviour:
  obtains code' changed' where
    "ir_eliminate_unreachable_blocks_pass (code, changed) = Some (code', changed')"
    "length code' = length code" "same_behaviour M code code'"
    "\<forall>k < length code. code' ! k = code ! k \<or> instr_op (code' ! k) = IR_OP_NOP"
proof -
  obtain bs where bs: "ir_function_rebuild_cfg code = Some bs" "cfg_of code bs" by (rule rebuild_cfg_ok)
  show thesis
  proof (cases "code = [] \<or> bs = []")
    case True
    then have "ir_eliminate_unreachable_blocks_pass (code, changed) = Some (code, changed)"
      using bs by (auto simp: ir_eliminate_unreachable_blocks_pass_def)
    then show thesis by (rule that) auto
  next
    case False
    let ?r = "replicate (length bs) False" and ?ri = "replicate (length code) False"
    have t: "tiles code 0 bs" using bs(2) by (simp add: cfg_of_def)
    have "worklist_ok bs [0] ?r ?ri" by (auto simp: worklist_ok_def)
    from mark_reachable_spec [OF this] False obtain r ri where
      m: "mark_reachable bs [0] ?r ?ri = (r, ri)" "worklist_ok bs [] r ri" "length ri = length code" "r ! 0"
      by auto
    have first: "first_instruction (bs ! 0) = 0 \<and> 0 < block_instruction_count (bs ! 0)"
      using t False by (cases bs) (auto simp: block_at_def)
    have start: "ri ! 0"
      using m(2-4) False first by (auto simp: worklist_ok_def)
    let ?out = "fold (unreachable_step ri) [0..<length code] (code, changed)"
    have out: "ir_eliminate_unreachable_blocks_pass (code, changed) = Some ?out"
      using False bs(1) m(1) by (simp add: ir_eliminate_unreachable_blocks_pass_def)
    note f = unreachable_fold [of "length code" code ri changed, simplified]
    have "same_behaviour M code (fst ?out)"
      by (rule dead_code_same_behaviour [OF reached_live_closed [OF bs(2) m(2,3)] _ start]) (use f in auto)
    with out f show thesis by (intro that [of "fst ?out" "snd ?out"]) auto
  qed
qed

end
