(* ===== verification/IR_Fold.thy ===== *)
theory IR_Fold
  imports IR_Flow "HOL-Library.Signed_Division"
begin

text \<open>
  Constant folding and algebraic simplification (\<open>src/ir/ir_optimize.c\<close>): the evaluation of an integer
  operator on two constants, the rewriting of a \<open>BINARY\<close> or \<open>UNARY\<close> instruction to an assignment or a
  shift, the removal of self-assignments and of branches on constants, and the loop that applies
  them to every instruction. The reference is integer arithmetic: each operator is a function on the
  integers, and the machine computes it modulo \<open>2 ^ 64\<close>.

  A rewriting function gives \<open>None\<close> where the C function returns 0 (a named operand without a name).
\<close>

section \<open>Evaluation of constants\<close>

definition word_bool :: "bool \<Rightarrow> u64" where
  "word_bool b = (if b then 1 else 0)"

definition ir_try_evaluate_integer_binary :: "string \<Rightarrow> u64 \<Rightarrow> u64 \<Rightarrow> u64 option" where
  "ir_try_evaluate_integer_binary operator l r =
     (if operator = ''+'' then Some (l + r)
      else if operator = ''-'' then Some (l - r)
      else if operator = ''*'' then Some (l * r)
      else if operator = ''/'' then
        (if r = 0 \<or> (sint l = - (2 ^ 63) \<and> sint r = - 1) then None
         else Some (word_of_int (sint l sdiv sint r)))
      else if operator = ''%'' then
        (if r = 0 \<or> (sint l = - (2 ^ 63) \<and> sint r = - 1) then None
         else Some (word_of_int (sint l smod sint r)))
      else if operator = ''=='' then Some (word_bool (l = r))
      else if operator = ''!='' then Some (word_bool (l \<noteq> r))
      else if operator = ''<'' then Some (word_bool (l <s r))
      else if operator = ''<='' then Some (word_bool (l \<le>s r))
      else if operator = ''>'' then Some (word_bool (r <s l))
      else if operator = ''>='' then Some (word_bool (r \<le>s l))
      else if operator = ''&&'' then Some (word_bool (l \<noteq> 0 \<and> r \<noteq> 0))
      else if operator = ''||'' then Some (word_bool (l \<noteq> 0 \<or> r \<noteq> 0))
      else if operator = ''&'' then Some (l AND r)
      else if operator = ''|'' then Some (l OR r)
      else if operator = ''^'' then Some (l XOR r)
      else if operator = ''<<'' then
        (if r <s 0 \<or> 64 \<le>s r then None else Some (push_bit (unat r) l))
      else if operator = ''>>'' then
        (if r <s 0 \<or> 64 \<le>s r then None else Some (signed_drop_bit (unat r) l))
      else None)"

text \<open>The reference: the operators on the integers, \<open>None\<close> where the source language leaves the result
  to the hardware. Division truncates towards zero.\<close>

definition truncated_quotient :: "int \<Rightarrow> int \<Rightarrow> int" where
  "truncated_quotient a b = (if (a < 0) = (b < 0) then \<bar>a\<bar> div \<bar>b\<bar> else - (\<bar>a\<bar> div \<bar>b\<bar>))"

definition int_binary :: "string \<Rightarrow> int \<Rightarrow> int \<Rightarrow> int option" where
  "int_binary operator a b =
     (if operator = ''+'' then Some (a + b)
      else if operator = ''-'' then Some (a - b)
      else if operator = ''*'' then Some (a * b)
      else if operator = ''/'' then
        (if b = 0 \<or> (a = - (2 ^ 63) \<and> b = - 1) then None else Some (truncated_quotient a b))
      else if operator = ''%'' then
        (if b = 0 \<or> (a = - (2 ^ 63) \<and> b = - 1) then None
         else Some (a - b * truncated_quotient a b))
      else if operator = ''=='' then Some (of_bool (a = b))
      else if operator = ''!='' then Some (of_bool (a \<noteq> b))
      else if operator = ''<'' then Some (of_bool (a < b))
      else if operator = ''<='' then Some (of_bool (a \<le> b))
      else if operator = ''>'' then Some (of_bool (a > b))
      else if operator = ''>='' then Some (of_bool (a \<ge> b))
      else if operator = ''&&'' then Some (of_bool (a \<noteq> 0 \<and> b \<noteq> 0))
      else if operator = ''||'' then Some (of_bool (a \<noteq> 0 \<or> b \<noteq> 0))
      else if operator = ''&'' then Some (a AND b)
      else if operator = ''|'' then Some (a OR b)
      else if operator = ''^'' then Some (a XOR b)
      else if operator = ''<<'' then (if 0 \<le> b \<and> b < 64 then Some (a * 2 ^ nat b) else None)
      else if operator = ''>>'' then (if 0 \<le> b \<and> b < 64 then Some (a div 2 ^ nat b) else None)
      else None)"

definition int_unary :: "string \<Rightarrow> int \<Rightarrow> int option" where
  "int_unary operator a =
     (if operator = ''+'' then Some a
      else if operator = ''-'' then Some (- a)
      else if operator = ''!'' then Some (of_bool (a = 0))
      else if operator = ''~'' then Some (- a - 1)
      else None)"

lemma sdiv_truncated: "a sdiv b = truncated_quotient a (b :: int)"
  by (auto simp: truncated_quotient_def signed_divide_int_def sgn_if)

lemma smod_truncated: "a smod b = a - b * truncated_quotient a (b :: int)"
  using minus_mult_sdiv_eq_smod [of a b] by (simp add: sdiv_truncated)

lemma of_bool_word_bool: "word_of_int (of_bool b) = word_bool b"
  by (simp add: word_bool_def)

lemma sint_inject [simp]: "sint (v :: u64) = sint w \<longleftrightarrow> v = w"
  by (auto dest: arg_cong [where f = "word_of_int :: int \<Rightarrow> u64"])

lemma sint_eq_0 [simp]: "sint (w :: u64) = 0 \<longleftrightarrow> w = 0"
  using sint_inject [of w 0] by simp

lemma shift_amount_range:
  "\<not> (r <s 0 \<or> 64 \<le>s (r :: u64)) \<longleftrightarrow> 0 \<le> sint r \<and> sint r < 64"
  by (auto simp: word_sless_alt word_sle_eq)

lemma nat_sint:
  assumes "0 \<le> sint (r :: u64)"
  shows "nat (sint r) = unat r"
proof -
  have "uint r = sint r"
    unfolding uint_sint using assms sint_lt [of r] by (intro take_bit_int_eq_self) simp_all
  then show ?thesis by (simp add: unat_eq_nat_uint)
qed

lemma bit_word_of_sint: "bit (word_of_int (sint w) :: u64) n = bit (w :: u64) n"
  by simp

lemma bit_sint_u64: "n < 64 \<Longrightarrow> bit (sint (w :: u64)) n = bit w n"
  using bit_word_of_sint [of w n] unfolding bit_word_of_int_iff by simp

lemma word_of_int_bitwise:
  "word_of_int (sint a AND sint b) = (a AND b :: u64)"
  "word_of_int (sint a OR sint b) = (a OR b :: u64)"
  "word_of_int (sint a XOR sint b) = (a XOR b :: u64)"
  by (auto intro!: bit_word_eqI simp: bit_word_of_int_iff bit_and_iff bit_or_iff bit_xor_iff bit_sint_u64)

lemma word_of_int_shl: "word_of_int (sint a * 2 ^ n) = (push_bit n a :: u64)"
  by (simp add: push_bit_eq_mult)

lemma word_of_int_shr: "word_of_int (sint a div 2 ^ n) = (signed_drop_bit n a :: u64)"
proof -
  have "word_of_int (sint (signed_drop_bit n a)) = (signed_drop_bit n a :: u64)" by simp
  then show ?thesis unfolding sint_signed_drop_bit_eq drop_bit_eq_div .
qed

text \<open>The compiler's constants are the integers' operators modulo \<open>2 ^ 64\<close>, and it folds exactly where
  the operator is defined.\<close>

lemma evaluate_integer_binary:
  "ir_try_evaluate_integer_binary operator l r =
   map_option word_of_int (int_binary operator (sint l) (sint r))"
proof -
  consider "operator = ''/''" | "operator = ''%''" | "operator = ''<<''" | "operator = ''>>''"
    | "operator \<notin> {''/'', ''%'', ''<<'', ''>>''}" by blast
  then show ?thesis
  proof cases
    case 1
    then show ?thesis by (simp add: ir_try_evaluate_integer_binary_def int_binary_def sdiv_truncated)
  next
    case 2
    then show ?thesis by (simp add: ir_try_evaluate_integer_binary_def int_binary_def smod_truncated)
  next
    case 3
    then show ?thesis using shift_amount_range [of r]
      by (auto simp: ir_try_evaluate_integer_binary_def int_binary_def nat_sint push_bit_eq_mult)
  next
    case 4
    then show ?thesis using shift_amount_range [of r]
      by (auto simp: ir_try_evaluate_integer_binary_def int_binary_def nat_sint word_of_int_shr)
  next
    case 5
    then have cases: "operator \<noteq> ''/''" "operator \<noteq> ''%''" "operator \<noteq> ''<<''" "operator \<noteq> ''>>''" by auto
    show ?thesis unfolding ir_try_evaluate_integer_binary_def int_binary_def
      by (simp add: cases of_bool_word_bool word_of_int_bitwise word_sless_alt word_sle_eq
          del: of_int_of_bool)
  qed
qed

section \<open>Powers of two\<close>

lemma unat_half: "unat (drop_bit 1 (u :: u64)) = unat u div 2"
proof -
  have "unat (drop_bit 1 u) = drop_bit 1 (unat u)" by (rule unat_drop_bit_eq)
  also have "\<dots> = unat u div 2" using drop_bit_eq_div [of 1 "unat u"] by simp
  finally show ?thesis .
qed

function halvings :: "u64 \<Rightarrow> nat \<Rightarrow> nat" where
  "halvings u amount = (if 1 < u then halvings (drop_bit 1 u) (Suc amount) else amount)"
  by pat_completeness auto
termination
proof (relation "measure (\<lambda>(u, amount). unat u)")
  fix u :: u64 and amount :: nat
  assume "1 < u"
  then have "1 < unat u" by (simp add: word_less_nat_alt)
  then show "((drop_bit 1 u, Suc amount), u, amount) \<in> measure (\<lambda>(u, amount). unat u)"
    using unat_half [of u] by simp
qed simp

declare halvings.simps [simp del]

definition ir_try_get_positive_pow2_shift :: "u64 \<Rightarrow> nat option" where
  "ir_try_get_positive_pow2_shift v =
     (if v \<le>s 0 then None
      else if v AND (v - 1) \<noteq> 0 then None
      else Some (halvings v 0))"

text \<open>A positive number whose binary form has a single one is a power of two.\<close>

lemma halvings_power:
  "u \<noteq> 0 \<Longrightarrow> unat u AND (unat u - 1) = 0 \<Longrightarrow> \<exists>k. halvings u amount = amount + k \<and> unat u = 2 ^ k"
proof (induction u amount rule: halvings.induct)
  case (1 u amount)
  show ?case
  proof (cases "1 < u")
    case True
    then have n: "1 < unat u" by (simp add: word_less_nat_alt)
    note half = single_bit_half [OF n "1.prems"(2)]
    have "unat (drop_bit 1 u) \<noteq> 0" unfolding unat_half using n by simp
    then have "drop_bit 1 u \<noteq> 0" by auto
    from "1.IH" [OF True this] half(2) obtain k where
      "halvings (drop_bit 1 u) (Suc amount) = Suc amount + k" "unat u div 2 = 2 ^ k"
      unfolding unat_half by blast
    with half(1) True show ?thesis
      by (intro exI [of _ "Suc k"]) (auto simp: halvings.simps [of u amount] elim!: evenE)
  next
    case False
    then have "unat u = 1" using "1.prems"(1) by (simp add: not_less word_le_nat_alt unat_eq_zero le_Suc_eq)
    then have "u = 1" by (simp add: word_unat_eq_iff)
    then show ?thesis by (intro exI [of _ 0]) (simp add: halvings.simps [of 1 amount])
  qed
qed

lemma positive_pow2_shift:
  assumes "ir_try_get_positive_pow2_shift v = Some n"
  shows "v = 2 ^ n" and "n < 63"
proof -
  have pos: "0 < sint v" and single: "v AND (v - 1) = 0" and n: "n = halvings v 0"
    using assms by (auto simp: ir_try_get_positive_pow2_shift_def word_sle_eq split: if_splits)
  have "v \<noteq> 0" using pos by auto
  moreover have "unat v AND (unat v - 1) = 0"
    using arg_cong [OF single, of unat] \<open>v \<noteq> 0\<close> by (simp add: unsigned_and_eq unat_minus_one)
  ultimately obtain k where "halvings v 0 = k" "unat v = 2 ^ k" using halvings_power [of v 0] by auto
  with n have unat: "unat v = 2 ^ n" by simp
  have "unat v < 2 ^ 63" using nat_sint [of v] pos sint_lt [of v] by simp
  with unat show "n < 63" using power_less_imp_less_exp [of 2 n 63] by simp
  have "v = of_nat (unat v)" by simp
  also have "\<dots> = 2 ^ n" unfolding unat by simp
  finally show "v = 2 ^ n" .
qed

section \<open>Rewriting one instruction\<close>

definition ir_rewrite_to_assign_operand :: "IRInstruction \<Rightarrow> IROperand \<Rightarrow> IRInstruction option" where
  "ir_rewrite_to_assign_operand i v = (case ir_operand_clone v of None \<Rightarrow> None
     | Some cloned \<Rightarrow>
        (let i = i \<lparr>arguments := [], instr_text := None, instr_op := IR_OP_ASSIGN, lhs := cloned,
               rhs := ir_operand_none, is_float := operand_kind cloned = IR_OPERAND_FLOAT,
               ast_ref := None\<rparr> in
         Some (if is_float i
               then i \<lparr>instr_float_bits := if operand_float_bits cloned = 32 then 32 else 64\<rparr> else i)))"

definition ir_rewrite_to_assign_int :: "IRInstruction \<Rightarrow> u64 \<Rightarrow> IRInstruction option" where
  "ir_rewrite_to_assign_int i v = ir_rewrite_to_assign_operand i (ir_operand_int v)"

definition ir_rewrite_to_shift_left :: "IRInstruction \<Rightarrow> IROperand \<Rightarrow> nat \<Rightarrow> IRInstruction option" where
  "ir_rewrite_to_shift_left i v shift =
     (if instr_op i \<noteq> IR_OP_BINARY \<or> is_float i \<or> 64 \<le> shift then None
      else case ir_operand_clone v of None \<Rightarrow> None
        | Some cloned \<Rightarrow> Some (i \<lparr>lhs := cloned, rhs := ir_operand_int (of_nat shift),
            instr_text := Some ''<<''\<rparr>))"

definition is_const :: "IROperand \<Rightarrow> u64 \<Rightarrow> bool" where
  "is_const operand v = (operand_kind operand = IR_OPERAND_INT \<and> int_value operand = v)"

text \<open>\<open>Some r\<close> is a \<open>return\<close> with the result \<open>r\<close> of the rewriting function; \<open>None\<close> falls to the next test.\<close>

type_synonym rewrite = "IRInstruction option option"

definition fold_constants :: "IRInstruction \<Rightarrow> string \<Rightarrow> rewrite" where
  "fold_constants i operator =
     (if operand_kind (lhs i) = IR_OPERAND_INT \<and> operand_kind (rhs i) = IR_OPERAND_INT
      then map_option (ir_rewrite_to_assign_int i)
        (ir_try_evaluate_integer_binary operator (int_value (lhs i)) (int_value (rhs i)))
      else None)"

definition fold_equal_operands :: "IRInstruction \<Rightarrow> string \<Rightarrow> rewrite" where
  "fold_equal_operands i operator =
     (if ir_operand_equals (lhs i) (rhs i) then
        if operator = ''-'' \<or> operator = ''^'' then Some (ir_rewrite_to_assign_int i 0)
        else if operator = ''|'' \<or> operator = ''&'' then Some (ir_rewrite_to_assign_operand i (lhs i))
        else if operator = ''=='' \<or> operator = ''<='' \<or> operator = ''>='' then
          Some (ir_rewrite_to_assign_int i 1)
        else if operator = ''!='' \<or> operator = ''<'' \<or> operator = ''>'' then
          Some (ir_rewrite_to_assign_int i 0)
        else None
      else None)"

definition pow2_factor :: "IROperand \<Rightarrow> nat option" where
  "pow2_factor operand = (if operand_kind operand = IR_OPERAND_INT
     then case ir_try_get_positive_pow2_shift (int_value operand) of None \<Rightarrow> None
       | Some shift \<Rightarrow> if 0 < shift then Some shift else None
     else None)"

definition fold_multiplication :: "IRInstruction \<Rightarrow> rewrite" where
  "fold_multiplication i = (case pow2_factor (rhs i) of
     Some shift \<Rightarrow> Some (ir_rewrite_to_shift_left i (lhs i) shift)
   | None \<Rightarrow> (case pow2_factor (lhs i) of
       Some shift \<Rightarrow> Some (ir_rewrite_to_shift_left i (rhs i) shift)
     | None \<Rightarrow>
         if is_const (lhs i) 0 \<or> is_const (rhs i) 0 then Some (ir_rewrite_to_assign_int i 0)
         else if is_const (rhs i) 1 then Some (ir_rewrite_to_assign_operand i (lhs i))
         else if is_const (lhs i) 1 then Some (ir_rewrite_to_assign_operand i (rhs i))
         else None))"

definition fold_identity :: "IRInstruction \<Rightarrow> string \<Rightarrow> rewrite" where
  "fold_identity i operator =
     (if operator = ''+'' then
        if is_const (rhs i) 0 then Some (ir_rewrite_to_assign_operand i (lhs i))
        else if is_const (lhs i) 0 then Some (ir_rewrite_to_assign_operand i (rhs i)) else None
      else if operator = ''-'' then
        if is_const (rhs i) 0 then Some (ir_rewrite_to_assign_operand i (lhs i)) else None
      else if operator = ''*'' then fold_multiplication i
      else if operator = ''/'' then
        if is_const (rhs i) 1 then Some (ir_rewrite_to_assign_operand i (lhs i)) else None
      else if operator = ''%'' then
        if is_const (rhs i) 1 then Some (ir_rewrite_to_assign_int i 0) else None
      else if operator = ''&'' then
        if is_const (lhs i) 0 \<or> is_const (rhs i) 0 then Some (ir_rewrite_to_assign_int i 0)
        else if is_const (rhs i) (- 1) then Some (ir_rewrite_to_assign_operand i (lhs i))
        else if is_const (lhs i) (- 1) then Some (ir_rewrite_to_assign_operand i (rhs i)) else None
      else if operator = ''|'' \<or> operator = ''^'' then
        if is_const (rhs i) 0 then Some (ir_rewrite_to_assign_operand i (lhs i))
        else if is_const (lhs i) 0 then Some (ir_rewrite_to_assign_operand i (rhs i)) else None
      else if operator = ''<<'' \<or> operator = ''>>'' then
        if is_const (rhs i) 0 then Some (ir_rewrite_to_assign_operand i (lhs i)) else None
      else None)"

definition finish_rewrite :: "IRInstruction \<times> bool \<Rightarrow> rewrite \<Rightarrow> (IRInstruction \<times> bool) option" where
  "finish_rewrite st r = (case r of None \<Rightarrow> Some st | Some None \<Rightarrow> None | Some (Some i) \<Rightarrow> Some (i, True))"

definition ir_try_fold_integer_binary :: "IRInstruction \<times> bool \<Rightarrow> (IRInstruction \<times> bool) option" where
  "ir_try_fold_integer_binary st = (let i = fst st in
     case instr_text i of None \<Rightarrow> Some st
     | Some operator \<Rightarrow>
         if instr_op i \<noteq> IR_OP_BINARY \<or> is_float i then Some st
         else finish_rewrite st (case fold_constants i operator of Some r \<Rightarrow> Some r
           | None \<Rightarrow> (case fold_equal_operands i operator of Some r \<Rightarrow> Some r
               | None \<Rightarrow> fold_identity i operator)))"

definition evaluate_unary :: "string \<Rightarrow> u64 \<Rightarrow> u64 option" where
  "evaluate_unary operator v =
     (if operator = ''+'' then Some v
      else if operator = ''-'' then Some (- v)
      else if operator = ''!'' then Some (word_bool (v = 0))
      else if operator = ''~'' then Some (NOT v)
      else None)"

definition ir_try_fold_integer_unary :: "IRInstruction \<times> bool \<Rightarrow> (IRInstruction \<times> bool) option" where
  "ir_try_fold_integer_unary st = (let i = fst st in
     case instr_text i of None \<Rightarrow> Some st
     | Some operator \<Rightarrow>
         if instr_op i \<noteq> IR_OP_UNARY \<or> is_float i \<or> operand_kind (lhs i) \<noteq> IR_OPERAND_INT then Some st
         else finish_rewrite st
           (map_option (ir_rewrite_to_assign_int i) (evaluate_unary operator (int_value (lhs i)))))"

definition ir_simplify_redundant_assign :: "IRInstruction \<times> bool \<Rightarrow> IRInstruction \<times> bool" where
  "ir_simplify_redundant_assign st = (let i = fst st in
     if instr_op i \<noteq> IR_OP_ASSIGN \<or> operand_kind (dest i) = IR_OPERAND_NONE \<or>
        operand_kind (lhs i) = IR_OPERAND_NONE then st
     else if ir_operand_equals (dest i) (lhs i) then (ir_instruction_make_nop i, True)
     else st)"

definition ir_simplify_branch :: "IRInstruction \<times> bool \<Rightarrow> IRInstruction \<times> bool" where
  "ir_simplify_branch st = (let i = fst st in
     if instr_op i = IR_OP_BRANCH_ZERO \<and> operand_kind (lhs i) = IR_OPERAND_INT then
       (if int_value (lhs i) = 0 then ir_instruction_make_jump i else ir_instruction_make_nop i, True)
     else if instr_op i = IR_OP_BRANCH_EQ \<and> operand_kind (lhs i) = IR_OPERAND_INT \<and>
        operand_kind (rhs i) = IR_OPERAND_INT then
       (if int_value (lhs i) = int_value (rhs i) then ir_instruction_make_jump i
        else ir_instruction_make_nop i, True)
     else if instr_op i = IR_OP_BRANCH_EQ \<and> ir_operand_equals (lhs i) (rhs i) then
       (ir_instruction_make_jump i, True)
     else st)"

definition simplify_instruction :: "IRInstruction \<times> bool \<Rightarrow> (IRInstruction \<times> bool) option" where
  "simplify_instruction st = (case ir_try_fold_integer_binary st of None \<Rightarrow> None
     | Some st \<Rightarrow> (case ir_try_fold_integer_unary st of None \<Rightarrow> None
         | Some st \<Rightarrow> Some (ir_simplify_branch (ir_simplify_redundant_assign st))))"

text \<open>The last loop of \<open>ir_constant_and_branch_simplify_pass\<close>.\<close>

fun simplify_instructions :: "nat list \<Rightarrow> pass_state \<Rightarrow> pass_state option" where
  "simplify_instructions [] st = Some st"
| "simplify_instructions (k # rest) (code, changed) =
     (case simplify_instruction (code ! k, changed) of None \<Rightarrow> None
      | Some (i, changed) \<Rightarrow> simplify_instructions rest (code[k := i], changed))"

definition simplify_instructions_pass :: "pass_state \<Rightarrow> pass_state option" where
  "simplify_instructions_pass st = simplify_instructions [0..<length (fst st)] st"

section \<open>Correctness of the rewriting\<close>

text \<open>A machine that computes with integers: the operators are those of the integers modulo \<open>2 ^ 64\<close>
  where they are defined, and moving a variable to itself changes nothing.\<close>

definition integer_machine :: "'s ir_machine \<Rightarrow> bool" where
  "integer_machine M \<longleftrightarrow>
     (\<forall>operator a b r. int_binary operator (sint a) (sint b) = Some r \<longrightarrow>
        mc_binary M operator a b = Some (word_of_int r)) \<and>
     (\<forall>operator a r. int_unary operator (sint a) = Some r \<longrightarrow>
        mc_unary M operator a = Some (word_of_int r)) \<and>
     (\<forall>s d. operand_kind d \<in> {IR_OPERAND_TEMP, IR_OPERAND_SYMBOL} \<longrightarrow>
        mc_write M d (mc_value M s (operand_kind d) (operand_name d)) s = s) \<and>
     (\<forall>s i. instr_op i = IR_OP_ASSIGN \<and> operand_kind (dest i) \<in> {IR_OPERAND_TEMP, IR_OPERAND_SYMBOL} \<and>
        operand_kind (lhs i) = operand_kind (dest i) \<and> operand_name (lhs i) = operand_name (dest i) \<longrightarrow>
        mc_other M i s = Some s)"

text \<open>Instructions as the lowering makes them: results go to variables, and integer operators and
  equality branches have no floating-point constant as operand.\<close>

definition integer_operands :: "IRInstruction \<Rightarrow> bool" where
  "integer_operands i \<longleftrightarrow>
     (instr_op i = IR_OP_BRANCH_EQ \<or> instr_op i = IR_OP_BINARY \<and> \<not> is_float i \<longrightarrow>
        operand_kind (lhs i) \<noteq> IR_OPERAND_FLOAT \<and> operand_kind (rhs i) \<noteq> IR_OPERAND_FLOAT) \<and>
     (instr_op i \<in> {IR_OP_ASSIGN, IR_OP_BINARY, IR_OP_UNARY} \<longrightarrow>
        operand_kind (dest i) \<in> {IR_OPERAND_NONE, IR_OPERAND_TEMP, IR_OPERAND_SYMBOL})"

lemma mc_binary_eval:
  "integer_machine M \<Longrightarrow> ir_try_evaluate_integer_binary operator a b = Some v \<Longrightarrow> mc_binary M operator a b = Some v"
  unfolding evaluate_integer_binary integer_machine_def by (auto simp: map_option_case split: option.splits)

lemma evaluate_integer_unary:
  "evaluate_unary operator v = map_option word_of_int (int_unary operator (sint v))"
  by (simp add: evaluate_unary_def int_unary_def of_bool_word_bool not_eq_complement del: of_int_of_bool)

lemma mc_unary_eval:
  "integer_machine M \<Longrightarrow> evaluate_unary operator a = Some v \<Longrightarrow> mc_unary M operator a = Some v"
  unfolding evaluate_integer_unary integer_machine_def by (auto simp: map_option_case split: option.splits)

lemma operand_value_clone: "ir_operand_clone v = Some c \<Longrightarrow> operand_value M s c = operand_value M s v"
  by (cases "operand_kind v")
    (auto simp: ir_operand_clone_def operand_value_def ir_operand_none_def split: option.splits)

lemma operand_kind_clone: "ir_operand_clone v = Some c \<Longrightarrow> operand_kind c = operand_kind v"
  by (auto simp: ir_operand_clone_def split: if_splits option.splits)

lemma operand_value_equal:
  "ir_operand_equals a b \<Longrightarrow> operand_kind a \<noteq> IR_OPERAND_FLOAT \<Longrightarrow> operand_value M s a = operand_value M s b"
  by (auto simp: ir_operand_equals_def operand_value_def split: IROperandKind.splits)

lemma operand_value_int [simp]: "operand_value M s (ir_operand_int v) = v"
  by (simp add: operand_value_def ir_operand_int_def)

lemma operand_kind_int [simp]: "operand_kind (ir_operand_int v) = IR_OPERAND_INT"
  by (simp add: ir_operand_int_def)

lemma operand_value_const: "is_const operand v \<Longrightarrow> operand_value M s operand = v"
  by (simp add: operand_value_def is_const_def)

text \<open>A rewritten instruction computes \<open>v\<close>: it stores into the same destination.\<close>

definition stores :: "'s ir_machine \<Rightarrow> IRInstruction \<Rightarrow> IRInstruction \<Rightarrow> ('s \<Rightarrow> u64) \<Rightarrow> bool" where
  "stores M i i' v = (integer_operands i' \<and> instr_op i' \<in> {IR_OP_ASSIGN, IR_OP_BINARY} \<and>
     (\<forall>s. ir_move M i' s = Fall (mc_write M (dest i) (v s) s)))"

lemma rewrite_to_assign_stores:
  assumes "ir_rewrite_to_assign_operand i v = Some i'" "operand_kind v \<noteq> IR_OPERAND_FLOAT"
    and "operand_kind (dest i) \<in> {IR_OPERAND_NONE, IR_OPERAND_TEMP, IR_OPERAND_SYMBOL}"
  shows "stores M i i' (\<lambda>s. operand_value M s v)"
proof -
  obtain c where c: "ir_operand_clone v = Some c" using assms(1)
    by (auto simp: ir_rewrite_to_assign_operand_def split: option.splits)
  then have i': "i' = i \<lparr>arguments := [], instr_text := None, instr_op := IR_OP_ASSIGN, lhs := c,
      rhs := ir_operand_none, is_float := False, ast_ref := None\<rparr>"
    using assms(1,2) operand_kind_clone [OF c] by (simp add: ir_rewrite_to_assign_operand_def Let_def)
  show ?thesis using assms(3) unfolding i'
    by (simp add: stores_def integer_operands_def ir_move_def store_result_def operand_value_clone [OF c])
qed

lemma rewrite_to_assign_int_stores:
  assumes "ir_rewrite_to_assign_int i v = Some i'"
    and "operand_kind (dest i) \<in> {IR_OPERAND_NONE, IR_OPERAND_TEMP, IR_OPERAND_SYMBOL}"
  shows "stores M i i' (\<lambda>s. v)"
  using rewrite_to_assign_stores [of i "ir_operand_int v" i' M] assms
  by (simp add: ir_rewrite_to_assign_int_def)

lemma push_bit_of_nat:
  assumes "n < 63"
  shows "ir_try_evaluate_integer_binary ''<<'' a (of_nat n) = Some (a * 2 ^ n)"
proof -
  have n: "unat (of_nat n :: u64) = n" using assms by (simp add: unsigned_of_nat take_bit_nat_eq_self)
  have s: "sint (of_nat n :: u64) = int n" using assms
    by (simp add: signed_of_nat signed_take_bit_int_eq_self)
  have "\<not> (of_nat n <s (0 :: u64) \<or> 64 \<le>s (of_nat n :: u64))"
    unfolding shift_amount_range s using assms by simp
  then show ?thesis by (simp add: ir_try_evaluate_integer_binary_def n push_bit_eq_mult)
qed

lemma rewrite_to_shift_stores:
  assumes M: "integer_machine M" and "ir_rewrite_to_shift_left i v n = Some i'" "n < 63"
    and "operand_kind v \<noteq> IR_OPERAND_FLOAT"
    and "operand_kind (dest i) \<in> {IR_OPERAND_NONE, IR_OPERAND_TEMP, IR_OPERAND_SYMBOL}"
  shows "stores M i i' (\<lambda>s. operand_value M s v * 2 ^ n)"
proof -
  obtain c where c: "ir_operand_clone v = Some c"
    and i': "i' = i \<lparr>lhs := c, rhs := ir_operand_int (of_nat n), instr_text := Some ''<<''\<rparr>"
    and op: "instr_op i = IR_OP_BINARY" "\<not> is_float i" using assms(2)
    by (auto simp: ir_rewrite_to_shift_left_def split: option.splits if_splits)
  have "mc_binary M ''<<'' a (of_nat n) = Some (a * 2 ^ n)" for a
    using M push_bit_of_nat [OF assms(3)] by (rule mc_binary_eval)
  with i' op assms(4,5) show ?thesis
    by (simp add: stores_def integer_operands_def ir_move_def store_result_def
        operand_value_clone [OF c] operand_kind_clone [OF c])
qed

text \<open>Each rewriting stores what the operator computes.\<close>

lemma evaluate_equal_operands:
  "ir_try_evaluate_integer_binary ''-'' a a = Some 0" "ir_try_evaluate_integer_binary ''^'' a a = Some 0"
  "ir_try_evaluate_integer_binary ''|'' a a = Some a" "ir_try_evaluate_integer_binary ''&'' a a = Some a"
  "ir_try_evaluate_integer_binary ''=='' a a = Some 1" "ir_try_evaluate_integer_binary ''!='' a a = Some 0"
  "ir_try_evaluate_integer_binary ''<'' a a = Some 0" "ir_try_evaluate_integer_binary ''>'' a a = Some 0"
  "ir_try_evaluate_integer_binary ''<='' a a = Some 1" "ir_try_evaluate_integer_binary ''>='' a a = Some 1"
  by (simp_all add: ir_try_evaluate_integer_binary_def word_bool_def word_sless_alt word_sle_eq)

lemma evaluate_identities:
  "ir_try_evaluate_integer_binary ''+'' a 0 = Some a" "ir_try_evaluate_integer_binary ''+'' 0 a = Some a"
  "ir_try_evaluate_integer_binary ''-'' a 0 = Some a"
  "ir_try_evaluate_integer_binary ''*'' a 0 = Some 0" "ir_try_evaluate_integer_binary ''*'' 0 a = Some 0"
  "ir_try_evaluate_integer_binary ''*'' a 1 = Some a" "ir_try_evaluate_integer_binary ''*'' 1 a = Some a"
  "ir_try_evaluate_integer_binary ''/'' a 1 = Some a" "ir_try_evaluate_integer_binary ''%'' a 1 = Some 0"
  "ir_try_evaluate_integer_binary ''&'' a 0 = Some 0" "ir_try_evaluate_integer_binary ''&'' 0 a = Some 0"
  "ir_try_evaluate_integer_binary ''&'' a (- 1) = Some a" "ir_try_evaluate_integer_binary ''&'' (- 1) a = Some a"
  "ir_try_evaluate_integer_binary ''|'' a 0 = Some a" "ir_try_evaluate_integer_binary ''|'' 0 a = Some a"
  "ir_try_evaluate_integer_binary ''^'' a 0 = Some a" "ir_try_evaluate_integer_binary ''^'' 0 a = Some a"
  "ir_try_evaluate_integer_binary ''<<'' a 0 = Some a" "ir_try_evaluate_integer_binary ''>>'' a 0 = Some a"
  by (simp_all add: ir_try_evaluate_integer_binary_def sdiv_truncated smod_truncated truncated_quotient_def
      word_sless_alt word_sle_eq)

lemma evaluate_pow2:
  "ir_try_evaluate_integer_binary ''*'' a (2 ^ n) = Some (a * 2 ^ n)"
  "ir_try_evaluate_integer_binary ''*'' (2 ^ n) a = Some (a * 2 ^ n)"
  by (simp_all add: ir_try_evaluate_integer_binary_def)

definition computes :: "'s ir_machine \<Rightarrow> IRInstruction \<Rightarrow> string \<Rightarrow> IRInstruction \<Rightarrow> bool" where
  "computes M i operator i' = (\<exists>v. stores M i i' v \<and>
     (\<forall>s. mc_binary M operator (operand_value M s (lhs i)) (operand_value M s (rhs i)) = Some (v s)))"

lemma computesI:
  assumes "integer_machine M" "stores M i i' v"
    and "\<And>s. ir_try_evaluate_integer_binary operator (operand_value M s (lhs i)) (operand_value M s (rhs i)) = Some (v s)"
  shows "computes M i operator i'"
  using assms mc_binary_eval unfolding computes_def by blast

lemma fold_constants_computes:
  assumes M: "integer_machine M" and i: "integer_operands i" "instr_op i = IR_OP_BINARY" "\<not> is_float i"
    and "fold_constants i operator = Some (Some i')"
  shows "computes M i operator i'"
proof -
  obtain v where v: "operand_kind (lhs i) = IR_OPERAND_INT" "operand_kind (rhs i) = IR_OPERAND_INT"
      "ir_try_evaluate_integer_binary operator (int_value (lhs i)) (int_value (rhs i)) = Some v"
      "ir_rewrite_to_assign_int i v = Some i'"
    using assms(5) by (auto simp: fold_constants_def split: if_splits)
  show ?thesis
    using rewrite_to_assign_int_stores [OF v(4)] i v
    by (intro computesI [OF M, of _ _ "\<lambda>s. v"]) (auto simp: integer_operands_def operand_value_def)
qed

lemma fold_equal_operands_computes:
  assumes M: "integer_machine M" and i: "integer_operands i" "instr_op i = IR_OP_BINARY" "\<not> is_float i"
    and "fold_equal_operands i operator = Some (Some i')"
  shows "computes M i operator i'"
proof -
  have kinds: "operand_kind (lhs i) \<noteq> IR_OPERAND_FLOAT"
    "operand_kind (dest i) \<in> {IR_OPERAND_NONE, IR_OPERAND_TEMP, IR_OPERAND_SYMBOL}"
    using i by (auto simp: integer_operands_def)
  have "ir_operand_equals (lhs i) (rhs i)"
    using assms(5) by (simp add: fold_equal_operands_def split: if_splits)
  then have eq: "operand_value M s (rhs i) = operand_value M s (lhs i)" for s
    using operand_value_equal kinds(1) by metis
  note int_stores = rewrite_to_assign_int_stores [OF _ kinds(2), where M = M]
    and var_stores = rewrite_to_assign_stores [OF _ kinds, where M = M]
  consider (int) v where "ir_rewrite_to_assign_int i v = Some i'"
      "\<And>a. ir_try_evaluate_integer_binary operator a a = Some v"
    | (var) "ir_rewrite_to_assign_operand i (lhs i) = Some i'"
      "\<And>a. ir_try_evaluate_integer_binary operator a a = Some a"
    using assms(5) evaluate_equal_operands by (simp add: fold_equal_operands_def split: if_splits) metis+
  then show ?thesis
  proof cases
    case int
    with int_stores [OF int(1)] show ?thesis by (intro computesI [OF M]) (auto simp: eq)
  next
    case var
    with var_stores [OF var(1)] show ?thesis by (intro computesI [OF M]) (auto simp: eq)
  qed
qed

lemma fold_multiplication_computes:
  assumes M: "integer_machine M" and i: "integer_operands i" "instr_op i = IR_OP_BINARY" "\<not> is_float i"
    and "fold_multiplication i = Some (Some i')"
  shows "computes M i ''*'' i'"
proof -
  have kinds: "operand_kind (lhs i) \<noteq> IR_OPERAND_FLOAT" "operand_kind (rhs i) \<noteq> IR_OPERAND_FLOAT"
    "operand_kind (dest i) \<in> {IR_OPERAND_NONE, IR_OPERAND_TEMP, IR_OPERAND_SYMBOL}"
    using i by (auto simp: integer_operands_def)
  have factor: "operand_value M s operand = 2 ^ n \<and> n < 63" if "pow2_factor operand = Some n" for operand n s
    using that positive_pow2_shift
    by (auto simp: pow2_factor_def operand_value_def split: if_splits option.splits)
  note int = rewrite_to_assign_int_stores [OF _ kinds(3), where M = M]
    and left = rewrite_to_assign_stores [OF _ kinds(1,3), where M = M]
    and right = rewrite_to_assign_stores [OF _ kinds(2,3), where M = M]
  consider (rhs) n where "pow2_factor (rhs i) = Some n" "ir_rewrite_to_shift_left i (lhs i) n = Some i'"
    | (lhs) n where "pow2_factor (lhs i) = Some n" "ir_rewrite_to_shift_left i (rhs i) n = Some i'"
    | (zero) "is_const (lhs i) 0 \<or> is_const (rhs i) 0" "ir_rewrite_to_assign_int i 0 = Some i'"
    | (one_r) "is_const (rhs i) 1" "ir_rewrite_to_assign_operand i (lhs i) = Some i'"
    | (one_l) "is_const (lhs i) 1" "ir_rewrite_to_assign_operand i (rhs i) = Some i'"
    using assms(5) by (auto simp: fold_multiplication_def split: option.splits if_splits)
  then show ?thesis
  proof cases
    case rhs
    with factor [OF rhs(1)] rewrite_to_shift_stores [OF M rhs(2) _ kinds(1,3)] show ?thesis
      by (intro computesI [OF M]) (auto simp: evaluate_pow2)
  next
    case lhs
    with factor [OF lhs(1)] rewrite_to_shift_stores [OF M lhs(2) _ kinds(2,3)] show ?thesis
      by (intro computesI [OF M]) (auto simp: evaluate_pow2)
  next
    case zero
    with int [OF zero(2)] show ?thesis
      by (intro computesI [OF M]) (auto simp: operand_value_const evaluate_identities)
  next
    case one_r
    with left [OF one_r(2)] show ?thesis
      by (intro computesI [OF M]) (auto simp: operand_value_const evaluate_identities)
  next
    case one_l
    with right [OF one_l(2)] show ?thesis
      by (intro computesI [OF M]) (auto simp: operand_value_const evaluate_identities)
  qed
qed

lemma fold_identity_computes:
  assumes M: "integer_machine M" and i: "integer_operands i" "instr_op i = IR_OP_BINARY" "\<not> is_float i"
    and fold: "fold_identity i operator = Some (Some i')"
  shows "computes M i operator i'"
proof (cases "operator = ''*''")
  case True
  with fold have "fold_multiplication i = Some (Some i')" by (simp add: fold_identity_def)
  with True fold_multiplication_computes [OF M i] show ?thesis by simp
next
  case False
  have kinds: "operand_kind (lhs i) \<noteq> IR_OPERAND_FLOAT" "operand_kind (rhs i) \<noteq> IR_OPERAND_FLOAT"
    "operand_kind (dest i) \<in> {IR_OPERAND_NONE, IR_OPERAND_TEMP, IR_OPERAND_SYMBOL}"
    using i by (auto simp: integer_operands_def)
  note int = rewrite_to_assign_int_stores [OF _ kinds(3), where M = M]
    and left = rewrite_to_assign_stores [OF _ kinds(1,3), where M = M]
    and right = rewrite_to_assign_stores [OF _ kinds(2,3), where M = M]
  have ops: "operator \<in> {''+'', ''-'', ''/'', ''%'', ''&'', ''|'', ''^'', ''<<'', ''>>''}"
    using fold False by (simp add: fold_identity_def split: if_splits) blast+
  let ?l = "\<lambda>s. operand_value M s (lhs i)" and ?r = "\<lambda>s. operand_value M s (rhs i)"
  have "(\<exists>v. ir_rewrite_to_assign_int i v = Some i' \<and>
        (\<forall>s. ir_try_evaluate_integer_binary operator (?l s) (?r s) = Some v)) \<or>
      ir_rewrite_to_assign_operand i (lhs i) = Some i' \<and>
        (\<forall>s. ir_try_evaluate_integer_binary operator (?l s) (?r s) = Some (?l s)) \<or>
      ir_rewrite_to_assign_operand i (rhs i) = Some i' \<and>
        (\<forall>s. ir_try_evaluate_integer_binary operator (?l s) (?r s) = Some (?r s))"
    using ops fold
    by (elim insertE emptyE) (auto simp: fold_identity_def operand_value_const evaluate_identities split: if_splits)
  then show ?thesis
  proof (elim disjE exE conjE)
    fix v assume "ir_rewrite_to_assign_int i v = Some i'"
      "\<forall>s. ir_try_evaluate_integer_binary operator (?l s) (?r s) = Some v"
    with int [of v i'] show ?thesis by (intro computesI [OF M]) auto
  next
    assume "ir_rewrite_to_assign_operand i (lhs i) = Some i'"
      "\<forall>s. ir_try_evaluate_integer_binary operator (?l s) (?r s) = Some (?l s)"
    with left [of i'] show ?thesis by (intro computesI [OF M]) auto
  next
    assume "ir_rewrite_to_assign_operand i (rhs i) = Some i'"
      "\<forall>s. ir_try_evaluate_integer_binary operator (?l s) (?r s) = Some (?r s)"
    with right [of i'] show ?thesis by (intro computesI [OF M]) auto
  qed
qed

text \<open>The four rewriters keep the move of the instruction.\<close>

definition same_step :: "'s ir_machine \<Rightarrow> IRInstruction \<Rightarrow> IRInstruction \<Rightarrow> bool" where
  "same_step M i i' = (integer_operands i' \<and> (\<forall>l. is_label i' l = is_label i l) \<and>
     (\<forall>s. ir_move M i' s = ir_move M i s))"

lemma same_step_refl: "integer_operands i \<Longrightarrow> same_step M i i"
  by (simp add: same_step_def)

lemma same_step_trans: "same_step M a b \<Longrightarrow> same_step M b c \<Longrightarrow> same_step M a c"
  by (simp add: same_step_def)

lemma computes_same_step:
  assumes "computes M i operator i'" "instr_op i = IR_OP_BINARY" "\<not> is_float i" "instr_text i = Some operator"
  shows "same_step M i i'"
  using assms
  by (auto simp: computes_def same_step_def stores_def is_label_def store_result_def ir_move_simps(7) [OF assms(2-4)])

lemma fold_binary_same_step:
  assumes M: "integer_machine M" and i: "integer_operands i"
    and "ir_try_fold_integer_binary (i, changed) = Some (i', changed')"
  shows "same_step M i i'"
proof (cases "i' = i")
  case False
  then obtain operator where operator: "instr_text i = Some operator" "instr_op i = IR_OP_BINARY" "\<not> is_float i"
    and fold: "fold_constants i operator = Some (Some i') \<or> fold_equal_operands i operator = Some (Some i') \<or>
      fold_identity i operator = Some (Some i')"
    using assms(3) by (auto simp: ir_try_fold_integer_binary_def finish_rewrite_def Let_def
        split: option.splits if_splits)
  from fold have "computes M i operator i'"
    using fold_constants_computes [OF M i operator(2,3)] fold_equal_operands_computes [OF M i operator(2,3)]
      fold_identity_computes [OF M i operator(2,3)] by blast
  then show ?thesis using operator by (intro computes_same_step) auto
qed (simp add: i same_step_refl)

lemma fold_unary_same_step:
  assumes M: "integer_machine M" and i: "integer_operands i"
    and "ir_try_fold_integer_unary (i, changed) = Some (i', changed')"
  shows "same_step M i i'"
proof (cases "i' = i")
  case False
  then obtain operator v where *: "instr_text i = Some operator" "instr_op i = IR_OP_UNARY" "\<not> is_float i"
    "operand_kind (lhs i) = IR_OPERAND_INT" "evaluate_unary operator (int_value (lhs i)) = Some v"
    and rewritten: "ir_rewrite_to_assign_int i v = Some i'"
    using assms(3) by (auto simp: ir_try_fold_integer_unary_def finish_rewrite_def Let_def
        split: option.splits if_splits)
  have "stores M i i' (\<lambda>s. v)"
    using rewrite_to_assign_int_stores [OF rewritten] i * by (simp add: integer_operands_def)
  moreover have "mc_unary M operator (int_value (lhs i)) = Some v" using M *(5) by (rule mc_unary_eval)
  ultimately show ?thesis using *
    by (auto simp: same_step_def stores_def is_label_def store_result_def operand_value_def
        ir_move_simps(8) [OF *(2,3,1)])
qed (simp add: i same_step_refl)

lemma redundant_assign_same_step:
  assumes M: "integer_machine M" and i: "integer_operands i"
  shows "same_step M i (fst (ir_simplify_redundant_assign (i, changed)))"
proof (cases "fst (ir_simplify_redundant_assign (i, changed)) = i")
  case False
  then have *: "instr_op i = IR_OP_ASSIGN" "operand_kind (dest i) \<noteq> IR_OPERAND_NONE"
    "ir_operand_equals (dest i) (lhs i)"
    and out: "fst (ir_simplify_redundant_assign (i, changed)) = ir_instruction_make_nop i"
    by (auto simp: ir_simplify_redundant_assign_def Let_def split: if_splits)
  have kind: "operand_kind (dest i) \<in> {IR_OPERAND_TEMP, IR_OPERAND_SYMBOL}"
    using i * by (auto simp: integer_operands_def)
  have same: "operand_kind (lhs i) = operand_kind (dest i)" "operand_name (lhs i) = operand_name (dest i)"
    using * kind by (auto simp: ir_operand_equals_def split: IROperandKind.splits)
  have "mc_other M i s = Some s" for s using M * kind same by (auto simp: integer_machine_def)
  moreover have "mc_write M (dest i) (operand_value M s (lhs i)) s = s" for s
    using M kind same by (auto simp: integer_machine_def operand_value_def)
  ultimately have "ir_move M i s = Fall s" for s using *(1)
    by (simp add: ir_move_def other_move_def store_result_def)
  then show ?thesis using *(1) unfolding out
    by (simp add: same_step_def is_label_def integer_operands_def) (simp add: ir_move_def)
qed (simp add: i same_step_refl)

lemma simplify_branch_same_step:
  assumes i: "integer_operands i"
  shows "same_step M i (fst (ir_simplify_branch (i, changed)))"
proof -
  have nop: "integer_operands (ir_instruction_make_nop i)" "integer_operands (ir_instruction_make_jump i)"
    by (simp_all add: integer_operands_def)
  have eq: "operand_value M s (lhs i) = operand_value M s (rhs i)"
    if "instr_op i = IR_OP_BRANCH_EQ" "ir_operand_equals (lhs i) (rhs i)" for s
    using that i by (intro operand_value_equal) (auto simp: integer_operands_def)
  consider (zero) "instr_op i = IR_OP_BRANCH_ZERO" "operand_kind (lhs i) = IR_OPERAND_INT"
    | (const) "instr_op i = IR_OP_BRANCH_EQ" "operand_kind (lhs i) = IR_OPERAND_INT"
        "operand_kind (rhs i) = IR_OPERAND_INT"
    | (equal) "instr_op i = IR_OP_BRANCH_EQ" "ir_operand_equals (lhs i) (rhs i)"
        "\<not> (operand_kind (lhs i) = IR_OPERAND_INT \<and> operand_kind (rhs i) = IR_OPERAND_INT)"
    | (keep) "\<not> (instr_op i = IR_OP_BRANCH_ZERO \<and> operand_kind (lhs i) = IR_OPERAND_INT)"
        "\<not> (instr_op i = IR_OP_BRANCH_EQ \<and> operand_kind (lhs i) = IR_OPERAND_INT \<and>
          operand_kind (rhs i) = IR_OPERAND_INT)"
        "\<not> (instr_op i = IR_OP_BRANCH_EQ \<and> ir_operand_equals (lhs i) (rhs i))"
    by blast
  then show ?thesis
  proof cases
    case zero
    then show ?thesis using nop
      by (simp add: ir_simplify_branch_def same_step_def is_label_def ir_move_simps operand_value_def)
  next
    case const
    then show ?thesis using nop
      by (simp add: ir_simplify_branch_def same_step_def is_label_def ir_move_simps operand_value_def)
  next
    case equal
    then show ?thesis using nop eq
      by (auto simp: ir_simplify_branch_def same_step_def is_label_def ir_move_simps)
  next
    case keep
    then have "fst (ir_simplify_branch (i, changed)) = i"
      unfolding ir_simplify_branch_def by (simp only: Let_def fst_conv if_False)
    then show ?thesis using i by (simp add: same_step_refl)
  qed
qed

lemma simplify_instruction_same_step:
  assumes M: "integer_machine M" and i: "integer_operands i"
    and "simplify_instruction (i, changed) = Some (i', changed')"
  shows "same_step M i i'"
proof -
  obtain a ca b cb where a: "ir_try_fold_integer_binary (i, changed) = Some (a, ca)"
    and b: "ir_try_fold_integer_unary (a, ca) = Some (b, cb)"
    and out: "ir_simplify_branch (ir_simplify_redundant_assign (b, cb)) = (i', changed')"
    using assms(3) by (auto simp: simplify_instruction_def split: option.splits)
  obtain c cc where c: "ir_simplify_redundant_assign (b, cb) = (c, cc)" by fastforce
  have ab: "same_step M i a" by (rule fold_binary_same_step [OF M i a])
  then have bc: "same_step M a b" using fold_unary_same_step [OF M _ b] by (simp add: same_step_def)
  then have cd: "same_step M b c"
    using redundant_assign_same_step [OF M, of b cb] c by (simp add: same_step_def)
  then have "same_step M c i'"
    using simplify_branch_same_step [of c M cc] c out by (simp add: same_step_def)
  with ab bc cd show ?thesis by (blast intro: same_step_trans)
qed

lemma simplify_instructions_equiv:
  assumes M: "integer_machine M"
  shows "simplify_instructions ks (code, changed) = Some (code', changed') \<Longrightarrow>
    list_all integer_operands code \<Longrightarrow> \<forall>k \<in> set ks. k < length code \<Longrightarrow>
    same_labels code code' \<and> list_all integer_operands code' \<and> ir_equiv M code code'"
proof (induction ks arbitrary: code changed)
  case (Cons k ks)
  obtain i c where one: "simplify_instruction (code ! k, changed) = Some (i, c)"
    and rest: "simplify_instructions ks (code[k := i], c) = Some (code', changed')"
    using Cons.prems(1) by (auto split: option.splits prod.splits)
  have "integer_operands (code ! k)" using Cons.prems by (simp add: list_all_length)
  then have step: "same_step M (code ! k) i" using simplify_instruction_same_step [OF M _ one] by simp
  then have "same_labels code (code[k := i])" "ir_equiv M code (code[k := i])"
    "list_all integer_operands (code[k := i])"
    using Cons.prems by (auto simp: same_step_def list_all_length nth_list_update
        intro: same_labels_update replace_same_move)
  with Cons.IH [OF rest] Cons.prems show ?case
    by (auto intro: same_labels_trans ir_equiv_trans)
qed simp

end
