(* ===== verification/IR_Driver.thy ===== *)
theory IR_Driver
  imports IR_Cfg IR_Fold
begin

text \<open>
  The fixpoint driver of the optimiser (\<open>ir_optimize_function\<close> in \<open>src/ir/ir_optimize.c\<close>): the features
  of a function that gate the passes, the \<open>DRIVE_PASS\<close> macros with their version numbers, the
  environment switch that disables passes, the table of the 28 passes and the loop of at most eight
  iterations. The passes of \<open>IR_Flow\<close>, \<open>IR_Cfg\<close> and \<open>IR_Fold\<close> stand in the table; the other passes are
  arguments of it.
\<close>

section \<open>Features\<close>

definition ir_instruction_writes_temp :: "IRInstruction \<Rightarrow> bool" where
  "ir_instruction_writes_temp i =
     (operand_kind (dest i) = IR_OPERAND_TEMP \<and> operand_name (dest i) \<noteq> None \<and>
      instr_op i \<in> {IR_OP_ASSIGN, IR_OP_ADDRESS_OF, IR_OP_LOAD, IR_OP_BINARY, IR_OP_UNARY,
        IR_OP_ROTATE_ADD, IR_OP_CALL, IR_OP_CALL_INDIRECT, IR_OP_NEW, IR_OP_CAST})"

record IROptFunctionFeatures =
  has_label :: bool
  has_while_label :: bool
  has_jump :: bool
  has_branch_zero :: bool
  has_branch_eq :: bool
  has_call :: bool
  has_load :: bool
  has_assign :: bool
  has_binary :: bool
  has_div :: bool
  has_temp_write :: bool

definition no_features :: IROptFunctionFeatures where
  "no_features = \<lparr>has_label = False, has_while_label = False, has_jump = False, has_branch_zero = False,
     has_branch_eq = False, has_call = False, has_load = False, has_assign = False, has_binary = False,
     has_div = False, has_temp_write = False\<rparr>"

definition add_features :: "IRInstruction \<Rightarrow> IROptFunctionFeatures \<Rightarrow> IROptFunctionFeatures" where
  "add_features i f =
     (let f = (case instr_op i of
          IR_OP_LABEL \<Rightarrow> f \<lparr>has_label := True,
            has_while_label := has_while_label f \<or>
              (case instr_text i of None \<Rightarrow> False | Some l \<Rightarrow> take 9 l = ''ir_while_'')\<rparr>
        | IR_OP_JUMP \<Rightarrow> f \<lparr>has_jump := True\<rparr>
        | IR_OP_BRANCH_ZERO \<Rightarrow> f \<lparr>has_branch_zero := True\<rparr>
        | IR_OP_BRANCH_EQ \<Rightarrow> f \<lparr>has_branch_eq := True\<rparr>
        | IR_OP_CALL \<Rightarrow> f \<lparr>has_call := True\<rparr>
        | IR_OP_CALL_INDIRECT \<Rightarrow> f \<lparr>has_call := True\<rparr>
        | IR_OP_LOAD \<Rightarrow> f \<lparr>has_load := True\<rparr>
        | IR_OP_ASSIGN \<Rightarrow> f \<lparr>has_assign := True\<rparr>
        | IR_OP_BINARY \<Rightarrow> f \<lparr>has_binary := True, has_div := has_div f \<or> instr_text i = Some ''/''\<rparr>
        | _ \<Rightarrow> f) in
      if ir_instruction_writes_temp i then f \<lparr>has_temp_write := True\<rparr> else f)"

definition ir_collect_function_features :: "ir_code \<Rightarrow> IROptFunctionFeatures" where
  "ir_collect_function_features code = fold add_features code no_features"

section \<open>The simplification pass\<close>

type_synonym ir_pass = "pass_state \<Rightarrow> pass_state option"

definition run_if :: "bool \<Rightarrow> ir_pass \<Rightarrow> ir_pass" where
  "run_if condition p st = (if condition then p st else Some st)"

text \<open>\<open>ir_constant_and_branch_simplify_pass\<close> with its three peephole passes as arguments.\<close>

record simplify_peepholes =
  mod_even_bitcheck :: ir_pass
  branch_eq_chain_shortcut :: ir_pass
  branch_zero_forwarding :: ir_pass

definition has_operator :: "ir_code \<Rightarrow> string \<Rightarrow> bool" where
  "has_operator code operator =
     list_ex (\<lambda>i. instr_op i = IR_OP_BINARY \<and> instr_text i = Some operator) code"

definition has_op :: "ir_code \<Rightarrow> IROpcode \<Rightarrow> bool" where
  "has_op code oper = list_ex (\<lambda>i. instr_op i = oper) code"

definition ir_constant_and_branch_simplify_pass :: "simplify_peepholes \<Rightarrow> ir_pass" where
  "ir_constant_and_branch_simplify_pass P st =
     (let code = fst st; has_eq = has_operator code ''==''; has_ne = has_operator code ''!=''
      in Option.bind (run_if (has_operator code ''%'' \<and> (has_eq \<or> has_ne)) (mod_even_bitcheck P) st)
        (\<lambda>st. Option.bind (run_if (has_eq \<and> has_op code IR_OP_BRANCH_ZERO \<and> has_op code IR_OP_JUMP \<and>
            has_op code IR_OP_LABEL) (branch_eq_chain_shortcut P) st)
        (\<lambda>st. Option.bind (run_if (has_ne \<and> has_op code IR_OP_BRANCH_ZERO) (branch_zero_forwarding P) st)
          simplify_instructions_pass)))"

section \<open>Disabled passes\<close>

text \<open>\<open>METTLE_SKIP_PASS\<close>: the search for the decimal number of the pass, delimited by commas or blanks.\<close>

function skip_scan :: "string \<Rightarrow> string \<Rightarrow> nat \<Rightarrow> bool" where
  "skip_scan spec buf p =
     (if buf = [] \<or> length spec < p + length buf then False
      else if take (length buf) (drop p spec) \<noteq> buf then skip_scan spec buf (Suc p)
      else let previous = (if p = 0 then CHR '','' else spec ! (p - 1));
               following = (if p + length buf < length spec then spec ! (p + length buf) else CHR 0x00) in
        if (previous = CHR '','' \<or> previous = CHR '' '') \<and>
           (following = CHR '','' \<or> following = CHR '' '' \<or> following = CHR 0x00)
        then True else skip_scan spec buf (p + length buf))"
  by pat_completeness auto
termination
  by (relation "measure (\<lambda>(spec, buf, p). Suc (length spec) - p)")
    (auto simp flip: length_greater_0_conv)

declare skip_scan.simps [simp del]

definition ir_pass_is_skipped :: "string option \<Rightarrow> nat \<Rightarrow> bool" where
  "ir_pass_is_skipped spec idx = (case spec of None \<Rightarrow> False
     | Some s \<Rightarrow> s \<noteq> [] \<and> skip_scan s (show_nat idx) 0)"

section \<open>The driver\<close>

record drive_state =
  ds_code :: ir_code
  ds_version :: nat
  ds_clean :: "nat list"
  ds_changed :: bool

definition mark_clean :: "nat \<Rightarrow> drive_state \<Rightarrow> drive_state" where
  "mark_clean idx st = st \<lparr>ds_clean := (ds_clean st)[idx := ds_version st]\<rparr>"

definition drive_pass :: "string option \<Rightarrow> nat \<Rightarrow> ir_pass \<Rightarrow> drive_state \<Rightarrow> drive_state option" where
  "drive_pass spec idx p st =
     (if ir_pass_is_skipped spec idx then Some (mark_clean idx st)
      else if ds_clean st ! idx \<noteq> ds_version st then
        case p (ds_code st, False) of None \<Rightarrow> None
        | Some (code, c) \<Rightarrow>
            let st = st \<lparr>ds_code := code\<rparr> in
            if c then Some (st \<lparr>ds_changed := True, ds_version := Suc (ds_version st)\<rparr>)
            else Some (mark_clean idx st)
      else Some st)"

definition drive_pass_if ::
  "string option \<Rightarrow> nat \<Rightarrow> bool \<Rightarrow> ir_pass \<Rightarrow> drive_state \<Rightarrow> drive_state option" where
  "drive_pass_if spec idx condition p st =
     (if condition then drive_pass spec idx p st else Some (mark_clean idx st))"

text \<open>The gates of the 28 passes.\<close>

definition pass_condition :: "nat \<Rightarrow> IROptFunctionFeatures \<Rightarrow> bool" where
  "pass_condition idx f =
     (if idx \<in> {0, 3, 4, 18} then has_label f \<and> has_jump f
      else if idx = 5 then has_label f \<and> has_jump f \<and> has_div f
      else if idx \<in> {6, 8} then has_label f \<and> has_jump f \<and> has_branch_zero f \<and> has_binary f
      else if idx = 7 then has_label f \<and> has_jump f \<and> has_branch_zero f \<and> has_binary f \<and> has_load f
      else if idx = 9 then has_assign f
      else if idx = 12 then has_label f \<and> has_jump f \<and> has_branch_zero f \<and> has_load f
      else if idx = 13 then has_temp_write f
      else if idx \<in> {14, 20} then has_label f \<and> (has_jump f \<or> has_branch_zero f \<or> has_branch_eq f)
      else if idx = 15 then has_while_label f \<and> has_branch_zero f \<and> has_call f
      else if idx = 16 then has_label f \<and> has_jump f \<and> (has_branch_zero f \<or> has_branch_eq f)
      else if idx = 17 then has_label f \<and> (has_branch_zero f \<or> has_branch_eq f)
      else if idx = 21 then has_label f
      else if idx \<in> {24, 25, 27} then has_label f \<and> has_jump f \<and> has_load f
      else True)"

definition pass_function :: "(nat \<Rightarrow> ir_pass) \<Rightarrow> simplify_peepholes \<Rightarrow> nat \<Rightarrow> ir_pass" where
  "pass_function others P idx =
     (if idx = 11 then ir_constant_and_branch_simplify_pass P
      else if idx = 14 then Some \<circ> ir_thread_jump_targets_pass
      else if idx = 16 then Some \<circ> ir_remove_empty_conditional_diamonds_pass
      else if idx = 17 then Some \<circ> ir_remove_redundant_fallthrough_branches_pass
      else if idx = 18 then Some \<circ> ir_remove_redundant_jumps_pass
      else if idx = 19 then Some \<circ> ir_eliminate_unreachable_straightline_pass
      else if idx = 20 then ir_eliminate_unreachable_blocks_pass
      else if idx = 21 then Some \<circ> ir_remove_unused_labels_pass
      else others idx)"

fun drive_passes :: "string option \<Rightarrow> IROptFunctionFeatures \<Rightarrow> (nat \<Rightarrow> ir_pass) \<Rightarrow> nat list \<Rightarrow>
    drive_state \<Rightarrow> drive_state option" where
  "drive_passes spec f pass [] st = Some st"
| "drive_passes spec f pass (idx # rest) st =
     (case drive_pass_if spec idx (pass_condition idx f) (pass idx) st of
        None \<Rightarrow> None
      | Some st \<Rightarrow> drive_passes spec f pass rest st)"

fun drive_iterations :: "nat \<Rightarrow> string option \<Rightarrow> (nat \<Rightarrow> ir_pass) \<Rightarrow> drive_state \<Rightarrow> drive_state option" where
  "drive_iterations 0 spec pass st = Some st"
| "drive_iterations (Suc n) spec pass st =
     (case drive_passes spec (ir_collect_function_features (ds_code st)) pass [0..<28]
             (st \<lparr>ds_changed := False\<rparr>) of
        None \<Rightarrow> None
      | Some st \<Rightarrow> if ds_changed st then drive_iterations n spec pass st else Some st)"

definition optimize_loop :: "string option \<Rightarrow> (nat \<Rightarrow> ir_pass) \<Rightarrow> simplify_peepholes \<Rightarrow> ir_code \<Rightarrow> ir_code option" where
  "optimize_loop spec others P code = map_option ds_code
     (drive_iterations 8 spec (pass_function others P)
        \<lparr>ds_code = code, ds_version = 1, ds_clean = replicate 28 0, ds_changed = False\<rparr>)"

section \<open>Sound passes compose\<close>

text \<open>A pass is sound when it keeps the labels distinct, the operands in form and the behaviour.\<close>

definition good_code :: "ir_code \<Rightarrow> bool" where
  "good_code code = (distinct_labels code \<and> list_all integer_operands code)"

definition sound_pass :: "'s ir_machine \<Rightarrow> ir_pass \<Rightarrow> bool" where
  "sound_pass M p = (\<forall>code c code' c'. good_code code \<longrightarrow> p (code, c) = Some (code', c') \<longrightarrow>
     good_code code' \<and> same_behaviour M code code')"

lemma sound_passD:
  "sound_pass M p \<Longrightarrow> good_code code \<Longrightarrow> p (code, c) = Some (code', c') \<Longrightarrow>
   good_code code' \<and> same_behaviour M code code'"
  unfolding sound_pass_def by blast

lemma integer_operands_is_nop: "instr_op i = IR_OP_NOP \<Longrightarrow> integer_operands i"
  by (simp add: integer_operands_def)

lemma integer_operands_nop [simp]: "integer_operands (ir_instruction_make_nop i)"
  by (simp add: integer_operands_def)

lemma integer_operands_text [simp]: "integer_operands (i \<lparr>instr_text := t\<rparr>) = integer_operands i"
  by (simp add: integer_operands_def)

lemma integer_operands_nop_at: "list_all integer_operands code \<Longrightarrow> list_all integer_operands (nop_at i code)"
  by (auto simp: list_all_length nth_nop_at)

lemma fold_keeps:
  "(\<And>i st. Q st \<Longrightarrow> Q (step i st)) \<Longrightarrow> Q st \<Longrightarrow> Q (fold step is st)"
  by (induction "is" arbitrary: st) auto

lemma flow_steps_operands:
  assumes "list_all integer_operands (fst st)"
  shows "list_all integer_operands (fst (redundant_jump_step i st))"
    "list_all integer_operands (fst (redundant_branch_step i st))"
    "list_all integer_operands (fst (diamond_step i st))"
    "list_all integer_operands (fst (unused_label_step i st))"
    "list_all integer_operands (fst (unreachable_step ri i st))"
  using assms
  by (auto simp: redundant_jump_step_def redundant_branch_step_def diamond_step_def unused_label_step_def
      unreachable_step_def integer_operands_nop_at split: option.splits prod.splits)

lemma thread_step_operands:
  assumes "list_all integer_operands (fst st)"
  shows "list_all integer_operands (fst (thread_step i st))"
proof -
  have "integer_operands ((fst st)[i := (fst st ! i) \<lparr>instr_text := t\<rparr>] ! k)" if "k < length (fst st)" for t k
    using assms that by (cases "k = i") (auto simp: list_all_length)
  then have "list_all integer_operands ((fst st)[i := (fst st ! i) \<lparr>instr_text := t\<rparr>])" for t
    by (simp add: list_all_length)
  with assms show ?thesis by (auto simp: thread_step_def Let_def split: option.splits prod.splits)
qed

lemma straightline_operands:
  "list_all integer_operands code \<Longrightarrow>
   list_all integer_operands (fst (ir_eliminate_unreachable_straightline_pass (code, changed)))"
  unfolding ir_eliminate_unreachable_straightline_pass_def
  by (rule fold_keeps [where Q = "\<lambda>st. list_all integer_operands (fst (snd st))"])
    (auto simp: straightline_step_def integer_operands_nop_at split: prod.splits)

lemma sound_flow_passes:
  "sound_pass M (Some \<circ> ir_thread_jump_targets_pass)"
  "sound_pass M (Some \<circ> ir_remove_empty_conditional_diamonds_pass)"
  "sound_pass M (Some \<circ> ir_remove_redundant_fallthrough_branches_pass)"
  "sound_pass M (Some \<circ> ir_remove_redundant_jumps_pass)"
  "sound_pass M (Some \<circ> ir_remove_unused_labels_pass)"
proof -
  note keeps = fold_keeps [where Q = "\<lambda>st. list_all integer_operands (fst st)"]
  have sound: "sound_pass M (Some \<circ> p)"
    if "\<And>code c. distinct_labels code \<Longrightarrow> distinct_labels (fst (p (code, c))) \<and>
        length (fst (p (code, c))) = length code \<and> ir_equiv M code (fst (p (code, c)))"
      and "\<And>code c. list_all integer_operands code \<Longrightarrow> list_all integer_operands (fst (p (code, c)))" for p
    using that unfolding sound_pass_def good_code_def
    by (auto intro!: ir_equiv_same_behaviour) (metis fst_conv)+
  show "sound_pass M (Some \<circ> ir_thread_jump_targets_pass)"
    by (rule sound [OF thread_pass_equiv])
      (auto simp: ir_thread_jump_targets_pass_def intro!: keeps thread_step_operands)
  show "sound_pass M (Some \<circ> ir_remove_empty_conditional_diamonds_pass)"
    by (rule sound [OF diamonds_pass_equiv])
      (auto simp: ir_remove_empty_conditional_diamonds_pass_def intro!: keeps flow_steps_operands)
  show "sound_pass M (Some \<circ> ir_remove_redundant_fallthrough_branches_pass)"
    by (rule sound [OF redundant_branches_pass_equiv])
      (auto simp: ir_remove_redundant_fallthrough_branches_pass_def intro!: keeps flow_steps_operands)
  show "sound_pass M (Some \<circ> ir_remove_redundant_jumps_pass)"
    by (rule sound [OF redundant_jumps_pass_equiv])
      (auto simp: ir_remove_redundant_jumps_pass_def intro!: keeps flow_steps_operands)
  show "sound_pass M (Some \<circ> ir_remove_unused_labels_pass)"
    by (rule sound [OF unused_labels_pass_equiv])
      (auto simp: ir_remove_unused_labels_pass_def intro!: keeps flow_steps_operands)
qed

lemma sound_straightline: "sound_pass M (Some \<circ> ir_eliminate_unreachable_straightline_pass)"
  unfolding sound_pass_def good_code_def
proof (intro allI impI)
  fix code c code' c'
  assume good: "distinct_labels code \<and> list_all integer_operands code"
    and run: "(Some \<circ> ir_eliminate_unreachable_straightline_pass) (code, c) = Some (code', c')"
  then have out: "code' = fst (ir_eliminate_unreachable_straightline_pass (code, c))" by simp
  show "(distinct_labels code' \<and> list_all integer_operands code') \<and> same_behaviour M code code'"
    using straightline_pass_behaviour [of code c M] straightline_operands [of code c] good
      same_labels_distinct [of code code'] unfolding out by blast
qed

lemma sound_unreachable_blocks: "sound_pass M ir_eliminate_unreachable_blocks_pass"
  unfolding sound_pass_def good_code_def
proof (intro allI impI)
  fix code c code' c'
  assume good: "distinct_labels code \<and> list_all integer_operands code"
    and run: "ir_eliminate_unreachable_blocks_pass (code, c) = Some (code', c')"
  from unreachable_blocks_pass_behaviour [of code c M] run
  have *: "length code' = length code" "same_behaviour M code code'"
    "\<forall>k < length code. code' ! k = code ! k \<or> instr_op (code' ! k) = IR_OP_NOP" by auto
  have "distinct_labels code'"
    by (rule distinct_labels_mono [of code]) (use good * in \<open>auto simp: list_all2_conv_all_nth\<close>)
  moreover have "list_all integer_operands code'"
    unfolding list_all_length
  proof (intro allI impI)
    fix k assume "k < length code'"
    with * have "code' ! k = code ! k \<or> instr_op (code' ! k) = IR_OP_NOP" by simp
    moreover have "integer_operands (code ! k)"
      using good \<open>k < length code'\<close> * by (simp add: list_all_length)
    ultimately show "integer_operands (code' ! k)" using integer_operands_is_nop by metis
  qed
  ultimately show "(distinct_labels code' \<and> list_all integer_operands code') \<and> same_behaviour M code code'"
    using * by simp
qed

lemma sound_simplify_loop:
  assumes "integer_machine M"
  shows "sound_pass M simplify_instructions_pass"
  unfolding sound_pass_def good_code_def simplify_instructions_pass_def
proof (intro allI impI)
  fix code c code' c'
  assume good: "distinct_labels code \<and> list_all integer_operands code"
    and run: "simplify_instructions [0..<length (fst (code, c))] (code, c) = Some (code', c')"
  then have "same_labels code code' \<and> list_all integer_operands code' \<and> ir_equiv M code code'"
    by (intro simplify_instructions_equiv [OF assms]) auto
  then show "(distinct_labels code' \<and> list_all integer_operands code') \<and> same_behaviour M code code'"
    using good by (auto simp: same_labels_distinct ir_equiv_same_behaviour)
qed

lemma sound_bind:
  assumes "sound_pass M p" "sound_pass M q"
  shows "sound_pass M (\<lambda>st. Option.bind (p st) q)"
  unfolding sound_pass_def
proof (intro allI impI)
  fix code c code' c'
  assume good: "good_code code" and run: "Option.bind (p (code, c)) q = Some (code', c')"
  then obtain code1 c1 where "p (code, c) = Some (code1, c1)" "q (code1, c1) = Some (code', c')"
    by (auto simp: bind_eq_Some_conv)
  with good sound_passD [OF assms(1)] sound_passD [OF assms(2)]
  show "good_code code' \<and> same_behaviour M code code'" by (blast intro: same_behaviour_trans)
qed

definition sound_peepholes :: "'s ir_machine \<Rightarrow> simplify_peepholes \<Rightarrow> bool" where
  "sound_peepholes M P = (sound_pass M (mod_even_bitcheck P) \<and> sound_pass M (branch_eq_chain_shortcut P) \<and>
     sound_pass M (branch_zero_forwarding P))"

lemma sound_run_if: "sound_pass M p \<Longrightarrow> sound_pass M (run_if b p)"
  by (auto simp: sound_pass_def run_if_def)

lemma sound_simplify:
  assumes "integer_machine M" "sound_peepholes M P"
  shows "sound_pass M (ir_constant_and_branch_simplify_pass P)"
  unfolding sound_pass_def
proof (intro allI impI)
  fix code c code' c'
  assume good: "good_code code" and run: "ir_constant_and_branch_simplify_pass P (code, c) = Some (code', c')"
  have sound: "sound_pass M (\<lambda>st. Option.bind (run_if b1 (mod_even_bitcheck P) st)
      (\<lambda>st. Option.bind (run_if b2 (branch_eq_chain_shortcut P) st)
      (\<lambda>st. Option.bind (run_if b3 (branch_zero_forwarding P) st) simplify_instructions_pass)))" for b1 b2 b3
    using assms(2) sound_simplify_loop [OF assms(1)]
    by (auto simp: sound_peepholes_def intro!: sound_bind sound_run_if)
  show "good_code code' \<and> same_behaviour M code code'"
    using run unfolding ir_constant_and_branch_simplify_pass_def Let_def
    by (rule sound_passD [OF sound good])
qed

lemma sound_if: "sound_pass M p \<Longrightarrow> sound_pass M q \<Longrightarrow> sound_pass M (if b then p else q)"
  by simp

lemma sound_pass_function:
  assumes "integer_machine M" "sound_peepholes M P" "\<And>idx. sound_pass M (others idx)"
  shows "sound_pass M (pass_function others P idx)"
  unfolding pass_function_def
  by (intro sound_if sound_flow_passes sound_straightline sound_unreachable_blocks
      sound_simplify [OF assms(1,2)] assms(3))

lemma drive_pass_sound:
  assumes "sound_pass M p" "good_code (ds_code st)" "drive_pass spec idx p st = Some st'"
  shows "good_code (ds_code st') \<and> same_behaviour M (ds_code st) (ds_code st')"
proof (cases "ir_pass_is_skipped spec idx \<or> ds_clean st ! idx = ds_version st")
  case True
  with assms(2,3) show ?thesis by (auto simp: drive_pass_def mark_clean_def split: if_splits)
next
  case False
  with assms(3) obtain code c where "p (ds_code st, False) = Some (code, c)" "ds_code st' = code"
    by (auto simp: drive_pass_def mark_clean_def Let_def split: if_splits option.splits prod.splits)
  with sound_passD [OF assms(1,2)] show ?thesis by blast
qed

lemma drive_passes_sound:
  assumes "\<And>idx. sound_pass M (pass idx)"
  shows "good_code (ds_code st) \<Longrightarrow> drive_passes spec f pass ids st = Some st' \<Longrightarrow>
    good_code (ds_code st') \<and> same_behaviour M (ds_code st) (ds_code st')"
proof (induction ids arbitrary: st)
  case (Cons idx ids)
  from Cons.prems obtain st1 where one: "drive_pass_if spec idx (pass_condition idx f) (pass idx) st = Some st1"
    and rest: "drive_passes spec f pass ids st1 = Some st'" by (auto split: option.splits)
  have "good_code (ds_code st1) \<and> same_behaviour M (ds_code st) (ds_code st1)"
    using one Cons.prems(1) drive_pass_sound [OF assms Cons.prems(1), of spec idx idx st1]
    by (auto simp: drive_pass_if_def mark_clean_def split: if_splits)
  with Cons.IH [OF _ rest] show ?case by (blast intro: same_behaviour_trans)
qed simp

lemma drive_iterations_sound:
  assumes "\<And>idx. sound_pass M (pass idx)"
  shows "good_code (ds_code st) \<Longrightarrow> drive_iterations n spec pass st = Some st' \<Longrightarrow>
    good_code (ds_code st') \<and> same_behaviour M (ds_code st) (ds_code st')"
proof (induction n arbitrary: st)
  case (Suc n)
  from Suc.prems(2) obtain st1 where one:
    "drive_passes spec (ir_collect_function_features (ds_code st)) pass [0..<28] (st \<lparr>ds_changed := False\<rparr>) = Some st1"
    and rest: "(if ds_changed st1 then drive_iterations n spec pass st1 else Some st1) = Some st'"
    by (auto simp del: upt.simps split: option.splits)
  have ok: "good_code (ds_code st1) \<and> same_behaviour M (ds_code st) (ds_code st1)"
    using drive_passes_sound [OF assms _ one] Suc.prems(1) by simp
  show ?case
  proof (cases "ds_changed st1")
    case True
    with rest have "drive_iterations n spec pass st1 = Some st'" by simp
    with Suc.IH [of st1] ok show ?thesis by (blast intro: same_behaviour_trans)
  qed (use ok rest in simp)
qed simp

end
