(* ===== verification/IR_Optimizer.thy ===== *)
theory IR_Optimizer
  imports IR_Driver
begin

text \<open>
  What the optimiser's passes promise, over a machine that computes with 64-bit integers, and
  concrete runs of them. The example machine keeps one 64-bit value per operand name.
\<close>

section \<open>Example code and machine\<close>

definition plain :: "IROpcode \<Rightarrow> string option \<Rightarrow> IRInstruction" where
  "plain oper t = \<lparr>instr_op = oper, location = (0, 0), dest = ir_operand_none, lhs = ir_operand_none,
     rhs = ir_operand_none, instr_text = t, arguments = [], is_float = False, instr_float_bits = 0,
     ast_ref = None\<rparr>"

definition demo_machine :: "(IROperandKind \<times> string option \<Rightarrow> u64) ir_machine" where
  "demo_machine = \<lparr>mc_value = (\<lambda>s k n. s (k, n)),
     mc_write = (\<lambda>d v s. if operand_kind d \<in> {IR_OPERAND_TEMP, IR_OPERAND_SYMBOL}
       then s((operand_kind d, operand_name d) := v) else s),
     mc_binary = (\<lambda>operator a b. map_option word_of_int (int_binary operator (sint a) (sint b))),
     mc_unary = (\<lambda>operator a. map_option word_of_int (int_unary operator (sint a))),
     mc_return = (\<lambda>i s. s), mc_other = (\<lambda>i s. Some s)\<rparr>"

lemma demo_machine_integer: "integer_machine demo_machine"
  by (auto simp: integer_machine_def demo_machine_def)

text \<open>\<open>if (x * 8 == 0) goto A; ...\<close> with a chain of jumps and a dead tail.\<close>

definition demo_code :: ir_code where
  "demo_code =
     [plain IR_OP_BINARY (Some ''*'') \<lparr>dest := ir_operand_temp (Some ''t''),
        lhs := ir_operand_symbol (Some ''x''), rhs := ir_operand_int 8\<rparr>,
      plain IR_OP_BRANCH_ZERO (Some ''A'') \<lparr>lhs := ir_operand_temp (Some ''t'')\<rparr>,
      plain IR_OP_JUMP (Some ''B''),
      plain IR_OP_LABEL (Some ''A''),
      plain IR_OP_JUMP (Some ''B''),
      plain IR_OP_ASSIGN None \<lparr>dest := ir_operand_symbol (Some ''x''), lhs := ir_operand_int 1\<rparr>,
      plain IR_OP_LABEL (Some ''B''),
      plain IR_OP_RETURN None \<lparr>lhs := ir_operand_temp (Some ''t'')\<rparr>]"

lemmas demo_defs = demo_code_def plain_def ir_operand_temp_def ir_operand_symbol_def
  ir_operand_int_def ir_operand_none_def

definition keep_pass :: ir_pass where "keep_pass = Some"

definition keep_peepholes :: simplify_peepholes where
  "keep_peepholes = \<lparr>mod_even_bitcheck = keep_pass, branch_eq_chain_shortcut = keep_pass,
     branch_zero_forwarding = keep_pass\<rparr>"

lemma demo_code_good: "good_code demo_code"
  by code_simp

lemma sound_keep: "sound_pass M keep_pass"
  by (simp add: sound_pass_def keep_pass_def)

lemma sound_keep_peepholes: "sound_peepholes M keep_peepholes"
  by (simp add: sound_peepholes_def keep_peepholes_def sound_keep)

section \<open>Folding\<close>

text \<open>(C37) Constant evaluation is integer arithmetic: for every operator and every pair of 64-bit constants
  the compiler folds exactly when the operator is defined on the two signed integers (no division by
  zero, no overflowing division, shift amounts below 64), and the folded constant is the integer
  result modulo \<open>2 ^ 64\<close>.\<close>

theorem constant_evaluation_is_integer_arithmetic:
  "ir_try_evaluate_integer_binary operator l r =
   map_option word_of_int (int_binary operator (sint l) (sint r))"
  by (rule evaluate_integer_binary)

text \<open>(C8) Simplifying one instruction (constant folding, algebraic identities, strength reduction of a
  multiplication, removal of self-assignments, branches on constants) leaves what it does unchanged
  in every state, on every machine that computes with integers.\<close>

theorem simplify_instruction_keeps_move:
  assumes "integer_machine M" and "integer_operands i"
    and "simplify_instruction (i, changed) = Some (i', changed')"
  shows "ir_move M i' s = ir_move M i s"
  using simplify_instruction_same_step [OF assms] by (simp add: same_step_def)

theorem simplify_instruction_keeps_move_witness:
  "simplify_instruction (demo_code ! 0, False) =
     Some ((demo_code ! 0) \<lparr>rhs := ir_operand_int 3, instr_text := Some ''<<''\<rparr>, True) \<and>
   ir_move demo_machine ((demo_code ! 0) \<lparr>rhs := ir_operand_int 3, instr_text := Some ''<<''\<rparr>) (\<lambda>_. 5) =
   ir_move demo_machine (demo_code ! 0) (\<lambda>_. 5)"
proof -
  have run: "simplify_instruction (demo_code ! 0, False) =
      Some ((demo_code ! 0) \<lparr>rhs := ir_operand_int 3, instr_text := Some ''<<''\<rparr>, True)" by code_simp
  have "integer_operands (demo_code ! 0)" by code_simp
  from simplify_instruction_keeps_move [OF demo_machine_integer this run] run show ?thesis by simp
qed

section \<open>Control flow\<close>

text \<open>(C6) The in-place control-flow passes (jump threading through chains and cycles of jumps, empty
  conditional diamonds, redundant branches, redundant jumps, unused labels) keep the behaviour of a
  list with distinct labels: from every position and state the result ends with the same outcome, and
  never ends where the original does not; the labels stay distinct and no position moves.\<close>

theorem flow_passes_keep_behaviour:
  assumes "distinct_labels code"
    and "pass \<in> {ir_thread_jump_targets_pass, ir_remove_empty_conditional_diamonds_pass,
      ir_remove_redundant_fallthrough_branches_pass, ir_remove_redundant_jumps_pass,
      ir_remove_unused_labels_pass}"
  shows "distinct_labels (fst (pass (code, changed))) \<and> length (fst (pass (code, changed))) = length code \<and>
    (\<forall>pc s out. halts M (fst (pass (code, changed))) pc s out \<longleftrightarrow> halts M code pc s out)"
  using assms thread_pass_equiv [OF assms(1), of changed M] diamonds_pass_equiv [OF assms(1), of changed M]
    redundant_branches_pass_equiv [OF assms(1), of changed M]
    redundant_jumps_pass_equiv [OF assms(1), of changed M] unused_labels_pass_equiv [OF assms(1), of changed M]
  by (auto simp: ir_equiv_def)

theorem flow_passes_keep_behaviour_witness:
  "distinct_labels demo_code \<and>
   map instr_text (fst (ir_thread_jump_targets_pass (demo_code, False))) =
     [Some ''*'', Some ''B'', Some ''B'', Some ''A'', Some ''B'', None, Some ''B'', None] \<and>
   (\<forall>pc s out. halts demo_machine (fst (ir_thread_jump_targets_pass (demo_code, False))) pc s out \<longleftrightarrow>
      halts demo_machine demo_code pc s out)"
proof -
  have "distinct_labels demo_code" by code_simp
  moreover have "map instr_text (fst (ir_thread_jump_targets_pass (demo_code, False))) =
      [Some ''*'', Some ''B'', Some ''B'', Some ''A'', Some ''B'', None, Some ''B'', None]" by code_simp
  ultimately show ?thesis
    using flow_passes_keep_behaviour [of demo_code ir_thread_jump_targets_pass False demo_machine] by simp
qed



text \<open>(C9) Removing the blocks that the worklist does not reach from the entry always succeeds, only turns
  instructions into \<open>NOP\<close>s, and keeps what the function does from its entry in every state, ending
  or not; so does the removal of straight-line code after a jump or return.\<close>

theorem unreachable_code_removal:
  "\<exists>code' changed'. ir_eliminate_unreachable_blocks_pass (code, changed) = Some (code', changed') \<and>
     length code' = length code \<and>
     (\<forall>k < length code. code' ! k = code ! k \<or> instr_op (code' ! k) = IR_OP_NOP) \<and>
     (\<forall>s out. halts M code' 0 s out \<longleftrightarrow> halts M code 0 s out) \<and>
     (\<forall>s out. halts M (fst (ir_eliminate_unreachable_straightline_pass (code, changed))) 0 s out \<longleftrightarrow>
        halts M code 0 s out)"
  using unreachable_blocks_pass_behaviour [of code changed M] straightline_pass_behaviour [of code changed M]
  unfolding same_behaviour_def by metis

theorem unreachable_code_removal_witness:
  "\<exists>code' changed'. ir_eliminate_unreachable_blocks_pass (demo_code, False) = Some (code', changed') \<and>
     instr_op (code' ! 5) = IR_OP_NOP \<and> length code' = length demo_code \<and>
     (\<forall>s out. halts demo_machine code' 0 s out \<longleftrightarrow> halts demo_machine demo_code 0 s out)"
proof -
  have "map_option (\<lambda>(code', changed'). instr_op (code' ! 5))
      (ir_eliminate_unreachable_blocks_pass (demo_code, False)) = Some IR_OP_NOP" by code_simp
  then show ?thesis using unreachable_code_removal [of demo_code False demo_machine] by auto
qed

section \<open>The driver\<close>



text \<open>The gates of \<open>DRIVE_PASS_IF\<close> read features collected at the start of the iteration, but mark the
  pass clean at the version it is reached with. A branch on a constant becomes a jump within the
  iteration; the pass that removes redundant jumps is not run on it, is marked clean at the new
  version and is skipped from then on, although it would change the code.\<close>

definition stale_code :: ir_code where
  "stale_code = [plain IR_OP_BRANCH_ZERO (Some ''L'') \<lparr>lhs := ir_operand_int 0\<rparr>,
     plain IR_OP_LABEL (Some ''L''), plain IR_OP_RETURN None]"

theorem stale_features_skip_an_effective_pass:
  "\<exists>code'. optimize_loop None (\<lambda>_. keep_pass) keep_peepholes stale_code = Some code' \<and>
     snd (ir_remove_redundant_jumps_pass (code', False))"
proof -
  have "map_option (\<lambda>code'. snd (ir_remove_redundant_jumps_pass (code', False)))
      (optimize_loop None (\<lambda>_. keep_pass) keep_peepholes stale_code) = Some True" by code_simp
  then show ?thesis by auto
qed

end
