(* ===== verification/X86_Encode.thy ===== *)
theory X86_Encode
  imports Linker_Bytes
begin

text \<open>
  The instruction encoders of the binary back end (\<open>src/codegen/binary/encoders.c\<close>). An encoder appends
  bytes to the code buffer; here it is the list of bytes it appends, \<open>None\<close> where it returns 0 before
  it has appended anything. Appending succeeds: the buffer grows as needed. An encoder with a
  placeholder also gives the position of the displacement behind the bytes already in the buffer.
\<close>

section \<open>Registers and the code buffer\<close>

datatype (plugins only: code size) BinaryGpRegister = BINARY_GP_RAX | BINARY_GP_RCX | BINARY_GP_RDX | BINARY_GP_RBX
  | BINARY_GP_RSP | BINARY_GP_RBP | BINARY_GP_RSI | BINARY_GP_RDI | BINARY_GP_R8 | BINARY_GP_R9
  | BINARY_GP_R10 | BINARY_GP_R11 | BINARY_GP_R12 | BINARY_GP_R13 | BINARY_GP_R14 | BINARY_GP_R15

datatype (plugins only: code size) BinaryXmmRegister = BINARY_XMM0 | BINARY_XMM1 | BINARY_XMM2 | BINARY_XMM3
  | BINARY_XMM4 | BINARY_XMM5 | BINARY_XMM6 | BINARY_XMM7

text \<open>The numbers of the enumerators.\<close>

fun gp_code :: "BinaryGpRegister \<Rightarrow> u8" where
  "gp_code BINARY_GP_RAX = 0" | "gp_code BINARY_GP_RCX = 1" | "gp_code BINARY_GP_RDX = 2"
| "gp_code BINARY_GP_RBX = 3" | "gp_code BINARY_GP_RSP = 4" | "gp_code BINARY_GP_RBP = 5"
| "gp_code BINARY_GP_RSI = 6" | "gp_code BINARY_GP_RDI = 7" | "gp_code BINARY_GP_R8 = 8"
| "gp_code BINARY_GP_R9 = 9" | "gp_code BINARY_GP_R10 = 10" | "gp_code BINARY_GP_R11 = 11"
| "gp_code BINARY_GP_R12 = 12" | "gp_code BINARY_GP_R13 = 13" | "gp_code BINARY_GP_R14 = 14"
| "gp_code BINARY_GP_R15 = 15"

fun xmm_code :: "BinaryXmmRegister \<Rightarrow> u8" where
  "xmm_code BINARY_XMM0 = 0" | "xmm_code BINARY_XMM1 = 1" | "xmm_code BINARY_XMM2 = 2"
| "xmm_code BINARY_XMM3 = 3" | "xmm_code BINARY_XMM4 = 4" | "xmm_code BINARY_XMM5 = 5"
| "xmm_code BINARY_XMM6 = 6" | "xmm_code BINARY_XMM7 = 7"

text \<open>\<open>r >> 3\<close> as a truth value and \<open>r & 7\<close>.\<close>

definition high :: "u8 \<Rightarrow> bool" where "high r = (drop_bit 3 r \<noteq> 0)"

definition low :: "u8 \<Rightarrow> u8" where "low r = r AND 7"

definition rex_byte :: "bool \<Rightarrow> bool \<Rightarrow> bool \<Rightarrow> bool \<Rightarrow> u8" where
  "rex_byte w r x b = 0x40 OR (if w then 0x08 else 0) OR (if r then 0x04 else 0) OR
     (if x then 0x02 else 0) OR (if b then 0x01 else 0)"

definition binary_emit_rex :: "bool \<Rightarrow> bool \<Rightarrow> bool \<Rightarrow> bool \<Rightarrow> bytes" where
  "binary_emit_rex w r x b = (if rex_byte w r x b = 0x40 then [] else [rex_byte w r x b])"

definition binary_emit_rex_maybe_forced :: "bool \<Rightarrow> bool \<Rightarrow> bool \<Rightarrow> bool \<Rightarrow> bool \<Rightarrow> bytes" where
  "binary_emit_rex_maybe_forced w r x b forced =
     (if rex_byte w r x b = 0x40 \<and> \<not> forced then [] else [rex_byte w r x b])"

text \<open>The ModRM byte of two registers: \<open>0xC0 | (reg & 7) << 3 | (rm & 7)\<close>.\<close>

definition modrm_registers :: "u8 \<Rightarrow> u8 \<Rightarrow> u8" where
  "modrm_registers reg rm = 0xC0 OR push_bit 3 (low reg) OR low rm"

definition fits_i8 :: "int \<Rightarrow> bool" where "fits_i8 v = (- 128 \<le> v \<and> v \<le> 127)"

section \<open>Moves, pushes and arithmetic with immediates\<close>

definition binary_emit_syscall :: bytes where "binary_emit_syscall = [0x0F, 0x05]"

definition binary_emit_push_reg :: "BinaryGpRegister \<Rightarrow> bytes" where
  "binary_emit_push_reg reg =
     (if 8 \<le> gp_code reg then binary_emit_rex False False False True else []) @ [0x50 + low (gp_code reg)]"

definition binary_emit_pop_reg :: "BinaryGpRegister \<Rightarrow> bytes" where
  "binary_emit_pop_reg reg =
     (if 8 \<le> gp_code reg then binary_emit_rex False False False True else []) @ [0x58 + low (gp_code reg)]"

definition binary_emit_mov_reg_reg :: "BinaryGpRegister \<Rightarrow> BinaryGpRegister \<Rightarrow> bytes" where
  "binary_emit_mov_reg_reg destination source = (if destination = source then []
     else binary_emit_rex True (high (gp_code destination)) False (high (gp_code source)) @
       [0x8B, modrm_registers (gp_code destination) (gp_code source)])"

definition binary_emit_mov_reg_reg32 :: "BinaryGpRegister \<Rightarrow> BinaryGpRegister \<Rightarrow> bytes" where
  "binary_emit_mov_reg_reg32 destination source = (if destination = source then []
     else binary_emit_rex False (high (gp_code source)) False (high (gp_code destination)) @
       [0x89, modrm_registers (gp_code source) (gp_code destination)])"

definition binary_emit_mov_reg_imm32_zero_extend :: "BinaryGpRegister \<Rightarrow> u32 \<Rightarrow> bytes" where
  "binary_emit_mov_reg_imm32_zero_extend destination immediate =
     binary_emit_rex False False False (high (gp_code destination)) @
     [0xB8 + low (gp_code destination)] @ bytes_u32 immediate"

definition binary_emit_xor_reg_reg32 :: "BinaryGpRegister \<Rightarrow> bytes" where
  "binary_emit_xor_reg_reg32 reg =
     binary_emit_rex False (high (gp_code reg)) False (high (gp_code reg)) @
     [0x31, modrm_registers (gp_code reg) (gp_code reg)]"

definition binary_emit_alu_rsp_imm32 :: "u8 \<Rightarrow> u32 \<Rightarrow> bytes" where
  "binary_emit_alu_rsp_imm32 subopcode immediate =
     (if immediate = 0 then []
      else if fits_i8 (sint immediate) then
        binary_emit_rex True False False False @
        [0x83, modrm_registers subopcode (gp_code BINARY_GP_RSP), ucast immediate]
      else binary_emit_rex True False False False @
        [0x81, modrm_registers subopcode (gp_code BINARY_GP_RSP)] @ bytes_u32 immediate)"

definition binary_emit_sub_rsp_imm32 :: "u32 \<Rightarrow> bytes" where
  "binary_emit_sub_rsp_imm32 immediate = binary_emit_alu_rsp_imm32 5 immediate"

definition binary_emit_add_rsp_imm32 :: "u32 \<Rightarrow> bytes" where
  "binary_emit_add_rsp_imm32 immediate = binary_emit_alu_rsp_imm32 0 immediate"

definition binary_emit_alu_reg_imm32 :: "u8 \<Rightarrow> BinaryGpRegister \<Rightarrow> u32 \<Rightarrow> bytes" where
  "binary_emit_alu_reg_imm32 subopcode reg immediate =
     (if (subopcode = 0 \<or> subopcode = 1 \<or> subopcode = 5 \<or> subopcode = 6) \<and> immediate = 0 then []
      else if subopcode = 4 \<and> immediate = 0xFFFFFFFF then []
      else if fits_i8 (sint immediate) then
        binary_emit_rex True False False (high (gp_code reg)) @
        [0x83, modrm_registers subopcode (gp_code reg), ucast immediate]
      else binary_emit_rex True False False (high (gp_code reg)) @
        [0x81, modrm_registers subopcode (gp_code reg)] @ bytes_u32 immediate)"

definition binary_emit_add_reg_imm32 :: "BinaryGpRegister \<Rightarrow> u32 \<Rightarrow> bytes" where
  "binary_emit_add_reg_imm32 reg immediate = binary_emit_alu_reg_imm32 0 reg immediate"

definition binary_emit_sub_reg_imm32 :: "BinaryGpRegister \<Rightarrow> u32 \<Rightarrow> bytes" where
  "binary_emit_sub_reg_imm32 reg immediate = binary_emit_alu_reg_imm32 5 reg immediate"

definition binary_emit_and_reg_imm32 :: "BinaryGpRegister \<Rightarrow> u32 \<Rightarrow> bytes" where
  "binary_emit_and_reg_imm32 reg immediate = binary_emit_alu_reg_imm32 4 reg immediate"

definition binary_emit_or_reg_imm32 :: "BinaryGpRegister \<Rightarrow> u32 \<Rightarrow> bytes" where
  "binary_emit_or_reg_imm32 reg immediate = binary_emit_alu_reg_imm32 1 reg immediate"

definition binary_emit_xor_reg_imm32 :: "BinaryGpRegister \<Rightarrow> u32 \<Rightarrow> bytes" where
  "binary_emit_xor_reg_imm32 reg immediate = binary_emit_alu_reg_imm32 6 reg immediate"

definition binary_emit_test_reg_reg :: "BinaryGpRegister \<Rightarrow> bytes" where
  "binary_emit_test_reg_reg reg =
     binary_emit_rex True (high (gp_code reg)) False (high (gp_code reg)) @
     [0x85, modrm_registers (gp_code reg) (gp_code reg)]"

definition binary_emit_cmp_reg_imm32 :: "BinaryGpRegister \<Rightarrow> u32 \<Rightarrow> bytes" where
  "binary_emit_cmp_reg_imm32 reg immediate =
     (if immediate = 0 then binary_emit_test_reg_reg reg else binary_emit_alu_reg_imm32 7 reg immediate)"

definition binary_emit_mov_reg_imm64 :: "BinaryGpRegister \<Rightarrow> u64 \<Rightarrow> bytes" where
  "binary_emit_mov_reg_imm64 destination immediate =
     (if immediate = 0 then binary_emit_mov_reg_imm32_zero_extend destination 0
      else if immediate \<le> 0xFFFFFFFF then binary_emit_mov_reg_imm32_zero_extend destination (ucast immediate)
      else if 0xFFFFFFFF80000000 \<le> immediate then
        binary_emit_rex True False False (high (gp_code destination)) @
        [0xC7, 0xC0 OR low (gp_code destination)] @ bytes_u32 (ucast immediate)
      else binary_emit_rex True False False (high (gp_code destination)) @
        [0xB8 + low (gp_code destination)] @ bytes_u64 immediate)"

section \<open>Memory access\<close>

text \<open>A displacement is a C \<open>int\<close>; its low 8 or 32 bits are appended.\<close>

definition displacement_bytes :: "int \<Rightarrow> bytes" where
  "displacement_bytes displacement =
     (if fits_i8 displacement then [word_of_int displacement] else bytes_u32 (word_of_int displacement))"

definition binary_emit_memory_access_ex_internal ::
  "bool \<Rightarrow> bool \<Rightarrow> u8 \<Rightarrow> u8 option \<Rightarrow> BinaryGpRegister \<Rightarrow> BinaryGpRegister \<Rightarrow> int \<Rightarrow> bool \<Rightarrow> bytes" where
  "binary_emit_memory_access_ex_internal operand_size_prefix rex_w opcode1 opcode2 reg base displacement force_rex =
     (let md = (if fits_i8 displacement then 1 else 2 :: u8);
          rm = low (gp_code base);
          modrm = push_bit 6 md OR push_bit 3 (low (gp_code reg)) OR
            (if rm = low (gp_code BINARY_GP_RSP) then 4 else rm)
      in (if operand_size_prefix then [0x66] else []) @
         binary_emit_rex_maybe_forced rex_w (high (gp_code reg)) False (high (gp_code base)) force_rex @
         [opcode1] @ (case opcode2 of None \<Rightarrow> [] | Some opc \<Rightarrow> [opc]) @ [modrm] @
         (if rm = low (gp_code BINARY_GP_RSP) then [push_bit 6 0 OR push_bit 3 4 OR low (gp_code base)] else []) @
         displacement_bytes displacement)"

definition binary_emit_memory_access_ex ::
  "bool \<Rightarrow> bool \<Rightarrow> u8 \<Rightarrow> u8 option \<Rightarrow> BinaryGpRegister \<Rightarrow> BinaryGpRegister \<Rightarrow> int \<Rightarrow> bytes" where
  "binary_emit_memory_access_ex operand_size_prefix rex_w opcode1 opcode2 reg base displacement =
     binary_emit_memory_access_ex_internal operand_size_prefix rex_w opcode1 opcode2 reg base displacement False"

definition binary_emit_memory_access :: "u8 \<Rightarrow> BinaryGpRegister \<Rightarrow> BinaryGpRegister \<Rightarrow> int \<Rightarrow> bytes" where
  "binary_emit_memory_access opcode reg base displacement =
     binary_emit_memory_access_ex False True opcode None reg base displacement"

definition binary_emit_mov_reg_mem :: "BinaryGpRegister \<Rightarrow> BinaryGpRegister \<Rightarrow> int \<Rightarrow> bytes" where
  "binary_emit_mov_reg_mem destination base displacement =
     binary_emit_memory_access 0x8B destination base displacement"

definition binary_emit_mov_mem_reg :: "BinaryGpRegister \<Rightarrow> int \<Rightarrow> BinaryGpRegister \<Rightarrow> bytes" where
  "binary_emit_mov_mem_reg base displacement source = binary_emit_memory_access 0x89 source base displacement"

definition binary_emit_movzx_reg_mem8 :: "BinaryGpRegister \<Rightarrow> BinaryGpRegister \<Rightarrow> int \<Rightarrow> bytes" where
  "binary_emit_movzx_reg_mem8 destination base displacement =
     binary_emit_memory_access_ex False False 0x0F (Some 0xB6) destination base displacement"

definition binary_emit_movzx_reg_mem16 :: "BinaryGpRegister \<Rightarrow> BinaryGpRegister \<Rightarrow> int \<Rightarrow> bytes" where
  "binary_emit_movzx_reg_mem16 destination base displacement =
     binary_emit_memory_access_ex False False 0x0F (Some 0xB7) destination base displacement"

definition binary_emit_mov_reg_mem32 :: "BinaryGpRegister \<Rightarrow> BinaryGpRegister \<Rightarrow> int \<Rightarrow> bytes" where
  "binary_emit_mov_reg_mem32 destination base displacement =
     binary_emit_memory_access_ex False False 0x8B None destination base displacement"

definition needs_rex8 :: "BinaryGpRegister \<Rightarrow> bool" where
  "needs_rex8 source = (gp_code BINARY_GP_RSP \<le> gp_code source \<and> gp_code source \<le> gp_code BINARY_GP_RDI)"

definition binary_emit_mov_mem_reg8 :: "BinaryGpRegister \<Rightarrow> int \<Rightarrow> BinaryGpRegister \<Rightarrow> bytes" where
  "binary_emit_mov_mem_reg8 base displacement source =
     binary_emit_memory_access_ex_internal False False 0x88 None source base displacement (needs_rex8 source)"

definition binary_emit_mov_mem_reg16 :: "BinaryGpRegister \<Rightarrow> int \<Rightarrow> BinaryGpRegister \<Rightarrow> bytes" where
  "binary_emit_mov_mem_reg16 base displacement source =
     binary_emit_memory_access_ex True False 0x89 None source base displacement"

definition binary_emit_mov_mem_reg32 :: "BinaryGpRegister \<Rightarrow> int \<Rightarrow> BinaryGpRegister \<Rightarrow> bytes" where
  "binary_emit_mov_mem_reg32 base displacement source =
     binary_emit_memory_access_ex False False 0x89 None source base displacement"

definition binary_emit_lea_reg_mem :: "BinaryGpRegister \<Rightarrow> BinaryGpRegister \<Rightarrow> int \<Rightarrow> bytes" where
  "binary_emit_lea_reg_mem destination base displacement =
     binary_emit_memory_access 0x8D destination base displacement"

definition scale_bits :: "int \<Rightarrow> u8 option" where
  "scale_bits scale = (if scale = 1 then Some 0 else if scale = 2 then Some 1 else if scale = 4 then Some 2
     else if scale = 8 then Some 3 else None)"

definition binary_emit_lea_reg_base_index_scale_disp ::
  "BinaryGpRegister \<Rightarrow> BinaryGpRegister \<Rightarrow> BinaryGpRegister \<Rightarrow> int \<Rightarrow> int \<Rightarrow> bytes option" where
  "binary_emit_lea_reg_base_index_scale_disp destination base index scale displacement =
     (if index = BINARY_GP_RSP then None
      else case scale_bits scale of None \<Rightarrow> None
      | Some bits \<Rightarrow>
         let md = (if displacement = 0 \<and> low (gp_code base) \<noteq> low (gp_code BINARY_GP_RBP) then 0
                   else if fits_i8 displacement then 1 else 2 :: u8) in
         Some (binary_emit_rex True (high (gp_code destination)) (high (gp_code index)) (high (gp_code base)) @
           [0x8D, push_bit 6 md OR push_bit 3 (low (gp_code destination)) OR 4,
            push_bit 6 bits OR push_bit 3 (low (gp_code index)) OR low (gp_code base)] @
           (if md = 1 then [word_of_int displacement]
            else if md = 2 then bytes_u32 (word_of_int displacement) else [])))"

definition binary_emit_lea_reg_reg ::
  "BinaryGpRegister \<Rightarrow> BinaryGpRegister \<Rightarrow> BinaryGpRegister \<Rightarrow> bytes option" where
  "binary_emit_lea_reg_reg destination l r =
     (if r \<noteq> BINARY_GP_RSP then binary_emit_lea_reg_base_index_scale_disp destination l r 1 0
      else if l \<noteq> BINARY_GP_RSP then binary_emit_lea_reg_base_index_scale_disp destination r l 1 0
      else None)"

section \<open>RIP-relative access\<close>

text \<open>The bytes end in a displacement of 0 to be patched; the number is the offset of the displacement.\<close>

definition binary_emit_lea_reg_rip_placeholder :: "BinaryGpRegister \<Rightarrow> bytes \<times> nat" where
  "binary_emit_lea_reg_rip_placeholder destination =
     (let head = binary_emit_rex True (high (gp_code destination)) False False @
        [0x8D, 0x05 OR push_bit 3 (low (gp_code destination))] in (head @ bytes_u32 0, length head))"

definition binary_emit_rip_relative_access_ex_internal ::
  "bool \<Rightarrow> bool \<Rightarrow> u8 \<Rightarrow> u8 option \<Rightarrow> BinaryGpRegister \<Rightarrow> bool \<Rightarrow> bytes \<times> nat" where
  "binary_emit_rip_relative_access_ex_internal operand_size_prefix rex_w opcode1 opcode2 reg force_rex =
     (let head = (if operand_size_prefix then [0x66] else []) @
        binary_emit_rex_maybe_forced rex_w (high (gp_code reg)) False False force_rex @
        [opcode1] @ (case opcode2 of None \<Rightarrow> [] | Some opc \<Rightarrow> [opc]) @
        [0x05 OR push_bit 3 (low (gp_code reg))] in (head @ bytes_u32 0, length head))"

definition binary_emit_rip_relative_access_ex ::
  "bool \<Rightarrow> bool \<Rightarrow> u8 \<Rightarrow> u8 option \<Rightarrow> BinaryGpRegister \<Rightarrow> bytes \<times> nat" where
  "binary_emit_rip_relative_access_ex operand_size_prefix rex_w opcode1 opcode2 reg =
     binary_emit_rip_relative_access_ex_internal operand_size_prefix rex_w opcode1 opcode2 reg False"

definition binary_emit_mov_reg_rip_mem :: "BinaryGpRegister \<Rightarrow> bytes \<times> nat" where
  "binary_emit_mov_reg_rip_mem reg = binary_emit_rip_relative_access_ex False True 0x8B None reg"

definition binary_emit_mov_reg32_rip_mem :: "BinaryGpRegister \<Rightarrow> bytes \<times> nat" where
  "binary_emit_mov_reg32_rip_mem reg = binary_emit_rip_relative_access_ex False False 0x8B None reg"

definition binary_emit_mov_mem_rip_reg16 :: "BinaryGpRegister \<Rightarrow> bytes \<times> nat" where
  "binary_emit_mov_mem_rip_reg16 reg = binary_emit_rip_relative_access_ex True False 0x89 None reg"

definition binary_emit_mov_mem_rip_reg32 :: "BinaryGpRegister \<Rightarrow> bytes \<times> nat" where
  "binary_emit_mov_mem_rip_reg32 reg = binary_emit_rip_relative_access_ex False False 0x89 None reg"

definition binary_emit_mov_mem_rip_reg :: "BinaryGpRegister \<Rightarrow> bytes \<times> nat" where
  "binary_emit_mov_mem_rip_reg reg = binary_emit_rip_relative_access_ex False True 0x89 None reg"

definition binary_emit_movzx_reg_rip_mem8 :: "BinaryGpRegister \<Rightarrow> bytes \<times> nat" where
  "binary_emit_movzx_reg_rip_mem8 reg = binary_emit_rip_relative_access_ex False False 0x0F (Some 0xB6) reg"

definition binary_emit_movzx_reg_rip_mem16 :: "BinaryGpRegister \<Rightarrow> bytes \<times> nat" where
  "binary_emit_movzx_reg_rip_mem16 reg = binary_emit_rip_relative_access_ex False False 0x0F (Some 0xB7) reg"

definition binary_emit_mov_mem_rip_reg8 :: "BinaryGpRegister \<Rightarrow> bytes \<times> nat" where
  "binary_emit_mov_mem_rip_reg8 source =
     binary_emit_rip_relative_access_ex_internal False False 0x88 None source (needs_rex8 source)"

section \<open>Register to register\<close>

definition binary_emit_test_reg_imm32 :: "BinaryGpRegister \<Rightarrow> u32 \<Rightarrow> bytes" where
  "binary_emit_test_reg_imm32 reg immediate =
     binary_emit_rex True False False (high (gp_code reg)) @ [0xF7, 0xC0 OR low (gp_code reg)] @
     bytes_u32 immediate"

definition binary_emit_cmp_reg_reg :: "BinaryGpRegister \<Rightarrow> BinaryGpRegister \<Rightarrow> bytes" where
  "binary_emit_cmp_reg_reg l r =
     binary_emit_rex True (high (gp_code r)) False (high (gp_code l)) @
     [0x39, modrm_registers (gp_code r) (gp_code l)]"

definition binary_emit_cmp_reg_reg32 :: "BinaryGpRegister \<Rightarrow> BinaryGpRegister \<Rightarrow> bytes" where
  "binary_emit_cmp_reg_reg32 l r =
     binary_emit_rex False (high (gp_code r)) False (high (gp_code l)) @
     [0x39, modrm_registers (gp_code r) (gp_code l)]"

definition binary_emit_cmovcc_reg_reg :: "u8 \<Rightarrow> BinaryGpRegister \<Rightarrow> BinaryGpRegister \<Rightarrow> bytes option" where
  "binary_emit_cmovcc_reg_reg opcode destination source =
     (if opcode < 0x40 \<or> 0x4F < opcode then None
      else Some (binary_emit_rex True (high (gp_code destination)) False (high (gp_code source)) @
        [0x0F, opcode, modrm_registers (gp_code destination) (gp_code source)]))"

definition binary_emit_alu_reg_reg :: "u8 \<Rightarrow> BinaryGpRegister \<Rightarrow> BinaryGpRegister \<Rightarrow> bytes" where
  "binary_emit_alu_reg_reg opcode destination source =
     binary_emit_rex True (high (gp_code source)) False (high (gp_code destination)) @
     [opcode, modrm_registers (gp_code source) (gp_code destination)]"

definition binary_emit_imul_reg_reg :: "BinaryGpRegister \<Rightarrow> BinaryGpRegister \<Rightarrow> bytes" where
  "binary_emit_imul_reg_reg destination source =
     binary_emit_rex True (high (gp_code destination)) False (high (gp_code source)) @
     [0x0F, 0xAF, modrm_registers (gp_code destination) (gp_code source)]"

definition binary_emit_unary_reg :: "u8 \<Rightarrow> BinaryGpRegister \<Rightarrow> bytes" where
  "binary_emit_unary_reg subopcode reg =
     binary_emit_rex True False False (high (gp_code reg)) @ [0xF7, modrm_registers subopcode (gp_code reg)]"

definition binary_emit_neg_reg :: "BinaryGpRegister \<Rightarrow> bytes" where
  "binary_emit_neg_reg reg = binary_emit_unary_reg 3 reg"

definition binary_emit_not_reg :: "BinaryGpRegister \<Rightarrow> bytes" where
  "binary_emit_not_reg reg = binary_emit_unary_reg 2 reg"

definition binary_emit_idiv_reg :: "BinaryGpRegister \<Rightarrow> bytes" where
  "binary_emit_idiv_reg divisor = binary_emit_unary_reg 7 divisor"

definition binary_emit_shift_reg_cl :: "u8 \<Rightarrow> BinaryGpRegister \<Rightarrow> bytes" where
  "binary_emit_shift_reg_cl subopcode reg =
     binary_emit_rex True False False (high (gp_code reg)) @ [0xD3, modrm_registers subopcode (gp_code reg)]"

definition binary_emit_shift_reg_imm8 :: "u8 \<Rightarrow> BinaryGpRegister \<Rightarrow> u8 \<Rightarrow> bytes" where
  "binary_emit_shift_reg_imm8 subopcode reg immediate =
     (if immediate = 0 then []
      else if immediate = 1 then
        binary_emit_rex True False False (high (gp_code reg)) @ [0xD1, modrm_registers subopcode (gp_code reg)]
      else binary_emit_rex True False False (high (gp_code reg)) @
        [0xC1, modrm_registers subopcode (gp_code reg), immediate])"

section \<open>Multiplication by a constant\<close>

function halvings32 :: "u32 \<Rightarrow> u8 \<Rightarrow> u8" where
  "halvings32 v shift = (if 1 < v then halvings32 (drop_bit 1 v) (shift + 1) else shift)"
  by pat_completeness auto
termination
proof (relation "measure (\<lambda>(v, shift). unat v)")
  fix v :: u32 and shift :: u8
  assume "1 < v"
  then have "1 < unat v" by (simp add: word_less_nat_alt)
  moreover have "unat (drop_bit 1 v) = drop_bit 1 (unat v)" by (rule unat_drop_bit_eq)
  ultimately have "unat (drop_bit 1 v) < unat v" using drop_bit_eq_div [of 1 "unat v"] by simp
  then show "((drop_bit 1 v, shift + 1), v, shift) \<in> measure (\<lambda>(v, shift). unat v)" by simp
qed simp

declare halvings32.simps [simp del]

definition binary_immediate_positive_power_of_two_i32 :: "u32 \<Rightarrow> u8 option" where
  "binary_immediate_positive_power_of_two_i32 v =
     (if sint v \<le> 0 \<or> v AND (v - 1) \<noteq> 0 then None else Some (halvings32 v 0))"

definition binary_emit_imul_reg_reg_small_imm ::
  "BinaryGpRegister \<Rightarrow> BinaryGpRegister \<Rightarrow> int \<Rightarrow> bytes option" where
  "binary_emit_imul_reg_reg_small_imm destination source immediate =
     (if immediate = - (2 ^ 31) then None
      else let scale = (if \<bar>immediate\<bar> = 3 then Some 2 else if \<bar>immediate\<bar> = 5 then Some 4
                        else if \<bar>immediate\<bar> = 9 then Some 8 else None) in
        case scale of None \<Rightarrow> None
        | Some scale \<Rightarrow>
           (case binary_emit_lea_reg_base_index_scale_disp destination source source scale 0 of
              None \<Rightarrow> None
            | Some code \<Rightarrow> Some (if immediate < 0 then code @ binary_emit_neg_reg destination else code)))"

definition binary_emit_imul_reg_reg_imm32 :: "BinaryGpRegister \<Rightarrow> BinaryGpRegister \<Rightarrow> u32 \<Rightarrow> bytes" where
  "binary_emit_imul_reg_reg_imm32 destination source immediate =
     (if sint immediate = 0 then binary_emit_xor_reg_reg32 destination
      else if sint immediate = 1 then binary_emit_mov_reg_reg destination source
      else if sint immediate = - 1 then
        binary_emit_mov_reg_reg destination source @ binary_emit_neg_reg destination
      else case binary_immediate_positive_power_of_two_i32 immediate of
        Some shift \<Rightarrow> binary_emit_mov_reg_reg destination source @ binary_emit_shift_reg_imm8 4 destination shift
      | None \<Rightarrow>
         (case (if sint immediate \<noteq> - (2 ^ 31) then binary_immediate_positive_power_of_two_i32 (- immediate) else None) of
            Some shift \<Rightarrow> binary_emit_mov_reg_reg destination source @
              binary_emit_shift_reg_imm8 4 destination shift @ binary_emit_neg_reg destination
          | None \<Rightarrow>
             (case binary_emit_imul_reg_reg_small_imm destination source (sint immediate) of
                Some code \<Rightarrow> code
              | None \<Rightarrow>
                  let opcode = (if fits_i8 (sint immediate) then 0x6B else 0x69 :: u8) in
                  binary_emit_rex True (high (gp_code destination)) False (high (gp_code source)) @
                  [opcode, modrm_registers (gp_code destination) (gp_code source)] @
                  (if opcode = 0x6B then [ucast immediate] else bytes_u32 immediate))))"

section \<open>Extensions, conditions and floating point\<close>

definition binary_emit_cqo :: bytes where "binary_emit_cqo = binary_emit_rex True False False False @ [0x99]"

definition binary_emit_setcc_al :: "u8 \<Rightarrow> bytes" where
  "binary_emit_setcc_al condition_opcode = [0x0F, condition_opcode, 0xC0]"

definition binary_emit_movzx_eax_al :: bytes where "binary_emit_movzx_eax_al = [0x0F, 0xB6, 0xC0]"

definition binary_emit_movzx_eax_ax :: bytes where "binary_emit_movzx_eax_ax = [0x0F, 0xB7, 0xC0]"

definition binary_emit_movsx_rax_al :: bytes where
  "binary_emit_movsx_rax_al = binary_emit_rex True False False False @ [0x0F, 0xBE, 0xC0]"

definition binary_emit_movsx_rax_ax :: bytes where
  "binary_emit_movsx_rax_ax = binary_emit_rex True False False False @ [0x0F, 0xBF, 0xC0]"

definition binary_emit_movsx_reg_reg8 :: "BinaryGpRegister \<Rightarrow> BinaryGpRegister \<Rightarrow> bytes" where
  "binary_emit_movsx_reg_reg8 destination source =
     binary_emit_rex True (high (gp_code destination)) False (high (gp_code source)) @
     [0x0F, 0xBE, modrm_registers (gp_code destination) (gp_code source)]"

definition binary_emit_movsx_reg_reg16 :: "BinaryGpRegister \<Rightarrow> BinaryGpRegister \<Rightarrow> bytes" where
  "binary_emit_movsx_reg_reg16 destination source =
     binary_emit_rex True (high (gp_code destination)) False (high (gp_code source)) @
     [0x0F, 0xBF, modrm_registers (gp_code destination) (gp_code source)]"

definition binary_emit_movsxd_reg_reg32 :: "BinaryGpRegister \<Rightarrow> BinaryGpRegister \<Rightarrow> bytes" where
  "binary_emit_movsxd_reg_reg32 destination source =
     binary_emit_rex True (high (gp_code destination)) False (high (gp_code source)) @
     [0x63, modrm_registers (gp_code destination) (gp_code source)]"

definition binary_emit_movsxd_rax_eax :: bytes where
  "binary_emit_movsxd_rax_eax = binary_emit_rex True False False False @ [0x63, 0xC0]"

definition binary_emit_mov_eax_eax :: bytes where "binary_emit_mov_eax_eax = [0x89, 0xC0]"

definition binary_emit_setcc_reg8 :: "u8 \<Rightarrow> BinaryGpRegister \<Rightarrow> bytes option" where
  "binary_emit_setcc_reg8 condition_opcode reg =
     (if 4 \<le> gp_code reg then None else Some [0x0F, condition_opcode, 0xC0 OR low (gp_code reg)])"

definition binary_emit_alu_reg8_reg8 :: "u8 \<Rightarrow> BinaryGpRegister \<Rightarrow> BinaryGpRegister \<Rightarrow> bytes option" where
  "binary_emit_alu_reg8_reg8 opcode destination source =
     (if 4 \<le> gp_code destination \<or> 4 \<le> gp_code source then None
      else Some [opcode, modrm_registers (gp_code source) (gp_code destination)])"

definition binary_emit_sse_reg_reg ::
  "u8 \<Rightarrow> bool \<Rightarrow> u8 \<Rightarrow> u8 \<Rightarrow> BinaryXmmRegister \<Rightarrow> BinaryXmmRegister \<Rightarrow> bytes" where
  "binary_emit_sse_reg_reg mandatory_prefix rex_w opcode1 opcode2 destination source =
     [mandatory_prefix] @ binary_emit_rex rex_w (high (xmm_code destination)) False (high (xmm_code source)) @
     [opcode1, opcode2, modrm_registers (xmm_code destination) (xmm_code source)]"

definition binary_emit_movq_xmm_reg :: "BinaryXmmRegister \<Rightarrow> BinaryGpRegister \<Rightarrow> bytes" where
  "binary_emit_movq_xmm_reg destination source =
     [0x66] @ binary_emit_rex True (high (xmm_code destination)) False (high (gp_code source)) @
     [0x0F, 0x6E, modrm_registers (xmm_code destination) (gp_code source)]"

definition binary_emit_movq_reg_xmm :: "BinaryGpRegister \<Rightarrow> BinaryXmmRegister \<Rightarrow> bytes" where
  "binary_emit_movq_reg_xmm destination source =
     [0x66] @ binary_emit_rex True (high (xmm_code source)) False (high (gp_code destination)) @
     [0x0F, 0x7E, modrm_registers (xmm_code source) (gp_code destination)]"

definition binary_emit_pxor_xmm_xmm :: "BinaryXmmRegister \<Rightarrow> BinaryXmmRegister \<Rightarrow> bytes" where
  "binary_emit_pxor_xmm_xmm destination source =
     binary_emit_sse_reg_reg 0x66 False 0x0F 0xEF destination source"

definition binary_emit_addsd_xmm_xmm :: "BinaryXmmRegister \<Rightarrow> BinaryXmmRegister \<Rightarrow> bytes" where
  "binary_emit_addsd_xmm_xmm destination source =
     binary_emit_sse_reg_reg 0xF2 False 0x0F 0x58 destination source"

definition binary_emit_subsd_xmm_xmm :: "BinaryXmmRegister \<Rightarrow> BinaryXmmRegister \<Rightarrow> bytes" where
  "binary_emit_subsd_xmm_xmm destination source =
     binary_emit_sse_reg_reg 0xF2 False 0x0F 0x5C destination source"

definition binary_emit_mulsd_xmm_xmm :: "BinaryXmmRegister \<Rightarrow> BinaryXmmRegister \<Rightarrow> bytes" where
  "binary_emit_mulsd_xmm_xmm destination source =
     binary_emit_sse_reg_reg 0xF2 False 0x0F 0x59 destination source"

definition binary_emit_divsd_xmm_xmm :: "BinaryXmmRegister \<Rightarrow> BinaryXmmRegister \<Rightarrow> bytes" where
  "binary_emit_divsd_xmm_xmm destination source =
     binary_emit_sse_reg_reg 0xF2 False 0x0F 0x5E destination source"

definition binary_emit_ucomisd_xmm_xmm :: "BinaryXmmRegister \<Rightarrow> BinaryXmmRegister \<Rightarrow> bytes" where
  "binary_emit_ucomisd_xmm_xmm destination source =
     binary_emit_sse_reg_reg 0x66 False 0x0F 0x2E destination source"

definition binary_emit_addss_xmm_xmm :: "BinaryXmmRegister \<Rightarrow> BinaryXmmRegister \<Rightarrow> bytes" where
  "binary_emit_addss_xmm_xmm destination source =
     binary_emit_sse_reg_reg 0xF3 False 0x0F 0x58 destination source"

definition binary_emit_subss_xmm_xmm :: "BinaryXmmRegister \<Rightarrow> BinaryXmmRegister \<Rightarrow> bytes" where
  "binary_emit_subss_xmm_xmm destination source =
     binary_emit_sse_reg_reg 0xF3 False 0x0F 0x5C destination source"

definition binary_emit_mulss_xmm_xmm :: "BinaryXmmRegister \<Rightarrow> BinaryXmmRegister \<Rightarrow> bytes" where
  "binary_emit_mulss_xmm_xmm destination source =
     binary_emit_sse_reg_reg 0xF3 False 0x0F 0x59 destination source"

definition binary_emit_divss_xmm_xmm :: "BinaryXmmRegister \<Rightarrow> BinaryXmmRegister \<Rightarrow> bytes" where
  "binary_emit_divss_xmm_xmm destination source =
     binary_emit_sse_reg_reg 0xF3 False 0x0F 0x5E destination source"

definition binary_emit_cvtss2sd_xmm_xmm :: "BinaryXmmRegister \<Rightarrow> BinaryXmmRegister \<Rightarrow> bytes" where
  "binary_emit_cvtss2sd_xmm_xmm destination source =
     binary_emit_sse_reg_reg 0xF3 False 0x0F 0x5A destination source"

definition binary_emit_cvtsd2ss_xmm_xmm :: "BinaryXmmRegister \<Rightarrow> BinaryXmmRegister \<Rightarrow> bytes" where
  "binary_emit_cvtsd2ss_xmm_xmm destination source =
     binary_emit_sse_reg_reg 0xF2 False 0x0F 0x5A destination source"

definition binary_emit_cvttsd2si_reg_xmm :: "BinaryGpRegister \<Rightarrow> BinaryXmmRegister \<Rightarrow> bytes" where
  "binary_emit_cvttsd2si_reg_xmm destination source =
     [0xF2] @ binary_emit_rex True (high (gp_code destination)) False (high (xmm_code source)) @
     [0x0F, 0x2C, modrm_registers (gp_code destination) (xmm_code source)]"

definition binary_emit_cvtsi2sd_xmm_reg :: "BinaryXmmRegister \<Rightarrow> BinaryGpRegister \<Rightarrow> bytes" where
  "binary_emit_cvtsi2sd_xmm_reg destination source =
     [0xF2] @ binary_emit_rex True (high (xmm_code destination)) False (high (gp_code source)) @
     [0x0F, 0x2A, modrm_registers (xmm_code destination) (gp_code source)]"

definition binary_emit_movd_xmm_reg :: "BinaryXmmRegister \<Rightarrow> BinaryGpRegister \<Rightarrow> bytes" where
  "binary_emit_movd_xmm_reg destination source =
     [0x66] @ binary_emit_rex False (high (xmm_code destination)) False (high (gp_code source)) @
     [0x0F, 0x6E, modrm_registers (xmm_code destination) (gp_code source)]"

definition binary_emit_movd_reg_xmm :: "BinaryGpRegister \<Rightarrow> BinaryXmmRegister \<Rightarrow> bytes" where
  "binary_emit_movd_reg_xmm destination source =
     [0x66] @ binary_emit_rex False (high (xmm_code source)) False (high (gp_code destination)) @
     [0x0F, 0x7E, modrm_registers (xmm_code source) (gp_code destination)]"

definition binary_emit_cvttss2si_reg_xmm :: "BinaryGpRegister \<Rightarrow> BinaryXmmRegister \<Rightarrow> bytes" where
  "binary_emit_cvttss2si_reg_xmm destination source =
     [0xF3] @ binary_emit_rex True (high (gp_code destination)) False (high (xmm_code source)) @
     [0x0F, 0x2C, modrm_registers (gp_code destination) (xmm_code source)]"

definition binary_emit_cvtsi2ss_xmm_reg :: "BinaryXmmRegister \<Rightarrow> BinaryGpRegister \<Rightarrow> bytes" where
  "binary_emit_cvtsi2ss_xmm_reg destination source =
     [0xF3] @ binary_emit_rex True (high (xmm_code destination)) False (high (gp_code source)) @
     [0x0F, 0x2A, modrm_registers (xmm_code destination) (gp_code source)]"

definition binary_emit_ucomiss_xmm_xmm :: "BinaryXmmRegister \<Rightarrow> BinaryXmmRegister \<Rightarrow> bytes" where
  "binary_emit_ucomiss_xmm_xmm l r =
     binary_emit_rex False (high (xmm_code l)) False (high (xmm_code r)) @
     [0x0F, 0x2E, modrm_registers (xmm_code l) (xmm_code r)]"

section \<open>Calls, jumps and patching\<close>

definition binary_emit_call_placeholder :: "bytes \<times> nat" where
  "binary_emit_call_placeholder = ([0xE8] @ bytes_u32 0, 1)"

definition binary_emit_call_reg :: "BinaryGpRegister \<Rightarrow> bytes" where
  "binary_emit_call_reg reg =
     (if 8 \<le> gp_code reg then binary_emit_rex False False False True else []) @ [0xFF, 0xD0 OR low (gp_code reg)]"

definition binary_emit_jmp_placeholder :: "bytes \<times> nat" where
  "binary_emit_jmp_placeholder = ([0xE9] @ bytes_u32 0, 1)"

definition binary_emit_jcc_placeholder :: "u8 \<Rightarrow> bytes \<times> nat" where
  "binary_emit_jcc_placeholder condition_opcode = ([0x0F, condition_opcode] @ bytes_u32 0, 2)"

definition binary_emit_je_placeholder :: "bytes \<times> nat" where
  "binary_emit_je_placeholder = binary_emit_jcc_placeholder 0x84"

definition binary_emit_ret :: bytes where "binary_emit_ret = [0xC3]"

definition binary_function_context_patch_rel32 :: "bytes \<Rightarrow> nat \<Rightarrow> nat \<Rightarrow> bytes option" where
  "binary_function_context_patch_rel32 code displacement_offset target_offset =
     (if length code < displacement_offset + 4 then None
      else let delta = int target_offset - int (displacement_offset + 4) in
        if delta < - (2 ^ 31) \<or> 2 ^ 31 - 1 < delta then None
        else Some (take displacement_offset code @ bytes_u32 (word_of_int delta) @
          drop (displacement_offset + 4) code))"

end
