(* ===== verification/X86_Decode.thy ===== *)
theory X86_Decode
  imports X86_Encode "HOL-Library.Monad_Syntax"
begin

text \<open>
  A reference for the instruction encoders: the subset of the x86-64 instruction format they use, as a decoder
  from bytes to instructions, and what those instructions do to registers, memory and the status flags.
  Nothing here translates the compiler; the theory states the processor's side of the contract.
\<close>

section \<open>Instructions\<close>

datatype (plugins only: code size) width = B8 | B16 | B32 | B64

datatype (plugins only: code size) alu = Alu_Add | Alu_Or | Alu_Adc | Alu_Sbb | Alu_And | Alu_Sub | Alu_Xor | Alu_Cmp

datatype (plugins only: code size) shift = Shift_Left | Shift_Right | Shift_Arith

text \<open>\<open>Based b (Some (i, s)) d\<close> is the address \<open>b + i * s + d\<close>; \<open>Rip d\<close> is \<open>d\<close> behind the instruction.\<close>

datatype (plugins only: code size) address = Based BinaryGpRegister "(BinaryGpRegister \<times> nat) option" int | Rip int

text \<open>\<open>High r\<close> is the second byte of one of the first four registers, which byte instructions without a
  REX byte name by the codes 4 to 7.\<close>

datatype (plugins only: code size) place = Reg BinaryGpRegister | High BinaryGpRegister | Mem address

datatype (plugins only: code size) sse = Sse_Add | Sse_Sub | Sse_Mul | Sse_Div | Sse_Ucomi | Sse_Convert | Sse_Pxor

datatype (plugins only: code size) precision = Scalar_Single | Scalar_Double | Packed

datatype (plugins only: code size) instr =
    Mov width place place
  | Mov_Imm width place u64
  | Movzx width BinaryGpRegister place
  | Movsx width BinaryGpRegister place
  | Alu alu width place place
  | Alu_Imm alu width place u64
  | Test width place place
  | Test_Imm width place u64
  | Lea BinaryGpRegister address
  | Imul BinaryGpRegister place
  | Imul_Imm BinaryGpRegister place u64
  | Not_Place place
  | Neg_Place place
  | Idiv place
  | Shift shift place u8
  | Shift_Cl shift place
  | Push BinaryGpRegister
  | Pop BinaryGpRegister
  | Cqo
  | Setcc u8 place
  | Cmovcc u8 BinaryGpRegister place
  | Jmp int
  | Jcc u8 int
  | Call int
  | Call_Reg BinaryGpRegister
  | Ret
  | Syscall
  | Sse sse precision BinaryXmmRegister BinaryXmmRegister
  | Mov_To_Xmm width BinaryXmmRegister BinaryGpRegister
  | Mov_From_Xmm width BinaryGpRegister BinaryXmmRegister
  | To_Integer precision BinaryGpRegister BinaryXmmRegister
  | From_Integer precision BinaryXmmRegister BinaryGpRegister

section \<open>Register numbers\<close>

definition gp_registers :: "BinaryGpRegister list" where
  "gp_registers = [BINARY_GP_RAX, BINARY_GP_RCX, BINARY_GP_RDX, BINARY_GP_RBX, BINARY_GP_RSP, BINARY_GP_RBP,
     BINARY_GP_RSI, BINARY_GP_RDI, BINARY_GP_R8, BINARY_GP_R9, BINARY_GP_R10, BINARY_GP_R11, BINARY_GP_R12,
     BINARY_GP_R13, BINARY_GP_R14, BINARY_GP_R15]"

definition xmm_registers :: "BinaryXmmRegister list" where
  "xmm_registers = [BINARY_XMM0, BINARY_XMM1, BINARY_XMM2, BINARY_XMM3, BINARY_XMM4, BINARY_XMM5,
     BINARY_XMM6, BINARY_XMM7]"

text \<open>The register with the three low bits \<open>n\<close> and the extension bit \<open>e\<close> of the REX byte.\<close>

definition gp_of :: "bool \<Rightarrow> u8 \<Rightarrow> BinaryGpRegister" where
  "gp_of e n = gp_registers ! (unat (n AND 7) + (if e then 8 else 0))"

definition xmm_of :: "bool \<Rightarrow> u8 \<Rightarrow> BinaryXmmRegister option" where
  "xmm_of e n = (if e then None else Some (xmm_registers ! unat (n AND 7)))"

section \<open>The decoder\<close>

record rex =
  rex_present :: bool
  rex_w :: bool
  rex_r :: bool
  rex_x :: bool
  rex_b :: bool

definition no_rex :: rex where
  "no_rex = \<lparr>rex_present = False, rex_w = False, rex_r = False, rex_x = False, rex_b = False\<rparr>"

fun decode_prefix :: "bytes \<Rightarrow> u8 \<times> bytes" where
  "decode_prefix [] = (0, [])"
| "decode_prefix (b # bs) = (if b = 0x66 \<or> b = 0xF2 \<or> b = 0xF3 then (b, bs) else (0, b # bs))"

fun decode_rex :: "bytes \<Rightarrow> rex \<times> bytes" where
  "decode_rex [] = (no_rex, [])"
| "decode_rex (b # bs) =
     (if drop_bit 4 b = 4 then (\<lparr>rex_present = True, rex_w = bit b 3, rex_r = bit b 2, rex_x = bit b 1, rex_b = bit b 0\<rparr>, bs)
      else (no_rex, b # bs))"

fun decode_i8 :: "bytes \<Rightarrow> (int \<times> bytes) option" where
  "decode_i8 (b # bs) = Some (sint b, bs)" | "decode_i8 [] = None"

definition decode_u32 :: "bytes \<Rightarrow> (u32 \<times> bytes) option" where
  "decode_u32 bs = (if length bs < 4 then None else Some (linker_read_u32 bs, drop 4 bs))"

definition decode_i32 :: "bytes \<Rightarrow> (int \<times> bytes) option" where
  "decode_i32 bs = map_option (\<lambda>(v, r). (sint v, r)) (decode_u32 bs)"

definition decode_u64 :: "bytes \<Rightarrow> (u64 \<times> bytes) option" where
  "decode_u64 bs = (if length bs < 8 then None else Some (linker_read_u64 bs, drop 8 bs))"

text \<open>The displacement that follows the ModRM and SIB bytes.\<close>

definition decode_displacement :: "u8 \<Rightarrow> bytes \<Rightarrow> (int \<times> bytes) option" where
  "decode_displacement md bs = (if md = 1 then decode_i8 bs else if md = 2 then decode_i32 bs else Some (0, bs))"

text \<open>The address for \<open>mod\<close> 0, 1 and 2. Base code 5 under \<open>mod\<close> 0 has no base register, which no encoder uses
  behind a SIB byte.\<close>

definition decode_address :: "rex \<Rightarrow> u8 \<Rightarrow> u8 \<Rightarrow> bytes \<Rightarrow> (address \<times> bytes) option" where
  "decode_address rex md rm bs =
     (if rm = 4 then
        (case bs of [] \<Rightarrow> None
         | sib # bs \<Rightarrow>
             if md = 0 \<and> sib AND 7 = 5 then None
             else do {
               (d, bs) \<leftarrow> decode_displacement md bs;
               Some (Based (gp_of (rex_b rex) sib)
                 (if drop_bit 3 sib AND 7 = 4 \<and> \<not> rex_x rex then None
                  else Some (gp_of (rex_x rex) (drop_bit 3 sib), 2 ^ unat (drop_bit 6 sib))) d, bs) })
      else if md = 0 \<and> rm = 5 then do { (d, bs) \<leftarrow> decode_i32 bs; Some (Rip d, bs) }
      else do { (d, bs) \<leftarrow> decode_displacement md bs; Some (Based (gp_of (rex_b rex) rm) None d, bs) })"

text \<open>A register operand is kept as its three bits, since its class depends on the opcode.\<close>

datatype (plugins only: code size) rm = Rm_Register u8 | Rm_Memory address

fun decode_modrm :: "rex \<Rightarrow> bytes \<Rightarrow> (u8 \<times> rm \<times> bytes) option" where
  "decode_modrm rex [] = None"
| "decode_modrm rex (b # bs) =
     (if drop_bit 6 b = 3 then Some (drop_bit 3 b AND 7, Rm_Register (b AND 7), bs)
      else do { (a, bs) \<leftarrow> decode_address rex (drop_bit 6 b) (b AND 7) bs;
                Some (drop_bit 3 b AND 7, Rm_Memory a, bs) })"

definition register_place :: "rex \<Rightarrow> width \<Rightarrow> bool \<Rightarrow> u8 \<Rightarrow> place" where
  "register_place rex w e n =
     (if w = B8 \<and> \<not> rex_present rex \<and> 4 \<le> n AND 7 then High (gp_of False (n AND 7 - 4)) else Reg (gp_of e n))"

fun rm_place :: "rex \<Rightarrow> width \<Rightarrow> rm \<Rightarrow> place" where
  "rm_place rex w (Rm_Register n) = register_place rex w (rex_b rex) n"
| "rm_place rex w (Rm_Memory a) = Mem a"

definition operand_width :: "u8 \<Rightarrow> rex \<Rightarrow> width" where
  "operand_width prefix rex = (if rex_w rex then B64 else if prefix = 0x66 then B16 else B32)"

definition alu_of :: "u8 \<Rightarrow> alu" where
  "alu_of n = [Alu_Add, Alu_Or, Alu_Adc, Alu_Sbb, Alu_And, Alu_Sub, Alu_Xor, Alu_Cmp] ! unat (n AND 7)"

definition shift_of :: "u8 \<Rightarrow> shift option" where
  "shift_of n = (if n = 4 then Some Shift_Left else if n = 5 then Some Shift_Right else if n = 7 then Some Shift_Arith else None)"

text \<open>Opcodes of one byte.\<close>

definition decode_one :: "u8 \<Rightarrow> rex \<Rightarrow> u8 \<Rightarrow> bytes \<Rightarrow> (instr \<times> bytes) option" where
  "decode_one prefix rex opcode bs =
     (let w = operand_width prefix rex; reg = (\<lambda>n. Reg (gp_of (rex_r rex) n)) in
      if opcode AND 0xF8 = 0x50 then Some (Push (gp_of (rex_b rex) opcode), bs)
      else if opcode AND 0xF8 = 0x58 then Some (Pop (gp_of (rex_b rex) opcode), bs)
      else if opcode AND 0xF8 = 0xB8 then
        (if rex_w rex then do { (v, bs) \<leftarrow> decode_u64 bs; Some (Mov_Imm B64 (Reg (gp_of (rex_b rex) opcode)) v, bs) }
         else do { (v, bs) \<leftarrow> decode_u32 bs; Some (Mov_Imm B32 (Reg (gp_of (rex_b rex) opcode)) (ucast v), bs) })
      else if opcode AND 0xC7 = 0x01 then do {
        (n, rm, bs) \<leftarrow> decode_modrm rex bs;
        Some (Alu (alu_of (drop_bit 3 opcode)) w (rm_place rex w rm) (reg n), bs) }
      else if opcode AND 0xC7 = 0x00 then do {
        (n, rm, bs) \<leftarrow> decode_modrm rex bs;
        Some (Alu (alu_of (drop_bit 3 opcode)) B8 (rm_place rex B8 rm) (register_place rex B8 (rex_r rex) n), bs) }
      else if opcode = 0x63 then do {
        (n, rm, bs) \<leftarrow> decode_modrm rex bs; Some (Movsx B32 (gp_of (rex_r rex) n) (rm_place rex B32 rm), bs) }
      else if opcode = 0x69 then do {
        (n, rm, bs) \<leftarrow> decode_modrm rex bs; (v, bs) \<leftarrow> decode_i32 bs;
        Some (Imul_Imm (gp_of (rex_r rex) n) (rm_place rex w rm) (word_of_int v), bs) }
      else if opcode = 0x6B then do {
        (n, rm, bs) \<leftarrow> decode_modrm rex bs; (v, bs) \<leftarrow> decode_i8 bs;
        Some (Imul_Imm (gp_of (rex_r rex) n) (rm_place rex w rm) (word_of_int v), bs) }
      else if opcode = 0x81 then do {
        (n, rm, bs) \<leftarrow> decode_modrm rex bs; (v, bs) \<leftarrow> decode_i32 bs;
        Some (Alu_Imm (alu_of n) w (rm_place rex w rm) (word_of_int v), bs) }
      else if opcode = 0x83 then do {
        (n, rm, bs) \<leftarrow> decode_modrm rex bs; (v, bs) \<leftarrow> decode_i8 bs;
        Some (Alu_Imm (alu_of n) w (rm_place rex w rm) (word_of_int v), bs) }
      else if opcode = 0x84 then do {
        (n, rm, bs) \<leftarrow> decode_modrm rex bs;
        Some (Test B8 (rm_place rex B8 rm) (register_place rex B8 (rex_r rex) n), bs) }
      else if opcode = 0x85 then do {
        (n, rm, bs) \<leftarrow> decode_modrm rex bs; Some (Test w (rm_place rex w rm) (reg n), bs) }
      else if opcode = 0x88 then do {
        (n, rm, bs) \<leftarrow> decode_modrm rex bs;
        Some (Mov B8 (rm_place rex B8 rm) (register_place rex B8 (rex_r rex) n), bs) }
      else if opcode = 0x89 then do {
        (n, rm, bs) \<leftarrow> decode_modrm rex bs; Some (Mov w (rm_place rex w rm) (reg n), bs) }
      else if opcode = 0x8B then do {
        (n, rm, bs) \<leftarrow> decode_modrm rex bs; Some (Mov w (reg n) (rm_place rex w rm), bs) }
      else if opcode = 0x8D then do {
        (n, rm, bs) \<leftarrow> decode_modrm rex bs;
        (case rm of Rm_Memory a \<Rightarrow> if w = B64 then Some (Lea (gp_of (rex_r rex) n) a, bs) else None | _ \<Rightarrow> None) }
      else if opcode = 0x99 then (if rex_w rex then Some (Cqo, bs) else None)
      else if opcode = 0xC1 then do {
        (n, rm, bs) \<leftarrow> decode_modrm rex bs; s \<leftarrow> shift_of n;
        (case bs of c # bs \<Rightarrow> if w = B64 then Some (Shift s (rm_place rex w rm) c, bs) else None | [] \<Rightarrow> None) }
      else if opcode = 0xC3 then Some (Ret, bs)
      else if opcode = 0xC7 then do {
        (n, rm, bs) \<leftarrow> decode_modrm rex bs; (v, bs) \<leftarrow> decode_i32 bs;
        (if n = 0 then Some (Mov_Imm w (rm_place rex w rm) (word_of_int v), bs) else None) }
      else if opcode = 0xD1 then do {
        (n, rm, bs) \<leftarrow> decode_modrm rex bs; s \<leftarrow> shift_of n;
        (if w = B64 then Some (Shift s (rm_place rex w rm) 1, bs) else None) }
      else if opcode = 0xD3 then do {
        (n, rm, bs) \<leftarrow> decode_modrm rex bs; s \<leftarrow> shift_of n;
        (if w = B64 then Some (Shift_Cl s (rm_place rex w rm), bs) else None) }
      else if opcode = 0xE8 then do { (d, bs) \<leftarrow> decode_i32 bs; Some (Call d, bs) }
      else if opcode = 0xE9 then do { (d, bs) \<leftarrow> decode_i32 bs; Some (Jmp d, bs) }
      else if opcode = 0xF7 then do {
        (n, rm, bs) \<leftarrow> decode_modrm rex bs;
        (if n = 0 then do { (v, bs) \<leftarrow> decode_i32 bs; Some (Test_Imm w (rm_place rex w rm) (word_of_int v), bs) }
         else if w \<noteq> B64 then None
         else if n = 2 then Some (Not_Place (rm_place rex w rm), bs)
         else if n = 3 then Some (Neg_Place (rm_place rex w rm), bs)
         else if n = 7 then Some (Idiv (rm_place rex w rm), bs) else None) }
      else if opcode = 0xFF then do {
        (n, rm, bs) \<leftarrow> decode_modrm rex bs;
        (case rm of Rm_Register r \<Rightarrow> if n = 2 then Some (Call_Reg (gp_of (rex_b rex) r), bs) else None | _ \<Rightarrow> None) }
      else None)"

text \<open>Opcodes behind 0x0F.\<close>

definition precision_of :: "u8 \<Rightarrow> precision option" where
  "precision_of prefix = (if prefix = 0xF2 then Some Scalar_Double else if prefix = 0xF3 then Some Scalar_Single else None)"

definition sse_of :: "u8 \<Rightarrow> u8 \<Rightarrow> (sse \<times> precision) option" where
  "sse_of prefix opcode =
     (if opcode = 0x2E then (if prefix = 0x66 then Some (Sse_Ucomi, Scalar_Double)
                             else if prefix = 0 then Some (Sse_Ucomi, Scalar_Single) else None)
      else if opcode = 0xEF then (if prefix = 0x66 then Some (Sse_Pxor, Packed) else None)
      else do { p \<leftarrow> precision_of prefix;
        (if opcode = 0x58 then Some (Sse_Add, p) else if opcode = 0x59 then Some (Sse_Mul, p)
         else if opcode = 0x5C then Some (Sse_Sub, p) else if opcode = 0x5E then Some (Sse_Div, p)
         else if opcode = 0x5A then Some (Sse_Convert, p) else None) })"

fun rm_gp :: "rex \<Rightarrow> rm \<Rightarrow> BinaryGpRegister option" where
  "rm_gp rex (Rm_Register n) = Some (gp_of (rex_b rex) n)" | "rm_gp rex (Rm_Memory a) = None"

fun rm_xmm :: "rex \<Rightarrow> rm \<Rightarrow> BinaryXmmRegister option" where
  "rm_xmm rex (Rm_Register n) = xmm_of (rex_b rex) n" | "rm_xmm rex (Rm_Memory a) = None"

definition decode_0f :: "u8 \<Rightarrow> rex \<Rightarrow> u8 \<Rightarrow> bytes \<Rightarrow> (instr \<times> bytes) option" where
  "decode_0f prefix rex opcode bs =
     (let w = operand_width prefix rex in
      if opcode = 0x05 then Some (Syscall, bs)
      else if opcode AND 0xF0 = 0x80 then do { (d, bs) \<leftarrow> decode_i32 bs; Some (Jcc (opcode AND 15) d, bs) }
      else do {
        (n, rm, bs) \<leftarrow> decode_modrm rex bs;
        (if opcode AND 0xF0 = 0x90 then Some (Setcc (opcode AND 15) (rm_place rex B8 rm), bs)
         else if opcode AND 0xF0 = 0x40 then
           (if w = B64 then Some (Cmovcc (opcode AND 15) (gp_of (rex_r rex) n) (rm_place rex w rm), bs) else None)
         else if opcode = 0xAF then
           (if w = B64 then Some (Imul (gp_of (rex_r rex) n) (rm_place rex w rm), bs) else None)
         else if opcode = 0xB6 then Some (Movzx B8 (gp_of (rex_r rex) n) (rm_place rex B8 rm), bs)
         else if opcode = 0xB7 then Some (Movzx B16 (gp_of (rex_r rex) n) (rm_place rex B16 rm), bs)
         else if opcode = 0xBE then
           (if w = B64 then Some (Movsx B8 (gp_of (rex_r rex) n) (rm_place rex B8 rm), bs) else None)
         else if opcode = 0xBF then
           (if w = B64 then Some (Movsx B16 (gp_of (rex_r rex) n) (rm_place rex B16 rm), bs) else None)
         else if opcode = 0x6E \<and> prefix = 0x66 then do {
           x \<leftarrow> xmm_of (rex_r rex) n; r \<leftarrow> rm_gp rex rm;
           Some (Mov_To_Xmm (if rex_w rex then B64 else B32) x r, bs) }
         else if opcode = 0x7E \<and> prefix = 0x66 then do {
           x \<leftarrow> xmm_of (rex_r rex) n; r \<leftarrow> rm_gp rex rm;
           Some (Mov_From_Xmm (if rex_w rex then B64 else B32) r x, bs) }
         else if opcode = 0x2C then do {
           p \<leftarrow> precision_of prefix; x \<leftarrow> rm_xmm rex rm;
           (if rex_w rex then Some (To_Integer p (gp_of (rex_r rex) n) x, bs) else None) }
         else if opcode = 0x2A then do {
           p \<leftarrow> precision_of prefix; x \<leftarrow> xmm_of (rex_r rex) n; r \<leftarrow> rm_gp rex rm;
           (if rex_w rex then Some (From_Integer p x r, bs) else None) }
         else do {
           (f, p) \<leftarrow> sse_of prefix opcode; d \<leftarrow> xmm_of (rex_r rex) n; s \<leftarrow> rm_xmm rex rm;
           Some (Sse f p d s, bs) }) })"

definition decode :: "bytes \<Rightarrow> (instr \<times> bytes) option" where
  "decode bs =
     (let (prefix, bs) = decode_prefix bs; (rex, bs) = decode_rex bs in
      case bs of
        [] \<Rightarrow> None
      | opcode # bs \<Rightarrow>
          if opcode = 0x0F then (case bs of [] \<Rightarrow> None | opcode # bs \<Rightarrow> decode_0f prefix rex opcode bs)
          else decode_one prefix rex opcode bs)"

end
