(* ===== verification/X86_Roundtrip.thy ===== *)
theory X86_Roundtrip
  imports X86_Decode
begin

text \<open>
  Every encoder produces exactly the instruction it is named after: the reference decoder reads the emitted
  bytes back as that instruction with those operands and leaves what follows untouched.
\<close>

section \<open>Fields\<close>

named_theorems x86_fields \<comment> \<open>fields of REX, ModRM and SIB bytes\<close>
named_theorems x86_decode \<comment> \<open>what the bytes of an encoder decode to\<close>

lemma gp_of_code [simp, x86_fields]: "gp_of (high (gp_code r)) (low (gp_code r)) = r"
  by (cases r) (simp_all add: gp_of_def gp_registers_def high_def low_def)

lemma xmm_of_code [simp, x86_fields]: "xmm_of (high (xmm_code r)) (low (xmm_code r)) = Some r"
  by (cases r) (simp_all add: xmm_of_def xmm_registers_def high_def low_def)

lemma seven_mask: "(7 :: u8) = mask 3" and three_mask: "(3 :: u8) = mask 2"
  by (simp_all add: mask_numeral)

lemma bit_low: "bit (low r) n \<longleftrightarrow> n < 3 \<and> bit r n"
  unfolding low_def seven_mask by (auto simp: bit_simps)

lemma low_low [simp]: "low r AND 7 = low r" "low (low r) = low r"
  by (simp_all add: low_def and.assoc)

text \<open>The three fields of a ModRM or SIB byte.\<close>

definition three_fields :: "u8 \<Rightarrow> u8 \<Rightarrow> u8 \<Rightarrow> u8" where
  "three_fields m a b = push_bit 6 m OR push_bit 3 (low a) OR low b"

lemma bit_three_fields: "bit (three_fields m a b) n \<longleftrightarrow>
    n < 8 \<and> (if n < 3 then bit b n else if n < 6 then bit a (n - 3) else bit m (n - 6))"
proof (cases "n < 8")
  case True
  then have "n \<in> {0, 1, 2, 3, 4, 5, 6, 7}" by auto
  then show ?thesis by (auto simp: three_fields_def bit_or_iff bit_push_bit_iff bit_low)
next
  case False
  then show ?thesis using bit_imp_le_length [of "three_fields m a b" n] by auto
qed

lemma three_fields_simps [x86_fields]:
  "drop_bit 6 (three_fields m a b) = m AND 3"
  "drop_bit 3 (three_fields m a b) AND 7 = low a"
  "three_fields m a b AND 7 = low b"
proof -
  have hi: "bit v n \<Longrightarrow> n < 8" for v :: u8 and n using bit_imp_le_length [of v n] by simp
  show "drop_bit 6 (three_fields m a b) = m AND 3" unfolding three_mask
    by (rule bit_eqI) (auto simp: bit_drop_bit_eq bit_three_fields bit_and_iff bit_mask_iff dest: hi)
  show "drop_bit 3 (three_fields m a b) AND 7 = low a" unfolding seven_mask
    by (rule bit_eqI) (auto simp: bit_drop_bit_eq bit_three_fields bit_and_iff bit_mask_iff bit_low dest: hi)
  show "three_fields m a b AND 7 = low b" unfolding seven_mask
    by (rule bit_eqI) (auto simp: bit_three_fields bit_and_iff bit_mask_iff bit_low dest: hi)
qed

lemma gp_of_low [x86_fields]: "gp_of e (three_fields m a b) = gp_of e (low b)"
  "gp_of e (drop_bit 3 (three_fields m a b)) = gp_of e (low a)"
  by (simp_all add: gp_of_def three_fields_simps)

text \<open>The bytes of the encoders are of that form.\<close>

lemma modrm_registers_fields [x86_fields]: "modrm_registers a b = three_fields 3 a b"
  by (simp add: modrm_registers_def three_fields_def)

lemma modrm_digit_fields [x86_fields]: "0xC0 OR low b = three_fields 3 0 b"
  by (simp add: three_fields_def low_def)

lemma modrm_rip_fields [x86_fields]: "0x05 OR push_bit 3 (low a) = three_fields 0 a 5"
  by (simp add: three_fields_def low_def or.commute)

section \<open>REX\<close>

lemma rex_byte_fields:
  "drop_bit 4 (rex_byte w r x b) = 4" "bit (rex_byte w r x b) 3 = w" "bit (rex_byte w r x b) 2 = r"
  "bit (rex_byte w r x b) (Suc 0) = x" "bit (rex_byte w r x b) 0 = b"
  by (cases w; cases r; cases x; cases b; simp add: rex_byte_def)+

lemma rex_byte_zero: "rex_byte w r x b = 0x40 \<longleftrightarrow> \<not> w \<and> \<not> r \<and> \<not> x \<and> \<not> b"
  by (cases w; cases r; cases x; cases b; simp add: rex_byte_def)

lemma rex_byte_prefix: "rex_byte w r x b \<noteq> 0x66" "rex_byte w r x b \<noteq> 0xF2" "rex_byte w r x b \<noteq> 0xF3"
  by (cases w; cases r; cases x; cases b; simp add: rex_byte_def)+

definition rex_of :: "bool \<Rightarrow> bool \<Rightarrow> bool \<Rightarrow> bool \<Rightarrow> bool \<Rightarrow> rex" where
  "rex_of forced w r x b =
     \<lparr>rex_present = (forced \<or> w \<or> r \<or> x \<or> b), rex_w = w, rex_r = r, rex_x = x, rex_b = b\<rparr>"

lemma rex_of_simps [simp]:
  "rex_present (rex_of forced w r x b) = (forced \<or> w \<or> r \<or> x \<or> b)" "rex_w (rex_of forced w r x b) = w"
  "rex_r (rex_of forced w r x b) = r" "rex_x (rex_of forced w r x b) = x" "rex_b (rex_of forced w r x b) = b"
  by (simp_all add: rex_of_def)

lemma no_rex_of: "no_rex = rex_of False False False False False"
  by (simp add: no_rex_def rex_of_def)

lemma decode_rex_forced: "drop_bit 4 opcode \<noteq> 4 \<Longrightarrow>
    decode_rex (binary_emit_rex_maybe_forced w r x b forced @ opcode # bs) = (rex_of forced w r x b, opcode # bs)"
  by (auto simp: binary_emit_rex_maybe_forced_def rex_byte_fields rex_byte_zero no_rex_of rex_of_def)

lemma rex_is_forced: "binary_emit_rex w r x b = binary_emit_rex_maybe_forced w r x b False"
  by (simp add: binary_emit_rex_def binary_emit_rex_maybe_forced_def)

definition mandatory :: "u8 \<Rightarrow> bytes" where
  "mandatory prefix = (if prefix = 0 then [] else [prefix])"

lemma decode_prefix_rex:
  assumes "prefix \<in> {0, 0x66, 0xF2, 0xF3}" "opcode \<notin> {0x66, 0xF2, 0xF3}"
  shows "decode_prefix (mandatory prefix @ binary_emit_rex_maybe_forced w r x b forced @ opcode # bs) =
    (prefix, binary_emit_rex_maybe_forced w r x b forced @ opcode # bs)"
  using assms by (auto simp: mandatory_def binary_emit_rex_maybe_forced_def rex_byte_prefix)

lemma decode_forced:
  assumes "prefix \<in> {0, 0x66, 0xF2, 0xF3}" "opcode \<notin> {0x66, 0xF2, 0xF3, 0x0F}" "drop_bit 4 opcode \<noteq> 4"
  shows "decode (mandatory prefix @ binary_emit_rex_maybe_forced w r x b forced @ opcode # bs) =
    decode_one prefix (rex_of forced w r x b) opcode bs"
  using assms by (simp add: decode_def decode_prefix_rex decode_rex_forced)

lemma decode_forced_0f:
  assumes "prefix \<in> {0, 0x66, 0xF2, 0xF3}"
  shows "decode (mandatory prefix @ binary_emit_rex_maybe_forced w r x b forced @ 0x0F # opcode # bs) =
    decode_0f prefix (rex_of forced w r x b) opcode bs"
  using assms by (simp add: decode_def decode_prefix_rex decode_rex_forced)

lemma decode_rex_one:
  assumes "opcode \<notin> {0x66, 0xF2, 0xF3, 0x0F}" "drop_bit 4 opcode \<noteq> 4"
  shows "decode (binary_emit_rex w r x b @ opcode # bs) = decode_one 0 (rex_of False w r x b) opcode bs"
  using decode_forced [OF _ assms, of 0] by (simp add: rex_is_forced mandatory_def)

lemma decode_no_rex:
  assumes "opcode \<notin> {0x66, 0xF2, 0xF3, 0x0F}" "drop_bit 4 opcode \<noteq> 4"
  shows "decode (opcode # bs) = decode_one 0 no_rex opcode bs"
  using decode_rex_one [OF assms, of False False False False]
  by (simp add: binary_emit_rex_def rex_byte_zero no_rex_of)

lemma decode_rex_0f:
  "decode (binary_emit_rex w r x b @ 0x0F # opcode # bs) = decode_0f 0 (rex_of False w r x b) opcode bs"
  "prefix \<in> {0x66, 0xF2, 0xF3} \<Longrightarrow>
    decode (prefix # binary_emit_rex w r x b @ 0x0F # opcode # bs) = decode_0f prefix (rex_of False w r x b) opcode bs"
  using decode_forced_0f [of 0] decode_forced_0f [of prefix] by (auto simp: rex_is_forced mandatory_def)

lemma decode_no_rex_0f: "decode (0x0F # opcode # bs) = decode_0f 0 no_rex opcode bs"
  using decode_rex_0f(1) [of False False False False] by (simp add: binary_emit_rex_def rex_byte_zero no_rex_of)

section \<open>Operands\<close>

declare decode_modrm.simps [simp del]

lemma decode_modrm_register [x86_fields]:
  "decode_modrm rex (three_fields 3 a b # bs) = Some (low a, Rm_Register (low b), bs)"
  by (simp add: decode_modrm.simps three_fields_simps)

definition is_i32 :: "int \<Rightarrow> bool" where "is_i32 v = (- (2 ^ 31) \<le> v \<and> v < 2 ^ 31)"

lemma sint_i32: "is_i32 v \<Longrightarrow> sint (word_of_int v :: u32) = v"
  by (simp add: is_i32_def signed_of_int signed_take_bit_int_eq_self)

lemma sint_i8: "fits_i8 v \<Longrightarrow> sint (word_of_int v :: u8) = v"
  by (simp add: fits_i8_def signed_of_int signed_take_bit_int_eq_self)

lemma decode_u32_bytes [x86_fields]: "decode_u32 (bytes_u32 v @ bs) = Some (v, bs)"
  using read_bytes_u32 [of v bs] by (simp add: decode_u32_def bytes_u32_def)

lemma decode_i32_bytes [x86_fields]: "decode_i32 (bytes_u32 v @ bs) = Some (sint v, bs)"
  by (simp add: decode_i32_def decode_u32_bytes)

lemma decode_displacement_bytes:
  "is_i32 d \<Longrightarrow> decode_displacement (if fits_i8 d then 1 else 2) (displacement_bytes d @ bs) = Some (d, bs)"
  by (simp add: decode_displacement_def displacement_bytes_def decode_i32_bytes sint_i32 sint_i8)

lemma decode_u64_bytes [x86_fields]: "decode_u64 (bytes_u64 v @ bs) = Some (v, bs)"
  using read_bytes_u64 [of v bs] by (simp add: decode_u64_def bytes_u64_def)

lemma register_place_wide [simp]: "w \<noteq> B8 \<Longrightarrow> register_place rex w e n = Reg (gp_of e n)"
  by (simp add: register_place_def)

lemma register_place_rex [simp]: "rex_present rex \<Longrightarrow> register_place rex w e n = Reg (gp_of e n)"
  by (simp add: register_place_def)

text \<open>A byte register is its own low byte when the byte instruction has a REX byte or the register's code is
  not one of 4 to 7.\<close>

lemma register_place_byte [simp]:
  "register_place (rex_of (needs_rex8 r) False (high (gp_code r)) False b) B8 (high (gp_code r)) (low (gp_code r)) = Reg r"
  by (cases r; cases b) (simp_all add: register_place_def needs_rex8_def gp_of_def gp_registers_def high_def low_def)

lemma low_rsp: "low (gp_code BINARY_GP_RSP) = 4" and low_rbp: "low (gp_code BINARY_GP_RBP) = 5"
  by (simp_all add: low_def)

text \<open>A base register with a displacement: the form of every load and store.\<close>

definition based_bytes :: "BinaryGpRegister \<Rightarrow> BinaryGpRegister \<Rightarrow> int \<Rightarrow> bytes" where
  "based_bytes reg base d =
     three_fields (if fits_i8 d then 1 else 2) (gp_code reg) (gp_code base) #
     (if low (gp_code base) = 4 then [three_fields 0 4 (gp_code base)] else []) @ displacement_bytes d"

lemma decode_modrm_based:
  assumes d: "is_i32 d" and e: "rex_b rex = high (gp_code base)" "\<not> rex_x rex"
  shows "decode_modrm rex (based_bytes reg base d @ bs) = Some (low (gp_code reg), Rm_Memory (Based base None d), bs)"
proof -
  have md: "(if fits_i8 d then 1 else 2) AND 3 = (if fits_i8 d then 1 else 2 :: u8)" by simp
  show ?thesis
    using decode_displacement_bytes [OF d, of bs] gp_of_code [of base] e
    by (auto simp: decode_modrm.simps based_bytes_def three_fields_simps md decode_address_def gp_of_low low_def [of 4] simp del: gp_of_code split: if_splits)
qed

lemma memory_access_bytes:
  "binary_emit_memory_access_ex_internal p w opcode1 opcode2 reg base d forced =
     mandatory (if p then 0x66 else 0) @
     binary_emit_rex_maybe_forced w (high (gp_code reg)) False (high (gp_code base)) forced @
     opcode1 # (case opcode2 of None \<Rightarrow> [] | Some opc \<Rightarrow> [opc]) @ based_bytes reg base d"
  by (simp add: binary_emit_memory_access_ex_internal_def Let_def mandatory_def based_bytes_def three_fields_def low_rsp low_def [of 4]
      del: gp_code.simps)

lemma rip_access_bytes:
  "binary_emit_rip_relative_access_ex_internal p w opcode1 opcode2 reg forced =
     (let head = mandatory (if p then 0x66 else 0) @
        binary_emit_rex_maybe_forced w (high (gp_code reg)) False False forced @
        opcode1 # (case opcode2 of None \<Rightarrow> [] | Some opc \<Rightarrow> [opc]) @ [three_fields 0 (gp_code reg) 5]
      in (head @ bytes_u32 0, length head))"
  by (simp add: binary_emit_rip_relative_access_ex_internal_def Let_def mandatory_def modrm_rip_fields)

lemma decode_modrm_rip:
  "decode_modrm rex (three_fields 0 a 5 # bytes_u32 v @ bs) = Some (low a, Rm_Memory (Rip (sint v)), bs)"
  by (simp add: decode_modrm.simps three_fields_simps decode_address_def decode_i32_bytes low_def [of 5])

section \<open>Loads, stores and addresses\<close>

lemmas memory_access_defs =
  binary_emit_mov_reg_mem_def binary_emit_mov_mem_reg_def binary_emit_movzx_reg_mem8_def
  binary_emit_movzx_reg_mem16_def binary_emit_mov_reg_mem32_def binary_emit_mov_mem_reg8_def
  binary_emit_mov_mem_reg16_def binary_emit_mov_mem_reg32_def binary_emit_lea_reg_mem_def
  binary_emit_memory_access_def binary_emit_memory_access_ex_def

lemma decode_memory_access [x86_decode]:
  assumes "is_i32 d"
  shows "decode (binary_emit_mov_reg_mem r base d @ bs) = Some (Mov B64 (Reg r) (Mem (Based base None d)), bs)"
    and "decode (binary_emit_mov_mem_reg base d r @ bs) = Some (Mov B64 (Mem (Based base None d)) (Reg r), bs)"
    and "decode (binary_emit_movzx_reg_mem8 r base d @ bs) = Some (Movzx B8 r (Mem (Based base None d)), bs)"
    and "decode (binary_emit_movzx_reg_mem16 r base d @ bs) = Some (Movzx B16 r (Mem (Based base None d)), bs)"
    and "decode (binary_emit_mov_reg_mem32 r base d @ bs) = Some (Mov B32 (Reg r) (Mem (Based base None d)), bs)"
    and "decode (binary_emit_mov_mem_reg8 base d r @ bs) = Some (Mov B8 (Mem (Based base None d)) (Reg r), bs)"
    and "decode (binary_emit_mov_mem_reg16 base d r @ bs) = Some (Mov B16 (Mem (Based base None d)) (Reg r), bs)"
    and "decode (binary_emit_mov_mem_reg32 base d r @ bs) = Some (Mov B32 (Mem (Based base None d)) (Reg r), bs)"
    and "decode (binary_emit_lea_reg_mem r base d @ bs) = Some (Lea r (Based base None d), bs)"
  by (simp_all add: memory_access_defs memory_access_bytes decode_forced decode_forced_0f decode_one_def decode_0f_def
      decode_modrm_based assms operand_width_def)

lemmas rip_access_defs =
  binary_emit_mov_reg_rip_mem_def binary_emit_mov_reg32_rip_mem_def binary_emit_mov_mem_rip_reg16_def
  binary_emit_mov_mem_rip_reg32_def binary_emit_mov_mem_rip_reg_def binary_emit_movzx_reg_rip_mem8_def
  binary_emit_movzx_reg_rip_mem16_def binary_emit_mov_mem_rip_reg8_def binary_emit_rip_relative_access_ex_def

text \<open>The patched bytes of a RIP-relative access: the head, the displacement, and what follows.\<close>

definition with_displacement :: "bytes \<times> nat \<Rightarrow> int \<Rightarrow> bytes" where
  "with_displacement placed d = take (snd placed) (fst placed) @ bytes_u32 (word_of_int d)"

lemma lea_rip_bytes:
  "binary_emit_lea_reg_rip_placeholder r =
     (let head = binary_emit_rex True (high (gp_code r)) False False @ [0x8D, three_fields 0 (gp_code r) 5]
      in (head @ bytes_u32 0, length head))"
  by (simp add: binary_emit_lea_reg_rip_placeholder_def modrm_rip_fields)

lemma decode_rip_access [x86_decode]:
  assumes "is_i32 d"
  shows "decode (with_displacement (binary_emit_mov_reg_rip_mem r) d @ bs) = Some (Mov B64 (Reg r) (Mem (Rip d)), bs)"
    and "decode (with_displacement (binary_emit_mov_reg32_rip_mem r) d @ bs) = Some (Mov B32 (Reg r) (Mem (Rip d)), bs)"
    and "decode (with_displacement (binary_emit_mov_mem_rip_reg r) d @ bs) = Some (Mov B64 (Mem (Rip d)) (Reg r), bs)"
    and "decode (with_displacement (binary_emit_mov_mem_rip_reg32 r) d @ bs) = Some (Mov B32 (Mem (Rip d)) (Reg r), bs)"
    and "decode (with_displacement (binary_emit_mov_mem_rip_reg16 r) d @ bs) = Some (Mov B16 (Mem (Rip d)) (Reg r), bs)"
    and "decode (with_displacement (binary_emit_mov_mem_rip_reg8 r) d @ bs) = Some (Mov B8 (Mem (Rip d)) (Reg r), bs)"
    and "decode (with_displacement (binary_emit_movzx_reg_rip_mem8 r) d @ bs) = Some (Movzx B8 r (Mem (Rip d)), bs)"
    and "decode (with_displacement (binary_emit_movzx_reg_rip_mem16 r) d @ bs) = Some (Movzx B16 r (Mem (Rip d)), bs)"
    and "decode (with_displacement (binary_emit_lea_reg_rip_placeholder r) d @ bs) = Some (Lea r (Rip d), bs)"
  by (simp_all add: rip_access_defs rip_access_bytes lea_rip_bytes Let_def with_displacement_def decode_forced
      decode_forced_0f decode_rex_one decode_one_def decode_0f_def decode_modrm_rip assms sint_i32 operand_width_def)

text \<open>Base, index, scale and displacement.\<close>

lemma scale_bits_Some:
  "scale_bits s = Some k \<Longrightarrow> nat s = 2 ^ unat k \<and> k AND 3 = k"
  by (auto simp: scale_bits_def split: if_splits)

lemma high_low_rsp: "low (gp_code r) = 4 \<Longrightarrow> \<not> high (gp_code r) \<Longrightarrow> r = BINARY_GP_RSP"
  by (cases r) (simp_all add: low_def high_def)

lemma decode_modrm_indexed:
  assumes rex: "rex_b rex = high (gp_code base)" "rex_x rex = high (gp_code index)"
    and index: "index \<noteq> BINARY_GP_RSP" and k: "k AND 3 = k"
    and md: "md AND 3 = md" "md \<noteq> 3" "\<not> (md = 0 \<and> low (gp_code base) = 5)"
    and d: "decode_displacement md ds = Some (d, bs)"
  shows "decode_modrm rex (three_fields md a 4 # three_fields k (gp_code index) (gp_code base) # ds) =
    Some (low a, Rm_Memory (Based base (Some (index, 2 ^ unat k)) d), bs)"
  using assms high_low_rsp [of index]
  by (auto simp: decode_modrm.simps three_fields_simps decode_address_def gp_of_low low_def [of 4])

lemma decode_lea_indexed [x86_decode]:
  assumes "binary_emit_lea_reg_base_index_scale_disp r base index s d = Some code" "is_i32 d"
  shows "decode (code @ bs) = Some (Lea r (Based base (Some (index, nat s)) d), bs)"
proof -
  from assms obtain k where k: "index \<noteq> BINARY_GP_RSP" "scale_bits s = Some k"
    by (auto simp: binary_emit_lea_reg_base_index_scale_disp_def split: if_splits option.splits)
  define md :: u8 where "md = (if d = 0 \<and> low (gp_code base) \<noteq> 5 then 0 else if fits_i8 d then 1 else 2)"
  define ds where "ds = (if md = 1 then [word_of_int d] else if md = 2 then bytes_u32 (word_of_int d) else [])"
  have code: "code = binary_emit_rex True (high (gp_code r)) (high (gp_code index)) (high (gp_code base)) @
      0x8D # three_fields md (gp_code r) 4 # three_fields k (gp_code index) (gp_code base) # ds"
    using assms(1) k
    by (auto simp: binary_emit_lea_reg_base_index_scale_disp_def Let_def md_def ds_def three_fields_def low_def [of 4] low_rbp
        simp del: gp_code.simps split: if_splits)
  have m: "md AND 3 = md" "md \<noteq> 3" "\<not> (md = 0 \<and> low (gp_code base) = 5)"
    by (simp_all add: md_def)
  have d: "decode_displacement md (ds @ bs) = Some (d, bs)"
    using assms(2) by (auto simp: ds_def md_def decode_displacement_def decode_i32_bytes sint_i32 sint_i8)
  note modrm = decode_modrm_indexed [where a = "gp_code r", OF _ _ k(1) _ m d, simplified]
  show ?thesis
    using scale_bits_Some [OF k(2)]
    by (simp add: code decode_rex_one decode_one_def modrm operand_width_def)
qed

section \<open>Registers and immediates\<close>

lemma opcode_register:
  "(0x50 + low (gp_code r)) AND 0xF8 = 0x50" "(0x58 + low (gp_code r)) AND 0xF8 = 0x58"
  "(0xB8 + low (gp_code r)) AND 0xF8 = 0xB8"
  "gp_of e (0x50 + low (gp_code r)) = gp_of e (low (gp_code r))"
  "gp_of e (0x58 + low (gp_code r)) = gp_of e (low (gp_code r))"
  "gp_of e (0xB8 + low (gp_code r)) = gp_of e (low (gp_code r))"
  by (cases r; simp add: low_def gp_of_def)+

lemma decode_opcode_register:
  "decode (binary_emit_rex w x y z @ (0x50 + low (gp_code r)) # bs) =
     decode_one 0 (rex_of False w x y z) (0x50 + low (gp_code r)) bs"
  "decode (binary_emit_rex w x y z @ (0x58 + low (gp_code r)) # bs) =
     decode_one 0 (rex_of False w x y z) (0x58 + low (gp_code r)) bs"
  "decode (binary_emit_rex w x y z @ (0xB8 + low (gp_code r)) # bs) =
     decode_one 0 (rex_of False w x y z) (0xB8 + low (gp_code r)) bs"
  by (rule decode_rex_one; cases r; simp add: low_def)+

lemma rex_of_high: "(if 8 \<le> gp_code r then binary_emit_rex False False False True else []) =
    binary_emit_rex False False False (high (gp_code r))"
  by (cases r) (simp_all add: high_def binary_emit_rex_def rex_byte_zero word_le_nat_alt)

lemma modrm_call_fields: "0xD0 OR low b = three_fields 3 2 b"
  by (simp add: three_fields_def low_def [of 2] or.assoc [symmetric])

lemmas decode_by_fields = decode_rex_one decode_no_rex decode_rex_0f decode_no_rex_0f decode_one_def decode_0f_def
  x86_fields operand_width_def

lemma decode_stack [x86_decode]:
  "decode (binary_emit_push_reg r @ bs) = Some (Push r, bs)"
  "decode (binary_emit_pop_reg r @ bs) = Some (Pop r, bs)"
  by (simp_all add: binary_emit_push_reg_def binary_emit_pop_reg_def rex_of_high decode_opcode_register
      decode_one_def opcode_register)

lemma decode_calls [x86_decode]:
  "decode (binary_emit_call_reg r @ bs) = Some (Call_Reg r, bs)"
  "decode (binary_emit_ret @ bs) = Some (Ret, bs)"
  "decode (binary_emit_syscall @ bs) = Some (Syscall, bs)"
  "is_i32 d \<Longrightarrow> decode (with_displacement binary_emit_call_placeholder d @ bs) = Some (Call d, bs)"
  "is_i32 d \<Longrightarrow> decode (with_displacement binary_emit_jmp_placeholder d @ bs) = Some (Jmp d, bs)"
  by (simp_all add: binary_emit_call_reg_def binary_emit_ret_def binary_emit_syscall_def rex_of_high
      binary_emit_call_placeholder_def binary_emit_jmp_placeholder_def with_displacement_def modrm_call_fields
      decode_by_fields sint_i32 low_def [of 2])

lemma decode_moves [x86_decode]:
  "r \<noteq> s \<Longrightarrow> decode (binary_emit_mov_reg_reg r s @ bs) = Some (Mov B64 (Reg r) (Reg s), bs)"
  "r \<noteq> s \<Longrightarrow> decode (binary_emit_mov_reg_reg32 r s @ bs) = Some (Mov B32 (Reg r) (Reg s), bs)"
  "decode (binary_emit_mov_reg_imm32_zero_extend r v @ bs) = Some (Mov_Imm B32 (Reg r) (ucast v), bs)"
  by (simp_all add: binary_emit_mov_reg_reg_def binary_emit_mov_reg_reg32_def
     binary_emit_mov_reg_imm32_zero_extend_def decode_opcode_register opcode_register decode_by_fields)

lemma immediate_words [simp]:
  "fits_i8 (sint v) \<Longrightarrow> sint (ucast (v :: u32) :: u8) = sint v"
proof -
  assume "fits_i8 (sint v)"
  moreover have "(ucast v :: u8) = word_of_int (sint v)"
    by (rule bit_eqI) (auto simp: bit_simps)
  ultimately show "sint (ucast v :: u8) = sint v" by (simp only: sint_i8)
qed

lemma decode_register_arithmetic [x86_decode]:
  "decode (binary_emit_xor_reg_reg32 r @ bs) = Some (Alu Alu_Xor B32 (Reg r) (Reg r), bs)"
  "decode (binary_emit_test_reg_reg r @ bs) = Some (Test B64 (Reg r) (Reg r), bs)"
  "decode (binary_emit_test_reg_imm32 r v @ bs) = Some (Test_Imm B64 (Reg r) (scast v), bs)"
  "decode (binary_emit_cmp_reg_reg r s @ bs) = Some (Alu Alu_Cmp B64 (Reg r) (Reg s), bs)"
  "decode (binary_emit_cmp_reg_reg32 r s @ bs) = Some (Alu Alu_Cmp B32 (Reg r) (Reg s), bs)"
  "decode (binary_emit_imul_reg_reg r s @ bs) = Some (Imul r (Reg s), bs)"
  "decode (binary_emit_neg_reg r @ bs) = Some (Neg_Place (Reg r), bs)"
  "decode (binary_emit_not_reg r @ bs) = Some (Not_Place (Reg r), bs)"
  "decode (binary_emit_idiv_reg r @ bs) = Some (Idiv (Reg r), bs)"
  by (simp_all add: binary_emit_xor_reg_reg32_def binary_emit_test_reg_reg_def binary_emit_test_reg_imm32_def
      binary_emit_cmp_reg_reg_def binary_emit_cmp_reg_reg32_def binary_emit_imul_reg_reg_def binary_emit_neg_reg_def
      binary_emit_not_reg_def binary_emit_idiv_reg_def binary_emit_unary_reg_def decode_by_fields alu_of_def
      low_def [of 0] low_def [of 2] low_def [of 3] low_def [of 7])

text \<open>The subopcode of a two-operand instruction.\<close>

fun alu_code :: "alu \<Rightarrow> u8" where
  "alu_code Alu_Add = 0" | "alu_code Alu_Or = 1" | "alu_code Alu_Adc = 2" | "alu_code Alu_Sbb = 3"
| "alu_code Alu_And = 4" | "alu_code Alu_Sub = 5" | "alu_code Alu_Xor = 6" | "alu_code Alu_Cmp = 7"

lemma alu_of_code [simp]: "alu_of (low (alu_code f)) = f"
  by (cases f) (simp_all add: alu_of_def low_def)

fun shift_code :: "shift \<Rightarrow> u8" where
  "shift_code Shift_Left = 4" | "shift_code Shift_Right = 5" | "shift_code Shift_Arith = 7"

lemma shift_of_code [simp]: "shift_of (low (shift_code f)) = Some f"
  by (cases f) (simp_all add: shift_of_def low_def)

lemma decode_alu_reg_reg [x86_decode]:
  "decode (binary_emit_alu_reg_reg (push_bit 3 (alu_code f) OR 1) r s @ bs) = Some (Alu f B64 (Reg r) (Reg s), bs)"
  by (cases f) (simp_all add: binary_emit_alu_reg_reg_def decode_by_fields alu_of_def)

lemma decode_alu_immediate [x86_decode]:
  "binary_emit_alu_reg_imm32 (alu_code f) r v \<noteq> [] \<Longrightarrow>
    decode (binary_emit_alu_reg_imm32 (alu_code f) r v @ bs) = Some (Alu_Imm f B64 (Reg r) (scast v), bs)"
  "v \<noteq> 0 \<Longrightarrow> decode (binary_emit_alu_rsp_imm32 (alu_code f) v @ bs) = Some (Alu_Imm f B64 (Reg BINARY_GP_RSP) (scast v), bs)"
proof -
  have high: "\<not> high (gp_code BINARY_GP_RSP)" by (simp add: high_def)
  show "binary_emit_alu_reg_imm32 (alu_code f) r v \<noteq> [] \<Longrightarrow>
      decode (binary_emit_alu_reg_imm32 (alu_code f) r v @ bs) = Some (Alu_Imm f B64 (Reg r) (scast v), bs)"
    by (auto simp add: binary_emit_alu_reg_imm32_def decode_by_fields split: if_splits)
  show "v \<noteq> 0 \<Longrightarrow> decode (binary_emit_alu_rsp_imm32 (alu_code f) v @ bs) = Some (Alu_Imm f B64 (Reg BINARY_GP_RSP) (scast v), bs)"
    using gp_of_code [of BINARY_GP_RSP] high
    by (auto simp add: binary_emit_alu_rsp_imm32_def decode_by_fields simp del: gp_code.simps gp_of_code)
qed

lemma decode_shifts [x86_decode]:
  "decode (binary_emit_shift_reg_cl (shift_code f) r @ bs) = Some (Shift_Cl f (Reg r), bs)"
  "c \<noteq> 0 \<Longrightarrow> decode (binary_emit_shift_reg_imm8 (shift_code f) r c @ bs) = Some (Shift f (Reg r) c, bs)"
  by (simp_all add: binary_emit_shift_reg_cl_def binary_emit_shift_reg_imm8_def decode_by_fields)

lemma decode_sign_extend_immediate [x86_decode]:
  "decode (binary_emit_rex True False False (high (gp_code r)) @ 0xC7 # (0xC0 OR low (gp_code r)) # bytes_u32 v @ bs) =
    Some (Mov_Imm B64 (Reg r) (scast v), bs)"
  "decode (binary_emit_rex True False False (high (gp_code r)) @ (0xB8 + low (gp_code r)) # bytes_u64 u @ bs) =
    Some (Mov_Imm B64 (Reg r) u, bs)"
  by (simp_all add: decode_opcode_register opcode_register decode_by_fields low_def [of 0])

lemma decode_multiply_immediate [x86_decode]:
  "fits_i8 (sint v) \<Longrightarrow>
   decode (binary_emit_rex True (high (gp_code r)) False (high (gp_code s)) @
      0x6B # modrm_registers (gp_code r) (gp_code s) # ucast v # bs) = Some (Imul_Imm r (Reg s) (scast v), bs)"
  "decode (binary_emit_rex True (high (gp_code r)) False (high (gp_code s)) @
      0x69 # modrm_registers (gp_code r) (gp_code s) # bytes_u32 v @ bs) = Some (Imul_Imm r (Reg s) (scast v), bs)"
  by (simp_all add: decode_by_fields)

section \<open>Extensions, conditions and floating point\<close>

lemma decode_extensions [x86_decode]:
  "decode (binary_emit_movsx_reg_reg8 r s @ bs) = Some (Movsx B8 r (Reg s), bs)"
  "decode (binary_emit_movsx_reg_reg16 r s @ bs) = Some (Movsx B16 r (Reg s), bs)"
  "decode (binary_emit_movsxd_reg_reg32 r s @ bs) = Some (Movsx B32 r (Reg s), bs)"
  by (simp_all add: binary_emit_movsx_reg_reg8_def binary_emit_movsx_reg_reg16_def binary_emit_movsxd_reg_reg32_def
      decode_by_fields)

text \<open>The encoders whose registers are fixed.\<close>

lemma decode_fixed [x86_decode]:
  "decode (binary_emit_cqo @ bs) = Some (Cqo, bs)"
  "decode (binary_emit_mov_eax_eax @ bs) = Some (Mov B32 (Reg BINARY_GP_RAX) (Reg BINARY_GP_RAX), bs)"
  "decode (binary_emit_movzx_eax_al @ bs) = Some (Movzx B8 BINARY_GP_RAX (Reg BINARY_GP_RAX), bs)"
  "decode (binary_emit_movzx_eax_ax @ bs) = Some (Movzx B16 BINARY_GP_RAX (Reg BINARY_GP_RAX), bs)"
  "decode (binary_emit_movsx_rax_al @ bs) = Some (Movsx B8 BINARY_GP_RAX (Reg BINARY_GP_RAX), bs)"
  "decode (binary_emit_movsx_rax_ax @ bs) = Some (Movsx B16 BINARY_GP_RAX (Reg BINARY_GP_RAX), bs)"
  "decode (binary_emit_movsxd_rax_eax @ bs) = Some (Movsx B32 BINARY_GP_RAX (Reg BINARY_GP_RAX), bs)"
  by (simp_all add: binary_emit_cqo_def binary_emit_mov_eax_eax_def binary_emit_movzx_eax_al_def
      binary_emit_movzx_eax_ax_def binary_emit_movsx_rax_al_def binary_emit_movsx_rax_ax_def
      binary_emit_movsxd_rax_eax_def decode_by_fields decode_modrm.simps gp_of_def gp_registers_def
      register_place_def no_rex_def)

lemma condition_opcode:
  assumes "c < (16 :: u8)"
  shows "(0x80 OR c) AND 0xF0 = 0x80" "(0x90 OR c) AND 0xF0 = 0x90" "(0x40 OR c) AND 0xF0 = 0x40"
    "(0x80 OR c) AND 15 = c" "(0x90 OR c) AND 15 = c" "(0x40 OR c) AND 15 = c"
proof -
  have c: "c AND 15 = c" using less_mask_eq [of c 4] assms by (simp add: mask_numeral)
  have "c AND 0xF0 = (c AND 15) AND 0xF0" by (simp only: c)
  then have "c AND 0xF0 = 0" by (simp add: and.assoc)
  then show "(0x80 OR c) AND 0xF0 = 0x80" "(0x90 OR c) AND 0xF0 = 0x90" "(0x40 OR c) AND 0xF0 = 0x40"
    "(0x80 OR c) AND 15 = c" "(0x90 OR c) AND 15 = c" "(0x40 OR c) AND 15 = c"
    by (simp_all add: word_ao_dist c)
qed

lemma condition_opcode_not_syscall:
  assumes "c < (16 :: u8)"
  shows "0x80 OR c \<noteq> 5" "0x90 OR c \<noteq> 5" "0x40 OR c \<noteq> 5"
  using condition_opcode(1-3) [OF assms] by auto

lemma byte_code: "\<not> 4 \<le> gp_code r \<Longrightarrow> r \<in> {BINARY_GP_RAX, BINARY_GP_RCX, BINARY_GP_RDX, BINARY_GP_RBX}"
  by (cases r) (simp_all add: word_le_nat_alt)

lemma no_rex_simps [simp]:
  "\<not> rex_present no_rex" "\<not> rex_w no_rex" "\<not> rex_r no_rex" "\<not> rex_x no_rex" "\<not> rex_b no_rex"
  by (simp_all add: no_rex_def)

lemma register_place_low: "\<not> 4 \<le> gp_code r \<Longrightarrow> register_place no_rex B8 False (low (gp_code r)) = Reg r"
  using byte_code [of r]
  by (auto simp: register_place_def gp_of_def gp_registers_def low_def word_le_nat_alt)

lemma decode_conditions [x86_decode]:
  assumes "c < 16"
  shows "decode (with_displacement (binary_emit_jcc_placeholder (0x80 OR c)) d @ bs) = Some (Jcc c (sint (word_of_int d :: u32)), bs)"
    and "decode (binary_emit_setcc_al (0x90 OR c) @ bs) = Some (Setcc c (Reg BINARY_GP_RAX), bs)"
    and "binary_emit_cmovcc_reg_reg (0x40 OR c) r s = Some code \<Longrightarrow>
           decode (code @ bs) = Some (Cmovcc c r (Reg s), bs)"
    and "binary_emit_setcc_reg8 (0x90 OR c) r = Some code \<Longrightarrow> decode (code @ bs) = Some (Setcc c (Reg r), bs)"
proof -
  note condition = condition_opcode [OF assms] condition_opcode_not_syscall [OF assms]
  show "decode (with_displacement (binary_emit_jcc_placeholder (0x80 OR c)) d @ bs) =
      Some (Jcc c (sint (word_of_int d :: u32)), bs)"
    by (simp add: binary_emit_jcc_placeholder_def with_displacement_def decode_by_fields condition)
  show "decode (binary_emit_setcc_al (0x90 OR c) @ bs) = Some (Setcc c (Reg BINARY_GP_RAX), bs)"
    by (simp add: binary_emit_setcc_al_def decode_by_fields decode_modrm.simps gp_of_def gp_registers_def
        register_place_def condition)
  show "decode (code @ bs) = Some (Cmovcc c r (Reg s), bs)" if "binary_emit_cmovcc_reg_reg (0x40 OR c) r s = Some code"
    using that by (auto simp: binary_emit_cmovcc_reg_reg_def decode_by_fields condition split: if_splits)
  show "decode (code @ bs) = Some (Setcc c (Reg r), bs)" if code: "binary_emit_setcc_reg8 (0x90 OR c) r = Some code"
  proof -
    have b: "code = [0x0F, 0x90 OR c, 0xC0 OR low (gp_code r)]" "\<not> 4 \<le> gp_code r"
      using code by (auto simp: binary_emit_setcc_reg8_def split: if_splits)
    then show ?thesis by (simp add: register_place_low decode_by_fields condition)
  qed
qed

lemma decode_alu_reg8_reg8 [x86_decode]:
  assumes "binary_emit_alu_reg8_reg8 (push_bit 3 (alu_code f)) r s = Some code"
  shows "decode (code @ bs) = Some (Alu f B8 (Reg r) (Reg s), bs)"
proof -
  have b: "code = [push_bit 3 (alu_code f), modrm_registers (gp_code s) (gp_code r)]" "\<not> 4 \<le> gp_code r" "\<not> 4 \<le> gp_code s"
    using assms by (auto simp: binary_emit_alu_reg8_reg8_def split: if_splits)
  show ?thesis by (cases f) (simp_all add: b register_place_low decode_by_fields alu_of_def)
qed

lemma decode_float [x86_decode]:
  "decode (binary_emit_pxor_xmm_xmm x y @ bs) = Some (Sse Sse_Pxor Packed x y, bs)"
  "decode (binary_emit_addsd_xmm_xmm x y @ bs) = Some (Sse Sse_Add Scalar_Double x y, bs)"
  "decode (binary_emit_subsd_xmm_xmm x y @ bs) = Some (Sse Sse_Sub Scalar_Double x y, bs)"
  "decode (binary_emit_mulsd_xmm_xmm x y @ bs) = Some (Sse Sse_Mul Scalar_Double x y, bs)"
  "decode (binary_emit_divsd_xmm_xmm x y @ bs) = Some (Sse Sse_Div Scalar_Double x y, bs)"
  "decode (binary_emit_ucomisd_xmm_xmm x y @ bs) = Some (Sse Sse_Ucomi Scalar_Double x y, bs)"
  "decode (binary_emit_addss_xmm_xmm x y @ bs) = Some (Sse Sse_Add Scalar_Single x y, bs)"
  "decode (binary_emit_subss_xmm_xmm x y @ bs) = Some (Sse Sse_Sub Scalar_Single x y, bs)"
  "decode (binary_emit_mulss_xmm_xmm x y @ bs) = Some (Sse Sse_Mul Scalar_Single x y, bs)"
  "decode (binary_emit_divss_xmm_xmm x y @ bs) = Some (Sse Sse_Div Scalar_Single x y, bs)"
  "decode (binary_emit_ucomiss_xmm_xmm x y @ bs) = Some (Sse Sse_Ucomi Scalar_Single x y, bs)"
  "decode (binary_emit_cvtss2sd_xmm_xmm x y @ bs) = Some (Sse Sse_Convert Scalar_Single x y, bs)"
  "decode (binary_emit_cvtsd2ss_xmm_xmm x y @ bs) = Some (Sse Sse_Convert Scalar_Double x y, bs)"
  by (simp_all add: binary_emit_pxor_xmm_xmm_def binary_emit_addsd_xmm_xmm_def binary_emit_subsd_xmm_xmm_def
      binary_emit_mulsd_xmm_xmm_def binary_emit_divsd_xmm_xmm_def binary_emit_ucomisd_xmm_xmm_def
      binary_emit_addss_xmm_xmm_def binary_emit_subss_xmm_xmm_def binary_emit_mulss_xmm_xmm_def
      binary_emit_divss_xmm_xmm_def binary_emit_ucomiss_xmm_xmm_def binary_emit_cvtss2sd_xmm_xmm_def
      binary_emit_cvtsd2ss_xmm_xmm_def binary_emit_sse_reg_reg_def decode_by_fields sse_of_def precision_of_def)

lemma decode_float_integer [x86_decode]:
  "decode (binary_emit_movq_xmm_reg x r @ bs) = Some (Mov_To_Xmm B64 x r, bs)"
  "decode (binary_emit_movq_reg_xmm r x @ bs) = Some (Mov_From_Xmm B64 r x, bs)"
  "decode (binary_emit_movd_xmm_reg x r @ bs) = Some (Mov_To_Xmm B32 x r, bs)"
  "decode (binary_emit_movd_reg_xmm r x @ bs) = Some (Mov_From_Xmm B32 r x, bs)"
  "decode (binary_emit_cvttsd2si_reg_xmm r x @ bs) = Some (To_Integer Scalar_Double r x, bs)"
  "decode (binary_emit_cvtsi2sd_xmm_reg x r @ bs) = Some (From_Integer Scalar_Double x r, bs)"
  "decode (binary_emit_cvttss2si_reg_xmm r x @ bs) = Some (To_Integer Scalar_Single r x, bs)"
  "decode (binary_emit_cvtsi2ss_xmm_reg x r @ bs) = Some (From_Integer Scalar_Single x r, bs)"
  by (simp_all add: binary_emit_movq_xmm_reg_def binary_emit_movq_reg_xmm_def binary_emit_movd_xmm_reg_def
      binary_emit_movd_reg_xmm_def binary_emit_cvttsd2si_reg_xmm_def binary_emit_cvtsi2sd_xmm_reg_def
      binary_emit_cvttss2si_reg_xmm_def binary_emit_cvtsi2ss_xmm_reg_def decode_by_fields precision_of_def)

end
