(* ===== verification/X86_Program.thy ===== *)
theory X86_Program
  imports X86_Roundtrip
begin

text \<open>
  The contract of all instruction encoders in one table, and that a sequence of encoded instructions is read back as
  that sequence: encodings never run into each other.
\<close>

text \<open>\<open>emits code i\<close>: some encoder emits \<open>code\<close> for the instruction \<open>i\<close>.\<close>

inductive emits :: "bytes \<Rightarrow> instr \<Rightarrow> bool" where
  "is_i32 d \<Longrightarrow> emits (binary_emit_mov_reg_mem r base d) (Mov B64 (Reg r) (Mem (Based base None d)))"
| "is_i32 d \<Longrightarrow> emits (binary_emit_mov_mem_reg base d r) (Mov B64 (Mem (Based base None d)) (Reg r))"
| "is_i32 d \<Longrightarrow> emits (binary_emit_movzx_reg_mem8 r base d) (Movzx B8 r (Mem (Based base None d)))"
| "is_i32 d \<Longrightarrow> emits (binary_emit_movzx_reg_mem16 r base d) (Movzx B16 r (Mem (Based base None d)))"
| "is_i32 d \<Longrightarrow> emits (binary_emit_mov_reg_mem32 r base d) (Mov B32 (Reg r) (Mem (Based base None d)))"
| "is_i32 d \<Longrightarrow> emits (binary_emit_mov_mem_reg8 base d r) (Mov B8 (Mem (Based base None d)) (Reg r))"
| "is_i32 d \<Longrightarrow> emits (binary_emit_mov_mem_reg16 base d r) (Mov B16 (Mem (Based base None d)) (Reg r))"
| "is_i32 d \<Longrightarrow> emits (binary_emit_mov_mem_reg32 base d r) (Mov B32 (Mem (Based base None d)) (Reg r))"
| "is_i32 d \<Longrightarrow> emits (binary_emit_lea_reg_mem r base d) (Lea r (Based base None d))"
| "is_i32 d \<Longrightarrow> binary_emit_lea_reg_base_index_scale_disp r base index s d = Some code \<Longrightarrow>
     emits code (Lea r (Based base (Some (index, nat s)) d))"
| "is_i32 d \<Longrightarrow> emits (with_displacement (binary_emit_mov_reg_rip_mem r) d) (Mov B64 (Reg r) (Mem (Rip d)))"
| "is_i32 d \<Longrightarrow> emits (with_displacement (binary_emit_mov_reg32_rip_mem r) d) (Mov B32 (Reg r) (Mem (Rip d)))"
| "is_i32 d \<Longrightarrow> emits (with_displacement (binary_emit_mov_mem_rip_reg r) d) (Mov B64 (Mem (Rip d)) (Reg r))"
| "is_i32 d \<Longrightarrow> emits (with_displacement (binary_emit_mov_mem_rip_reg32 r) d) (Mov B32 (Mem (Rip d)) (Reg r))"
| "is_i32 d \<Longrightarrow> emits (with_displacement (binary_emit_mov_mem_rip_reg16 r) d) (Mov B16 (Mem (Rip d)) (Reg r))"
| "is_i32 d \<Longrightarrow> emits (with_displacement (binary_emit_mov_mem_rip_reg8 r) d) (Mov B8 (Mem (Rip d)) (Reg r))"
| "is_i32 d \<Longrightarrow> emits (with_displacement (binary_emit_movzx_reg_rip_mem8 r) d) (Movzx B8 r (Mem (Rip d)))"
| "is_i32 d \<Longrightarrow> emits (with_displacement (binary_emit_movzx_reg_rip_mem16 r) d) (Movzx B16 r (Mem (Rip d)))"
| "is_i32 d \<Longrightarrow> emits (with_displacement (binary_emit_lea_reg_rip_placeholder r) d) (Lea r (Rip d))"
| "is_i32 d \<Longrightarrow> emits (with_displacement binary_emit_call_placeholder d) (Call d)"
| "is_i32 d \<Longrightarrow> emits (with_displacement binary_emit_jmp_placeholder d) (Jmp d)"
| "is_i32 d \<Longrightarrow> c < 16 \<Longrightarrow> emits (with_displacement (binary_emit_jcc_placeholder (0x80 OR c)) d) (Jcc c d)"
| "c < 16 \<Longrightarrow> emits (binary_emit_setcc_al (0x90 OR c)) (Setcc c (Reg BINARY_GP_RAX))"
| "c < 16 \<Longrightarrow> binary_emit_setcc_reg8 (0x90 OR c) r = Some code \<Longrightarrow> emits code (Setcc c (Reg r))"
| "c < 16 \<Longrightarrow> binary_emit_cmovcc_reg_reg (0x40 OR c) r s = Some code \<Longrightarrow> emits code (Cmovcc c r (Reg s))"
| "binary_emit_alu_reg8_reg8 (push_bit 3 (alu_code f)) r s = Some code \<Longrightarrow> emits code (Alu f B8 (Reg r) (Reg s))"
| "r \<noteq> s \<Longrightarrow> emits (binary_emit_mov_reg_reg r s) (Mov B64 (Reg r) (Reg s))"
| "r \<noteq> s \<Longrightarrow> emits (binary_emit_mov_reg_reg32 r s) (Mov B32 (Reg r) (Reg s))"
| "emits (binary_emit_mov_reg_imm32_zero_extend r v) (Mov_Imm B32 (Reg r) (ucast v))"
| "emits (binary_emit_push_reg r) (Push r)"
| "emits (binary_emit_pop_reg r) (Pop r)"
| "emits (binary_emit_call_reg r) (Call_Reg r)"
| "emits binary_emit_ret Ret"
| "emits binary_emit_syscall Syscall"
| "emits binary_emit_cqo Cqo"
| "emits (binary_emit_xor_reg_reg32 r) (Alu Alu_Xor B32 (Reg r) (Reg r))"
| "emits (binary_emit_test_reg_reg r) (Test B64 (Reg r) (Reg r))"
| "emits (binary_emit_test_reg_imm32 r v) (Test_Imm B64 (Reg r) (scast v))"
| "emits (binary_emit_cmp_reg_reg r s) (Alu Alu_Cmp B64 (Reg r) (Reg s))"
| "emits (binary_emit_cmp_reg_reg32 r s) (Alu Alu_Cmp B32 (Reg r) (Reg s))"
| "emits (binary_emit_imul_reg_reg r s) (Imul r (Reg s))"
| "emits (binary_emit_neg_reg r) (Neg_Place (Reg r))"
| "emits (binary_emit_not_reg r) (Not_Place (Reg r))"
| "emits (binary_emit_idiv_reg r) (Idiv (Reg r))"
| "emits (binary_emit_alu_reg_reg (push_bit 3 (alu_code f) OR 1) r s) (Alu f B64 (Reg r) (Reg s))"
| "binary_emit_alu_reg_imm32 (alu_code f) r v \<noteq> [] \<Longrightarrow>
     emits (binary_emit_alu_reg_imm32 (alu_code f) r v) (Alu_Imm f B64 (Reg r) (scast v))"
| "v \<noteq> 0 \<Longrightarrow> emits (binary_emit_alu_rsp_imm32 (alu_code f) v) (Alu_Imm f B64 (Reg BINARY_GP_RSP) (scast v))"
| "emits (binary_emit_shift_reg_cl (shift_code g) r) (Shift_Cl g (Reg r))"
| "n \<noteq> 0 \<Longrightarrow> emits (binary_emit_shift_reg_imm8 (shift_code g) r n) (Shift g (Reg r) n)"
| "emits (binary_emit_movsx_reg_reg8 r s) (Movsx B8 r (Reg s))"
| "emits (binary_emit_movsx_reg_reg16 r s) (Movsx B16 r (Reg s))"
| "emits (binary_emit_movsxd_reg_reg32 r s) (Movsx B32 r (Reg s))"
| "emits binary_emit_mov_eax_eax (Mov B32 (Reg BINARY_GP_RAX) (Reg BINARY_GP_RAX))"
| "emits binary_emit_movzx_eax_al (Movzx B8 BINARY_GP_RAX (Reg BINARY_GP_RAX))"
| "emits binary_emit_movzx_eax_ax (Movzx B16 BINARY_GP_RAX (Reg BINARY_GP_RAX))"
| "emits binary_emit_movsx_rax_al (Movsx B8 BINARY_GP_RAX (Reg BINARY_GP_RAX))"
| "emits binary_emit_movsx_rax_ax (Movsx B16 BINARY_GP_RAX (Reg BINARY_GP_RAX))"
| "emits binary_emit_movsxd_rax_eax (Movsx B32 BINARY_GP_RAX (Reg BINARY_GP_RAX))"
| "emits (binary_emit_pxor_xmm_xmm x y) (Sse Sse_Pxor Packed x y)"
| "emits (binary_emit_addsd_xmm_xmm x y) (Sse Sse_Add Scalar_Double x y)"
| "emits (binary_emit_subsd_xmm_xmm x y) (Sse Sse_Sub Scalar_Double x y)"
| "emits (binary_emit_mulsd_xmm_xmm x y) (Sse Sse_Mul Scalar_Double x y)"
| "emits (binary_emit_divsd_xmm_xmm x y) (Sse Sse_Div Scalar_Double x y)"
| "emits (binary_emit_ucomisd_xmm_xmm x y) (Sse Sse_Ucomi Scalar_Double x y)"
| "emits (binary_emit_addss_xmm_xmm x y) (Sse Sse_Add Scalar_Single x y)"
| "emits (binary_emit_subss_xmm_xmm x y) (Sse Sse_Sub Scalar_Single x y)"
| "emits (binary_emit_mulss_xmm_xmm x y) (Sse Sse_Mul Scalar_Single x y)"
| "emits (binary_emit_divss_xmm_xmm x y) (Sse Sse_Div Scalar_Single x y)"
| "emits (binary_emit_ucomiss_xmm_xmm x y) (Sse Sse_Ucomi Scalar_Single x y)"
| "emits (binary_emit_cvtss2sd_xmm_xmm x y) (Sse Sse_Convert Scalar_Single x y)"
| "emits (binary_emit_cvtsd2ss_xmm_xmm x y) (Sse Sse_Convert Scalar_Double x y)"
| "emits (binary_emit_movq_xmm_reg x r) (Mov_To_Xmm B64 x r)"
| "emits (binary_emit_movq_reg_xmm r x) (Mov_From_Xmm B64 r x)"
| "emits (binary_emit_movd_xmm_reg x r) (Mov_To_Xmm B32 x r)"
| "emits (binary_emit_movd_reg_xmm r x) (Mov_From_Xmm B32 r x)"
| "emits (binary_emit_cvttsd2si_reg_xmm r x) (To_Integer Scalar_Double r x)"
| "emits (binary_emit_cvtsi2sd_xmm_reg x r) (From_Integer Scalar_Double x r)"
| "emits (binary_emit_cvttss2si_reg_xmm r x) (To_Integer Scalar_Single r x)"
| "emits (binary_emit_cvtsi2ss_xmm_reg x r) (From_Integer Scalar_Single x r)"

lemma emits_decode: "emits code i \<Longrightarrow> decode (code @ bs) = Some (i, bs)"
  by (induction rule: emits.induct) (simp_all add: x86_decode sint_i32)

text \<open>Reading a whole stretch of code.\<close>

function decode_all :: "bytes \<Rightarrow> instr list option" where
  "decode_all bs =
     (if bs = [] then Some []
      else case decode bs of
        Some (i, rest) \<Rightarrow> if length rest < length bs then map_option ((#) i) (decode_all rest) else None
      | None \<Rightarrow> None)"
  by pat_completeness auto
termination by (relation "measure length") auto

declare decode_all.simps [simp del]

lemma decode_all_Nil [simp]: "decode_all [] = Some []"
  by (simp add: decode_all.simps)

lemma decode_all_step:
  assumes "\<And>bs. decode (code @ bs) = Some (i, bs)"
  shows "decode_all (code @ bs) = map_option ((#) i) (decode_all bs)"
proof -
  have "decode [] = None" by (simp add: decode_def)
  then have "code \<noteq> []" using assms [of "[]"] by auto
  then show ?thesis by (simp add: decode_all.simps [of "code @ bs"] assms)
qed

text \<open>(C18) Reading back what any sequence of encoder calls emitted yields exactly the intended instructions, in
  order: every encoder of the table emits a complete instruction with its operands, for all registers, displacements
  and immediates it accepts, and none of them can be misread as part of its neighbour.\<close>

theorem encoded_program_decodes:
  "list_all2 emits codes ps \<Longrightarrow> decode_all (concat codes) = Some ps"
proof (induction rule: list_all2_induct)
  case (Cons code codes i ps)
  then show ?case by (simp add: decode_all_step [OF emits_decode])
qed simp

text \<open>An instance: a small function body.\<close>

theorem encoded_program_decodes_witness:
  "list_all2 emits
     [binary_emit_push_reg BINARY_GP_RBP, binary_emit_mov_reg_reg BINARY_GP_RBP BINARY_GP_RSP,
      binary_emit_mov_mem_reg BINARY_GP_RBP (- 8) BINARY_GP_R12, binary_emit_ret]
     [Push BINARY_GP_RBP, Mov B64 (Reg BINARY_GP_RBP) (Reg BINARY_GP_RSP),
      Mov B64 (Mem (Based BINARY_GP_RBP None (- 8))) (Reg BINARY_GP_R12), Ret] \<and>
   decode_all (concat
     [binary_emit_push_reg BINARY_GP_RBP, binary_emit_mov_reg_reg BINARY_GP_RBP BINARY_GP_RSP,
      binary_emit_mov_mem_reg BINARY_GP_RBP (- 8) BINARY_GP_R12, binary_emit_ret]) =
     Some [Push BINARY_GP_RBP, Mov B64 (Reg BINARY_GP_RBP) (Reg BINARY_GP_RSP),
      Mov B64 (Mem (Based BINARY_GP_RBP None (- 8))) (Reg BINARY_GP_R12), Ret]" (is "?table \<and> ?decoded")
proof -
  have "emits (binary_emit_mov_mem_reg BINARY_GP_RBP (- 8) BINARY_GP_R12)
      (Mov B64 (Mem (Based BINARY_GP_RBP None (- 8))) (Reg BINARY_GP_R12))"
    "emits (binary_emit_mov_reg_reg BINARY_GP_RBP BINARY_GP_RSP) (Mov B64 (Reg BINARY_GP_RBP) (Reg BINARY_GP_RSP))"
    "emits (binary_emit_push_reg BINARY_GP_RBP) (Push BINARY_GP_RBP)" "emits binary_emit_ret Ret"
    by (simp_all add: emits.intros(2,27,30,33) is_i32_def)
  then have ?table by simp
  then show ?thesis by (intro conjI encoded_program_decodes)
qed

end
