(* ===== verification/X86_Exec.thy ===== *)
theory X86_Exec
  imports X86_Program
begin

text \<open>
  What the decoded instructions do, and what the emitted bytes do when they run: constants, arithmetic with
  immediates, multiplication by a constant, comparison, loads and stores, and jumps.
\<close>

section \<open>The machine\<close>

record status =
  zero_flag :: bool
  sign_flag :: bool
  carry_flag :: bool
  overflow_flag :: bool

text \<open>The flags are \<open>None\<close> behind an instruction whose flags are not modelled.\<close>

record machine =
  gpr :: "BinaryGpRegister \<Rightarrow> u64"
  memory :: "u64 \<Rightarrow> u8"
  flags :: "status option"

fun width_bytes :: "width \<Rightarrow> nat" where
  "width_bytes B8 = 1" | "width_bytes B16 = 2" | "width_bytes B32 = 4" | "width_bytes B64 = 8"

definition truncate :: "width \<Rightarrow> u64 \<Rightarrow> u64" where "truncate w v = take_bit (8 * width_bytes w) v"

definition sign_extend :: "width \<Rightarrow> u64 \<Rightarrow> u64" where
  "sign_extend w v = signed_take_bit (8 * width_bytes w - 1) v"

definition sign_bit :: "width \<Rightarrow> u64 \<Rightarrow> bool" where "sign_bit w v = bit v (8 * width_bytes w - 1)"

text \<open>\<open>following\<close> is the address of the next instruction.\<close>

fun address_of :: "u64 \<Rightarrow> machine \<Rightarrow> address \<Rightarrow> u64" where
  "address_of following m (Based b None d) = gpr m b + word_of_int d"
| "address_of following m (Based b (Some (i, s)) d) = gpr m b + gpr m i * of_nat s + word_of_int d"
| "address_of following m (Rip d) = following + word_of_int d"

primrec load :: "nat \<Rightarrow> (u64 \<Rightarrow> u8) \<Rightarrow> u64 \<Rightarrow> u64" where
  "load 0 mem a = 0"
| "load (Suc n) mem a = ucast (mem a) OR push_bit 8 (load n mem (a + 1))"

primrec store :: "nat \<Rightarrow> u64 \<Rightarrow> u64 \<Rightarrow> (u64 \<Rightarrow> u8) \<Rightarrow> (u64 \<Rightarrow> u8)" where
  "store 0 a v mem = mem"
| "store (Suc n) a v mem = (store n (a + 1) (drop_bit 8 v) mem)(a := ucast v)"

fun read_place :: "u64 \<Rightarrow> machine \<Rightarrow> width \<Rightarrow> place \<Rightarrow> u64" where
  "read_place following m w (Reg r) = truncate w (gpr m r)"
| "read_place following m w (High r) = take_bit 8 (drop_bit 8 (gpr m r))"
| "read_place following m w (Mem a) = load (width_bytes w) (memory m) (address_of following m a)"

text \<open>A 32-bit register write clears the upper half; narrower writes keep the other bits.\<close>

definition merge :: "width \<Rightarrow> u64 \<Rightarrow> u64 \<Rightarrow> u64" where
  "merge w old v =
     (if w = B64 then v else if w = B32 then take_bit 32 v
      else (old AND NOT (mask (8 * width_bytes w))) OR take_bit (8 * width_bytes w) v)"

fun write_place :: "u64 \<Rightarrow> width \<Rightarrow> place \<Rightarrow> u64 \<Rightarrow> machine \<Rightarrow> machine" where
  "write_place following w (Reg r) v m = m\<lparr>gpr := (gpr m)(r := merge w (gpr m r) v)\<rparr>"
| "write_place following w (High r) v m =
     m\<lparr>gpr := (gpr m)(r := (gpr m r AND NOT 0xFF00) OR push_bit 8 (take_bit 8 v))\<rparr>"
| "write_place following w (Mem a) v m =
     m\<lparr>memory := store (width_bytes w) (address_of following m a) v (memory m)\<rparr>"

fun alu_result :: "alu \<Rightarrow> u64 \<Rightarrow> u64 \<Rightarrow> u64 option" where
  "alu_result Alu_Add x y = Some (x + y)" | "alu_result Alu_Or x y = Some (x OR y)"
| "alu_result Alu_And x y = Some (x AND y)" | "alu_result Alu_Sub x y = Some (x - y)"
| "alu_result Alu_Xor x y = Some (x XOR y)" | "alu_result Alu_Cmp x y = Some (x - y)"
| "alu_result Alu_Adc x y = None" | "alu_result Alu_Sbb x y = None"

definition result_flags :: "width \<Rightarrow> u64 \<Rightarrow> bool \<Rightarrow> bool \<Rightarrow> status" where
  "result_flags w v carry overflow =
     \<lparr>zero_flag = (truncate w v = 0), sign_flag = sign_bit w v, carry_flag = carry, overflow_flag = overflow\<rparr>"

definition alu_flags :: "alu \<Rightarrow> width \<Rightarrow> u64 \<Rightarrow> u64 \<Rightarrow> status" where
  "alu_flags f w x y =
     (if f = Alu_Add then
        result_flags w (x + y) (truncate w (x + y) < truncate w x)
          (sign_bit w x = sign_bit w y \<and> sign_bit w (x + y) \<noteq> sign_bit w x)
      else if f = Alu_Sub \<or> f = Alu_Cmp then
        result_flags w (x - y) (truncate w x < truncate w y)
          (sign_bit w x \<noteq> sign_bit w y \<and> sign_bit w (x - y) \<noteq> sign_bit w x)
      else if f = Alu_Or then result_flags w (x OR y) False False
      else if f = Alu_And then result_flags w (x AND y) False False
      else result_flags w (x XOR y) False False)"

definition exec_alu :: "u64 \<Rightarrow> alu \<Rightarrow> width \<Rightarrow> place \<Rightarrow> u64 \<Rightarrow> machine \<Rightarrow> machine option" where
  "exec_alu following f w p y m =
     (let x = read_place following m w p in
      map_option (\<lambda>v. (if f = Alu_Cmp then m else write_place following w p v m)\<lparr>flags := Some (alu_flags f w x y)\<rparr>)
        (alu_result f x y))"

fun shift_result :: "shift \<Rightarrow> nat \<Rightarrow> u64 \<Rightarrow> u64" where
  "shift_result Shift_Left n v = push_bit n v"
| "shift_result Shift_Right n v = drop_bit n v"
| "shift_result Shift_Arith n v = signed_drop_bit n v"

definition exec_shift :: "u64 \<Rightarrow> shift \<Rightarrow> place \<Rightarrow> u8 \<Rightarrow> machine \<Rightarrow> machine" where
  "exec_shift following f p c m =
     (let n = unat (c AND 63) in
      if n = 0 then m
      else (write_place following B64 p (shift_result f n (read_place following m B64 p)) m)\<lparr>flags := None\<rparr>)"

definition set_gpr :: "BinaryGpRegister \<Rightarrow> u64 \<Rightarrow> machine \<Rightarrow> machine" where
  "set_gpr r v m = m\<lparr>gpr := (gpr m)(r := v)\<rparr>"

text \<open>Straight-line instructions. \<open>None\<close> is an instruction outside the model: a transfer of control, a division or
  floating point.\<close>

fun exec :: "u64 \<Rightarrow> instr \<Rightarrow> machine \<Rightarrow> machine option" where
  "exec following (Mov w p q) m = Some (write_place following w p (read_place following m w q) m)"
| "exec following (Mov_Imm w p v) m = Some (write_place following w p v m)"
| "exec following (Movzx w r p) m = Some (set_gpr r (read_place following m w p) m)"
| "exec following (Movsx w r p) m = Some (set_gpr r (sign_extend w (read_place following m w p)) m)"
| "exec following (Alu f w p q) m = exec_alu following f w p (read_place following m w q) m"
| "exec following (Alu_Imm f w p v) m = exec_alu following f w p (truncate w v) m"
| "exec following (Test w p q) m =
     Some (m\<lparr>flags := Some (result_flags w (read_place following m w p AND read_place following m w q) False False)\<rparr>)"
| "exec following (Test_Imm w p v) m =
     Some (m\<lparr>flags := Some (result_flags w (read_place following m w p AND truncate w v) False False)\<rparr>)"
| "exec following (Lea r a) m = Some (set_gpr r (address_of following m a) m)"
| "exec following (Imul r p) m = Some ((set_gpr r (gpr m r * read_place following m B64 p) m)\<lparr>flags := None\<rparr>)"
| "exec following (Imul_Imm r p v) m = Some ((set_gpr r (read_place following m B64 p * v) m)\<lparr>flags := None\<rparr>)"
| "exec following (Not_Place p) m = Some (write_place following B64 p (NOT (read_place following m B64 p)) m)"
| "exec following (Neg_Place p) m =
     Some ((write_place following B64 p (- read_place following m B64 p) m)\<lparr>flags := None\<rparr>)"
| "exec following (Shift f p c) m = Some (exec_shift following f p c m)"
| "exec following (Shift_Cl f p) m = Some (exec_shift following f p (ucast (gpr m BINARY_GP_RCX)) m)"
| "exec following (Push r) m =
     (let a = gpr m BINARY_GP_RSP - 8 in
      Some (m\<lparr>gpr := (gpr m)(BINARY_GP_RSP := a), memory := store 8 a (gpr m r) (memory m)\<rparr>))"
| "exec following (Pop r) m =
     (let a = gpr m BINARY_GP_RSP in
      Some (m\<lparr>gpr := ((gpr m)(BINARY_GP_RSP := a + 8))(r := load 8 (memory m) a)\<rparr>))"
| "exec following Cqo m =
     Some (set_gpr BINARY_GP_RDX (if bit (gpr m BINARY_GP_RAX) 63 then - 1 else 0) m)"
| "exec following i m = None"

text \<open>Running all the bytes from the address \<open>at\<close>.\<close>

function run :: "u64 \<Rightarrow> bytes \<Rightarrow> machine \<Rightarrow> machine option" where
  "run at bs m =
     (if bs = [] then Some m
      else case decode bs of
        None \<Rightarrow> None
      | Some (i, rest) \<Rightarrow>
          if length rest < length bs then
            (let following = at + of_nat (length bs - length rest) in
             Option.bind (exec following i m) (run following rest))
          else None)"
  by pat_completeness auto
termination by (relation "measure (\<lambda>(at, bs, m). length bs)") auto

declare run.simps [simp del]

lemma run_Nil [simp]: "run at [] m = Some m"
  by (simp add: run.simps)

lemma run_step:
  assumes "\<And>bs. decode (code @ bs) = Some (i, bs)"
  shows "run at (code @ bs) m = Option.bind (exec (at + of_nat (length code)) i m) (run (at + of_nat (length code)) bs)"
proof -
  have "decode [] = None" by (simp add: decode_def)
  then have "code \<noteq> []" using assms [of "[]"] by auto
  then show ?thesis by (simp add: run.simps [of at "code @ bs"] assms Let_def)
qed

lemma run_done:
  assumes "\<And>bs. decode (code @ bs) = Some (i, bs)"
  shows "run at code m = exec (at + of_nat (length code)) i m"
  using run_step [of code i at "[]" m, OF assms] by (cases "exec (at + of_nat (length code)) i m") auto

section \<open>Straight-line pieces\<close>

lemma truncate_64 [simp]: "truncate B64 v = v"
  using take_bit_length_eq [of v] by (simp add: truncate_def)

lemma merge_64 [simp]: "merge B64 old v = v"
  by (simp add: merge_def)

lemma set_gpr_same [simp]: "set_gpr r (gpr m r) m = m"
  by (simp add: set_gpr_def)

lemma gpr_set_gpr [simp]: "gpr (set_gpr r v m) = (gpr m)(r := v)"
  by (simp add: set_gpr_def)

lemma write_register [simp]: "write_place following B64 (Reg r) v m = set_gpr r v m"
  by (simp add: set_gpr_def)

named_theorems x86_run \<comment> \<open>the effect of the bytes of an encoder, followed by more bytes\<close>

lemma run_mov_reg_reg [x86_run]:
  "run at (binary_emit_mov_reg_reg r s @ bs) m =
     run (at + of_nat (length (binary_emit_mov_reg_reg r s))) bs (set_gpr r (gpr m s) m)"
proof (cases "r = s")
  case True
  then show ?thesis by (simp add: binary_emit_mov_reg_reg_def)
next
  case False
  show ?thesis using run_step [OF decode_moves(1) [OF False]] by (simp del: write_place.simps)
qed

lemma run_neg_reg [x86_run]:
  "run at (binary_emit_neg_reg r @ bs) m =
     run (at + of_nat (length (binary_emit_neg_reg r))) bs ((set_gpr r (- gpr m r) m)\<lparr>flags := None\<rparr>)"
  using run_step [OF decode_register_arithmetic(7)] by (simp del: write_place.simps)

lemma run_shift_left [x86_run]:
  assumes "c \<noteq> 0" "c < 64"
  shows "run at (binary_emit_shift_reg_imm8 4 r c @ bs) m =
     run (at + of_nat (length (binary_emit_shift_reg_imm8 4 r c))) bs
       ((set_gpr r (gpr m r * 2 ^ unat c) m)\<lparr>flags := None\<rparr>)"
proof -
  have c: "c AND 63 = c" using less_mask_eq [of c 6] assms(2) by (simp add: mask_numeral)
  have "unat c \<noteq> 0" using assms(1) by (simp add: unat_eq_zero)
  then show ?thesis
    using run_step [OF decode_shifts(2) [where f = Shift_Left, OF assms(1)]] c
    by (simp add: exec_shift_def push_bit_eq_mult del: write_place.simps)
qed

lemma run_lea_indexed [x86_run]:
  assumes "binary_emit_lea_reg_base_index_scale_disp r base index s d = Some code" "is_i32 d"
  shows "run at (code @ bs) m = run (at + of_nat (length code)) bs
    (set_gpr r (gpr m base + gpr m index * of_nat (nat s) + word_of_int d) m)"
  using run_step [OF decode_lea_indexed [OF assms]] by simp

lemma run_xor_self [x86_run]:
  "run at (binary_emit_xor_reg_reg32 r @ bs) m = run (at + of_nat (length (binary_emit_xor_reg_reg32 r))) bs
     ((set_gpr r 0 m)\<lparr>flags := Some (result_flags B32 0 False False)\<rparr>)"
  using run_step [OF decode_register_arithmetic(1)]
  by (simp add: exec_alu_def merge_def set_gpr_def alu_flags_def)

section \<open>Multiplication by a constant\<close>

lemma halvings32_power:
  "v \<noteq> 0 \<Longrightarrow> unat v AND (unat v - 1) = 0 \<Longrightarrow> \<exists>k. halvings32 v n = n + of_nat k \<and> unat v = 2 ^ k"
proof (induction v n rule: halvings32.induct)
  case (1 v n)
  have half: "unat (drop_bit 1 v) = unat v div 2" using unat_drop_bit_eq [of 1 v] drop_bit_eq_div [of 1 "unat v"] by simp
  show ?case
  proof (cases "1 < v")
    case True
    then have big: "1 < unat v" by (simp add: word_less_nat_alt)
    note bits = single_bit_half [OF big "1.prems"(2)]
    have "unat (drop_bit 1 v) \<noteq> 0" unfolding half using big by simp
    then have "drop_bit 1 v \<noteq> 0" by auto
    from "1.IH" [OF True this] bits(2) obtain k where
      "halvings32 (drop_bit 1 v) (n + 1) = n + 1 + of_nat k" "unat v div 2 = 2 ^ k"
      unfolding half by blast
    with bits(1) True show ?thesis
      by (intro exI [of _ "Suc k"]) (auto simp: halvings32.simps [of v n] elim!: evenE)
  next
    case False
    then have "unat v = 1" using "1.prems"(1) by (simp add: not_less word_le_nat_alt unat_eq_zero le_Suc_eq)
    then have "v = 1" by (simp add: word_unat_eq_iff)
    then show ?thesis by (intro exI [of _ 0]) (simp add: halvings32.simps [of 1 n])
  qed
qed

lemma power_of_two_i32:
  assumes "binary_immediate_positive_power_of_two_i32 v = Some c"
  shows "sint v = 2 ^ unat c" "c < 31"
proof -
  have pos: "0 < sint v" and single: "v AND (v - 1) = 0" and c: "c = halvings32 v 0"
    using assms by (auto simp: binary_immediate_positive_power_of_two_i32_def split: if_splits)
  have v: "v \<noteq> 0" using pos by auto
  have "unat v AND (unat v - 1) = 0"
    using arg_cong [OF single, of unat] v by (simp add: unsigned_and_eq unat_minus_one)
  with v c obtain k where k: "c = of_nat k" "unat v = 2 ^ k" using halvings32_power [of v 0] by auto
  have "uint v = sint v"
    unfolding uint_sint using pos sint_lt [of v] by (intro take_bit_int_eq_self) simp_all
  then have s: "int (unat v) = sint v" using pos by (simp add: unat_eq_nat_uint)
  then have "2 ^ k < (2 :: int) ^ 31" using k(2) sint_lt [of v] by simp
  then have k31: "k < 31" using power_less_imp_less_exp [of 2 k 31] by simp
  then have u: "unat c = k" using k(1) by (simp add: unat_of_nat)
  show "sint v = 2 ^ unat c" using s k(2) u by simp
  show "c < 31" using k31 u by (simp add: word_less_nat_alt)
qed

definition multiplies :: "bytes \<Rightarrow> BinaryGpRegister \<Rightarrow> BinaryGpRegister \<Rightarrow> int \<Rightarrow> bool" where
  "multiplies code d s k \<longleftrightarrow> (\<forall>at m. \<exists>fl.
     run at code m = Some ((set_gpr d (gpr m s * word_of_int k) m)\<lparr>flags := fl\<rparr>))"

lemma set_gpr_twice [simp]:
  "set_gpr r v (set_gpr r u m) = set_gpr r v m" "set_gpr r v (m\<lparr>flags := fl\<rparr>) = (set_gpr r v m)\<lparr>flags := fl\<rparr>"
  by (simp_all add: set_gpr_def)

lemma flags_same: "\<exists>fl. m = m\<lparr>flags := fl\<rparr>"
  by (intro exI [of _ "flags m"]) simp

text \<open>The last piece of a sequence.\<close>

lemmas run_last = run_mov_reg_reg [where bs = "[]", simplified] run_neg_reg [where bs = "[]", simplified]
  run_xor_self [where bs = "[]", simplified]

lemma multiplies_small: "multiplies (binary_emit_xor_reg_reg32 d) d s 0"
  "multiplies (binary_emit_mov_reg_reg d s) d s 1"
  "multiplies (binary_emit_mov_reg_reg d s @ binary_emit_neg_reg d) d s (- 1)"
  using flags_same by (auto simp: multiplies_def x86_run run_last)

lemma multiplies_power:
  assumes "sint v = 2 ^ unat c" "c < 31" "c \<noteq> 0"
  shows "multiplies (binary_emit_mov_reg_reg d s @ binary_emit_shift_reg_imm8 4 d c) d s (2 ^ unat c)"
    and "multiplies (binary_emit_mov_reg_reg d s @ binary_emit_shift_reg_imm8 4 d c @ binary_emit_neg_reg d) d s (- (2 ^ unat c))"
proof -
  have c: "c < 64" using assms(2) by (simp add: word_less_nat_alt)
  note shift = run_shift_left [OF assms(3) c]
  note shift_last = run_shift_left [OF assms(3) c, where bs = "[]", simplified]
  show "multiplies (binary_emit_mov_reg_reg d s @ binary_emit_shift_reg_imm8 4 d c) d s (2 ^ unat c)"
    by (auto simp: multiplies_def run_mov_reg_reg shift_last)
  show "multiplies (binary_emit_mov_reg_reg d s @ binary_emit_shift_reg_imm8 4 d c @ binary_emit_neg_reg d) d s (- (2 ^ unat c))"
    by (auto simp: multiplies_def run_mov_reg_reg shift run_last)
qed

lemma multiplies_lea:
  assumes "binary_emit_imul_reg_reg_small_imm d s k = Some code"
  shows "multiplies code d s k"
proof -
  obtain scale where k: "\<bar>k\<bar> = int scale + 1" and "\<exists>lea. binary_emit_lea_reg_base_index_scale_disp d s s (int scale) 0 = Some lea \<and>
      code = (if k < 0 then lea @ binary_emit_neg_reg d else lea)"
    using assms
    by (fastforce simp: binary_emit_imul_reg_reg_small_imm_def Let_def split: if_splits option.splits)
  then obtain lea where lea: "binary_emit_lea_reg_base_index_scale_disp d s s (int scale) 0 = Some lea"
    and code: "code = (if k < 0 then lea @ binary_emit_neg_reg d else lea)" by blast
  have small: "is_i32 0" by (simp add: is_i32_def)
  note run = run_lea_indexed [OF lea small]
  note run_end = run [where bs = "[]", simplified]
  have mult: "gpr m s + gpr m s * word_of_nat scale = gpr m s * word_of_int \<bar>k\<bar>" for m
    by (simp add: k algebra_simps)
  show ?thesis
  proof (cases "k < 0")
    case True
    then have "word_of_int k = - (word_of_int \<bar>k\<bar> :: u64)" by simp
    with True show ?thesis by (auto simp: multiplies_def code run run_last mult)
  next
    case False
    with flags_same show ?thesis by (auto simp: multiplies_def code run_end mult)
  qed
qed

lemma multiplies_instruction:
  "multiplies (binary_emit_rex True (high (gp_code d)) False (high (gp_code s)) @
     [if fits_i8 (sint v) then 0x6B else 0x69, modrm_registers (gp_code d) (gp_code s)] @
     (if (if fits_i8 (sint v) then 0x6B else 0x69) = (0x6B :: u8) then [ucast v] else bytes_u32 v)) d s (sint v)"
    (is "multiplies ?code d s _")
proof -
  have "decode (?code @ bs) = Some (Imul_Imm d (Reg s) (scast v), bs)" for bs
    using decode_multiply_immediate by simp
  from run_done [of ?code, OF this] show ?thesis by (auto simp: multiplies_def)
qed

lemma negated_power:
  assumes "sint v \<noteq> - (2 ^ 31)" "binary_immediate_positive_power_of_two_i32 (- v) = Some c"
  shows "sint v = - (2 ^ unat c)"
proof -
  note c = power_of_two_i32 [OF assms(2)]
  have "unat c < 31" using c(2) by (simp add: word_less_nat_alt)
  then have "(2 :: int) ^ unat c < 2 ^ 31" by (rule power_strict_increasing) simp
  moreover have "(0 :: int) < 2 ^ unat c" by simp
  ultimately have i: "is_i32 (- (2 ^ unat c))" unfolding is_i32_def by linarith
  have "v = - word_of_int (sint (- v))" by simp
  then have "v = word_of_int (- (2 ^ unat c))" unfolding c(1) by simp
  then show ?thesis using sint_i32 [OF i] by simp
qed

lemma multiplies_constant: "multiplies (binary_emit_imul_reg_reg_imm32 d s v) d s (sint v)"
proof -
  have zero: "c \<noteq> 0" if "sint v \<noteq> 1" "sint v = 2 ^ unat (c :: u8)" for c using that by auto
  have minus: "c \<noteq> 0" if "sint v \<noteq> - 1" "sint v = - (2 ^ unat (c :: u8))" for c using that by auto
  consider "sint v = 0" | "sint v = 1" | "sint v = - 1"
    | (power) c where "sint v \<noteq> 0" "sint v \<noteq> 1" "sint v \<noteq> - 1" "binary_immediate_positive_power_of_two_i32 v = Some c"
    | (negated) c where "sint v \<noteq> 0" "sint v \<noteq> 1" "sint v \<noteq> - 1" "binary_immediate_positive_power_of_two_i32 v = None"
        "sint v \<noteq> - (2 ^ 31)" "binary_immediate_positive_power_of_two_i32 (- v) = Some c"
    | (other) "sint v \<noteq> 0" "sint v \<noteq> 1" "sint v \<noteq> - 1" "binary_immediate_positive_power_of_two_i32 v = None"
        "sint v = - (2 ^ 31) \<or> binary_immediate_positive_power_of_two_i32 (- v) = None"
    by (cases "binary_immediate_positive_power_of_two_i32 v"; cases "binary_immediate_positive_power_of_two_i32 (- v)") blast+
  then show ?thesis
  proof cases
    case power
    note c = power_of_two_i32 [OF power(4)]
    show ?thesis using multiplies_power(1) [OF c zero [OF power(2) c(1)]] power c
      by (simp add: binary_emit_imul_reg_reg_imm32_def)
  next
    case negated
    note c = power_of_two_i32 [OF negated(6)] negated_power [OF negated(5,6)]
    show ?thesis using multiplies_power(2) [OF c(1,2) minus [OF negated(3) c(3)]] negated c(3)
      by (simp add: binary_emit_imul_reg_reg_imm32_def)
  next
    case other
    then have "binary_emit_imul_reg_reg_imm32 d s v =
      (case binary_emit_imul_reg_reg_small_imm d s (sint v) of
         Some code \<Rightarrow> code
       | None \<Rightarrow> binary_emit_rex True (high (gp_code d)) False (high (gp_code s)) @
           [if fits_i8 (sint v) then 0x6B else 0x69, modrm_registers (gp_code d) (gp_code s)] @
           (if (if fits_i8 (sint v) then 0x6B else 0x69) = (0x6B :: u8) then [ucast v] else bytes_u32 v))"
      by (auto simp: binary_emit_imul_reg_reg_imm32_def Let_def split: option.splits)
    then show ?thesis using multiplies_instruction [of d s v] multiplies_lea [of d s "sint v"]
      by (auto split: option.splits)
  qed (auto simp: binary_emit_imul_reg_reg_imm32_def multiplies_small)
qed

text \<open>(C17) Running the bytes emitted for a multiplication by a 32-bit constant puts the product of the source and
  the sign-extended constant, modulo \<open>2 ^ 64\<close>, into the destination, and changes nothing else but the flags: for
  every pair of registers, every constant and every choice the encoder makes (clear, move, negate, shift, address
  arithmetic, or the multiply instruction with an 8-bit or 32-bit constant).\<close>

theorem multiply_by_constant:
  "\<exists>fl. run at (binary_emit_imul_reg_reg_imm32 d s v) m =
     Some ((set_gpr d (gpr m s * scast v) m)\<lparr>flags := fl\<rparr>)"
  using multiplies_constant [of d s v] unfolding multiplies_def by simp

section \<open>Constants and immediates\<close>

lemma run_mov_imm32:
  "run at (binary_emit_mov_reg_imm32_zero_extend r v) m = Some (set_gpr r (ucast v) m)"
proof -
  have "take_bit 32 (ucast v :: u64) = ucast v"
    by (rule bit_eqI) (auto simp: bit_take_bit_iff bit_ucast_iff dest: bit_imp_le_length)
  then show ?thesis using run_done [OF decode_moves(3), of at r v m] by (simp add: merge_def set_gpr_def)
qed

lemma sint_upper_half:
  assumes "0xFFFFFFFF80000000 \<le> (v :: u64)"
  shows "- (2 ^ 31) \<le> sint v \<and> sint v \<le> 2 ^ 31 - 1"
proof -
  have "v = word_of_int (uint v - 2 ^ 64)" by simp
  then have "sint v = sint (word_of_int (uint v - 2 ^ 64) :: u64)" by (rule arg_cong)
  also have "\<dots> = signed_take_bit 63 (uint v - 2 ^ 64)" by (simp only: signed_of_int) simp
  also have "\<dots> = uint v - 2 ^ 64"
    using assms uint_lt2p [of v] by (intro signed_take_bit_int_eq_self) (simp_all add: word_le_def)
  finally show ?thesis using assms uint_lt2p [of v] by (simp add: word_le_def)
qed

text \<open>Running the bytes emitted for a 64-bit constant puts that constant into the register and changes nothing
  else, whichever of the three forms is chosen (a zero-extended 32-bit constant, a sign-extended one, or all eight
  bytes), and the form is the shortest that can hold the constant: at most 6 bytes when the upper half is zero, 7
  when it repeats the sign bit, 10 otherwise.\<close>

theorem load_constant:
  "run at (binary_emit_mov_reg_imm64 r v) m = Some (set_gpr r v m) \<and>
   length (binary_emit_mov_reg_imm64 r v) \<le>
     (if v \<le> 0xFFFFFFFF then 6 else if 0xFFFFFFFF80000000 \<le> v then 7 else 10)"
proof -
  have rex: "length (binary_emit_rex w x y z) \<le> 1" for w x y z by (simp add: binary_emit_rex_def)
  consider "v = 0" | "v \<noteq> 0" "v \<le> 0xFFFFFFFF" | "\<not> v \<le> 0xFFFFFFFF" "0xFFFFFFFF80000000 \<le> v"
    | "\<not> v \<le> 0xFFFFFFFF" "\<not> 0xFFFFFFFF80000000 \<le> v" by blast
  then show ?thesis
  proof cases
    case 1
    then show ?thesis using run_mov_imm32 [of at r 0 m] rex
      by (simp add: binary_emit_mov_reg_imm64_def binary_emit_mov_reg_imm32_zero_extend_def bytes_u32_def)
  next
    case 2
    then show ?thesis using run_mov_imm32 [of at r "ucast v" m] rex
      by (simp add: binary_emit_mov_reg_imm64_def binary_emit_mov_reg_imm32_zero_extend_def bytes_u32_def ucast_ucast_small)
  next
    case 3
    let ?code = "binary_emit_rex True False False (high (gp_code r)) @ 0xC7 # (0xC0 OR low (gp_code r)) # bytes_u32 (ucast v)"
    have "decode (?code @ bs) = Some (Mov_Imm B64 (Reg r) (scast (ucast v :: u32)), bs)" for bs
      using decode_sign_extend_immediate(1) by simp
    from run_done [of ?code, OF this] have "run at ?code m = Some (set_gpr r v m)"
      using scast_ucast_small [of v] sint_upper_half [OF 3(2)] by (simp del: write_place.simps)
    then show ?thesis using 3 rex [of True False False "high (gp_code r)"]
      by (auto simp: binary_emit_mov_reg_imm64_def bytes_u32_def)
  next
    case 4
    let ?code = "binary_emit_rex True False False (high (gp_code r)) @ (0xB8 + low (gp_code r)) # bytes_u64 v"
    have "decode (?code @ bs) = Some (Mov_Imm B64 (Reg r) v, bs)" for bs
      using decode_sign_extend_immediate(2) by simp
    from run_done [of ?code, OF this] have "run at ?code m = Some (set_gpr r v m)"
      by (simp del: write_place.simps)
    then show ?thesis using 4 rex [of True False False "high (gp_code r)"]
      by (auto simp: binary_emit_mov_reg_imm64_def bytes_u64_def)
  qed
qed

lemma run_alu_immediate:
  "binary_emit_alu_reg_imm32 (alu_code f) r v \<noteq> [] \<Longrightarrow>
    run at (binary_emit_alu_reg_imm32 (alu_code f) r v) m =
      exec_alu (at + of_nat (length (binary_emit_alu_reg_imm32 (alu_code f) r v))) f B64 (Reg r) (scast v) m"
  using run_done [OF decode_alu_immediate(1) [of f r v]] by simp

lemma alu_immediate:
  assumes "f \<in> {Alu_Add, Alu_Or, Alu_And, Alu_Sub, Alu_Xor}" "alu_result f (gpr m r) (scast v) = Some y"
  shows "\<exists>fl. run at (binary_emit_alu_reg_imm32 (alu_code f) r v) m = Some ((set_gpr r y m)\<lparr>flags := fl\<rparr>)"
proof (cases "binary_emit_alu_reg_imm32 (alu_code f) r v = []")
  case True
  have "binary_emit_rex True False False b @ xs \<noteq> []" for b xs
    by (simp add: binary_emit_rex_def rex_byte_zero)
  with True have "(alu_code f \<in> {0, 1, 5, 6} \<and> v = 0) \<or> (alu_code f = 4 \<and> v = 0xFFFFFFFF)"
    by (auto simp: binary_emit_alu_reg_imm32_def split: if_splits)
  moreover have "scast (0xFFFFFFFF :: u32) = (- 1 :: u64)" by simp
  ultimately have "y = gpr m r" using assms by auto
  with True flags_same show ?thesis by simp
next
  case False
  then show ?thesis using assms by (auto simp: run_alu_immediate exec_alu_def simp del: write_place.simps)
qed

text \<open>Adding, subtracting or combining bitwise a register with a 32-bit immediate: the emitted bytes put the
  64-bit result for the sign-extended immediate into the register and change nothing else but the flags. That covers
  the neutral immediates, for which nothing is emitted, and both immediate sizes.\<close>

theorem alu_with_immediate:
  "(\<exists>fl. run at (binary_emit_add_reg_imm32 r v) m = Some ((set_gpr r (gpr m r + scast v) m)\<lparr>flags := fl\<rparr>)) \<and>
   (\<exists>fl. run at (binary_emit_sub_reg_imm32 r v) m = Some ((set_gpr r (gpr m r - scast v) m)\<lparr>flags := fl\<rparr>)) \<and>
   (\<exists>fl. run at (binary_emit_and_reg_imm32 r v) m = Some ((set_gpr r (gpr m r AND scast v) m)\<lparr>flags := fl\<rparr>)) \<and>
   (\<exists>fl. run at (binary_emit_or_reg_imm32 r v) m = Some ((set_gpr r (gpr m r OR scast v) m)\<lparr>flags := fl\<rparr>)) \<and>
   (\<exists>fl. run at (binary_emit_xor_reg_imm32 r v) m = Some ((set_gpr r (gpr m r XOR scast v) m)\<lparr>flags := fl\<rparr>))"
  using alu_immediate [of Alu_Add] alu_immediate [of Alu_Sub] alu_immediate [of Alu_And] alu_immediate [of Alu_Or]
    alu_immediate [of Alu_Xor]
  by (simp add: binary_emit_add_reg_imm32_def binary_emit_sub_reg_imm32_def binary_emit_and_reg_imm32_def
      binary_emit_or_reg_imm32_def binary_emit_xor_reg_imm32_def)

text \<open>Comparing a register with a 32-bit immediate: the emitted bytes change only the flags, and leave in them
  the zero, sign, carry and overflow flags of the 64-bit comparison with the sign-extended immediate, also when the
  comparison with zero is emitted as a test of the register with itself.\<close>

theorem compare_with_immediate:
  "run at (binary_emit_cmp_reg_imm32 r v) m =
     Some (m\<lparr>flags := Some (alu_flags Alu_Cmp B64 (gpr m r) (scast v))\<rparr>)"
proof (cases "v = 0")
  case True
  then show ?thesis
    using run_done [OF decode_register_arithmetic(2) [of r]]
    by (simp add: binary_emit_cmp_reg_imm32_def alu_flags_def result_flags_def sign_bit_def)
next
  case False
  have "binary_emit_rex True False False b \<noteq> []" for b by (simp add: binary_emit_rex_def rex_byte_zero)
  then have "binary_emit_alu_reg_imm32 (alu_code Alu_Cmp) r v \<noteq> []"
    by (simp add: binary_emit_alu_reg_imm32_def)
  from run_alu_immediate [OF this] False show ?thesis
    by (simp add: binary_emit_cmp_reg_imm32_def exec_alu_def)
qed

section \<open>Memory\<close>

lemma load_outside: "(\<And>k. k < n \<Longrightarrow> a + of_nat k \<noteq> b) \<Longrightarrow> load n (mem(b := x)) a = load n mem a"
proof (induction n arbitrary: a)
  case (Suc n)
  have "a + 1 + of_nat k \<noteq> b" if "k < n" for k using Suc.prems [of "Suc k"] that by (simp add: add.assoc)
  with Suc.IH [of "a + 1"] Suc.prems [of 0] show ?case by simp
qed simp

lemma bit_join_byte: "ucast (ucast v :: u8) OR push_bit 8 (take_bit n (drop_bit 8 v)) = take_bit (8 + n) (v :: u64)"
proof (rule bit_eqI)
  fix k assume "possible_bit TYPE(u64) k"
  then show "bit (ucast (ucast v :: u8) OR push_bit 8 (take_bit n (drop_bit 8 v))) k = bit (take_bit (8 + n) v) k"
    by (cases "k < 8") (auto simp: bit_simps)
qed

lemma load_store: "n \<le> 8 \<Longrightarrow> load n (store n a v mem) a = take_bit (8 * n) v"
proof (induction n arbitrary: a v)
  case (Suc n)
  have "a + 1 + of_nat k \<noteq> a" if "k < n" for k
  proof -
    have "unat (of_nat (Suc k) :: u64) = Suc k" using that Suc.prems by (simp only: unat_of_nat) simp
    then have "(of_nat (Suc k) :: u64) \<noteq> 0" by (metis Zero_not_Suc unat_0)
    then show ?thesis by (simp add: add.assoc)
  qed
  then have "load n ((store n (a + 1) (drop_bit 8 v) mem)(a := ucast v)) (a + 1) = take_bit (8 * n) (drop_bit 8 v)"
    using Suc by (simp add: load_outside)
  then show ?case using bit_join_byte [of v "8 * n"]
    by (simp only: load.simps store.simps fun_upd_same mult_Suc_right)
qed simp

lemma load_store_widths:
  "load 8 (store 8 a v mem) a = v" "load 4 (store 4 a v mem) a = take_bit 32 v"
  "load 2 (store 2 a v mem) a = take_bit 16 v" "load (Suc 0) (store (Suc 0) a v mem) a = take_bit 8 v"
  using load_store [of 8 a v mem] load_store [of 4 a v mem] load_store [of 2 a v mem] load_store [of 1 a v mem]
    take_bit_length_eq [of v] by simp_all

lemma store_truncated: "n \<le> k \<Longrightarrow> store n a (take_bit (8 * k) v) mem = store n a v mem"
proof (induction n arbitrary: a v k)
  case (Suc n)
  then obtain j where k: "k = Suc j" by (cases k) auto
  have "drop_bit 8 (take_bit (8 * k) v) = take_bit (8 * j) (drop_bit 8 v)"
    by (simp add: k drop_bit_take_bit)
  moreover have "(ucast (take_bit (8 * k) v) :: u8) = ucast v"
    by (rule bit_eqI) (auto simp: bit_simps k)
  ultimately show ?case using Suc k by simp
qed simp

lemma store_truncate: "store (width_bytes w) a (truncate w v) mem = store (width_bytes w) a v mem"
  by (simp add: truncate_def store_truncated)

lemma store_loads:
  assumes "is_i32 d"
  shows "run at (binary_emit_mov_mem_reg b d r @ binary_emit_mov_reg_mem q b d) m =
      Some (set_gpr q (gpr m r) (m\<lparr>memory := store 8 (gpr m b + word_of_int d) (gpr m r) (memory m)\<rparr>))"
    and "run at (binary_emit_mov_mem_reg32 b d r @ binary_emit_mov_reg_mem32 q b d) m =
      Some (set_gpr q (take_bit 32 (gpr m r)) (m\<lparr>memory := store 4 (gpr m b + word_of_int d) (gpr m r) (memory m)\<rparr>))"
    and "run at (binary_emit_mov_mem_reg16 b d r @ binary_emit_movzx_reg_mem16 q b d) m =
      Some (set_gpr q (take_bit 16 (gpr m r)) (m\<lparr>memory := store 2 (gpr m b + word_of_int d) (gpr m r) (memory m)\<rparr>))"
    and "run at (binary_emit_mov_mem_reg8 b d r @ binary_emit_movzx_reg_mem8 q b d) m =
      Some (set_gpr q (take_bit 8 (gpr m r)) (m\<lparr>memory := store 1 (gpr m b + word_of_int d) (gpr m r) (memory m)\<rparr>))"
proof -
  note decodes = decode_memory_access [OF assms]
  note store_cuts = store_truncate [of B32] store_truncate [of B16] store_truncate [of B8]
  show "run at (binary_emit_mov_mem_reg b d r @ binary_emit_mov_reg_mem q b d) m =
      Some (set_gpr q (gpr m r) (m\<lparr>memory := store 8 (gpr m b + word_of_int d) (gpr m r) (memory m)\<rparr>))"
    by (simp add: run_step [OF decodes(2)] run_done [OF decodes(1)] load_store_widths set_gpr_def)
  show "run at (binary_emit_mov_mem_reg32 b d r @ binary_emit_mov_reg_mem32 q b d) m =
      Some (set_gpr q (take_bit 32 (gpr m r)) (m\<lparr>memory := store 4 (gpr m b + word_of_int d) (gpr m r) (memory m)\<rparr>))"
    using store_cuts by (simp add: run_step [OF decodes(8)] run_done [OF decodes(5)] load_store_widths set_gpr_def merge_def)
  show "run at (binary_emit_mov_mem_reg16 b d r @ binary_emit_movzx_reg_mem16 q b d) m =
      Some (set_gpr q (take_bit 16 (gpr m r)) (m\<lparr>memory := store 2 (gpr m b + word_of_int d) (gpr m r) (memory m)\<rparr>))"
    using store_cuts by (simp add: run_step [OF decodes(7)] run_done [OF decodes(4)] load_store_widths set_gpr_def)
  show "run at (binary_emit_mov_mem_reg8 b d r @ binary_emit_movzx_reg_mem8 q b d) m =
      Some (set_gpr q (take_bit 8 (gpr m r)) (m\<lparr>memory := store 1 (gpr m b + word_of_int d) (gpr m r) (memory m)\<rparr>))"
    using store_cuts bit_join_byte [of "gpr m r" 0]
    by (simp add: run_step [OF decodes(6)] run_done [OF decodes(3)] load_store_widths set_gpr_def)
qed

text \<open>(C19) A store followed by a load of the same width at the same base and displacement, for every base register
  (the stack and frame pointers and their extended counterparts need special encodings), every 32-bit displacement
  and every stored register (byte stores of four registers need a forced prefix): the destination receives the stored
  64, 32, 16 or 8 bits zero-extended, exactly those bytes of memory change, and no other register does.\<close>

theorem store_then_load:
  assumes "is_i32 d"
  shows "run at (binary_emit_mov_mem_reg b d r @ binary_emit_mov_reg_mem q b d) m =
      Some (set_gpr q (gpr m r) (m\<lparr>memory := store 8 (gpr m b + word_of_int d) (gpr m r) (memory m)\<rparr>)) \<and>
    run at (binary_emit_mov_mem_reg32 b d r @ binary_emit_mov_reg_mem32 q b d) m =
      Some (set_gpr q (take_bit 32 (gpr m r)) (m\<lparr>memory := store 4 (gpr m b + word_of_int d) (gpr m r) (memory m)\<rparr>)) \<and>
    run at (binary_emit_mov_mem_reg16 b d r @ binary_emit_movzx_reg_mem16 q b d) m =
      Some (set_gpr q (take_bit 16 (gpr m r)) (m\<lparr>memory := store 2 (gpr m b + word_of_int d) (gpr m r) (memory m)\<rparr>)) \<and>
    run at (binary_emit_mov_mem_reg8 b d r @ binary_emit_movzx_reg_mem8 q b d) m =
      Some (set_gpr q (take_bit 8 (gpr m r)) (m\<lparr>memory := store 1 (gpr m b + word_of_int d) (gpr m r) (memory m)\<rparr>))"
  using store_loads [OF assms] by blast

text \<open>An instance: the frame slot at \<open>rbp - 16\<close>, stored from \<open>sil\<close>, whose byte store needs the forced prefix.\<close>

theorem store_then_load_witness:
  "is_i32 (- 16) \<and>
   (\<forall>at m. run at (binary_emit_mov_mem_reg8 BINARY_GP_RBP (- 16) BINARY_GP_RSI @
       binary_emit_movzx_reg_mem8 BINARY_GP_RAX BINARY_GP_RBP (- 16)) m =
     Some (set_gpr BINARY_GP_RAX (take_bit 8 (gpr m BINARY_GP_RSI))
       (m\<lparr>memory := store 1 (gpr m BINARY_GP_RBP + word_of_int (- 16)) (gpr m BINARY_GP_RSI) (memory m)\<rparr>)))"
proof -
  have "is_i32 (- 16)" by (simp add: is_i32_def)
  then show ?thesis using store_then_load [of "- 16"] by blast
qed

section \<open>Jumps and calls\<close>

text \<open>A placeholder: its bytes end in four zero bytes, at the offset it reports.\<close>

definition is_placeholder :: "bytes \<times> nat \<Rightarrow> bool" where
  "is_placeholder p \<longleftrightarrow> fst p = take (snd p) (fst p) @ bytes_u32 0"

lemma length_bytes_u32 [simp]: "length (bytes_u32 v) = 4"
  by (simp add: bytes_u32_def)

lemma patch_placeholder:
  assumes p: "is_placeholder p"
    and patched: "binary_function_context_patch_rel32 (pre @ fst p @ post) (length pre + snd p) target = Some code"
  obtains d where "is_i32 d" "int (length pre + length (fst p)) + d = int target"
    "code = pre @ with_displacement p d @ post"
proof -
  obtain head where head: "fst p = head @ bytes_u32 0" "snd p = length head"
  proof
    show "fst p = take (snd p) (fst p) @ bytes_u32 0" using p by (simp add: is_placeholder_def)
    have "length (fst p) = length (take (snd p) (fst p)) + 4"
      using arg_cong [OF p [unfolded is_placeholder_def], of length] by simp
    then show "snd p = length (take (snd p) (fst p))" by (simp add: min_def split: if_splits)
  qed
  define d where "d = int target - int (length pre + snd p + 4)"
  have "is_i32 d" and code: "code = pre @ head @ bytes_u32 (word_of_int d) @ post"
    using patched unfolding head binary_function_context_patch_rel32_def Let_def
    by (simp_all add: d_def is_i32_def head split: if_splits)
  then show thesis using that [of d] by (simp add: d_def head with_displacement_def)
qed

lemma placeholders [simp]:
  "is_placeholder binary_emit_jmp_placeholder" "is_placeholder binary_emit_call_placeholder"
  "is_placeholder (binary_emit_jcc_placeholder c)" "is_placeholder (binary_emit_lea_reg_rip_placeholder r)"
  by (simp_all add: is_placeholder_def binary_emit_jmp_placeholder_def binary_emit_call_placeholder_def
      binary_emit_jcc_placeholder_def binary_emit_lea_reg_rip_placeholder_def Let_def)

text \<open>Patching the displacement of a jump, a conditional jump, a call or an address computation that stands
  anywhere in the code: the instruction then decodes with a displacement that leads from its end to the target
  offset, and no other byte changes.\<close>

theorem patched_displacement:
  assumes "(p, i) \<in> {(binary_emit_jmp_placeholder, Jmp), (binary_emit_call_placeholder, Call),
      (binary_emit_jcc_placeholder (0x80 OR c), Jcc c), (binary_emit_lea_reg_rip_placeholder r, \<lambda>d. Lea r (Rip d))}"
    and "c < 16"
    and "binary_function_context_patch_rel32 (pre @ fst p @ post) (length pre + snd p) target = Some code"
  shows "\<exists>d. decode (drop (length pre) code) = Some (i d, post) \<and> take (length pre) code = pre \<and>
    int (length pre + length (fst p)) + d = int target"
proof -
  have "is_placeholder p" using assms(1) by auto
  from patch_placeholder [OF this assms(3)] obtain d where
    d: "is_i32 d" "int (length pre + length (fst p)) + d = int target" "code = pre @ with_displacement p d @ post" .
  have "decode (with_displacement p d @ post) = Some (i d, post)"
    using assms(1) decode_calls(4,5) [OF d(1)] decode_conditions(1) [OF assms(2), of d] decode_rip_access(9) [OF d(1)]
    by (auto simp: sint_i32 [OF d(1)])
  with d show ?thesis by (intro exI [of _ d]) simp
qed

text \<open>An instance: a conditional jump backwards over itself.\<close>

theorem patched_displacement_witness:
  "\<exists>code d. binary_function_context_patch_rel32 ([0x90] @ fst (binary_emit_jcc_placeholder (0x80 OR 4)) @ [0xC3])
       (length [0x90 :: u8] + snd (binary_emit_jcc_placeholder (0x80 OR 4))) 0 = Some code \<and>
     decode (drop 1 code) = Some (Jcc 4 d, [0xC3]) \<and> 7 + d = 0"
proof -
  have small: "(4 :: u8) < 16" by simp
  obtain code where code: "binary_function_context_patch_rel32 ([0x90] @ fst (binary_emit_jcc_placeholder (0x80 OR 4)) @ [0xC3])
      (length [0x90 :: u8] + snd (binary_emit_jcc_placeholder (0x80 OR 4))) 0 = Some code"
    by (simp add: binary_function_context_patch_rel32_def binary_emit_jcc_placeholder_def Let_def)
  then show ?thesis
    using patched_displacement [OF _ small code, of "Jcc 4" BINARY_GP_RAX]
    by (auto simp: binary_emit_jcc_placeholder_def bytes_u32_def)
qed

end
