(* ===== verification/Import_Lib.thy ===== *)
theory Import_Lib
  imports Coff_Reader
begin

text \<open>
  Import libraries, \<^verbatim>\<open>src/src/linker/import_lib.c\<close>: an archive whose members name, per symbol, the DLL that exports
  it. Every read of the file goes through \<open>read_bytes\<close>, so a read outside the file is a \<open>Fault\<close>.
\<close>

section \<open>Data\<close>

definition IMPORT_ARCHIVE_MEMBER_HEADER_SIZE :: nat where "IMPORT_ARCHIVE_MEMBER_HEADER_SIZE = 60"
definition IMPORT_OBJECT_HEADER_SIZE :: nat where "IMPORT_OBJECT_HEADER_SIZE = 20"
definition IMPORT_OBJECT_TYPE_CODE :: u16 where "IMPORT_OBJECT_TYPE_CODE = 0"
definition IMPORT_OBJECT_NAME_TYPE_ORDINAL :: u16 where "IMPORT_OBJECT_NAME_TYPE_ORDINAL = 0"
definition IMPORT_OBJECT_NAME_TYPE_NAME :: u16 where "IMPORT_OBJECT_NAME_TYPE_NAME = 1"

record ImportObjectHeader =
  ioh_sig1 :: u16
  ioh_sig2 :: u16
  ioh_version :: u16
  ioh_machine :: u16
  ioh_time_date_stamp :: u32
  ioh_size_of_data :: u32
  ioh_ordinal_or_hint :: u16
  ioh_type_info :: u16

record ImportLibrarySymbol =
  ils_symbol_name :: string
  ils_dll_name :: string
  ils_machine :: u16
  ils_ordinal_or_hint :: u16
  ils_import_type :: u16
  ils_name_type :: u16
  ils_is_ordinal :: bool

record ImportLibrary =
  il_path :: string
  il_symbols :: "ImportLibrarySymbol list"

section \<open>Member headers\<close>

definition import_library_member_name_is_special :: "string \<Rightarrow> bool" where
  "import_library_member_name_is_special member_name \<longleftrightarrow>
     member_name = ''/'' \<or> member_name = ''//'' \<or> member_name = ''/<XFGHASHMAP>/''"

definition import_library_trim_member_name :: "string \<Rightarrow> string" where
  "import_library_trim_member_name member_name =
     rev (dropWhile (\<lambda>c. c = CHR '' '' \<or> c = CHR ''/'') (rev member_name))"

text \<open>\<open>strtoull (text, \&end, 10)\<close>: the value and the number of characters consumed. White space and a sign are
  accepted before the digits; without digits nothing is consumed; a value out of range saturates.\<close>

definition digits_value :: "string \<Rightarrow> nat" where
  "digits_value s = foldl (\<lambda>v c. 10 * v + ((of_char c :: nat) - 48)) 0 s"

definition strtoull10 :: "string \<Rightarrow> u64 \<times> nat" where
  "strtoull10 text =
     (let space = length (takeWhile c_isspace text);
          rest = drop space text;
          sign = (if rest \<noteq> [] \<and> (hd rest = CHR ''-'' \<or> hd rest = CHR ''+'') then 1 else 0);
          digits = takeWhile c_isdigit (drop sign rest)
      in if digits = [] then (0, 0)
         else ((if digits_value digits \<ge> 2 ^ 64 then - 1
                else if sign = 1 \<and> hd rest = CHR ''-'' then - of_nat (digits_value digits)
                else of_nat (digits_value digits)), space + sign + length digits))"

definition import_library_parse_archive_member_size :: "bytes \<Rightarrow> nat linked" where
  "import_library_parse_archive_member_size header =
     (let size_text = c_string (map byte_char (take 10 (drop 48 header)));
          (parsed, consumed) = strtoull10 size_text
      in if dropWhile c_isspace (drop consumed size_text) \<noteq> [] then reject ''Malformed import library member size''
         else Inr (unat parsed))"

definition import_library_parse_import_header :: "bytes \<Rightarrow> ImportObjectHeader option" where
  "import_library_parse_import_header member_data =
     (if length member_data < IMPORT_OBJECT_HEADER_SIZE then None
      else Some \<lparr>ioh_sig1 = linker_read_u16 member_data, ioh_sig2 = linker_read_u16 (drop 2 member_data),
        ioh_version = linker_read_u16 (drop 4 member_data), ioh_machine = linker_read_u16 (drop 6 member_data),
        ioh_time_date_stamp = linker_read_u32 (drop 8 member_data),
        ioh_size_of_data = linker_read_u32 (drop 12 member_data),
        ioh_ordinal_or_hint = linker_read_u16 (drop 16 member_data),
        ioh_type_info = linker_read_u16 (drop 18 member_data)\<rparr>)"

text \<open>One of the two scans for a terminated name: the name and what follows its terminator.\<close>

definition terminated_name :: "bytes \<Rightarrow> (string \<times> bytes) option" where
  "terminated_name cursor =
     (let name = takeWhile (\<lambda>b. b \<noteq> 0) cursor
      in if length name \<ge> length cursor then None else Some (map byte_char name, drop (length name + 1) cursor))"

definition import_library_parse_strings :: "bytes \<Rightarrow> (string \<times> string) linked" where
  "import_library_parse_strings member_data =
     (if length member_data < IMPORT_OBJECT_HEADER_SIZE then reject ''Malformed short import library member''
      else case terminated_name (drop IMPORT_OBJECT_HEADER_SIZE member_data) of
        None \<Rightarrow> reject ''Import library member is missing the symbol name''
      | Some (symbol_name, cursor) \<Rightarrow>
          (case terminated_name cursor of
             None \<Rightarrow> reject ''Import library member is missing the DLL name''
           | Some (dll_name, _) \<Rightarrow> Inr (symbol_name, dll_name)))"

definition import_library_append_symbol ::
  "ImportLibrary \<Rightarrow> ImportObjectHeader \<Rightarrow> string \<Rightarrow> string \<Rightarrow> ImportLibrary" where
  "import_library_append_symbol library header symbol_name dll_name =
     (let name_type = drop_bit 2 (ioh_type_info header) AND 7
      in library\<lparr>il_symbols := il_symbols library @
           [\<lparr>ils_symbol_name = symbol_name, ils_dll_name = dll_name, ils_machine = ioh_machine header,
             ils_ordinal_or_hint = ioh_ordinal_or_hint header, ils_import_type = ioh_type_info header AND 3,
             ils_name_type = name_type, ils_is_ordinal = (name_type = IMPORT_OBJECT_NAME_TYPE_ORDINAL)\<rparr>]\<rparr>)"

section \<open>The archive\<close>

text \<open>What the loop body does with the bytes of one member.\<close>

definition import_member :: "ImportLibrary \<Rightarrow> string \<Rightarrow> bytes \<Rightarrow> ImportLibrary linked" where
  "import_member library member_name member_data =
     (if import_library_member_name_is_special member_name then Inr library
      else case import_library_parse_import_header member_data of
        None \<Rightarrow> Inr library
      | Some header \<Rightarrow>
          (if ioh_sig1 header = 0 \<and> ioh_sig2 header = 0xFFFF \<and> ioh_machine header = COFF_MACHINE_AMD64
           then and_then (import_library_parse_strings member_data) (\<lambda>(symbol_name, dll_name).
                  Inr (import_library_append_symbol library header symbol_name dll_name))
           else Inr library))"

text \<open>The overflow tests of the source cannot fail: offsets stay below the size of a file in memory.\<close>

function import_members :: "bytes \<Rightarrow> nat \<Rightarrow> ImportLibrary \<Rightarrow> ImportLibrary linked" where
  "import_members data offset library =
     (if offset + IMPORT_ARCHIVE_MEMBER_HEADER_SIZE \<le> length data
      then and_then (read_bytes data offset IMPORT_ARCHIVE_MEMBER_HEADER_SIZE) (\<lambda>member_header.
           if member_header ! 58 \<noteq> 0x60 \<or> member_header ! 59 \<noteq> 0x0A then reject ''Malformed archive member header''
           else and_then (import_library_parse_archive_member_size member_header) (\<lambda>member_size.
             let member_data_offset = offset + IMPORT_ARCHIVE_MEMBER_HEADER_SIZE
             in if member_size > length data - member_data_offset then reject ''Truncated archive member''
                else and_then (read_bytes data member_data_offset member_size) (\<lambda>member_data.
                  let member_name = import_library_trim_member_name (c_string (map byte_char (take 16 member_header)))
                  in and_then (import_member library member_name member_data) (\<lambda>library.
                     import_members data (member_data_offset + member_size + member_size mod 2) library))))
      else Inr library)"
  by pat_completeness auto
termination
  by (relation "measure (\<lambda>(data, offset, library). length data + 1 - offset)")
    (auto simp: IMPORT_ARCHIVE_MEMBER_HEADER_SIZE_def)

declare import_members.simps [simp del]

definition archive_signature :: bytes where
  "archive_signature = [0x21, 0x3C, 0x61, 0x72, 0x63, 0x68, 0x3E, 0x0A]"

definition import_library_read :: "(string \<Rightarrow> bytes option) \<Rightarrow> string \<Rightarrow> ImportLibrary linked" where
  "import_library_read read_file path =
     (case read_file path of
        None \<Rightarrow> reject ''Failed to open import library''
      | Some data \<Rightarrow>
          (if length data < 8 \<or> take 8 data \<noteq> archive_signature then reject ''Import library is not a COFF archive''
           else and_then (import_members data 8 \<lparr>il_path = path, il_symbols = []\<rparr>) (\<lambda>library.
             if il_symbols library = [] then reject ''Import library did not contain AMD64 import members''
             else Inr library)))"

definition import_library_find_symbol :: "ImportLibrary \<Rightarrow> string \<Rightarrow> ImportLibrarySymbol option" where
  "import_library_find_symbol library symbol_name =
     List.find (\<lambda>s. ils_symbol_name s = symbol_name) (il_symbols library)"

end
