(* ===== verification/Import_Roundtrip.thy ===== *)
theory Import_Roundtrip
  imports Import_Lib Coff_Roundtrip
begin

text \<open>
  Properties of the import-library reader: it never reads outside the file, it recovers every import of a
  well-formed archive, and its test for special members never succeeds.
\<close>

section \<open>Safety\<close>

lemma import_library_parse_archive_member_size_no_fault:
  "import_library_parse_archive_member_size header \<noteq> Inl Fault"
  by (simp add: import_library_parse_archive_member_size_def Let_def split: prod.splits)

lemma import_member_no_fault: "import_member library name d \<noteq> Inl Fault"
  by (auto simp: import_member_def import_library_parse_strings_def and_then_Fault split: option.splits if_splits)

lemma import_members_no_fault: "import_members data offset library \<noteq> Inl Fault"
proof (induction data offset library rule: import_members.induct)
  case (1 data offset library)
  show ?case
  proof (cases "offset + IMPORT_ARCHIVE_MEMBER_HEADER_SIZE \<le> length data")
    case True
    let ?h = "take IMPORT_ARCHIVE_MEMBER_HEADER_SIZE (drop offset data)" and ?o = "offset + IMPORT_ARCHIVE_MEMBER_HEADER_SIZE"
    have h: "read_bytes data offset IMPORT_ARCHIVE_MEMBER_HEADER_SIZE = Inr ?h" using True by (rule read_bytes_ok)
    let ?loop = "\<lambda>n. and_then (read_bytes data ?o n) (\<lambda>d.
      let name = import_library_trim_member_name (c_string (map byte_char (take 16 ?h)))
      in and_then (import_member library name d) (\<lambda>library. import_members data (?o + n + n mod 2) library))"
    have body: "?loop n \<noteq> Inl Fault"
      if "\<not> (?h ! 58 \<noteq> 0x60 \<or> ?h ! 59 \<noteq> 0x0A)" "n \<le> length data - ?o" for n
    proof -
      let ?d = "take n (drop ?o data)"
      have d: "read_bytes data ?o n = Inr ?d" using True that(2) by (intro read_bytes_ok) simp
      have "import_members data (?o + n + n mod 2) l \<noteq> Inl Fault" for l
        by (rule "1.IH" [OF True that(1) refl _ refl]) (use that(2) in auto)
      then show ?thesis by (simp add: d and_then_Fault import_member_no_fault)
    qed
    show ?thesis
      using True body import_library_parse_archive_member_size_no_fault [of ?h]
      by (subst import_members.simps) (simp add: h and_then_Fault Let_def)
  next
    case False
    then show ?thesis by (subst import_members.simps) simp
  qed
qed

section \<open>Special members\<close>

text \<open>The name is trimmed of slashes before it is compared with names that end in one.\<close>

lemma trimmed_name_not_special: "\<not> import_library_member_name_is_special (import_library_trim_member_name name)"
proof
  assume special: "import_library_member_name_is_special (import_library_trim_member_name name)"
  let ?P = "\<lambda>c. c = CHR '' '' \<or> c = CHR ''/''"
  let ?t = "dropWhile ?P (rev name)"
  have slash: "xs \<noteq> [] \<and> last xs = CHR ''/''" if "import_library_member_name_is_special xs" for xs
    using that by (auto simp: import_library_member_name_is_special_def)
  have t: "rev ?t \<noteq> []" "last (rev ?t) = CHR ''/''"
    using slash [OF special] unfolding import_library_trim_member_name_def by blast+
  then have "\<not> ?P (hd ?t)" by (intro hd_dropWhile [of ?P "rev name"]) simp
  moreover have "hd ?t = CHR ''/''" using t(2) by (simp only: last_rev)
  ultimately show False by simp
qed

section \<open>Well-formed archives\<close>

definition pad :: "nat \<Rightarrow> string \<Rightarrow> bytes" where
  "pad n s = map char_byte (s @ replicate (n - length s) CHR '' '')"

definition archive_member :: "string \<Rightarrow> bytes \<Rightarrow> bytes" where
  "archive_member name d =
     pad 16 name @ replicate 32 0x20 @ pad 10 (show_nat (length d)) @ [0x60, 0x0A] @ d @
     replicate (length d mod 2) 0x0A"

text \<open>The import object of a symbol.\<close>

definition import_object :: "ImportLibrarySymbol \<Rightarrow> bytes" where
  "import_object s =
     bytes_u16 0 @ bytes_u16 0xFFFF @ bytes_u16 0 @ bytes_u16 COFF_MACHINE_AMD64 @ bytes_u32 0 @
     bytes_u32 (of_nat (length (ils_symbol_name s) + length (ils_dll_name s) + 2)) @
     bytes_u16 (ils_ordinal_or_hint s) @ bytes_u16 (push_bit 2 (ils_name_type s) OR ils_import_type s) @
     map char_byte (ils_symbol_name s) @ [0] @ map char_byte (ils_dll_name s) @ [0]"

definition archive :: "(string \<times> ImportLibrarySymbol) list \<Rightarrow> bytes" where
  "archive members = archive_signature @ concat (map (\<lambda>(name, s). archive_member name (import_object s)) members)"

definition import_symbol_ok :: "ImportLibrarySymbol \<Rightarrow> bool" where
  "import_symbol_ok s \<longleftrightarrow> CHR 0x00 \<notin> set (ils_symbol_name s) \<and> CHR 0x00 \<notin> set (ils_dll_name s) \<and>
     ils_machine s = COFF_MACHINE_AMD64 \<and> ils_import_type s < 4 \<and> ils_name_type s < 8 \<and>
     ils_is_ordinal s = (ils_name_type s = IMPORT_OBJECT_NAME_TYPE_ORDINAL) \<and> length (import_object s) < 10 ^ 10"

section \<open>Reading them back\<close>

lemma digits_value_append: "digits_value (s @ [c]) = 10 * digits_value s + (of_char c - 48)"
  by (simp add: digits_value_def)

lemma digits_value_show: "digits_value (show_nat n) = n"
proof (induction n rule: show_nat.induct)
  case (1 n)
  show ?case
  proof (cases "n < 10")
    case True
    then show ?thesis by (subst show_nat.simps) (simp add: digits_value_def)
  next
    case False
    then show ?thesis using 1 by (subst show_nat.simps) (simp add: digits_value_append)
  qed
qed

lemma length_show_nat: "n < 10 ^ k \<Longrightarrow> 0 < k \<Longrightarrow> length (show_nat n) \<le> k"
proof (induction n arbitrary: k rule: show_nat.induct)
  case (1 n)
  show ?case
  proof (cases "n < 10")
    case True
    then show ?thesis using "1.prems" by (subst show_nat.simps) simp
  next
    case False
    then obtain j where k: "k = Suc j" and "0 < j" using "1.prems" by (cases k; cases "k - 1") auto
    then have "n div 10 < 10 ^ j" using "1.prems" by (simp add: less_mult_imp_div_less mult.commute)
    then have "length (show_nat (n div 10)) \<le> j" using "1.IH" [OF False] \<open>0 < j\<close> by blast
    then show ?thesis using False k by (subst show_nat.simps) simp
  qed
qed

lemma show_nat_not_Nil [simp]: "show_nat n \<noteq> []"
  by (subst show_nat.simps) simp

lemma digit_not_space: "c_isdigit c \<Longrightarrow> \<not> c_isspace c \<and> c \<noteq> CHR ''-'' \<and> c \<noteq> CHR ''+''"
  by (auto simp: c_isdigit_def c_isspace_def)

lemma strtoull10_show:
  assumes "n < 2 ^ 64"
  shows "strtoull10 (show_nat n @ replicate k CHR '' '') = (of_nat n, length (show_nat n))"
proof -
  let ?s = "show_nat n"
  have d: "\<And>c. c \<in> set ?s \<Longrightarrow> c_isdigit c" by (rule show_nat_digits)
  then have h: "c_isdigit (hd ?s)" using hd_in_set [of ?s] by simp
  have "hd (?s @ replicate k CHR '' '') = hd ?s" by simp
  then have sp: "takeWhile c_isspace (?s @ replicate k CHR '' '') = []"
    using digit_not_space [OF h] by (cases ?s) auto
  have dg: "takeWhile c_isdigit (?s @ replicate k CHR '' '') = ?s"
    using d by (subst takeWhile_append2) (auto simp: c_isdigit_def takeWhile_eq_Nil_iff hd_replicate)
  have "hd ?s \<noteq> CHR ''-''" "hd ?s \<noteq> CHR ''+''" using digit_not_space [OF h] by auto
  then show ?thesis using assms by (simp add: strtoull10_def Let_def sp dg digits_value_show)
qed

lemma length_pad: "length s \<le> n \<Longrightarrow> length (pad n s) = n"
  by (simp add: pad_def)

lemma parse_member_size:
  assumes "n < 10 ^ 10" "length header = 48"
  shows "import_library_parse_archive_member_size (header @ pad 10 (show_nat n) @ rest) = Inr n"
proof -
  have l: "length (show_nat n) \<le> 10" using length_show_nat [of n 10] assms(1) by simp
  have "take 10 (drop 48 (header @ pad 10 (show_nat n) @ rest)) = pad 10 (show_nat n)"
    using assms(2) length_pad [OF l] by simp
  moreover have "map byte_char (pad 10 (show_nat n)) = show_nat n @ replicate (10 - length (show_nat n)) CHR '' ''"
    by (simp add: pad_def comp_def)
  moreover have "CHR 0x00 \<notin> set (show_nat n @ replicate (10 - length (show_nat n)) CHR '' '')"
    using show_nat_digits [of "CHR 0x00" n] by (auto simp: c_isdigit_def)
  ultimately have t: "c_string (map byte_char (take 10 (drop 48 (header @ pad 10 (show_nat n) @ rest)))) =
      show_nat n @ replicate (10 - length (show_nat n)) CHR '' ''" by simp
  have n: "n < 2 ^ 64" using assms(1) by simp
  have "c_isspace CHR '' ''" by (simp add: c_isspace_def)
  then show ?thesis
    using n unfolding import_library_parse_archive_member_size_def Let_def t strtoull10_show [OF n]
    by (simp add: unat_of_nat)
qed

lemma length_words [simp]: "length (bytes_u16 v) = 2" "length (bytes_u32 w) = 4"
  by (simp_all add: bytes_u16_def bytes_u32_def)

lemma drop_field: "length xs = n \<Longrightarrow> drop n (xs @ ys) = ys" by simp

lemma terminated_name_read:
  assumes "CHR 0x00 \<notin> set s"
  shows "terminated_name (map char_byte s @ 0 # rest) = Some (s, rest)"
proof -
  have "takeWhile (\<lambda>b. b \<noteq> 0) (map char_byte s @ 0 # rest) = map char_byte s"
    using assms by (subst takeWhile_append2) auto
  then show ?thesis by (simp add: terminated_name_def comp_def)
qed

lemma type_info_fields:
  assumes "t < (4 :: u16)" "k < 8"
  shows "(push_bit 2 k OR t) AND 3 = t" "drop_bit 2 (push_bit 2 k OR t) AND 7 = k"
proof -
  have t: "t AND mask 2 = t" using less_mask_eq [of t 2] assms(1) by simp
  have k: "k AND mask 3 = k" using less_mask_eq [of k 3] assms(2) by simp
  have bt: "bit t n \<Longrightarrow> n < 2" and bk: "bit k n \<Longrightarrow> n < 3" for n
    using arg_cong [OF t, of "\<lambda>x. bit x n"] arg_cong [OF k, of "\<lambda>x. bit x n"] by (auto simp: bit_and_iff bit_mask_iff)
  have m: "(3 :: u16) = mask 2" "(7 :: u16) = mask 3" by (simp_all add: mask_numeral)
  show "(push_bit 2 k OR t) AND 3 = t" unfolding m
    by (rule bit_eqI) (auto simp: bit_or_iff bit_and_iff bit_mask_iff bit_push_bit_iff dest: bt)
  show "drop_bit 2 (push_bit 2 k OR t) AND 7 = k" unfolding m
    by (rule bit_eqI) (auto simp: bit_or_iff bit_and_iff bit_mask_iff bit_push_bit_iff bit_drop_bit_eq dest: bt bk)
qed

lemma import_member_read:
  assumes ok: "import_symbol_ok s" and name: "\<not> import_library_member_name_is_special name"
  shows "import_member library name (import_object s) = Inr (library\<lparr>il_symbols := il_symbols library @ [s]\<rparr>)"
proof -
  let ?i = "push_bit 2 (ils_name_type s) OR ils_import_type s"
  let ?n = "of_nat (length (ils_symbol_name s) + length (ils_dll_name s) + 2) :: u32"
  have parts: "drop 2 (import_object s) = bytes_u16 0xFFFF @ drop 4 (import_object s)"
    "drop 6 (import_object s) = bytes_u16 COFF_MACHINE_AMD64 @ drop 8 (import_object s)"
    "drop 16 (import_object s) = bytes_u16 (ils_ordinal_or_hint s) @ drop 18 (import_object s)"
    "drop 18 (import_object s) = bytes_u16 ?i @ drop 20 (import_object s)"
    "drop 20 (import_object s) = map char_byte (ils_symbol_name s) @ 0 # map char_byte (ils_dll_name s) @ [0]"
    "import_object s = bytes_u16 0 @ drop 2 (import_object s)"
    by (simp_all add: import_object_def)
  have len: "20 \<le> length (import_object s)" by (simp add: import_object_def)
  have strings: "import_library_parse_strings (import_object s) = Inr (ils_symbol_name s, ils_dll_name s)"
    using ok len by (simp add: import_library_parse_strings_def IMPORT_OBJECT_HEADER_SIZE_def parts(5) import_symbol_ok_def
        terminated_name_read)
  obtain header where header: "import_library_parse_import_header (import_object s) = Some header"
    "ioh_sig1 header = 0" "ioh_sig2 header = 0xFFFF" "ioh_machine header = COFF_MACHINE_AMD64"
    "ioh_ordinal_or_hint header = ils_ordinal_or_hint s" "ioh_type_info header = ?i"
  proof
    have "linker_read_u16 (import_object s) = 0" using read_bytes_u16 parts(6) by metis
    then show "ioh_sig1 (the (import_library_parse_import_header (import_object s))) = 0"
      using len by (simp add: import_library_parse_import_header_def IMPORT_OBJECT_HEADER_SIZE_def)
  qed (use len parts(1-4) in \<open>simp_all add: import_library_parse_import_header_def IMPORT_OBJECT_HEADER_SIZE_def read_bytes_u16\<close>)
  show ?thesis
    using ok name header strings type_info_fields [of "ils_import_type s" "ils_name_type s"]
    by (simp add: import_member_def import_library_append_symbol_def Let_def import_symbol_ok_def)
qed

lemma import_members_one:
  assumes "offset + 60 \<le> length data" "read_bytes data offset 60 = Inr h" "h ! 58 = 0x60" "h ! 59 = 0x0A"
    "import_library_parse_archive_member_size h = Inr n" "\<not> length data - (offset + 60) < n"
    "read_bytes data (offset + 60) n = Inr d"
    "\<And>name. \<not> import_library_member_name_is_special name \<Longrightarrow> import_member library name d = Inr library'"
  shows "import_members data offset library = import_members data (offset + 60 + n + n mod 2) library'"
  by (subst import_members.simps)
    (simp add: IMPORT_ARCHIVE_MEMBER_HEADER_SIZE_def assms(1-7) assms(8) [OF trimmed_name_not_special])

lemma import_members_step:
  assumes ok: "import_symbol_ok s" and name: "length name \<le> 16"
  shows "import_members (pre @ archive_member name (import_object s) @ rest) (length pre) library =
    import_members (pre @ archive_member name (import_object s) @ rest)
      (length (pre @ archive_member name (import_object s))) (library\<lparr>il_symbols := il_symbols library @ [s]\<rparr>)"
proof -
  let ?d = "import_object s" and ?m = "archive_member name (import_object s)"
  let ?head = "pad 16 name @ replicate 32 0x20" and ?size = "pad 10 (show_nat (length (import_object s)))"
  let ?data = "pre @ ?m @ rest"
  have n: "length ?d < 10 ^ 10" using ok by (simp add: import_symbol_ok_def)
  have l: "length (show_nat (length ?d)) \<le> 10" using length_show_nat [of "length ?d" 10] n by simp
  have lengths: "length ?head = 48" "length ?size = 10" using length_pad [OF name] length_pad [OF l] by simp_all
  have m: "?m = (?head @ ?size @ [0x60, 0x0A]) @ ?d @ replicate (length ?d mod 2) 0x0A"
    by (simp add: archive_member_def)
  let ?header = "?head @ ?size @ [0x60, 0x0A]"
  have h60: "length ?header = 60" using lengths by simp
  have header: "read_bytes ?data (length pre) 60 = Inr ?header"
    unfolding m using h60 by (simp add: read_bytes_def)
  have data: "read_bytes ?data (length pre + 60) (length ?d) = Inr ?d"
    unfolding m using h60 by (simp add: read_bytes_def)
  have nth: "?header ! 58 = 0x60" "?header ! 59 = 0x0A"
    using lengths by (simp_all add: nth_append)
  have size: "import_library_parse_archive_member_size ?header = Inr (length ?d)"
    using parse_member_size [OF n lengths(1), of "[0x60, 0x0A]"] by simp
  have room: "length pre + 60 \<le> length ?data" "\<not> length ?data - (length pre + 60) < length ?d"
    unfolding m using h60 by simp_all
  have total: "length (pre @ ?m) = length pre + 60 + length ?d + length ?d mod 2"
    unfolding m using h60 by simp
  show ?thesis
    unfolding total
    by (rule import_members_one [OF room(1) header nth size room(2) data import_member_read [OF ok]])
qed

lemma import_members_read:
  assumes "\<forall>(name, s) \<in> set members. length name \<le> 16 \<and> import_symbol_ok s"
  shows "import_members (pre @ concat (map (\<lambda>(name, s). archive_member name (import_object s)) members)) (length pre) library =
    Inr (library\<lparr>il_symbols := il_symbols library @ map snd members\<rparr>)"
  using assms
proof (induction members arbitrary: pre library)
  case Nil
  then show ?case by (subst import_members.simps) (simp add: IMPORT_ARCHIVE_MEMBER_HEADER_SIZE_def)
next
  case (Cons member members)
  obtain name s where member: "member = (name, s)" by force
  let ?m = "archive_member name (import_object s)"
  from Cons.prems member have ok: "import_symbol_ok s" "length name \<le> 16" by auto
  show ?case
    using import_members_step [OF ok, of pre "concat (map (\<lambda>(name, s). archive_member name (import_object s)) members)" library]
      Cons.IH [of "pre @ ?m" "library\<lparr>il_symbols := il_symbols library @ [s]\<rparr>"] Cons.prems
    by (simp add: member)
qed

text \<open>(C38) Import libraries round-trip. Any archive of import objects (one member per symbol, with a name of at most
  16 characters, padded to even length) is read back as exactly the list of its imports: symbol and DLL names,
  hints or ordinals, and the import and name types packed into the type field.\<close>

theorem import_library_roundtrip:
  assumes "members \<noteq> []" "\<forall>(name, s) \<in> set members. length name \<le> 16 \<and> import_symbol_ok s"
    and "read_file path = Some (archive members)"
  shows "import_library_read read_file path = Inr \<lparr>il_path = path, il_symbols = map snd members\<rparr>"
proof -
  have "take 8 (archive members) = archive_signature" "8 \<le> length (archive members)" "length archive_signature = 8"
    by (simp_all add: archive_def archive_signature_def)
  moreover have "import_members (archive members) 8 \<lparr>il_path = path, il_symbols = []\<rparr> =
      Inr \<lparr>il_path = path, il_symbols = map snd members\<rparr>"
    using import_members_read [OF assms(2), of archive_signature "\<lparr>il_path = path, il_symbols = []\<rparr>"] \<open>length archive_signature = 8\<close>
    by (simp add: archive_def)
  ultimately show ?thesis using assms(1,3) by (simp add: import_library_read_def)
qed

definition sample_import :: ImportLibrarySymbol where
  "sample_import = \<lparr>ils_symbol_name = ''ExitProcess'', ils_dll_name = ''KERNEL32.dll'', ils_machine = COFF_MACHINE_AMD64,
     ils_ordinal_or_hint = 5, ils_import_type = 0, ils_name_type = 1, ils_is_ordinal = False\<rparr>"

theorem import_library_roundtrip_witness:
  "import_library_read (\<lambda>_. Some (archive [(''KERNEL32.dll/'', sample_import)])) ''kernel32.lib'' =
     Inr \<lparr>il_path = ''kernel32.lib'', il_symbols = [sample_import]\<rparr>"
proof -
  have "\<forall>(name, s) \<in> set [(''KERNEL32.dll/'', sample_import)]. length name \<le> 16 \<and> import_symbol_ok s"
    by (simp add: sample_import_def import_symbol_ok_def import_object_def IMPORT_OBJECT_NAME_TYPE_ORDINAL_def)
  from import_library_roundtrip [OF _ this, of "\<lambda>_. Some (archive [(''KERNEL32.dll/'', sample_import)])"]
  show ?thesis by simp
qed


end
