(* ===== verification/Pe_Emitter.thy ===== *)
theory Pe_Emitter
  imports Relocation Import_Lib Coff_Writer
begin

text \<open>
  The image writer, \<^verbatim>\<open>src/src/linker/pe_emitter.c\<close>: it binds the symbols the objects left undefined to imports, adds
  the import tables to the merged sections, lays the sections out in the image, has the relocations applied and
  writes headers and section contents. A file is the list of its bytes; opening and writing it succeed. Offsets
  in the image are 32-bit words, as in the source. A write outside the bytes of a section is a \<open>Fault\<close>.
\<close>

section \<open>Data\<close>

definition PE_SIGNATURE :: u32 where "PE_SIGNATURE = 0x00004550"
definition PE_SECTION_INDEX_TEXT :: nat where "PE_SECTION_INDEX_TEXT = 0"
definition PE_SECTION_INDEX_RDATA :: nat where "PE_SECTION_INDEX_RDATA = 1"
definition PE_SECTION_INDEX_PDATA :: nat where "PE_SECTION_INDEX_PDATA = 4"
definition PE_IMPORT_DESCRIPTOR_SIZE :: nat where "PE_IMPORT_DESCRIPTOR_SIZE = 20"
definition PE_IMPORT_THUNK_SIZE :: nat where "PE_IMPORT_THUNK_SIZE = 8"
definition PE_IMPORT_JUMP_STUB_SIZE :: nat where "PE_IMPORT_JUMP_STUB_SIZE = 6"

lemmas pe_indices [simp] = PE_SECTION_INDEX_TEXT_def PE_SECTION_INDEX_RDATA_def PE_SECTION_INDEX_PDATA_def
lemmas pe_sizes [simp] = PE_IMPORT_DESCRIPTOR_SIZE_def PE_IMPORT_THUNK_SIZE_def PE_IMPORT_JUMP_STUB_SIZE_def

text \<open>The field \<open>source\<close> points to the merged section with the stored index; only its kind is kept.\<close>

record PeSectionLayout =
  psl_merged_section_index :: nat
  psl_name :: string
  psl_kind :: CoffSectionKind
  psl_characteristics :: u32
  psl_virtual_address :: u32
  psl_virtual_size :: u32
  psl_raw_offset :: u32
  psl_raw_size :: u32

record PeImportDll =
  pid_dll_name :: string
  pid_symbol_count :: nat
  pid_ilt_offset :: nat
  pid_name_offset :: nat
  pid_iat_offset :: nat

record PeImportSymbol =
  pis_canonical_name :: string
  pis_dll_name :: string
  pis_dll_index :: nat
  pis_dll_slot_index :: nat
  pis_ordinal_or_hint :: u16
  pis_import_type :: u16
  pis_name_type :: u16
  pis_is_ordinal :: bool
  pis_needs_thunk :: bool
  pis_needs_iat_symbol :: bool
  pis_thunk_offset :: nat
  pis_hint_name_offset :: nat
  pis_iat_offset :: nat

record PeImportPlan =
  pip_dlls :: "PeImportDll list"
  pip_symbols :: "PeImportSymbol list"
  pip_descriptor_table_offset :: nat
  pip_import_directory_rva :: u32
  pip_import_directory_size :: u32
  pip_iat_rva :: u32
  pip_iat_size :: u32
  pip_has_imports :: bool

record PeEmissionOptions =
  peo_image_base :: u64
  peo_section_alignment :: u32
  peo_file_alignment :: u32
  peo_subsystem :: u16
  peo_import_library_paths :: "string list"
  peo_import_dll_names :: "string list"

section \<open>Growing a section\<close>

definition pe_section_align :: "LinkedSection \<Rightarrow> nat \<Rightarrow> LinkedSection" where
  "pe_section_align section alignment =
     (let aligned_size = linker_align_up (length (ls_data section)) alignment
      in if alignment \<le> 1 \<or> aligned_size = length (ls_data section) then section
         else section\<lparr>ls_data := ls_data section @ replicate (aligned_size - length (ls_data section)) 0,
                ls_virtual_size := max (ls_virtual_size section) aligned_size\<rparr>)"

definition pe_section_append_bytes :: "LinkedSection \<Rightarrow> bytes \<Rightarrow> LinkedSection \<times> nat" where
  "pe_section_append_bytes section data =
     (section\<lparr>ls_data := ls_data section @ data,
        ls_virtual_size := max (ls_virtual_size section) (length (ls_data section) + length data)\<rparr>,
      length (ls_data section))"

definition pe_section_append_zeros :: "LinkedSection \<Rightarrow> nat \<Rightarrow> LinkedSection \<times> nat" where
  "pe_section_append_zeros section count = pe_section_append_bytes section (replicate count 0)"

section \<open>Laying the sections out\<close>

fun pe_characteristics_for_kind :: "CoffSectionKind \<Rightarrow> u32" where
  "pe_characteristics_for_kind COFF_SECTION_KIND_TEXT = 0x00000020 OR 0x20000000 OR 0x40000000"
| "pe_characteristics_for_kind COFF_SECTION_KIND_RDATA = 0x00000040 OR 0x40000000"
| "pe_characteristics_for_kind COFF_SECTION_KIND_DATA = 0x00000040 OR 0x40000000 OR 0x80000000"
| "pe_characteristics_for_kind COFF_SECTION_KIND_BSS = 0x00000080 OR 0x40000000 OR 0x80000000"
| "pe_characteristics_for_kind COFF_SECTION_KIND_PDATA = 0x00000040 OR 0x40000000"
| "pe_characteristics_for_kind COFF_SECTION_KIND_XDATA = 0x00000040 OR 0x40000000"
| "pe_characteristics_for_kind COFF_SECTION_KIND_UNKNOWN = 0x40000000"

definition collect_section :: "nat \<Rightarrow> LinkedSection \<Rightarrow> PeSectionLayout" where
  "collect_section section_index section =
     \<lparr>psl_merged_section_index = section_index, psl_name = ls_name section, psl_kind = ls_kind section,
      psl_characteristics = pe_characteristics_for_kind (ls_kind section), psl_virtual_address = 0,
      psl_virtual_size = of_nat (ls_virtual_size section), psl_raw_offset = 0,
      psl_raw_size = (if ls_kind section = COFF_SECTION_KIND_BSS then 0 else of_nat (length (ls_data section)))\<rparr>"

fun collect_sections :: "nat \<Rightarrow> LinkedSection list \<Rightarrow> PeSectionLayout list linked" where
  "collect_sections section_index [] = Inr []"
| "collect_sections section_index (section # sections) =
     (if ls_virtual_size section = 0 then collect_sections (section_index + 1) sections
      else if ls_kind section \<noteq> COFF_SECTION_KIND_BSS \<and> length (ls_data section) > 0xFFFFFFFF
      then reject ''Section exceeds PE raw-size limits''
      else if ls_virtual_size section > 0xFFFFFFFF then reject ''Section exceeds PE virtual-size limits''
      else and_then (collect_sections (section_index + 1) sections) (\<lambda>layouts.
        Inr (collect_section section_index section # layouts)))"

definition pe_collect_sections :: "LinkResolution \<Rightarrow> PeSectionLayout list linked" where
  "pe_collect_sections resolution =
     and_then (collect_sections 0 (lr_sections resolution)) (\<lambda>layouts.
       if layouts = [] then reject ''No merged sections are available to emit'' else Inr layouts)"

text \<open>\<open>(uint32_t)linker_align_up(value, alignment)\<close>.\<close>

definition align_u32 :: "u32 \<Rightarrow> u32 \<Rightarrow> u32" where
  "align_u32 value alignment = of_nat (linker_align_up (unat value) (unat alignment))"

record PeLayoutTotals =
  plt_current_rva :: u32
  plt_current_raw :: u32
  plt_size_of_code :: u32
  plt_size_of_init_data :: u32
  plt_size_of_uninit_data :: u32
  plt_base_of_code :: u32

text \<open>The body of the loop of \<open>pe_layout_sections\<close>.\<close>

definition count_section :: "PeSectionLayout \<Rightarrow> PeLayoutTotals \<Rightarrow> PeLayoutTotals" where
  "count_section layout t =
     (case psl_kind layout of
        COFF_SECTION_KIND_TEXT \<Rightarrow> t\<lparr>plt_size_of_code := plt_size_of_code t + psl_raw_size layout,
          plt_base_of_code := (if plt_base_of_code t = 0 then psl_virtual_address layout else plt_base_of_code t)\<rparr>
      | COFF_SECTION_KIND_BSS \<Rightarrow>
          t\<lparr>plt_size_of_uninit_data := plt_size_of_uninit_data t + psl_virtual_size layout\<rparr>
      | COFF_SECTION_KIND_UNKNOWN \<Rightarrow> t
      | _ \<Rightarrow> t\<lparr>plt_size_of_init_data := plt_size_of_init_data t + psl_raw_size layout\<rparr>)"

definition layout_section ::
  "u32 \<Rightarrow> u32 \<Rightarrow> PeSectionLayout \<Rightarrow> PeLayoutTotals \<Rightarrow> PeSectionLayout \<times> PeLayoutTotals" where
  "layout_section section_alignment file_alignment layout t =
     (let layout = layout\<lparr>psl_virtual_address := plt_current_rva t,
            psl_raw_offset := (if psl_raw_size layout = 0 then 0 else plt_current_raw t),
            psl_raw_size := (if psl_raw_size layout = 0 then 0 else align_u32 (psl_raw_size layout) file_alignment)\<rparr>;
          t = t\<lparr>plt_current_rva := plt_current_rva t + align_u32 (psl_virtual_size layout) section_alignment,
            plt_current_raw := plt_current_raw t + psl_raw_size layout\<rparr>
      in (layout, count_section layout t))"

fun layout_sections ::
  "u32 \<Rightarrow> u32 \<Rightarrow> PeSectionLayout list \<Rightarrow> PeLayoutTotals \<Rightarrow> PeSectionLayout list \<times> PeLayoutTotals" where
  "layout_sections section_alignment file_alignment [] t = ([], t)"
| "layout_sections section_alignment file_alignment (layout # layouts) t =
     (let (layout, t) = layout_section section_alignment file_alignment layout t;
          (layouts, t) = layout_sections section_alignment file_alignment layouts t
      in (layout # layouts, t))"

text \<open>The laid-out sections, \<open>size_of_image\<close> and the other totals.\<close>

definition pe_layout_sections ::
  "PeSectionLayout list \<Rightarrow> u32 \<Rightarrow> u32 \<Rightarrow> u32 \<Rightarrow> PeSectionLayout list \<times> u32 \<times> PeLayoutTotals" where
  "pe_layout_sections layouts section_alignment file_alignment size_of_headers =
     (let (layouts, t) = layout_sections section_alignment file_alignment layouts
            \<lparr>plt_current_rva = align_u32 size_of_headers section_alignment,
             plt_current_raw = align_u32 size_of_headers file_alignment,
             plt_size_of_code = 0, plt_size_of_init_data = 0, plt_size_of_uninit_data = 0, plt_base_of_code = 0\<rparr>
      in (layouts, align_u32 (plt_current_rva t) section_alignment, t))"

definition place_layout :: "u64 \<Rightarrow> PeSectionLayout \<Rightarrow> LinkedSection list \<Rightarrow> LinkedSection list" where
  "place_layout image_base layout sections =
     sections[psl_merged_section_index layout :=
       (sections ! psl_merged_section_index layout)\<lparr>ls_virtual_address := image_base + ucast (psl_virtual_address layout)\<rparr>]"

definition pe_apply_layout_to_resolution :: "LinkResolution \<Rightarrow> PeSectionLayout list \<Rightarrow> u64 \<Rightarrow> LinkResolution" where
  "pe_apply_layout_to_resolution resolution layouts image_base =
     (let sections = fold (place_layout image_base) layouts
            (map (\<lambda>section. section\<lparr>ls_virtual_address := 0\<rparr>) (lr_sections resolution))
      in resolution\<lparr>lr_sections := sections,
           lr_objects := map (\<lambda>input. input\<lparr>li_symbols := map (place_object_symbol sections) (li_symbols input)\<rparr>)
             (lr_objects resolution),
           lr_symbols := map (place_global_symbol sections) (lr_symbols resolution)\<rparr>)"

definition pe_find_layout :: "PeSectionLayout list \<Rightarrow> nat \<Rightarrow> PeSectionLayout option" where
  "pe_find_layout layouts k = List.find (\<lambda>l. psl_merged_section_index l = k) layouts"

section \<open>Finding the imports\<close>

definition pe_text_ends_with_ignore_case :: "string \<Rightarrow> string \<Rightarrow> bool" where
  "pe_text_ends_with_ignore_case text ending \<longleftrightarrow>
     length ending \<le> length text \<and> c_strcaseeq (drop (length text - length ending) text) ending"

definition pe_normalize_dll_name :: "string \<Rightarrow> string" where
  "pe_normalize_dll_name dll_name =
     (if pe_text_ends_with_ignore_case dll_name ''.dll'' then dll_name else dll_name @ ''.dll'')"

definition PE_IMP_PREFIX :: string where "PE_IMP_PREFIX = ''__imp_''"

definition pe_is_imp_symbol_name :: "string \<Rightarrow> bool" where
  "pe_is_imp_symbol_name sym_name \<longleftrightarrow> take 6 sym_name = PE_IMP_PREFIX"

definition import_name :: "string \<Rightarrow> string" where
  "import_name sym_name = (if pe_is_imp_symbol_name sym_name then drop 6 sym_name else sym_name)"

fun pe_find_import_symbol :: "ImportLibrary list \<Rightarrow> string \<Rightarrow> ImportLibrarySymbol option" where
  "pe_find_import_symbol [] canonical_name = None"
| "pe_find_import_symbol (library # libraries) canonical_name =
     (case import_library_find_symbol library canonical_name of
        Some symbol \<Rightarrow> Some symbol
      | None \<Rightarrow> pe_find_import_symbol libraries canonical_name)"

definition pe_load_import_libraries :: "(string \<Rightarrow> bytes option) \<Rightarrow> string list \<Rightarrow> ImportLibrary list linked" where
  "pe_load_import_libraries read_file paths =
     map_linked (\<lambda>path. if path = [] then reject ''An import library path was empty''
                        else import_library_read read_file path) paths"

definition pe_import_library_append_symbol :: "ImportLibrary \<Rightarrow> string \<Rightarrow> string \<Rightarrow> ImportLibrary" where
  "pe_import_library_append_symbol library sym_name dll_name =
     library\<lparr>il_symbols := il_symbols library @
       [\<lparr>ils_symbol_name = sym_name, ils_dll_name = dll_name, ils_machine = COFF_MACHINE_AMD64,
         ils_ordinal_or_hint = 0, ils_import_type = IMPORT_OBJECT_TYPE_CODE,
         ils_name_type = IMPORT_OBJECT_NAME_TYPE_NAME, ils_is_ordinal = False\<rparr>]\<rparr>"

text \<open>On Windows the exports of a DLL are probed with \<open>LoadLibraryA\<close> and \<open>GetProcAddress\<close>: \<open>exports\<close> gives, for a DLL
  that loads, the test for an has_export name. Elsewhere (\<open>None\<close>) asking for a DLL is an error.\<close>

definition probe_symbol ::
  "ImportLibrary list \<Rightarrow> (string \<Rightarrow> bool) \<Rightarrow> string \<Rightarrow> LinkedSymbol \<Rightarrow> ImportLibrary \<Rightarrow> ImportLibrary" where
  "probe_symbol libraries has_export dll_name symbol library =
     (let canonical_name = import_name (lsym_name symbol)
      in if \<not> lsym_is_external symbol \<or> lsym_is_defined symbol then library
         else if pe_find_import_symbol libraries canonical_name \<noteq> None \<or>
                 import_library_find_symbol library canonical_name \<noteq> None then library
         else if has_export canonical_name then pe_import_library_append_symbol library canonical_name dll_name
         else library)"

fun probe_dlls ::
  "(string \<Rightarrow> (string \<Rightarrow> bool) option) \<Rightarrow> LinkedSymbol list \<Rightarrow> string list \<Rightarrow> ImportLibrary list \<Rightarrow> ImportLibrary list" where
  "probe_dlls exports symbols [] libraries = libraries"
| "probe_dlls exports symbols (dll_name # dll_names) libraries =
     (if dll_name = [] then probe_dlls exports symbols dll_names libraries
      else case exports (pe_normalize_dll_name dll_name) of
        None \<Rightarrow> probe_dlls exports symbols dll_names libraries
      | Some has_export \<Rightarrow>
          (let normalized = pe_normalize_dll_name dll_name;
               library = fold (probe_symbol libraries has_export normalized) symbols
                 \<lparr>il_path = normalized, il_symbols = []\<rparr>
           in probe_dlls exports symbols dll_names
                (if il_symbols library = [] then libraries else libraries @ [library])))"

definition pe_append_imports_from_dlls ::
  "(string \<Rightarrow> (string \<Rightarrow> bool) option) option \<Rightarrow> LinkResolution \<Rightarrow> string list \<Rightarrow> ImportLibrary list \<Rightarrow>
   ImportLibrary list linked" where
  "pe_append_imports_from_dlls exports resolution dll_names libraries =
     (case exports of
        Some exports \<Rightarrow> Inr (probe_dlls exports (lr_symbols resolution) dll_names libraries)
      | None \<Rightarrow> if dll_names \<noteq> [] then reject ''DLL export probing for PE imports requires Windows'' else Inr libraries)"

section \<open>The import plan\<close>

definition empty_import_plan :: PeImportPlan where
  "empty_import_plan = \<lparr>pip_dlls = [], pip_symbols = [], pip_descriptor_table_offset = 0, pip_import_directory_rva = 0,
     pip_import_directory_size = 0, pip_iat_rva = 0, pip_iat_size = 0, pip_has_imports = False\<rparr>"

definition pe_import_plan_find_dll :: "PeImportPlan \<Rightarrow> string \<Rightarrow> nat option" where
  "pe_import_plan_find_dll plan dll_name =
     List.find (\<lambda>i. pid_dll_name (pip_dlls plan ! i) = dll_name) [0 ..< length (pip_dlls plan)]"

definition pe_import_plan_find_symbol :: "PeImportPlan \<Rightarrow> string \<Rightarrow> string \<Rightarrow> nat option" where
  "pe_import_plan_find_symbol plan canonical_name dll_name =
     List.find (\<lambda>i. pis_canonical_name (pip_symbols plan ! i) = canonical_name \<and>
       pis_dll_name (pip_symbols plan ! i) = dll_name) [0 ..< length (pip_symbols plan)]"

definition fresh_dll :: "string \<Rightarrow> PeImportDll" where
  "fresh_dll dll_name = \<lparr>pid_dll_name = dll_name, pid_symbol_count = 0, pid_ilt_offset = 0, pid_name_offset = 0, pid_iat_offset = 0\<rparr>"

definition fresh_import :: "ImportLibrarySymbol \<Rightarrow> string \<Rightarrow> nat \<Rightarrow> nat \<Rightarrow> PeImportSymbol" where
  "fresh_import library_symbol canonical_name dll_index slot_index =
     \<lparr>pis_canonical_name = canonical_name, pis_dll_name = ils_dll_name library_symbol, pis_dll_index = dll_index,
      pis_dll_slot_index = slot_index, pis_ordinal_or_hint = ils_ordinal_or_hint library_symbol,
      pis_import_type = ils_import_type library_symbol, pis_name_type = ils_name_type library_symbol,
      pis_is_ordinal = ils_is_ordinal library_symbol, pis_needs_thunk = False, pis_needs_iat_symbol = False,
      pis_thunk_offset = 0, pis_hint_name_offset = 0, pis_iat_offset = 0\<rparr>"

text \<open>The entry of the DLL, appended when it is missing.\<close>

definition bind_dll :: "string \<Rightarrow> PeImportPlan \<Rightarrow> PeImportPlan \<times> nat" where
  "bind_dll dll_name plan =
     (case pe_import_plan_find_dll plan dll_name of
        Some dll_index \<Rightarrow> (plan, dll_index)
      | None \<Rightarrow> (plan\<lparr>pip_dlls := pip_dlls plan @ [fresh_dll dll_name]\<rparr>, length (pip_dlls plan)))"

text \<open>The entry of the symbol, appended with the next slot of its DLL when it is missing.\<close>

definition bind_slot :: "ImportLibrarySymbol \<Rightarrow> string \<Rightarrow> nat \<Rightarrow> PeImportPlan \<Rightarrow> PeImportPlan \<times> nat" where
  "bind_slot library_symbol canonical_name dll_index plan =
     (case pe_import_plan_find_symbol plan canonical_name (ils_dll_name library_symbol) of
        Some symbol_index \<Rightarrow> (plan, symbol_index)
      | None \<Rightarrow>
          (let dll = pip_dlls plan ! dll_index
           in (plan\<lparr>pip_dlls := (pip_dlls plan)[dll_index := dll\<lparr>pid_symbol_count := pid_symbol_count dll + 1\<rparr>],
                 pip_symbols := pip_symbols plan @ [fresh_import library_symbol canonical_name dll_index (pid_symbol_count dll)]\<rparr>,
               length (pip_symbols plan))))"

definition pe_bind_import_symbol ::
  "PeImportPlan \<Rightarrow> ImportLibrarySymbol \<Rightarrow> string \<Rightarrow> bool \<Rightarrow> PeImportPlan linked" where
  "pe_bind_import_symbol plan library_symbol canonical_name needs_iat_symbol =
     (if \<not> needs_iat_symbol \<and> ils_import_type library_symbol \<noteq> IMPORT_OBJECT_TYPE_CODE
      then reject ''Direct imported data symbol is not supported''
      else let (plan, dll_index) = bind_dll (ils_dll_name library_symbol) plan;
               (plan, symbol_index) = bind_slot library_symbol canonical_name dll_index plan;
               symbol = pip_symbols plan ! symbol_index;
               symbol = (if needs_iat_symbol then symbol\<lparr>pis_needs_iat_symbol := True\<rparr> else symbol\<lparr>pis_needs_thunk := True\<rparr>)
           in Inr (plan\<lparr>pip_symbols := (pip_symbols plan)[symbol_index := symbol], pip_has_imports := True\<rparr>))"

fun build_import_plan :: "ImportLibrary list \<Rightarrow> LinkedSymbol list \<Rightarrow> PeImportPlan \<Rightarrow> PeImportPlan linked" where
  "build_import_plan libraries [] plan = Inr plan"
| "build_import_plan libraries (symbol # symbols) plan =
     (if \<not> lsym_is_external symbol \<or> lsym_is_defined symbol then build_import_plan libraries symbols plan
      else case pe_find_import_symbol libraries (import_name (lsym_name symbol)) of
        None \<Rightarrow> build_import_plan libraries symbols plan
      | Some library_symbol \<Rightarrow>
          and_then (pe_bind_import_symbol plan library_symbol (import_name (lsym_name symbol))
                      (pe_is_imp_symbol_name (lsym_name symbol)))
            (build_import_plan libraries symbols))"

definition pe_build_import_plan :: "LinkResolution \<Rightarrow> ImportLibrary list \<Rightarrow> PeImportPlan linked" where
  "pe_build_import_plan resolution libraries = build_import_plan libraries (lr_symbols resolution) empty_import_plan"

section \<open>Storage for the imports\<close>

definition c_bytes :: "string \<Rightarrow> bytes" where
  "c_bytes str = map char_byte str @ [0]"

definition pe_append_import_hint_name :: "LinkedSection \<Rightarrow> PeImportSymbol \<Rightarrow> LinkedSection \<times> nat" where
  "pe_append_import_hint_name rdata symbol =
     (let rdata = pe_section_align rdata 2;
          (rdata, offset) = pe_section_append_bytes rdata (bytes_u16 (pis_ordinal_or_hint symbol));
          (rdata, _) = pe_section_append_bytes rdata (c_bytes (pis_canonical_name symbol))
      in (rdata, offset))"

text \<open>The loops that reserve storage, in the order of the source: lookup tables, hints and names, DLL names, and
  the address table.\<close>

fun reserve_ilt :: "PeImportDll list \<Rightarrow> LinkedSection \<Rightarrow> PeImportDll list \<times> LinkedSection" where
  "reserve_ilt [] rdata = ([], rdata)"
| "reserve_ilt (dll # dlls) rdata =
     (let (rdata, offset) = pe_section_append_zeros (pe_section_align rdata 8)
            ((pid_symbol_count dll + 1) * PE_IMPORT_THUNK_SIZE);
          (dlls, rdata) = reserve_ilt dlls rdata
      in (dll\<lparr>pid_ilt_offset := offset\<rparr> # dlls, rdata))"

fun reserve_hints :: "PeImportSymbol list \<Rightarrow> LinkedSection \<Rightarrow> PeImportSymbol list \<times> LinkedSection" where
  "reserve_hints [] rdata = ([], rdata)"
| "reserve_hints (symbol # symbols) rdata =
     (if pis_is_ordinal symbol
      then let (symbols, rdata) = reserve_hints symbols rdata in (symbol # symbols, rdata)
      else let (rdata, offset) = pe_append_import_hint_name rdata symbol;
               (symbols, rdata) = reserve_hints symbols rdata
           in (symbol\<lparr>pis_hint_name_offset := offset\<rparr> # symbols, rdata))"

fun reserve_dll_names :: "PeImportDll list \<Rightarrow> LinkedSection \<Rightarrow> PeImportDll list \<times> LinkedSection" where
  "reserve_dll_names [] rdata = ([], rdata)"
| "reserve_dll_names (dll # dlls) rdata =
     (let (rdata, offset) = pe_section_append_bytes rdata (c_bytes (pid_dll_name dll));
          (dlls, rdata) = reserve_dll_names dlls rdata
      in (dll\<lparr>pid_name_offset := offset\<rparr> # dlls, rdata))"

fun reserve_iat :: "PeImportDll list \<Rightarrow> LinkedSection \<Rightarrow> PeImportDll list \<times> LinkedSection" where
  "reserve_iat [] rdata = ([], rdata)"
| "reserve_iat (dll # dlls) rdata =
     (let (rdata, offset) = pe_section_append_zeros rdata ((pid_symbol_count dll + 1) * PE_IMPORT_THUNK_SIZE);
          (dlls, rdata) = reserve_iat dlls rdata
      in (dll\<lparr>pid_iat_offset := offset\<rparr> # dlls, rdata))"

text \<open>\<open>pe_find_symbol_mutable\<close> is the search of the symbol resolver; a symbol found is defined in place.\<close>

definition define_import :: "string \<Rightarrow> nat \<Rightarrow> nat \<Rightarrow> LinkedSymbol list \<Rightarrow> LinkedSymbol list" where
  "define_import name section_index offset symbols =
     (case link_resolution_find_symbol_mutable symbols name of
        None \<Rightarrow> symbols
      | Some i \<Rightarrow> symbols[i := (symbols ! i)\<lparr>lsym_is_defined := True, lsym_merged_section_index := Some section_index,
          lsym_merged_offset := offset\<rparr>])"

text \<open>The last loop of \<open>pe_emit_import_storage\<close>: the slot of the symbol, its thunk, and the symbols they define.\<close>

fun place_imports ::
  "PeImportDll list \<Rightarrow> PeImportSymbol list \<Rightarrow> LinkedSection \<Rightarrow> LinkedSymbol list \<Rightarrow>
   (PeImportSymbol list \<times> LinkedSection \<times> LinkedSymbol list) linked" where
  "place_imports dlls [] text globals = Inr ([], text, globals)"
| "place_imports dlls (symbol # symbols) text globals =
     (let iat_offset = pid_iat_offset (dlls ! pis_dll_index symbol) + pis_dll_slot_index symbol * PE_IMPORT_THUNK_SIZE;
          imp_name = PE_IMP_PREFIX @ pis_canonical_name symbol
      in if pis_needs_iat_symbol symbol \<and> length imp_name \<ge> 512 then reject ''Imported symbol name is too long''
         else let globals = (if pis_needs_iat_symbol symbol then define_import imp_name PE_SECTION_INDEX_RDATA iat_offset globals
                             else globals);
                  (text, thunk_offset) = (if pis_needs_thunk symbol
                    then pe_section_append_zeros (pe_section_align text 16) PE_IMPORT_JUMP_STUB_SIZE
                    else (text, pis_thunk_offset symbol));
                  globals = (if pis_needs_thunk symbol
                    then define_import (pis_canonical_name symbol) PE_SECTION_INDEX_TEXT thunk_offset globals else globals)
              in and_then (place_imports dlls symbols text globals) (\<lambda>(symbols, text, globals).
                Inr (symbol\<lparr>pis_iat_offset := iat_offset, pis_thunk_offset := thunk_offset\<rparr> # symbols, text, globals)))"

definition pe_emit_import_storage :: "LinkResolution \<Rightarrow> PeImportPlan \<Rightarrow> (LinkResolution \<times> PeImportPlan) linked" where
  "pe_emit_import_storage resolution plan =
     (if \<not> pip_has_imports plan then Inr (resolution, plan)
      else let text = lr_sections resolution ! PE_SECTION_INDEX_TEXT;
               rdata = lr_sections resolution ! PE_SECTION_INDEX_RDATA;
               (rdata, descriptor_table_offset) = pe_section_append_zeros (pe_section_align rdata 8)
                 ((length (pip_dlls plan) + 1) * PE_IMPORT_DESCRIPTOR_SIZE);
               (dlls, rdata) = reserve_ilt (pip_dlls plan) rdata;
               (symbols, rdata) = reserve_hints (pip_symbols plan) rdata;
               (dlls, rdata) = reserve_dll_names dlls rdata;
               (dlls, rdata) = reserve_iat dlls (pe_section_align rdata 8)
           in and_then (place_imports dlls symbols text (lr_symbols resolution)) (\<lambda>(symbols, text, globals).
              Inr (resolution\<lparr>lr_sections := (lr_sections resolution)[PE_SECTION_INDEX_TEXT := text, PE_SECTION_INDEX_RDATA := rdata],
                     lr_symbols := globals\<rparr>,
                   plan\<lparr>pip_dlls := dlls, pip_symbols := symbols, pip_descriptor_table_offset := descriptor_table_offset\<rparr>)))"

definition pe_validate_unresolved_externals :: "LinkResolution \<Rightarrow> unit linked" where
  "pe_validate_unresolved_externals resolution =
     (if \<exists>s \<in> set (lr_symbols resolution). lsym_is_external s \<and> \<not> lsym_is_defined s
      then reject ''Unresolved external symbol'' else Inr ())"

section \<open>Filling the import tables\<close>

text \<open>A write into the bytes of a section.\<close>

definition put_bytes :: "nat \<Rightarrow> bytes \<Rightarrow> bytes \<Rightarrow> bytes linked" where
  "put_bytes offset bs data =
     (if offset + length bs \<le> length data then Inr (write_bytes data offset bs) else Inl Fault)"

definition import_thunk_value :: "u32 \<Rightarrow> PeImportSymbol \<Rightarrow> u64" where
  "import_thunk_value rdata_rva symbol =
     (if \<not> pis_is_ordinal symbol then ucast (rdata_rva + of_nat (pis_hint_name_offset symbol))
      else 0x8000000000000000 OR ucast (pis_ordinal_or_hint symbol))"

text \<open>The body of the first loop of \<open>pe_finalize_imports\<close>, over the bytes of both sections.\<close>

definition finalize_symbol ::
  "PeImportDll list \<Rightarrow> u32 \<Rightarrow> u32 \<Rightarrow> u64 \<Rightarrow> PeImportSymbol \<Rightarrow> bytes \<times> bytes \<Rightarrow> (bytes \<times> bytes) linked" where
  "finalize_symbol dlls text_rva rdata_rva image_base symbol = (\<lambda>(text, rdata).
     if pis_dll_index symbol \<ge> length dlls then Inl Fault
     else let ilt_offset = pid_ilt_offset (dlls ! pis_dll_index symbol) + pis_dll_slot_index symbol * PE_IMPORT_THUNK_SIZE;
              value = import_thunk_value rdata_rva symbol
          in and_then (put_bytes ilt_offset (bytes_u64 value) rdata) (\<lambda>rdata.
             and_then (put_bytes (pis_iat_offset symbol) (bytes_u64 value) rdata) (\<lambda>rdata.
             if \<not> pis_needs_thunk symbol then Inr (text, rdata)
             else let thunk_va = ucast (text_rva + of_nat (pis_thunk_offset symbol)) + image_base;
                      iat_va = ucast (rdata_rva + of_nat (pis_iat_offset symbol)) + image_base;
                      displacement = iat_va - (thunk_va + 6) :: u64
                  in if sint displacement < - (2 ^ 31) \<or> sint displacement > 2 ^ 31 - 1
                     then reject ''Import thunk is out of range''
                     else and_then (put_bytes (pis_thunk_offset symbol) ([0xFF, 0x25] @ bytes_u32 (ucast displacement)) text)
                       (\<lambda>text. Inr (text, rdata)))))"

definition finalize_dll :: "nat \<Rightarrow> u32 \<Rightarrow> nat \<times> PeImportDll \<Rightarrow> bytes \<Rightarrow> bytes linked" where
  "finalize_dll descriptor_table_offset rdata_rva = (\<lambda>(i, dll) rdata.
     put_bytes (descriptor_table_offset + i * PE_IMPORT_DESCRIPTOR_SIZE)
       (bytes_u32 (rdata_rva + of_nat (pid_ilt_offset dll)) @ bytes_u32 0 @ bytes_u32 0 @
        bytes_u32 (rdata_rva + of_nat (pid_name_offset dll)) @ bytes_u32 (rdata_rva + of_nat (pid_iat_offset dll))) rdata)"

fun fold_linked :: "('a \<Rightarrow> 'b \<Rightarrow> 'b linked) \<Rightarrow> 'a list \<Rightarrow> 'b \<Rightarrow> 'b linked" where
  "fold_linked f [] b = Inr b"
| "fold_linked f (x # xs) b = and_then (f x b) (fold_linked f xs)"

definition iat_end :: "PeImportDll list \<Rightarrow> nat \<Rightarrow> nat" where
  "iat_end dlls iat_begin =
     fold (\<lambda>dll e. max e (pid_iat_offset dll + (pid_symbol_count dll + 1) * PE_IMPORT_THUNK_SIZE)) dlls iat_begin"

definition pe_finalize_imports ::
  "LinkResolution \<Rightarrow> PeImportPlan \<Rightarrow> PeSectionLayout list \<Rightarrow> u64 \<Rightarrow> (LinkResolution \<times> PeImportPlan) linked" where
  "pe_finalize_imports resolution plan layouts image_base =
     (if \<not> pip_has_imports plan then Inr (resolution, plan)
      else case (pe_find_layout layouts PE_SECTION_INDEX_TEXT, pe_find_layout layouts PE_SECTION_INDEX_RDATA, pip_dlls plan) of
        (Some text_layout, Some rdata_layout, first_dll # _) \<Rightarrow>
          (let text = lr_sections resolution ! PE_SECTION_INDEX_TEXT;
               rdata = lr_sections resolution ! PE_SECTION_INDEX_RDATA;
               text_rva = psl_virtual_address text_layout;
               rdata_rva = psl_virtual_address rdata_layout;
               dlls = pip_dlls plan;
               iat_begin = pid_iat_offset first_dll
           in and_then (fold_linked (finalize_symbol dlls text_rva rdata_rva image_base) (pip_symbols plan)
                          (ls_data text, ls_data rdata)) (\<lambda>(text_data, rdata_data).
              and_then (fold_linked (finalize_dll (pip_descriptor_table_offset plan) rdata_rva)
                          (zip [0 ..< length dlls] dlls) rdata_data) (\<lambda>rdata_data.
              Inr (resolution\<lparr>lr_sections := (lr_sections resolution)
                     [PE_SECTION_INDEX_TEXT := text\<lparr>ls_data := text_data\<rparr>, PE_SECTION_INDEX_RDATA := rdata\<lparr>ls_data := rdata_data\<rparr>]\<rparr>,
                   plan\<lparr>pip_import_directory_rva := rdata_rva + of_nat (pip_descriptor_table_offset plan),
                     pip_import_directory_size := of_nat ((length dlls + 1) * PE_IMPORT_DESCRIPTOR_SIZE),
                     pip_iat_rva := rdata_rva + of_nat iat_begin,
                     pip_iat_size := of_nat (iat_end dlls iat_begin - iat_begin)\<rparr>))))
      | (Some _, Some _, []) \<Rightarrow> Inl Fault
      | _ \<Rightarrow> reject ''Imported images require both .text and .rdata sections'')"

section \<open>Writing the file\<close>

definition pe_dos_header :: bytes where
  "pe_dos_header =
     [0x4D, 0x5A, 0x90, 0x00, 0x03, 0x00, 0x00, 0x00, 0x04, 0x00, 0x00, 0x00, 0xFF, 0xFF, 0x00, 0x00, 0xB8, 0x00,
      0x00, 0x00, 0x00, 0x00, 0x00, 0x00, 0x40, 0x00, 0x00, 0x00, 0x00, 0x00, 0x00, 0x00, 0x00, 0x00, 0x00, 0x00,
      0x00, 0x00, 0x00, 0x00, 0x00, 0x00, 0x00, 0x00, 0x00, 0x00, 0x00, 0x00, 0x00, 0x00, 0x00, 0x00, 0x00, 0x00,
      0x00, 0x00, 0x00, 0x00, 0x00, 0x00, 0x80, 0x00, 0x00, 0x00]"

definition pe_dos_message :: bytes where
  "pe_dos_message =
     [0x0E, 0x1F, 0xBA, 0x0E, 0x00, 0xB4, 0x09, 0xCD, 0x21, 0xB8, 0x01, 0x4C, 0xCD, 0x21, 0x54, 0x68, 0x69, 0x73,
      0x20, 0x70, 0x72, 0x6F, 0x67, 0x72, 0x61, 0x6D, 0x20, 0x63, 0x61, 0x6E, 0x6E, 0x6F, 0x74, 0x20, 0x62, 0x65,
      0x20, 0x72, 0x75, 0x6E, 0x20, 0x69, 0x6E, 0x20, 0x44, 0x4F, 0x53, 0x20, 0x6D, 0x6F, 0x64, 0x65, 0x2E, 0x0D,
      0x0D, 0x0A, 0x24, 0x00, 0x00, 0x00, 0x00, 0x00, 0x00, 0x00]"

definition pe_section_name_field :: "string \<Rightarrow> bytes" where
  "pe_section_name_field name = take 8 (map char_byte name @ replicate 8 0)"

text \<open>The arguments of \<open>pe_write_headers\<close>.\<close>

record PeHeaderFields =
  phf_image_base :: u64
  phf_size_of_headers :: u32
  phf_size_of_image :: u32
  phf_totals :: PeLayoutTotals
  phf_entry_rva :: u32
  phf_section_alignment :: u32
  phf_file_alignment :: u32
  phf_subsystem :: u16
  phf_exception_rva :: u32
  phf_exception_size :: u32
  phf_import_rva :: u32
  phf_import_size :: u32
  phf_iat_rva :: u32
  phf_iat_size :: u32

definition data_directory :: "PeHeaderFields \<Rightarrow> nat \<Rightarrow> bytes" where
  "data_directory h i =
     (if i = 3 then bytes_u32 (phf_exception_rva h) @ bytes_u32 (phf_exception_size h)
      else if i = 1 then bytes_u32 (phf_import_rva h) @ bytes_u32 (phf_import_size h)
      else if i = 12 then bytes_u32 (phf_iat_rva h) @ bytes_u32 (phf_iat_size h)
      else bytes_u32 0 @ bytes_u32 0)"

definition pe_section_header :: "PeSectionLayout \<Rightarrow> bytes" where
  "pe_section_header layout =
     pe_section_name_field (psl_name layout) @ bytes_u32 (psl_virtual_size layout) @
     bytes_u32 (psl_virtual_address layout) @ bytes_u32 (psl_raw_size layout) @ bytes_u32 (psl_raw_offset layout) @
     bytes_u32 0 @ bytes_u32 0 @ bytes_u16 0 @ bytes_u16 0 @ bytes_u32 (psl_characteristics layout)"

text \<open>The fixed part: DOS stub, file header and optional header.\<close>

definition fixed_headers :: "PeHeaderFields \<Rightarrow> nat \<Rightarrow> bytes" where
  "fixed_headers h layout_count =
     (let t = phf_totals h in
      pe_dos_header @ pe_dos_message @ bytes_u32 PE_SIGNATURE @ bytes_u16 COFF_MACHINE_AMD64 @
      bytes_u16 (of_nat layout_count) @ bytes_u32 0 @ bytes_u32 0 @ bytes_u32 0 @ bytes_u16 240 @
      bytes_u16 (0x0001 OR 0x0002 OR 0x0004 OR 0x0008 OR 0x0020) @ bytes_u16 0x020B @ [1, 0] @
      bytes_u32 (plt_size_of_code t) @ bytes_u32 (plt_size_of_init_data t) @ bytes_u32 (plt_size_of_uninit_data t) @
      bytes_u32 (phf_entry_rva h) @ bytes_u32 (plt_base_of_code t) @ bytes_u64 (phf_image_base h) @
      bytes_u32 (phf_section_alignment h) @ bytes_u32 (phf_file_alignment h) @ bytes_u16 6 @ bytes_u16 0 @
      bytes_u16 0 @ bytes_u16 0 @ bytes_u16 6 @ bytes_u16 0 @ bytes_u32 0 @ bytes_u32 (phf_size_of_image h) @
      bytes_u32 (phf_size_of_headers h) @ bytes_u32 0 @ bytes_u16 (phf_subsystem h) @ bytes_u16 0 @
      bytes_u64 0x100000 @ bytes_u64 0x1000 @ bytes_u64 0x100000 @ bytes_u64 0x1000 @ bytes_u32 0 @ bytes_u32 16 @
      concat (map (data_directory h) [0 ..< 16]))"

definition pe_write_headers :: "PeHeaderFields \<Rightarrow> PeSectionLayout list \<Rightarrow> bytes linked" where
  "pe_write_headers h layouts =
     (let written = fixed_headers h (length layouts) @ concat (map pe_section_header layouts);
          header_end = of_nat (length written) :: u32
      in if header_end > phf_size_of_headers h then reject ''Failed while padding PE headers''
         else Inr (written @ replicate (unat (phf_size_of_headers h - header_end)) 0))"

text \<open>The loop of \<open>pe_write_payloads\<close> over the bytes written so far.\<close>

fun pe_write_payloads :: "LinkedSection list \<Rightarrow> PeSectionLayout list \<Rightarrow> bytes \<Rightarrow> bytes linked" where
  "pe_write_payloads sections [] file = Inr file"
| "pe_write_payloads sections (layout # layouts) file =
     (let data = ls_data (sections ! psl_merged_section_index layout);
          file_offset = of_nat (length file) :: u32
      in if psl_raw_size layout = 0 then pe_write_payloads sections layouts file
         else if file_offset > psl_raw_offset layout then reject ''Failed while aligning section payload''
         else if unat (psl_raw_size layout) < length data then reject ''Failed while padding section payload''
         else pe_write_payloads sections layouts
                (file @ replicate (unat (psl_raw_offset layout - file_offset)) 0 @ data @
                 replicate (unat (psl_raw_size layout - of_nat (length data))) 0))"

section \<open>The whole emission\<close>

text \<open>The entry symbol is a pointer into the table of symbols: the entry of that name as the table is now.\<close>

definition entry_symbol :: "LinkResolution \<Rightarrow> LinkedSymbol option" where
  "entry_symbol resolution =
     Option.bind (lr_entry_symbol resolution) (\<lambda>e. link_resolution_find_symbol (lr_symbols resolution) (lsym_name e))"

definition option_or :: "PeEmissionOptions option \<Rightarrow> (PeEmissionOptions \<Rightarrow> 'a) \<Rightarrow> ('a \<Rightarrow> bool) \<Rightarrow> 'a \<Rightarrow> 'a" where
  "option_or options field usable otherwise =
     (case options of None \<Rightarrow> otherwise | Some opts \<Rightarrow> if usable (field opts) then field opts else otherwise)"

definition pe_image_base :: "PeEmissionOptions option \<Rightarrow> u64" where
  "pe_image_base options = option_or options peo_image_base (\<lambda>v. v \<noteq> 0) 0x140000000"

definition pe_section_alignment :: "PeEmissionOptions option \<Rightarrow> u32" where
  "pe_section_alignment options = option_or options peo_section_alignment (\<lambda>v. v \<ge> 0x200) 0x1000"

definition pe_file_alignment :: "PeEmissionOptions option \<Rightarrow> u32" where
  "pe_file_alignment options = option_or options peo_file_alignment (\<lambda>v. v \<ge> 0x200) 0x200"

definition pe_subsystem :: "PeEmissionOptions option \<Rightarrow> u16" where
  "pe_subsystem options = option_or options peo_subsystem (\<lambda>v. v \<noteq> 0) 3"

definition pe_size_of_headers :: "nat \<Rightarrow> u32 \<Rightarrow> u32" where
  "pe_size_of_headers layout_count file_alignment =
     align_u32 (128 + 4 + 20 + 240 + of_nat layout_count * 40) file_alignment"

text \<open>From the imports to the resolution whose symbols are all defined, with its import plan.\<close>

definition pe_import_stage ::
  "(string \<Rightarrow> bytes option) \<Rightarrow> (string \<Rightarrow> (string \<Rightarrow> bool) option) option \<Rightarrow> LinkResolution \<Rightarrow>
   PeEmissionOptions option \<Rightarrow> (LinkResolution \<times> PeImportPlan) linked" where
  "pe_import_stage read_file exports resolution options =
     (let paths = (case options of None \<Rightarrow> [] | Some opts \<Rightarrow> peo_import_library_paths opts);
          dll_names = (case options of None \<Rightarrow> [] | Some opts \<Rightarrow> peo_import_dll_names opts)
      in and_then (pe_load_import_libraries read_file paths) (\<lambda>libraries.
         and_then (if dll_names = [] then Inr libraries
                   else pe_append_imports_from_dlls exports resolution dll_names libraries) (\<lambda>libraries.
         and_then (pe_build_import_plan resolution libraries) (\<lambda>plan.
         and_then (pe_emit_import_storage resolution plan) (\<lambda>(resolution, plan).
         and_then (pe_validate_unresolved_externals resolution) (\<lambda>_. Inr (resolution, plan)))))))"

text \<open>From there to the relocated sections, their layout and the contents of the headers.\<close>

definition pe_exception_directory :: "PeSectionLayout list \<Rightarrow> LinkResolution \<Rightarrow> u32 \<times> u32" where
  "pe_exception_directory layouts resolution =
     (let pdata = ls_data (lr_sections resolution ! PE_SECTION_INDEX_PDATA)
      in case pe_find_layout layouts PE_SECTION_INDEX_PDATA of
           None \<Rightarrow> (0, 0)
         | Some layout \<Rightarrow> if pdata = [] then (0, 0) else (psl_virtual_address layout, of_nat (length pdata)))"

definition pe_layout_stage ::
  "PeEmissionOptions option \<Rightarrow> LinkResolution \<Rightarrow> PeImportPlan \<Rightarrow>
   (LinkResolution \<times> PeSectionLayout list \<times> PeHeaderFields) linked" where
  "pe_layout_stage options resolution plan =
     and_then (pe_collect_sections resolution) (\<lambda>layouts.
       let image_base = pe_image_base options;
           size_of_headers = pe_size_of_headers (length layouts) (pe_file_alignment options);
           (layouts, size_of_image, totals) = pe_layout_sections layouts (pe_section_alignment options)
             (pe_file_alignment options) size_of_headers;
           resolution = pe_apply_layout_to_resolution resolution layouts image_base
       in and_then (pe_finalize_imports resolution plan layouts image_base) (\<lambda>(resolution, plan).
          let entry_rva = (case entry_symbol resolution of
                None \<Rightarrow> 0 | Some e \<Rightarrow> ucast (lsym_virtual_address e - image_base));
              (exception_rva, exception_size) = pe_exception_directory layouts resolution
          in and_then (link_apply_relocations resolution (Some image_base)) (\<lambda>resolution.
             Inr (resolution, layouts,
               \<lparr>phf_image_base = image_base, phf_size_of_headers = size_of_headers, phf_size_of_image = size_of_image,
                phf_totals = totals, phf_entry_rva = entry_rva, phf_section_alignment = pe_section_alignment options,
                phf_file_alignment = pe_file_alignment options, phf_subsystem = pe_subsystem options,
                phf_exception_rva = exception_rva, phf_exception_size = exception_size,
                phf_import_rva = pip_import_directory_rva plan, phf_import_size = pip_import_directory_size plan,
                phf_iat_rva = pip_iat_rva plan, phf_iat_size = pip_iat_size plan\<rparr>))))"

definition pe_emit_executable ::
  "(string \<Rightarrow> bytes option) \<Rightarrow> (string \<Rightarrow> (string \<Rightarrow> bool) option) option \<Rightarrow> LinkResolution \<Rightarrow> string \<Rightarrow>
   PeEmissionOptions option \<Rightarrow> bytes linked" where
  "pe_emit_executable read_file exports resolution output_path options =
     (if output_path = [] then reject ''A link resolution and output path are required''
      else if (case entry_symbol resolution of
                 None \<Rightarrow> True
               | Some e \<Rightarrow> \<not> lsym_is_defined e \<or> lsym_merged_section_index e = None)
      then reject ''PE emission requires a resolved entry point''
      else if pe_section_alignment options < pe_file_alignment options
      then reject ''PE section alignment must be at least the file alignment''
      else and_then (pe_import_stage read_file exports resolution options) (\<lambda>(resolution, plan).
           and_then (pe_layout_stage options resolution plan) (\<lambda>(resolution, layouts, h).
           and_then (pe_write_headers h layouts) (pe_write_payloads (lr_sections resolution) layouts))))"

end
