(* ===== verification/Pe_Layout.thy ===== *)
theory Pe_Layout
  imports Pe_Emitter Link_Layout
begin

text \<open>
  The layout of an image: under the bounds of the format the sections lie one behind the other, aligned in memory
  and in the file; beyond them the 32-bit offsets wrap.
\<close>

section \<open>The loop in closed form\<close>

definition rva_room :: "u32 \<Rightarrow> PeSectionLayout \<Rightarrow> nat" where
  "rva_room section_alignment layout = linker_align_up (unat (psl_virtual_size layout)) (unat section_alignment)"

definition raw_room :: "u32 \<Rightarrow> PeSectionLayout \<Rightarrow> nat" where
  "raw_room file_alignment layout =
     (if psl_raw_size layout = 0 then 0 else linker_align_up (unat (psl_raw_size layout)) (unat file_alignment))"

lemma count_section_cursors [simp]:
  "plt_current_rva (count_section layout t) = plt_current_rva t" "plt_current_raw (count_section layout t) = plt_current_raw t"
  by (simp_all add: count_section_def split: CoffSectionKind.split)

lemma layout_sections_closed:
  "layout_sections sa fa layouts t = (ls, t') \<Longrightarrow>
    length ls = length layouts \<and>
    plt_current_rva t' = plt_current_rva t + of_nat (sum_list (map (rva_room sa) layouts)) \<and>
    plt_current_raw t' = plt_current_raw t + of_nat (sum_list (map (raw_room fa) layouts)) \<and>
    (\<forall>i < length layouts. ls ! i = (layouts ! i)
      \<lparr>psl_virtual_address := plt_current_rva t + of_nat (sum_list (map (rva_room sa) (take i layouts))),
       psl_raw_offset := (if psl_raw_size (layouts ! i) = 0 then 0
         else plt_current_raw t + of_nat (sum_list (map (raw_room fa) (take i layouts)))),
       psl_raw_size := of_nat (raw_room fa (layouts ! i))\<rparr>)"
proof (induction layouts arbitrary: ls t)
  case (Cons layout layouts)
  let ?first = "fst (layout_section sa fa layout t)" and ?t = "snd (layout_section sa fa layout t)"
  have cursors: "plt_current_rva ?t = plt_current_rva t + of_nat (rva_room sa layout)"
      "plt_current_raw ?t = plt_current_raw t + of_nat (raw_room fa layout)"
    by (simp_all add: layout_section_def Let_def rva_room_def raw_room_def align_u32_def)
  have first: "?first = layout\<lparr>psl_virtual_address := plt_current_rva t,
      psl_raw_offset := (if psl_raw_size layout = 0 then 0 else plt_current_raw t),
      psl_raw_size := of_nat (raw_room fa layout)\<rparr>"
    by (simp add: layout_section_def Let_def raw_room_def align_u32_def)
  from Cons.prems obtain rest where rest: "layout_sections sa fa layouts ?t = (rest, t')" "ls = ?first # rest"
    by (auto simp: Let_def split: prod.splits)
  note IH = Cons.IH [OF rest(1)]
  show ?case
  proof (intro conjI allI impI)
    fix i assume i: "i < length (layout # layouts)"
    show "ls ! i = ((layout # layouts) ! i)
      \<lparr>psl_virtual_address := plt_current_rva t + of_nat (sum_list (map (rva_room sa) (take i (layout # layouts)))),
       psl_raw_offset := (if psl_raw_size ((layout # layouts) ! i) = 0 then 0
         else plt_current_raw t + of_nat (sum_list (map (raw_room fa) (take i (layout # layouts))))),
       psl_raw_size := of_nat (raw_room fa ((layout # layouts) ! i))\<rparr>"
      using i IH rest(2) first cursors by (cases i) (simp_all add: add.assoc)
  qed (use IH rest(2) cursors in \<open>simp_all add: add.assoc\<close>)
qed simp

section \<open>Bounds\<close>

text \<open>What the image needs in memory and in the file.\<close>

definition image_fits :: "u32 \<Rightarrow> u32 \<Rightarrow> u32 \<Rightarrow> PeSectionLayout list \<Rightarrow> bool" where
  "image_fits sa fa size_of_headers layouts \<longleftrightarrow>
     linker_align_up (unat size_of_headers) (unat sa) + sum_list (map (rva_room sa) layouts) + unat sa < 2 ^ 32 \<and>
     linker_align_up (unat size_of_headers) (unat fa) + sum_list (map (raw_room fa) layouts) + unat fa < 2 ^ 32"

lemma sum_list_take_le: "sum_list (map f (take i xs)) \<le> sum_list (map (f :: 'a \<Rightarrow> nat) xs)"
  by (subst (2) append_take_drop_id [symmetric, of xs i], subst map_append, subst sum_list_append) simp

lemma sum_list_take_mono:
  assumes "i < j" "j \<le> length xs"
  shows "sum_list (map f (take i xs)) + f (xs ! i) \<le> sum_list (map (f :: 'a \<Rightarrow> nat) (take j xs))"
proof -
  have "take (Suc i) (take j xs) = take i xs @ [xs ! i]"
    using assms by (simp add: take_Suc_conv_app_nth min_def)
  then show ?thesis using sum_list_take_le [of f "Suc i" "take j xs"] by simp
qed

lemma unat_of_nat_u32: "n < 2 ^ 32 \<Longrightarrow> unat (of_nat n :: u32) = n"
  by (simp add: unat_of_nat)

text \<open>The offsets of the sections as natural numbers.\<close>

definition rva_at :: "u32 \<Rightarrow> u32 \<Rightarrow> PeSectionLayout list \<Rightarrow> nat \<Rightarrow> nat" where
  "rva_at sa size_of_headers layouts i =
     linker_align_up (unat size_of_headers) (unat sa) + sum_list (map (rva_room sa) (take i layouts))"

definition raw_at :: "u32 \<Rightarrow> u32 \<Rightarrow> PeSectionLayout list \<Rightarrow> nat \<Rightarrow> nat" where
  "raw_at fa size_of_headers layouts i =
     linker_align_up (unat size_of_headers) (unat fa) + sum_list (map (raw_room fa) (take i layouts))"

lemma pe_layout_sections_offsets:
  assumes fits: "image_fits sa fa size_of_headers layouts"
    and out: "pe_layout_sections layouts sa fa size_of_headers = (ls, size_of_image, totals)"
  shows "length ls = length layouts"
    and "unat size_of_image = linker_align_up (rva_at sa size_of_headers layouts (length layouts)) (unat sa) \<or>
         \<not> linker_align_up (rva_at sa size_of_headers layouts (length layouts)) (unat sa) < 2 ^ 32"
    and "i < length layouts \<Longrightarrow> unat (psl_virtual_address (ls ! i)) = rva_at sa size_of_headers layouts i"
    and "i < length layouts \<Longrightarrow> psl_raw_size (layouts ! i) \<noteq> 0 \<Longrightarrow>
           unat (psl_raw_offset (ls ! i)) = raw_at fa size_of_headers layouts i"
    and "i < length layouts \<Longrightarrow> unat (psl_raw_size (ls ! i)) = raw_room fa (layouts ! i)"
    and "i < length layouts \<Longrightarrow> psl_merged_section_index (ls ! i) = psl_merged_section_index (layouts ! i) \<and>
           psl_virtual_size (ls ! i) = psl_virtual_size (layouts ! i) \<and> psl_name (ls ! i) = psl_name (layouts ! i) \<and>
           psl_characteristics (ls ! i) = psl_characteristics (layouts ! i)"
proof -
  let ?t = "\<lparr>plt_current_rva = align_u32 size_of_headers sa, plt_current_raw = align_u32 size_of_headers fa,
    plt_size_of_code = 0, plt_size_of_init_data = 0, plt_size_of_uninit_data = 0, plt_base_of_code = 0\<rparr>"
  from out obtain loop: "layout_sections sa fa layouts ?t = (ls, totals)"
    and image: "size_of_image = align_u32 (plt_current_rva totals) sa"
    by (auto simp: pe_layout_sections_def Let_def split: prod.splits)
  note closed = layout_sections_closed [OF loop]
  show "length ls = length layouts" using closed by blast
  have rva: "unat (align_u32 size_of_headers sa + of_nat (sum_list (map (rva_room sa) (take i layouts)))) =
      rva_at sa size_of_headers layouts i" for i
    using fits sum_list_take_le [of "rva_room sa" i layouts] unfolding align_u32_def of_nat_add [symmetric] rva_at_def
    by (intro unat_of_nat_u32) (simp add: image_fits_def)
  have raw: "unat (align_u32 size_of_headers fa + of_nat (sum_list (map (raw_room fa) (take i layouts)))) =
      raw_at fa size_of_headers layouts i" for i
    using fits sum_list_take_le [of "raw_room fa" i layouts] unfolding align_u32_def of_nat_add [symmetric] raw_at_def
    by (intro unat_of_nat_u32) (simp add: image_fits_def)
  show "unat size_of_image = linker_align_up (rva_at sa size_of_headers layouts (length layouts)) (unat sa) \<or>
      \<not> linker_align_up (rva_at sa size_of_headers layouts (length layouts)) (unat sa) < 2 ^ 32"
    using closed rva [of "length layouts"] by (auto simp: image align_u32_def unat_of_nat_u32)
  assume i: "i < length layouts"
  have at: "ls ! i = (layouts ! i)
      \<lparr>psl_virtual_address := align_u32 size_of_headers sa + of_nat (sum_list (map (rva_room sa) (take i layouts))),
       psl_raw_offset := (if psl_raw_size (layouts ! i) = 0 then 0
         else align_u32 size_of_headers fa + of_nat (sum_list (map (raw_room fa) (take i layouts)))),
       psl_raw_size := of_nat (raw_room fa (layouts ! i))\<rparr>"
    using closed i by simp
  show "unat (psl_virtual_address (ls ! i)) = rva_at sa size_of_headers layouts i"
    using rva by (simp add: at)
  show "unat (psl_raw_offset (ls ! i)) = raw_at fa size_of_headers layouts i" if "psl_raw_size (layouts ! i) \<noteq> 0"
    using raw that by (simp add: at)
  have "raw_room fa (layouts ! i) \<le> sum_list (map (raw_room fa) layouts)"
    using i by (intro member_le_sum_list) auto
  then show "unat (psl_raw_size (ls ! i)) = raw_room fa (layouts ! i)"
    using fits by (simp add: at image_fits_def unat_of_nat_u32)
  show "psl_merged_section_index (ls ! i) = psl_merged_section_index (layouts ! i) \<and>
      psl_virtual_size (ls ! i) = psl_virtual_size (layouts ! i) \<and> psl_name (ls ! i) = psl_name (layouts ! i) \<and>
      psl_characteristics (ls ! i) = psl_characteristics (layouts ! i)"
    by (simp add: at)
qed

lemma align_bounds:
  assumes "power_of_two a" "v < 2 ^ 32" "a < 2 ^ 32"
  shows "a dvd linker_align_up v a" "v \<le> linker_align_up v a" "linker_align_up v a < v + a"
  using align_up_power [OF assms(1), of v] assms(2,3) by simp_all

lemma dvd_sum_rooms:
  assumes "power_of_two a" "a < 2 ^ 32" "\<And>x. x \<in> set xs \<Longrightarrow> f x = 0 \<or> (\<exists>v :: u32. f x = linker_align_up (unat v) a)"
  shows "a dvd sum_list (map f xs)"
  using assms(3)
proof (induction xs)
  case (Cons x xs)
  have "unat v < 2 ^ 32" for v :: u32 using unsigned_less [of v] by simp
  then have "a dvd f x" using Cons.prems [of x] align_bounds(1) [OF assms(1) _ assms(2)] by fastforce
  then show ?case using Cons by simp
qed simp

lemma laid_out:
  assumes out: "pe_layout_sections layouts sa fa size_of_headers = (ls, size_of_image, totals)"
    and sa: "power_of_two (unat sa)" and fa: "power_of_two (unat fa)"
    and fits: "image_fits sa fa size_of_headers layouts" and i: "i < length ls"
  shows "unat size_of_headers \<le> unat (psl_virtual_address (ls ! i)) \<and> unat sa dvd unat (psl_virtual_address (ls ! i)) \<and>
    unat (psl_virtual_address (ls ! i)) + unat (psl_virtual_size (ls ! i)) \<le> unat size_of_image \<and>
    (\<forall>j < i. unat (psl_virtual_address (ls ! j)) + unat (psl_virtual_size (ls ! j)) \<le> unat (psl_virtual_address (ls ! i))) \<and>
    (psl_raw_size (layouts ! i) \<noteq> 0 \<longrightarrow>
      unat size_of_headers \<le> unat (psl_raw_offset (ls ! i)) \<and> unat fa dvd unat (psl_raw_offset (ls ! i)) \<and>
      unat (psl_raw_size (layouts ! i)) \<le> unat (psl_raw_size (ls ! i)) \<and>
      (\<forall>j < i. psl_raw_size (layouts ! j) \<noteq> 0 \<longrightarrow>
        unat (psl_raw_offset (ls ! j)) + unat (psl_raw_size (ls ! j)) \<le> unat (psl_raw_offset (ls ! i))))"
proof -
  note offs = pe_layout_sections_offsets [OF fits out]
  have small: "unat v < 2 ^ 32" for v :: u32 using unsigned_less [of v] by simp
  note s = align_bounds [OF sa small small] and f = align_bounds [OF fa small small]
  have len: "i < length layouts" using i offs(1) by simp
  let ?stop = "rva_at sa size_of_headers layouts (length layouts)"
  have room: "unat (psl_virtual_size (layouts ! j)) \<le> rva_room sa (layouts ! j)" for j
    using s(2) by (simp add: rva_room_def)
  have before_rva: "rva_at sa size_of_headers layouts j + unat (psl_virtual_size (layouts ! j)) \<le> rva_at sa size_of_headers layouts k"
    if "j < k" "k \<le> length layouts" for j k
    using sum_list_take_mono [OF that, of "rva_room sa"] room [of j] by (simp add: rva_at_def)
  have before_raw: "raw_at fa size_of_headers layouts j + raw_room fa (layouts ! j) \<le> raw_at fa size_of_headers layouts k"
    if "j < k" "k \<le> length layouts" for j k
    using sum_list_take_mono [OF that, of "raw_room fa"] by (simp add: raw_at_def)
  have "?stop + unat sa < 2 ^ 32" using fits by (simp add: image_fits_def rva_at_def)
  then have e: "?stop \<le> linker_align_up ?stop (unat sa)" "linker_align_up ?stop (unat sa) < 2 ^ 32"
    using align_bounds [OF sa _ small, of ?stop] by linarith+
  have image: "?stop \<le> unat size_of_image" using offs(2) e by linarith
  have "unat sa dvd sum_list (map (rva_room sa) (take k layouts))" for k
    by (rule dvd_sum_rooms [OF sa small]) (auto simp: rva_room_def)
  then have sa_dvd: "unat sa dvd rva_at sa size_of_headers layouts k" for k using s(1) by (simp add: rva_at_def)
  have "unat fa dvd sum_list (map (raw_room fa) (take k layouts))" for k
    by (rule dvd_sum_rooms [OF fa small]) (auto simp: raw_room_def)
  then have fa_dvd: "unat fa dvd raw_at fa size_of_headers layouts k" for k using f(1) by (simp add: raw_at_def)
  have va: "unat (psl_virtual_address (ls ! j)) = rva_at sa size_of_headers layouts j"
    "unat (psl_virtual_size (ls ! j)) = unat (psl_virtual_size (layouts ! j))" if "j < length layouts" for j
    using offs(3,6) that by simp_all
  show ?thesis
  proof (intro conjI allI impI)
    show "unat size_of_headers \<le> unat (psl_virtual_address (ls ! i))"
      using s(2) [of size_of_headers] by (simp add: va [OF len] rva_at_def add_increasing2)
    show "unat sa dvd unat (psl_virtual_address (ls ! i))" by (simp add: va [OF len] sa_dvd)
    show "unat (psl_virtual_address (ls ! i)) + unat (psl_virtual_size (ls ! i)) \<le> unat size_of_image"
      using before_rva [OF len le_refl] image by (simp add: va [OF len])
    show "unat (psl_virtual_address (ls ! j)) + unat (psl_virtual_size (ls ! j)) \<le> unat (psl_virtual_address (ls ! i))" if "j < i" for j
      using before_rva [OF that] len that by (simp add: va)
  next
    assume stored: "psl_raw_size (layouts ! i) \<noteq> 0"
    note raw_i = offs(4) [OF len stored]
    show "unat size_of_headers \<le> unat (psl_raw_offset (ls ! i))"
      using f(2) [of size_of_headers] by (simp add: raw_i raw_at_def add_increasing2)
    show "unat fa dvd unat (psl_raw_offset (ls ! i))" by (simp add: raw_i fa_dvd)
    show "unat (psl_raw_size (layouts ! i)) \<le> unat (psl_raw_size (ls ! i))"
      using f(2) stored by (simp add: offs(5) [OF len] raw_room_def)
    show "unat (psl_raw_offset (ls ! j)) + unat (psl_raw_size (ls ! j)) \<le> unat (psl_raw_offset (ls ! i))"
      if "j < i" "psl_raw_size (layouts ! j) \<noteq> 0" for j
      using before_raw [OF that(1)] len that offs(4) [of j] offs(5) [of j] by (simp add: raw_i)
  qed
qed

text \<open>The layout of an image that fits into 32-bit offsets, for power-of-two alignments. In memory the sections
  lie behind the headers, aligned, one behind the other and inside \<open>SizeOfImage\<close>. In the file the stored sections
  lie behind the headers, aligned and one behind the other, each with room for its contents.\<close>

theorem image_layout:
  assumes out: "pe_layout_sections layouts sa fa size_of_headers = (ls, size_of_image, totals)"
    and sa: "power_of_two (unat sa)" and fa: "power_of_two (unat fa)"
    and fits: "image_fits sa fa size_of_headers layouts" and i: "i < length ls"
  shows "unat size_of_headers \<le> unat (psl_virtual_address (ls ! i)) \<and> unat sa dvd unat (psl_virtual_address (ls ! i)) \<and>
    unat (psl_virtual_address (ls ! i)) + unat (psl_virtual_size (ls ! i)) \<le> unat size_of_image \<and>
    (\<forall>j < i. unat (psl_virtual_address (ls ! j)) + unat (psl_virtual_size (ls ! j)) \<le> unat (psl_virtual_address (ls ! i))) \<and>
    (psl_raw_size (layouts ! i) \<noteq> 0 \<longrightarrow>
      unat size_of_headers \<le> unat (psl_raw_offset (ls ! i)) \<and> unat fa dvd unat (psl_raw_offset (ls ! i)) \<and>
      unat (psl_raw_size (layouts ! i)) \<le> unat (psl_raw_size (ls ! i)) \<and>
      (\<forall>j < i. psl_raw_size (layouts ! j) \<noteq> 0 \<longrightarrow>
        unat (psl_raw_offset (ls ! j)) + unat (psl_raw_size (ls ! j)) \<le> unat (psl_raw_offset (ls ! i))))"
  using assms by (rule laid_out)

lemma default_alignments:
  "v < 2 ^ 40 \<Longrightarrow> linker_align_up v 0x1000 = (v + 0xFFF) div 0x1000 * 0x1000"
  "v < 2 ^ 40 \<Longrightarrow> linker_align_up v 0x200 = (v + 0x1FF) div 0x200 * 0x200"
  using align_up_pow2 [of 12 v] align_up_pow2 [of 9 v] by simp_all

text \<open>Two sections, as they are collected from the merged sections.\<close>

definition sample_section :: "CoffSectionKind \<Rightarrow> nat \<Rightarrow> nat \<Rightarrow> LinkedSection" where
  "sample_section kind stored virtual_size =
     \<lparr>ls_kind = kind, ls_name = link_section_name_from_kind kind, ls_data = replicate stored 0x90,
      ls_virtual_size = virtual_size, ls_alignment = 16, ls_virtual_address = 0, ls_contributions = []\<rparr>"

definition sample_layouts :: "PeSectionLayout list" where
  "sample_layouts = [collect_section 0 (sample_section COFF_SECTION_KIND_TEXT 5 5),
     collect_section 3 (sample_section COFF_SECTION_KIND_BSS 0 0x2001)]"

theorem image_layout_witness:
  "image_fits 0x1000 0x200 0x200 sample_layouts \<and>
   (case pe_layout_sections sample_layouts 0x1000 0x200 0x200 of (ls, size_of_image, totals) \<Rightarrow>
     unat (psl_virtual_address (ls ! 1)) + unat (psl_virtual_size (ls ! 1)) \<le> unat size_of_image \<and>
     unat (psl_virtual_address (ls ! 0)) + unat (psl_virtual_size (ls ! 0)) \<le> unat (psl_virtual_address (ls ! 1)))"
proof -
  obtain ls size_of_image totals where
    out: "pe_layout_sections sample_layouts 0x1000 0x200 0x200 = (ls, size_of_image, totals)"
    by (cases "pe_layout_sections sample_layouts 0x1000 0x200 0x200") auto
  have sa: "power_of_two (unat (0x1000 :: u32))" and fa: "power_of_two (unat (0x200 :: u32))"
    using power_of_twoI [of 12] power_of_twoI [of 9] by simp_all
  have fits: "image_fits 0x1000 0x200 0x200 sample_layouts"
    by (simp add: image_fits_def sample_layouts_def collect_section_def sample_section_def rva_room_def raw_room_def
        default_alignments)
  have "length sample_layouts = 2" by (simp add: sample_layouts_def)
  then have "1 < length ls" using pe_layout_sections_offsets(1) [OF fits out] by simp
  from image_layout [OF out sa fa fits this] fits out show ?thesis by simp
qed

text \<open>The bound is needed: each section may be as large as 4 GiB, and nothing checks their sum. The section behind
  a large one is then placed at offset 0, over the headers, and the size of the image is that of the last section.\<close>

theorem oversized_image_wraps:
  "\<exists>sections layouts ls size_of_image totals.
     collect_sections 0 sections = Inr layouts \<and> pe_layout_sections layouts 0x1000 0x200 0x200 = (ls, size_of_image, totals) \<and>
     length ls = 2 \<and> psl_virtual_address (ls ! 1) = 0 \<and> size_of_image = 0x1000"
proof -
  let ?s = "[sample_section COFF_SECTION_KIND_DATA 1 0xFFFFF000, sample_section COFF_SECTION_KIND_BSS 0 1]"
  let ?l = "[collect_section 0 (?s ! 0), collect_section 1 (?s ! 1)]"
  obtain ls size_of_image totals where out: "pe_layout_sections ?l 0x1000 0x200 0x200 = (ls, size_of_image, totals)"
    by (rule prod_cases3)
  have "case pe_layout_sections ?l 0x1000 0x200 0x200 of (ls, size_of_image, totals) \<Rightarrow>
     length ls = 2 \<and> psl_virtual_address (ls ! 1) = 0 \<and> size_of_image = 0x1000"
    by (simp add: pe_layout_sections_def Let_def layout_section_def collect_section_def sample_section_def align_u32_def
        count_section_def default_alignments)
  then have "length ls = 2 \<and> psl_virtual_address (ls ! 1) = 0 \<and> size_of_image = 0x1000"
    unfolding out by simp
  moreover have "collect_sections 0 ?s = Inr ?l" by (simp add: sample_section_def)
  ultimately show ?thesis using out by blast
qed

end
