(* ===== verification/Pe_Image.thy ===== *)
theory Pe_Image
  imports Pe_Layout
begin

text \<open>
  The written file as a loader sees it: the section table leads to the contents of every section at its address.
\<close>

section \<open>What relocation and the import tables keep\<close>

lemma apply_sites_shape: "apply_sites r b ss sections = Inr sections' \<Longrightarrow> same_shape sections sections'"
proof (induction ss arbitrary: sections)
  case (Cons s ss)
  obtain input placement k relocation where s: "s = (input, placement, k, relocation)" by (cases s)
  from Cons.prems s obtain mid where mid: "apply_relocation r b input placement k relocation sections = Inr mid"
    "apply_sites r b ss mid = Inr sections'" by (auto simp: and_then_Inr)
  show ?case using same_shape_trans [OF step_frame(1) [OF mid(1) refl] Cons.IH [OF mid(2)]] .
qed (simp add: same_shape_refl)

lemma link_apply_relocations_shape:
  assumes "link_apply_relocations r options = Inr r'"
  shows "same_shape (lr_sections r) (lr_sections r')"
proof -
  let ?b = "case options of Some b \<Rightarrow> b | None \<Rightarrow> 0"
  obtain sections' where s: "apply_inputs_relocations r ?b (lr_objects r) (lr_sections r) = Inr sections'"
      "r' = r\<lparr>lr_sections := sections'\<rparr>"
    using assms by (auto simp: link_apply_relocations_def Let_def and_then_Inr)
  have "apply_sites r ?b (relocation_sites (lr_objects r)) (lr_sections r) = Inr sections'"
    using apply_inputs_sites [OF s(1)] apply_inputs_placements [OF s(1)] by blast
  with s(2) show ?thesis using apply_sites_shape by simp
qed

lemma put_bytes_Inr: "put_bytes offset bs data = Inr data' \<longleftrightarrow>
    offset + length bs \<le> length data \<and> data' = write_bytes data offset bs"
  by (auto simp: put_bytes_def)

lemma length_write_bytes: "offset + length bs \<le> length data \<Longrightarrow> length (write_bytes data offset bs) = length data"
  by (simp add: write_bytes_def)

lemma finalize_symbol_length:
  "finalize_symbol dlls trva rrva base symbol (text, rdata) = Inr (text', rdata') \<Longrightarrow>
    length text' = length text \<and> length rdata' = length rdata"
  by (auto simp: finalize_symbol_def Let_def and_then_Inr put_bytes_Inr length_write_bytes split: if_splits)

lemma finalize_symbols_length:
  "fold_linked (finalize_symbol dlls trva rrva base) symbols (tx, rdata) = Inr (text', rdata') \<Longrightarrow>
    length text' = length tx \<and> length rdata' = length rdata"
proof (induction symbols arbitrary: tx rdata)
  case (Cons s symbols)
  from Cons.prems obtain t d where mid: "finalize_symbol dlls trva rrva base s (tx, rdata) = Inr (t, d)"
    "fold_linked (finalize_symbol dlls trva rrva base) symbols (t, d) = Inr (text', rdata')"
    by (auto simp: and_then_Inr)
  show ?case using Cons.IH [OF mid(2)] finalize_symbol_length [OF mid(1)] by simp
qed simp

lemma finalize_dlls_length:
  "fold_linked (finalize_dll off rrva) dlls rdata = Inr rdata' \<Longrightarrow> length rdata' = length rdata"
proof (induction dlls arbitrary: rdata)
  case (Cons d dlls)
  from Cons.prems obtain mid where mid: "finalize_dll off rrva d rdata = Inr mid"
    "fold_linked (finalize_dll off rrva) dlls mid = Inr rdata'" by (auto simp: and_then_Inr)
  have "length mid = length rdata"
    using mid(1) by (auto simp: finalize_dll_def put_bytes_Inr length_write_bytes split: prod.splits)
  with Cons.IH [OF mid(2)] show ?case by simp
qed simp

lemma pe_finalize_imports_Inr:
  assumes "pe_finalize_imports r plan layouts base = Inr (r', plan')" "pip_has_imports plan"
  obtains text_layout rdata_layout text_data rdata_data final_data where
    "pe_find_layout layouts PE_SECTION_INDEX_TEXT = Some text_layout"
    "pe_find_layout layouts PE_SECTION_INDEX_RDATA = Some rdata_layout"
    "fold_linked (finalize_symbol (pip_dlls plan) (psl_virtual_address text_layout) (psl_virtual_address rdata_layout) base)
       (pip_symbols plan) (ls_data (lr_sections r ! 0), ls_data (lr_sections r ! 1)) = Inr (text_data, rdata_data)"
    "fold_linked (finalize_dll (pip_descriptor_table_offset plan) (psl_virtual_address rdata_layout))
       (zip [0 ..< length (pip_dlls plan)] (pip_dlls plan)) rdata_data = Inr final_data"
    "r' = r\<lparr>lr_sections := (lr_sections r)[0 := (lr_sections r ! 0)\<lparr>ls_data := text_data\<rparr>,
       1 := (lr_sections r ! 1)\<lparr>ls_data := final_data\<rparr>]\<rparr>"
proof -
  obtain text_layout rdata_layout first dlls where L: "pe_find_layout layouts PE_SECTION_INDEX_TEXT = Some text_layout"
    "pe_find_layout layouts PE_SECTION_INDEX_RDATA = Some rdata_layout" "pip_dlls plan = first # dlls"
    using assms by (auto simp: pe_finalize_imports_def split: option.splits list.splits)
  let ?t = "psl_virtual_address text_layout" and ?d = "psl_virtual_address rdata_layout"
  have eq: "pe_finalize_imports r plan layouts base =
      and_then (fold_linked (finalize_symbol (pip_dlls plan) ?t ?d base) (pip_symbols plan)
        (ls_data (lr_sections r ! 0), ls_data (lr_sections r ! 1))) (\<lambda>(text_data, rdata_data).
      and_then (fold_linked (finalize_dll (pip_descriptor_table_offset plan) ?d)
        (zip [0 ..< length (pip_dlls plan)] (pip_dlls plan)) rdata_data) (\<lambda>rdata_data.
      Inr (r\<lparr>lr_sections := (lr_sections r)[0 := (lr_sections r ! 0)\<lparr>ls_data := text_data\<rparr>,
             1 := (lr_sections r ! 1)\<lparr>ls_data := rdata_data\<rparr>]\<rparr>,
           plan\<lparr>pip_import_directory_rva := ?d + of_nat (pip_descriptor_table_offset plan),
             pip_import_directory_size := of_nat ((length (pip_dlls plan) + 1) * PE_IMPORT_DESCRIPTOR_SIZE),
             pip_iat_rva := ?d + of_nat (pid_iat_offset first),
             pip_iat_size := of_nat (iat_end (pip_dlls plan) (pid_iat_offset first) - pid_iat_offset first)\<rparr>)))"
    using assms(2) unfolding pe_finalize_imports_def Let_def L by (simp only: not_True_eq_False if_False option.case prod.case list.case pe_indices)
  from assms(1) [unfolded eq and_then_Inr] obtain text_data rdata_data final_data where
    "fold_linked (finalize_symbol (pip_dlls plan) ?t ?d base) (pip_symbols plan)
       (ls_data (lr_sections r ! 0), ls_data (lr_sections r ! 1)) = Inr (text_data, rdata_data)"
    "fold_linked (finalize_dll (pip_descriptor_table_offset plan) ?d)
       (zip [0 ..< length (pip_dlls plan)] (pip_dlls plan)) rdata_data = Inr final_data"
    "r' = r\<lparr>lr_sections := (lr_sections r)[0 := (lr_sections r ! 0)\<lparr>ls_data := text_data\<rparr>,
       1 := (lr_sections r ! 1)\<lparr>ls_data := final_data\<rparr>]\<rparr>"
    by (auto simp: and_then_Inr)
  with L show thesis using that by blast
qed

lemma pe_finalize_imports_shape:
  assumes "pe_finalize_imports r plan layouts base = Inr (r', plan')" "2 \<le> length (lr_sections r)"
  shows "same_shape (lr_sections r) (lr_sections r') \<and> r' = r\<lparr>lr_sections := lr_sections r'\<rparr>"
proof (cases "pip_has_imports plan")
  case False
  then show ?thesis using assms(1) by (simp add: pe_finalize_imports_def same_shape_refl)
next
  case True
  let ?S = "lr_sections r"
  show ?thesis
  proof (rule pe_finalize_imports_Inr [OF assms(1) True])
    fix tl rl text_data rdata_data final_data
    assume sym: "fold_linked (finalize_symbol (pip_dlls plan) (psl_virtual_address tl) (psl_virtual_address rl) base)
        (pip_symbols plan) (ls_data (?S ! 0), ls_data (?S ! 1)) = Inr (text_data, rdata_data)"
      and dll: "fold_linked (finalize_dll (pip_descriptor_table_offset plan) (psl_virtual_address rl))
        (zip [0 ..< length (pip_dlls plan)] (pip_dlls plan)) rdata_data = Inr final_data"
      and r': "r' = r\<lparr>lr_sections := ?S[0 := (?S ! 0)\<lparr>ls_data := text_data\<rparr>, 1 := (?S ! 1)\<lparr>ls_data := final_data\<rparr>]\<rparr>"
    have "length text_data = length (ls_data (?S ! 0))" "length final_data = length (ls_data (?S ! 1))"
      using finalize_symbols_length [OF sym] finalize_dlls_length [OF dll] by simp_all
    moreover have "0 < length ?S" "1 < length ?S" using assms(2) by auto
    ultimately show ?thesis by (auto simp: r' same_shape_def nth_list_update)
  qed
qed

section \<open>Collected sections\<close>

lemma collect_sections_closed:
  "collect_sections n sections = Inr layouts \<Longrightarrow>
    layouts = map (\<lambda>(k, s). collect_section k s)
      (filter (\<lambda>(k, s). ls_virtual_size s \<noteq> 0) (zip [n ..< n + length sections] sections)) \<and>
    (\<forall>s \<in> set sections. ls_virtual_size s \<le> 0xFFFFFFFF \<and>
      (ls_virtual_size s \<noteq> 0 \<longrightarrow> ls_kind s \<noteq> COFF_SECTION_KIND_BSS \<longrightarrow> length (ls_data s) \<le> 0xFFFFFFFF))"
proof (induction sections arbitrary: n layouts)
  case (Cons s sections)
  have upt: "[n ..< n + length (s # sections)] = n # [n + 1 ..< n + 1 + length sections]"
    by (subst upt_conv_Cons) simp_all
  show ?case
  proof (cases "ls_virtual_size s = 0")
    case True
    with Cons.prems have "collect_sections (n + 1) sections = Inr layouts" by simp
    from Cons.IH [OF this] True show ?thesis unfolding upt by simp
  next
    case False
    with Cons.prems obtain rest where rest: "collect_sections (n + 1) sections = Inr rest"
      "layouts = collect_section n s # rest" and lim: "ls_virtual_size s \<le> 0xFFFFFFFF"
      "ls_kind s \<noteq> COFF_SECTION_KIND_BSS \<longrightarrow> length (ls_data s) \<le> 0xFFFFFFFF"
      by (auto simp: and_then_Inr split: if_splits)
    from Cons.IH [OF rest(1)] rest(2) lim False show ?thesis unfolding upt by simp
  qed
qed simp

lemma collect_sections_Inr:
  assumes "collect_sections 0 sections = Inr layouts"
  shows "k < length sections \<Longrightarrow> ls_virtual_size (sections ! k) \<noteq> 0 \<Longrightarrow> collect_section k (sections ! k) \<in> set layouts"
    and "l \<in> set layouts \<Longrightarrow> \<exists>k < length sections. l = collect_section k (sections ! k) \<and>
           ls_virtual_size (sections ! k) \<le> 0xFFFFFFFF \<and>
           (ls_kind (sections ! k) \<noteq> COFF_SECTION_KIND_BSS \<longrightarrow> length (ls_data (sections ! k)) \<le> 0xFFFFFFFF)"
    and "distinct (map psl_merged_section_index layouts)"
proof -
  note closed = collect_sections_closed [OF assms, simplified]
  let ?pairs = "filter (\<lambda>(k, s). ls_virtual_size s \<noteq> 0) (zip [0 ..< length sections] sections)"
  have layouts: "layouts = map (\<lambda>(k, s). collect_section k s) ?pairs" using closed by (simp add: case_prod_unfold)
  show "collect_section k (sections ! k) \<in> set layouts" if "k < length sections" "ls_virtual_size (sections ! k) \<noteq> 0"
  proof -
    have "(k, sections ! k) \<in> set ?pairs" using that by (auto simp: set_zip intro!: exI [of _ k])
    then show ?thesis unfolding layouts by force
  qed
  show "\<exists>k < length sections. l = collect_section k (sections ! k) \<and> ls_virtual_size (sections ! k) \<le> 0xFFFFFFFF \<and>
      (ls_kind (sections ! k) \<noteq> COFF_SECTION_KIND_BSS \<longrightarrow> length (ls_data (sections ! k)) \<le> 0xFFFFFFFF)" if "l \<in> set layouts"
  proof -
    from that obtain k where k: "k < length sections" "ls_virtual_size (sections ! k) \<noteq> 0" "l = collect_section k (sections ! k)"
      unfolding layouts by (auto simp: set_zip)
    then show ?thesis using closed nth_mem [OF k(1)] by blast
  qed
  have "map psl_merged_section_index layouts = map fst ?pairs"
    by (auto simp: layouts collect_section_def case_prod_unfold)
  moreover have "distinct (map fst ?pairs)" by (intro distinct_map_filter) simp
  ultimately show "distinct (map psl_merged_section_index layouts)" by simp
qed

section \<open>The contents of the file\<close>

text \<open>Stored sections one behind the other, from an offset on.\<close>

fun packed :: "nat \<Rightarrow> PeSectionLayout list \<Rightarrow> bool" where
  "packed n [] \<longleftrightarrow> True"
| "packed n (l # ls) \<longleftrightarrow> (if psl_raw_size l = 0 then packed n ls
     else n \<le> unat (psl_raw_offset l) \<and> unat (psl_raw_offset l) + unat (psl_raw_size l) < 2 ^ 32 \<and>
       packed (unat (psl_raw_offset l) + unat (psl_raw_size l)) ls)"

lemma packedI:
  assumes "\<And>i. i < length ls \<Longrightarrow> psl_raw_size (ls ! i) \<noteq> 0 \<Longrightarrow> n \<le> unat (psl_raw_offset (ls ! i)) \<and>
      unat (psl_raw_offset (ls ! i)) + unat (psl_raw_size (ls ! i)) < 2 ^ 32 \<and>
      (\<forall>j < i. psl_raw_size (ls ! j) \<noteq> 0 \<longrightarrow>
        unat (psl_raw_offset (ls ! j)) + unat (psl_raw_size (ls ! j)) \<le> unat (psl_raw_offset (ls ! i)))"
  shows "packed n ls"
  using assms
proof (induction ls arbitrary: n)
  case (Cons l ls)
  have tail: "unat (psl_raw_offset (ls ! i)) + unat (psl_raw_size (ls ! i)) < 2 ^ 32 \<and> n \<le> unat (psl_raw_offset (ls ! i)) \<and>
      (psl_raw_size l \<noteq> 0 \<longrightarrow> unat (psl_raw_offset l) + unat (psl_raw_size l) \<le> unat (psl_raw_offset (ls ! i))) \<and>
      (\<forall>j < i. psl_raw_size (ls ! j) \<noteq> 0 \<longrightarrow>
        unat (psl_raw_offset (ls ! j)) + unat (psl_raw_size (ls ! j)) \<le> unat (psl_raw_offset (ls ! i)))"
    if "i < length ls" "psl_raw_size (ls ! i) \<noteq> 0" for i
    using Cons.prems [of "Suc i"] that by auto
  show ?case
  proof (cases "psl_raw_size l = 0")
    case True
    then show ?thesis using Cons.IH [of n] tail by simp
  next
    case False
    then show ?thesis using Cons.IH [of "unat (psl_raw_offset l) + unat (psl_raw_size l)"] tail Cons.prems [of 0] by simp
  qed
qed simp

text \<open>The bytes a stored section has in the file.\<close>

definition stored_at :: "bytes \<Rightarrow> PeSectionLayout \<Rightarrow> bytes \<Rightarrow> bool" where
  "stored_at file l data \<longleftrightarrow> unat (psl_raw_offset l) + unat (psl_raw_size l) \<le> length file \<and>
     (\<forall>j < unat (psl_raw_size l). file ! (unat (psl_raw_offset l) + j) = (if j < length data then data ! j else 0))"

lemma stored_at_append: "stored_at file l data \<Longrightarrow> stored_at (file @ post) l data"
  by (auto simp: stored_at_def nth_append)

lemma pe_write_payloads_stored:
  assumes "pe_write_payloads sections ls bs = Inr bs'" "packed n ls" "length bs \<le> n"
  shows "(\<exists>post. bs' = bs @ post) \<and>
    (\<forall>l \<in> set ls. psl_raw_size l \<noteq> 0 \<longrightarrow> stored_at bs' l (ls_data (sections ! psl_merged_section_index l)))"
  using assms
proof (induction ls arbitrary: bs n)
  case (Cons l ls)
  let ?data = "ls_data (sections ! psl_merged_section_index l)"
  show ?case
  proof (cases "psl_raw_size l = 0")
    case True
    then show ?thesis using Cons.IH [of bs n] Cons.prems by simp
  next
    case False
    let ?o = "unat (psl_raw_offset l)" and ?r = "unat (psl_raw_size l)"
    have bounds: "length bs \<le> ?o" "?o + ?r < 2 ^ 32" "packed (?o + ?r) ls" using Cons.prems(2,3) False by auto
    then have offset: "unat (psl_raw_offset l - of_nat (length bs)) = ?o - length bs"
      by (subst unat_sub) (auto simp: word_le_nat_alt unat_of_nat_u32)
    let ?mid = "bs @ replicate (?o - length bs) 0 @ ?data @ replicate (?r - length ?data) 0"
    have room: "length ?data \<le> ?r" using Cons.prems(1) False by (auto simp: Let_def split: if_splits)
    then have "unat (psl_raw_size l - of_nat (length ?data)) = ?r - length ?data"
      using bounds(2) by (subst unat_sub) (auto simp: word_le_nat_alt unat_of_nat_u32)
    then have next_file: "pe_write_payloads sections ls ?mid = Inr bs'"
      using Cons.prems(1) False offset by (auto simp: Let_def split: if_splits)
    have "length ?mid = ?o + ?r" using bounds room by simp
    with Cons.IH [OF next_file bounds(3)] obtain post where post: "bs' = ?mid @ post"
      "\<forall>l \<in> set ls. psl_raw_size l \<noteq> 0 \<longrightarrow> stored_at bs' l (ls_data (sections ! psl_merged_section_index l))" by auto
    have "stored_at ?mid l ?data" using bounds room by (auto simp: stored_at_def nth_append)
    then have "stored_at bs' l ?data" using stored_at_append post(1) by blast
    with post show ?thesis by auto
  qed
qed simp

section \<open>A loader\<close>

text \<open>The reference: what the format says a loader finds at an offset in the image. The section table lies behind the
  optional header; a section covers its virtual size, and what the file does not store is zero.\<close>

definition u16_at :: "bytes \<Rightarrow> nat \<Rightarrow> nat" where "u16_at file offset = unat (linker_read_u16 (drop offset file))"
definition u32_at :: "bytes \<Rightarrow> nat \<Rightarrow> nat" where "u32_at file offset = unat (linker_read_u32 (drop offset file))"

definition section_table :: "bytes \<Rightarrow> (nat \<times> nat \<times> nat \<times> nat) list" where
  "section_table file =
     (let pe = u32_at file 0x3C;
          table = pe + 24 + u16_at file (pe + 20)
      in map (\<lambda>k. (u32_at file (table + 40 * k + 12), u32_at file (table + 40 * k + 8),
                   u32_at file (table + 40 * k + 20), u32_at file (table + 40 * k + 16))) [0 ..< u16_at file (pe + 6)])"

definition loaded_byte :: "bytes \<Rightarrow> nat \<Rightarrow> u8 option" where
  "loaded_byte file rva =
     map_option (\<lambda>(va, virtual_size, raw_offset, raw_size). if rva - va < raw_size then file ! (raw_offset + (rva - va)) else 0)
       (List.find (\<lambda>(va, virtual_size, raw_offset, raw_size). va \<le> rva \<and> rva < va + virtual_size) (section_table file))"

lemma length_fixed_headers: "length (fixed_headers h n) = 392"
proof -
  have "length (data_directory h i) = 8" for i by (simp add: data_directory_def)
  then have "length (concat (map (data_directory h) [0 ..< 16])) = 128"
    by (simp add: length_concat comp_def sum_list_triv)
  then show ?thesis by (simp add: fixed_headers_def Let_def pe_dos_header_def pe_dos_message_def)
qed

lemma dos_header_end: "drop 60 pe_dos_header = bytes_u32 0x80" "length pe_dos_header = 64" "length pe_dos_message = 64"
  by (simp_all add: pe_dos_header_def pe_dos_message_def bytes_u32_def)

lemma fixed_header_fields:
  "u32_at (fixed_headers h n @ post) 0x3C = 128" "n < 2 ^ 16 \<Longrightarrow> u16_at (fixed_headers h n @ post) (128 + 6) = n"
  "u16_at (fixed_headers h n @ post) (128 + 20) = 240"
  by (simp_all add: u32_at_def u16_at_def fixed_headers_def Let_def dos_header_end read_bytes_u16 read_bytes_u32 unat_of_nat)

lemma length_pe_section_header: "length (pe_section_header l) = 40"
  by (simp add: pe_section_header_def pe_section_name_field_def)

lemma section_header_fields:
  "linker_read_u32 (drop 8 (pe_section_header l @ post)) = psl_virtual_size l"
  "linker_read_u32 (drop 12 (pe_section_header l @ post)) = psl_virtual_address l"
  "linker_read_u32 (drop 16 (pe_section_header l @ post)) = psl_raw_size l"
  "linker_read_u32 (drop 20 (pe_section_header l @ post)) = psl_raw_offset l"
  by (simp_all add: pe_section_header_def pe_section_name_field_def read_bytes_u32)

lemma section_table_written:
  assumes "length ls < 2 ^ 16" "file = fixed_headers h (length ls) @ concat (map pe_section_header ls) @ post"
  shows "section_table file = map (\<lambda>l. (unat (psl_virtual_address l), unat (psl_virtual_size l),
    unat (psl_raw_offset l), unat (psl_raw_size l))) ls"
proof -
  let ?t = "392 :: nat"
  have head: "\<exists>rest. drop (?t + 40 * k) file = pe_section_header (ls ! k) @ rest" if "k < length ls" for k
  proof -
    have "concat (map pe_section_header ls) = concat (map pe_section_header (take k ls)) @ pe_section_header (ls ! k) @
        concat (map pe_section_header (drop (Suc k) ls))"
      by (subst id_take_nth_drop [OF that]) simp
    moreover have "length (concat (map pe_section_header (take k ls))) = 40 * k"
      using that by (simp add: length_concat comp_def length_pe_section_header sum_list_triv)
    ultimately show ?thesis by (simp add: assms(2) length_fixed_headers)
  qed
  have fields: "u32_at file (?t + 40 * k + 12) = unat (psl_virtual_address (ls ! k))"
    "u32_at file (?t + 40 * k + 8) = unat (psl_virtual_size (ls ! k))"
    "u32_at file (?t + 40 * k + 20) = unat (psl_raw_offset (ls ! k))"
    "u32_at file (?t + 40 * k + 16) = unat (psl_raw_size (ls ! k))" if "k < length ls" for k
  proof -
    from head [OF that] obtain rest where rest: "drop (?t + 40 * k) file = pe_section_header (ls ! k) @ rest" by blast
    have "u32_at file (?t + 40 * k + m) = unat (linker_read_u32 (drop m (pe_section_header (ls ! k) @ rest)))" for m
      unfolding rest [symmetric] u32_at_def drop_drop by (simp only: add.commute [of m])
    then show "u32_at file (?t + 40 * k + 12) = unat (psl_virtual_address (ls ! k))"
      "u32_at file (?t + 40 * k + 8) = unat (psl_virtual_size (ls ! k))"
      "u32_at file (?t + 40 * k + 20) = unat (psl_raw_offset (ls ! k))"
      "u32_at file (?t + 40 * k + 16) = unat (psl_raw_size (ls ! k))"
      by (simp_all only: section_header_fields)
  qed
  have "section_table file = map (\<lambda>k. (u32_at file (?t + 40 * k + 12), u32_at file (?t + 40 * k + 8),
                   u32_at file (?t + 40 * k + 20), u32_at file (?t + 40 * k + 16))) [0 ..< length ls]"
    using fixed_header_fields [where h = h and n = "length ls"] assms(1) by (simp add: section_table_def assms(2))
  also have "\<dots> = map (\<lambda>l. (unat (psl_virtual_address l), unat (psl_virtual_size l),
      unat (psl_raw_offset l), unat (psl_raw_size l))) (map ((!) ls) [0 ..< length ls])"
    unfolding map_map comp_def by (intro map_cong refl) (simp only: fields set_upt atLeastLessThan_iff)
  finally show ?thesis by (simp only: map_nth)
qed

lemma loaded_byte_section:
  assumes table: "section_table file = map (\<lambda>l. (unat (psl_virtual_address l), unat (psl_virtual_size l),
      unat (psl_raw_offset l), unat (psl_raw_size l))) ls"
    and i: "i < length ls" and j: "j < unat (psl_virtual_size (ls ! i))"
    and order: "\<And>k. k < i \<Longrightarrow> unat (psl_virtual_address (ls ! k)) + unat (psl_virtual_size (ls ! k)) \<le> unat (psl_virtual_address (ls ! i))"
  shows "loaded_byte file (unat (psl_virtual_address (ls ! i)) + j) =
    Some (if j < unat (psl_raw_size (ls ! i)) then file ! (unat (psl_raw_offset (ls ! i)) + j) else 0)"
proof -
  let ?rva = "unat (psl_virtual_address (ls ! i)) + j"
  let ?P = "\<lambda>(va, virtual_size, raw_offset, raw_size). va \<le> ?rva \<and> ?rva < va + virtual_size"
  let ?row = "\<lambda>l. (unat (psl_virtual_address l), unat (psl_virtual_size l), unat (psl_raw_offset l), unat (psl_raw_size l))"
  have "List.find ?P (map ?row ls) = Some (?row (ls ! i))"
    unfolding find_Some_iff using i j order by (intro exI [of _ i]) fastforce
  then show ?thesis by (simp add: loaded_byte_def table)
qed

section \<open>The image\<close>

lemma fold_place_layout:
  assumes "distinct (map psl_merged_section_index ls)" "\<forall>l \<in> set ls. psl_merged_section_index l < length sections"
  shows "length (fold (place_layout base) ls sections) = length sections \<and>
    (\<forall>k < length sections. k \<notin> psl_merged_section_index ` set ls \<longrightarrow> fold (place_layout base) ls sections ! k = sections ! k) \<and>
    (\<forall>l \<in> set ls. fold (place_layout base) ls sections ! psl_merged_section_index l =
      (sections ! psl_merged_section_index l)\<lparr>ls_virtual_address := base + ucast (psl_virtual_address l)\<rparr>)"
  using assms
proof (induction ls arbitrary: sections)
  case (Cons l ls)
  let ?k = "psl_merged_section_index l"
  have step: "place_layout base l sections = sections[?k := (sections ! ?k)\<lparr>ls_virtual_address := base + ucast (psl_virtual_address l)\<rparr>]"
    by (simp add: place_layout_def)
  have "?k \<notin> psl_merged_section_index ` set ls" "?k < length sections" using Cons.prems by auto
  moreover from this(1) have "?k \<noteq> psl_merged_section_index m" if "m \<in> set ls" for m using that by (metis image_eqI)
  moreover note Cons.IH [of "place_layout base l sections"]
  ultimately show ?case using Cons.prems by (auto simp: step)
qed simp

lemma pe_layout_stage_Inr:
  assumes "pe_layout_stage options r plan = Inr (r', ls, h)"
  obtains layouts size_of_image totals r2 plan2 where
    "pe_collect_sections r = Inr layouts"
    "pe_layout_sections layouts (pe_section_alignment options) (pe_file_alignment options)
       (pe_size_of_headers (length layouts) (pe_file_alignment options)) = (ls, size_of_image, totals)"
    "pe_finalize_imports (pe_apply_layout_to_resolution r ls (pe_image_base options)) plan ls (pe_image_base options) = Inr (r2, plan2)"
    "link_apply_relocations r2 (Some (pe_image_base options)) = Inr r'"
    "phf_size_of_headers h = pe_size_of_headers (length layouts) (pe_file_alignment options)"
proof -
  from assms obtain layouts where layouts: "pe_collect_sections r = Inr layouts"
    unfolding pe_layout_stage_def by (auto simp: and_then_Inr)
  let ?n = "pe_size_of_headers (length layouts) (pe_file_alignment options)"
  obtain l size_of_image totals where
    l: "pe_layout_sections layouts (pe_section_alignment options) (pe_file_alignment options) ?n = (l, size_of_image, totals)"
    by (rule prod_cases3)
  from assms show thesis unfolding pe_layout_stage_def Let_def layouts and_then_simps l prod.case
    using that [OF layouts] l by (auto simp: and_then_Inr split_beta)
qed

text \<open>Every section that takes part in the image has its layout, and its address is the one laid out.\<close>

lemma pe_layout_stage_sections:
  assumes stage: "pe_layout_stage options r plan = Inr (r', ls, h)" and collected: "pe_collect_sections r = Inr layouts"
    and fits: "image_fits (pe_section_alignment options) (pe_file_alignment options)
      (pe_size_of_headers (length layouts) (pe_file_alignment options)) layouts"
    and two: "2 \<le> length (lr_sections r)" and k: "k < length (lr_sections r')"
    and some: "ls_virtual_size (lr_sections r' ! k) \<noteq> 0"
  shows "\<exists>i < length ls. layouts ! i = collect_section k (lr_sections r ! k) \<and> i < length layouts \<and> psl_merged_section_index (ls ! i) = k \<and>
    ls_virtual_address (lr_sections r' ! k) = pe_image_base options + ucast (psl_virtual_address (ls ! i)) \<and>
    k < length (lr_sections r) \<and> ls_virtual_size (lr_sections r' ! k) = ls_virtual_size (lr_sections r ! k) \<and>
    ls_virtual_size (lr_sections r ! k) \<le> 0xFFFFFFFF \<and> ls_kind (lr_sections r' ! k) = ls_kind (lr_sections r ! k) \<and>
    length (ls_data (lr_sections r' ! k)) = length (ls_data (lr_sections r ! k)) \<and>
    (ls_kind (lr_sections r ! k) \<noteq> COFF_SECTION_KIND_BSS \<longrightarrow> length (ls_data (lr_sections r ! k)) \<le> 0xFFFFFFFF)"
proof (rule pe_layout_stage_Inr [OF stage])
  fix ls0 size_of_image totals r2 plan2
  let ?base = "pe_image_base options"
  let ?r1 = "pe_apply_layout_to_resolution r ls ?base"
  assume 1: "pe_collect_sections r = Inr ls0"
    "pe_layout_sections ls0 (pe_section_alignment options) (pe_file_alignment options)
       (pe_size_of_headers (length ls0) (pe_file_alignment options)) = (ls, size_of_image, totals)"
    "pe_finalize_imports ?r1 plan ls ?base = Inr (r2, plan2)" "link_apply_relocations r2 (Some ?base) = Inr r'"
  have ls0: "ls0 = layouts" using 1(1) collected by simp
  note offs = pe_layout_sections_offsets [OF fits 1(2) [unfolded ls0]]
  have sections: "collect_sections 0 (lr_sections r) = Inr layouts"
    using collected by (auto simp: pe_collect_sections_def and_then_Inr split: if_splits)
  note C = collect_sections_Inr [OF sections]
  have idx: "map psl_merged_section_index ls = map psl_merged_section_index layouts"
    using offs(1,6) by (intro nth_equalityI) simp_all
  then have distinct: "distinct (map psl_merged_section_index ls)" using C(3) by simp
  have "\<forall>l \<in> set layouts. psl_merged_section_index l < length (lr_sections r)"
    using C(2) by (fastforce simp: collect_section_def)
  then have "\<forall>n \<in> set (map psl_merged_section_index ls). n < length (lr_sections r)" unfolding idx by simp
  then have range: "\<forall>l \<in> set ls. psl_merged_section_index l < length (lr_sections r)" by simp
  let ?blank = "map (\<lambda>s. s\<lparr>ls_virtual_address := 0\<rparr>) (lr_sections r)"
  note F = fold_place_layout [OF distinct, of ?blank ?base]
  have S1: "lr_sections ?r1 = fold (place_layout ?base) ls ?blank" by (simp add: pe_apply_layout_to_resolution_def Let_def)
  have len1: "length (lr_sections ?r1) = length (lr_sections r)" using F range by (simp add: S1)
  have shape: "same_shape (lr_sections ?r1) (lr_sections r')"
    using same_shape_trans [OF conjunct1 [OF pe_finalize_imports_shape [OF 1(3)]] link_apply_relocations_shape [OF 1(4)]]
      two len1 by simp
  then have klen: "k < length (lr_sections r)" using k len1 by (simp add: same_shape_def)
  have keep: "lr_sections r' ! k = (lr_sections ?r1 ! k)\<lparr>ls_data := ls_data (lr_sections r' ! k)\<rparr>"
    "length (ls_data (lr_sections r' ! k)) = length (ls_data (lr_sections ?r1 ! k))"
    using shape klen len1 by (auto simp: same_shape_def)
  have some1: "ls_virtual_size (lr_sections ?r1 ! k) = ls_virtual_size (lr_sections r' ! k)"
    by (subst keep(1)) simp
  have blank: "?blank ! k = (lr_sections r ! k)\<lparr>ls_virtual_address := 0\<rparr>" using klen by simp
  have at1: "\<exists>a. lr_sections ?r1 ! k = (lr_sections r ! k)\<lparr>ls_virtual_address := a\<rparr>"
  proof (cases "k \<in> psl_merged_section_index ` set ls")
    case True
    then obtain l where "l \<in> set ls" "psl_merged_section_index l = k" by blast
    then show ?thesis using F range blank by (auto simp: S1)
  next
    case False
    then show ?thesis using F range blank klen by (auto simp: S1)
  qed
  then have same: "ls_virtual_size (lr_sections ?r1 ! k) = ls_virtual_size (lr_sections r ! k)"
    "ls_kind (lr_sections ?r1 ! k) = ls_kind (lr_sections r ! k)" "ls_data (lr_sections ?r1 ! k) = ls_data (lr_sections r ! k)"
    by auto
  have member: "collect_section k (lr_sections r ! k) \<in> set layouts" using C(1) [OF klen] some some1 same(1) by simp
  then obtain i where i: "i < length layouts" "layouts ! i = collect_section k (lr_sections r ! k)" by (metis in_set_conv_nth)
  have index: "psl_merged_section_index (ls ! i) = k" using offs(6) [OF i(1)] i(2) by (simp add: collect_section_def)
  have "ls ! i \<in> set ls" using i(1) offs(1) by simp
  then have "ls_virtual_address (lr_sections ?r1 ! k) = ?base + ucast (psl_virtual_address (ls ! i))"
    using F range index by (auto simp: S1)
  moreover have "ls_virtual_address (lr_sections r' ! k) = ls_virtual_address (lr_sections ?r1 ! k)"
    "ls_kind (lr_sections r' ! k) = ls_kind (lr_sections ?r1 ! k)" by (subst keep(1), simp)+
  moreover obtain k' where "collect_section k (lr_sections r ! k) = collect_section k' (lr_sections r ! k')"
    "ls_virtual_size (lr_sections r ! k') \<le> 0xFFFFFFFF"
    "ls_kind (lr_sections r ! k') \<noteq> COFF_SECTION_KIND_BSS \<longrightarrow> length (ls_data (lr_sections r ! k')) \<le> 0xFFFFFFFF"
    using C(2) [OF member] by blast
  then have "ls_virtual_size (lr_sections r ! k) \<le> 0xFFFFFFFF"
    "ls_kind (lr_sections r ! k) \<noteq> COFF_SECTION_KIND_BSS \<longrightarrow> length (ls_data (lr_sections r ! k)) \<le> 0xFFFFFFFF"
    by (auto simp: collect_section_def)
  ultimately show ?thesis using i index klen offs(1) keep(2) some1 same by auto
qed

lemma pe_write_headers_Inr:
  assumes "pe_write_headers h ls = Inr file" "length ls < 2 ^ 16"
  obtains post where "file = fixed_headers h (length ls) @ concat (map pe_section_header ls) @ post"
    "length file = unat (phf_size_of_headers h)"
proof -
  let ?w = "fixed_headers h (length ls) @ concat (map pe_section_header ls)"
  have len: "length ?w = 392 + 40 * length ls"
    by (simp add: length_fixed_headers length_concat comp_def length_pe_section_header sum_list_triv)
  have bound: "of_nat (length ?w) \<le> phf_size_of_headers h"
    using assms(1) by (auto simp: pe_write_headers_def Let_def not_less split: if_splits)
  have small: "unat (of_nat (length ?w) :: u32) = length ?w" using assms(2) unfolding len by (intro unat_of_nat_u32) simp
  let ?pad = "replicate (unat (phf_size_of_headers h - of_nat (length ?w))) (0 :: u8)"
  have "file = ?w @ ?pad" using assms(1) by (auto simp: pe_write_headers_def Let_def split: if_splits)
  moreover have "length ?w + length ?pad = unat (phf_size_of_headers h)"
    using bound by (simp only: length_replicate unat_sub small word_le_nat_alt)
  ultimately show thesis using that [of ?pad] by simp
qed

lemma pe_write_read: "pe_write_headers h ls = Inr bs \<Longrightarrow> pe_write_payloads sections ls bs = Inr bs' \<Longrightarrow>
    packed (unat (phf_size_of_headers h)) ls \<Longrightarrow> length ls < 2 ^ 16 \<Longrightarrow>
    section_table bs' = map (\<lambda>l. (unat (psl_virtual_address l), unat (psl_virtual_size l),
      unat (psl_raw_offset l), unat (psl_raw_size l))) ls \<and>
    (\<forall>l \<in> set ls. psl_raw_size l \<noteq> 0 \<longrightarrow> stored_at bs' l (ls_data (sections ! psl_merged_section_index l)))"
  using pe_write_payloads_stored [of sections ls bs bs' "unat (phf_size_of_headers h)"]
  by (elim pe_write_headers_Inr) (auto intro: section_table_written)

lemma pe_layout_packed:
  assumes fits: "image_fits sa fa n layouts" and out: "pe_layout_sections layouts sa fa n = (ls, size_of_image, totals)"
    and "power_of_two (unat sa)" "power_of_two (unat fa)"
  shows "packed (unat n) ls"
proof (rule packedI)
  fix i assume i: "i < length ls" and stored: "psl_raw_size (ls ! i) \<noteq> 0"
  note offs = pe_layout_sections_offsets [OF fits out]
  have orig: "psl_raw_size (layouts ! j) \<noteq> 0" if "psl_raw_size (ls ! j) \<noteq> 0" "j < length ls" for j
    using offs(5) [of j] that offs(1) by (auto simp: raw_room_def word_unat_eq_iff split: if_splits)
  have "raw_at fa n layouts i + raw_room fa (layouts ! i) \<le>
      linker_align_up (unat n) (unat fa) + sum_list (map (raw_room fa) layouts)"
    using sum_list_take_mono [of i "length layouts" layouts "raw_room fa"] i offs(1) by (simp add: raw_at_def)
  then have "unat (psl_raw_offset (ls ! i)) + unat (psl_raw_size (ls ! i)) < 2 ^ 32"
    using offs(4,5) [of i] orig [OF stored i] i offs(1) fits by (simp add: image_fits_def)
  with laid_out [OF out assms(3,4) fits i] orig [OF stored i] show "unat n \<le> unat (psl_raw_offset (ls ! i)) \<and>
      unat (psl_raw_offset (ls ! i)) + unat (psl_raw_size (ls ! i)) < 2 ^ 32 \<and>
      (\<forall>j < i. psl_raw_size (ls ! j) \<noteq> 0 \<longrightarrow>
        unat (psl_raw_offset (ls ! j)) + unat (psl_raw_size (ls ! j)) \<le> unat (psl_raw_offset (ls ! i)))"
    using orig i by auto
qed

text \<open>A section of the relocated resolution, read from the file by the loader.\<close>

lemma pe_collect_sections_length:
  assumes "pe_collect_sections r = Inr layouts"
  shows "length layouts \<le> length (lr_sections r)"
proof -
  have "collect_sections 0 (lr_sections r) = Inr layouts"
    using assms by (auto simp: pe_collect_sections_def and_then_Inr split: if_splits)
  from conjunct1 [OF collect_sections_closed [OF this]] show ?thesis
    by (simp add: le_trans [OF length_filter_le])
qed

lemma section_loads:
  assumes stage: "pe_layout_stage options r plan = Inr (r', ls, h)" and collected: "pe_collect_sections r = Inr layouts"
    and fits: "image_fits (pe_section_alignment options) (pe_file_alignment options)
      (pe_size_of_headers (length layouts) (pe_file_alignment options)) layouts"
    and sa: "power_of_two (unat (pe_section_alignment options))" and fa: "power_of_two (unat (pe_file_alignment options))"
    and count: "2 \<le> length (lr_sections r)" "length (lr_sections r) < 2 ^ 16"
    and headers: "pe_write_headers h ls = Inr written" and payloads: "pe_write_payloads (lr_sections r') ls written = Inr file"
    and s: "s = lr_sections r' ! k" "k < length (lr_sections r')" "ls_kind s = COFF_SECTION_KIND_BSS \<longrightarrow> ls_data s = []"
    and j: "j < ls_virtual_size s"
  shows "loaded_byte file (unat (ls_virtual_address s - pe_image_base options) + j) =
    Some (if j < length (ls_data s) then ls_data s ! j else 0)"
proof -
  have "ls_virtual_size (lr_sections r' ! k) \<noteq> 0" using j s(1) by simp
  from pe_layout_stage_sections [OF stage collected fits count(1) s(2) this] obtain i where
    i: "i < length ls" "layouts ! i = collect_section k (lr_sections r ! k)" "i < length layouts"
    and index: "psl_merged_section_index (ls ! i) = k"
    and va: "ls_virtual_address s = pe_image_base options + ucast (psl_virtual_address (ls ! i))"
    and vs: "ls_virtual_size s = ls_virtual_size (lr_sections r ! k)" "ls_virtual_size (lr_sections r ! k) \<le> 0xFFFFFFFF"
    and kind: "ls_kind s = ls_kind (lr_sections r ! k)" and data: "length (ls_data s) = length (ls_data (lr_sections r ! k))"
    and raw: "ls_kind (lr_sections r ! k) \<noteq> COFF_SECTION_KIND_BSS \<longrightarrow> length (ls_data (lr_sections r ! k)) \<le> 0xFFFFFFFF"
    unfolding s(1) [symmetric] by blast
  obtain size_of_image totals where
    out: "pe_layout_sections layouts (pe_section_alignment options) (pe_file_alignment options)
       (pe_size_of_headers (length layouts) (pe_file_alignment options)) = (ls, size_of_image, totals)"
    and size: "phf_size_of_headers h = pe_size_of_headers (length layouts) (pe_file_alignment options)"
    using pe_layout_stage_Inr [OF stage] collected by (metis sum.inject(2))
  note offs = pe_layout_sections_offsets [OF fits out] and packed = pe_layout_packed [OF fits out sa fa]
  have "length ls < 2 ^ 16" using pe_collect_sections_length [OF collected] offs(1) count(2) by simp
  note read = pe_write_read [OF headers payloads packed [folded size] this]
  have vsize: "unat (psl_virtual_size (ls ! i)) = ls_virtual_size s"
    using offs(6) [OF i(3)] i(2) vs by (simp add: collect_section_def unat_of_nat)
  have "unat (psl_virtual_address (ls ! i)) < 2 ^ 32" using unsigned_less [of "psl_virtual_address (ls ! i)"] by simp
  then have rva: "unat (ls_virtual_address s - pe_image_base options) = unat (psl_virtual_address (ls ! i))"
    by (simp add: va unsigned_ucast_eq take_bit_nat_eq_self)
  have load: "loaded_byte file (unat (ls_virtual_address s - pe_image_base options) + j) =
      Some (if j < unat (psl_raw_size (ls ! i)) then file ! (unat (psl_raw_offset (ls ! i)) + j) else 0)"
    unfolding rva using j laid_out [OF out sa fa fits i(1)]
    by (intro loaded_byte_section [OF conjunct1 [OF read] i(1)]) (simp_all add: vsize)
  have stored: "unat (psl_raw_size (layouts ! i)) = length (ls_data s)"
    using s(3) raw kind data i(2) by (auto simp: collect_section_def unat_of_nat)
  have room: "length (ls_data s) \<le> unat (psl_raw_size (ls ! i))"
    using laid_out [OF out sa fa fits i(1)] stored by (cases "psl_raw_size (layouts ! i) = 0") auto
  show ?thesis
  proof (cases "psl_raw_size (ls ! i) = 0")
    case True
    then show ?thesis using load room by simp
  next
    case False
    then have "stored_at file (ls ! i) (ls_data s)" using read i(1) index s(1) by auto
    then show ?thesis using room unfolding load by (auto simp: stored_at_def)
  qed
qed

text \<open>(C16) The emitted file loads as the linked program: for every section of the relocated resolution that the writer
  is given, each byte the loader finds at the address of the section is the byte of the section, and zero where the
  section stores none. The image fits into 32-bit offsets, the alignments are powers of two, and the section of
  uninitialised data stores nothing.\<close>

theorem image_loads:
  assumes "pe_emit_executable read_file exports r0 path options = Inr file"
    and "pe_import_stage read_file exports r0 options = Inr (r, plan)"
    and "pe_layout_stage options r plan = Inr (r', ls, h)" and "pe_collect_sections r = Inr layouts"
    and "image_fits (pe_section_alignment options) (pe_file_alignment options)
      (pe_size_of_headers (length layouts) (pe_file_alignment options)) layouts"
    and "power_of_two (unat (pe_section_alignment options))" and "power_of_two (unat (pe_file_alignment options))"
    and "2 \<le> length (lr_sections r)" "length (lr_sections r) < 2 ^ 16"
    and "s = lr_sections r' ! k" "k < length (lr_sections r')" "ls_kind s = COFF_SECTION_KIND_BSS \<longrightarrow> ls_data s = []"
    and "j < ls_virtual_size s"
  shows "loaded_byte file (unat (ls_virtual_address s - pe_image_base options) + j) =
    Some (if j < length (ls_data s) then ls_data s ! j else 0)"
proof -
  obtain written where "pe_write_headers h ls = Inr written" "pe_write_payloads (lr_sections r') ls written = Inr file"
    using assms(1-3) by (auto simp: pe_emit_executable_def and_then_Inr split: if_splits)
  from section_loads [OF assms(3-9) this assms(10-13)] show ?thesis .
qed

text \<open>A program of one instruction, with four bytes of uninitialised data.\<close>

definition sample_program :: LinkResolution where
  "sample_program =
     (let entry = \<lparr>lsym_name = ''main'', lsym_is_defined = True, lsym_is_external = True, lsym_defining_object_index = Some 0,
            lsym_defining_symbol_index = Some 0, lsym_merged_section_index = Some 0, lsym_merged_offset = 0, lsym_virtual_address = 0\<rparr>
      in \<lparr>lr_objects = [], lr_sections = [sample_section COFF_SECTION_KIND_TEXT 1 1, sample_section COFF_SECTION_KIND_BSS 0 4],
          lr_symbols = [entry], lr_entry_symbol = Some entry\<rparr>)"

lemmas sample_defs = sample_program_def Let_def sample_section_def

lemma sample_stages:
  "pe_import_stage read_file exports sample_program None = Inr (sample_program, empty_import_plan)"
  "pe_collect_sections sample_program =
     Inr [collect_section 0 (lr_sections sample_program ! 0), collect_section 1 (lr_sections sample_program ! 1)]"
  by (simp_all add: sample_defs pe_import_stage_def pe_load_import_libraries_def pe_build_import_plan_def
      pe_emit_import_storage_def empty_import_plan_def pe_validate_unresolved_externals_def pe_collect_sections_def)

lemma sample_layout:
  "\<exists>r' ls h. pe_layout_stage None sample_program empty_import_plan = Inr (r', ls, h) \<and>
     lr_sections r' = [(sample_section COFF_SECTION_KIND_TEXT 1 1)\<lparr>ls_virtual_address := 0x140001000\<rparr>,
       (sample_section COFF_SECTION_KIND_BSS 0 4)\<lparr>ls_virtual_address := 0x140002000\<rparr>] \<and>
     phf_size_of_headers h = 0x200 \<and> map psl_raw_size ls = [0x200, 0] \<and> map psl_raw_offset ls = [0x200, 0] \<and>
     map psl_merged_section_index ls = [0, 1]"
  unfolding pe_layout_stage_def sample_stages and_then_simps
  by (simp add: sample_defs pe_size_of_headers_def pe_section_alignment_def pe_file_alignment_def option_or_def
      align_u32_def default_alignments pe_layout_sections_def layout_section_def collect_section_def count_section_def
      pe_apply_layout_to_resolution_def place_layout_def pe_finalize_imports_def empty_import_plan_def
      pe_exception_directory_def pe_find_layout_def link_apply_relocations_def pe_image_base_def)

theorem image_loads_witness:
  "\<exists>file. pe_emit_executable (\<lambda>_. None) None sample_program ''a.exe'' None = Inr file \<and>
     loaded_byte file 0x1000 = Some 0x90 \<and> loaded_byte file 0x2003 = Some 0"
proof -
  from sample_layout obtain r' ls h where stage: "pe_layout_stage None sample_program empty_import_plan = Inr (r', ls, h)"
    and sections: "lr_sections r' = [(sample_section COFF_SECTION_KIND_TEXT 1 1)\<lparr>ls_virtual_address := 0x140001000\<rparr>,
       (sample_section COFF_SECTION_KIND_BSS 0 4)\<lparr>ls_virtual_address := 0x140002000\<rparr>]"
    and h: "phf_size_of_headers h = 0x200"
    and ls: "map psl_raw_size ls = [0x200, 0]" "map psl_raw_offset ls = [0x200, 0]" "map psl_merged_section_index ls = [0, 1]"
    by (elim exE conjE)
  obtain a b where ab: "ls = [a, b]" using ls(1) by auto
  let ?w = "fixed_headers h (Suc (Suc 0)) @ concat (map pe_section_header ls)"
  have written: "pe_write_headers h ls = Inr (?w @ replicate 40 0)"
    by (simp add: pe_write_headers_def h ab length_fixed_headers length_pe_section_header)
  let ?f = "?w @ replicate 40 0 @ [0x90] @ replicate 511 0"
  have "pe_write_payloads (lr_sections r') ls (?w @ replicate 40 0) = Inr ?f"
    using ls by (simp add: ab sections sample_section_def length_fixed_headers length_pe_section_header)
  moreover have entry: "entry_symbol sample_program = Some (lr_symbols sample_program ! 0)"
    by (simp add: sample_defs entry_symbol_def link_resolution_find_symbol_def)
  ultimately have emit: "pe_emit_executable (\<lambda>_. None) None sample_program ''a.exe'' None = Inr ?f"
    unfolding pe_emit_executable_def sample_stages and_then_simps prod.case stage written entry
    by (simp add: sample_defs pe_section_alignment_def pe_file_alignment_def option_or_def)
  have fits: "image_fits (pe_section_alignment None) (pe_file_alignment None) (pe_size_of_headers (length layouts) (pe_file_alignment None)) layouts"
    if "layouts = [collect_section 0 (lr_sections sample_program ! 0), collect_section 1 (lr_sections sample_program ! 1)]" for layouts
    by (simp add: that image_fits_def collect_section_def sample_defs rva_room_def raw_room_def default_alignments align_u32_def
        pe_size_of_headers_def pe_section_alignment_def pe_file_alignment_def option_or_def)
  have pow: "power_of_two (unat (pe_section_alignment None))" "power_of_two (unat (pe_file_alignment None))"
    using power_of_twoI [of 12] power_of_twoI [of 9] by (simp_all add: pe_section_alignment_def pe_file_alignment_def option_or_def)
  have two: "2 \<le> length (lr_sections sample_program)" "length (lr_sections sample_program) < 2 ^ 16" by (simp_all add: sample_defs)
  note loads = image_loads [OF emit sample_stages(1) stage sample_stages(2) fits [OF refl] pow two refl]
  have "loaded_byte ?f 0x1000 = Some 0x90" using loads [of 0 0] by (simp add: sections sample_section_def pe_image_base_def option_or_def)
  moreover have "loaded_byte ?f 0x2003 = Some 0" using loads [of 1 3] by (simp add: sections sample_section_def pe_image_base_def option_or_def)
  ultimately show ?thesis using emit by blast
qed

end
