(* ===== verification/Ast.thy ===== *)
theory Ast
  imports Mettle_Prelude
begin

text \<open>
  The syntax tree, \<^verbatim>\<open>src/src/parser/ast.h\<close> and \<^verbatim>\<open>src/src/parser/ast.c\<close>: nodes, their constructors and deep
  copies. A node is a tree whose constructor is the kind of the node and whose arguments are the fields of its data;
  the array of children, which repeats the links in the data, and the type cached by the checker are left out, as is
  memory management. The value of a floating-point literal is kept as the text given to \<open>atof\<close>. A node whose data is
  NULL, where every such node of its kind has data, is an \<open>EmptyNode\<close>.
\<close>

section \<open>Nodes\<close>

record SourceLocation =
  loc_line :: nat
  loc_column :: nat

datatype ASTNodeType = AST_ENUM_DECLARATION | AST_METHOD_DECLARATION | AST_MATCH_STATEMENT

type_synonym parameter_list = "(string \<times> string) list"

type_synonym type_parameters = "(string \<times> string option) list"

datatype 'a MatchArm = MatchArm (arm_variant_name: string) (arm_binding_name: "string option") (arm_body: 'a) (arm_is_default: bool)

datatype 'a EnumVariant =
  EnumVariant (ev_name: string) (ev_value: "'a option") (ev_payload_type: "string option")

datatype (plugins only: code) ASTNode =
    EmptyNode ASTNodeType SourceLocation
  | Program SourceLocation "ASTNode list"
  | ImportDeclaration SourceLocation string "string option" "string list"
  | ImportStr SourceLocation string
  | VarDeclaration SourceLocation string "string option" "ASTNode option" bool bool
      "string option"
  | FunctionDeclaration SourceLocation string parameter_list "string option" "ASTNode option"
      bool bool "string option" type_parameters
  | StructDeclaration SourceLocation string "(string \<times> string) list" "ASTNode list" bool
      type_parameters
  | EnumDeclaration SourceLocation string "ASTNode EnumVariant list" bool "string list"
  | TraitDeclaration SourceLocation string bool "ASTNode list"
  | ImplDeclaration SourceLocation string string "ASTNode list"
  | MethodDeclaration SourceLocation string parameter_list "string option" "ASTNode option"
  | Assignment SourceLocation "string option" ASTNode "ASTNode option"
  | CallExpression SourceLocation string "ASTNode list" "ASTNode option" "string list"
  | FuncPtrCall SourceLocation ASTNode "ASTNode list"
  | ReturnStatement SourceLocation "ASTNode option"
  | IfStatement SourceLocation ASTNode ASTNode "(ASTNode \<times> ASTNode) list" "ASTNode option"
  | WhileStatement SourceLocation ASTNode ASTNode "string option"
  | ForStatement SourceLocation "ASTNode option" "ASTNode option" "ASTNode option" ASTNode "string option"
  | SwitchStatement SourceLocation ASTNode "ASTNode list"
  | CaseClause SourceLocation "ASTNode option" ASTNode bool
  | MatchStatement SourceLocation ASTNode "ASTNode MatchArm list" bool
  | BreakStatement SourceLocation "string option"
  | ContinueStatement SourceLocation "string option"
  | DeferStatement SourceLocation ASTNode
  | ErrdeferStatement SourceLocation ASTNode
  | InlineAsm SourceLocation string
  | Identifier SourceLocation string
  | NumberLiteral SourceLocation u64 nat
  | FloatLiteral SourceLocation string
  | StringLiteral SourceLocation string
  | BinaryExpression SourceLocation ASTNode string ASTNode
  | UnaryExpression SourceLocation string ASTNode
  | MemberAccess SourceLocation ASTNode string
  | ArrayIndexExpression SourceLocation ASTNode ASTNode
  | NewExpression SourceLocation string
  | CastExpression SourceLocation string ASTNode

section \<open>Constructors\<close>

definition ast_create_program :: "ASTNode list \<Rightarrow> ASTNode" where
  "ast_create_program declarations = Program \<lparr>loc_line = 0, loc_column = 0\<rparr> declarations"

definition ast_create_import_declaration :: "string \<Rightarrow> string option \<Rightarrow> string list \<Rightarrow> SourceLocation \<Rightarrow> ASTNode" where
  "ast_create_import_declaration module_name namespace_alias selected_names location =
     ImportDeclaration location module_name namespace_alias selected_names"

definition ast_create_var_declaration :: "string \<Rightarrow> string option \<Rightarrow> ASTNode option \<Rightarrow> SourceLocation \<Rightarrow> ASTNode" where
  "ast_create_var_declaration name type_name initializer location =
     VarDeclaration location name type_name initializer False False None"

definition ast_create_function_declaration ::
    "string \<Rightarrow> parameter_list \<Rightarrow> string option \<Rightarrow> ASTNode option \<Rightarrow> SourceLocation \<Rightarrow> ASTNode" where
  "ast_create_function_declaration name params return_type body location =
     FunctionDeclaration location name params return_type body False False None []"

definition ast_create_struct_declaration ::
    "string \<Rightarrow> (string \<times> string) list \<Rightarrow> ASTNode list \<Rightarrow> SourceLocation \<Rightarrow> ASTNode" where
  "ast_create_struct_declaration name struct_fields methods location =
     StructDeclaration location name struct_fields methods False []"

definition ast_create_enum_declaration :: "string \<Rightarrow> ASTNode EnumVariant list \<Rightarrow> SourceLocation \<Rightarrow> ASTNode" where
  "ast_create_enum_declaration name variants location = EnumDeclaration location name variants False []"

definition ast_create_trait_declaration :: "string \<Rightarrow> SourceLocation \<Rightarrow> ASTNode" where
  "ast_create_trait_declaration name location = TraitDeclaration location name False []"

definition ast_create_impl_declaration :: "string \<Rightarrow> string \<Rightarrow> SourceLocation \<Rightarrow> ASTNode" where
  "ast_create_impl_declaration trait_name for_type_name location = ImplDeclaration location trait_name for_type_name []"

definition ast_create_assignment :: "string \<Rightarrow> ASTNode \<Rightarrow> SourceLocation \<Rightarrow> ASTNode" where
  "ast_create_assignment variable_name value location = Assignment location (Some variable_name) value None"

definition ast_create_field_assignment :: "ASTNode \<Rightarrow> ASTNode \<Rightarrow> SourceLocation \<Rightarrow> ASTNode" where
  "ast_create_field_assignment target value location = Assignment location None value (Some target)"

definition ast_create_inline_asm :: "string \<Rightarrow> SourceLocation \<Rightarrow> ASTNode" where
  "ast_create_inline_asm assembly_code location = InlineAsm location assembly_code"

definition ast_create_for_statement ::
    "ASTNode option \<Rightarrow> ASTNode option \<Rightarrow> ASTNode option \<Rightarrow> ASTNode \<Rightarrow> SourceLocation \<Rightarrow> ASTNode" where
  "ast_create_for_statement initializer condition increment body location =
     ForStatement location initializer condition increment body None"

definition ast_create_case_clause :: "ASTNode option \<Rightarrow> ASTNode \<Rightarrow> bool \<Rightarrow> SourceLocation \<Rightarrow> ASTNode" where
  "ast_create_case_clause value body is_default location = CaseClause location value body is_default"

definition ast_create_switch_statement :: "ASTNode \<Rightarrow> ASTNode list \<Rightarrow> SourceLocation \<Rightarrow> ASTNode" where
  "ast_create_switch_statement expression cases location = SwitchStatement location expression cases"

definition ast_create_labeled_break_statement :: "string option \<Rightarrow> SourceLocation \<Rightarrow> ASTNode" where
  "ast_create_labeled_break_statement label location = BreakStatement location label"

definition ast_create_labeled_continue_statement :: "string option \<Rightarrow> SourceLocation \<Rightarrow> ASTNode" where
  "ast_create_labeled_continue_statement label location = ContinueStatement location label"

definition ast_create_defer_statement :: "ASTNode \<Rightarrow> SourceLocation \<Rightarrow> ASTNode" where
  "ast_create_defer_statement statement location = DeferStatement location statement"

definition ast_create_errdefer_statement :: "ASTNode \<Rightarrow> SourceLocation \<Rightarrow> ASTNode" where
  "ast_create_errdefer_statement statement location = ErrdeferStatement location statement"

definition ast_create_identifier :: "string \<Rightarrow> SourceLocation \<Rightarrow> ASTNode" where
  "ast_create_identifier name location = Identifier location name"

definition ast_create_number_literal :: "u64 \<Rightarrow> SourceLocation \<Rightarrow> nat \<Rightarrow> ASTNode" where
  "ast_create_number_literal int_value location int_radix =
     NumberLiteral location int_value (if int_radix = 2 \<or> int_radix = 16 then int_radix else 10)"

definition ast_create_float_literal :: "string \<Rightarrow> SourceLocation \<Rightarrow> ASTNode" where
  "ast_create_float_literal float_text location = FloatLiteral location float_text"

definition ast_create_string_literal :: "string \<Rightarrow> SourceLocation \<Rightarrow> ASTNode" where
  "ast_create_string_literal value location = StringLiteral location value"

definition ast_create_import_str :: "string \<Rightarrow> SourceLocation \<Rightarrow> ASTNode" where
  "ast_create_import_str file_path location = ImportStr location file_path"

definition ast_create_binary_expression :: "ASTNode \<Rightarrow> string \<Rightarrow> ASTNode \<Rightarrow> SourceLocation \<Rightarrow> ASTNode" where
  "ast_create_binary_expression left op right location = BinaryExpression location left op right"

definition ast_create_unary_expression :: "string \<Rightarrow> ASTNode \<Rightarrow> SourceLocation \<Rightarrow> ASTNode" where
  "ast_create_unary_expression op operand location = UnaryExpression location op operand"

definition ast_create_member_access :: "ASTNode \<Rightarrow> string \<Rightarrow> SourceLocation \<Rightarrow> ASTNode" where
  "ast_create_member_access object member location = MemberAccess location object member"

definition ast_create_array_index_expression :: "ASTNode \<Rightarrow> ASTNode \<Rightarrow> SourceLocation \<Rightarrow> ASTNode" where
  "ast_create_array_index_expression array index location = ArrayIndexExpression location array index"

definition ast_create_call_expression :: "string \<Rightarrow> ASTNode list \<Rightarrow> SourceLocation \<Rightarrow> ASTNode" where
  "ast_create_call_expression function_name arguments location = CallExpression location function_name arguments None []"

definition ast_create_method_call :: "ASTNode \<Rightarrow> string \<Rightarrow> ASTNode list \<Rightarrow> SourceLocation \<Rightarrow> ASTNode" where
  "ast_create_method_call object method_name arguments location =
     CallExpression location method_name arguments (Some object) []"

definition ast_create_new_expression :: "string \<Rightarrow> SourceLocation \<Rightarrow> ASTNode" where
  "ast_create_new_expression type_name location = NewExpression location type_name"

definition ast_create_cast_expression :: "string \<Rightarrow> ASTNode \<Rightarrow> SourceLocation \<Rightarrow> ASTNode" where
  "ast_create_cast_expression type_name operand location = CastExpression location type_name operand"

definition ast_create_match_statement :: "ASTNode \<Rightarrow> ASTNode MatchArm list \<Rightarrow> SourceLocation \<Rightarrow> ASTNode" where
  "ast_create_match_statement expression arms location = MatchStatement location expression arms False"

definition ast_create_match_expression :: "ASTNode \<Rightarrow> ASTNode MatchArm list \<Rightarrow> SourceLocation \<Rightarrow> ASTNode" where
  "ast_create_match_expression expression arms location = MatchStatement location expression arms True"

lemmas ast_create_defs = ast_create_identifier_def ast_create_float_literal_def ast_create_string_literal_def
  ast_create_import_str_def ast_create_binary_expression_def ast_create_unary_expression_def
  ast_create_member_access_def ast_create_array_index_expression_def ast_create_call_expression_def
  ast_create_method_call_def ast_create_new_expression_def ast_create_cast_expression_def ast_create_match_expression_def

section \<open>Deep copies\<close>

text \<open>The kinds without a case of their own are copied with their location only.\<close>

primrec ast_clone_node :: "ASTNode \<Rightarrow> ASTNode" where
  "ast_clone_node (EmptyNode t l) = EmptyNode t l"
| "ast_clone_node (Program l declarations) = Program l (map ast_clone_node declarations)"
| "ast_clone_node (ImportDeclaration l module_name namespace_alias selected_names) =
     ImportDeclaration l module_name namespace_alias selected_names"
| "ast_clone_node (ImportStr l file_path) = ImportStr l file_path"
| "ast_clone_node (VarDeclaration l name type_name initializer is_extern is_exported link_name) =
     VarDeclaration l name type_name (map_option ast_clone_node initializer) is_extern is_exported link_name"
| "ast_clone_node (FunctionDeclaration l name params return_type body is_exported is_extern link_name type_params) =
     FunctionDeclaration l name params return_type (map_option ast_clone_node body) is_exported is_extern link_name type_params"
| "ast_clone_node (StructDeclaration l name struct_fields methods is_exported type_params) =
     StructDeclaration l name struct_fields (map ast_clone_node methods) is_exported type_params"
| "ast_clone_node (EnumDeclaration l name variants is_exported type_params) = EmptyNode AST_ENUM_DECLARATION l"
| "ast_clone_node (TraitDeclaration l name is_exported methods) = TraitDeclaration l name is_exported (map ast_clone_node methods)"
| "ast_clone_node (ImplDeclaration l trait_name for_type_name methods) =
     ImplDeclaration l trait_name for_type_name (map ast_clone_node methods)"
| "ast_clone_node (MethodDeclaration l name params return_type body) = EmptyNode AST_METHOD_DECLARATION l"
| "ast_clone_node (Assignment l variable_name value target) =
     Assignment l variable_name (ast_clone_node value) (map_option ast_clone_node target)"
| "ast_clone_node (CallExpression l function_name arguments object type_args) =
     CallExpression l function_name (map ast_clone_node arguments) (map_option ast_clone_node object) type_args"
| "ast_clone_node (FuncPtrCall l callee arguments) = FuncPtrCall l (ast_clone_node callee) (map ast_clone_node arguments)"
| "ast_clone_node (ReturnStatement l value) = ReturnStatement l (map_option ast_clone_node value)"
| "ast_clone_node (IfStatement l condition then_branch else_ifs else_branch) =
     IfStatement l (ast_clone_node condition) (ast_clone_node then_branch)
       (map (map_prod ast_clone_node ast_clone_node) else_ifs) (map_option ast_clone_node else_branch)"
| "ast_clone_node (WhileStatement l condition body label) =
     WhileStatement l (ast_clone_node condition) (ast_clone_node body) label"
| "ast_clone_node (ForStatement l initializer condition increment body label) =
     ForStatement l (map_option ast_clone_node initializer) (map_option ast_clone_node condition)
       (map_option ast_clone_node increment) (ast_clone_node body) label"
| "ast_clone_node (SwitchStatement l expression cases) = SwitchStatement l (ast_clone_node expression) (map ast_clone_node cases)"
| "ast_clone_node (CaseClause l value body is_default) =
     CaseClause l (map_option ast_clone_node value) (ast_clone_node body) is_default"
| "ast_clone_node (MatchStatement l expression arms is_expression) = EmptyNode AST_MATCH_STATEMENT l"
| "ast_clone_node (BreakStatement l label) = BreakStatement l label"
| "ast_clone_node (ContinueStatement l label) = ContinueStatement l label"
| "ast_clone_node (DeferStatement l statement) = DeferStatement l (ast_clone_node statement)"
| "ast_clone_node (ErrdeferStatement l statement) = ErrdeferStatement l (ast_clone_node statement)"
| "ast_clone_node (InlineAsm l assembly_code) = InlineAsm l assembly_code"
| "ast_clone_node (Identifier l name) = Identifier l name"
| "ast_clone_node (NumberLiteral l value radix) = NumberLiteral l value radix"
| "ast_clone_node (FloatLiteral l value) = FloatLiteral l value"
| "ast_clone_node (StringLiteral l value) = StringLiteral l value"
| "ast_clone_node (BinaryExpression l left op right) = BinaryExpression l (ast_clone_node left) op (ast_clone_node right)"
| "ast_clone_node (UnaryExpression l op operand) = UnaryExpression l op (ast_clone_node operand)"
| "ast_clone_node (MemberAccess l object member) = MemberAccess l (ast_clone_node object) member"
| "ast_clone_node (ArrayIndexExpression l arr index) = ArrayIndexExpression l (ast_clone_node arr) (ast_clone_node index)"
| "ast_clone_node (NewExpression l type_name) = NewExpression l type_name"
| "ast_clone_node (CastExpression l type_name operand) = CastExpression l type_name (ast_clone_node operand)"

text \<open>The trees without the kinds that have no case.\<close>

primrec copyable :: "ASTNode \<Rightarrow> bool" where
  "copyable (EmptyNode t l) = True"
| "copyable (Program l ds) = list_all (\<lambda>b. b) (map copyable ds)"
| "copyable (ImportDeclaration l m n ss) = True"
| "copyable (ImportStr l f) = True"
| "copyable (VarDeclaration l n t i e x k) = pred_option (\<lambda>b. b) (map_option copyable i)"
| "copyable (FunctionDeclaration l n ps r b x e k ts) = pred_option (\<lambda>b. b) (map_option copyable b)"
| "copyable (StructDeclaration l n fs ms x ts) = list_all (\<lambda>b. b) (map copyable ms)"
| "copyable (EnumDeclaration l n vs x ts) = False"
| "copyable (TraitDeclaration l n x ms) = list_all (\<lambda>b. b) (map copyable ms)"
| "copyable (ImplDeclaration l t f ms) = list_all (\<lambda>b. b) (map copyable ms)"
| "copyable (MethodDeclaration l n ps r b) = False"
| "copyable (Assignment l n v t) = (copyable v \<and> pred_option (\<lambda>b. b) (map_option copyable t))"
| "copyable (CallExpression l f as ob ts) =
     (list_all (\<lambda>b. b) (map copyable as) \<and> pred_option (\<lambda>b. b) (map_option copyable ob))"
| "copyable (FuncPtrCall l f as) = (copyable f \<and> list_all (\<lambda>b. b) (map copyable as))"
| "copyable (ReturnStatement l v) = pred_option (\<lambda>b. b) (map_option copyable v)"
| "copyable (IfStatement l c t es e) = (copyable c \<and> copyable t \<and>
     list_all (\<lambda>(a, b). a \<and> b) (map (map_prod copyable copyable) es) \<and> pred_option (\<lambda>b. b) (map_option copyable e))"
| "copyable (WhileStatement l c b n) = (copyable c \<and> copyable b)"
| "copyable (ForStatement l i c s b n) = (pred_option (\<lambda>b. b) (map_option copyable i) \<and>
     pred_option (\<lambda>b. b) (map_option copyable c) \<and> pred_option (\<lambda>b. b) (map_option copyable s) \<and> copyable b)"
| "copyable (SwitchStatement l e cs) = (copyable e \<and> list_all (\<lambda>b. b) (map copyable cs))"
| "copyable (CaseClause l v b d) = (pred_option (\<lambda>b. b) (map_option copyable v) \<and> copyable b)"
| "copyable (MatchStatement l e as x) = False"
| "copyable (BreakStatement l n) = True"
| "copyable (ContinueStatement l n) = True"
| "copyable (DeferStatement l s) = copyable s"
| "copyable (ErrdeferStatement l s) = copyable s"
| "copyable (InlineAsm l c) = True"
| "copyable (Identifier l n) = True"
| "copyable (NumberLiteral l v r) = True"
| "copyable (FloatLiteral l v) = True"
| "copyable (StringLiteral l v) = True"
| "copyable (BinaryExpression l a op b) = (copyable a \<and> copyable b)"
| "copyable (UnaryExpression l op a) = copyable a"
| "copyable (MemberAccess l a m) = copyable a"
| "copyable (ArrayIndexExpression l a i) = (copyable a \<and> copyable i)"
| "copyable (NewExpression l t) = True"
| "copyable (CastExpression l t a) = copyable a"

lemma map_eq_self: "map f xs = xs \<longleftrightarrow> (\<forall>x \<in> set xs. f x = x)"
  by (induction xs) auto

lemma map_option_eq_self: "map_option f x = x \<longleftrightarrow> (\<forall>y \<in> set_option x. f y = y)"
  by (cases x) auto

text \<open>(C24) Deep copies are exact for exactly the trees without enumerations, methods of structs and \<open>match\<close>: a node of
  those kinds loses its contents.\<close>

theorem ast_clone_exact: "ast_clone_node n = n \<longleftrightarrow> copyable n"
  by (induction n) (auto simp: map_eq_self map_option_eq_self list_all_iff option.pred_set split_beta)

end
