(* ===== verification/Parser_State.thy ===== *)
theory Parser_State
  imports Lexer_Text Ast
begin

text \<open>
  The state of the parser and the operations every parsing function uses, from the first part of
  \<^verbatim>\<open>src/src/parser/parser.c\<close>: the two tokens of look-ahead, advancing, expecting a token, recording errors,
  operator tables, and saving and restoring the state for speculative parsing. The error reporter is the list of
  errors it has been given; whether one is attached is a flag, since the parser detaches it while it speculates.
\<close>

section \<open>State\<close>

datatype ErrorType = ERROR_LEXICAL | ERROR_SYNTAX | ERROR_SEMANTIC | ERROR_TYPE | ERROR_SCOPE | ERROR_IO | ERROR_INTERNAL

record ErrorReport =
  er_type :: ErrorType
  er_location :: SourceLocation
  er_message :: string

record Parser =
  ps_lexer :: Lexer
  ps_current_token :: Token
  ps_peek_token :: Token
  ps_has_error :: bool
  ps_had_error :: bool
  ps_error_count :: nat
  ps_error_message :: "string option"
  ps_error_reporter :: bool
  ps_error_recovery_mode :: bool
  ps_reports :: "ErrorReport list"

abbreviation current_type :: "Parser \<Rightarrow> TokenType" where
  "current_type parser \<equiv> tok_type (ps_current_token parser)"

abbreviation peek_type :: "Parser \<Rightarrow> TokenType" where
  "peek_type parser \<equiv> tok_type (ps_peek_token parser)"

text \<open>The C string in the \<open>value\<close> of a token: it ends at the first NUL.\<close>

definition token_text :: "Token \<Rightarrow> string" where
  "token_text token = (case tok_value token of Some value \<Rightarrow> c_string value | None \<Rightarrow> [])"

abbreviation current_text :: "Parser \<Rightarrow> string" where
  "current_text parser \<equiv> token_text (ps_current_token parser)"

section \<open>Errors\<close>

definition token_location :: "Token \<Rightarrow> SourceLocation" where
  "token_location token = \<lparr>loc_line = tok_line token, loc_column = tok_column token\<rparr>"

definition parser_current_location :: "Parser \<Rightarrow> SourceLocation" where
  "parser_current_location parser = token_location (ps_current_token parser)"

definition report :: "ErrorType \<Rightarrow> Token \<Rightarrow> string \<Rightarrow> Parser \<Rightarrow> Parser" where
  "report kind token message parser =
     parser\<lparr>ps_has_error := True, ps_had_error := True, ps_error_count := ps_error_count parser + 1,
       ps_error_message := Some message,
       ps_reports := (if ps_error_reporter parser
         then ps_reports parser @ [\<lparr>er_type = kind, er_location = token_location token, er_message = message\<rparr>]
         else ps_reports parser)\<rparr>"

text \<open>The reporter gets the location of the current token; the suggestions attached to a report are left out.\<close>

definition parser_set_error :: "string \<Rightarrow> Parser \<Rightarrow> Parser" where
  "parser_set_error message parser = report ERROR_SYNTAX (ps_current_token parser) message parser"

definition parser_report_lexer_token_error :: "Token \<Rightarrow> Parser \<Rightarrow> Parser" where
  "parser_report_lexer_token_error token parser =
     (if tok_type token \<noteq> TOKEN_ERROR then parser
      else report ERROR_LEXICAL token
        (take 511 (''Lexical error: '' @ (if token_text token \<noteq> [] then token_text token else ''Invalid token''))) parser)"

section \<open>Tokens\<close>

definition parser_create_with_error_reporter :: "Lexer \<Rightarrow> bool \<Rightarrow> Parser" where
  "parser_create_with_error_reporter lexer error_reporter =
     (let (current, lexer) = lexer_next_token lexer;
          (peek, lexer) = lexer_next_token lexer;
          parser = \<lparr>ps_lexer = lexer, ps_current_token = current, ps_peek_token = peek, ps_has_error = False,
            ps_had_error = False, ps_error_count = 0, ps_error_message = None, ps_error_reporter = error_reporter,
            ps_error_recovery_mode = False, ps_reports = []\<rparr>
      in if tok_type current = TOKEN_ERROR then parser_report_lexer_token_error current parser
         else parser_report_lexer_token_error peek parser)"

definition parser_create :: "Lexer \<Rightarrow> Parser" where
  "parser_create lexer = parser_create_with_error_reporter lexer False"

definition parser_advance :: "Parser \<Rightarrow> Parser" where
  "parser_advance parser =
     (if current_type parser = TOKEN_EOF then parser
      else let (peek, lexer) = lexer_next_token (ps_lexer parser)
           in parser_report_lexer_token_error (ps_peek_token parser)
                (parser\<lparr>ps_lexer := lexer, ps_current_token := ps_peek_token parser, ps_peek_token := peek\<rparr>))"

definition parser_match :: "Parser \<Rightarrow> TokenType \<Rightarrow> bool" where
  "parser_match parser token_type \<longleftrightarrow> current_type parser = token_type"

definition quoted :: "string \<Rightarrow> string" where
  "quoted str = CHR 0x27 # str @ [CHR 0x27]"

definition keyword_strings :: "(KeywordToken \<times> string) list" where
  "keyword_strings = [(TOKEN_IMPORT, ''import''), (TOKEN_IMPORT_STR, ''import_str''), (TOKEN_EXTERN, ''extern''),
     (TOKEN_EXPORT, ''export''), (TOKEN_VAR, ''var''), (TOKEN_FUNCTION, ''function''), (TOKEN_STRUCT, ''struct''),
     (TOKEN_METHOD, ''method''), (TOKEN_RETURN, ''return''), (TOKEN_IF, ''if''), (TOKEN_ELSE, ''else''),
     (TOKEN_WHILE, ''while''), (TOKEN_FOR, ''for''), (TOKEN_SWITCH, ''switch''), (TOKEN_CASE, ''case''),
     (TOKEN_DEFAULT, ''default''), (TOKEN_BREAK, ''break''), (TOKEN_CONTINUE, ''continue''), (TOKEN_DEFER, ''defer''),
     (TOKEN_ERRDEFER, ''errdefer''), (TOKEN_ASM, ''asm''), (TOKEN_THIS, ''this''), (TOKEN_NEW, ''new'')]"

definition punct_strings :: "(PunctToken \<times> string) list" where
  "punct_strings = [(TOKEN_COLON, '':''), (TOKEN_SEMICOLON, '';''), (TOKEN_COMMA, '',''), (TOKEN_EQUALS, ''=''),
     (TOKEN_ARROW, ''->''), (TOKEN_LPAREN, ''(''), (TOKEN_RPAREN, '')''), (TOKEN_LBRACE, ''{''), (TOKEN_RBRACE, ''}''),
     (TOKEN_LBRACKET, ''[''), (TOKEN_RBRACKET, '']''), (TOKEN_PLUS, ''+''), (TOKEN_MINUS, ''-''),
     (TOKEN_MULTIPLY, ''*''), (TOKEN_AMPERSAND, ''&''), (TOKEN_PIPE, ''|''), (TOKEN_CARET, ''^''),
     (TOKEN_LSHIFT, ''<<''), (TOKEN_RSHIFT, ''>>''), (TOKEN_TILDE, ''~''), (TOKEN_AND_AND, ''&&''),
     (TOKEN_OR_OR, ''||''), (TOKEN_DIVIDE, ''/''), (TOKEN_PERCENT, ''%''), (TOKEN_DOT, ''.'')]"

definition token_type_to_string :: "TokenType \<Rightarrow> string" where
  "token_type_to_string token_type =
     (let known = (\<lambda>entry. case entry of Some str \<Rightarrow> quoted str | None \<Rightarrow> ''unknown token'') in
      case token_type of
        TOKEN_EOF \<Rightarrow> ''end of file''
      | TOKEN_IDENTIFIER \<Rightarrow> ''identifier''
      | TOKEN_NUMBER \<Rightarrow> ''number''
      | TOKEN_STRING \<Rightarrow> ''string''
      | Keyword k \<Rightarrow> known (map_of keyword_strings k)
      | Punct p \<Rightarrow> if p = TOKEN_NEWLINE then ''newline'' else known (map_of punct_strings p)
      | TOKEN_ERROR \<Rightarrow> ''lexical error''
      | _ \<Rightarrow> ''unknown token'')"

definition parser_expect :: "TokenType \<Rightarrow> Parser \<Rightarrow> bool \<times> Parser" where
  "parser_expect token_type parser =
     (if current_type parser = token_type then (True, parser_advance parser)
      else (False, parser_set_error (''Expected '' @ token_type_to_string token_type @ '', found '' @
              token_type_to_string (current_type parser)) parser))"

section \<open>Operators\<close>

definition operator_precedences :: "(PunctToken \<times> nat) list" where
  "operator_precedences = [(TOKEN_DOT, 13), (TOKEN_MULTIPLY, 11), (TOKEN_DIVIDE, 11), (TOKEN_PERCENT, 11),
     (TOKEN_PLUS, 10), (TOKEN_MINUS, 10), (TOKEN_LSHIFT, 9), (TOKEN_RSHIFT, 9), (TOKEN_LESS_THAN, 8),
     (TOKEN_LESS_EQUALS, 8), (TOKEN_GREATER_THAN, 8), (TOKEN_GREATER_EQUALS, 8), (TOKEN_EQUALS_EQUALS, 7),
     (TOKEN_NOT_EQUALS, 7), (TOKEN_AMPERSAND, 6), (TOKEN_CARET, 5), (TOKEN_PIPE, 4), (TOKEN_AND_AND, 3),
     (TOKEN_OR_OR, 2)]"

definition parser_get_operator_precedence :: "TokenType \<Rightarrow> nat" where
  "parser_get_operator_precedence token_type =
     (case token_type of Punct p \<Rightarrow> (case map_of operator_precedences p of Some n \<Rightarrow> n | None \<Rightarrow> 0) | _ \<Rightarrow> 0)"

definition parser_is_binary_operator :: "TokenType \<Rightarrow> bool" where
  "parser_is_binary_operator token_type \<longleftrightarrow>
     token_type \<in> Punct ` {TOKEN_PLUS, TOKEN_MINUS, TOKEN_MULTIPLY, TOKEN_DIVIDE, TOKEN_PERCENT, TOKEN_EQUALS_EQUALS,
       TOKEN_NOT_EQUALS, TOKEN_LESS_THAN, TOKEN_LESS_EQUALS, TOKEN_GREATER_THAN, TOKEN_GREATER_EQUALS, TOKEN_AND_AND,
       TOKEN_OR_OR, TOKEN_AMPERSAND, TOKEN_PIPE, TOKEN_CARET, TOKEN_LSHIFT, TOKEN_RSHIFT, TOKEN_DOT}"

definition parser_is_unary_operator :: "TokenType \<Rightarrow> bool" where
  "parser_is_unary_operator token_type \<longleftrightarrow>
     token_type \<in> Punct ` {TOKEN_MINUS, TOKEN_PLUS, TOKEN_MULTIPLY, TOKEN_AMPERSAND, TOKEN_TILDE, TOKEN_NOT}"

definition parser_is_identifier_like :: "TokenType \<Rightarrow> bool" where
  "parser_is_identifier_like token_type \<longleftrightarrow>
     (case token_type of TOKEN_IDENTIFIER \<Rightarrow> True | Mnemonic _ \<Rightarrow> True | Register _ \<Rightarrow> True | _ \<Rightarrow> False)"

definition parser_is_type_keyword :: "TokenType \<Rightarrow> bool" where
  "parser_is_type_keyword token_type \<longleftrightarrow> (case token_type of TypeKeyword _ \<Rightarrow> True | _ \<Rightarrow> False)"

section \<open>Speculation\<close>

record ParserSavedState =
  pss_lexer_position :: nat
  pss_lexer_line :: nat
  pss_lexer_column :: nat
  pss_lexer_continuation_depth :: nat
  pss_current_token :: Token
  pss_peek_token :: Token
  pss_has_error :: bool
  pss_had_error :: bool
  pss_error_count :: nat
  pss_error_message :: "string option"
  pss_error_reporter :: bool

definition parser_save_state :: "Parser \<Rightarrow> ParserSavedState" where
  "parser_save_state parser =
     \<lparr>pss_lexer_position = lx_position (ps_lexer parser), pss_lexer_line = lx_line (ps_lexer parser),
      pss_lexer_column = lx_column (ps_lexer parser),
      pss_lexer_continuation_depth = lx_continuation_depth (ps_lexer parser),
      pss_current_token = token_clone (Some (ps_current_token parser)),
      pss_peek_token = token_clone (Some (ps_peek_token parser)), pss_has_error = ps_has_error parser,
      pss_had_error = ps_had_error parser, pss_error_count = ps_error_count parser,
      pss_error_message = ps_error_message parser, pss_error_reporter = ps_error_reporter parser\<rparr>"

definition parser_restore_state :: "ParserSavedState \<Rightarrow> Parser \<Rightarrow> Parser" where
  "parser_restore_state state parser =
     parser\<lparr>ps_lexer := (ps_lexer parser)\<lparr>lx_position := pss_lexer_position state, lx_line := pss_lexer_line state,
         lx_column := pss_lexer_column state, lx_continuation_depth := pss_lexer_continuation_depth state\<rparr>,
       ps_current_token := token_clone (Some (pss_current_token state)),
       ps_peek_token := token_clone (Some (pss_peek_token state)), ps_has_error := pss_has_error state,
       ps_had_error := pss_had_error state, ps_error_count := pss_error_count state,
       ps_error_message := pss_error_message state, ps_error_reporter := pss_error_reporter state\<rparr>"

section \<open>Parsing functions\<close>

text \<open>A parsing function returns a node or NULL, with the parser as it leaves it. The functions that recur take
  fuel; the outermost \<open>None\<close> is the run that has used it up.\<close>

type_synonym 'a parse = "Parser \<Rightarrow> ('a option \<times> Parser) option"

definition give :: "'a \<Rightarrow> 'a parse" where
  "give x parser = Some (Some x, parser)"

definition give_null :: "'a parse" where
  "give_null parser = Some (None, parser)"

definition null_error :: "string \<Rightarrow> 'a parse" where
  "null_error message parser = Some (None, parser_set_error message parser)"

definition and_parse :: "'a parse \<Rightarrow> ('a \<Rightarrow> 'b parse) \<Rightarrow> 'b parse" where
  "and_parse m f parser =
     (case m parser of
        None \<Rightarrow> None
      | Some (None, parser) \<Rightarrow> Some (None, parser)
      | Some (Some x, parser) \<Rightarrow> f x parser)"

text \<open>A call of \<open>parser_expect\<close> whose failure makes the caller return NULL, and one that adds a message first.\<close>

definition require :: "TokenType \<Rightarrow> unit parse" where
  "require token_type parser =
     (case parser_expect token_type parser of (True, parser) \<Rightarrow> give () parser | (False, parser) \<Rightarrow> give_null parser)"

definition require_else :: "TokenType \<Rightarrow> string \<Rightarrow> unit parse" where
  "require_else token_type message parser =
     (case parser_expect token_type parser of (True, parser) \<Rightarrow> give () parser | (False, parser) \<Rightarrow> null_error message parser)"

end
