(* ===== verification/Parser_Expr.thy ===== *)
theory Parser_Expr
  imports Parser_State
begin

text \<open>
  The parser of types and expressions, \<^verbatim>\<open>src/src/parser/parser.c\<close>, speculation included. Text of numbers starts with a digit, as the lexer makes it.
\<close>

section \<open>Types\<close>

abbreviation names_type :: "TokenType \<Rightarrow> bool" where
  "names_type token_type \<equiv> parser_is_identifier_like token_type \<or> parser_is_type_keyword token_type"

text \<open>The loop over \<open>. name\<close> of \<open>parser_parse_qualified_name\<close> and \<open>parser_parse_type_annotation\<close>.\<close>

fun dotted_name :: "string \<Rightarrow> nat \<Rightarrow> string \<Rightarrow> string parse" where
  "dotted_name expected 0 name = (\<lambda>parser. None)"
| "dotted_name expected (Suc fuel) name = (\<lambda>parser.
     if current_type parser \<noteq> Punct TOKEN_DOT then give name parser
     else let parser = parser_advance parser
          in if \<not> names_type (current_type parser) then null_error expected parser
             else dotted_name expected fuel (name @ ''.'' @ current_text parser) (parser_advance parser))"

definition parser_parse_qualified_name :: "nat \<Rightarrow> string \<Rightarrow> string parse" where
  "parser_parse_qualified_name fuel expected = (\<lambda>parser.
     if \<not> names_type (current_type parser) then null_error expected parser
     else dotted_name expected fuel (current_text parser) (parser_advance parser))"

text \<open>The loop over \<open>*\<close>.\<close>

fun pointer_suffixes :: "nat \<Rightarrow> string \<Rightarrow> string parse" where
  "pointer_suffixes 0 type_name = (\<lambda>parser. None)"
| "pointer_suffixes (Suc fuel) type_name = (\<lambda>parser.
     if current_type parser \<noteq> Punct TOKEN_MULTIPLY then give type_name parser
     else pointer_suffixes fuel (type_name @ ''*'') (parser_advance parser))"

text \<open>An array bound, if there is one.\<close>

definition array_suffix :: "string \<Rightarrow> string parse" where
  "array_suffix type_name = (\<lambda>parser.
     if current_type parser \<noteq> Punct TOKEN_LBRACKET then give type_name parser
     else let parser = parser_advance parser
          in if current_type parser \<noteq> TOKEN_NUMBER then null_error (''Expected array size after '' @ quoted ''['') parser
             else let size_text = current_text parser
                  in and_parse (require (Punct TOKEN_RBRACKET))
                       (\<lambda>_. give (type_name @ ''['' @ size_text @ '']'')) (parser_advance parser))"

text \<open>The two loops over the types of a list, up to the closing token: the parameters of a function type and the
  arguments of a generic one. They differ in the closing token and in their messages.\<close>

fun parser_parse_type_annotation :: "nat \<Rightarrow> string parse"
and type_head :: "nat \<Rightarrow> string parse"
and type_arguments :: "nat \<Rightarrow> string \<Rightarrow> string parse"
and type_list :: "nat \<Rightarrow> PunctToken \<Rightarrow> string \<Rightarrow> string \<Rightarrow> bool \<Rightarrow> string \<Rightarrow> string parse" where
  "parser_parse_type_annotation 0 = (\<lambda>parser. None)"
| "parser_parse_type_annotation (Suc fuel) =
     and_parse (type_head fuel) (\<lambda>type_name.
     and_parse (dotted_name (''Expected type name after '' @ quoted ''.'') fuel type_name) (\<lambda>type_name.
     and_parse (type_arguments fuel type_name) (\<lambda>type_name.
     and_parse (pointer_suffixes fuel type_name) array_suffix)))"
| "type_head 0 = (\<lambda>parser. None)"
| "type_head (Suc fuel) = (\<lambda>parser.
     if current_type parser = Keyword TOKEN_FN
     then and_parse (require_else (Punct TOKEN_LPAREN) (''Expected '' @ quoted ''('' @ '' after '' @ quoted ''fn'' @ '' in function pointer type'')) (\<lambda>_.
          and_parse (type_list fuel TOKEN_RPAREN (''Expected '' @ quoted '','' @ '' or '' @ quoted '')'' @ '' in function pointer parameter list'')
            ''Expected type in function pointer parameter list'' True []) (\<lambda>params.
          and_parse (require (Punct TOKEN_RPAREN)) (\<lambda>_.
          and_parse (require_else (Punct TOKEN_ARROW) (''Expected '' @ quoted ''->'' @ '' after '' @ quoted '')'' @ '' in function pointer type'')) (\<lambda>_ parser.
          case parser_parse_type_annotation fuel parser of
            None \<Rightarrow> None
          | Some (Some ret, parser) \<Rightarrow> give (''fn('' @ params @ '')->'' @ ret) parser
          | Some (None, parser) \<Rightarrow>
              if ps_has_error parser then give_null parser
              else null_error (''Expected return type after '' @ quoted ''->'' @ '' in function pointer type'') parser))))
          (parser_advance parser)
     else if \<not> names_type (current_type parser) then give_null parser
     else give (current_text parser) (parser_advance parser))"
| "type_arguments 0 type_name = (\<lambda>parser. None)"
| "type_arguments (Suc fuel) type_name = (\<lambda>parser.
     if current_type parser \<noteq> Punct TOKEN_LESS_THAN then give type_name parser
     else and_parse (type_list fuel TOKEN_GREATER_THAN (''Expected '' @ quoted '','' @ '' or '' @ quoted ''>'' @ '' in type argument list'')
            ''Expected type in type argument list'' True []) (\<lambda>args.
          and_parse (require (Punct TOKEN_GREATER_THAN)) (\<lambda>_. give (type_name @ ''<'' @ args @ ''>'')))
          (parser_advance parser))"
| "type_list 0 closing separator_message type_message first buffer = (\<lambda>parser. None)"
| "type_list (Suc fuel) closing separator_message type_message first buffer = (\<lambda>parser.
     if current_type parser = Punct closing \<or> current_type parser = TOKEN_EOF \<or> ps_has_error parser then give buffer parser
     else if \<not> first \<and> current_type parser \<noteq> Punct TOKEN_COMMA then null_error separator_message parser
     else let (parser, buffer) = (if first then (parser, buffer) else (parser_advance parser, buffer @ '',''))
          in case parser_parse_type_annotation fuel parser of
               None \<Rightarrow> None
             | Some (Some arg, parser) \<Rightarrow>
                 type_list fuel closing separator_message type_message False (buffer @ arg) parser
             | Some (None, parser) \<Rightarrow>
                 if ps_has_error parser then give_null parser else null_error type_message parser)"

section \<open>Literals\<close>

definition parser_literal_radix_hint :: "string \<Rightarrow> nat" where
  "parser_literal_radix_hint value =
     (case value of
        z # x # _ \<Rightarrow> if z \<noteq> CHR ''0'' then 10
                    else if x = CHR ''x'' \<or> x = CHR ''X'' then 16 else if x = CHR ''b'' \<or> x = CHR ''B'' then 2 else 10
      | _ \<Rightarrow> 10)"

definition digit_of :: "char \<Rightarrow> nat" where
  "digit_of c = (if c_isdigit c then of_char c - 48 else if 97 \<le> (of_char c :: nat) then of_char c - 87 else of_char c - 55)"

definition number_of_digits :: "int \<Rightarrow> string \<Rightarrow> int" where
  "number_of_digits radix digits = foldl (\<lambda>n c. radix * n + int (digit_of c)) 0 digits"

text \<open>The loop over binary digits: the value so far and the rest of the text.\<close>

fun binary_digits :: "u64 \<Rightarrow> string \<Rightarrow> string + u64" where
  "binary_digits u [] = Inr u"
| "binary_digits u (c # cs) =
     (if c \<noteq> CHR ''0'' \<and> c \<noteq> CHR ''1'' then Inl ''Invalid binary literal''
      else if u > 0x7FFFFFFFFFFFFFFF then Inl ''Binary literal is out of range''
      else binary_digits (u * 2 + of_nat (digit_of c)) cs)"

text \<open>The value, as the bits of a \<open>long long\<close>, with the radix; or the message of the error.\<close>

definition parser_parse_integer_literal_string :: "string \<Rightarrow> string + u64 \<times> nat" where
  "parser_parse_integer_literal_string value =
     (if parser_literal_radix_hint value = 16
      then let digits = drop 2 value
           in if digits = [] \<or> \<not> list_all c_isxdigit digits then Inl ''Invalid hexadecimal literal''
              else if number_of_digits 16 digits \<ge> 2 ^ 64 then Inl ''Hexadecimal literal is out of range''
              else Inr (of_int (number_of_digits 16 digits), 16)
      else if parser_literal_radix_hint value = 2
      then (if drop 2 value = [] then Inl ''Invalid binary literal''
            else case binary_digits 0 (drop 2 value) of Inl message \<Rightarrow> Inl message | Inr u \<Rightarrow> Inr (u, 2))
      else if value = [] \<or> \<not> list_all c_isdigit value then Inl ''Invalid integer literal''
      else if number_of_digits 10 value \<ge> 2 ^ 63 then Inl ''Decimal integer literal is out of range''
      else Inr (of_int (number_of_digits 10 value), 10))"

section \<open>Speculation on type arguments\<close>

text \<open>The loop over the type arguments: whether it succeeded, and the arguments.\<close>

fun call_type_args :: "nat \<Rightarrow> string list \<Rightarrow> Parser \<Rightarrow> ((bool \<times> string list) \<times> Parser) option" where
  "call_type_args 0 type_args parser = None"
| "call_type_args (Suc fuel) type_args parser =
     (if current_type parser = Punct TOKEN_GREATER_THAN \<or> current_type parser = TOKEN_EOF
      then Some ((True, type_args), parser)
      else if type_args \<noteq> [] \<and> current_type parser \<noteq> Punct TOKEN_COMMA then Some ((False, type_args), parser)
      else case parser_parse_type_annotation fuel (if type_args \<noteq> [] then parser_advance parser else parser) of
             None \<Rightarrow> None
           | Some (None, parser) \<Rightarrow> Some ((False, type_args), parser)
           | Some (Some arg, parser) \<Rightarrow>
               if ps_has_error parser then Some ((False, type_args), parser)
               else call_type_args fuel (type_args @ [arg]) parser)"

definition parser_try_parse_generic_call_type_args :: "nat \<Rightarrow> string list parse" where
  "parser_try_parse_generic_call_type_args fuel parser =
     (if current_type parser \<noteq> Punct TOKEN_LESS_THAN then give_null parser
      else let saved = parser_save_state parser
           in case call_type_args fuel [] (parser_advance (parser\<lparr>ps_error_message := None\<rparr>)) of
                None \<Rightarrow> None
              | Some ((success, type_args), parser) \<Rightarrow>
                  if success \<and> current_type parser = Punct TOKEN_GREATER_THAN
                  then let parser = parser_advance parser
                       in if current_type parser = Punct TOKEN_LPAREN
                          then give type_args (parser\<lparr>ps_has_error := False, ps_error_message := None\<rparr>)
                          else give_null (parser_restore_state saved parser)
                  else give_null (parser_restore_state saved parser))"

section \<open>Expressions\<close>

definition parser_identifier_name_is :: "ASTNode \<Rightarrow> string \<Rightarrow> bool" where
  "parser_identifier_name_is expr name \<longleftrightarrow> (case expr of Identifier _ n \<Rightarrow> n = name | _ \<Rightarrow> False)"

text \<open>The number of a \<open>TOKEN_NUMBER\<close>.\<close>

definition number_node :: "string \<Rightarrow> SourceLocation \<Rightarrow> ASTNode parse" where
  "number_node value location parser =
     (if CHR ''.'' \<in> set value then give (ast_create_float_literal value location) (parser_advance parser)
      else case parser_parse_integer_literal_string value of
             Inl message \<Rightarrow> null_error message parser
           | Inr (int_val, int_radix) \<Rightarrow>
               give (ast_create_number_literal int_val location int_radix) (parser_advance parser))"

text \<open>The type argument of \<open>sizeof\<close>, as a list of one argument.\<close>

definition sizeof_argument :: "nat \<Rightarrow> ASTNode list parse" where
  "sizeof_argument fuel parser =
     (if current_type parser = Punct TOKEN_RPAREN then null_error ''Expected type name in sizeof'' parser
      else let type_location = parser_current_location parser
           in case parser_parse_type_annotation fuel parser of
                None \<Rightarrow> None
              | Some (None, parser) \<Rightarrow>
                  if ps_has_error parser then give_null parser else null_error ''Expected type name in sizeof'' parser
              | Some (Some type_name, parser) \<Rightarrow>
                  if current_type parser = Punct TOKEN_COMMA
                  then null_error ''sizeof expects exactly one type argument'' parser
                  else give [ast_create_identifier type_name type_location] parser)"

text \<open>What a call of an expression yields: methods and named functions are called, any other callee gives NULL.\<close>

definition finish_call :: "ASTNode \<Rightarrow> ASTNode list \<Rightarrow> SourceLocation \<Rightarrow> ASTNode option" where
  "finish_call expr arguments location =
     (case expr of
        MemberAccess _ object member \<Rightarrow> Some (ast_create_method_call object member arguments location)
      | Identifier _ name \<Rightarrow> Some (ast_create_call_expression name arguments location)
      | _ \<Rightarrow> None)"

definition with_type_args :: "string list \<Rightarrow> ASTNode \<Rightarrow> ASTNode" where
  "with_type_args type_args expr =
     (case expr of CallExpression l f args obj _ \<Rightarrow> CallExpression l f args obj type_args | _ \<Rightarrow> expr)"

text \<open>The name after \<open>.\<close> or \<open>->\<close>.\<close>

definition member_name :: "string \<Rightarrow> string parse" where
  "member_name op parser =
     (let parser = parser_advance parser
      in if current_type parser \<noteq> TOKEN_IDENTIFIER then null_error (''Expected member name after '' @ quoted op) parser
         else give (current_text parser) (parser_advance parser))"

fun skip_separators :: "nat \<Rightarrow> unit parse" where
  "skip_separators 0 = (\<lambda>parser. None)"
| "skip_separators (Suc fuel) = (\<lambda>parser.
     if current_type parser = Punct TOKEN_NEWLINE \<or> current_type parser = Punct TOKEN_SEMICOLON
     then skip_separators fuel (parser_advance parser) else give () parser)"

text \<open>The head of an arm of \<open>match\<close>: its name, the name it binds and whether it is the default. NULL stands for the
  \<open>break\<close> of the loop over the arms, which is taken with an error set.\<close>

definition match_arm_head :: "bool \<Rightarrow> (string \<times> string option \<times> bool) parse" where
  "match_arm_head seen_default parser =
     (if current_type parser = Keyword TOKEN_DEFAULT
      then if seen_default then null_error ''Only one default arm is allowed in match'' parser
           else give (''default'', None, True) (parser_advance parser)
      else if current_type parser = Keyword TOKEN_CASE
      then let parser = parser_advance parser
           in if \<not> parser_is_identifier_like (current_type parser)
              then null_error (''Expected variant name after '' @ quoted ''case'' @ '' in match'') parser
              else let variant_name = current_text parser; parser = parser_advance parser
                   in if current_type parser \<noteq> Punct TOKEN_LPAREN then give (variant_name, None, False) parser
                      else let parser = parser_advance parser
                           in if \<not> parser_is_identifier_like (current_type parser)
                              then null_error ''Expected binding name in match arm'' parser
                              else let binding_name = current_text parser
                                   in and_parse (require (Punct TOKEN_RPAREN))
                                        (\<lambda>_. give (variant_name, Some binding_name, False)) (parser_advance parser)
      else null_error (''Expected '' @ quoted ''case'' @ '' or '' @ quoted ''default'' @ '' in match'') parser)"

definition starts_cast :: "TokenType \<Rightarrow> bool" where
  "starts_cast token_type \<longleftrightarrow> names_type token_type \<or> token_type = Keyword TOKEN_FN"

text \<open>What follows \<open>( type )\<close> when it is a grouped expression and not a cast.\<close>

definition ends_group :: "TokenType \<Rightarrow> bool" where
  "ends_group token_type \<longleftrightarrow>
     token_type \<in> {Punct TOKEN_RPAREN, Punct TOKEN_COMMA, Punct TOKEN_SEMICOLON, TOKEN_EOF} \<or>
     parser_is_binary_operator token_type \<and> \<not> parser_is_unary_operator token_type"

text \<open>The type of a cast, or NULL with the parser back where it was.\<close>

definition cast_type :: "nat \<Rightarrow> string parse" where
  "cast_type fuel parser =
     (if current_type parser \<noteq> Punct TOKEN_LPAREN \<or> \<not> starts_cast (peek_type parser) then give_null parser
      else let saved = parser_save_state parser
           in case parser_parse_type_annotation fuel
                     (parser_advance (parser\<lparr>ps_error_message := None, ps_error_reporter := False\<rparr>)) of
                None \<Rightarrow> None
              | Some (type_name, parser) \<Rightarrow>
                  if type_name = None \<or> ps_has_error parser \<or> current_type parser \<noteq> Punct TOKEN_RPAREN
                  then give_null (parser_restore_state saved parser)
                  else let parser = parser_advance (parser\<lparr>ps_error_reporter := pss_error_reporter saved\<rparr>)
                       in if ends_group (current_type parser) then give_null (parser_restore_state saved parser)
                          else Some (type_name, parser\<lparr>ps_has_error := False, ps_error_message := None\<rparr>))"

text \<open>The mutually recursive functions. \<open>postfix_loop\<close>, \<open>postfix_suffix\<close> and \<open>binary_loop\<close> are the loops of
  \<open>parser_parse_postfix_expression\<close> and \<open>parser_parse_binary_expression\<close>, \<open>arguments\<close> the loops over the arguments of
  a call, \<open>match_arms\<close> the loop over the arms of \<open>match\<close>. A loop that is left by \<open>break\<close> gives what it has collected.\<close>

function (sequential) parser_parse_binary_expression :: "nat \<Rightarrow> nat \<Rightarrow> ASTNode parse"
and binary_loop :: "nat \<Rightarrow> nat \<Rightarrow> ASTNode \<Rightarrow> ASTNode parse"
and parser_parse_unary_expression :: "nat \<Rightarrow> ASTNode parse"
and parser_parse_cast_expression :: "nat \<Rightarrow> ASTNode parse"
and parser_parse_postfix_expression :: "nat \<Rightarrow> ASTNode parse"
and postfix_loop :: "nat \<Rightarrow> ASTNode \<Rightarrow> ASTNode parse"
and postfix_suffix :: "nat \<Rightarrow> ASTNode \<Rightarrow> SourceLocation \<Rightarrow> ASTNode parse"
and arguments :: "nat \<Rightarrow> ASTNode list \<Rightarrow> ASTNode list parse"
and parser_parse_primary_expression :: "nat \<Rightarrow> ASTNode parse"
and parser_parse_match_expression :: "nat \<Rightarrow> ASTNode parse"
and match_arms :: "nat \<Rightarrow> ASTNode MatchArm list \<Rightarrow> bool \<Rightarrow> ASTNode MatchArm list parse" where
  "parser_parse_binary_expression 0 min_precedence = (\<lambda>parser. None)"
| "parser_parse_binary_expression (Suc fuel) min_precedence =
     and_parse (parser_parse_unary_expression fuel) (binary_loop fuel min_precedence)"
| "binary_loop 0 min_precedence left = (\<lambda>parser. None)"
| "binary_loop (Suc fuel) min_precedence left = (\<lambda>parser.
     let location = parser_current_location parser;
         precedence = parser_get_operator_precedence (current_type parser);
         op = current_text parser
     in if \<not> parser_is_binary_operator (current_type parser) \<or> precedence < min_precedence then give left parser
        else and_parse (parser_parse_binary_expression fuel (precedence + 1)) (\<lambda>right.
               binary_loop fuel min_precedence (ast_create_binary_expression left op right location))
               (parser_advance parser))"
| "parser_parse_unary_expression 0 = (\<lambda>parser. None)"
| "parser_parse_unary_expression (Suc fuel) = (\<lambda>parser.
     let location = parser_current_location parser;
         no_cast = (\<lambda>parser.
           if parser_is_unary_operator (current_type parser)
           then let op = current_text parser
                in and_parse (parser_parse_unary_expression fuel)
                     (\<lambda>operand. give (ast_create_unary_expression op operand location)) (parser_advance parser)
           else parser_parse_postfix_expression fuel parser)
     in if current_type parser = Punct TOKEN_LPAREN
        then case parser_parse_cast_expression fuel parser of
               None \<Rightarrow> None
             | Some (Some cast, parser) \<Rightarrow> give cast parser
             | Some (None, parser) \<Rightarrow> no_cast parser
        else no_cast parser)"
| "parser_parse_cast_expression 0 = (\<lambda>parser. None)"
| "parser_parse_cast_expression (Suc fuel) = (\<lambda>parser.
     let location = parser_current_location parser
     in and_parse (cast_type fuel) (\<lambda>type_name.
        and_parse (parser_parse_unary_expression fuel) (\<lambda>operand.
          give (ast_create_cast_expression type_name operand location))) parser)"
| "parser_parse_postfix_expression 0 = (\<lambda>parser. None)"
| "parser_parse_postfix_expression (Suc fuel) = and_parse (parser_parse_primary_expression fuel) (postfix_loop fuel)"
| "postfix_loop 0 expr = (\<lambda>parser. None)"
| "postfix_loop (Suc fuel) expr = (\<lambda>parser.
     let location = parser_current_location parser
     in case expr of
          Identifier _ func_name \<Rightarrow>
            (case parser_try_parse_generic_call_type_args fuel parser of
               None \<Rightarrow> None
             | Some (None, parser) \<Rightarrow> postfix_suffix fuel expr location parser
             | Some (Some type_args, parser) \<Rightarrow>
                 let parser = parser_advance parser
                 in and_parse (if current_type parser \<noteq> Punct TOKEN_RPAREN then arguments fuel [] else give []) (\<lambda>args.
                    and_parse (require (Punct TOKEN_RPAREN)) (\<lambda>_.
                      postfix_loop fuel (with_type_args type_args (ast_create_call_expression func_name args location))))
                    parser)
        | _ \<Rightarrow> postfix_suffix fuel expr location parser)"
| "postfix_suffix 0 expr location = (\<lambda>parser. None)"
| "postfix_suffix (Suc fuel) expr location = (\<lambda>parser.
     if current_type parser = Punct TOKEN_LPAREN
     then let parser = parser_advance parser
          in and_parse (if parser_identifier_name_is expr ''sizeof'' then sizeof_argument fuel
                        else if current_type parser \<noteq> Punct TOKEN_RPAREN then arguments fuel [] else give []) (\<lambda>args.
             and_parse (require (Punct TOKEN_RPAREN)) (\<lambda>_.
               case finish_call expr args location of None \<Rightarrow> give_null | Some call \<Rightarrow> postfix_loop fuel call)) parser
     else if current_type parser = Punct TOKEN_DOT
     then and_parse (member_name ''.'') (\<lambda>member. postfix_loop fuel (ast_create_member_access expr member location)) parser
     else if current_type parser = Punct TOKEN_ARROW
     then and_parse (member_name ''->'') (\<lambda>member. postfix_loop fuel
            (ast_create_member_access (ast_create_unary_expression ''*'' expr location) member location)) parser
     else if current_type parser = Punct TOKEN_LBRACKET
     then and_parse (parser_parse_binary_expression fuel 0) (\<lambda>index.
          and_parse (require (Punct TOKEN_RBRACKET)) (\<lambda>_.
            postfix_loop fuel (ast_create_array_index_expression expr index location))) (parser_advance parser)
     else give expr parser)"
| "arguments 0 args = (\<lambda>parser. None)"
| "arguments (Suc fuel) args = (\<lambda>parser.
     case parser_parse_binary_expression fuel 0 parser of
       None \<Rightarrow> None
     | Some (None, parser) \<Rightarrow> give args parser
     | Some (Some arg, parser) \<Rightarrow>
         if current_type parser = Punct TOKEN_COMMA then arguments fuel (args @ [arg]) (parser_advance parser)
         else if current_type parser = Punct TOKEN_RPAREN then give (args @ [arg]) parser
         else give (args @ [arg])
                (parser_set_error (''Expected '' @ quoted '','' @ '' or '' @ quoted '')'' @ '' in argument list'') parser))"
| "parser_parse_primary_expression 0 = (\<lambda>parser. None)"
| "parser_parse_primary_expression (Suc fuel) = (\<lambda>parser.
     let location = parser_current_location parser
     in if parser_is_identifier_like (current_type parser)
        then give (ast_create_identifier (current_text parser) location) (parser_advance parser)
        else if current_type parser = TOKEN_NUMBER then number_node (current_text parser) location parser
        else if current_type parser = TOKEN_STRING
        then give (ast_create_string_literal (current_text parser) location) (parser_advance parser)
        else if current_type parser = Keyword TOKEN_IMPORT_STR
        then let parser = parser_advance parser
             in if current_type parser \<noteq> TOKEN_STRING
                then null_error (''Expected string literal after '' @ quoted ''import_str'') parser
                else give (ast_create_import_str (current_text parser) location) (parser_advance parser)
        else if current_type parser = Punct TOKEN_LPAREN
        then (case parser_parse_binary_expression fuel 0 (parser_advance parser) of
                None \<Rightarrow> None
              | Some (expr, parser) \<Rightarrow>
                  (case parser_expect (Punct TOKEN_RPAREN) parser of
                     (True, parser) \<Rightarrow> Some (expr, parser)
                   | (False, parser) \<Rightarrow> give_null parser))
        else if current_type parser = Keyword TOKEN_MATCH then parser_parse_match_expression fuel parser
        else if current_type parser = Keyword TOKEN_THIS
        then give (ast_create_identifier ''this'' location) (parser_advance parser)
        else if current_type parser = Keyword TOKEN_NEW
        then let parser = parser_advance parser
             in if \<not> starts_cast (current_type parser)
                then null_error (''Expected type name after '' @ quoted ''new'') parser
                else and_parse (parser_parse_type_annotation fuel)
                       (\<lambda>type_name. give (ast_create_new_expression type_name location)) parser
        else null_error ''Expected primary expression'' parser)"
| "parser_parse_match_expression 0 = (\<lambda>parser. None)"
| "parser_parse_match_expression (Suc fuel) = (\<lambda>parser.
     let location = parser_current_location parser
     in and_parse (require (Keyword TOKEN_MATCH)) (\<lambda>_.
        and_parse (require_else (Punct TOKEN_LPAREN) (''Expected '' @ quoted ''('' @ '' after '' @ quoted ''match'')) (\<lambda>_.
        and_parse (parser_parse_binary_expression fuel 0) (\<lambda>expr.
        and_parse (require (Punct TOKEN_RPAREN)) (\<lambda>_.
        and_parse (require (Punct TOKEN_LBRACE)) (\<lambda>_.
        and_parse (match_arms fuel [] False) (\<lambda>arms parser.
          if ps_has_error parser then give_null parser
          else and_parse (require (Punct TOKEN_RBRACE))
                 (\<lambda>_. give (ast_create_match_expression expr arms location)) parser)))))) parser)"
| "match_arms 0 arms seen_default = (\<lambda>parser. None)"
| "match_arms (Suc fuel) arms seen_default = (\<lambda>parser.
     if current_type parser = Punct TOKEN_RBRACE \<or> current_type parser = TOKEN_EOF \<or> ps_has_error parser then give arms parser
     else and_parse (skip_separators fuel) (\<lambda>_ parser.
       if current_type parser = Punct TOKEN_RBRACE then give arms parser
       else case match_arm_head seen_default parser of
         None \<Rightarrow> None
       | Some (None, parser) \<Rightarrow> give arms parser
       | Some (Some (variant_name, binding_name, is_default), parser) \<Rightarrow>
           (case parser_expect (Punct TOKEN_COLON) parser of
              (False, parser) \<Rightarrow> give arms parser
            | (True, parser) \<Rightarrow>
                (case parser_parse_binary_expression fuel 0 parser of
                   None \<Rightarrow> None
                 | Some (None, parser) \<Rightarrow>
                     give arms (if ps_has_error parser then parser
                                else parser_set_error ''Expected value expression in match arm'' parser)
                 | Some (Some body, parser) \<Rightarrow>
                     and_parse (skip_separators fuel) (\<lambda>_.
                       match_arms fuel (arms @ [MatchArm variant_name binding_name body is_default]) (seen_default \<or> is_default))
                       (if current_type parser = Punct TOKEN_COMMA then parser_advance parser else parser)))) parser)"
  by pat_completeness auto
termination
  by (relation "measure (case_sum (case_sum (case_sum fst fst) (case_sum id (case_sum id id)))
    (case_sum (case_sum fst (case_sum fst fst)) (case_sum id (case_sum id fst))))")
    (rule wf_measure, simp_all only: in_measure sum.case fst_conv id_apply lessI)

definition parser_parse_expression :: "nat \<Rightarrow> ASTNode parse" where
  "parser_parse_expression fuel = parser_parse_binary_expression fuel 0"

end
