(* ===== verification/Parser_Stream.thy ===== *)
theory Parser_Stream
  imports Parser_Expr "HOL-Library.Stream"
begin

text \<open>
  What a parser still has to read, as an infinite stream of tokens, and a calculus for what a parsing function
  does to it: which tokens it takes off, in spite of speculation, and what it gives when no error is recorded.
\<close>

section \<open>The stream of tokens\<close>

type_synonym token_view = "TokenType \<times> string"

definition view :: "Token \<Rightarrow> token_view" where
  "view t = (tok_type t, token_text t)"

definition lexer_stream :: "Lexer \<Rightarrow> token_view stream" where
  "lexer_stream l = smap (\<lambda>r. view (fst r)) (siterate (\<lambda>r. lexer_next_token (snd r)) (lexer_next_token l))"

lemma lexer_stream_next: "lexer_stream l = view (fst (lexer_next_token l)) ## lexer_stream (snd (lexer_next_token l))"
  by (subst lexer_stream_def, subst siterate.code) (simp add: lexer_stream_def)

lemma lexer_stream_sel: "shd (lexer_stream l) = view (fst (lexer_next_token l))"
  "stl (lexer_stream l) = lexer_stream (snd (lexer_next_token l))"
  by (subst lexer_stream_next, simp)+

lemma lexer_stream_reframe: "lexer_stream (reframe i e msg l) = lexer_stream l"
proof (coinduction arbitrary: i e msg l rule: stream.coinduct)
  case (Eq_stream i e msg l)
  from reframed_next_token [of l i e msg] show ?case by (auto simp: reframed_def lexer_stream_sel) blast
qed

definition parser_stream :: "Parser \<Rightarrow> token_view stream" where
  "parser_stream p = view (ps_current_token p) ## view (ps_peek_token p) ## lexer_stream (ps_lexer p)"

lemma parser_stream_head: "shd (parser_stream p) = (current_type p, current_text p)"
  by (simp add: parser_stream_def view_def)

text \<open>The lexer is well formed, and an error that is flagged is remembered.\<close>

definition parser_ok :: "Parser \<Rightarrow> bool" where
  "parser_ok p \<longleftrightarrow> lexer_wf (ps_lexer p) \<and> (ps_has_error p \<longrightarrow> ps_had_error p)"

definition moved :: "Parser \<Rightarrow> token_view list \<Rightarrow> Parser \<Rightarrow> bool" where
  "moved p ts q \<longleftrightarrow> (parser_ok p \<longrightarrow> parser_stream p = ts @- parser_stream q \<and>
     lx_source (ps_lexer q) = lx_source (ps_lexer p) \<and> lx_length (ps_lexer q) = lx_length (ps_lexer p) \<and>
     (ps_had_error p \<longrightarrow> ps_had_error q) \<and> parser_ok q)"

lemma moved_refl [simp]: "moved p [] p"
  by (simp add: moved_def)

lemma moved_trans: "moved p ts q \<Longrightarrow> moved q ts' q' \<Longrightarrow> moved p (ts @ ts') q'"
  by (simp add: moved_def)

lemma moved_ok: "moved p ts q \<Longrightarrow> parser_ok p \<Longrightarrow> parser_ok q"
  by (simp add: moved_def)

lemma report_fields [simp]:
  "ps_lexer (report k t m p) = ps_lexer p" "ps_current_token (report k t m p) = ps_current_token p"
  "ps_peek_token (report k t m p) = ps_peek_token p" "ps_had_error (report k t m p)" "ps_has_error (report k t m p)"
  by (simp_all add: report_def)

lemma moved_report: "moved p [] (report k t m p)"
  by (simp add: moved_def parser_stream_def parser_ok_def)

lemma moved_set_error: "moved p [] (parser_set_error m p)"
  by (simp add: parser_set_error_def moved_report)

lemma had_set_error [simp]: "ps_had_error (parser_set_error m p)" "ps_has_error (parser_set_error m p)"
  by (simp_all add: parser_set_error_def)

lemma lexer_next_token_keeps:
  assumes "lexer_wf l" "lexer_next_token l = (t, l')"
  shows "lx_source l' = lx_source l" "lx_length l' = lx_length l" "lexer_wf l'"
  using next_token_progress [OF assms(1)] assms by (auto simp: progressed_def lexed_def scanned_def lexer_wf_def)

lemma parser_advance_eof: "current_type p = TOKEN_EOF \<Longrightarrow> parser_advance p = p"
  by (simp add: parser_advance_def)

lemma moved_advance:
  assumes "current_type p \<noteq> TOKEN_EOF"
  shows "moved p [(current_type p, current_text p)] (parser_advance p)"
proof -
  obtain t l where n: "lexer_next_token (ps_lexer p) = (t, l)" by fastforce
  let ?q = "p\<lparr>ps_lexer := l, ps_current_token := ps_peek_token p, ps_peek_token := t\<rparr>"
  have adv: "parser_advance p = parser_report_lexer_token_error (ps_peek_token p) ?q"
    using assms by (simp add: parser_advance_def n)
  have "parser_stream p = [(current_type p, current_text p)] @- parser_stream ?q"
    by (simp add: parser_stream_def view_def lexer_stream_next [of "ps_lexer p"] n)
  then have "moved p [(current_type p, current_text p)] ?q"
    using lexer_next_token_keeps [of "ps_lexer p", OF _ n] by (simp add: moved_def parser_ok_def)
  moreover have "moved ?q [] (parser_advance p)"
    by (simp add: adv parser_report_lexer_token_error_def moved_report)
  ultimately show ?thesis by (fastforce dest: moved_trans)
qed

lemma clone_view: "view (token_clone (Some t)) = view t"
  by (auto simp: view_def token_clone_def token_text_def split: option.splits)

text \<open>Speculation that moved on and is undone.\<close>

lemma moved_restore:
  assumes "moved (p\<lparr>ps_error_message := m, ps_error_reporter := b\<rparr>) ts q"
  shows "moved p [] (parser_restore_state (parser_save_state p) q)"
proof -
  let ?r = "parser_restore_state (parser_save_state p) q" and ?p = "p\<lparr>ps_error_message := m, ps_error_reporter := b\<rparr>"
  have "moved p [] ?r" if ok: "parser_ok p"
  proof -
    have "parser_ok ?p" using ok by (simp add: parser_ok_def)
    with assms have q: "lx_source (ps_lexer q) = lx_source (ps_lexer p)" "lx_length (ps_lexer q) = lx_length (ps_lexer p)"
      "parser_ok q" by (simp_all add: moved_def)
    then have "ps_lexer ?r = reframe (lx_interner (ps_lexer q)) (lx_has_error (ps_lexer q)) (lx_error_message (ps_lexer q)) (ps_lexer p)"
      by (simp add: parser_restore_state_def parser_save_state_def reframe_def)
    moreover from this have "parser_ok ?r" using ok q(3)
      by (simp add: parser_ok_def lexer_wf_def reframe_def) (simp add: parser_restore_state_def parser_save_state_def)
    ultimately show ?thesis
      by (simp add: moved_def parser_stream_def lexer_stream_reframe)
        (simp add: parser_restore_state_def parser_save_state_def clone_view)
  qed
  then show ?thesis by (auto simp: moved_def)
qed

end
