(* ===== verification/Parser_Grammar.thy ===== *)
theory Parser_Grammar
  imports Parser_Stream
begin

text \<open>
  The language the parser of types and expressions reads, as a grammar over tokens, and the proof that whatever
  it reads without recording an error belongs to that language. The grammar has operator precedence and
  associativity in its levels and no notion of speculation.
\<close>

section \<open>A calculus for parsing functions\<close>

text \<open>An outcome \<open>out\<close> of a parsing function started at \<open>p\<close>: the parser has moved over some tokens, and if no error
  is remembered then \<open>Q\<close> holds of the result, the tokens and the parser.\<close>

definition after :: "('a option \<times> Parser) option \<Rightarrow> Parser \<Rightarrow> ('a option \<Rightarrow> token_view list \<Rightarrow> Parser \<Rightarrow> bool) \<Rightarrow> bool" where
  "after out p Q \<longleftrightarrow> (parser_ok p \<longrightarrow> (\<forall>r q. out = Some (r, q) \<longrightarrow> (\<exists>ts. moved p ts q \<and> (\<not> ps_had_error q \<longrightarrow> Q r ts q))))"

lemma afterI:
  "(\<And>r q. parser_ok p \<Longrightarrow> out = Some (r, q) \<Longrightarrow> \<exists>ts. moved p ts q \<and> (\<not> ps_had_error q \<longrightarrow> Q r ts q)) \<Longrightarrow> after out p Q"
  by (simp add: after_def)

lemma after_None [simp]: "after None p Q"
  by (simp add: after_def)

lemma after_give [intro]: "Q (Some x) [] p \<Longrightarrow> after (give x p) p Q"
  by (auto simp: after_def give_def intro: exI [of _ "[]"])

lemma after_give_null [intro]: "Q None [] p \<Longrightarrow> after (give_null p) p Q"
  by (auto simp: after_def give_null_def intro: exI [of _ "[]"])

lemma after_null_error [simp]: "after (null_error m p) p Q"
  by (auto simp: after_def null_error_def intro!: exI [of _ "[]"] moved_set_error)

lemma after_mono: "after out p Q \<Longrightarrow> (\<And>r ts q. Q r ts q \<Longrightarrow> Q' r ts q) \<Longrightarrow> after out p Q'"
  unfolding after_def by blast

lemma after_moved:
  assumes "moved p ts p'" "after out p' (\<lambda>r ts'. Q r (ts @ ts'))"
  shows "after out p Q"
proof (rule afterI)
  fix r q assume "parser_ok p" "out = Some (r, q)"
  with assms obtain ts' where "moved p' ts' q" "\<not> ps_had_error q \<longrightarrow> Q r (ts @ ts') q"
    unfolding after_def using moved_ok by blast
  with moved_trans [OF assms(1)] show "\<exists>ts. moved p ts q \<and> (\<not> ps_had_error q \<longrightarrow> Q r ts q)" by blast
qed

text \<open>The current token is consumed.\<close>

lemma after_advance:
  assumes "current_type p \<noteq> TOKEN_EOF"
    and "after out (parser_advance p) (\<lambda>r ts. Q r ((current_type p, current_text p) # ts))"
  shows "after out p Q"
  using after_moved [OF moved_advance [OF assms(1)]] assms(2) by simp

text \<open>A parser that has moved on may still fail.\<close>

definition later :: "Parser \<Rightarrow> Parser \<Rightarrow> bool" where
  "later p q \<longleftrightarrow> (\<exists>ts. moved p ts q)"

lemma later_refl [simp]: "later p p"
  using later_def moved_refl by blast

lemma later_advance [simp]: "later p q \<Longrightarrow> later p (parser_advance q)"
  unfolding later_def by (cases "current_type q = TOKEN_EOF") (auto simp: parser_advance_eof dest: moved_trans moved_advance)

lemma after_null_later [simp]: "later p q \<Longrightarrow> after (null_error m q) p Q"
  unfolding later_def by (auto intro: after_moved)

lemma after_cases:
  assumes m: "after out p P"
    and null: "\<And>q. after (g q) q (\<lambda>r ts'. (\<lambda>q'. \<forall>ts. P None ts q \<longrightarrow> \<not> ps_had_error q \<longrightarrow> Q r (ts @ ts') q'))"
    and some: "\<And>x q. after (f x q) q (\<lambda>r ts'. (\<lambda>q'. \<forall>ts. P (Some x) ts q \<longrightarrow> \<not> ps_had_error q \<longrightarrow> Q r (ts @ ts') q'))"
  shows "after (case out of None \<Rightarrow> None | Some (None, q) \<Rightarrow> g q | Some (Some x, q) \<Rightarrow> f x q) p Q"
proof (rule afterI)
  fix r q' assume ok: "parser_ok p"
    and res: "(case out of None \<Rightarrow> None | Some (None, q) \<Rightarrow> g q | Some (Some x, q) \<Rightarrow> f x q) = Some (r, q')"
  obtain rx q where mp: "out = Some (rx, q)" using res by (cases out) auto
  with m ok obtain ts where ts: "moved p ts q" "\<not> ps_had_error q \<longrightarrow> P rx ts q" unfolding after_def by blast
  have okq: "parser_ok q" using moved_ok ts(1) ok by blast
  have "\<exists>ts'. moved q ts' q' \<and> (\<not> ps_had_error q' \<longrightarrow> (\<forall>ts. P rx ts q \<longrightarrow> \<not> ps_had_error q \<longrightarrow> Q r (ts @ ts') q'))"
  proof (cases rx)
    case None
    then have "g q = Some (r, q')" using res mp by simp
    then show ?thesis using null [of q] okq None unfolding after_def by blast
  next
    case (Some x)
    then have "f x q = Some (r, q')" using res mp by simp
    then show ?thesis using some [of x q] okq Some unfolding after_def by blast
  qed
  then obtain ts' where ts': "moved q ts' q'"
    "\<not> ps_had_error q' \<longrightarrow> (\<forall>ts. P rx ts q \<longrightarrow> \<not> ps_had_error q \<longrightarrow> Q r (ts @ ts') q')" by blast
  have "\<not> ps_had_error q' \<Longrightarrow> \<not> ps_had_error q" using ts'(1) okq by (auto simp: moved_def)
  with ts ts' moved_trans [OF ts(1) ts'(1)] show "\<exists>ts. moved p ts q' \<and> (\<not> ps_had_error q' \<longrightarrow> Q r ts q')" by blast
qed

lemma after_and_parse:
  assumes "after (m p) p P" and "\<And>ts q. P None ts q \<Longrightarrow> Q None ts q"
    and "\<And>x q. after (f x q) q (\<lambda>r ts' q'. \<forall>ts. P (Some x) ts q \<longrightarrow> \<not> ps_had_error q \<longrightarrow> Q r (ts @ ts') q')"
  shows "after (and_parse m f p) p Q"
  unfolding and_parse_def
  by (rule after_cases [OF assms(1) _ assms(3)]) (auto simp: after_def assms(2) intro!: exI [of _ "[]"])

lemma after_require:
  assumes "ty \<noteq> TOKEN_EOF"
  shows "after (require ty p) p (\<lambda>r ts q. r = Some () \<and> (\<exists>v. ts = [(ty, v)]))"
proof (cases "current_type p = ty")
  case True
  then show ?thesis
    using assms by (auto simp: require_def parser_expect_def intro!: after_advance [of p] after_give)
next
  case False
  then show ?thesis
    by (auto simp: require_def parser_expect_def after_def give_null_def intro!: exI [of _ "[]"] moved_set_error)
qed

lemma after_require_else:
  assumes "ty \<noteq> TOKEN_EOF"
  shows "after (require_else ty m p) p (\<lambda>r ts q. r = Some () \<and> (\<exists>v. ts = [(ty, v)]))"
proof (cases "current_type p = ty")
  case True
  then show ?thesis
    using assms by (auto simp: require_else_def parser_expect_def intro!: after_advance [of p] after_give)
next
  case False
  have "moved p [] (parser_set_error m (parser_set_error m' p))" for m'
    using moved_trans [OF moved_set_error moved_set_error] by simp
  then show ?thesis using False
    by (auto simp: require_else_def parser_expect_def after_def null_error_def intro!: exI [of _ "[]"])
qed

section \<open>Types\<close>

text \<open>The five stages of a type: its head, qualification, arguments, pointers and an array bound.\<close>

inductive reads_type :: "nat \<Rightarrow> string \<Rightarrow> token_view list \<Rightarrow> bool"
and reads_types :: "string \<Rightarrow> token_view list \<Rightarrow> bool" where
  type_word: "names_type ty \<Longrightarrow> reads_type 0 v [(ty, v)]"
| type_fn: "params = [] \<and> ts = [] \<or> reads_types params ts \<Longrightarrow> reads_type 4 ret ts' \<Longrightarrow>
    reads_type 0 (''fn('' @ params @ '')->'' @ ret)
      ([(Keyword TOKEN_FN, v1), (Punct TOKEN_LPAREN, v2)] @ ts @ [(Punct TOKEN_RPAREN, v3), (Punct TOKEN_ARROW, v4)] @ ts')"
| type_stage: "reads_type k s ts \<Longrightarrow> k < 4 \<Longrightarrow> reads_type (Suc k) s ts"
| type_dot: "reads_type 1 s ts \<Longrightarrow> names_type ty \<Longrightarrow>
    reads_type 1 (s @ ''.'' @ v) (ts @ [(Punct TOKEN_DOT, v1), (ty, v)])"
| type_generic: "reads_type 1 s ts \<Longrightarrow> args = [] \<and> ts' = [] \<or> reads_types args ts' \<Longrightarrow>
    reads_type 2 (s @ ''<'' @ args @ ''>'') (ts @ [(Punct TOKEN_LESS_THAN, v1)] @ ts' @ [(Punct TOKEN_GREATER_THAN, v2)])"
| type_pointer: "reads_type 3 s ts \<Longrightarrow> reads_type 3 (s @ ''*'') (ts @ [(Punct TOKEN_MULTIPLY, v1)])"
| type_array: "reads_type 3 s ts \<Longrightarrow>
    reads_type 4 (s @ ''['' @ n @ '']'') (ts @ [(Punct TOKEN_LBRACKET, v1), (TOKEN_NUMBER, n), (Punct TOKEN_RBRACKET, v2)])"
| types_one: "reads_type 4 s ts \<Longrightarrow> reads_types s ts"
| types_more: "reads_types s ts \<Longrightarrow> reads_type 4 s' ts' \<Longrightarrow>
    reads_types (s @ '','' @ s') (ts @ [(Punct TOKEN_COMMA, v1)] @ ts')"

lemmas type_rules = type_dot [simplified] type_generic [simplified] type_array [simplified] types_more [simplified]
  type_fn [simplified]

lemma names_type_not_eof [simp]: "\<not> parser_is_identifier_like TOKEN_EOF" "\<not> parser_is_type_keyword TOKEN_EOF"
  by (simp_all add: parser_is_identifier_like_def parser_is_type_keyword_def)

lemma after_dotted_name:
  "after (dotted_name m fuel s p) p (\<lambda>r ts q. \<exists>s'. r = Some s' \<and> (\<forall>ts0. reads_type 1 s ts0 \<longrightarrow> reads_type 1 s' (ts0 @ ts)))"
proof (induction fuel arbitrary: s p)
  case (Suc fuel)
  let ?p = "parser_advance p"
  have step: "reads_type 1 s' (ts0 @ (Punct TOKEN_DOT, v1) # (ty, v) # ts)"
    if "\<forall>ts0. reads_type 1 (s @ CHR ''.'' # v) ts0 \<longrightarrow> reads_type 1 s' (ts0 @ ts)" "reads_type 1 s ts0" "names_type ty" for s' ts0 v v1 ty ts
  proof -
    have "reads_type 1 (s @ CHR ''.'' # v) (ts0 @ [(Punct TOKEN_DOT, v1), (ty, v)])" using type_dot [OF that(2,3)] by simp
    then show ?thesis using that(1) by fastforce
  qed
  consider "current_type p \<noteq> Punct TOKEN_DOT" | "current_type p = Punct TOKEN_DOT" "\<not> names_type (current_type ?p)"
    | "current_type p = Punct TOKEN_DOT" "names_type (current_type ?p)" by blast
  then show ?case
  proof cases
    case 3
    then have "current_type ?p \<noteq> TOKEN_EOF" by auto
    moreover have "dotted_name m (Suc fuel) s p = dotted_name m fuel (s @ ''.'' @ current_text ?p) (parser_advance ?p)"
      using 3 by (auto simp: Let_def)
    ultimately show ?thesis using 3
      by (simp only: append_Cons append_Nil, intro after_advance [of p] after_advance [of ?p] after_mono [OF Suc.IH])
        (auto simp del: One_nat_def intro: step)
  next
    case 2
    then show ?thesis by (auto simp: Let_def intro!: after_advance [of p])
  qed auto
qed simp

lemma after_pointer_suffixes:
  "after (pointer_suffixes fuel s p) p (\<lambda>r ts q. \<exists>s'. r = Some s' \<and> (\<forall>ts0. reads_type 3 s ts0 \<longrightarrow> reads_type 3 s' (ts0 @ ts)))"
proof (induction fuel arbitrary: s p)
  case (Suc fuel)
  have step: "reads_type 3 s' (ts0 @ (Punct TOKEN_MULTIPLY, v) # ts)"
    if "\<forall>ts0. reads_type 3 (s @ ''*'') ts0 \<longrightarrow> reads_type 3 s' (ts0 @ ts)" "reads_type 3 s ts0" for s' ts0 v ts
    using that type_pointer [OF that(2), of v] by fastforce
  show ?case
  proof (cases "current_type p = Punct TOKEN_MULTIPLY")
    case True
    then show ?thesis by (simp, intro after_advance [of p] after_mono [OF Suc.IH]) (auto intro: step)
  qed auto
qed simp

lemma after_array_suffix:
  "after (array_suffix s p) p (\<lambda>r ts q. \<exists>s'. r = Some s' \<and> (\<forall>ts0. reads_type 3 s ts0 \<longrightarrow> reads_type 4 s' (ts0 @ ts)))"
proof (cases "current_type p = Punct TOKEN_LBRACKET")
  case open_bracket: True
  let ?p = "parser_advance p"
  show ?thesis
  proof (cases "current_type ?p = TOKEN_NUMBER")
    case True
    then show ?thesis using open_bracket
      by (auto simp: array_suffix_def Let_def intro!: after_advance [of p] after_advance [of ?p]
          after_and_parse [OF after_require] after_give type_rules)
  qed (use open_bracket in \<open>auto simp: array_suffix_def Let_def intro!: after_advance [of p]\<close>)
next
  case False
  have "reads_type 3 s ts0 \<Longrightarrow> reads_type 4 s ts0" for ts0 using type_stage [of 3 s ts0] by simp
  then show ?thesis using False by (auto simp: array_suffix_def)
qed

text \<open>What the functions of the group give: a type of the stage, or nothing read and no type begun.\<close>

definition stage_read :: "nat \<Rightarrow> Parser \<Rightarrow> string option \<Rightarrow> token_view list \<Rightarrow> bool" where
  "stage_read k p r ts \<longleftrightarrow> (case r of Some s \<Rightarrow> reads_type k s ts | None \<Rightarrow> ts = [] \<and> \<not> starts_cast (current_type p))"

definition list_read :: "bool \<Rightarrow> string \<Rightarrow> string option \<Rightarrow> token_view list \<Rightarrow> bool" where
  "list_read first buffer r ts \<longleftrightarrow> (\<exists>s. r = Some s \<and>
     (if first then buffer = [] \<longrightarrow> s = [] \<and> ts = [] \<or> reads_types s ts
      else \<forall>ts0. reads_types buffer ts0 \<longrightarrow> reads_types s (ts0 @ ts)))"

definition types_sound :: "nat \<Rightarrow> bool" where
  "types_sound fuel \<longleftrightarrow>
     (\<forall>p. after (parser_parse_type_annotation fuel p) p (\<lambda>r ts q. stage_read 4 p r ts)) \<and>
     (\<forall>p. after (type_head fuel p) p (\<lambda>r ts q. stage_read 0 p r ts)) \<and>
     (\<forall>s p. after (type_arguments fuel s p) p
       (\<lambda>r ts q. \<exists>s'. r = Some s' \<and> (\<forall>ts0. reads_type 1 s ts0 \<longrightarrow> reads_type 2 s' (ts0 @ ts)))) \<and>
     (\<forall>c m1 m2 first b p. after (type_list fuel c m1 m2 first b p) p (\<lambda>r ts q. list_read first b r ts))"

lemma types_soundD:
  assumes "types_sound fuel"
  shows "after (parser_parse_type_annotation fuel p) p (\<lambda>r ts q. stage_read 4 p r ts)"
    and "after (type_head fuel p) p (\<lambda>r ts q. stage_read 0 p r ts)"
    and "after (type_arguments fuel s p) p
       (\<lambda>r ts q. \<exists>s'. r = Some s' \<and> (\<forall>ts0. reads_type 1 s ts0 \<longrightarrow> reads_type 2 s' (ts0 @ ts)))"
    and "after (type_list fuel c m1 m2 first b p) p (\<lambda>r ts q. list_read first b r ts)"
  using assms unfolding types_sound_def by blast+

lemma list_read_start: "list_read True [] r ts \<Longrightarrow> \<exists>s. r = Some s \<and> (s = [] \<and> ts = [] \<or> reads_types s ts)"
  by (simp add: list_read_def)

lemma type_annotation_step:
  assumes "types_sound fuel"
  shows "after (parser_parse_type_annotation (Suc fuel) p) p (\<lambda>r ts q. stage_read 4 p r ts)"
proof -
  have stage: "reads_type 0 s ts \<Longrightarrow> reads_type 1 s ts" "reads_type 2 s ts \<Longrightarrow> reads_type 3 s ts" for s ts
    using type_stage [of 0 s ts] type_stage [of 2 s ts] by simp_all
  have chain: "reads_type 4 s' (ts1 @ ts2 @ ts3 @ ts4 @ ts5)"
    if "\<forall>ts0. reads_type 3 c ts0 \<longrightarrow> reads_type 4 s' (ts0 @ ts5)" "\<forall>ts0. reads_type 3 b ts0 \<longrightarrow> reads_type 3 c (ts0 @ ts4)"
      "\<forall>ts0. reads_type 1 a ts0 \<longrightarrow> reads_type 2 b (ts0 @ ts3)" "\<forall>ts0. reads_type 1 x ts0 \<longrightarrow> reads_type 1 a (ts0 @ ts2)"
      "reads_type 0 x ts1" for s' a b c x ts1 ts2 ts3 ts4 ts5
    using that stage by (metis append.assoc)
  show ?thesis unfolding parser_parse_type_annotation.simps
    by (rule after_and_parse [OF types_soundD(2) [OF assms]], simp add: stage_read_def,
        rule after_and_parse [OF after_dotted_name], simp, rule after_and_parse [OF types_soundD(3) [OF assms]], simp,
        rule after_and_parse [OF after_pointer_suffixes], simp, rule after_mono [OF after_array_suffix])
      (auto simp: stage_read_def simp del: One_nat_def, rule chain, assumption+)
qed

lemma type_arguments_step:
  assumes "types_sound fuel"
  shows "after (type_arguments (Suc fuel) s p) p
    (\<lambda>r ts q. \<exists>s'. r = Some s' \<and> (\<forall>ts0. reads_type 1 s ts0 \<longrightarrow> reads_type 2 s' (ts0 @ ts)))"
proof (cases "current_type p = Punct TOKEN_LESS_THAN")
  case True
  have none: "reads_type 2 (s @ ''<>'') (ts0 @ [(Punct TOKEN_LESS_THAN, v1), (Punct TOKEN_GREATER_THAN, v2)])"
    if "reads_type 1 s ts0" for ts0 v1 v2 using type_generic [OF that, of "[]" "[]" v1 v2] by simp
  have some: "reads_type 2 (s @ CHR ''<'' # a @ ''>'') (ts0 @ (Punct TOKEN_LESS_THAN, v1) # ts @ [(Punct TOKEN_GREATER_THAN, v2)])"
    if "reads_type 1 s ts0" "reads_types a ts" for a ts0 ts v1 v2 using type_generic [OF that(1), of a ts v1 v2] that(2) by simp
  show ?thesis unfolding type_arguments.simps using True
    by (simp only: simp_thms if_True if_False, intro after_advance [of p])
     (simp, rule after_and_parse [OF types_soundD(4) [OF assms]], force dest: list_read_start,
      rule after_and_parse [OF after_require], simp, simp,
      auto simp del: One_nat_def dest!: list_read_start intro!: after_give none some)
next
  case False
  have "reads_type 1 s ts \<Longrightarrow> reads_type 2 s ts" for ts using type_stage [of 1 s ts] by (simp add: numeral_2_eq_2)
  then show ?thesis using False by auto
qed

lemma type_list_step:
  assumes "types_sound fuel"
  shows "after (type_list (Suc fuel) c m1 m2 first b p) p (\<lambda>r ts q. list_read first b r ts)"
proof -
  let ?stop = "current_type p = Punct c \<or> current_type p = TOKEN_EOF \<or> ps_has_error p"
  have more: "reads_types s (ts0 @ (Punct TOKEN_COMMA, v) # ts1 @ ts2)"
    if "\<forall>ts0. reads_types (b @ CHR '','' # x) ts0 \<longrightarrow> reads_types s (ts0 @ ts2)" "reads_types b ts0" "reads_type 4 x ts1"
    for s x ts0 ts1 ts2 v
  proof -
    have "reads_types (b @ CHR '','' # x) (ts0 @ (Punct TOKEN_COMMA, v) # ts1)" using types_more [OF that(2,3), of v] by simp
    then show ?thesis using that(1) by fastforce
  qed
  show ?thesis
  proof (cases ?stop)
    case True
    then have "type_list (Suc fuel) c m1 m2 first b p = give b p" by auto
    then show ?thesis by (simp only:) (rule after_give, simp add: list_read_def)
  next
    case go: False
    let ?rest = "\<lambda>buffer out. case out of None \<Rightarrow> None
      | Some (None, p) \<Rightarrow> if ps_has_error p then give_null p else null_error m2 p
      | Some (Some arg, p) \<Rightarrow> type_list fuel c m1 m2 False (buffer @ arg) p"
    have null: "after (if ps_has_error q then give_null q else null_error m2 q) q R" for q R
      by (auto simp: after_def give_null_def null_error_def parser_ok_def intro!: exI [of _ "[]"] moved_set_error)
    note IH = types_soundD [OF assms]
    show ?thesis
    proof (cases first)
      case True
      have one: "reads_types s (tsa @ ts)"
        if "\<forall>ts0. reads_types arg ts0 \<longrightarrow> reads_types s (ts0 @ ts)" "reads_type 4 arg tsa" for s arg ts tsa
        using that types_one by blast
      have "after (?rest b (parser_parse_type_annotation fuel p)) p (\<lambda>r ts q. list_read first b r ts)"
        by (rule after_cases [OF IH(1)], rule null, rule after_mono [OF IH(4)])
          (auto simp: True list_read_def stage_read_def dest: one)
      then show ?thesis using go True by (simp add: case_prod_beta)
    next
      case False
      show ?thesis
      proof (cases "current_type p = Punct TOKEN_COMMA")
        case True
        have "after (?rest (b @ '','') (parser_parse_type_annotation fuel (parser_advance p))) p (\<lambda>r ts q. list_read first b r ts)"
          using True
          by (intro after_advance [of p]) (simp, rule after_cases [OF IH(1)], rule null, rule after_mono [OF IH(4)],
            auto simp: False list_read_def stage_read_def intro: more)
        then show ?thesis using go False True by simp
      qed (use go False in simp)
    qed
  qed
qed

lemma type_head_step:
  assumes "types_sound fuel"
  shows "after (type_head (Suc fuel) p) p (\<lambda>r ts q. stage_read 0 p r ts)"
proof -
  note IH = types_soundD [OF assms]
  consider "current_type p = Keyword TOKEN_FN" | "current_type p \<noteq> Keyword TOKEN_FN" "names_type (current_type p)"
    | "current_type p \<noteq> Keyword TOKEN_FN" "\<not> names_type (current_type p)" by blast
  then show ?thesis
  proof cases
    case 1
    have fn: "reads_type 0 (CHR ''f'' # CHR ''n'' # CHR ''('' # s @ CHR '')'' # CHR ''-'' # CHR ''>'' # x)
        ((Keyword TOKEN_FN, v1) # (Punct TOKEN_LPAREN, v2) # ts @ (Punct TOKEN_RPAREN, v3) # (Punct TOKEN_ARROW, v4) # ts')"
      if "s = [] \<and> ts = [] \<or> reads_types s ts" "reads_type 4 x ts'" for s ts x ts' v1 v2 v3 v4
      using type_fn [OF that, of v1 v2 v3 v4] by simp
    note fn_none = fn [of "[]" "[]", simplified]
    have null: "after (if ps_has_error q then give_null q else null_error m2 q) q R" for q R m2
      by (auto simp: after_def give_null_def null_error_def parser_ok_def intro!: exI [of _ "[]"] moved_set_error)
    show ?thesis unfolding type_head.simps if_P [OF 1] using 1
      by (intro after_advance [of p])
        (simp, rule after_and_parse [OF after_require_else], simp, simp,
         rule after_and_parse [OF IH(4)], force dest: list_read_start,
         rule after_and_parse [OF after_require], simp, simp, rule after_and_parse [OF after_require_else], simp, simp,
         rule after_cases [OF IH(1)], rule null, rule after_give,
         auto simp: stage_read_def dest!: list_read_start intro!: fn fn_none)
  next
    case 2
    then have "current_type p \<noteq> TOKEN_EOF" by auto
    then show ?thesis using 2
      by (auto simp: stage_read_def intro!: after_advance [of p] after_give type_word)
  next
    case 3
    then show ?thesis by (auto simp: stage_read_def starts_cast_def intro!: after_give_null)
  qed
qed

lemma types_sound: "types_sound fuel"
proof (induction fuel)
  case 0
  show ?case by (simp add: types_sound_def)
next
  case (Suc fuel)
  show ?case unfolding types_sound_def
    by (intro conjI allI type_annotation_step type_head_step type_arguments_step type_list_step Suc)
qed

lemmas after_type = types_soundD(1) [OF types_sound]

end
