(* ===== verification/Expr_Grammar.thy ===== *)
theory Expr_Grammar
  imports Parser_Grammar
begin

text \<open>
  The grammar of expressions, and the proof that the expression parser stays within it. Operators have levels, so
  the grammar fixes precedence and associativity. Where the parser returns NULL although it has recorded no error,
  the grammar says so: such a phrase reads as no tree at all.
\<close>

section \<open>The grammar\<close>

inductive reads_type_list :: "string list \<Rightarrow> token_view list \<Rightarrow> bool" where
  type_list_nil: "reads_type_list [] []"
| type_list_one: "reads_type 4 s ts \<Longrightarrow> reads_type_list [s] ts"
| type_list_more: "reads_type_list ss ts \<Longrightarrow> ss \<noteq> [] \<Longrightarrow> reads_type 4 s ts' \<Longrightarrow>
    reads_type_list (ss @ [s]) (ts @ (Punct TOKEN_COMMA, v) # ts')"

definition separators :: "token_view list \<Rightarrow> bool" where
  "separators ts \<longleftrightarrow> list_all (\<lambda>t. fst t = Punct TOKEN_NEWLINE \<or> fst t = Punct TOKEN_SEMICOLON) ts"

inductive reads_arm_head :: "string \<times> string option \<times> bool \<Rightarrow> token_view list \<Rightarrow> bool" where
  arm_default: "reads_arm_head (''default'', None, True) [(Keyword TOKEN_DEFAULT, v)]"
| arm_case: "parser_is_identifier_like ty \<Longrightarrow> reads_arm_head (name, None, False) [(Keyword TOKEN_CASE, v), (ty, name)]"
| arm_binding: "parser_is_identifier_like ty \<Longrightarrow> parser_is_identifier_like ty' \<Longrightarrow>
    reads_arm_head (name, Some binding, False)
      [(Keyword TOKEN_CASE, v1), (ty, name), (Punct TOKEN_LPAREN, v2), (ty', binding), (Punct TOKEN_RPAREN, v3)]"

text \<open>\<open>Binary m\<close> is the level of the expressions whose outermost operators have at least precedence \<open>m\<close>.\<close>

datatype level = Primary | Postfix | Unary | Binary nat

inductive reads :: "level \<Rightarrow> ASTNode option \<Rightarrow> token_view list \<Rightarrow> bool"
and reads_args :: "ASTNode list \<Rightarrow> token_view list \<Rightarrow> bool"
and reads_arms :: "bool \<Rightarrow> ASTNode MatchArm list \<Rightarrow> token_view list \<Rightarrow> bool" where
  ident: "parser_is_identifier_like ty \<Longrightarrow> reads Primary (Some (Identifier l v)) [(ty, v)]"
| int_number: "CHR ''.'' \<notin> set v \<Longrightarrow> parser_parse_integer_literal_string v = Inr (n, radix) \<Longrightarrow>
    reads Primary (Some (ast_create_number_literal n l radix)) [(TOKEN_NUMBER, v)]"
| float_number: "CHR ''.'' \<in> set v \<Longrightarrow> reads Primary (Some (FloatLiteral l v)) [(TOKEN_NUMBER, v)]"
| str: "reads Primary (Some (StringLiteral l v)) [(TOKEN_STRING, v)]"
| import_str: "reads Primary (Some (ImportStr l v)) [(Keyword TOKEN_IMPORT_STR, v1), (TOKEN_STRING, v)]"
| paren: "reads (Binary 0) r ts \<Longrightarrow> reads Primary r ((Punct TOKEN_LPAREN, v1) # ts @ [(Punct TOKEN_RPAREN, v2)])"
| match: "reads (Binary 0) (Some e) ts \<Longrightarrow> reads_arms False arms ts' \<Longrightarrow>
    reads Primary (Some (MatchStatement l e arms True))
      ((Keyword TOKEN_MATCH, v1) # (Punct TOKEN_LPAREN, v2) # ts @ (Punct TOKEN_RPAREN, v3) # (Punct TOKEN_LBRACE, v4) #
       ts' @ [(Punct TOKEN_RBRACE, v5)])"
| match_lost: "reads (Binary 0) None ts \<Longrightarrow> reads Primary None ((Keyword TOKEN_MATCH, v1) # (Punct TOKEN_LPAREN, v2) # ts)"
| this_word: "reads Primary (Some (Identifier l ''this'')) [(Keyword TOKEN_THIS, v)]"
| new_object: "reads_type 4 t ts \<Longrightarrow> reads Primary (Some (NewExpression l t)) ((Keyword TOKEN_NEW, v) # ts)"
| postfix_primary: "reads Primary r ts \<Longrightarrow> reads Postfix r ts"
| call: "reads Postfix (Some e) ts \<Longrightarrow> \<not> parser_identifier_name_is e ''sizeof'' \<Longrightarrow>
    args = [] \<and> ts' = [] \<or> reads_args args ts' \<Longrightarrow>
    reads Postfix (finish_call e args l) (ts @ (Punct TOKEN_LPAREN, v1) # ts' @ [(Punct TOKEN_RPAREN, v2)])"
| call_sizeof: "reads Postfix (Some e) ts \<Longrightarrow> parser_identifier_name_is e ''sizeof'' \<Longrightarrow> reads_type 4 t ts' \<Longrightarrow>
    reads Postfix (finish_call e [Identifier l' t] l) (ts @ (Punct TOKEN_LPAREN, v1) # ts' @ [(Punct TOKEN_RPAREN, v2)])"
| call_generic: "reads Postfix (Some (Identifier l' f)) ts \<Longrightarrow> reads_type_list tys ts' \<Longrightarrow>
    args = [] \<and> ts'' = [] \<or> reads_args args ts'' \<Longrightarrow>
    reads Postfix (Some (CallExpression l f args None tys))
      (ts @ (Punct TOKEN_LESS_THAN, v1) # ts' @ (Punct TOKEN_GREATER_THAN, v2) #
       (Punct TOKEN_LPAREN, v3) # ts'' @ [(Punct TOKEN_RPAREN, v4)])"
| dot_member: "reads Postfix (Some e) ts \<Longrightarrow>
    reads Postfix (Some (MemberAccess l e m)) (ts @ [(Punct TOKEN_DOT, v1), (TOKEN_IDENTIFIER, m)])"
| arrow_member: "reads Postfix (Some e) ts \<Longrightarrow>
    reads Postfix (Some (MemberAccess l (UnaryExpression l ''*'' e) m)) (ts @ [(Punct TOKEN_ARROW, v1), (TOKEN_IDENTIFIER, m)])"
| index: "reads Postfix (Some e) ts \<Longrightarrow> reads (Binary 0) (Some i) ts' \<Longrightarrow>
    reads Postfix (Some (ArrayIndexExpression l e i)) (ts @ (Punct TOKEN_LBRACKET, v1) # ts' @ [(Punct TOKEN_RBRACKET, v2)])"
| index_lost: "reads Postfix (Some e) ts \<Longrightarrow> reads (Binary 0) None ts' \<Longrightarrow>
    reads Postfix None (ts @ (Punct TOKEN_LBRACKET, v1) # ts')"
| unary_postfix: "reads Postfix r ts \<Longrightarrow> reads Unary r ts"
| unary: "parser_is_unary_operator ty \<Longrightarrow> reads Unary r ts \<Longrightarrow>
    reads Unary (map_option (UnaryExpression l v) r) ((ty, v) # ts)"
| cast: "reads_type 4 t ts \<Longrightarrow> reads Unary (Some e) ts' \<Longrightarrow>
    reads Unary (Some (CastExpression l t e)) ((Punct TOKEN_LPAREN, v1) # ts @ (Punct TOKEN_RPAREN, v2) # ts')"
| cast_lost: "reads_type 4 t ts \<Longrightarrow> reads Unary None ts' \<Longrightarrow> reads Unary r ts'' \<Longrightarrow>
    reads Unary r ((Punct TOKEN_LPAREN, v1) # ts @ (Punct TOKEN_RPAREN, v2) # ts' @ ts'')"
| binary_unary: "reads Unary r ts \<Longrightarrow> reads (Binary m) r ts"
| binary: "parser_is_binary_operator ty \<Longrightarrow> m \<le> parser_get_operator_precedence ty \<Longrightarrow>
    reads (Binary (parser_get_operator_precedence ty)) (Some e) ts \<Longrightarrow>
    reads (Binary (Suc (parser_get_operator_precedence ty))) r ts' \<Longrightarrow>
    reads (Binary m) (map_option (BinaryExpression l e v) r) (ts @ (ty, v) # ts')"
| args_one: "reads (Binary 0) (Some a) ts \<Longrightarrow> reads_args [a] ts"
| args_more: "reads (Binary 0) (Some a) ts \<Longrightarrow> reads_args as ts' \<Longrightarrow> reads_args (a # as) (ts @ (Punct TOKEN_COMMA, v) # ts')"
| args_lost: "reads (Binary 0) None ts \<Longrightarrow> reads_args [] ts"
| arms_end: "separators ts \<Longrightarrow> reads_arms seen [] ts"
| arms_arm: "separators s1 \<Longrightarrow> reads_arm_head (variant, binding, dflt) ts \<Longrightarrow> \<not> (seen \<and> dflt) \<Longrightarrow>
    reads (Binary 0) (Some body) ts' \<Longrightarrow> comma = [] \<or> (\<exists>v2. comma = [(Punct TOKEN_COMMA, v2)]) \<Longrightarrow> separators s2 \<Longrightarrow>
    reads_arms (seen \<or> dflt) arms ts'' \<Longrightarrow>
    reads_arms seen (MatchArm variant binding body dflt # arms)
      (s1 @ ts @ (Punct TOKEN_COLON, v1) # ts' @ comma @ s2 @ ts'')"

lemma reads_binary_mono: "reads (Binary k) r ts \<Longrightarrow> m \<le> k \<Longrightarrow> reads (Binary m) r ts"
  by (erule reads.cases) (auto intro: binary_unary binary)

section \<open>The parts of an expression\<close>

lemma moved_fields [simp]:
  "moved p [] (p\<lparr>ps_error_message := m, ps_error_reporter := b\<rparr>)" "moved p [] (p\<lparr>ps_error_message := m\<rparr>)"
  "moved p [] (p\<lparr>ps_has_error := False, ps_error_message := m\<rparr>)" "moved p [] (p\<lparr>ps_error_reporter := b\<rparr>)"
  by (simp_all add: moved_def parser_stream_def parser_ok_def)

lemma after_member_name:
  assumes "current_type p \<noteq> TOKEN_EOF"
  shows "after (member_name op p) p (\<lambda>r ts q. \<exists>m. r = Some m \<and> ts = [(current_type p, current_text p), (TOKEN_IDENTIFIER, m)])"
proof (cases "current_type (parser_advance p) = TOKEN_IDENTIFIER")
  case True
  with assms show ?thesis
    by (auto simp: member_name_def Let_def intro!: after_advance [of p] after_advance [of "parser_advance p"] after_give)
qed (simp add: member_name_def Let_def)

lemma after_skip_separators: "after (skip_separators fuel p) p (\<lambda>r ts q. r = Some () \<and> separators ts)"
proof (induction fuel arbitrary: p)
  case (Suc fuel)
  consider "current_type p = Punct TOKEN_NEWLINE \<or> current_type p = Punct TOKEN_SEMICOLON"
    | "\<not> (current_type p = Punct TOKEN_NEWLINE \<or> current_type p = Punct TOKEN_SEMICOLON)" by blast
  then show ?case
  proof cases
    case 1
    then have "current_type p \<noteq> TOKEN_EOF" by auto
    then show ?thesis using 1
      by (simp, intro after_advance [of p] after_mono [OF Suc.IH]) (auto simp: separators_def)
  qed (auto simp: separators_def)
qed simp

lemma after_match_arm_head:
  "after (match_arm_head seen p) p (\<lambda>r ts q. \<exists>h. r = Some h \<and> reads_arm_head h ts \<and> \<not> (seen \<and> snd (snd h)))"
proof -
  let ?a = "parser_advance p"
  let ?b = "parser_advance ?a"
  let ?c = "parser_advance ?b"
  have eof: "parser_is_identifier_like (current_type q) \<Longrightarrow> current_type q \<noteq> TOKEN_EOF" for q by auto
  consider "current_type p = Keyword TOKEN_DEFAULT" | "current_type p = Keyword TOKEN_CASE"
    | "current_type p \<notin> {Keyword TOKEN_DEFAULT, Keyword TOKEN_CASE}" by blast
  then show ?thesis
  proof cases
    case 1
    then show ?thesis
      by (cases seen) (auto simp: match_arm_head_def intro!: after_advance [of p] after_give arm_default)
  next
    case 2
    consider "\<not> parser_is_identifier_like (current_type ?a)"
      | "parser_is_identifier_like (current_type ?a)" "current_type ?b \<noteq> Punct TOKEN_LPAREN"
      | "parser_is_identifier_like (current_type ?a)" "current_type ?b = Punct TOKEN_LPAREN" "\<not> parser_is_identifier_like (current_type ?c)"
      | "parser_is_identifier_like (current_type ?a)" "current_type ?b = Punct TOKEN_LPAREN" "parser_is_identifier_like (current_type ?c)"
      by blast
    then show ?thesis
    proof cases
      case c: 2
      then show ?thesis using 2 eof [of ?a]
        by (auto simp: match_arm_head_def Let_def intro!: after_advance [of p] after_advance [of ?a] after_give arm_case)
    next
      case c: 4
      then show ?thesis using 2 eof [of ?a] eof [of ?c]
        by (auto simp: match_arm_head_def Let_def intro!: after_advance [of p] after_advance [of ?a]
          after_advance [of ?b] after_advance [of ?c] after_and_parse [OF after_require] after_give arm_binding)
    qed (use 2 in \<open>simp_all add: match_arm_head_def Let_def\<close>)
  next
    case 3
    then show ?thesis by (auto simp: match_arm_head_def)
  qed
qed

lemma after_number_node:
  assumes "current_type p = TOKEN_NUMBER"
  shows "after (number_node (current_text p) l p) p (\<lambda>r ts q. reads Primary r ts)"
  using assms
  by (auto simp: number_node_def ast_create_defs intro!: after_advance [of p] after_give float_number int_number split: sum.splits)

lemma after_sizeof_argument:
  "after (sizeof_argument fuel p) p (\<lambda>r ts q. \<exists>l t. r = Some [Identifier l t] \<and> reads_type 4 t ts)"
  unfolding sizeof_argument_def Let_def
  apply (cases "current_type p = Punct TOKEN_RPAREN")
   apply simp
  apply (simp only: if_False)
  apply (rule after_cases [OF after_type])
   apply (auto simp: after_def give_null_def null_error_def parser_ok_def intro!: exI [of _ "[]"] moved_set_error)[1]
  apply (auto simp: stage_read_def ast_create_defs intro!: after_give)
  done

section \<open>Speculation\<close>

lemma moved_back: "moved p ts q \<Longrightarrow> moved p [] (parser_restore_state (parser_save_state p) q)"
  using moved_restore [where m = "ps_error_message p" and b = "ps_error_reporter p"] by simp

text \<open>A phrase between two tokens, read without an error.\<close>

lemma moved_between:
  assumes "moved p ts p1" "moved p1 [t] q" "parser_ok p"
  shows "moved p (ts @ [t]) q" "\<not> ps_had_error q \<Longrightarrow> \<not> ps_had_error p1"
  using moved_trans [OF assms(1,2)] assms by (auto simp: moved_def)

lemma call_type_args_reads:
  assumes "call_type_args fuel tys p = Some ((success, tys'), q)" "parser_ok p"
  shows "\<exists>ts. moved p ts q \<and> (success \<longrightarrow> \<not> ps_had_error q \<longrightarrow>
    (\<forall>ts0. reads_type_list tys ts0 \<longrightarrow> reads_type_list tys' (ts0 @ ts)))"
  using assms
proof (induction fuel arbitrary: tys p)
  case (Suc fuel)
  let ?p = "if tys \<noteq> [] then parser_advance p else p"
  consider (stop) "current_type p = Punct TOKEN_GREATER_THAN \<or> current_type p = TOKEN_EOF"
    | (bad) "\<not> (current_type p = Punct TOKEN_GREATER_THAN \<or> current_type p = TOKEN_EOF)" "tys \<noteq> []" "current_type p \<noteq> Punct TOKEN_COMMA"
    | (go) "\<not> (current_type p = Punct TOKEN_GREATER_THAN \<or> current_type p = TOKEN_EOF)" "tys = [] \<or> current_type p = Punct TOKEN_COMMA"
    by blast
  then show ?case
  proof cases
    case go
    define sep where "sep = (if tys \<noteq> [] then [(current_type p, current_text p)] else [])"
    have mp: "moved p sep ?p" using go moved_advance [of p] by (simp add: sep_def)
    then have ok: "parser_ok ?p" using Suc.prems(2) moved_ok by blast
    from Suc.prems(1) go obtain r p1 where r: "parser_parse_type_annotation fuel ?p = Some (r, p1)"
      by (auto split: option.splits if_splits)
    obtain ts1 where ts1: "moved ?p ts1 p1" "\<not> ps_had_error p1 \<longrightarrow> stage_read 4 ?p r ts1"
      using after_type [of fuel ?p] ok r unfolding after_def by blast
    have ok1: "parser_ok p1" using ts1(1) ok moved_ok by blast
    have here: ?thesis if "Some ((False, tys), p1) = Some ((success, tys'), q)"
      using that moved_trans [OF mp ts1(1)] by auto
    show ?thesis
    proof (cases "\<exists>arg. r = Some arg \<and> \<not> ps_has_error p1")
      case True
      then obtain arg where arg: "r = Some arg" "\<not> ps_has_error p1" by blast
      then have "call_type_args fuel (tys @ [arg]) p1 = Some ((success, tys'), q)"
        using Suc.prems(1) go r by (auto split: if_splits)
      from Suc.IH [OF this ok1] obtain ts2 where ts2: "moved p1 ts2 q"
        "success \<longrightarrow> \<not> ps_had_error q \<longrightarrow> (\<forall>ts0. reads_type_list (tys @ [arg]) ts0 \<longrightarrow> reads_type_list tys' (ts0 @ ts2))" by blast
      have "reads_type_list tys' (ts0 @ sep @ ts1 @ ts2)"
        if "success" "\<not> ps_had_error q" "reads_type_list tys ts0" for ts0
      proof -
        have "\<not> ps_had_error p1" using ts2(1) ok1 that(2) by (auto simp: moved_def)
        then have "reads_type 4 arg ts1" using ts1(2) arg by (simp add: stage_read_def)
        then have "reads_type_list (tys @ [arg]) (ts0 @ sep @ ts1)"
          using that(3) go(2) type_list_one [of arg ts1] type_list_more [of tys ts0 arg ts1 "current_text p"]
          by (cases "tys = []") (auto simp: sep_def elim: reads_type_list.cases)
        then show ?thesis using ts2(2) that by fastforce
      qed
      moreover have "moved p (sep @ ts1 @ ts2) q"
        using moved_trans [OF mp moved_trans [OF ts1(1) ts2(1)]] by simp
      ultimately show ?thesis by blast
    next
      case False
      then have "Some ((False, tys), p1) = Some ((success, tys'), q)"
        using Suc.prems(1) go r by (cases r) (auto split: if_splits)
      then show ?thesis by (rule here)
    qed
  qed (use Suc.prems in \<open>auto intro: exI [of _ "[]"]\<close>)
qed simp

lemma after_generic:
  "after (parser_try_parse_generic_call_type_args fuel p) p (\<lambda>r ts q. case r of None \<Rightarrow> ts = []
     | Some tys \<Rightarrow> current_type q = Punct TOKEN_LPAREN \<and>
         (\<exists>v1 ts1 v2. ts = (Punct TOKEN_LESS_THAN, v1) # ts1 @ [(Punct TOKEN_GREATER_THAN, v2)] \<and> reads_type_list tys ts1))"
  (is "after _ _ ?Q")
proof (cases "current_type p = Punct TOKEN_LESS_THAN")
  case True
  show ?thesis
  proof (rule afterI)
    fix r q assume ok: "parser_ok p" and res: "parser_try_parse_generic_call_type_args fuel p = Some (r, q)"
    let ?p = "p\<lparr>ps_error_message := None\<rparr>"
    have adv: "moved p [(current_type p, current_text p)] (parser_advance ?p)"
      using moved_trans [OF moved_fields(2) moved_advance [of ?p]] True by simp
    from res True obtain success tys p1 where c: "call_type_args fuel [] (parser_advance ?p) = Some ((success, tys), p1)"
      by (auto simp: parser_try_parse_generic_call_type_args_def Let_def split: option.splits)
    from call_type_args_reads [OF c] adv ok moved_ok obtain ts1 where ts1: "moved (parser_advance ?p) ts1 p1"
      "success \<longrightarrow> \<not> ps_had_error p1 \<longrightarrow> reads_type_list tys ts1" by (fastforce intro: type_list_nil)
    have m1: "moved p ((current_type p, current_text p) # ts1) p1" using moved_trans [OF adv ts1(1)] by simp
    let ?p2 = "parser_advance p1"
    let ?q = "?p2\<lparr>ps_has_error := False, ps_error_message := None\<rparr>"
    have m2: "moved p1 [(current_type p1, current_text p1)] ?p2" if "current_type p1 = Punct TOKEN_GREATER_THAN"
      using moved_advance [of p1] that by simp
    consider (none) "r = None" "q = parser_restore_state (parser_save_state p) p1"
      | (closed) "current_type p1 = Punct TOKEN_GREATER_THAN" "r = None" "q = parser_restore_state (parser_save_state p) ?p2"
      | (found) "current_type p1 = Punct TOKEN_GREATER_THAN" "success" "r = Some tys" "q = ?q" "current_type ?p2 = Punct TOKEN_LPAREN"
      using res True c
      by (auto simp: parser_try_parse_generic_call_type_args_def Let_def give_def give_null_def split: if_splits)
    then show "\<exists>ts. moved p ts q \<and> (\<not> ps_had_error q \<longrightarrow> ?Q r ts q)"
    proof cases
      case none
      then show ?thesis using moved_back [OF m1] by auto
    next
      case closed
      then show ?thesis using moved_back [OF moved_trans [OF m1 m2]] by auto
    next
      case found
      have "moved p1 [(current_type p1, current_text p1)] q"
        using moved_trans [OF m2 moved_fields(3)] found by simp
      note between = moved_between [OF m1 this ok]
      then show ?thesis using found True ts1(2)
        by (intro exI [of _ "((current_type p, current_text p) # ts1) @ [(current_type p1, current_text p1)]"]) auto
    qed
  qed
qed (auto simp: parser_try_parse_generic_call_type_args_def)

lemma after_cast_type:
  "after (cast_type fuel p) p (\<lambda>r ts q. case r of None \<Rightarrow> ts = []
     | Some t \<Rightarrow> \<exists>v1 ts1 v2. ts = (Punct TOKEN_LPAREN, v1) # ts1 @ [(Punct TOKEN_RPAREN, v2)] \<and> reads_type 4 t ts1)"
  (is "after _ _ ?Q")
proof (cases "current_type p = Punct TOKEN_LPAREN \<and> starts_cast (peek_type p)")
  case True
  show ?thesis
  proof (rule afterI)
    fix r q assume ok: "parser_ok p" and res: "cast_type fuel p = Some (r, q)"
    let ?p = "p\<lparr>ps_error_message := None, ps_error_reporter := False\<rparr>"
    have adv: "moved p [(current_type p, current_text p)] (parser_advance ?p)"
      using moved_trans [OF moved_fields(1) moved_advance [of ?p]] True by simp
    from res True obtain t p1 where c: "parser_parse_type_annotation fuel (parser_advance ?p) = Some (t, p1)"
      by (auto simp: cast_type_def Let_def split: option.splits)
    have "parser_ok (parser_advance ?p)" using moved_ok [OF adv] ok .
    with after_type [of fuel "parser_advance ?p"] c obtain ts1 where ts1: "moved (parser_advance ?p) ts1 p1"
      "\<not> ps_had_error p1 \<longrightarrow> stage_read 4 (parser_advance ?p) t ts1" unfolding after_def by blast
    have m1: "moved p ((current_type p, current_text p) # ts1) p1" using moved_trans [OF adv ts1(1)] by simp
    let ?p1 = "p1\<lparr>ps_error_reporter := pss_error_reporter (parser_save_state p)\<rparr>"
    let ?p2 = "parser_advance ?p1"
    let ?q = "?p2\<lparr>ps_has_error := False, ps_error_message := None\<rparr>"
    have m2: "moved p1 [(current_type p1, current_text p1)] ?p2" if "current_type p1 = Punct TOKEN_RPAREN"
      using moved_trans [OF moved_fields(4) moved_advance [of ?p1]] that by simp
    consider (none) "r = None" "q = parser_restore_state (parser_save_state p) p1"
      | (closed) "current_type p1 = Punct TOKEN_RPAREN" "r = None" "q = parser_restore_state (parser_save_state p) ?p2"
      | (found) t' where "current_type p1 = Punct TOKEN_RPAREN" "t = Some t'" "r = Some t'" "q = ?q"
      using res True c by (auto simp: cast_type_def Let_def give_null_def split: if_splits)
    then show "\<exists>ts. moved p ts q \<and> (\<not> ps_had_error q \<longrightarrow> ?Q r ts q)"
    proof cases
      case none
      then show ?thesis using moved_back [OF m1] by auto
    next
      case closed
      then show ?thesis using moved_back [OF moved_trans [OF m1 m2]] by auto
    next
      case found
      have "moved p1 [(current_type p1, current_text p1)] q"
        using moved_trans [OF m2 moved_fields(3)] found by simp
      note between = moved_between [OF m1 this ok]
      then show ?thesis using found True ts1(2) unfolding stage_read_def
        by (intro exI [of _ "((current_type p, current_text p) # ts1) @ [(current_type p1, current_text p1)]"]) auto
    qed
  qed
qed (auto simp: cast_type_def)

section \<open>Soundness\<close>

text \<open>The next token does not continue an expression of the level.\<close>

definition stops :: "nat \<Rightarrow> Parser \<Rightarrow> bool" where
  "stops m q \<longleftrightarrow> \<not> (parser_is_binary_operator (current_type q) \<and> m \<le> parser_get_operator_precedence (current_type q))"

definition read_expression :: "nat \<Rightarrow> ASTNode option \<Rightarrow> token_view list \<Rightarrow> Parser \<Rightarrow> bool" where
  "read_expression m r ts q \<longleftrightarrow> reads (Binary m) r ts \<and> (r \<noteq> None \<longrightarrow> stops m q)"

definition read_rest :: "nat \<Rightarrow> ASTNode \<Rightarrow> Parser \<Rightarrow> ASTNode option \<Rightarrow> token_view list \<Rightarrow> Parser \<Rightarrow> bool" where
  "read_rest m left p r ts q \<longleftrightarrow>
     (\<forall>k ts0. reads (Binary k) (Some left) ts0 \<longrightarrow> m \<le> k \<longrightarrow> stops (Suc k) p \<longrightarrow> read_expression m r (ts0 @ ts) q)"

definition read_cast :: "ASTNode option \<Rightarrow> token_view list \<Rightarrow> bool" where
  "read_cast r ts \<longleftrightarrow> (case r of Some e \<Rightarrow> reads Unary (Some e) ts
     | None \<Rightarrow> ts = [] \<or> (\<forall>r' ts'. reads Unary r' ts' \<longrightarrow> reads Unary r' (ts @ ts')))"

definition read_postfix :: "ASTNode \<Rightarrow> ASTNode option \<Rightarrow> token_view list \<Rightarrow> bool" where
  "read_postfix e r ts \<longleftrightarrow> (\<forall>ts0. reads Postfix (Some e) ts0 \<longrightarrow> reads Postfix r (ts0 @ ts))"

definition exprs_sound :: "nat \<Rightarrow> bool" where
  "exprs_sound fuel \<longleftrightarrow>
     (\<forall>m p. after (parser_parse_binary_expression fuel m p) p (read_expression m)) \<and>
     (\<forall>m left p. after (binary_loop fuel m left p) p (read_rest m left p)) \<and>
     (\<forall>p. after (parser_parse_unary_expression fuel p) p (\<lambda>r ts q. reads Unary r ts)) \<and>
     (\<forall>p. after (parser_parse_cast_expression fuel p) p (\<lambda>r ts q. read_cast r ts)) \<and>
     (\<forall>p. after (parser_parse_postfix_expression fuel p) p (\<lambda>r ts q. reads Postfix r ts)) \<and>
     (\<forall>e p. after (postfix_loop fuel e p) p (\<lambda>r ts q. read_postfix e r ts)) \<and>
     (\<forall>e l p. after (postfix_suffix fuel e l p) p (\<lambda>r ts q. read_postfix e r ts)) \<and>
     (\<forall>args p. after (arguments fuel args p) p (\<lambda>r ts q. \<exists>as. r = Some (args @ as) \<and> reads_args as ts)) \<and>
     (\<forall>p. after (parser_parse_primary_expression fuel p) p (\<lambda>r ts q. reads Primary r ts)) \<and>
     (\<forall>p. after (parser_parse_match_expression fuel p) p (\<lambda>r ts q. reads Primary r ts)) \<and>
     (\<forall>arms seen p. after (match_arms fuel arms seen p) p (\<lambda>r ts q. \<exists>as. r = Some (arms @ as) \<and> reads_arms seen as ts))"

lemma exprs_soundD:
  assumes "exprs_sound fuel"
  shows sound_expression: "after (parser_parse_binary_expression fuel m p) p (read_expression m)"
    and sound_loop: "after (binary_loop fuel m left p) p (read_rest m left p)"
    and sound_unary: "after (parser_parse_unary_expression fuel p) p (\<lambda>r ts q. reads Unary r ts)"
    and sound_cast: "after (parser_parse_cast_expression fuel p) p (\<lambda>r ts q. read_cast r ts)"
    and sound_postfix: "after (parser_parse_postfix_expression fuel p) p (\<lambda>r ts q. reads Postfix r ts)"
    and sound_postfix_loop: "after (postfix_loop fuel e p) p (\<lambda>r ts q. read_postfix e r ts)"
    and sound_suffix: "after (postfix_suffix fuel e l p) p (\<lambda>r ts q. read_postfix e r ts)"
    and sound_arguments: "after (arguments fuel args p) p (\<lambda>r ts q. \<exists>as. r = Some (args @ as) \<and> reads_args as ts)"
    and sound_primary: "after (parser_parse_primary_expression fuel p) p (\<lambda>r ts q. reads Primary r ts)"
    and sound_match: "after (parser_parse_match_expression fuel p) p (\<lambda>r ts q. reads Primary r ts)"
    and sound_arms: "after (match_arms fuel arms seen p) p (\<lambda>r ts q. \<exists>as. r = Some (arms @ as) \<and> reads_arms seen as ts)"
  using assms unfolding exprs_sound_def by blast+

lemma expression_step:
  assumes "exprs_sound fuel"
  shows "after (parser_parse_binary_expression (Suc fuel) m p) p (read_expression m)"
proof -
  have rest: "read_expression m r (ts @ ts') q'"
    if "read_rest m left q r ts' q'" "reads Unary (Some left) ts" for r ts ts' left q q'
  proof -
    let ?k = "max m (parser_get_operator_precedence (current_type q))"
    have "stops (Suc ?k) q" by (simp add: stops_def not_less_eq_eq)
    then show ?thesis using that binary_unary [OF that(2), of ?k] unfolding read_rest_def by fastforce
  qed
  show ?thesis unfolding parser_parse_binary_expression.simps
    by (rule after_and_parse [OF sound_unary [OF assms]], simp add: read_expression_def binary_unary,
        rule after_mono [OF sound_loop [OF assms]]) (simp add: rest)
qed

lemma loop_step:
  assumes "exprs_sound fuel"
  shows "after (binary_loop (Suc fuel) m left p) p (read_rest m left p)"
proof (cases "stops m p")
  case True
  then have "binary_loop (Suc fuel) m left p = give left p" by (auto simp: stops_def Let_def)
  moreover have "after (give left p) p (read_rest m left p)"
    using True by (auto simp: read_rest_def read_expression_def intro: reads_binary_mono intro!: after_give)
  ultimately show ?thesis by simp
next
  case False
  let ?c = "parser_get_operator_precedence (current_type p)" and ?op = "current_text p"
  from False have op: "parser_is_binary_operator (current_type p)" "m \<le> ?c" by (simp_all add: stops_def)
  then have eof: "current_type p \<noteq> TOKEN_EOF" by (auto simp: parser_is_binary_operator_def)
  have bin: "reads (Binary m') (map_option (BinaryExpression l left ?op) r) (ts0 @ (current_type p, ?op) # ts)"
    if "reads (Binary k) (Some left) ts0" "stops (Suc k) p" "reads (Binary (Suc ?c)) r ts" "m' \<le> ?c" for k m' ts0 r ts l
  proof -
    have "?c \<le> k" using that(2) op(1) by (simp add: stops_def not_less_eq_eq)
    then show ?thesis using binary [OF op(1) that(4) reads_binary_mono [OF that(1)] that(3)] by simp
  qed
  have "read_rest m left p r ((current_type p, ?op) # ts @ ts') q'"
    if "read_rest m (BinaryExpression l left ?op right) q r ts' q'" "read_expression (Suc ?c) (Some right) ts q"
    for r l right q ts ts' q'
    unfolding read_rest_def
  proof (intro allI impI)
    fix k ts0 assume k: "reads (Binary k) (Some left) ts0" "m \<le> k" "stops (Suc k) p"
    have "reads (Binary ?c) (Some (BinaryExpression l left ?op right)) (ts0 @ (current_type p, ?op) # ts)"
      using bin [OF k(1,3), of "Some right" ts ?c l] that(2) by (simp add: read_expression_def)
    then show "read_expression m r (ts0 @ (current_type p, ?op) # ts @ ts') q'"
      using that op(2) unfolding read_rest_def read_expression_def by fastforce
  qed
  moreover have "read_rest m left p None ((current_type p, ?op) # ts) q" if "read_expression (Suc ?c) None ts q" for ts q
    using bin [of _ _ None ts m] op(2) that by (auto simp: read_rest_def read_expression_def)
  moreover have "after (and_parse (parser_parse_binary_expression fuel (?c + 1)) (\<lambda>right.
      binary_loop fuel m (ast_create_binary_expression left ?op right l)) (parser_advance p)) p (read_rest m left p)" for l
    by (rule after_advance [OF eof], rule after_and_parse [OF sound_expression [OF assms]])
      (simp_all add: calculation(2), rule after_mono [OF sound_loop [OF assms]], simp add: calculation(1) ast_create_defs)
  ultimately show ?thesis using op by (simp add: Let_def)
qed

lemma unary_step:
  assumes "exprs_sound fuel"
  shows "after (parser_parse_unary_expression (Suc fuel) p) p (\<lambda>r ts q. reads Unary r ts)"
proof -
  let ?no_cast = "\<lambda>q. if parser_is_unary_operator (current_type q)
    then and_parse (parser_parse_unary_expression fuel)
      (\<lambda>operand. give (ast_create_unary_expression (current_text q) operand (parser_current_location p))) (parser_advance q)
    else parser_parse_postfix_expression fuel q"
  have op: "after (?no_cast q) q (\<lambda>r ts q'. reads Unary r ts)" for q
  proof (cases "parser_is_unary_operator (current_type q)")
    case True
    then have eof: "current_type q \<noteq> TOKEN_EOF" by (auto simp: parser_is_unary_operator_def)
    have "reads Unary (Some (UnaryExpression l v e)) ((current_type q, v) # ts)" if "reads Unary (Some e) ts" for l v e ts
      using unary [OF True that, of l v] by simp
    then show ?thesis
      using True unary [OF True, of None] by (simp, intro after_advance [OF eof] after_and_parse [OF sound_unary [OF assms]])
        (auto simp: ast_create_defs)
  qed (simp, rule after_mono [OF sound_postfix [OF assms]], rule unary_postfix)
  have "after (case parser_parse_cast_expression fuel p of None \<Rightarrow> None | Some (None, q) \<Rightarrow> ?no_cast q
      | Some (Some e, q) \<Rightarrow> give e q) p (\<lambda>r ts q. reads Unary r ts)"
    by (rule after_cases [OF sound_cast [OF assms]], rule after_mono [OF op]) (auto simp: read_cast_def)
  then show ?thesis using op [of p] by (auto simp: Let_def split: option.splits)
qed

lemma cast_step:
  assumes "exprs_sound fuel"
  shows "after (parser_parse_cast_expression (Suc fuel) p) p (\<lambda>r ts q. read_cast r ts)"
  unfolding parser_parse_cast_expression.simps Let_def
  by (rule after_and_parse [OF after_cast_type], simp add: read_cast_def, rule after_and_parse [OF sound_unary [OF assms]])
    (auto simp: read_cast_def ast_create_defs intro: cast cast_lost intro!: after_give)

lemma postfix_step:
  assumes "exprs_sound fuel"
  shows "after (parser_parse_postfix_expression (Suc fuel) p) p (\<lambda>r ts q. reads Postfix r ts)"
  unfolding parser_parse_postfix_expression.simps
  by (rule after_and_parse [OF sound_primary [OF assms]], rule postfix_primary, assumption,
      rule after_mono [OF sound_postfix_loop [OF assms]]) (auto simp: read_postfix_def intro: postfix_primary)

text \<open>The arguments of a call, up to the closing parenthesis.\<close>

lemma after_call_arguments:
  assumes "exprs_sound fuel"
  shows "after ((if b then arguments fuel [] else give []) p) p (\<lambda>r ts q. \<exists>as. r = Some as \<and> (as = [] \<and> ts = [] \<or> reads_args as ts))"
  by (cases b) (auto intro!: after_give after_mono [OF sound_arguments [OF assms]])

lemma arguments_step:
  assumes "exprs_sound fuel"
  shows "after (arguments (Suc fuel) args p) p (\<lambda>r ts q. \<exists>as. r = Some (args @ as) \<and> reads_args as ts)"
proof -
  have err: "after (give x (parser_set_error e q)) q Q" for x e q and Q :: "ASTNode list option \<Rightarrow> token_view list \<Rightarrow> Parser \<Rightarrow> bool"
    by (auto simp: after_def give_def intro!: exI [of _ "[]"] moved_set_error)
  show ?thesis unfolding arguments.simps
  proof (rule after_cases [OF sound_expression [OF assms]], goal_cases)
    case (1 q)
    then show ?case by (auto simp: read_expression_def intro: args_lost intro!: after_give)
  next
    case (2 arg q)
    consider "current_type q = Punct TOKEN_COMMA" | "current_type q = Punct TOKEN_RPAREN"
      | "current_type q \<notin> {Punct TOKEN_COMMA, Punct TOKEN_RPAREN}" by blast
    then show ?case
    proof cases
      case 1
      then show ?thesis
        by (simp, intro after_advance [of q] after_mono [OF sound_arguments [OF assms]])
          (auto simp: read_expression_def intro: args_more)
    next
      case 2
      then show ?thesis by (auto simp: read_expression_def intro: args_one intro!: after_give)
    qed (simp add: err)
  qed
qed

text \<open>A call whose arguments are read by \<open>m\<close> and whose rest, once they are known, by \<open>k\<close>.\<close>

lemma after_advance_if:
  assumes "ty \<noteq> TOKEN_EOF" "after out (parser_advance p) (\<lambda>r ts q. current_type p = ty \<longrightarrow> Q r ((ty, current_text p) # ts) q)"
  shows "after out p (\<lambda>r ts q. current_type p = ty \<longrightarrow> Q r ts q)"
proof (cases "current_type p = TOKEN_EOF")
  case True
  then show ?thesis using assms by (auto simp: parser_advance_eof intro: after_mono)
next
  case False
  then show ?thesis by (rule after_advance) (auto intro: after_mono [OF assms(2)])
qed

lemma after_call:
  assumes m: "\<And>p. after (m p) p (\<lambda>r ts q. \<exists>as. r = Some as \<and> A as ts)"
    and k: "\<And>as p. after (k as p) p (\<lambda>r ts q. R as r ts)"
  shows "after (and_parse m (\<lambda>as. and_parse (require (Punct TOKEN_RPAREN)) (\<lambda>_. k as)) (parser_advance p)) p
    (\<lambda>r ts q. current_type p = Punct TOKEN_LPAREN \<longrightarrow> (\<exists>as v1 ts1 v2 ts2.
       ts = (Punct TOKEN_LPAREN, v1) # ts1 @ (Punct TOKEN_RPAREN, v2) # ts2 \<and> A as ts1 \<and> R as r ts2))"
  by (rule after_advance_if, simp, rule after_and_parse [OF m], simp, rule after_and_parse [OF after_require], simp, simp,
      rule after_mono [OF k]) (clarsimp, blast)

lemma postfix_loop_step:
  assumes "exprs_sound fuel"
  shows "after (postfix_loop (Suc fuel) e p) p (\<lambda>r ts q. read_postfix e r ts)"
proof (cases "\<exists>l f. e = Identifier l f")
  case True
  then obtain l f where e: "e = Identifier l f" by blast
  let ?l = "parser_current_location p"
  let ?call = "\<lambda>tys q. and_parse (if current_type (parser_advance q) \<noteq> Punct TOKEN_RPAREN then arguments fuel [] else give []) (\<lambda>args.
      and_parse (require (Punct TOKEN_RPAREN)) (\<lambda>_.
        postfix_loop fuel (with_type_args tys (ast_create_call_expression f args ?l)))) (parser_advance q)"
  note call = after_call [OF after_call_arguments [OF assms] sound_postfix_loop [OF assms], of _ "\<lambda>args. with_type_args tys (ast_create_call_expression f args ?l)" for tys]
  have generic: "read_postfix e r ((Punct TOKEN_LESS_THAN, v1) # ts1 @ (Punct TOKEN_GREATER_THAN, v2) #
      (Punct TOKEN_LPAREN, v3) # ts2 @ (Punct TOKEN_RPAREN, v4) # ts3)"
    if "reads_type_list tys ts1" "args = [] \<and> ts2 = [] \<or> reads_args args ts2"
      "read_postfix (with_type_args tys (ast_create_call_expression f args ?l)) r ts3" for r v1 v2 v3 v4 ts1 ts2 ts3 tys args
    using that(3) call_generic [OF _ that(1,2), of l f _ ?l v1 v2 v3 v4]
    by (fastforce simp: read_postfix_def e with_type_args_def ast_create_defs)
  note generic_none = generic [where args = "[]" and ?ts2.0 = "[]", simplified]
  have "after (case parser_try_parse_generic_call_type_args fuel p of None \<Rightarrow> None
      | Some (None, q) \<Rightarrow> postfix_suffix fuel e ?l q | Some (Some tys, q) \<Rightarrow> ?call tys q) p (\<lambda>r ts q. read_postfix e r ts)"
    by (rule after_cases [OF after_generic], rule after_mono [OF sound_suffix [OF assms]], simp, rule after_mono [OF call])
      (auto intro!: generic generic_none)
  then show ?thesis unfolding e postfix_loop.simps Let_def ASTNode.case .
next
  case False
  then have "postfix_loop (Suc fuel) e p = postfix_suffix fuel e (parser_current_location p) p"
    by (auto simp: Let_def split: ASTNode.splits)
  then show ?thesis by (simp only: sound_suffix [OF assms])
qed

lemma call_step:
  assumes "exprs_sound fuel" "current_type p = Punct TOKEN_LPAREN"
  shows "after (postfix_suffix (Suc fuel) e l p) p (\<lambda>r ts q. read_postfix e r ts)"
proof -
  let ?sizeof = "parser_identifier_name_is e ''sizeof''"
  let ?A = "\<lambda>as ts. if ?sizeof then \<exists>l' t. as = [Identifier l' t] \<and> reads_type 4 t ts else as = [] \<and> ts = [] \<or> reads_args as ts"
  let ?R = "\<lambda>as r ts. case finish_call e as l of None \<Rightarrow> r = None \<and> ts = [] | Some c \<Rightarrow> read_postfix c r ts"
  let ?m = "\<lambda>b. if ?sizeof then sizeof_argument fuel else if b then arguments fuel [] else give []"
  let ?k = "\<lambda>as. case finish_call e as l of None \<Rightarrow> give_null | Some c \<Rightarrow> postfix_loop fuel c"
  have m: "after (?m b q) q (\<lambda>r ts q. \<exists>as. r = Some as \<and> ?A as ts)" for b q
    using after_call_arguments [OF assms(1), of b q] by (cases ?sizeof) (auto intro: after_mono [OF after_sizeof_argument])
  have k: "after (?k as q) q (\<lambda>r ts q. ?R as r ts)" for as q
    by (cases "finish_call e as l") (auto simp: sound_postfix_loop [OF assms(1)])
  have reads: "read_postfix e r ((Punct TOKEN_LPAREN, v1) # ts1 @ (Punct TOKEN_RPAREN, v2) # ts2)" if "?A as ts1" "?R as r ts2" for as r v1 ts1 v2 ts2
    unfolding read_postfix_def
  proof (intro allI impI)
    fix ts0 assume "reads Postfix (Some e) ts0"
    then have "reads Postfix (finish_call e as l) (ts0 @ (Punct TOKEN_LPAREN, v1) # ts1 @ [(Punct TOKEN_RPAREN, v2)])"
      using that(1) by (auto intro: call call_sizeof split: if_splits)
    then show "reads Postfix r (ts0 @ (Punct TOKEN_LPAREN, v1) # ts1 @ (Punct TOKEN_RPAREN, v2) # ts2)"
      using that(2) by (cases "finish_call e as l") (fastforce simp: read_postfix_def)+
  qed
  have "after (and_parse (?m b) (\<lambda>as. and_parse (require (Punct TOKEN_RPAREN)) (\<lambda>_. ?k as)) (parser_advance p)) p
      (\<lambda>r ts q. current_type p = Punct TOKEN_LPAREN \<longrightarrow> (\<exists>as v1 ts1 v2 ts2.
        ts = (Punct TOKEN_LPAREN, v1) # ts1 @ (Punct TOKEN_RPAREN, v2) # ts2 \<and> ?A as ts1 \<and> ?R as r ts2))" for b
    by (rule after_call, rule m, rule k)
  then have "after (and_parse (?m b) (\<lambda>as. and_parse (require (Punct TOKEN_RPAREN)) (\<lambda>_. ?k as)) (parser_advance p)) p
      (\<lambda>r ts q. read_postfix e r ts)" for b
    by (rule after_mono) (use assms(2) reads in blast)
  then show ?thesis using assms(2) unfolding postfix_suffix.simps Let_def by simp
qed

lemma read_postfix_trans:
  "read_postfix e' r ts2 \<Longrightarrow> (\<And>ts0. reads Postfix (Some e) ts0 \<Longrightarrow> reads Postfix (Some e') (ts0 @ ts1)) \<Longrightarrow> read_postfix e r (ts1 @ ts2)"
  by (fastforce simp: read_postfix_def)

lemma read_member:
  "read_postfix (MemberAccess l e m) r ts \<Longrightarrow> read_postfix e r ((Punct TOKEN_DOT, v1) # (TOKEN_IDENTIFIER, m) # ts)"
  "read_postfix (MemberAccess l (UnaryExpression l ''*'' e) m) r ts \<Longrightarrow>
     read_postfix e r ((Punct TOKEN_ARROW, v1) # (TOKEN_IDENTIFIER, m) # ts)"
  using read_postfix_trans [OF _ dot_member [of e _ l m v1]] read_postfix_trans [OF _ arrow_member [of e _ l m v1]] by simp_all

lemma read_index:
  "reads (Binary 0) (Some i) ts1 \<Longrightarrow> read_postfix (ArrayIndexExpression l e i) r ts2 \<Longrightarrow>
     read_postfix e r ((Punct TOKEN_LBRACKET, v1) # ts1 @ (Punct TOKEN_RBRACKET, v2) # ts2)"
  "reads (Binary 0) None ts1 \<Longrightarrow> read_postfix e None ((Punct TOKEN_LBRACKET, v1) # ts1)"
  using read_postfix_trans [OF _ index [of e _ i ts1 l v1 v2]] by (simp, simp add: read_postfix_def index_lost)

lemma postfix_suffix_step:
  assumes "exprs_sound fuel"
  shows "after (postfix_suffix (Suc fuel) e l p) p (\<lambda>r ts q. read_postfix e r ts)"
proof -
  consider (call) "current_type p = Punct TOKEN_LPAREN" | (dot) "current_type p = Punct TOKEN_DOT"
    | (arrow) "current_type p = Punct TOKEN_ARROW" | (bracket) "current_type p = Punct TOKEN_LBRACKET"
    | (other) "current_type p \<notin> Punct ` {TOKEN_LPAREN, TOKEN_DOT, TOKEN_ARROW, TOKEN_LBRACKET}" by blast
  then show ?thesis
  proof cases
    case dot
    then show ?thesis
      by (simp, intro after_and_parse [OF after_member_name] after_mono [OF sound_postfix_loop [OF assms]])
        (auto simp: ast_create_defs intro: read_member)
  next
    case arrow
    then show ?thesis
      by (simp, intro after_and_parse [OF after_member_name] after_mono [OF sound_postfix_loop [OF assms]])
        (auto simp: ast_create_defs intro: read_member)
  next
    case bracket
    then show ?thesis
      by (simp, intro after_advance [of p] after_and_parse [OF sound_expression [OF assms]] after_and_parse [OF after_require]
          after_mono [OF sound_postfix_loop [OF assms]])
        (auto simp: read_expression_def ast_create_defs intro: read_index)
  next
    case other
    then have "postfix_suffix (Suc fuel) e l p = give e p" by auto
    then show ?thesis by (simp only:) (rule after_give, simp add: read_postfix_def)
  next
    case call
    then show ?thesis by (rule call_step [OF assms])
  qed
qed

lemma after_group:
  assumes "exprs_sound fuel" "current_type p = Punct TOKEN_LPAREN"
  shows "after (parser_parse_primary_expression (Suc fuel) p) p (\<lambda>r ts q. reads Primary r ts)"
proof -
  let ?close = "\<lambda>e q. case parser_expect (Punct TOKEN_RPAREN) q of (True, q) \<Rightarrow> Some (e, q) | (False, q) \<Rightarrow> give_null q"
  have close: "after (?close e q) q (\<lambda>r ts q'. r = e \<and> (\<exists>v. ts = [(Punct TOKEN_RPAREN, v)]))" for e q
    using after_require [of "Punct TOKEN_RPAREN" q]
    by (auto simp: require_def after_def give_def give_null_def split: prod.splits bool.splits)
  have "after (case parser_parse_binary_expression fuel 0 (parser_advance p) of None \<Rightarrow> None
      | Some (None, q) \<Rightarrow> ?close None q | Some (Some e, q) \<Rightarrow> ?close (Some e) q) p (\<lambda>r ts q. reads Primary r ts)"
    by (rule after_advance, simp add: assms(2), rule after_cases [OF sound_expression [OF assms(1)]])
      (rule after_mono [OF close], auto simp: assms(2) read_expression_def intro: paren)+
  moreover have "parser_parse_primary_expression (Suc fuel) p = (case parser_parse_binary_expression fuel 0 (parser_advance p) of
      None \<Rightarrow> None | Some (None, q) \<Rightarrow> ?close None q | Some (Some e, q) \<Rightarrow> ?close (Some e) q)"
    using assms(2) by (auto simp: Let_def parser_is_identifier_like_def split: option.splits)
  ultimately show ?thesis by (simp only:)
qed

lemma primary_step:
  assumes "exprs_sound fuel"
  shows "after (parser_parse_primary_expression (Suc fuel) p) p (\<lambda>r ts q. reads Primary r ts)"
proof -
  let ?a = "parser_advance p"
  consider (ident) "parser_is_identifier_like (current_type p)" | (group) "current_type p = Punct TOKEN_LPAREN"
    | (number) "current_type p = TOKEN_NUMBER" | (string) "current_type p = TOKEN_STRING"
    | (import1) "current_type p = Keyword TOKEN_IMPORT_STR" | (matching) "current_type p = Keyword TOKEN_MATCH"
    | (this) "current_type p = Keyword TOKEN_THIS" | (new) "current_type p = Keyword TOKEN_NEW"
    | (other) "\<not> parser_is_identifier_like (current_type p)" "current_type p \<notin> {Punct TOKEN_LPAREN, TOKEN_NUMBER,
        TOKEN_STRING, Keyword TOKEN_IMPORT_STR, Keyword TOKEN_MATCH, Keyword TOKEN_THIS, Keyword TOKEN_NEW}" by blast
  then show ?thesis
  proof cases
    case ident
    then have "current_type p \<noteq> TOKEN_EOF" by auto
    then show ?thesis using ident
      by (auto simp: Let_def ast_create_defs intro!: after_advance [of p] after_give reads_reads_args_reads_arms.ident)
  next
    case import1
    show ?thesis
    proof (cases "current_type ?a = TOKEN_STRING")
      case True
      with import1 show ?thesis
        by (auto simp: Let_def parser_is_identifier_like_def ast_create_defs
          intro!: after_advance [of p] after_advance [of ?a] after_give import_str)
    qed (use import1 in \<open>simp add: Let_def parser_is_identifier_like_def\<close>)
  next
    case new
    show ?thesis
    proof (cases "starts_cast (current_type ?a)")
      case True
      with new show ?thesis
        by (simp add: Let_def parser_is_identifier_like_def, intro after_advance [of p] after_and_parse [OF after_type] after_give)
          (auto simp: stage_read_def ast_create_defs intro: new_object)
    qed (use new in \<open>simp add: Let_def parser_is_identifier_like_def\<close>)
  next
    case group
    then show ?thesis by (rule after_group [OF assms])
  next
    case number
    then show ?thesis using after_number_node by (simp add: Let_def parser_is_identifier_like_def)
  next
    case matching
    then show ?thesis using sound_match [OF assms] by (simp add: Let_def parser_is_identifier_like_def)
  qed (auto simp: Let_def parser_is_identifier_like_def ast_create_defs intro!: after_advance [of p] after_give str this_word)
qed

lemma match_step:
  assumes "exprs_sound fuel"
  shows "after (parser_parse_match_expression (Suc fuel) p) p (\<lambda>r ts q. reads Primary r ts)"
proof -
  have fin: "after (if ps_has_error q then give_null q else and_parse (require (Punct TOKEN_RBRACE)) (\<lambda>_. give x) q) q
      (\<lambda>r ts q'. r = Some x \<and> (\<exists>v. ts = [(Punct TOKEN_RBRACE, v)]))" for q :: Parser and x :: ASTNode
  proof (cases "ps_has_error q")
    case True
    then show ?thesis by (auto simp: after_def give_null_def parser_ok_def intro!: exI [of _ "[]"])
  qed (auto intro!: after_and_parse [OF after_require])
  show ?thesis unfolding parser_parse_match_expression.simps Let_def
    by (rule after_and_parse [OF after_require], simp, simp, rule after_and_parse [OF after_require_else], simp, simp,
      rule after_and_parse [OF sound_expression [OF assms]], force simp: read_expression_def intro: match_lost,
      rule after_and_parse [OF after_require], simp, simp, rule after_and_parse [OF after_require], simp, simp,
      rule after_and_parse [OF sound_arms [OF assms]], simp, rule after_mono [OF fin])
      (auto simp: read_expression_def ast_create_defs intro: match)
qed

text \<open>An arm of \<open>match\<close>: what follows its body, its body, and its colon.\<close>

definition read_arms :: "ASTNode MatchArm list \<Rightarrow> bool \<Rightarrow> ASTNode MatchArm list option \<Rightarrow> token_view list \<Rightarrow> bool" where
  "read_arms arms seen r ts \<longleftrightarrow> (\<exists>as. r = Some (arms @ as) \<and> reads_arms seen as ts)"

lemma after_arm_end:
  assumes "exprs_sound fuel"
  shows "after (and_parse (skip_separators fuel) (\<lambda>_. match_arms fuel arms seen)
      (if current_type p = Punct TOKEN_COMMA then parser_advance p else p)) p
    (\<lambda>r ts q. \<exists>comma s ts'. ts = comma @ s @ ts' \<and> (comma = [] \<or> (\<exists>v. comma = [(Punct TOKEN_COMMA, v)])) \<and> separators s \<and>
       read_arms arms seen r ts')"
proof -
  have go: "after (and_parse (skip_separators fuel) (\<lambda>_. match_arms fuel arms seen) q) q
      (\<lambda>r ts q. \<exists>s ts'. ts = s @ ts' \<and> separators s \<and> read_arms arms seen r ts')" for q
    by (rule after_and_parse [OF after_skip_separators], simp, rule after_mono [OF sound_arms [OF assms]])
      (auto simp: read_arms_def)
  show ?thesis
  proof (cases "current_type p = Punct TOKEN_COMMA")
    case True
    then show ?thesis
      by (simp, intro after_advance [of p] after_mono [OF go]) (simp, clarsimp, rule exI [of _ "[(Punct TOKEN_COMMA, current_text p)]"], auto)
  next
    case False
    then show ?thesis by (simp, intro after_mono [OF go]) (rule exI [of _ "[]"], auto)
  qed
qed

lemma after_arm:
  assumes "exprs_sound fuel"
  shows "after (case parser_expect (Punct TOKEN_COLON) p of (False, p) \<Rightarrow> give arms p
      | (True, p) \<Rightarrow>
          (case parser_parse_binary_expression fuel 0 p of
             None \<Rightarrow> None
           | Some (None, p) \<Rightarrow> give arms (if ps_has_error p then p else parser_set_error msg p)
           | Some (Some body, p) \<Rightarrow>
               and_parse (skip_separators fuel) (\<lambda>_. match_arms fuel (arms @ [MatchArm variant binding body dflt]) (seen \<or> dflt))
                 (if current_type p = Punct TOKEN_COMMA then parser_advance p else p))) p
    (\<lambda>r ts q. \<forall>ts0. reads_arm_head (variant, binding, dflt) ts0 \<longrightarrow> \<not> (seen \<and> dflt) \<longrightarrow> read_arms arms seen r (ts0 @ ts))"
proof (cases "current_type p = Punct TOKEN_COLON")
  case True
  have lost: "after (give arms (if ps_has_error q then q else parser_set_error msg q)) q R" for q R
    by (auto simp: after_def give_def parser_ok_def intro!: exI [of _ "[]"] moved_set_error)
  have arm: "read_arms arms seen r (ts0 @ (Punct TOKEN_COLON, v) # ts1 @ comma @ s @ ts')"
    if "read_arms (arms @ [MatchArm variant binding body dflt]) (seen \<or> dflt) r ts'" "reads (Binary 0) (Some body) ts1"
      "reads_arm_head (variant, binding, dflt) ts0" "\<not> (seen \<and> dflt)" "comma = [] \<or> (\<exists>v. comma = [(Punct TOKEN_COMMA, v)])" "separators s"
    for r v ts0 ts1 comma s ts' body
    using that arms_arm [of "[]" variant binding dflt ts0 seen body ts1 comma s _ ts' v]
    by (fastforce simp: read_arms_def separators_def)
  show ?thesis using True
    by (simp add: parser_expect_def, intro after_advance [of p])
      (simp, rule after_cases [OF sound_expression [OF assms]], rule lost, rule after_mono [OF after_arm_end [OF assms]],
       auto simp: read_expression_def intro!: arm)
next
  case False
  then show ?thesis
    by (auto simp: parser_expect_def after_def give_def intro!: exI [of _ "[]"] moved_set_error)
qed

lemma reads_arms_separators: "reads_arms seen as ts \<Longrightarrow> separators s \<Longrightarrow> reads_arms seen as (s @ ts)"
proof (erule reads_arms.cases, goal_cases)
  case (2 s1 variant binding dflt ts1 seen' body ts2 comma s2 arms ts3 v1)
  then show ?case
    using arms_arm [of "s @ s1" variant binding dflt ts1 seen body ts2 comma s2 arms ts3 v1] by (simp add: separators_def)
qed (simp add: separators_def arms_end)

lemma arms_step:
  assumes "exprs_sound fuel"
  shows "after (match_arms (Suc fuel) arms seen p) p (\<lambda>r ts q. \<exists>as. r = Some (arms @ as) \<and> reads_arms seen as ts)"
proof -
  have stop: "after (give arms q) q (\<lambda>r ts q'. read_arms arms seen r ts)" for q
    by (rule after_give) (simp add: read_arms_def separators_def arms_end)
  have seps: "read_arms arms seen r (s @ ts)" if "separators s" "read_arms arms seen r ts" for r s ts
    using that by (auto simp: read_arms_def intro: reads_arms_separators)
  show ?thesis unfolding read_arms_def [symmetric]
  proof (cases "current_type p = Punct TOKEN_RBRACE \<or> current_type p = TOKEN_EOF \<or> ps_has_error p")
    case True
    then have "match_arms (Suc fuel) arms seen p = give arms p" by auto
    then show "after (match_arms (Suc fuel) arms seen p) p (\<lambda>r ts q. read_arms arms seen r ts)" by (simp only: stop)
  next
    case False
    show "after (match_arms (Suc fuel) arms seen p) p (\<lambda>r ts q. read_arms arms seen r ts)"
      unfolding match_arms.simps if_not_P [OF False]
    proof (rule after_and_parse [OF after_skip_separators], simp, goal_cases)
      case (1 x q)
      show ?case
      proof (cases "current_type q = Punct TOKEN_RBRACE")
        case True
        then show ?thesis by (simp, intro after_mono [OF stop]) (auto intro: seps)
      next
        case False
        show ?thesis unfolding if_not_P [OF False]
          by (rule after_cases [OF after_match_arm_head], rule after_give, simp)
            (clarsimp, rule after_mono [OF after_arm [OF assms]], auto intro: seps)
      qed
    qed
  qed
qed

lemma exprs_sound: "exprs_sound fuel"
proof (induction fuel)
  case 0
  show ?case by (simp add: exprs_sound_def)
next
  case (Suc fuel)
  show ?case unfolding exprs_sound_def
    by (intro conjI allI expression_step loop_step unary_step cast_step postfix_step postfix_loop_step
        postfix_suffix_step arguments_step primary_step match_step arms_step Suc)
qed

end
