(* ===== verification/Parser_Fuel.thy ===== *)
theory Parser_Fuel
  imports Expr_Grammar
begin

text \<open>
  The expression parser always returns. Every recursion without progress in the input goes down a chain of at most
  sixteen functions, so fuel linear in the length of what is left to read is enough, for every input, valid or not.
\<close>

section \<open>What is left to read\<close>

definition left_over :: "Parser \<Rightarrow> nat" where
  "left_over p = (lx_length (ps_lexer p) - lx_position (ps_lexer p)) +
     (if current_type p \<noteq> TOKEN_EOF then 1 else 0) + (if peek_type p \<noteq> TOKEN_EOF then 1 else 0)"

lemma left_over_report [simp]: "left_over (report k t m p) = left_over p" "left_over (parser_set_error m p) = left_over p"
  "left_over (parser_report_lexer_token_error t p) = left_over p"
  by (simp_all add: left_over_def parser_set_error_def parser_report_lexer_token_error_def)

lemma left_over_fields [simp]:
  "left_over (p\<lparr>ps_error_message := m\<rparr>) = left_over p"
  "left_over (p\<lparr>ps_has_error := b\<rparr>) = left_over p" "left_over (p\<lparr>ps_error_reporter := b\<rparr>) = left_over p"
  by (simp_all add: left_over_def)

lemma left_over_advance:
  assumes "parser_ok p" "current_type p \<noteq> TOKEN_EOF"
  shows "left_over (parser_advance p) < left_over p"
proof -
  obtain t l where n: "lexer_next_token (ps_lexer p) = (t, l)" by fastforce
  have "progressed (ps_lexer p) (t, l)" using next_token_progress [of "ps_lexer p"] assms(1) n by (simp add: parser_ok_def)
  then show ?thesis using assms(2)
    by (auto simp: parser_advance_def n left_over_def progressed_def lexed_def scanned_def parser_report_lexer_token_error_def)
qed

lemma left_over_restore:
  assumes "lx_length (ps_lexer q) = lx_length (ps_lexer p)"
  shows "left_over (parser_restore_state (parser_save_state p) q) = left_over p"
  using assms by (auto simp: left_over_def parser_restore_state_def parser_save_state_def token_clone_def split: option.splits)

section \<open>A calculus of returning\<close>

text \<open>The run returns a parser with no more to read, and with less if \<open>strict\<close> and the result is not NULL. A parser
  that has as much to read as before has its lexer where it was.\<close>

definition nearer :: "Parser \<Rightarrow> Parser \<Rightarrow> bool" where
  "nearer p q \<longleftrightarrow> parser_ok q \<and> later p q \<and> lx_source (ps_lexer q) = lx_source (ps_lexer p) \<and>
     lx_length (ps_lexer q) = lx_length (ps_lexer p) \<and> left_over q \<le> left_over p \<and>
     (left_over q = left_over p \<longrightarrow> lx_position (ps_lexer q) = lx_position (ps_lexer p))"

definition returns :: "bool \<Rightarrow> ('a option \<times> Parser) option \<Rightarrow> Parser \<Rightarrow> bool" where
  "returns strict out p \<longleftrightarrow> (parser_ok p \<longrightarrow> (\<exists>r q. out = Some (r, q) \<and> nearer p q \<and> (strict \<longrightarrow> r \<noteq> None \<longrightarrow> left_over q < left_over p)))"

lemma nearer_refl: "parser_ok p \<Longrightarrow> nearer p p"
  by (simp add: nearer_def)

lemma later_trans: "later p q \<Longrightarrow> later q q' \<Longrightarrow> later p q'"
  unfolding later_def using moved_trans by blast

lemma nearer_trans: "nearer p q \<Longrightarrow> nearer q q' \<Longrightarrow> nearer p q'"
  using later_trans by (auto simp: nearer_def)

lemma nearer_moved: "moved p ts q \<Longrightarrow> parser_ok p \<Longrightarrow> left_over q \<le> left_over p \<Longrightarrow>
    (left_over q = left_over p \<Longrightarrow> lx_position (ps_lexer q) = lx_position (ps_lexer p)) \<Longrightarrow> nearer p q"
  by (auto simp: nearer_def later_def moved_def)

lemma nearer_advance: "parser_ok p \<Longrightarrow> nearer p (parser_advance p)"
proof (cases "current_type p = TOKEN_EOF")
  case False
  show "nearer p (parser_advance p)" if ok: "parser_ok p"
    using left_over_advance [OF ok False] nearer_moved [OF moved_advance [OF False] ok] by simp
qed (simp add: parser_advance_eof nearer_refl)

lemma nearer_set_error [simp]: "parser_ok p \<Longrightarrow> nearer p (parser_set_error m p)"
  using nearer_moved [OF moved_set_error] by (simp add: parser_set_error_def)

lemma nearer_restore: "nearer p q \<Longrightarrow> parser_ok p \<Longrightarrow> nearer p (parser_restore_state (parser_save_state p) q)"
proof -
  assume "nearer p q" and ok: "parser_ok p"
  then obtain ts where "moved p ts q" "lx_length (ps_lexer q) = lx_length (ps_lexer p)" by (auto simp: nearer_def later_def)
  then show ?thesis using nearer_moved [OF moved_back ok] left_over_restore [of q p]
    by (simp add: parser_restore_state_def parser_save_state_def)
qed

lemma nearerD: "nearer p q \<Longrightarrow> parser_ok q" "nearer p q \<Longrightarrow> left_over q \<le> left_over p"
  "nearer p q \<Longrightarrow> left_over q = left_over p \<Longrightarrow> lx_position (ps_lexer q) = lx_position (ps_lexer p)"
  by (simp_all add: nearer_def)

lemma nearer_fields:
  "parser_ok p \<Longrightarrow> nearer p (p\<lparr>ps_error_message := m, ps_error_reporter := b\<rparr>)"
  "parser_ok p \<Longrightarrow> nearer p (p\<lparr>ps_error_message := m\<rparr>)"
  "parser_ok p \<Longrightarrow> nearer p (p\<lparr>ps_has_error := False, ps_error_message := m\<rparr>)"
  "parser_ok p \<Longrightarrow> nearer p (p\<lparr>ps_error_reporter := b\<rparr>)"
  using nearer_moved [OF moved_fields(1)] nearer_moved [OF moved_fields(2)] nearer_moved [OF moved_fields(3)]
    nearer_moved [OF moved_fields(4)] by simp_all

lemma nearer_clear: "nearer p q \<Longrightarrow> nearer p (q\<lparr>ps_has_error := False, ps_error_message := m\<rparr>)"
  using nearer_trans nearer_fields(3) nearerD(1) by blast

lemma returns_give [intro]: "returns False (give x p) p"
  by (simp add: returns_def give_def nearer_refl)

lemma returns_give_null [simp]: "returns s (give_null p) p"
  by (simp add: returns_def give_null_def nearer_refl)

lemma returns_null_error [simp]: "returns s (null_error m p) p"
  by (simp add: returns_def null_error_def)

lemma returns_weaken: "returns True out p \<Longrightarrow> returns s out p" "returns s out p \<Longrightarrow> returns False out p"
  by (auto simp: returns_def)

text \<open>Going on from a parser that is nearer.\<close>

lemma returns_later:
  assumes "parser_ok p \<Longrightarrow> nearer p p'" "parser_ok p \<Longrightarrow> returns s out p'"
  shows "returns s out p"
proof -
  have "\<exists>r q. out = Some (r, q) \<and> nearer p q \<and> (s \<longrightarrow> r \<noteq> None \<longrightarrow> left_over q < left_over p)" if ok: "parser_ok p"
  proof -
    obtain r q where q: "out = Some (r, q)" "nearer p' q" "s \<longrightarrow> r \<noteq> None \<longrightarrow> left_over q < left_over p'"
      using assms ok nearerD(1) unfolding returns_def by blast
    then show ?thesis using nearer_trans [OF assms(1) [OF ok]] nearerD(2) [OF assms(1) [OF ok]] by fastforce
  qed
  then show ?thesis by (simp add: returns_def)
qed

lemma returns_advance:
  assumes "parser_ok p \<Longrightarrow> left_over (parser_advance p) \<le> left_over p \<Longrightarrow> returns s out (parser_advance p)"
  shows "returns s out p"
  by (rule returns_later [OF nearer_advance]) (use assms nearer_advance in \<open>auto simp: nearer_def\<close>)

lemma returns_give_advance [simp]: "returns False (give x (parser_advance p)) p"
  by (rule returns_advance) (rule returns_give)

lemma returns_consume:
  assumes "current_type p \<noteq> TOKEN_EOF"
    and "parser_ok p \<Longrightarrow> left_over (parser_advance p) < left_over p \<Longrightarrow> returns False out (parser_advance p)"
  shows "returns s out p"
proof -
  have "\<exists>r q. out = Some (r, q) \<and> nearer p q \<and> left_over q < left_over p" if ok: "parser_ok p"
  proof -
    note less = left_over_advance [OF ok assms(1)] and near = nearer_advance [OF ok]
    obtain r q where q: "out = Some (r, q)" "nearer (parser_advance p) q"
      using assms(2) [OF ok less] nearerD(1) [OF near] unfolding returns_def by blast
    then show ?thesis using nearer_trans [OF near q(2)] nearerD(2) [OF q(2)] less by auto
  qed
  then show ?thesis by (auto simp: returns_def)
qed

lemma returns_give_consume: "current_type p \<noteq> TOKEN_EOF \<Longrightarrow> returns s (give x (parser_advance p)) p"
  by (rule returns_consume) (auto intro: returns_give)

lemma returns_cases:
  assumes "parser_ok p \<Longrightarrow> returns sa out p"
    and "\<And>q. left_over q \<le> left_over p \<Longrightarrow> parser_ok q \<Longrightarrow> returns sb (g q) q"
    and "\<And>x q. left_over q \<le> left_over p \<Longrightarrow> (sa \<Longrightarrow> left_over q < left_over p) \<Longrightarrow> parser_ok q \<Longrightarrow> returns sb (f x q) q"
  shows "returns sb (case out of None \<Rightarrow> None | Some (None, q) \<Rightarrow> g q | Some (Some x, q) \<Rightarrow> f x q) p"
  unfolding returns_def
proof
  assume ok: "parser_ok p"
  with assms(1) obtain r q where q: "out = Some (r, q)" "nearer p q" "sa \<longrightarrow> r \<noteq> None \<longrightarrow> left_over q < left_over p"
    unfolding returns_def by blast
  have "returns sb (case r of None \<Rightarrow> g q | Some x \<Rightarrow> f x q) q"
    using q assms(2,3) by (auto simp: nearer_def split: option.splits)
  then have "returns sb (case r of None \<Rightarrow> g q | Some x \<Rightarrow> f x q) p" using returns_later q(2) by blast
  then show "\<exists>r' q'. (case out of None \<Rightarrow> None | Some (None, q) \<Rightarrow> g q | Some (Some x, q) \<Rightarrow> f x q) = Some (r', q') \<and>
      nearer p q' \<and> (sb \<longrightarrow> r' \<noteq> None \<longrightarrow> left_over q' < left_over p)"
    using q(1) ok by (auto simp: returns_def split: option.splits)
qed

lemma returns_cases_first:
  assumes "parser_ok p \<Longrightarrow> returns True out p"
    and "\<And>q. left_over q \<le> left_over p \<Longrightarrow> parser_ok q \<Longrightarrow> returns s (g q) q"
    and "\<And>x q. left_over q < left_over p \<Longrightarrow> parser_ok q \<Longrightarrow> returns False (f x q) q"
  shows "returns s (case out of None \<Rightarrow> None | Some (None, q) \<Rightarrow> g q | Some (Some x, q) \<Rightarrow> f x q) p"
  unfolding returns_def
proof
  assume ok: "parser_ok p"
  with assms(1) obtain r q where q: "out = Some (r, q)" "nearer p q" "r \<noteq> None \<longrightarrow> left_over q < left_over p"
    unfolding returns_def by blast
  note okq = nearerD(1) [OF q(2)]
  show "\<exists>r' q'. (case out of None \<Rightarrow> None | Some (None, q) \<Rightarrow> g q | Some (Some x, q) \<Rightarrow> f x q) = Some (r', q') \<and>
      nearer p q' \<and> (s \<longrightarrow> r' \<noteq> None \<longrightarrow> left_over q' < left_over p)"
  proof (cases r)
    case None
    have "returns s (g q) p" using returns_later q(2) assms(2) [OF nearerD(2) [OF q(2)] okq] by blast
    then show ?thesis using ok q(1) None by (simp add: returns_def)
  next
    case (Some x)
    then have less: "left_over q < left_over p" using q by simp
    from assms(3) [OF less okq, of x] obtain r' q' where "f x q = Some (r', q')" "nearer q q'"
      unfolding returns_def using okq by blast
    then show ?thesis using q Some nearer_trans [OF q(2)] nearerD(2) [of q q'] less by auto
  qed
qed

lemma returns_and_parse:
  assumes "parser_ok p \<Longrightarrow> returns sa (m p) p"
    and "\<And>x q. left_over q \<le> left_over p \<Longrightarrow> (sa \<Longrightarrow> left_over q < left_over p) \<Longrightarrow> parser_ok q \<Longrightarrow> returns s (f x q) q"
  shows "returns s (and_parse m f p) p"
  unfolding and_parse_def
  by (rule returns_cases [OF assms(1)]) (use assms(2) in \<open>auto simp flip: give_null_def\<close>)

lemma returns_and_parse_first:
  assumes "parser_ok p \<Longrightarrow> returns True (m p) p"
    and "\<And>x q. left_over q < left_over p \<Longrightarrow> parser_ok q \<Longrightarrow> returns False (f x q) q"
  shows "returns s (and_parse m f p) p"
  unfolding and_parse_def
  by (rule returns_cases_first [OF assms(1)]) (use assms(2) in \<open>auto simp flip: give_null_def\<close>)

lemma returns_require [simp]:
  assumes "ty \<noteq> TOKEN_EOF"
  shows "returns s (require ty p) p" "returns s (require_else ty m p) p"
proof -
  have "returns s (give () (parser_advance p)) p" if "current_type p = ty"
    by (rule returns_consume) (use assms that in auto)
  moreover have "returns s (give_null (parser_set_error m' p)) p" for m'
    by (rule returns_later [OF nearer_set_error [of p m']]) simp_all
  moreover have "returns s (null_error m (parser_set_error m' p)) p" for m'
    by (rule returns_later [OF nearer_set_error [of p m']]) simp_all
  ultimately show "returns s (require ty p) p" "returns s (require_else ty m p) p"
    by (auto simp: require_def require_else_def parser_expect_def)
qed

section \<open>Types\<close>

lemma dotted_name_returns: "left_over p < fuel \<Longrightarrow> returns False (dotted_name m fuel s p) p"
proof (induction fuel arbitrary: s p)
  case (Suc fuel)
  let ?p = "parser_advance p"
  show ?case
  proof (cases "current_type p = Punct TOKEN_DOT")
    case True
    have "returns False (dotted_name m (Suc fuel) s p) ?p" if "left_over ?p < left_over p"
    proof (cases "names_type (current_type ?p)")
      case names: True
      then have "current_type ?p \<noteq> TOKEN_EOF" by auto
      moreover have "dotted_name m (Suc fuel) s p = dotted_name m fuel (s @ ''.'' @ current_text ?p) (parser_advance ?p)"
        using True names by (auto simp: Let_def)
      ultimately show ?thesis using Suc that by (simp only:) (rule returns_consume, auto)
    qed (use True in \<open>simp add: Let_def\<close>)
    then show ?thesis by (intro returns_consume [of p]) (use True in auto)
  qed auto
qed simp

lemma pointer_suffixes_returns: "left_over p < fuel \<Longrightarrow> returns False (pointer_suffixes fuel s p) p"
proof (induction fuel arbitrary: s p)
  case (Suc fuel)
  show ?case
  proof (cases "current_type p = Punct TOKEN_MULTIPLY")
    case True
    then show ?thesis using Suc by (simp, intro returns_consume [of p]) auto
  qed auto
qed simp

lemma skip_separators_returns: "left_over p < fuel \<Longrightarrow> returns False (skip_separators fuel p) p"
proof (induction fuel arbitrary: p)
  case (Suc fuel)
  consider "current_type p = Punct TOKEN_NEWLINE \<or> current_type p = Punct TOKEN_SEMICOLON"
    | "\<not> (current_type p = Punct TOKEN_NEWLINE \<or> current_type p = Punct TOKEN_SEMICOLON)" by blast
  then show ?case
  proof cases
    case 1
    then show ?thesis using Suc by (simp, intro returns_consume [of p]) auto
  qed auto
qed simp

lemma array_suffix_returns [simp]: "returns False (array_suffix s p) p"
proof (cases "current_type p = Punct TOKEN_LBRACKET")
  case True
  have "returns False (array_suffix s p) (parser_advance p)"
    using True by (auto simp: array_suffix_def Let_def intro!: returns_advance [of "parser_advance p"] returns_and_parse)
  then show ?thesis using returns_advance by blast
qed (auto simp: array_suffix_def)

definition types_return :: "nat \<Rightarrow> bool" where
  "types_return fuel \<longleftrightarrow>
     (\<forall>p. 16 * left_over p + 3 \<le> fuel \<longrightarrow> returns True (parser_parse_type_annotation fuel p) p) \<and>
     (\<forall>p. 16 * left_over p + 2 \<le> fuel \<longrightarrow> returns True (type_head fuel p) p) \<and>
     (\<forall>s p. 16 * left_over p + 2 \<le> fuel \<longrightarrow> returns False (type_arguments fuel s p) p) \<and>
     (\<forall>c m1 m2 first b p. 16 * left_over p + 4 \<le> fuel \<longrightarrow> returns False (type_list fuel c m1 m2 first b p) p)"

lemma types_returnD:
  assumes "types_return fuel"
  shows "16 * left_over p + 3 \<le> fuel \<Longrightarrow> returns True (parser_parse_type_annotation fuel p) p"
    and "16 * left_over p + 2 \<le> fuel \<Longrightarrow> returns True (type_head fuel p) p"
    and "16 * left_over p + 2 \<le> fuel \<Longrightarrow> returns False (type_arguments fuel s p) p"
    and "16 * left_over p + 4 \<le> fuel \<Longrightarrow> returns False (type_list fuel c m1 m2 first b p) p"
  using assms unfolding types_return_def by blast+

lemma returns_no_type [simp]: "returns s (if ps_has_error q then give_null q else null_error m q) q"
  by simp

lemma type_annotation_returns:
  assumes "types_return fuel" "16 * left_over p + 3 \<le> Suc fuel"
  shows "returns True (parser_parse_type_annotation (Suc fuel) p) p"
  unfolding parser_parse_type_annotation.simps
  by (intro returns_and_parse_first [OF types_returnD(2) [OF assms(1)]] returns_and_parse [where sa = False] dotted_name_returns
      pointer_suffixes_returns types_returnD(3) [OF assms(1)] array_suffix_returns) (use assms(2) in auto)

lemma type_arguments_returns:
  assumes "types_return fuel" "16 * left_over p + 2 \<le> Suc fuel"
  shows "returns False (type_arguments (Suc fuel) s p) p"
proof (cases "current_type p = Punct TOKEN_LESS_THAN")
  case True
  show ?thesis unfolding type_arguments.simps using True
    by (simp only: simp_thms if_False, intro returns_consume [of p] returns_and_parse [where sa = False] returns_require types_returnD(4) [OF assms(1)] returns_give)
      (use assms(2) in auto)
qed auto

lemma type_head_returns:
  assumes "types_return fuel" "16 * left_over p + 2 \<le> Suc fuel"
  shows "returns True (type_head (Suc fuel) p) p"
proof -
  consider "current_type p = Keyword TOKEN_FN" | "current_type p \<noteq> Keyword TOKEN_FN" "names_type (current_type p)"
    | "current_type p \<noteq> Keyword TOKEN_FN" "\<not> names_type (current_type p)" by blast
  then show ?thesis
  proof cases
    case 1
    show ?thesis unfolding type_head.simps if_P [OF 1]
      by (rule returns_consume, simp add: 1) (intro returns_and_parse [where sa = False] returns_require types_returnD(4) [OF assms(1)] returns_cases [OF types_returnD(1) [OF assms(1)]]
        returns_no_type returns_give, use assms(2) in auto)
  next
    case 2
    then have "current_type p \<noteq> TOKEN_EOF" by auto
    then show ?thesis using 2 by (auto intro: returns_consume)
  qed auto
qed

lemma type_list_returns:
  assumes "types_return fuel" "16 * left_over p + 4 \<le> Suc fuel"
  shows "returns False (type_list (Suc fuel) c m1 m2 first b p) p"
proof -
  let ?rest = "\<lambda>buffer out. case out of None \<Rightarrow> None
    | Some (None, p) \<Rightarrow> if ps_has_error p then give_null p else null_error m2 p
    | Some (Some arg, p) \<Rightarrow> type_list fuel c m1 m2 False (buffer @ arg) p"
  have rest: "returns False (?rest b' (parser_parse_type_annotation fuel q)) q" if "16 * left_over q + 3 \<le> fuel" for b' q
    by (rule returns_cases [OF types_returnD(1) [OF assms(1)]], use that in simp, rule returns_no_type)
      (rule types_returnD(4) [OF assms(1)], use that in simp)
  consider "current_type p = Punct c \<or> current_type p = TOKEN_EOF \<or> ps_has_error p"
    | "\<not> (current_type p = Punct c \<or> current_type p = TOKEN_EOF \<or> ps_has_error p)" "\<not> first" "current_type p \<noteq> Punct TOKEN_COMMA"
    | "\<not> (current_type p = Punct c \<or> current_type p = TOKEN_EOF \<or> ps_has_error p)" "first"
    | "\<not> (current_type p = Punct c \<or> current_type p = TOKEN_EOF \<or> ps_has_error p)" "\<not> first" "current_type p = Punct TOKEN_COMMA"
    by blast
  then show ?thesis
  proof cases
    case 1
    then have "type_list (Suc fuel) c m1 m2 first b p = give b p" by auto
    then show ?thesis by (simp only: returns_give)
  next
    case 3
    then show ?thesis using rest [of p b] assms(2) by (simp add: case_prod_beta)
  next
    case 4
    then have "type_list (Suc fuel) c m1 m2 first b p = ?rest (b @ '','') (parser_parse_type_annotation fuel (parser_advance p))" by simp
    then show ?thesis by (simp only:) (rule returns_advance, rule rest, use assms(2) in simp)
  qed simp
qed

lemma types_return: "types_return fuel"
proof (induction fuel)
  case (Suc fuel)
  show ?case unfolding types_return_def
    by (intro conjI allI impI type_annotation_returns type_head_returns type_arguments_returns type_list_returns Suc)
qed (simp add: types_return_def)

lemmas type_returns = types_returnD(1) [OF types_return]

section \<open>The parts of an expression\<close>

lemma call_type_args_returns:
  assumes "parser_ok p" "16 * left_over p + 4 \<le> fuel"
  shows "\<exists>r q. call_type_args fuel tys p = Some (r, q) \<and> nearer p q"
  using assms
proof (induction fuel arbitrary: tys p)
  case (Suc fuel)
  let ?p = "if tys \<noteq> [] then parser_advance p else p"
  have p: "nearer p ?p" using Suc.prems(1) by (simp add: nearer_advance nearer_refl)
  then have "returns True (parser_parse_type_annotation fuel ?p) ?p" "parser_ok ?p"
    using Suc.prems(2) by (auto simp: nearer_def intro!: type_returns)
  then obtain r q where q: "parser_parse_type_annotation fuel ?p = Some (r, q)" "nearer ?p q" "r \<noteq> None \<longrightarrow> left_over q < left_over ?p"
    unfolding returns_def by blast
  have near: "nearer p q" using p q(2) nearer_trans by blast
  have "\<exists>r' q'. call_type_args fuel (tys @ [arg]) q = Some (r', q') \<and> nearer p q'" if "r = Some arg" for arg
  proof -
    have "left_over q < left_over p" using q(3) p that by (simp add: nearer_def)
    then show ?thesis using Suc.IH [of q "tys @ [arg]"] Suc.prems(2) near nearer_trans [OF near] by (auto simp: nearer_def)
  qed
  then show ?case using q(1) near Suc.prems(1) nearer_refl by (auto split: option.splits)
qed simp

lemma generic_returns:
  assumes "16 * left_over p \<le> fuel"
  shows "returns True (parser_try_parse_generic_call_type_args fuel p) p"
proof (cases "current_type p = Punct TOKEN_LESS_THAN")
  case True
  have "\<exists>r q. parser_try_parse_generic_call_type_args fuel p = Some (r, q) \<and> nearer p q \<and> (r \<noteq> None \<longrightarrow> left_over q < left_over p)"
    if ok: "parser_ok p"
  proof -
    let ?p = "parser_advance (p\<lparr>ps_error_message := None\<rparr>)"
    have ok1: "parser_ok (p\<lparr>ps_error_message := None\<rparr>)" using ok by (simp add: parser_ok_def)
    have less: "left_over ?p < left_over p" using left_over_advance [OF ok1] True by simp
    have near: "nearer p ?p" using nearer_trans [OF nearer_fields(2) [OF ok] nearer_advance [OF ok1]] .
    obtain success tys q where c: "call_type_args fuel [] ?p = Some ((success, tys), q)" "nearer ?p q"
      using call_type_args_returns [of ?p fuel "[]"] near less assms by (fastforce simp: nearer_def)
    have q: "nearer p q" "nearer p (parser_advance q)" "left_over (parser_advance q) < left_over p"
      using nearer_trans [OF near c(2)] nearer_trans [OF nearer_trans [OF near c(2)] nearer_advance [OF nearerD(1) [OF c(2)]]]
        nearerD(2) [OF c(2)] nearerD(2) [OF nearer_advance [OF nearerD(1) [OF c(2)]]] less by auto
    show ?thesis using True c(1) q nearer_clear [OF q(2)] nearer_restore [OF q(1) ok] nearer_restore [OF q(2) ok]
      by (simp add: parser_try_parse_generic_call_type_args_def Let_def give_def give_null_def)
  qed
  then show ?thesis by (simp add: returns_def)
qed (simp add: parser_try_parse_generic_call_type_args_def)

lemma cast_type_returns:
  assumes "16 * left_over p \<le> fuel"
  shows "returns True (cast_type fuel p) p"
proof (cases "current_type p = Punct TOKEN_LPAREN \<and> starts_cast (peek_type p)")
  case True
  have "\<exists>r q. cast_type fuel p = Some (r, q) \<and> nearer p q \<and> (r \<noteq> None \<longrightarrow> left_over q < left_over p)"
    if ok: "parser_ok p"
  proof -
    let ?p = "parser_advance (p\<lparr>ps_error_message := None, ps_error_reporter := False\<rparr>)"
    have ok1: "parser_ok (p\<lparr>ps_error_message := None, ps_error_reporter := False\<rparr>)" using ok by (simp add: parser_ok_def)
    have less: "left_over ?p < left_over p" using left_over_advance [OF ok1] True by simp
    have near: "nearer p ?p" using nearer_trans [OF nearer_fields(1) [OF ok] nearer_advance [OF ok1]] .
    obtain t q where c: "parser_parse_type_annotation fuel ?p = Some (t, q)" "nearer ?p q"
      using type_returns [of ?p fuel] near less assms by (auto simp: returns_def nearer_def)
    let ?q = "q\<lparr>ps_error_reporter := pss_error_reporter (parser_save_state p)\<rparr>"
    have nq: "nearer ?p (parser_advance ?q)"
      by (rule nearer_trans [OF nearer_trans [OF c(2) nearer_fields(4)] nearer_advance])
        (use nearerD(1) [OF c(2)] nearerD(1) [OF nearer_fields(4)] in auto)
    have q: "nearer p q" "nearer p (parser_advance ?q)" "left_over (parser_advance ?q) < left_over p"
      using nearer_trans [OF near c(2)] nearer_trans [OF near nq] nearerD(2) [OF nq] less by auto
    show ?thesis using True c(1) q nearer_clear [OF q(2)] nearer_restore [OF q(1) ok] nearer_restore [OF q(2) ok]
      by (simp add: cast_type_def Let_def give_null_def)
  qed
  then show ?thesis by (simp add: returns_def)
qed (auto simp: cast_type_def)

lemma sizeof_argument_returns:
  assumes "16 * left_over p + 3 \<le> fuel"
  shows "returns False (sizeof_argument fuel p) p"
proof (cases "current_type p = Punct TOKEN_RPAREN")
  case False
  then show ?thesis unfolding sizeof_argument_def Let_def if_not_P [OF False]
    by (intro returns_cases [OF type_returns [OF assms]]) auto
qed (simp add: sizeof_argument_def)

lemma match_arm_head_returns: "returns True (match_arm_head seen p) p"
proof -
  let ?a = "parser_advance p"
  let ?b = "parser_advance ?a"
  let ?c = "parser_advance ?b"
  let ?case = "current_type p = Keyword TOKEN_CASE" and ?id = "\<lambda>p. parser_is_identifier_like (current_type p)"
  have c: "returns False (match_arm_head seen p) ?c" if ?case "?id ?a" "current_type ?b = Punct TOKEN_LPAREN"
  proof (cases "?id ?c")
    case True
    have "returns False (match_arm_head seen p) (parser_advance ?c)"
      using that True by (simp add: match_arm_head_def Let_def) (intro returns_and_parse returns_require returns_give, simp_all)
    then show ?thesis by (rule returns_advance)
  qed (use that in \<open>simp add: match_arm_head_def Let_def\<close>)
  have b: "returns False (match_arm_head seen p) ?b" if ?case "?id ?a"
  proof (cases "current_type ?b = Punct TOKEN_LPAREN")
    case True
    show ?thesis by (rule returns_advance) (rule c [OF that True])
  qed (use that in \<open>simp add: match_arm_head_def Let_def returns_give\<close>)
  have a: "returns False (match_arm_head seen p) ?a" if ?case
  proof (cases "?id ?a")
    case True
    show ?thesis by (rule returns_advance) (rule b [OF that True])
  qed (use that in \<open>simp add: match_arm_head_def Let_def\<close>)
  consider (first) "current_type p = Keyword TOKEN_DEFAULT" | (second) ?case
    | (other) "current_type p \<notin> {Keyword TOKEN_DEFAULT, Keyword TOKEN_CASE}" by blast
  then show ?thesis
  proof cases
    case first
    show ?thesis
    proof (cases seen)
      case False
      show ?thesis by (rule returns_consume) (use first False in \<open>simp_all add: match_arm_head_def returns_give\<close>)
    qed (use first in \<open>simp add: match_arm_head_def\<close>)
  next
    case second
    show ?thesis by (rule returns_consume) (use second a in simp_all)
  qed (simp add: match_arm_head_def)
qed

lemma member_name_returns: "current_type p \<noteq> TOKEN_EOF \<Longrightarrow> returns True (member_name op p) p"
  by (rule returns_consume) (auto simp: member_name_def Let_def intro: returns_advance)

lemma number_node_returns: "current_type p \<noteq> TOKEN_EOF \<Longrightarrow> returns True (number_node v l p) p"
  by (auto simp: number_node_def intro: returns_give_consume split: sum.splits)

section \<open>Expressions\<close>

definition exprs_return :: "nat \<Rightarrow> bool" where
  "exprs_return fuel \<longleftrightarrow>
     (\<forall>m p. 16 * left_over p + 6 \<le> fuel \<longrightarrow> returns True (parser_parse_binary_expression fuel m p) p) \<and>
     (\<forall>m left p. 16 * left_over p + 1 \<le> fuel \<longrightarrow> returns False (binary_loop fuel m left p) p) \<and>
     (\<forall>p. 16 * left_over p + 5 \<le> fuel \<longrightarrow> returns True (parser_parse_unary_expression fuel p) p) \<and>
     (\<forall>p. 16 * left_over p + 1 \<le> fuel \<longrightarrow> returns True (parser_parse_cast_expression fuel p) p) \<and>
     (\<forall>p. 16 * left_over p + 4 \<le> fuel \<longrightarrow> returns True (parser_parse_postfix_expression fuel p) p) \<and>
     (\<forall>e p. 16 * left_over p + 2 \<le> fuel \<longrightarrow> returns False (postfix_loop fuel e p) p) \<and>
     (\<forall>e l p. 16 * left_over p + 1 \<le> fuel \<longrightarrow> returns False (postfix_suffix fuel e l p) p) \<and>
     (\<forall>args p. 16 * left_over p + 7 \<le> fuel \<longrightarrow> returns False (arguments fuel args p) p) \<and>
     (\<forall>p. 16 * left_over p + 2 \<le> fuel \<longrightarrow> returns True (parser_parse_primary_expression fuel p) p) \<and>
     (\<forall>p. 16 * left_over p + 1 \<le> fuel \<longrightarrow> returns True (parser_parse_match_expression fuel p) p) \<and>
     (\<forall>arms seen p. 16 * left_over p + 3 \<le> fuel \<longrightarrow> returns False (match_arms fuel arms seen p) p)"

lemma exprs_returnD:
  assumes "exprs_return fuel"
  shows back_expression: "16 * left_over p + 6 \<le> fuel \<Longrightarrow> returns True (parser_parse_binary_expression fuel m p) p"
    and back_loop: "16 * left_over p + 1 \<le> fuel \<Longrightarrow> returns False (binary_loop fuel m left p) p"
    and back_unary: "16 * left_over p + 5 \<le> fuel \<Longrightarrow> returns True (parser_parse_unary_expression fuel p) p"
    and back_cast: "16 * left_over p + 1 \<le> fuel \<Longrightarrow> returns True (parser_parse_cast_expression fuel p) p"
    and back_postfix: "16 * left_over p + 4 \<le> fuel \<Longrightarrow> returns True (parser_parse_postfix_expression fuel p) p"
    and back_postfix_loop: "16 * left_over p + 2 \<le> fuel \<Longrightarrow> returns False (postfix_loop fuel e p) p"
    and back_suffix: "16 * left_over p + 1 \<le> fuel \<Longrightarrow> returns False (postfix_suffix fuel e l p) p"
    and back_arguments: "16 * left_over p + 7 \<le> fuel \<Longrightarrow> returns False (arguments fuel args p) p"
    and back_primary: "16 * left_over p + 2 \<le> fuel \<Longrightarrow> returns True (parser_parse_primary_expression fuel p) p"
    and back_match: "16 * left_over p + 1 \<le> fuel \<Longrightarrow> returns True (parser_parse_match_expression fuel p) p"
    and back_arms: "16 * left_over p + 3 \<le> fuel \<Longrightarrow> returns False (match_arms fuel arms seen p) p"
  using assms unfolding exprs_return_def by blast+

lemma expression_returns:
  assumes "exprs_return fuel" "16 * left_over p + 6 \<le> Suc fuel"
  shows "returns True (parser_parse_binary_expression (Suc fuel) m p) p"
  unfolding parser_parse_binary_expression.simps
  by (intro returns_and_parse_first back_unary back_loop) (use assms in auto)

lemma loop_returns:
  assumes "exprs_return fuel" "16 * left_over p + 1 \<le> Suc fuel"
  shows "returns False (binary_loop (Suc fuel) m left p) p"
proof (cases "stops m p")
  case True
  then have "binary_loop (Suc fuel) m left p = give left p" by (auto simp: stops_def Let_def)
  then show ?thesis by (simp only: returns_give)
next
  case False
  let ?c = "parser_get_operator_precedence (current_type p)"
  have op: "parser_is_binary_operator (current_type p)" "m \<le> ?c" using False by (simp_all add: stops_def)
  then have "current_type p \<noteq> TOKEN_EOF" by (auto simp: parser_is_binary_operator_def)
  then have "returns False (and_parse (parser_parse_binary_expression fuel (?c + 1)) (\<lambda>right.
      binary_loop fuel m (ast_create_binary_expression left (current_text p) right l)) (parser_advance p)) p" for l
    by (rule returns_consume) (intro returns_and_parse [where sa = True] back_expression back_loop, use assms in auto)
  then show ?thesis using op by (simp add: Let_def)
qed

lemma unary_returns:
  assumes "exprs_return fuel" "16 * left_over p + 5 \<le> Suc fuel"
  shows "returns True (parser_parse_unary_expression (Suc fuel) p) p"
proof -
  let ?no_cast = "\<lambda>q. if parser_is_unary_operator (current_type q)
    then and_parse (parser_parse_unary_expression fuel)
      (\<lambda>operand. give (ast_create_unary_expression (current_text q) operand (parser_current_location p))) (parser_advance q)
    else parser_parse_postfix_expression fuel q"
  have op: "returns True (?no_cast q) q" if "left_over q \<le> left_over p" for q
  proof (cases "parser_is_unary_operator (current_type q)")
    case True
    then have "current_type q \<noteq> TOKEN_EOF" by (auto simp: parser_is_unary_operator_def)
    then show ?thesis unfolding if_P [OF True]
      by (rule returns_consume) (intro returns_and_parse [where sa = True] back_unary returns_give, use assms that in auto)
  qed (use assms that in \<open>simp add: back_postfix\<close>)
  have "returns True (case parser_parse_cast_expression fuel p of None \<Rightarrow> None | Some (None, q) \<Rightarrow> ?no_cast q
      | Some (Some e, q) \<Rightarrow> give e q) p"
    by (intro returns_cases_first back_cast op returns_give) (use assms in auto)
  then show ?thesis using op [of p] by (auto simp: Let_def split: option.splits)
qed

lemma cast_returns:
  assumes "exprs_return fuel" "16 * left_over p + 1 \<le> Suc fuel"
  shows "returns True (parser_parse_cast_expression (Suc fuel) p) p"
  unfolding parser_parse_cast_expression.simps Let_def
  by (rule returns_and_parse_first, rule cast_type_returns)
    (use assms in simp, intro returns_and_parse [where sa = True] back_unary returns_give, use assms in auto)

lemma postfix_returns:
  assumes "exprs_return fuel" "16 * left_over p + 4 \<le> Suc fuel"
  shows "returns True (parser_parse_postfix_expression (Suc fuel) p) p"
  unfolding parser_parse_postfix_expression.simps
  by (intro returns_and_parse_first back_primary back_postfix_loop) (use assms in auto)

lemma arguments_returns:
  assumes "exprs_return fuel" "16 * left_over p + 7 \<le> Suc fuel"
  shows "returns False (arguments (Suc fuel) args p) p"
  unfolding arguments.simps
proof (rule returns_cases [where sa = True], goal_cases)
  case 1
  show ?case using assms by (intro back_expression) auto
next
  case (3 arg q)
  consider "current_type q = Punct TOKEN_COMMA" | "current_type q = Punct TOKEN_RPAREN"
    | "current_type q \<notin> {Punct TOKEN_COMMA, Punct TOKEN_RPAREN}" by blast
  then show ?case
  proof cases
    case 1
    then show ?thesis
      by (simp, intro returns_consume [of q]) (simp, intro back_arguments, use assms 3 in auto)
  next
    case c: 3
    have "returns False (give x (parser_set_error m q)) q" for x :: "ASTNode list" and m
      by (rule returns_later [OF nearer_set_error [of q m]]) (simp_all add: returns_give)
    then show ?thesis using c by simp
  qed (simp add: returns_give)
qed (rule returns_give)

text \<open>What stands between the parentheses of a call, and what follows them.\<close>

lemma call_arguments_return:
  assumes "exprs_return fuel" "16 * left_over p + 7 \<le> fuel"
  shows "returns False ((if b then arguments fuel [] else give []) p) p"
  using back_arguments [OF assms] by (simp add: returns_give)

lemma call_returns:
  assumes "current_type p \<noteq> TOKEN_EOF"
    and "left_over (parser_advance p) < left_over p \<Longrightarrow> returns False (m (parser_advance p)) (parser_advance p)"
    and "\<And>x q. left_over q < left_over p \<Longrightarrow> returns False (k x q) q"
  shows "returns False (and_parse m (\<lambda>x. and_parse (require (Punct TOKEN_RPAREN)) (\<lambda>_. k x)) (parser_advance p)) p"
  by (rule returns_consume [OF assms(1)])
    (intro returns_and_parse [where sa = False] returns_require assms(2,3), auto)

lemma postfix_loop_returns:
  assumes "exprs_return fuel" "16 * left_over p + 2 \<le> Suc fuel"
  shows "returns False (postfix_loop (Suc fuel) e p) p"
proof (cases "\<exists>l f. e = Identifier l f")
  case True
  then obtain l f where e: "e = Identifier l f" by blast
  let ?call = "\<lambda>tys q. and_parse (if current_type (parser_advance q) \<noteq> Punct TOKEN_RPAREN then arguments fuel [] else give []) (\<lambda>args.
      and_parse (require (Punct TOKEN_RPAREN)) (\<lambda>_.
        postfix_loop fuel (with_type_args tys (ast_create_call_expression f args (parser_current_location p))))) (parser_advance q)"
  have call: "returns False (?call tys q) q" if "left_over q < left_over p" for tys q
    by (rule returns_advance, intro returns_and_parse [where sa = False] call_arguments_return returns_require back_postfix_loop)
      (use assms that in auto)
  have "returns False (case parser_try_parse_generic_call_type_args fuel p of None \<Rightarrow> None
      | Some (None, q) \<Rightarrow> postfix_suffix fuel e (parser_current_location p) q | Some (Some tys, q) \<Rightarrow> ?call tys q) p"
    by (rule returns_cases [where sa = True], rule generic_returns, use assms in simp)
      (rule back_suffix [OF assms(1)], use assms(2) in simp, rule call, simp)
  then show ?thesis unfolding e postfix_loop.simps Let_def ASTNode.case .
next
  case False
  then have "postfix_loop (Suc fuel) e p = postfix_suffix fuel e (parser_current_location p) p"
    by (auto simp: Let_def split: ASTNode.splits)
  then show ?thesis using assms by (simp only:) (rule back_suffix, auto)
qed

lemma postfix_suffix_returns:
  assumes "exprs_return fuel" "16 * left_over p + 1 \<le> Suc fuel"
  shows "returns False (postfix_suffix (Suc fuel) e l p) p"
proof -
  have loop: "returns False (postfix_loop fuel e' q) q" if "left_over q < left_over p" for e' q
    using assms that by (intro back_postfix_loop) auto
  consider (call) "current_type p = Punct TOKEN_LPAREN" | (member) op f where
      "current_type p = Punct TOKEN_DOT \<or> current_type p = Punct TOKEN_ARROW"
      "postfix_suffix (Suc fuel) e l p = and_parse (member_name op) (\<lambda>m. postfix_loop fuel (f m)) p"
    | (bracket) "current_type p = Punct TOKEN_LBRACKET"
    | (other) "current_type p \<notin> Punct ` {TOKEN_LPAREN, TOKEN_DOT, TOKEN_ARROW, TOKEN_LBRACKET}" by fastforce
  then show ?thesis
  proof cases
    case call
    let ?m = "\<lambda>b. if parser_identifier_name_is e ''sizeof'' then sizeof_argument fuel else if b then arguments fuel [] else give []"
    have "returns False (?m b (parser_advance p)) (parser_advance p)" if "left_over (parser_advance p) < left_over p" for b
      using assms that call_arguments_return [OF assms(1), of "parser_advance p" b] by (simp add: sizeof_argument_returns)
    moreover have "returns False ((case finish_call e args l of None \<Rightarrow> give_null | Some c \<Rightarrow> postfix_loop fuel c) q) q"
      if "left_over q < left_over p" for args q using loop [OF that] by (simp split: option.split)
    ultimately have "returns False (and_parse (?m b) (\<lambda>args. and_parse (require (Punct TOKEN_RPAREN)) (\<lambda>_.
        case finish_call e args l of None \<Rightarrow> give_null | Some c \<Rightarrow> postfix_loop fuel c)) (parser_advance p)) p" for b
      by (intro call_returns) (use call in auto)
    then show ?thesis using call unfolding postfix_suffix.simps Let_def by simp
  next
    case member
    then have "current_type p \<noteq> TOKEN_EOF" by auto
    then show ?thesis using member(2) by (simp only:) (rule returns_and_parse_first, rule member_name_returns, simp, rule loop)
  next
    case bracket
    show ?thesis unfolding postfix_suffix.simps using bracket
      by (simp, intro returns_consume [of p]) (simp, rule returns_and_parse [where sa = True], rule back_expression [OF assms(1)], use assms(2) in simp,
        intro returns_and_parse [where sa = False] returns_require loop, auto)
  next
    case other
    then have "postfix_suffix (Suc fuel) e l p = give e p" by auto
    then show ?thesis by (simp only: returns_give)
  qed
qed

lemma primary_returns:
  assumes "exprs_return fuel" "16 * left_over p + 2 \<le> Suc fuel"
  shows "returns True (parser_parse_primary_expression (Suc fuel) p) p"
proof -
  let ?a = "parser_advance p"
  let ?close = "\<lambda>e q. case parser_expect (Punct TOKEN_RPAREN) q of (True, q) \<Rightarrow> Some (e, q) | (False, q) \<Rightarrow> give_null q"
  have close: "returns False (?close e q) q" for e q
    using returns_require(1) [of "Punct TOKEN_RPAREN" False q]
    by (auto simp: require_def returns_def give_def give_null_def split: prod.splits bool.splits)
  consider (group) "current_type p = Punct TOKEN_LPAREN" | (import1) "current_type p = Keyword TOKEN_IMPORT_STR"
    | (new) "current_type p = Keyword TOKEN_NEW"
    | (other) "current_type p \<notin> {Punct TOKEN_LPAREN, Keyword TOKEN_IMPORT_STR, Keyword TOKEN_NEW}" by blast
  then show ?thesis
  proof cases
    case group
    have "returns True (case parser_parse_binary_expression fuel 0 ?a of None \<Rightarrow> None
        | Some (None, q) \<Rightarrow> ?close None q | Some (Some e, q) \<Rightarrow> ?close (Some e) q) p"
      by (rule returns_consume, use group in simp) (intro returns_cases [where sa = True] back_expression close, use assms in auto)
    moreover have "parser_parse_primary_expression (Suc fuel) p = (case parser_parse_binary_expression fuel 0 ?a of
        None \<Rightarrow> None | Some (None, q) \<Rightarrow> ?close None q | Some (Some e, q) \<Rightarrow> ?close (Some e) q)"
      using group by (auto simp: Let_def parser_is_identifier_like_def split: option.splits)
    ultimately show ?thesis by (simp only:)
  next
    case import1
    show ?thesis
    proof (rule returns_consume)
      show "returns False (parser_parse_primary_expression (Suc fuel) p) ?a"
        using import1 by (simp add: Let_def parser_is_identifier_like_def)
    qed (use import1 in simp)
  next
    case new
    show ?thesis
    proof (rule returns_consume)
      show "returns False (parser_parse_primary_expression (Suc fuel) p) ?a" if "left_over ?a < left_over p"
        using new assms that by (simp add: Let_def parser_is_identifier_like_def returns_and_parse [OF type_returns] returns_give)
    qed (use new in simp)
  next
    case other
    then show ?thesis using number_node_returns back_match [OF assms(1), of p] assms(2)
      by (auto simp: Let_def intro: returns_give_consume)
  qed
qed

lemma match_returns:
  assumes "exprs_return fuel" "16 * left_over p + 1 \<le> Suc fuel"
  shows "returns True (parser_parse_match_expression (Suc fuel) p) p"
proof -
  have fin: "returns False (if ps_has_error q then give_null q else and_parse (require (Punct TOKEN_RBRACE)) (\<lambda>_. give x) q) q"
    for q :: Parser and x :: ASTNode
    by (cases "ps_has_error q") (simp_all add: returns_and_parse [where sa = False] returns_give)
  show ?thesis unfolding parser_parse_match_expression.simps Let_def
    by (rule returns_and_parse_first, rule returns_require, simp)
      (rule returns_and_parse [where sa = False], rule returns_require, simp, rule returns_and_parse [where sa = True],
       rule back_expression [OF assms(1)], use assms(2) in simp, intro returns_and_parse [where sa = False] returns_require back_arms fin,
       use assms in auto)
qed

lemma arm_returns:
  assumes "exprs_return fuel" "16 * left_over p + 6 \<le> fuel"
  shows "returns False (case parser_expect (Punct TOKEN_COLON) p of (False, p) \<Rightarrow> give arms p
      | (True, p) \<Rightarrow>
          (case parser_parse_binary_expression fuel 0 p of
             None \<Rightarrow> None
           | Some (None, p) \<Rightarrow> give arms (if ps_has_error p then p else parser_set_error msg p)
           | Some (Some body, p) \<Rightarrow>
               and_parse (skip_separators fuel) (\<lambda>_. match_arms fuel (arms @ [MatchArm variant binding body dflt]) seen)
                 (if current_type p = Punct TOKEN_COMMA then parser_advance p else p))) p"
proof (cases "current_type p = Punct TOKEN_COLON")
  case True
  have failed: "returns False (give arms (if ps_has_error q then q else parser_set_error msg q)) q" for q
    by (rule returns_later [where p' = "if ps_has_error q then q else parser_set_error msg q"]) (auto simp: nearer_refl)
  have tail: "returns False (and_parse (skip_separators fuel) (\<lambda>_. match_arms fuel as seen)
      (if current_type q = Punct TOKEN_COMMA then parser_advance q else q)) q" if "left_over q \<le> left_over p" for q as
  proof (rule returns_later [where p' = "if current_type q = Punct TOKEN_COMMA then parser_advance q else q"])
    show near: "nearer q (if current_type q = Punct TOKEN_COMMA then parser_advance q else q)" if "parser_ok q"
      using that by (simp add: nearer_advance nearer_refl)
    then show "returns False (and_parse (skip_separators fuel) (\<lambda>_. match_arms fuel as seen)
        (if current_type q = Punct TOKEN_COMMA then parser_advance q else q))
        (if current_type q = Punct TOKEN_COMMA then parser_advance q else q)" if "parser_ok q"
      using that assms \<open>left_over q \<le> left_over p\<close>
      by (intro returns_and_parse [where sa = False] skip_separators_returns back_arms) (auto simp: nearer_def)
  qed
  show ?thesis using True
    by (simp add: parser_expect_def, intro returns_advance [of p])
      (rule returns_cases [where sa = True], rule back_expression [OF assms(1)], use assms(2) in simp, rule failed, rule tail, simp)
next
  case False
  have "returns False (give arms (parser_set_error m p)) p" for m
    by (rule returns_later [OF nearer_set_error [of p m]]) (simp_all add: returns_give)
  then show ?thesis using False by (simp add: parser_expect_def)
qed

lemma arms_return:
  assumes "exprs_return fuel" "16 * left_over p + 3 \<le> Suc fuel"
  shows "returns False (match_arms (Suc fuel) arms seen p) p"
proof (cases "current_type p = Punct TOKEN_RBRACE \<or> current_type p = TOKEN_EOF \<or> ps_has_error p")
  case True
  then have "match_arms (Suc fuel) arms seen p = give arms p" by auto
  then show ?thesis by (simp only: returns_give)
next
  case False
  show ?thesis unfolding match_arms.simps if_not_P [OF False]
  proof (rule returns_and_parse [where sa = False], rule skip_separators_returns, use assms in simp, goal_cases)
    case (1 x q)
    show ?case
    proof (cases "current_type q = Punct TOKEN_RBRACE")
      case False
      show ?thesis unfolding if_not_P [OF False]
        by (rule returns_cases [OF match_arm_head_returns], rule returns_give)
          (clarsimp, rule arm_returns [OF assms(1)], use assms(2) 1 in simp)
    qed (simp add: returns_give)
  qed
qed

lemma exprs_return: "exprs_return fuel"
proof (induction fuel)
  case (Suc fuel)
  show ?case unfolding exprs_return_def
    by (intro conjI allI impI expression_returns loop_returns unary_returns cast_returns postfix_returns postfix_loop_returns
        postfix_suffix_returns arguments_returns primary_returns match_returns arms_return Suc)
qed (simp add: exprs_return_def)

section \<open>Starting from a source text\<close>

lemma parser_create_ok:
  assumes "intern_wf st"
  shows "parser_ok (parser_create (lexer_create src st))"
    "parser_stream (parser_create (lexer_create src st)) = lexer_stream (lexer_create src st)"
    "left_over (parser_create (lexer_create src st)) \<le> length (c_string src) + 2"
proof -
  let ?l = "lexer_create src st"
  obtain t l where n: "lexer_next_token ?l = (t, l)" by fastforce
  obtain t' l' where n': "lexer_next_token l = (t', l')" by fastforce
  note k = lexer_next_token_keeps [OF lexer_wf_create [OF assms] n]
  note k' = lexer_next_token_keeps [OF k(3) n']
  show "parser_ok (parser_create ?l)"
    using k' by (simp add: parser_create_def parser_create_with_error_reporter_def n n' parser_ok_def
      parser_report_lexer_token_error_def Let_def)
  show "parser_stream (parser_create ?l) = lexer_stream ?l"
    by (subst lexer_stream_next, subst lexer_stream_next)
      (simp add: parser_create_def parser_create_with_error_reporter_def n n' parser_stream_def
        parser_report_lexer_token_error_def Let_def)
  have "lx_length l' = length (c_string src)" using k k' by (simp add: lexer_create_def)
  then show "left_over (parser_create ?l) \<le> length (c_string src) + 2"
    by (simp add: parser_create_def parser_create_with_error_reporter_def n n' Let_def) (auto simp: left_over_def)
qed

end
