(* ===== verification/Parser_Props.thy ===== *)
theory Parser_Props
  imports Parser_Fuel
begin

text \<open>
  The properties of the expression parser, from the characters of a source text to the tree, and what the grammar
  says about three phrases the parser does not treat as meant.
\<close>

section \<open>Termination and soundness\<close>

text \<open>The expression parser always returns: on any source text whatever, with fuel linear in its length, it ends
  with a tree or with NULL, and it never goes back.\<close>

theorem expression_parser_returns:
  assumes "intern_wf st" "16 * (length (c_string src) + 3) \<le> fuel"
  shows "\<exists>r q. parser_parse_expression fuel (parser_create (lexer_create src st)) = Some (r, q) \<and>
    left_over q \<le> left_over (parser_create (lexer_create src st))"
proof -
  let ?p = "parser_create (lexer_create src st)"
  have "16 * left_over ?p + 6 \<le> fuel" using parser_create_ok(3) [OF assms(1), of src] assms(2) by simp
  with back_expression [OF exprs_return] parser_create_ok(1) [OF assms(1)] show ?thesis
    unfolding returns_def nearer_def parser_parse_expression_def by blast
qed

text \<open>(C11) What the expression parser reads without recording an error is an expression of the grammar: the tokens it
  has taken off the source text derive the tree it gives, with operators grouped by precedence and to the left, and
  the token it stops at does not continue the expression.\<close>

theorem expression_parser_sound:
  assumes "intern_wf st"
    and "parser_parse_expression fuel (parser_create (lexer_create src st)) = Some (r, q)"
    and "\<not> ps_had_error q"
  shows "\<exists>ts. lexer_stream (lexer_create src st) = ts @- parser_stream q \<and> reads (Binary 0) r ts \<and>
    (r \<noteq> None \<longrightarrow> \<not> parser_is_binary_operator (current_type q))"
proof -
  let ?p = "parser_create (lexer_create src st)"
  obtain ts where ts: "moved ?p ts q" "read_expression 0 r ts q"
    using sound_expression [OF exprs_sound, of fuel 0 ?p] parser_create_ok(1) [OF assms(1)] assms(2,3)
    unfolding after_def parser_parse_expression_def by blast
  then show ?thesis using parser_create_ok(1,2) [OF assms(1), of src]
    by (auto simp: moved_def read_expression_def stops_def)
qed

theorem expression_parser_returns_witness:
  "\<exists>r q. parser_parse_expression 128 (parser_create (lexer_create ''1+2*3'' string_table_start)) = Some (r, q) \<and>
    left_over q \<le> left_over (parser_create (lexer_create ''1+2*3'' string_table_start))"
  by (rule expression_parser_returns) (simp_all add: intern_wf_start c_string_def)

text \<open>The tree read from a text, whether an error is remembered, and the token the parser stops at.\<close>

definition expression_of :: "nat \<Rightarrow> string \<Rightarrow> string_table \<Rightarrow> (ASTNode option \<times> bool \<times> TokenType) option" where
  "expression_of fuel src st = map_option (\<lambda>(r, q). (r, ps_had_error q, current_type q))
     (parser_parse_expression fuel (parser_create (lexer_create src st)))"

lemma expression_of_sum:
  "expression_of 16 ''1+2*3'' st = Some (Some (BinaryExpression \<lparr>loc_line = 1, loc_column = 2\<rparr>
     (NumberLiteral \<lparr>loc_line = 1, loc_column = 1\<rparr> 1 10) ''+''
     (BinaryExpression \<lparr>loc_line = 1, loc_column = 4\<rparr> (NumberLiteral \<lparr>loc_line = 1, loc_column = 3\<rparr> 2 10) ''*''
       (NumberLiteral \<lparr>loc_line = 1, loc_column = 5\<rparr> 3 10))), False, TOKEN_EOF)"
  by code_simp

theorem expression_parser_sound_witness:
  "\<exists>e q ts. parser_parse_expression 16 (parser_create (lexer_create ''1+2*3'' string_table_start)) = Some (Some e, q) \<and>
     \<not> ps_had_error q \<and> lexer_stream (lexer_create ''1+2*3'' string_table_start) = ts @- parser_stream q \<and>
     reads (Binary 0) (Some e) ts \<and> \<not> parser_is_binary_operator (current_type q)"
proof -
  obtain e q where "parser_parse_expression 16 (parser_create (lexer_create ''1+2*3'' string_table_start)) = Some (Some e, q)"
    "\<not> ps_had_error q" using expression_of_sum [of string_table_start] by (auto simp: expression_of_def)
  with expression_parser_sound [OF intern_wf_start this] show ?thesis by blast
qed

section \<open>What the parser does not treat as meant\<close>

text \<open>A call of anything but a name or a member is read to its end and then dropped: the parser gives NULL and
  remembers no error.\<close>

theorem call_of_expression_dropped: "expression_of 20 ''(1)(2)'' st = Some (None, False, TOKEN_EOF)"
  by code_simp

text \<open>While the parser tries to read \<open><\<close> as the start of type arguments the error reporter stays attached: after
  a name and \<open>< name [\<close> without a number, the attempt is undone and the parser remembers no error, but the report
  stays, and the driver rejects a program with any report.\<close>

theorem speculation_leaves_report:
  assumes "ps_error_reporter p" "ps_error_message p = None" "\<not> ps_had_error p"
    and "current_type p = Punct TOKEN_LESS_THAN"
    and "parser_advance p = a" "parser_is_identifier_like (current_type a)"
    and "parser_advance a = b" "current_type b = Punct TOKEN_LBRACKET"
    and "parser_advance b = c" "current_type c \<noteq> TOKEN_NUMBER" "ps_error_reporter c"
  shows "\<exists>q. parser_try_parse_generic_call_type_args (Suc (Suc (Suc (Suc fuel)))) p = Some (None, q) \<and> \<not> ps_had_error q \<and>
    ps_reports q = ps_reports c @ [\<lparr>er_type = ERROR_SYNTAX, er_location = parser_current_location c,
      er_message = ''Expected array size after '' @ quoted ''[''\<rparr>]"
proof -
  have p: "p\<lparr>ps_error_message := None\<rparr> = p" using assms(2) by (cases p) simp
  have ty: "current_type a \<noteq> Keyword TOKEN_FN" "current_type a \<noteq> Punct TOKEN_GREATER_THAN" "current_type a \<noteq> TOKEN_EOF"
    using assms(6) by (auto simp: parser_is_identifier_like_def)
  let ?q = "parser_set_error (''Expected array size after '' @ quoted ''['') c"
  have "parser_parse_type_annotation (Suc (Suc (Suc fuel))) a = Some (None, ?q)"
    using assms ty by (simp add: and_parse_def give_def give_null_def null_error_def array_suffix_def Let_def)
  then have "call_type_args (Suc (Suc (Suc (Suc fuel)))) [] a = Some ((False, []), ?q)" using ty by simp
  then have "parser_try_parse_generic_call_type_args (Suc (Suc (Suc (Suc fuel)))) p =
      Some (None, parser_restore_state (parser_save_state p) ?q)"
    using assms by (simp add: parser_try_parse_generic_call_type_args_def p give_null_def)
  then show ?thesis using assms(3,11)
    by (simp add: parser_restore_state_def parser_save_state_def parser_set_error_def report_def parser_current_location_def)
qed

end
