(* ===== verification/Parser_Decl.thy ===== *)
theory Parser_Decl
  imports Parser_Expr
begin

text \<open>
  The parts of declarations and statements of \<^verbatim>\<open>src/src/parser/parser.c\<close> that contain no statements: ends of
  statements, recovery, assignments, type parameters, imports, variables, parameters, enumerations, inline assembly
  and jumps. A parsing function that the source calls and whose failure it passes on is joined by \<open>and_parse\<close>.
\<close>

section \<open>Ends of statements and recovery\<close>

text \<open>After the first test the newlines and the second semicolon cannot be there.\<close>

definition parser_expect_statement_end :: "Parser \<Rightarrow> bool \<times> Parser" where
  "parser_expect_statement_end parser =
     (if current_type parser = Punct TOKEN_SEMICOLON \<or> current_type parser = Punct TOKEN_NEWLINE
      then (True, parser_advance parser)
      else (False, parser_set_error (''Expected '' @ quoted '';'' @ '' or newline at the end of the statement'') parser))"

definition require_end :: "unit parse" where
  "require_end parser =
     (case parser_expect_statement_end parser of (True, parser) \<Rightarrow> give () parser | (False, parser) \<Rightarrow> give_null parser)"

definition resumes :: "TokenType \<Rightarrow> bool" where
  "resumes token_type \<longleftrightarrow>
     token_type \<in> Keyword ` {TOKEN_FUNCTION, TOKEN_VAR, TOKEN_STRUCT, TOKEN_RETURN, TOKEN_IF, TOKEN_WHILE, TOKEN_FOR,
       TOKEN_SWITCH, TOKEN_MATCH, TOKEN_BREAK, TOKEN_CONTINUE} \<or> token_type = Punct TOKEN_RBRACE"

fun parser_synchronize :: "nat \<Rightarrow> unit parse" where
  "parser_synchronize 0 = (\<lambda>parser. None)"
| "parser_synchronize (Suc fuel) = (\<lambda>parser.
     if current_type parser = TOKEN_EOF then give () parser
     else if current_type parser = Punct TOKEN_SEMICOLON \<or> current_type parser = Punct TOKEN_NEWLINE
     then give () (parser_advance parser)
     else if resumes (current_type parser) then give () parser
     else parser_synchronize fuel (parser_advance parser))"

definition parser_recover_from_error :: "nat \<Rightarrow> unit parse" where
  "parser_recover_from_error fuel parser =
     and_parse (parser_synchronize fuel) (\<lambda>_ parser.
       give () (parser\<lparr>ps_has_error := False, ps_error_message := None, ps_error_recovery_mode := False\<rparr>))
       (parser\<lparr>ps_error_recovery_mode := True\<rparr>)"

fun skip_newlines :: "nat \<Rightarrow> unit parse" where
  "skip_newlines 0 = (\<lambda>parser. None)"
| "skip_newlines (Suc fuel) = (\<lambda>parser.
     if current_type parser = Punct TOKEN_NEWLINE then skip_newlines fuel (parser_advance parser) else give () parser)"

section \<open>Names and types\<close>

definition name_token :: "string \<Rightarrow> string parse" where
  "name_token message parser =
     (if \<not> parser_is_identifier_like (current_type parser) then null_error message parser
      else give (current_text parser) (parser_advance parser))"

text \<open>A type that must be there: the message is set unless the type has set one, or in any case.\<close>

definition type_or_error :: "string \<Rightarrow> nat \<Rightarrow> string parse" where
  "type_or_error message fuel parser =
     (case parser_parse_type_annotation fuel parser of
        None \<Rightarrow> None
      | Some (None, parser) \<Rightarrow> if ps_has_error parser then give_null parser else null_error message parser
      | Some (Some type_name, parser) \<Rightarrow> give type_name parser)"

definition type_and_error :: "string \<Rightarrow> nat \<Rightarrow> string parse" where
  "type_and_error message fuel parser =
     (case parser_parse_type_annotation fuel parser of
        None \<Rightarrow> None
      | Some (None, parser) \<Rightarrow> null_error message parser
      | Some (Some type_name, parser) \<Rightarrow> give type_name parser)"

text \<open>A phrase that is read only after a token of a given kind.\<close>

definition if_token :: "TokenType list \<Rightarrow> 'a parse \<Rightarrow> 'a option parse" where
  "if_token token_types m parser =
     (if current_type parser \<in> set token_types then and_parse m (\<lambda>x. give (Some x)) (parser_advance parser)
      else give None parser)"

section \<open>Assignments\<close>

definition parser_is_assignment_target :: "ASTNode \<Rightarrow> bool" where
  "parser_is_assignment_target target \<longleftrightarrow>
     (case target of Identifier _ _ \<Rightarrow> True | MemberAccess _ _ _ \<Rightarrow> True | ArrayIndexExpression _ _ _ \<Rightarrow> True
      | UnaryExpression _ op _ \<Rightarrow> op = ''*'' | _ \<Rightarrow> False)"

definition compound_operators :: "(PunctToken \<times> string) list" where
  "compound_operators = [(TOKEN_PLUS_EQUALS, ''+''), (TOKEN_MINUS_EQUALS, ''-''), (TOKEN_STAR_EQUALS, ''*''),
     (TOKEN_SLASH_EQUALS, ''/''), (TOKEN_PERCENT_EQUALS, ''%''), (TOKEN_AMP_EQUALS, ''&''), (TOKEN_PIPE_EQUALS, ''|''),
     (TOKEN_CARET_EQUALS, ''^''), (TOKEN_LSHIFT_EQUALS, ''<<''), (TOKEN_RSHIFT_EQUALS, ''>>'')]"

definition parser_compound_assign_op :: "TokenType \<Rightarrow> string option" where
  "parser_compound_assign_op token_type = (case token_type of Punct p \<Rightarrow> map_of compound_operators p | _ \<Rightarrow> None)"

definition parser_is_assignment_token :: "TokenType \<Rightarrow> bool" where
  "parser_is_assignment_token token_type \<longleftrightarrow>
     token_type = Punct TOKEN_EQUALS \<or> parser_compound_assign_op token_type \<noteq> None"

text \<open>The location of a node that is a target.\<close>

definition target_location :: "ASTNode \<Rightarrow> SourceLocation" where
  "target_location target =
     (case target of Identifier l _ \<Rightarrow> l | MemberAccess l _ _ \<Rightarrow> l | ArrayIndexExpression l _ _ \<Rightarrow> l
      | UnaryExpression l _ _ \<Rightarrow> l | _ \<Rightarrow> \<lparr>loc_line = 0, loc_column = 0\<rparr>)"

definition assign_to :: "ASTNode \<Rightarrow> string option \<Rightarrow> ASTNode \<Rightarrow> ASTNode" where
  "assign_to target compound_op value =
     (let location = target_location target;
          value = (case compound_op of None \<Rightarrow> value
                   | Some op \<Rightarrow> ast_create_binary_expression (ast_clone_node target) op value location)
      in case target of
           Identifier _ name \<Rightarrow> ast_create_assignment name value location
         | _ \<Rightarrow> ast_create_field_assignment target value location)"

definition parser_parse_assignment_from_target :: "nat \<Rightarrow> ASTNode \<Rightarrow> ASTNode parse" where
  "parser_parse_assignment_from_target fuel target parser =
     (if \<not> parser_is_assignment_target target then null_error ''Invalid assignment target'' parser
      else let compound_op = parser_compound_assign_op (current_type parser)
           in and_parse (parser_parse_expression fuel) (\<lambda>value. give (assign_to target compound_op value)) (parser_advance parser))"

definition expression_or_assignment :: "nat \<Rightarrow> ASTNode parse" where
  "expression_or_assignment fuel =
     and_parse (parser_parse_expression fuel) (\<lambda>expr parser.
       if parser_is_assignment_token (current_type parser) then parser_parse_assignment_from_target fuel expr parser
       else give expr parser)"

section \<open>Type parameters\<close>

definition parser_append_type_param_bound :: "string option \<Rightarrow> string \<Rightarrow> string" where
  "parser_append_type_param_bound bounds trait_name =
     (case bounds of None \<Rightarrow> trait_name | Some b \<Rightarrow> b @ ''+'' @ trait_name)"

fun parser_find_type_param_index :: "type_parameters \<Rightarrow> string \<Rightarrow> nat option" where
  "parser_find_type_param_index [] name = None"
| "parser_find_type_param_index (p # ps) name =
     (if fst p = name then Some 0 else map_option Suc (parser_find_type_param_index ps name))"

fun parser_parse_bound_list :: "nat \<Rightarrow> string option \<Rightarrow> string parse" where
  "parser_parse_bound_list 0 bounds = (\<lambda>parser. None)"
| "parser_parse_bound_list (Suc fuel) bounds =
     and_parse (parser_parse_qualified_name fuel ''Expected trait name in bound'') (\<lambda>trait_name parser.
       let bounds = parser_append_type_param_bound bounds trait_name
       in if current_type parser \<noteq> Punct TOKEN_PLUS then give bounds parser
          else parser_parse_bound_list fuel (Some bounds) (parser_advance parser))"

fun where_clauses :: "nat \<Rightarrow> type_parameters \<Rightarrow> type_parameters parse" where
  "where_clauses 0 type_params = (\<lambda>parser. None)"
| "where_clauses (Suc fuel) type_params =
     and_parse (name_token ''Expected type parameter name in where clause'') (\<lambda>param_name.
       case parser_find_type_param_index type_params param_name of
         None \<Rightarrow> null_error ''Where clause references unknown type parameter''
       | Some i \<Rightarrow>
           and_parse (require (Punct TOKEN_COLON)) (\<lambda>_.
           and_parse (parser_parse_bound_list fuel (snd (type_params ! i))) (\<lambda>bounds parser.
             let type_params = type_params[i := (fst (type_params ! i), Some bounds)]
             in if current_type parser \<noteq> Punct TOKEN_COMMA then give type_params parser
                else where_clauses fuel type_params (parser_advance parser))))"

definition parser_parse_where_clause :: "nat \<Rightarrow> type_parameters \<Rightarrow> type_parameters parse" where
  "parser_parse_where_clause fuel type_params parser =
     (if current_type parser \<noteq> Keyword TOKEN_WHERE then give type_params parser
      else where_clauses fuel type_params (parser_advance parser))"

fun type_param_loop :: "nat \<Rightarrow> type_parameters \<Rightarrow> type_parameters parse" where
  "type_param_loop 0 type_params = (\<lambda>parser. None)"
| "type_param_loop (Suc fuel) type_params = (\<lambda>parser.
     if current_type parser = Punct TOKEN_GREATER_THAN \<or> current_type parser = TOKEN_EOF then give type_params parser
     else and_parse (name_token ''Expected type parameter name'') (\<lambda>name.
          and_parse (if_token [Punct TOKEN_COLON] (parser_parse_bound_list fuel None)) (\<lambda>bounds parser.
            if current_type parser = Punct TOKEN_COMMA
            then type_param_loop fuel (type_params @ [(name, bounds)]) (parser_advance parser)
            else if current_type parser \<noteq> Punct TOKEN_GREATER_THAN
            then null_error (''Expected '' @ quoted '','' @ '' or '' @ quoted ''>'' @ '' in type parameter list'') parser
            else type_param_loop fuel (type_params @ [(name, bounds)]) parser)) parser)"

definition parser_parse_type_param_list :: "nat \<Rightarrow> type_parameters parse" where
  "parser_parse_type_param_list fuel parser =
     (if current_type parser \<noteq> Punct TOKEN_LESS_THAN then give [] parser
      else and_parse (type_param_loop fuel []) (\<lambda>type_params.
           and_parse (require (Punct TOKEN_GREATER_THAN)) (\<lambda>_. give type_params)) (parser_advance parser))"

text \<open>The list as functions and structs call it: an empty list with an error pending is a failure.\<close>

definition type_params_of :: "nat \<Rightarrow> type_parameters parse" where
  "type_params_of fuel =
     and_parse (parser_parse_type_param_list fuel) (\<lambda>type_params parser.
       if type_params = [] \<and> ps_has_error parser then give_null parser else give type_params parser)"

section \<open>Imports\<close>

fun import_names :: "nat \<Rightarrow> string list \<Rightarrow> string list parse" where
  "import_names 0 selected = (\<lambda>parser. None)"
| "import_names (Suc fuel) selected = (\<lambda>parser.
     if current_type parser = Punct TOKEN_RBRACE \<or> current_type parser = TOKEN_EOF then give selected parser
     else and_parse (name_token ''Expected identifier in import list'') (\<lambda>name parser.
       if current_type parser = Punct TOKEN_COMMA then import_names fuel (selected @ [name]) (parser_advance parser)
       else give (selected @ [name]) parser) parser)"

definition string_token :: "string \<Rightarrow> string parse" where
  "string_token message parser =
     (if current_type parser \<noteq> TOKEN_STRING then null_error message parser
      else give (current_text parser) (parser_advance parser))"

definition is_word :: "string \<Rightarrow> Parser \<Rightarrow> bool" where
  "is_word word parser \<longleftrightarrow> parser_is_identifier_like (current_type parser) \<and> current_text parser = word"

definition parser_parse_import_declaration :: "nat \<Rightarrow> ASTNode parse" where
  "parser_parse_import_declaration fuel parser =
     (let location = parser_current_location parser; parser = parser_advance parser
      in if current_type parser = Punct TOKEN_LBRACE
         then and_parse (import_names fuel []) (\<lambda>selected parser.
                if current_type parser \<noteq> Punct TOKEN_RBRACE then null_error (''Expected '' @ quoted ''}'' @ '' after import list'') parser
                else let parser = parser_advance parser
                     in if \<not> is_word ''from'' parser then null_error (''Expected '' @ quoted ''from'' @ '' after import list'') parser
                        else and_parse (string_token (''Expected string literal after '' @ quoted ''from'')) (\<lambda>module_name.
                             and_parse require_end (\<lambda>_.
                               give (ast_create_import_declaration module_name None selected location))) (parser_advance parser))
                (parser_advance parser)
         else and_parse (string_token (''Expected string literal after '' @ quoted ''import'')) (\<lambda>module_name parser.
              and_parse (if is_word ''as'' parser
                         then \<lambda>parser. and_parse (name_token (''Expected namespace alias after '' @ quoted ''as''))
                                (\<lambda>alias. give (Some alias)) (parser_advance parser)
                         else give None) (\<lambda>namespace_alias.
              and_parse require_end (\<lambda>_.
                give (ast_create_import_declaration module_name namespace_alias [] location))) parser) parser)"

section \<open>Variables\<close>

definition parser_parse_var_declaration :: "nat \<Rightarrow> ASTNode parse" where
  "parser_parse_var_declaration fuel parser =
     (let location = parser_current_location parser
      in and_parse (require (Keyword TOKEN_VAR)) (\<lambda>_.
         and_parse (name_token (''Expected identifier after '' @ quoted ''var'')) (\<lambda>var_name.
         and_parse (if_token [Punct TOKEN_COLON] (type_or_error (''Expected type after '' @ quoted '':'') fuel)) (\<lambda>type_name.
         and_parse (if_token [Punct TOKEN_EQUALS] (parser_parse_expression fuel)) (\<lambda>initializer parser.
           if type_name = None \<and> initializer = None
           then null_error ''Variable declaration must have either a type annotation or an initializer'' parser
           else give (ast_create_var_declaration var_name type_name initializer location)
                  (snd (parser_expect_statement_end parser)))))) parser)"

definition with_var_link :: "string option \<Rightarrow> ASTNode \<Rightarrow> ASTNode" where
  "with_var_link link_name node =
     (case node of VarDeclaration l name type_name initializer _ is_exported _ \<Rightarrow>
        VarDeclaration l name type_name initializer True is_exported link_name | _ \<Rightarrow> node)"

definition parser_parse_extern_var_declaration :: "nat \<Rightarrow> ASTNode parse" where
  "parser_parse_extern_var_declaration fuel parser =
     (let location = parser_current_location parser
      in and_parse (require (Keyword TOKEN_VAR)) (\<lambda>_.
         and_parse (name_token (''Expected variable name after '' @ quoted ''extern var'')) (\<lambda>var_name parser.
           if current_type parser \<noteq> Punct TOKEN_COLON
           then null_error ''Extern variable declarations require an explicit type'' parser
           else and_parse (type_and_error ''Extern variable declarations require a type'' fuel) (\<lambda>type_name.
                and_parse (if_token [Punct TOKEN_EQUALS] (string_token
                  (''Extern variable declarations cannot have an initializer; expected string literal link name after '' @ quoted ''='')))
                  (\<lambda>link_name.
                and_parse require_end (\<lambda>_.
                  give (with_var_link link_name (ast_create_var_declaration var_name (Some type_name) None location)))))
                (parser_advance parser))) parser)"

section \<open>Parameters\<close>

fun parameter_loop :: "nat \<Rightarrow> parameter_list \<Rightarrow> parameter_list parse" where
  "parameter_loop 0 params = (\<lambda>parser. None)"
| "parameter_loop (Suc fuel) params =
     and_parse (name_token ''Expected parameter name'') (\<lambda>name.
     and_parse (require (Punct TOKEN_COLON)) (\<lambda>_.
     and_parse (type_or_error ''Expected parameter type'' fuel) (\<lambda>type_name parser.
       let params = params @ [(name, type_name)]
       in if current_type parser = Punct TOKEN_COMMA then parameter_loop fuel params (parser_advance parser)
          else if current_type parser = Punct TOKEN_RPAREN then give params parser
          else null_error (''Expected '' @ quoted '','' @ '' or '' @ quoted '')'' @ '' in parameter list'') parser)))"

definition parser_parse_parameter_list :: "nat \<Rightarrow> parameter_list parse" where
  "parser_parse_parameter_list fuel parser =
     (if current_type parser \<noteq> Punct TOKEN_RPAREN then parameter_loop fuel [] parser else give [] parser)"

section \<open>Enumerations\<close>

fun enum_params :: "nat \<Rightarrow> string list \<Rightarrow> string list parse" where
  "enum_params 0 type_params = (\<lambda>parser. None)"
| "enum_params (Suc fuel) type_params = (\<lambda>parser.
     if current_type parser = Punct TOKEN_GREATER_THAN \<or> current_type parser = TOKEN_EOF \<or> ps_has_error parser
     then give type_params parser
     else if current_type parser = Punct TOKEN_COMMA \<or> current_type parser = Punct TOKEN_NEWLINE
     then enum_params fuel type_params (parser_advance parser)
     else if \<not> names_type (current_type parser)
     then give type_params (parser_set_error ''Expected type parameter name'' parser)
     else enum_params fuel (type_params @ [current_text parser]) (parser_advance parser))"

text \<open>The payload of a variant, the value of a variant, and the loop; NULL stands for the \<open>break\<close> of the loop, which is
  taken with an error set.\<close>

definition variant_payload :: "nat \<Rightarrow> string parse" where
  "variant_payload fuel parser =
     (if \<not> names_type (current_type parser) then null_error ''Expected payload type in variant'' parser
      else and_parse (type_and_error ''Expected payload type in variant'' fuel) (\<lambda>payload_type.
           and_parse (require (Punct TOKEN_RPAREN)) (\<lambda>_. give payload_type)) parser)"

definition variant_value :: "nat \<Rightarrow> ASTNode parse" where
  "variant_value fuel parser =
     (case parser_parse_expression fuel parser of
        None \<Rightarrow> None
      | Some (None, parser) \<Rightarrow>
          if ps_has_error parser then give_null parser else null_error (''Expected expression after '' @ quoted ''='') parser
      | Some (Some value, parser) \<Rightarrow> give value parser)"

definition enum_variant :: "nat \<Rightarrow> ASTNode EnumVariant parse" where
  "enum_variant fuel =
     and_parse (name_token ''Expected enum variant name'') (\<lambda>name.
     and_parse (if_token [Punct TOKEN_LPAREN] (variant_payload fuel)) (\<lambda>payload_type.
     and_parse (if_token [Punct TOKEN_EQUALS] (variant_value fuel)) (\<lambda>value.
       give (EnumVariant name value payload_type))))"

fun enum_variants :: "nat \<Rightarrow> ASTNode EnumVariant list \<Rightarrow> ASTNode EnumVariant list parse" where
  "enum_variants 0 variants = (\<lambda>parser. None)"
| "enum_variants (Suc fuel) variants = (\<lambda>parser.
     if current_type parser = Punct TOKEN_RBRACE \<or> current_type parser = TOKEN_EOF \<or> ps_has_error parser
     then give variants parser
     else if current_type parser = Punct TOKEN_NEWLINE \<or> current_type parser = Punct TOKEN_COMMA
     then enum_variants fuel variants (parser_advance parser)
     else case enum_variant fuel parser of
            None \<Rightarrow> None
          | Some (None, parser) \<Rightarrow> give variants parser
          | Some (Some variant, parser) \<Rightarrow>
              enum_variants fuel (variants @ [variant])
                (if current_type parser = Punct TOKEN_COMMA \<or> current_type parser = Punct TOKEN_NEWLINE
                 then parser_advance parser else parser))"

text \<open>The type parameters of an enumeration; with an error pending the closing token is not asked for.\<close>

definition enum_type_params :: "nat \<Rightarrow> string list parse" where
  "enum_type_params fuel parser =
     (if current_type parser \<noteq> Punct TOKEN_LESS_THAN then give [] parser
      else and_parse (enum_params fuel []) (\<lambda>type_params parser.
             if ps_has_error parser then give type_params parser
             else and_parse (require (Punct TOKEN_GREATER_THAN)) (\<lambda>_. give type_params) parser) (parser_advance parser))"

definition with_enum_params :: "string list \<Rightarrow> ASTNode \<Rightarrow> ASTNode" where
  "with_enum_params type_params node =
     (case node of EnumDeclaration l name variants is_exported _ \<Rightarrow> EnumDeclaration l name variants is_exported type_params
      | _ \<Rightarrow> node)"

definition parser_parse_enum_declaration :: "nat \<Rightarrow> ASTNode parse" where
  "parser_parse_enum_declaration fuel parser =
     (let location = parser_current_location parser
      in and_parse (require (Keyword TOKEN_ENUM)) (\<lambda>_.
         and_parse (name_token (''Expected enum name after '' @ quoted ''enum'')) (\<lambda>enum_name.
         and_parse (enum_type_params fuel) (\<lambda>type_params.
         and_parse (require (Punct TOKEN_LBRACE)) (\<lambda>_.
         and_parse (enum_variants fuel []) (\<lambda>variants parser.
           if ps_has_error parser then give_null parser
           else and_parse (require (Punct TOKEN_RBRACE)) (\<lambda>_.
                  give (with_enum_params type_params (ast_create_enum_declaration enum_name variants location))) parser))))) parser)"

section \<open>Inline assembly and jumps\<close>

text \<open>The text collected so far grows by the value of the token, after a newline if the token starts a new line and a
  blank otherwise. The capacity of the source's buffer is not part of the model.\<close>

definition append_asm :: "string \<Rightarrow> nat \<Rightarrow> Token \<Rightarrow> string" where
  "append_asm code last_token_line token =
     (case tok_value token of
        None \<Rightarrow> code
      | Some _ \<Rightarrow>
          (if code = [] then []
           else code @ (if last_token_line \<noteq> 0 \<and> tok_line token > last_token_line then [CHR 0x0A] else '' '')) @ token_text token)"

fun asm_loop :: "nat \<Rightarrow> string \<Rightarrow> nat \<Rightarrow> string parse" where
  "asm_loop 0 code last_token_line = (\<lambda>parser. None)"
| "asm_loop (Suc fuel) code last_token_line = (\<lambda>parser.
     if current_type parser = Punct TOKEN_RBRACE \<or> current_type parser = TOKEN_EOF \<or> ps_has_error parser
     then give code parser
     else asm_loop fuel (append_asm code last_token_line (ps_current_token parser)) (tok_line (ps_current_token parser))
            (parser_advance parser))"

definition parser_parse_inline_asm :: "nat \<Rightarrow> ASTNode parse" where
  "parser_parse_inline_asm fuel parser =
     (let location = parser_current_location parser
      in and_parse (require (Keyword TOKEN_ASM)) (\<lambda>_.
         and_parse (require (Punct TOKEN_LBRACE)) (\<lambda>_.
         and_parse (asm_loop fuel [] 0) (\<lambda>assembly_code.
         and_parse (require (Punct TOKEN_RBRACE)) (\<lambda>_. give (ast_create_inline_asm assembly_code location))))) parser)"

text \<open>A \<open>return\<close> whose value cannot be read is a \<open>return\<close> without a value, with an error set.\<close>

definition parser_parse_return_statement :: "nat \<Rightarrow> ASTNode parse" where
  "parser_parse_return_statement fuel parser =
     (let location = parser_current_location parser; parser = parser_advance parser
      in if current_type parser = Punct TOKEN_SEMICOLON \<or> current_type parser = Punct TOKEN_NEWLINE
         then give (ReturnStatement location None) parser
         else case parser_parse_expression fuel parser of
                None \<Rightarrow> None
              | Some (value, parser) \<Rightarrow> give (ReturnStatement location value) parser)"

definition parser_parse_break_or_continue :: "KeywordToken \<Rightarrow> ASTNode parse" where
  "parser_parse_break_or_continue token_type parser =
     (let location = parser_current_location parser
      in and_parse (require (Keyword token_type)) (\<lambda>_ parser.
           let (label, parser) = (if current_type parser = TOKEN_IDENTIFIER then (Some (current_text parser), parser_advance parser)
                                  else (None, parser))
           in give (if token_type = TOKEN_BREAK then ast_create_labeled_break_statement label location
                    else ast_create_labeled_continue_statement label location)
                (snd (parser_expect_statement_end parser))) parser)"

definition parser_parse_break_statement :: "ASTNode parse" where
  "parser_parse_break_statement = parser_parse_break_or_continue TOKEN_BREAK"

definition parser_parse_continue_statement :: "ASTNode parse" where
  "parser_parse_continue_statement = parser_parse_break_or_continue TOKEN_CONTINUE"

end
