(* ===== verification/Parser_Stmt.thy ===== *)
theory Parser_Stmt
  imports Parser_Decl
begin

text \<open>
  Statements, functions, structs, traits and the whole program, \<^verbatim>\<open>src/src/parser/parser.c\<close>. The functions for
  compound statements and for declarations with bodies are mutually recursive through \<open>parser_parse_statement\<close>
  only; here they take the parser of statements as an argument, and \<open>parser_parse_statement\<close> passes itself, with less
  fuel.
\<close>

section \<open>Blocks\<close>

definition is_defer :: "ASTNode \<Rightarrow> bool" where
  "is_defer node \<longleftrightarrow> (case node of DeferStatement _ _ \<Rightarrow> True | _ \<Rightarrow> False)"

fun block_loop :: "nat \<Rightarrow> ASTNode parse \<Rightarrow> ASTNode list \<Rightarrow> ASTNode list parse" where
  "block_loop 0 stmt statements = (\<lambda>parser. None)"
| "block_loop (Suc fuel) stmt statements = (\<lambda>parser.
     if current_type parser = Punct TOKEN_RBRACE \<or> current_type parser = TOKEN_EOF \<or> ps_has_error parser
     then give statements parser
     else if current_type parser = Punct TOKEN_NEWLINE \<or> current_type parser = Punct TOKEN_SEMICOLON
     then block_loop fuel stmt statements (parser_advance parser)
     else case stmt parser of
            None \<Rightarrow> None
          | Some (None, parser) \<Rightarrow>
              give statements (if ps_has_error parser then parser
                               else parser_set_error ''Failed to parse statement in block'' parser)
          | Some (Some statement, parser) \<Rightarrow>
              block_loop fuel stmt (statements @ [statement])
                (if \<not> is_defer statement \<and>
                    (current_type parser = Punct TOKEN_SEMICOLON \<or> current_type parser = Punct TOKEN_NEWLINE)
                 then snd (parser_expect_statement_end parser) else parser))"

definition parser_parse_block :: "nat \<Rightarrow> ASTNode parse \<Rightarrow> ASTNode parse" where
  "parser_parse_block fuel stmt =
     and_parse (require (Punct TOKEN_LBRACE)) (\<lambda>_.
     and_parse (block_loop fuel stmt []) (\<lambda>statements.
     and_parse (require (Punct TOKEN_RBRACE)) (\<lambda>_. give (ast_create_program statements))))"

definition branch :: "nat \<Rightarrow> ASTNode parse \<Rightarrow> ASTNode parse" where
  "branch fuel stmt parser =
     (if current_type parser = Punct TOKEN_LBRACE then parser_parse_block fuel stmt parser else stmt parser)"

text \<open>A condition in parentheses; the messages are those of the parentheses.\<close>

definition condition_in :: "string \<Rightarrow> string \<Rightarrow> nat \<Rightarrow> ASTNode parse" where
  "condition_in open_message close_message fuel =
     and_parse (require_else (Punct TOKEN_LPAREN) open_message) (\<lambda>_.
     and_parse (parser_parse_expression fuel) (\<lambda>condition.
     and_parse (require_else (Punct TOKEN_RPAREN) close_message) (\<lambda>_. give condition)))"

section \<open>Conditionals and loops\<close>

fun else_loop :: "nat \<Rightarrow> ASTNode parse \<Rightarrow> (ASTNode \<times> ASTNode) list \<Rightarrow> ((ASTNode \<times> ASTNode) list \<times> ASTNode option) parse" where
  "else_loop 0 stmt else_ifs = (\<lambda>parser. None)"
| "else_loop (Suc fuel) stmt else_ifs = (\<lambda>parser.
     if current_type parser \<noteq> Keyword TOKEN_ELSE then give (else_ifs, None) parser
     else if peek_type parser = Keyword TOKEN_IF
     then and_parse (condition_in (''Expected '' @ quoted ''('' @ '' after '' @ quoted ''else if'')
                       (''Expected '' @ quoted '')'' @ '' after else if condition'') fuel) (\<lambda>elif_cond.
          and_parse (branch fuel stmt) (\<lambda>elif_body.
          and_parse (skip_newlines fuel) (\<lambda>_. else_loop fuel stmt (else_ifs @ [(elif_cond, elif_body)]))))
            (parser_advance (parser_advance parser))
     else and_parse (branch fuel stmt) (\<lambda>else_branch. give (else_ifs, Some else_branch)) (parser_advance parser))"

definition parser_parse_if_statement :: "nat \<Rightarrow> ASTNode parse \<Rightarrow> ASTNode parse" where
  "parser_parse_if_statement fuel stmt parser =
     (let location = parser_current_location parser
      in and_parse (require (Keyword TOKEN_IF)) (\<lambda>_.
         and_parse (condition_in (''Expected '' @ quoted ''('' @ '' after '' @ quoted ''if'')
                      (''Expected '' @ quoted '')'' @ '' after if condition'') fuel) (\<lambda>condition.
         and_parse (branch fuel stmt) (\<lambda>then_branch.
         and_parse (skip_newlines fuel) (\<lambda>_.
         and_parse (else_loop fuel stmt []) (\<lambda>(else_ifs, else_branch).
           give (IfStatement location condition then_branch else_ifs else_branch)))))) parser)"

definition parser_parse_while_statement :: "nat \<Rightarrow> ASTNode parse \<Rightarrow> ASTNode parse" where
  "parser_parse_while_statement fuel stmt parser =
     (let location = parser_current_location parser
      in and_parse (require (Keyword TOKEN_WHILE)) (\<lambda>_.
         and_parse (condition_in (''Expected '' @ quoted ''('' @ '' after '' @ quoted ''while'')
                      (''Expected '' @ quoted '')'' @ '' after while condition'') fuel) (\<lambda>condition.
         and_parse (branch fuel stmt) (\<lambda>body. give (WhileStatement location condition body None)))) parser)"

definition parser_parse_for_initializer :: "nat \<Rightarrow> ASTNode parse" where
  "parser_parse_for_initializer fuel parser =
     (if current_type parser = Punct TOKEN_SEMICOLON then give_null parser
      else if current_type parser = Keyword TOKEN_VAR then parser_parse_var_declaration fuel parser
      else expression_or_assignment fuel parser)"

definition is_var_declaration :: "ASTNode option \<Rightarrow> bool" where
  "is_var_declaration node \<longleftrightarrow> (case node of Some (VarDeclaration _ _ _ _ _ _ _) \<Rightarrow> True | _ \<Rightarrow> False)"

text \<open>The initialiser of \<open>for\<close> with the semicolon after it.\<close>

definition for_initializer :: "nat \<Rightarrow> ASTNode option parse" where
  "for_initializer fuel parser =
     (case parser_parse_for_initializer fuel parser of
        None \<Rightarrow> None
      | Some (initializer, parser) \<Rightarrow>
          if ps_has_error parser then give_null parser
          else if current_type parser = Punct TOKEN_SEMICOLON then give initializer (parser_advance parser)
          else if \<not> is_var_declaration initializer
          then null_error (''Expected '' @ quoted '';'' @ '' after for-loop initializer'') parser
          else give initializer parser)"

definition parser_parse_for_statement :: "nat \<Rightarrow> ASTNode parse \<Rightarrow> ASTNode parse" where
  "parser_parse_for_statement fuel stmt parser =
     (let location = parser_current_location parser;
          optional = (\<lambda>closing m parser.
            if current_type parser \<noteq> Punct closing then and_parse m (\<lambda>x. give (Some x)) parser else give None parser)
      in and_parse (require (Keyword TOKEN_FOR)) (\<lambda>_.
         and_parse (require_else (Punct TOKEN_LPAREN) (''Expected '' @ quoted ''('' @ '' after '' @ quoted ''for'')) (\<lambda>_.
         and_parse (for_initializer fuel) (\<lambda>initializer.
         and_parse (optional TOKEN_SEMICOLON (parser_parse_expression fuel)) (\<lambda>condition.
         and_parse (require (Punct TOKEN_SEMICOLON)) (\<lambda>_.
         and_parse (optional TOKEN_RPAREN (expression_or_assignment fuel)) (\<lambda>increment.
         and_parse (require (Punct TOKEN_RPAREN)) (\<lambda>_.
         and_parse (branch fuel stmt) (\<lambda>body.
           give (ast_create_for_statement initializer condition increment body location))))))))) parser)"

section \<open>Switch and match\<close>

text \<open>The head of a case: its value and whether it is the default. NULL stands for the \<open>break\<close> of the loop.\<close>

definition switch_case_head :: "nat \<Rightarrow> bool \<Rightarrow> (ASTNode option \<times> bool) parse" where
  "switch_case_head fuel seen_default parser =
     (if current_type parser = Keyword TOKEN_CASE
      then case parser_parse_expression fuel (parser_advance parser) of
             None \<Rightarrow> None
           | Some (None, parser) \<Rightarrow> null_error (''Expected constant expression after '' @ quoted ''case'') parser
           | Some (Some case_value, parser) \<Rightarrow> give (Some case_value, False) parser
      else if current_type parser = Keyword TOKEN_DEFAULT
      then if seen_default then null_error ''Only one default case is allowed'' parser
           else give (None, True) (parser_advance parser)
      else null_error (''Expected '' @ quoted ''case'' @ '' or '' @ quoted ''default'' @ '' in switch'') parser)"

fun case_body :: "nat \<Rightarrow> ASTNode parse \<Rightarrow> ASTNode list \<Rightarrow> ASTNode list parse" where
  "case_body 0 stmt statements = (\<lambda>parser. None)"
| "case_body (Suc fuel) stmt statements = (\<lambda>parser.
     if current_type parser \<in> {TOKEN_EOF, Keyword TOKEN_CASE, Keyword TOKEN_DEFAULT, Punct TOKEN_RBRACE}
     then give statements parser
     else if current_type parser = Punct TOKEN_NEWLINE \<or> current_type parser = Punct TOKEN_SEMICOLON
     then case_body fuel stmt statements (parser_advance parser)
     else and_parse stmt (\<lambda>statement. case_body fuel stmt (statements @ [statement])) parser)"

text \<open>A case once its head is read. The loop around it is left with the cases so far when the colon is missing.\<close>

fun switch_cases :: "nat \<Rightarrow> ASTNode parse \<Rightarrow> ASTNode list \<Rightarrow> bool \<Rightarrow> ASTNode list parse" where
  "switch_cases 0 stmt cases seen_default = (\<lambda>parser. None)"
| "switch_cases (Suc fuel) stmt cases seen_default = (\<lambda>parser.
     if current_type parser = Punct TOKEN_RBRACE \<or> current_type parser = TOKEN_EOF then give cases parser
     else and_parse (skip_separators fuel) (\<lambda>_ parser.
       if current_type parser = Punct TOKEN_RBRACE then give cases parser
       else let case_loc = parser_current_location parser
            in case switch_case_head fuel seen_default parser of
                 None \<Rightarrow> None
               | Some (None, parser) \<Rightarrow> give cases parser
               | Some (Some (case_value, is_default), parser) \<Rightarrow>
                   (case parser_expect (Punct TOKEN_COLON) parser of
                      (False, parser) \<Rightarrow> give cases parser
                    | (True, parser) \<Rightarrow>
                        and_parse (case_body fuel stmt []) (\<lambda>statements.
                          switch_cases fuel stmt
                            (cases @ [ast_create_case_clause case_value (ast_create_program statements) is_default case_loc])
                            (seen_default \<or> is_default)) parser)) parser)"

definition parser_parse_switch_statement :: "nat \<Rightarrow> ASTNode parse \<Rightarrow> ASTNode parse" where
  "parser_parse_switch_statement fuel stmt parser =
     (let location = parser_current_location parser
      in and_parse (require (Keyword TOKEN_SWITCH)) (\<lambda>_.
         and_parse (require_else (Punct TOKEN_LPAREN) (''Expected '' @ quoted ''('' @ '' after '' @ quoted ''switch'')) (\<lambda>_.
         and_parse (parser_parse_expression fuel) (\<lambda>expression.
         and_parse (require (Punct TOKEN_RPAREN)) (\<lambda>_.
         and_parse (require (Punct TOKEN_LBRACE)) (\<lambda>_.
         and_parse (switch_cases fuel stmt [] False) (\<lambda>cases.
         and_parse (require (Punct TOKEN_RBRACE)) (\<lambda>_. give (ast_create_switch_statement expression cases location)))))))) parser)"

text \<open>The statement form of \<open>match\<close>: the arms are blocks and no comma separates them.\<close>

fun match_blocks :: "nat \<Rightarrow> ASTNode parse \<Rightarrow> ASTNode MatchArm list \<Rightarrow> bool \<Rightarrow> ASTNode MatchArm list parse" where
  "match_blocks 0 stmt arms seen_default = (\<lambda>parser. None)"
| "match_blocks (Suc fuel) stmt arms seen_default = (\<lambda>parser.
     if current_type parser = Punct TOKEN_RBRACE \<or> current_type parser = TOKEN_EOF \<or> ps_has_error parser then give arms parser
     else and_parse (skip_separators fuel) (\<lambda>_ parser.
       if current_type parser = Punct TOKEN_RBRACE then give arms parser
       else case match_arm_head seen_default parser of
         None \<Rightarrow> None
       | Some (None, parser) \<Rightarrow> give arms parser
       | Some (Some (variant_name, binding_name, is_default), parser) \<Rightarrow>
           (case parser_expect (Punct TOKEN_COLON) parser of
              (False, parser) \<Rightarrow> give arms parser
            | (True, parser) \<Rightarrow>
                (case parser_parse_block fuel stmt parser of
                   None \<Rightarrow> None
                 | Some (None, parser) \<Rightarrow>
                     give arms (if ps_has_error parser then parser
                                else parser_set_error (''Expected '' @ quoted ''{'' @ '' block body in match arm'') parser)
                 | Some (Some body, parser) \<Rightarrow>
                     and_parse (skip_separators fuel) (\<lambda>_.
                       match_blocks fuel stmt (arms @ [MatchArm variant_name binding_name body is_default])
                         (seen_default \<or> is_default)) parser))) parser)"

definition parser_parse_match_statement :: "nat \<Rightarrow> ASTNode parse \<Rightarrow> ASTNode parse" where
  "parser_parse_match_statement fuel stmt parser =
     (let location = parser_current_location parser
      in and_parse (require (Keyword TOKEN_MATCH)) (\<lambda>_.
         and_parse (require_else (Punct TOKEN_LPAREN) (''Expected '' @ quoted ''('' @ '' after '' @ quoted ''match'')) (\<lambda>_.
         and_parse (parser_parse_expression fuel) (\<lambda>expr.
         and_parse (require (Punct TOKEN_RPAREN)) (\<lambda>_.
         and_parse (require (Punct TOKEN_LBRACE)) (\<lambda>_.
         and_parse (match_blocks fuel stmt [] False) (\<lambda>arms parser.
           if ps_has_error parser then give_null parser
           else and_parse (require (Punct TOKEN_RBRACE))
                  (\<lambda>_. give (ast_create_match_statement expr arms location)) parser)))))) parser)"

section \<open>Deferred statements\<close>

definition parser_parse_defer_or_errdefer :: "KeywordToken \<Rightarrow> ASTNode parse \<Rightarrow> ASTNode parse" where
  "parser_parse_defer_or_errdefer token_type stmt parser =
     (let location = parser_current_location parser;
          message = ''Expected statement after '' @ quoted (if token_type = TOKEN_DEFER then ''defer'' else ''errdefer'')
      in and_parse (require (Keyword token_type)) (\<lambda>_ parser.
           if current_type parser = Punct TOKEN_SEMICOLON \<or> current_type parser = Punct TOKEN_NEWLINE
           then null_error message parser
           else case stmt parser of
                  None \<Rightarrow> None
                | Some (None, parser) \<Rightarrow> if ps_has_error parser then give_null parser else null_error message parser
                | Some (Some statement, parser) \<Rightarrow>
                    give (if token_type = TOKEN_DEFER then ast_create_defer_statement statement location
                          else ast_create_errdefer_statement statement location)
                      (snd (parser_expect_statement_end parser))) parser)"

section \<open>Functions\<close>

text \<open>The body of a function or method: a failed block is passed on when an error is pending.\<close>

definition body_block :: "nat \<Rightarrow> ASTNode parse \<Rightarrow> ASTNode option parse" where
  "body_block fuel stmt parser =
     (case parser_parse_block fuel stmt parser of
        None \<Rightarrow> None
      | Some (body, parser) \<Rightarrow> if body = None \<and> ps_has_error parser then give_null parser else give body parser)"

definition function_body :: "nat \<Rightarrow> ASTNode parse \<Rightarrow> ASTNode option parse" where
  "function_body fuel stmt parser =
     (if current_type parser = Punct TOKEN_LBRACE then body_block fuel stmt parser
      else if current_type parser = Punct TOKEN_SEMICOLON \<or> current_type parser = Punct TOKEN_NEWLINE
      then give None (snd (parser_expect_statement_end parser))
      else null_error (''Expected function body ('' @ quoted ''{'' @ '') or declaration terminator'') parser)"

definition with_func_extras :: "string option \<Rightarrow> type_parameters \<Rightarrow> ASTNode \<Rightarrow> ASTNode" where
  "with_func_extras link_name type_params node =
     (case node of FunctionDeclaration l name params return_type body is_exported is_extern _ _ \<Rightarrow>
        FunctionDeclaration l name params return_type body is_exported is_extern link_name type_params | _ \<Rightarrow> node)"

text \<open>The parameters in parentheses and the type of the result.\<close>

definition signature :: "nat \<Rightarrow> (parameter_list \<times> string option) parse" where
  "signature fuel =
     and_parse (require (Punct TOKEN_LPAREN)) (\<lambda>_.
     and_parse (parser_parse_parameter_list fuel) (\<lambda>params.
     and_parse (require (Punct TOKEN_RPAREN)) (\<lambda>_.
     and_parse (if_token [Punct TOKEN_ARROW, Punct TOKEN_COLON]
                  (type_or_error ''Expected return type after return separator'' fuel)) (\<lambda>return_type.
       give (params, return_type)))))"

definition parser_parse_function_declaration :: "nat \<Rightarrow> ASTNode parse \<Rightarrow> ASTNode parse" where
  "parser_parse_function_declaration fuel stmt parser =
     (let location = parser_current_location parser
      in if current_type parser \<noteq> Keyword TOKEN_FUNCTION \<and> current_type parser \<noteq> Keyword TOKEN_FN
         then null_error (''Expected '' @ quoted ''function'' @ '' or '' @ quoted ''fn'') parser
         else and_parse (name_token (''Expected function name after '' @ quoted ''function'')) (\<lambda>func_name.
              and_parse (type_params_of fuel) (\<lambda>type_params.
              and_parse (signature fuel) (\<lambda>(params, return_type).
              and_parse (parser_parse_where_clause fuel type_params) (\<lambda>type_params.
              and_parse (if_token [Punct TOKEN_EQUALS] (string_token (''Expected string literal link name after '' @ quoted ''='')))
                (\<lambda>link_name.
              and_parse (function_body fuel stmt) (\<lambda>body.
                give (with_func_extras link_name type_params
                  (ast_create_function_declaration func_name params return_type body location)))))))) (parser_advance parser))"

definition parser_parse_method_declaration :: "nat \<Rightarrow> ASTNode parse \<Rightarrow> ASTNode parse" where
  "parser_parse_method_declaration fuel stmt parser =
     (let location = parser_current_location parser
      in and_parse (require (Keyword TOKEN_METHOD)) (\<lambda>_.
         and_parse (name_token (''Expected method name after '' @ quoted ''method'')) (\<lambda>method_name.
         and_parse (signature fuel) (\<lambda>(params, return_type) parser.
           if current_type parser \<noteq> Punct TOKEN_LBRACE then null_error (''Expected method body ('' @ quoted ''{'' @ '')'') parser
           else and_parse (body_block fuel stmt) (\<lambda>body.
                  give (MethodDeclaration location method_name params return_type body)) parser))) parser)"

section \<open>Structs, traits and implementations\<close>

fun struct_members :: "nat \<Rightarrow> ASTNode parse \<Rightarrow> (string \<times> string) list \<times> ASTNode list \<Rightarrow>
    ((string \<times> string) list \<times> ASTNode list) parse" where
  "struct_members 0 stmt members = (\<lambda>parser. None)"
| "struct_members (Suc fuel) stmt members = (\<lambda>parser.
     if current_type parser = Punct TOKEN_RBRACE \<or> current_type parser = TOKEN_EOF \<or> ps_has_error parser
     then give members parser
     else if current_type parser = Punct TOKEN_NEWLINE \<or> current_type parser = Punct TOKEN_SEMICOLON
     then struct_members fuel stmt members (parser_advance parser)
     else if current_type parser = Keyword TOKEN_METHOD
     then case parser_parse_method_declaration fuel stmt parser of
            None \<Rightarrow> None
          | Some (None, parser) \<Rightarrow>
              if ps_has_error parser then give_null parser else struct_members fuel stmt members parser
          | Some (Some method, parser) \<Rightarrow> struct_members fuel stmt (fst members, snd members @ [method]) parser
     else and_parse (name_token ''Expected field name or method declaration'') (\<lambda>name.
          and_parse (require (Punct TOKEN_COLON)) (\<lambda>_.
          and_parse (type_or_error ''Expected field type'' fuel) (\<lambda>type_name parser.
            struct_members fuel stmt (fst members @ [(name, type_name)], snd members)
              (snd (parser_expect_statement_end parser))))) parser)"

definition with_struct_params :: "type_parameters \<Rightarrow> ASTNode \<Rightarrow> ASTNode" where
  "with_struct_params type_params node =
     (case node of StructDeclaration l name struct_fields methods is_exported _ \<Rightarrow>
        StructDeclaration l name struct_fields methods is_exported type_params | _ \<Rightarrow> node)"

definition parser_parse_struct_declaration :: "nat \<Rightarrow> ASTNode parse \<Rightarrow> ASTNode parse" where
  "parser_parse_struct_declaration fuel stmt parser =
     (let location = parser_current_location parser
      in and_parse (require (Keyword TOKEN_STRUCT)) (\<lambda>_.
         and_parse (name_token (''Expected struct name after '' @ quoted ''struct'')) (\<lambda>struct_name.
         and_parse (type_params_of fuel) (\<lambda>type_params.
         and_parse (parser_parse_where_clause fuel type_params) (\<lambda>type_params.
         and_parse (require (Punct TOKEN_LBRACE)) (\<lambda>_.
         and_parse (struct_members fuel stmt ([], [])) (\<lambda>(struct_fields, methods).
         and_parse (require (Punct TOKEN_RBRACE)) (\<lambda>_.
           give (with_struct_params type_params
             (ast_create_struct_declaration struct_name struct_fields methods location))))))))) parser)"

text \<open>The functions of a trait, which have no body, or of an implementation, which have one.\<close>

fun member_functions :: "bool \<Rightarrow> string \<Rightarrow> string \<Rightarrow> nat \<Rightarrow> ASTNode parse \<Rightarrow> ASTNode list \<Rightarrow> ASTNode list parse" where
  "member_functions bodies function_message body_message 0 stmt methods = (\<lambda>parser. None)"
| "member_functions bodies function_message body_message (Suc fuel) stmt methods = (\<lambda>parser.
     if current_type parser = Punct TOKEN_RBRACE \<or> current_type parser = TOKEN_EOF \<or> ps_has_error parser
     then give methods parser
     else if current_type parser = Punct TOKEN_NEWLINE \<or> current_type parser = Punct TOKEN_SEMICOLON
     then member_functions bodies function_message body_message fuel stmt methods (parser_advance parser)
     else if current_type parser \<noteq> Keyword TOKEN_FUNCTION \<and> current_type parser \<noteq> Keyword TOKEN_FN
     then null_error function_message parser
     else and_parse (parser_parse_function_declaration fuel stmt) (\<lambda>method parser.
            case method of
              FunctionDeclaration _ _ _ _ body _ _ _ _ \<Rightarrow>
                if (body \<noteq> None) \<noteq> bodies then null_error body_message parser
                else member_functions bodies function_message body_message fuel stmt (methods @ [method]) parser
            | _ \<Rightarrow> member_functions bodies function_message body_message fuel stmt (methods @ [method]) parser) parser)"

text \<open>The methods in braces, or the end of the statement.\<close>

definition member_block :: "bool \<Rightarrow> string \<Rightarrow> string \<Rightarrow> nat \<Rightarrow> ASTNode parse \<Rightarrow> ASTNode list parse" where
  "member_block bodies function_message body_message fuel stmt parser =
     (if current_type parser = Punct TOKEN_LBRACE
      then and_parse (member_functions bodies function_message body_message fuel stmt []) (\<lambda>methods.
           and_parse (require (Punct TOKEN_RBRACE)) (\<lambda>_. give methods)) (parser_advance parser)
      else and_parse require_end (\<lambda>_. give []) parser)"

definition with_methods :: "ASTNode list \<Rightarrow> ASTNode \<Rightarrow> ASTNode" where
  "with_methods methods node =
     (case node of
        TraitDeclaration l name is_exported _ \<Rightarrow> TraitDeclaration l name is_exported methods
      | ImplDeclaration l trait_name for_type_name _ \<Rightarrow> ImplDeclaration l trait_name for_type_name methods
      | _ \<Rightarrow> node)"

definition parser_parse_trait_declaration :: "nat \<Rightarrow> ASTNode parse \<Rightarrow> ASTNode parse" where
  "parser_parse_trait_declaration fuel stmt parser =
     (let location = parser_current_location parser
      in and_parse (require (Keyword TOKEN_TRAIT)) (\<lambda>_.
         and_parse (name_token (''Expected trait name after '' @ quoted ''trait'')) (\<lambda>trait_name.
         and_parse (member_block False ''Expected function signature in trait declaration''
                      ''Trait method declarations must not have a body'' fuel stmt) (\<lambda>methods.
           give (with_methods methods (ast_create_trait_declaration trait_name location))))) parser)"

definition parser_parse_impl_declaration :: "nat \<Rightarrow> ASTNode parse \<Rightarrow> ASTNode parse" where
  "parser_parse_impl_declaration fuel stmt parser =
     (let location = parser_current_location parser
      in and_parse (require (Keyword TOKEN_IMPL)) (\<lambda>_.
         and_parse (parser_parse_qualified_name fuel (''Expected trait name after '' @ quoted ''impl'')) (\<lambda>trait_name.
         and_parse (require_else (Keyword TOKEN_FOR) (''Expected '' @ quoted ''for'' @ '' after trait name in impl'')) (\<lambda>_.
         and_parse (type_or_error (''Expected type name after '' @ quoted ''for'' @ '' in impl'') fuel) (\<lambda>for_type_name.
         and_parse (member_block True ''Expected function declaration in impl block''
                      ''Impl method declarations must have a body'' fuel stmt) (\<lambda>methods.
           give (with_methods methods (ast_create_impl_declaration trait_name for_type_name location))))))) parser)"

section \<open>Declarations\<close>

definition has_body :: "ASTNode \<Rightarrow> bool" where
  "has_body node \<longleftrightarrow> (case node of FunctionDeclaration _ _ _ _ body _ _ _ _ \<Rightarrow> body \<noteq> None | _ \<Rightarrow> False)"

definition set_extern :: "ASTNode \<Rightarrow> ASTNode" where
  "set_extern node =
     (case node of FunctionDeclaration l name params return_type body is_exported _ link_name type_params \<Rightarrow>
        FunctionDeclaration l name params return_type body is_exported True link_name type_params | _ \<Rightarrow> node)"

definition set_exported :: "ASTNode \<Rightarrow> ASTNode" where
  "set_exported node =
     (case node of
        FunctionDeclaration l name params return_type body _ is_extern link_name type_params \<Rightarrow>
          FunctionDeclaration l name params return_type body True is_extern link_name type_params
      | StructDeclaration l name struct_fields methods _ type_params \<Rightarrow>
          StructDeclaration l name struct_fields methods True type_params
      | EnumDeclaration l name variants _ type_params \<Rightarrow> EnumDeclaration l name variants True type_params
      | TraitDeclaration l name _ methods \<Rightarrow> TraitDeclaration l name True methods
      | VarDeclaration l name type_name initializer is_extern _ link_name \<Rightarrow>
          VarDeclaration l name type_name initializer is_extern True link_name
      | _ \<Rightarrow> node)"

text \<open>What follows \<open>extern\<close>; the message is that of the token that is neither \<open>function\<close> nor \<open>var\<close>.\<close>

definition extern_declaration :: "string \<Rightarrow> nat \<Rightarrow> ASTNode parse \<Rightarrow> ASTNode parse" where
  "extern_declaration message fuel stmt parser =
     (if current_type parser = Keyword TOKEN_FUNCTION
      then and_parse (parser_parse_function_declaration fuel stmt) (\<lambda>decl parser.
             if has_body decl then null_error ''Extern functions must not have a body'' parser
             else give (set_extern decl) parser) parser
      else if current_type parser = Keyword TOKEN_VAR then parser_parse_extern_var_declaration fuel parser
      else null_error message parser)"

definition export_declaration :: "nat \<Rightarrow> ASTNode parse \<Rightarrow> ASTNode parse" where
  "export_declaration fuel stmt parser =
     and_parse
       (if current_type parser = Keyword TOKEN_FUNCTION then parser_parse_function_declaration fuel stmt
        else if current_type parser = Keyword TOKEN_STRUCT then parser_parse_struct_declaration fuel stmt
        else if current_type parser = Keyword TOKEN_ENUM then parser_parse_enum_declaration fuel
        else if current_type parser = Keyword TOKEN_TRAIT then parser_parse_trait_declaration fuel stmt
        else if current_type parser = Keyword TOKEN_VAR then parser_parse_var_declaration fuel
        else if current_type parser = Keyword TOKEN_EXTERN
        then \<lambda>parser. extern_declaration (''Expected '' @ quoted ''function'' @ '' or '' @ quoted ''var'' @ '' after '' @ quoted ''export extern'')
               fuel stmt (parser_advance parser)
        else null_error (''Expected '' @ quoted ''function'' @ '', '' @ quoted ''var'' @ '', '' @ quoted ''struct'' @ '', '' @ quoted ''enum'' @
               '', '' @ quoted ''trait'' @ '', or '' @ quoted ''extern'' @ '' after '' @ quoted ''export''))
       (\<lambda>decl. give (set_exported decl)) parser"

definition parser_parse_declaration :: "nat \<Rightarrow> ASTNode parse \<Rightarrow> ASTNode parse" where
  "parser_parse_declaration fuel stmt parser =
     (case current_type parser of
        Keyword k \<Rightarrow>
          (if k = TOKEN_IMPORT then parser_parse_import_declaration fuel
           else if k = TOKEN_EXTERN
           then \<lambda>parser. extern_declaration (''Expected '' @ quoted ''function'' @ '' or '' @ quoted ''var'' @ '' after '' @ quoted ''extern'')
                  fuel stmt (parser_advance parser)
           else if k = TOKEN_EXPORT then \<lambda>parser. export_declaration fuel stmt (parser_advance parser)
           else if k = TOKEN_VAR then parser_parse_var_declaration fuel
           else if k = TOKEN_DEFER \<or> k = TOKEN_ERRDEFER then parser_parse_defer_or_errdefer k stmt
           else if k = TOKEN_FUNCTION then parser_parse_function_declaration fuel stmt
           else if k = TOKEN_STRUCT then parser_parse_struct_declaration fuel stmt
           else if k = TOKEN_ENUM then parser_parse_enum_declaration fuel
           else if k = TOKEN_TRAIT then parser_parse_trait_declaration fuel stmt
           else if k = TOKEN_IMPL then parser_parse_impl_declaration fuel stmt
           else stmt) parser
      | _ \<Rightarrow> stmt parser)"

section \<open>Statements\<close>

definition with_label :: "string \<Rightarrow> ASTNode \<Rightarrow> ASTNode" where
  "with_label label node =
     (case node of
        WhileStatement l condition body _ \<Rightarrow> WhileStatement l condition body (Some label)
      | ForStatement l initializer condition increment body _ \<Rightarrow> ForStatement l initializer condition increment body (Some label)
      | _ \<Rightarrow> node)"

text \<open>A loop after its label. The colon is the look-ahead token, and the word after it is peeked at in the lexer.\<close>

definition labelled_loop :: "nat \<Rightarrow> ASTNode parse \<Rightarrow> ASTNode parse" where
  "labelled_loop fuel stmt parser =
     (let label = current_text parser; parser = parser_advance (parser_advance parser)
      in if current_type parser = Keyword TOKEN_WHILE
         then and_parse (parser_parse_while_statement fuel stmt) (\<lambda>loop. give (with_label label loop)) parser
         else if current_type parser = Keyword TOKEN_FOR
         then and_parse (parser_parse_for_statement fuel stmt) (\<lambda>loop. give (with_label label loop)) parser
         else give_null parser)"

definition parser_peek :: "Parser \<Rightarrow> TokenType \<times> Parser" where
  "parser_peek parser =
     (let (token, lexer) = lexer_peek_token (ps_lexer parser) in (tok_type token, parser\<lparr>ps_lexer := lexer\<rparr>))"

text \<open>The statements that their first token tells apart.\<close>

definition statement_kinds :: "nat \<Rightarrow> ASTNode parse \<Rightarrow> ASTNode parse" where
  "statement_kinds fuel stmt parser =
     (case current_type parser of
        Keyword k \<Rightarrow>
          (if k = TOKEN_EXTERN then parser_parse_declaration fuel stmt
           else if k = TOKEN_VAR then parser_parse_var_declaration fuel
           else if k = TOKEN_RETURN then parser_parse_return_statement fuel
           else if k = TOKEN_IF then parser_parse_if_statement fuel stmt
           else if k = TOKEN_WHILE then parser_parse_while_statement fuel stmt
           else if k = TOKEN_FOR then parser_parse_for_statement fuel stmt
           else if k = TOKEN_SWITCH then parser_parse_switch_statement fuel stmt
           else if k = TOKEN_MATCH then parser_parse_match_statement fuel stmt
           else if k = TOKEN_BREAK then parser_parse_break_statement
           else if k = TOKEN_CONTINUE then parser_parse_continue_statement
           else if k = TOKEN_DEFER \<or> k = TOKEN_ERRDEFER then parser_parse_defer_or_errdefer k stmt
           else if k = TOKEN_ASM then parser_parse_inline_asm fuel
           else expression_or_assignment fuel) parser
      | Punct c \<Rightarrow> (if c = TOKEN_LBRACE then parser_parse_block fuel stmt else expression_or_assignment fuel) parser
      | _ \<Rightarrow> expression_or_assignment fuel parser)"

fun parser_parse_statement :: "nat \<Rightarrow> ASTNode parse" where
  "parser_parse_statement 0 = (\<lambda>parser. None)"
| "parser_parse_statement (Suc fuel) = (\<lambda>parser.
     if current_type parser = TOKEN_IDENTIFIER \<and> peek_type parser = Punct TOKEN_COLON
     then let (after_colon, parser) = parser_peek parser
          in if after_colon = Keyword TOKEN_WHILE \<or> after_colon = Keyword TOKEN_FOR
             then labelled_loop fuel (parser_parse_statement fuel) parser
             else statement_kinds fuel (parser_parse_statement fuel) parser
     else statement_kinds fuel (parser_parse_statement fuel) parser)"

section \<open>The program\<close>

text \<open>What the loop over the declarations does after one: it complains about a declaration that is missing without
  an error, recovers from an error, and steps on if recovery has not moved the lexer.\<close>

definition after_declaration :: "nat \<Rightarrow> nat \<Rightarrow> ASTNode option \<Rightarrow> unit parse" where
  "after_declaration fuel token_pos_before declaration parser =
     (let parser = (if declaration = None \<and> \<not> ps_has_error parser
                    then parser_advance (parser_set_error ''Failed to parse declaration'' parser) else parser)
      in if \<not> ps_has_error parser then give () parser
         else and_parse (parser_recover_from_error fuel) (\<lambda>_ parser.
                give () (if current_type parser \<noteq> TOKEN_EOF \<and> lx_position (ps_lexer parser) = token_pos_before
                         then parser_advance parser else parser)) parser)"

fun program_loop :: "nat \<Rightarrow> ASTNode list \<Rightarrow> ASTNode list parse" where
  "program_loop 0 declarations = (\<lambda>parser. None)"
| "program_loop (Suc fuel) declarations = (\<lambda>parser.
     if current_type parser = TOKEN_EOF then give declarations parser
     else if current_type parser = Punct TOKEN_NEWLINE \<or> current_type parser = Punct TOKEN_SEMICOLON
     then program_loop fuel declarations (parser_advance parser)
     else let token_pos_before = lx_position (ps_lexer parser)
          in case parser_parse_declaration fuel (parser_parse_statement fuel) parser of
               None \<Rightarrow> None
             | Some (declaration, parser) \<Rightarrow>
                 and_parse (after_declaration fuel token_pos_before declaration)
                   (\<lambda>_. program_loop fuel (declarations @ (case declaration of None \<Rightarrow> [] | Some d \<Rightarrow> [d]))) parser)"

definition parser_parse_program :: "nat \<Rightarrow> ASTNode parse" where
  "parser_parse_program fuel = and_parse (program_loop fuel []) (\<lambda>declarations. give (ast_create_program declarations))"

end
