(* ===== verification/Decl_Fuel.thy ===== *)
theory Decl_Fuel
  imports Parser_Fuel Parser_Stmt
begin

text \<open>
  The parsers of declarations that contain no statements always return. A lemma about a function whose result costs at
  least one token is stated for any strictness.
\<close>

section \<open>Ends of statements, recovery and names\<close>

lemma nearer_statement_end: "parser_ok p \<Longrightarrow> nearer p (snd (parser_expect_statement_end p))"
  by (simp add: parser_expect_statement_end_def nearer_advance)

lemma returns_give_end [simp]: "returns False (give x (snd (parser_expect_statement_end p))) p"
  by (rule returns_later [OF nearer_statement_end]) auto

lemma returns_if: "(c \<Longrightarrow> returns s a p) \<Longrightarrow> (\<not> c \<Longrightarrow> returns s b p) \<Longrightarrow> returns s (if c then a else b) p"
  by simp

text \<open>A list goes on after its separator.\<close>

lemma returns_separated:
  assumes "left_over (parser_advance p) \<le> left_over p \<Longrightarrow> returns False out (parser_advance p)"
  shows "returns False (if current_type p \<noteq> ty then give x p else out) p"
    "returns False b p \<Longrightarrow> returns False (if current_type p = ty then out else b) p"
  using assms by (auto intro: returns_advance)

lemma require_end_returns [simp]: "returns s (require_end p) p"
proof (cases "current_type p = Punct TOKEN_SEMICOLON \<or> current_type p = Punct TOKEN_NEWLINE")
  case True
  then have "current_type p \<noteq> TOKEN_EOF" by auto
  then have "returns s (give () (parser_advance p)) p" by (rule returns_give_consume)
  then show ?thesis using True by (simp add: require_end_def parser_expect_statement_end_def)
next
  case False
  have "returns s (give_null (parser_set_error m p)) p" for m :: string
    by (rule returns_later [OF nearer_set_error [of p m]]) simp_all
  then show ?thesis using False by (simp add: require_end_def parser_expect_statement_end_def)
qed

lemma synchronize_returns: "left_over p < fuel \<Longrightarrow> returns False (parser_synchronize fuel p) p"
proof (induction fuel arbitrary: p)
  case (Suc fuel)
  consider "current_type p = TOKEN_EOF" | "current_type p \<noteq> TOKEN_EOF" "resumes (current_type p)"
    | "current_type p = Punct TOKEN_SEMICOLON \<or> current_type p = Punct TOKEN_NEWLINE"
    | "current_type p \<notin> {TOKEN_EOF, Punct TOKEN_SEMICOLON, Punct TOKEN_NEWLINE}" "\<not> resumes (current_type p)" by blast
  then show ?case
  proof cases
    case 4
    then show ?thesis using Suc by (simp, intro returns_consume [of p]) auto
  qed (auto intro: returns_give)
qed simp

lemma skip_newlines_returns: "left_over p < fuel \<Longrightarrow> returns False (skip_newlines fuel p) p"
proof (induction fuel arbitrary: p)
  case (Suc fuel)
  show ?case
  proof (cases "current_type p = Punct TOKEN_NEWLINE")
    case True
    then show ?thesis using Suc by (simp, intro returns_consume [of p]) auto
  qed auto
qed simp

lemma name_token_returns [simp]: "returns s (name_token m p) p"
  by (auto simp: name_token_def parser_is_identifier_like_def intro: returns_give_consume)

lemma string_token_returns [simp]: "returns s (string_token m p) p"
  by (auto simp: string_token_def intro: returns_give_consume)

lemma qualified_name_returns:
  assumes "left_over p \<le> fuel"
  shows "returns s (parser_parse_qualified_name fuel m p) p"
proof (cases "names_type (current_type p)")
  case True
  then have "current_type p \<noteq> TOKEN_EOF" by auto
  then show ?thesis using True assms unfolding parser_parse_qualified_name_def
    by (simp, intro returns_consume [of p] dotted_name_returns) auto
qed (simp add: parser_parse_qualified_name_def)

lemma type_error_returns:
  assumes "16 * left_over p + 3 \<le> fuel"
  shows "returns s (type_or_error m fuel p) p" "returns s (type_and_error m fuel p) p"
  unfolding type_or_error_def type_and_error_def
  by (rule returns_cases_first [OF type_returns [OF assms]], auto)+

lemma if_token_returns:
  assumes "TOKEN_EOF \<notin> set tys" "\<And>q. left_over q < left_over p \<Longrightarrow> returns False (m q) q"
  shows "returns False (if_token tys m p) p"
proof (cases "current_type p \<in> set tys")
  case True
  then have "current_type p \<noteq> TOKEN_EOF" using assms(1) by auto
  then show ?thesis using True assms(2) unfolding if_token_def
    by (simp, intro returns_consume [of p] returns_and_parse [where sa = False]) (auto intro: returns_give)
qed (auto simp: if_token_def)

lemma parse_expression_returns: "16 * left_over p + 6 \<le> fuel \<Longrightarrow> returns s (parser_parse_expression fuel p) p"
  unfolding parser_parse_expression_def by (rule returns_weaken(1), rule back_expression [OF exprs_return])

lemmas token_returns = returns_require require_end_returns name_token_returns string_token_returns qualified_name_returns
  type_error_returns parse_expression_returns if_token_returns

text \<open>What follows a phrase only has to return.\<close>

lemmas then_returns = returns_and_parse [where sa = False] returns_give token_returns

section \<open>Assignments\<close>

lemma assignment_returns:
  assumes "16 * left_over p + 6 \<le> fuel"
  shows "returns False (parser_parse_assignment_from_target fuel target p) p"
proof (cases "parser_is_assignment_target target")
  case True
  show ?thesis unfolding parser_parse_assignment_from_target_def Let_def using True
    by (simp, intro returns_advance [of p] then_returns) (use assms in auto)
qed (simp add: parser_parse_assignment_from_target_def)

lemma expression_or_assignment_returns:
  assumes "16 * left_over p + 6 \<le> fuel"
  shows "returns s (expression_or_assignment fuel p) p"
  unfolding expression_or_assignment_def
  by (rule returns_and_parse_first, rule parse_expression_returns [OF assms])
    (use assms assignment_returns in \<open>auto intro: returns_give\<close>)

section \<open>Type parameters\<close>

lemma bound_list_returns: "left_over p < fuel \<Longrightarrow> returns s (parser_parse_bound_list fuel b p) p"
proof (induction fuel arbitrary: s b p)
  case (Suc fuel)
  show ?case unfolding parser_parse_bound_list.simps Let_def
  proof (rule returns_and_parse_first, rule qualified_name_returns, use Suc.prems in simp, goal_cases)
    case (1 x q)
    then show ?case using Suc.prems by (intro returns_separated(1) Suc.IH) simp
  qed
qed simp

lemma where_clauses_return: "left_over p < fuel \<Longrightarrow> returns s (where_clauses fuel tps p) p"
proof (induction fuel arbitrary: s tps p)
  case (Suc fuel)
  have next_clause: "returns False (let tps' = f b in if current_type q \<noteq> Punct TOKEN_COMMA then give tps' q
      else where_clauses fuel tps' (parser_advance q)) q" if "left_over q < left_over p" for f :: "string \<Rightarrow> type_parameters" and b q
    using Suc.prems that unfolding Let_def by (intro returns_separated(1) Suc.IH) simp
  have "returns False ((case i of None \<Rightarrow> null_error m | Some i \<Rightarrow> and_parse (require (Punct TOKEN_COLON)) (\<lambda>_.
      and_parse (parser_parse_bound_list fuel (snd (tps ! i))) (\<lambda>b q. let tps' = f i b in
        if current_type q \<noteq> Punct TOKEN_COMMA then give tps' q else where_clauses fuel tps' (parser_advance q)))) q) q"
    if "left_over q < left_over p" for i m f q
    using Suc.prems that by (cases i) (auto intro!: returns_and_parse [where sa = False] bound_list_returns next_clause)
  then show ?case unfolding where_clauses.simps by (intro returns_and_parse_first name_token_returns) auto
qed simp

lemma where_clause_returns:
  assumes "left_over p \<le> fuel"
  shows "returns False (parser_parse_where_clause fuel tps p) p"
proof (cases "current_type p = Keyword TOKEN_WHERE")
  case True
  show ?thesis
    by (rule returns_consume) (use True assms in \<open>simp_all add: parser_parse_where_clause_def where_clauses_return\<close>)
qed (auto simp: parser_parse_where_clause_def)

lemma type_param_loop_returns: "left_over p < fuel \<Longrightarrow> returns False (type_param_loop fuel tps p) p"
proof (induction fuel arbitrary: tps p)
  case (Suc fuel)
  have bounded: "returns False (if_token [Punct TOKEN_COLON] (parser_parse_bound_list fuel None) q) q" if "left_over q < left_over p" for q
    using Suc.prems that by (intro if_token_returns bound_list_returns) auto
  have tail: "returns False (if current_type q = Punct TOKEN_COMMA then type_param_loop fuel t (parser_advance q)
      else if current_type q \<noteq> Punct TOKEN_GREATER_THAN then null_error m q else type_param_loop fuel t q) q"
    if "left_over q < left_over p" for q t m
    using Suc.prems that by (intro returns_separated(2) returns_if Suc.IH) auto
  show ?case unfolding type_param_loop.simps
    by (intro returns_if returns_give, rule returns_and_parse_first, simp)
      (rule returns_and_parse [where sa = False], rule bounded, simp, rule tail, simp)
qed simp

lemma type_param_list_returns:
  assumes "left_over p \<le> fuel"
  shows "returns False (parser_parse_type_param_list fuel p) p"
proof (cases "current_type p = Punct TOKEN_LESS_THAN")
  case True
  show ?thesis unfolding parser_parse_type_param_list_def using True
    by (simp, intro returns_consume [of p] then_returns type_param_loop_returns) (use assms in auto)
qed (auto simp: parser_parse_type_param_list_def)

lemma type_params_of_returns: "left_over p \<le> fuel \<Longrightarrow> returns False (type_params_of fuel p) p"
  unfolding type_params_of_def by (intro then_returns type_param_list_returns returns_if) auto

section \<open>Imports and variables\<close>

lemma import_names_return: "left_over p < fuel \<Longrightarrow> returns False (import_names fuel names p) p"
proof (induction fuel arbitrary: names p)
  case (Suc fuel)
  then show ?case unfolding import_names.simps
    by (intro returns_if returns_and_parse_first name_token_returns returns_separated(2)) (auto intro: returns_give)
qed simp

lemma import_returns:
  assumes "current_type p \<noteq> TOKEN_EOF" "left_over p \<le> fuel"
  shows "returns s (parser_parse_import_declaration fuel p) p"
proof -
  let ?a = "parser_advance p" and ?l = "parser_current_location p"
  have from_module: "returns False (if \<not> is_word w (parser_advance q) then null_error m (parser_advance q)
      else and_parse (string_token m') (\<lambda>module. and_parse require_end (\<lambda>_. give (f module))) (parser_advance (parser_advance q))) q"
    for w m m' q and f :: "string \<Rightarrow> ASTNode"
    by (rule returns_advance, intro returns_if returns_null_error, rule returns_advance, intro then_returns)
  have renamed: "returns False ((if b then \<lambda>q. and_parse (name_token m) (\<lambda>alias. give (Some alias)) (parser_advance q) else give None) q) q"
    for b m q
    by (cases b) (simp_all, rule returns_advance, intro then_returns, auto)
  have listed: "returns False (and_parse (import_names fuel []) (\<lambda>selected q. if current_type q \<noteq> Punct TOKEN_RBRACE then null_error m q
      else if \<not> is_word w (parser_advance q) then null_error m' (parser_advance q)
      else and_parse (string_token m'') (\<lambda>module. and_parse require_end (\<lambda>_. give (f module selected)))
             (parser_advance (parser_advance q))) (parser_advance ?a)) ?a"
    if "left_over ?a < left_over p" for m m' m'' w and f :: "string \<Rightarrow> string list \<Rightarrow> ASTNode"
    by (rule returns_advance, intro then_returns import_names_return returns_if returns_null_error from_module) (use assms that in auto)
  show ?thesis unfolding parser_parse_import_declaration_def Let_def
    by (rule returns_consume [OF assms(1)], intro returns_if listed) (auto intro!: then_returns renamed)
qed

lemma var_declaration_returns:
  assumes "16 * left_over p \<le> fuel"
  shows "returns s (parser_parse_var_declaration fuel p) p"
  unfolding parser_parse_var_declaration_def Let_def
  by (rule returns_and_parse_first, simp) (intro then_returns returns_if returns_null_error returns_give_end, use assms in auto)

lemma extern_var_returns:
  assumes "16 * left_over p \<le> fuel"
  shows "returns s (parser_parse_extern_var_declaration fuel p) p"
proof -
  have "returns False (and_parse (type_and_error m fuel) (\<lambda>ty. and_parse (if_token [Punct TOKEN_EQUALS] (string_token m'))
      (\<lambda>link. and_parse require_end (\<lambda>_. give (f ty link)))) (parser_advance q)) q"
    if "left_over q < left_over p" for q m m' and f :: "string \<Rightarrow> string option \<Rightarrow> ASTNode"
    by (rule returns_advance, intro then_returns) (use assms that in auto)
  then show ?thesis unfolding parser_parse_extern_var_declaration_def Let_def
    by (intro returns_and_parse_first, simp) (intro then_returns returns_if returns_null_error, auto)
qed

section \<open>Parameters and enumerations\<close>

lemma parameter_loop_returns: "16 * left_over p + 1 \<le> fuel \<Longrightarrow> returns False (parameter_loop fuel ps p) p"
proof (induction fuel arbitrary: ps p)
  case (Suc fuel)
  then show ?case unfolding parameter_loop.simps Let_def
    by (intro returns_and_parse_first [OF name_token_returns])
      (intro then_returns returns_separated(2) returns_if returns_null_error, auto)
qed simp

lemma parameter_list_returns: "16 * left_over p + 1 \<le> fuel \<Longrightarrow> returns False (parser_parse_parameter_list fuel p) p"
  unfolding parser_parse_parameter_list_def by (intro returns_if parameter_loop_returns returns_give)

lemma enum_params_return: "left_over p < fuel \<Longrightarrow> returns False (enum_params fuel tps p) p"
proof (induction fuel arbitrary: tps p)
  case (Suc fuel)
  have on: "returns False (enum_params fuel t (parser_advance p)) p" if "current_type p \<noteq> TOKEN_EOF" for t
    by (rule returns_consume [OF that]) (use Suc in auto)
  have bad: "returns False (give t (parser_set_error m p)) p" for t :: "string list" and m
    by (rule returns_later [OF nearer_set_error [of p m]]) auto
  show ?case unfolding enum_params.simps by (intro returns_if returns_give on bad) auto
qed simp

lemma enum_type_params_return:
  assumes "left_over p \<le> fuel"
  shows "returns False (enum_type_params fuel p) p"
proof (cases "current_type p = Punct TOKEN_LESS_THAN")
  case True
  show ?thesis unfolding enum_type_params_def using True
    by (simp, intro returns_consume [of p] then_returns returns_if enum_params_return) (use assms in auto)
qed (auto simp: enum_type_params_def)

lemma variant_payload_returns:
  assumes "16 * left_over p + 3 \<le> fuel"
  shows "returns False (variant_payload fuel p) p"
  unfolding variant_payload_def by (intro returns_if returns_null_error then_returns) (use assms in auto)

lemma variant_value_returns:
  assumes "16 * left_over p + 6 \<le> fuel"
  shows "returns False (variant_value fuel p) p"
  unfolding variant_value_def by (intro returns_cases [OF parse_expression_returns [OF assms]]) auto

lemma enum_variant_returns:
  assumes "16 * left_over p \<le> fuel"
  shows "returns s (enum_variant fuel p) p"
  unfolding enum_variant_def
  by (rule returns_and_parse_first, simp)
    (intro then_returns variant_payload_returns variant_value_returns, use assms in auto)

lemma enum_variants_return: "16 * left_over p + 1 \<le> fuel \<Longrightarrow> returns False (enum_variants fuel vs p) p"
proof (induction fuel arbitrary: vs p)
  case (Suc fuel)
  have on: "returns False (enum_variants fuel v (parser_advance p)) p" if "current_type p \<noteq> TOKEN_EOF" for v
    by (rule returns_consume [OF that]) (use Suc in auto)
  have tail: "returns False (enum_variants fuel v (if b then parser_advance q else q)) q" if "left_over q < left_over p" for v b q
    using Suc that by (cases b) (auto intro: returns_advance)
  have "returns False (case enum_variant fuel p of None \<Rightarrow> None | Some (None, q) \<Rightarrow> give vs q
     | Some (Some v, q) \<Rightarrow> enum_variants fuel (vs @ [v])
        (if current_type q = Punct TOKEN_COMMA \<or> current_type q = Punct TOKEN_NEWLINE then parser_advance q else q)) p"
    by (rule returns_cases [where sa = True], rule enum_variant_returns) (use Suc.prems in simp, rule returns_give, rule tail, simp)
  then show ?case unfolding enum_variants.simps by (intro returns_if returns_give on) auto
qed simp

lemma enum_returns:
  assumes "16 * left_over p \<le> fuel"
  shows "returns s (parser_parse_enum_declaration fuel p) p"
  unfolding parser_parse_enum_declaration_def Let_def
  by (rule returns_and_parse_first, simp)
    (intro then_returns enum_type_params_return enum_variants_return returns_if returns_give_null, use assms in auto)

section \<open>Inline assembly and jumps\<close>

lemma asm_loop_returns: "left_over p < fuel \<Longrightarrow> returns False (asm_loop fuel code line p) p"
proof (induction fuel arbitrary: code line p)
  case (Suc fuel)
  have "returns False (asm_loop fuel c k (parser_advance p)) p" if "current_type p \<noteq> TOKEN_EOF" for c k
    by (rule returns_consume [OF that]) (use Suc in auto)
  then show ?case unfolding asm_loop.simps by (intro returns_if returns_give) auto
qed simp

lemma inline_asm_returns:
  assumes "left_over p \<le> fuel"
  shows "returns s (parser_parse_inline_asm fuel p) p"
  unfolding parser_parse_inline_asm_def Let_def
  by (rule returns_and_parse_first, simp) (intro then_returns asm_loop_returns, use assms in auto)

text \<open>A \<open>return\<close> costs its keyword, whatever its value.\<close>

lemma return_returns:
  assumes "current_type p \<noteq> TOKEN_EOF" "16 * left_over p \<le> fuel"
  shows "returns s (parser_parse_return_statement fuel p) p"
proof -
  let ?a = "parser_advance p"
  have "returns False (case parser_parse_expression fuel ?a of None \<Rightarrow> None | Some (v, q) \<Rightarrow> give (f v) q) ?a"
    if "left_over ?a < left_over p" for f :: "ASTNode option \<Rightarrow> ASTNode"
    using parse_expression_returns [of ?a fuel False] assms that by (auto simp: returns_def give_def)
  then show ?thesis unfolding parser_parse_return_statement_def Let_def
    by (intro returns_consume [OF assms(1)] returns_if returns_give)
qed

lemma jump_returns: "returns s (parser_parse_break_or_continue k p) p"
proof -
  have "returns False (give x (snd (parser_expect_statement_end (parser_advance q)))) q" for x :: ASTNode and q
    by (rule returns_advance) simp
  then have "returns False (let (label, q) = (if b then (l, parser_advance q) else (None, q))
      in give (f label) (snd (parser_expect_statement_end q))) q" for b l q and f :: "string option \<Rightarrow> ASTNode" by simp
  then show ?thesis unfolding parser_parse_break_or_continue_def Let_def
    by (intro returns_and_parse_first returns_require) auto
qed

end
