(* ===== verification/Program_Parser.thy ===== *)
theory Program_Parser
  imports Decl_Fuel
begin

text \<open>
  The parser of programs always returns, for every source text. The parsers of compound statements and declarations are
  treated relative to a parser of statements that returns whenever less than a given amount is left to read; the
  parser of statements is one for every amount that its fuel allows.
\<close>

section \<open>Around a parser of statements\<close>

lemma returns_give_reported: "returns False (give x (if b then q else parser_set_error m q)) q"
  by (rule returns_later [where p' = "if b then q else parser_set_error m q"]) (auto simp: nearer_refl)

lemma returns_all:
  assumes "returns False out p" "\<And>x q. returns False (f x q) q"
  shows "returns False (case out of None \<Rightarrow> None | Some (x, q) \<Rightarrow> f x q) p"
  unfolding returns_def
proof
  assume ok: "parser_ok p"
  with assms(1) obtain r q where q: "out = Some (r, q)" "nearer p q" unfolding returns_def by blast
  with assms(2) [of r q] nearerD(1) [OF q(2)] nearer_trans [OF q(2)]
  show "\<exists>r' q'. (case out of None \<Rightarrow> None | Some (x, q) \<Rightarrow> f x q) = Some (r', q') \<and> nearer p q' \<and>
      (False \<longrightarrow> r' \<noteq> None \<longrightarrow> left_over q' < left_over p)"
    unfolding returns_def by fastforce
qed

lemma condition_returns:
  assumes "16 * left_over p \<le> fuel"
  shows "returns s (condition_in m m' fuel p) p"
  unfolding condition_in_def
  by (rule returns_and_parse_first, simp) (intro then_returns, use assms in auto)

lemma for_initializer_returns:
  assumes "16 * left_over p + 6 \<le> fuel"
  shows "returns False (for_initializer fuel p) p"
proof -
  have "returns False (parser_parse_for_initializer fuel p) p" unfolding parser_parse_for_initializer_def
    by (intro returns_if returns_give_null var_declaration_returns expression_or_assignment_returns) (use assms in auto)
  moreover have "returns False (if ps_has_error q then give_null q
      else if current_type q = Punct TOKEN_SEMICOLON then give x (parser_advance q)
      else if \<not> is_var_declaration x then null_error m q else give x q) q" for x q m
    by (intro returns_if returns_give_null returns_give_advance returns_null_error returns_give)
  ultimately show ?thesis unfolding for_initializer_def
    by (intro returns_all)
qed

lemma switch_case_head_returns:
  assumes "16 * left_over p \<le> fuel"
  shows "returns s (switch_case_head fuel seen p) p"
proof -
  have "returns s (case parser_parse_expression fuel (parser_advance p) of None \<Rightarrow> None | Some (None, q) \<Rightarrow> null_error m q
      | Some (Some v, q) \<Rightarrow> give (Some v, False) q) p" if "current_type p \<noteq> TOKEN_EOF" for m
    by (rule returns_consume [OF that], intro returns_cases [OF parse_expression_returns [where s = False]]) (use assms in auto)
  then show ?thesis unfolding switch_case_head_def by (intro returns_if returns_null_error returns_give_consume) auto
qed

lemma signature_returns:
  assumes "16 * left_over p \<le> fuel"
  shows "returns s (signature fuel p) p"
  unfolding signature_def
  by (rule returns_and_parse_first, simp) (intro then_returns parameter_list_returns, use assms in auto)

locale statement_parser =
  fixes stmt :: "ASTNode parse" and room :: nat
  assumes statement_returns: "left_over p < room \<Longrightarrow> returns s (stmt p) p"
begin

lemma block_loop_returns: "left_over p < room \<Longrightarrow> left_over p < fuel \<Longrightarrow> returns False (block_loop fuel stmt ss p) p"
proof (induction fuel arbitrary: ss p)
  case (Suc fuel)
  have on: "returns False (block_loop fuel stmt v (parser_advance p)) p" if "current_type p \<noteq> TOKEN_EOF" for v
    by (rule returns_consume [OF that]) (use Suc in auto)
  have tail: "returns False (block_loop fuel stmt v (if b then snd (parser_expect_statement_end q) else q)) q"
    if "left_over q < left_over p" for v b q
    by (rule returns_later [where p' = "if b then snd (parser_expect_statement_end q) else q"])
      (use nearerD(2) [OF nearer_statement_end [of q]] Suc that in \<open>auto intro: nearer_statement_end nearer_refl\<close>)
  show ?case unfolding block_loop.simps
    by (intro returns_if returns_give on returns_cases [OF statement_returns [where s = True]] returns_give_reported tail)
      (use Suc.prems in auto)
qed simp

lemma block_returns:
  assumes "left_over p \<le> room" "left_over p \<le> fuel"
  shows "returns s (parser_parse_block fuel stmt p) p"
  unfolding parser_parse_block_def
  by (rule returns_and_parse_first, simp) (intro then_returns block_loop_returns, use assms in auto)

lemma branch_returns: "left_over p < room \<Longrightarrow> left_over p \<le> fuel \<Longrightarrow> returns s (branch fuel stmt p) p"
  unfolding branch_def by (simp add: block_returns statement_returns)

lemma else_loop_returns: "left_over p < room \<Longrightarrow> 16 * left_over p + 1 \<le> fuel \<Longrightarrow> returns False (else_loop fuel stmt es p) p"
proof (induction fuel arbitrary: es p)
  case (Suc fuel)
  let ?a = "parser_advance p"
  have elif: "returns False (and_parse (condition_in m m' fuel) (\<lambda>c. and_parse (branch fuel stmt) (\<lambda>b.
      and_parse (skip_newlines fuel) (\<lambda>_. else_loop fuel stmt (f c b)))) (parser_advance ?a)) ?a"
    if "left_over ?a < left_over p" for m m' f
    by (rule returns_advance, intro returns_and_parse [where sa = False] condition_returns branch_returns
        skip_newlines_returns Suc.IH) (use Suc.prems that in auto)
  have last: "returns False (and_parse (branch fuel stmt) (\<lambda>b. give (f b)) ?a) ?a" if "left_over ?a < left_over p"
    for f :: "ASTNode \<Rightarrow> (ASTNode \<times> ASTNode) list \<times> ASTNode option"
    using Suc.prems that by (intro then_returns branch_returns) auto
  show ?case unfolding else_loop.simps
    by (rule returns_if, rule returns_give) (rule returns_consume, simp, intro returns_if elif last)
qed simp

lemma if_returns:
  assumes "left_over p \<le> room" "16 * left_over p \<le> fuel"
  shows "returns s (parser_parse_if_statement fuel stmt p) p"
  unfolding parser_parse_if_statement_def Let_def split_def
  by (rule returns_and_parse_first, simp)
    (intro then_returns condition_returns branch_returns skip_newlines_returns else_loop_returns, use assms in auto)

lemma while_returns:
  assumes "left_over p \<le> room" "16 * left_over p \<le> fuel"
  shows "returns s (parser_parse_while_statement fuel stmt p) p"
  unfolding parser_parse_while_statement_def Let_def
  by (rule returns_and_parse_first, simp) (intro then_returns condition_returns branch_returns, use assms in auto)

lemma for_returns:
  assumes "left_over p \<le> room" "16 * left_over p \<le> fuel"
  shows "returns s (parser_parse_for_statement fuel stmt p) p"
  unfolding parser_parse_for_statement_def Let_def
  by (rule returns_and_parse_first, simp)
    (intro then_returns returns_if for_initializer_returns expression_or_assignment_returns branch_returns, use assms in auto)

lemma case_body_returns: "left_over p < room \<Longrightarrow> left_over p < fuel \<Longrightarrow> returns False (case_body fuel stmt ss p) p"
proof (induction fuel arbitrary: ss p)
  case (Suc fuel)
  have on: "returns False (case_body fuel stmt v (parser_advance p)) p" if "current_type p \<noteq> TOKEN_EOF" for v
    by (rule returns_consume [OF that]) (use Suc in auto)
  show ?case unfolding case_body.simps
    by (intro returns_if returns_give on returns_and_parse [where sa = True] statement_returns Suc.IH) (use Suc.prems in auto)
qed simp

lemma switch_cases_return: "left_over p < room \<Longrightarrow> 16 * left_over p + 2 \<le> fuel \<Longrightarrow> returns False (switch_cases fuel stmt cs seen p) p"
proof (induction fuel arbitrary: cs seen p)
  case (Suc fuel)
  have body: "returns False (case parser_expect (Punct TOKEN_COLON) q of (False, q) \<Rightarrow> give cs q
      | (True, q) \<Rightarrow> and_parse (case_body fuel stmt []) (\<lambda>ss. switch_cases fuel stmt (f ss) b) q) q"
    if "left_over q < left_over p" for q f b
  proof (cases "current_type q = Punct TOKEN_COLON")
    case True
    show ?thesis using True
      by (simp add: parser_expect_def, intro returns_advance [of q] returns_and_parse [where sa = False] case_body_returns Suc.IH)
        (use Suc.prems that in auto)
  next
    case False
    have "returns False (give cs (parser_set_error m q)) q" for m
      using returns_give_reported [of cs False q m] by simp
    then show ?thesis using False by (simp add: parser_expect_def)
  qed
  have one: "returns False (case switch_case_head fuel seen q of None \<Rightarrow> None | Some (None, q) \<Rightarrow> give cs q
      | Some (Some (v, d), q) \<Rightarrow> (case parser_expect (Punct TOKEN_COLON) q of (False, q) \<Rightarrow> give cs q
          | (True, q) \<Rightarrow> and_parse (case_body fuel stmt []) (\<lambda>ss. switch_cases fuel stmt (f v d ss) (seen \<or> d)) q)) q"
    if "left_over q \<le> left_over p" for q f
    by (rule returns_cases [OF switch_case_head_returns [where s = True]], use Suc.prems that in simp, rule returns_give)
      (clarsimp, rule body, use that in simp)
  show ?case unfolding switch_cases.simps Let_def
    by (intro returns_if returns_give returns_and_parse [where sa = False] skip_separators_returns one) (use Suc.prems in auto)
qed simp

lemma switch_returns:
  assumes "left_over p \<le> room" "16 * left_over p \<le> fuel"
  shows "returns s (parser_parse_switch_statement fuel stmt p) p"
  unfolding parser_parse_switch_statement_def Let_def
  by (rule returns_and_parse_first, simp) (intro then_returns switch_cases_return, use assms in auto)

lemma match_blocks_return: "left_over p < room \<Longrightarrow> 16 * left_over p + 2 \<le> fuel \<Longrightarrow> returns False (match_blocks fuel stmt as seen p) p"
proof (induction fuel arbitrary: as seen p)
  case (Suc fuel)
  have body: "returns False (case parser_expect (Punct TOKEN_COLON) q of (False, q) \<Rightarrow> give as q
      | (True, q) \<Rightarrow> (case parser_parse_block fuel stmt q of None \<Rightarrow> None
          | Some (None, q) \<Rightarrow> give as (if ps_has_error q then q else parser_set_error m q)
          | Some (Some body, q) \<Rightarrow> and_parse (skip_separators fuel) (\<lambda>_. match_blocks fuel stmt (f body) b) q)) q"
    if "left_over q < left_over p" for q f b m
  proof (cases "current_type q = Punct TOKEN_COLON")
    case True
    show ?thesis using True
      by (simp add: parser_expect_def, intro returns_advance [of q] returns_cases [OF block_returns [where s = False]]
          returns_give_reported returns_and_parse [where sa = False] skip_separators_returns Suc.IH)
        (use Suc.prems that in auto)
  next
    case False
    have "returns False (give as (parser_set_error m q)) q" for m
      using returns_give_reported [of as False q m] by simp
    then show ?thesis using False by (simp add: parser_expect_def)
  qed
  have one: "returns False (case match_arm_head seen q of None \<Rightarrow> None | Some (None, q) \<Rightarrow> give as q
      | Some (Some (v, n, d), q) \<Rightarrow> (case parser_expect (Punct TOKEN_COLON) q of (False, q) \<Rightarrow> give as q
      | (True, q) \<Rightarrow> (case parser_parse_block fuel stmt q of None \<Rightarrow> None
          | Some (None, q) \<Rightarrow> give as (if ps_has_error q then q else parser_set_error m q)
          | Some (Some body, q) \<Rightarrow> and_parse (skip_separators fuel) (\<lambda>_. match_blocks fuel stmt (f v n d body) (seen \<or> d)) q))) q"
    if "left_over q \<le> left_over p" for q f m
    by (rule returns_cases [OF match_arm_head_returns], rule returns_give) (clarsimp, rule body, use that in simp)
  show ?case unfolding match_blocks.simps
    by (intro returns_if returns_give returns_and_parse [where sa = False] skip_separators_returns one) (use Suc.prems in auto)
qed simp

lemma match_statement_returns:
  assumes "left_over p \<le> room" "16 * left_over p \<le> fuel"
  shows "returns s (parser_parse_match_statement fuel stmt p) p"
  unfolding parser_parse_match_statement_def Let_def
  by (rule returns_and_parse_first, simp)
    (intro then_returns match_blocks_return returns_if returns_give_null, use assms in auto)

lemma defer_returns:
  assumes "left_over p \<le> room"
  shows "returns s (parser_parse_defer_or_errdefer k stmt p) p"
proof -
  have "returns False (case stmt q of None \<Rightarrow> None | Some (None, q) \<Rightarrow> if ps_has_error q then give_null q else null_error m q
      | Some (Some x, q) \<Rightarrow> give (f x) (snd (parser_expect_statement_end q))) q"
    if "left_over q < left_over p" for q m and f :: "ASTNode \<Rightarrow> ASTNode"
    by (rule returns_cases [OF statement_returns [where s = False]]) (use assms that in auto)
  then show ?thesis unfolding parser_parse_defer_or_errdefer_def Let_def
    by (intro returns_and_parse_first, simp) (intro returns_if returns_null_error)
qed

section \<open>Functions and structs\<close>

lemma body_block_returns:
  assumes "left_over p \<le> room" "left_over p \<le> fuel"
  shows "returns False (body_block fuel stmt p) p"
  unfolding body_block_def
  by (rule returns_all, rule block_returns [OF assms]) (intro returns_if returns_give_null returns_give)

lemma function_body_returns:
  assumes "left_over p \<le> room" "left_over p \<le> fuel"
  shows "returns False (function_body fuel stmt p) p"
  unfolding function_body_def
  by (intro returns_if returns_give_end returns_null_error body_block_returns assms)

lemma function_returns:
  assumes "left_over p \<le> room" "16 * left_over p \<le> fuel"
  shows "returns s (parser_parse_function_declaration fuel stmt p) p"
  unfolding parser_parse_function_declaration_def Let_def split_def
  by (rule returns_if, rule returns_null_error, rule returns_consume, force)
    (intro then_returns type_params_of_returns signature_returns where_clause_returns function_body_returns, use assms in auto)

text \<open>A method takes its keyword off even if it gives NULL.\<close>

lemma method_returns:
  assumes "current_type p = Keyword TOKEN_METHOD" "left_over (parser_advance p) < room" "16 * left_over (parser_advance p) \<le> fuel"
  shows "returns False (parser_parse_method_declaration fuel stmt p) (parser_advance p)"
proof -
  have "parser_parse_method_declaration fuel stmt p = and_parse (name_token (''Expected method name after '' @ quoted ''method'')) (\<lambda>method_name.
         and_parse (signature fuel) (\<lambda>(params, return_type) parser.
           if current_type parser \<noteq> Punct TOKEN_LBRACE then null_error (''Expected method body ('' @ quoted ''{'' @ '')'') parser
           else and_parse (body_block fuel stmt) (\<lambda>body.
                  give (MethodDeclaration (parser_current_location p) method_name params return_type body)) parser)) (parser_advance p)"
    using assms(1) by (simp add: parser_parse_method_declaration_def and_parse_def require_def parser_expect_def give_def)
  then show ?thesis
    by (simp only: split_def)
      (intro then_returns signature_returns returns_if returns_null_error body_block_returns, use assms in auto)
qed

lemma struct_members_return: "left_over p < room \<Longrightarrow> 16 * left_over p + 1 \<le> fuel \<Longrightarrow> returns False (struct_members fuel stmt ms p) p"
proof (induction fuel arbitrary: ms p)
  case (Suc fuel)
  let ?a = "parser_advance p"
  have on: "returns False (struct_members fuel stmt v ?a) p" if "current_type p \<noteq> TOKEN_EOF" for v
    by (rule returns_consume [OF that]) (use Suc in auto)
  have go: "returns False (struct_members fuel stmt v q) q" if "left_over q < left_over p" for v q
    using Suc that by simp
  have has_method: "returns False (case parser_parse_method_declaration fuel stmt p of None \<Rightarrow> None
      | Some (None, q) \<Rightarrow> if ps_has_error q then give_null q else struct_members fuel stmt ms q
      | Some (Some m, q) \<Rightarrow> struct_members fuel stmt (f m) q) p" if "current_type p = Keyword TOKEN_METHOD" for f
    by (rule returns_consume, use that in simp, intro returns_cases [OF method_returns] returns_if returns_give_null go)
      (use that Suc.prems in auto)
  have tail: "returns False (struct_members fuel stmt v (snd (parser_expect_statement_end q))) q" if "left_over q < left_over p" for v q
    by (rule returns_later [OF nearer_statement_end], assumption)
      (use nearerD(2) [OF nearer_statement_end [of q]] that in \<open>auto intro: go\<close>)
  have field: "returns False (and_parse (name_token m) (\<lambda>x. and_parse (require (Punct TOKEN_COLON)) (\<lambda>_.
      and_parse (type_or_error m' fuel) (\<lambda>ty q. struct_members fuel stmt (f x ty) (snd (parser_expect_statement_end q))))) p) p"
    for m m' f
    by (rule returns_and_parse_first, simp) (intro then_returns tail, use Suc.prems in auto)
  show ?case unfolding struct_members.simps by (intro returns_if returns_give on has_method field) auto
qed simp

lemma struct_returns:
  assumes "left_over p \<le> room" "16 * left_over p \<le> fuel"
  shows "returns s (parser_parse_struct_declaration fuel stmt p) p"
  unfolding parser_parse_struct_declaration_def Let_def split_def
  by (rule returns_and_parse_first, simp)
    (intro then_returns type_params_of_returns where_clause_returns struct_members_return, use assms in auto)

section \<open>Traits, implementations and declarations\<close>

lemma member_functions_return:
  "left_over p < room \<Longrightarrow> 16 * left_over p + 1 \<le> fuel \<Longrightarrow> returns False (member_functions b m m' fuel stmt fs p) p"
proof (induction fuel arbitrary: fs p)
  case (Suc fuel)
  have on: "returns False (member_functions b m m' fuel stmt v (parser_advance p)) p" if "current_type p \<noteq> TOKEN_EOF" for v
    by (rule returns_consume [OF that]) (use Suc in auto)
  have kept: "returns False (case f of FunctionDeclaration _ _ _ _ body _ _ _ _ \<Rightarrow>
        if (body \<noteq> None) \<noteq> b then null_error m' q else member_functions b m m' fuel stmt (fs @ [f]) q
      | _ \<Rightarrow> member_functions b m m' fuel stmt (fs @ [f]) q) q" if "left_over q < left_over p" for f q
    using Suc that by (cases f) simp_all
  show ?case unfolding member_functions.simps
    by (intro returns_if returns_give on returns_null_error returns_and_parse [where sa = True] function_returns kept)
      (use Suc.prems in auto)
qed simp

lemma member_block_returns:
  assumes "left_over p \<le> room" "16 * left_over p \<le> fuel"
  shows "returns False (member_block b m m' fuel stmt p) p"
proof (cases "current_type p = Punct TOKEN_LBRACE")
  case True
  show ?thesis unfolding member_block_def if_P [OF True]
    by (rule returns_consume, use True in simp) (intro then_returns member_functions_return, use assms in auto)
next
  case False
  show ?thesis unfolding member_block_def if_not_P [OF False] by (intro then_returns)
qed

lemma trait_returns:
  assumes "left_over p \<le> room" "16 * left_over p \<le> fuel"
  shows "returns s (parser_parse_trait_declaration fuel stmt p) p"
  unfolding parser_parse_trait_declaration_def Let_def
  by (rule returns_and_parse_first, simp) (intro then_returns member_block_returns, use assms in auto)

lemma impl_returns:
  assumes "left_over p \<le> room" "16 * left_over p \<le> fuel"
  shows "returns s (parser_parse_impl_declaration fuel stmt p) p"
  unfolding parser_parse_impl_declaration_def Let_def
  by (rule returns_and_parse_first, simp) (intro then_returns member_block_returns, use assms in auto)

lemma extern_returns:
  assumes "left_over p \<le> room" "16 * left_over p \<le> fuel"
  shows "returns False (extern_declaration m fuel stmt p) p"
  unfolding extern_declaration_def
  by (intro returns_if returns_null_error extern_var_returns assms then_returns function_returns)

lemma export_returns:
  assumes "left_over p \<le> room" "16 * left_over p \<le> fuel"
  shows "returns False (export_declaration fuel stmt p) p"
proof -
  have "returns False (extern_declaration m fuel stmt (parser_advance p)) p" for m
    by (rule returns_advance, rule extern_returns) (use assms in auto)
  then show ?thesis unfolding export_declaration_def
    by (intro then_returns)
      (use assms in \<open>simp add: function_returns struct_returns enum_returns trait_returns var_declaration_returns\<close>)
qed

lemma declaration_returns:
  assumes "left_over p \<le> room" "16 * left_over p \<le> fuel"
    and "current_type p \<noteq> Keyword TOKEN_EXTERN \<Longrightarrow> returns s (stmt p) p"
  shows "returns s (parser_parse_declaration fuel stmt p) p"
proof (cases "\<exists>k. current_type p = Keyword k")
  case True
  then obtain k where k: "current_type p = Keyword k" by blast
  then have ne: "current_type p \<noteq> TOKEN_EOF" by simp
  have "returns s (extern_declaration m fuel stmt (parser_advance p)) p" for m
    by (rule returns_consume [OF ne], rule extern_returns) (use assms in auto)
  moreover have "returns s (export_declaration fuel stmt (parser_advance p)) p"
    by (rule returns_consume [OF ne], rule export_returns) (use assms in auto)
  moreover have "returns s (parser_parse_import_declaration fuel p) p"
    by (rule import_returns [OF ne]) (use assms in simp)
  ultimately show ?thesis using assms k unfolding parser_parse_declaration_def
    by (simp add: function_returns struct_returns enum_returns trait_returns impl_returns var_declaration_returns defer_returns)
next
  case False
  then have "parser_parse_declaration fuel stmt p = stmt p"
    unfolding parser_parse_declaration_def by (cases "current_type p") auto
  then show ?thesis using assms(3) False by simp
qed

section \<open>Statements\<close>

lemma labelled_returns:
  assumes "current_type p \<noteq> TOKEN_EOF" "left_over p \<le> room" "16 * left_over p \<le> fuel"
  shows "returns s (labelled_loop fuel stmt p) p"
proof -
  let ?b = "parser_advance (parser_advance p)"
  have "returns False (labelled_loop fuel stmt p) ?b" if "left_over ?b \<le> left_over p" unfolding labelled_loop_def Let_def
    by (intro returns_if returns_give_null then_returns while_returns for_returns) (use assms that in auto)
  then show ?thesis by (intro returns_consume [OF assms(1)] returns_advance [of "parser_advance p"]) simp
qed

lemma statement_kinds_return:
  assumes "left_over p \<le> room" "16 * left_over p + 6 \<le> fuel"
  shows "returns s (statement_kinds fuel stmt p) p"
proof -
  have expr: "returns s (expression_or_assignment fuel p) p" by (rule expression_or_assignment_returns [OF assms(2)])
  show ?thesis
  proof (cases "current_type p")
    case (Keyword k)
    then have "returns s (parser_parse_return_statement fuel p) p" "k = TOKEN_EXTERN \<Longrightarrow> returns s (parser_parse_declaration fuel stmt p) p"
      using return_returns [of p fuel s] declaration_returns [of p fuel s] assms by simp_all
    moreover have "returns s (parser_parse_inline_asm fuel p) p" using assms by (simp add: inline_asm_returns)
    ultimately show ?thesis using assms expr Keyword unfolding statement_kinds_def
      by (simp add: var_declaration_returns if_returns while_returns for_returns switch_returns match_statement_returns
          parser_parse_break_statement_def parser_parse_continue_statement_def jump_returns defer_returns)
  next
    case (Punct c)
    then show ?thesis using assms expr by (simp add: statement_kinds_def block_returns)
  qed (simp_all add: statement_kinds_def expr)
qed

end

text \<open>Looking past the look-ahead token changes the lexer's tables but not what it will read.\<close>

lemma nearer_peek:
  assumes "parser_ok p"
  shows "nearer p (snd (parser_peek p))"
proof -
  obtain t l where n: "lexer_next_token (ps_lexer p) = (t, l)" by fastforce
  have wf: "lexer_wf (ps_lexer p)" using assms by (simp add: parser_ok_def)
  note k = lexer_next_token_keeps [OF wf n]
  let ?l = "reframe (lx_interner l) (lx_has_error l) (lx_error_message l) (ps_lexer p)"
  have peek: "snd (parser_peek p) = p\<lparr>ps_lexer := ?l\<rparr>"
    using k by (simp add: parser_peek_def lexer_peek_token_def n Let_def reframe_def)
  have "moved p [] (p\<lparr>ps_lexer := ?l\<rparr>)"
    using assms k by (simp add: moved_def parser_stream_def lexer_stream_reframe parser_ok_def) (simp add: lexer_wf_def reframe_def)
  then show ?thesis unfolding peek by (rule nearer_moved [OF _ assms]) (simp_all add: left_over_def)
qed

lemma parse_statement_returns: "16 * left_over p + 7 \<le> fuel \<Longrightarrow> returns s (parser_parse_statement fuel p) p"
proof (induction fuel arbitrary: s p)
  case (Suc fuel)
  let ?stmt = "parser_parse_statement fuel" and ?q = "snd (parser_peek p)"
  have inner: "statement_parser ?stmt ((fuel + 9) div 16)"
    by (rule statement_parser.intro) (rule Suc.IH, simp add: less_eq_div_iff_mult_less_eq flip: Suc_le_eq)
  have room: "left_over q \<le> (fuel + 9) div 16" if "left_over q \<le> left_over p" for q
    using Suc.prems that by (simp add: less_eq_div_iff_mult_less_eq)
  have kinds: "returns s (statement_kinds fuel ?stmt q) q" if "left_over q \<le> left_over p" for q
    by (rule statement_parser.statement_kinds_return [OF inner room [OF that]]) (use Suc.prems that in simp)
  have labelled: "returns s (labelled_loop fuel ?stmt q) q" if "left_over q \<le> left_over p" "current_type q \<noteq> TOKEN_EOF" for q
    by (rule statement_parser.labelled_returns [OF inner that(2) room [OF that(1)]]) (use Suc.prems that in simp)
  have "returns s (if c then labelled_loop fuel ?stmt ?q else statement_kinds fuel ?stmt ?q) p" if "current_type p \<noteq> TOKEN_EOF" for c
  proof (rule returns_later [OF nearer_peek], assumption)
    assume ok: "parser_ok p"
    have "current_type ?q \<noteq> TOKEN_EOF" using that by (simp add: parser_peek_def split_def Let_def)
    then show "returns s (if c then labelled_loop fuel ?stmt ?q else statement_kinds fuel ?stmt ?q) ?q"
      using nearerD(2) [OF nearer_peek [OF ok]] by (intro returns_if labelled kinds)
  qed
  then show ?case by (auto simp: split_def Let_def kinds)
qed simp

interpretation statements: statement_parser "parser_parse_statement fuel" "(fuel + 9) div 16" for fuel
  by unfold_locales (rule parse_statement_returns, simp add: less_eq_div_iff_mult_less_eq flip: Suc_le_eq)

section \<open>The program\<close>

lemma synchronize_some: "parser_synchronize fuel p = Some (r, q) \<Longrightarrow> r = Some ()"
  by (induction fuel arbitrary: p) (auto simp: give_def split: if_splits)

lemma recover_returns:
  assumes "parser_ok p" "left_over p < fuel"
  shows "\<exists>q. parser_recover_from_error fuel p = Some (Some (), q) \<and> nearer p q"
proof -
  have flag: "nearer q (q\<lparr>ps_error_recovery_mode := b\<rparr>)" if "parser_ok q" for q b
    by (rule nearer_moved [where ts = "[]", OF _ that]) (simp_all add: moved_def parser_stream_def parser_ok_def left_over_def)
  let ?p = "p\<lparr>ps_error_recovery_mode := True\<rparr>"
  have p: "nearer p ?p" "left_over ?p < fuel" using flag assms nearerD(2) [OF flag [OF assms(1), of True]] by auto
  from synchronize_returns [OF p(2)] obtain r q where q: "parser_synchronize fuel ?p = Some (r, q)" "nearer ?p q"
    using nearerD(1) [OF p(1)] unfolding returns_def by blast
  let ?q = "q\<lparr>ps_has_error := False, ps_error_message := None\<rparr>"
  have "nearer p (?q\<lparr>ps_error_recovery_mode := False\<rparr>)"
    using nearer_trans [OF p(1) nearer_clear [OF q(2)]] nearerD(1) flag nearer_trans by blast
  then show ?thesis using q(1) synchronize_some [OF q(1)]
    by (simp add: parser_recover_from_error_def and_parse_def give_def)
qed

lemma advance_keeps_error: "ps_has_error p \<Longrightarrow> ps_has_error (parser_advance p)"
  by (simp add: parser_advance_def parser_report_lexer_token_error_def split: prod.split)

text \<open>After a declaration less is left to read than before it, or nothing.\<close>

lemma after_declaration_returns:
  assumes "nearer p q" "d \<noteq> None \<longrightarrow> left_over q < left_over p" "left_over p < fuel"
  shows "\<exists>q'. after_declaration fuel (lx_position (ps_lexer p)) d q = Some (Some (), q') \<and> nearer p q' \<and>
    (left_over q' < left_over p \<or> current_type q' = TOKEN_EOF)"
proof -
  let ?r = "if d = None \<and> \<not> ps_has_error q then parser_advance (parser_set_error ''Failed to parse declaration'' q) else q"
  have r: "nearer p ?r"
    using nearer_trans [OF assms(1) nearer_trans [OF nearer_set_error nearer_advance]] nearerD(1) [OF assms(1)]
      nearerD(1) [OF nearer_set_error] assms(1) by auto
  show ?thesis
  proof (cases "ps_has_error ?r")
    case False
    then have "d \<noteq> None" using advance_keeps_error [of "parser_set_error ''Failed to parse declaration'' q"] by (auto split: if_splits)
    then show ?thesis using False assms by (auto simp: after_declaration_def give_def)
  next
    case True
    have "left_over ?r < fuel" using nearerD(2) [OF r] assms(3) by simp
    with recover_returns [OF nearerD(1) [OF r]] obtain t where t: "parser_recover_from_error fuel ?r = Some (Some (), t)" "nearer ?r t"
      by blast
    let ?t = "if current_type t \<noteq> TOKEN_EOF \<and> lx_position (ps_lexer t) = lx_position (ps_lexer p) then parser_advance t else t"
    have pt: "nearer p t" "parser_ok t" using nearer_trans [OF r t(2)] nearerD(1) [OF t(2)] by auto
    have "left_over ?t < left_over p \<or> current_type ?t = TOKEN_EOF"
      using left_over_advance [OF pt(2)] nearerD(2,3) [OF pt(1)] by fastforce
    moreover have "nearer p ?t" using pt nearer_trans [OF pt(1) nearer_advance [OF pt(2)]] by simp
    moreover have "after_declaration fuel (lx_position (ps_lexer p)) d q = Some (Some (), ?t)"
      using True t(1) unfolding after_declaration_def Let_def by (simp add: and_parse_def give_def)
    ultimately show ?thesis by blast
  qed
qed

lemma program_loop_returns:
  assumes "parser_ok p" "16 * left_over p + 8 \<le> fuel \<or> current_type p = TOKEN_EOF \<and> 0 < fuel"
  shows "\<exists>ds' q. program_loop fuel ds p = Some (Some ds', q) \<and> nearer p q \<and> current_type q = TOKEN_EOF"
  using assms
proof (induction fuel arbitrary: ds p)
  case (Suc fuel)
  have on: "\<exists>ds' q. program_loop fuel ds q0 = Some (Some ds', q) \<and> nearer p q \<and> current_type q = TOKEN_EOF"
    if "nearer p q0" "left_over q0 < left_over p \<or> current_type q0 = TOKEN_EOF" "16 * left_over p + 8 \<le> Suc fuel" for ds q0
    using Suc.IH [of q0 ds] nearerD(1) [OF that(1)] nearer_trans [OF that(1)] that(2,3) by fastforce
  consider (stop) "current_type p = TOKEN_EOF"
    | (separator) "current_type p \<noteq> TOKEN_EOF" "current_type p = Punct TOKEN_NEWLINE \<or> current_type p = Punct TOKEN_SEMICOLON"
    | (another) "current_type p \<notin> {TOKEN_EOF, Punct TOKEN_NEWLINE, Punct TOKEN_SEMICOLON}" by blast
  then show ?case
  proof cases
    case separator
    then show ?thesis
      using on [OF nearer_advance [OF Suc.prems(1)]] left_over_advance [OF Suc.prems(1) separator(1)] Suc.prems(2) by simp
  next
    case another
    then have need: "16 * left_over p + 8 \<le> Suc fuel" using Suc.prems(2) by simp
    then have "returns True (parser_parse_declaration fuel (parser_parse_statement fuel) p) p"
      by (intro statements.declaration_returns parse_statement_returns) (simp_all add: less_eq_div_iff_mult_less_eq)
    then obtain d q where q: "parser_parse_declaration fuel (parser_parse_statement fuel) p = Some (d, q)" "nearer p q"
      "d \<noteq> None \<longrightarrow> left_over q < left_over p" using Suc.prems(1) unfolding returns_def by blast
    obtain q' where q': "after_declaration fuel (lx_position (ps_lexer p)) d q = Some (Some (), q')" "nearer p q'"
      "left_over q' < left_over p \<or> current_type q' = TOKEN_EOF"
      using after_declaration_returns [OF q(2,3), of fuel] need by auto
    then show ?thesis using on [OF q'(2,3) need] another q(1) by (simp add: Let_def and_parse_def)
  qed (simp add: give_def nearer_refl Suc.prems(1))
qed simp



end
