(* ===== verification/Mono_Types.thy ===== *)
theory Mono_Types
  imports Parser_State
begin

text \<open>
  Types as strings in \<^verbatim>\<open>src/src/semantic/monomorphize.c\<close>: the parser and the checker keep a type as its text, such as
  \<open>List<int32>*[4]\<close>, and monomorphisation takes these texts apart, substitutes type parameters and mangles instances
  into names.
\<close>

section \<open>Mangling\<close>

definition mangle_char :: "char \<Rightarrow> string" where
  "mangle_char c = (if c = CHR ''*'' then ''_ptr'' else if c \<in> {CHR ''<'', CHR ''>'', CHR '',''} then ''_'' else [c])"

definition mangle_name :: "string \<Rightarrow> string list \<Rightarrow> string" where
  "mangle_name base type_args = base @ concat (map (\<lambda>arg. ''__'' @ concat (map mangle_char arg)) type_args)"

definition mono_sanitize_component :: "string \<Rightarrow> string" where
  "mono_sanitize_component value = map (\<lambda>c. if c_isalnum c \<or> c = CHR ''_'' then c else CHR ''_'') value"

definition mono_mangle_impl_method_name :: "string \<Rightarrow> string \<Rightarrow> string \<Rightarrow> string" where
  "mono_mangle_impl_method_name trait_name for_type_name method_name =
     ''__trait_'' @ mono_sanitize_component trait_name @ ''__'' @ mono_sanitize_component for_type_name @ ''__'' @
     mono_sanitize_component method_name"

section \<open>Bounds of type parameters\<close>

definition blank :: "char \<Rightarrow> bool" where
  "blank c \<longleftrightarrow> c = CHR '' '' \<or> c = CHR 0x09"

definition trim :: "string \<Rightarrow> string" where
  "trim s = rev (dropWhile blank (rev (dropWhile blank s)))"

text \<open>The names between the plus signs. The loop ends at the last part, or before an empty one at the end.\<close>

function mono_split_bounds :: "string \<Rightarrow> string list" where
  "mono_split_bounds start =
     (if start = [] then []
      else let item = trim (takeWhile (\<lambda>c. c \<noteq> CHR ''+'') start); rest = dropWhile (\<lambda>c. c \<noteq> CHR ''+'') start
           in (if item \<noteq> [] then [item] else []) @ (if rest = [] then [] else mono_split_bounds (tl rest)))"
  by pat_completeness auto

termination
proof (relation "measure length", simp, goal_cases)
  case (1 start item rest)
  then have "length rest \<le> length start" "rest \<noteq> []" by (auto intro: length_dropWhile_le)
  then show ?case by (cases rest) auto
qed

declare mono_split_bounds.simps [simp del]

section \<open>Instances of generic types\<close>

text \<open>The text up to the \<open>>\<close> that brings the depth to zero, or NULL if there is none.\<close>

fun up_to_close :: "int \<Rightarrow> string \<Rightarrow> string option" where
  "up_to_close depth [] = None"
| "up_to_close depth (c # cs) =
     (if c = CHR ''<'' then map_option (Cons c) (up_to_close (depth + 1) cs)
      else if c = CHR ''>'' then (if depth - 1 = 0 then Some [] else map_option (Cons c) (up_to_close (depth - 1) cs))
      else map_option (Cons c) (up_to_close depth cs))"

text \<open>One argument and what follows it, which is empty or starts with the comma.\<close>

fun split_argument :: "int \<Rightarrow> string \<Rightarrow> string \<times> string" where
  "split_argument depth [] = ([], [])"
| "split_argument depth (c # cs) =
     (if c = CHR '','' \<and> depth = 0 then ([], c # cs)
      else let depth = (if c = CHR ''<'' then depth + 1 else if c = CHR ''>'' then depth - 1 else depth)
           in apfst (Cons c) (split_argument depth cs))"

lemma split_argument_append: "fst (split_argument d s) @ snd (split_argument d s) = s"
  by (induction d s rule: split_argument.induct) (auto simp: Let_def)

definition strip_end :: "char \<Rightarrow> string \<Rightarrow> string" where
  "strip_end c s = rev (dropWhile (\<lambda>x. x = c) (rev s))"

function generic_arguments :: "string \<Rightarrow> string list" where
  "generic_arguments s =
     (if s = [] then []
      else let (arg, rest) = split_argument 0 (dropWhile (\<lambda>c. c = CHR '' '') s); arg = strip_end (CHR '' '') arg
           in (if arg \<noteq> [] then [arg] else []) @ (if rest = [] then [] else generic_arguments (tl rest)))"
  by pat_completeness auto

termination
proof (relation "measure length", simp, goal_cases)
  case (1 s x arg rest arg')
  let ?d = "dropWhile (\<lambda>c. c = CHR '' '') s"
  have "length arg + length rest = length ?d"
    using split_argument_append [of 0 ?d] 1(2,3) by (metis fst_conv length_append snd_conv)
  moreover have "length ?d \<le> length s" by (rule length_dropWhile_le)
  ultimately show ?case using 1 by (cases rest) auto
qed

declare generic_arguments.simps [simp del]

definition parse_generic_type_name :: "string \<Rightarrow> (string \<times> string list) option" where
  "parse_generic_type_name type_str =
     (if CHR ''<'' \<notin> set type_str then None
      else map_option (\<lambda>inside. (takeWhile (\<lambda>c. c \<noteq> CHR ''<'') type_str, generic_arguments inside))
             (up_to_close 1 (tl (dropWhile (\<lambda>c. c \<noteq> CHR ''<'') type_str))))"

text \<open>The text before the first \<open>[\<close> outside angle brackets, and the text from it on.\<close>

fun split_array_suffix :: "int \<Rightarrow> string \<Rightarrow> string \<times> string" where
  "split_array_suffix depth [] = ([], [])"
| "split_array_suffix depth (c # cs) =
     (if c = CHR ''<'' then apfst (Cons c) (split_array_suffix (depth + 1) cs)
      else if c = CHR ''>'' then apfst (Cons c) (split_array_suffix (depth - 1) cs)
      else if c = CHR ''['' \<and> depth = 0 then ([], c # cs)
      else apfst (Cons c) (split_array_suffix depth cs))"

section \<open>The context\<close>

record TraitDef =
  td_name :: string
  td_methods :: "ASTNode list"

record TraitImpl =
  ti_trait_name :: string
  ti_for_type_name :: string
  ti_methods :: "ASTNode list"

record Instantiation =
  in_generic_name :: string
  in_type_args :: "string list"
  in_mangled_name :: string
  in_location :: SourceLocation

record GenericDef =
  gd_name :: string
  gd_node :: ASTNode
  gd_type_params :: type_parameters
  gd_is_struct :: bool

record MonoContext =
  mc_reporter :: bool
  mc_reports :: "ErrorReport list"
  mc_had_error :: bool
  mc_traits :: "TraitDef list"
  mc_impls :: "TraitImpl list"
  mc_defs :: "GenericDef list"
  mc_instances :: "Instantiation list"

text \<open>A message is written into 512 bytes.\<close>

definition mono_report_error :: "SourceLocation \<Rightarrow> string \<Rightarrow> MonoContext \<Rightarrow> MonoContext" where
  "mono_report_error location message ctx =
     ctx\<lparr>mc_had_error := True, mc_reports := mc_reports ctx @
       (if mc_reporter ctx then [\<lparr>er_type = ERROR_SEMANTIC, er_location = location, er_message = take 511 message\<rparr>] else [])\<rparr>"

definition mono_add_instantiation :: "string \<Rightarrow> string list \<Rightarrow> SourceLocation \<Rightarrow> MonoContext \<Rightarrow> MonoContext" where
  "mono_add_instantiation generic_name type_args location ctx =
     (let mangled = mangle_name generic_name type_args
      in if \<exists>inst \<in> set (mc_instances ctx). in_mangled_name inst = mangled then ctx
         else ctx\<lparr>mc_instances := mc_instances ctx @ [\<lparr>in_generic_name = generic_name, in_type_args = type_args,
                in_mangled_name = mangled, in_location = location\<rparr>]\<rparr>)"

definition record_generic_type_use :: "string \<Rightarrow> SourceLocation \<Rightarrow> MonoContext \<Rightarrow> MonoContext" where
  "record_generic_type_use type_name location ctx =
     (case parse_generic_type_name type_name of
        None \<Rightarrow> ctx
      | Some (base, args) \<Rightarrow> mono_add_instantiation base args location ctx)"

section \<open>Substitution\<close>

text \<open>The arguments of an instance are shorter than its text.\<close>

lemma strip_end_length: "length (strip_end c s) \<le> length s"
  unfolding strip_end_def by (metis length_dropWhile_le length_rev)

lemma generic_arguments_length: "(\<Sum>a\<leftarrow>generic_arguments s. Suc (length a)) \<le> Suc (length s)"
proof (induction s rule: generic_arguments.induct)
  case (1 s)
  let ?d = "dropWhile (\<lambda>c. c = CHR '' '') s"
  obtain arg rest where ar: "split_argument 0 ?d = (arg, rest)" by fastforce
  have len: "length arg + length rest \<le> length s"
    using split_argument_append [of 0 ?d] length_dropWhile_le [of "\<lambda>c. c = CHR '' ''" s] ar
    by (metis fst_conv length_append snd_conv)
  show ?case
  proof (cases "s = [] \<or> rest = []")
    case True
    then show ?thesis using ar len strip_end_length [of "CHR '' ''" arg] by (subst generic_arguments.simps) (auto simp: Let_def)
  next
    case False
    then have "(\<Sum>a\<leftarrow>generic_arguments (tl rest). Suc (length a)) \<le> length rest"
      using 1 [of "(arg, rest)"] ar by (cases rest) auto
    then show ?thesis using False ar len strip_end_length [of "CHR '' ''" arg] by (subst generic_arguments.simps) (auto simp: Let_def)
  qed
qed

lemma up_to_close_length: "up_to_close d s = Some inside \<Longrightarrow> length inside < length s"
  by (induction d s arbitrary: inside rule: up_to_close.induct) (auto split: if_splits)

lemma parse_generic_length:
  assumes "parse_generic_type_name s = Some (base, args)"
  shows "(\<Sum>a\<leftarrow>args. Suc (length a)) < length s"
proof -
  let ?r = "dropWhile (\<lambda>c. c \<noteq> CHR ''<'') s"
  from assms obtain inside where "CHR ''<'' \<in> set s" "up_to_close 1 (tl ?r) = Some inside" "args = generic_arguments inside"
    by (auto simp: parse_generic_type_name_def split: if_splits)
  moreover from this(1) have "length (tl ?r) < length s"
    using length_dropWhile_le [of "\<lambda>c. c \<noteq> CHR ''<''" s] by (cases ?r) (auto simp: dropWhile_eq_Nil_conv)
  ultimately show ?thesis using up_to_close_length generic_arguments_length [of inside] by fastforce
qed

lemma split_array_suffix_append: "fst (split_array_suffix d s) @ snd (split_array_suffix d s) = s"
  by (induction d s rule: split_array_suffix.induct) auto

text \<open>The core of a type is its text without the array suffix and the stars before it.\<close>

definition type_core :: "string \<Rightarrow> string" where
  "type_core type_str = strip_end (CHR ''*'') (fst (split_array_suffix 0 type_str))"

definition type_suffix :: "string \<Rightarrow> string" where
  "type_suffix type_str = drop (length (type_core type_str)) type_str"

lemma type_core_length: "length (type_core s) \<le> length s"
proof -
  have "length (fst (split_array_suffix 0 s)) \<le> length s"
    using split_array_suffix_append [of 0 s] by (metis length_append le_add1)
  then show ?thesis using strip_end_length [of "CHR ''*''" "fst (split_array_suffix 0 s)"] by (simp add: type_core_def)
qed

text \<open>The stars and the array suffix are put back as they were. The context grows by the instances that come up.\<close>

function substitute_type_string :: "(string \<times> string) list \<Rightarrow> string \<Rightarrow> MonoContext \<Rightarrow> string \<times> MonoContext"
  and substitute_type_strings :: "(string \<times> string) list \<Rightarrow> string list \<Rightarrow> MonoContext \<Rightarrow> string list \<times> MonoContext" where
  "substitute_type_string params type_str ctx =
     (case map_of params (type_core type_str) of
        Some arg \<Rightarrow> (arg @ type_suffix type_str, ctx)
      | None \<Rightarrow>
          (case parse_generic_type_name (type_core type_str) of
             None \<Rightarrow> (type_str, ctx)
           | Some (gen_base, gen_args) \<Rightarrow>
               (let (subst_args, ctx) = substitute_type_strings params gen_args ctx
                in (mangle_name gen_base subst_args @ type_suffix type_str,
                    mono_add_instantiation gen_base subst_args \<lparr>loc_line = 0, loc_column = 0\<rparr> ctx))))"
| "substitute_type_strings params [] ctx = ([], ctx)"
| "substitute_type_strings params (t # ts) ctx =
     (let (t, ctx) = substitute_type_string params t ctx; (ts, ctx) = substitute_type_strings params ts ctx in (t # ts, ctx))"
  by pat_completeness auto

termination
proof (relation "measure (\<lambda>x. case x of Inl (_, s, _) \<Rightarrow> length s | Inr (_, ss, _) \<Rightarrow> \<Sum>s\<leftarrow>ss. Suc (length s))",
    simp, goal_cases)
  case (1 params type_str ctx x base args)
  then show ?case using parse_generic_length [of "type_core type_str" base args] type_core_length [of type_str] by simp
qed auto

declare substitute_type_string.simps [simp del]

end
