(* ===== verification/Monomorphize.thy ===== *)
theory Monomorphize
  imports Mono_Types "HOL-Library.State_Monad" "HOL-Library.Monad_Syntax" "HOL-Library.AList"
begin

text \<open>
  Monomorphisation, \<^verbatim>\<open>src/src/semantic/monomorphize.c\<close>: generic structs and functions are copied for every instance
  that the program uses, methods of traits become functions, and references are rewritten to the mangled names. The
  context and the rewritten tree are returned; a tree that is left behind by a failure is not.
\<close>

section \<open>Traits, implementations and bounds\<close>

definition mono_has_trait :: "MonoContext \<Rightarrow> string \<Rightarrow> bool" where
  "mono_has_trait ctx trait_name \<longleftrightarrow> (\<exists>t \<in> set (mc_traits ctx). td_name t = trait_name)"

definition mono_find_trait :: "MonoContext \<Rightarrow> string \<Rightarrow> TraitDef option" where
  "mono_find_trait ctx trait_name = List.find (\<lambda>t. td_name t = trait_name) (mc_traits ctx)"

text \<open>A trait is entered with its methods.\<close>

definition mono_add_trait :: "string \<Rightarrow> ASTNode list \<Rightarrow> SourceLocation \<Rightarrow> MonoContext \<Rightarrow> MonoContext" where
  "mono_add_trait trait_name methods location ctx =
     (if mono_has_trait ctx trait_name
      then mono_report_error location (''Duplicate trait declaration '' @ quoted trait_name) ctx
      else ctx\<lparr>mc_traits := mc_traits ctx @ [\<lparr>td_name = trait_name, td_methods = methods\<rparr>]\<rparr>)"

definition function_named :: "string \<Rightarrow> ASTNode \<Rightarrow> bool" where
  "function_named wanted node \<longleftrightarrow> (case node of FunctionDeclaration _ name _ _ _ _ _ _ _ \<Rightarrow> name = wanted | _ \<Rightarrow> False)"

definition mono_find_function_method :: "ASTNode list \<Rightarrow> string \<Rightarrow> ASTNode option" where
  "mono_find_function_method methods name = List.find (function_named name) methods"

definition mono_type_implements_trait :: "MonoContext \<Rightarrow> string \<Rightarrow> string \<Rightarrow> bool" where
  "mono_type_implements_trait ctx trait_name type_name \<longleftrightarrow>
     (\<exists>i \<in> set (mc_impls ctx). ti_trait_name i = trait_name \<and> ti_for_type_name i = type_name)"

text \<open>The first trait of the bounds that does not exist; bounds without a name count as a failure.\<close>

definition mono_validate_bound_traits :: "string option \<Rightarrow> string \<Rightarrow> SourceLocation \<Rightarrow> MonoContext \<Rightarrow> MonoContext" where
  "mono_validate_bound_traits bounds generic_name location ctx =
     (case bounds of
        None \<Rightarrow> ctx
      | Some bounds \<Rightarrow>
          if mono_split_bounds bounds = [] then mono_report_error location ''Failed to allocate storage for generic bounds'' ctx
          else case List.find (\<lambda>trait. \<not> mono_has_trait ctx trait) (mono_split_bounds bounds) of
                 None \<Rightarrow> ctx
               | Some trait \<Rightarrow> mono_report_error location
                   (''Unknown trait '' @ quoted trait @ '' in generic bound on '' @ quoted generic_name) ctx)"

definition mono_type_satisfies_bounds :: "string \<Rightarrow> Instantiation \<Rightarrow> string option \<Rightarrow> string \<Rightarrow> MonoContext \<Rightarrow> bool \<times> MonoContext" where
  "mono_type_satisfies_bounds def_name inst bounds type_arg ctx =
     (case bounds of
        None \<Rightarrow> (True, ctx)
      | Some bounds \<Rightarrow>
          if mono_split_bounds bounds = []
          then (False, mono_report_error (in_location inst) ''Failed to allocate storage for generic bounds'' ctx)
          else case List.find (\<lambda>trait. \<not> (mono_has_trait ctx trait \<and> mono_type_implements_trait ctx trait type_arg))
                      (mono_split_bounds bounds) of
                 None \<Rightarrow> (True, ctx)
               | Some trait \<Rightarrow> (False, mono_report_error (in_location inst)
                   (if \<not> mono_has_trait ctx trait
                    then ''Generic '' @ quoted def_name @ '' requires unknown trait '' @ quoted trait
                    else ''Type '' @ quoted type_arg @ '' does not implement trait '' @ quoted trait @ '' required by '' @ quoted def_name) ctx))"

definition mono_substitute_self_type :: "string \<Rightarrow> string \<Rightarrow> MonoContext \<Rightarrow> string \<times> MonoContext" where
  "mono_substitute_self_type type_name for_type_name = substitute_type_string [(''Self'', for_type_name)] type_name"

definition mono_type_names_equal_with_self :: "string \<Rightarrow> string \<Rightarrow> string \<Rightarrow> MonoContext \<Rightarrow> bool \<times> MonoContext" where
  "mono_type_names_equal_with_self trait_type impl_type for_type_name ctx =
     (let (expected, ctx) = mono_substitute_self_type trait_type for_type_name ctx;
          (actual, ctx) = mono_substitute_self_type impl_type for_type_name ctx
      in (expected = actual, ctx))"

text \<open>The types of the parameters from the \<open>j\<close>-th on, and then the types of the results.\<close>

fun parameters_match :: "TraitImpl \<Rightarrow> string \<Rightarrow> SourceLocation \<Rightarrow> nat \<Rightarrow> string list \<Rightarrow> string list \<Rightarrow> MonoContext \<Rightarrow> bool \<times> MonoContext" where
  "parameters_match impl method_name location j (t # ts) (u # us) ctx =
     (let (eq, ctx) = mono_type_names_equal_with_self t u (ti_for_type_name impl) ctx
      in if eq then parameters_match impl method_name location (Suc j) ts us ctx
         else (False, mono_report_error location (''Impl method '' @ quoted method_name @ '' parameter '' @ show_nat (Suc j) @
                '' does not match trait '' @ quoted (ti_trait_name impl)) ctx))"
| "parameters_match impl method_name location j _ _ ctx = (True, ctx)"

definition results_match :: "TraitImpl \<Rightarrow> string \<Rightarrow> SourceLocation \<Rightarrow> string option \<Rightarrow> string option \<Rightarrow> MonoContext \<Rightarrow> bool \<times> MonoContext" where
  "results_match impl method_name location trait_result impl_result ctx =
     (if trait_result = None \<and> impl_result = None then (True, ctx)
      else let void = (\<lambda>r. case r of None \<Rightarrow> ''void'' | Some t \<Rightarrow> t);
               (eq, ctx) = mono_type_names_equal_with_self (void trait_result) (void impl_result) (ti_for_type_name impl) ctx
           in if eq then (True, ctx)
              else (False, mono_report_error location (''Impl method '' @ quoted method_name @
                     '' return type does not match trait '' @ quoted (ti_trait_name impl)) ctx))"

fun validate_methods :: "TraitImpl \<Rightarrow> SourceLocation \<Rightarrow> ASTNode list \<Rightarrow> MonoContext \<Rightarrow> MonoContext" where
  "validate_methods impl location [] ctx = ctx"
| "validate_methods impl location (trait_method # trait_methods) ctx =
     (case trait_method of
        FunctionDeclaration _ name params return_type _ _ _ _ _ \<Rightarrow>
          (case mono_find_function_method (ti_methods impl) name of
             Some (FunctionDeclaration _ _ impl_params impl_return_type _ _ _ _ _) \<Rightarrow>
               if length impl_params \<noteq> length params
               then mono_report_error location (''Impl method '' @ quoted name @ '' has a signature that does not match trait '' @
                      quoted (ti_trait_name impl)) ctx
               else let (ok, ctx) = parameters_match impl name location 0 (map snd params) (map snd impl_params) ctx
                    in if \<not> ok then ctx
                       else let (ok, ctx) = results_match impl name location return_type impl_return_type ctx
                            in if ok then validate_methods impl location trait_methods ctx else ctx
           | _ \<Rightarrow> mono_report_error location (''Impl '' @ quoted (ti_trait_name impl @ '' for '' @ ti_for_type_name impl) @
                    '' is missing trait method '' @ quoted name) ctx)
      | _ \<Rightarrow> validate_methods impl location trait_methods ctx)"

definition mono_validate_impl_methods :: "TraitImpl \<Rightarrow> SourceLocation \<Rightarrow> MonoContext \<Rightarrow> MonoContext" where
  "mono_validate_impl_methods impl location ctx =
     (case mono_find_trait ctx (ti_trait_name impl) of
        None \<Rightarrow> ctx
      | Some trait \<Rightarrow> validate_methods impl location (td_methods trait) ctx)"

text \<open>An implementation is entered with its methods, which are then checked against the trait.\<close>

definition mono_add_impl :: "string \<Rightarrow> string \<Rightarrow> ASTNode list \<Rightarrow> SourceLocation \<Rightarrow> MonoContext \<Rightarrow> MonoContext" where
  "mono_add_impl trait_name for_type_name methods location ctx =
     (if \<not> mono_has_trait ctx trait_name
      then mono_report_error location (''Unknown trait '' @ quoted trait_name @ '' in impl declaration'') ctx
      else if mono_type_implements_trait ctx trait_name for_type_name
      then mono_report_error location (''Duplicate impl '' @ quoted (trait_name @ '' for '' @ for_type_name)) ctx
      else let impl = \<lparr>ti_trait_name = trait_name, ti_for_type_name = for_type_name, ti_methods = methods\<rparr>
           in mono_validate_impl_methods impl location (ctx\<lparr>mc_impls := mc_impls ctx @ [impl]\<rparr>))"

section \<open>Definitions\<close>

definition add_generic :: "string \<Rightarrow> ASTNode \<Rightarrow> type_parameters \<Rightarrow> bool \<Rightarrow> SourceLocation \<Rightarrow> MonoContext \<Rightarrow> MonoContext" where
  "add_generic name node type_params is_struct location ctx =
     (if type_params = [] then ctx
      else let ctx = fold (\<lambda>param. mono_validate_bound_traits (snd param) name location) type_params ctx
           in ctx\<lparr>mc_defs := mc_defs ctx @ [\<lparr>gd_name = name, gd_node = node, gd_type_params = type_params, gd_is_struct = is_struct\<rparr>]\<rparr>)"

definition collect_trait :: "ASTNode \<Rightarrow> MonoContext \<Rightarrow> MonoContext" where
  "collect_trait decl ctx =
     (case decl of TraitDeclaration location name _ methods \<Rightarrow> mono_add_trait name methods location ctx | _ \<Rightarrow> ctx)"

definition collect_definition :: "ASTNode \<Rightarrow> MonoContext \<Rightarrow> MonoContext" where
  "collect_definition decl ctx =
     (case decl of
        ImplDeclaration location trait_name for_type_name methods \<Rightarrow> mono_add_impl trait_name for_type_name methods location ctx
      | StructDeclaration location name _ _ _ type_params \<Rightarrow> add_generic name decl type_params True location ctx
      | FunctionDeclaration location name _ _ _ _ _ _ type_params \<Rightarrow> add_generic name decl type_params False location ctx
      | _ \<Rightarrow> ctx)"

definition collect_generic_defs :: "ASTNode list \<Rightarrow> MonoContext \<Rightarrow> MonoContext" where
  "collect_generic_defs declarations ctx = fold collect_definition declarations (fold collect_trait declarations ctx)"

definition find_generic_def :: "MonoContext \<Rightarrow> string \<Rightarrow> GenericDef option" where
  "find_generic_def ctx name = List.find (\<lambda>d. gd_name d = name) (mc_defs ctx)"

fun bounds_hold :: "string \<Rightarrow> Instantiation \<Rightarrow> (string option \<times> string) list \<Rightarrow> MonoContext \<Rightarrow> bool \<times> MonoContext" where
  "bounds_hold def_name inst [] ctx = (True, ctx)"
| "bounds_hold def_name inst ((bounds, arg) # rest) ctx =
     (let (ok, ctx) = mono_type_satisfies_bounds def_name inst bounds arg ctx
      in if ok then bounds_hold def_name inst rest ctx else (False, ctx))"

definition validate_instantiation :: "GenericDef \<Rightarrow> Instantiation \<Rightarrow> MonoContext \<Rightarrow> bool \<times> MonoContext" where
  "validate_instantiation def inst ctx =
     (if length (gd_type_params def) \<noteq> length (in_type_args inst)
      then (False, mono_report_error (in_location inst) (''Generic '' @ quoted (gd_name def) @ '' expects '' @
              show_nat (length (gd_type_params def)) @ '' type arguments but got '' @ show_nat (length (in_type_args inst))) ctx)
      else bounds_hold (gd_name def) inst (zip (map snd (gd_type_params def)) (in_type_args inst)) ctx)"

section \<open>Substitution in trees\<close>

definition in_order :: "('s, 'a) state list \<Rightarrow> ('s, 'a list) state" where
  "in_order ms = State_Monad.traverse_list (\<lambda>m. m) ms"

definition if_present :: "('s, 'a) state option \<Rightarrow> ('s, 'a option) state" where
  "if_present m = (case m of None \<Rightarrow> State_Monad.return None | Some m \<Rightarrow> State_Monad.bind m (\<lambda>x. State_Monad.return (Some x)))"

definition both :: "('s, 'a) state \<times> ('s, 'b) state \<Rightarrow> ('s, 'a \<times> 'b) state" where
  "both ms = State_Monad.bind (fst ms) (\<lambda>x. State_Monad.bind (snd ms) (\<lambda>y. State_Monad.return (x, y)))"

definition sub_type :: "(string \<times> string) list \<Rightarrow> string \<Rightarrow> (MonoContext, string) state" where
  "sub_type params type_str = State (substitute_type_string params type_str)"

text \<open>Casts, \<open>match\<close>, calls through function pointers and nested declarations are left as they are.\<close>

primrec substitute_types_in_ast :: "(string \<times> string) list \<Rightarrow> ASTNode \<Rightarrow> (MonoContext, ASTNode) state" where
  "substitute_types_in_ast params (EmptyNode t l) = State_Monad.return (EmptyNode t l)"
| "substitute_types_in_ast params (Program l ds) = do {
     ds \<leftarrow> in_order (map (substitute_types_in_ast params) ds);
     State_Monad.return (Program l ds) }"
| "substitute_types_in_ast params (ImportDeclaration l m a ns) = State_Monad.return (ImportDeclaration l m a ns)"
| "substitute_types_in_ast params (ImportStr l f) = State_Monad.return (ImportStr l f)"
| "substitute_types_in_ast params (VarDeclaration l n t i e x k) = do {
     t \<leftarrow> if_present (map_option (sub_type params) t);
     i \<leftarrow> if_present (map_option (substitute_types_in_ast params) i);
     State_Monad.return (VarDeclaration l n t i e x k) }"
| "substitute_types_in_ast params (FunctionDeclaration l n ps r b x e k ts) = State_Monad.return (FunctionDeclaration l n ps r b x e k ts)"
| "substitute_types_in_ast params (StructDeclaration l n fs ms x ts) = State_Monad.return (StructDeclaration l n fs ms x ts)"
| "substitute_types_in_ast params (EnumDeclaration l n vs x ts) = State_Monad.return (EnumDeclaration l n vs x ts)"
| "substitute_types_in_ast params (TraitDeclaration l n x ms) = State_Monad.return (TraitDeclaration l n x ms)"
| "substitute_types_in_ast params (ImplDeclaration l t f ms) = State_Monad.return (ImplDeclaration l t f ms)"
| "substitute_types_in_ast params (MethodDeclaration l n ps r b) = State_Monad.return (MethodDeclaration l n ps r b)"
| "substitute_types_in_ast params (Assignment l n v t) = do {
     v \<leftarrow> substitute_types_in_ast params v;
     t \<leftarrow> if_present (map_option (substitute_types_in_ast params) t);
     State_Monad.return (Assignment l n v t) }"
| "substitute_types_in_ast params (CallExpression l f as ob ts) = do {
     ts \<leftarrow> in_order (map (sub_type params) ts);
     as \<leftarrow> in_order (map (substitute_types_in_ast params) as);
     ob \<leftarrow> if_present (map_option (substitute_types_in_ast params) ob);
     State_Monad.return (CallExpression l f as ob ts) }"
| "substitute_types_in_ast params (FuncPtrCall l f as) = State_Monad.return (FuncPtrCall l f as)"
| "substitute_types_in_ast params (ReturnStatement l v) = do {
     v \<leftarrow> if_present (map_option (substitute_types_in_ast params) v);
     State_Monad.return (ReturnStatement l v) }"
| "substitute_types_in_ast params (IfStatement l c t es e) = do {
     c \<leftarrow> substitute_types_in_ast params c;
     t \<leftarrow> substitute_types_in_ast params t;
     es \<leftarrow> in_order (map both (map (map_prod (substitute_types_in_ast params) (substitute_types_in_ast params)) es));
     e \<leftarrow> if_present (map_option (substitute_types_in_ast params) e);
     State_Monad.return (IfStatement l c t es e) }"
| "substitute_types_in_ast params (WhileStatement l c b k) = do {
     c \<leftarrow> substitute_types_in_ast params c;
     b \<leftarrow> substitute_types_in_ast params b;
     State_Monad.return (WhileStatement l c b k) }"
| "substitute_types_in_ast params (ForStatement l i c n b k) = do {
     i \<leftarrow> if_present (map_option (substitute_types_in_ast params) i);
     c \<leftarrow> if_present (map_option (substitute_types_in_ast params) c);
     n \<leftarrow> if_present (map_option (substitute_types_in_ast params) n);
     b \<leftarrow> substitute_types_in_ast params b;
     State_Monad.return (ForStatement l i c n b k) }"
| "substitute_types_in_ast params (SwitchStatement l e cs) = do {
     e \<leftarrow> substitute_types_in_ast params e;
     cs \<leftarrow> in_order (map (substitute_types_in_ast params) cs);
     State_Monad.return (SwitchStatement l e cs) }"
| "substitute_types_in_ast params (CaseClause l v b d) = do {
     v \<leftarrow> if_present (map_option (substitute_types_in_ast params) v);
     b \<leftarrow> substitute_types_in_ast params b;
     State_Monad.return (CaseClause l v b d) }"
| "substitute_types_in_ast params (MatchStatement l e as x) = State_Monad.return (MatchStatement l e as x)"
| "substitute_types_in_ast params (BreakStatement l k) = State_Monad.return (BreakStatement l k)"
| "substitute_types_in_ast params (ContinueStatement l k) = State_Monad.return (ContinueStatement l k)"
| "substitute_types_in_ast params (DeferStatement l s) = do {
     s \<leftarrow> substitute_types_in_ast params s; State_Monad.return (DeferStatement l s) }"
| "substitute_types_in_ast params (ErrdeferStatement l s) = do {
     s \<leftarrow> substitute_types_in_ast params s; State_Monad.return (ErrdeferStatement l s) }"
| "substitute_types_in_ast params (InlineAsm l c) = State_Monad.return (InlineAsm l c)"
| "substitute_types_in_ast params (Identifier l n) = State_Monad.return (Identifier l n)"
| "substitute_types_in_ast params (NumberLiteral l v r) = State_Monad.return (NumberLiteral l v r)"
| "substitute_types_in_ast params (FloatLiteral l v) = State_Monad.return (FloatLiteral l v)"
| "substitute_types_in_ast params (StringLiteral l v) = State_Monad.return (StringLiteral l v)"
| "substitute_types_in_ast params (BinaryExpression l a op b) = do {
     a \<leftarrow> substitute_types_in_ast params a;
     b \<leftarrow> substitute_types_in_ast params b;
     State_Monad.return (BinaryExpression l a op b) }"
| "substitute_types_in_ast params (UnaryExpression l op a) = do {
     a \<leftarrow> substitute_types_in_ast params a; State_Monad.return (UnaryExpression l op a) }"
| "substitute_types_in_ast params (MemberAccess l a m) = do {
     a \<leftarrow> substitute_types_in_ast params a; State_Monad.return (MemberAccess l a m) }"
| "substitute_types_in_ast params (ArrayIndexExpression l a i) = do {
     a \<leftarrow> substitute_types_in_ast params a;
     i \<leftarrow> substitute_types_in_ast params i;
     State_Monad.return (ArrayIndexExpression l a i) }"
| "substitute_types_in_ast params (NewExpression l t) = do { t \<leftarrow> sub_type params t; State_Monad.return (NewExpression l t) }"
| "substitute_types_in_ast params (CastExpression l t a) = State_Monad.return (CastExpression l t a)"

section \<open>Uses of generic types and functions\<close>

text \<open>Functions run one after the other.\<close>

definition run_all :: "('s \<Rightarrow> 's) list \<Rightarrow> 's \<Rightarrow> 's" where
  "run_all fs s = fold (\<lambda>f s. f s) fs s"

definition run_if :: "('s \<Rightarrow> 's) option \<Rightarrow> 's \<Rightarrow> 's" where
  "run_if f s = (case f of None \<Rightarrow> s | Some f \<Rightarrow> f s)"

primrec collect_type_instantiations :: "ASTNode \<Rightarrow> MonoContext \<Rightarrow> MonoContext" where
  "collect_type_instantiations (EmptyNode t l) = id"
| "collect_type_instantiations (Program l ds) = run_all (map collect_type_instantiations ds)"
| "collect_type_instantiations (ImportDeclaration l m a ns) = id"
| "collect_type_instantiations (ImportStr l f) = id"
| "collect_type_instantiations (VarDeclaration l n t i e x k) =
     run_if (map_option collect_type_instantiations i) \<circ> run_if (map_option (\<lambda>t. record_generic_type_use t l) t)"
| "collect_type_instantiations (FunctionDeclaration l n ps r b x e k ts) =
     (if ts \<noteq> [] then id
      else run_if (map_option (\<lambda>t. record_generic_type_use t l) r) \<circ>
           run_all (map (\<lambda>p. record_generic_type_use (snd p) l) ps) \<circ> run_if (map_option collect_type_instantiations b))"
| "collect_type_instantiations (StructDeclaration l n fs ms x ts) = id"
| "collect_type_instantiations (EnumDeclaration l n vs x ts) = id"
| "collect_type_instantiations (TraitDeclaration l n x ms) = id"
| "collect_type_instantiations (ImplDeclaration l t f ms) = id"
| "collect_type_instantiations (MethodDeclaration l n ps r b) = id"
| "collect_type_instantiations (Assignment l n v t) =
     run_if (map_option collect_type_instantiations t) \<circ> collect_type_instantiations v"
| "collect_type_instantiations (CallExpression l f as ob ts) =
     run_if (map_option collect_type_instantiations ob) \<circ> run_all (map collect_type_instantiations as) \<circ>
     (if ts \<noteq> [] then mono_add_instantiation f ts l else id)"
| "collect_type_instantiations (FuncPtrCall l f as) = id"
| "collect_type_instantiations (ReturnStatement l v) = run_if (map_option collect_type_instantiations v)"
| "collect_type_instantiations (IfStatement l c t es e) =
     run_if (map_option collect_type_instantiations e) \<circ>
     run_all (map (\<lambda>(f, g). g \<circ> f) (map (map_prod collect_type_instantiations collect_type_instantiations) es)) \<circ>
     collect_type_instantiations t \<circ> collect_type_instantiations c"
| "collect_type_instantiations (WhileStatement l c b k) = collect_type_instantiations b \<circ> collect_type_instantiations c"
| "collect_type_instantiations (ForStatement l i c n b k) =
     collect_type_instantiations b \<circ> run_if (map_option collect_type_instantiations n) \<circ>
     run_if (map_option collect_type_instantiations c) \<circ> run_if (map_option collect_type_instantiations i)"
| "collect_type_instantiations (SwitchStatement l e cs) = run_all (map collect_type_instantiations cs) \<circ> collect_type_instantiations e"
| "collect_type_instantiations (CaseClause l v b d) = collect_type_instantiations b \<circ> run_if (map_option collect_type_instantiations v)"
| "collect_type_instantiations (MatchStatement l e as x) = id"
| "collect_type_instantiations (BreakStatement l k) = id"
| "collect_type_instantiations (ContinueStatement l k) = id"
| "collect_type_instantiations (DeferStatement l s) = collect_type_instantiations s"
| "collect_type_instantiations (ErrdeferStatement l s) = collect_type_instantiations s"
| "collect_type_instantiations (InlineAsm l c) = id"
| "collect_type_instantiations (Identifier l n) = id"
| "collect_type_instantiations (NumberLiteral l v r) = id"
| "collect_type_instantiations (FloatLiteral l v) = id"
| "collect_type_instantiations (StringLiteral l v) = id"
| "collect_type_instantiations (BinaryExpression l a op b) = collect_type_instantiations b \<circ> collect_type_instantiations a"
| "collect_type_instantiations (UnaryExpression l op a) = collect_type_instantiations a"
| "collect_type_instantiations (MemberAccess l a m) = collect_type_instantiations a"
| "collect_type_instantiations (ArrayIndexExpression l a i) = collect_type_instantiations i \<circ> collect_type_instantiations a"
| "collect_type_instantiations (NewExpression l t) = record_generic_type_use t l"
| "collect_type_instantiations (CastExpression l t a) = id"

section \<open>References\<close>

text \<open>Of what follows the closing bracket only stars at the end are kept.\<close>

definition rewrite_generic_type_name_in_place :: "string \<Rightarrow> string" where
  "rewrite_generic_type_name_in_place type_str =
     (let core = strip_end (CHR ''*'') type_str
      in case parse_generic_type_name core of
           None \<Rightarrow> type_str
         | Some (base, args) \<Rightarrow> mangle_name base args @ replicate (length type_str - length core) (CHR ''*''))"

definition rewrite_new_type :: "string \<Rightarrow> string" where
  "rewrite_new_type type_name =
     (case parse_generic_type_name type_name of None \<Rightarrow> type_name | Some (base, args) \<Rightarrow> mangle_name base args)"

primrec rewrite_generic_references :: "ASTNode \<Rightarrow> ASTNode" where
  "rewrite_generic_references (EmptyNode t l) = EmptyNode t l"
| "rewrite_generic_references (Program l ds) = Program l (map rewrite_generic_references ds)"
| "rewrite_generic_references (ImportDeclaration l m a ns) = ImportDeclaration l m a ns"
| "rewrite_generic_references (ImportStr l f) = ImportStr l f"
| "rewrite_generic_references (VarDeclaration l n t i e x k) =
     VarDeclaration l n (map_option rewrite_generic_type_name_in_place t) (map_option rewrite_generic_references i) e x k"
| "rewrite_generic_references (FunctionDeclaration l n ps r b x e k ts) =
     (if ts \<noteq> [] then FunctionDeclaration l n ps r b x e k ts
      else FunctionDeclaration l n (map (apsnd rewrite_generic_type_name_in_place) ps)
             (map_option rewrite_generic_type_name_in_place r) (map_option rewrite_generic_references b) x e k ts)"
| "rewrite_generic_references (StructDeclaration l n fs ms x ts) =
     StructDeclaration l n (if ts \<noteq> [] then fs else map (apsnd rewrite_generic_type_name_in_place) fs) ms x ts"
| "rewrite_generic_references (EnumDeclaration l n vs x ts) = EnumDeclaration l n vs x ts"
| "rewrite_generic_references (TraitDeclaration l n x ms) = TraitDeclaration l n x ms"
| "rewrite_generic_references (ImplDeclaration l t f ms) = ImplDeclaration l t f ms"
| "rewrite_generic_references (MethodDeclaration l n ps r b) = MethodDeclaration l n ps r b"
| "rewrite_generic_references (Assignment l n v t) =
     Assignment l n (rewrite_generic_references v) (map_option rewrite_generic_references t)"
| "rewrite_generic_references (CallExpression l f as ob ts) =
     CallExpression l (if ts \<noteq> [] then mangle_name f ts else f) (map rewrite_generic_references as)
       (map_option rewrite_generic_references ob) []"
| "rewrite_generic_references (FuncPtrCall l f as) = FuncPtrCall l f as"
| "rewrite_generic_references (ReturnStatement l v) = ReturnStatement l (map_option rewrite_generic_references v)"
| "rewrite_generic_references (IfStatement l c t es e) =
     IfStatement l (rewrite_generic_references c) (rewrite_generic_references t)
       (map (map_prod rewrite_generic_references rewrite_generic_references) es) (map_option rewrite_generic_references e)"
| "rewrite_generic_references (WhileStatement l c b k) =
     WhileStatement l (rewrite_generic_references c) (rewrite_generic_references b) k"
| "rewrite_generic_references (ForStatement l i c n b k) =
     ForStatement l (map_option rewrite_generic_references i) (map_option rewrite_generic_references c)
       (map_option rewrite_generic_references n) (rewrite_generic_references b) k"
| "rewrite_generic_references (SwitchStatement l e cs) =
     SwitchStatement l (rewrite_generic_references e) (map rewrite_generic_references cs)"
| "rewrite_generic_references (CaseClause l v b d) =
     CaseClause l (map_option rewrite_generic_references v) (rewrite_generic_references b) d"
| "rewrite_generic_references (MatchStatement l e as x) = MatchStatement l e as x"
| "rewrite_generic_references (BreakStatement l k) = BreakStatement l k"
| "rewrite_generic_references (ContinueStatement l k) = ContinueStatement l k"
| "rewrite_generic_references (DeferStatement l s) = DeferStatement l (rewrite_generic_references s)"
| "rewrite_generic_references (ErrdeferStatement l s) = ErrdeferStatement l (rewrite_generic_references s)"
| "rewrite_generic_references (InlineAsm l c) = InlineAsm l c"
| "rewrite_generic_references (Identifier l n) = Identifier l n"
| "rewrite_generic_references (NumberLiteral l v r) = NumberLiteral l v r"
| "rewrite_generic_references (FloatLiteral l v) = FloatLiteral l v"
| "rewrite_generic_references (StringLiteral l v) = StringLiteral l v"
| "rewrite_generic_references (BinaryExpression l a op b) =
     BinaryExpression l (rewrite_generic_references a) op (rewrite_generic_references b)"
| "rewrite_generic_references (UnaryExpression l op a) = UnaryExpression l op (rewrite_generic_references a)"
| "rewrite_generic_references (MemberAccess l a m) = MemberAccess l (rewrite_generic_references a) m"
| "rewrite_generic_references (ArrayIndexExpression l a i) =
     ArrayIndexExpression l (rewrite_generic_references a) (rewrite_generic_references i)"
| "rewrite_generic_references (NewExpression l t) = NewExpression l (rewrite_new_type t)"
| "rewrite_generic_references (CastExpression l t a) = CastExpression l t a"

section \<open>Copies of templates\<close>

definition sub_types :: "(string \<times> string) list \<Rightarrow> (string \<times> string) list \<Rightarrow> (MonoContext, (string \<times> string) list) state" where
  "sub_types params typed_names = in_order (map (\<lambda>(name, type_name). do {
     type_name \<leftarrow> sub_type params type_name; State_Monad.return (name, type_name) }) typed_names)"

text \<open>The binding of the parameters of a definition to the arguments of an instance.\<close>

definition type_binding :: "GenericDef \<Rightarrow> Instantiation \<Rightarrow> (string \<times> string) list" where
  "type_binding def inst = zip (map fst (gd_type_params def)) (in_type_args inst)"

definition create_monomorphized_struct :: "GenericDef \<Rightarrow> Instantiation \<Rightarrow> (MonoContext, ASTNode) state" where
  "create_monomorphized_struct def inst =
     (case ast_clone_node (gd_node def) of
        StructDeclaration l name struct_fields methods is_exported type_params \<Rightarrow> do {
          struct_fields \<leftarrow> sub_types (type_binding def inst) struct_fields;
          State_Monad.return (StructDeclaration l (in_mangled_name inst) struct_fields methods is_exported []) }
      | clone \<Rightarrow> State_Monad.return clone)"

definition create_monomorphized_function :: "GenericDef \<Rightarrow> Instantiation \<Rightarrow> (MonoContext, ASTNode) state" where
  "create_monomorphized_function def inst =
     (case ast_clone_node (gd_node def) of
        FunctionDeclaration l name params return_type body is_exported is_extern link_name type_params \<Rightarrow> do {
          params \<leftarrow> sub_types (type_binding def inst) params;
          return_type \<leftarrow> if_present (map_option (sub_type (type_binding def inst)) return_type);
          body \<leftarrow> if_present (map_option (substitute_types_in_ast (type_binding def inst)) body);
          State_Monad.return (FunctionDeclaration l (in_mangled_name inst) params return_type body is_exported is_extern link_name []) }
      | clone \<Rightarrow> State_Monad.return clone)"

definition create_monomorphized :: "GenericDef \<Rightarrow> Instantiation \<Rightarrow> (MonoContext, ASTNode) state" where
  "create_monomorphized def inst =
     (if gd_is_struct def then create_monomorphized_struct def inst else create_monomorphized_function def inst)"

text \<open>The loop over the instances. The list grows while it is read; a round of the outer loop of the source takes the
  instances that were there when it began, the next round those that came up since, so that the instances are taken
  in the order of the list until none is left. NULL for a failure, with the context.\<close>

fun instantiate_from :: "nat \<Rightarrow> nat \<Rightarrow> ASTNode list \<Rightarrow> MonoContext \<Rightarrow> (ASTNode list option \<times> MonoContext) option" where
  "instantiate_from 0 i declarations ctx = None"
| "instantiate_from (Suc fuel) i declarations ctx =
     (if length (mc_instances ctx) \<le> i then Some (Some declarations, ctx)
      else let inst = mc_instances ctx ! i
           in case find_generic_def ctx (in_generic_name inst) of
                None \<Rightarrow> instantiate_from fuel (Suc i) declarations ctx
              | Some def \<Rightarrow>
                  (case validate_instantiation def inst ctx of
                     (False, ctx) \<Rightarrow> Some (None, ctx)
                   | (True, ctx) \<Rightarrow>
                       let (mono_node, ctx) = run_state (create_monomorphized def inst) ctx
                       in instantiate_from fuel (Suc i) (declarations @ [mono_node]) (collect_type_instantiations mono_node ctx)))"

section \<open>Methods of traits\<close>

text \<open>A method of an implementation as a function, or NULL if it is not a function.\<close>

definition mono_create_impl_method_function :: "TraitImpl \<Rightarrow> ASTNode \<Rightarrow> (MonoContext, ASTNode option) state" where
  "mono_create_impl_method_function impl method_node =
     (let self = [(''Self'', ti_for_type_name impl)]
      in case ast_clone_node method_node of
           FunctionDeclaration l name params return_type body is_exported is_extern link_name type_params \<Rightarrow> do {
             params \<leftarrow> sub_types self params;
             return_type \<leftarrow> if_present (map_option (sub_type self) return_type);
             body \<leftarrow> if_present (map_option (substitute_types_in_ast self) body);
             State_Monad.return (Some (FunctionDeclaration l
               (mono_mangle_impl_method_name (ti_trait_name impl) (ti_for_type_name impl) name)
               params return_type body False is_extern link_name type_params)) }
         | _ \<Rightarrow> State_Monad.return None)"

fun emit_methods :: "(TraitImpl \<times> ASTNode) list \<Rightarrow> ASTNode list \<Rightarrow> MonoContext \<Rightarrow> ASTNode list option \<times> MonoContext" where
  "emit_methods [] declarations ctx = (Some declarations, ctx)"
| "emit_methods ((impl, method_node) # rest) declarations ctx =
     (case run_state (mono_create_impl_method_function impl method_node) ctx of
        (None, ctx) \<Rightarrow> (None, mono_report_error \<lparr>loc_line = 0, loc_column = 0\<rparr> ''Failed to create trait impl method function'' ctx)
      | (Some fn, ctx) \<Rightarrow> emit_methods rest (declarations @ [fn]) ctx)"

definition mono_emit_impl_method_functions :: "ASTNode list \<Rightarrow> MonoContext \<Rightarrow> ASTNode list option \<times> MonoContext" where
  "mono_emit_impl_method_functions declarations ctx =
     emit_methods (concat (map (\<lambda>impl. map (Pair impl) (ti_methods impl)) (mc_impls ctx))) declarations ctx"

text \<open>The types of the variables, by name. A name that comes again takes the place of the first.\<close>

type_synonym MonoVarEnv = "(string \<times> string) list"

definition mono_env_add :: "string \<Rightarrow> string option \<Rightarrow> MonoVarEnv \<Rightarrow> MonoVarEnv" where
  "mono_env_add name type_name env = (case type_name of None \<Rightarrow> env | Some t \<Rightarrow> AList.update name t env)"

definition mono_env_lookup :: "MonoVarEnv \<Rightarrow> string \<Rightarrow> string option" where
  "mono_env_lookup env name = map_of (rev env) name"

text \<open>The one implementation for a type that has the method; \<open>Inl\<close> if there are two.\<close>

definition mono_find_impl_for_method :: "MonoContext \<Rightarrow> string \<Rightarrow> string \<Rightarrow> unit + TraitImpl option" where
  "mono_find_impl_for_method ctx type_name method_name =
     (case filter (\<lambda>impl. ti_for_type_name impl = type_name \<and> mono_find_function_method (ti_methods impl) method_name \<noteq> None)
             (mc_impls ctx) of
        [] \<Rightarrow> Inr None
      | [impl] \<Rightarrow> Inr (Some impl)
      | _ \<Rightarrow> Inl ())"

type_synonym 'a rewriter = "MonoVarEnv \<times> MonoContext \<Rightarrow> MonoContext + ('a \<times> MonoVarEnv \<times> MonoContext)"

definition done_with :: "'a \<Rightarrow> 'a rewriter" where
  "done_with x s = Inr (x, s)"

definition and_then :: "'a rewriter \<Rightarrow> ('a \<Rightarrow> 'b rewriter) \<Rightarrow> 'b rewriter" where
  "and_then m f s = (case m s of Inl ctx \<Rightarrow> Inl ctx | Inr (x, s) \<Rightarrow> f x s)"

fun each :: "'a rewriter list \<Rightarrow> 'a list rewriter" where
  "each [] = done_with []"
| "each (m # ms) = and_then m (\<lambda>x. and_then (each ms) (\<lambda>xs. done_with (x # xs)))"

definition maybe :: "'a rewriter option \<Rightarrow> 'a option rewriter" where
  "maybe m = (case m of None \<Rightarrow> done_with None | Some m \<Rightarrow> and_then m (\<lambda>x. done_with (Some x)))"

text \<open>A call whose arguments and object have been rewritten.\<close>

definition mono_rewrite_trait_method_call ::
    "SourceLocation \<Rightarrow> string \<Rightarrow> ASTNode list \<Rightarrow> ASTNode option \<Rightarrow> string list \<Rightarrow> ASTNode rewriter" where
  "mono_rewrite_trait_method_call location function_name arguments object type_args s =
     (let (env, ctx) = s; unchanged = CallExpression location function_name arguments object type_args
      in case object of
           Some (Identifier l name) \<Rightarrow>
             (case mono_env_lookup env name of
                None \<Rightarrow> done_with unchanged s
              | Some object_type \<Rightarrow>
                  (case mono_find_impl_for_method ctx object_type function_name of
                     Inl _ \<Rightarrow> Inl (mono_report_error location (''Trait method call '' @ quoted (name @ ''.'' @ function_name) @
                       '' is ambiguous for type '' @ quoted object_type) ctx)
                   | Inr None \<Rightarrow> done_with unchanged s
                   | Inr (Some impl) \<Rightarrow>
                       done_with (CallExpression location
                         (mono_mangle_impl_method_name (ti_trait_name impl) (ti_for_type_name impl) function_name)
                         (ast_clone_node (Identifier l name) # arguments) None type_args) s))
         | _ \<Rightarrow> done_with unchanged s)"

text \<open>The children of a node are visited in the order in which they were attached, the cases of a \<open>switch\<close> before its
  expression and the target of an assignment before its value.\<close>

primrec mono_rewrite_trait_method_calls_in_node :: "ASTNode \<Rightarrow> ASTNode rewriter" where
  "mono_rewrite_trait_method_calls_in_node (EmptyNode t l) = done_with (EmptyNode t l)"
| "mono_rewrite_trait_method_calls_in_node (Program l ds) = and_then (each (map mono_rewrite_trait_method_calls_in_node ds)) (\<lambda>ds. done_with (Program l ds))"
| "mono_rewrite_trait_method_calls_in_node (ImportDeclaration l m a ns) = done_with (ImportDeclaration l m a ns)"
| "mono_rewrite_trait_method_calls_in_node (ImportStr l f) = done_with (ImportStr l f)"
| "mono_rewrite_trait_method_calls_in_node (VarDeclaration l n t i e x k) =
     and_then (maybe (map_option mono_rewrite_trait_method_calls_in_node i)) (\<lambda>i (env, ctx).
       done_with (VarDeclaration l n t i e x k) (mono_env_add n t env, ctx))"
| "mono_rewrite_trait_method_calls_in_node (FunctionDeclaration l n ps r b x e k ts) =
     and_then (maybe (map_option mono_rewrite_trait_method_calls_in_node b)) (\<lambda>b. done_with (FunctionDeclaration l n ps r b x e k ts))"
| "mono_rewrite_trait_method_calls_in_node (StructDeclaration l n fs ms x ts) =
     and_then (each (map mono_rewrite_trait_method_calls_in_node ms)) (\<lambda>ms. done_with (StructDeclaration l n fs ms x ts))"
| "mono_rewrite_trait_method_calls_in_node (EnumDeclaration l n vs x ts) =
     and_then (each (map (\<lambda>v. and_then (maybe (ev_value v)) (\<lambda>value. done_with (EnumVariant (ev_name v) value (ev_payload_type v))))
       (map (map_EnumVariant mono_rewrite_trait_method_calls_in_node) vs))) (\<lambda>vs. done_with (EnumDeclaration l n vs x ts))"
| "mono_rewrite_trait_method_calls_in_node (TraitDeclaration l n x ms) = and_then (each (map mono_rewrite_trait_method_calls_in_node ms)) (\<lambda>ms. done_with (TraitDeclaration l n x ms))"
| "mono_rewrite_trait_method_calls_in_node (ImplDeclaration l t f ms) = and_then (each (map mono_rewrite_trait_method_calls_in_node ms)) (\<lambda>ms. done_with (ImplDeclaration l t f ms))"
| "mono_rewrite_trait_method_calls_in_node (MethodDeclaration l n ps r b) =
     and_then (maybe (map_option mono_rewrite_trait_method_calls_in_node b)) (\<lambda>b. done_with (MethodDeclaration l n ps r b))"
| "mono_rewrite_trait_method_calls_in_node (Assignment l n v t) =
     and_then (maybe (map_option mono_rewrite_trait_method_calls_in_node t)) (\<lambda>t. and_then (mono_rewrite_trait_method_calls_in_node v) (\<lambda>v. done_with (Assignment l n v t)))"
| "mono_rewrite_trait_method_calls_in_node (CallExpression l f as ob ts) =
     and_then (each (map mono_rewrite_trait_method_calls_in_node as)) (\<lambda>as. and_then (maybe (map_option mono_rewrite_trait_method_calls_in_node ob)) (\<lambda>ob. mono_rewrite_trait_method_call l f as ob ts))"
| "mono_rewrite_trait_method_calls_in_node (FuncPtrCall l f as) =
     and_then (mono_rewrite_trait_method_calls_in_node f) (\<lambda>f. and_then (each (map mono_rewrite_trait_method_calls_in_node as)) (\<lambda>as. done_with (FuncPtrCall l f as)))"
| "mono_rewrite_trait_method_calls_in_node (ReturnStatement l v) = and_then (maybe (map_option mono_rewrite_trait_method_calls_in_node v)) (\<lambda>v. done_with (ReturnStatement l v))"
| "mono_rewrite_trait_method_calls_in_node (IfStatement l c t es e) =
     and_then (mono_rewrite_trait_method_calls_in_node c) (\<lambda>c. and_then (mono_rewrite_trait_method_calls_in_node t) (\<lambda>t.
     and_then (each (map (\<lambda>(m, m'). and_then m (\<lambda>a. and_then m' (\<lambda>b. done_with (a, b)))) (map (map_prod mono_rewrite_trait_method_calls_in_node mono_rewrite_trait_method_calls_in_node) es))) (\<lambda>es.
     and_then (maybe (map_option mono_rewrite_trait_method_calls_in_node e)) (\<lambda>e. done_with (IfStatement l c t es e)))))"
| "mono_rewrite_trait_method_calls_in_node (WhileStatement l c b k) = and_then (mono_rewrite_trait_method_calls_in_node c) (\<lambda>c. and_then (mono_rewrite_trait_method_calls_in_node b) (\<lambda>b. done_with (WhileStatement l c b k)))"
| "mono_rewrite_trait_method_calls_in_node (ForStatement l i c n b k) =
     and_then (maybe (map_option mono_rewrite_trait_method_calls_in_node i)) (\<lambda>i. and_then (maybe (map_option mono_rewrite_trait_method_calls_in_node c)) (\<lambda>c.
     and_then (maybe (map_option mono_rewrite_trait_method_calls_in_node n)) (\<lambda>n. and_then (mono_rewrite_trait_method_calls_in_node b) (\<lambda>b. done_with (ForStatement l i c n b k)))))"
| "mono_rewrite_trait_method_calls_in_node (SwitchStatement l e cs) =
     and_then (each (map mono_rewrite_trait_method_calls_in_node cs)) (\<lambda>cs. and_then (mono_rewrite_trait_method_calls_in_node e) (\<lambda>e. done_with (SwitchStatement l e cs)))"
| "mono_rewrite_trait_method_calls_in_node (CaseClause l v b d) =
     and_then (maybe (map_option mono_rewrite_trait_method_calls_in_node v)) (\<lambda>v. and_then (mono_rewrite_trait_method_calls_in_node b) (\<lambda>b. done_with (CaseClause l v b d)))"
| "mono_rewrite_trait_method_calls_in_node (MatchStatement l e as x) =
     and_then (mono_rewrite_trait_method_calls_in_node e) (\<lambda>e. and_then (each (map (\<lambda>arm. and_then (arm_body arm) (\<lambda>body.
       done_with (MatchArm (arm_variant_name arm) (arm_binding_name arm) body (arm_is_default arm)))) (map (map_MatchArm mono_rewrite_trait_method_calls_in_node) as)))
       (\<lambda>as. done_with (MatchStatement l e as x)))"
| "mono_rewrite_trait_method_calls_in_node (BreakStatement l k) = done_with (BreakStatement l k)"
| "mono_rewrite_trait_method_calls_in_node (ContinueStatement l k) = done_with (ContinueStatement l k)"
| "mono_rewrite_trait_method_calls_in_node (DeferStatement l s) = and_then (mono_rewrite_trait_method_calls_in_node s) (\<lambda>s. done_with (DeferStatement l s))"
| "mono_rewrite_trait_method_calls_in_node (ErrdeferStatement l s) = and_then (mono_rewrite_trait_method_calls_in_node s) (\<lambda>s. done_with (ErrdeferStatement l s))"
| "mono_rewrite_trait_method_calls_in_node (InlineAsm l c) = done_with (InlineAsm l c)"
| "mono_rewrite_trait_method_calls_in_node (Identifier l n) = done_with (Identifier l n)"
| "mono_rewrite_trait_method_calls_in_node (NumberLiteral l v r) = done_with (NumberLiteral l v r)"
| "mono_rewrite_trait_method_calls_in_node (FloatLiteral l v) = done_with (FloatLiteral l v)"
| "mono_rewrite_trait_method_calls_in_node (StringLiteral l v) = done_with (StringLiteral l v)"
| "mono_rewrite_trait_method_calls_in_node (BinaryExpression l a op b) = and_then (mono_rewrite_trait_method_calls_in_node a) (\<lambda>a. and_then (mono_rewrite_trait_method_calls_in_node b) (\<lambda>b. done_with (BinaryExpression l a op b)))"
| "mono_rewrite_trait_method_calls_in_node (UnaryExpression l op a) = and_then (mono_rewrite_trait_method_calls_in_node a) (\<lambda>a. done_with (UnaryExpression l op a))"
| "mono_rewrite_trait_method_calls_in_node (MemberAccess l a m) = and_then (mono_rewrite_trait_method_calls_in_node a) (\<lambda>a. done_with (MemberAccess l a m))"
| "mono_rewrite_trait_method_calls_in_node (ArrayIndexExpression l a i) = and_then (mono_rewrite_trait_method_calls_in_node a) (\<lambda>a. and_then (mono_rewrite_trait_method_calls_in_node i) (\<lambda>i. done_with (ArrayIndexExpression l a i)))"
| "mono_rewrite_trait_method_calls_in_node (NewExpression l t) = done_with (NewExpression l t)"
| "mono_rewrite_trait_method_calls_in_node (CastExpression l t a) = and_then (mono_rewrite_trait_method_calls_in_node a) (\<lambda>a. done_with (CastExpression l t a))"

definition mono_rewrite_trait_method_calls_in_function :: "ASTNode \<Rightarrow> MonoContext \<Rightarrow> MonoContext + ASTNode \<times> MonoContext" where
  "mono_rewrite_trait_method_calls_in_function decl ctx =
     (case decl of
        FunctionDeclaration l name params return_type (Some body) is_exported is_extern link_name type_params \<Rightarrow>
          (case mono_rewrite_trait_method_calls_in_node body (fold (\<lambda>(n, t). mono_env_add n (Some t)) params [], ctx) of
             Inl ctx \<Rightarrow> Inl ctx
           | Inr (body, env, ctx) \<Rightarrow>
               Inr (FunctionDeclaration l name params return_type (Some body) is_exported is_extern link_name type_params, ctx))
      | _ \<Rightarrow> Inr (decl, ctx))"

section \<open>The program\<close>

definition is_generic :: "ASTNode \<Rightarrow> bool" where
  "is_generic decl \<longleftrightarrow>
     (case decl of StructDeclaration _ _ _ _ _ type_params \<Rightarrow> type_params \<noteq> []
      | FunctionDeclaration _ _ _ _ _ _ _ _ type_params \<Rightarrow> type_params \<noteq> [] | _ \<Rightarrow> False)"

definition is_compile_time_trait_decl :: "ASTNode \<Rightarrow> bool" where
  "is_compile_time_trait_decl decl \<longleftrightarrow>
     (case decl of TraitDeclaration _ _ _ _ \<Rightarrow> True | ImplDeclaration _ _ _ _ \<Rightarrow> True | _ \<Rightarrow> False)"

fun mono_rewrite_trait_method_calls :: "ASTNode list \<Rightarrow> MonoContext \<Rightarrow> ASTNode list option \<times> MonoContext" where
  "mono_rewrite_trait_method_calls [] ctx = (Some [], ctx)"
| "mono_rewrite_trait_method_calls (decl # decls) ctx =
     (case (if is_generic decl then Inr (decl, ctx) else mono_rewrite_trait_method_calls_in_function decl ctx) of
        Inl ctx \<Rightarrow> (None, ctx)
      | Inr (decl, ctx) \<Rightarrow> apfst (map_option (Cons decl)) (mono_rewrite_trait_method_calls decls ctx))"

text \<open>The instances and their rewriting, if there is a generic definition at all.\<close>

definition instantiate_all :: "nat \<Rightarrow> ASTNode list \<Rightarrow> MonoContext \<Rightarrow> (ASTNode list option \<times> MonoContext) option" where
  "instantiate_all fuel declarations ctx =
     (if mc_defs ctx = [] then Some (Some declarations, ctx)
      else map_option (apfst (map_option (map rewrite_generic_references)))
             (instantiate_from fuel 0 declarations (run_all (map collect_type_instantiations declarations) ctx)))"

definition mono_context :: "bool \<Rightarrow> MonoContext" where
  "mono_context reporter = \<lparr>mc_reporter = reporter, mc_reports = [], mc_had_error = False, mc_traits = [], mc_impls = [],
     mc_defs = [], mc_instances = []\<rparr>"

text \<open>The declarations of the program, or NULL if there is an error, and what was reported.\<close>

definition monomorphize_program :: "nat \<Rightarrow> ASTNode list \<Rightarrow> bool \<Rightarrow> (ASTNode list option \<times> MonoContext) option" where
  "monomorphize_program fuel declarations reporter =
     (let ctx = collect_generic_defs declarations (mono_context reporter)
      in if mc_had_error ctx then Some (None, ctx)
         else case mono_emit_impl_method_functions declarations ctx of
                (None, ctx) \<Rightarrow> Some (None, ctx)
              | (Some declarations, ctx) \<Rightarrow>
                  (case instantiate_all fuel declarations ctx of
                     None \<Rightarrow> None
                   | Some (None, ctx) \<Rightarrow> Some (None, ctx)
                   | Some (Some declarations, ctx) \<Rightarrow>
                       (case mono_rewrite_trait_method_calls declarations ctx of
                          (None, ctx) \<Rightarrow> Some (None, ctx)
                        | (Some declarations, ctx) \<Rightarrow>
                            Some (if mc_had_error ctx then None
                                  else Some (filter (\<lambda>d. \<not> is_generic d \<and> \<not> is_compile_time_trait_decl d) declarations), ctx))))"

end
