(* ===== verification/Type_Text.thy ===== *)
theory Type_Text
  imports Mono_Types
begin

text \<open>
  The structure of a type behind its text. What \<open>substitute_type_string\<close> does to the characters is shown to be
  substitution on the structure, with every instance of a generic type mangled and recorded.
\<close>

section \<open>Types and their text\<close>

text \<open>A name or an instance of a generic type, with its stars and its array suffix.\<close>

datatype type_exp = Named string nat string | Applied string "type_exp list" nat string

fun commas :: "string list \<Rightarrow> string" where
  "commas [] = []"
| "commas [s] = s"
| "commas (s # t # ss) = s @ CHR '','' # commas (t # ss)"

definition stars :: "nat \<Rightarrow> string" where
  "stars k = replicate k (CHR ''*'')"

primrec type_text :: "type_exp \<Rightarrow> string" where
  "type_text (Named name k array) = name @ stars k @ array"
| "type_text (Applied base args k array) = base @ CHR ''<'' # commas (map type_text args) @ CHR ''>'' # stars k @ array"

definition plain :: "string \<Rightarrow> bool" where
  "plain s \<longleftrightarrow> s \<noteq> [] \<and> set s \<inter> {CHR ''<'', CHR ''>'', CHR '','', CHR ''*'', CHR ''['', CHR '' ''} = {}"

definition array_text :: "string \<Rightarrow> bool" where
  "array_text s \<longleftrightarrow> s = [] \<or> hd s = CHR ''['' \<and> set s \<inter> {CHR ''<'', CHR ''>'', CHR '','', CHR '' ''} = {}"

primrec type_ok :: "type_exp \<Rightarrow> bool" where
  "type_ok (Named name k array) = (plain name \<and> array_text array)"
| "type_ok (Applied base args k array) = (plain base \<and> args \<noteq> [] \<and> list_all (\<lambda>b. b) (map type_ok args) \<and> array_text array)"

section \<open>Scanning past a type\<close>

inductive balanced :: "string \<Rightarrow> bool" where
  balanced_nil: "balanced []"
| balanced_char: "c \<noteq> CHR ''<'' \<Longrightarrow> c \<noteq> CHR ''>'' \<Longrightarrow> balanced s \<Longrightarrow> balanced (c # s)"
| balanced_angle: "balanced s \<Longrightarrow> balanced t \<Longrightarrow> balanced (CHR ''<'' # s @ CHR ''>'' # t)"

lemma balanced_append: "balanced s \<Longrightarrow> balanced t \<Longrightarrow> balanced (s @ t)"
  by (induction s rule: balanced.induct) (auto intro: balanced.intros)

lemma balanced_free: "set s \<inter> {CHR ''<'', CHR ''>''} = {} \<Longrightarrow> balanced s"
  by (induction s) (auto intro: balanced.intros)

lemma balanced_commas: "\<forall>s \<in> set ss. balanced s \<Longrightarrow> balanced (commas ss)"
  by (induction ss rule: commas.induct) (auto intro!: balanced_append balanced_char balanced_nil)

lemma balanced_up_to_close:
  assumes "balanced s" "1 \<le> d"
  shows "up_to_close d (s @ r) = map_option ((@) s) (up_to_close d r)"
  using assms
proof (induction s arbitrary: d r rule: balanced.induct)
  case balanced_nil
  then show ?case by (simp add: option.map_ident)
next
  case (balanced_char c s)
  then show ?case by (simp add: option.map_comp comp_def)
next
  case (balanced_angle s t)
  then show ?case by (simp add: option.map_comp comp_def)
qed

lemma balanced_split_argument:
  assumes "balanced s" "1 \<le> d"
  shows "split_argument d (s @ r) = apfst ((@) s) (split_argument d r)"
  using assms by (induction s arbitrary: d r rule: balanced.induct) (auto simp: apfst_def map_prod_def split: prod.splits)

lemma balanced_split_array:
  assumes "balanced s" "1 \<le> d"
  shows "split_array_suffix d (s @ r) = apfst ((@) s) (split_array_suffix d r)"
  using assms by (induction s arbitrary: d r rule: balanced.induct) (auto simp: apfst_def map_prod_def split: prod.splits)

text \<open>Scanning past characters that mean nothing at depth zero.\<close>

lemma free_split_argument:
  "set s \<inter> {CHR ''<'', CHR ''>'', CHR '',''} = {} \<Longrightarrow> split_argument d (s @ r) = apfst ((@) s) (split_argument d r)"
  by (induction s) (auto simp: apfst_def map_prod_def split: prod.splits)

lemma free_split_array:
  "set s \<inter> {CHR ''<'', CHR ''>'', CHR ''[''} = {} \<Longrightarrow> split_array_suffix d (s @ r) = apfst ((@) s) (split_array_suffix d r)"
  by (induction s) (auto simp: apfst_def map_prod_def split: prod.splits)

lemma plainD: "plain s \<Longrightarrow> s \<noteq> []" "plain s \<Longrightarrow> balanced s" "plain s \<Longrightarrow> CHR ''<'' \<notin> set s"
  "plain s \<Longrightarrow> set s \<inter> {CHR ''<'', CHR ''>'', CHR '',''} = {}" "plain s \<Longrightarrow> set s \<inter> {CHR ''<'', CHR ''>'', CHR ''[''} = {}"
  "plain s \<Longrightarrow> hd s \<noteq> CHR '' ''" "plain s \<Longrightarrow> last s \<noteq> CHR '' ''" "plain s \<Longrightarrow> last s \<noteq> CHR ''*''"
proof -
  assume p: "plain s"
  then show "s \<noteq> []" "CHR ''<'' \<notin> set s" "set s \<inter> {CHR ''<'', CHR ''>'', CHR '',''} = {}"
    "set s \<inter> {CHR ''<'', CHR ''>'', CHR ''[''} = {}" "balanced s" by (auto simp: plain_def intro: balanced_free)
  then have "hd s \<in> set s" "last s \<in> set s" by simp_all
  then show "hd s \<noteq> CHR '' ''" "last s \<noteq> CHR '' ''" "last s \<noteq> CHR ''*''" using p by (force simp: plain_def)+
qed

lemma set_stars: "set (stars k) \<subseteq> {CHR ''*''}"
  by (auto simp: stars_def)

lemma tail_free:
  assumes "array_text array"
  shows "set (stars k @ array) \<inter> {CHR ''<'', CHR ''>'', CHR '','', CHR '' ''} = {}"
  using assms set_stars [of k] by (auto simp: array_text_def)

lemma balanced_type_text: "type_ok t \<Longrightarrow> balanced (type_text t)"
proof (induction t)
  case (Named name k array)
  then have "balanced (stars k @ array)" using tail_free [of array k] by (auto intro: balanced_free)
  then show ?case using Named by (auto intro: balanced_append plainD(2))
next
  case (Applied base args k array)
  then have "balanced (stars k @ array)" using tail_free [of array k] by (auto intro: balanced_free)
  moreover have "balanced (commas (map type_text args))"
    using Applied by (intro balanced_commas) (auto simp: list_all_iff)
  ultimately show ?case using Applied.prems by (auto intro!: balanced_append [OF plainD(2)] balanced_angle)
qed

lemma split_argument_type:
  assumes "type_ok t" "r = [] \<or> hd r = CHR '',''"
  shows "split_argument 0 (type_text t @ r) = (type_text t, r)"
proof -
  have r: "split_argument 0 r = ([], r)" using assms(2) by (cases r) auto
  have tail: "split_argument 0 (stars k @ array @ r) = (stars k @ array, r)" if "array_text array" for k array
    using free_split_argument [of "stars k @ array" 0 r] tail_free [OF that, of k] r by (auto simp: apfst_def)
  show ?thesis
  proof (cases t)
    case (Named name k array)
    then show ?thesis using assms tail [of array k] free_split_argument [OF plainD(4)] by (simp add: apfst_def)
  next
    case (Applied base args k array)
    have "balanced (commas (map type_text args))"
      using assms(1) Applied balanced_type_text by (intro balanced_commas) (auto simp: list_all_iff)
    then show ?thesis using assms Applied tail [of array k] free_split_argument [OF plainD(4)] balanced_split_argument [of _ 1]
      by (simp add: apfst_def)
  qed
qed

text \<open>No text of a type starts or ends with a blank.\<close>

lemma type_text_ends:
  assumes "type_ok t"
  shows "type_text t \<noteq> []" "hd (type_text t) \<noteq> CHR '' ''" "last (type_text t) \<noteq> CHR '' ''"
proof -
  have tail: "last (x @ stars k @ array) \<noteq> CHR '' ''" if "array_text array" "x \<noteq> []" "last x \<noteq> CHR '' ''" for x k array
  proof (cases "stars k @ array = []")
    case False
    then have "last (x @ stars k @ array) \<in> set (stars k @ array)" by (metis last_appendR last_in_set)
    then show ?thesis using tail_free [OF that(1), of k] by force
  qed (use that in simp)
  obtain name r where "type_text t = name @ r" "plain name" using assms by (cases t) auto
  then show "type_text t \<noteq> []" "hd (type_text t) \<noteq> CHR '' ''" using plainD(1,6) by auto
  show "last (type_text t) \<noteq> CHR '' ''"
  proof (cases t)
    case (Named name k array)
    then show ?thesis using assms tail [of array name k] by (auto dest: plainD)
  next
    case (Applied base args k array)
    then show ?thesis using assms tail [of array "base @ CHR ''<'' # commas (map type_text args) @ [CHR ''>'']" k] by simp
  qed
qed

lemma strip_end_id: "s = [] \<or> last s \<noteq> c \<Longrightarrow> strip_end c s = s"
  unfolding strip_end_def by (cases s rule: rev_cases) auto

lemma strip_end_stars: "last s \<noteq> CHR ''*'' \<Longrightarrow> s \<noteq> [] \<Longrightarrow> strip_end (CHR ''*'') (s @ stars k) = s"
  unfolding strip_end_def stars_def by (cases s rule: rev_cases) (auto simp: dropWhile_append)

lemma arguments_of_types: "ts \<noteq> [] \<Longrightarrow> \<forall>t \<in> set ts. type_ok t \<Longrightarrow> generic_arguments (commas (map type_text ts)) = map type_text ts"
proof (induction ts)
  case (Cons t ts)
  let ?r = "if ts = [] then [] else CHR '','' # commas (map type_text ts)"
  have joined: "commas (map type_text (t # ts)) = type_text t @ ?r" by (cases ts) auto
  note ends = type_text_ends [of t]
  have start: "dropWhile (\<lambda>c. c = CHR '' '') (type_text t @ ?r) = type_text t @ ?r"
    using ends Cons.prems by (cases "type_text t") auto
  have "split_argument 0 (type_text t @ ?r) = (type_text t, ?r)" using Cons.prems by (intro split_argument_type) auto
  moreover have "strip_end (CHR '' '') (type_text t) = type_text t" using ends Cons.prems by (intro strip_end_id) auto
  ultimately show ?case unfolding joined using Cons ends start by (subst generic_arguments.simps) auto
qed simp

text \<open>The text of an instance, whatever follows it, parses back to the generic type and the texts of its arguments.\<close>

lemma parse_instance:
  assumes "plain base" "args \<noteq> []" "\<forall>t \<in> set args. type_ok t"
  shows "parse_generic_type_name (base @ CHR ''<'' # commas (map type_text args) @ CHR ''>'' # r) = Some (base, map type_text args)"
proof -
  have "takeWhile (\<lambda>c. c \<noteq> CHR ''<'') (base @ CHR ''<'' # x) = base"
    "dropWhile (\<lambda>c. c \<noteq> CHR ''<'') (base @ CHR ''<'' # x) = CHR ''<'' # x" for x
    using plainD(3) [OF assms(1)] by (subst takeWhile_append2 dropWhile_append2; auto)+
  moreover have "up_to_close 1 (commas (map type_text args) @ CHR ''>'' # r) = Some (commas (map type_text args))"
    using assms(3) balanced_type_text by (subst balanced_up_to_close) (auto intro!: balanced_commas)
  ultimately show ?thesis using arguments_of_types [OF assms(2,3)] by (simp add: parse_generic_type_name_def)
qed

section \<open>Substitution on the structure\<close>

primrec mono_type :: "(string \<times> string) list \<Rightarrow> type_exp \<Rightarrow> string" where
  "mono_type params (Named name k array) = (case map_of params name of Some arg \<Rightarrow> arg | None \<Rightarrow> name) @ stars k @ array"
| "mono_type params (Applied base args k array) = mangle_name base (map (mono_type params) args) @ stars k @ array"

text \<open>The instances in a type, the inner ones first.\<close>

primrec instances_of :: "(string \<times> string) list \<Rightarrow> type_exp \<Rightarrow> (string \<times> string list) list" where
  "instances_of params (Named name k array) = []"
| "instances_of params (Applied base args k array) =
     concat (map (instances_of params) args) @ [(base, map (mono_type params) args)]"

definition add_instances :: "(string \<times> string list) list \<Rightarrow> MonoContext \<Rightarrow> MonoContext" where
  "add_instances insts ctx =
     fold (\<lambda>(base, args). mono_add_instantiation base args \<lparr>loc_line = 0, loc_column = 0\<rparr>) insts ctx"

lemma add_instances_append: "add_instances (xs @ ys) ctx = add_instances ys (add_instances xs ctx)"
  by (simp add: add_instances_def)

lemma core_of_type:
  assumes "x \<noteq> []" "last x \<noteq> CHR ''*''" "\<And>r. split_array_suffix 0 (x @ r) = apfst ((@) x) (split_array_suffix 0 r)"
    "array_text array"
  shows "type_core (x @ stars k @ array) = x" "type_suffix (x @ stars k @ array) = stars k @ array"
proof -
  have "split_array_suffix 0 array = ([], array)" using assms(4) by (cases array) (auto simp: array_text_def)
  moreover have "set (stars k) \<inter> {CHR ''<'', CHR ''>'', CHR ''[''} = {}" using set_stars [of k] by auto
  ultimately have "fst (split_array_suffix 0 (x @ stars k @ array)) = x @ stars k"
    using assms(3) free_split_array [of "stars k" 0 array] by simp
  then show "type_core (x @ stars k @ array) = x" using strip_end_stars [OF assms(2,1)] by (simp add: type_core_def)
  then show "type_suffix (x @ stars k @ array) = stars k @ array" by (simp add: type_suffix_def)
qed

lemma substitute_structure:
  assumes "\<forall>p \<in> set params. CHR ''<'' \<notin> set (fst p)"
  shows "type_ok t \<Longrightarrow> substitute_type_string params (type_text t) ctx = (mono_type params t, add_instances (instances_of params t) ctx)"
proof (induction t arbitrary: ctx)
  case (Named name k array)
  have "type_core (name @ stars k @ array) = name" "type_suffix (name @ stars k @ array) = stars k @ array"
    using Named by (intro core_of_type free_split_array; auto dest: plainD)+
  moreover have "parse_generic_type_name name = None" using Named by (auto simp: parse_generic_type_name_def dest: plainD)
  ultimately show ?case by (subst substitute_type_string.simps) (auto simp: add_instances_def split: option.splits)
next
  case (Applied base args k array)
  let ?x = "base @ CHR ''<'' # commas (map type_text args) @ [CHR ''>'']"
  have ok: "\<forall>t \<in> set args. type_ok t" using Applied.prems by (simp add: list_all_iff)
  have "balanced (commas (map type_text args))" using ok balanced_type_text by (auto intro!: balanced_commas)
  then have "split_array_suffix 0 (?x @ r) = apfst ((@) ?x) (split_array_suffix 0 r)" for r
    using Applied.prems free_split_array [OF plainD(5)] balanced_split_array [of _ 1] by (simp add: apfst_def map_prod_def split: prod.splits)
  then have core: "type_core (?x @ stars k @ array) = ?x" "type_suffix (?x @ stars k @ array) = stars k @ array"
    using Applied.prems by (intro core_of_type; simp)+
  have "substitute_type_strings params (map type_text ts) c = (map (mono_type params) ts, add_instances (concat (map (instances_of params) ts)) c)"
    if "set ts \<subseteq> set args" for ts c
    using that ok Applied.IH by (induction ts arbitrary: c) (auto simp: add_instances_append, simp add: add_instances_def)
  moreover have "map_of params ?x = None" using assms by (force simp: map_of_eq_None_iff)
  moreover have "parse_generic_type_name ?x = Some (base, map type_text args)"
    using parse_instance [of base args "[]"] Applied.prems ok by simp
  ultimately show ?case using core
    by (subst substitute_type_string.simps) (simp add: add_instances_append, simp add: add_instances_def)
qed

text \<open>(C14) Substitution of type parameters works on the text of a type, and does to it what substitution does to its
  structure: parameters are replaced wherever they stand, also inside nested instances; every instance becomes its
  mangled name, with its stars and its array suffix kept; and exactly the instances of the type are recorded, the inner
  ones first.\<close>

theorem type_substitution_on_structure:
  assumes "\<forall>p \<in> set params. CHR ''<'' \<notin> set (fst p)" "type_ok t"
  shows "substitute_type_string params (type_text t) ctx = (mono_type params t, add_instances (instances_of params t) ctx)"
  using substitute_structure [OF assms] .

theorem type_substitution_on_structure_witness:
  "\<forall>ctx. fst (substitute_type_string [(''T'', ''int''), (''U'', ''byte'')] ''Map<T*,List<U>>*[4]'' ctx) = ''Map__int_ptr__List__byte*[4]''"
proof
  fix ctx
  let ?t = "Applied ''Map'' [Named ''T'' 1 [], Applied ''List'' [Named ''U'' 0 []] 0 []] 1 ''[4]''"
  have "type_text ?t = ''Map<T*,List<U>>*[4]''" by (simp add: stars_def)
  moreover have "type_ok ?t" by (simp add: plain_def array_text_def)
  ultimately show "fst (substitute_type_string [(''T'', ''int''), (''U'', ''byte'')] ''Map<T*,List<U>>*[4]'' ctx) = ''Map__int_ptr__List__byte*[4]''"
    using type_substitution_on_structure [of "[(''T'', ''int''), (''U'', ''byte'')]" ?t ctx]
    by (simp add: mangle_name_def mangle_char_def stars_def)
qed

end
