(* ===== verification/Mono_Props.thy ===== *)
theory Mono_Props
  imports Monomorphize Type_Text
begin

text \<open>
  Properties of monomorphisation. The list of instances only grows and holds each mangled name once; when the loop over
  it ends, every instance of a template has its copy and every use of a generic name has its instance.
\<close>

section \<open>How the context grows\<close>

definition instances_ok :: "MonoContext \<Rightarrow> bool" where
  "instances_ok ctx \<longleftrightarrow> distinct (map in_mangled_name (mc_instances ctx)) \<and>
     (\<forall>inst \<in> set (mc_instances ctx). in_mangled_name inst = mangle_name (in_generic_name inst) (in_type_args inst))"

definition grows :: "MonoContext \<Rightarrow> MonoContext \<Rightarrow> bool" where
  "grows c c' \<longleftrightarrow> mc_defs c' = mc_defs c \<and> (\<exists>more. mc_instances c' = mc_instances c @ more) \<and> (instances_ok c \<longrightarrow> instances_ok c')"

lemma grows_refl [simp]: "grows c c"
  by (simp add: grows_def)

lemma grows_trans: "grows c c' \<Longrightarrow> grows c' c'' \<Longrightarrow> grows c c''"
  by (auto simp: grows_def)

lemma grows_add [simp]: "grows c (mono_add_instantiation base args l c)"
  by (auto simp: grows_def mono_add_instantiation_def instances_ok_def Let_def)

lemma grows_record [simp]: "grows c (record_generic_type_use t l c)"
  by (auto simp: record_generic_type_use_def split: option.splits)

lemma grows_report [simp]: "grows c (mono_report_error l m c)"
  by (auto simp: grows_def mono_report_error_def instances_ok_def)

lemma grows_substitute: "grows c (snd (substitute_type_string params t c))"
  "grows c (snd (substitute_type_strings params ts c))"
proof (induction params t c and params ts c rule: substitute_type_string_substitute_type_strings.induct)
  case (1 params t ctx)
  show ?case
  proof (cases "\<exists>base args. map_of params (type_core t) = None \<and> parse_generic_type_name (type_core t) = Some (base, args)")
    case True
    then obtain base args where a: "map_of params (type_core t) = None" "parse_generic_type_name (type_core t) = Some (base, args)" by blast
    then have "grows ctx (snd (substitute_type_strings params args ctx))" using 1 by fastforce
    then show ?thesis using a grows_trans [OF _ grows_add] by (subst substitute_type_string.simps) (simp add: split_beta)
  next
    case False
    then show ?thesis by (subst substitute_type_string.simps) (auto split: option.splits)
  qed
next
  case (3 params t ts ctx)
  obtain t' c' where t: "substitute_type_string params t ctx = (t', c')" by fastforce
  then have "grows ctx c'" "grows c' (snd (substitute_type_strings params ts c'))" using 3 by fastforce+
  then show ?case using t grows_trans by (auto simp: split_beta)
qed simp

text \<open>A computation over the context that only adds instances.\<close>

definition adds :: "(MonoContext, 'a) state \<Rightarrow> bool" where
  "adds m \<longleftrightarrow> (\<forall>c. grows c (snd (run_state m c)))"

lemma adds_return [simp]: "adds (State_Monad.return x)"
  by (simp add: adds_def)

lemma adds_bind: "adds m \<Longrightarrow> (\<And>x. adds (f x)) \<Longrightarrow> adds (State_Monad.bind m f)"
  unfolding adds_def by (auto split: prod.split) (metis grows_trans snd_conv)

lemma adds_in_order: "\<forall>m \<in> set ms. adds m \<Longrightarrow> adds (in_order ms)"
  unfolding in_order_def by (induction ms) (auto intro!: adds_bind)

lemma adds_if_present: "(\<And>m. x = Some m \<Longrightarrow> adds m) \<Longrightarrow> adds (if_present x)"
  by (cases x) (auto simp: if_present_def intro: adds_bind)

lemma adds_both: "adds (fst ms) \<Longrightarrow> adds (snd ms) \<Longrightarrow> adds (both ms)"
  by (simp add: both_def adds_bind)

lemma adds_sub_type [simp]: "adds (sub_type params t)"
  by (simp add: adds_def sub_type_def grows_substitute)

lemma adds_sub_types [simp]: "adds (sub_types params fs)"
  unfolding sub_types_def by (auto intro!: adds_in_order adds_bind)

lemmas adds_intros = adds_bind adds_in_order adds_if_present adds_both adds_return adds_sub_type adds_sub_types

lemma adds_substitute_types_in_ast: "adds (substitute_types_in_ast params n)"
  by (induction n) (auto intro!: adds_intros)

lemma adds_create [simp]: "adds (create_monomorphized def inst)"
  unfolding create_monomorphized_def create_monomorphized_struct_def create_monomorphized_function_def
  by (auto split: ASTNode.split intro!: adds_intros adds_substitute_types_in_ast)

definition growing :: "(MonoContext \<Rightarrow> MonoContext) \<Rightarrow> bool" where
  "growing f \<longleftrightarrow> (\<forall>c. grows c (f c))"

lemma growing_basic [simp]: "growing id" "growing (mono_add_instantiation base args l)" "growing (record_generic_type_use t l)"
  by (simp_all add: growing_def)

lemma growing_comp: "growing g \<Longrightarrow> growing f \<Longrightarrow> growing (g \<circ> f)"
  unfolding growing_def comp_def using grows_trans by blast

lemma growing_run_all: "\<forall>f \<in> set fs. growing f \<Longrightarrow> growing (run_all fs)"
  unfolding run_all_def growing_def by (induction fs) (auto intro: grows_trans)

lemma growing_run_if: "(\<And>g. f = Some g \<Longrightarrow> growing g) \<Longrightarrow> growing (run_if f)"
  by (cases f) (auto simp: run_if_def growing_def)

section \<open>Uses of generic names\<close>

definition type_uses :: "string \<Rightarrow> (string \<times> string list) list" where
  "type_uses t = (case parse_generic_type_name t of None \<Rightarrow> [] | Some use \<Rightarrow> [use])"

definition option_uses :: "'a list option \<Rightarrow> 'a list" where
  "option_uses us = (case us of None \<Rightarrow> [] | Some us \<Rightarrow> us)"

text \<open>The instances that the types and calls of a declaration name.\<close>

primrec generic_uses :: "ASTNode \<Rightarrow> (string \<times> string list) list" where
  "generic_uses (EmptyNode t l) = []"
| "generic_uses (Program l ds) = concat (map generic_uses ds)"
| "generic_uses (ImportDeclaration l m a ns) = []"
| "generic_uses (ImportStr l f) = []"
| "generic_uses (VarDeclaration l n t i e x k) = option_uses (map_option type_uses t) @ option_uses (map_option generic_uses i)"
| "generic_uses (FunctionDeclaration l n ps r b x e k ts) =
     (if ts \<noteq> [] then []
      else option_uses (map_option generic_uses b) @ concat (map (\<lambda>p. type_uses (snd p)) ps) @ option_uses (map_option type_uses r))"
| "generic_uses (StructDeclaration l n fs ms x ts) = []"
| "generic_uses (EnumDeclaration l n vs x ts) = []"
| "generic_uses (TraitDeclaration l n x ms) = []"
| "generic_uses (ImplDeclaration l t f ms) = []"
| "generic_uses (MethodDeclaration l n ps r b) = []"
| "generic_uses (Assignment l n v t) = generic_uses v @ option_uses (map_option generic_uses t)"
| "generic_uses (CallExpression l f as ob ts) =
     (if ts \<noteq> [] then [(f, ts)] else []) @ concat (map generic_uses as) @ option_uses (map_option generic_uses ob)"
| "generic_uses (FuncPtrCall l f as) = []"
| "generic_uses (ReturnStatement l v) = option_uses (map_option generic_uses v)"
| "generic_uses (IfStatement l c t es e) = generic_uses c @ generic_uses t @
     concat (map (\<lambda>(us, vs). us @ vs) (map (map_prod generic_uses generic_uses) es)) @ option_uses (map_option generic_uses e)"
| "generic_uses (WhileStatement l c b k) = generic_uses c @ generic_uses b"
| "generic_uses (ForStatement l i c n b k) = option_uses (map_option generic_uses i) @ option_uses (map_option generic_uses c) @
     option_uses (map_option generic_uses n) @ generic_uses b"
| "generic_uses (SwitchStatement l e cs) = generic_uses e @ concat (map generic_uses cs)"
| "generic_uses (CaseClause l v b d) = option_uses (map_option generic_uses v) @ generic_uses b"
| "generic_uses (MatchStatement l e as x) = []"
| "generic_uses (BreakStatement l k) = []"
| "generic_uses (ContinueStatement l k) = []"
| "generic_uses (DeferStatement l s) = generic_uses s"
| "generic_uses (ErrdeferStatement l s) = generic_uses s"
| "generic_uses (InlineAsm l c) = []"
| "generic_uses (Identifier l n) = []"
| "generic_uses (NumberLiteral l v r) = []"
| "generic_uses (FloatLiteral l v) = []"
| "generic_uses (StringLiteral l v) = []"
| "generic_uses (BinaryExpression l a op b) = generic_uses a @ generic_uses b"
| "generic_uses (UnaryExpression l op a) = generic_uses a"
| "generic_uses (MemberAccess l a m) = generic_uses a"
| "generic_uses (ArrayIndexExpression l a i) = generic_uses a @ generic_uses i"
| "generic_uses (NewExpression l t) = type_uses t"
| "generic_uses (CastExpression l t a) = []"

definition recorded :: "string \<times> string list \<Rightarrow> MonoContext \<Rightarrow> bool" where
  "recorded use ctx \<longleftrightarrow> (\<exists>inst \<in> set (mc_instances ctx). in_mangled_name inst = mangle_name (fst use) (snd use))"

lemma recorded_grows: "recorded u c \<Longrightarrow> grows c c' \<Longrightarrow> recorded u c'"
  by (auto simp: recorded_def grows_def)

definition records :: "string \<times> string list \<Rightarrow> (MonoContext \<Rightarrow> MonoContext) \<Rightarrow> bool" where
  "records u f \<longleftrightarrow> (\<forall>c. recorded u (f c))"

lemma records_add [simp]: "records (base, args) (mono_add_instantiation base args l)"
  by (auto simp: records_def recorded_def mono_add_instantiation_def Let_def)

text \<open>A function of the context that records given uses.\<close>

definition covers :: "(string \<times> string list) list \<Rightarrow> (MonoContext \<Rightarrow> MonoContext) \<Rightarrow> bool" where
  "covers us f \<longleftrightarrow> growing f \<and> (\<forall>u \<in> set us. records u f)"

lemma covers_none: "covers [] id"
  by (simp add: covers_def)

lemma covers_add: "covers [(base, args)] (mono_add_instantiation base args l)"
  by (simp add: covers_def)

lemma covers_type: "covers (type_uses t) (record_generic_type_use t l)"
  using records_add by (force simp: covers_def type_uses_def records_def record_generic_type_use_def split: option.splits)

lemma covers_comp:
  assumes "covers us f" "covers vs g"
  shows "covers (us @ vs) (g \<circ> f)"
proof -
  have "records u (g \<circ> f)" if "records u f \<or> records u g" for u
    using that assms(2) recorded_grows unfolding covers_def growing_def records_def comp_def by blast
  then show ?thesis using assms growing_comp by (auto simp: covers_def simp del: comp_apply)
qed

lemma covers_run_all: "(\<And>x. x \<in> set xs \<Longrightarrow> covers (h x) (g x)) \<Longrightarrow> covers (concat (map h xs)) (run_all (map g xs))"
proof (induction xs)
  case (Cons x xs)
  have "run_all (map g (x # xs)) = run_all (map g xs) \<circ> g x" by (simp add: run_all_def fun_eq_iff)
  then show ?case using Cons by (simp del: comp_apply add: covers_comp)
qed (simp add: covers_def run_all_def records_def growing_def)

lemma covers_run_if: "(\<And>y. x = Some y \<Longrightarrow> covers (h y) (g y)) \<Longrightarrow> covers (option_uses (map_option h x)) (run_if (map_option g x))"
  by (cases x) (auto simp: option_uses_def run_if_def covers_def records_def growing_def)

lemma covers_pairs:
  assumes "\<And>a b. (a, b) \<in> set xs \<Longrightarrow> covers (h a) (g a) \<and> covers (h b) (g b)"
  shows "covers (concat (map (\<lambda>(us, vs). us @ vs) (map (map_prod h h) xs))) (run_all (map (\<lambda>(f, g). g \<circ> f) (map (map_prod g g) xs)))"
proof -
  have "covers (concat (map (\<lambda>(a, b). h a @ h b) xs)) (run_all (map (\<lambda>(a, b). g b \<circ> g a) xs))"
    using assms by (intro covers_run_all) (auto simp del: comp_apply intro: covers_comp)
  then show ?thesis by (simp add: map_prod_def split_def comp_def)
qed

lemmas covers_intros = covers_comp covers_run_all covers_run_if covers_pairs covers_none covers_add covers_type

lemma covers_collect: "covers (generic_uses n) (collect_type_instantiations n)"
proof (induction n)
  case (IfStatement l c t es e)
  then show ?case unfolding generic_uses.simps collect_type_instantiations.simps by (intro covers_intros) force+
next
  case (FunctionDeclaration l n ps r b x e k ts)
  then show ?case unfolding generic_uses.simps collect_type_instantiations.simps
    by (cases "ts = []") (simp_all only: simp_thms if_True if_False, (intro covers_intros; blast)+)
next
  case (CallExpression l f as ob ts)
  then show ?case unfolding generic_uses.simps collect_type_instantiations.simps
    by (cases "ts = []") (simp_all only: simp_thms if_True if_False, (intro covers_intros; blast)+)
qed (unfold generic_uses.simps collect_type_instantiations.simps,
    (assumption | rule covers_none | rule covers_type | (intro covers_intros; blast))+)

lemma collect_all:
  shows "grows ctx (run_all (map collect_type_instantiations decls) ctx)"
    and "\<forall>d \<in> set decls. \<forall>u \<in> set (generic_uses d). recorded u (run_all (map collect_type_instantiations decls) ctx)"
proof -
  have "covers (concat (map generic_uses decls)) (run_all (map collect_type_instantiations decls))"
    by (rule covers_run_all) (rule covers_collect)
  then show "grows ctx (run_all (map collect_type_instantiations decls) ctx)"
    "\<forall>d \<in> set decls. \<forall>u \<in> set (generic_uses d). recorded u (run_all (map collect_type_instantiations decls) ctx)"
    by (auto simp: covers_def growing_def records_def)
qed

section \<open>The loop over the instances\<close>

lemma bounds_hold_same: "bounds_hold name inst bs c = (True, c') \<Longrightarrow> c' = c"
  by (induction bs arbitrary: c) (auto simp: mono_type_satisfies_bounds_def split_beta split: option.splits if_splits)

lemma validate_same: "validate_instantiation def inst c = (True, c') \<Longrightarrow> c' = c"
  by (auto simp: validate_instantiation_def dest: bounds_hold_same split: if_splits)

lemma find_def_grows: "grows c c' \<Longrightarrow> find_generic_def c' g = find_generic_def c g"
  by (simp add: find_generic_def_def grows_def)

text \<open>The copy of a template for an instance; the tree does not depend on the context it is made in.\<close>

definition is_copy :: "GenericDef \<Rightarrow> Instantiation \<Rightarrow> ASTNode \<Rightarrow> bool" where
  "is_copy def inst node \<longleftrightarrow> (\<exists>c. node = fst (run_state (create_monomorphized def inst) c))"

definition copied :: "MonoContext \<Rightarrow> ASTNode list \<Rightarrow> Instantiation \<Rightarrow> bool" where
  "copied ctx decls inst \<longleftrightarrow> (\<forall>def. find_generic_def ctx (in_generic_name inst) = Some def \<longrightarrow> (\<exists>d \<in> set decls. is_copy def inst d))"

lemma instantiate_step:
  assumes "instantiate_from (Suc fuel) i decls ctx = Some (Some decls', ctx')" "i < length (mc_instances ctx)"
  obtains new c where "instantiate_from fuel (Suc i) (decls @ new) c = Some (Some decls', ctx')" "grows ctx c"
    "copied ctx new (mc_instances ctx ! i)" "\<forall>d \<in> set new. \<forall>u \<in> set (generic_uses d). recorded u c"
proof (cases "find_generic_def ctx (in_generic_name (mc_instances ctx ! i))")
  case None
  then show thesis using assms that [of "[]" ctx] by (simp add: copied_def)
next
  case (Some def)
  let ?inst = "mc_instances ctx ! i"
  obtain ok c1 where v: "validate_instantiation def ?inst ctx = (ok, c1)" by fastforce
  with assms Some have ok: ok by (cases ok) (auto simp: Let_def)
  then have c1: "c1 = ctx" using v validate_same by simp
  obtain node c2 where n: "run_state (create_monomorphized def ?inst) ctx = (node, c2)" by fastforce
  let ?c = "collect_type_instantiations node c2"
  have "instantiate_from fuel (Suc i) (decls @ [node]) ?c = Some (Some decls', ctx')"
    using assms Some v ok c1 n by (simp add: Let_def)
  moreover have "grows ctx c2" using adds_create [of def ?inst] n unfolding adds_def by (metis snd_conv)
  moreover have "grows c2 ?c" "\<forall>u \<in> set (generic_uses node). recorded u ?c"
    using covers_collect [of node] by (auto simp: covers_def growing_def records_def)
  moreover have "is_copy def ?inst node" unfolding is_copy_def using n by (metis fst_conv)
  ultimately show thesis using that [of "[node]" ?c] grows_trans Some by (auto simp: copied_def)
qed

lemma instantiate_from_result:
  assumes "instantiate_from fuel i decls ctx = Some (Some decls', ctx')"
    and "\<forall>d \<in> set decls. \<forall>u \<in> set (generic_uses d). recorded u ctx"
    and "\<forall>inst \<in> set (take i (mc_instances ctx)). copied ctx decls inst"
  shows "grows ctx ctx' \<and> (\<forall>inst \<in> set (mc_instances ctx'). copied ctx' decls' inst) \<and>
    (\<forall>d \<in> set decls'. \<forall>u \<in> set (generic_uses d). recorded u ctx')"
  using assms
proof (induction fuel arbitrary: i decls ctx)
  case (Suc fuel)
  show ?case
  proof (cases "length (mc_instances ctx) \<le> i")
    case True
    then show ?thesis using Suc.prems by simp
  next
    case False
    then have i: "i < length (mc_instances ctx)" by simp
    from instantiate_step [OF Suc.prems(1) i] obtain new c where
      c: "instantiate_from fuel (Suc i) (decls @ new) c = Some (Some decls', ctx')" "grows ctx c"
        "copied ctx new (mc_instances ctx ! i)" "\<forall>d \<in> set new. \<forall>u \<in> set (generic_uses d). recorded u c" by blast
    have "take (Suc i) (mc_instances c) = take i (mc_instances ctx) @ [mc_instances ctx ! i]"
      using c(2) i by (auto simp: grows_def take_Suc_conv_app_nth)
    then have "\<forall>inst \<in> set (take (Suc i) (mc_instances c)). copied c (decls @ new) inst"
      using Suc.prems(3) c(3) find_def_grows [OF c(2)] unfolding copied_def by (auto simp: Ball_def) blast+
    moreover have "\<forall>d \<in> set (decls @ new). \<forall>u \<in> set (generic_uses d). recorded u c"
      using Suc.prems(2) c(4) recorded_grows [OF _ c(2)] by auto
    ultimately show ?thesis using Suc.IH [OF c(1)] grows_trans [OF c(2)] by blast
  qed
qed simp


section \<open>The whole program\<close>

definition declared_name :: "ASTNode \<Rightarrow> string option" where
  "declared_name node =
     (case node of StructDeclaration _ name _ _ _ _ \<Rightarrow> Some name | FunctionDeclaration _ name _ _ _ _ _ _ _ \<Rightarrow> Some name | _ \<Rightarrow> None)"

definition concrete :: "ASTNode \<Rightarrow> bool" where
  "concrete node \<longleftrightarrow> declared_name node \<noteq> None \<and> \<not> is_generic node"

definition def_ok :: "GenericDef \<Rightarrow> bool" where
  "def_ok def \<longleftrightarrow> (case gd_node def of StructDeclaration _ _ _ _ _ _ \<Rightarrow> gd_is_struct def
     | FunctionDeclaration _ _ _ _ _ _ _ _ _ \<Rightarrow> \<not> gd_is_struct def | _ \<Rightarrow> False)"

lemma copy_declares:
  assumes "def_ok def" "is_copy def inst node"
  shows "declared_name node = Some (in_mangled_name inst)" "concrete node"
  using assms
  by (auto simp: def_ok_def is_copy_def create_monomorphized_def create_monomorphized_struct_def create_monomorphized_function_def
      concrete_def declared_name_def is_generic_def split_beta split: ASTNode.splits)

definition context_ok :: "MonoContext \<Rightarrow> bool" where
  "context_ok ctx \<longleftrightarrow> instances_ok ctx \<and> (\<forall>def \<in> set (mc_defs ctx). def_ok def)"

lemma context_ok_grows: "grows c c' \<Longrightarrow> context_ok c \<Longrightarrow> context_ok c'"
  by (auto simp: grows_def context_ok_def)

lemma grows_equal_with_self:
  assumes "mono_type_names_equal_with_self t u f c = (b, c')"
  shows "grows c c'"
proof -
  obtain x c1 where x: "mono_substitute_self_type t f c = (x, c1)" by fastforce
  obtain y c2 where y: "mono_substitute_self_type u f c1 = (y, c2)" by fastforce
  have "grows c c1" "grows c1 c2" using grows_substitute(1) x y unfolding mono_substitute_self_type_def by (metis snd_conv)+
  moreover have "c2 = c'" using assms x y by (simp add: mono_type_names_equal_with_self_def)
  ultimately show ?thesis using grows_trans by blast
qed

lemma grows_parameters: "parameters_match impl name l j ts us c = (b, c') \<Longrightarrow> grows c c'"
proof (induction impl name l j ts us c rule: parameters_match.induct)
  case (1 impl name l j t ts u us c)
  obtain eq c1 where e: "mono_type_names_equal_with_self t u (ti_for_type_name impl) c = (eq, c1)" by fastforce
  note g = grows_equal_with_self [OF e]
  show ?case using 1 e grows_trans [OF g] by (cases eq) auto
qed auto

lemma grows_results:
  assumes "results_match impl name l r r' c = (b, c')"
  shows "grows c c'"
proof (cases "r = None \<and> r' = None")
  case False
  let ?v = "\<lambda>r. case r of None \<Rightarrow> ''void'' | Some t \<Rightarrow> t"
  obtain eq c1 where e: "mono_type_names_equal_with_self (?v r) (?v r') (ti_for_type_name impl) c = (eq, c1)" by fastforce
  note g = grows_equal_with_self [OF e]
  show ?thesis using assms False e grows_trans [OF g grows_report] g unfolding results_match_def if_not_P [OF False] Let_def
    by (cases eq) auto
qed (use assms in \<open>simp add: results_match_def\<close>)

lemma found_function:
  assumes "mono_find_function_method ms name = Some d"
  obtains l n ps r b x e k ts where "d = FunctionDeclaration l n ps r b x e k ts"
  using find_Some_mem [OF assms [unfolded mono_find_function_method_def]] by (cases d) (auto simp: function_named_def)

lemma grows_validate_methods: "grows c (validate_methods impl l ms c)"
proof (induction ms arbitrary: c)
  case (Cons m ms)
  show ?case
  proof (cases "\<exists>l1 n ps r b x e k ts. m = FunctionDeclaration l1 n ps r b x e k ts")
    case True
    then obtain l1 n ps r b x e k ts where m: "m = FunctionDeclaration l1 n ps r b x e k ts" by blast
    show ?thesis
    proof (cases "mono_find_function_method (ti_methods impl) n")
      case (Some d)
      then obtain l2 n2 ps2 r2 b2 x2 e2 k2 ts2 where d: "d = FunctionDeclaration l2 n2 ps2 r2 b2 x2 e2 k2 ts2"
        by (rule found_function)
      obtain ok c1 where p: "parameters_match impl n l 0 (map snd ps) (map snd ps2) c = (ok, c1)" by fastforce
      obtain ok2 c2 where q: "results_match impl n l r r2 c1 = (ok2, c2)" by fastforce
      note g1 = grows_parameters [OF p] and g2 = grows_trans [OF grows_parameters [OF p] grows_results [OF q]]
      show ?thesis using m Some d p q g1 g2 grows_trans [OF g2 Cons.IH] by auto
    qed (simp add: m)
  next
    case False
    have "validate_methods impl l (m # ms) c = validate_methods impl l ms c" "grows c (validate_methods impl l ms c)"
      using Cons.IH False by (cases m; auto)+
    then show ?thesis by (simp only:)
  qed
qed simp

lemma context_ok_add_impl: "context_ok c \<Longrightarrow> context_ok (mono_add_impl t f ms l c)"
proof -
  assume ok: "context_ok c"
  let ?impl = "\<lparr>ti_trait_name = t, ti_for_type_name = f, ti_methods = ms\<rparr>"
  let ?c = "c\<lparr>mc_impls := mc_impls c @ [?impl]\<rparr>"
  have "context_ok ?c" using ok by (simp add: context_ok_def instances_ok_def)
  then have "context_ok (mono_validate_impl_methods ?impl l ?c)"
    using context_ok_grows [OF grows_validate_methods] by (auto simp: mono_validate_impl_methods_def split: option.split)
  then show ?thesis using ok context_ok_grows [OF grows_report ok] unfolding mono_add_impl_def Let_def by presburger
qed

lemma context_ok_bounds: "context_ok c \<Longrightarrow> context_ok (mono_validate_bound_traits b n l c)"
  by (auto simp: mono_validate_bound_traits_def intro: context_ok_grows [OF grows_report] split: option.split)

lemma context_ok_add_generic:
  assumes "context_ok c" "def_ok \<lparr>gd_name = n, gd_node = d, gd_type_params = ts, gd_is_struct = b\<rparr>"
  shows "context_ok (add_generic n d ts b l c)"
proof -
  have "context_ok (fold (\<lambda>p. mono_validate_bound_traits (snd p) n l) us c)" for us
    using assms(1) by (induction us arbitrary: c) (auto intro: context_ok_bounds)
  then show ?thesis using assms unfolding add_generic_def Let_def by (auto simp: context_ok_def instances_ok_def)
qed

lemma context_ok_collect_defs: "context_ok (collect_generic_defs decls (mono_context reporter))"
proof -
  have "context_ok (fold collect_trait ds c)" if "context_ok c" for ds c
    using that
  proof (induction ds arbitrary: c)
    case (Cons d ds)
    have "context_ok (collect_trait d c)" using Cons.prems context_ok_grows [OF grows_report Cons.prems]
      by (auto simp: collect_trait_def mono_add_trait_def context_ok_def instances_ok_def split: ASTNode.split)
    then show ?case using Cons.IH by simp
  qed simp
  moreover have "context_ok (fold collect_definition ds c)" if "context_ok c" for ds c
    using that
  proof (induction ds arbitrary: c)
    case (Cons d ds)
    have "context_ok (collect_definition d c)" using Cons.prems
      by (auto simp: collect_definition_def def_ok_def intro!: context_ok_add_impl context_ok_add_generic split: ASTNode.split)
    then show ?case using Cons.IH by simp
  qed simp
  moreover have "context_ok (mono_context reporter)" by (simp add: context_ok_def instances_ok_def mono_context_def)
  ultimately show ?thesis by (simp add: collect_generic_defs_def)
qed

lemma adds_impl_method: "adds (mono_create_impl_method_function impl d)"
  unfolding mono_create_impl_method_function_def Let_def
  by (auto split: ASTNode.split intro!: adds_intros adds_substitute_types_in_ast)

lemma grows_emit: "emit_methods ms decls c = (Some decls', c') \<Longrightarrow> grows c c'"
proof (induction ms arbitrary: decls c)
  case (Cons m ms)
  obtain impl d where m: "m = (impl, d)" by fastforce
  obtain fn c1 where f: "run_state (mono_create_impl_method_function impl d) c = (fn, c1)" by fastforce
  then have "grows c c1" using adds_impl_method [of impl d] unfolding adds_def by (metis snd_conv)
  moreover have "grows c1 c'" using Cons m f by (cases fn) auto
  ultimately show ?case using grows_trans by blast
qed simp

text \<open>Rewriting calls leaves the context alone unless it fails.\<close>

definition keeps_context :: "'a rewriter \<Rightarrow> bool" where
  "keeps_context m \<longleftrightarrow> (\<forall>s x s'. m s = Inr (x, s') \<longrightarrow> snd s' = snd s)"

lemma keeps_done [simp]: "keeps_context (done_with x)"
  by (auto simp: keeps_context_def done_with_def)

lemma keeps_and_then: "keeps_context m \<Longrightarrow> (\<And>x. keeps_context (f x)) \<Longrightarrow> keeps_context (and_then m f)"
  unfolding keeps_context_def and_then_def by (auto split: sum.splits) (metis snd_conv)+

lemma keeps_each: "\<forall>m \<in> set ms. keeps_context m \<Longrightarrow> keeps_context (each ms)"
  by (induction ms) (auto intro!: keeps_and_then)

lemma keeps_maybe: "(\<And>m. x = Some m \<Longrightarrow> keeps_context m) \<Longrightarrow> keeps_context (maybe x)"
  by (cases x) (auto simp: maybe_def intro: keeps_and_then)

lemma keeps_call: "keeps_context (mono_rewrite_trait_method_call l f as ob ts)"
  unfolding keeps_context_def mono_rewrite_trait_method_call_def
  by (auto simp: Let_def done_with_def split: option.splits ASTNode.splits sum.splits)

lemma keeps_env: "keeps_context (\<lambda>(env, ctx). done_with x (f env, ctx))"
  by (auto simp: keeps_context_def done_with_def)

lemmas keeps_intros = keeps_and_then keeps_each keeps_maybe keeps_done keeps_call keeps_env

lemma keeps_node: "keeps_context (mono_rewrite_trait_method_calls_in_node n)"
proof (induction n)
  case (EnumDeclaration l n vs x ts)
  have "keeps_context (mono_rewrite_trait_method_calls_in_node z)" if "v \<in> set vs" "ev_value v = Some z" for v z
    using EnumDeclaration that by (cases v) force
  then show ?case by (auto intro!: keeps_intros simp: EnumVariant.map_sel)
next
  case (MatchStatement l e as x)
  then show ?case by (auto intro!: keeps_intros simp: MatchArm.map_sel MatchArm.set_sel)
qed (auto intro!: keeps_intros)

lemma keeps_function:
  assumes "mono_rewrite_trait_method_calls_in_function d c = Inr (d', c')"
  shows "c' = c" "declared_name d' = declared_name d" "is_generic d' = is_generic d"
  using assms keeps_node
  by (auto simp: mono_rewrite_trait_method_calls_in_function_def keeps_context_def declared_name_def is_generic_def
      split: ASTNode.splits option.splits sum.splits)

lemma trait_calls_result:
  assumes "mono_rewrite_trait_method_calls ds c = (Some ds', c')"
  shows "c' = c" "list_all2 (\<lambda>d d'. declared_name d' = declared_name d \<and> is_generic d' = is_generic d) ds ds'"
proof -
  have "c' = c \<and> list_all2 (\<lambda>d d'. declared_name d' = declared_name d \<and> is_generic d' = is_generic d) ds ds'"
    using assms
  proof (induction ds arbitrary: ds' c)
    case (Cons d ds)
    then obtain d1 c1 ds1 where d: "(if is_generic d then Inr (d, c) else mono_rewrite_trait_method_calls_in_function d c) = Inr (d1, c1)"
      "mono_rewrite_trait_method_calls ds c1 = (Some ds1, c')" "ds' = d1 # ds1"
      by (auto split: sum.splits simp: apfst_def map_prod_def split: prod.splits)
    then have "c1 = c \<and> declared_name d1 = declared_name d \<and> is_generic d1 = is_generic d"
      using keeps_function [of d c d1 c1] by (auto split: if_splits)
    then show ?case using Cons.IH d by auto
  qed simp
  then show "c' = c" "list_all2 (\<lambda>d d'. declared_name d' = declared_name d \<and> is_generic d' = is_generic d) ds ds'" by auto
qed

lemma rewrite_declares: "declared_name (rewrite_generic_references d) = declared_name d"
  "is_generic (rewrite_generic_references d) = is_generic d"
  by (cases d; auto simp: declared_name_def is_generic_def)+

lemma concrete_no_trait: "concrete d \<Longrightarrow> \<not> is_compile_time_trait_decl d"
  by (cases d) (auto simp: concrete_def declared_name_def is_compile_time_trait_decl_def)

text \<open>The instances that the context of a successful run ends with are declared.\<close>

lemma instantiate_all_declares:
  assumes "instantiate_all fuel decls c = Some (Some decls', c')" "context_ok c"
    and "inst \<in> set (mc_instances c')" "find_generic_def c' (in_generic_name inst) = Some def"
  shows "\<exists>d \<in> set decls'. declared_name d = Some (in_mangled_name inst) \<and> concrete d"
proof -
  let ?c = "run_all (map collect_type_instantiations decls) c"
  note g = collect_all(1) [of c decls] and r = collect_all(2) [of decls c]
  have "mc_defs c \<noteq> []" using assms(1,4) by (auto simp: instantiate_all_def find_generic_def_def)
  then obtain ds where ds: "instantiate_from fuel 0 decls ?c = Some (Some ds, c')" "decls' = map rewrite_generic_references ds"
    using assms(1) by (auto simp: instantiate_all_def apfst_def map_prod_def split: prod.splits)
  from instantiate_from_result [OF ds(1) r] have res: "grows ?c c'" "\<forall>inst \<in> set (mc_instances c'). copied c' ds inst" by auto
  then obtain d where d: "d \<in> set ds" "is_copy def inst d" using assms(3,4) by (auto simp: copied_def)
  have "context_ok c'" using context_ok_grows [OF grows_trans [OF g res(1)] assms(2)] .
  then have "def_ok def" using assms(4) find_Some_mem by (fastforce simp: find_generic_def_def context_ok_def)
  from copy_declares [OF this d(2)] show ?thesis using d(1) ds(2) rewrite_declares
    by (intro bexI [of _ "rewrite_generic_references d"]) (auto simp: concrete_def)
qed


section \<open>A small program\<close>

text \<open>A generic struct, an instance of it, and a generic function that calls another.\<close>

definition here :: SourceLocation where
  "here = \<lparr>loc_line = 1, loc_column = 1\<rparr>"

definition box_program :: "ASTNode list" where
  "box_program =
     [StructDeclaration here ''Box'' [(''value'', ''T''), (''next'', ''Box<T>*'')] [] False [(''T'', None)],
      VarDeclaration here ''b'' (Some ''Box<int>'') None False False None]"

lemma box_program_runs:
  "map_option (\<lambda>(out, ctx). map_option (map declared_name) out) (monomorphize_program 4 box_program True) =
     Some (Some [None, Some ''Box__int''])"
  by code_simp


definition box_context :: MonoContext where
  "box_context = collect_generic_defs box_program (mono_context True)"

lemma box_instances_run:
  "map_option (\<lambda>(out, ctx). (out \<noteq> None, map in_mangled_name (mc_instances ctx)))
     (instantiate_from 4 0 box_program (run_all (map collect_type_instantiations box_program) box_context)) =
   Some (True, [''Box__int''])"
  by code_simp


section \<open>Where the texts of types go wrong\<close>

text \<open>Different instances may have the same name; the second is then taken for the first.\<close>

lemma mangled_names_clash:
  "mangle_name ''Pair'' [''a__b'', ''c''] = mangle_name ''Pair'' [''a'', ''b__c'']"
  "mangle_name ''Box'' [''int*''] = mangle_name ''Box'' [''int_ptr'']"
  by code_simp+

text \<open>Rewriting a reference drops what follows the closing bracket, unless it is stars.\<close>

lemma array_suffix_lost:
  "rewrite_generic_type_name_in_place ''List<int>[4]'' = ''List__int''"
  "rewrite_generic_type_name_in_place ''fn(List<int>)->int'' = ''fn(List__int''"
  "rewrite_new_type ''List<int>*'' = ''List__int''"
  by code_simp+

section \<open>Instances without end\<close>

text \<open>A struct that mentions an instance of itself with a bigger argument.\<close>

definition nest_struct :: ASTNode where
  "nest_struct = StructDeclaration here ''Nest'' [(''next'', ''Nest<T*>*'')] [] False [(''T'', None)]"

definition nest_program :: "ASTNode list" where
  "nest_program = [nest_struct, VarDeclaration here ''n'' (Some ''Nest<int>'') None False False None]"

definition nest_def :: GenericDef where
  "nest_def = \<lparr>gd_name = ''Nest'', gd_node = nest_struct, gd_type_params = [(''T'', None)], gd_is_struct = True\<rparr>"

definition nest_name :: "nat \<Rightarrow> string" where
  "nest_name k = mangle_name ''Nest'' [''int'' @ stars k]"

definition nested :: "nat \<Rightarrow> MonoContext \<Rightarrow> bool" where
  "nested i ctx \<longleftrightarrow> mc_defs ctx = [nest_def] \<and> map in_mangled_name (mc_instances ctx) = map nest_name [0..<Suc i] \<and>
     in_generic_name (last (mc_instances ctx)) = ''Nest'' \<and> in_type_args (last (mc_instances ctx)) = [''int'' @ stars i]"

lemma nest_name_length: "length (nest_name k) = 9 + 4 * k"
proof -
  have "length (concat (map mangle_char (stars k))) = 4 * k" by (induction k) (simp_all add: stars_def mangle_char_def)
  then show ?thesis by (simp add: nest_name_def mangle_name_def mangle_char_def)
qed

lemma nested_step:
  assumes "nested i ctx"
  shows "\<exists>node ctx'. run_state (create_monomorphized nest_def (mc_instances ctx ! i)) ctx = (node, ctx') \<and>
    nested (Suc i) (collect_type_instantiations node ctx')"
proof -
  let ?inst = "mc_instances ctx ! i"
  have len: "length (mc_instances ctx) = Suc i" using assms by (metis length_map length_upt diff_zero nested_def)
  then have inst: "last (mc_instances ctx) = ?inst" by (metis diff_Suc_1 last_conv_nth list.size(3) nat.distinct(1))
  let ?t = "Applied ''Nest'' [Named ''T'' 1 []] 1 []"
  have "type_text ?t = ''Nest<T*>*''" "type_ok ?t" by (simp_all add: stars_def plain_def array_text_def)
  then have sub: "substitute_type_string [(''T'', ''int'' @ stars i)] ''Nest<T*>*'' ctx =
      (nest_name (Suc i) @ ''*'', mono_add_instantiation ''Nest'' [''int'' @ stars (Suc i)] \<lparr>loc_line = 0, loc_column = 0\<rparr> ctx)"
    using substitute_structure [of "[(''T'', ''int'' @ stars i)]" ?t ctx]
    by (simp add: nest_name_def add_instances_def stars_def replicate_append_same)
  have "nest_name (Suc i) \<noteq> nest_name k" if "k < Suc i" for k
    using nest_name_length that by (metis add_left_cancel less_irrefl mult_cancel1 zero_neq_numeral)
  then have "nest_name (Suc i) \<notin> set (map nest_name [0..<Suc i])" by (force simp del: upt_Suc)
  then have "nest_name (Suc i) \<notin> in_mangled_name ` set (mc_instances ctx)"
    using assms unfolding nested_def by (metis set_map)
  then have new: "\<not> (\<exists>inst \<in> set (mc_instances ctx). in_mangled_name inst = nest_name (Suc i))" by force
  have "nested (Suc i) (mono_add_instantiation ''Nest'' [''int'' @ stars (Suc i)] \<lparr>loc_line = 0, loc_column = 0\<rparr> ctx)"
    using assms unfolding mono_add_instantiation_def Let_def nest_name_def [symmetric] if_not_P [OF new] by (simp add: nested_def)
  moreover have "type_binding nest_def ?inst = [(''T'', ''int'' @ stars i)]"
    using assms inst by (simp add: type_binding_def nest_def_def nested_def)
  ultimately show ?thesis using sub
    by (simp add: create_monomorphized_def nest_def_def create_monomorphized_struct_def nest_struct_def sub_types_def in_order_def sub_type_def)
qed

lemma nest_forever: "nested i ctx \<Longrightarrow> instantiate_from fuel i decls ctx = None"
proof (induction fuel arbitrary: i ctx decls)
  case (Suc fuel)
  let ?inst = "mc_instances ctx ! i"
  have len: "length (mc_instances ctx) = Suc i" using Suc.prems by (metis length_map length_upt diff_zero nested_def)
  then have inst: "last (mc_instances ctx) = ?inst" by (metis diff_Suc_1 last_conv_nth list.size(3) nat.distinct(1))
  have "find_generic_def ctx (in_generic_name ?inst) = Some nest_def"
    using Suc.prems inst by (simp add: find_generic_def_def nested_def nest_def_def)
  moreover have "validate_instantiation nest_def ?inst ctx = (True, ctx)"
    using Suc.prems inst by (simp add: validate_instantiation_def nested_def nest_def_def mono_type_satisfies_bounds_def)
  moreover obtain node ctx' where "run_state (create_monomorphized nest_def ?inst) ctx = (node, ctx')"
    "nested (Suc i) (collect_type_instantiations node ctx')" using nested_step [OF Suc.prems] by blast
  ultimately show ?case using Suc.IH len by simp
qed simp

text \<open>(C40) Monomorphisation need not end: a struct that mentions an instance of itself with a bigger argument makes it
  find a new instance in every copy, without an error and without a limit.\<close>

theorem monomorphization_diverges: "monomorphize_program fuel nest_program reporter = None"
proof -
  let ?c = "collect_generic_defs nest_program (mono_context reporter)"
  have c: "?c = (mono_context reporter)\<lparr>mc_defs := [nest_def]\<rparr>"
    by (simp add: collect_generic_defs_def nest_program_def nest_struct_def collect_trait_def collect_definition_def add_generic_def
        mono_validate_bound_traits_def mono_context_def nest_def_def)
  have "parse_generic_type_name ''Nest<int>'' = Some (''Nest'', [''int''])" by code_simp
  then have "nested 0 (run_all (map collect_type_instantiations nest_program) ?c)"
    unfolding c by (simp add: nest_program_def nest_struct_def run_all_def run_if_def record_generic_type_use_def
        mono_add_instantiation_def mono_context_def nested_def nest_name_def stars_def Let_def)
  from nest_forever [OF this] have "instantiate_all fuel nest_program ?c = None"
    by (simp add: instantiate_all_def c)
  moreover have "\<not> mc_had_error ?c" "mc_impls ?c = []" by (simp_all add: c) (simp_all add: mono_context_def)
  ultimately show ?thesis by (simp add: monomorphize_program_def mono_emit_impl_method_functions_def)
qed

end
