(* ===== verification/Spec2Isabelle.thy ===== *)
theory Spec2Isabelle
  imports Lexer_Text Suggestions Link_Safety Coff_Roundtrip IR_Optimizer X86_Exec
    Import_Roundtrip Pe_Image Parser_Props Program_Parser Mono_Props
begin

text \<open>
  A verification development of the Mettle compiler, a C program that compiles one source language to
  native object files and links them. The theories model the compiler's C functions one by one as HOL
  functions and prove the theorems named below.

  \<^bold>\<open>The program.\<close> \<open>src/main.c\<close> drives the stages. The lexer (\<open>src/lexer\<close>) turns text into tokens whose names
  are interned strings (\<open>src/string_intern.h\<close>, \<open>src/common.c\<close>). The parser builds a syntax tree; the semantic
  phase (\<open>src/semantic\<close>) declares names in a table of nested scopes and checks types; failed lookups ask the
  error reporter (\<open>src/error\<close>) for the most similar name. Lowering (\<open>src/ir/ir_lowering.c\<close>) yields a list of
  instructions per function, which the optimiser (\<open>src/ir/ir_optimize.c\<close>) rewrites in place. The back end
  (\<open>src/codegen\<close>) emits machine code into an object builder, which writes a COFF file; the linker
  (\<open>src/linker\<close>) reads such files back, merges their sections, resolves symbols, binds what is left to the
  imports of import libraries, lays the image out, patches relocations and writes a Windows executable.

  \<^bold>\<open>Theories and sources.\<close>
  \<^item> \<open>Mettle_Prelude\<close>: names for the C types, the C library functions used, shared lemmas on lists.
  \<^item> \<open>String_Intern\<close> (\<open>src/common.c\<close> and the interner of \<open>src/lexer/lexer.c\<close>): the two hash tables, growth,
    lookup by content and by address. Interned addresses are equal exactly when the strings are.
  \<^item> \<open>Token\<close>, \<open>Lexer\<close>, \<open>Lexer_Props\<close>, \<open>Lexer_Lines\<close>, \<open>Lexer_Text\<close> (\<open>src/lexer\<close>): the token kinds, every
    scanning function, progress and termination, line numbers, what text a token covers, look-ahead and the
    round trips of words, strings and numbers.
  \<^item> \<open>Ast\<close> (\<open>src/parser/ast.h\<close>, \<open>ast.c\<close>): the nodes of the syntax tree, their constructors and the deep copy.
  \<^item> \<open>Parser_State\<close>, \<open>Parser_Expr\<close>, \<open>Parser_Decl\<close>, \<open>Parser_Stmt\<close> (\<open>src/parser/parser.c\<close>): the state of the parser with
    its two tokens of look-ahead, errors, speculation and recovery; the parsers of types and expressions, of
    declarations without statements, and of statements, functions, structs, traits and programs.
  \<^item> \<open>Parser_Stream\<close>, \<open>Parser_Grammar\<close>, \<open>Expr_Grammar\<close>, \<open>Parser_Fuel\<close>, \<open>Parser_Props\<close>: what is left to read as a stream of
    tokens, the grammar of types and expressions, the proof that the parser stays within it in spite of
    speculation, and the proof that it returns on every text.
  \<^item> \<open>Decl_Fuel\<close>, \<open>Program_Parser\<close>: the parser of programs returns on every text and reads it to its end. The locale
    \<open>statement_parser\<close> states what the parsers of blocks and functions need of the parser of statements they are given;
    \<open>parser_parse_statement\<close> is its interpretation.
  \<^item> \<open>Mono_Types\<close>, \<open>Type_Text\<close>, \<open>Monomorphize\<close>, \<open>Mono_Props\<close> (\<open>src/semantic/monomorphize.c\<close>): types as texts, the structure
    behind them, the context of monomorphisation, every traversal of the tree and the loop over the instances.
  \<^item> \<open>Types\<close> (\<open>src/semantic/symbol_table.c\<close>): type records, struct layout, compatibility of recursive types.
  \<^item> \<open>Open_Index\<close>: open addressing as both hash indexes of the compiler use it, over a locale \<open>bucket_hash\<close>
    that fixes the home bucket of a name; \<open>Name_Index\<close> and \<open>Binary_Emitter\<close> interpret it with their hashes.
  \<^item> \<open>Name_Index\<close>, \<open>Symbol_Table\<close> (\<open>src/semantic/symbol_table.c\<close>): scopes, the name index of a scope,
    declaration, forward declarations, lookup. The table refines a stack of finite maps.
  \<^item> \<open>Suggestions\<close> (\<open>src/error/error_reporter.c\<close>): edit distance and the nearest name.
  \<^item> \<open>IR_Code\<close>, \<open>IR_Flow\<close>, \<open>IR_Cfg\<close>, \<open>IR_Fold\<close>, \<open>IR_Driver\<close>, \<open>IR_Optimizer\<close> (\<open>src/ir\<close>): operands and
    instructions, an execution relation over a machine that is a parameter, the control-flow passes, the
    control-flow graph and the removal of unreachable blocks, constant folding and algebraic
    simplification, and the fixpoint loop that drives the passes.
  \<^item> \<open>Linker_Bytes\<close>, \<open>Coff_Reader\<close> (\<open>src/linker/linker_common.h\<close>, \<open>coff_reader.c\<close>): little-endian fields and
    the parser of object files; a read outside the file is a value of its own, \<open>Inl Fault\<close>.
  \<^item> \<open>Symbol_Resolve\<close>, \<open>Link_Layout\<close>, \<open>Link_Symbols\<close> (\<open>src/linker/symbol_resolve.c\<close>): merging of sections,
    addresses, the global symbol table over a locale of registration, validation of externals.
  \<^item> \<open>Relocation\<close>, \<open>Link_Safety\<close> (\<open>src/linker/relocation.c\<close>): patching of fields, and the bounds that keep
    every access of the linker inside its buffers.
  \<^item> \<open>Binary_Emitter\<close>, \<open>Coff_Writer\<close>, \<open>Coff_Roundtrip\<close> (\<open>src/codegen/binary_emitter.c\<close>): the object builder,
    the bytes of the file it writes, and the proof that the reader recovers what was written.
  \<^item> \<open>X86_Encode\<close>, \<open>X86_Decode\<close>, \<open>X86_Roundtrip\<close>, \<open>X86_Program\<close>, \<open>X86_Exec\<close> (\<open>src/codegen/binary/encoders.c\<close>):
    the bytes of every instruction encoder; a reference decoder of the x86-64 format and the proof that it
    recovers each instruction and any sequence of them; a machine that executes decoded instructions, on which
    the encoders that choose between forms are shown to compute what they should.
  \<^item> \<open>Import_Lib\<close>, \<open>Import_Roundtrip\<close> (\<open>src/linker/import_lib.c\<close>): the reader of import libraries, its safety on
    any file and the round trip of well-formed archives.
  \<^item> \<open>Pe_Emitter\<close>, \<open>Pe_Layout\<close>, \<open>Pe_Image\<close> (\<open>src/linker/pe_emitter.c\<close>): binding of imports, import tables,
    layout, headers and contents of the executable; the layout in closed form with its bounds; a reference
    loader and the proof that it finds every linked section at its address.

  \<^bold>\<open>How the code is modelled.\<close> Structs are records and enums datatypes, with the fields and constructors of
  the source. Functions that change state return it. A failing function returns \<open>None\<close> or \<open>Inl\<close> of an error; an
  access outside a buffer is \<open>Inl Fault\<close>. Hashes, relocation fields and IR constants are words of their C width;
  counts of objects in memory are natural numbers. Loops are recursive functions with a termination proof, or
  folds over the positions they visit. Memory allocation succeeds except where the source continues after a
  failure (the scope index), where it is an oracle argument.

  \<^bold>\<open>What is shown.\<close> The lexer makes progress on every call and ends on every input, reports right line numbers
  and covers the text it claims. The parser returns on every text, valid or not, with a program and the whole text
  read; what the expression parser reads without an error is an expression of the grammar with the operators
  grouped by precedence. Deep copies of trees are exact but for three kinds of nodes. Monomorphisation, when it ends, has a copy of the
  template for every instance and an instance for every use; it is shown not to end on one program. Interning, the scope index and the symbol index of the object builder behave
  like finite maps, whatever the hash values. Scopes nest: leaving one restores every lookup. The optimiser's
  modelled passes and the loop around them keep what a function does, ending or not. The linker never reads or
  writes outside its buffers on any input files within the stated sizes; a successful link binds each external
  symbol to its one definition, lays sections out aligned and apart, and puts the right value into each
  relocated field and nowhere else. Object files survive the round trip from writer to reader. Encoded
  instructions decode to what was meant, and the encoders that pick short or shifted forms compute the same
  values. The executable loads as the linked sections at their addresses.

  \<^bold>\<open>Bounds.\<close> The parsing functions take fuel; sixteen times the length of the text and a constant is enough, since a
  chain of calls that consume nothing has less than sixteen members. Jump threading follows 32 jumps and the optimisation loop runs eight times, as in the source; the
  theorems hold for any such number. The linker theorems assume files shorter than 4 GiB, since the reader keeps
  offsets in 32 bits (a longer file makes it read out of bounds, which is proved too), and at most \<open>2 ^ 14\<close>
  files, so that 64-bit sizes do not wrap. The optimiser theorems assume distinct labels, which the code
  generator insists on, and, for folding, operands as lowering makes them and a machine whose operators are
  those of the 64-bit integers. The image theorems assume that the sections fit into 32-bit offsets, which the
  writer does not check (a counterexample is proved), and power-of-two alignments.

  \<^bold>\<open>Not modelled.\<close> The type checker, import resolution and lowering work on
  heap-allocated syntax trees and are left for later theories, as are the data-flow and loop passes of the
  optimiser (they are arguments of the modelled driver), the instruction selection of the back end and the ELF
  writer. The probing of DLLs on Windows is an argument of the image writer. The command line, file access, diagnostics output, debug
  and profile tables and the runtime library of compiled programs are input and output or need a model of the
  operating system.
\<close>

text \<open>(C1) The linker on arbitrary input. Given at most \<open>2 ^ 14\<close> files of less than 4 GiB each, whatever they contain,
  and a power-of-two alignment, neither resolution nor relocation accesses memory outside a file or a
  merged section: each returns a result or rejects the input. Relocation may follow any change of addresses,
  symbol values and section contents (the image writer moves the sections) as long as the inputs and their
  placements stay.\<close>

theorem linker_no_fault:
  assumes "\<forall>path \<in> set paths. \<forall>data. read_file path = Some data \<longrightarrow> length data < 2 ^ 32"
    and "length paths \<le> 2 ^ 14"
    and "power_of_two (effective_alignment options)" and "effective_alignment options \<le> 2 ^ 32"
  shows "link_resolution_build read_file paths options \<noteq> Inl Fault \<and>
    (\<forall>r r' base. link_resolution_build read_file paths options = Inr r \<longrightarrow>
      layout (lr_objects r') = layout (lr_objects r) \<longrightarrow> length (lr_sections r') = length (lr_sections r) \<longrightarrow>
      link_apply_relocations r' base \<noteq> Inl Fault)"
proof (intro conjI allI impI)
  show "link_resolution_build read_file paths options \<noteq> Inl Fault"
    using link_resolution_build_no_fault [OF assms(1)] .
  fix r r' :: LinkResolution and base
  assume b: "link_resolution_build read_file paths options = Inr r"
    and l: "layout (lr_objects r') = layout (lr_objects r)" "length (lr_sections r') = length (lr_sections r)"
  from link_resolution_build_placements [OF b assms(3,4,2)] placements_ok_layout [OF l(1)] l(2)
  have "placements_ok (lr_objects r') (length (lr_sections r'))" by simp
  then show "link_apply_relocations r' base \<noteq> Inl Fault" by (rule link_apply_relocations_no_fault)
qed

theorem linker_no_fault_witness:
  "\<exists>r. link_resolution_build (\<lambda>_. Some small_coff) [''a.o''] None = Inr r \<and> link_apply_relocations r (Some 0x140000000) \<noteq> Inl Fault"
proof -
  obtain r where r: "link_resolution_build (\<lambda>_. Some small_coff) [''a.o''] None = Inr r" by (rule small_coff_builds)
  have p: "power_of_two (effective_alignment None)" using power_of_twoI [of 4] by (simp add: effective_alignment_def)
  have f: "\<forall>path \<in> set [''a.o'']. \<forall>data. (\<lambda>_. Some small_coff) path = Some data \<longrightarrow> length data < 2 ^ 32"
    by (simp add: small_coff_def)
  have "length [''a.o''] \<le> 2 ^ 14" "effective_alignment None \<le> 2 ^ 32" by (simp_all add: effective_alignment_def)
  from linker_no_fault [OF f this(1) p this(2)] r show ?thesis by blast
qed

end
